(* ===== verification/Go_Prelude.thy ===== *)
theory Go_Prelude
  imports Main
begin

text \<open>
  The shared vocabulary of the development: the parts of the Go language and of its
  standard library that the modelled sources use.

  A Go \<^verbatim>\<open>string\<close> is a sequence of bytes, so it is modelled by HOL's \<open>string\<close>
  (a list of 8-bit characters); \<^verbatim>\<open>len(s)\<close> is \<open>length s\<close>. Go's \<^verbatim>\<open>int\<close> is
  modelled by \<open>int\<close>: every integer of the modelled code is a length, a token count or a
  small configuration value, far below \<open>2 ^ 63\<close>; hashes and bit sets, where the width
  matters, use words (theory Dedup). Go's \<^verbatim>\<open>time.Time\<close> and
  \<^verbatim>\<open>time.Duration\<close> are nanosecond counts (\<open>int\<close>), and the clock reading
  \<^verbatim>\<open>time.Now()\<close> is an argument of the operation that reads it.

  The section on strings models package \<^verbatim>\<open>strings\<close>: \<open>contains\<close>, \<open>has_prefix\<close>,
  \<open>split_on\<close> (a one-byte separator), \<open>join\<close>, \<open>trimSpace\<close>, \<open>toLower\<close>, \<open>str_fields\<close>,
  and \<^verbatim>\<open>strconv.Itoa\<close>.
\<close>

section \<open>Collections of rules\<close>

named_theorems go_str \<open>laws of the string operations\<close>
named_theorems go_inv \<open>preservation of component invariants\<close>

section \<open>Types\<close>

type_synonym gotime = int
type_synonym duration = int

abbreviation nl :: char where
  "nl \<equiv> CHR 0x0A"

abbreviation Second :: duration where
  "Second \<equiv> 1000000000"

abbreviation Minute :: duration where
  "Minute \<equiv> 60 * Second"

abbreviation Hour :: duration where
  "Hour \<equiv> 60 * Minute"

abbreviation len :: "'a list \<Rightarrow> int" where
  "len xs \<equiv> int (length xs)"

text \<open>Go's integer division and remainder truncate towards zero.\<close>

definition go_div :: "int \<Rightarrow> int \<Rightarrow> int" where
  "go_div a b = (if (a < 0) = (b < 0) then \<bar>a\<bar> div \<bar>b\<bar> else - (\<bar>a\<bar> div \<bar>b\<bar>))"

lemma go_div_nonneg [simp]: "0 \<le> a \<Longrightarrow> 0 < b \<Longrightarrow> go_div a b = a div b"
  by (auto simp: go_div_def)

section \<open>Lists\<close>

lemma len_remove1: "x \<in> set xs \<Longrightarrow> len (remove1 x xs) = len xs - 1"
  by (cases xs) (auto simp: length_remove1 of_nat_diff Suc_le_eq dest: length_pos_if_in_set)

lemma len_remove1_le: "len (remove1 x xs) \<le> len xs"
  by (simp add: length_remove1)

lemma remove1_last: "distinct xs \<Longrightarrow> xs \<noteq> [] \<Longrightarrow> remove1 (last xs) xs = butlast xs"
  by (induction xs rule: rev_induct) (auto simp: remove1_append)

lemma in_set_remove1D: "y \<in> set (remove1 x xs) \<Longrightarrow> y \<in> set xs"
  using set_remove1_subset by fast

section \<open>Substrings\<close>

text \<open>\<^verbatim>\<open>strings.HasPrefix(s, p)\<close>.\<close>

fun has_prefix :: "string \<Rightarrow> string \<Rightarrow> bool" where
  "has_prefix s [] = True"
| "has_prefix [] (p # ps) = False"
| "has_prefix (c # s) (p # ps) = (c = p \<and> has_prefix s ps)"

text \<open>\<^verbatim>\<open>strings.Contains(s, p)\<close>.\<close>

fun contains :: "string \<Rightarrow> string \<Rightarrow> bool" where
  "contains [] p = (p = [])"
| "contains (c # s) p = (has_prefix (c # s) p \<or> contains s p)"

lemma has_prefix_iff [go_str]: "has_prefix s p \<longleftrightarrow> (\<exists>t. s = p @ t)"
  by (induction s p rule: has_prefix.induct) auto

lemma contains_iff [go_str]: "contains s p \<longleftrightarrow> (\<exists>u v. s = u @ p @ v)"
proof (induction s)
  case Nil
  show ?case by auto
next
  case (Cons c s)
  show ?case (is "?l \<longleftrightarrow> ?r")
  proof
    assume ?l
    then consider "has_prefix (c # s) p" | "contains s p" by auto
    then show ?r
    proof cases
      case 1
      then have "\<exists>v. c # s = [] @ p @ v" by (simp add: has_prefix_iff)
      then show ?thesis by blast
    next
      case 2
      then obtain u v where "s = u @ p @ v" using Cons.IH by blast
      then have "c # s = (c # u) @ p @ v" by simp
      then show ?thesis by blast
    qed
  next
    assume ?r
    then obtain u v where eq: "c # s = u @ p @ v" by blast
    show ?l
    proof (cases u)
      case Nil
      with eq have "has_prefix (c # s) p" by (simp add: has_prefix_iff)
      then show ?thesis by simp
    next
      case (Cons d u')
      with eq have "s = u' @ p @ v" by simp
      then have "contains s p" using Cons.IH by blast
      then show ?thesis by simp
    qed
  qed
qed

lemma contains_infix [go_str]: "contains (u @ p @ v) p"
  by (auto simp: contains_iff)

lemma contains_mono [go_str]: "contains s p \<Longrightarrow> contains (u @ s @ v) p"
  unfolding contains_iff by (metis append.assoc)

definition contains_any :: "string \<Rightarrow> string list \<Rightarrow> bool" where
  "contains_any s ps = list_ex (contains s) ps"

section \<open>Splitting and joining lines\<close>

text \<open>
  \<^verbatim>\<open>strings.Split(s, sep)\<close> for a one-byte separator, and \<^verbatim>\<open>strings.Join\<close>.
\<close>

fun split_on :: "char \<Rightarrow> string \<Rightarrow> string list" where
  "split_on c [] = [[]]"
| "split_on c (x # xs) =
     (if x = c then [] # split_on c xs
      else (case split_on c xs of [] \<Rightarrow> [[x]] | y # ys \<Rightarrow> (x # y) # ys))"

fun join :: "string \<Rightarrow> string list \<Rightarrow> string" where
  "join sep [] = []"
| "join sep [x] = x"
| "join sep (x # y # ys) = x @ sep @ join sep (y # ys)"

abbreviation split_lines :: "string \<Rightarrow> string list" where
  "split_lines \<equiv> split_on nl"

abbreviation join_lines :: "string list \<Rightarrow> string" where
  "join_lines \<equiv> join [nl]"

lemma split_on_nonempty [simp]: "split_on c s \<noteq> []"
  by (induction s) (auto split: list.splits)

lemma length_split_on [go_str]: "length (split_on c s) = Suc (count_list s c)"
proof (induction s)
  case (Cons x s)
  then show ?case by (cases "split_on c s") auto
qed simp

lemma join_Cons [go_str]: "join sep (x # ys) = (if ys = [] then x else x @ sep @ join sep ys)"
  by (cases ys) auto

lemma join_append [go_str]:
  "join sep (xs @ ys) =
     (if xs = [] then join sep ys else if ys = [] then join sep xs
      else join sep xs @ sep @ join sep ys)"
  by (induction xs) (auto simp: join_Cons)

lemma join_split [simp]: "join [c] (split_on c s) = s"
proof (induction s)
  case (Cons x s)
  obtain y ys where eq: "split_on c s = y # ys"
    by (cases "split_on c s") auto
  with Cons show ?case by (cases ys) auto
qed simp

lemma split_no_sep [go_str]: "l \<in> set (split_on c s) \<Longrightarrow> c \<notin> set l"
proof (induction s arbitrary: l)
  case (Cons x s)
  obtain y ys where eq: "split_on c s = y # ys"
    by (cases "split_on c s") auto
  with Cons show ?case by (auto split: if_splits)
qed simp

lemma split_plain [go_str]: "c \<notin> set x \<Longrightarrow> split_on c x = [x]"
  by (induction x) auto

lemma split_app_sep [go_str]:
  "c \<notin> set x \<Longrightarrow> split_on c (x @ c # s) = x # split_on c s"
  by (induction x) auto

lemma split_join [go_str]:
  "ls \<noteq> [] \<Longrightarrow> (\<forall>l \<in> set ls. c \<notin> set l) \<Longrightarrow> split_on c (join [c] ls) = ls"
  by (induction ls) (auto simp: join_Cons split_plain split_app_sep)

lemma length_join [go_str]:
  "ls \<noteq> [] \<Longrightarrow> length (join [c] ls) = sum_list (map length ls) + (length ls - 1)"
  by (induction ls) (auto simp: join_Cons neq_Nil_conv)

section \<open>White space, case and words\<close>

text \<open>
  \<^verbatim>\<open>unicode.IsSpace\<close> on the UTF-8 encoding: the six ASCII spaces, and U+0085, U+00A0,
  U+1680, U+2000..U+200A, U+2028, U+2029, U+202F, U+205F and U+3000. No encoding of a space
  is a proper prefix or suffix of another, and each begins with a lead byte, so matching
  the byte sequences is the same as decoding runes and testing them.
\<close>

definition space_seqs :: "string list" where
  "space_seqs =
     [[CHR 0x20], [CHR 0x09], [CHR 0x0A], [CHR 0x0B], [CHR 0x0C], [CHR 0x0D],
      [CHR 0xC2, CHR 0x85], [CHR 0xC2, CHR 0xA0], [CHR 0xE1, CHR 0x9A, CHR 0x80],
      [CHR 0xE2, CHR 0x80, CHR 0x80], [CHR 0xE2, CHR 0x80, CHR 0x81],
      [CHR 0xE2, CHR 0x80, CHR 0x82], [CHR 0xE2, CHR 0x80, CHR 0x83],
      [CHR 0xE2, CHR 0x80, CHR 0x84], [CHR 0xE2, CHR 0x80, CHR 0x85],
      [CHR 0xE2, CHR 0x80, CHR 0x86], [CHR 0xE2, CHR 0x80, CHR 0x87],
      [CHR 0xE2, CHR 0x80, CHR 0x88], [CHR 0xE2, CHR 0x80, CHR 0x89],
      [CHR 0xE2, CHR 0x80, CHR 0x8A], [CHR 0xE2, CHR 0x80, CHR 0xA8],
      [CHR 0xE2, CHR 0x80, CHR 0xA9], [CHR 0xE2, CHR 0x80, CHR 0xAF],
      [CHR 0xE2, CHR 0x81, CHR 0x9F], [CHR 0xE3, CHR 0x80, CHR 0x80]]"

fun strip_seqs :: "string list \<Rightarrow> string \<Rightarrow> string option" where
  "strip_seqs [] s = None"
| "strip_seqs (p # ps) s = (if has_prefix s p then Some (drop (length p) s) else strip_seqs ps s)"

text \<open>Removing leading sequences; the fuel is the length of the string, which bounds the
  number of sequences that can be removed.\<close>

fun trim_left_fuel :: "string list \<Rightarrow> nat \<Rightarrow> string \<Rightarrow> string" where
  "trim_left_fuel ps 0 s = s"
| "trim_left_fuel ps (Suc n) s =
     (case strip_seqs ps s of None \<Rightarrow> s | Some t \<Rightarrow> trim_left_fuel ps n t)"

definition trim_left :: "string list \<Rightarrow> string \<Rightarrow> string" where
  "trim_left ps s = trim_left_fuel ps (length s) s"

text \<open>\<^verbatim>\<open>strings.TrimSpace\<close>: trim on the left, then on the right (the reversed
  string against the reversed sequences).\<close>

definition trimSpace :: "string \<Rightarrow> string" where
  "trimSpace s = rev (trim_left (map rev space_seqs) (rev (trim_left space_seqs s)))"

text \<open>
  \<^verbatim>\<open>strings.ToLower\<close>, as far as a search for an ASCII pattern in the result can see:
  ASCII capitals are lowered, and so are the only two other code points whose lower case is
  ASCII, U+212A (Kelvin sign, to k) and U+0130 (to i). Every other non-ASCII letter lowers to
  a non-ASCII letter and is left as it is here.
\<close>

definition lower_byte :: "char \<Rightarrow> char" where
  "lower_byte c =
     (let n = (of_char c :: nat) in if 65 \<le> n \<and> n \<le> 90 then char_of (n + 32) else c)"

fun toLower :: "string \<Rightarrow> string" where
  "toLower [] = []"
| "toLower (c # s) =
     (if has_prefix (c # s) [CHR 0xE2, CHR 0x84, CHR 0xAA] then CHR ''k'' # toLower (drop 2 s)
      else if has_prefix (c # s) [CHR 0xC4, CHR 0xB0] then CHR ''i'' # toLower (drop 1 s)
      else lower_byte c # toLower s)"

text \<open>\<^verbatim>\<open>strings.Fields\<close>: the maximal runs between white space.\<close>

fun str_fields_fuel :: "nat \<Rightarrow> string \<Rightarrow> string \<Rightarrow> string list" where
  "str_fields_fuel 0 w s = (if w = [] then [] else [rev w])"
| "str_fields_fuel (Suc n) w [] = (if w = [] then [] else [rev w])"
| "str_fields_fuel (Suc n) w (c # s) =
     (case strip_seqs space_seqs (c # s) of
        None \<Rightarrow> str_fields_fuel n (c # w) s
      | Some t \<Rightarrow> (if w = [] then str_fields_fuel n [] t else rev w # str_fields_fuel n [] t))"

definition str_fields :: "string \<Rightarrow> string list" where
  "str_fields s = str_fields_fuel (Suc (length s)) [] s"

text \<open>\<^verbatim>\<open>strings.Trim(s, cutset)\<close> for an ASCII cutset.\<close>

definition trim_cutset :: "string \<Rightarrow> string \<Rightarrow> string" where
  "trim_cutset cutset s =
     rev (dropWhile (\<lambda>c. c \<in> set cutset) (rev (dropWhile (\<lambda>c. c \<in> set cutset) s)))"

section \<open>Decimal numbers\<close>

text \<open>\<^verbatim>\<open>strconv.Itoa\<close>.\<close>

fun itoa_nat :: "nat \<Rightarrow> string" where
  "itoa_nat n = (if n < 10 then [char_of (48 + n)]
                 else itoa_nat (n div 10) @ [char_of (48 + n mod 10)])"

declare itoa_nat.simps [simp del]

definition itoa :: "int \<Rightarrow> string" where
  "itoa i = (if i < 0 then CHR ''-'' # itoa_nat (nat (- i)) else itoa_nat (nat i))"

lemma itoa_nat_nonempty [simp]: "itoa_nat n \<noteq> []"
  by (subst itoa_nat.simps) simp

section \<open>Association lists as Go maps\<close>

text \<open>
  Where a Go map is iterated over or its size matters, it is an association list with
  distinct keys; the list order is the iteration order, which Go leaves unspecified, so
  operations that range over a map take that order as it is and their properties hold for
  every list that represents the same map.
\<close>

fun al_get :: "('k \<times> 'v) list \<Rightarrow> 'k \<Rightarrow> 'v option" where
  "al_get [] k = None"
| "al_get ((k', v) # m) k = (if k = k' then Some v else al_get m k)"

fun al_put :: "'k \<Rightarrow> 'v \<Rightarrow> ('k \<times> 'v) list \<Rightarrow> ('k \<times> 'v) list" where
  "al_put k v [] = [(k, v)]"
| "al_put k v ((k', v') # m) = (if k = k' then (k, v) # m else (k', v') # al_put k v m)"

definition al_del :: "'k \<Rightarrow> ('k \<times> 'v) list \<Rightarrow> ('k \<times> 'v) list" where
  "al_del k m = filter (\<lambda>(k', _). k' \<noteq> k) m"

abbreviation al_keys :: "('k \<times> 'v) list \<Rightarrow> 'k list" where
  "al_keys m \<equiv> map fst m"

lemma al_get_map_of: "al_get m k = map_of m k"
  by (induction m k rule: al_get.induct) auto

lemma al_get_put [simp]: "al_get (al_put k v m) k' = (if k' = k then Some v else al_get m k')"
  by (induction k v m rule: al_put.induct) auto

lemma al_get_del [simp]: "al_get (al_del k m) k' = (if k' = k then None else al_get m k')"
  by (induction m) (auto simp: al_del_def)

lemma al_get_None_iff: "al_get m k = None \<longleftrightarrow> k \<notin> set (al_keys m)"
  by (induction m k rule: al_get.induct) auto

lemma al_get_Some_in: "al_get m k = Some v \<Longrightarrow> (k, v) \<in> set m"
  by (induction m k rule: al_get.induct) (auto split: if_splits)

lemma al_get_Some_key: "al_get m k = Some v \<Longrightarrow> k \<in> set (al_keys m)"
  by (drule al_get_Some_in) force

lemma al_keys_put:
  "al_keys (al_put k v m) = (if k \<in> set (al_keys m) then al_keys m else al_keys m @ [k])"
  by (induction k v m rule: al_put.induct) auto

lemma fst_set_al_put [simp]: "fst ` set (al_put k v m) = insert k (fst ` set m)"
  by (induction k v m rule: al_put.induct) auto

lemma fst_set_al_del [simp]: "fst ` set (al_del k m) = fst ` set m - {k}"
  by (induction m) (auto simp: al_del_def)

lemma set_al_put: "set (al_put k v m) \<subseteq> insert (k, v) (set m)"
  by (induction k v m rule: al_put.induct) auto

lemma length_al_put:
  "length (al_put k v m) = (if k \<in> set (al_keys m) then length m else Suc (length m))"
  by (induction k v m rule: al_put.induct) auto

lemma al_keys_del: "al_keys (al_del k m) = removeAll k (al_keys m)"
  by (induction m) (auto simp: al_del_def)

lemma length_al_del:
  assumes "distinct (al_keys m)" and "k \<in> set (al_keys m)"
  shows "length (al_del k m) = length m - 1"
proof -
  have "length (al_del k m) = length (removeAll k (al_keys m))"
    by (simp flip: al_keys_del)
  also have "\<dots> = length (remove1 k (al_keys m))"
    using assms(1) by (simp add: distinct_remove1_removeAll)
  also have "\<dots> = length m - 1"
    using assms(2) by (simp add: length_remove1)
  finally show ?thesis .
qed

lemma len_al_del:
  assumes "distinct (al_keys m)" and "k \<in> set (al_keys m)"
  shows "len (al_del k m) = len m - 1"
proof -
  have "0 < length m" using length_pos_if_in_set [OF assms(2)] by simp
  then show ?thesis using length_al_del [OF assms] by (simp add: of_nat_diff Suc_le_eq)
qed

lemma length_al_del_le: "length (al_del k m) \<le> length m"
  by (simp add: al_del_def)

lemma distinct_al_put [simp]: "distinct (al_keys m) \<Longrightarrow> distinct (al_keys (al_put k v m))"
  by (simp add: al_keys_put)

lemma distinct_al_del [simp]: "distinct (al_keys m) \<Longrightarrow> distinct (al_keys (al_del k m))"
  by (simp add: al_keys_del distinct_removeAll)

end
