(* ===== verification/Estimator.thy ===== *)
theory Estimator
  imports Go_Prelude
begin

text \<open>
  Token estimation (\<^verbatim>\<open>internal/core/estimator.go\<close>): the LRU cache of token counts,
  the BPE tokenizer that wraps the third-party codec, and the entry point
  \<^verbatim>\<open>EstimateTokens\<close> that the whole program uses to measure text.

  The codec is not part of the repository: it is the parameter \<open>codec\<close>, a function from a
  text to \<open>Some n\<close> (its count) or \<open>None\<close> (an error). The cache is mutated under a lock; its
  \<^verbatim>\<open>get\<close> takes the lock twice (a read, then a promotion), and the two critical
  sections are two operations here, so that what other goroutines do between them can be
  stated. The main result is that caching is invisible: \<^verbatim>\<open>EstimateTokens\<close> returns the
  value of a pure function of the text, which is what the other components take as their
  argument \<open>est\<close>.
\<close>

section \<open>The token cache\<close>

record tokenCache =
  tc_items :: "string \<rightharpoonup> int"
  tc_ll :: "string list"
  tc_max :: int
  tc_hits :: int

definition newTokenCache :: "int \<Rightarrow> tokenCache" where
  "newTokenCache maxSize = \<lparr>tc_items = Map.empty, tc_ll = [], tc_max = maxSize, tc_hits = 0\<rparr>"

text \<open>\<^verbatim>\<open>get\<close>: the lookup under the read lock, the promotion under the write lock
  (which looks the entry up again), and their composition.\<close>

definition tc_read :: "tokenCache \<Rightarrow> string \<Rightarrow> int option" where
  "tc_read c text = tc_items c text"

definition tc_promote :: "string \<Rightarrow> tokenCache \<Rightarrow> tokenCache" where
  "tc_promote text c =
     (case tc_items c text of
        None \<Rightarrow> c
      | Some _ \<Rightarrow> c\<lparr>tc_ll := text # remove1 text (tc_ll c)\<rparr>)"

definition tc_get :: "tokenCache \<Rightarrow> string \<Rightarrow> (int \<times> bool) \<times> tokenCache" where
  "tc_get c text =
     (case tc_read c text of
        None \<Rightarrow> ((0, False), c)
      | Some n \<Rightarrow>
          (let c' = tc_promote text c in ((n, True), c'\<lparr>tc_hits := tc_hits c' + 1\<rparr>)))"

text \<open>\<^verbatim>\<open>evictLRU\<close>: a quarter of the capacity, at least one entry, from the back.\<close>

definition tc_toRemove :: "tokenCache \<Rightarrow> nat" where
  "tc_toRemove c = (let r = go_div (tc_max c) 4 in if r < 1 then 1 else nat r)"

fun tc_evict_loop :: "nat \<Rightarrow> tokenCache \<Rightarrow> tokenCache" where
  "tc_evict_loop 0 c = c"
| "tc_evict_loop (Suc n) c =
     (if tc_ll c = [] then c
      else tc_evict_loop n
             (c\<lparr>tc_ll := butlast (tc_ll c), tc_items := (tc_items c)(last (tc_ll c) := None)\<rparr>))"

definition tc_evictLRU :: "tokenCache \<Rightarrow> tokenCache" where
  "tc_evictLRU c = tc_evict_loop (tc_toRemove c) c"

definition tc_set :: "string \<Rightarrow> int \<Rightarrow> tokenCache \<Rightarrow> tokenCache" where
  "tc_set text count c =
     (case tc_items c text of
        Some _ \<Rightarrow> c\<lparr>tc_items := (tc_items c)(text \<mapsto> count),
                    tc_ll := text # remove1 text (tc_ll c)\<rparr>
      | None \<Rightarrow>
          (let c' = (if tc_max c \<le> len (tc_ll c) then tc_evictLRU c else c)
           in c'\<lparr>tc_ll := text # tc_ll c', tc_items := (tc_items c')(text \<mapsto> count)\<rparr>))"

section \<open>The tokenizer and the entry point\<close>

definition heuristicTokens :: "string \<Rightarrow> int" where
  "heuristicTokens text = go_div (len text + 3) 4"

definition bpe_Count :: "(string \<Rightarrow> int option) \<Rightarrow> tokenCache \<Rightarrow> string \<Rightarrow> int \<times> tokenCache" where
  "bpe_Count codec cache text =
     (if text = [] then (0, cache)
      else (case tc_get cache text of
          ((val, True), cache') \<Rightarrow> (val, cache')
        | ((_, False), cache') \<Rightarrow>
            (case codec text of
               None \<Rightarrow> (heuristicTokens text, cache')
             | Some count \<Rightarrow> (count, tc_set text count cache'))))"

text \<open>The package variables: the switch \<^verbatim>\<open>useBPE\<close>, the once-guarded instance, its
  error and the ready flag. \<open>load\<close> says whether \<^verbatim>\<open>tiktoken.Get\<close> succeeds.\<close>

record bpeState =
  useBPE :: bool
  bpeOnce :: bool
  bpeReady :: bool
  bpeInstance :: "tokenCache option"
  bpeErr :: bool

definition bpe_init :: bpeState where
  "bpe_init = \<lparr>useBPE = True, bpeOnce = False, bpeReady = False, bpeInstance = None, bpeErr = False\<rparr>"

definition getBPETokenizer :: "bool \<Rightarrow> bpeState \<Rightarrow> bpeState" where
  "getBPETokenizer load st =
     (if bpeOnce st then st
      else if \<not> load then st\<lparr>bpeOnce := True, bpeErr := True\<rparr>
      else st\<lparr>bpeOnce := True, bpeInstance := Some (newTokenCache 1024), bpeReady := True\<rparr>)"

text \<open>\<^verbatim>\<open>EstimateTokens\<close>; \<open>None\<close> is the panic on a nil tokenizer.\<close>

definition EstimateTokens ::
  "bool \<Rightarrow> (string \<Rightarrow> int option) \<Rightarrow> bpeState \<Rightarrow> string \<Rightarrow> (int \<times> bpeState) option" where
  "EstimateTokens load codec st text =
     (if useBPE st \<and> bpeReady st then
        (let st' = getBPETokenizer load st
         in if \<not> bpeErr st' then
              (case bpeInstance st' of
                 None \<Rightarrow> None
               | Some cache \<Rightarrow>
                   (let (n, cache') = bpe_Count codec cache text
                    in Some (n, st'\<lparr>bpeInstance := Some cache'\<rparr>)))
            else Some (heuristicTokens text, st'))
      else Some (heuristicTokens text, st))"

definition CalculateTokensSaved :: "(string \<Rightarrow> int) \<Rightarrow> string \<Rightarrow> string \<Rightarrow> int" where
  "CalculateTokensSaved est original filtered =
     (if est filtered < est original then est original - est filtered else 0)"

section \<open>The contract of an estimator\<close>

text \<open>What the other components use of token estimation.\<close>

locale token_estimator =
  fixes est :: "string \<Rightarrow> int"
  assumes est_nonneg: "0 \<le> est s"
    and est_empty: "est [] = 0"
begin

lemma saved_bounds: "0 \<le> CalculateTokensSaved est s t \<and> CalculateTokensSaved est s t \<le> est s"
  using est_nonneg [of t] est_nonneg [of s] by (simp add: CalculateTokensSaved_def)

lemma saved_eq_max: "CalculateTokensSaved est s t = max 0 (est s - est t)"
  by (simp add: CalculateTokensSaved_def)

lemma saved_all: "CalculateTokensSaved est s [] = est s"
  using est_nonneg [of s] by (simp add: CalculateTokensSaved_def est_empty)

end

interpretation heuristic: token_estimator heuristicTokens
  by unfold_locales (simp_all add: heuristicTokens_def)

lemma heuristic_ceil:
  "4 * heuristicTokens s - 3 \<le> len s" "len s \<le> 4 * heuristicTokens s"
  by (simp_all add: heuristicTokens_def)

lemma heuristic_mono: "length s \<le> length t \<Longrightarrow> heuristicTokens s \<le> heuristicTokens t"
  by (simp add: heuristicTokens_def zdiv_mono1)

section \<open>The invariant of the cache\<close>

definition tc_inv :: "tokenCache \<Rightarrow> bool" where
  "tc_inv c \<longleftrightarrow> distinct (tc_ll c) \<and> set (tc_ll c) = dom (tc_items c) \<and>
     len (tc_ll c) \<le> max 1 (tc_max c)"

definition tc_coherent :: "(string \<Rightarrow> int option) \<Rightarrow> tokenCache \<Rightarrow> bool" where
  "tc_coherent codec c \<longleftrightarrow> (\<forall>k n. tc_items c k = Some n \<longrightarrow> codec k = Some n)"

lemma tc_inv_new [go_inv]: "tc_inv (newTokenCache m)"
  by (simp add: tc_inv_def newTokenCache_def)

lemma tc_inv_promote [go_inv]:
  assumes "tc_inv c"
  shows "tc_inv (tc_promote text c)"
proof (cases "tc_items c text")
  case (Some n)
  with assms have t: "text \<in> set (tc_ll c)" by (auto simp: tc_inv_def)
  then have "length (remove1 text (tc_ll c)) = length (tc_ll c) - 1" "tc_ll c \<noteq> []"
    by (auto simp: length_remove1)
  then have "len (text # remove1 text (tc_ll c)) = len (tc_ll c)" by simp
  with Some t assms show ?thesis by (auto simp: tc_inv_def tc_promote_def)
qed (use assms in \<open>simp add: tc_promote_def\<close>)

lemma tc_evict_loop_eq:
  assumes "distinct (tc_ll c)" "set (tc_ll c) = dom (tc_items c)"
  shows "tc_ll (tc_evict_loop n c) = take (length (tc_ll c) - n) (tc_ll c) \<and>
    tc_items (tc_evict_loop n c) = tc_items c |` set (take (length (tc_ll c) - n) (tc_ll c)) \<and>
    tc_max (tc_evict_loop n c) = tc_max c \<and> tc_hits (tc_evict_loop n c) = tc_hits c"
  using assms
proof (induction n c rule: tc_evict_loop.induct)
  case (1 c)
  then have "tc_items c |` set (tc_ll c) = tc_items c"
    by (intro ext) (auto simp: restrict_map_def)
  then show ?case by simp
next
  case (2 n c)
  show ?case
  proof (cases "tc_ll c" rule: rev_cases)
    case Nil
    with "2.prems" show ?thesis by (auto simp: restrict_map_def fun_eq_iff)
  next
    case (snoc xs x)
    define c' where
      "c' = c\<lparr>tc_ll := butlast (tc_ll c), tc_items := (tc_items c)(last (tc_ll c) := None)\<rparr>"
    have c': "tc_ll c' = xs" "tc_items c' = (tc_items c)(x := None)" "tc_max c' = tc_max c"
      "tc_hits c' = tc_hits c"
      by (simp_all add: c'_def snoc)
    from snoc "2.prems" have IH: "distinct (tc_ll c')" "set (tc_ll c') = dom (tc_items c')"
      by (auto simp: c')
    let ?S = "set (take (length xs - n) xs)"
    have "x \<notin> ?S" using snoc "2.prems" by (auto dest: in_set_takeD)
    then have restr: "tc_items c' |` ?S = tc_items c |` ?S"
      by (auto simp: c' restrict_map_def fun_eq_iff)
    have loop: "tc_evict_loop (Suc n) c = tc_evict_loop n c'" using snoc by (simp add: c'_def)
    have "tc_ll c \<noteq> []" using snoc by simp
    from "2.IH" [folded c'_def, OF this IH]
    have "tc_ll (tc_evict_loop n c') = take (length (tc_ll c') - n) (tc_ll c') \<and>
      tc_items (tc_evict_loop n c') =
        tc_items c' |` set (take (length (tc_ll c') - n) (tc_ll c')) \<and>
      tc_max (tc_evict_loop n c') = tc_max c' \<and> tc_hits (tc_evict_loop n c') = tc_hits c'"
      .
    then show ?thesis unfolding loop using restr snoc by (simp add: c'(1,3,4))
  qed
qed

lemma tc_toRemove_pos: "0 < tc_toRemove c"
  by (simp add: tc_toRemove_def Let_def)

text \<open>Inserting a new text into a full cache drops exactly the least recently used texts.\<close>

lemma tc_set_new:
  assumes "tc_inv c" "tc_items c text = None"
  defines "keep \<equiv> (if tc_max c \<le> len (tc_ll c) then take (length (tc_ll c) - tc_toRemove c) (tc_ll c)
                   else tc_ll c)"
  shows "tc_ll (tc_set text n c) = text # keep"
    and "tc_items (tc_set text n c) = (tc_items c |` set keep)(text \<mapsto> n)"
    and "tc_max (tc_set text n c) = tc_max c"
proof -
  have d: "distinct (tc_ll c)" "set (tc_ll c) = dom (tc_items c)"
    using assms(1) by (auto simp: tc_inv_def)
  have full: "tc_items c |` set (tc_ll c) = tc_items c"
    using d(2) by (intro ext) (auto simp: restrict_map_def)
  note ev = tc_evict_loop_eq [OF d, of "tc_toRemove c"]
  show "tc_ll (tc_set text n c) = text # keep"
    and "tc_items (tc_set text n c) = (tc_items c |` set keep)(text \<mapsto> n)"
    and "tc_max (tc_set text n c) = tc_max c"
    using assms(2) ev full by (auto simp: tc_set_def keep_def tc_evictLRU_def Let_def)
qed

lemma tc_set_old:
  assumes "tc_items c text = Some m"
  shows "tc_set text n c = (tc_promote text c)\<lparr>tc_items := (tc_items c)(text \<mapsto> n)\<rparr>"
  using assms by (simp add: tc_set_def tc_promote_def)

lemma tc_inv_set [go_inv]:
  assumes "tc_inv c"
  shows "tc_inv (tc_set text n c)"
proof (cases "tc_items c text")
  case (Some m)
  have "tc_inv (tc_promote text c)" using assms by (rule tc_inv_promote)
  then show ?thesis unfolding tc_set_old [OF Some]
    using Some by (auto simp: tc_inv_def tc_promote_def)
next
  case None
  define keep where "keep = (if tc_max c \<le> len (tc_ll c)
    then take (length (tc_ll c) - tc_toRemove c) (tc_ll c) else tc_ll c)"
  note eqs = tc_set_new [OF assms None, of n, folded keep_def]
  have inv: "distinct (tc_ll c)" "set (tc_ll c) = dom (tc_items c)" "len (tc_ll c) \<le> max 1 (tc_max c)"
    using assms by (auto simp: tc_inv_def)
  have sub: "set keep \<subseteq> dom (tc_items c)"
    using inv(2) by (auto simp: keep_def dest: in_set_takeD)
  have "len keep + 1 \<le> max 1 (tc_max c)"
    using inv(3) tc_toRemove_pos [of c] by (auto simp: keep_def)
  moreover have "distinct (text # keep)"
    using inv(1) sub None by (auto simp: keep_def)
  moreover have "set (text # keep) = dom ((tc_items c |` set keep)(text \<mapsto> n))"
    using sub by (auto simp: restrict_map_def dom_def)
  ultimately show ?thesis by (simp add: tc_inv_def eqs)
qed

lemma tc_set_lookup: "tc_items (tc_set text n c) text = Some n"
  by (auto simp: tc_set_def Let_def split: option.splits)

lemma tc_set_sub:
  assumes "tc_inv c" "tc_items (tc_set text n c) k = Some m" "k \<noteq> text"
  shows "tc_items c k = Some m"
proof (cases "tc_items c text")
  case None
  then show ?thesis
    using assms(2,3) by (auto simp: tc_set_new [OF assms(1)] restrict_map_def split: if_splits)
next
  case (Some m')
  then show ?thesis using assms(2,3) by (simp add: tc_set_def)
qed

lemma tc_promote_items [simp]: "tc_items (tc_promote text c) = tc_items c"
  by (simp add: tc_promote_def split: option.splits)

lemma tc_coherent_set [go_inv]:
  assumes "tc_inv c" "tc_coherent codec c" "codec text = Some n"
  shows "tc_coherent codec (tc_set text n c)"
  unfolding tc_coherent_def
proof (intro allI impI)
  fix k m
  assume k: "tc_items (tc_set text n c) k = Some m"
  show "codec k = Some m"
  proof (cases "k = text")
    case True
    with k show ?thesis using assms(3) by (simp add: tc_set_lookup)
  next
    case False
    then show ?thesis using tc_set_sub [OF assms(1) k] assms(2) by (simp add: tc_coherent_def)
  qed
qed

lemma tc_get_inv [go_inv]: "tc_inv c \<Longrightarrow> tc_inv (snd (tc_get c text))"
  using tc_inv_promote [of c "text"]
  by (auto simp: tc_get_def Let_def tc_inv_def split: option.splits)

lemma tc_get_items [simp]: "tc_items (snd (tc_get c text)) = tc_items c"
  by (auto simp: tc_get_def Let_def split: option.splits)

section \<open>Interleaved use by several goroutines\<close>

text \<open>The critical sections other goroutines may run, and a run of them.\<close>

datatype tc_op = Promote string | Store string int | Hit

fun tc_exec :: "tc_op \<Rightarrow> tokenCache \<Rightarrow> tokenCache" where
  "tc_exec (Promote t) c = tc_promote t c"
| "tc_exec (Store t n) c = tc_set t n c"
| "tc_exec Hit c = c\<lparr>tc_hits := tc_hits c + 1\<rparr>"

fun tc_op_ok :: "(string \<Rightarrow> int option) \<Rightarrow> tc_op \<Rightarrow> bool" where
  "tc_op_ok codec (Store t n) = (codec t = Some n)"
| "tc_op_ok codec _ = True"

definition tc_good :: "(string \<Rightarrow> int option) \<Rightarrow> tokenCache \<Rightarrow> bool" where
  "tc_good codec c \<longleftrightarrow> tc_inv c \<and> tc_coherent codec c"

lemma tc_exec_good [go_inv]:
  "tc_good codec c \<Longrightarrow> tc_op_ok codec op \<Longrightarrow> tc_good codec (tc_exec op c)"
  by (cases op)
    (auto simp: tc_good_def go_inv, auto simp: tc_inv_def tc_coherent_def)

lemma tc_run_good [go_inv]:
  "tc_good codec c \<Longrightarrow> list_all (tc_op_ok codec) ops \<Longrightarrow> tc_good codec (fold tc_exec ops c)"
  by (induction ops arbitrary: c) (auto simp: tc_exec_good)

section \<open>Caching is invisible\<close>

definition bpeCount :: "(string \<Rightarrow> int option) \<Rightarrow> string \<Rightarrow> int" where
  "bpeCount codec text =
     (if text = [] then 0
      else (case codec text of None \<Rightarrow> heuristicTokens text | Some n \<Rightarrow> n))"

lemma bpe_Count_eq:
  assumes "tc_good codec cache" "bpe_Count codec cache text = (n, cache')"
  shows "n = bpeCount codec text \<and> tc_good codec cache'"
proof -
  obtain v b c' where get: "tc_get cache text = ((v, b), c')" by (metis prod.exhaust)
  have c': "tc_inv c'" "tc_items c' = tc_items cache"
    using assms(1) tc_get_inv [of cache "text"] tc_get_items [of cache "text"]
    by (auto simp: get tc_good_def)
  have good: "tc_good codec c'"
    using assms(1) c' by (auto simp: tc_good_def tc_coherent_def)
  have hit: "b \<Longrightarrow> tc_items cache text = Some v"
    using get by (auto simp: tc_get_def tc_read_def Let_def split: option.splits)
  show ?thesis
    using assms good hit
    by (cases b; cases "codec text")
      (auto simp: bpe_Count_def bpeCount_def get tc_good_def tc_coherent_def
        intro: tc_inv_set tc_coherent_set [unfolded tc_coherent_def, rule_format]
        split: if_splits)
qed

definition est_inv :: "(string \<Rightarrow> int option) \<Rightarrow> bpeState \<Rightarrow> bool" where
  "est_inv codec st \<longleftrightarrow>
     (bpeReady st \<longrightarrow>
        bpeOnce st \<and> \<not> bpeErr st \<and> (\<exists>c. bpeInstance st = Some c \<and> tc_good codec c))"

lemma est_inv_init [go_inv]: "est_inv codec bpe_init"
  by (simp add: est_inv_def bpe_init_def)

lemma tc_good_new [go_inv]: "tc_good codec (newTokenCache m)"
  using tc_inv_new by (simp add: tc_good_def tc_coherent_def newTokenCache_def)

lemma tc_exec_max [simp]:
  assumes "tc_inv c"
  shows "tc_max (tc_exec op c) = tc_max c"
proof (cases op)
  case (Store t n)
  with assms show ?thesis using tc_set_new(3) [of c t n]
    by (cases "tc_items c t") (auto simp: tc_set_old tc_promote_def)
qed (auto simp: tc_promote_def split: option.splits)

lemma tc_run_max:
  "tc_good codec c \<Longrightarrow> list_all (tc_op_ok codec) ops \<Longrightarrow> tc_max (fold tc_exec ops c) = tc_max c"
  by (induction ops arbitrary: c) (auto simp: tc_exec_good, auto simp: tc_good_def)

section \<open>Properties\<close>

text \<open>
  C31: token estimation is a pure function of the text. From every state the program can be
  in (the cache may hold anything it stored before), \<^verbatim>\<open>EstimateTokens\<close> does not panic
  and returns the codec's count (the byte heuristic when the codec fails or is not ready),
  whatever the cache holds, and leaves the state in the same condition.
\<close>

theorem EstimateTokens_refines:
  assumes "est_inv codec st"
  shows "\<exists>st'. EstimateTokens load codec st text =
      Some (if useBPE st \<and> bpeReady st then bpeCount codec text else heuristicTokens text, st') \<and>
    est_inv codec st' \<and> useBPE st' = useBPE st \<and> bpeReady st' = bpeReady st"
proof (cases "useBPE st \<and> bpeReady st")
  case True
  with assms obtain c where c: "bpeOnce st" "\<not> bpeErr st" "bpeInstance st = Some c" "tc_good codec c"
    by (auto simp: est_inv_def)
  obtain n c' where nc: "bpe_Count codec c text = (n, c')" by force
  from bpe_Count_eq [OF c(4) nc] True c nc show ?thesis
    by (simp add: EstimateTokens_def getBPETokenizer_def est_inv_def)
next
  case False
  with assms show ?thesis by (auto simp: EstimateTokens_def)
qed

theorem EstimateTokens_refines_witness:
  "\<exists>st'. EstimateTokens True (\<lambda>s. Some (len s)) (getBPETokenizer True bpe_init) ''abcde'' =
     Some (5, st')"
proof -
  have inv: "est_inv (\<lambda>s. Some (len s)) (getBPETokenizer True bpe_init)"
    by (simp add: est_inv_def getBPETokenizer_def bpe_init_def tc_good_new)
  show ?thesis
    using EstimateTokens_refines [OF inv, of True "''abcde''"]
    by (auto simp: getBPETokenizer_def bpe_init_def bpeCount_def)
qed

text \<open>
  C32: however the critical sections of concurrent goroutines interleave, the token cache
  keeps its list and its map in step, never exceeds its capacity, and only holds counts the
  codec produced.
\<close>

theorem tokenCache_interleaving:
  fixes m :: int
  assumes "list_all (tc_op_ok codec) ops"
  defines "c \<equiv> fold tc_exec ops (newTokenCache m)"
  shows "distinct (tc_ll c) \<and> set (tc_ll c) = dom (tc_items c) \<and> len (tc_ll c) \<le> max 1 m \<and>
    (\<forall>k n. tc_items c k = Some n \<longrightarrow> codec k = Some n)"
proof -
  have "tc_good codec c" "tc_max c = m"
    using tc_run_good [OF tc_good_new assms(1), of m] tc_run_max [OF tc_good_new assms(1), of m]
    by (simp_all add: c_def newTokenCache_def)
  then show ?thesis by (auto simp: tc_good_def tc_inv_def tc_coherent_def)
qed

theorem tokenCache_interleaving_witness:
  "len (tc_ll (fold tc_exec [Store ''a'' 1, Store ''b'' 1, Promote ''a'', Store ''cd'' 2, Hit]
      (newTokenCache 2))) \<le> 2"
  using tokenCache_interleaving [of "\<lambda>s. Some (len s)"
      "[Store ''a'' 1, Store ''b'' 1, Promote ''a'', Store ''cd'' 2, Hit]" 2]
  by simp

end
