(* ===== verification/Cache_Contract.thy ===== *)
theory Cache_Contract
  imports Estimator
begin

text \<open>
  The contracts shared by the caches of the program. \<open>sound_cache\<close>: storing returns, keeps the
  invariant, makes the new value visible, and never makes a value visible that was not
  stored. \<open>bounded_cache\<close> adds that the number of entries stays within the capacity. Their
  lemmas, proved once here for any run of
  stores, say that a lookup can only return the latest value stored under its key, and are
  instantiated for the token cache, the LRU, LFU and FIFO caches.

  A store returns \<open>None\<close> where the Go code would panic or not return. \<open>okey\<close> is the set of
  keys the cache handles.
\<close>

locale sound_cache =
  fixes invar :: "'c \<Rightarrow> bool"
    and okey :: "'k \<Rightarrow> bool"
    and lookup :: "'c \<Rightarrow> 'k \<Rightarrow> 'v option"
    and store :: "'k \<Rightarrow> 'v \<Rightarrow> 'c \<Rightarrow> 'c option"
  assumes store_returns: "invar c \<Longrightarrow> okey k \<Longrightarrow> \<exists>c'. store k v c = Some c'"
    and store_invar: "invar c \<Longrightarrow> okey k \<Longrightarrow> store k v c = Some c' \<Longrightarrow> invar c'"
    and store_same: "invar c \<Longrightarrow> okey k \<Longrightarrow> store k v c = Some c' \<Longrightarrow> lookup c' k = Some v"
    and store_other: "invar c \<Longrightarrow> okey k \<Longrightarrow> store k v c = Some c' \<Longrightarrow> k' \<noteq> k \<Longrightarrow>
      lookup c' k' = Some w \<Longrightarrow> lookup c k' = Some w"
begin

text \<open>A run of stores.\<close>

fun stores :: "('k \<times> 'v) list \<Rightarrow> 'c \<Rightarrow> 'c option" where
  "stores [] c = Some c"
| "stores ((k, v) # ps) c = (case store k v c of None \<Rightarrow> None | Some c' \<Rightarrow> stores ps c')"

lemma stores_return:
  "invar c \<Longrightarrow> list_all (\<lambda>(k, _). okey k) ps \<Longrightarrow> \<exists>c'. stores ps c = Some c' \<and> invar c'"
proof (induction ps arbitrary: c)
  case (Cons p ps)
  obtain k v where p: "p = (k, v)" by force
  with Cons.prems obtain c' where c': "store k v c = Some c'" using store_returns by fastforce
  with Cons.prems p have "invar c'" using store_invar by auto
  with Cons.IH [of c'] Cons.prems p c' show ?case by auto
qed simp

text \<open>What a lookup returns is the latest value stored, or what was there before.\<close>

lemma stores_sound:
  "invar c \<Longrightarrow> list_all (\<lambda>(k, _). okey k) ps \<Longrightarrow> stores ps c = Some c' \<Longrightarrow>
     lookup c' k = Some w \<Longrightarrow>
     (case map_of (rev ps) k of Some v \<Rightarrow> w = v | None \<Rightarrow> lookup c k = Some w)"
proof (induction ps arbitrary: c)
  case (Cons p ps)
  obtain j v where p: "p = (j, v)" by force
  with Cons.prems obtain c1 where c1: "store j v c = Some c1" by (auto split: option.splits)
  with Cons.prems p have inv: "invar c1" "okey j" using store_invar by auto
  have IH: "case map_of (rev ps) k of Some v \<Rightarrow> w = v | None \<Rightarrow> lookup c1 k = Some w"
    using Cons.IH [OF inv(1)] Cons.prems p c1 by auto
  show ?case
  proof (cases "map_of (rev ps) k")
    case None
    with IH have w: "lookup c1 k = Some w" by simp
    show ?thesis
    proof (cases "k = j")
      case True
      then have "w = v" using w store_same [OF Cons.prems(1) inv(2) c1] by simp
      with True None p show ?thesis by (simp add: map_add_def)
    next
      case False
      then have "lookup c k = Some w" using store_other [OF Cons.prems(1) inv(2) c1] w by simp
      with False None p show ?thesis by (simp add: map_add_def)
    qed
  qed (use IH p in \<open>simp add: map_add_def\<close>)
qed simp

end

locale bounded_cache = sound_cache invar okey lookup store
  for invar :: "'c \<Rightarrow> bool" and okey :: "'k \<Rightarrow> bool" and lookup :: "'c \<Rightarrow> 'k \<Rightarrow> 'v option"
    and store :: "'k \<Rightarrow> 'v \<Rightarrow> 'c \<Rightarrow> 'c option" +
  fixes entries :: "'c \<Rightarrow> int"
    and capacity :: "'c \<Rightarrow> int"
  assumes store_capacity: "invar c \<Longrightarrow> okey k \<Longrightarrow> store k v c = Some c' \<Longrightarrow> capacity c' = capacity c"
    and bounded: "invar c \<Longrightarrow> entries c \<le> capacity c"
begin

lemma stores_capacity:
  "invar c \<Longrightarrow> list_all (\<lambda>(k, _). okey k) ps \<Longrightarrow> stores ps c = Some c' \<Longrightarrow> capacity c' = capacity c"
  by (induction ps c rule: stores.induct)
    (auto split: option.splits simp: store_invar store_capacity)

lemma stores_bounded:
  assumes "invar c" "list_all (\<lambda>(k, _). okey k) ps" "stores ps c = Some c'"
  shows "entries c' \<le> capacity c"
proof -
  have "invar c'" using stores_return [OF assms(1,2)] assms(3) by simp
  then show ?thesis using bounded stores_capacity [OF assms] by fastforce
qed

end

text \<open>The token cache meets the contract.\<close>

interpretation tok: bounded_cache tc_inv "\<lambda>_. True" tc_items
  "\<lambda>k n c. Some (tc_set k n c)" "\<lambda>c. len (tc_ll c)" "\<lambda>c. max 1 (tc_max c)"
proof unfold_locales
  show "tc_items c' k' = Some w \<Longrightarrow> tc_items c k' = Some w"
    if "tc_inv c" "True" "Some (tc_set k v c) = Some c'" "k' \<noteq> k" for c k v c' k' w
    using that tc_set_sub by fastforce
  show "max 1 (tc_max c') = max 1 (tc_max c)"
    if "tc_inv c" "True" "Some (tc_set k v c) = Some c'" for c k v c'
    using tc_exec_max [OF that(1), of "Store k v"] that(3) by auto
qed (auto simp: tc_inv_set tc_set_lookup, auto simp: tc_inv_def)

end
