(* ===== verification/Go_Float.thy ===== *)
theory Go_Float
  imports Go_Prelude Complex_Main
begin

text \<open>
  Go's \<^verbatim>\<open>float64\<close>. A finite double is its exact rational value, and every
  arithmetic operation of the source is the exact operation followed by \<open>f64\<close>, which
  rounds to the nearest double (53-bit significand, ties to even, gradual underflow at
  \<open>2 ^ -1074\<close>), as IEEE 754 and the Go specification prescribe. A decimal constant of the
  source, such as \<^verbatim>\<open>0.3\<close>, is \<open>f64 (3/10)\<close>. Overflow to infinity and NaN are not
  represented: the modelled code only forms ratios of lengths and counts, guarded against a
  zero divisor, and sums of a few constants.

  The laws: rounding is monotone, odd, and exact on the integers up to \<open>2 ^ 53\<close>; so bounds
  with representable ends survive rounding.
\<close>

section \<open>The exponent of a rational\<close>

function bits :: "int \<Rightarrow> int" where
  "bits n = (if n \<le> 0 then 0 else 1 + bits (n div 2))"
  by pat_completeness auto
termination
  by (relation "measure nat") auto

declare bits.simps [simp del]

definition ilog2 :: "rat \<Rightarrow> int" where
  "ilog2 x =
     (let (p, q) = quotient_of x; b = bits p - bits q
      in if 2 powi b \<le> x then b else b - 1)"

text \<open>Rounding a rational to an integer, ties to even.\<close>

definition round_even :: "rat \<Rightarrow> int" where
  "round_even x =
     (let f = \<lfloor>x\<rfloor>; d = x - of_int f
      in if d < 1 / 2 then f else if 1 / 2 < d then f + 1 else if even f then f else f + 1)"

definition ulp_exp :: "rat \<Rightarrow> int" where
  "ulp_exp x = max (ilog2 \<bar>x\<bar> - 52) (- 1074)"

definition f64 :: "rat \<Rightarrow> rat" where
  "f64 x = (if x = 0 then 0
            else of_int (round_even (x * 2 powi (- ulp_exp x))) * 2 powi ulp_exp x)"

text \<open>The arithmetic of the source.\<close>

definition fadd :: "rat \<Rightarrow> rat \<Rightarrow> rat" where "fadd x y = f64 (x + y)"
definition fsub :: "rat \<Rightarrow> rat \<Rightarrow> rat" where "fsub x y = f64 (x - y)"
definition fmul :: "rat \<Rightarrow> rat \<Rightarrow> rat" where "fmul x y = f64 (x * y)"
definition fdiv :: "rat \<Rightarrow> rat \<Rightarrow> rat" where "fdiv x y = f64 (x / y)"

text \<open>\<^verbatim>\<open>float64(n)\<close> for an \<^verbatim>\<open>int\<close>.\<close>

definition of_int64 :: "int \<Rightarrow> rat" where "of_int64 n = f64 (of_int n)"

text \<open>The conversion \<^verbatim>\<open>int(x)\<close>, which truncates towards zero.\<close>

definition go_trunc :: "rat \<Rightarrow> int" where "go_trunc x = (if 0 \<le> x then \<lfloor>x\<rfloor> else \<lceil>x\<rceil>)"

section \<open>Bounds on the exponent\<close>

lemma bits_nonneg [simp]: "0 \<le> bits n"
  by (induction n rule: bits.induct) (subst bits.simps, simp)

lemma bits_bounds:
  "0 < n \<Longrightarrow> n < 2 ^ nat (bits n) \<and> 2 ^ nat (bits n) \<le> 2 * n"
proof (induction n rule: bits.induct)
  case (1 n)
  have b: "bits n = 1 + bits (n div 2)"
    using "1.prems" by (subst bits.simps) simp
  then have p: "(2::int) ^ nat (bits n) = 2 * 2 ^ nat (bits (n div 2))"
    by (simp add: nat_add_distrib)
  show ?case
  proof (cases "n div 2 \<le> 0")
    case True
    with "1.prems" have "n = 1" by presburger
    then show ?thesis by (simp add: bits.simps)
  next
    case False
    with "1" have "n div 2 < 2 ^ nat (bits (n div 2)) \<and> 2 ^ nat (bits (n div 2)) \<le> 2 * (n div 2)"
      by simp
    then show ?thesis unfolding p by linarith
  qed
qed

lemma bits_rat:
  assumes "0 < n"
  shows "(of_int n :: rat) < 2 powi bits n" and "(2::rat) powi bits n \<le> 2 * of_int n"
proof -
  have e: "(2::rat) powi bits n = of_int (2 ^ nat (bits n))"
    by (simp add: power_int_def)
  show "(of_int n :: rat) < 2 powi bits n"
    using bits_bounds [OF assms] unfolding e of_int_less_iff by simp
  have "(of_int (2 ^ nat (bits n)) :: rat) \<le> of_int (2 * n)"
    using bits_bounds [OF assms] unfolding of_int_le_iff by simp
  then show "(2::rat) powi bits n \<le> 2 * of_int n" unfolding e by simp
qed

lemma quotient_of_pos:
  assumes "0 < x" "quotient_of x = (p, q)"
  shows "0 < p" "0 < q" "x = of_int p / of_int q"
proof -
  show q: "0 < q" using assms(2) by (rule quotient_of_denom_pos)
  show x: "x = of_int p / of_int q" using assms(2) by (rule quotient_of_div)
  show "0 < p" using assms(1) q unfolding x by (simp add: zero_less_divide_iff)
qed

lemma powi_less_iff: "(2::rat) powi a < 2 powi b \<longleftrightarrow> a < b"
  by (metis linorder_not_less one_less_numeral_iff power_int_increasing power_int_strict_increasing
      less_imp_le semiring_norm(76))

lemma ilog2_bounds:
  assumes "0 < x"
  shows "2 powi ilog2 x \<le> x" and "x < 2 powi (ilog2 x + 1)"
proof -
  obtain p q where pq: "quotient_of x = (p, q)" by force
  note pos = quotient_of_pos [OF assms pq]
  define P Q :: rat where "P = of_int p" and "Q = of_int q"
  define A B :: rat where "A = 2 powi bits p" and "B = 2 powi bits q"
  have gt: "0 < P" "0 < Q" "0 < A" "0 < B" "x = P / Q"
    using pos by (auto simp: P_def Q_def A_def B_def)
  have bd: "P < A" "A \<le> 2 * P" "Q < B" "B \<le> 2 * Q"
    using bits_rat [OF pos(1)] bits_rat [OF pos(2)] by (simp_all add: P_def Q_def A_def B_def)
  let ?b = "bits p - bits q"
  have pb: "2 powi ?b = A / B" by (simp add: A_def B_def power_int_diff)
  have "P * B < A * B" using bd(1) gt(4) by simp
  also have "\<dots> \<le> A * (2 * Q)" using bd(4) gt(3) by simp
  finally have "P / Q < 2 * (A / B)" using gt by (simp add: field_simps)
  then have up: "x < 2 powi (?b + 1)" using gt(5) pb by (simp add: power_int_add mult.commute)
  have "A * Q \<le> 2 * P * Q" using bd(2) gt(2) by simp
  also have "\<dots> \<le> 2 * P * B" using bd(3) gt(1) by simp
  finally have "A / B / 2 \<le> P / Q" using gt by (simp add: field_simps)
  then have lo: "2 powi (?b - 1) \<le> x" using gt(5) pb by (simp add: power_int_diff)
  have il: "ilog2 x = (if 2 powi ?b \<le> x then ?b else ?b - 1)"
    by (simp add: ilog2_def pq Let_def)
  show "2 powi ilog2 x \<le> x" using lo by (simp add: il)
  show "x < 2 powi (ilog2 x + 1)" using up by (auto simp: il)
qed

lemma ilog2_mono:
  assumes "0 < x" "x \<le> y"
  shows "ilog2 x \<le> ilog2 y"
proof -
  have "(2::rat) powi ilog2 x < 2 powi (ilog2 y + 1)"
    using ilog2_bounds(1) [OF assms(1)] ilog2_bounds(2) [of y] assms by linarith
  then show ?thesis by (simp add: powi_less_iff)
qed

section \<open>Rounding to an integer\<close>

lemma round_even_of_int [simp]: "round_even (of_int n) = n"
  by (simp add: round_even_def)

lemma round_even_mono:
  assumes "x \<le> y"
  shows "round_even x \<le> round_even y"
proof -
  have fl: "\<lfloor>x\<rfloor> \<le> \<lfloor>y\<rfloor>" using assms by (rule floor_mono)
  show ?thesis
  proof (cases "\<lfloor>x\<rfloor> = \<lfloor>y\<rfloor>")
    case True
    with assms show ?thesis by (auto simp: round_even_def Let_def)
  next
    case False
    with fl have "\<lfloor>x\<rfloor> + 1 \<le> \<lfloor>y\<rfloor>" by simp
    then show ?thesis by (auto simp: round_even_def Let_def)
  qed
qed

lemma round_even_minus: "round_even (- x) = - round_even x"
proof (cases "x = of_int \<lfloor>x\<rfloor>")
  case True
  then show ?thesis by (metis of_int_minus round_even_of_int)
next
  case False
  then have "of_int \<lfloor>x\<rfloor> < x" using of_int_floor_le [of x] by linarith
  moreover have "x < of_int \<lfloor>x\<rfloor> + 1" by linarith
  ultimately have fl: "\<lfloor>- x\<rfloor> = - \<lfloor>x\<rfloor> - 1"
    by (intro floor_unique) auto
  show ?thesis by (auto simp: round_even_def Let_def fl)
qed

lemma round_even_ge: "of_int n \<le> x \<Longrightarrow> n \<le> round_even x"
  using round_even_mono [of "of_int n" x] by simp

lemma round_even_le: "x \<le> of_int n \<Longrightarrow> round_even x \<le> n"
  using round_even_mono [of x "of_int n"] by simp

section \<open>Laws of rounding to a double\<close>

lemma f64_0 [simp]: "f64 0 = 0"
  by (simp add: f64_def)

lemma ulp_exp_minus [simp]: "ulp_exp (- x) = ulp_exp x"
  by (simp add: ulp_exp_def)

lemma f64_minus: "f64 (- x) = - f64 x"
  using round_even_minus [of "x * 2 powi (- ulp_exp x)"] by (simp add: f64_def)

lemma f64_nonneg [simp]: "0 \<le> x \<Longrightarrow> 0 \<le> f64 x"
  by (auto simp: f64_def intro!: mult_nonneg_nonneg round_even_ge)

lemma powi_cancel: "(2::rat) powi (- e) * 2 powi e = 1"
  by (simp add: power_int_minus)

lemma f64_mono_pos:
  assumes "0 < x" "x \<le> y"
  shows "f64 x \<le> f64 y"
proof -
  let ?ex = "ulp_exp x" and ?ey = "ulp_exp y"
  have y: "0 < y" using assms by simp
  have e: "?ex \<le> ?ey" using ilog2_mono [OF assms] assms by (simp add: ulp_exp_def)
  show ?thesis
  proof (cases "?ex = ?ey")
    case True
    have "x * 2 powi (- ?ey) \<le> y * 2 powi (- ?ey)"
      using assms by (simp add: mult_right_mono)
    from round_even_mono [OF this] show ?thesis
      using assms y True by (simp add: f64_def mult_right_mono)
  next
    case False
    with e have lt: "?ex < ?ey" by simp
    then have "?ey = ilog2 y - 52" using y by (auto simp: ulp_exp_def max_def split: if_splits)
    then have "2 powi (?ey + 52) \<le> y" using ilog2_bounds(1) [OF y] by simp
    then have "2 powi (?ey + 52) * 2 powi (- ?ey) \<le> y * 2 powi (- ?ey)"
      by (rule mult_right_mono) simp
    then have ry: "2 ^ 52 \<le> round_even (y * 2 powi (- ?ey))"
      by (intro round_even_ge) (simp flip: power_int_add)
    have "ilog2 x + 1 \<le> ?ex + 53" using assms by (simp add: ulp_exp_def)
    then have "(2::rat) powi (ilog2 x + 1) \<le> 2 powi (?ex + 53)"
      by (intro power_int_increasing) auto
    then have "x \<le> 2 powi (?ex + 53)"
      using ilog2_bounds(2) [OF assms(1)] by linarith
    then have "x * 2 powi (- ?ex) \<le> 2 powi (?ex + 53) * 2 powi (- ?ex)"
      by (rule mult_right_mono) simp
    then have rx: "round_even (x * 2 powi (- ?ex)) \<le> 2 ^ 53"
      by (intro round_even_le) (simp flip: power_int_add)
    have "f64 x \<le> of_int (2 ^ 53) * 2 powi ?ex"
      using rx assms unfolding f64_def by (simp add: mult_right_mono del: of_int_power)
    also have "\<dots> = 2 powi (?ex + 53)" by (simp add: power_int_add)
    also have "\<dots> \<le> 2 powi (?ey + 52)"
      using lt by (intro power_int_increasing) auto
    also have "\<dots> = of_int (2 ^ 52) * 2 powi ?ey" by (simp add: power_int_add)
    also have "\<dots> \<le> f64 y"
      using ry y unfolding f64_def by (simp add: mult_right_mono del: of_int_power)
    finally show ?thesis .
  qed
qed

theorem f64_mono:
  assumes "x \<le> y"
  shows "f64 x \<le> f64 y"
proof (cases "0 < x")
  case True
  then show ?thesis using assms by (rule f64_mono_pos)
next
  case False
  show ?thesis
  proof (cases "y < 0")
    case True
    then have "f64 (- y) \<le> f64 (- x)" using assms by (intro f64_mono_pos) auto
    then show ?thesis by (simp add: f64_minus)
  next
    case F: False
    then have "0 \<le> f64 y" by simp
    moreover have "0 \<le> f64 (- x)" using False by simp
    ultimately show ?thesis by (simp add: f64_minus)
  qed
qed

lemma f64_scaled_int:
  assumes "x \<noteq> 0" "x * 2 powi (- ulp_exp x) = of_int k"
  shows "f64 x = x"
proof -
  have "f64 x = of_int k * 2 powi ulp_exp x" using assms by (simp add: f64_def)
  also have "\<dots> = x * (2 powi (- ulp_exp x) * 2 powi ulp_exp x)"
    by (simp add: assms(2) [symmetric])
  finally show ?thesis by (simp add: powi_cancel)
qed

theorem f64_of_int:
  assumes "\<bar>n\<bar> \<le> 2 ^ 53"
  shows "f64 (of_int n) = of_int n"
proof (cases "n = 0")
  case False
  let ?x = "of_int n :: rat"
  show ?thesis
  proof (cases "\<bar>n\<bar> = 2 ^ 53")
    case True
    have "\<not> (2::rat) powi 53 < 2 powi ilog2 (2 ^ 53)" "(2::rat) powi 53 < 2 powi (ilog2 (2 ^ 53) + 1)"
      using ilog2_bounds [of "2 ^ 53 :: rat"] by simp_all
    then have "ilog2 (2 ^ 53 :: rat) = 53"
      unfolding powi_less_iff by linarith
    moreover have "\<bar>?x\<bar> = 2 ^ 53" using True by (metis of_int_abs of_int_numeral of_int_power)
    ultimately have "ulp_exp ?x = 1" by (simp add: ulp_exp_def)
    moreover from True have "n = 2 ^ 53 \<or> n = - (2 ^ 53)" by linarith
    then have "n = 2 * (n div 2)" by auto
    then have "?x = 2 * of_int (n div 2)" by (metis of_int_mult of_int_numeral)
    ultimately have "?x * 2 powi (- ulp_exp ?x) = of_int (n div 2)" by simp
    then show ?thesis using False by (intro f64_scaled_int) auto
  next
    case F: False
    with assms have "\<bar>n\<bar> < 2 ^ 53" by simp
    then have "\<bar>?x\<bar> < 2 ^ 53" by (metis of_int_abs of_int_less_iff of_int_numeral of_int_power)
    moreover have "2 powi ilog2 \<bar>?x\<bar> \<le> \<bar>?x\<bar>" using False by (intro ilog2_bounds) simp
    ultimately have "(2::rat) powi ilog2 \<bar>?x\<bar> < 2 powi 53" by simp
    then have "ilog2 \<bar>?x\<bar> < 53" unfolding powi_less_iff .
    then have e: "ulp_exp ?x \<le> 0" by (simp add: ulp_exp_def)
    then have k: "?x * 2 powi (- ulp_exp ?x) = of_int (n * 2 ^ nat (- ulp_exp ?x))"
      by (simp add: power_int_def)
    show ?thesis by (rule f64_scaled_int [OF _ k]) (simp add: False)
  qed
qed simp

lemma f64_1 [simp]: "f64 1 = 1"
  using f64_of_int [of 1] by simp

lemma f64_unit: "0 \<le> x \<Longrightarrow> x \<le> 1 \<Longrightarrow> 0 \<le> f64 x \<and> f64 x \<le> 1"
  using f64_mono [of x 1] by simp

lemma of_int64_mono: "a \<le> b \<Longrightarrow> of_int64 a \<le> of_int64 b"
  by (simp add: of_int64_def f64_mono)

lemma of_int64_nonneg: "0 \<le> a \<Longrightarrow> 0 \<le> of_int64 a"
  by (simp add: of_int64_def)

lemma of_int64_pos: "0 < a \<Longrightarrow> 0 < of_int64 a"
  using of_int64_mono [of 1 a] by (simp add: of_int64_def)

lemma fdiv_unit: "0 \<le> a \<Longrightarrow> a \<le> b \<Longrightarrow> 0 < b \<Longrightarrow> 0 \<le> fdiv a b \<and> fdiv a b \<le> 1"
  unfolding fdiv_def by (rule f64_unit) auto

text \<open>The ratio of two counts, the idiom \<^verbatim>\<open>float64(a) / float64(b)\<close>.\<close>

lemma ratio_unit:
  "0 \<le> a \<Longrightarrow> a \<le> b \<Longrightarrow> 0 < b \<Longrightarrow>
     0 \<le> fdiv (of_int64 a) (of_int64 b) \<and> fdiv (of_int64 a) (of_int64 b) \<le> 1"
  by (rule fdiv_unit) (auto intro: of_int64_mono of_int64_nonneg of_int64_pos)

lemma fadd_mono: "a \<le> a' \<Longrightarrow> b \<le> b' \<Longrightarrow> fadd a b \<le> fadd a' b'"
  by (simp add: fadd_def f64_mono add_mono)

lemma fmul_right_mono: "a \<le> a' \<Longrightarrow> 0 \<le> b \<Longrightarrow> fmul a b \<le> fmul a' b"
  by (simp add: fmul_def f64_mono mult_right_mono)

end
