(* ===== verification/LRU_Cache.thy ===== *)
theory LRU_Cache
  imports Cache_Contract Go_Float
begin

text \<open>
  The LRU cache with a time to live (\<^verbatim>\<open>internal/cache/lru.go\<close>).

  The Go struct keeps a map from keys to list elements and a doubly linked list of them,
  most recent first; here \<open>lru_entries\<close> is the content of the element a key maps to and
  \<open>lru_order\<close> the list of keys. A value is an \<^verbatim>\<open>interface{}\<close>, so it may be nil
  (\<open>None\<close>). The eviction loop of \<^verbatim>\<open>Set\<close> runs while the cache is full; it would never
  end for a non-positive capacity, hence it is a partial function, and the invariant that
  \<^verbatim>\<open>NewLRUCache\<close> establishes is what makes it return.
\<close>

record 'v lruEntry =
  le_value :: "'v option"
  le_createdAt :: gotime

record 'v LRUCache =
  lru_maxSize :: int
  lru_ttl :: duration
  lru_entries :: "(string \<times> 'v lruEntry) list"
  lru_order :: "string list"
  lru_hits :: int
  lru_misses :: int

record LRUStats =
  ls_Entries :: int
  ls_MaxSize :: int
  ls_Hits :: int
  ls_Misses :: int
  ls_HitRate :: rat

definition NewLRUCache :: "int \<Rightarrow> duration \<Rightarrow> 'v LRUCache" where
  "NewLRUCache maxSize ttl =
     \<lparr>lru_maxSize = (if maxSize \<le> 0 then 100 else maxSize),
      lru_ttl = (if ttl \<le> 0 then 5 * Minute else ttl),
      lru_entries = [], lru_order = [], lru_hits = 0, lru_misses = 0\<rparr>"

definition lru_removeElement :: "string \<Rightarrow> 'v LRUCache \<Rightarrow> 'v LRUCache" where
  "lru_removeElement key c =
     c\<lparr>lru_entries := al_del key (lru_entries c), lru_order := remove1 key (lru_order c)\<rparr>"

definition lru_evictOldest :: "'v LRUCache \<Rightarrow> 'v LRUCache" where
  "lru_evictOldest c =
     (if lru_order c = [] then c else lru_removeElement (last (lru_order c)) c)"

definition lru_moveToFront :: "string \<Rightarrow> 'v LRUCache \<Rightarrow> 'v LRUCache" where
  "lru_moveToFront key c = c\<lparr>lru_order := key # remove1 key (lru_order c)\<rparr>"

definition lru_Get :: "gotime \<Rightarrow> string \<Rightarrow> 'v LRUCache \<Rightarrow> 'v option \<times> 'v LRUCache" where
  "lru_Get now key c =
     (case al_get (lru_entries c) key of
        None \<Rightarrow> (None, c\<lparr>lru_misses := lru_misses c + 1\<rparr>)
      | Some entry \<Rightarrow>
          (if now - le_createdAt entry > lru_ttl c
           then (None, (lru_removeElement key c)\<lparr>lru_misses := lru_misses c + 1\<rparr>)
           else (le_value entry, (lru_moveToFront key c)\<lparr>lru_hits := lru_hits c + 1\<rparr>)))"

partial_function (option) lru_evict_loop :: "'v LRUCache \<Rightarrow> 'v LRUCache option" where
  "lru_evict_loop c =
     (if lru_maxSize c \<le> len (lru_order c) then lru_evict_loop (lru_evictOldest c) else Some c)"

definition lru_Set :: "gotime \<Rightarrow> string \<Rightarrow> 'v option \<Rightarrow> 'v LRUCache \<Rightarrow> 'v LRUCache option" where
  "lru_Set now key value c =
     (case al_get (lru_entries c) key of
        Some _ \<Rightarrow>
          Some (lru_moveToFront key
            (c\<lparr>lru_entries := al_put key \<lparr>le_value = value, le_createdAt = now\<rparr> (lru_entries c)\<rparr>))
      | None \<Rightarrow>
          (case lru_evict_loop c of
             None \<Rightarrow> None
           | Some c' \<Rightarrow>
               Some (c'\<lparr>lru_order := key # lru_order c',
                        lru_entries := al_put key \<lparr>le_value = value, le_createdAt = now\<rparr>
                                         (lru_entries c')\<rparr>)))"

definition lru_Stats :: "'v LRUCache \<Rightarrow> LRUStats" where
  "lru_Stats c =
     (let hits = lru_hits c; misses = lru_misses c; total = hits + misses
      in \<lparr>ls_Entries = len (lru_entries c), ls_MaxSize = lru_maxSize c, ls_Hits = hits,
          ls_Misses = misses,
          ls_HitRate = (if 0 < total then fdiv (of_int64 hits) (of_int64 total) else 0)\<rparr>)"

section \<open>Invariant\<close>

definition lru_inv :: "'v LRUCache \<Rightarrow> bool" where
  "lru_inv c \<longleftrightarrow> 0 < lru_maxSize c \<and> distinct (lru_order c) \<and>
     distinct (al_keys (lru_entries c)) \<and> set (al_keys (lru_entries c)) = set (lru_order c) \<and>
     len (lru_order c) \<le> lru_maxSize c \<and> 0 \<le> lru_hits c \<and> 0 \<le> lru_misses c"

text \<open>What the cache would answer, expiry aside.\<close>

definition lru_lookup :: "'v LRUCache \<Rightarrow> string \<Rightarrow> 'v option" where
  "lru_lookup c key = Option.bind (al_get (lru_entries c) key) le_value"

lemma lru_inv_New [go_inv]: "lru_inv (NewLRUCache m t)"
  by (simp add: lru_inv_def NewLRUCache_def)

lemma lru_inv_move [go_inv]:
  assumes "lru_inv c" "key \<in> set (lru_order c)"
  shows "lru_inv (lru_moveToFront key c)"
proof -
  have "len (key # remove1 key (lru_order c)) = len (lru_order c)"
    using len_remove1 [OF assms(2)] by simp
  with assms show ?thesis by (auto simp: lru_inv_def lru_moveToFront_def)
qed

lemma lru_inv_remove [go_inv]: "lru_inv c \<Longrightarrow> lru_inv (lru_removeElement key c)"
  using len_remove1_le [of key "lru_order c"]
  by (auto simp: lru_inv_def lru_removeElement_def al_keys_del distinct_removeAll)

lemma lru_inv_counters [go_inv]:
  "lru_inv c \<Longrightarrow> 0 \<le> n \<Longrightarrow> lru_inv (c\<lparr>lru_hits := n\<rparr>)"
  "lru_inv c \<Longrightarrow> 0 \<le> n \<Longrightarrow> lru_inv (c\<lparr>lru_misses := n\<rparr>)"
  by (auto simp: lru_inv_def)

lemma lru_key_in_order:
  "lru_inv c \<Longrightarrow> al_get (lru_entries c) key = Some e \<Longrightarrow> key \<in> set (lru_order c)"
  by (auto simp: lru_inv_def dest: al_get_Some_key)

lemma lru_inv_Get [go_inv]:
  assumes "lru_inv c"
  shows "lru_inv (snd (lru_Get now key c))"
proof -
  have "0 \<le> lru_hits c" "0 \<le> lru_misses c" using assms by (auto simp: lru_inv_def)
  moreover have "lru_inv (lru_removeElement key c)" using assms by (rule lru_inv_remove)
  moreover have "lru_inv (lru_moveToFront key c)" if "al_get (lru_entries c) key = Some e" for e
    using assms lru_key_in_order [OF assms that] by (rule lru_inv_move)
  ultimately show ?thesis
    using assms by (auto simp: lru_Get_def lru_inv_counters split: option.splits)
qed

lemma lru_evictOldest_shrinks:
  "lru_order c \<noteq> [] \<Longrightarrow> len (lru_order (lru_evictOldest c)) = len (lru_order c) - 1"
  by (simp add: lru_evictOldest_def lru_removeElement_def len_remove1)

lemma lru_evictOldest_max [simp]: "lru_maxSize (lru_evictOldest c) = lru_maxSize c"
  by (simp add: lru_evictOldest_def lru_removeElement_def)

text \<open>Under the invariant the loop evicts at most once, so it returns.\<close>

lemma lru_evict_loop_eq:
  assumes "lru_inv c"
  shows "lru_evict_loop c =
    Some (if len (lru_order c) = lru_maxSize c then lru_evictOldest c else c)"
proof (cases "len (lru_order c) = lru_maxSize c")
  case True
  then have ne: "lru_order c \<noteq> []" using assms by (auto simp: lru_inv_def)
  have "len (lru_order (lru_evictOldest c)) < lru_maxSize (lru_evictOldest c)"
    using lru_evictOldest_shrinks [OF ne] True by simp
  with True show ?thesis by (simp add: lru_evict_loop.simps [of c] lru_evict_loop.simps)
next
  case False
  then have "len (lru_order c) < lru_maxSize c" using assms by (auto simp: lru_inv_def)
  with False show ?thesis by (simp add: lru_evict_loop.simps)
qed

lemma lru_inv_evictOldest [go_inv]: "lru_inv c \<Longrightarrow> lru_inv (lru_evictOldest c)"
  by (simp add: lru_evictOldest_def lru_inv_remove)

text \<open>The two branches of \<^verbatim>\<open>Set\<close>: a new key on a full cache drops the back of the
  order, and nothing else.\<close>

lemma lru_Set_new:
  assumes "lru_inv c" "al_get (lru_entries c) key = None"
  defines "c' \<equiv> (if len (lru_order c) = lru_maxSize c then lru_evictOldest c else c)"
  shows "lru_Set now key v c =
    Some (c'\<lparr>lru_order := key # lru_order c',
      lru_entries := al_put key \<lparr>le_value = v, le_createdAt = now\<rparr> (lru_entries c')\<rparr>)"
  using assms(2) lru_evict_loop_eq [OF assms(1)] by (simp add: lru_Set_def c'_def)

lemma lru_after_evict:
  assumes "lru_inv c"
  defines "c' \<equiv> (if len (lru_order c) = lru_maxSize c then lru_evictOldest c else c)"
  shows "lru_inv c'" "len (lru_order c') < lru_maxSize c'" "lru_maxSize c' = lru_maxSize c"
    "set (lru_order c') \<subseteq> set (lru_order c)"
    "al_get (lru_entries c') k = Some e \<Longrightarrow> al_get (lru_entries c) k = Some e"
proof -
  show "lru_inv c'" using assms(1) by (simp add: c'_def lru_inv_evictOldest)
  have "0 < lru_maxSize c" "len (lru_order c) \<le> lru_maxSize c" using assms(1) by (auto simp: lru_inv_def)
  then show "len (lru_order c') < lru_maxSize c'"
    using lru_evictOldest_shrinks [of c] by (cases "lru_order c = []") (auto simp: c'_def)
  show "lru_maxSize c' = lru_maxSize c" "set (lru_order c') \<subseteq> set (lru_order c)"
    by (auto simp: c'_def lru_evictOldest_def lru_removeElement_def dest: in_set_remove1D)
  show "al_get (lru_entries c') k = Some e \<Longrightarrow> al_get (lru_entries c) k = Some e"
    by (auto simp: c'_def lru_evictOldest_def lru_removeElement_def split: if_splits)
qed

lemma lru_Set_spec:
  assumes "lru_inv c"
  shows "\<exists>c'. lru_Set now key v c = Some c' \<and> lru_inv c' \<and> lru_maxSize c' = lru_maxSize c \<and>
    al_get (lru_entries c') key = Some \<lparr>le_value = v, le_createdAt = now\<rparr> \<and>
    (\<forall>k e. k \<noteq> key \<longrightarrow> al_get (lru_entries c') k = Some e \<longrightarrow> al_get (lru_entries c) k = Some e)"
proof (cases "al_get (lru_entries c) key")
  case (Some e0)
  let ?c = "c\<lparr>lru_entries := al_put key \<lparr>le_value = v, le_createdAt = now\<rparr> (lru_entries c)\<rparr>"
  have mem: "key \<in> set (lru_order c)" using assms Some by (rule lru_key_in_order)
  then have "lru_inv ?c" using assms by (auto simp: lru_inv_def al_keys_put)
  then have "lru_inv (lru_moveToFront key ?c)" using mem by (intro lru_inv_move) auto
  with Some show ?thesis by (simp add: lru_Set_def lru_moveToFront_def)
next
  case None
  define c' where "c' = (if len (lru_order c) = lru_maxSize c then lru_evictOldest c else c)"
  note c' = lru_after_evict [OF assms, folded c'_def]
  have "key \<notin> set (lru_order c)" using assms None by (simp add: al_get_None_iff lru_inv_def)
  then have "key \<notin> set (lru_order c')" using c'(4) by auto
  then have "lru_inv (c'\<lparr>lru_order := key # lru_order c',
      lru_entries := al_put key \<lparr>le_value = v, le_createdAt = now\<rparr> (lru_entries c')\<rparr>)"
    using c'(1,2) by (auto simp: lru_inv_def al_keys_put)
  then show ?thesis
    using lru_Set_new [OF assms None, of now v, folded c'_def] c'(3,5) by auto
qed

interpretation lru: bounded_cache lru_inv "\<lambda>_. True" lru_lookup
  "\<lambda>k v. lru_Set now k (Some v)" "\<lambda>c. len (lru_entries c)" lru_maxSize for now
proof unfold_locales
  fix c :: "'a LRUCache" and c' k v k' w
  assume inv: "lru_inv c"
  note spec = lru_Set_spec [OF inv, of now k "Some v"]
  show "\<exists>c'. lru_Set now k (Some v) c = Some c'" using spec by blast
  show "len (lru_entries c) \<le> lru_maxSize c"
    using inv distinct_card [of "al_keys (lru_entries c)"] distinct_card [of "lru_order c"]
    by (auto simp: lru_inv_def)
  assume st: "lru_Set now k (Some v) c = Some c'"
  show "lru_inv c'" "lru_lookup c' k = Some v" "lru_maxSize c' = lru_maxSize c"
    using spec st by (auto simp: lru_lookup_def)
  assume "k' \<noteq> k" "lru_lookup c' k' = Some w"
  then show "lru_lookup c k' = Some w"
    using spec st by (fastforce simp: lru_lookup_def bind_eq_Some_conv)
qed

section \<open>Properties\<close>

text \<open>
  C31: \<^verbatim>\<open>Set\<close> on a full LRU cache returns, and evicts exactly the least recently used
  key: the order becomes the new key followed by the old order without its last element, the
  evicted key is no longer found, and every other key keeps its entry.
\<close>

theorem lru_Set_evicts_least_recent:
  assumes "lru_inv c" "al_get (lru_entries c) key = None" "len (lru_order c) = lru_maxSize c"
  shows "\<exists>c'. lru_Set now key v c = Some c' \<and> lru_inv c' \<and>
    lru_order c' = key # butlast (lru_order c) \<and>
    al_get (lru_entries c') = (al_get (lru_entries c))
      (last (lru_order c) := None, key \<mapsto> \<lparr>le_value = v, le_createdAt = now\<rparr>)"
proof -
  have d: "distinct (lru_order c)" and ne: "lru_order c \<noteq> []"
    using assms(1,3) by (auto simp: lru_inv_def)
  have "remove1 (last (lru_order c)) (lru_order c) = butlast (lru_order c)"
    using d ne by (rule remove1_last)
  then have "lru_order (lru_evictOldest c) = butlast (lru_order c)"
    "al_get (lru_entries (lru_evictOldest c)) = (al_get (lru_entries c))(last (lru_order c) := None)"
    using ne by (auto simp: lru_evictOldest_def lru_removeElement_def fun_eq_iff)
  with lru_Set_new [OF assms(1,2), of now v] lru_Set_spec [OF assms(1), of now key v] assms(3)
  show ?thesis by (auto simp: fun_eq_iff)
qed

theorem lru_Set_evicts_least_recent_witness:
  "\<exists>c'. lru_Set 7 ''c'' (Some (1::nat))
      \<lparr>lru_maxSize = 2, lru_ttl = 5, lru_entries =
         [(''a'', \<lparr>le_value = Some 3, le_createdAt = 0\<rparr>), (''b'', \<lparr>le_value = None, le_createdAt = 1\<rparr>)],
       lru_order = [''b'', ''a''], lru_hits = 0, lru_misses = 0\<rparr> = Some c' \<and>
    lru_order c' = [''c'', ''b'']"
proof -
  let ?c = "\<lparr>lru_maxSize = 2, lru_ttl = 5, lru_entries =
         [(''a'', \<lparr>le_value = Some (3::nat), le_createdAt = 0\<rparr>), (''b'', \<lparr>le_value = None, le_createdAt = 1\<rparr>)],
       lru_order = [''b'', ''a''], lru_hits = 0, lru_misses = 0\<rparr>"
  have "lru_inv ?c" by (auto simp: lru_inv_def)
  from lru_Set_evicts_least_recent [OF this, of "''c''" 7 "Some 1"] show ?thesis by auto
qed

text \<open>
  After any run of stores into a new LRU cache, the cache is within its capacity and a
  lookup returns either nothing or the latest value stored under the key.
\<close>

theorem lru_stores_latest:
  assumes "lru.stores now ps (NewLRUCache m t) = Some c"
  shows "len (lru_entries c) \<le> (if m \<le> 0 then 100 else m) \<and>
    (\<forall>k w. lru_lookup c k = Some w \<longrightarrow> map_of (rev ps) k = Some w)"
proof (intro conjI allI impI)
  have ok: "list_all (\<lambda>(k, _). True) ps" by (simp add: list_all_iff)
  show "len (lru_entries c) \<le> (if m \<le> 0 then 100 else m)"
    using lru.stores_bounded [OF lru_inv_New ok assms] by (simp add: NewLRUCache_def split: if_splits)
  fix k w assume "lru_lookup c k = Some w"
  from lru.stores_sound [OF lru_inv_New ok assms this] show "map_of (rev ps) k = Some w"
    by (auto simp: lru_lookup_def NewLRUCache_def split: option.splits)
qed

theorem lru_stores_latest_witness:
  "\<exists>c. lru.stores 0 [(''a'', 1), (''b'', 2), (''a'', 3)] (NewLRUCache 1 0 :: nat LRUCache) = Some c \<and>
    len (lru_entries c) \<le> 1"
proof -
  let ?ps = "[(''a'', 1), (''b'', 2), (''a'', 3 :: nat)]"
  have "list_all (\<lambda>(k, _). True) ?ps" by simp
  then obtain c where c: "lru.stores 0 ?ps (NewLRUCache 1 0) = Some c"
    using lru.stores_return [OF lru_inv_New, of ?ps 0 1 0] by blast
  from lru_stores_latest [OF this] c show ?thesis by auto
qed

text \<open>
  The hit rate reported by \<^verbatim>\<open>Stats\<close> lies between 0 and 1, in floating point.
\<close>

theorem lru_hit_rate_unit:
  assumes "lru_inv c"
  shows "0 \<le> ls_HitRate (lru_Stats c) \<and> ls_HitRate (lru_Stats c) \<le> 1"
  using assms ratio_unit [of "lru_hits c" "lru_hits c + lru_misses c"]
  by (auto simp: lru_Stats_def Let_def lru_inv_def)

theorem lru_hit_rate_unit_witness:
  "ls_HitRate (lru_Stats (snd (lru_Get 0 ''x'' (NewLRUCache 3 0 :: nat LRUCache)))) \<le> 1"
  using lru_hit_rate_unit [OF lru_inv_Get [OF lru_inv_New]] by blast

end
