(* ===== verification/Multi_Cache.thy ===== *)
theory Multi_Cache
  imports LRU_Cache
begin

text \<open>
  The three-layer string cache (\<^verbatim>\<open>internal/cache/multilayer.go\<close>): an LFU cache, a FIFO
  cache, and the composition of the two with the LRU cache of theory \<open>LRU_Cache\<close>.

  The LFU eviction ranges over a Go map; the map is an association list, and the list order
  is the iteration order. \<^verbatim>\<open>Set\<close> of the FIFO cache reads \<^verbatim>\<open>c.order[0]\<close> and
  panics on an empty queue: that is \<open>None\<close>.
\<close>

section \<open>The LFU cache\<close>

record StringCacheItem =
  sci_value :: string
  sci_frequency :: int

record StringLFUCache =
  lfu_capacity :: int
  lfu_items :: "(string \<times> StringCacheItem) list"

definition NewStringLFUCache :: "int \<Rightarrow> StringLFUCache" where
  "NewStringLFUCache capacity = \<lparr>lfu_capacity = capacity, lfu_items = []\<rparr>"

definition lfu_Get :: "string \<Rightarrow> StringLFUCache \<Rightarrow> string option \<times> StringLFUCache" where
  "lfu_Get key c =
     (case al_get (lfu_items c) key of
        Some item \<Rightarrow>
          (Some (sci_value item),
           c\<lparr>lfu_items := al_put key (item\<lparr>sci_frequency := sci_frequency item + 1\<rparr>) (lfu_items c)\<rparr>)
      | None \<Rightarrow> (None, c))"

text \<open>\<^verbatim>\<open>evict\<close>: the running minimum over the map, starting from the largest
  \<^verbatim>\<open>int\<close>, and the test that a key was found at all.\<close>

abbreviation maxInt :: int where
  "maxInt \<equiv> 2 ^ 63 - 1"

fun lfu_min :: "(string \<times> StringCacheItem) list \<Rightarrow> string \<Rightarrow> int \<Rightarrow> string" where
  "lfu_min [] minKey minFreq = minKey"
| "lfu_min ((key, item) # m) minKey minFreq =
     (if sci_frequency item < minFreq then lfu_min m key (sci_frequency item)
      else lfu_min m minKey minFreq)"

definition lfu_evict :: "StringLFUCache \<Rightarrow> StringLFUCache" where
  "lfu_evict c =
     (let minKey = lfu_min (lfu_items c) [] maxInt
      in if minKey \<noteq> [] then c\<lparr>lfu_items := al_del minKey (lfu_items c)\<rparr> else c)"

definition lfu_Set :: "string \<Rightarrow> string \<Rightarrow> StringLFUCache \<Rightarrow> StringLFUCache" where
  "lfu_Set key value c =
     (case al_get (lfu_items c) key of
        Some item \<Rightarrow>
          c\<lparr>lfu_items := al_put key \<lparr>sci_value = value, sci_frequency = sci_frequency item + 1\<rparr>
                          (lfu_items c)\<rparr>
      | None \<Rightarrow>
          (let c' = (if lfu_capacity c \<le> len (lfu_items c) then lfu_evict c else c)
           in c'\<lparr>lfu_items := al_put key \<lparr>sci_value = value, sci_frequency = 1\<rparr> (lfu_items c')\<rparr>))"

definition lfu_Delete :: "string \<Rightarrow> StringLFUCache \<Rightarrow> StringLFUCache" where
  "lfu_Delete key c = c\<lparr>lfu_items := al_del key (lfu_items c)\<rparr>"

definition lfu_Len :: "StringLFUCache \<Rightarrow> int" where
  "lfu_Len c = len (lfu_items c)"

section \<open>The FIFO cache\<close>

record StringFIFOCache =
  fifo_capacity :: int
  fifo_items :: "(string \<times> string) list"
  fifo_order :: "string list"

definition NewStringFIFOCache :: "int \<Rightarrow> StringFIFOCache" where
  "NewStringFIFOCache capacity = \<lparr>fifo_capacity = capacity, fifo_items = [], fifo_order = []\<rparr>"

definition fifo_Get :: "string \<Rightarrow> StringFIFOCache \<Rightarrow> string option" where
  "fifo_Get key c = al_get (fifo_items c) key"

definition fifo_Set :: "string \<Rightarrow> string \<Rightarrow> StringFIFOCache \<Rightarrow> StringFIFOCache option" where
  "fifo_Set key value c =
     (if al_get (fifo_items c) key = None then
        (if fifo_capacity c \<le> len (fifo_items c) then
           (case fifo_order c of
              [] \<Rightarrow> None
            | oldest # rest \<Rightarrow>
                Some (c\<lparr>fifo_items := al_put key value (al_del oldest (fifo_items c)),
                        fifo_order := rest @ [key]\<rparr>))
         else Some (c\<lparr>fifo_items := al_put key value (fifo_items c),
                      fifo_order := fifo_order c @ [key]\<rparr>))
      else Some (c\<lparr>fifo_items := al_put key value (fifo_items c)\<rparr>))"

definition fifo_Delete :: "string \<Rightarrow> StringFIFOCache \<Rightarrow> StringFIFOCache" where
  "fifo_Delete key c =
     c\<lparr>fifo_items := al_del key (fifo_items c), fifo_order := remove1 key (fifo_order c)\<rparr>"

definition fifo_Len :: "StringFIFOCache \<Rightarrow> int" where
  "fifo_Len c = len (fifo_items c)"

section \<open>The composition\<close>

record MultiLayerCache =
  ml_lru :: "string LRUCache"
  ml_lfu :: StringLFUCache
  ml_fifo :: StringFIFOCache

definition NewMultiLayerCache :: "int \<Rightarrow> MultiLayerCache" where
  "NewMultiLayerCache maxSize =
     \<lparr>ml_lru = NewLRUCache maxSize (5 * Minute), ml_lfu = NewStringLFUCache maxSize,
      ml_fifo = NewStringFIFOCache maxSize\<rparr>"

definition ml_GetString :: "gotime \<Rightarrow> string \<Rightarrow> MultiLayerCache \<Rightarrow> string option \<times> MultiLayerCache" where
  "ml_GetString now key c =
     (let (val, lru') = lru_Get now key (ml_lru c); c1 = c\<lparr>ml_lru := lru'\<rparr>
      in case val of
           Some s \<Rightarrow> (Some s, c1)
         | None \<Rightarrow>
             (case lfu_Get key (ml_lfu c1) of
                (Some s, lfu') \<Rightarrow> (Some s, c1\<lparr>ml_lfu := lfu'\<rparr>)
              | (None, lfu') \<Rightarrow> (fifo_Get key (ml_fifo c1), c1\<lparr>ml_lfu := lfu'\<rparr>)))"

definition ml_SetString :: "gotime \<Rightarrow> string \<Rightarrow> string \<Rightarrow> MultiLayerCache \<Rightarrow> MultiLayerCache option" where
  "ml_SetString now key value c =
     (case lru_Set now key (Some value) (ml_lru c) of
        None \<Rightarrow> None
      | Some lru' \<Rightarrow>
          (case fifo_Set key value (ml_fifo c) of
             None \<Rightarrow> None
           | Some fifo' \<Rightarrow>
               Some \<lparr>ml_lru = lru', ml_lfu = lfu_Set key value (ml_lfu c), ml_fifo = fifo'\<rparr>))"

definition ml_Delete :: "gotime \<Rightarrow> string \<Rightarrow> MultiLayerCache \<Rightarrow> MultiLayerCache option" where
  "ml_Delete now key c =
     (case lru_Set now key None (ml_lru c) of
        None \<Rightarrow> None
      | Some lru' \<Rightarrow>
          Some \<lparr>ml_lru = lru', ml_lfu = lfu_Delete key (ml_lfu c), ml_fifo = fifo_Delete key (ml_fifo c)\<rparr>)"

section \<open>LFU: invariant and contract\<close>

definition lfu_inv :: "StringLFUCache \<Rightarrow> bool" where
  "lfu_inv c \<longleftrightarrow> distinct (al_keys (lfu_items c))"

definition lfu_lookup :: "StringLFUCache \<Rightarrow> string \<Rightarrow> string option" where
  "lfu_lookup c k = map_option sci_value (al_get (lfu_items c) k)"

text \<open>The running minimum is a key of least frequency.\<close>

lemma lfu_min_found:
  assumes "(k, i) \<in> set m" "sci_frequency i < f0"
  shows "\<exists>j. (lfu_min m k0 f0, j) \<in> set m \<and> (\<forall>x \<in> set m. sci_frequency j \<le> sci_frequency (snd x))
    \<and> sci_frequency j < f0"
  using assms
proof (induction m k0 f0 arbitrary: k i rule: lfu_min.induct)
  case (2 k1 i1 m k0 f0)
  show ?case
  proof (cases "sci_frequency i1 < f0")
    case less: True
    show ?thesis
    proof (cases "\<exists>x \<in> set m. sci_frequency (snd x) < sci_frequency i1")
      case True
      then obtain k' i' where "(k', i') \<in> set m" "sci_frequency i' < sci_frequency i1" by force
      from "2.IH"(1) [OF less this] less show ?thesis by fastforce
    next
      case False
      then have "lfu_min m k1 (sci_frequency i1) = k1"
        by (induction m) (auto simp: not_less)
      with False less show ?thesis by (intro exI [of _ i1]) (auto simp: not_less)
    qed
  next
    case False
    with "2.prems" have "(k, i) \<in> set m" by auto
    from "2.IH"(2) [OF False this "2.prems"(2)] False show ?thesis by fastforce
  qed
qed simp

lemma lfu_evict_sub:
  "al_get (lfu_items (lfu_evict c)) k = Some i \<Longrightarrow> al_get (lfu_items c) k = Some i"
  by (auto simp: lfu_evict_def Let_def split: if_splits)

lemma lfu_inv_evict [go_inv]: "lfu_inv c \<Longrightarrow> lfu_inv (lfu_evict c)"
  by (simp add: lfu_inv_def lfu_evict_def Let_def)

lemma lfu_inv_Set [go_inv]: "lfu_inv c \<Longrightarrow> lfu_inv (lfu_Set k v c)"
  using lfu_inv_evict [of c] by (auto simp: lfu_inv_def lfu_Set_def Let_def split: option.splits)

lemma lfu_Set_same: "lfu_lookup (lfu_Set k v c) k = Some v"
  by (auto simp: lfu_lookup_def lfu_Set_def Let_def split: option.splits)

lemma lfu_Set_other:
  "k' \<noteq> k \<Longrightarrow> lfu_lookup (lfu_Set k v c) k' = Some w \<Longrightarrow> lfu_lookup c k' = Some w"
  by (auto simp: lfu_lookup_def lfu_Set_def Let_def split: option.splits if_splits dest: lfu_evict_sub)

interpretation lfu: sound_cache lfu_inv "\<lambda>_. True" lfu_lookup "\<lambda>k v c. Some (lfu_Set k v c)"
  by unfold_locales (auto simp: lfu_inv_Set lfu_Set_same dest: lfu_Set_other)

section \<open>FIFO: invariant and contract\<close>

definition fifo_inv :: "StringFIFOCache \<Rightarrow> bool" where
  "fifo_inv c \<longleftrightarrow> 0 < fifo_capacity c \<and> distinct (al_keys (fifo_items c)) \<and>
     distinct (fifo_order c) \<and> set (al_keys (fifo_items c)) = set (fifo_order c) \<and>
     len (fifo_items c) \<le> fifo_capacity c"

lemma fifo_len: "fifo_inv c \<Longrightarrow> length (fifo_items c) = length (fifo_order c)"
  using distinct_card [of "al_keys (fifo_items c)"] distinct_card [of "fifo_order c"]
  by (auto simp: fifo_inv_def)

lemma fifo_inv_New [go_inv]: "0 < n \<Longrightarrow> fifo_inv (NewStringFIFOCache n)"
  by (simp add: fifo_inv_def NewStringFIFOCache_def)

lemma fifo_inv_Delete [go_inv]: "fifo_inv c \<Longrightarrow> fifo_inv (fifo_Delete k c)"
  using length_al_del_le [of k "fifo_items c"]
  by (auto simp: fifo_inv_def fifo_Delete_def al_keys_del distinct_removeAll)

text \<open>The three branches of \<^verbatim>\<open>Set\<close>: update, append, and replace the oldest.\<close>

lemma fifo_Set_full:
  assumes "fifo_inv c" "al_get (fifo_items c) k = None" "fifo_capacity c \<le> len (fifo_items c)"
  shows "\<exists>oldest rest. fifo_order c = oldest # rest \<and>
    fifo_Set k v c = Some (c\<lparr>fifo_items := al_put k v (al_del oldest (fifo_items c)),
      fifo_order := rest @ [k]\<rparr>)"
proof -
  have "fifo_order c \<noteq> []" using fifo_len [OF assms(1)] assms(1,3) by (auto simp: fifo_inv_def)
  then show ?thesis using assms(2,3) by (cases "fifo_order c") (auto simp: fifo_Set_def)
qed

lemma fifo_Set_spec:
  assumes "fifo_inv c"
  shows "\<exists>c'. fifo_Set k v c = Some c' \<and> fifo_inv c' \<and> fifo_capacity c' = fifo_capacity c \<and>
    fifo_Get k c' = Some v \<and> (\<forall>k' w. k' \<noteq> k \<longrightarrow> fifo_Get k' c' = Some w \<longrightarrow> fifo_Get k' c = Some w)"
proof (cases "al_get (fifo_items c) k")
  case (Some w)
  then have "k \<in> set (al_keys (fifo_items c))" by (rule al_get_Some_key)
  with Some assms show ?thesis
    by (auto simp: fifo_Set_def fifo_inv_def fifo_Get_def al_keys_put length_al_put)
next
  case None
  then have k: "k \<notin> set (al_keys (fifo_items c))" by (simp add: al_get_None_iff)
  show ?thesis
  proof (cases "fifo_capacity c \<le> len (fifo_items c)")
    case True
    obtain oldest rest where o: "fifo_order c = oldest # rest"
      and eq: "fifo_Set k v c = Some (c\<lparr>fifo_items := al_put k v (al_del oldest (fifo_items c)),
        fifo_order := rest @ [k]\<rparr>)"
      using fifo_Set_full [OF assms None True] by blast
    have old: "oldest \<in> set (al_keys (fifo_items c))" using o assms by (auto simp: fifo_inv_def)
    then have l: "len (al_del oldest (fifo_items c)) = len (fifo_items c) - 1"
      using assms by (intro len_al_del) (auto simp: fifo_inv_def)
    have ks: "set (al_keys (al_del oldest (fifo_items c))) = set rest"
      using o assms by (auto simp: al_keys_del fifo_inv_def)
    have "fifo_inv (c\<lparr>fifo_items := al_put k v (al_del oldest (fifo_items c)), fifo_order := rest @ [k]\<rparr>)"
      using assms o k ks l by (auto simp: fifo_inv_def al_keys_put length_al_put)
    with eq show ?thesis by (auto simp: fifo_Get_def split: if_splits)
  next
    case False
    with None k assms show ?thesis
      by (auto simp: fifo_Set_def fifo_inv_def fifo_Get_def al_keys_put length_al_put)
  qed
qed

interpretation fifo: bounded_cache fifo_inv "\<lambda>_. True" "\<lambda>c k. fifo_Get k c" fifo_Set fifo_Len fifo_capacity
proof unfold_locales
  fix c c' k v k' w
  assume inv: "fifo_inv c"
  note spec = fifo_Set_spec [OF inv, of k v]
  show "\<exists>c'. fifo_Set k v c = Some c'" using spec by blast
  show "fifo_Len c \<le> fifo_capacity c" using inv by (simp add: fifo_inv_def fifo_Len_def)
  assume st: "fifo_Set k v c = Some c'"
  show "fifo_inv c'" "fifo_Get k c' = Some v" "fifo_capacity c' = fifo_capacity c"
    using spec st by auto
  assume "k' \<noteq> k" "fifo_Get k' c' = Some w"
  then show "fifo_Get k' c = Some w" using spec st by auto
qed

section \<open>The composition refines one map\<close>

text \<open>Every value some layer could answer with is the value of the specification map.\<close>

definition ml_inv :: "(string \<rightharpoonup> string) \<Rightarrow> MultiLayerCache \<Rightarrow> bool" where
  "ml_inv M c \<longleftrightarrow> lru_inv (ml_lru c) \<and> lfu_inv (ml_lfu c) \<and> fifo_inv (ml_fifo c) \<and>
     (\<forall>k v. lru_lookup (ml_lru c) k = Some v \<or> lfu_lookup (ml_lfu c) k = Some v \<or>
            fifo_Get k (ml_fifo c) = Some v \<longrightarrow> M k = Some v)"

lemma ml_inv_New [go_inv]: "0 < n \<Longrightarrow> ml_inv Map.empty (NewMultiLayerCache n)"
  by (simp add: ml_inv_def NewMultiLayerCache_def lru_inv_New fifo_inv_New)
    (simp add: lfu_inv_def NewStringLFUCache_def lru_lookup_def NewLRUCache_def lfu_lookup_def
      fifo_Get_def NewStringFIFOCache_def)

lemma ml_Set_returns:
  assumes "ml_inv M c"
  shows "\<exists>c'. ml_SetString now k v c = Some c' \<and> ml_inv (M(k \<mapsto> v)) c'"
proof -
  have inv: "lru_inv (ml_lru c)" "lfu_inv (ml_lfu c)" "fifo_inv (ml_fifo c)"
    using assms by (auto simp: ml_inv_def)
  obtain l where l: "lru_Set now k (Some v) (ml_lru c) = Some l"
    using lru.store_returns [OF inv(1)] by fastforce
  obtain f where f: "fifo_Set k v (ml_fifo c) = Some f"
    using fifo.store_returns [OF inv(3), of k v] by auto
  have "lru_inv l" "fifo_inv f" "lfu_inv (lfu_Set k v (ml_lfu c))"
    using lru.store_invar [OF inv(1) _ l] fifo.store_invar [OF inv(3) _ f] lfu_inv_Set [OF inv(2)]
    by auto
  moreover have "(M(k \<mapsto> v)) k' = Some w"
    if "lru_lookup l k' = Some w \<or> lfu_lookup (lfu_Set k v (ml_lfu c)) k' = Some w \<or> fifo_Get k' f = Some w"
    for k' w
  proof (cases "k' = k")
    case True
    then show ?thesis
      using that lru.store_same [OF inv(1) _ l] fifo.store_same [OF inv(3) _ f] lfu_Set_same by auto
  next
    case False
    then have "lru_lookup (ml_lru c) k' = Some w \<or> lfu_lookup (ml_lfu c) k' = Some w \<or>
        fifo_Get k' (ml_fifo c) = Some w"
      using that lru.store_other [OF inv(1) _ l] fifo.store_other [OF inv(3) _ f] lfu_Set_other
      by blast
    with False assms show ?thesis by (auto simp: ml_inv_def)
  qed
  ultimately show ?thesis using l f by (simp add: ml_SetString_def ml_inv_def)
qed

lemma lfu_Delete_lookup [simp]:
  "lfu_lookup (lfu_Delete k c) k' = (if k' = k then None else lfu_lookup c k')"
  by (simp add: lfu_lookup_def lfu_Delete_def)

lemma fifo_Delete_Get [simp]:
  "fifo_Get k' (fifo_Delete k c) = (if k' = k then None else fifo_Get k' c)"
  by (simp add: fifo_Get_def fifo_Delete_def)

lemma ml_Delete_returns:
  assumes "ml_inv M c"
  shows "\<exists>c'. ml_Delete now k c = Some c' \<and> ml_inv (M(k := None)) c'"
proof -
  have inv: "lru_inv (ml_lru c)" "lfu_inv (ml_lfu c)" "fifo_inv (ml_fifo c)"
    using assms by (auto simp: ml_inv_def)
  obtain l where l: "lru_Set now k None (ml_lru c) = Some l" "lru_inv l"
      "al_get (lru_entries l) k = Some \<lparr>le_value = None, le_createdAt = now\<rparr>"
      "\<And>k' e. k' \<noteq> k \<Longrightarrow> al_get (lru_entries l) k' = Some e \<Longrightarrow> al_get (lru_entries (ml_lru c)) k' = Some e"
    using lru_Set_spec [OF inv(1), of now k None] by blast
  have "lru_lookup (ml_lru c) k' = Some w" if "lru_lookup l k' = Some w" "k' \<noteq> k" for k' w
    using that l(4) by (auto simp: lru_lookup_def bind_eq_Some_conv)
  moreover have "lru_lookup l k = None" using l(3) by (simp add: lru_lookup_def)
  moreover have "lfu_inv (lfu_Delete k (ml_lfu c))" using inv(2) by (simp add: lfu_inv_def lfu_Delete_def)
  moreover have "fifo_inv (fifo_Delete k (ml_fifo c))" using inv(3) by (rule fifo_inv_Delete)
  ultimately show ?thesis
    using l(1,2) assms unfolding ml_Delete_def ml_inv_def by (auto split: if_splits)
qed

lemma lru_Get_lookup:
  assumes "lru_Get now k c = (r, c')"
  shows "r = Some v \<Longrightarrow> lru_lookup c k = Some v"
    and "lru_lookup c' k' = Some w \<Longrightarrow> lru_lookup c k' = Some w"
  using assms
  by (auto simp: lru_Get_def lru_lookup_def lru_removeElement_def lru_moveToFront_def
      split: option.splits if_splits)

lemma lfu_Get_lookup:
  assumes "lfu_Get k c = (r, c')"
  shows "r = lfu_lookup c k" "lfu_lookup c' k' = lfu_lookup c k'" "lfu_inv c \<Longrightarrow> lfu_inv c'"
  using assms by (auto simp: lfu_Get_def lfu_lookup_def lfu_inv_def split: option.splits)

lemma ml_Get_sound:
  assumes "ml_inv M c" "ml_GetString now k c = (r, c')"
  shows "ml_inv M c'" and "r = Some v \<Longrightarrow> M k = Some v"
proof -
  obtain r1 l where l: "lru_Get now k (ml_lru c) = (r1, l)" by force
  obtain r2 f where f: "lfu_Get k (ml_lfu c) = (r2, f)" by force
  have "lru_inv l" using assms(1) lru_inv_Get [of "ml_lru c" now k] by (simp add: l ml_inv_def)
  then show "ml_inv M c'"
    using assms l f lru_Get_lookup(2) [OF l] lfu_Get_lookup [OF f]
    by (auto simp: ml_GetString_def ml_inv_def Let_def split: option.splits)
  show "r = Some v \<Longrightarrow> M k = Some v"
    using assms l f lru_Get_lookup(1) [OF l] lfu_Get_lookup [OF f]
    by (auto simp: ml_GetString_def ml_inv_def Let_def split: option.splits)
qed

text \<open>A run of operations, and the map it should denote.\<close>

datatype ml_op = MSet gotime string string | MDel gotime string | MGet gotime string

fun ml_exec :: "ml_op \<Rightarrow> MultiLayerCache \<Rightarrow> MultiLayerCache option" where
  "ml_exec (MSet now k v) c = ml_SetString now k v c"
| "ml_exec (MDel now k) c = ml_Delete now k c"
| "ml_exec (MGet now k) c = Some (snd (ml_GetString now k c))"

fun ml_spec :: "ml_op \<Rightarrow> (string \<rightharpoonup> string) \<Rightarrow> (string \<rightharpoonup> string)" where
  "ml_spec (MSet now k v) M = M(k \<mapsto> v)"
| "ml_spec (MDel now k) M = M(k := None)"
| "ml_spec (MGet now k) M = M"

fun ml_run :: "ml_op list \<Rightarrow> MultiLayerCache \<Rightarrow> MultiLayerCache option" where
  "ml_run [] c = Some c"
| "ml_run (op # ops) c = (case ml_exec op c of None \<Rightarrow> None | Some c' \<Rightarrow> ml_run ops c')"

lemma ml_exec_inv:
  assumes "ml_inv M c"
  shows "\<exists>c'. ml_exec op c = Some c' \<and> ml_inv (ml_spec op M) c'"
proof (cases op)
  case (MGet now k)
  then show ?thesis using ml_Get_sound(1) [OF assms, of now k] by (metis ml_exec.simps(3) ml_spec.simps(3) prod.collapse)
qed (use assms ml_Set_returns ml_Delete_returns in auto)

lemma ml_run_inv:
  "ml_inv M c \<Longrightarrow> \<exists>c'. ml_run ops c = Some c' \<and> ml_inv (fold ml_spec ops M) c'"
proof (induction ops arbitrary: M c)
  case (Cons op ops)
  with ml_exec_inv [OF Cons.prems, of op] show ?case by fastforce
qed simp

section \<open>Properties\<close>

text \<open>
  C33: the three-layer cache refines a map. Any run of sets, deletes and gets on a cache of
  positive size completes without a panic, and afterwards a get returns nothing or exactly
  the current value of the key: no layer serves a stale or deleted value.
\<close>

theorem ml_run_refines:
  assumes "0 < n"
  shows "\<exists>c. ml_run ops (NewMultiLayerCache n) = Some c \<and>
    (\<forall>now k v. fst (ml_GetString now k c) = Some v \<longrightarrow> fold ml_spec ops Map.empty k = Some v)"
proof -
  obtain c where c: "ml_run ops (NewMultiLayerCache n) = Some c" "ml_inv (fold ml_spec ops Map.empty) c"
    using ml_run_inv [OF ml_inv_New [OF assms]] by blast
  have "fst (ml_GetString now k c) = Some v \<Longrightarrow> fold ml_spec ops Map.empty k = Some v" for now k v
    using ml_Get_sound(2) [OF c(2)] by (metis prod.collapse)
  with c(1) show ?thesis by blast
qed

theorem ml_run_refines_witness:
  "\<exists>c. ml_run [MSet 0 ''k'' ''v'', MDel 1 ''k'', MGet 2 ''k''] (NewMultiLayerCache 1) = Some c \<and>
     (\<forall>now v. fst (ml_GetString now ''k'' c) \<noteq> Some v)"
  using ml_run_refines [of 1 "[MSet 0 ''k'' ''v'', MDel 1 ''k'', MGet 2 ''k'']"] by fastforce

text \<open>
  A set is followed by a successful get of the same value at any later time, even when
  the five-minute time to live of the LRU layer has passed, because the LFU layer keeps the
  value without expiry.
\<close>

theorem ml_read_your_write:
  assumes "ml_inv M c" "ml_SetString now k v c = Some c'"
  shows "fst (ml_GetString now' k c') = Some v"
proof -
  have inv: "ml_inv (M(k \<mapsto> v)) c'" using ml_Set_returns [OF assms(1), of now k v] assms(2) by auto
  have "lfu_lookup (ml_lfu c') k = Some v"
    using assms(2) by (auto simp: ml_SetString_def lfu_Set_same split: option.splits)
  moreover obtain r l where l: "lru_Get now' k (ml_lru c') = (r, l)" by force
  moreover have "r = Some w \<Longrightarrow> (M(k \<mapsto> v)) k = Some w" for w
    using lru_Get_lookup(1) [OF l] inv unfolding ml_inv_def by blast
  then have "r = Some w \<Longrightarrow> w = v" for w by simp
  ultimately show ?thesis
    using lfu_Get_lookup(1) by (fastforce simp: ml_GetString_def Let_def split: option.splits prod.splits)
qed

theorem ml_read_your_write_witness:
  "\<exists>c'. ml_SetString 0 ''k'' ''v'' (NewMultiLayerCache 2) = Some c' \<and>
     fst (ml_GetString Hour ''k'' c') = Some ''v''"
proof -
  have inv: "ml_inv Map.empty (NewMultiLayerCache 2)" by (rule ml_inv_New) simp
  then obtain c' where c': "ml_SetString 0 ''k'' ''v'' (NewMultiLayerCache 2) = Some c'"
    using ml_Set_returns by blast
  with ml_read_your_write [OF inv c', of Hour] show ?thesis by blast
qed

text \<open>
  A multi-layer cache built with a non-positive size panics on its first set (the LRU
  layer replaces such a size by a default, the FIFO layer reads the head of an empty queue).
\<close>

theorem ml_nonpositive_size_panics:
  assumes "n \<le> 0"
  shows "ml_SetString now k v (NewMultiLayerCache n) = None"
proof -
  have "fifo_Set k v (NewStringFIFOCache n) = None"
    using assms by (simp add: fifo_Set_def NewStringFIFOCache_def)
  then show ?thesis
    by (simp add: ml_SetString_def NewMultiLayerCache_def split: option.splits)
qed

theorem ml_nonpositive_size_panics_witness:
  "ml_SetString 0 ''k'' ''v'' (NewMultiLayerCache 0) = None"
  by (rule ml_nonpositive_size_panics) simp

text \<open>
  When the LFU cache evicts, it removes an entry of least use count, in whatever order
  the map is ranged over; the entry's key must be non-empty, since the empty key marks "none
  found".
\<close>

theorem lfu_evicts_least_frequent:
  assumes "lfu_inv c" "(k, i) \<in> set (lfu_items c)" "sci_frequency i < maxInt"
    and "[] \<notin> set (al_keys (lfu_items c))"
  shows "\<exists>k' j. al_get (lfu_items c) k' = Some j \<and>
    (\<forall>x \<in> set (lfu_items c). sci_frequency j \<le> sci_frequency (snd x)) \<and>
    al_get (lfu_items (lfu_evict c)) = (al_get (lfu_items c))(k' := None)"
proof -
  let ?k = "lfu_min (lfu_items c) [] maxInt"
  obtain j where j: "(?k, j) \<in> set (lfu_items c)"
      "\<forall>x \<in> set (lfu_items c). sci_frequency j \<le> sci_frequency (snd x)"
    using lfu_min_found [OF assms(2,3)] by blast
  then have "al_get (lfu_items c) ?k = Some j"
    using assms(1) by (simp add: al_get_map_of lfu_inv_def map_of_is_SomeI)
  moreover have "?k \<in> set (al_keys (lfu_items c))" using j(1) by (metis fst_conv image_eqI set_map)
  then have "?k \<noteq> []" using assms(4) by metis
  then have "al_get (lfu_items (lfu_evict c)) = (al_get (lfu_items c))(?k := None)"
    by (auto simp: lfu_evict_def Let_def fun_eq_iff)
  ultimately show ?thesis using j(2) by blast
qed

theorem lfu_evicts_least_frequent_witness:
  "\<exists>k'. al_get (lfu_items (lfu_evict \<lparr>lfu_capacity = 2, lfu_items =
      [(''a'', \<lparr>sci_value = ''x'', sci_frequency = 4\<rparr>), (''b'', \<lparr>sci_value = ''y'', sci_frequency = 2\<rparr>)]\<rparr>)) k' = None
    \<and> k' = ''b''"
proof -
  let ?c = "\<lparr>lfu_capacity = 2, lfu_items =
      [(''a'', \<lparr>sci_value = ''x'', sci_frequency = 4\<rparr>), (''b'', \<lparr>sci_value = ''y'', sci_frequency = 2\<rparr>)]\<rparr>"
  have "lfu_inv ?c" by (simp add: lfu_inv_def)
  from lfu_evicts_least_frequent [OF this, of "''b''" "\<lparr>sci_value = ''y'', sci_frequency = 2\<rparr>"]
  obtain k' j where "al_get (lfu_items ?c) k' = Some j"
      "\<forall>x \<in> set (lfu_items ?c). sci_frequency j \<le> sci_frequency (snd x)"
      "al_get (lfu_items (lfu_evict ?c)) = (al_get (lfu_items ?c))(k' := None)"
    by auto
  then have "k' = ''b''" "al_get (lfu_items (lfu_evict ?c)) k' = None" by (auto split: if_splits)
  then show ?thesis by blast
qed

end
