(* ===== verification/Circuit_Breaker.thy ===== *)
theory Circuit_Breaker
  imports Go_Prelude
begin

text \<open>
  The circuit breaker (\<^verbatim>\<open>internal/circuitbreaker/breaker.go\<close>). Every method runs under
  the breaker's lock, so each is one atomic step; \<^verbatim>\<open>time.Now()\<close> is the argument
  \<open>now\<close>. The buffered channel \<^verbatim>\<open>allowed\<close> of capacity one is the number of elements
  in it (the code sends to it and never receives).

  The breaker is then run by clients: \<open>client_step\<close> is the step relation of a breaker with
  callers that follow the intended discipline (a result is recorded only for a request that
  was let through), over which reachable states are defined and invariants are proved by rule
  induction.
\<close>

datatype State = StateClosed | StateOpen | StateHalfOpen

datatype brError = ErrOpen

definition State_String :: "State \<Rightarrow> string" where
  "State_String s =
     (case s of StateClosed \<Rightarrow> ''closed'' | StateOpen \<Rightarrow> ''open'' | StateHalfOpen \<Rightarrow> ''halfopen'')"

record Config =
  FailureThreshold :: int
  RecoveryTimeout :: duration
  SuccessThreshold :: int

definition DefaultConfig :: Config where
  "DefaultConfig = \<lparr>FailureThreshold = 5, RecoveryTimeout = 30 * Second, SuccessThreshold = 3\<rparr>"

record Breaker =
  br_state :: State
  br_cfg :: Config
  br_failures :: int
  br_successes :: int
  br_lastFailure :: gotime
  br_allowed :: nat

definition NewBreaker :: "Config \<Rightarrow> Breaker" where
  "NewBreaker cfg =
     \<lparr>br_state = StateClosed,
      br_cfg =
        \<lparr>FailureThreshold = (if FailureThreshold cfg \<le> 0 then 5 else FailureThreshold cfg),
         RecoveryTimeout = (if RecoveryTimeout cfg \<le> 0 then 30 * Second else RecoveryTimeout cfg),
         SuccessThreshold = (if SuccessThreshold cfg \<le> 0 then 3 else SuccessThreshold cfg)\<rparr>,
      br_failures = 0, br_successes = 0, br_lastFailure = 0, br_allowed = 0\<rparr>"

definition Allow :: "gotime \<Rightarrow> Breaker \<Rightarrow> brError option \<times> Breaker" where
  "Allow now b =
     (case br_state b of
        StateClosed \<Rightarrow> (None, b)
      | StateOpen \<Rightarrow>
          (if now - br_lastFailure b > RecoveryTimeout (br_cfg b)
           then (None, b\<lparr>br_state := StateHalfOpen, br_successes := 0\<rparr>)
           else (Some ErrOpen, b))
      | StateHalfOpen \<Rightarrow>
          (if br_allowed b < 1 then (None, b\<lparr>br_allowed := br_allowed b + 1\<rparr>)
           else (Some ErrOpen, b)))"

definition RecordSuccess :: "Breaker \<Rightarrow> Breaker" where
  "RecordSuccess b =
     (case br_state b of
        StateHalfOpen \<Rightarrow>
          (let n = br_successes b + 1
           in if n \<ge> SuccessThreshold (br_cfg b)
              then b\<lparr>br_state := StateClosed, br_failures := 0, br_successes := 0\<rparr>
              else b\<lparr>br_successes := n\<rparr>)
      | StateClosed \<Rightarrow> b\<lparr>br_failures := 0\<rparr>
      | StateOpen \<Rightarrow> b)"

definition RecordFailure :: "gotime \<Rightarrow> Breaker \<Rightarrow> Breaker" where
  "RecordFailure now b0 =
     (let b = b0\<lparr>br_lastFailure := now\<rparr>
      in case br_state b of
           StateClosed \<Rightarrow>
             (let n = br_failures b + 1
              in if n \<ge> FailureThreshold (br_cfg b)
                 then b\<lparr>br_failures := n, br_state := StateOpen\<rparr>
                 else b\<lparr>br_failures := n\<rparr>)
         | StateHalfOpen \<Rightarrow> b\<lparr>br_state := StateOpen, br_successes := 0\<rparr>
         | StateOpen \<Rightarrow> b)"

definition Reset :: "Breaker \<Rightarrow> Breaker" where
  "Reset b = b\<lparr>br_state := StateClosed, br_failures := 0, br_successes := 0\<rparr>"

section \<open>Clients and reachable states\<close>

text \<open>The state of a run: the breaker, and the number of requests let through whose result
  is still to be recorded.\<close>

inductive client_step :: "Breaker \<times> nat \<Rightarrow> Breaker \<times> nat \<Rightarrow> bool" where
  pass: "Allow now b = (None, b') \<Longrightarrow> client_step (b, n) (b', Suc n)"
| reject: "Allow now b = (Some ErrOpen, b') \<Longrightarrow> client_step (b, n) (b', n)"
| success: "client_step (b, Suc n) (RecordSuccess b, n)"
| failure: "client_step (b, Suc n) (RecordFailure now b, n)"

inductive_cases client_idle: "client_step (b, 0) s"

definition breaker_reachable :: "Config \<Rightarrow> Breaker \<Rightarrow> nat \<Rightarrow> bool" where
  "breaker_reachable cfg b n \<longleftrightarrow> client_step\<^sup>*\<^sup>* (NewBreaker cfg, 0) (b, n)"

text \<open>The invariant: thresholds are positive, a closed breaker has fewer failures than its
  threshold, a half-open one fewer successes than its own, and the channel holds at most one
  element.\<close>

definition breaker_inv :: "Breaker \<Rightarrow> bool" where
  "breaker_inv b \<longleftrightarrow>
     0 < FailureThreshold (br_cfg b) \<and> 0 < SuccessThreshold (br_cfg b) \<and>
     0 < RecoveryTimeout (br_cfg b) \<and> 0 \<le> br_failures b \<and> 0 \<le> br_successes b \<and>
     (br_state b = StateClosed \<longrightarrow> br_failures b < FailureThreshold (br_cfg b)) \<and>
     (br_state b = StateHalfOpen \<longrightarrow> br_successes b < SuccessThreshold (br_cfg b)) \<and>
     br_allowed b \<le> 1"

lemmas breaker_ops = Allow_def RecordSuccess_def RecordFailure_def Reset_def Let_def

lemma breaker_inv_New [go_inv]: "breaker_inv (NewBreaker cfg)"
  by (simp add: breaker_inv_def NewBreaker_def)

lemma breaker_inv_Allow [go_inv]: "breaker_inv b \<Longrightarrow> breaker_inv (snd (Allow now b))"
  by (cases "br_state b") (auto simp: breaker_inv_def breaker_ops)

lemma breaker_inv_RecordSuccess [go_inv]: "breaker_inv b \<Longrightarrow> breaker_inv (RecordSuccess b)"
  by (cases "br_state b") (auto simp: breaker_inv_def breaker_ops)

lemma breaker_inv_RecordFailure [go_inv]: "breaker_inv b \<Longrightarrow> breaker_inv (RecordFailure now b)"
  by (cases "br_state b") (auto simp: breaker_inv_def breaker_ops)

lemma breaker_inv_Reset [go_inv]: "breaker_inv b \<Longrightarrow> breaker_inv (Reset b)"
  by (auto simp: breaker_inv_def Reset_def)

lemma client_step_inv: "client_step s t \<Longrightarrow> breaker_inv (fst s) \<Longrightarrow> breaker_inv (fst t)"
proof (induction rule: client_step.induct)
  case (pass now b b' n)
  then show ?case using breaker_inv_Allow [of b now] by simp
next
  case (reject now b b' n)
  then show ?case using breaker_inv_Allow [of b now] by simp
qed (simp_all add: go_inv)

lemma client_steps_inv: "client_step\<^sup>*\<^sup>* s t \<Longrightarrow> breaker_inv (fst s) \<Longrightarrow> breaker_inv (fst t)"
  by (induction rule: rtranclp_induct) (auto dest: client_step_inv)

text \<open>The channel is never drained.\<close>

lemma client_step_allowed_mono: "client_step s t \<Longrightarrow> br_allowed (fst s) \<le> br_allowed (fst t)"
proof (induction rule: client_step.induct)
  case (pass now b b' n)
  then show ?case by (cases "br_state b") (auto simp: breaker_ops split: if_splits)
next
  case (reject now b b' n)
  then show ?case by (cases "br_state b") (auto simp: breaker_ops split: if_splits)
next
  case (success b n)
  then show ?case by (cases "br_state b") (auto simp: breaker_ops)
next
  case (failure b n now)
  then show ?case by (cases "br_state b") (auto simp: breaker_ops)
qed

section \<open>Counting failures\<close>

lemma closed_failures:
  assumes "br_state b = StateClosed"
    and "br_failures b + len ts < FailureThreshold (br_cfg b)"
  shows "br_state (fold RecordFailure ts b) = StateClosed \<and>
    br_failures (fold RecordFailure ts b) = br_failures b + len ts \<and>
    br_cfg (fold RecordFailure ts b) = br_cfg b"
  using assms
proof (induction ts arbitrary: b)
  case (Cons t ts)
  have "br_state (RecordFailure t b) = StateClosed" "br_failures (RecordFailure t b) = br_failures b + 1"
    "br_cfg (RecordFailure t b) = br_cfg b"
    using Cons.prems by (auto simp: RecordFailure_def Let_def)
  with Cons.IH [of "RecordFailure t b"] Cons.prems show ?case by simp
qed simp

lemma trips:
  assumes "br_state b = StateClosed" "br_failures b = 0"
    and "len ts = FailureThreshold (br_cfg b)" "ts \<noteq> []"
  shows "br_state (fold RecordFailure ts b) = StateOpen \<and>
    br_lastFailure (fold RecordFailure ts b) = last ts \<and> br_cfg (fold RecordFailure ts b) = br_cfg b"
proof -
  obtain us t where ts: "ts = us @ [t]" using assms(4) by (cases ts rule: rev_cases) auto
  have "br_state (fold RecordFailure us b) = StateClosed \<and>
      br_failures (fold RecordFailure us b) = len us \<and> br_cfg (fold RecordFailure us b) = br_cfg b"
    using closed_failures [of b us] assms ts by simp
  then show ?thesis using assms(3) ts by (simp add: RecordFailure_def Let_def)
qed

text \<open>A sequence of requests at the given times.\<close>

fun allow_all :: "gotime list \<Rightarrow> Breaker \<Rightarrow> brError option list \<times> Breaker" where
  "allow_all [] b = ([], b)"
| "allow_all (t # ts) b =
     (let (e, b1) = Allow t b; (es, b2) = allow_all ts b1 in (e # es, b2))"

section \<open>Properties\<close>



text \<open>
  The breaker trips exactly at the threshold. Starting closed with no recorded failure,
  it is still closed after fewer failures than the threshold, and open after exactly the
  threshold number.
\<close>

theorem breaker_trips_at_threshold:
  assumes "br_state b = StateClosed" "br_failures b = 0"
    and "len ts = FailureThreshold (br_cfg b)" "ts \<noteq> []"
  shows "br_state (fold RecordFailure ts b) = StateOpen \<and>
    br_lastFailure (fold RecordFailure ts b) = last ts \<and>
    (\<forall>n < length ts. br_state (fold RecordFailure (take n ts) b) = StateClosed)"
proof -
  have "br_state (fold RecordFailure (take n ts) b) = StateClosed" if "n < length ts" for n
    using closed_failures [of b "take n ts"] assms that by simp
  then show ?thesis using trips [OF assms] by simp
qed

theorem breaker_trips_at_threshold_witness:
  "br_state (fold RecordFailure [1, 2, 3, 4, 5] (NewBreaker DefaultConfig)) = StateOpen"
  using breaker_trips_at_threshold [of "NewBreaker DefaultConfig" "[1, 2, 3, 4, 5]"]
  by (simp add: NewBreaker_def DefaultConfig_def)

text \<open>
  Once tripped, the breaker fails fast. After the threshold number of failures, any
  sequence of requests made no later than the recovery timeout after the last of them is
  rejected one by one and leaves the breaker as it is; the first request after the timeout is
  let through and makes the breaker half-open with no recorded success.
\<close>

theorem breaker_fails_fast:
  assumes "br_state b = StateClosed" "br_failures b = 0"
    and "len ts = FailureThreshold (br_cfg b)" "ts \<noteq> []"
  defines "b' \<equiv> fold RecordFailure ts b"
  assumes "\<forall>r \<in> set rs. r - last ts \<le> RecoveryTimeout (br_cfg b)"
    and "now - last ts > RecoveryTimeout (br_cfg b)"
  shows "allow_all rs b' = (replicate (length rs) (Some ErrOpen), b') \<and>
    Allow now b' = (None, b'\<lparr>br_state := StateHalfOpen, br_successes := 0\<rparr>)"
proof -
  have b': "br_state b' = StateOpen" "br_lastFailure b' = last ts" "br_cfg b' = br_cfg b"
    using trips [OF assms(1-4)] by (simp_all add: b'_def)
  have "allow_all rs b' = (replicate (length rs) (Some ErrOpen), b')"
    using assms(6) by (induction rs) (auto simp: Allow_def b')
  then show ?thesis using assms(7) by (simp add: Allow_def b')
qed

theorem breaker_fails_fast_witness:
  "fst (allow_all [Second, 30 * Second] (fold RecordFailure [0, 0, 0, 0, 0] (NewBreaker DefaultConfig))) =
     [Some ErrOpen, Some ErrOpen]"
  using breaker_fails_fast [of "NewBreaker DefaultConfig" "[0, 0, 0, 0, 0]" "[Second, 30 * Second]" "31 * Second"]
  by (simp add: NewBreaker_def DefaultConfig_def)

text \<open>
  C40: the half-open breaker can get stuck. Once the trial permit is taken and no request is
  outstanding, disciplined clients can never move it again: every request is rejected and
  the breaker stays half-open forever, because nothing returns the permit.
\<close>

theorem breaker_half_open_stuck:
  assumes "client_step\<^sup>*\<^sup>* (b, 0) s" "br_state b = StateHalfOpen" "br_allowed b = 1"
  shows "s = (b, 0)"
  using assms(1)
proof (induction rule: rtranclp_induct)
  case (step t u)
  then have "client_step (b, 0) u" by simp
  then show ?case
    by (rule client_idle) (use assms(2,3) in \<open>simp_all add: Allow_def\<close>)
qed simp

text \<open>The run that reaches such a state under the default configuration: five failures, the
  timeout, two successful trials.\<close>

lemma default_trips:
  "client_step\<^sup>*\<^sup>* (NewBreaker DefaultConfig, 0) (fold RecordFailure [0, 0, 0, 0, 0] (NewBreaker DefaultConfig), 0)"
proof -
  have one: "client_step\<^sup>*\<^sup>* (b, 0) (RecordFailure 0 b, 0)" if "br_state b = StateClosed" for b
  proof -
    have "client_step (b, 0) (b, Suc 0)" using that by (intro client_step.pass) (simp add: Allow_def)
    moreover have "client_step (b, Suc 0) (RecordFailure 0 b, 0)" by (rule client_step.failure)
    ultimately show ?thesis by (meson rtranclp.simps)
  qed
  have "br_state (fold RecordFailure (replicate n 0) (NewBreaker DefaultConfig)) = StateClosed" if "n < 5" for n
    using that closed_failures [of "NewBreaker DefaultConfig" "replicate n 0"]
    by (simp add: NewBreaker_def DefaultConfig_def)
  note closed = this [of 0] this [of 1] this [of 2] this [of 3] this [of 4]
  show ?thesis
    using closed [simplified eval_nat_numeral] one by (simp add: eval_nat_numeral) (meson rtranclp_trans)
qed

theorem breaker_half_open_stuck_witness:
  "\<exists>b. breaker_reachable DefaultConfig b 0 \<and> br_state b = StateHalfOpen \<and> br_successes b = 2 \<and>
     SuccessThreshold (br_cfg b) = 3 \<and> (\<forall>s. client_step\<^sup>*\<^sup>* (b, 0) s \<longrightarrow> s = (b, 0))"
proof -
  let ?b0 = "fold RecordFailure [0, 0, 0, 0, 0] (NewBreaker DefaultConfig)"
  let ?b1 = "?b0\<lparr>br_state := StateHalfOpen, br_successes := 0\<rparr>"
  let ?b2 = "?b1\<lparr>br_successes := 1, br_allowed := 1\<rparr>"
  let ?b3 = "?b2\<lparr>br_successes := 2\<rparr>"
  note evals = RecordFailure_def NewBreaker_def DefaultConfig_def Let_def
  have "client_step (?b0, 0) (?b1, Suc 0)"
    by (rule client_step.pass [where now = "31 * Second"]) (simp add: Allow_def evals)
  moreover have "client_step (?b1, Suc 0) (?b1\<lparr>br_successes := 1\<rparr>, 0)"
    using client_step.success [of ?b1 0] by (simp add: RecordSuccess_def evals)
  moreover have "client_step (?b1\<lparr>br_successes := 1\<rparr>, 0) (?b2, Suc 0)"
    by (rule client_step.pass [where now = 0]) (simp add: Allow_def evals)
  moreover have "client_step (?b2, Suc 0) (?b3, 0)"
    using client_step.success [of ?b2 0] by (simp add: RecordSuccess_def evals)
  ultimately have "breaker_reachable DefaultConfig ?b3 0"
    unfolding breaker_reachable_def using default_trips by (meson rtranclp.rtrancl_into_rtrancl)
  moreover have "br_state ?b3 = StateHalfOpen" "br_allowed ?b3 = 1" "br_successes ?b3 = 2"
      "SuccessThreshold (br_cfg ?b3) = 3"
    by (simp_all add: evals)
  moreover from this have "\<forall>s. client_step\<^sup>*\<^sup>* (?b3, 0) s \<longrightarrow> s = (?b3, 0)"
    using breaker_half_open_stuck [of ?b3] by blast
  ultimately show ?thesis by blast
qed

end
