(* ===== verification/Pipeline_Types.thy ===== *)
theory Pipeline_Types
  imports Go_Float Estimator
begin

text \<open>
  The data model of the compression pipeline (\<^verbatim>\<open>internal/filter/pipeline_types.go\<close>,
  \<^verbatim>\<open>internal/filter/filter.go\<close>): modes, the Filter interface, the configuration
  structs with their zero values, and the statistics of a run.

  \<^verbatim>\<open>Mode\<close> is a Go string type, so any string is a mode. A value of the interface
  \<^verbatim>\<open>Filter\<close> is a record of its two methods. Some filters keep internal state; one
  pipeline run calls each filter at most once, so \<open>filter_apply\<close> is the behaviour of the
  filter in its state at that call.
\<close>

section \<open>Modes and filters\<close>

type_synonym Mode = string

definition ModeNone :: Mode where "ModeNone = ''none''"
definition ModeMinimal :: Mode where "ModeMinimal = ''minimal''"
definition ModeAggressive :: Mode where "ModeAggressive = ''aggressive''"

record Filter =
  filter_name :: string
  filter_apply :: "string \<Rightarrow> Mode \<Rightarrow> string \<times> int"

text \<open>The contract that makes the pipeline's bookkeeping right: a filter reports exactly the
  difference of the token estimates of its input and its output.\<close>

locale honest_filter =
  fixes est :: "string \<Rightarrow> int"
    and apply_fn :: "string \<Rightarrow> Mode \<Rightarrow> string \<times> int"
  assumes honest: "apply_fn s m = (t, n) \<Longrightarrow> n = est s - est t"
begin

lemma honest_snd: "snd (apply_fn s m) = est s - est (fst (apply_fn s m))"
  using honest by (metis prod.collapse)

text \<open>Honest filters compose: the reported savings of a chain telescope.\<close>

lemma honest_twice:
  "apply_fn s m = (t, n) \<Longrightarrow> apply_fn t m' = (u, k) \<Longrightarrow> n + k = est s - est u"
  using honest [of s m t n] honest [of t m' u k] by simp

end

section \<open>Configuration\<close>

record CoreLayersConfig =
  core_LLMEnabled :: bool
  core_SessionTracking :: bool
  core_NgramEnabled :: bool
  core_MultiFileEnabled :: bool

record CompactionLayerConfig =
  compl_Enabled :: bool
  compl_Threshold :: int
  compl_PreserveTurns :: int
  compl_MaxTokens :: int
  compl_StateSnapshot :: bool
  compl_AutoDetect :: bool

record AttributionLayerConfig =
  attrl_Enabled :: bool
  attrl_Threshold :: rat

record H2OLayerConfig =
  h2ol_Enabled :: bool
  h2ol_SinkSize :: int
  h2ol_RecentSize :: int
  h2ol_HeavyHitterSize :: int

record AttentionSinkLayerConfig =
  sinkl_Enabled :: bool
  sinkl_SinkCount :: int
  sinkl_RecentCount :: int

record MetaTokenLayerConfig =
  metal_Enabled :: bool
  metal_Window :: int
  metal_MinSize :: int

record SemanticChunkLayerConfig =
  chunkl_Enabled :: bool
  chunkl_Method :: string
  chunkl_MinSize :: int
  chunkl_Threshold :: rat

record SketchStoreLayerConfig =
  sketchl_Enabled :: bool
  sketchl_BudgetRatio :: rat
  sketchl_MaxSize :: int
  sketchl_HeavyHitter :: rat

record LazyPrunerLayerConfig =
  lazyl_Enabled :: bool
  lazyl_BaseBudget :: int
  lazyl_DecayRate :: rat
  lazyl_RevivalBudget :: int

record SemanticAnchorLayerConfig =
  anchorl_Enabled :: bool
  anchorl_Ratio :: rat
  anchorl_Spacing :: int

record AgentMemoryLayerConfig =
  memoryl_Enabled :: bool
  memoryl_KnowledgeRetention :: rat
  memoryl_HistoryPrune :: rat
  memoryl_ConsolidationMax :: int

record QuestionAwareLayerConfig =
  questl_Enabled :: bool
  questl_Threshold :: rat

record DensityAdaptiveLayerConfig =
  densl_Enabled :: bool
  densl_TargetRatio :: rat
  densl_Threshold :: rat

record TFIDFLayerConfig =
  tfidfl_Enabled :: bool
  tfidfl_Threshold :: rat

record NumericalQuantLayerConfig =
  quantl_Enabled :: bool
  quantl_DecimalPlaces :: int

record DynamicRatioLayerConfig =
  dynl_Enabled :: bool
  dynl_Base :: rat

record LayerConfig =
  lc_Core :: CoreLayersConfig
  lc_Compaction :: CompactionLayerConfig
  lc_Attribution :: AttributionLayerConfig
  lc_H2O :: H2OLayerConfig
  lc_AttentionSink :: AttentionSinkLayerConfig
  lc_MetaToken :: MetaTokenLayerConfig
  lc_SemanticChunk :: SemanticChunkLayerConfig
  lc_SketchStore :: SketchStoreLayerConfig
  lc_LazyPruner :: LazyPrunerLayerConfig
  lc_SemanticAnchor :: SemanticAnchorLayerConfig
  lc_AgentMemory :: AgentMemoryLayerConfig
  lc_QuestionAware :: QuestionAwareLayerConfig
  lc_DensityAdaptive :: DensityAdaptiveLayerConfig
  lc_TFIDF :: TFIDFLayerConfig
  lc_NumericalQuant :: NumericalQuantLayerConfig
  lc_DynamicRatio :: DynamicRatioLayerConfig
  lc_SymbolicCompress :: bool
  lc_PhraseGrouping :: bool
  lc_Hypernym :: bool
  lc_SemanticCache :: bool
  lc_Scope :: bool
  lc_SmallKV :: bool
  lc_KVzip :: bool
  lc_SWEzze :: bool
  lc_MixedDim :: bool
  lc_BEAVER :: bool
  lc_PoC :: bool
  lc_TokenQuant :: bool
  lc_TokenRetention :: bool
  lc_ACON :: bool
  lc_TOMLFilter :: bool
  lc_TOMLFilterCommand :: string
  lc_CacheEnabled :: bool

record PipelineConfig =
  cfg_Mode :: Mode
  cfg_QueryIntent :: string
  cfg_Budget :: int
  cfg_LLMEnabled :: bool
  cfg_SessionTracking :: bool
  cfg_NgramEnabled :: bool
  cfg_MultiFileEnabled :: bool
  cfg_PromptTemplate :: string
  cfg_EnableTOMLFilter :: bool
  cfg_TOMLFilterCommand :: string
  cfg_Layers :: LayerConfig
  cfg_EnableEntropy :: bool
  cfg_EnablePerplexity :: bool
  cfg_EnableGoalDriven :: bool
  cfg_EnableAST :: bool
  cfg_EnableContrastive :: bool
  cfg_EnableEvaluator :: bool
  cfg_EnableGist :: bool
  cfg_EnableHierarchical :: bool
  cfg_EnableCompaction :: bool
  cfg_CompactionThreshold :: int
  cfg_CompactionPreserveTurns :: int
  cfg_CompactionMaxTokens :: int
  cfg_CompactionStateSnapshot :: bool
  cfg_CompactionAutoDetect :: bool
  cfg_EnableAttribution :: bool
  cfg_AttributionThreshold :: rat
  cfg_EnableH2O :: bool
  cfg_H2OSinkSize :: int
  cfg_H2ORecentSize :: int
  cfg_H2OHeavyHitterSize :: int
  cfg_EnableAttentionSink :: bool
  cfg_AttentionSinkCount :: int
  cfg_AttentionRecentCount :: int
  cfg_EnableMetaToken :: bool
  cfg_MetaTokenWindow :: int
  cfg_MetaTokenMinSize :: int
  cfg_EnableSemanticChunk :: bool
  cfg_SemanticChunkMethod :: string
  cfg_SemanticChunkMinSize :: int
  cfg_SemanticChunkThreshold :: rat
  cfg_EnableSketchStore :: bool
  cfg_SketchBudgetRatio :: rat
  cfg_SketchMaxSize :: int
  cfg_SketchHeavyHitter :: rat
  cfg_EnableLazyPruner :: bool
  cfg_LazyBaseBudget :: int
  cfg_LazyDecayRate :: rat
  cfg_LazyRevivalBudget :: int
  cfg_EnableSemanticAnchor :: bool
  cfg_SemanticAnchorRatio :: rat
  cfg_SemanticAnchorSpacing :: int
  cfg_EnableAgentMemory :: bool
  cfg_AgentKnowledgeRetention :: rat
  cfg_AgentHistoryPrune :: rat
  cfg_AgentConsolidationMax :: int
  cfg_EnableQuestionAware :: bool
  cfg_QuestionAwareThreshold :: rat
  cfg_EnableDensityAdaptive :: bool
  cfg_DensityTargetRatio :: rat
  cfg_DensityThreshold :: rat
  cfg_EnableTFIDF :: bool
  cfg_TFIDFThreshold :: rat
  cfg_EnableReasoningTrace :: bool
  cfg_MaxReflectionLoops :: int
  cfg_EnableSymbolicCompress :: bool
  cfg_EnablePhraseGrouping :: bool
  cfg_EnableNumericalQuant :: bool
  cfg_DecimalPlaces :: int
  cfg_EnableDynamicRatio :: bool
  cfg_DynamicRatioBase :: rat
  cfg_EnableHypernym :: bool
  cfg_EnableSemanticCache :: bool
  cfg_EnableScope :: bool
  cfg_EnableSmallKV :: bool
  cfg_EnableKVzip :: bool
  cfg_EnableSWEzze :: bool
  cfg_EnableMixedDim :: bool
  cfg_EnableBEAVER :: bool
  cfg_EnablePoC :: bool
  cfg_EnableTokenQuant :: bool
  cfg_EnableTokenRetention :: bool
  cfg_EnableACON :: bool
  cfg_CacheEnabled :: bool
  cfg_CacheMaxSize :: int

definition zeroCoreLayersConfig :: CoreLayersConfig where
  "zeroCoreLayersConfig =
     \<lparr>core_LLMEnabled = False, core_SessionTracking = False, core_NgramEnabled = False,
      core_MultiFileEnabled = False\<rparr>"

definition zeroCompactionLayerConfig :: CompactionLayerConfig where
  "zeroCompactionLayerConfig =
     \<lparr>compl_Enabled = False, compl_Threshold = 0, compl_PreserveTurns = 0,
      compl_MaxTokens = 0, compl_StateSnapshot = False, compl_AutoDetect = False\<rparr>"

definition zeroAttributionLayerConfig :: AttributionLayerConfig where
  "zeroAttributionLayerConfig =
     \<lparr>attrl_Enabled = False, attrl_Threshold = 0\<rparr>"

definition zeroH2OLayerConfig :: H2OLayerConfig where
  "zeroH2OLayerConfig =
     \<lparr>h2ol_Enabled = False, h2ol_SinkSize = 0, h2ol_RecentSize = 0,
      h2ol_HeavyHitterSize = 0\<rparr>"

definition zeroAttentionSinkLayerConfig :: AttentionSinkLayerConfig where
  "zeroAttentionSinkLayerConfig =
     \<lparr>sinkl_Enabled = False, sinkl_SinkCount = 0, sinkl_RecentCount = 0\<rparr>"

definition zeroMetaTokenLayerConfig :: MetaTokenLayerConfig where
  "zeroMetaTokenLayerConfig =
     \<lparr>metal_Enabled = False, metal_Window = 0, metal_MinSize = 0\<rparr>"

definition zeroSemanticChunkLayerConfig :: SemanticChunkLayerConfig where
  "zeroSemanticChunkLayerConfig =
     \<lparr>chunkl_Enabled = False, chunkl_Method = [], chunkl_MinSize = 0,
      chunkl_Threshold = 0\<rparr>"

definition zeroSketchStoreLayerConfig :: SketchStoreLayerConfig where
  "zeroSketchStoreLayerConfig =
     \<lparr>sketchl_Enabled = False, sketchl_BudgetRatio = 0, sketchl_MaxSize = 0,
      sketchl_HeavyHitter = 0\<rparr>"

definition zeroLazyPrunerLayerConfig :: LazyPrunerLayerConfig where
  "zeroLazyPrunerLayerConfig =
     \<lparr>lazyl_Enabled = False, lazyl_BaseBudget = 0, lazyl_DecayRate = 0,
      lazyl_RevivalBudget = 0\<rparr>"

definition zeroSemanticAnchorLayerConfig :: SemanticAnchorLayerConfig where
  "zeroSemanticAnchorLayerConfig =
     \<lparr>anchorl_Enabled = False, anchorl_Ratio = 0, anchorl_Spacing = 0\<rparr>"

definition zeroAgentMemoryLayerConfig :: AgentMemoryLayerConfig where
  "zeroAgentMemoryLayerConfig =
     \<lparr>memoryl_Enabled = False, memoryl_KnowledgeRetention = 0, memoryl_HistoryPrune = 0,
      memoryl_ConsolidationMax = 0\<rparr>"

definition zeroQuestionAwareLayerConfig :: QuestionAwareLayerConfig where
  "zeroQuestionAwareLayerConfig =
     \<lparr>questl_Enabled = False, questl_Threshold = 0\<rparr>"

definition zeroDensityAdaptiveLayerConfig :: DensityAdaptiveLayerConfig where
  "zeroDensityAdaptiveLayerConfig =
     \<lparr>densl_Enabled = False, densl_TargetRatio = 0, densl_Threshold = 0\<rparr>"

definition zeroTFIDFLayerConfig :: TFIDFLayerConfig where
  "zeroTFIDFLayerConfig =
     \<lparr>tfidfl_Enabled = False, tfidfl_Threshold = 0\<rparr>"

definition zeroNumericalQuantLayerConfig :: NumericalQuantLayerConfig where
  "zeroNumericalQuantLayerConfig =
     \<lparr>quantl_Enabled = False, quantl_DecimalPlaces = 0\<rparr>"

definition zeroDynamicRatioLayerConfig :: DynamicRatioLayerConfig where
  "zeroDynamicRatioLayerConfig =
     \<lparr>dynl_Enabled = False, dynl_Base = 0\<rparr>"

definition zeroLayerConfig :: LayerConfig where
  "zeroLayerConfig =
     \<lparr>lc_Core = zeroCoreLayersConfig, lc_Compaction = zeroCompactionLayerConfig,
      lc_Attribution = zeroAttributionLayerConfig, lc_H2O = zeroH2OLayerConfig,
      lc_AttentionSink = zeroAttentionSinkLayerConfig, lc_MetaToken = zeroMetaTokenLayerConfig,
      lc_SemanticChunk = zeroSemanticChunkLayerConfig,
      lc_SketchStore = zeroSketchStoreLayerConfig, lc_LazyPruner = zeroLazyPrunerLayerConfig,
      lc_SemanticAnchor = zeroSemanticAnchorLayerConfig,
      lc_AgentMemory = zeroAgentMemoryLayerConfig,
      lc_QuestionAware = zeroQuestionAwareLayerConfig,
      lc_DensityAdaptive = zeroDensityAdaptiveLayerConfig, lc_TFIDF = zeroTFIDFLayerConfig,
      lc_NumericalQuant = zeroNumericalQuantLayerConfig,
      lc_DynamicRatio = zeroDynamicRatioLayerConfig, lc_SymbolicCompress = False,
      lc_PhraseGrouping = False, lc_Hypernym = False, lc_SemanticCache = False,
      lc_Scope = False, lc_SmallKV = False, lc_KVzip = False, lc_SWEzze = False,
      lc_MixedDim = False, lc_BEAVER = False, lc_PoC = False, lc_TokenQuant = False,
      lc_TokenRetention = False, lc_ACON = False, lc_TOMLFilter = False,
      lc_TOMLFilterCommand = [], lc_CacheEnabled = False\<rparr>"

definition zeroPipelineConfig :: PipelineConfig where
  "zeroPipelineConfig =
     \<lparr>cfg_Mode = [], cfg_QueryIntent = [], cfg_Budget = 0, cfg_LLMEnabled = False,
      cfg_SessionTracking = False, cfg_NgramEnabled = False, cfg_MultiFileEnabled = False,
      cfg_PromptTemplate = [], cfg_EnableTOMLFilter = False, cfg_TOMLFilterCommand = [],
      cfg_Layers = zeroLayerConfig, cfg_EnableEntropy = False, cfg_EnablePerplexity = False,
      cfg_EnableGoalDriven = False, cfg_EnableAST = False, cfg_EnableContrastive = False,
      cfg_EnableEvaluator = False, cfg_EnableGist = False, cfg_EnableHierarchical = False,
      cfg_EnableCompaction = False, cfg_CompactionThreshold = 0,
      cfg_CompactionPreserveTurns = 0, cfg_CompactionMaxTokens = 0,
      cfg_CompactionStateSnapshot = False, cfg_CompactionAutoDetect = False,
      cfg_EnableAttribution = False, cfg_AttributionThreshold = 0, cfg_EnableH2O = False,
      cfg_H2OSinkSize = 0, cfg_H2ORecentSize = 0, cfg_H2OHeavyHitterSize = 0,
      cfg_EnableAttentionSink = False, cfg_AttentionSinkCount = 0,
      cfg_AttentionRecentCount = 0, cfg_EnableMetaToken = False, cfg_MetaTokenWindow = 0,
      cfg_MetaTokenMinSize = 0, cfg_EnableSemanticChunk = False, cfg_SemanticChunkMethod = [],
      cfg_SemanticChunkMinSize = 0, cfg_SemanticChunkThreshold = 0,
      cfg_EnableSketchStore = False, cfg_SketchBudgetRatio = 0, cfg_SketchMaxSize = 0,
      cfg_SketchHeavyHitter = 0, cfg_EnableLazyPruner = False, cfg_LazyBaseBudget = 0,
      cfg_LazyDecayRate = 0, cfg_LazyRevivalBudget = 0, cfg_EnableSemanticAnchor = False,
      cfg_SemanticAnchorRatio = 0, cfg_SemanticAnchorSpacing = 0,
      cfg_EnableAgentMemory = False, cfg_AgentKnowledgeRetention = 0,
      cfg_AgentHistoryPrune = 0, cfg_AgentConsolidationMax = 0,
      cfg_EnableQuestionAware = False, cfg_QuestionAwareThreshold = 0,
      cfg_EnableDensityAdaptive = False, cfg_DensityTargetRatio = 0, cfg_DensityThreshold = 0,
      cfg_EnableTFIDF = False, cfg_TFIDFThreshold = 0, cfg_EnableReasoningTrace = False,
      cfg_MaxReflectionLoops = 0, cfg_EnableSymbolicCompress = False,
      cfg_EnablePhraseGrouping = False, cfg_EnableNumericalQuant = False,
      cfg_DecimalPlaces = 0, cfg_EnableDynamicRatio = False, cfg_DynamicRatioBase = 0,
      cfg_EnableHypernym = False, cfg_EnableSemanticCache = False, cfg_EnableScope = False,
      cfg_EnableSmallKV = False, cfg_EnableKVzip = False, cfg_EnableSWEzze = False,
      cfg_EnableMixedDim = False, cfg_EnableBEAVER = False, cfg_EnablePoC = False,
      cfg_EnableTokenQuant = False, cfg_EnableTokenRetention = False, cfg_EnableACON = False,
      cfg_CacheEnabled = False, cfg_CacheMaxSize = 0\<rparr>"


section \<open>Statistics\<close>

record LayerStat =
  TokensSaved :: int
  Duration :: int

record PipelineStats =
  OriginalTokens :: int
  FinalTokens :: int
  TotalSaved :: int
  ReductionPercent :: rat
  LayerStats :: "string \<rightharpoonup> LayerStat"
  runningSaved :: int
  CacheHit :: bool

end
