(* ===== verification/Filter_Configs.thy ===== *)
theory Filter_Configs
  imports Pipeline_Types
begin

text \<open>
  The configuration structs of the filters that the coordinator configures, with their default
  values (the \<^verbatim>\<open>Default...Config\<close> functions of \<^verbatim>\<open>internal/filter\<close>). A regular
  expression is kept as its source text.
\<close>

record LLMAwareConfig =
  llm_Threshold :: int
  llm_Enabled :: bool
  llm_CacheEnabled :: bool
  llm_PromptTemplate :: string

record CompactionConfig =
  compact_Enabled :: bool
  compact_ThresholdLines :: int
  compact_ThresholdTokens :: int
  compact_PreserveRecentTurns :: int
  compact_MaxSummaryTokens :: int
  compact_ContentTypes :: "string list"
  compact_CacheEnabled :: bool
  compact_PromptTemplate :: string
  compact_AutoDetect :: bool
  compact_StateSnapshotFormat :: bool
  compact_ExtractKeyValuePairs :: bool
  compact_MaxContextEntries :: int

definition DefaultCompactionConfig :: CompactionConfig where
  "DefaultCompactionConfig =
     \<lparr>compact_Enabled = False, compact_ThresholdLines = 100, compact_ThresholdTokens = 2000,
      compact_PreserveRecentTurns = 5, compact_MaxSummaryTokens = 500,
      compact_ContentTypes = [''chat'', ''conversation'', ''session'', ''transcript''],
      compact_CacheEnabled = True, compact_PromptTemplate = [], compact_AutoDetect = True,
      compact_StateSnapshotFormat = True, compact_ExtractKeyValuePairs = True,
      compact_MaxContextEntries = 20\<rparr>"

record AttributionConfig =
  attr_Enabled :: bool
  attr_ImportanceThreshold :: rat
  attr_MinContentLength :: int
  attr_PositionalBias :: bool
  attr_FrequencyBias :: bool
  attr_SemanticPreservation :: bool
  attr_MaxAnalyzeTokens :: int

definition DefaultAttributionConfig :: AttributionConfig where
  "DefaultAttributionConfig =
     \<lparr>attr_Enabled = True, attr_ImportanceThreshold = f64 (1/4), attr_MinContentLength = 50,
      attr_PositionalBias = True, attr_FrequencyBias = True,
      attr_SemanticPreservation = True, attr_MaxAnalyzeTokens = 10000\<rparr>"

record H2OConfig =
  h2o_Enabled :: bool
  h2o_SinkSize :: int
  h2o_RecentSize :: int
  h2o_HeavyHitterSize :: int
  h2o_MinContentLength :: int
  h2o_ChunkWindow :: int

definition DefaultH2OConfig :: H2OConfig where
  "DefaultH2OConfig =
     \<lparr>h2o_Enabled = True, h2o_SinkSize = 4, h2o_RecentSize = 20, h2o_HeavyHitterSize = 40,
      h2o_MinContentLength = 100, h2o_ChunkWindow = 100\<rparr>"

record MetaTokenConfig =
  meta_WindowSize :: int
  meta_MinPattern :: int
  meta_MaxMetaTokens :: int
  meta_EnableDecompression :: bool

definition DefaultMetaTokenConfig :: MetaTokenConfig where
  "DefaultMetaTokenConfig =
     \<lparr>meta_WindowSize = 512, meta_MinPattern = 3, meta_MaxMetaTokens = 1000,
      meta_EnableDecompression = True\<rparr>"

datatype ChunkMethod = ChunkAuto | ChunkCode | ChunkText | ChunkMixed

record SemanticChunkConfig =
  chunk_ChunkMethod :: ChunkMethod
  chunk_MinChunkSize :: int
  chunk_MaxChunkSize :: int
  chunk_ImportanceThreshold :: rat
  chunk_PreserveStructure :: bool

definition DefaultSemanticChunkConfig :: SemanticChunkConfig where
  "DefaultSemanticChunkConfig =
     \<lparr>chunk_ChunkMethod = ChunkAuto, chunk_MinChunkSize = 5, chunk_MaxChunkSize = 500,
      chunk_ImportanceThreshold = f64 (3/10), chunk_PreserveStructure = True\<rparr>"

record SketchStoreConfig =
  sketch_BudgetRatio :: rat
  sketch_EnableRecovery :: bool
  sketch_MaxSketchSize :: int
  sketch_HeavyHitterRatio :: rat

definition DefaultSketchStoreConfig :: SketchStoreConfig where
  "DefaultSketchStoreConfig =
     \<lparr>sketch_BudgetRatio = f64 (1/10), sketch_EnableRecovery = True,
      sketch_MaxSketchSize = 256, sketch_HeavyHitterRatio = f64 (1/5)\<rparr>"

record LazyPrunerConfig =
  lazy_BaseBudget :: int
  lazy_DecayRate :: rat
  lazy_NumLayers :: int
  lazy_RevivalBudget :: int
  lazy_AttentionThreshold :: rat
  lazy_EnableRevival :: bool

definition DefaultLazyPrunerConfig :: LazyPrunerConfig where
  "DefaultLazyPrunerConfig =
     \<lparr>lazy_BaseBudget = 4000, lazy_DecayRate = f64 (9/10), lazy_NumLayers = 10,
      lazy_RevivalBudget = 100, lazy_AttentionThreshold = f64 (3/10),
      lazy_EnableRevival = True\<rparr>"

record SemanticAnchorConfig =
  anchor_AnchorRatio :: rat
  anchor_MinAnchorSpacing :: int
  anchor_EnableAggregation :: bool
  anchor_PreserveStructure :: bool

definition DefaultSemanticAnchorConfig :: SemanticAnchorConfig where
  "DefaultSemanticAnchorConfig =
     \<lparr>anchor_AnchorRatio = f64 (3/20), anchor_MinAnchorSpacing = 3,
      anchor_EnableAggregation = True, anchor_PreserveStructure = True\<rparr>"

record AgentMemoryConfig =
  memory_KnowledgeRetentionRatio :: rat
  memory_HistoryPruneRatio :: rat
  memory_ConsolidationThreshold :: int
  memory_EnableAutoConsolidation :: bool
  memory_KnowledgeMaxSize :: int
  memory_PreservePatterns :: "string list"

definition DefaultAgentMemoryConfig :: AgentMemoryConfig where
  "DefaultAgentMemoryConfig =
     \<lparr>memory_KnowledgeRetentionRatio = f64 (4/5), memory_HistoryPruneRatio = f64 (3/5),
      memory_ConsolidationThreshold = 500, memory_EnableAutoConsolidation = True,
      memory_KnowledgeMaxSize = 2000,
      memory_PreservePatterns = [''(?i)(error|fail|critical|important|warning)'', ''(?i)(TODO|FIXME|BUG|HACK)'']\<rparr>"

record QuestionAwareConfig =
  quest_Enabled :: bool
  quest_Query :: string
  quest_RelevanceThreshold :: rat
  quest_ContextWindow :: int
  quest_ExactMatchBoost :: rat
  quest_PartialMatchBoost :: rat

definition DefaultQuestionAwareConfig :: QuestionAwareConfig where
  "DefaultQuestionAwareConfig =
     \<lparr>quest_Enabled = True, quest_Query = [], quest_RelevanceThreshold = f64 (3/10),
      quest_ContextWindow = 20, quest_ExactMatchBoost = 1,
      quest_PartialMatchBoost = f64 (3/5)\<rparr>"

record DensityAdaptiveConfig =
  dens_Enabled :: bool
  dens_TargetRatio :: rat
  dens_DensityThreshold :: rat
  dens_WindowSize :: int
  dens_DensityBoost :: rat
  dens_SparsePenalty :: rat

definition DefaultDensityAdaptiveConfig :: DensityAdaptiveConfig where
  "DefaultDensityAdaptiveConfig =
     \<lparr>dens_Enabled = True, dens_TargetRatio = f64 (2/5), dens_DensityThreshold = f64 (1/2),
      dens_WindowSize = 10, dens_DensityBoost = f64 (13/10), dens_SparsePenalty = f64 (7/10)\<rparr>"

record TFIDFConfig =
  tfidf_Enabled :: bool
  tfidf_MinSentences :: int
  tfidf_Threshold :: rat
  tfidf_MinContentLength :: int

definition DefaultTFIDFConfig :: TFIDFConfig where
  "DefaultTFIDFConfig =
     \<lparr>tfidf_Enabled = True, tfidf_MinSentences = 5, tfidf_Threshold = f64 (3/20),
      tfidf_MinContentLength = 200\<rparr>"

record NumericalConfig =
  num_Enabled :: bool
  num_DecimalPlaces :: int
  num_CompressLargeNumbers :: bool
  num_LargeNumberThreshold :: int
  num_CompressPercentages :: bool
  num_MinContentLength :: int

definition DefaultNumericalConfig :: NumericalConfig where
  "DefaultNumericalConfig =
     \<lparr>num_Enabled = True, num_DecimalPlaces = 2, num_CompressLargeNumbers = True,
      num_LargeNumberThreshold = 1000, num_CompressPercentages = True,
      num_MinContentLength = 50\<rparr>"

record DynamicRatioConfig =
  dyn_Enabled :: bool
  dyn_MinComplexity :: rat
  dyn_MaxComplexity :: rat
  dyn_BaseBudgetRatio :: rat
  dyn_HighComplexityBoost :: rat
  dyn_LowComplexityPenalty :: rat
  dyn_MinContentLength :: int

definition DefaultDynamicRatioConfig :: DynamicRatioConfig where
  "DefaultDynamicRatioConfig =
     \<lparr>dyn_Enabled = True, dyn_MinComplexity = f64 (1/5), dyn_MaxComplexity = f64 (4/5),
      dyn_BaseBudgetRatio = 1, dyn_HighComplexityBoost = f64 (3/2),
      dyn_LowComplexityPenalty = f64 (1/2), dyn_MinContentLength = 100\<rparr>"

end
