(* ===== verification/Feedback.thy ===== *)
theory Feedback
  imports Go_Float
begin

text \<open>
  Inter-layer feedback and the quality estimate
  (\<^verbatim>\<open>internal/filter/inter_layer_feedback.go\<close>).

  The signal map is ranged over when an adjustment is computed; it is an association list,
  whose order is the iteration order (the sum of floating-point adjustments depends on it).
  Sets of words are duplicate-free lists, of which only the size and the members count. The
  argument \<open>lower\<close> of the quality estimate is \<^verbatim>\<open>strings.ToLower\<close>; nothing is assumed
  about it.
\<close>

record FeedbackConfig =
  fb_Enabled :: bool
  fb_QualityThreshold :: rat
  fb_MaxAdjustment :: rat

record FeedbackSignal =
  sig_LayerName :: string
  sig_QualityScore :: rat
  sig_CompressionRatio :: rat
  sig_SuggestedAdjustment :: rat

record InterLayerFeedback =
  fb_config :: FeedbackConfig
  fb_signals :: "(string \<times> FeedbackSignal) list"

definition DefaultFeedbackConfig :: FeedbackConfig where
  "DefaultFeedbackConfig =
     \<lparr>fb_Enabled = True, fb_QualityThreshold = f64 (7/10), fb_MaxAdjustment = f64 (3/10)\<rparr>"

definition NewInterLayerFeedback :: InterLayerFeedback where
  "NewInterLayerFeedback = \<lparr>fb_config = DefaultFeedbackConfig, fb_signals = []\<rparr>"

definition RecordSignal :: "FeedbackSignal \<Rightarrow> InterLayerFeedback \<Rightarrow> InterLayerFeedback" where
  "RecordSignal signal f =
     (if \<not> fb_Enabled (fb_config f) then f
      else f\<lparr>fb_signals := al_put (sig_LayerName signal) signal (fb_signals f)\<rparr>)"

fun sum_adjust :: "rat \<Rightarrow> (string \<times> FeedbackSignal) list \<Rightarrow> rat \<Rightarrow> int \<Rightarrow> rat \<times> int" where
  "sum_adjust threshold [] tot count = (tot, count)"
| "sum_adjust threshold ((_, signal) # m) tot count =
     (if sig_QualityScore signal < threshold
      then sum_adjust threshold m (fadd tot (sig_SuggestedAdjustment signal)) (count + 1)
      else sum_adjust threshold m tot count)"

definition GetAdjustment :: "InterLayerFeedback \<Rightarrow> string \<Rightarrow> rat" where
  "GetAdjustment f layerName =
     (if \<not> fb_Enabled (fb_config f) then 0
      else (let (tot, count) = sum_adjust (fb_QualityThreshold (fb_config f)) (fb_signals f) 0 0
            in if count = 0 then 0
               else (let avg = fdiv tot (of_int64 count); m = fb_MaxAdjustment (fb_config f)
                     in if avg > m then m else if avg < - m then - m else avg)))"

definition ResetFeedback :: "InterLayerFeedback \<Rightarrow> InterLayerFeedback" where
  "ResetFeedback f = f\<lparr>fb_signals := []\<rparr>"

section \<open>The quality estimate\<close>

definition stopWords :: "string list" where
  "stopWords =
     [''the'', ''a'', ''an'', ''is'', ''are'', ''was'', ''were'', ''be'', ''been'', ''being'',
      ''have'', ''has'', ''had'', ''do'', ''does'', ''did'', ''will'', ''would'', ''could'', ''should'',
      ''may'', ''might'', ''shall'', ''can'', ''to'', ''of'', ''in'', ''for'', ''on'', ''with'',
      ''at'', ''by'', ''from'', ''it'', ''this'', ''that'', ''and'', ''or'', ''not'', ''but'']"

definition term_cutset :: string where
  "term_cutset = ''.,;:!?'' @ [CHR 0x22, CHR 0x27] @ ''()[]{}''"

definition extractKeyTerms :: "(string \<Rightarrow> string) \<Rightarrow> string \<Rightarrow> string list" where
  "extractKeyTerms lower s =
     remdups (filter (\<lambda>w. 3 < length w \<and> w \<notin> set stopWords)
       (map (trim_cutset term_cutset) (str_fields (lower s))))"

definition keyTermRetention :: "(string \<Rightarrow> string) \<Rightarrow> string \<Rightarrow> string \<Rightarrow> rat" where
  "keyTermRetention lower original compressed =
     (let origTerms = extractKeyTerms lower original
      in if origTerms = [] then 1
         else (let compressedLower = lower compressed;
                   retained = len (filter (contains compressedLower) origTerms)
               in fdiv (of_int64 retained) (of_int64 (len origTerms))))"

definition structuralIntegrity :: "string \<Rightarrow> string \<Rightarrow> rat" where
  "structuralIntegrity original compressed =
     (let origLines = int (count_list original nl); compLines = int (count_list compressed nl);
          score = f64 (1/2);
          score = (if origLines > 0 then
                     (let ratio = fdiv (of_int64 compLines) (of_int64 origLines)
                      in if ratio > f64 (3/10) \<and> ratio < 2 then fadd score (f64 (1/4)) else score)
                   else score)
      in if contains original ''{'' \<and> contains compressed ''{'' then fadd score (f64 (1/4)) else score)"

definition informationDensity :: "(string \<Rightarrow> string) \<Rightarrow> string \<Rightarrow> rat" where
  "informationDensity lower s =
     (let words = str_fields s
      in if words = [] then 0
         else fdiv (of_int64 (len (remdups (map lower words)))) (of_int64 (len words)))"

definition readability :: "string \<Rightarrow> rat" where
  "readability s =
     (let lines = split_lines s
      in if lines = [] then 0
         else (let nonEmpty = filter (\<lambda>l. trimSpace l \<noteq> []) lines;
                   totalLen = sum_list (map len nonEmpty); n = len nonEmpty;
                   score = f64 (1/2);
                   score = (if n > 0 then
                              (let avgLen = fdiv (of_int64 totalLen) (of_int64 n)
                               in if avgLen \<ge> 20 \<and> avgLen \<le> 120 then fadd score (f64 (3/10)) else score)
                            else score);
                   emptyRatio = fsub 1 (fdiv (of_int64 n) (of_int64 (len lines)))
               in if emptyRatio > 0 \<and> emptyRatio < f64 (3/10) then fadd score (f64 (2/10)) else score))"

definition EstimateQuality :: "(string \<Rightarrow> string) \<Rightarrow> string \<Rightarrow> string \<Rightarrow> rat" where
  "EstimateQuality lower original compressed =
     (if compressed = [] then 0
      else if original = [] then 1
      else (let keyScore = keyTermRetention lower original compressed;
                structScore = structuralIntegrity original compressed;
                densityScore = informationDensity lower compressed;
                readScore = readability compressed
            in fadd (fadd (fadd (fmul keyScore (f64 (3/10))) (fmul structScore (f64 (3/10))))
                 (fmul densityScore (f64 (2/10)))) (fmul readScore (f64 (2/10)))))"

section \<open>Bounds of the components\<close>

definition unit_range :: "rat \<Rightarrow> bool" where
  "unit_range x \<longleftrightarrow> 0 \<le> x \<and> x \<le> 1"

lemma keyTermRetention_unit: "unit_range (keyTermRetention lower s t)"
proof -
  have "len (filter P xs) \<le> len xs" for P and xs :: "string list" by simp
  then show ?thesis
    using ratio_unit [of "len (filter (contains (lower t)) (extractKeyTerms lower s))" "len (extractKeyTerms lower s)"]
    by (auto simp: keyTermRetention_def Let_def unit_range_def)
qed

lemma informationDensity_unit: "unit_range (informationDensity lower s)"
proof -
  have "length (remdups (map lower (str_fields s))) \<le> length (str_fields s)"
    by (metis length_map length_remdups_leq)
  then show ?thesis
    using ratio_unit [of "len (remdups (map lower (str_fields s)))" "len (str_fields s)"]
    by (auto simp: informationDensity_def Let_def unit_range_def)
qed

lemma score_consts:
  "unit_range (f64 (1/2))" "unit_range (fadd (f64 (1/2)) (f64 (1/4)))"
  "unit_range (fadd (fadd (f64 (1/2)) (f64 (1/4))) (f64 (1/4)))"
  "unit_range (fadd (f64 (1/2)) (f64 (3/10)))" "unit_range (fadd (f64 (1/2)) (f64 (2/10)))"
  "unit_range (fadd (fadd (f64 (1/2)) (f64 (3/10))) (f64 (2/10)))"
  by code_simp+

lemma structuralIntegrity_unit: "unit_range (structuralIntegrity s t)"
  using score_consts by (simp add: structuralIntegrity_def Let_def)

lemma readability_unit: "unit_range (readability s)"
  using score_consts by (simp add: readability_def Let_def)

lemma quality_top:
  "fadd (fadd (fadd (fmul 1 (f64 (3/10))) (fmul 1 (f64 (3/10)))) (fmul 1 (f64 (2/10)))) (fmul 1 (f64 (2/10))) \<le> 1"
  by code_simp

lemma fmul_unit: "unit_range a \<Longrightarrow> 0 \<le> b \<Longrightarrow> 0 \<le> fmul a b \<and> fmul a b \<le> fmul 1 b"
  by (auto simp: unit_range_def fmul_right_mono) (simp add: fmul_def)

section \<open>Properties\<close>

text \<open>
  The quality estimate always lies in the documented range from 0 to 1, for every pair of
  texts, with all roundings of its floating-point arithmetic taken into account.
\<close>

theorem EstimateQuality_unit:
  "0 \<le> EstimateQuality lower original compressed \<and> EstimateQuality lower original compressed \<le> 1"
proof -
  define a b c d where "a = fmul (keyTermRetention lower original compressed) (f64 (3/10))"
    and "b = fmul (structuralIntegrity original compressed) (f64 (3/10))"
    and "c = fmul (informationDensity lower compressed) (f64 (2/10))"
    and "d = fmul (readability compressed) (f64 (2/10))"
  have p: "0 \<le> f64 (3/10)" "0 \<le> f64 (2/10)" by simp_all
  have bd: "0 \<le> a \<and> a \<le> fmul 1 (f64 (3/10))" "0 \<le> b \<and> b \<le> fmul 1 (f64 (3/10))"
      "0 \<le> c \<and> c \<le> fmul 1 (f64 (2/10))" "0 \<le> d \<and> d \<le> fmul 1 (f64 (2/10))"
    unfolding a_def b_def c_def d_def
    by (intro fmul_unit p keyTermRetention_unit structuralIntegrity_unit informationDensity_unit
        readability_unit)+
  have "fadd (fadd (fadd a b) c) d \<le> 1"
    using bd by (intro order_trans [OF _ quality_top] fadd_mono) auto
  moreover have "0 \<le> fadd (fadd (fadd a b) c) d"
    using bd by (simp add: fadd_def)
  ultimately show ?thesis
    by (simp add: EstimateQuality_def Let_def a_def b_def c_def d_def)
qed

text \<open>
  The adjustment suggested to a layer never exceeds the configured maximum in either
  direction, whatever signals were recorded.
\<close>

theorem GetAdjustment_bounded:
  assumes "0 \<le> fb_MaxAdjustment (fb_config f)"
  shows "\<bar>GetAdjustment f layerName\<bar> \<le> fb_MaxAdjustment (fb_config f)"
  using assms by (auto simp: GetAdjustment_def Let_def split: prod.splits)

theorem GetAdjustment_bounded_witness:
  "\<bar>GetAdjustment (RecordSignal \<lparr>sig_LayerName = ''pipeline'', sig_QualityScore = 0,
      sig_CompressionRatio = 0, sig_SuggestedAdjustment = - 9\<rparr> NewInterLayerFeedback) ''x''\<bar> \<le> f64 (3/10)"
  using GetAdjustment_bounded [of "RecordSignal \<lparr>sig_LayerName = ''pipeline'', sig_QualityScore = 0,
      sig_CompressionRatio = 0, sig_SuggestedAdjustment = - 9\<rparr> NewInterLayerFeedback" "''x''"]
  by (simp add: RecordSignal_def NewInterLayerFeedback_def DefaultFeedbackConfig_def)

end
