(* ===== verification/SmallKV.thy ===== *)
theory SmallKV
  imports Pipeline_Types
begin

text \<open>
  The post-compression compensator (\<^verbatim>\<open>internal/filter/smallkv_compensate.go\<close>): it
  closes unbalanced brackets, appends a bridge for every kind of code marker that compression
  lost, and puts a header before heavily compressed text. Ranging over the runes of a line and
  comparing with an ASCII bracket is the same as counting that byte.
\<close>

record SmallKVConfig =
  skv_Enabled :: bool
  skv_MinContentLength :: int
  skv_MaxBridgeTokens :: int
  skv_CheckSyntaxIntegrity :: bool
  skv_CheckContextContinuity :: bool

definition DefaultSmallKVConfig :: SmallKVConfig where
  "DefaultSmallKVConfig =
     \<lparr>skv_Enabled = True, skv_MinContentLength = 100, skv_MaxBridgeTokens = 20,
      skv_CheckSyntaxIntegrity = True, skv_CheckContextContinuity = True\<rparr>"

text \<open>The running counters over all lines, and the text written back line by line.\<close>

definition open_count :: "char \<Rightarrow> char \<Rightarrow> string \<Rightarrow> int" where
  "open_count opn cls s = int (count_list s opn) - int (count_list s cls)"

definition closers :: "int \<Rightarrow> int \<Rightarrow> char \<Rightarrow> string" where
  "closers opens maxBridge cls =
     (if opens > 0 then concat (replicate (nat (min opens maxBridge)) [cls, nl]) else [])"

definition fixSyntaxIntegrity :: "SmallKVConfig \<Rightarrow> string \<Rightarrow> string" where
  "fixSyntaxIntegrity cfg input =
     (let lines = split_lines input;
          openBrackets = sum_list (map (open_count CHR ''{'' CHR ''}'') lines);
          openParens = sum_list (map (open_count CHR ''('' CHR '')'') lines);
          openSquares = sum_list (map (open_count CHR ''['' CHR '']'') lines);
          output = concat (map (\<lambda>l. l @ [nl]) lines)
      in output @ closers openBrackets (skv_MaxBridgeTokens cfg) CHR ''}''
           @ closers openParens (skv_MaxBridgeTokens cfg) CHR '')''
           @ closers openSquares (skv_MaxBridgeTokens cfg) CHR '']'')"

definition context_markers :: "string list" where
  "context_markers =
     [''func '', ''function '', ''def '', ''class '', ''struct '',
      ''if '', ''for '', ''while '', ''switch '', ''match '',
      ''return '', ''yield '', ''break '', ''continue '']"

fun collect_bridges :: "int \<Rightarrow> string list \<Rightarrow> string list \<Rightarrow> string list \<Rightarrow> string list \<Rightarrow> string list" where
  "collect_bridges maxBridge origLines compLines [] bridges = bridges"
| "collect_bridges maxBridge origLines compLines (marker # ms) bridges =
     (let origHas = list_ex (\<lambda>l. contains l marker) origLines;
          compHas = list_ex (\<lambda>l. contains l marker) compLines
      in collect_bridges maxBridge origLines compLines ms
           (if origHas \<and> \<not> compHas \<and> len bridges < maxBridge
            then bridges @ [''[... '' @ trimSpace marker @ ''... ]''] else bridges))"

definition fixContextContinuity :: "SmallKVConfig \<Rightarrow> string \<Rightarrow> string \<Rightarrow> string" where
  "fixContextContinuity cfg original compressed =
     (let bridges = collect_bridges (skv_MaxBridgeTokens cfg) (split_lines original)
                      (split_lines compressed) context_markers []
      in if bridges = [] then compressed
         else compressed @ concat (map (\<lambda>b. nl # b) bridges))"

text \<open>The first marker is an opening square bracket and the multiplication sign, two bytes in
  UTF-8.\<close>

definition compression_marked :: "string \<Rightarrow> bool" where
  "compression_marked line \<longleftrightarrow>
     contains line [CHR ''['', CHR 0xC3, CHR 0x97] \<or> contains line ''[...'' \<or>
     contains line ''compressed]''"

definition addSectionMarkers :: "string \<Rightarrow> string" where
  "addSectionMarkers input =
     (let lines = split_lines input; n = len (filter compression_marked lines)
      in if n > go_div (len lines) 3
         then ''[Compressed output - '' @ itoa (len lines) @ '' lines from original]'' @ [nl] @ input
         else input)"

definition Compensate :: "SmallKVConfig \<Rightarrow> string \<Rightarrow> string \<Rightarrow> Mode \<Rightarrow> string" where
  "Compensate cfg original compressed mode =
     (if \<not> skv_Enabled cfg \<or> mode = ModeNone then compressed
      else if len compressed < skv_MinContentLength cfg then compressed
      else (let output = compressed;
                output = (if skv_CheckSyntaxIntegrity cfg then fixSyntaxIntegrity cfg output else output);
                output = (if skv_CheckContextContinuity cfg then fixContextContinuity cfg original output
                          else output)
            in addSectionMarkers output))"

section \<open>Text written back line by line\<close>

lemma concat_lines: "ls \<noteq> [] \<Longrightarrow> concat (map (\<lambda>l. l @ [nl]) ls) = join_lines ls @ [nl]"
  by (induction ls) (auto simp: join_Cons)

lemma lines_written_back [simp]: "concat (map (\<lambda>l. l @ [nl]) (split_lines s)) = s @ [nl]"
  by (simp add: concat_lines)

lemma open_count_append [simp]: "open_count a b (s @ t) = open_count a b s + open_count a b t"
  by (simp add: open_count_def)

lemma open_count_simps [simp]:
  "open_count a b [] = 0"
  "open_count a b (c # s) = (if c = a then 1 else 0) - (if c = b then 1 else 0) + open_count a b s"
  by (auto simp: open_count_def)

lemma sum_open_count:
  assumes "a \<noteq> nl" "b \<noteq> nl"
  shows "sum_list (map (open_count a b) (split_lines s)) = open_count a b s"
proof -
  have "open_count a b (concat (map (\<lambda>l. l @ [nl]) ls)) = sum_list (map (open_count a b) ls)" for ls
    using assms by (induction ls) auto
  from this [of "split_lines s"] show ?thesis using assms by simp
qed

lemma open_count_closers:
  assumes "a \<noteq> nl" "b \<noteq> nl" "cls \<noteq> nl" "a \<noteq> b"
  shows "open_count a b (closers n m cls) =
    (if 0 < n then int (nat (min n m)) * ((if cls = a then 1 else 0) - (if cls = b then 1 else 0)) else 0)"
proof -
  have "open_count a b (concat (replicate k [cls, nl])) =
      int k * ((if cls = a then 1 else 0) - (if cls = b then 1 else 0))" for k
    using assms by (induction k) (auto simp: algebra_simps)
  then show ?thesis by (simp add: closers_def)
qed

lemma fixSyntax_eq:
  "fixSyntaxIntegrity cfg s = s @ [nl]
     @ closers (open_count CHR ''{'' CHR ''}'' s) (skv_MaxBridgeTokens cfg) CHR ''}''
     @ closers (open_count CHR ''('' CHR '')'' s) (skv_MaxBridgeTokens cfg) CHR '')''
     @ closers (open_count CHR ''['' CHR '']'' s) (skv_MaxBridgeTokens cfg) CHR '']''"
  by (simp add: fixSyntaxIntegrity_def Let_def sum_open_count)

lemma fixSyntax_extends: "\<exists>t. fixSyntaxIntegrity cfg s = s @ nl # t"
  by (simp add: fixSyntax_eq)

lemma fixContext_extends: "\<exists>t. fixContextContinuity cfg o1 s = s @ t"
  by (auto simp: fixContextContinuity_def Let_def)

lemma addSection_extends: "\<exists>t. addSectionMarkers s = t @ s"
  unfolding addSectionMarkers_def Let_def
  by (metis append.assoc append_Nil)

section \<open>Properties\<close>

text \<open>
  The compensator only ever adds text. Its result contains the compressed text unchanged,
  possibly between a header and closing material; and when it acts at all with the default
  checks (mode other than none, at least the minimum length), the result is strictly longer
  than its input.
\<close>

theorem Compensate_only_adds:
  "(\<exists>u v. Compensate cfg original compressed mode = u @ compressed @ v \<and>
     (skv_Enabled cfg \<and> skv_CheckSyntaxIntegrity cfg \<and> mode \<noteq> ModeNone \<and>
      skv_MinContentLength cfg \<le> len compressed \<longrightarrow> v \<noteq> []))"
proof (cases "\<not> skv_Enabled cfg \<or> mode = ModeNone \<or> len compressed < skv_MinContentLength cfg")
  case True
  then show ?thesis
    by (intro exI [of _ "[]"]) (auto simp: Compensate_def)
next
  case False
  define s1 where "s1 = (if skv_CheckSyntaxIntegrity cfg then fixSyntaxIntegrity cfg compressed else compressed)"
  define s2 where "s2 = (if skv_CheckContextContinuity cfg then fixContextContinuity cfg original s1 else s1)"
  obtain t1 where s1: "s1 = compressed @ t1" "skv_CheckSyntaxIntegrity cfg \<longrightarrow> t1 \<noteq> []"
    using fixSyntax_extends [of cfg compressed] by (cases "skv_CheckSyntaxIntegrity cfg") (auto simp: s1_def)
  obtain t2 where s2: "s2 = s1 @ t2"
    using fixContext_extends [of cfg original s1]
    by (cases "skv_CheckContextContinuity cfg") (auto simp: s2_def)
  obtain u where u: "addSectionMarkers s2 = u @ s2" using addSection_extends by blast
  have "Compensate cfg original compressed mode = addSectionMarkers s2"
    using False by (simp add: Compensate_def Let_def s1_def s2_def)
  then have "Compensate cfg original compressed mode = u @ compressed @ (t1 @ t2)"
    using u s1(1) s2 by simp
  with s1(2) show ?thesis by blast
qed

theorem Compensate_only_adds_witness:
  "\<exists>u v. Compensate DefaultSmallKVConfig [] (replicate 120 CHR ''x'') ModeMinimal = u @ replicate 120 CHR ''x'' @ v \<and> v \<noteq> []"
  using Compensate_only_adds [of DefaultSmallKVConfig "[]" "replicate 120 CHR ''x''" ModeMinimal]
  by (auto simp: DefaultSmallKVConfig_def ModeNone_def ModeMinimal_def)

text \<open>
  Bracket repair. With at most as many unclosed brackets of a kind as the bridge limit,
  the repaired text has none left; with more, exactly the limit is closed; a surplus of closing
  brackets is left alone. Stated for the three kinds at once.
\<close>

theorem fixSyntaxIntegrity_balances:
  assumes "(opn, cls) \<in> {(CHR ''{'', CHR ''}''), (CHR ''('', CHR '')''), (CHR ''['', CHR '']'')}"
    and "0 \<le> skv_MaxBridgeTokens cfg"
  shows "open_count opn cls (fixSyntaxIntegrity cfg s) =
    (let n = open_count opn cls s
     in if n \<le> 0 then n else max 0 (n - skv_MaxBridgeTokens cfg))"
proof -
  have arith: "(if 0 < n then n - int (nat (min n m)) else n) = (if n \<le> 0 then n else max 0 (n - m))"
    if "0 \<le> m" for n m :: int using that by auto
  from assms(1) consider "opn = CHR ''{''" "cls = CHR ''}''" | "opn = CHR ''(''" "cls = CHR '')''"
    | "opn = CHR ''[''" "cls = CHR '']''" by auto
  then show ?thesis
    by cases (simp_all add: fixSyntax_eq open_count_closers Let_def flip: arith [OF assms(2)])
qed

theorem fixSyntaxIntegrity_balances_witness:
  "open_count CHR ''{'' CHR ''}'' (fixSyntaxIntegrity DefaultSmallKVConfig ''func f() { if x {'') = 0"
  using fixSyntaxIntegrity_balances [of "CHR ''{''" "CHR ''}''" DefaultSmallKVConfig "''func f() { if x {''"]
  by (simp add: DefaultSmallKVConfig_def)

end
