(* ===== verification/Budget.thy ===== *)
theory Budget
  imports Pipeline_Types "HOL-Library.Sublist"
begin

text \<open>
  The budget enforcer, layer 10 of the pipeline (\<^verbatim>\<open>internal/filter/budget.go\<close>): lines
  are scored, critical, leading and trailing lines are kept, important lines are added while
  they fit, and gaps are marked. The estimator \<^verbatim>\<open>EstimateTokens\<close> is the argument
  \<open>est\<close>. A \<^verbatim>\<open>keepDecision\<close> is \<open>Some reason\<close> for a kept line and \<open>None\<close> for the
  zero value. Scores are doubles, computed in the order of the source.
\<close>

record BudgetEnforcer =
  be_budget :: int

definition NewBudgetEnforcer :: "int \<Rightarrow> BudgetEnforcer" where
  "NewBudgetEnforcer budget = \<lparr>be_budget = budget\<rparr>"

definition SetBudget :: "int \<Rightarrow> BudgetEnforcer \<Rightarrow> BudgetEnforcer" where
  "SetBudget budget f = f\<lparr>be_budget := budget\<rparr>"

record scoredLine =
  sl_line :: string
  sl_score :: rat
  sl_index :: int

definition filePatterns :: "string list" where
  "filePatterns = [''.go:'', ''.py:'', ''.js:'', ''.ts:'', ''.rs:'', ''.java:'', ''.c:'', ''.cpp:'']"

definition scoreLine :: "string \<Rightarrow> rat" where
  "scoreLine line =
     (let trimmed = trimSpace line
      in if trimmed = [] then f64 (1/10)
         else (let lower = toLower trimmed;
                   score = 0;
                   score = (if contains_any lower [''error'', ''failed'', ''failure'', ''fatal'', ''panic'', ''exception'']
                            then fadd score (f64 (9/10)) else score);
                   score = (if contains_any lower [''warning'', ''warn''] then fadd score (f64 (7/10)) else score);
                   score = (if contains_any trimmed [''@@'', ''diff --git''] then fadd score (f64 (8/10)) else score);
                   score = fold (\<lambda>p sc. if contains trimmed p then fadd sc (f64 (6/10)) else sc) filePatterns score;
                   score = (if contains_any lower [''pass'', ''fail'', ''test''] then fadd score (f64 (5/10)) else score);
                   score = (if contains_any lower [''success'', ''ok'', ''complete''] then fsub score (f64 (2/10)) else score);
                   score = (if contains_any lower [''debug'', ''trace'', ''verbose''] then fsub score (f64 (3/10)) else score);
                   score = (if len trimmed > 50 then fadd score (f64 (1/10)) else score);
                   score = (if score < 0 then 0 else score)
               in if score > 1 then 1 else score))"

definition scoreLines :: "string list \<Rightarrow> scoredLine list" where
  "scoreLines lines =
     map (\<lambda>(i, line). \<lparr>sl_line = line, sl_score = scoreLine line, sl_index = int i\<rparr>) (enumerate 0 lines)"

section \<open>Selecting lines\<close>

type_synonym decisions = "string option list"

definition mark_critical :: "scoredLine list \<Rightarrow> decisions" where
  "mark_critical scored = map (\<lambda>sl. if sl_score sl \<ge> f64 (8/10) then Some ''critical'' else None) scored"

definition mark_header :: "decisions \<Rightarrow> decisions" where
  "mark_header ds = map (\<lambda>(i, d). if i < 5 \<and> d = None then Some ''header'' else d) (enumerate 0 ds)"

definition mark_footer :: "decisions \<Rightarrow> decisions" where
  "mark_footer ds =
     (let footerStart = (if len ds - 5 < 0 then 0 else len ds - 5)
      in map (\<lambda>(i, d). if footerStart \<le> int i \<and> d = None then Some ''footer'' else d) (enumerate 0 ds))"

fun kept_tokens :: "(string \<Rightarrow> int) \<Rightarrow> scoredLine list \<Rightarrow> decisions \<Rightarrow> int" where
  "kept_tokens est (sl # sls) (d # ds) =
     (if d \<noteq> None then est (sl_line sl) else 0) + kept_tokens est sls ds"
| "kept_tokens est _ _ = 0"

fun add_important :: "(string \<Rightarrow> int) \<Rightarrow> int \<Rightarrow> int \<Rightarrow> scoredLine list \<Rightarrow> decisions \<Rightarrow> decisions" where
  "add_important est target current (sl # sls) (d # ds) =
     (if target \<le> current then d # ds
      else if d = None \<and> sl_score sl \<ge> f64 (5/10) \<and> current + est (sl_line sl) \<le> target
      then Some ''important'' # add_important est target (current + est (sl_line sl)) sls ds
      else d # add_important est target current sls ds)"
| "add_important est target current _ ds = ds"

fun build_result :: "int \<Rightarrow> int \<Rightarrow> scoredLine list \<Rightarrow> decisions \<Rightarrow> string list" where
  "build_result i lastKept (sl # sls) (d # ds) =
     (if d \<noteq> None then
        (if 0 \<le> lastKept \<and> i - lastKept > 1 then
           (let gap = i - lastKept - 1
            in [if gap > 3 then ''... ['' @ itoa gap @ '' lines omitted]'' else []])
         else [])
        @ sl_line sl # build_result (i + 1) i sls ds
      else build_result (i + 1) lastKept sls ds)"
| "build_result i lastKept _ _ = []"

definition structural :: "scoredLine list \<Rightarrow> decisions" where
  "structural scored = mark_footer (mark_header (mark_critical scored))"

definition selectLines :: "(string \<Rightarrow> int) \<Rightarrow> scoredLine list \<Rightarrow> int \<Rightarrow> string list" where
  "selectLines est scored targetTokens =
     (let decisions = structural scored;
          currentTokens = kept_tokens est scored decisions;
          decisions = add_important est targetTokens currentTokens scored decisions
      in build_result 0 (- 1) scored decisions)"

definition enforceBudget :: "(string \<Rightarrow> int) \<Rightarrow> BudgetEnforcer \<Rightarrow> string \<Rightarrow> Mode \<Rightarrow> string" where
  "enforceBudget est f input mode =
     (let lines = split_lines input;
          scored = scoreLines lines;
          targetTokens = be_budget f - 50;
          kept = selectLines est scored targetTokens;
          output = join_lines kept;
          remainingTokens = est input - est output
      in if remainingTokens > 0
         then output @ [nl, nl] @ ''[... truncated: '' @ itoa remainingTokens @ '' tokens omitted]''
         else output)"

definition budget_Apply :: "(string \<Rightarrow> int) \<Rightarrow> BudgetEnforcer \<Rightarrow> string \<Rightarrow> Mode \<Rightarrow> string \<times> int" where
  "budget_Apply est f input mode =
     (if be_budget f \<le> 0 then (input, 0)
      else (let tokens = est input
            in if tokens \<le> be_budget f then (input, 0)
               else (let output = enforceBudget est f input mode in (output, tokens - est output))))"

definition budget_filter :: "(string \<Rightarrow> int) \<Rightarrow> BudgetEnforcer \<Rightarrow> Filter" where
  "budget_filter est f = \<lparr>filter_name = ''budget'', filter_apply = budget_Apply est f\<rparr>"

section \<open>Contract\<close>

interpretation budget: honest_filter est "budget_Apply est f" for est f
  by unfold_locales (auto simp: budget_Apply_def Let_def split: if_splits)

section \<open>Which lines are kept\<close>

lemma length_marks [simp]:
  "length (mark_critical sc) = length sc" "length (mark_header ds) = length ds"
  "length (mark_footer ds) = length ds" "length (structural sc) = length sc"
  by (simp_all add: mark_critical_def mark_header_def mark_footer_def structural_def Let_def)

lemma length_scoreLines [simp]: "length (scoreLines ls) = length ls"
  by (simp add: scoreLines_def)

lemma nth_scoreLines:
  "i < length ls \<Longrightarrow> scoreLines ls ! i = \<lparr>sl_line = ls ! i, sl_score = scoreLine (ls ! i), sl_index = int i\<rparr>"
  by (simp add: scoreLines_def nth_enumerate_eq)

lemma sl_lines_scoreLines: "map sl_line (scoreLines ls) = ls"
  by (rule nth_equalityI) (simp_all add: nth_scoreLines)

lemma structural_kept_iff:
  assumes "i < length sc"
  shows "structural sc ! i \<noteq> None \<longleftrightarrow>
    sl_score (sc ! i) \<ge> f64 (8/10) \<or> i < 5 \<or> length sc \<le> i + 5"
  using assms
  by (auto simp: structural_def mark_footer_def mark_header_def mark_critical_def nth_enumerate_eq Let_def)

lemma length_add_important [simp]: "length (add_important est tg c sc ds) = length ds"
  by (induction est tg c sc ds rule: add_important.induct) auto

lemma add_important_keeps:
  "ds ! i \<noteq> None \<Longrightarrow> i < length ds \<Longrightarrow> add_important est tg c sc ds ! i \<noteq> None"
proof (induction est tg c sc ds arbitrary: i rule: add_important.induct)
  case (1 est tg c sl sls d ds)
  then show ?case by (cases i) auto
qed auto

text \<open>The third pass never pushes the kept tokens beyond the target.\<close>

lemma kept_tokens_important:
  "length sc = length ds \<Longrightarrow>
     c + kept_tokens est sc (add_important est tg c' sc ds) - kept_tokens est sc ds \<le> max c (tg + c - c')"
proof (induction est tg c' sc ds arbitrary: c rule: add_important.induct)
  case (1 est tg c' sl sls d ds)
  show ?case
  proof (cases "tg \<le> c'")
    case False
    show ?thesis
    proof (cases "d = None \<and> sl_score sl \<ge> f64 (5/10) \<and> c' + est (sl_line sl) \<le> tg")
      case True
      with "1.IH"(1) [of "c + est (sl_line sl)"] "1.prems" False show ?thesis by auto
    next
      case F: False
      with "1.IH"(2) [of c] "1.prems" False show ?thesis by auto
    qed
  qed auto
qed auto

lemma kept_in_result:
  "i < length sc \<Longrightarrow> length ds = length sc \<Longrightarrow> ds ! i \<noteq> None \<Longrightarrow>
     sl_line (sc ! i) \<in> set (build_result j k sc ds)"
proof (induction j k sc ds arbitrary: i rule: build_result.induct)
  case (1 j k sl sls d ds)
  then show ?case by (cases i) auto
qed auto

lemma all_kept_result:
  "length ds = length sc \<Longrightarrow> \<forall>d \<in> set ds. d \<noteq> None \<Longrightarrow> k = j - 1 \<Longrightarrow>
     build_result j k sc ds = map sl_line sc"
  by (induction j k sc ds rule: build_result.induct) auto

lemma kept_line_in_output:
  assumes "i < length ls" "structural (scoreLines ls) ! i \<noteq> None"
  shows "ls ! i \<in> set (selectLines est (scoreLines ls) tg)"
proof -
  let ?sc = "scoreLines ls"
  let ?ds = "add_important est tg (kept_tokens est ?sc (structural ?sc)) ?sc (structural ?sc)"
  have "?ds ! i \<noteq> None" using assms by (intro add_important_keeps) auto
  then have "sl_line (?sc ! i) \<in> set (build_result 0 (- 1) ?sc ?ds)"
    using assms(1) by (intro kept_in_result) auto
  then show ?thesis using assms(1) by (simp add: selectLines_def Let_def nth_scoreLines)
qed

lemma in_join_contains: "l \<in> set ls \<Longrightarrow> contains (join sep ls) l"
proof (induction ls)
  case (Cons x ls)
  show ?case
  proof (cases "l = x")
    case True
    then show ?thesis using contains_infix [of "[]" x "if ls = [] then [] else sep @ join sep ls"]
      by (auto simp: join_Cons split: if_splits)
  next
    case False
    with Cons have "contains (join sep ls) l" "ls \<noteq> []" by auto
    then show ?thesis using contains_mono [of "join sep ls" l "x @ sep" "[]"] by (simp add: join_Cons)
  qed
qed simp

section \<open>Properties\<close>

text \<open>
  The enforcer never drops a critical line, nor any of the first five or last five lines:
  each of them is in the output, whatever the budget.
\<close>

theorem budget_keeps_critical_lines:
  assumes "i < length (split_lines input)"
    and "scoreLine (split_lines input ! i) \<ge> f64 (8/10) \<or> i < 5 \<or> length (split_lines input) \<le> i + 5"
  shows "contains (fst (budget_Apply est f input mode)) (split_lines input ! i)"
proof -
  let ?ls = "split_lines input"
  have "structural (scoreLines ?ls) ! i \<noteq> None"
    using structural_kept_iff [of i "scoreLines ?ls"] assms by (simp add: nth_scoreLines)
  then have "?ls ! i \<in> set (selectLines est (scoreLines ?ls) (be_budget f - 50))"
    using assms(1) by (intro kept_line_in_output)
  then have out: "contains (join_lines (selectLines est (scoreLines ?ls) (be_budget f - 50))) (?ls ! i)"
    by (rule in_join_contains)
  moreover have "contains input (?ls ! i)"
    using in_join_contains [of "?ls ! i" ?ls "[nl]"] assms(1) by simp
  moreover have "contains (s @ t) x" if "contains s x" for s t x :: string
    using contains_mono [OF that, of "[]" t] by simp
  ultimately show ?thesis
    by (simp add: budget_Apply_def enforceBudget_def Let_def)
qed

theorem budget_keeps_critical_lines_witness:
  "contains (fst (budget_Apply heuristicTokens (NewBudgetEnforcer 1) ''first'' ModeMinimal)) ''first''"
  using budget_keeps_critical_lines [of 0 "''first''" heuristicTokens "NewBudgetEnforcer 1" ModeMinimal]
  by simp

text \<open>
  The tokens of the lines selected stay within the target, unless the critical, leading
  and trailing lines alone already exceed it: the third pass adds an important line only if it
  still fits.
\<close>

theorem budget_selection_within_target:
  assumes "length decisions = length scored"
  shows "kept_tokens est scored
      (add_important est targetTokens (kept_tokens est scored decisions) scored decisions)
    \<le> max targetTokens (kept_tokens est scored decisions)"
  using kept_tokens_important [of scored decisions "kept_tokens est scored decisions" est targetTokens
      "kept_tokens est scored decisions"] assms
  by (simp add: max.commute)

theorem budget_selection_within_target_witness:
  "kept_tokens heuristicTokens (scoreLines [''a test'', ''b test''])
     (add_important heuristicTokens 3 0 (scoreLines [''a test'', ''b test'']) [None, None]) \<le> 3"
  using budget_selection_within_target [of "[None, None]" "scoreLines [''a test'', ''b test'']" heuristicTokens 3]
  by (simp add: scoreLines_def)

text \<open>
  The budget is not a strict limit. A text of at most ten lines is returned unchanged
  whatever its size and whatever the budget, with nothing reported as saved, because leading
  and trailing lines are always kept.
\<close>

theorem budget_short_text_unchanged:
  assumes "length (split_lines input) \<le> 10"
  shows "budget_Apply est f input mode = (input, 0)"
proof -
  let ?sc = "scoreLines (split_lines input)"
  let ?ds = "add_important est (be_budget f - 50) (kept_tokens est ?sc (structural ?sc)) ?sc (structural ?sc)"
  have "?ds ! i \<noteq> None" if "i < length ?ds" for i
    using that assms structural_kept_iff [of i ?sc] by (intro add_important_keeps) auto
  then have "\<forall>d \<in> set ?ds. d \<noteq> None" by (auto simp: in_set_conv_nth)
  then have "selectLines est ?sc (be_budget f - 50) = split_lines input"
    by (simp add: selectLines_def Let_def all_kept_result sl_lines_scoreLines)
  then have "enforceBudget est f input mode = input" by (simp add: enforceBudget_def Let_def)
  then show ?thesis by (simp add: budget_Apply_def Let_def)
qed

theorem budget_short_text_unchanged_witness:
  "budget_Apply heuristicTokens (NewBudgetEnforcer 1) (replicate 100000 CHR ''x'') ModeAggressive =
     (replicate 100000 CHR ''x'', 0)"
  using budget_short_text_unchanged [of "replicate 100000 CHR ''x''"]
  by (simp add: split_plain)

text \<open>
  A line's score is a double between 0 and 1, and it is computed in floating point: a
  warning line that also reports success scores strictly below the threshold of an important
  line, although the exact sum of its weights is one half.
\<close>

theorem scoreLine_range:
  "0 \<le> scoreLine line \<and> scoreLine line \<le> 1 \<and> scoreLine ''warn ok'' < 1 / 2"
proof -
  have "scoreLine ''warn ok'' < 1 / 2" by code_simp
  moreover have "unit_score \<ge> 0 \<and> unit_score \<le> 1"
    if "unit_score = (let s = (if x < 0 then 0 else x) in if s > 1 then 1 else s)" for x unit_score :: rat
    using that by (auto simp: Let_def)
  moreover have "0 \<le> f64 (1/10) \<and> f64 (1/10) \<le> 1" by (rule f64_unit) auto
  ultimately show ?thesis unfolding scoreLine_def Let_def by auto
qed

end
