(* ===== verification/Attention_Sink.thy ===== *)
theory Attention_Sink
  imports Budget
begin

text \<open>
  The attention-sink filter, layer 14 (\<^verbatim>\<open>internal/filter/attention_sink.go\<close>): it keeps
  the first meaningful lines, the lines with a structural marker and the last lines, and
  drops the rest. The keep set is a list of indices, tested for membership.
\<close>

record SinkConfig =
  sink_Enabled :: bool
  sink_SinkTokenCount :: int
  sink_RecentTokenCount :: int
  sink_PreserveStructural :: bool
  sink_MinContentLength :: int
  sink_AnchorPatterns :: "string list"

definition DefaultSinkConfig :: SinkConfig where
  "DefaultSinkConfig =
     \<lparr>sink_Enabled = True, sink_SinkTokenCount = 4, sink_RecentTokenCount = 8,
      sink_PreserveStructural = True, sink_MinContentLength = 100,
      sink_AnchorPatterns =
        [''Error:'', ''Warning:'', ''Success:'', ''Failed:'', ''CRITICAL:'',
         ''INFO:'', ''DEBUG:'', ''TRACE:'', ''FATAL:'',
         ''File:'', ''Line:'', ''Function:'', ''Class:'',
         ''---'', ''==='', ''###'', ''***'',
         ''http://'', ''https://'']\<rparr>"

definition NewAdaptiveAttentionSinkFilter :: "int \<Rightarrow> SinkConfig" where
  "NewAdaptiveAttentionSinkFilter outputLines =
     (let cfg = DefaultSinkConfig
      in if outputLines > 500 then cfg\<lparr>sink_SinkTokenCount := 8, sink_RecentTokenCount := 16\<rparr>
         else if outputLines > 100 then cfg\<lparr>sink_SinkTokenCount := 6, sink_RecentTokenCount := 12\<rparr>
         else if outputLines > 20 then cfg\<lparr>sink_SinkTokenCount := 4, sink_RecentTokenCount := 8\<rparr>
         else cfg\<lparr>sink_SinkTokenCount := 2, sink_RecentTokenCount := 4\<rparr>)"

fun identifySinkLines :: "int \<Rightarrow> nat \<Rightarrow> int \<Rightarrow> string list \<Rightarrow> nat list" where
  "identifySinkLines sinkCount i count [] = []"
| "identifySinkLines sinkCount i count (line # lines) =
     (if trimSpace line = [] then identifySinkLines sinkCount (Suc i) count lines
      else i # (if count + 1 \<ge> sinkCount then []
                else identifySinkLines sinkCount (Suc i) (count + 1) lines))"

definition identifyAnchorLines :: "SinkConfig \<Rightarrow> string list \<Rightarrow> nat list" where
  "identifyAnchorLines cfg lines =
     (if \<not> sink_PreserveStructural cfg then []
      else map fst (filter (\<lambda>(i, line). contains_any line (sink_AnchorPatterns cfg)) (enumerate 0 lines)))"

text \<open>The kept lines, written with a separator only once something has been written.\<close>

fun sink_write :: "string \<Rightarrow> string list \<Rightarrow> string" where
  "sink_write result [] = result"
| "sink_write result (line # lines) =
     sink_write ((if result \<noteq> [] then result @ [nl] else result) @ line) lines"

definition sink_keep :: "SinkConfig \<Rightarrow> string list \<Rightarrow> nat \<Rightarrow> bool" where
  "sink_keep cfg lines i \<longleftrightarrow>
     i \<in> set (identifySinkLines (sink_SinkTokenCount cfg) 0 0 lines) \<or>
     i \<in> set (identifyAnchorLines cfg lines) \<or>
     (let recentStart = len lines - sink_RecentTokenCount cfg
      in (if recentStart < 0 then 0 else recentStart) \<le> int i \<and> i < length lines)"

definition sink_kept :: "SinkConfig \<Rightarrow> string list \<Rightarrow> string list" where
  "sink_kept cfg lines = map snd (filter (\<lambda>(i, _). sink_keep cfg lines i) (enumerate 0 lines))"

definition sink_Apply :: "(string \<Rightarrow> int) \<Rightarrow> SinkConfig \<Rightarrow> string \<Rightarrow> Mode \<Rightarrow> string \<times> int" where
  "sink_Apply est cfg input mode =
     (if \<not> sink_Enabled cfg then (input, 0)
      else if len input < sink_MinContentLength cfg then (input, 0)
      else (let originalTokens = est input; lines = split_lines input
            in if len lines < 3 then (input, 0)
               else (let output = sink_write [] (sink_kept cfg lines);
                         finalTokens = est output
                     in (output, originalTokens - finalTokens))))"

definition sink_SetEnabled :: "bool \<Rightarrow> SinkConfig \<Rightarrow> SinkConfig" where
  "sink_SetEnabled enabled cfg = cfg\<lparr>sink_Enabled := enabled\<rparr>"

definition sink_filter :: "(string \<Rightarrow> int) \<Rightarrow> SinkConfig \<Rightarrow> Filter" where
  "sink_filter est cfg = \<lparr>filter_name = ''attention_sink'', filter_apply = sink_Apply est cfg\<rparr>"

interpretation sink: honest_filter est "sink_Apply est cfg" for est cfg
  by unfold_locales (auto simp: sink_Apply_def Let_def split: if_splits)

section \<open>What is kept\<close>

definition nonblank :: "string \<Rightarrow> bool" where
  "nonblank l \<longleftrightarrow> trimSpace l \<noteq> []"

lemma identifySinkLines_complete:
  assumes "j < length ls" "nonblank (ls ! j)" "count + len (filter nonblank (take j ls)) < max (count + 1) n"
  shows "i + j \<in> set (identifySinkLines n i count ls)"
  using assms
proof (induction ls arbitrary: i j count)
  case (Cons l ls)
  show ?case
  proof (cases j)
    case 0
    with Cons.prems show ?thesis by (simp add: nonblank_def)
  next
    case (Suc j')
    show ?thesis
    proof (cases "nonblank l")
      case True
      have "count + 1 < n" using Cons.prems(3) Suc True by auto
      moreover have "Suc i + j' \<in> set (identifySinkLines n (Suc i) (count + 1) ls)"
        using Cons.prems Suc True by (intro Cons.IH) auto
      ultimately show ?thesis using True Suc by (simp add: nonblank_def)
    next
      case False
      have "Suc i + j' \<in> set (identifySinkLines n (Suc i) count ls)"
        using Cons.prems Suc False by (intro Cons.IH) auto
      then show ?thesis using False Suc by (simp add: nonblank_def)
    qed
  qed
qed simp

lemma sink_write_contains: "contains (sink_write r ls) r \<and> (\<forall>l \<in> set ls. contains (sink_write r ls) l)"
proof (induction ls arbitrary: r)
  case Nil
  show ?case using contains_infix [of "[]" r "[]"] by simp
next
  case (Cons l ls)
  let ?r = "(if r \<noteq> [] then r @ [nl] else r) @ l"
  have IH: "contains (sink_write ?r ls) ?r" "\<forall>x \<in> set ls. contains (sink_write ?r ls) x"
    using Cons.IH by blast+
  from IH(1) obtain u v where uv: "sink_write ?r ls = u @ ?r @ v" unfolding contains_iff by blast
  let ?sep = "if r \<noteq> [] then [nl] else []"
  have "sink_write ?r ls = u @ r @ (?sep @ l @ v)" "sink_write ?r ls = (u @ r @ ?sep) @ l @ v"
    using uv by auto
  then have "contains (sink_write ?r ls) r" "contains (sink_write ?r ls) l"
    unfolding contains_iff by blast+
  with IH(2) show ?case by simp
qed

lemma length_sink_write: "length (sink_write r ls) \<le> length r + sum_list (map length ls) + length ls"
proof (induction ls arbitrary: r)
  case (Cons l ls)
  from Cons.IH [of "(if r \<noteq> [] then r @ [nl] else r) @ l"] show ?case by (auto split: if_splits)
qed simp

lemma sink_write_first: "length (sink_write [] (l # ls)) \<le> length l + sum_list (map length ls) + length ls"
  using length_sink_write [of l ls] by simp

lemma sum_filter_enumerate:
  "sum_list (map length (map snd (filter P (enumerate n ls)))) + length (filter P (enumerate n ls))
     \<le> sum_list (map length ls) + length ls"
proof (induction ls arbitrary: n)
  case (Cons l ls)
  from Cons.IH [of "Suc n"] show ?case by (cases "P (n, l)") simp_all
qed simp

lemma length_split_lines_sum:
  "sum_list (map length (split_lines s)) + length (split_lines s) = Suc (length s)"
proof -
  have "length s = sum_list (map length (split_lines s)) + (length (split_lines s) - 1)"
    using length_join [of "split_lines s" nl] by simp
  moreover have "0 < length (split_lines s)" by simp
  ultimately show ?thesis by linarith
qed

lemma sink_kept_nth: "i < length ls \<Longrightarrow> sink_keep cfg ls i \<Longrightarrow> ls ! i \<in> set (sink_kept cfg ls)"
  unfolding sink_kept_def by (force simp: in_set_enumerate_eq image_iff)

section \<open>Properties\<close>

text \<open>
  The filter keeps what it promises to keep: every line with an anchor pattern (when
  structural lines are preserved), each of the last \<^verbatim>\<open>RecentTokenCount\<close> lines, and the
  first \<^verbatim>\<open>SinkTokenCount\<close> non-blank lines are all in its output.
\<close>

theorem sink_keeps_promised_lines:
  assumes "i < length (split_lines input)"
    and "sink_PreserveStructural cfg \<and> contains_any (split_lines input ! i) (sink_AnchorPatterns cfg) \<or>
      length (split_lines input) \<le> i + nat (sink_RecentTokenCount cfg) \<or>
      nonblank (split_lines input ! i) \<and>
        len (filter nonblank (take i (split_lines input))) < sink_SinkTokenCount cfg"
  shows "contains (fst (sink_Apply est cfg input mode)) (split_lines input ! i)"
proof -
  let ?ls = "split_lines input"
  have "sink_keep cfg ?ls i"
    using assms(2)
  proof (elim disjE)
    assume "sink_PreserveStructural cfg \<and> contains_any (?ls ! i) (sink_AnchorPatterns cfg)"
    then have "i \<in> set (identifyAnchorLines cfg ?ls)"
      using assms(1) by (force simp: identifyAnchorLines_def in_set_enumerate_eq image_iff)
    then show ?thesis by (simp add: sink_keep_def)
  next
    assume "length ?ls \<le> i + nat (sink_RecentTokenCount cfg)"
    with assms(1) show ?thesis by (auto simp: sink_keep_def Let_def)
  next
    assume "nonblank (?ls ! i) \<and> len (filter nonblank (take i ?ls)) < sink_SinkTokenCount cfg"
    then have "0 + i \<in> set (identifySinkLines (sink_SinkTokenCount cfg) 0 0 ?ls)"
      using assms(1) by (intro identifySinkLines_complete) auto
    then show ?thesis by (simp add: sink_keep_def)
  qed
  then have "contains (sink_write [] (sink_kept cfg ?ls)) (?ls ! i)"
    using assms(1) sink_write_contains sink_kept_nth by blast
  moreover have "contains input (?ls ! i)"
    using in_join_contains [of "?ls ! i" ?ls "[nl]"] assms(1) by simp
  ultimately show ?thesis by (simp add: sink_Apply_def Let_def)
qed

theorem sink_keeps_promised_lines_witness:
  "contains (fst (sink_Apply heuristicTokens DefaultSinkConfig ''Error: x'' ModeMinimal)) ''Error: x''"
  using sink_keeps_promised_lines [of 0 "''Error: x''" DefaultSinkConfig heuristicTokens ModeMinimal]
  by (simp add: DefaultSinkConfig_def)

text \<open>
  The filter never lengthens its input, so with the byte heuristic it never reports a
  negative saving.
\<close>

theorem sink_never_grows:
  "length (fst (sink_Apply est cfg input mode)) \<le> length input \<and>
   0 \<le> snd (sink_Apply heuristicTokens cfg input mode)"
proof -
  let ?k = "sink_kept cfg (split_lines input)"
  have sum: "sum_list (map length ?k) + length ?k \<le> Suc (length input)"
    using sum_filter_enumerate [of "\<lambda>(i, _). sink_keep cfg (split_lines input) i" 0 "split_lines input"]
      length_split_lines_sum [of input] by (simp add: sink_kept_def)
  have "length (sink_write [] ?k) \<le> length input"
  proof (cases ?k)
    case (Cons l ls)
    then show ?thesis using sum sink_write_first [of l ls] by simp
  qed simp
  then have len: "length (fst (sink_Apply e cfg input mode)) \<le> length input" for e
    by (simp add: sink_Apply_def Let_def)
  show ?thesis
    using len heuristic_mono [OF len] sink.honest_snd [of heuristicTokens cfg input mode] by simp
qed

end
