(* ===== verification/Pipeline_Init.thy ===== *)
theory Pipeline_Init
  imports Filter_Configs Feedback SmallKV Budget Attention_Sink
begin

text \<open>
  The pipeline coordinator and its construction (\<^verbatim>\<open>internal/filter/pipeline_types.go\<close>,
  \<^verbatim>\<open>pipeline_init.go\<close>, \<^verbatim>\<open>pipeline_accessors.go\<close>, \<^verbatim>\<open>presets.go\<close>).

  A filter field is \<open>None\<close> for a nil pointer. The filters whose bodies are not modelled come
  from a record \<open>FilterLib\<close> of constructors, an argument of the construction: for each one
  the library gives the filter built from the configuration that the coordinator computes. The
  budget enforcer, the attention-sink filter, the SmallKV compensator and the feedback objects
  are the modelled ones. The argument \<open>est\<close> is the token estimate. The field
  \<^verbatim>\<open>resultCache\<close> is left out: no code reads or writes through it.
\<close>

type_synonym filterLayer = "Filter option \<times> string"

record PipelineCoordinator =
  pc_config :: PipelineConfig
  pc_layers :: "filterLayer list"
  pc_entropyFilter :: "Filter option"
  pc_perplexityFilter :: "Filter option"
  pc_goalDrivenFilter :: "Filter option"
  pc_astPreserveFilter :: "Filter option"
  pc_contrastiveFilter :: "Filter option"
  pc_ngramAbbreviator :: "Filter option"
  pc_evaluatorHeadsFilter :: "Filter option"
  pc_gistFilter :: "Filter option"
  pc_hierarchicalSummaryFilter :: "Filter option"
  pc_budgetEnforcer :: "Filter option"
  pc_sessionTracker :: "Filter option"
  pc_llmFilter :: "Filter option"
  pc_compactionLayer :: "Filter option"
  pc_attributionFilter :: "Filter option"
  pc_h2oFilter :: "Filter option"
  pc_attentionSinkFilter :: "Filter option"
  pc_metaTokenFilter :: "Filter option"
  pc_semanticChunkFilter :: "Filter option"
  pc_sketchStoreFilter :: "Filter option"
  pc_lazyPrunerFilter :: "Filter option"
  pc_semanticAnchorFilter :: "Filter option"
  pc_agentMemoryFilter :: "Filter option"
  pc_questionAwareFilter :: "Filter option"
  pc_densityAdaptiveFilter :: "Filter option"
  pc_tfidfFilter :: "Filter option"
  pc_symbolicCompressFilter :: "Filter option"
  pc_phraseGroupingFilter :: "Filter option"
  pc_numericalQuantizer :: "Filter option"
  pc_dynamicRatioFilter :: "Filter option"
  pc_feedback :: "InterLayerFeedback option"
  pc_qualityEstimator :: "unit option"
  pc_tomlFilterWrapper :: "Filter option"
  pc_tomlFilterName :: string
  pc_hypernymCompressor :: "Filter option"
  pc_semanticCacheFilter :: "Filter option"
  pc_scopeFilter :: "Filter option"
  pc_smallKVCompensator :: "SmallKVConfig option"
  pc_kvzipFilter :: "Filter option"
  pc_swezzeFilter :: "Filter option"
  pc_mixedDimFilter :: "Filter option"
  pc_beaverFilter :: "Filter option"
  pc_pocFilter :: "Filter option"
  pc_tokenQuantFilter :: "Filter option"
  pc_tokenRetentionFilter :: "Filter option"
  pc_aconFilter :: "Filter option"
  pc_cacheEnabled :: bool
  pc_cacheHitCount :: int
  pc_cacheMissCount :: int

definition zeroPipelineCoordinator :: PipelineCoordinator where
  "zeroPipelineCoordinator =
     \<lparr>pc_config = zeroPipelineConfig, pc_layers = [], pc_entropyFilter = None,
      pc_perplexityFilter = None, pc_goalDrivenFilter = None, pc_astPreserveFilter = None,
      pc_contrastiveFilter = None, pc_ngramAbbreviator = None,
      pc_evaluatorHeadsFilter = None, pc_gistFilter = None,
      pc_hierarchicalSummaryFilter = None, pc_budgetEnforcer = None,
      pc_sessionTracker = None, pc_llmFilter = None, pc_compactionLayer = None,
      pc_attributionFilter = None, pc_h2oFilter = None, pc_attentionSinkFilter = None,
      pc_metaTokenFilter = None, pc_semanticChunkFilter = None, pc_sketchStoreFilter = None,
      pc_lazyPrunerFilter = None, pc_semanticAnchorFilter = None,
      pc_agentMemoryFilter = None, pc_questionAwareFilter = None,
      pc_densityAdaptiveFilter = None, pc_tfidfFilter = None,
      pc_symbolicCompressFilter = None, pc_phraseGroupingFilter = None,
      pc_numericalQuantizer = None, pc_dynamicRatioFilter = None, pc_feedback = None,
      pc_qualityEstimator = None, pc_tomlFilterWrapper = None, pc_tomlFilterName = [],
      pc_hypernymCompressor = None, pc_semanticCacheFilter = None, pc_scopeFilter = None,
      pc_smallKVCompensator = None, pc_kvzipFilter = None, pc_swezzeFilter = None,
      pc_mixedDimFilter = None, pc_beaverFilter = None, pc_pocFilter = None,
      pc_tokenQuantFilter = None, pc_tokenRetentionFilter = None, pc_aconFilter = None,
      pc_cacheEnabled = False, pc_cacheHitCount = 0, pc_cacheMissCount = 0\<rparr>"
text \<open>The constructors of the filters that are not modelled.\<close>

record FilterLib =
  lib_NewEntropyFilter :: Filter
  lib_NewPerplexityFilter :: Filter
  lib_NewGoalDrivenFilter :: "string \<Rightarrow> Filter"
  lib_NewASTPreserveFilter :: Filter
  lib_NewContrastiveFilter :: "string \<Rightarrow> Filter"
  lib_NewNgramAbbreviator :: Filter
  lib_NewEvaluatorHeadsFilter :: Filter
  lib_NewGistFilter :: Filter
  lib_NewHierarchicalSummaryFilter :: Filter
  lib_NewSessionTracker :: Filter
  lib_NewLLMAwareFilter :: "LLMAwareConfig \<Rightarrow> Filter"
  lib_NewCompactionLayer :: "CompactionConfig \<Rightarrow> Filter"
  lib_AttributionFilter :: "AttributionConfig \<Rightarrow> Filter"
  lib_H2OFilter :: "H2OConfig \<Rightarrow> Filter"
  lib_NewMetaTokenFilterWithConfig :: "MetaTokenConfig \<Rightarrow> Filter"
  lib_NewSemanticChunkFilterWithConfig :: "SemanticChunkConfig \<Rightarrow> Filter"
  lib_NewSketchStoreFilterWithConfig :: "SketchStoreConfig \<Rightarrow> Filter"
  lib_NewLazyPrunerFilterWithConfig :: "LazyPrunerConfig \<Rightarrow> Filter"
  lib_NewSemanticAnchorFilterWithConfig :: "SemanticAnchorConfig \<Rightarrow> Filter"
  lib_NewAgentMemoryFilterWithConfig :: "AgentMemoryConfig \<Rightarrow> Filter"
  lib_QuestionAwareFilter :: "QuestionAwareConfig \<Rightarrow> Filter"
  lib_DensityAdaptiveFilter :: "DensityAdaptiveConfig \<Rightarrow> Filter"
  lib_NewTFIDFFilterWithConfig :: "TFIDFConfig \<Rightarrow> Filter"
  lib_NewSymbolicCompressFilter :: Filter
  lib_NewPhraseGroupingFilter :: Filter
  lib_NumericalQuantizer :: "NumericalConfig \<Rightarrow> Filter"
  lib_DynamicRatioFilter :: "DynamicRatioConfig \<Rightarrow> Filter"
  lib_NewHypernymCompressor :: Filter
  lib_NewSemanticCacheFilter :: Filter
  lib_NewScopeFilter :: Filter
  lib_NewKVzipFilter :: Filter
  lib_NewSWEzzeFilter :: Filter
  lib_NewMixedDimFilter :: Filter
  lib_NewBEAVERFilter :: Filter
  lib_NewPoCFilter :: Filter
  lib_NewTokenQuantFilter :: Filter
  lib_NewTokenRetentionFilter :: Filter
  lib_NewACONFilter :: Filter

section \<open>Construction\<close>

definition override :: "'a::linordered_idom \<Rightarrow> 'a \<Rightarrow> 'a" where
  "override v d = (if v > 0 then v else d)"

definition zero_default :: "int \<Rightarrow> int \<Rightarrow> int" where
  "zero_default v d = (if v = 0 then d else v)"

definition when_enabled :: "bool \<Rightarrow> 'a \<Rightarrow> 'a option \<Rightarrow> 'a option" where
  "when_enabled b x old = (if b then Some x else old)"

definition initCoreFilters ::
  "(string \<Rightarrow> int) \<Rightarrow> FilterLib \<Rightarrow> PipelineConfig \<Rightarrow> PipelineCoordinator \<Rightarrow> PipelineCoordinator" where
  "initCoreFilters est L cfg p = p\<lparr>
     pc_entropyFilter := Some (lib_NewEntropyFilter L),
     pc_perplexityFilter := Some (lib_NewPerplexityFilter L),
     pc_goalDrivenFilter := when_enabled (cfg_QueryIntent cfg \<noteq> [])
       (lib_NewGoalDrivenFilter L (cfg_QueryIntent cfg)) (pc_goalDrivenFilter p),
     pc_astPreserveFilter := Some (lib_NewASTPreserveFilter L),
     pc_contrastiveFilter := when_enabled (cfg_QueryIntent cfg \<noteq> [])
       (lib_NewContrastiveFilter L (cfg_QueryIntent cfg)) (pc_contrastiveFilter p),
     pc_ngramAbbreviator := when_enabled (cfg_NgramEnabled cfg)
       (lib_NewNgramAbbreviator L) (pc_ngramAbbreviator p),
     pc_evaluatorHeadsFilter := Some (lib_NewEvaluatorHeadsFilter L),
     pc_gistFilter := Some (lib_NewGistFilter L),
     pc_hierarchicalSummaryFilter := Some (lib_NewHierarchicalSummaryFilter L),
     pc_budgetEnforcer := when_enabled (cfg_Budget cfg > 0)
       (budget_filter est (NewBudgetEnforcer (cfg_Budget cfg))) (pc_budgetEnforcer p),
     pc_sessionTracker := when_enabled (cfg_SessionTracking cfg)
       (lib_NewSessionTracker L) (pc_sessionTracker p)\<rparr>"

definition initNeuralLayer ::
  "FilterLib \<Rightarrow> PipelineConfig \<Rightarrow> PipelineCoordinator \<Rightarrow> PipelineCoordinator" where
  "initNeuralLayer L cfg p = p\<lparr>
     pc_llmFilter := when_enabled (cfg_LLMEnabled cfg)
       (lib_NewLLMAwareFilter L
          \<lparr>llm_Threshold = 2000, llm_Enabled = True, llm_CacheEnabled = True,
           llm_PromptTemplate = cfg_PromptTemplate cfg\<rparr>)
       (pc_llmFilter p)\<rparr>"

definition compactionCfg :: "PipelineConfig \<Rightarrow> CompactionConfig" where
  "compactionCfg cfg =
     \<lparr>compact_Enabled = True, compact_ThresholdLines = 0,
      compact_ThresholdTokens = zero_default (cfg_CompactionThreshold cfg) 2000,
      compact_PreserveRecentTurns = zero_default (cfg_CompactionPreserveTurns cfg) 5,
      compact_MaxSummaryTokens = zero_default (cfg_CompactionMaxTokens cfg) 500,
      compact_ContentTypes = [], compact_CacheEnabled = True, compact_PromptTemplate = [],
      compact_AutoDetect = cfg_CompactionAutoDetect cfg,
      compact_StateSnapshotFormat = cfg_CompactionStateSnapshot cfg,
      compact_ExtractKeyValuePairs = False, compact_MaxContextEntries = 0\<rparr>"

definition attributionCfg :: "PipelineConfig \<Rightarrow> AttributionConfig" where
  "attributionCfg cfg = (let c = DefaultAttributionConfig
     in c\<lparr>attr_ImportanceThreshold := override (cfg_AttributionThreshold cfg) (attr_ImportanceThreshold c)\<rparr>)"

definition h2oCfg :: "PipelineConfig \<Rightarrow> H2OConfig" where
  "h2oCfg cfg = (let c = DefaultH2OConfig
     in c\<lparr>h2o_SinkSize := override (cfg_H2OSinkSize cfg) (h2o_SinkSize c),
          h2o_RecentSize := override (cfg_H2ORecentSize cfg) (h2o_RecentSize c),
          h2o_HeavyHitterSize := override (cfg_H2OHeavyHitterSize cfg) (h2o_HeavyHitterSize c)\<rparr>)"

definition sinkCfg :: "PipelineConfig \<Rightarrow> SinkConfig" where
  "sinkCfg cfg = (let c = NewAdaptiveAttentionSinkFilter 50
     in c\<lparr>sink_SinkTokenCount := override (cfg_AttentionSinkCount cfg) (sink_SinkTokenCount c),
          sink_RecentTokenCount := override (cfg_AttentionRecentCount cfg) (sink_RecentTokenCount c)\<rparr>)"

definition metaCfg :: "PipelineConfig \<Rightarrow> MetaTokenConfig" where
  "metaCfg cfg = (let c = DefaultMetaTokenConfig
     in c\<lparr>meta_WindowSize := override (cfg_MetaTokenWindow cfg) (meta_WindowSize c),
          meta_MinPattern := override (cfg_MetaTokenMinSize cfg) (meta_MinPattern c)\<rparr>)"

definition semanticCfg :: "PipelineConfig \<Rightarrow> SemanticChunkConfig" where
  "semanticCfg cfg = (let c = DefaultSemanticChunkConfig
     in c\<lparr>chunk_MinChunkSize := override (cfg_SemanticChunkMinSize cfg) (chunk_MinChunkSize c),
          chunk_ImportanceThreshold := override (cfg_SemanticChunkThreshold cfg) (chunk_ImportanceThreshold c)\<rparr>)"

definition sketchCfg :: "PipelineConfig \<Rightarrow> SketchStoreConfig" where
  "sketchCfg cfg = (let c = DefaultSketchStoreConfig
     in c\<lparr>sketch_BudgetRatio := override (cfg_SketchBudgetRatio cfg) (sketch_BudgetRatio c),
          sketch_MaxSketchSize := override (cfg_SketchMaxSize cfg) (sketch_MaxSketchSize c),
          sketch_HeavyHitterRatio := override (cfg_SketchHeavyHitter cfg) (sketch_HeavyHitterRatio c)\<rparr>)"

definition lazyCfg :: "PipelineConfig \<Rightarrow> LazyPrunerConfig" where
  "lazyCfg cfg = (let c = DefaultLazyPrunerConfig
     in c\<lparr>lazy_BaseBudget := override (cfg_LazyBaseBudget cfg) (lazy_BaseBudget c),
          lazy_DecayRate := override (cfg_LazyDecayRate cfg) (lazy_DecayRate c),
          lazy_RevivalBudget := override (cfg_LazyRevivalBudget cfg) (lazy_RevivalBudget c)\<rparr>)"

definition anchorCfg :: "PipelineConfig \<Rightarrow> SemanticAnchorConfig" where
  "anchorCfg cfg = (let c = DefaultSemanticAnchorConfig
     in c\<lparr>anchor_AnchorRatio := override (cfg_SemanticAnchorRatio cfg) (anchor_AnchorRatio c),
          anchor_MinAnchorSpacing := override (cfg_SemanticAnchorSpacing cfg) (anchor_MinAnchorSpacing c)\<rparr>)"

definition agentCfg :: "PipelineConfig \<Rightarrow> AgentMemoryConfig" where
  "agentCfg cfg = (let c = DefaultAgentMemoryConfig
     in c\<lparr>memory_KnowledgeRetentionRatio := override (cfg_AgentKnowledgeRetention cfg) (memory_KnowledgeRetentionRatio c),
          memory_HistoryPruneRatio := override (cfg_AgentHistoryPrune cfg) (memory_HistoryPruneRatio c),
          memory_KnowledgeMaxSize := override (cfg_AgentConsolidationMax cfg) (memory_KnowledgeMaxSize c)\<rparr>)"

definition initSemanticFilters ::
  "(string \<Rightarrow> int) \<Rightarrow> FilterLib \<Rightarrow> PipelineConfig \<Rightarrow> PipelineCoordinator \<Rightarrow> PipelineCoordinator" where
  "initSemanticFilters est L cfg p = p\<lparr>
     pc_compactionLayer := when_enabled (cfg_EnableCompaction cfg)
       (lib_NewCompactionLayer L (compactionCfg cfg)) (pc_compactionLayer p),
     pc_attributionFilter := when_enabled (cfg_EnableAttribution cfg)
       (lib_AttributionFilter L (attributionCfg cfg)) (pc_attributionFilter p),
     pc_h2oFilter := when_enabled (cfg_EnableH2O cfg)
       (lib_H2OFilter L (h2oCfg cfg)) (pc_h2oFilter p),
     pc_attentionSinkFilter := when_enabled (cfg_EnableAttentionSink cfg)
       (sink_filter est (sinkCfg cfg)) (pc_attentionSinkFilter p),
     pc_metaTokenFilter := when_enabled (cfg_EnableMetaToken cfg)
       (lib_NewMetaTokenFilterWithConfig L (metaCfg cfg)) (pc_metaTokenFilter p),
     pc_semanticChunkFilter := when_enabled (cfg_EnableSemanticChunk cfg)
       (lib_NewSemanticChunkFilterWithConfig L (semanticCfg cfg)) (pc_semanticChunkFilter p),
     pc_sketchStoreFilter := when_enabled (cfg_EnableSketchStore cfg)
       (lib_NewSketchStoreFilterWithConfig L (sketchCfg cfg)) (pc_sketchStoreFilter p),
     pc_lazyPrunerFilter := when_enabled (cfg_EnableLazyPruner cfg)
       (lib_NewLazyPrunerFilterWithConfig L (lazyCfg cfg)) (pc_lazyPrunerFilter p),
     pc_semanticAnchorFilter := when_enabled (cfg_EnableSemanticAnchor cfg)
       (lib_NewSemanticAnchorFilterWithConfig L (anchorCfg cfg)) (pc_semanticAnchorFilter p),
     pc_agentMemoryFilter := when_enabled (cfg_EnableAgentMemory cfg)
       (lib_NewAgentMemoryFilterWithConfig L (agentCfg cfg)) (pc_agentMemoryFilter p)\<rparr>"

definition questionCfg :: "PipelineConfig \<Rightarrow> QuestionAwareConfig" where
  "questionCfg cfg = (let c = DefaultQuestionAwareConfig
     in c\<lparr>quest_Query := cfg_QueryIntent cfg,
          quest_RelevanceThreshold := override (cfg_QuestionAwareThreshold cfg) (quest_RelevanceThreshold c)\<rparr>)"

definition densityCfg :: "PipelineConfig \<Rightarrow> DensityAdaptiveConfig" where
  "densityCfg cfg = (let c = DefaultDensityAdaptiveConfig
     in c\<lparr>dens_TargetRatio := override (cfg_DensityTargetRatio cfg) (dens_TargetRatio c),
          dens_DensityThreshold := override (cfg_DensityThreshold cfg) (dens_DensityThreshold c)\<rparr>)"

definition initAdaptiveFilters ::
  "FilterLib \<Rightarrow> PipelineConfig \<Rightarrow> PipelineCoordinator \<Rightarrow> PipelineCoordinator" where
  "initAdaptiveFilters L cfg p = p\<lparr>
     pc_questionAwareFilter := when_enabled (cfg_EnableQuestionAware cfg \<and> cfg_QueryIntent cfg \<noteq> [])
       (lib_QuestionAwareFilter L (questionCfg cfg)) (pc_questionAwareFilter p),
     pc_densityAdaptiveFilter := when_enabled (cfg_EnableDensityAdaptive cfg)
       (lib_DensityAdaptiveFilter L (densityCfg cfg)) (pc_densityAdaptiveFilter p)\<rparr>"

definition tfidfCfg :: "PipelineConfig \<Rightarrow> TFIDFConfig" where
  "tfidfCfg cfg = (let c = DefaultTFIDFConfig
     in c\<lparr>tfidf_Threshold := override (cfg_TFIDFThreshold cfg) (tfidf_Threshold c)\<rparr>)"

definition numCfg :: "PipelineConfig \<Rightarrow> NumericalConfig" where
  "numCfg cfg = (let c = DefaultNumericalConfig
     in c\<lparr>num_DecimalPlaces := override (cfg_DecimalPlaces cfg) (num_DecimalPlaces c)\<rparr>)"

definition dynCfg :: "PipelineConfig \<Rightarrow> DynamicRatioConfig" where
  "dynCfg cfg = (let c = DefaultDynamicRatioConfig
     in c\<lparr>dyn_BaseBudgetRatio := override (cfg_DynamicRatioBase cfg) (dyn_BaseBudgetRatio c)\<rparr>)"

definition initNewFilters ::
  "FilterLib \<Rightarrow> PipelineConfig \<Rightarrow> PipelineCoordinator \<Rightarrow> PipelineCoordinator" where
  "initNewFilters L cfg p = p\<lparr>
     pc_tfidfFilter := when_enabled (cfg_EnableTFIDF cfg)
       (lib_NewTFIDFFilterWithConfig L (tfidfCfg cfg)) (pc_tfidfFilter p),
     pc_symbolicCompressFilter := when_enabled (cfg_EnableSymbolicCompress cfg)
       (lib_NewSymbolicCompressFilter L) (pc_symbolicCompressFilter p),
     pc_phraseGroupingFilter := when_enabled (cfg_EnablePhraseGrouping cfg)
       (lib_NewPhraseGroupingFilter L) (pc_phraseGroupingFilter p),
     pc_numericalQuantizer := when_enabled (cfg_EnableNumericalQuant cfg)
       (lib_NumericalQuantizer L (numCfg cfg)) (pc_numericalQuantizer p),
     pc_dynamicRatioFilter := when_enabled (cfg_EnableDynamicRatio cfg)
       (lib_DynamicRatioFilter L (dynCfg cfg)) (pc_dynamicRatioFilter p)\<rparr>"

definition initPhase2Filters ::
  "FilterLib \<Rightarrow> PipelineConfig \<Rightarrow> PipelineCoordinator \<Rightarrow> PipelineCoordinator" where
  "initPhase2Filters L cfg p = p\<lparr>
     pc_hypernymCompressor := when_enabled (cfg_EnableHypernym cfg)
       (lib_NewHypernymCompressor L) (pc_hypernymCompressor p),
     pc_semanticCacheFilter := when_enabled (cfg_EnableSemanticCache cfg)
       (lib_NewSemanticCacheFilter L) (pc_semanticCacheFilter p),
     pc_scopeFilter := when_enabled (cfg_EnableScope cfg)
       (lib_NewScopeFilter L) (pc_scopeFilter p),
     pc_smallKVCompensator := when_enabled (cfg_EnableSmallKV cfg)
       DefaultSmallKVConfig (pc_smallKVCompensator p),
     pc_kvzipFilter := when_enabled (cfg_EnableKVzip cfg)
       (lib_NewKVzipFilter L) (pc_kvzipFilter p),
     pc_swezzeFilter := when_enabled (cfg_EnableSWEzze cfg)
       (lib_NewSWEzzeFilter L) (pc_swezzeFilter p),
     pc_mixedDimFilter := when_enabled (cfg_EnableMixedDim cfg)
       (lib_NewMixedDimFilter L) (pc_mixedDimFilter p),
     pc_beaverFilter := when_enabled (cfg_EnableBEAVER cfg)
       (lib_NewBEAVERFilter L) (pc_beaverFilter p),
     pc_pocFilter := when_enabled (cfg_EnablePoC cfg)
       (lib_NewPoCFilter L) (pc_pocFilter p),
     pc_tokenQuantFilter := when_enabled (cfg_EnableTokenQuant cfg)
       (lib_NewTokenQuantFilter L) (pc_tokenQuantFilter p),
     pc_tokenRetentionFilter := when_enabled (cfg_EnableTokenRetention cfg)
       (lib_NewTokenRetentionFilter L) (pc_tokenRetentionFilter p),
     pc_aconFilter := when_enabled (cfg_EnableACON cfg)
       (lib_NewACONFilter L) (pc_aconFilter p)\<rparr>"

definition buildLayers :: "PipelineCoordinator \<Rightarrow> PipelineCoordinator" where
  "buildLayers p = p\<lparr>pc_layers :=
     [(pc_entropyFilter p, ''1_entropy''),
      (pc_perplexityFilter p, ''2_perplexity''),
      (pc_goalDrivenFilter p, ''3_goal_driven''),
      (pc_astPreserveFilter p, ''4_ast_preserve''),
      (pc_contrastiveFilter p, ''5_contrastive''),
      (pc_ngramAbbreviator p, ''6_ngram''),
      (pc_evaluatorHeadsFilter p, ''7_evaluator''),
      (pc_gistFilter p, ''8_gist''),
      (pc_hierarchicalSummaryFilter p, ''9_hierarchical''),
      (pc_llmFilter p, ''10_neural''),
      (pc_compactionLayer p, ''11_compaction''),
      (pc_attributionFilter p, ''12_attribution''),
      (pc_h2oFilter p, ''13_h2o''),
      (pc_attentionSinkFilter p, ''14_attention_sink''),
      (pc_metaTokenFilter p, ''15_meta_token''),
      (pc_semanticChunkFilter p, ''16_semantic_chunk''),
      (pc_sketchStoreFilter p, ''17_sketch_store''),
      (pc_lazyPrunerFilter p, ''18_lazy_pruner''),
      (pc_semanticAnchorFilter p, ''19_semantic_anchor''),
      (pc_agentMemoryFilter p, ''20_agent_memory''),
      (pc_swezzeFilter p, ''21_swezze''),
      (pc_mixedDimFilter p, ''22_mixed_dim''),
      (pc_beaverFilter p, ''23_beaver''),
      (pc_pocFilter p, ''24_poc''),
      (pc_tokenQuantFilter p, ''25_token_quant''),
      (pc_tokenRetentionFilter p, ''26_token_retention''),
      (pc_aconFilter p, ''27_acon'')]\<rparr>"

text \<open>The configuration stored in the coordinator is the caller's; the defaults of a zero
  configuration are set on the local copy, after it was stored.\<close>

definition cfg_allDisabled :: "PipelineConfig \<Rightarrow> bool" where
  "cfg_allDisabled cfg \<longleftrightarrow>
     \<not> cfg_EnableEntropy cfg \<and> \<not> cfg_EnablePerplexity cfg \<and> \<not> cfg_EnableGoalDriven cfg \<and>
     \<not> cfg_EnableAST cfg \<and> \<not> cfg_EnableContrastive cfg \<and> \<not> cfg_EnableEvaluator cfg \<and>
     \<not> cfg_EnableGist cfg \<and> \<not> cfg_EnableHierarchical cfg"

definition cfg_hasExplicitSettings :: "PipelineConfig \<Rightarrow> bool" where
  "cfg_hasExplicitSettings cfg \<longleftrightarrow>
     cfg_Budget cfg > 0 \<or> cfg_QueryIntent cfg \<noteq> [] \<or> cfg_LLMEnabled cfg \<or>
     cfg_NgramEnabled cfg \<or> cfg_MultiFileEnabled cfg \<or> cfg_SessionTracking cfg \<or>
     cfg_EnableCompaction cfg \<or> cfg_EnableAttribution cfg \<or> cfg_EnableH2O cfg \<or>
     cfg_EnableAttentionSink cfg"

definition cfg_withDefaults :: "PipelineConfig \<Rightarrow> PipelineConfig" where
  "cfg_withDefaults cfg =
     (if cfg_allDisabled cfg \<and> \<not> cfg_hasExplicitSettings cfg
      then cfg\<lparr>cfg_EnableEntropy := True, cfg_EnablePerplexity := True, cfg_EnableGoalDriven := True,
               cfg_EnableAST := True, cfg_EnableContrastive := True, cfg_EnableEvaluator := True,
               cfg_EnableGist := True, cfg_EnableHierarchical := True\<rparr>
      else cfg)"

definition NewPipelineCoordinator ::
  "(string \<Rightarrow> int) \<Rightarrow> FilterLib \<Rightarrow> PipelineConfig \<Rightarrow> PipelineCoordinator" where
  "NewPipelineCoordinator est L cfg =
     (let p = zeroPipelineCoordinator\<lparr>pc_config := cfg, pc_cacheEnabled := True\<rparr>;
          cfg = cfg_withDefaults cfg;
          p = initCoreFilters est L cfg p;
          p = initNeuralLayer L cfg p;
          p = initSemanticFilters est L cfg p;
          p = initAdaptiveFilters L cfg p;
          p = initNewFilters L cfg p;
          p = p\<lparr>pc_feedback := Some NewInterLayerFeedback, pc_qualityEstimator := Some ()\<rparr>;
          p = initPhase2Filters L cfg p
      in buildLayers p)"

definition SetTOMLFilter :: "Filter option \<Rightarrow> string \<Rightarrow> PipelineCoordinator \<Rightarrow> PipelineCoordinator" where
  "SetTOMLFilter f name p = p\<lparr>pc_tomlFilterWrapper := f, pc_tomlFilterName := name\<rparr>"


section \<open>The coordinator that construction returns\<close>

lemma when_enabled_simps [simp]:
  "when_enabled True x old = Some x" "when_enabled False x old = old"
  "when_enabled b x None = None \<longleftrightarrow> \<not> b"
  by (simp_all add: when_enabled_def)

lemma buildLayers_idem [simp]: "buildLayers (buildLayers p) = buildLayers p"
  by (simp add: buildLayers_def)

text \<open>The layer table agrees with the filter fields.\<close>

definition layers_built :: "PipelineCoordinator \<Rightarrow> bool" where
  "layers_built p \<longleftrightarrow> pc_layers p = pc_layers (buildLayers p)"

lemma length_layers_built: "layers_built p \<Longrightarrow> length (pc_layers p) = 27"
  by (simp add: layers_built_def buildLayers_def)

lemma layers_built_New [simp, go_inv]: "layers_built (NewPipelineCoordinator est L cfg)"
  by (simp add: layers_built_def NewPipelineCoordinator_def Let_def)

lemma layers_built_SetTOMLFilter [simp, go_inv]: "layers_built (SetTOMLFilter f n p) \<longleftrightarrow> layers_built p"
  by (simp add: layers_built_def SetTOMLFilter_def buildLayers_def)

lemma layers_built_feedback [simp, go_inv]: "layers_built (p\<lparr>pc_feedback := f\<rparr>) \<longleftrightarrow> layers_built p"
  by (simp add: layers_built_def buildLayers_def)

lemmas init_defs = NewPipelineCoordinator_def initCoreFilters_def initNeuralLayer_def
  initSemanticFilters_def initAdaptiveFilters_def initNewFilters_def initPhase2Filters_def
  buildLayers_def zeroPipelineCoordinator_def Let_def

text \<open>The defaults of a zero configuration change no field that construction reads.\<close>

lemma cfg_withDefaults_ignored:
  "initCoreFilters est L (cfg_withDefaults cfg) p = initCoreFilters est L cfg p"
  "initNeuralLayer L (cfg_withDefaults cfg) p = initNeuralLayer L cfg p"
  "initSemanticFilters est L (cfg_withDefaults cfg) p = initSemanticFilters est L cfg p"
  "initAdaptiveFilters L (cfg_withDefaults cfg) p = initAdaptiveFilters L cfg p"
  "initNewFilters L (cfg_withDefaults cfg) p = initNewFilters L cfg p"
  "initPhase2Filters L (cfg_withDefaults cfg) p = initPhase2Filters L cfg p"
  by (simp_all add: cfg_withDefaults_def initCoreFilters_def initNeuralLayer_def initSemanticFilters_def
      initAdaptiveFilters_def initNewFilters_def initPhase2Filters_def compactionCfg_def attributionCfg_def
      h2oCfg_def sinkCfg_def metaCfg_def semanticCfg_def sketchCfg_def lazyCfg_def anchorCfg_def
      agentCfg_def questionCfg_def densityCfg_def tfidfCfg_def numCfg_def dynCfg_def)

lemma New_fields [simp]:
  "pc_goalDrivenFilter (NewPipelineCoordinator est L cfg) = when_enabled (cfg_QueryIntent cfg \<noteq> []) (lib_NewGoalDrivenFilter L (cfg_QueryIntent cfg)) None"
  "pc_contrastiveFilter (NewPipelineCoordinator est L cfg) = when_enabled (cfg_QueryIntent cfg \<noteq> []) (lib_NewContrastiveFilter L (cfg_QueryIntent cfg)) None"
  "pc_ngramAbbreviator (NewPipelineCoordinator est L cfg) = when_enabled (cfg_NgramEnabled cfg) (lib_NewNgramAbbreviator L) None"
  "pc_budgetEnforcer (NewPipelineCoordinator est L cfg) = when_enabled (cfg_Budget cfg > 0) (budget_filter est (NewBudgetEnforcer (cfg_Budget cfg))) None"
  "pc_sessionTracker (NewPipelineCoordinator est L cfg) = when_enabled (cfg_SessionTracking cfg) (lib_NewSessionTracker L) None"
  "pc_llmFilter (NewPipelineCoordinator est L cfg) = when_enabled (cfg_LLMEnabled cfg) (lib_NewLLMAwareFilter L \<lparr>llm_Threshold = 2000, llm_Enabled = True, llm_CacheEnabled = True, llm_PromptTemplate = cfg_PromptTemplate cfg\<rparr>) None"
  "pc_compactionLayer (NewPipelineCoordinator est L cfg) = when_enabled (cfg_EnableCompaction cfg) (lib_NewCompactionLayer L (compactionCfg cfg)) None"
  "pc_attributionFilter (NewPipelineCoordinator est L cfg) = when_enabled (cfg_EnableAttribution cfg) (lib_AttributionFilter L (attributionCfg cfg)) None"
  "pc_h2oFilter (NewPipelineCoordinator est L cfg) = when_enabled (cfg_EnableH2O cfg) (lib_H2OFilter L (h2oCfg cfg)) None"
  "pc_attentionSinkFilter (NewPipelineCoordinator est L cfg) = when_enabled (cfg_EnableAttentionSink cfg) (sink_filter est (sinkCfg cfg)) None"
  "pc_metaTokenFilter (NewPipelineCoordinator est L cfg) = when_enabled (cfg_EnableMetaToken cfg) (lib_NewMetaTokenFilterWithConfig L (metaCfg cfg)) None"
  "pc_semanticChunkFilter (NewPipelineCoordinator est L cfg) = when_enabled (cfg_EnableSemanticChunk cfg) (lib_NewSemanticChunkFilterWithConfig L (semanticCfg cfg)) None"
  "pc_sketchStoreFilter (NewPipelineCoordinator est L cfg) = when_enabled (cfg_EnableSketchStore cfg) (lib_NewSketchStoreFilterWithConfig L (sketchCfg cfg)) None"
  "pc_lazyPrunerFilter (NewPipelineCoordinator est L cfg) = when_enabled (cfg_EnableLazyPruner cfg) (lib_NewLazyPrunerFilterWithConfig L (lazyCfg cfg)) None"
  "pc_semanticAnchorFilter (NewPipelineCoordinator est L cfg) = when_enabled (cfg_EnableSemanticAnchor cfg) (lib_NewSemanticAnchorFilterWithConfig L (anchorCfg cfg)) None"
  "pc_agentMemoryFilter (NewPipelineCoordinator est L cfg) = when_enabled (cfg_EnableAgentMemory cfg) (lib_NewAgentMemoryFilterWithConfig L (agentCfg cfg)) None"
  "pc_questionAwareFilter (NewPipelineCoordinator est L cfg) = when_enabled (cfg_EnableQuestionAware cfg \<and> cfg_QueryIntent cfg \<noteq> []) (lib_QuestionAwareFilter L (questionCfg cfg)) None"
  "pc_densityAdaptiveFilter (NewPipelineCoordinator est L cfg) = when_enabled (cfg_EnableDensityAdaptive cfg) (lib_DensityAdaptiveFilter L (densityCfg cfg)) None"
  "pc_tfidfFilter (NewPipelineCoordinator est L cfg) = when_enabled (cfg_EnableTFIDF cfg) (lib_NewTFIDFFilterWithConfig L (tfidfCfg cfg)) None"
  "pc_symbolicCompressFilter (NewPipelineCoordinator est L cfg) = when_enabled (cfg_EnableSymbolicCompress cfg) (lib_NewSymbolicCompressFilter L) None"
  "pc_phraseGroupingFilter (NewPipelineCoordinator est L cfg) = when_enabled (cfg_EnablePhraseGrouping cfg) (lib_NewPhraseGroupingFilter L) None"
  "pc_numericalQuantizer (NewPipelineCoordinator est L cfg) = when_enabled (cfg_EnableNumericalQuant cfg) (lib_NumericalQuantizer L (numCfg cfg)) None"
  "pc_dynamicRatioFilter (NewPipelineCoordinator est L cfg) = when_enabled (cfg_EnableDynamicRatio cfg) (lib_DynamicRatioFilter L (dynCfg cfg)) None"
  "pc_hypernymCompressor (NewPipelineCoordinator est L cfg) = when_enabled (cfg_EnableHypernym cfg) (lib_NewHypernymCompressor L) None"
  "pc_semanticCacheFilter (NewPipelineCoordinator est L cfg) = when_enabled (cfg_EnableSemanticCache cfg) (lib_NewSemanticCacheFilter L) None"
  "pc_scopeFilter (NewPipelineCoordinator est L cfg) = when_enabled (cfg_EnableScope cfg) (lib_NewScopeFilter L) None"
  "pc_smallKVCompensator (NewPipelineCoordinator est L cfg) = when_enabled (cfg_EnableSmallKV cfg) DefaultSmallKVConfig None"
  "pc_kvzipFilter (NewPipelineCoordinator est L cfg) = when_enabled (cfg_EnableKVzip cfg) (lib_NewKVzipFilter L) None"
  "pc_swezzeFilter (NewPipelineCoordinator est L cfg) = when_enabled (cfg_EnableSWEzze cfg) (lib_NewSWEzzeFilter L) None"
  "pc_mixedDimFilter (NewPipelineCoordinator est L cfg) = when_enabled (cfg_EnableMixedDim cfg) (lib_NewMixedDimFilter L) None"
  "pc_beaverFilter (NewPipelineCoordinator est L cfg) = when_enabled (cfg_EnableBEAVER cfg) (lib_NewBEAVERFilter L) None"
  "pc_pocFilter (NewPipelineCoordinator est L cfg) = when_enabled (cfg_EnablePoC cfg) (lib_NewPoCFilter L) None"
  "pc_tokenQuantFilter (NewPipelineCoordinator est L cfg) = when_enabled (cfg_EnableTokenQuant cfg) (lib_NewTokenQuantFilter L) None"
  "pc_tokenRetentionFilter (NewPipelineCoordinator est L cfg) = when_enabled (cfg_EnableTokenRetention cfg) (lib_NewTokenRetentionFilter L) None"
  "pc_aconFilter (NewPipelineCoordinator est L cfg) = when_enabled (cfg_EnableACON cfg) (lib_NewACONFilter L) None"
  "pc_entropyFilter (NewPipelineCoordinator est L cfg) = Some (lib_NewEntropyFilter L)"
  "pc_perplexityFilter (NewPipelineCoordinator est L cfg) = Some (lib_NewPerplexityFilter L)"
  "pc_astPreserveFilter (NewPipelineCoordinator est L cfg) = Some (lib_NewASTPreserveFilter L)"
  "pc_evaluatorHeadsFilter (NewPipelineCoordinator est L cfg) = Some (lib_NewEvaluatorHeadsFilter L)"
  "pc_gistFilter (NewPipelineCoordinator est L cfg) = Some (lib_NewGistFilter L)"
  "pc_hierarchicalSummaryFilter (NewPipelineCoordinator est L cfg) = Some (lib_NewHierarchicalSummaryFilter L)"
  "pc_config (NewPipelineCoordinator est L cfg) = cfg"
  "pc_feedback (NewPipelineCoordinator est L cfg) = Some NewInterLayerFeedback"
  "pc_qualityEstimator (NewPipelineCoordinator est L cfg) = Some ()"
  "pc_tomlFilterWrapper (NewPipelineCoordinator est L cfg) = None"
  by (simp_all add: NewPipelineCoordinator_def Let_def cfg_withDefaults_ignored)
    (simp_all add: init_defs)

lemma SetTOMLFilter_fields [simp]:
  "pc_config (SetTOMLFilter f n p) = pc_config p" "pc_tomlFilterWrapper (SetTOMLFilter f n p) = f"
  "pc_tomlFilterName (SetTOMLFilter f n p) = n" "pc_layers (SetTOMLFilter f n p) = pc_layers p"
  by (simp_all add: SetTOMLFilter_def)

end
