(* ===== verification/Pipeline_Gates.thy ===== *)
theory Pipeline_Gates
  imports Pipeline_Init "HOL-Library.Word"
begin

text \<open>
  The stage gates (\<^verbatim>\<open>internal/filter/pipeline_gates.go\<close>): the checks that skip a layer.
  The loops are written as the code has them, with their early returns; the lemmas of this
  theory give what each one decides. The distinct bytes of the entropy gate are counted in the
  32-byte bit set of the code, on 8-bit words.
\<close>

unbundle bit_operations_syntax

definition shouldEarlyExit :: "PipelineCoordinator \<Rightarrow> PipelineStats \<Rightarrow> bool" where
  "shouldEarlyExit p stats =
     (if cfg_Budget (pc_config p) \<le> 0 then False
      else (let currentTokens = OriginalTokens stats - runningSaved stats
            in currentTokens \<le> cfg_Budget (pc_config p)))"

definition byte_idx :: "8 word \<Rightarrow> nat" where
  "byte_idx b = unat (drop_bit 3 b)"

definition byte_bit :: "8 word \<Rightarrow> 8 word" where
  "byte_bit b = push_bit (unat (b AND 7)) 1"

fun entropy_loop :: "8 word list \<Rightarrow> int \<Rightarrow> string \<Rightarrow> bool" where
  "entropy_loop seen uniqueCount [] = True"
| "entropy_loop seen uniqueCount (c # content) =
     (let b = of_char c; idx = byte_idx b; bt = byte_bit b
      in if seen ! idx AND bt = 0
         then (if uniqueCount + 1 > 30 then False
               else entropy_loop (seen[idx := seen ! idx OR bt]) (uniqueCount + 1) content)
         else entropy_loop seen uniqueCount content)"

definition shouldSkipEntropy :: "string \<Rightarrow> bool" where
  "shouldSkipEntropy content =
     (if len content < 50 then True else entropy_loop (replicate 32 0) 0 (take 500 content))"

fun perplexity_loop :: "int \<Rightarrow> string \<Rightarrow> bool" where
  "perplexity_loop nlCount [] = True"
| "perplexity_loop nlCount (c # content) =
     (if c = nl then (if nlCount + 1 \<ge> 5 then False else perplexity_loop (nlCount + 1) content)
      else perplexity_loop nlCount content)"

definition shouldSkipPerplexity :: "string \<Rightarrow> bool" where
  "shouldSkipPerplexity content = perplexity_loop 0 content"

definition shouldSkipQueryDependent :: "PipelineCoordinator \<Rightarrow> bool" where
  "shouldSkipQueryDependent p \<longleftrightarrow> cfg_QueryIntent (pc_config p) = []"

definition ascii_space :: "char \<Rightarrow> bool" where
  "ascii_space c \<longleftrightarrow> c = CHR '' '' \<or> c = CHR 0x09 \<or> c = CHR 0x0A \<or> c = CHR 0x0D"

fun ngram_loop :: "int \<Rightarrow> bool \<Rightarrow> string \<Rightarrow> bool" where
  "ngram_loop wordCount inWord [] = True"
| "ngram_loop wordCount inWord (c # content) =
     (if ascii_space c then ngram_loop wordCount False content
      else if \<not> inWord
           then (if wordCount + 1 \<ge> 20 then False else ngram_loop (wordCount + 1) True content)
           else ngram_loop wordCount inWord content)"

definition shouldSkipNgram :: "string \<Rightarrow> bool" where
  "shouldSkipNgram content = (if len content < 200 then True else ngram_loop 0 False content)"

definition conversationMarkers :: "string list" where
  "conversationMarkers = [''User:'', ''Assistant:'', ''AI:'', ''Human:'', [nl, nl], ''>>>'']"

definition shouldSkipCompaction :: "string \<Rightarrow> bool" where
  "shouldSkipCompaction content \<longleftrightarrow> \<not> contains_any content conversationMarkers"

definition shouldSkipH2O :: "(string \<Rightarrow> int) \<Rightarrow> string \<Rightarrow> bool" where
  "shouldSkipH2O est content \<longleftrightarrow> est content < 50"

definition shouldSkipAttentionSink :: "string \<Rightarrow> bool" where
  "shouldSkipAttentionSink content \<longleftrightarrow> int (count_list content nl) < 3"

definition shouldSkipMetaToken :: "string \<Rightarrow> bool" where
  "shouldSkipMetaToken content \<longleftrightarrow> len content < 500"

definition shouldSkipSemanticChunk :: "string \<Rightarrow> bool" where
  "shouldSkipSemanticChunk content \<longleftrightarrow> len content < 300"

definition shouldSkipBudgetDependent :: "PipelineCoordinator \<Rightarrow> bool" where
  "shouldSkipBudgetDependent p \<longleftrightarrow> cfg_Budget (pc_config p) \<le> 0"

section \<open>What the counting gates decide\<close>

lemma byte_idx_div: "byte_idx b = unat b div 8"
  by (simp add: byte_idx_def unat_div_distrib drop_bit_eq_div)

lemma byte_idx_less: "byte_idx b < 32"
  using unsigned_less [of b, where ?'a = nat] by (simp add: byte_idx_div)

lemma byte_low: "unat (b AND 7) = unat (b :: 8 word) mod 8"
proof -
  have "b AND 7 = b mod 8" using take_bit_eq_mask [of 3 b] take_bit_eq_mod [of 3 b] by (simp add: mask_eq_exp_minus_1)
  then show ?thesis by (simp add: unat_mod_distrib)
qed

lemma byte_eq_iff: "a = b \<longleftrightarrow> byte_idx a = byte_idx b \<and> unat (a AND 7) = unat (b AND 7)"
proof -
  have "unat a = unat b" if "unat a div 8 = unat b div 8" "unat a mod 8 = unat b mod 8"
    using that by (metis div_mult_mod_eq)
  then show ?thesis by (auto simp: byte_idx_div byte_low word_unat_eq_iff)
qed

lemma byte_bit_iff: "bit (byte_bit b) n \<longleftrightarrow> n = unat (b AND 7)"
proof -
  have "unat (b AND 7) < 8" by (simp add: byte_low)
  then show ?thesis by (auto simp: byte_bit_def push_bit_eq_mult bit_exp_iff)
qed

lemma byte_bit_test: "w AND byte_bit b = 0 \<longleftrightarrow> \<not> bit w (unat (b AND 7))"
proof -
  have "unat (b AND 7) < 8" by (simp add: byte_low)
  then show ?thesis by (auto simp: bit_eq_iff [of "w AND byte_bit b"] bit_and_iff byte_bit_iff)
qed

lemma byte_bit_set: "bit (w OR byte_bit b) n \<longleftrightarrow> bit w n \<or> n = unat (b AND 7)"
  by (simp add: bit_or_iff byte_bit_iff)

lemma of_char_byte_inj: "(of_char a :: 8 word) = of_char b \<longleftrightarrow> a = b"
proof -
  have "unat (of_char c :: 8 word) = of_char c" for c
  proof -
    have "(of_char c :: 8 word) = of_nat (of_char c)" by (rule of_nat_of_char [symmetric])
    then show ?thesis using nat_of_char_less_256 [of c] by (simp add: unat_of_nat)
  qed
  then show ?thesis by (metis of_char_eq_iff)
qed
text \<open>The bit set after the bytes of a set have been seen.\<close>

definition seen_inv :: "8 word list \<Rightarrow> char set \<Rightarrow> bool" where
  "seen_inv seen S \<longleftrightarrow> length seen = 32 \<and>
     (\<forall>c. bit (seen ! byte_idx (of_char c)) (unat (of_char c AND (7 :: 8 word))) \<longleftrightarrow> c \<in> S)"

lemma seen_inv_empty: "seen_inv (replicate 32 0) {}"
  by (simp add: seen_inv_def byte_idx_less)

lemma seen_inv_test:
  "seen_inv seen S \<Longrightarrow> seen ! byte_idx (of_char c) AND byte_bit (of_char c) = 0 \<longleftrightarrow> c \<notin> S"
  by (simp add: seen_inv_def byte_bit_test)

lemma seen_inv_insert:
  assumes "seen_inv seen S"
  shows "seen_inv (seen[byte_idx (of_char c) := seen ! byte_idx (of_char c) OR byte_bit (of_char c)]) (insert c S)"
proof -
  let ?i = "byte_idx (of_char c)"
  have "bit (seen[?i := seen ! ?i OR byte_bit (of_char c)] ! byte_idx (of_char d)) (unat (of_char d AND (7 :: 8 word)))
      \<longleftrightarrow> d \<in> insert c S" for d
  proof (cases "byte_idx (of_char d) = ?i")
    case True
    then have "(unat (of_char d AND (7 :: 8 word)) = unat (of_char c AND (7 :: 8 word))) \<longleftrightarrow> d = c"
      by (metis byte_eq_iff of_char_byte_inj)
    moreover have "bit (seen ! ?i) (unat (of_char d AND (7 :: 8 word))) \<longleftrightarrow> d \<in> S"
      using True assms unfolding seen_inv_def by metis
    ultimately show ?thesis
      using True assms byte_idx_less [of "of_char c"] by (simp add: seen_inv_def byte_bit_set) blast
  next
    case False
    then have "d \<noteq> c" by auto
    with False assms show ?thesis by (simp add: seen_inv_def)
  qed
  with assms show ?thesis by (simp add: seen_inv_def)
qed

lemma entropy_loop_iff:
  assumes "seen_inv seen S" "finite S" "card S \<le> 30"
  shows "entropy_loop seen (int (card S)) cs \<longleftrightarrow> card (S \<union> set cs) \<le> 30"
  using assms
proof (induction cs arbitrary: seen S)
  case (Cons c cs)
  show ?case
  proof (cases "c \<in> S")
    case True
    then have "S \<union> set (c # cs) = S \<union> set cs" by auto
    with True Cons show ?thesis by (simp add: Let_def seen_inv_test [OF Cons.prems(1)])
  next
    case False
    have card: "card (insert c S) = Suc (card S)" using False Cons.prems(2) by simp
    have mono: "card (insert c S) \<le> card (S \<union> set (c # cs))" using Cons.prems(2) by (intro card_mono) auto
    show ?thesis
    proof (cases "card S = 30")
      case True
      then show ?thesis using False mono card by (simp add: Let_def seen_inv_test [OF Cons.prems(1)])
    next
      case small: False
      have "insert c S \<union> set cs = S \<union> set (c # cs)" by auto
      moreover have "int (card S) + 1 = int (card (insert c S))" using card by simp
      ultimately show ?thesis
        using Cons.IH [OF seen_inv_insert [OF Cons.prems(1)], of c] False small Cons.prems card
        by (simp add: Let_def seen_inv_test [OF Cons.prems(1)] add.commute del: Un_insert_left)
    qed
  qed
qed simp

lemma perplexity_loop_iff:
  "n < 5 \<Longrightarrow> perplexity_loop n s \<longleftrightarrow> n + int (count_list s nl) < 5"
proof (induction s arbitrary: n)
  case (Cons c s)
  show ?case
  proof (cases "c = nl \<and> n + 1 < 5")
    case True
    then show ?thesis using Cons.IH [of "n + 1"] by auto
  next
    case False
    then show ?thesis using Cons by auto
  qed
qed simp

text \<open>The words of a text: how often a non-blank byte follows a blank one, or starts the text.\<close>

fun word_starts :: "bool \<Rightarrow> string \<Rightarrow> int" where
  "word_starts inWord [] = 0"
| "word_starts inWord (c # s) =
     (if ascii_space c then word_starts False s
      else (if inWord then 0 else 1) + word_starts True s)"

lemma word_starts_nonneg: "0 \<le> word_starts b s"
  by (induction s arbitrary: b) auto

lemma ngram_loop_iff: "n < 20 \<Longrightarrow> ngram_loop n b s \<longleftrightarrow> n + word_starts b s < 20"
proof (induction s arbitrary: n b)
  case (Cons c s)
  have nonneg: "0 \<le> word_starts True s" by (rule word_starts_nonneg)
  show ?case
  proof (cases "ascii_space c \<or> b")
    case True
    then show ?thesis using Cons.IH [of n] Cons.prems by auto
  next
    case False
    then show ?thesis using Cons.IH [of "n + 1" True] Cons.prems nonneg by auto
  qed
qed simp

section \<open>Properties\<close>

text \<open>
  The entropy gate, which marks bytes in a 32-byte bit set and stops at the thirty-first
  new one, skips the layer exactly when the text has fewer than 50 bytes or its first 500
  bytes have at most 30 different values.
\<close>

theorem shouldSkipEntropy_counts_distinct:
  "shouldSkipEntropy content \<longleftrightarrow> length content < 50 \<or> card (set (take 500 content)) \<le> 30"
  using entropy_loop_iff [OF seen_inv_empty] by (auto simp: shouldSkipEntropy_def)

text \<open>
  The gates of the perplexity and n-gram layers, loops with early returns, are threshold
  tests: fewer than five newlines; fewer than 200 bytes or fewer than 20 words.
\<close>

theorem counting_gates:
  "(shouldSkipPerplexity content \<longleftrightarrow> count_list content nl < 5) \<and>
   (shouldSkipNgram content \<longleftrightarrow> length content < 200 \<or> word_starts False content < 20)"
  by (auto simp: shouldSkipPerplexity_def shouldSkipNgram_def perplexity_loop_iff ngram_loop_iff)

end
