(* ===== verification/Pipeline.thy ===== *)
theory Pipeline
  imports Pipeline_Gates "HOL-Library.Sublist" "HOL-Library.Monad_Syntax"
begin

text \<open>
  The run of the pipeline (\<^verbatim>\<open>internal/filter/pipeline_process.go\<close> and the helpers of
  \<^verbatim>\<open>pipeline_gates.go\<close> that change the statistics).

  A run is a value of an option type: \<open>None\<close> is the panic of an index out of range in
  \<^verbatim>\<open>p.layers\<close> or of a call through a nil filter. A group of layers is a list of stages,
  each the condition of its \<^verbatim>\<open>if\<close> and the layer it runs, in the order of the code. The
  argument \<open>est\<close> is the token estimate, \<open>lower\<close> is \<^verbatim>\<open>strings.ToLower\<close>.
\<close>

section \<open>The stages\<close>

definition recordStat :: "string \<Rightarrow> int \<Rightarrow> PipelineStats \<Rightarrow> PipelineStats" where
  "recordStat name saved stats =
     stats\<lparr>LayerStats := (LayerStats stats)(name \<mapsto> \<lparr>TokensSaved = saved, Duration = 0\<rparr>)\<rparr>"

definition processLayer ::
  "PipelineCoordinator \<Rightarrow> filterLayer \<Rightarrow> string \<Rightarrow> PipelineStats \<Rightarrow> (string \<times> PipelineStats) option" where
  "processLayer p layer input stats =
     (case fst layer of None \<Rightarrow> None
      | Some f \<Rightarrow>
          (let (output, saved) = filter_apply f input (cfg_Mode (pc_config p));
               stats = recordStat (snd layer) saved stats
           in Some (output, stats\<lparr>runningSaved := runningSaved stats + saved\<rparr>)))"

definition layerAt :: "PipelineCoordinator \<Rightarrow> nat \<Rightarrow> filterLayer option" where
  "layerAt p i = (if i < length (pc_layers p) then Some (pc_layers p ! i) else None)"

type_synonym stage = "(string \<Rightarrow> bool) \<times> filterLayer option"

definition runStage ::
  "PipelineCoordinator \<Rightarrow> stage \<Rightarrow> string \<Rightarrow> PipelineStats \<Rightarrow> (string \<times> PipelineStats) option" where
  "runStage p stg output stats =
     (if fst stg output then snd stg \<bind> (\<lambda>layer. processLayer p layer output stats)
      else Some (output, stats))"

text \<open>A group that returns early: the budget is checked after each layer that ran.\<close>

fun runStages ::
  "PipelineCoordinator \<Rightarrow> stage list \<Rightarrow> string \<Rightarrow> PipelineStats \<Rightarrow> (string \<times> PipelineStats) option" where
  "runStages p [] output stats = Some (output, stats)"
| "runStages p (stg # stages) output stats = do {
     (output', stats') \<leftarrow> runStage p stg output stats;
     if fst stg output \<and> shouldEarlyExit p stats' then Some (output', stats')
     else runStages p stages output' stats' }"

definition coreStages :: "PipelineCoordinator \<Rightarrow> stage list" where
  "coreStages p = (let c = pc_config p in
     [(\<lambda>s. pc_entropyFilter p \<noteq> None \<and> cfg_EnableEntropy c \<and> \<not> shouldSkipEntropy s, layerAt p 0),
      (\<lambda>s. pc_perplexityFilter p \<noteq> None \<and> cfg_EnablePerplexity c \<and> \<not> shouldSkipPerplexity s, layerAt p 1),
      (\<lambda>s. pc_goalDrivenFilter p \<noteq> None \<and> cfg_EnableGoalDriven c \<and> \<not> shouldSkipQueryDependent p, layerAt p 2),
      (\<lambda>s. pc_astPreserveFilter p \<noteq> None \<and> cfg_EnableAST c, layerAt p 3),
      (\<lambda>s. pc_contrastiveFilter p \<noteq> None \<and> cfg_EnableContrastive c \<and> \<not> shouldSkipQueryDependent p, layerAt p 4),
      (\<lambda>s. pc_ngramAbbreviator p \<noteq> None \<and> \<not> shouldSkipNgram s, layerAt p 5),
      (\<lambda>s. pc_evaluatorHeadsFilter p \<noteq> None \<and> cfg_EnableEvaluator c, layerAt p 6),
      (\<lambda>s. pc_gistFilter p \<noteq> None \<and> cfg_EnableGist c, layerAt p 7),
      (\<lambda>s. pc_hierarchicalSummaryFilter p \<noteq> None \<and> cfg_EnableHierarchical c, layerAt p 8),
      (\<lambda>s. pc_llmFilter p \<noteq> None, layerAt p 9)])"

definition semanticStages :: "(string \<Rightarrow> int) \<Rightarrow> PipelineCoordinator \<Rightarrow> stage list" where
  "semanticStages est p =
     [(\<lambda>s. pc_compactionLayer p \<noteq> None \<and> \<not> shouldSkipCompaction s, layerAt p 10),
      (\<lambda>s. pc_attributionFilter p \<noteq> None, layerAt p 11),
      (\<lambda>s. pc_h2oFilter p \<noteq> None \<and> \<not> shouldSkipH2O est s, layerAt p 12),
      (\<lambda>s. pc_attentionSinkFilter p \<noteq> None \<and> \<not> shouldSkipAttentionSink s, layerAt p 13),
      (\<lambda>s. pc_metaTokenFilter p \<noteq> None \<and> \<not> shouldSkipMetaToken s, layerAt p 14),
      (\<lambda>s. pc_semanticChunkFilter p \<noteq> None \<and> \<not> shouldSkipSemanticChunk s, layerAt p 15),
      (\<lambda>s. pc_sketchStoreFilter p \<noteq> None \<and> \<not> shouldSkipBudgetDependent p, layerAt p 16),
      (\<lambda>s. pc_lazyPrunerFilter p \<noteq> None \<and> \<not> shouldSkipBudgetDependent p, layerAt p 17),
      (\<lambda>s. pc_semanticAnchorFilter p \<noteq> None, layerAt p 18),
      (\<lambda>s. pc_agentMemoryFilter p \<noteq> None, layerAt p 19)]"

definition newStages :: "PipelineCoordinator \<Rightarrow> stage list" where
  "newStages p =
     [(\<lambda>s. pc_symbolicCompressFilter p \<noteq> None, Some (pc_symbolicCompressFilter p, ''30_symbolic_compress'')),
      (\<lambda>s. pc_phraseGroupingFilter p \<noteq> None, Some (pc_phraseGroupingFilter p, ''31_phrase_grouping'')),
      (\<lambda>s. pc_numericalQuantizer p \<noteq> None, Some (pc_numericalQuantizer p, ''32_numerical_quant'')),
      (\<lambda>s. pc_dynamicRatioFilter p \<noteq> None, Some (pc_dynamicRatioFilter p, ''33_dynamic_ratio''))]"

definition phase2Stages :: "PipelineCoordinator \<Rightarrow> stage list" where
  "phase2Stages p =
     [(\<lambda>s. pc_hypernymCompressor p \<noteq> None, Some (pc_hypernymCompressor p, ''34_hypernym'')),
      (\<lambda>s. pc_semanticCacheFilter p \<noteq> None, Some (pc_semanticCacheFilter p, ''35_semantic_cache'')),
      (\<lambda>s. pc_scopeFilter p \<noteq> None, Some (pc_scopeFilter p, ''36_scope'')),
      (\<lambda>s. pc_kvzipFilter p \<noteq> None, Some (pc_kvzipFilter p, ''37_kvzip''))]"

definition tfidfStage :: "PipelineCoordinator \<Rightarrow> stage" where
  "tfidfStage p = (\<lambda>s. pc_tfidfFilter p \<noteq> None, Some (pc_tfidfFilter p, ''0_tfidf''))"

definition questionStage :: "PipelineCoordinator \<Rightarrow> stage" where
  "questionStage p = (\<lambda>s. pc_questionAwareFilter p \<noteq> None \<and> \<not> shouldSkipQueryDependent p,
     Some (pc_questionAwareFilter p, ''38_question_aware''))"

definition densityStage :: "PipelineCoordinator \<Rightarrow> stage" where
  "densityStage p = (\<lambda>s. pc_densityAdaptiveFilter p \<noteq> None \<and> \<not> shouldSkipSemanticChunk s,
     Some (pc_densityAdaptiveFilter p, ''39_density_adaptive''))"

section \<open>The groups of layers\<close>

definition tomlStage :: "PipelineCoordinator \<Rightarrow> string \<Rightarrow> PipelineStats \<Rightarrow> string \<times> PipelineStats \<times> bool" where
  "tomlStage p output stats =
     (case pc_tomlFilterWrapper p of
        None \<Rightarrow> (output, stats, False)
      | Some f \<Rightarrow>
          if \<not> cfg_EnableTOMLFilter (pc_config p) then (output, stats, False)
          else (let (filtered, saved) = filter_apply f output ModeMinimal
                in if saved > 0
                   then (let stats = recordStat ''0_toml_filter'' saved stats;
                             stats = stats\<lparr>TotalSaved := TotalSaved stats + saved\<rparr>
                         in (filtered, stats, shouldEarlyExit p stats))
                   else (output, stats, False)))"

definition processPreFilters ::
  "PipelineCoordinator \<Rightarrow> string \<Rightarrow> PipelineStats \<Rightarrow> (string \<times> PipelineStats) option" where
  "processPreFilters p output stats =
     (let (output, stats, exit) = tomlStage p output stats
      in if exit then Some (output, stats) else runStage p (tfidfStage p) output stats)"

definition processCoreLayers ::
  "PipelineCoordinator \<Rightarrow> string \<Rightarrow> PipelineStats \<Rightarrow> (string \<times> PipelineStats) option" where
  "processCoreLayers p = runStages p (coreStages p)"

definition processSemanticLayers ::
  "(string \<Rightarrow> int) \<Rightarrow> PipelineCoordinator \<Rightarrow> string \<Rightarrow> PipelineStats \<Rightarrow> (string \<times> PipelineStats) option" where
  "processSemanticLayers est p = runStages p (semanticStages est p)"

definition processNewLayers ::
  "PipelineCoordinator \<Rightarrow> string \<Rightarrow> PipelineStats \<Rightarrow> (string \<times> PipelineStats) option" where
  "processNewLayers p = runStages p (newStages p)"

definition processPhase2Layers ::
  "PipelineCoordinator \<Rightarrow> string \<Rightarrow> PipelineStats \<Rightarrow> (string \<times> PipelineStats) option" where
  "processPhase2Layers p = runStages p (phase2Stages p)"

definition processRecoveryLayers ::
  "PipelineCoordinator \<Rightarrow> string \<Rightarrow> PipelineStats \<Rightarrow> (string \<times> PipelineStats) option" where
  "processRecoveryLayers p output stats = do {
     (output, stats) \<leftarrow> runStage p (questionStage p) output stats;
     runStage p (densityStage p) output stats }"

definition optional_layer ::
  "PipelineCoordinator \<Rightarrow> Filter option \<Rightarrow> string \<Rightarrow> string \<times> PipelineStats \<times> int \<Rightarrow> string \<times> PipelineStats \<times> int" where
  "optional_layer p flt name acc =
     (case acc of (output, stats, totalSaved) \<Rightarrow>
        case flt of
          None \<Rightarrow> (output, stats, totalSaved)
        | Some f \<Rightarrow>
            (let (filtered, saved) = filter_apply f output (cfg_Mode (pc_config p))
             in (filtered, recordStat name saved stats, totalSaved + saved)))"

definition processBudgetLayer ::
  "PipelineCoordinator \<Rightarrow> string \<Rightarrow> PipelineStats \<Rightarrow> string \<times> PipelineStats" where
  "processBudgetLayer p input stats =
     (let acc = optional_layer p (pc_sessionTracker p) ''10_session'' (input, stats, 0);
          (output, stats, totalSaved) = optional_layer p (pc_budgetEnforcer p) ''10_budget'' acc;
          stats = recordStat ''10_total'' totalSaved stats
      in (output, stats\<lparr>runningSaved := runningSaved stats + totalSaved\<rparr>))"

definition recordFeedback ::
  "(string \<Rightarrow> string) \<Rightarrow> PipelineCoordinator \<Rightarrow> string \<Rightarrow> string \<Rightarrow> PipelineStats \<Rightarrow> PipelineCoordinator" where
  "recordFeedback lower p input output stats =
     (case (pc_feedback p, pc_qualityEstimator p) of
        (Some fb, Some _) \<Rightarrow>
          (let quality = EstimateQuality lower input output
           in p\<lparr>pc_feedback := Some (RecordSignal
                 \<lparr>sig_LayerName = ''pipeline'', sig_QualityScore = quality,
                  sig_CompressionRatio = fdiv (ReductionPercent stats) 100,
                  sig_SuggestedAdjustment = fmul (fsub quality (f64 (8/10))) (f64 (1/2))\<rparr> fb)\<rparr>)
      | _ \<Rightarrow> p)"

definition postCompensate :: "PipelineCoordinator \<Rightarrow> string \<Rightarrow> string \<Rightarrow> string" where
  "postCompensate p input output =
     (case pc_smallKVCompensator p of
        None \<Rightarrow> output
      | Some c \<Rightarrow> Compensate c input output (cfg_Mode (pc_config p)))"

definition finalizeStats :: "(string \<Rightarrow> int) \<Rightarrow> PipelineStats \<Rightarrow> string \<Rightarrow> PipelineStats" where
  "finalizeStats est stats output =
     (let stats = stats\<lparr>FinalTokens := est output\<rparr>;
          stats = stats\<lparr>TotalSaved := OriginalTokens stats - FinalTokens stats\<rparr>
      in if OriginalTokens stats > 0
         then stats\<lparr>ReductionPercent :=
                fmul (fdiv (of_int64 (TotalSaved stats)) (of_int64 (OriginalTokens stats))) 100\<rparr>
         else stats)"

definition newStats :: "int \<Rightarrow> PipelineStats" where
  "newStats n = \<lparr>OriginalTokens = n, FinalTokens = 0, TotalSaved = 0, ReductionPercent = 0,
     LayerStats = Map.empty, runningSaved = 0, CacheHit = False\<rparr>"

definition Process ::
  "(string \<Rightarrow> int) \<Rightarrow> (string \<Rightarrow> string) \<Rightarrow> PipelineCoordinator \<Rightarrow> string
     \<Rightarrow> (string \<times> PipelineStats \<times> PipelineCoordinator) option" where
  "Process est lower p input = do {
     let stats = newStats (est input);
     (output, stats) \<leftarrow> processPreFilters p input stats;
     if shouldEarlyExit p stats then Some (output, finalizeStats est stats output, p) else do {
     (output, stats) \<leftarrow> processCoreLayers p output stats;
     if shouldEarlyExit p stats then Some (output, finalizeStats est stats output, p) else do {
     (output, stats) \<leftarrow> processSemanticLayers est p output stats;
     if shouldEarlyExit p stats then Some (output, finalizeStats est stats output, p) else do {
     (output, stats) \<leftarrow> processNewLayers p output stats;
     if shouldEarlyExit p stats then Some (output, finalizeStats est stats output, p) else do {
     (output, stats) \<leftarrow> processPhase2Layers p output stats;
     (output, stats) \<leftarrow> processRecoveryLayers p output stats;
     let (output, stats) = processBudgetLayer p output stats;
     let output = postCompensate p input output;
     let p = recordFeedback lower p input output stats;
     Some (output, finalizeStats est stats output, p) }}}}}"


section \<open>An abstract run: a chain of filters\<close>

text \<open>
  What a run does, without gates, early exits and statistics: the layers of a list are taken
  in order, each one skipped or applied to what the ones before it left; the trace has the
  name of each layer applied and what it reported.
\<close>

inductive runs :: "Mode \<Rightarrow> filterLayer list \<Rightarrow> string \<Rightarrow> (string \<times> int) list \<Rightarrow> string \<Rightarrow> bool" for m where
  runs_nil: "runs m [] s [] s"
| runs_skip: "runs m ls s tr t \<Longrightarrow> runs m (l # ls) s tr t"
| runs_apply: "filter_apply f s m = (s', k) \<Longrightarrow> runs m ls s' tr t
    \<Longrightarrow> runs m ((Some f, n) # ls) s ((n, k) # tr) t"

inductive_cases runs_nilE: "runs m [] s tr t"

lemma runs_refl [intro]: "runs m ls s [] s"
  by (induction ls) (auto intro: runs.intros)

lemma runs_append: "runs m xs s tr t \<Longrightarrow> runs m ys t tr' u \<Longrightarrow> runs m (xs @ ys) s (tr @ tr') u"
  by (induction rule: runs.induct) (auto intro: runs.intros)

lemma runs_subseq: "runs m ls s tr t \<Longrightarrow> subseq (map fst tr) (map snd ls)"
  by (induction rule: runs.induct) auto

lemma runs_nil_filters: "runs m ls s tr t \<Longrightarrow> \<forall>l \<in> set ls. fst l = None \<Longrightarrow> t = s \<and> tr = []"
  by (induction rule: runs.induct) auto

definition honest_layers :: "(string \<Rightarrow> int) \<Rightarrow> filterLayer list \<Rightarrow> bool" where
  "honest_layers est ls \<longleftrightarrow> (\<forall>l \<in> set ls. \<forall>f. fst l = Some f \<longrightarrow> honest_filter est (filter_apply f))"

text \<open>With honest filters the reported savings telescope.\<close>

lemma runs_honest:
  "runs m ls s tr t \<Longrightarrow> honest_layers est ls \<Longrightarrow> sum_list (map snd tr) = est s - est t"
proof (induction rule: runs.induct)
  case (runs_apply f s s' k ls tr t n)
  then have "honest_filter est (filter_apply f)" "honest_layers est ls" by (auto simp: honest_layers_def)
  then show ?case using runs_apply honest_filter.honest by fastforce
qed (auto simp: honest_layers_def)

section \<open>The stages refine the abstract run\<close>

definition record_all :: "(string \<times> int) list \<Rightarrow> PipelineStats \<Rightarrow> PipelineStats" where
  "record_all tr st = foldl (\<lambda>st (n, k). (recordStat n k st)\<lparr>runningSaved := runningSaved st + k\<rparr>) st tr"

lemma record_all_simps [simp]:
  "record_all [] st = st"
  "record_all ((n, k) # tr) st = record_all tr ((recordStat n k st)\<lparr>runningSaved := runningSaved st + k\<rparr>)"
  "record_all (tr @ tr') st = record_all tr' (record_all tr st)"
  by (simp_all add: record_all_def)

lemma recordStat_sel [simp]:
  "runningSaved (recordStat n k st) = runningSaved st"
  "OriginalTokens (recordStat n k st) = OriginalTokens st"
  "TotalSaved (recordStat n k st) = TotalSaved st"
  "ReductionPercent (recordStat n k st) = ReductionPercent st"
  "CacheHit (recordStat n k st) = CacheHit st"
  "LayerStats (recordStat n k st) = (LayerStats st)(n \<mapsto> \<lparr>TokensSaved = k, Duration = 0\<rparr>)"
  by (simp_all add: recordStat_def)

lemma record_all_sel [simp]:
  "runningSaved (record_all tr st) = runningSaved st + sum_list (map snd tr)"
  "OriginalTokens (record_all tr st) = OriginalTokens st"
  "TotalSaved (record_all tr st) = TotalSaved st"
  "ReductionPercent (record_all tr st) = ReductionPercent st"
  "CacheHit (record_all tr st) = CacheHit st"
  by (induction tr arbitrary: st) auto

definition stat_of :: "string \<times> int \<Rightarrow> string \<times> LayerStat" where
  "stat_of nk = (fst nk, \<lparr>TokensSaved = snd nk, Duration = 0\<rparr>)"

lemma LayerStats_record_all:
  "LayerStats (record_all tr st) = LayerStats st ++ map_of (rev (map stat_of tr))"
  by (induction tr arbitrary: st) (auto simp: stat_of_def)

lemma dom_stats [simp]: "dom (map_of (rev (map stat_of tr))) = fst ` set tr"
  by (force simp: dom_map_of_conv_image_fst stat_of_def)

lemma dom_record_all [simp]:
  "dom (LayerStats (record_all tr st)) = dom (LayerStats st) \<union> fst ` set tr"
  by (simp add: LayerStats_record_all Un_commute)

text \<open>A result \<open>r\<close> of a group over the layers \<open>ls\<close> is one of the abstract runs.\<close>

definition refines ::
  "PipelineCoordinator \<Rightarrow> filterLayer list \<Rightarrow> string \<Rightarrow> PipelineStats \<Rightarrow> string \<times> PipelineStats \<Rightarrow> bool" where
  "refines p ls s st r \<longleftrightarrow>
     (\<exists>tr. runs (cfg_Mode (pc_config p)) ls s tr (fst r) \<and> snd r = record_all tr st)"

lemma refines_append:
  "refines p xs s st (t, st') \<Longrightarrow> refines p ys t st' r \<Longrightarrow> refines p (xs @ ys) s st r"
  unfolding refines_def by (metis fst_conv record_all_simps(3) runs_append snd_conv)

lemma refines_refl [intro]: "refines p ls s st (s, st)"
  unfolding refines_def using runs_refl by (metis fst_conv record_all_simps(1) snd_conv)

lemma runStage_refines:
  assumes "snd stg = Some l" "runStage p stg s st = Some r"
  shows "refines p [l] s st r"
proof (cases "fst stg s")
  case True
  with assms obtain f n where l: "l = (Some f, n)"
    by (cases l) (auto simp: runStage_def processLayer_def split: option.splits)
  obtain t k where "filter_apply f s (cfg_Mode (pc_config p)) = (t, k)" by fastforce
  moreover from this have "runs (cfg_Mode (pc_config p)) [(Some f, n)] s [(n, k)] t"
    by (rule runs_apply) (rule runs_nil)
  ultimately have "runs (cfg_Mode (pc_config p)) [l] s [(n, k)] (fst r) \<and> snd r = record_all [(n, k)] st"
    using True assms l by (auto simp: runStage_def processLayer_def)
  then show ?thesis unfolding refines_def by blast
next
  case False
  with assms show ?thesis by (auto simp: runStage_def)
qed

lemma runStages_refines:
  "map snd stgs = map Some ls \<Longrightarrow> runStages p stgs s st = Some r \<Longrightarrow> refines p ls s st r"
proof (induction stgs arbitrary: ls s st)
  case (Cons stg stgs)
  then obtain l ls' where ls: "ls = l # ls'" "snd stg = Some l" "map snd stgs = map Some ls'" by (cases ls) auto
  with Cons.prems(2) obtain t st' where st: "runStage p stg s st = Some (t, st')"
    by (auto split: bind_splits)
  have "refines p [l] s st (t, st')" using runStage_refines [OF ls(2) st] .
  moreover have "refines p ls' t st' r"
    using Cons.IH [OF ls(3), of t st'] Cons.prems(2) st by (auto split: if_splits)
  ultimately show ?case using refines_append [of p "[l]" s st t st' ls' r] ls(1) by simp
qed auto

text \<open>A stage whose condition implies that its filter is there does not panic.\<close>

definition stage_safe :: "stage \<Rightarrow> bool" where
  "stage_safe stg \<longleftrightarrow> (\<exists>l. snd stg = Some l \<and> (\<forall>s. fst stg s \<longrightarrow> fst l \<noteq> None))"

lemma runStage_total:
  assumes "stage_safe stg"
  shows "\<exists>t st'. runStage p stg s st = Some (t, st')"
proof (cases "fst stg s")
  case True
  with assms obtain f n where "snd stg = Some (Some f, n)" by (auto simp: stage_safe_def)
  with True show ?thesis
    by (cases "filter_apply f s (cfg_Mode (pc_config p))") (simp add: runStage_def processLayer_def)
qed (simp add: runStage_def)

lemma runStages_total: "list_all stage_safe stgs \<Longrightarrow> \<exists>t st'. runStages p stgs s st = Some (t, st')"
proof (induction stgs arbitrary: s st)
  case (Cons stg stgs)
  then have "stage_safe stg" by simp
  from runStage_total [OF this] obtain t st' where "runStage p stg s st = Some (t, st')" by blast
  with Cons.IH [of t st'] Cons.prems show ?case by simp
qed simp


section \<open>A whole run\<close>

definition new_layers :: "PipelineCoordinator \<Rightarrow> filterLayer list" where
  "new_layers p =
     [(pc_symbolicCompressFilter p, ''30_symbolic_compress''), (pc_phraseGroupingFilter p, ''31_phrase_grouping''),
      (pc_numericalQuantizer p, ''32_numerical_quant''), (pc_dynamicRatioFilter p, ''33_dynamic_ratio'')]"

definition phase2_layers :: "PipelineCoordinator \<Rightarrow> filterLayer list" where
  "phase2_layers p =
     [(pc_hypernymCompressor p, ''34_hypernym''), (pc_semanticCacheFilter p, ''35_semantic_cache''),
      (pc_scopeFilter p, ''36_scope''), (pc_kvzipFilter p, ''37_kvzip'')]"

definition recovery_layers :: "PipelineCoordinator \<Rightarrow> filterLayer list" where
  "recovery_layers p =
     [(pc_questionAwareFilter p, ''38_question_aware''), (pc_densityAdaptiveFilter p, ''39_density_adaptive'')]"

definition gated_layers :: "PipelineCoordinator \<Rightarrow> filterLayer list" where
  "gated_layers p =
     [(pc_tfidfFilter p, ''0_tfidf'')] @ take 10 (pc_layers p) @ take 10 (drop 10 (pc_layers p)) @
     new_layers p @ phase2_layers p @ recovery_layers p"

definition budget_layers :: "PipelineCoordinator \<Rightarrow> filterLayer list" where
  "budget_layers p = [(pc_sessionTracker p, ''10_session''), (pc_budgetEnforcer p, ''10_budget'')]"

lemma stage_layers:
  assumes "layers_built p"
  shows "map snd (coreStages p) = map Some (take 10 (pc_layers p))"
    and "map snd (semanticStages est p) = map Some (take 10 (drop 10 (pc_layers p)))"
  using assms unfolding layers_built_def
  by (simp_all add: coreStages_def semanticStages_def layerAt_def buildLayers_def Let_def)

lemma stages_safe:
  assumes "layers_built p"
  shows "list_all stage_safe (coreStages p)" "list_all stage_safe (semanticStages est p)"
    "list_all stage_safe (newStages p)" "list_all stage_safe (phase2Stages p)"
    "stage_safe (tfidfStage p)" "stage_safe (questionStage p)" "stage_safe (densityStage p)"
  using assms unfolding layers_built_def
  by (simp_all add: coreStages_def semanticStages_def newStages_def phase2Stages_def tfidfStage_def
      questionStage_def densityStage_def stage_safe_def layerAt_def buildLayers_def Let_def)

lemma preFilters_refines:
  assumes "processPreFilters p s st = Some r" "tomlStage p s st = (s0, st0, ex)"
  shows "refines p [(pc_tfidfFilter p, ''0_tfidf'')] s0 st0 r"
  using assms runStage_refines [of "tfidfStage p" "(pc_tfidfFilter p, ''0_tfidf'')" p s0 st0 r]
  by (auto simp: processPreFilters_def tfidfStage_def split: if_splits)

lemma groups_refine:
  assumes "layers_built p"
  shows "processCoreLayers p s st = Some r \<Longrightarrow> refines p (take 10 (pc_layers p)) s st r"
    and "processSemanticLayers est p s st = Some r \<Longrightarrow> refines p (take 10 (drop 10 (pc_layers p))) s st r"
    and "processNewLayers p s st = Some r \<Longrightarrow> refines p (new_layers p) s st r"
    and "processPhase2Layers p s st = Some r \<Longrightarrow> refines p (phase2_layers p) s st r"
  unfolding processCoreLayers_def processSemanticLayers_def processNewLayers_def processPhase2Layers_def
  by (erule runStages_refines [rotated], simp add: stage_layers [OF assms] newStages_def phase2Stages_def new_layers_def phase2_layers_def)+

lemma recovery_refines:
  assumes "processRecoveryLayers p s st = Some r"
  shows "refines p (recovery_layers p) s st r"
proof -
  from assms obtain t st' where q: "runStage p (questionStage p) s st = Some (t, st')"
      and d: "runStage p (densityStage p) t st' = Some r"
    by (auto simp: processRecoveryLayers_def split: bind_splits)
  have "snd (questionStage p) = Some (pc_questionAwareFilter p, ''38_question_aware'')"
    "snd (densityStage p) = Some (pc_densityAdaptiveFilter p, ''39_density_adaptive'')"
    by (simp_all add: questionStage_def densityStage_def)
  then show ?thesis
    using refines_append [OF runStage_refines [OF _ q] runStage_refines [OF _ d]] by (simp add: recovery_layers_def)
qed

lemma budget_refines:
  assumes "processBudgetLayer p s st = (t, st')"
  shows "\<exists>tr. runs (cfg_Mode (pc_config p)) (budget_layers p) s tr t \<and>
    runningSaved st' = runningSaved st + sum_list (map snd tr) \<and> OriginalTokens st' = OriginalTokens st \<and>
    ReductionPercent st' = ReductionPercent st \<and> CacheHit st' = CacheHit st \<and>
    dom (LayerStats st') = insert ''10_total'' (dom (LayerStats st) \<union> fst ` set tr) \<and>
    (\<forall>n. n \<noteq> ''10_total'' \<longrightarrow> LayerStats st' n = (LayerStats st ++ map_of (rev (map stat_of tr))) n)"
proof -
  let ?m = "cfg_Mode (pc_config p)"
  have one: "\<exists>tr. runs ?m [(flt, n)] s tr t \<and> st' = foldl (\<lambda>st (n, k). recordStat n k st) st tr \<and>
      c' = c + sum_list (map snd tr)"
    if "optional_layer p flt n (s, st, c) = (t, st', c')" for flt n s st c t st' c'
  proof (cases flt)
    case None
    with that show ?thesis by (auto simp: optional_layer_def intro!: exI [of _ "[]"])
  next
    case (Some f)
    obtain u k where fk: "filter_apply f s ?m = (u, k)" by fastforce
    then have "runs ?m [(flt, n)] s [(n, k)] u" using Some by (simp add: runs_apply runs_nil)
    with that Some fk show ?thesis by (intro exI [of _ "[(n, k)]"]) (auto simp: optional_layer_def)
  qed
  have sel: "runningSaved (foldl (\<lambda>st (n, k). recordStat n k st) st tr) = runningSaved st"
    "OriginalTokens (foldl (\<lambda>st (n, k). recordStat n k st) st tr) = OriginalTokens st"
    "ReductionPercent (foldl (\<lambda>st (n, k). recordStat n k st) st tr) = ReductionPercent st"
    "CacheHit (foldl (\<lambda>st (n, k). recordStat n k st) st tr) = CacheHit st"
    "dom (LayerStats (foldl (\<lambda>st (n, k). recordStat n k st) st tr)) = dom (LayerStats st) \<union> fst ` set tr"
    "LayerStats (foldl (\<lambda>st (n, k). recordStat n k st) st tr) = LayerStats st ++ map_of (rev (map stat_of tr))" for tr st
    by (induction tr arbitrary: st) (auto simp: stat_of_def)
  obtain u stu c where 1: "optional_layer p (pc_sessionTracker p) ''10_session'' (s, st, 0) = (u, stu, c)"
    by (metis prod_cases3)
  obtain v stv d where 2: "optional_layer p (pc_budgetEnforcer p) ''10_budget'' (u, stu, c) = (v, stv, d)"
    by (metis prod_cases3)
  from one [OF 1] obtain tr1 where tr1: "runs ?m [(pc_sessionTracker p, ''10_session'')] s tr1 u"
    "stu = foldl (\<lambda>st (n, k). recordStat n k st) st tr1" "c = sum_list (map snd tr1)" by auto
  from one [OF 2] obtain tr2 where tr2: "runs ?m [(pc_budgetEnforcer p, ''10_budget'')] u tr2 v"
    "stv = foldl (\<lambda>st (n, k). recordStat n k st) stu tr2" "d = c + sum_list (map snd tr2)" by auto
  have "runs ?m (budget_layers p) s (tr1 @ tr2) v"
    using runs_append [OF tr1(1) tr2(1)] by (simp add: budget_layers_def)
  moreover have "t = v" "st' = (recordStat ''10_total'' d stv)\<lparr>runningSaved := runningSaved stv + d\<rparr>"
    using assms 1 2 by (simp_all add: processBudgetLayer_def)
  ultimately show ?thesis
    using tr1 tr2 by (intro exI [of _ "tr1 @ tr2"]) (simp add: sel image_Un Un_ac)
qed

text \<open>
  How a run ends: after some of the gated layers, because the budget is met, or after the
  budget layer and the compensation.
\<close>

definition stopped ::
  "(string \<Rightarrow> int) \<Rightarrow> PipelineCoordinator \<Rightarrow> string \<Rightarrow> PipelineStats
     \<Rightarrow> string \<times> PipelineStats \<times> PipelineCoordinator \<Rightarrow> bool" where
  "stopped est p mid st r \<longleftrightarrow> shouldEarlyExit p st \<and> r = (mid, finalizeStats est st mid, p)"

definition completed ::
  "(string \<Rightarrow> int) \<Rightarrow> (string \<Rightarrow> string) \<Rightarrow> PipelineCoordinator \<Rightarrow> string \<Rightarrow> string \<Rightarrow> PipelineStats
     \<Rightarrow> string \<times> PipelineStats \<times> PipelineCoordinator \<Rightarrow> bool" where
  "completed est lower p input mid st r \<longleftrightarrow>
     (\<exists>fin st' out. processBudgetLayer p mid st = (fin, st') \<and> out = postCompensate p input fin \<and>
        r = (out, finalizeStats est st' out, recordFeedback lower p input out st'))"

definition outcome ::
  "(string \<Rightarrow> int) \<Rightarrow> (string \<Rightarrow> string) \<Rightarrow> PipelineCoordinator \<Rightarrow> string \<Rightarrow> string \<Rightarrow> PipelineStats
     \<Rightarrow> string \<times> PipelineStats \<times> PipelineCoordinator \<Rightarrow> bool" where
  "outcome est lower p input s0 st0 r \<longleftrightarrow>
     (\<exists>mid st. refines p (gated_layers p) s0 st0 (mid, st) \<and>
        (stopped est p mid st r \<or> completed est lower p input mid st r))"

lemma refines_pad: "refines p xs s st r \<Longrightarrow> refines p (xs @ ys) s st r"
  using refines_append [of p xs s st "fst r" "snd r" ys r] refines_refl [of p ys "fst r" "snd r"] by simp

text \<open>The groups with a budget check after each, as a recursion over their list.\<close>

type_synonym group = "string \<Rightarrow> PipelineStats \<Rightarrow> (string \<times> PipelineStats) option"

fun runGroups where
  "runGroups est p [] k s st = k s st"
| "runGroups est p (g # gs) k s st = do {
     (s', st') \<leftarrow> g s st;
     if shouldEarlyExit p st' then Some (s', finalizeStats est st' s', p) else runGroups est p gs k s' st' }"

definition finish where
  "finish est lower p input s st = do {
     (s, st) \<leftarrow> processPhase2Layers p s st;
     (s, st) \<leftarrow> processRecoveryLayers p s st;
     let (s, st) = processBudgetLayer p s st;
     let out = postCompensate p input s;
     Some (out, finalizeStats est st out, recordFeedback lower p input out st) }"

lemma Process_groups:
  "Process est lower p input =
     runGroups est p [processPreFilters p, processCoreLayers p, processSemanticLayers est p, processNewLayers p]
       (finish est lower p input) input (newStats (est input))"
  unfolding Process_def finish_def runGroups.simps Let_def by (rule refl)

definition group_refines :: "PipelineCoordinator \<Rightarrow> group \<Rightarrow> filterLayer list \<Rightarrow> bool" where
  "group_refines p g ls \<longleftrightarrow> (\<forall>s st r. g s st = Some r \<longrightarrow> refines p ls s st r)"

lemma runGroups_refines:
  assumes "list_all2 (group_refines p) gs lss" "runGroups est p gs k s st = Some r"
  shows "\<exists>mid st'. refines p (concat lss) s st (mid, st') \<and> (stopped est p mid st' r \<or> k mid st' = Some r)"
  using assms
proof (induction gs lss arbitrary: s st rule: list_all2_induct)
  case Nil
  then show ?case by fastforce
next
  case (Cons g gs ls lss)
  from Cons.prems obtain t st' where g: "g s st = Some (t, st')" by (auto split: bind_splits)
  with Cons.hyps have t: "refines p ls s st (t, st')" by (auto simp: group_refines_def)
  show ?case
  proof (cases "shouldEarlyExit p st'")
    case True
    with Cons.prems g refines_pad [OF t] show ?thesis by (auto simp: stopped_def)
  next
    case False
    with Cons.IH [of t st'] Cons.prems g refines_append [OF t] show ?thesis by simp blast
  qed
qed

lemma finish_completed:
  assumes "finish est lower p input s st = Some r" "layers_built p"
  shows "\<exists>mid st'. refines p (phase2_layers p @ recovery_layers p) s st (mid, st') \<and> completed est lower p input mid st' r"
proof -
  from assms obtain e se f sf where e: "processPhase2Layers p s st = Some (e, se)"
    and f: "processRecoveryLayers p e se = Some (f, sf)"
    by (auto simp: finish_def split: bind_splits)
  then have "completed est lower p input f sf r"
    using assms by (auto simp: finish_def completed_def Let_def split: prod.splits)
  with refines_append [OF groups_refine(4) [OF assms(2) e] recovery_refines [OF f]]
  show ?thesis by blast
qed

lemma Process_outcome:
  assumes "layers_built p" "Process est lower p input = Some r"
    "tomlStage p input (newStats (est input)) = (s0, st0, ex)"
  shows "outcome est lower p input s0 st0 r"
proof -
  let ?k = "finish est lower p input" and ?gs = "[processCoreLayers p, processSemanticLayers est p, processNewLayers p]"
  let ?tf = "[(pc_tfidfFilter p, ''0_tfidf'')]"
  obtain lss where lss: "list_all2 (group_refines p) ?gs lss"
    "gated_layers p = ?tf @ concat lss @ phase2_layers p @ recovery_layers p"
    using groups_refine [OF assms(1)]
    by (intro that [of "[take 10 (pc_layers p), take 10 (drop 10 (pc_layers p)), new_layers p]"])
      (simp_all add: group_refines_def gated_layers_def)
  from assms(2) obtain a sa where a: "processPreFilters p input (newStats (est input)) = Some (a, sa)"
    by (auto simp: Process_groups split: bind_splits)
  note ra = preFilters_refines [OF a assms(3)]
  show ?thesis
  proof (cases "shouldEarlyExit p sa")
    case True
    with assms(2) a have "stopped est p a sa r" by (simp add: Process_groups stopped_def)
    then show ?thesis using refines_pad [OF ra] unfolding outcome_def lss(2) by blast
  next
    case False
    with assms(2) a have "runGroups est p ?gs ?k a sa = Some r" by (simp add: Process_groups)
    from runGroups_refines [OF lss(1) this] obtain b sb where
      rb: "refines p (concat lss) a sa (b, sb)" and "stopped est p b sb r \<or> ?k b sb = Some r" by blast
    then consider "stopped est p b sb r" | "?k b sb = Some r" by blast
    then show ?thesis
    proof cases
      case 1
      then show ?thesis using refines_append [OF ra refines_pad [OF rb]] unfolding outcome_def lss(2) by blast
    next
      case 2
      from finish_completed [OF 2 assms(1)] show ?thesis
        using refines_append [OF ra refines_append [OF rb]] unfolding outcome_def lss(2) by blast
    qed
  qed
qed

section \<open>Runs do not panic\<close>

definition group_total :: "group \<Rightarrow> bool" where
  "group_total g \<longleftrightarrow> (\<forall>s st. \<exists>t st'. g s st = Some (t, st'))"

lemma groups_total:
  assumes "layers_built p"
  shows "group_total (processPreFilters p)" "group_total (processCoreLayers p)"
    "group_total (processSemanticLayers est p)" "group_total (processNewLayers p)"
    "group_total (processPhase2Layers p)" "group_total (processRecoveryLayers p)"
proof -
  note safe = stages_safe [OF assms]
  show "group_total (processPreFilters p)"
    using runStage_total [OF safe(5)] by (auto simp: group_total_def processPreFilters_def split: prod.splits)
  show "group_total (processRecoveryLayers p)"
    unfolding group_total_def processRecoveryLayers_def
  proof (intro allI)
    fix s st
    obtain t st' where "runStage p (questionStage p) s st = Some (t, st')" using runStage_total [OF safe(6)] by blast
    then show "\<exists>t st'. runStage p (questionStage p) s st \<bind> (\<lambda>(s, st). runStage p (densityStage p) s st) = Some (t, st')"
      using runStage_total [OF safe(7), of p t st'] by simp
  qed
qed (use runStages_total [OF stages_safe(1) [OF assms]] runStages_total [OF stages_safe(2) [OF assms]]
      runStages_total [OF stages_safe(3) [OF assms]] runStages_total [OF stages_safe(4) [OF assms]] in
    \<open>simp_all add: group_total_def processCoreLayers_def processSemanticLayers_def processNewLayers_def processPhase2Layers_def\<close>)

lemma runGroups_total:
  assumes "list_all group_total gs" "\<And>s st. \<exists>r. k s st = Some r"
  shows "\<exists>r. runGroups est p gs k s st = Some r"
  using assms(1)
proof (induction gs arbitrary: s st)
  case (Cons g gs)
  then obtain t st' where "g s st = Some (t, st')" by (auto simp: group_total_def) blast
  with Cons show ?case by simp
next
  case Nil
  then show ?case using assms(2) [of s st] by (simp only: runGroups.simps)
qed

lemma finish_total:
  assumes "layers_built p"
  shows "\<exists>r. finish est lower p input s st = Some r"
proof -
  from groups_total(5) [OF assms] obtain a sa where a: "processPhase2Layers p s st = Some (a, sa)"
    unfolding group_total_def by blast
  from groups_total(6) [OF assms] obtain b sb where "processRecoveryLayers p a sa = Some (b, sb)"
    unfolding group_total_def by blast
  with a show ?thesis by (simp add: finish_def Let_def split: prod.splits)
qed

lemma Process_total: "layers_built p \<Longrightarrow> \<exists>r. Process est lower p input = Some r"
  unfolding Process_groups by (intro runGroups_total finish_total) (simp_all add: groups_total)

text \<open>
  The coordinators a client can hold: built, given a TOML filter, used. Some filters keep state
  from one run to the next; what they do at the next run is that of the filters of another
  library, so between runs the library may be exchanged.
\<close>

definition with_filters :: "(string \<Rightarrow> int) \<Rightarrow> FilterLib \<Rightarrow> PipelineCoordinator \<Rightarrow> PipelineCoordinator" where
  "with_filters est L p = (NewPipelineCoordinator est L (pc_config p))
     \<lparr>pc_feedback := pc_feedback p, pc_tomlFilterWrapper := pc_tomlFilterWrapper p, pc_tomlFilterName := pc_tomlFilterName p\<rparr>"

inductive coordinator_reachable ::
  "(string \<Rightarrow> int) \<Rightarrow> (string \<Rightarrow> string) \<Rightarrow> PipelineConfig \<Rightarrow> PipelineCoordinator \<Rightarrow> bool"
  for est lower cfg where
  reach_new: "coordinator_reachable est lower cfg (NewPipelineCoordinator est L cfg)"
| reach_toml: "coordinator_reachable est lower cfg p \<Longrightarrow> coordinator_reachable est lower cfg (SetTOMLFilter f n p)"
| reach_process: "coordinator_reachable est lower cfg p \<Longrightarrow> Process est lower p input = Some (out, st, p')
    \<Longrightarrow> coordinator_reachable est lower cfg p'"
| reach_filters: "coordinator_reachable est lower cfg p \<Longrightarrow> coordinator_reachable est lower cfg (with_filters est L p)"

lemma recordFeedback_update: "\<exists>fb. recordFeedback lower p input out st = p\<lparr>pc_feedback := fb\<rparr>"
proof (cases "pc_feedback p = None \<or> pc_qualityEstimator p = None")
  case True
  then have "recordFeedback lower p input out st = p\<lparr>pc_feedback := pc_feedback p\<rparr>"
    by (auto simp: recordFeedback_def split: option.splits)
  then show ?thesis by blast
next
  case False
  then show ?thesis unfolding recordFeedback_def by (auto simp: Let_def)
qed

lemma Process_coordinator:
  assumes "layers_built p" "Process est lower p input = Some (out, st, p')"
  shows "\<exists>fb. p' = p\<lparr>pc_feedback := fb\<rparr>"
proof -
  obtain s0 st0 ex where "tomlStage p input (newStats (est input)) = (s0, st0, ex)" by (metis prod_cases3)
  from Process_outcome [OF assms this] have "p' = p \<or> (\<exists>st. p' = recordFeedback lower p input out st)"
    by (auto simp: outcome_def stopped_def completed_def)
  moreover have "p = p\<lparr>pc_feedback := pc_feedback p\<rparr>" by simp
  ultimately show ?thesis using recordFeedback_update by metis
qed

text \<open>Nothing but the filters' state, the TOML filter and the feedback ever changes.\<close>

lemma reachable_shape:
  "coordinator_reachable est lower cfg p \<Longrightarrow>
    \<exists>L f n fb. p = (NewPipelineCoordinator est L cfg)\<lparr>pc_feedback := fb, pc_tomlFilterWrapper := f, pc_tomlFilterName := n\<rparr>"
proof (induction rule: coordinator_reachable.induct)
  case (reach_new L)
  let ?p = "NewPipelineCoordinator est L cfg"
  have "?p = ?p\<lparr>pc_feedback := pc_feedback ?p, pc_tomlFilterWrapper := pc_tomlFilterWrapper ?p,
    pc_tomlFilterName := pc_tomlFilterName ?p\<rparr>" by simp
  then show ?case by blast
next
  case (reach_toml p f n)
  then obtain L f' n' fb where "p = (NewPipelineCoordinator est L cfg)
      \<lparr>pc_feedback := fb, pc_tomlFilterWrapper := f', pc_tomlFilterName := n'\<rparr>" by blast
  then have "SetTOMLFilter f n p = (NewPipelineCoordinator est L cfg)
      \<lparr>pc_feedback := fb, pc_tomlFilterWrapper := f, pc_tomlFilterName := n\<rparr>" by (simp add: SetTOMLFilter_def)
  then show ?case by blast
next
  case (reach_process p input out st p')
  then obtain L f n fb where p: "p = (NewPipelineCoordinator est L cfg)
      \<lparr>pc_feedback := fb, pc_tomlFilterWrapper := f, pc_tomlFilterName := n\<rparr>" by blast
  have "layers_built p"
    using layers_built_New unfolding p by (simp add: layers_built_def buildLayers_def)
  from Process_coordinator [OF this reach_process(2)] obtain fb' where "p' = p\<lparr>pc_feedback := fb'\<rparr>" by blast
  then have "p' = (NewPipelineCoordinator est L cfg)
      \<lparr>pc_feedback := fb', pc_tomlFilterWrapper := f, pc_tomlFilterName := n\<rparr>" using p by simp
  then show ?case by blast
next
  case (reach_filters p L)
  then have "pc_config p = cfg" by auto
  then show ?case unfolding with_filters_def by blast
qed

lemma reachable_built [go_inv]:
  assumes "coordinator_reachable est lower cfg p"
  shows "layers_built p"
  using reachable_shape [OF assms] layers_built_New by (auto simp: layers_built_def buildLayers_def)

end
