(* ===== verification/Pipeline_Correct.thy ===== *)
theory Pipeline_Correct
  imports Pipeline
begin

text \<open>
  What a run of the pipeline guarantees, for every coordinator a client can hold: it does not
  panic, its statistics describe what it did, the layers run in order, the bookkeeping of
  savings telescopes, and the budget stops it. The last properties state what the run does
  not do: the defaults of a zero configuration, the savings of a TOML filter, the ratio of the
  feedback signal, the layers that are built and never run.
\<close>

section \<open>Statistics of a run\<close>

lemma finalizeStats_sel [simp]:
  "OriginalTokens (finalizeStats est st out) = OriginalTokens st"
  "FinalTokens (finalizeStats est st out) = est out"
  "TotalSaved (finalizeStats est st out) = OriginalTokens st - est out"
  "LayerStats (finalizeStats est st out) = LayerStats st"
  "runningSaved (finalizeStats est st out) = runningSaved st"
  "CacheHit (finalizeStats est st out) = CacheHit st"
  "ReductionPercent (finalizeStats est st out) =
     (if OriginalTokens st > 0
      then fmul (fdiv (of_int64 (OriginalTokens st - est out)) (of_int64 (OriginalTokens st))) 100
      else ReductionPercent st)"
  by (simp_all add: finalizeStats_def Let_def)

lemma tomlStage_stats:
  assumes "tomlStage p s (newStats n) = (s0, st0, ex)"
  shows "OriginalTokens st0 = n" "runningSaved st0 = 0" "ReductionPercent st0 = 0" "\<not> CacheHit st0"
    "dom (LayerStats st0) \<subseteq> {''0_toml_filter''}"
  using assms by (auto simp: tomlStage_def newStats_def Let_def split: option.splits if_splits prod.splits)

lemma tomlStage_off:
  "pc_tomlFilterWrapper p = None \<or> \<not> cfg_EnableTOMLFilter (pc_config p) \<Longrightarrow> tomlStage p s st = (s, st, False)"
  by (auto simp: tomlStage_def split: option.splits)

text \<open>Everything a run says about itself, for any way it ended. \<open>fin\<close> is the text before the
  compensation.\<close>

lemma outcome_facts:
  assumes "outcome est lower p input s0 st0 (out, st, p')" "ReductionPercent st0 = 0"
  obtains tr ls fin st' where
    "runs (cfg_Mode (pc_config p)) ls s0 tr fin"
    "ls = gated_layers p \<and> out = fin \<and> p' = p \<and> shouldEarlyExit p st' \<or>
     ls = gated_layers p @ budget_layers p \<and> out = postCompensate p input fin \<and>
       p' = recordFeedback lower p input out st'"
    "st = finalizeStats est st' out" "ReductionPercent st' = 0" "CacheHit st' = CacheHit st0"
    "OriginalTokens st' = OriginalTokens st0" "runningSaved st' = runningSaved st0 + sum_list (map snd tr)"
    "fst ` set tr \<subseteq> dom (LayerStats st')"
    "dom (LayerStats st') \<subseteq> dom (LayerStats st0) \<union> fst ` set tr \<union> {''10_total''}"
    "\<forall>n. n \<noteq> ''10_total'' \<longrightarrow> LayerStats st' n = (LayerStats st0 ++ map_of (rev (map stat_of tr))) n"
proof -
  from assms(1) obtain mid stm where m: "refines p (gated_layers p) s0 st0 (mid, stm)"
    "stopped est p mid stm (out, st, p') \<or> completed est lower p input mid stm (out, st, p')"
    unfolding outcome_def by blast
  from m(1) obtain tr where tr: "runs (cfg_Mode (pc_config p)) (gated_layers p) s0 tr mid" "stm = record_all tr st0"
    unfolding refines_def by auto
  from m(2) show ?thesis
  proof
    assume "stopped est p mid stm (out, st, p')"
    with tr assms(2) show ?thesis
      by (intro that [OF tr(1), of stm]) (auto simp: stopped_def LayerStats_record_all)
  next
    assume "completed est lower p input mid stm (out, st, p')"
    then obtain fin st' where c: "processBudgetLayer p mid stm = (fin, st')" "out = postCompensate p input fin"
      "st = finalizeStats est st' out" "p' = recordFeedback lower p input out st'"
      by (auto simp: completed_def)
    from budget_refines [OF c(1)] obtain tb where tb: "runs (cfg_Mode (pc_config p)) (budget_layers p) mid tb fin"
      "runningSaved st' = runningSaved stm + sum_list (map snd tb)" "OriginalTokens st' = OriginalTokens stm"
      "ReductionPercent st' = ReductionPercent stm" "CacheHit st' = CacheHit stm"
      "dom (LayerStats st') = insert ''10_total'' (dom (LayerStats stm) \<union> fst ` set tb)"
      "\<forall>n. n \<noteq> ''10_total'' \<longrightarrow> LayerStats st' n = (LayerStats stm ++ map_of (rev (map stat_of tb))) n"
      by (elim exE conjE)
    show ?thesis
      by (rule that [OF runs_append [OF tr(1) tb(1)], of st']) (simp_all add: c(2,3,4) [symmetric] tb(2-7) tr(2) assms(2) image_Un LayerStats_record_all, blast+)
  qed
qed


text \<open>The same for a run of a reachable coordinator.\<close>

lemma run_facts:
  assumes "coordinator_reachable est lower cfg p" "Process est lower p input = Some (out, st, p')"
  obtains s0 st0 ex tr ls fin st' where
    "tomlStage p input (newStats (est input)) = (s0, st0, ex)"
    "runs (cfg_Mode (pc_config p)) ls s0 tr fin"
    "ls = gated_layers p \<and> out = fin \<and> p' = p \<and> shouldEarlyExit p st' \<or>
     ls = gated_layers p @ budget_layers p \<and> out = postCompensate p input fin \<and>
       p' = recordFeedback lower p input out st'"
    "st = finalizeStats est st' out" "ReductionPercent st' = 0" "\<not> CacheHit st'"
    "OriginalTokens st' = est input" "runningSaved st' = sum_list (map snd tr)"
    "fst ` set tr \<subseteq> dom (LayerStats st')"
    "dom (LayerStats st') \<subseteq> fst ` set tr \<union> {''0_toml_filter'', ''10_total''}"
    "\<forall>n. n \<notin> {''0_toml_filter'', ''10_total''} \<longrightarrow> LayerStats st' n = map_of (rev (map stat_of tr)) n"
proof -
  obtain s0 st0 ex where t: "tomlStage p input (newStats (est input)) = (s0, st0, ex)" by (metis prod_cases3)
  note st0 = tomlStage_stats [OF t]
  note out = Process_outcome [OF reachable_built [OF assms(1)] assms(2) t]
  show ?thesis
  proof (rule outcome_facts [OF out st0(3)], goal_cases)
    case (1 tr ls fin st')
    moreover have "dom (LayerStats st') \<subseteq> fst ` set tr \<union> {''0_toml_filter'', ''10_total''}"
      using 1(9) st0(5) by blast
    moreover have "\<forall>n. n \<notin> {''0_toml_filter'', ''10_total''} \<longrightarrow> LayerStats st' n = map_of (rev (map stat_of tr)) n"
    proof (intro allI impI)
      fix n assume n: "n \<notin> {''0_toml_filter'', ''10_total''}"
      then have "LayerStats st0 n = None" using st0(5) by blast
      then show "LayerStats st' n = map_of (rev (map stat_of tr)) n" using 1(10) n
        by (simp add: map_add_def split: option.split)
    qed
    ultimately show ?case using st0 by (intro that [OF t 1(1,2)]) simp_all
  qed
qed

lemma runs_names: "runs m ls s tr t \<Longrightarrow> fst ` set tr \<subseteq> snd ` set ls"
  by (induction rule: runs.induct) auto

lemma pc_layers_built:
  "layers_built p \<Longrightarrow> take 10 (pc_layers p) @ take 10 (drop 10 (pc_layers p)) =
     [(pc_entropyFilter p, ''1_entropy''), (pc_perplexityFilter p, ''2_perplexity''),
      (pc_goalDrivenFilter p, ''3_goal_driven''), (pc_astPreserveFilter p, ''4_ast_preserve''),
      (pc_contrastiveFilter p, ''5_contrastive''), (pc_ngramAbbreviator p, ''6_ngram''),
      (pc_evaluatorHeadsFilter p, ''7_evaluator''), (pc_gistFilter p, ''8_gist''),
      (pc_hierarchicalSummaryFilter p, ''9_hierarchical''), (pc_llmFilter p, ''10_neural''),
      (pc_compactionLayer p, ''11_compaction''), (pc_attributionFilter p, ''12_attribution''),
      (pc_h2oFilter p, ''13_h2o''), (pc_attentionSinkFilter p, ''14_attention_sink''),
      (pc_metaTokenFilter p, ''15_meta_token''), (pc_semanticChunkFilter p, ''16_semantic_chunk''),
      (pc_sketchStoreFilter p, ''17_sketch_store''), (pc_lazyPrunerFilter p, ''18_lazy_pruner''),
      (pc_semanticAnchorFilter p, ''19_semantic_anchor''), (pc_agentMemoryFilter p, ''20_agent_memory'')]"
  unfolding layers_built_def by (simp add: buildLayers_def)

text \<open>The names under which a run can record a layer, in the order of the run.\<close>

lemma subseq_distinct: "subseq xs ys \<Longrightarrow> distinct ys \<Longrightarrow> distinct xs"
  by (metis distinct_nthsI subseq_conv_nths)

definition run_names :: "string list" where
  "run_names =
     [''0_tfidf'', ''1_entropy'', ''2_perplexity'', ''3_goal_driven'', ''4_ast_preserve'', ''5_contrastive'',
      ''6_ngram'', ''7_evaluator'', ''8_gist'', ''9_hierarchical'', ''10_neural'', ''11_compaction'',
      ''12_attribution'', ''13_h2o'', ''14_attention_sink'', ''15_meta_token'', ''16_semantic_chunk'',
      ''17_sketch_store'', ''18_lazy_pruner'', ''19_semantic_anchor'', ''20_agent_memory'',
      ''30_symbolic_compress'', ''31_phrase_grouping'', ''32_numerical_quant'', ''33_dynamic_ratio'',
      ''34_hypernym'', ''35_semantic_cache'', ''36_scope'', ''37_kvzip'', ''38_question_aware'',
      ''39_density_adaptive'', ''10_session'', ''10_budget'']"

lemma run_names: "layers_built p \<Longrightarrow> map snd (gated_layers p @ budget_layers p) = run_names"
  using arg_cong [OF pc_layers_built, of p "map snd"]
  by (simp add: gated_layers_def new_layers_def phase2_layers_def recovery_layers_def budget_layers_def run_names_def)

lemma gated_names: "layers_built p \<Longrightarrow> subseq (map snd (gated_layers p)) run_names"
  using run_names [of p] by (metis map_append subseq_rev_drop_many subseq_order.order_refl)

lemma map_of_stats:
  assumes "distinct (map fst tr)"
  shows "map_option TokensSaved (map_of (rev (map stat_of tr)) n) = map_of tr n"
proof -
  have "map_of (rev (map stat_of tr)) = map_of (map stat_of tr)"
    using assms by (subst map_of_inject_set) (simp_all add: stat_of_def comp_def rev_map [symmetric])
  moreover have "map_option TokensSaved (map_of (map stat_of tr) n) = map_of tr n"
    by (induction tr) (auto simp: stat_of_def)
  ultimately show ?thesis by simp
qed

section \<open>A library of filters that change nothing\<close>

text \<open>The hypotheses on the filters of a library can be met: every filter of this one returns
  its input, and the layers of a coordinator built from it are honest for any estimate.\<close>

definition noop_filter :: Filter where
  "noop_filter = \<lparr>filter_name = ''noop'', filter_apply = (\<lambda>s m. (s, 0))\<rparr>"

definition noop_lib :: FilterLib where
  "noop_lib =
     \<lparr>lib_NewEntropyFilter = noop_filter, lib_NewPerplexityFilter = noop_filter,
      lib_NewGoalDrivenFilter = (\<lambda>_. noop_filter),
      lib_NewASTPreserveFilter = noop_filter,
      lib_NewContrastiveFilter = (\<lambda>_. noop_filter),
      lib_NewNgramAbbreviator = noop_filter, lib_NewEvaluatorHeadsFilter = noop_filter,
      lib_NewGistFilter = noop_filter, lib_NewHierarchicalSummaryFilter = noop_filter,
      lib_NewSessionTracker = noop_filter, lib_NewLLMAwareFilter = (\<lambda>_. noop_filter),
      lib_NewCompactionLayer = (\<lambda>_. noop_filter),
      lib_AttributionFilter = (\<lambda>_. noop_filter),
      lib_H2OFilter = (\<lambda>_. noop_filter),
      lib_NewMetaTokenFilterWithConfig = (\<lambda>_. noop_filter),
      lib_NewSemanticChunkFilterWithConfig = (\<lambda>_. noop_filter),
      lib_NewSketchStoreFilterWithConfig = (\<lambda>_. noop_filter),
      lib_NewLazyPrunerFilterWithConfig = (\<lambda>_. noop_filter),
      lib_NewSemanticAnchorFilterWithConfig = (\<lambda>_. noop_filter),
      lib_NewAgentMemoryFilterWithConfig = (\<lambda>_. noop_filter),
      lib_QuestionAwareFilter = (\<lambda>_. noop_filter),
      lib_DensityAdaptiveFilter = (\<lambda>_. noop_filter),
      lib_NewTFIDFFilterWithConfig = (\<lambda>_. noop_filter),
      lib_NewSymbolicCompressFilter = noop_filter, lib_NewPhraseGroupingFilter = noop_filter,
      lib_NumericalQuantizer = (\<lambda>_. noop_filter),
      lib_DynamicRatioFilter = (\<lambda>_. noop_filter),
      lib_NewHypernymCompressor = noop_filter, lib_NewSemanticCacheFilter = noop_filter,
      lib_NewScopeFilter = noop_filter, lib_NewKVzipFilter = noop_filter,
      lib_NewSWEzzeFilter = noop_filter, lib_NewMixedDimFilter = noop_filter,
      lib_NewBEAVERFilter = noop_filter, lib_NewPoCFilter = noop_filter,
      lib_NewTokenQuantFilter = noop_filter, lib_NewTokenRetentionFilter = noop_filter,
      lib_NewACONFilter = noop_filter\<rparr>"

definition halving_filter :: Filter where
  "halving_filter = \<lparr>filter_name = ''halving'',
     filter_apply = (\<lambda>s m. (take (length s div 2) s, heuristicTokens s - heuristicTokens (take (length s div 2) s)))\<rparr>"

lemma honest_noop [simp]: "honest_filter est (filter_apply noop_filter)"
  by unfold_locales (simp add: noop_filter_def)

lemma honest_sink [simp]: "honest_filter est (filter_apply (sink_filter est c))"
  using sink.honest_filter_axioms by (simp add: sink_filter_def)

lemma honest_budget [simp]: "honest_filter est (filter_apply (budget_filter est f))"
  using budget.honest_filter_axioms by (simp add: budget_filter_def)

lemma honest_layers_simps [simp]:
  "honest_layers est []"
  "honest_layers est (l # ls) \<longleftrightarrow> (\<forall>f. fst l = Some f \<longrightarrow> honest_filter est (filter_apply f)) \<and> honest_layers est ls"
  "honest_layers est (xs @ ys) \<longleftrightarrow> honest_layers est xs \<and> honest_layers est ys"
  by (auto simp: honest_layers_def)

lemma honest_gated:
  assumes "layers_built p"
  shows "honest_layers est (gated_layers p) \<longleftrightarrow>
    honest_layers est ((pc_tfidfFilter p, ''0_tfidf'') #
      (take 10 (pc_layers p) @ take 10 (drop 10 (pc_layers p))) @ new_layers p @ phase2_layers p @ recovery_layers p)"
  by (simp add: gated_layers_def)

lemma honest_noop_lib: "honest_layers est (gated_layers (NewPipelineCoordinator est noop_lib cfg))"
  unfolding honest_gated [OF layers_built_New] pc_layers_built [OF layers_built_New]
  by (simp add: new_layers_def phase2_layers_def recovery_layers_def when_enabled_def noop_lib_def)

lemma noop_run:
  "\<exists>out stats p'. Process heuristicTokens id (NewPipelineCoordinator heuristicTokens noop_lib cfg) input = Some (out, stats, p')"
  using Process_total [OF layers_built_New, of heuristicTokens id heuristicTokens noop_lib cfg input] by auto

section \<open>A run without a budget\<close>

text \<open>The text a stage leaves, and the stages of a run in order.\<close>

definition stage_text :: "Mode \<Rightarrow> stage \<Rightarrow> string \<Rightarrow> string" where
  "stage_text m stg s =
     (if fst stg s
      then (case snd stg of Some (Some f, _) \<Rightarrow> fst (filter_apply f s m) | _ \<Rightarrow> s)
      else s)"

definition all_stages :: "(string \<Rightarrow> int) \<Rightarrow> PipelineCoordinator \<Rightarrow> stage list" where
  "all_stages est p = tfidfStage p # coreStages p @ semanticStages est p @ newStages p @ phase2Stages p @
     [questionStage p, densityStage p]"

definition run_stage_texts :: "Mode \<Rightarrow> stage list \<Rightarrow> string \<Rightarrow> string" where
  "run_stage_texts m stgs s = fold (stage_text m) stgs s"

lemma closed_stages: "\<forall>stg \<in> set stgs. \<not> fst stg s \<Longrightarrow> run_stage_texts m stgs s = s"
  by (induction stgs) (simp_all add: run_stage_texts_def stage_text_def)

lemma all_stages_append:
  "run_stage_texts m (all_stages est p) s =
     run_stage_texts m [questionStage p, densityStage p] (run_stage_texts m (phase2Stages p)
       (run_stage_texts m (newStages p) (run_stage_texts m (semanticStages est p)
         (run_stage_texts m (coreStages p) (run_stage_texts m [tfidfStage p] s)))))"
  by (simp add: all_stages_def run_stage_texts_def)

lemma runStage_text:
  "runStage p stg s st = Some (t, st') \<Longrightarrow> t = stage_text (cfg_Mode (pc_config p)) stg s"
  by (auto simp: runStage_def stage_text_def processLayer_def Let_def split: option.splits if_splits prod.splits bind_splits)

lemma runStages_text:
  "cfg_Budget (pc_config p) \<le> 0 \<Longrightarrow> runStages p stgs s st = Some (t, st') \<Longrightarrow>
    t = run_stage_texts (cfg_Mode (pc_config p)) stgs s"
proof (induction stgs arbitrary: s st)
  case (Cons stg stgs)
  from Cons.prems(2) obtain u su where u: "runStage p stg s st = Some (u, su)" by (auto split: bind_splits)
  moreover have "\<not> shouldEarlyExit p su" using Cons.prems(1) by (simp add: shouldEarlyExit_def)
  ultimately have "runStages p stgs u su = Some (t, st')" using Cons.prems(2) by simp
  from Cons.IH [OF Cons.prems(1) this] runStage_text [OF u] show ?case by (simp add: run_stage_texts_def)
qed (simp add: run_stage_texts_def)

definition layer_text :: "Mode \<Rightarrow> Filter option \<Rightarrow> string \<Rightarrow> string" where
  "layer_text m flt s = (case flt of None \<Rightarrow> s | Some f \<Rightarrow> fst (filter_apply f s m))"

lemma budgetLayer_text:
  assumes "processBudgetLayer p s st = (t, st')" "pc_budgetEnforcer p = None"
  shows "t = layer_text (cfg_Mode (pc_config p)) (pc_sessionTracker p) s"
  using assms by (auto simp: processBudgetLayer_def optional_layer_def layer_text_def Let_def split: option.splits prod.splits)

lemma finish_text:
  assumes "cfg_Budget (pc_config p) \<le> 0" "pc_budgetEnforcer p = None" "finish est lower p input s st = Some (out, st', p')"
  shows "out = postCompensate p input (layer_text (cfg_Mode (pc_config p)) (pc_sessionTracker p)
    (run_stage_texts (cfg_Mode (pc_config p)) (phase2Stages p @ [questionStage p, densityStage p]) s))"
proof -
  from assms(3) obtain a sa b sb where a: "processPhase2Layers p s st = Some (a, sa)"
      "processRecoveryLayers p a sa = Some (b, sb)" "out = postCompensate p input (fst (processBudgetLayer p b sb))"
    by (auto simp: finish_def Let_def split: bind_splits prod.splits)
  from a(2) obtain c sc where c: "runStage p (questionStage p) a sa = Some (c, sc)" "runStage p (densityStage p) c sc = Some (b, sb)"
    by (auto simp: processRecoveryLayers_def split: bind_splits)
  have "b = run_stage_texts (cfg_Mode (pc_config p)) (phase2Stages p @ [questionStage p, densityStage p]) s"
    using runStages_text [OF assms(1) a(1) [unfolded processPhase2Layers_def]] runStage_text [OF c(1)] runStage_text [OF c(2)]
    by (simp add: run_stage_texts_def)
  then show ?thesis using budgetLayer_text [OF surjective_pairing assms(2)] a(3) by metis
qed

lemma runGroups_text:
  assumes "cfg_Budget (pc_config p) \<le> 0" "runGroups est p gs k s st = Some r" "list_all2 (\<lambda>g stgs. g = runStages p stgs) gs stgss"
  shows "\<exists>st'. k (run_stage_texts (cfg_Mode (pc_config p)) (concat stgss) s) st' = Some r"
  using assms(3,2)
proof (induction gs stgss arbitrary: s st rule: list_all2_induct)
  case Nil
  then show ?case by (auto simp: run_stage_texts_def)
next
  case (Cons g gs stgs stgss)
  from Cons.prems obtain u su where u: "g s st = Some (u, su)" by (auto split: bind_splits)
  moreover have "\<not> shouldEarlyExit p su" using assms(1) by (simp add: shouldEarlyExit_def)
  ultimately have "runGroups est p gs k u su = Some r" using Cons.prems by simp
  from Cons.IH [OF this] runStages_text [OF assms(1), of stgs s st u su] u Cons.hyps show ?case
    by (simp add: run_stage_texts_def)
qed

section \<open>Properties\<close>

lemma reachable_fields:
  assumes "coordinator_reachable est lower cfg p"
  shows "pc_config p = cfg"
    "pc_budgetEnforcer p = when_enabled (cfg_Budget cfg > 0) (budget_filter est (NewBudgetEnforcer (cfg_Budget cfg))) None"
    "pc_smallKVCompensator p = when_enabled (cfg_EnableSmallKV cfg) DefaultSmallKVConfig None"
  using reachable_shape [OF assms] by auto

lemma reduction_le_100:
  assumes "0 \<le> b" "0 < a"
  shows "fmul (fdiv (of_int64 (a - b)) (of_int64 a)) 100 \<le> 100"
proof -
  have "of_int64 (a - b) / of_int64 a \<le> 1"
    using of_int64_pos [OF assms(2)] of_int64_mono [of "a - b" a] assms(1) by simp
  then have "fdiv (of_int64 (a - b)) (of_int64 a) \<le> 1" using f64_mono [of _ 1] by (simp add: fdiv_def)
  then have "fmul (fdiv (of_int64 (a - b)) (of_int64 a)) 100 \<le> fmul 1 100" by (intro fmul_right_mono) simp_all
  moreover have "fmul 1 100 = 100" using f64_of_int [of 100] by (simp add: fmul_def)
  ultimately show ?thesis by simp
qed



text \<open>
  The statistics that a run returns describe it: the estimates of the input and of the
  text returned, their difference, and a reduction that is never more than 100 percent. The
  result never claims to come from a cache.
\<close>

theorem Process_statistics:
  assumes "coordinator_reachable est lower cfg p" "Process est lower p input = Some (out, stats, p')"
    and "0 \<le> est out"
  shows "OriginalTokens stats = est input \<and> FinalTokens stats = est out \<and>
    TotalSaved stats = est input - est out \<and> ReductionPercent stats \<le> 100 \<and> \<not> CacheHit stats"
proof (rule run_facts [OF assms(1,2)], goal_cases)
  case 1
  then show ?case using reduction_le_100 [OF assms(3)] by simp
qed

theorem Process_statistics_witness:
  "\<exists>out stats p'. Process heuristicTokens id
       (NewPipelineCoordinator heuristicTokens noop_lib zeroPipelineConfig) ''text'' = Some (out, stats, p') \<and>
     OriginalTokens stats = 1 \<and> TotalSaved stats = 1 - heuristicTokens out"
proof -
  let ?p = "NewPipelineCoordinator heuristicTokens noop_lib zeroPipelineConfig"
  obtain out stats p' where run: "Process heuristicTokens id ?p ''text'' = Some (out, stats, p')"
    using noop_run by blast
  moreover have "0 \<le> heuristicTokens out" by (simp add: heuristicTokens_def)
  moreover have "heuristicTokens ''text'' = 1" by code_simp
  ultimately show ?thesis using Process_statistics [OF reach_new run] by auto
qed

text \<open>
  C1: a run refines the abstract chain of filters. Some of the layers, in the fixed order of
  the pipeline and each at most once, are applied one after the other to the input (to what
  the TOML filter left of it), each to the text the one before it returned. The text returned
  is the end of that chain when the budget was met on the way, and its SmallKV compensation
  otherwise; and the statistics have an entry for exactly the layers applied, with the saving
  each of them reported.
\<close>

theorem Process_refines_chain:
  assumes "coordinator_reachable est lower cfg p" "Process est lower p input = Some (out, stats, p')"
  shows "\<exists>tr fin. runs (cfg_Mode cfg) (gated_layers p @ budget_layers p)
      (fst (tomlStage p input (newStats (est input)))) tr fin \<and>
    (shouldEarlyExit p stats \<and> out = fin \<or> out = postCompensate p input fin) \<and>
    subseq (map fst tr) run_names \<and> distinct (map fst tr) \<and>
    (\<forall>n. n \<notin> {''0_toml_filter'', ''10_total''} \<longrightarrow> map_option TokensSaved (LayerStats stats n) = map_of tr n)"
proof (rule run_facts [OF assms], goal_cases)
  case (1 s0 st0 ex tr ls fin st')
  note built = reachable_built [OF assms(1)]
  have run: "runs (cfg_Mode cfg) (gated_layers p @ budget_layers p) s0 tr fin"
    using 1(2,3) reachable_fields(1) [OF assms(1)] runs_append [OF _ runs_refl, of _ _ s0 tr fin "budget_layers p"]
    by auto
  then have sub: "subseq (map fst tr) run_names" using runs_subseq run_names [OF built] by metis
  then have dist: "distinct (map fst tr)"
    using subseq_distinct [OF sub] by (simp add: run_names_def)
  have "map_option TokensSaved (LayerStats stats n) = map_of tr n" if "n \<notin> {''0_toml_filter'', ''10_total''}" for n
    using 1(4,11) that map_of_stats [OF dist] by simp
  moreover have "shouldEarlyExit p stats \<and> out = fin \<or> out = postCompensate p input fin"
    using 1(3,4) by (auto simp: shouldEarlyExit_def)
  ultimately show ?case using run sub dist 1(1) by auto
qed

theorem Process_refines_chain_witness:
  "\<exists>out stats p' tr fin. Process heuristicTokens id
       (NewPipelineCoordinator heuristicTokens noop_lib zeroPipelineConfig) ''text'' = Some (out, stats, p') \<and>
     runs [] (gated_layers (NewPipelineCoordinator heuristicTokens noop_lib zeroPipelineConfig) @
       budget_layers (NewPipelineCoordinator heuristicTokens noop_lib zeroPipelineConfig)) ''text'' tr fin \<and>
     subseq (map fst tr) run_names"
proof -
  let ?p = "NewPipelineCoordinator heuristicTokens noop_lib zeroPipelineConfig"
  obtain out stats p' where run: "Process heuristicTokens id ?p ''text'' = Some (out, stats, p')"
    using noop_run by blast
  from Process_refines_chain [OF reach_new run] run show ?thesis
    by (simp add: tomlStage_off zeroPipelineConfig_def) blast
qed



text \<open>
  C3: without a budget and a TOML filter nothing is left out. Every layer that is enabled and
  whose gate holds on the text it gets is applied, in the order of the pipeline; then the
  session tracker, if there is one, and the compensation. The text returned is that fold,
  computed without statistics, early exits or the option of a panic.
\<close>

theorem Process_unbudgeted_is_fold:
  assumes "coordinator_reachable est lower cfg p" "Process est lower p input = Some (out, stats, p')"
    and "cfg_Budget cfg \<le> 0" "pc_tomlFilterWrapper p = None \<or> \<not> cfg_EnableTOMLFilter cfg"
  shows "out = postCompensate p input (layer_text (cfg_Mode cfg) (pc_sessionTracker p)
    (run_stage_texts (cfg_Mode cfg) (all_stages est p) input))"
proof -
  note flds = reachable_fields [OF assms(1)]
  have bud: "cfg_Budget (pc_config p) \<le> 0" "pc_budgetEnforcer p = None" using assms(3) flds by simp_all
  let ?gs = "[processCoreLayers p, processSemanticLayers est p, processNewLayers p]"
  let ?stgss = "[coreStages p, semanticStages est p, newStages p]"
  from assms(2) obtain a sa where a: "processPreFilters p input (newStats (est input)) = Some (a, sa)"
    by (auto simp: Process_groups split: bind_splits)
  have pre: "runStage p (tfidfStage p) input (newStats (est input)) = Some (a, sa)"
    using a assms(4) flds(1) by (simp add: processPreFilters_def tomlStage_off)
  have "\<not> shouldEarlyExit p sa" using bud by (simp add: shouldEarlyExit_def)
  with assms(2) a have "runGroups est p ?gs (finish est lower p input) a sa = Some (out, stats, p')"
    by (simp add: Process_groups)
  from runGroups_text [OF bud(1) this, of ?stgss] obtain st' where
    "finish est lower p input (run_stage_texts (cfg_Mode cfg) (concat ?stgss) a) st' = Some (out, stats, p')"
    by (auto simp: processCoreLayers_def processSemanticLayers_def processNewLayers_def flds(1))
  from finish_text [OF bud this] runStage_text [OF pre] show ?thesis
    by (simp add: flds(1) all_stages_def run_stage_texts_def)
qed

theorem Process_unbudgeted_is_fold_witness:
  "\<exists>stats p'. Process heuristicTokens id
     (NewPipelineCoordinator heuristicTokens (noop_lib\<lparr>lib_NewSymbolicCompressFilter := halving_filter\<rparr>)
        (zeroPipelineConfig\<lparr>cfg_EnableSymbolicCompress := True\<rparr>)) ''eight ch'' = Some (''eigh'', stats, p')"
proof -
  let ?p = "NewPipelineCoordinator heuristicTokens (noop_lib\<lparr>lib_NewSymbolicCompressFilter := halving_filter\<rparr>)
      (zeroPipelineConfig\<lparr>cfg_EnableSymbolicCompress := True\<rparr>)"
  obtain out stats p' where run: "Process heuristicTokens id ?p ''eight ch'' = Some (out, stats, p')"
    using Process_total [OF layers_built_New] by (metis prod_cases3)
  have "run_stage_texts [] (newStages ?p) ''eight ch'' = ''eigh''"
    by (simp add: newStages_def run_stage_texts_def stage_text_def when_enabled_def zeroPipelineConfig_def halving_filter_def)
  moreover have "run_stage_texts [] [tfidfStage ?p] s = s" "run_stage_texts [] (coreStages ?p) s = s"
    "run_stage_texts [] (semanticStages heuristicTokens ?p) s = s" "run_stage_texts [] (phase2Stages ?p) s = s"
    "run_stage_texts [] [questionStage ?p, densityStage ?p] s = s" for s
    by (rule closed_stages, simp add: tfidfStage_def coreStages_def semanticStages_def phase2Stages_def
      questionStage_def densityStage_def Let_def zeroPipelineConfig_def)+
  ultimately have "run_stage_texts [] (all_stages heuristicTokens ?p) ''eight ch'' = ''eigh''"
    unfolding all_stages_append by simp
  with run Process_unbudgeted_is_fold [OF reach_new run] show ?thesis
    by (simp add: zeroPipelineConfig_def layer_text_def postCompensate_def when_enabled_def)
qed



lemma Process_within_budget:
  assumes "0 < cfg_Budget (pc_config p)" "est input \<le> cfg_Budget (pc_config p)"
    and "pc_tfidfFilter p = None" "\<not> cfg_EnableTOMLFilter (pc_config p)"
  shows "\<exists>stats. Process est lower p input = Some (input, stats, p) \<and> TotalSaved stats = 0 \<and>
    LayerStats stats = Map.empty"
  using assms
  by (simp add: Process_def processPreFilters_def tomlStage_off tfidfStage_def runStage_def shouldEarlyExit_def newStats_def)

text \<open>
  An input within the budget is returned as it is, with nothing saved and nothing recorded,
  when neither pre-filter is active.
\<close>

theorem within_budget_unchanged:
  assumes "coordinator_reachable est lower cfg p"
    and "0 < cfg_Budget cfg" "est input \<le> cfg_Budget cfg"
    and "\<not> cfg_EnableTFIDF cfg" "\<not> cfg_EnableTOMLFilter cfg"
  shows "\<exists>stats. Process est lower p input = Some (input, stats, p) \<and> TotalSaved stats = 0 \<and>
    LayerStats stats = Map.empty"
proof -
  have "pc_config p = cfg" by (rule reachable_fields(1) [OF assms(1)])
  moreover have "pc_tfidfFilter p = None" using reachable_shape [OF assms(1)] assms(4) by auto
  ultimately show ?thesis using assms(2,3,5) by (intro Process_within_budget) simp_all
qed

theorem within_budget_unchanged_witness:
  "\<exists>stats. Process heuristicTokens id
     (NewPipelineCoordinator heuristicTokens noop_lib (zeroPipelineConfig\<lparr>cfg_Budget := 5\<rparr>)) ''short'' =
       Some (''short'', stats, NewPipelineCoordinator heuristicTokens noop_lib (zeroPipelineConfig\<lparr>cfg_Budget := 5\<rparr>))"
proof -
  have "heuristicTokens ''short'' \<le> 5" by code_simp
  then show ?thesis
    using within_budget_unchanged [OF reach_new, of "zeroPipelineConfig\<lparr>cfg_Budget := 5\<rparr>" heuristicTokens "''short''" id noop_lib]
    by (auto simp: zeroPipelineConfig_def)
qed

text \<open>
  The savings of the TOML filter do not count towards the budget. Whatever it saves, the
  budget check after it compares the tokens of the original input with the budget, so a text
  that the TOML filter brought within the budget goes through the whole pipeline.
\<close>

theorem toml_savings_not_counted:
  assumes "tomlStage p input (newStats (est input)) = (s0, st0, ex)"
  shows "shouldEarlyExit p st0 \<longleftrightarrow> 0 < cfg_Budget (pc_config p) \<and> est input \<le> cfg_Budget (pc_config p)"
  using tomlStage_stats [OF assms] by (simp add: shouldEarlyExit_def Let_def)

theorem toml_savings_not_counted_witness:
  "let p = SetTOMLFilter (Some \<lparr>filter_name = ''toml'', filter_apply = (\<lambda>s m. ([], 100))\<rparr>) ''t''
         (NewPipelineCoordinator heuristicTokens noop_lib
           (zeroPipelineConfig\<lparr>cfg_Budget := 1, cfg_EnableTOMLFilter := True\<rparr>))
   in fst (tomlStage p ''some long text'' (newStats (heuristicTokens ''some long text''))) = [] \<and>
      \<not> shouldEarlyExit p (fst (snd (tomlStage p ''some long text'' (newStats (heuristicTokens ''some long text'')))))"
proof -
  have est: "heuristicTokens ''some long text'' = 4" by code_simp
  let ?p = "SetTOMLFilter (Some \<lparr>filter_name = ''toml'', filter_apply = (\<lambda>s m. ([], 100))\<rparr>) ''t''
      (NewPipelineCoordinator heuristicTokens noop_lib (zeroPipelineConfig\<lparr>cfg_Budget := 1, cfg_EnableTOMLFilter := True\<rparr>))"
  have fst: "fst (tomlStage ?p ''some long text'' (newStats (heuristicTokens ''some long text''))) = []"
    by (simp add: tomlStage_def Let_def)
  obtain s0 st0 ex where "tomlStage ?p ''some long text'' (newStats (heuristicTokens ''some long text'')) = (s0, st0, ex)"
    by (metis prod_cases3)
  with toml_savings_not_counted [where est = heuristicTokens, OF this] fst est show ?thesis by (simp add: Let_def)
qed

text \<open>
  The defaults of a zero configuration are lost. \<^verbatim>\<open>NewPipelineCoordinator\<close> turns on the
  core layers of a configuration that sets nothing, but on a copy made after the configuration
  was stored, and the run consults the stored one: such a pipeline returns every input
  unchanged, whatever its filters do.
\<close>

theorem zero_config_changes_nothing:
  "\<exists>stats p'. Process est lower (NewPipelineCoordinator est L (zeroPipelineConfig\<lparr>cfg_Mode := m\<rparr>)) input =
     Some (input, stats, p') \<and> TotalSaved stats = 0 \<and> runningSaved stats = 0"
proof -
  let ?p = "NewPipelineCoordinator est L (zeroPipelineConfig\<lparr>cfg_Mode := m\<rparr>)"
  have closed: "runStages ?p stgs s st = Some (s, st)" if "\<forall>stg \<in> set stgs. \<not> fst stg s" for stgs s st
    using that by (induction stgs) (simp_all add: runStage_def)
  have core: "processCoreLayers ?p s st = Some (s, st)" for s st
    unfolding processCoreLayers_def by (rule closed) (simp add: coreStages_def Let_def zeroPipelineConfig_def)
  have semantic: "processSemanticLayers est ?p s st = Some (s, st)" for s st
    unfolding processSemanticLayers_def by (rule closed) (simp add: semanticStages_def zeroPipelineConfig_def)
  have new: "processNewLayers ?p s st = Some (s, st)" for s st
    unfolding processNewLayers_def by (rule closed) (simp add: newStages_def zeroPipelineConfig_def)
  have phase2: "processPhase2Layers ?p s st = Some (s, st)" for s st
    unfolding processPhase2Layers_def by (rule closed) (simp add: phase2Stages_def zeroPipelineConfig_def)
  have rest: "processPreFilters ?p s st = Some (s, st)" "processRecoveryLayers ?p s st = Some (s, st)"
      "\<not> shouldEarlyExit ?p st" for s st
    by (simp_all add: processPreFilters_def tomlStage_off tfidfStage_def runStage_def processRecoveryLayers_def
        questionStage_def densityStage_def shouldEarlyExit_def zeroPipelineConfig_def)
  have budget: "processBudgetLayer ?p s st = (s, recordStat ''10_total'' 0 st)" for s st
    by (simp add: processBudgetLayer_def optional_layer_def zeroPipelineConfig_def)
  have "postCompensate ?p input input = input" by (simp add: postCompensate_def zeroPipelineConfig_def)
  then show ?thesis
    by (simp add: Process_def Let_def core semantic new phase2 rest budget) (simp add: newStats_def)
qed

text \<open>The invariant of the feedback signals.\<close>

definition feedback_ok :: "PipelineCoordinator \<Rightarrow> bool" where
  "feedback_ok p \<longleftrightarrow> (\<exists>fb. pc_feedback p = Some fb \<and>
     (\<forall>(n, sig) \<in> set (fb_signals fb). n = ''pipeline'' \<and> sig_CompressionRatio sig = 0))"

lemma recordFeedback_ok:
  assumes "feedback_ok p" "ReductionPercent st = 0"
  shows "feedback_ok (recordFeedback lower p input out st)"
proof -
  have "set (al_put k v m) \<subseteq> insert (k, v) (set m)" for k and v :: FeedbackSignal and m
    by (induction m) (auto split: if_splits)
  then show ?thesis
    using assms unfolding feedback_ok_def recordFeedback_def RecordSignal_def
    by (fastforce simp: Let_def fdiv_def split: option.splits)
qed

lemma reachable_feedback_ok: "coordinator_reachable est lower cfg p \<Longrightarrow> feedback_ok p"
proof (induction rule: coordinator_reachable.induct)
  case (reach_new L)
  then show ?case by (simp add: feedback_ok_def NewInterLayerFeedback_def)
next
  case (reach_filters p L)
  then show ?case by (simp add: feedback_ok_def with_filters_def)
next
  case (reach_toml p f n)
  then show ?case by (simp add: feedback_ok_def SetTOMLFilter_def)
next
  case (reach_process p input out st p')
  show ?case
    by (rule run_facts [OF reach_process(1,2)]) (use reach_process(3) recordFeedback_ok in auto)
qed

text \<open>
  The feedback of the pipeline is one signal, named after the pipeline, and its compression
  ratio is always 0: it is computed from the statistics before they are final.
\<close>

theorem feedback_ratio_is_zero:
  assumes "coordinator_reachable est lower cfg p"
  shows "\<exists>fb. pc_feedback p = Some fb \<and>
    (\<forall>(n, sig) \<in> set (fb_signals fb). n = ''pipeline'' \<and> sig_CompressionRatio sig = 0)"
  using reachable_feedback_ok [OF assms] by (simp add: feedback_ok_def)

theorem feedback_ratio_is_zero_witness:
  "\<exists>out stats p' fb. Process heuristicTokens id
       (NewPipelineCoordinator heuristicTokens noop_lib zeroPipelineConfig) ''text'' = Some (out, stats, p') \<and>
     pc_feedback p' = Some fb \<and>
     (\<forall>(n, sig) \<in> set (fb_signals fb). n = ''pipeline'' \<and> sig_CompressionRatio sig = 0)"
proof -
  obtain out stats p' where run: "Process heuristicTokens id
      (NewPipelineCoordinator heuristicTokens noop_lib zeroPipelineConfig) ''text'' = Some (out, stats, p')"
    using noop_run by blast
  from feedback_ratio_is_zero [OF reach_process [OF reach_new run]] run show ?thesis by blast
qed

text \<open>
  The layers 21 to 27 are configured, built and put into the layer table, and no run ever
  applies one of them: the only names under which a run records anything are those of the
  other layers, of the TOML filter and of the budget total.
\<close>

theorem research_layers_never_run:
  assumes "coordinator_reachable est lower cfg p" "Process est lower p input = Some (out, stats, p')"
  shows "dom (LayerStats stats) \<subseteq> set run_names \<union> {''0_toml_filter'', ''10_total''} \<and>
    dom (LayerStats stats) \<inter> set (map snd (drop 20 (pc_layers p))) = {}"
proof (rule run_facts [OF assms], goal_cases)
  case (1 s0 st0 ex tr ls fin st')
  note built = reachable_built [OF assms(1)]
  have "set (map snd ls) \<subseteq> set (map snd (gated_layers p @ budget_layers p))"
    using 1(3) by (elim disjE conjE) (simp_all add: image_Un)
  then have "set (map snd ls) \<subseteq> set run_names" unfolding run_names [OF built] .
  moreover have "fst ` set tr \<subseteq> set (map snd ls)" using runs_names [OF 1(2)] by simp
  ultimately have sub: "dom (LayerStats stats) \<subseteq> set run_names \<union> {''0_toml_filter'', ''10_total''}"
    using 1(10) unfolding 1(4) finalizeStats_sel by blast
  moreover have "(set run_names \<union> {''0_toml_filter'', ''10_total''}) \<inter> set (map snd (drop 20 (pc_layers p))) = {}"
    using built unfolding layers_built_def by (simp add: buildLayers_def run_names_def)
  ultimately show ?case by blast
qed

theorem research_layers_never_run_witness:
  "\<exists>out stats p'. Process heuristicTokens id
       (NewPipelineCoordinator heuristicTokens noop_lib (zeroPipelineConfig\<lparr>cfg_EnablePoC := True\<rparr>)) ''text'' =
         Some (out, stats, p') \<and> LayerStats stats ''24_poc'' = None"
proof -
  let ?p = "NewPipelineCoordinator heuristicTokens noop_lib (zeroPipelineConfig\<lparr>cfg_EnablePoC := True\<rparr>)"
  obtain out stats p' where run: "Process heuristicTokens id ?p ''text'' = Some (out, stats, p')"
    using noop_run by blast
  have "''24_poc'' \<in> set (map snd (drop 20 (pc_layers ?p)))"
    using layers_built_New [of heuristicTokens noop_lib] unfolding layers_built_def by (simp add: buildLayers_def)
  with research_layers_never_run [OF reach_new run] have "''24_poc'' \<notin> dom (LayerStats stats)" by blast
  with run show ?thesis by auto
qed

end
