(* ===== verification/Presets.thy ===== *)
theory Presets
  imports Pipeline_Correct
begin

text \<open>
  Compression tiers and presets (\<^verbatim>\<open>internal/filter/presets.go\<close>), the default configuration of
  \<^verbatim>\<open>QuickProcess\<close> and the layer breakdown of \<^verbatim>\<open>PipelineStats.String\<close>
  (\<^verbatim>\<open>pipeline_stats.go\<close>). Of the printed summary only the choice of the lines and their
  numbers is modelled, not the box that is drawn around them.
\<close>

type_synonym Tier = string

definition TierSurface :: Tier where "TierSurface = ''surface''"
definition TierTrim :: Tier where "TierTrim = ''trim''"
definition TierExtract :: Tier where "TierExtract = ''extract''"
definition TierCore :: Tier where "TierCore = ''core''"
definition TierCode :: Tier where "TierCode = ''code''"
definition TierLog :: Tier where "TierLog = ''log''"
definition TierThread :: Tier where "TierThread = ''thread''"
definition PresetAuto :: Tier where "PresetAuto = []"

lemmas tier_defs = TierSurface_def TierTrim_def TierExtract_def TierCore_def TierCode_def TierLog_def TierThread_def

definition TierConfig :: "Tier \<Rightarrow> Mode \<Rightarrow> PipelineConfig" where
  "TierConfig tier baseMode =
     (let cfg = zeroPipelineConfig\<lparr>cfg_Mode := baseMode, cfg_SessionTracking := True\<rparr> in
      if tier = TierSurface then cfg
        \<lparr>cfg_EnableEntropy := True, cfg_EnableGoalDriven := True, cfg_EnableH2O := True,
        cfg_EnableNumericalQuant := True\<rparr>
      else if tier = TierTrim then cfg
        \<lparr>cfg_EnableEntropy := True, cfg_EnablePerplexity := True,
        cfg_EnableGoalDriven := True, cfg_EnableAST := True,
        cfg_EnableContrastive := True, cfg_NgramEnabled := True,
        cfg_EnableEvaluator := True, cfg_EnableH2O := True,
        cfg_EnableAttentionSink := True, cfg_EnableMetaToken := True,
        cfg_EnableNumericalQuant := True, cfg_EnableDynamicRatio := True\<rparr>
      else if tier = TierExtract then cfg
        \<lparr>cfg_EnableEntropy := True, cfg_EnablePerplexity := True,
        cfg_EnableGoalDriven := True, cfg_EnableAST := True,
        cfg_EnableContrastive := True, cfg_NgramEnabled := True,
        cfg_EnableEvaluator := True, cfg_EnableGist := True,
        cfg_EnableHierarchical := True, cfg_EnableCompaction := True,
        cfg_EnableAttribution := True, cfg_EnableH2O := True,
        cfg_EnableAttentionSink := True, cfg_EnableMetaToken := True,
        cfg_EnableSemanticChunk := True, cfg_EnableLazyPruner := True,
        cfg_EnableSemanticAnchor := True, cfg_EnableAgentMemory := True,
        cfg_EnableSymbolicCompress := True, cfg_EnablePhraseGrouping := True,
        cfg_EnableNumericalQuant := True, cfg_EnableDynamicRatio := True,
        cfg_EnableHypernym := True, cfg_EnableSemanticCache := True,
        cfg_EnableKVzip := True\<rparr>
      else if tier = TierCore then cfg
        \<lparr>cfg_EnableEntropy := True, cfg_EnablePerplexity := True,
        cfg_EnableGoalDriven := True, cfg_EnableAST := True,
        cfg_EnableContrastive := True, cfg_NgramEnabled := True,
        cfg_EnableEvaluator := True, cfg_EnableGist := True,
        cfg_EnableHierarchical := True, cfg_EnableCompaction := True,
        cfg_EnableAttribution := True, cfg_EnableH2O := True,
        cfg_EnableAttentionSink := True, cfg_EnableMetaToken := True,
        cfg_EnableSemanticChunk := True, cfg_EnableSketchStore := True,
        cfg_EnableLazyPruner := True, cfg_EnableSemanticAnchor := True,
        cfg_EnableAgentMemory := True, cfg_EnableQuestionAware := True,
        cfg_EnableDensityAdaptive := True, cfg_EnableSymbolicCompress := True,
        cfg_EnablePhraseGrouping := True, cfg_EnableNumericalQuant := True,
        cfg_EnableDynamicRatio := True, cfg_EnableHypernym := True,
        cfg_EnableSemanticCache := True, cfg_EnableScope := True,
        cfg_EnableSmallKV := True, cfg_EnableKVzip := True, cfg_EnableSWEzze := True,
        cfg_EnableMixedDim := True, cfg_EnableBEAVER := True, cfg_EnablePoC := True,
        cfg_EnableTokenQuant := True, cfg_EnableTokenRetention := True,
        cfg_EnableACON := True\<rparr>
      else if tier = TierCode then cfg
        \<lparr>cfg_EnableEntropy := True, cfg_EnableAST := True, cfg_EnableGoalDriven := True,
        cfg_EnableH2O := True, cfg_EnableMetaToken := True,
        cfg_EnableSymbolicCompress := True, cfg_EnableNumericalQuant := True,
        cfg_EnableSWEzze := True\<rparr>
      else if tier = TierLog then cfg
        \<lparr>cfg_EnableEntropy := True, cfg_EnablePerplexity := True,
        cfg_EnableEvaluator := True, cfg_EnableH2O := True,
        cfg_EnableAttribution := True, cfg_EnableSketchStore := True,
        cfg_EnableNumericalQuant := True\<rparr>
      else if tier = TierThread then cfg
        \<lparr>cfg_EnableEntropy := True, cfg_EnableCompaction := True,
        cfg_EnableAttentionSink := True, cfg_EnableLazyPruner := True,
        cfg_EnableSemanticAnchor := True, cfg_EnableAgentMemory := True\<rparr>
      else cfg)"

definition PresetConfig :: "Tier \<Rightarrow> Mode \<Rightarrow> PipelineConfig" where
  "PresetConfig preset baseMode =
     (if preset = PresetAuto
      then zeroPipelineConfig\<lparr>cfg_Mode := baseMode, cfg_SessionTracking := True\<rparr>
      else TierConfig preset baseMode)"

definition quickConfig :: "Mode \<Rightarrow> PipelineConfig" where
  "quickConfig mode = zeroPipelineConfig
     \<lparr>cfg_Mode := mode\<rparr>
     \<lparr>cfg_SessionTracking := True, cfg_NgramEnabled := True,
      cfg_EnableCompaction := True, cfg_EnableAttribution := True,
      cfg_EnableH2O := True, cfg_EnableAttentionSink := True,
      cfg_EnableMetaToken := True, cfg_EnableSemanticChunk := True,
      cfg_EnableSketchStore := True, cfg_EnableLazyPruner := True,
      cfg_EnableSemanticAnchor := True, cfg_EnableAgentMemory := True,
      cfg_EnableTFIDF := True, cfg_EnableReasoningTrace := True,
      cfg_EnableSymbolicCompress := True, cfg_EnablePhraseGrouping := True,
      cfg_EnableNumericalQuant := True, cfg_EnableDynamicRatio := True,
      cfg_EnableHypernym := True, cfg_EnableSemanticCache := True,
      cfg_EnableScope := True, cfg_EnableSmallKV := True, cfg_EnableKVzip := True\<rparr>"

text \<open>A fresh coordinator for the configuration, one run, and what it saved.\<close>

definition processOnce ::
  "(string \<Rightarrow> int) \<Rightarrow> (string \<Rightarrow> string) \<Rightarrow> FilterLib \<Rightarrow> PipelineConfig \<Rightarrow> string \<Rightarrow> (string \<times> int) option" where
  "processOnce est lower L cfg input =
     map_option (\<lambda>(output, stats, _). (output, TotalSaved stats))
       (Process est lower (NewPipelineCoordinator est L cfg) input)"

definition ApplyTier where
  "ApplyTier est lower L input mode tier = processOnce est lower L (TierConfig tier mode) input"

definition QuickProcessPreset where
  "QuickProcessPreset est lower L input mode preset = processOnce est lower L (PresetConfig preset mode) input"

definition QuickProcess where
  "QuickProcess est lower L input mode = processOnce est lower L (quickConfig mode) input"

definition layerOrder :: "string list" where
  "layerOrder =
     [''0_tfidf'', ''1_entropy'', ''2_perplexity'', ''3_goal_driven'', ''4_ast_preserve'',
      ''5_contrastive'', ''6_ngram'', ''7_evaluator'', ''8_gist'', ''9_hierarchical'',
      ''neural'', ''11_compaction'', ''12_attribution'', ''13_h2o'', ''14_attention_sink'',
      ''15_meta_token'', ''16_semantic_chunk'', ''17_sketch_store'', ''18_lazy_pruner'',
      ''19_semantic_anchor'', ''20_agent_memory'', ''21_reasoning_trace'',
      ''22_symbolic_compress'', ''23_phrase_grouping'', ''24_numerical_quant'',
      ''25_dynamic_ratio'', ''26_hypernym'', ''27_semantic_cache'', ''28_scope'',
      ''29_kvzip'', ''10_session'', ''10_budget'']"

definition breakdown :: "PipelineStats \<Rightarrow> (string \<times> int) list" where
  "breakdown stats = concat (map (\<lambda>layer.
     case LayerStats stats layer of
       None \<Rightarrow> []
     | Some stat \<Rightarrow> if TokensSaved stat > 0 then [(layer, TokensSaved stat)] else []) layerOrder)"

section \<open>Layers that a run cannot reach\<close>

text \<open>A stage is silent about a name when it never runs a layer of that name.\<close>

definition silent :: "string \<Rightarrow> stage \<Rightarrow> bool" where
  "silent n stg \<longleftrightarrow> (\<forall>s l. fst stg s \<longrightarrow> snd stg = Some l \<longrightarrow> snd l \<noteq> n)"

lemma runStage_silent:
  "silent n stg \<Longrightarrow> runStage p stg s st = Some (t, st') \<Longrightarrow> LayerStats st' n = LayerStats st n"
  by (auto simp: silent_def runStage_def processLayer_def Let_def split: if_splits option.splits prod.splits bind_splits)

lemma runStages_silent:
  "list_all (silent n) stgs \<Longrightarrow> runStages p stgs s st = Some (t, st') \<Longrightarrow> LayerStats st' n = LayerStats st n"
proof (induction stgs arbitrary: s st)
  case (Cons stg stgs)
  from Cons.prems(2) obtain u su where u: "runStage p stg s st = Some (u, su)" by (auto split: bind_splits)
  then have "LayerStats su n = LayerStats st n" using Cons.prems(1) runStage_silent [of n stg p s st u su] by simp
  then show ?case using Cons.prems u Cons.IH [of u su] by (auto split: if_splits)
qed simp

definition group_silent :: "string \<Rightarrow> group \<Rightarrow> bool" where
  "group_silent n g \<longleftrightarrow> (\<forall>s st t st'. g s st = Some (t, st') \<longrightarrow> LayerStats st n = None \<longrightarrow> LayerStats st' n = None)"

lemma runGroups_silent:
  assumes "list_all (group_silent n) gs" "LayerStats st n = None" "runGroups est p gs k s st = Some (out, st', p')"
    and "\<And>s st. LayerStats st n = None \<Longrightarrow> k s st = Some (out, st', p') \<Longrightarrow> LayerStats st' n = None"
  shows "LayerStats st' n = None"
  using assms(1-3)
proof (induction gs arbitrary: s st)
  case Nil
  then show ?case using assms(4) by simp
next
  case (Cons g gs)
  from Cons.prems(3) obtain t su where g: "g s st = Some (t, su)" by (auto split: bind_splits)
  then have "LayerStats su n = None" using Cons.prems(1,2) by (auto simp: group_silent_def)
  then show ?case using Cons g by (auto split: if_splits)
qed

lemma optional_layer_name:
  "optional_layer p flt m (s, st, c) = (t, st', c') \<Longrightarrow> n \<noteq> m \<Longrightarrow> LayerStats st' n = LayerStats st n"
  by (auto simp: optional_layer_def Let_def split: option.splits prod.splits)

lemma budget_silent:
  assumes "processBudgetLayer p s st = (t, st')" "n \<notin> {''10_session'', ''10_budget'', ''10_total''}"
  shows "LayerStats st' n = LayerStats st n"
  using assms
  by (cases "optional_layer p (pc_sessionTracker p) ''10_session'' (s, st, 0)")
    (auto simp: processBudgetLayer_def Let_def dest!: optional_layer_name [of _ _ _ _ _ _ _ _ _ n] split: prod.splits)

lemma finish_silent:
  assumes "group_silent n (processPhase2Layers p)" "group_silent n (processRecoveryLayers p)"
    and "n \<notin> {''10_session'', ''10_budget'', ''10_total''}"
    and "LayerStats st n = None" "finish est lower p input s st = Some (out, st', p')"
  shows "LayerStats st' n = None"
proof -
  from assms(5) obtain a sa b sb where a: "processPhase2Layers p s st = Some (a, sa)"
    and b: "processRecoveryLayers p a sa = Some (b, sb)"
    by (auto simp: finish_def split: bind_splits)
  have "LayerStats sb n = None" using assms(1,2,4) a b unfolding group_silent_def by blast
  with budget_silent [OF _ assms(3), of p b sb] assms(5) a b show ?thesis
    by (auto simp: finish_def Let_def split: prod.splits)
qed

lemma tomlStage_silent:
  "n \<noteq> ''0_toml_filter'' \<Longrightarrow> tomlStage p s st = (s0, st0, ex) \<Longrightarrow> LayerStats st0 n = LayerStats st n"
  by (auto simp: tomlStage_def Let_def split: option.splits if_splits prod.splits)

lemma Process_silent:
  assumes "list_all (silent n) (all_stages est p)"
    and n: "n \<notin> {''0_toml_filter'', ''10_session'', ''10_budget'', ''10_total''}"
    and "Process est lower p input = Some (out, st, p')"
  shows "LayerStats st n = None"
proof -
  have all: "silent n (tfidfStage p)" "list_all (silent n) (coreStages p)" "list_all (silent n) (semanticStages est p)"
    "list_all (silent n) (newStages p)" "list_all (silent n) (phase2Stages p)" "silent n (questionStage p)"
    "silent n (densityStage p)" using assms(1) by (simp_all add: all_stages_def)
  have pre: "group_silent n (processPreFilters p)"
    unfolding group_silent_def processPreFilters_def
    using tomlStage_silent [of n p] runStage_silent [OF all(1), of p] n
    by (fastforce split: prod.splits if_splits)
  have recovery: "group_silent n (processRecoveryLayers p)"
    unfolding group_silent_def processRecoveryLayers_def
    using runStage_silent [OF all(6), of p] runStage_silent [OF all(7), of p]
    by (fastforce simp: bind_eq_Some_conv)
  have rest: "group_silent n (processCoreLayers p)" "group_silent n (processSemanticLayers est p)"
    "group_silent n (processNewLayers p)" "group_silent n (processPhase2Layers p)"
    unfolding group_silent_def processCoreLayers_def processSemanticLayers_def processNewLayers_def processPhase2Layers_def
    using runStages_silent [OF all(2), of p] runStages_silent [OF all(3), of p]
      runStages_silent [OF all(4), of p] runStages_silent [OF all(5), of p] by metis+
  from n have n': "n \<notin> {''10_session'', ''10_budget'', ''10_total''}" by simp
  show ?thesis
  proof (rule runGroups_silent [OF _ _ assms(3) [unfolded Process_groups]])
    show "LayerStats st n = None" if "LayerStats st0 n = None" "finish est lower p input s0 st0 = Some (out, st, p')"
      for s0 st0 using that by (rule finish_silent [OF rest(4) recovery n'])
  qed (simp_all add: pre rest newStats_def)
qed

lemma silent_layer: "silent n (g, Some (f, m)) \<longleftrightarrow> (m = n \<longrightarrow> (\<forall>s. \<not> g s))"
  by (auto simp: silent_def)

lemma silent_layers:
  assumes "layers_built p"
  shows "list_all (silent n) (all_stages est p) \<longleftrightarrow>
    list_all (silent n) (tfidfStage p # zip (map fst (coreStages p)) (map Some (take 10 (pc_layers p))) @
      zip (map fst (semanticStages est p)) (map Some (take 10 (drop 10 (pc_layers p)))) @
      newStages p @ phase2Stages p @ [questionStage p, densityStage p])"
  unfolding stage_layers(1) [OF assms, symmetric] stage_layers(2) [OF assms, of est, symmetric]
  by (simp add: all_stages_def zip_map_fst_snd)

lemma layers_split:
  assumes "layers_built p"
  shows "take 10 (pc_layers p) = take 10 (pc_layers (buildLayers p))"
    "take 10 (drop 10 (pc_layers p)) = take 10 (drop 10 (pc_layers (buildLayers p)))"
  using assms by (simp_all only: layers_built_def)

lemma query_budget_silent:
  assumes "layers_built p" "cfg_QueryIntent (pc_config p) = []" "cfg_Budget (pc_config p) \<le> 0"
    and "n \<in> {''3_goal_driven'', ''5_contrastive'', ''17_sketch_store'', ''18_lazy_pruner'', ''38_question_aware''}"
  shows "list_all (silent n) (all_stages est p)"
  unfolding silent_layers [OF assms(1)] layers_split [OF assms(1)]
  using assms(2-4)
  by (auto simp: silent_layer tfidfStage_def coreStages_def semanticStages_def newStages_def phase2Stages_def
      questionStage_def densityStage_def buildLayers_def shouldSkipQueryDependent_def shouldSkipBudgetDependent_def Let_def)

lemma preset_fields [simp]:
  "cfg_QueryIntent (PresetConfig t m) = []" "cfg_Budget (PresetConfig t m) = 0"
  "cfg_QueryIntent (quickConfig m) = []" "cfg_Budget (quickConfig m) = 0"
  by (simp_all add: PresetConfig_def TierConfig_def quickConfig_def Let_def zeroPipelineConfig_def)

section \<open>Properties\<close>

text \<open>
  The entry points of the package return: compressing with a tier, a preset or the default
  configuration gives a text and the difference of the token estimates of the input and of
  that text.
\<close>

theorem entry_points_report_savings:
  "\<exists>out out' out''. ApplyTier est lower L input mode tier = Some (out, est input - est out) \<and>
     QuickProcessPreset est lower L input mode tier = Some (out', est input - est out') \<and>
     QuickProcess est lower L input mode = Some (out'', est input - est out'')"
proof -
  have "\<exists>out. processOnce est lower L cfg input = Some (out, est input - est out)" for cfg
  proof -
    obtain out st p' where run: "Process est lower (NewPipelineCoordinator est L cfg) input = Some (out, st, p')"
      using Process_total [OF layers_built_New, of est lower est L cfg input] by auto
    have "TotalSaved st = est input - est out" by (rule run_facts [OF reach_new run]) simp
    with run show ?thesis by (simp add: processOnce_def)
  qed
  then show ?thesis unfolding ApplyTier_def QuickProcessPreset_def QuickProcess_def by blast
qed

text \<open>
  No tier sets a query or a budget, so five of the layers that tiers turn on are never
  applied in a run with a preset: goal-driven selection, contrastive ranking, the sketch store,
  the lazy pruner and the question-aware filter.
\<close>

theorem preset_layers_unreachable:
  assumes "Process est lower (NewPipelineCoordinator est L (PresetConfig tier mode)) input = Some (out, stats, p')"
    and "n \<in> {''3_goal_driven'', ''5_contrastive'', ''17_sketch_store'', ''18_lazy_pruner'', ''38_question_aware''}"
  shows "LayerStats stats n = None"
  by (rule Process_silent [OF query_budget_silent [OF layers_built_New] _ assms(1)]) (use assms(2) in auto)

theorem preset_layers_unreachable_witness:
  "cfg_EnableLazyPruner (PresetConfig TierThread ModeMinimal) \<and>
   (\<exists>out stats p'. Process heuristicTokens id
      (NewPipelineCoordinator heuristicTokens noop_lib (PresetConfig TierThread ModeMinimal)) ''text'' = Some (out, stats, p') \<and>
      LayerStats stats ''18_lazy_pruner'' = None)"
proof -
  have "cfg_EnableLazyPruner (PresetConfig TierThread ModeMinimal)"
    by (simp add: PresetConfig_def PresetAuto_def TierConfig_def tier_defs)
  moreover obtain out stats p' where run: "Process heuristicTokens id
      (NewPipelineCoordinator heuristicTokens noop_lib (PresetConfig TierThread ModeMinimal)) ''text'' = Some (out, stats, p')"
    using noop_run by blast
  ultimately show ?thesis using preset_layers_unreachable [OF run, of "''18_lazy_pruner''"] by auto
qed

text \<open>
  The printed breakdown leaves out layers that saved tokens. Its list of names is not the
  one the run records under: it has a line for a layer exactly when the name is in that list
  and the saving is positive, and eleven of the names of a run are not in it.
\<close>

theorem breakdown_omits_layers:
  "(set (breakdown stats) =
     {(n, k). n \<in> set layerOrder \<and> (\<exists>stat. LayerStats stats n = Some stat \<and> TokensSaved stat = k \<and> k > 0)}) \<and>
   set run_names - set layerOrder =
     {''10_neural'', ''30_symbolic_compress'', ''31_phrase_grouping'', ''32_numerical_quant'', ''33_dynamic_ratio'',
      ''34_hypernym'', ''35_semantic_cache'', ''36_scope'', ''37_kvzip'', ''38_question_aware'', ''39_density_adaptive''}"
proof
  show "set (breakdown stats) =
     {(n, k). n \<in> set layerOrder \<and> (\<exists>stat. LayerStats stats n = Some stat \<and> TokensSaved stat = k \<and> k > 0)}"
    unfolding breakdown_def by (auto split: option.splits if_splits intro: sym)
  show "set run_names - set layerOrder =
     {''10_neural'', ''30_symbolic_compress'', ''31_phrase_grouping'', ''32_numerical_quant'', ''33_dynamic_ratio'',
      ''34_hypernym'', ''35_semantic_cache'', ''36_scope'', ''37_kvzip'', ''38_question_aware'', ''39_density_adaptive''}"
    unfolding run_names_def layerOrder_def by code_simp
qed

end
