(* ===== verification/Fingerprint_Cache.thy ===== *)
theory Fingerprint_Cache
  imports Cache_Contract Go_Float
begin

text \<open>
  The fingerprint cache (\<^verbatim>\<open>internal/cache/fingerprint.go\<close>): compression results stored under
  the first sixteen digits of a content hash. The hash function is the argument \<open>sha\<close>, the
  SHA-256 sum in hexadecimal; the clock is the argument \<open>now\<close>. The map is an association list
  in iteration order. A result is shared by pointer between the cache and its callers, so a
  hit counts its access in the cache as well.
\<close>

record CachedResult =
  cr_Fingerprint :: string
  cr_OriginalSize :: int
  cr_Compressed :: string
  cr_CompressedSize :: int
  cr_TokensSaved :: int
  cr_CreatedAt :: gotime
  cr_ExpiresAt :: gotime
  cr_AccessCount :: int

record FingerprintResult =
  fr_Hash :: string
  fr_Hit :: bool
  fr_Cached :: "CachedResult option"

record FingerprintCache =
  fc_cache :: "(string \<times> CachedResult) list"
  fc_maxEntries :: int
  fc_ttl :: duration
  fc_hits :: int
  fc_misses :: int

record CacheStats =
  cs_Entries :: int
  cs_MaxEntries :: int
  cs_Hits :: int
  cs_Misses :: int
  cs_HitRate :: rat

definition NewFingerprintCache :: "int \<Rightarrow> duration \<Rightarrow> FingerprintCache" where
  "NewFingerprintCache maxEntries ttl =
     \<lparr>fc_cache = [], fc_maxEntries = maxEntries, fc_ttl = ttl, fc_hits = 0, fc_misses = 0\<rparr>"

definition ComputeFingerprint :: "(string \<Rightarrow> string) \<Rightarrow> string \<Rightarrow> string" where
  "ComputeFingerprint sha content = take 16 (sha content)"

definition GetByFingerprint ::
  "gotime \<Rightarrow> string \<Rightarrow> FingerprintCache \<Rightarrow> FingerprintResult \<times> FingerprintCache" where
  "GetByFingerprint now fp fc =
     (let result = \<lparr>fr_Hash = fp, fr_Hit = False, fr_Cached = None\<rparr>
      in case al_get (fc_cache fc) fp of
           None \<Rightarrow> (result, fc\<lparr>fc_misses := fc_misses fc + 1\<rparr>)
         | Some cached \<Rightarrow>
             if now < cr_ExpiresAt cached
             then (let cached = cached\<lparr>cr_AccessCount := cr_AccessCount cached + 1\<rparr>
                   in (result\<lparr>fr_Hit := True, fr_Cached := Some cached\<rparr>,
                       fc\<lparr>fc_cache := al_put fp cached (fc_cache fc), fc_hits := fc_hits fc + 1\<rparr>))
             else (result, fc))"

definition fc_Get ::
  "(string \<Rightarrow> string) \<Rightarrow> gotime \<Rightarrow> string \<Rightarrow> FingerprintCache \<Rightarrow> FingerprintResult \<times> FingerprintCache" where
  "fc_Get sha now content fc = GetByFingerprint now (ComputeFingerprint sha content) fc"

fun fc_oldest :: "(string \<times> CachedResult) list \<Rightarrow> string \<Rightarrow> gotime \<Rightarrow> string" where
  "fc_oldest [] oldestKey oldestTime = oldestKey"
| "fc_oldest ((k, v) # m) oldestKey oldestTime =
     (if oldestKey = [] \<or> cr_CreatedAt v < oldestTime then fc_oldest m k (cr_CreatedAt v)
      else fc_oldest m oldestKey oldestTime)"

definition fc_evictOldest :: "FingerprintCache \<Rightarrow> FingerprintCache" where
  "fc_evictOldest fc =
     (let oldestKey = fc_oldest (fc_cache fc) [] 0
      in if oldestKey \<noteq> [] then fc\<lparr>fc_cache := al_del oldestKey (fc_cache fc)\<rparr> else fc)"

definition SetByFingerprint ::
  "gotime \<Rightarrow> string \<Rightarrow> string \<Rightarrow> string \<Rightarrow> int \<Rightarrow> FingerprintCache \<Rightarrow> FingerprintCache" where
  "SetByFingerprint now fp original compressed tokensSaved fc =
     (let fc = (if len (fc_cache fc) \<ge> fc_maxEntries fc then fc_evictOldest fc else fc)
      in fc\<lparr>fc_cache := al_put fp
              \<lparr>cr_Fingerprint = fp, cr_OriginalSize = len original, cr_Compressed = compressed,
               cr_CompressedSize = len compressed, cr_TokensSaved = tokensSaved,
               cr_CreatedAt = now, cr_ExpiresAt = now + fc_ttl fc, cr_AccessCount = 0\<rparr> (fc_cache fc)\<rparr>)"

definition fc_Set ::
  "(string \<Rightarrow> string) \<Rightarrow> gotime \<Rightarrow> string \<Rightarrow> string \<Rightarrow> int \<Rightarrow> FingerprintCache \<Rightarrow> FingerprintCache" where
  "fc_Set sha now content compressed tokensSaved fc =
     SetByFingerprint now (ComputeFingerprint sha content) content compressed tokensSaved fc"

definition computeHitRate :: "FingerprintCache \<Rightarrow> rat" where
  "computeHitRate fc =
     (let total' = fc_hits fc + fc_misses fc
      in if total' = 0 then 0 else fdiv (of_int64 (fc_hits fc)) (of_int64 total'))"

definition fc_Stats :: "FingerprintCache \<Rightarrow> CacheStats" where
  "fc_Stats fc =
     \<lparr>cs_Entries = len (fc_cache fc), cs_MaxEntries = fc_maxEntries fc, cs_Hits = fc_hits fc,
      cs_Misses = fc_misses fc, cs_HitRate = computeHitRate fc\<rparr>"

definition fc_Clear :: "FingerprintCache \<Rightarrow> FingerprintCache" where
  "fc_Clear fc = fc\<lparr>fc_cache := [], fc_hits := 0, fc_misses := 0\<rparr>"

definition fc_Prune :: "gotime \<Rightarrow> FingerprintCache \<Rightarrow> int \<times> FingerprintCache" where
  "fc_Prune now fc =
     (let kept = filter (\<lambda>(k, v). \<not> now > cr_ExpiresAt v) (fc_cache fc)
      in (len (fc_cache fc) - len kept, fc\<lparr>fc_cache := kept\<rparr>))"

definition fc_Size :: "FingerprintCache \<Rightarrow> int" where
  "fc_Size fc = len (fc_cache fc)"

definition GetGlobalCache :: FingerprintCache where
  "GetGlobalCache = NewFingerprintCache 10000 (24 * Hour)"

section \<open>Invariant and eviction\<close>

definition fc_inv :: "FingerprintCache \<Rightarrow> bool" where
  "fc_inv fc \<longleftrightarrow> distinct (al_keys (fc_cache fc)) \<and> [] \<notin> set (al_keys (fc_cache fc)) \<and>
     len (fc_cache fc) \<le> max 1 (fc_maxEntries fc)"

lemma fc_oldest_in:
  "oldestKey \<noteq> [] \<or> m \<noteq> [] \<Longrightarrow> [] \<notin> set (al_keys m) \<Longrightarrow>
     fc_oldest m oldestKey t \<in> insert oldestKey (set (al_keys m)) - {[]}"
proof (induction m oldestKey t rule: fc_oldest.induct)
  case (2 k v m oldestKey t)
  then show ?case by (cases "oldestKey = [] \<or> cr_CreatedAt v < t") auto
qed simp

text \<open>The entry chosen is one of the oldest.\<close>

definition is_oldest :: "string \<Rightarrow> (string \<times> CachedResult) list \<Rightarrow> bool" where
  "is_oldest r m \<longleftrightarrow> (\<exists>v. (r, v) \<in> set m \<and> (\<forall>(k', v') \<in> set m. cr_CreatedAt v \<le> cr_CreatedAt v'))"

lemma is_oldest_drop:
  assumes "is_oldest r (a # m)" "cr_CreatedAt (snd a) \<le> cr_CreatedAt (snd b)"
  shows "is_oldest r (a # b # m)" "is_oldest r (b # a # m)"
proof -
  obtain v where v: "(r, v) \<in> set (a # m)" "\<forall>(k', v') \<in> set (a # m). cr_CreatedAt v \<le> cr_CreatedAt v'"
    using assms(1) unfolding is_oldest_def by blast
  then have "cr_CreatedAt v \<le> cr_CreatedAt (snd b)" using assms(2) by (cases a) force
  with v show "is_oldest r (a # b # m)" "is_oldest r (b # a # m)" unfolding is_oldest_def by (cases b, auto)+
qed

lemma fc_oldest_min:
  assumes "[] \<notin> set (al_keys m)" "k0 \<noteq> []"
  shows "is_oldest (fc_oldest m k0 (cr_CreatedAt v0)) ((k0, v0) # m)"
  using assms
proof (induction m arbitrary: k0 v0)
  case (Cons a m)
  obtain k v where a: "a = (k, v)" by force
  with Cons.prems have ne: "[] \<notin> set (al_keys m)" "k \<noteq> []" by auto
  show ?case
  proof (cases "cr_CreatedAt v < cr_CreatedAt v0")
    case True
    then show ?thesis using is_oldest_drop(2) [OF Cons.IH [OF ne, of v], of "(k0, v0)"] Cons.prems by (simp add: a)
  next
    case False
    then show ?thesis using is_oldest_drop(1) [OF Cons.IH [OF ne(1) Cons.prems(2), of v0], of a] Cons.prems by (simp add: a)
  qed
qed (simp add: is_oldest_def)

lemma fc_oldest_oldest:
  assumes "[] \<notin> set (al_keys m)" "m \<noteq> []"
  shows "is_oldest (fc_oldest m [] t) m"
  using fc_oldest_min [of "tl m" "fst (hd m)" "snd (hd m)"] assms by (cases m) auto

lemma evictOldest_cache:
  assumes "fc_inv fc" "fc_cache fc \<noteq> []"
  obtains k v where "(k, v) \<in> set (fc_cache fc)" "fc_evictOldest fc = fc\<lparr>fc_cache := al_del k (fc_cache fc)\<rparr>"
    "\<forall>(k', v') \<in> set (fc_cache fc). cr_CreatedAt v \<le> cr_CreatedAt v'"
proof -
  have inv: "[] \<notin> set (al_keys (fc_cache fc))" using assms(1) by (auto simp: fc_inv_def)
  from fc_oldest_oldest [OF inv assms(2)] obtain v where
    v: "(fc_oldest (fc_cache fc) [] 0, v) \<in> set (fc_cache fc)"
      "\<forall>(k', v') \<in> set (fc_cache fc). cr_CreatedAt v \<le> cr_CreatedAt v'" unfolding is_oldest_def by blast
  then have "fc_oldest (fc_cache fc) [] 0 \<noteq> []" using inv by force
  then show ?thesis using that [OF v(1) _ v(2)] by (simp add: fc_evictOldest_def Let_def)
qed

text \<open>The room that eviction makes.\<close>

lemma evictOldest_facts:
  assumes "fc_inv fc"
  shows "distinct (al_keys (fc_cache (fc_evictOldest fc)))" "[] \<notin> set (al_keys (fc_cache (fc_evictOldest fc)))"
    "len (fc_cache (fc_evictOldest fc)) = max 0 (len (fc_cache fc) - 1)"
    "fc_maxEntries (fc_evictOldest fc) = fc_maxEntries fc" "fc_ttl (fc_evictOldest fc) = fc_ttl fc"
    "al_get (fc_cache (fc_evictOldest fc)) k = Some v \<Longrightarrow> al_get (fc_cache fc) k = Some v"
proof -
  have "distinct (al_keys (fc_cache (fc_evictOldest fc))) \<and> [] \<notin> set (al_keys (fc_cache (fc_evictOldest fc))) \<and>
    len (fc_cache (fc_evictOldest fc)) = max 0 (len (fc_cache fc) - 1) \<and>
    fc_maxEntries (fc_evictOldest fc) = fc_maxEntries fc \<and> fc_ttl (fc_evictOldest fc) = fc_ttl fc \<and>
    (al_get (fc_cache (fc_evictOldest fc)) k = Some v \<longrightarrow> al_get (fc_cache fc) k = Some v)"
  proof (cases "fc_cache fc = []")
    case True
    then show ?thesis by (simp add: fc_evictOldest_def)
  next
    case False
    obtain k' v' where k': "(k', v') \<in> set (fc_cache fc)"
      "fc_evictOldest fc = fc\<lparr>fc_cache := al_del k' (fc_cache fc)\<rparr>"
      using evictOldest_cache [OF assms False] by metis
    moreover have "k' \<in> set (al_keys (fc_cache fc))" using k'(1) by force
    moreover have "1 \<le> len (fc_cache fc)" using False by (cases "fc_cache fc") auto
    ultimately show ?thesis using assms by (auto simp: fc_inv_def len_al_del split: if_splits)
  qed
  then show "distinct (al_keys (fc_cache (fc_evictOldest fc)))" "[] \<notin> set (al_keys (fc_cache (fc_evictOldest fc)))"
    "len (fc_cache (fc_evictOldest fc)) = max 0 (len (fc_cache fc) - 1)"
    "fc_maxEntries (fc_evictOldest fc) = fc_maxEntries fc" "fc_ttl (fc_evictOldest fc) = fc_ttl fc"
    "al_get (fc_cache (fc_evictOldest fc)) k = Some v \<Longrightarrow> al_get (fc_cache fc) k = Some v" by auto
qed

lemma SetByFingerprint_inv [go_inv]:
  assumes "fc_inv fc" "fp \<noteq> []"
  shows "fc_inv (SetByFingerprint now fp original compressed saved fc)"
proof -
  note ev = evictOldest_facts [OF assms(1)]
  show ?thesis
  proof (cases "len (fc_cache fc) \<ge> fc_maxEntries fc")
    case True
    with assms ev(1-4) show ?thesis
      by (auto simp: SetByFingerprint_def Let_def fc_inv_def length_al_put)
  next
    case False
    with assms show ?thesis by (auto simp: SetByFingerprint_def Let_def fc_inv_def length_al_put)
  qed
qed

lemma GetByFingerprint_inv [go_inv]: "fc_inv fc \<Longrightarrow> fc_inv (snd (GetByFingerprint now fp fc))"
  by (auto simp: GetByFingerprint_def fc_inv_def Let_def length_al_put dest: al_get_Some_key split: option.splits)

lemma fc_Prune_inv [go_inv]:
  assumes "fc_inv fc"
  shows "fc_inv (snd (fc_Prune now fc))"
proof -
  define kept where "kept = filter (\<lambda>(k, v). \<not> now > cr_ExpiresAt v) (fc_cache fc)"
  have "len kept \<le> len (fc_cache fc)" by (simp add: kept_def)
  moreover have "distinct (al_keys kept)" "[] \<notin> set (al_keys kept)"
    using assms unfolding kept_def fc_inv_def by (auto intro: distinct_map_filter)
  moreover have "snd (fc_Prune now fc) = fc\<lparr>fc_cache := kept\<rparr>" by (simp add: fc_Prune_def kept_def Let_def)
  ultimately show ?thesis using assms unfolding fc_inv_def by simp
qed

definition fc_lookup :: "FingerprintCache \<Rightarrow> string \<Rightarrow> (string \<times> int) option" where
  "fc_lookup fc fp = map_option (\<lambda>r. (cr_Compressed r, cr_TokensSaved r)) (al_get (fc_cache fc) fp)"

lemma SetByFingerprint_get:
  "al_get (fc_cache (SetByFingerprint now fp original compressed saved fc)) fp =
     Some \<lparr>cr_Fingerprint = fp, cr_OriginalSize = len original, cr_Compressed = compressed,
           cr_CompressedSize = len compressed, cr_TokensSaved = saved,
           cr_CreatedAt = now, cr_ExpiresAt = now + fc_ttl fc, cr_AccessCount = 0\<rparr>"
  "fc_maxEntries (SetByFingerprint now fp original compressed saved fc) = fc_maxEntries fc"
  by (simp_all add: SetByFingerprint_def Let_def fc_evictOldest_def)

lemma SetByFingerprint_other:
  assumes "fc_inv fc" "k \<noteq> fp" "fc_lookup (SetByFingerprint now fp original compressed saved fc) k = Some w"
  shows "fc_lookup fc k = Some w"
proof -
  let ?fc = "if len (fc_cache fc) \<ge> fc_maxEntries fc then fc_evictOldest fc else fc"
  have "fc_lookup ?fc k = Some w"
    using assms(2,3) by (simp add: SetByFingerprint_def Let_def fc_lookup_def)
  then show ?thesis using evictOldest_facts(6) [OF assms(1), of k] by (auto simp: fc_lookup_def split: if_splits)
qed

interpretation fcache: bounded_cache fc_inv "\<lambda>fp. fp \<noteq> []" fc_lookup
  "\<lambda>fp (compressed, saved) fc. Some (SetByFingerprint now fp original compressed saved fc)"
  fc_Size "\<lambda>fc. max 1 (fc_maxEntries fc)" for now original
proof unfold_locales
  fix fc k k' :: string and v w :: "string \<times> int" and c c'
  assume inv: "fc_inv c" "k \<noteq> []" and st: "(case v of (compressed, saved) \<Rightarrow>
    \<lambda>fc. Some (SetByFingerprint now k original compressed saved fc)) c = Some c'"
  obtain comp saved where v: "v = (comp, saved)" by force
  have c': "c' = SetByFingerprint now k original comp saved c" using st v by simp
  show "fc_inv c'" unfolding c' by (rule SetByFingerprint_inv [OF inv])
  show "fc_lookup c' k = Some v" unfolding c' v by (simp add: fc_lookup_def SetByFingerprint_get)
  show "max 1 (fc_maxEntries c') = max 1 (fc_maxEntries c)"
    unfolding c' by (simp add: SetByFingerprint_get)
  assume "k' \<noteq> k" "fc_lookup c' k' = Some w"
  then show "fc_lookup c k' = Some w"
    unfolding c' by (rule SetByFingerprint_other [OF inv(1)])
qed (auto simp: fc_inv_def fc_Size_def split: prod.splits)

section \<open>Properties\<close>

text \<open>
  A result stored under a content is served, until it expires and until it is evicted or
  replaced, to every content with the same sixteen-digit fingerprint: the lookup compares no
  content. Right after the store the lookup hits exactly within the time to live, and an
  expired entry counts neither as a hit nor as a miss.
\<close>

theorem fingerprint_get_after_set:
  assumes "ComputeFingerprint sha content' = ComputeFingerprint sha content"
    and "fc_Set sha now content compressed saved fc = fc1" "fc_Get sha later content' fc1 = (r, fc2)"
  shows "(fr_Hit r \<longleftrightarrow> later < now + fc_ttl fc) \<and>
    (fr_Hit r \<longrightarrow> (\<exists>c. fr_Cached r = Some c \<and> cr_Compressed c = compressed \<and> cr_TokensSaved c = saved \<and>
       cr_OriginalSize c = len content)) \<and>
    (\<not> fr_Hit r \<longrightarrow> fc2 = fc1)"
  using assms unfolding fc_Set_def fc_Get_def GetByFingerprint_def
  by (auto simp: SetByFingerprint_get Let_def split: if_splits)

theorem fingerprint_get_after_set_witness:
  "fr_Hit (fst (fc_Get id 5 ''x'' (fc_Set id 1 ''x'' ''c'' 3 (NewFingerprintCache 10 60))))"
  using fingerprint_get_after_set [of id "''x''" "''x''" 1 "''c''" 3 "NewFingerprintCache 10 60" _ 5
      "fst (fc_Get id 5 ''x'' (fc_Set id 1 ''x'' ''c'' 3 (NewFingerprintCache 10 60)))"
      "snd (fc_Get id 5 ''x'' (fc_Set id 1 ''x'' ''c'' 3 (NewFingerprintCache 10 60)))"]
  by (simp add: NewFingerprintCache_def)

text \<open>
  A store into a full cache removes an oldest entry even when it replaces an entry that is
  already there, so replacing a younger entry in a full cache loses an unrelated one; and
  whatever is stored, what a lookup returns is the latest value stored under its fingerprint
  and the number of entries stays within the limit.
\<close>

theorem fingerprint_full_store_evicts:
  assumes "fc_inv fc" "fc_cache fc \<noteq> []" "fc_maxEntries fc \<le> fc_Size fc" "fp \<noteq> []"
  shows "\<exists>k v. (k, v) \<in> set (fc_cache fc) \<and> (\<forall>(k', v') \<in> set (fc_cache fc). cr_CreatedAt v \<le> cr_CreatedAt v') \<and>
    (let fc' = SetByFingerprint now fp original compressed saved fc
     in fc_inv fc' \<and> (\<forall>k'. fc_lookup fc' k' =
          (if k' = fp then Some (compressed, saved) else if k' = k then None else fc_lookup fc k')))"
proof -
  obtain k v where k: "(k, v) \<in> set (fc_cache fc)" "fc_evictOldest fc = fc\<lparr>fc_cache := al_del k (fc_cache fc)\<rparr>"
    "\<forall>(k', v') \<in> set (fc_cache fc). cr_CreatedAt v \<le> cr_CreatedAt v'"
    using evictOldest_cache [OF assms(1,2)] by metis
  then show ?thesis
    using assms SetByFingerprint_inv [OF assms(1,4)]
    by (intro exI [of _ k] exI [of _ v]) (auto simp: Let_def SetByFingerprint_def fc_lookup_def fc_Size_def)
qed

theorem fingerprint_full_store_evicts_witness:
  "let fc = SetByFingerprint 2 ''b'' [] ''B'' 0 (SetByFingerprint 1 ''a'' [] ''A'' 0 (NewFingerprintCache 2 60))
   in fc_lookup fc ''a'' = Some (''A'', 0) \<and>
      fc_lookup (SetByFingerprint 3 ''b'' [] ''B2'' 0 fc) ''a'' = None"
proof -
  define fc where "fc = SetByFingerprint 2 ''b'' [] ''B'' 0 (SetByFingerprint 1 ''a'' [] ''A'' 0 (NewFingerprintCache 2 60))"
  have fc: "map (\<lambda>(k, v). (k, cr_CreatedAt v)) (fc_cache fc) = [(''a'', 1), (''b'', 2)]" "fc_maxEntries fc = 2"
    "fc_lookup fc ''a'' = Some (''A'', 0)" "fc_inv fc" unfolding fc_def by code_simp+
  then have "fc_cache fc \<noteq> []" "fc_maxEntries fc \<le> fc_Size fc"
    using arg_cong [OF fc(1), of length] by (auto simp: fc_Size_def)
  from fingerprint_full_store_evicts [OF fc(4) this, of "''b''" 3 "[]" "''B2''" 0] obtain k v where
    k: "(k, v) \<in> set (fc_cache fc)" "\<forall>(k', v') \<in> set (fc_cache fc). cr_CreatedAt v \<le> cr_CreatedAt v'"
      "fc_lookup (SetByFingerprint 3 ''b'' [] ''B2'' 0 fc) k = (if k = ''b'' then Some (''B2'', 0) else None)"
    by (auto simp: Let_def)
  have "k = ''a''" using k(1,2) fc(1) by (cases "fc_cache fc") auto
  with k(3) fc(3) show ?thesis by (simp add: fc_def)
qed

end
