(* ===== verification/Dedup.thy ===== *)
theory Dedup
  imports Go_Prelude "HOL-Library.Word"
begin

text \<open>
  Cross-message deduplication (\<^verbatim>\<open>internal/filter/dedup.go\<close>): the SimHash fingerprint, the
  Hamming distance and the tracker of messages already seen. Hashes are 64-bit words, so the
  products of FNV-1a (\<^verbatim>\<open>hash/fnv\<close>) wrap. The tracker's map is an association list in
  iteration order; \<open>iter\<close> gives the order in which Go ranges over a set of lines, of which
  only the members are known.
\<close>

unbundle bit_operations_syntax

definition fnv64a :: "string \<Rightarrow> 64 word" where
  "fnv64a s = foldl (\<lambda>h c. (h XOR of_char c) * 1099511628211) 14695981039346656037 s"

fun trigrams :: "string \<Rightarrow> string list" where
  "trigrams (a # b # c # s) = [a, b, c] # trigrams (b # c # s)"
| "trigrams _ = []"

definition simhash_vote :: "int list \<Rightarrow> 64 word \<Rightarrow> int list" where
  "simhash_vote v hash = map (\<lambda>j. if hash AND push_bit j 1 \<noteq> 0 then v ! j + 1 else v ! j - 1) [0..<64]"

definition SimHash :: "string \<Rightarrow> 64 word" where
  "SimHash content =
     (let v = foldl simhash_vote (replicate 64 0) (map fnv64a (trigrams content))
      in foldl (\<lambda>result j. if v ! j > 0 then result OR push_bit j 1 else result) 0 [0..<64])"

section \<open>Counting bits\<close>

text \<open>The reference: the number of one bits of a number, by division.\<close>

fun popcount :: "nat \<Rightarrow> nat" where
  "popcount n = (if n = 0 then 0 else n mod 2 + popcount (n div 2))"

declare popcount.simps [simp del]

lemma popcount_0 [simp]: "popcount 0 = 0"
  by (simp add: popcount.simps)

lemma popcount_double [simp]: "popcount (2 * m) = popcount m" "popcount (Suc (2 * m)) = Suc (popcount m)"
  by (cases "m = 0", simp_all add: popcount.simps [of "2 * m"] popcount.simps [of "Suc (2 * m)"])

text \<open>Kernighan's step: \<open>n AND (n - 1)\<close> clears one bit.\<close>

lemma and_pred_double:
  "2 * m AND (2 * m - 1) = 2 * (m AND (m - 1))" "Suc (2 * m) AND 2 * m = 2 * m" for m :: nat
proof -
  show "2 * m AND (2 * m - 1) = 2 * (m AND (m - 1))"
  proof (cases m)
    case (Suc k)
    then have pred: "2 * m - 1 = Suc (2 * k)" "m - 1 = k" by simp_all
    show ?thesis unfolding pred by (simp add: and_nat_rec [of "2 * m" "Suc (2 * k)"])
  qed simp
  show "Suc (2 * m) AND 2 * m = 2 * m" by (simp add: and_nat_rec [of "Suc (2 * m)"])
qed

lemma popcount_and_pred: "0 < n \<Longrightarrow> Suc (popcount (n AND (n - 1))) = popcount n"
proof (induction n rule: less_induct)
  case (less n)
  show ?case
  proof (cases "even n")
    case True
    then obtain m where m: "n = 2 * m" by (elim evenE)
    with less.prems have "0 < m" by simp
    with less.IH [of m] m show ?thesis by (simp only: and_pred_double popcount_double)
  next
    case False
    then obtain m where "n = Suc (2 * m)" by (metis oddE Suc_eq_plus1)
    then show ?thesis by (simp add: and_pred_double)
  qed
qed

lemma unat_and_pred: "w \<noteq> 0 \<Longrightarrow> unat (w AND (w - 1)) = unat w AND (unat w - 1)" for w :: "64 word"
  by (simp add: unsigned_and_eq unat_minus_one)

lemma popcount_word: "popcount (unat w) = card {n. bit w n}" for w :: "64 word"
proof -
  have "popcount m = card {n. bit m n} \<and> finite {n. bit m n}" for m :: nat
  proof (induction m rule: less_induct)
    case (less m)
    show ?case
    proof (cases "m = 0")
      case False
      let ?S = "{n. bit (m div 2) n}"
      have IH: "popcount (m div 2) = card ?S" "finite ?S" using less.IH [of "m div 2"] False by auto
      have "n \<in> {n. bit m n} \<longleftrightarrow> n \<in> Suc ` ?S \<union> (if odd m then {0} else {})" for n
        by (cases n) (auto simp: bit_Suc bit_0)
      then have S: "{n. bit m n} = Suc ` ?S \<union> (if odd m then {0} else {})" by blast
      have "card {n. bit m n} = card ?S + m mod 2"
        unfolding S using IH(2) by (subst card_Un_disjoint) (auto simp: card_image odd_iff_mod_2_eq_one)
      with S IH False show ?thesis by (simp add: popcount.simps [of m])
    qed simp
  qed
  from this [of "unat w"] show ?thesis by (simp add: bit_unsigned_iff)
qed

section \<open>The distance\<close>

function hamming_loop :: "64 word \<Rightarrow> int \<Rightarrow> int" where
  "hamming_loop x dist = (if x = 0 then dist else hamming_loop (x AND (x - 1)) (dist + 1))"
  by auto

termination
proof (relation "measure (\<lambda>(x, dist). popcount (unat x))")
  fix x :: "64 word" and dist :: int
  assume "x \<noteq> 0"
  then have "Suc (popcount (unat (x AND (x - 1)))) = popcount (unat x)"
    using popcount_and_pred [of "unat x"] by (simp add: unat_and_pred unat_gt_0)
  then show "((x AND (x - 1), dist + 1), (x, dist)) \<in> measure (\<lambda>(x, dist). popcount (unat x))" by simp
qed simp

declare hamming_loop.simps [simp del]

definition HammingDistance :: "64 word \<Rightarrow> 64 word \<Rightarrow> int" where
  "HammingDistance a b = hamming_loop (a XOR b) 0"

definition IsNearDuplicate :: "string \<Rightarrow> string \<Rightarrow> int \<Rightarrow> bool" where
  "IsNearDuplicate a b threshold \<longleftrightarrow> HammingDistance (SimHash a) (SimHash b) \<le> threshold"

section \<open>The tracker\<close>

record CrossMessageDedup =
  cm_seen :: "(64 word \<times> string) list"
  cm_threshold :: int

definition NewCrossMessageDedup :: CrossMessageDedup where
  "NewCrossMessageDedup = \<lparr>cm_seen = [], cm_threshold = 3\<rparr>"

definition generateDiff :: "(string list \<Rightarrow> string list) \<Rightarrow> string \<Rightarrow> string \<Rightarrow> string" where
  "generateDiff iter old new =
     (let oldLines = split_lines old; newLines = split_lines new;
          removed = map (\<lambda>l. ''- '' @ l) (filter (\<lambda>l. l \<notin> set newLines) (iter oldLines));
          added = map (\<lambda>l. ''+ '' @ l) (filter (\<lambda>l. l \<notin> set oldLines) (iter newLines))
      in if added = [] \<and> removed = [] then []
         else ''[diff]'' @ [nl] @ join_lines removed
              @ (if removed \<noteq> [] \<and> added \<noteq> [] then [nl] else []) @ join_lines added)"

fun near_match :: "64 word \<Rightarrow> int \<Rightarrow> (64 word \<times> string) list \<Rightarrow> string option" where
  "near_match hash threshold [] = None"
| "near_match hash threshold ((seenHash, orig) # m) =
     (if HammingDistance hash seenHash \<le> threshold then Some orig else near_match hash threshold m)"

definition DedupMessage ::
  "(string list \<Rightarrow> string list) \<Rightarrow> string \<Rightarrow> CrossMessageDedup \<Rightarrow> (bool \<times> string) \<times> CrossMessageDedup" where
  "DedupMessage iter content d =
     (let hash = SimHash content
      in if al_get (cm_seen d) hash = Some content
         then ((True, ''[duplicate: previously sent]''), d)
         else (case near_match hash (cm_threshold d) (cm_seen d) of
                 Some orig \<Rightarrow>
                   (let diff = generateDiff iter orig content
                    in if diff \<noteq> [] then ((True, diff), d)
                       else ((True, ''[near-duplicate: '' @ take 50 orig @ ''...]''), d))
               | None \<Rightarrow> ((False, content), d\<lparr>cm_seen := al_put hash content (cm_seen d)\<rparr>)))"

definition cm_Clear :: "CrossMessageDedup \<Rightarrow> CrossMessageDedup" where
  "cm_Clear d = d\<lparr>cm_seen := []\<rparr>"

definition cm_Count :: "CrossMessageDedup \<Rightarrow> int" where
  "cm_Count d = len (cm_seen d)"

section \<open>Lemmas on the distance and the tracker\<close>

lemma hamming_loop_popcount: "hamming_loop x dist = dist + int (popcount (unat x))"
proof (induction x dist rule: hamming_loop.induct)
  case (1 x dist)
  show ?case
  proof (cases "x = 0")
    case False
    then have "Suc (popcount (unat (x AND (x - 1)))) = popcount (unat x)"
      using popcount_and_pred [of "unat x"] by (simp add: unat_and_pred unat_gt_0)
    then show ?thesis using 1 False by (simp add: hamming_loop.simps [of x])
  qed (simp add: hamming_loop.simps)
qed

lemma Hamming_card: "HammingDistance a b = int (card {n. bit a n \<noteq> bit b n})"
proof -
  have "{n. bit (a XOR b) n} = {n. bit a n \<noteq> bit b n}" by (auto simp: bit_xor_iff)
  then show ?thesis by (simp add: HammingDistance_def hamming_loop_popcount popcount_word)
qed

lemma finite_diff_bits: "finite {n. bit a n \<noteq> bit b n}" for a b :: "64 word"
  by (rule finite_subset [of _ "{..<64}"]) (auto dest: bit_imp_le_length)

lemma near_match_None: "near_match h t m = None \<longleftrightarrow> (\<forall>k \<in> set (al_keys m). t < HammingDistance h k)"
  by (induction h t m rule: near_match.induct) auto

lemma near_match_Some: "near_match h t m = Some orig \<Longrightarrow> \<exists>k. (k, orig) \<in> set m \<and> HammingDistance h k \<le> t"
  by (induction h t m rule: near_match.induct) (auto split: if_splits)

lemma Hamming_self [simp]: "HammingDistance a a = 0"
  by (simp add: Hamming_card)

lemma generateDiff_empty:
  assumes "\<And>ls. set (iter ls) = set ls"
  shows "generateDiff iter old new = [] \<longleftrightarrow> set (split_lines old) = set (split_lines new)"
  using assms by (auto simp: generateDiff_def Let_def filter_empty_conv)

text \<open>What the tracker holds: every message under its own hash, and no two hashes within the
  threshold of each other.\<close>

definition dedup_inv :: "CrossMessageDedup \<Rightarrow> bool" where
  "dedup_inv d \<longleftrightarrow> 0 \<le> cm_threshold d \<and> (\<forall>(k, c) \<in> set (cm_seen d). k = SimHash c) \<and>
     (\<forall>k \<in> set (al_keys (cm_seen d)). \<forall>k' \<in> set (al_keys (cm_seen d)). k \<noteq> k' \<longrightarrow> cm_threshold d < HammingDistance k k')"

lemma Hamming_sym: "HammingDistance a b = HammingDistance b a"
proof -
  have "{n. bit a n \<noteq> bit b n} = {n. bit b n \<noteq> bit a n}" by auto
  then show ?thesis by (simp add: Hamming_card)
qed

lemma dedup_inv_New [simp, go_inv]: "dedup_inv NewCrossMessageDedup"
  by (simp add: dedup_inv_def NewCrossMessageDedup_def)

lemma dedup_inv_step [go_inv]:
  assumes "dedup_inv d"
  shows "dedup_inv (snd (DedupMessage iter content d))"
proof (cases "al_get (cm_seen d) (SimHash content) = Some content \<or>
    near_match (SimHash content) (cm_threshold d) (cm_seen d) \<noteq> None")
  case True
  then have "snd (DedupMessage iter content d) = d"
    by (auto simp: DedupMessage_def Let_def split: option.splits)
  with assms show ?thesis by simp
next
  case False
  then have far: "\<forall>k \<in> set (al_keys (cm_seen d)). cm_threshold d < HammingDistance (SimHash content) k"
    by (simp add: near_match_None)
  have eq: "snd (DedupMessage iter content d) = d\<lparr>cm_seen := al_put (SimHash content) content (cm_seen d)\<rparr>"
    using False by (simp add: DedupMessage_def Let_def)
  have "\<forall>(k, c) \<in> set (al_put (SimHash content) content (cm_seen d)). k = SimHash c"
    using assms set_al_put [of "SimHash content" content "cm_seen d"] unfolding dedup_inv_def by blast
  moreover have "cm_threshold d < HammingDistance k k'"
    if "k \<in> insert (SimHash content) (fst ` set (cm_seen d))" "k' \<in> insert (SimHash content) (fst ` set (cm_seen d))"
      "k \<noteq> k'" for k k'
  proof -
    have seen: "cm_threshold d < HammingDistance k k'"
      if "k \<in> set (al_keys (cm_seen d))" "k' \<in> set (al_keys (cm_seen d))" "k \<noteq> k'"
      using assms that unfolding dedup_inv_def by blast
    show ?thesis using that far seen Hamming_sym [of k k'] by auto
  qed
  ultimately show ?thesis using assms unfolding eq dedup_inv_def by simp
qed

section \<open>Properties\<close>

text \<open>
  The distance loop, which clears the lowest set bit until none is left, ends and returns
  the number of bit positions in which the hashes differ. It is a metric on hashes, at most 64.
\<close>

theorem HammingDistance_counts_bits:
  "HammingDistance a b = int (card {n. bit a n \<noteq> bit b n}) \<and>
   (HammingDistance a b = 0 \<longleftrightarrow> a = b) \<and> HammingDistance a b = HammingDistance b a \<and>
   HammingDistance a c \<le> HammingDistance a b + HammingDistance b c \<and> HammingDistance a b \<le> 64"
proof -
  have "HammingDistance a b = 0 \<longleftrightarrow> a = b"
  proof -
    have "HammingDistance a b = 0 \<longleftrightarrow> {n. bit a n \<noteq> bit b n} = {}"
      using finite_diff_bits [of a b] by (simp add: Hamming_card)
    also have "\<dots> \<longleftrightarrow> (\<forall>n. bit a n \<longleftrightarrow> bit b n)" by blast
    also have "\<dots> \<longleftrightarrow> a = b" by (auto intro: bit_eqI)
    finally show ?thesis .
  qed
  moreover have "{n. bit a n \<noteq> bit c n} \<subseteq> {n. bit a n \<noteq> bit b n} \<union> {n. bit b n \<noteq> bit c n}" by auto
  then have "card {n. bit a n \<noteq> bit c n} \<le> card {n. bit a n \<noteq> bit b n} + card {n. bit b n \<noteq> bit c n}"
    by (rule order_trans [OF card_mono [OF finite_UnI [OF finite_diff_bits finite_diff_bits]] card_Un_le])
  moreover have "card {n. bit a n \<noteq> bit b n} \<le> card {..<64::nat}"
    by (rule card_mono) (auto dest: bit_imp_le_length)
  ultimately show ?thesis using Hamming_sym [of a b] by (simp add: Hamming_card)
qed

text \<open>
  A message is passed on unchanged exactly when no message already kept has a fingerprint
  within the threshold; then it is kept too. Otherwise it is reported as a duplicate and the
  tracker is unchanged. So the fingerprints kept stay pairwise further apart than the
  threshold.
\<close>

theorem DedupMessage_spec:
  assumes "dedup_inv d"
  shows "dedup_inv (snd (DedupMessage iter content d)) \<and>
    (if \<exists>(k, c) \<in> set (cm_seen d). IsNearDuplicate content c (cm_threshold d)
     then fst (fst (DedupMessage iter content d)) \<and> snd (DedupMessage iter content d) = d
     else DedupMessage iter content d =
       ((False, content), d\<lparr>cm_seen := al_put (SimHash content) content (cm_seen d)\<rparr>))"
proof -
  let ?h = "SimHash content" and ?near = "\<exists>(k, c) \<in> set (cm_seen d). IsNearDuplicate content c (cm_threshold d)"
  have near: "?near \<longleftrightarrow> near_match ?h (cm_threshold d) (cm_seen d) \<noteq> None"
    using assms unfolding near_match_None dedup_inv_def IsNearDuplicate_def
    by (fastforce simp: not_less)
  moreover have "al_get (cm_seen d) ?h = Some content \<Longrightarrow> ?near"
    using assms unfolding dedup_inv_def IsNearDuplicate_def by (force dest: al_get_Some_in)
  ultimately show ?thesis
    using dedup_inv_step [OF assms] by (auto simp: DedupMessage_def Let_def split: option.splits)
qed

theorem DedupMessage_spec_witness:
  "dedup_inv (snd (DedupMessage remdups ''hello'' NewCrossMessageDedup)) \<and>
   fst (DedupMessage remdups ''hello'' NewCrossMessageDedup) = (False, ''hello'')"
  using DedupMessage_spec [OF dedup_inv_New, of remdups "''hello''"] by (simp only: NewCrossMessageDedup_def) simp

text \<open>
  Messages of fewer than three bytes have no trigram, so their fingerprint is 0 and any two
  of them count as near-duplicates: after one has been kept, every other short message is
  reported as a duplicate of it.
\<close>

theorem short_messages_collide:
  assumes "length a < 3" "length b < 3" "0 \<le> cm_threshold d" "cm_seen d = []"
  shows "fst (fst (DedupMessage iter b (snd (DedupMessage iter a d))))"
proof -
  have "SimHash s = 0" if "length s < 3" for s
  proof -
    have "trigrams s = []" using that by (cases s rule: trigrams.cases) auto
    then have "SimHash s = foldl (\<lambda>r j. if (replicate 64 (0::int)) ! j > 0 then r OR push_bit j 1 else r) 0 [0..<64]"
      by (simp add: SimHash_def del: upt_rec_numeral)
    moreover have "foldl (\<lambda>r j. if (replicate 64 (0::int)) ! j > 0 then r OR push_bit j 1 else r) r xs = r"
      if "set xs \<subseteq> {..<64}" for r :: "64 word" and xs
      using that by (induction xs arbitrary: r) auto
    ultimately show ?thesis by (simp add: subset_eq del: upt_rec_numeral)
  qed
  then have "SimHash a = 0" "SimHash b = 0" using assms by auto
  then show ?thesis using assms(3,4) by (auto simp: DedupMessage_def Let_def)
qed

theorem short_messages_collide_witness:
  "fst (fst (DedupMessage remdups ''no'' (snd (DedupMessage remdups ''ok'' NewCrossMessageDedup))))"
  using short_messages_collide [of "''ok''" "''no''" NewCrossMessageDedup remdups] by (simp add: NewCrossMessageDedup_def)

end
