(* ===== verification/Filter_Engine.thy ===== *)
theory Filter_Engine
  imports Pipeline_Types "HOL-Library.Multiset"
begin

text \<open>
  The filter engine and the language detection of \<^verbatim>\<open>internal/filter/filter.go\<close>. The filters
  of the engine come from a record of constructors. The detection ranges over a Go map of
  scores to find the best one; \<open>iter\<close> is the order of that iteration, any permutation.
\<close>

record EngineConfig =
  ec_Mode :: Mode
  ec_QueryIntent :: string
  ec_LLMEnabled :: bool
  ec_MultiFileEnabled :: bool
  ec_PromptTemplate :: string

record Engine =
  en_filters :: "Filter list"
  en_mode :: Mode
  en_queryIntent :: string
  en_promptTemplate :: string

text \<open>The constructors of the filters of the engine.\<close>

record EngineLib =
  el_NewANSIFilter :: Filter
  el_newCommentFilter :: Filter
  el_NewImportFilter :: Filter
  el_NewMultiFileFilter :: "bool \<Rightarrow> Filter"
  el_NewSemanticFilter :: Filter
  el_NewPositionAwareFilter :: Filter
  el_NewHierarchicalFilter :: Filter
  el_NewQueryAwareFilter :: "string \<Rightarrow> Filter"
  el_NewBodyFilter :: Filter

definition NewEngineWithConfig :: "EngineLib \<Rightarrow> EngineConfig \<Rightarrow> Engine" where
  "NewEngineWithConfig L cfg =
     (let filters = [el_NewANSIFilter L, el_newCommentFilter L, el_NewImportFilter L];
          filters = (if ec_MultiFileEnabled cfg then filters @ [el_NewMultiFileFilter L True] else filters);
          filters = filters @ [el_NewSemanticFilter L, el_NewPositionAwareFilter L, el_NewHierarchicalFilter L];
          filters = (if ec_QueryIntent cfg \<noteq> [] then filters @ [el_NewQueryAwareFilter L (ec_QueryIntent cfg)]
                     else filters);
          filters = (if ec_Mode cfg = ModeAggressive then filters @ [el_NewBodyFilter L] else filters)
      in \<lparr>en_filters = filters, en_mode = ec_Mode cfg, en_queryIntent = ec_QueryIntent cfg,
          en_promptTemplate = ec_PromptTemplate cfg\<rparr>)"

definition NewEngineWithQuery :: "EngineLib \<Rightarrow> Mode \<Rightarrow> string \<Rightarrow> Engine" where
  "NewEngineWithQuery L mode queryIntent =
     NewEngineWithConfig L \<lparr>ec_Mode = mode, ec_QueryIntent = queryIntent, ec_LLMEnabled = False,
       ec_MultiFileEnabled = False, ec_PromptTemplate = []\<rparr>"

definition NewEngine :: "EngineLib \<Rightarrow> Mode \<Rightarrow> Engine" where
  "NewEngine L mode = NewEngineWithQuery L mode []"

fun engine_loop :: "Mode \<Rightarrow> Filter list \<Rightarrow> string \<Rightarrow> int \<Rightarrow> string \<times> int" where
  "engine_loop mode [] output totalSaved = (output, totalSaved)"
| "engine_loop mode (f # filters) output totalSaved =
     (if mode = ModeMinimal \<and> filter_name f = ''body'' then engine_loop mode filters output totalSaved
      else (let (filtered, saved) = filter_apply f output mode
            in engine_loop mode filters filtered (totalSaved + saved)))"

definition engine_Process :: "Engine \<Rightarrow> string \<Rightarrow> string \<times> int" where
  "engine_Process e input = engine_loop (en_mode e) (en_filters e) input 0"

definition ProcessWithLang :: "Engine \<Rightarrow> string \<Rightarrow> string \<Rightarrow> string \<times> int" where
  "ProcessWithLang e input lang = engine_Process e input"

definition SetMode :: "Mode \<Rightarrow> Engine \<Rightarrow> Engine" where
  "SetMode mode e = e\<lparr>en_mode := mode\<rparr>"

section \<open>Code and language detection\<close>

definition codeIndicators :: "string list" where
  "codeIndicators =
     [''func '', ''function '', ''def '', ''class '', ''struct '',
      ''import '', ''package '', ''use '', ''require('',
      ''pub fn'', ''pub struct'', ''pub async'',
      ''//'', ''/*'', ''#!'', ''package main'']"

definition IsCode :: "string \<Rightarrow> bool" where
  "IsCode output \<longleftrightarrow> contains_any output codeIndicators"

definition points :: "bool \<Rightarrow> int \<Rightarrow> int" where
  "points b n = (if b then n else 0)"

definition sqlKeywords :: "string list" where
  "sqlKeywords = [''SELECT'', ''FROM'', ''WHERE'', ''INSERT'', ''UPDATE'', ''DELETE'', ''JOIN'', ''GROUP BY'', ''ORDER BY'']"

definition typeScriptMarks :: "string list" where
  "typeScriptMarks = ['': string'', '': number'', '': boolean'', '': void'', '': any'', '': unknown'',
     ''interface '', ''type '', ''enum '', ''namespace '']"

text \<open>The final score of each language; the points of a language are independent of the others'.\<close>

definition languageScores :: "string \<Rightarrow> (string \<times> int) list" where
  "languageScores output = (let has = contains output; has_any = contains_any output in
     [(''go'', points (has ''func '') 10 + points (has ''package '') 5
         + points (has_any [''import ('', ''fmt.'', '' := '']) 5),
      (''python'',
         points (has ''def '') (if has_any [''self,'', ''self):''] then 10 else 5)
         + points (has ''import '' \<and> has ''from '') 3
         - points (has ''{'' \<and> has ''}'') 5),
      (''rust'', points (has_any [''fn '', ''pub fn'']) 10
         + points (has_any [''impl '', ''trait '', ''let mut'']) 5
         + points (has_any [''&str'', ''Vec<'', ''Option<'']) 10),
      (''javascript'',
         points (has_any [''function '', ''const '', ''let '']) (5 + points (has ''=>'') 3)),
      (''typescript'', points (has_any typeScriptMarks) 15),
      (''java'', points (has_any [''public class '', ''private '', ''protected '']) 5
         + points (has_any [''System.out.'', ''public static void main'']) 10),
      (''c'', points (has ''#include'') 5 + points (has_any [''printf('', ''malloc('']) 10),
      (''cpp'', points (has ''#include'') 5 + points (has_any [''std::'', ''cout'', ''cin'']) 15),
      (''ruby'', points (has_any [''puts '', ''require '' @ [CHR 0x27], ''end'' @ [nl]]) 5
         + points (has ''def '' \<and> \<not> has ''self:'') 3),
      (''sql'', len (filter has sqlKeywords) * 15),
      (''shell'', points (has_any [''chmod'', ''chown'', ''sudo '']) 3)])"

fun bestLanguage :: "(string \<times> int) list \<Rightarrow> string \<Rightarrow> int \<Rightarrow> string" where
  "bestLanguage [] bestLang bestScore = bestLang"
| "bestLanguage ((lang, score) # m) bestLang bestScore =
     (if score > bestScore then bestLanguage m lang score else bestLanguage m bestLang bestScore)"

definition DetectLanguage :: "((string \<times> int) list \<Rightarrow> (string \<times> int) list) \<Rightarrow> string \<Rightarrow> string" where
  "DetectLanguage iter output = bestLanguage (iter (languageScores output)) ''unknown'' 0"

definition DetectLanguageFromInput :: "((string \<times> int) list \<Rightarrow> (string \<times> int) list) \<Rightarrow> string \<Rightarrow> string" where
  "DetectLanguageFromInput iter input = DetectLanguage iter input"

section \<open>Lemmas\<close>

lemma engine_loop_honest:
  assumes "\<forall>f \<in> set fs. honest_filter est (filter_apply f)" "engine_loop mode fs s n = (t, k)"
  shows "k - n = est s - est t"
  using assms
proof (induction fs arbitrary: s n)
  case (Cons f fs)
  show ?case
  proof (cases "mode = ModeMinimal \<and> filter_name f = ''body''")
    case False
    obtain u j where u: "filter_apply f s mode = (u, j)" by force
    then have "j = est s - est u" using Cons.prems(1) honest_filter.honest by fastforce
    moreover have "k - (n + j) = est u - est t" using Cons u False by auto
    ultimately show ?thesis by simp
  qed (use Cons in auto)
qed simp

lemma bestLanguage_cases:
  "(bestLanguage m l b = l \<and> (\<forall>(l', s') \<in> set m. s' \<le> b)) \<or>
   (\<exists>s. (bestLanguage m l b, s) \<in> set m \<and> b < s \<and> (\<forall>(l', s') \<in> set m. s' \<le> s))"
proof (induction m arbitrary: l b)
  case (Cons a m)
  obtain lang score where a: "a = (lang, score)" by force
  show ?case
  proof (cases "score > b")
    case True
    with Cons.IH [of lang score] show ?thesis by (auto simp: a)
  next
    case False
    with Cons.IH [of l b] show ?thesis by (auto simp: a)
  qed
qed simp

section \<open>Properties\<close>

text \<open>
  When every filter reports what it saved, so does the engine: the sum it returns is the
  difference of the estimates of its input and its output, also for the filters it skips.
\<close>

theorem engine_Process_accounting:
  assumes "\<forall>f \<in> set (en_filters e). honest_filter est (filter_apply f)" "engine_Process e input = (output, saved)"
  shows "saved = est input - est output"
  using engine_loop_honest [OF assms(1)] assms(2) by (fastforce simp: engine_Process_def)

definition noop :: Filter where
  "noop = \<lparr>filter_name = ''noop'', filter_apply = (\<lambda>s m. (s, 0))\<rparr>"

definition noop_engine :: EngineLib where
  "noop_engine = \<lparr>el_NewANSIFilter = noop, el_newCommentFilter = noop, el_NewImportFilter = noop,
     el_NewMultiFileFilter = (\<lambda>_. noop), el_NewSemanticFilter = noop, el_NewPositionAwareFilter = noop,
     el_NewHierarchicalFilter = noop, el_NewQueryAwareFilter = (\<lambda>_. noop), el_NewBodyFilter = noop\<rparr>"

theorem engine_Process_accounting_witness:
  "snd (engine_Process (NewEngine noop_engine ModeMinimal) ''text'') = 0"
proof -
  have "honest_filter heuristicTokens (filter_apply noop)" by unfold_locales (simp add: noop_def)
  then have "\<forall>f \<in> set (en_filters (NewEngine noop_engine ModeMinimal)). honest_filter heuristicTokens (filter_apply f)"
    by (simp add: NewEngine_def NewEngineWithQuery_def NewEngineWithConfig_def noop_engine_def Let_def)
  moreover have "fst (engine_Process (NewEngine noop_engine ModeMinimal) ''text'') = ''text''"
    by (simp add: engine_Process_def NewEngine_def NewEngineWithQuery_def NewEngineWithConfig_def noop_engine_def
        noop_def Let_def)
  ultimately show ?thesis using engine_Process_accounting by (metis diff_self prod.collapse)
qed

text \<open>
  Whatever the order of the map iteration, the detected language has the highest score, and
  it is unknown exactly when no language scores; but between languages of equal score the
  order decides, so the same text can be detected as C or as C++.
\<close>

theorem DetectLanguage_maximal:
  assumes "mset (iter (languageScores output)) = mset (languageScores output)"
  shows "(DetectLanguage iter output = ''unknown'' \<and> (\<forall>(l, s) \<in> set (languageScores output). s \<le> 0) \<or>
      (\<exists>s. (DetectLanguage iter output, s) \<in> set (languageScores output) \<and> 0 < s \<and>
         (\<forall>(l', s') \<in> set (languageScores output). s' \<le> s))) \<and>
    DetectLanguage id ''#include <x.h>'' = ''c'' \<and> DetectLanguage rev ''#include <x.h>'' = ''cpp''"
proof -
  have "set (iter (languageScores output)) = set (languageScores output)" using assms by (metis set_mset_mset)
  moreover have "DetectLanguage id ''#include <x.h>'' = ''c''" "DetectLanguage rev ''#include <x.h>'' = ''cpp''"
    by code_simp+
  ultimately show ?thesis
    using bestLanguage_cases [of "iter (languageScores output)" "''unknown''" 0] by (simp add: DetectLanguage_def)
qed

theorem DetectLanguage_maximal_witness: "DetectLanguage id [] = ''unknown''"
proof -
  have "\<forall>(l, s) \<in> set (languageScores []). s \<le> 0" by code_simp
  then show ?thesis using DetectLanguage_maximal [of id "[]"] by fastforce
qed

end
