(* ===== verification/Session.thy ===== *)
theory Session
  imports Pipeline_Types
begin

text \<open>
  The session tracker, the first half of layer 10 (\<^verbatim>\<open>internal/filter/session.go\<close>): it cuts
  the text into segments and replaces a segment that has been shown before. The arguments are
  \<open>lower\<close> for \<^verbatim>\<open>strings.ToLower\<close>, \<open>sha\<close> for the SHA-256 sum in hexadecimal and \<open>now\<close> for
  the clock, read once per call: the times are stored and nothing depends on them. The session
  file (Save, and its removal by Clear) is not modelled.
\<close>

section \<open>Runes\<close>

text \<open>The decoding of a \<^verbatim>\<open>range\<close> loop over a string: the first code point and its width; an
  invalid sequence is U+FFFD of width one.\<close>

definition byte_of :: "char \<Rightarrow> int" where "byte_of c = of_char c"

definition cont :: "int \<Rightarrow> int \<Rightarrow> string \<Rightarrow> nat \<Rightarrow> bool" where
  "cont lo hi s i \<longleftrightarrow> i < length s \<and> lo \<le> byte_of (s ! i) \<and> byte_of (s ! i) \<le> hi"

definition decode_rune :: "string \<Rightarrow> int \<times> nat" where
  "decode_rune s =
     (let b = byte_of (hd s); low = (\<lambda>i. byte_of (s ! i) - 128) in
      if b < 128 then (b, 1)
      else if 194 \<le> b \<and> b \<le> 223 \<and> cont 128 191 s 1 then ((b - 192) * 64 + low 1, 2)
      else if 224 \<le> b \<and> b \<le> 239 \<and>
              cont (if b = 224 then 160 else 128) (if b = 237 then 159 else 191) s 1 \<and> cont 128 191 s 2
        then ((b - 224) * 4096 + low 1 * 64 + low 2, 3)
      else if 240 \<le> b \<and> b \<le> 244 \<and>
              cont (if b = 240 then 144 else 128) (if b = 244 then 143 else 191) s 1 \<and>
              cont 128 191 s 2 \<and> cont 128 191 s 3
        then ((b - 240) * 262144 + low 1 * 4096 + low 2 * 64 + low 3, 4)
      else (65533, 1))"

function go_runes :: "string \<Rightarrow> int list" where
  "go_runes s = (if s = [] then [] else (case decode_rune s of (r, w) \<Rightarrow> r # go_runes (drop w s)))"
  by auto

termination
  by (relation "measure length") (auto simp: decode_rune_def Let_def split: if_splits)

section \<open>Normalisation and summary\<close>

definition isDigit :: "int \<Rightarrow> bool" where
  "isDigit c \<longleftrightarrow> 48 \<le> c \<and> c \<le> 57"

definition isOnlyNumbers :: "string \<Rightarrow> bool" where
  "isOnlyNumbers s = list_all (\<lambda>c. isDigit (c mod 256) \<or> c \<in> {32, 9, 45, 58, 47}) (go_runes s)"

definition date_at :: "string \<Rightarrow> bool" where
  "date_at s =
     (case s of a # b # c # d # e # f # g # h # i # j # _ \<Rightarrow>
        list_all (\<lambda>x. isDigit (byte_of x)) [a, b, c, d, f, g, i, j] \<and> e = CHR ''-'' \<and> h = CHR ''-''
      | _ \<Rightarrow> False)"

text \<open>\<^verbatim>\<open>removePattern\<close> acts on the first of the four patterns only. Its loop blanks a date in
  place, so the number of iterations is that of the original text.\<close>

fun date_loop :: "nat \<Rightarrow> nat \<Rightarrow> string \<Rightarrow> string" where
  "date_loop 0 i content = content"
| "date_loop (Suc n) i content =
     date_loop n (Suc i)
       (if date_at (drop i content) then take i content @ replicate 10 CHR '' '' @ drop (i + 10) content
        else content)"

definition datePattern :: string where
  "datePattern = [CHR 0x5C] @ ''d{4}-'' @ [CHR 0x5C] @ ''d{2}-'' @ [CHR 0x5C] @ ''d{2}''"

definition removePattern :: "string \<Rightarrow> string \<Rightarrow> string" where
  "removePattern content pattern =
     (if pattern = datePattern then date_loop (length content - 9) 0 content else content)"

definition timestampPatterns :: "string list" where
  "timestampPatterns = (let d = [CHR 0x5C] @ ''d'' in
     [datePattern, d @ ''{2}:'' @ d @ ''{2}:'' @ d @ ''{2}'',
      d @ ''{4}/'' @ d @ ''{2}/'' @ d @ ''{2}'', d @ ''{2}-'' @ d @ ''{2}-'' @ d @ ''{4}''])"

definition removeTimestamps :: "string \<Rightarrow> string" where
  "removeTimestamps content = foldl removePattern content timestampPatterns"

fun meaningful_line :: "string list \<Rightarrow> string" where
  "meaningful_line [] = []"
| "meaningful_line (line # lines) =
     (let trimmed = trimSpace line
      in if trimmed = [] \<or> isOnlyNumbers trimmed then meaningful_line lines else trimmed)"

definition summarizeSegment :: "string \<Rightarrow> string" where
  "summarizeSegment segment =
     (let lines = split_lines segment; bestLine = meaningful_line lines
      in if bestLine = [] then itoa (len lines) @ '' lines''
         else if len bestLine > 50 then take 47 bestLine @ ''...'' else bestLine)"

definition hashContent :: "(string \<Rightarrow> string) \<Rightarrow> (string \<Rightarrow> string) \<Rightarrow> string \<Rightarrow> string" where
  "hashContent lower sha content = take 16 (sha (removeTimestamps (lower (trimSpace content))))"

section \<open>The tracker\<close>

record seenEntry =
  se_FirstSeen :: gotime
  se_LastSeen :: gotime
  se_Count :: int
  se_Command :: string
  se_Summary :: string

record SessionTracker =
  st_seenHashes :: "(string \<times> seenEntry) list"
  st_maxEntries :: int

definition NewSessionTracker :: SessionTracker where
  "NewSessionTracker = \<lparr>st_seenHashes = [], st_maxEntries = 10000\<rparr>"

definition processSegment ::
  "(string \<Rightarrow> string) \<Rightarrow> (string \<Rightarrow> string) \<Rightarrow> gotime \<Rightarrow> string \<Rightarrow> SessionTracker \<Rightarrow> string \<times> SessionTracker" where
  "processSegment lower sha now segment f =
     (let hash = hashContent lower sha segment
      in case al_get (st_seenHashes f) hash of
           Some entry \<Rightarrow>
             (let entry = entry\<lparr>se_LastSeen := now, se_Count := se_Count entry + 1\<rparr>;
                  f = f\<lparr>st_seenHashes := al_put hash entry (st_seenHashes f)\<rparr>
              in if se_Count entry \<ge> 3 \<and> len segment > 100
                 then (''[seen x'' @ itoa (se_Count entry) @ '': '' @ summarizeSegment segment @ '']'', f)
                 else if se_Count entry \<ge> 2 then (segment @ '' [seen]'', f)
                 else (segment, f))
         | None \<Rightarrow>
             (if len (st_seenHashes f) < st_maxEntries f
              then (segment, f\<lparr>st_seenHashes := al_put hash
                     \<lparr>se_FirstSeen = now, se_LastSeen = now, se_Count = 1, se_Command = [],
                      se_Summary = summarizeSegment segment\<rparr> (st_seenHashes f)\<rparr>)
              else (segment, f)))"

fun segments_loop ::
  "(string \<Rightarrow> SessionTracker \<Rightarrow> string \<times> SessionTracker) \<Rightarrow> string list \<Rightarrow> string list \<Rightarrow> string list
     \<Rightarrow> SessionTracker \<Rightarrow> string list \<times> SessionTracker" where
  "segments_loop proc [] current result f =
     (if current = [] then (result, f)
      else (let (processed, f) = proc (join_lines current) f in (result @ [processed], f)))"
| "segments_loop proc (line # lines) current result f =
     (let current = current @ [line]
      in if trimSpace line = [] \<or> len current \<ge> 10
         then (let (processed, f) = proc (join_lines current) f
               in segments_loop proc lines [] (result @ [processed]) f)
         else segments_loop proc lines current result f)"

definition processSegments ::
  "(string \<Rightarrow> string) \<Rightarrow> (string \<Rightarrow> string) \<Rightarrow> gotime \<Rightarrow> string \<Rightarrow> SessionTracker \<Rightarrow> string \<times> SessionTracker" where
  "processSegments lower sha now input f =
     (let (result, f) = segments_loop (processSegment lower sha now) (split_lines input) [] [] f
      in (join_lines result, f))"

definition session_Apply ::
  "(string \<Rightarrow> string) \<Rightarrow> (string \<Rightarrow> string) \<Rightarrow> gotime \<Rightarrow> string \<Rightarrow> Mode \<Rightarrow> SessionTracker
     \<Rightarrow> (string \<times> int) \<times> SessionTracker" where
  "session_Apply lower sha now input mode f =
     (if len input < 50 then ((input, 0), f)
      else (let (output, f) = processSegments lower sha now input f
            in ((output, go_div (len input - len output) 4), f)))"

definition session_Clear :: "SessionTracker \<Rightarrow> SessionTracker" where
  "session_Clear f = f\<lparr>st_seenHashes := []\<rparr>"

record SessionStats =
  ss_UniqueEntries :: int
  ss_TotalOccurrences :: int
  ss_MultiOccurrences :: int

definition session_Stats :: "SessionTracker \<Rightarrow> SessionStats" where
  "session_Stats f =
     \<lparr>ss_UniqueEntries = len (st_seenHashes f),
      ss_TotalOccurrences = sum_list (map (se_Count \<circ> snd) (st_seenHashes f)),
      ss_MultiOccurrences = len (filter (\<lambda>(_, e). se_Count e > 1) (st_seenHashes f))\<rparr>"

section \<open>Segments\<close>

text \<open>The segmentation itself, a partition of the lines of the text.\<close>

fun segs :: "string list \<Rightarrow> string list \<Rightarrow> string list list" where
  "segs [] current = (if current = [] then [] else [current])"
| "segs (line # lines) current =
     (if trimSpace line = [] \<or> len (current @ [line]) \<ge> 10 then (current @ [line]) # segs lines []
      else segs lines (current @ [line]))"

definition segments :: "string \<Rightarrow> string list" where
  "segments input = map join_lines (segs (split_lines input) [])"

lemma segs_partition: "concat (segs ls current) = current @ ls" "[] \<notin> set (segs ls current)"
  by (induction ls current rule: segs.induct) auto

lemma join_concat:
  "[] \<notin> set xss \<Longrightarrow> join_lines (map join_lines xss) = join_lines (concat xss)"
proof (induction xss)
  case (Cons xs xss)
  have "concat xss = [] \<longleftrightarrow> xss = []" using Cons.prems by (cases xss) auto
  with Cons show ?case by (cases "xss = []") (auto simp: join_append join_Cons)
qed simp

lemma join_segments [simp]: "join_lines (segments input) = input"
  using join_concat [OF segs_partition(2)] segs_partition(1) [of "split_lines input" "[]"] by (simp add: segments_def)

fun process_all ::
  "(string \<Rightarrow> SessionTracker \<Rightarrow> string \<times> SessionTracker) \<Rightarrow> string list \<Rightarrow> SessionTracker
     \<Rightarrow> string list \<times> SessionTracker" where
  "process_all proc [] f = ([], f)"
| "process_all proc (s # ss) f =
     (let (t, f) = proc s f; (ts, f) = process_all proc ss f in (t # ts, f))"

lemma segments_loop_eq:
  "segments_loop proc ls current result f =
     (let (ts, f') = process_all proc (map join_lines (segs ls current)) f in (result @ ts, f'))"
  by (induction proc ls current result f rule: segments_loop.induct) (auto simp: Let_def split: prod.splits)

lemma processSegments_eq:
  "processSegments lower sha now input f =
     (let (ts, f') = process_all (processSegment lower sha now) (segments input) f in (join_lines ts, f'))"
  by (simp add: processSegments_def segments_loop_eq segments_def split: prod.splits)

section \<open>What a segment becomes\<close>

lemma processSegment_new:
  assumes "al_get (st_seenHashes f) (hashContent lower sha s) = None"
  shows "fst (processSegment lower sha now s f) = s"
    "h \<noteq> hashContent lower sha s \<Longrightarrow>
       al_get (st_seenHashes (snd (processSegment lower sha now s f))) h = al_get (st_seenHashes f) h"
  using assms by (simp_all add: processSegment_def Let_def)

lemma process_all_fresh:
  assumes "distinct (map (hashContent lower sha) ss)"
    and "\<forall>s \<in> set ss. al_get (st_seenHashes f) (hashContent lower sha s) = None"
  shows "fst (process_all (processSegment lower sha now) ss f) = ss"
  using assms
proof (induction ss arbitrary: f)
  case (Cons s ss)
  obtain t f' where t: "processSegment lower sha now s f = (t, f')" by force
  have new: "al_get (st_seenHashes f) (hashContent lower sha s) = None" using Cons.prems(2) by simp
  have ts: "t = s" using processSegment_new(1) [OF new, of now] t by simp
  have fresh: "al_get (st_seenHashes f') (hashContent lower sha u) = None" if "u \<in> set ss" for u
  proof -
    have "hashContent lower sha s \<notin> set (map (hashContent lower sha) ss)"
      using Cons.prems(1) by (simp only: list.map distinct.simps) simp
    then have "hashContent lower sha u \<noteq> hashContent lower sha s" using that by (metis image_eqI list.set_map)
    from processSegment_new(2) [OF new this, of now] show ?thesis using Cons.prems(2) that t by simp
  qed
  have "fst (process_all (processSegment lower sha now) ss f') = ss"
    using Cons.prems(1) fresh by (intro Cons.IH) simp_all
  then show ?case using t ts by (auto simp: Let_def split: prod.splits)
qed simp

text \<open>The tracker never holds more segments than its limit, nor one twice.\<close>

definition session_inv :: "SessionTracker \<Rightarrow> bool" where
  "session_inv f \<longleftrightarrow> distinct (al_keys (st_seenHashes f)) \<and> len (st_seenHashes f) \<le> st_maxEntries f"

lemma processSegment_inv [go_inv]:
  "session_inv f \<Longrightarrow> session_inv (snd (processSegment lower sha now s f)) \<and>
     st_maxEntries (snd (processSegment lower sha now s f)) = st_maxEntries f"
  by (auto simp: processSegment_def session_inv_def Let_def length_al_put dest: al_get_Some_key split: option.splits)

lemma process_all_inv:
  "session_inv f \<Longrightarrow> session_inv (snd (process_all (processSegment lower sha now) ss f))"
proof (induction ss arbitrary: f)
  case (Cons s ss)
  obtain t f' where t: "processSegment lower sha now s f = (t, f')" by force
  then have "session_inv f'" using processSegment_inv [OF Cons.prems, of lower sha now s] by simp
  with Cons.IH [of f'] t show ?case by (auto simp: Let_def split: prod.splits)
qed simp

definition seen_times :: "string \<Rightarrow> int \<Rightarrow> SessionTracker \<Rightarrow> bool" where
  "seen_times h n f \<longleftrightarrow> (\<exists>e. al_get (st_seenHashes f) h = Some e \<and> se_Count e = n)"

lemma processSegment_again:
  assumes "seen_times (hashContent lower sha s) n f" "1 \<le> n"
  shows "seen_times (hashContent lower sha s) (n + 1) (snd (processSegment lower sha now s f))"
    "fst (processSegment lower sha now s f) =
      (if n \<ge> 2 \<and> len s > 100 then ''[seen x'' @ itoa (n + 1) @ '': '' @ summarizeSegment s @ '']'' else s @ '' [seen]'')"
  using assms by (auto simp: processSegment_def seen_times_def Let_def)

lemma seen_times_repeat:
  assumes "al_get (st_seenHashes f) (hashContent lower sha s) = None" "len (st_seenHashes f) < st_maxEntries f"
  shows "seen_times (hashContent lower sha s) (int (Suc n)) (((\<lambda>f. snd (processSegment lower sha now s f)) ^^ Suc n) f)"
proof (induction n)
  case 0
  then show ?case using assms by (simp add: processSegment_def seen_times_def Let_def)
next
  case (Suc n)
  then show ?case using processSegment_again(1) [OF Suc] by (simp add: add.commute)
qed

section \<open>Properties\<close>

text \<open>
  Text that has not been shown before is not touched: when the fingerprints of its segments
  are new and different, the tracker returns the text as it is, byte for byte, and reports
  nothing saved. The segments partition the lines, so nothing is lost between them.
\<close>

theorem session_new_text_unchanged:
  assumes "distinct (map (hashContent lower sha) (segments input))"
    and "\<forall>s \<in> set (segments input). al_get (st_seenHashes f) (hashContent lower sha s) = None"
  shows "fst (session_Apply lower sha now input mode f) = (input, 0)"
proof -
  have "fst (process_all (processSegment lower sha now) (segments input) f) = segments input"
    using process_all_fresh [OF assms] .
  then have "fst (processSegments lower sha now input f) = input"
    by (auto simp: processSegments_eq split: prod.splits)
  then show ?thesis by (auto simp: session_Apply_def split: prod.splits)
qed

theorem session_new_text_unchanged_witness:
  "fst (session_Apply id id 0 (replicate 120 CHR ''x'') ModeMinimal NewSessionTracker) = (replicate 120 CHR ''x'', 0)"
proof -
  have "segs [replicate 120 CHR ''x''] [] = [[replicate 120 CHR ''x'']]" by simp
  then have "segments (replicate 120 CHR ''x'') = [replicate 120 CHR ''x'']"
    by (simp only: segments_def split_plain in_set_replicate) (simp add: split_plain)
  then show ?thesis
    using session_new_text_unchanged [of id id "replicate 120 CHR ''x''" NewSessionTracker]
    by (simp add: NewSessionTracker_def)
qed

text \<open>
  What the n-th occurrence of a segment becomes. The first is kept and tracked; the second
  is kept and marked, so the text grows and the saving reported is negative; from the third on
  a segment of more than 100 bytes is replaced by a marker with the count and a summary. The
  tracker never holds more segments than its limit.
\<close>

theorem session_nth_occurrence:
  fixes now :: gotime and n :: nat
  assumes "session_inv f" "al_get (st_seenHashes f) (hashContent lower sha s) = None"
    and "len (st_seenHashes f) < st_maxEntries f"
  defines "g \<equiv> ((\<lambda>f. snd (processSegment lower sha now s f)) ^^ n) f"
  shows "fst (processSegment lower sha now s g) =
      (if n = 0 then s
       else if n \<ge> 2 \<and> len s > 100 then ''[seen x'' @ itoa (int n + 1) @ '': '' @ summarizeSegment s @ '']''
       else s @ '' [seen]'') \<and>
    session_inv g"
proof -
  have "session_inv (((\<lambda>f. snd (processSegment lower sha now s f)) ^^ m) f)" for m
    by (induction m) (simp_all add: assms(1) processSegment_inv)
  moreover have "fst (processSegment lower sha now s g) =
      (if n = 0 then s
       else if n \<ge> 2 \<and> len s > 100 then ''[seen x'' @ itoa (int n + 1) @ '': '' @ summarizeSegment s @ '']''
       else s @ '' [seen]'')"
  proof (cases n)
    case 0
    then show ?thesis using processSegment_new(1) [OF assms(2)] by (simp add: g_def)
  next
    case (Suc m)
    have "seen_times (hashContent lower sha s) (int n) g"
      using seen_times_repeat [OF assms(2,3), of m] by (simp add: g_def Suc)
    from processSegment_again(2) [OF this] Suc show ?thesis by auto
  qed
  ultimately show ?thesis by (simp add: g_def)
qed

theorem session_nth_occurrence_witness:
  "fst (processSegment id id 0 ''abc'' (snd (processSegment id id 0 ''abc'' NewSessionTracker))) = ''abc [seen]''"
  using session_nth_occurrence [of NewSessionTracker id id "''abc''" 0 1]
  by (simp add: NewSessionTracker_def session_inv_def)

end
