(* ===== verification/Read_Modes.thy ===== *)
theory Read_Modes
  imports Go_Prelude "HOL-Library.Multiset"
begin

text \<open>
  Read modes and incremental deltas (\<^verbatim>\<open>internal/filter/read_modes.go\<close>). A slice expression
  out of range panics, which is \<open>None\<close>. The entropy of a line is the argument \<open>high_entropy\<close>
  (whether it exceeds the threshold). \<open>iter\<close> is the order in which Go ranges over the keys of
  a map.
\<close>

type_synonym ReadMode = string

definition ReadFull :: ReadMode where "ReadFull = ''full''"
definition ReadMap :: ReadMode where "ReadMap = ''map''"
definition ReadSignatures :: ReadMode where "ReadSignatures = ''signatures''"
definition ReadDiff :: ReadMode where "ReadDiff = ''diff''"
definition ReadAggressive :: ReadMode where "ReadAggressive = ''aggressive''"
definition ReadEntropy :: ReadMode where "ReadEntropy = ''entropy''"
definition ReadLines :: ReadMode where "ReadLines = ''lines''"

record ReadOptions =
  ro_Mode :: ReadMode
  ro_StartLine :: int
  ro_EndLine :: int
  ro_MaxTokens :: int
  ro_Query :: string

definition go_slice :: "'a list \<Rightarrow> int \<Rightarrow> int \<Rightarrow> 'a list option" where
  "go_slice xs a b =
     (if 0 \<le> a \<and> a \<le> b \<and> b \<le> len xs then Some (take (nat (b - a)) (drop (nat a) xs)) else None)"

definition prefixed :: "string \<Rightarrow> string list \<Rightarrow> bool" where
  "prefixed s ps = list_ex (has_prefix s) ps"

definition readMap :: "string \<Rightarrow> string" where
  "readMap content = join_lines (filter (\<lambda>trimmed. trimmed \<noteq> [] \<and>
       prefixed trimmed [''func '', ''class '', ''type '', ''interface '', ''def '', ''const '', ''let '', ''var ''])
     (map trimSpace (split_lines content)))"

fun signatures_loop :: "bool \<Rightarrow> string list \<Rightarrow> string list" where
  "signatures_loop inBlock [] = []"
| "signatures_loop inBlock (line # lines) =
     (let trimmed = trimSpace line
      in if prefixed trimmed [''func '', ''class '', ''type '', ''interface '', ''def '']
         then trimmed # signatures_loop True lines
         else if inBlock \<and> (trimmed = [] \<or> prefixed trimmed [''//'', ''/*'']) then signatures_loop inBlock lines
         else if inBlock \<and> \<not> has_prefix trimmed ''{'' \<and> \<not> has_prefix trimmed ''}'' then signatures_loop False lines
         else signatures_loop inBlock lines)"

definition readSignatures :: "string \<Rightarrow> string" where
  "readSignatures content = join_lines (signatures_loop False (split_lines content))"

definition readDiff :: "string \<Rightarrow> string" where
  "readDiff content = join_lines (filter (\<lambda>line. prefixed line [''+'', ''-'', ''@@'']) (split_lines content))"

definition readAggressive :: "string \<Rightarrow> string" where
  "readAggressive content = join_lines (filter (\<lambda>trimmed. \<not> (trimmed = [] \<or> prefixed trimmed [''//'', ''/*'', ''*'', ''#'']))
     (map trimSpace (split_lines content)))"

definition readEntropy :: "(string \<Rightarrow> bool) \<Rightarrow> string \<Rightarrow> string" where
  "readEntropy high_entropy content = join_lines (filter high_entropy (split_lines content))"

definition readLines :: "string \<Rightarrow> int \<Rightarrow> int \<Rightarrow> string option" where
  "readLines content start end' =
     (let lines = split_lines content;
          start = (if start < 1 then 1 else start);
          end' = (if end' > len lines \<or> end' = 0 then len lines else end')
      in if start > end' then Some [] else map_option join_lines (go_slice lines (start - 1) end'))"

definition ReadContent :: "(string \<Rightarrow> bool) \<Rightarrow> string \<Rightarrow> ReadOptions \<Rightarrow> string option" where
  "ReadContent high_entropy content opts = (let m = ro_Mode opts in
     if m = ReadFull then Some content
     else if m = ReadMap then Some (readMap content)
     else if m = ReadSignatures then Some (readSignatures content)
     else if m = ReadDiff then Some (readDiff content)
     else if m = ReadAggressive then Some (readAggressive content)
     else if m = ReadEntropy then Some (readEntropy high_entropy content)
     else if m = ReadLines then readLines content (ro_StartLine opts) (ro_EndLine opts)
     else Some content)"

section \<open>Deltas\<close>

record IncrementalDelta =
  dl_Added :: "string list"
  dl_Removed :: "string list"
  dl_Unchanged :: int

definition ComputeDelta :: "(string list \<Rightarrow> string list) \<Rightarrow> string \<Rightarrow> string \<Rightarrow> IncrementalDelta" where
  "ComputeDelta iter old new =
     (let oldLines = split_lines old; newLines = split_lines new;
          oldSet = count_list oldLines; newSet = count_list newLines;
          removed = concat (map (\<lambda>line. replicate (oldSet line - newSet line) line) (iter oldLines));
          added = concat (map (\<lambda>line. replicate (newSet line - oldSet line) line) (iter newLines));
          unchanged = sum_list (map (\<lambda>line. int (min (newSet line) (oldSet line))) (iter newLines))
      in \<lparr>dl_Added = added, dl_Removed = removed, dl_Unchanged = unchanged\<rparr>)"

definition FormatDelta :: "IncrementalDelta \<Rightarrow> string" where
  "FormatDelta delta =
     ''Delta: +'' @ itoa (len (dl_Added delta)) @ '' -'' @ itoa (len (dl_Removed delta)) @
     '' (unchanged: '' @ itoa (dl_Unchanged delta) @ '')'' @ [nl] @
     concat (map (\<lambda>line. ''+ '' @ line @ [nl]) (dl_Added delta)) @
     concat (map (\<lambda>line. ''- '' @ line @ [nl]) (dl_Removed delta))"

section \<open>Lemmas\<close>

lemma count_concat_replicate:
  assumes "distinct ks"
  shows "count (mset (concat (map (\<lambda>k. replicate (f k) k) ks))) x = (if x \<in> set ks then f x else 0)"
  using assms by (induction ks) auto

lemma sum_min_size:
  assumes "distinct ks" "set ks = set_mset N"
  shows "sum_list (map (\<lambda>k. int (min (count N k) (count M k))) ks) = int (size (N \<inter># M))"
proof -
  have sub: "set_mset (N \<inter># M) \<subseteq> set ks" using assms(2) by auto
  have "size (N \<inter># M) = (\<Sum>k \<in> set ks. count (N \<inter># M) k)"
    unfolding size_multiset_overloaded_eq using sub
    by (intro sum.mono_neutral_left) (auto simp: count_eq_zero_iff)
  also have "\<dots> = (\<Sum>k \<leftarrow> ks. min (count N k) (count M k))"
    using assms(1) by (simp add: sum_list_distinct_conv_sum_set)
  finally have "int (size (N \<inter># M)) = int (\<Sum>k \<leftarrow> ks. min (count N k) (count M k))" by simp
  also have "\<dots> = (\<Sum>k \<leftarrow> ks. int (min (count N k) (count M k)))" by (induction ks) auto
  finally show ?thesis by simp
qed

lemma count_list_mset: "count_list xs x = count (mset xs) x"
  by (induction xs) auto

section \<open>Properties\<close>

text \<open>
  The delta of two versions is the difference of their lines as multisets, whatever the
  order in which the maps are ranged over: what is removed and what is added are the two
  differences, and the number of unchanged lines is the size of the intersection. So the old
  lines without the removed and with the added ones are the new lines.
\<close>

theorem ComputeDelta_multiset:
  assumes iter: "\<And>ls. distinct (iter ls)" "\<And>ls. set (iter ls) = set ls"
    and "ComputeDelta iter old new = delta"
  shows "mset (dl_Removed delta) = mset (split_lines old) - mset (split_lines new) \<and>
    mset (dl_Added delta) = mset (split_lines new) - mset (split_lines old) \<and>
    dl_Unchanged delta = int (size (mset (split_lines new) \<inter># mset (split_lines old))) \<and>
    mset (split_lines old) - mset (dl_Removed delta) + mset (dl_Added delta) = mset (split_lines new)"
proof -
  let ?o = "mset (split_lines old)" and ?n = "mset (split_lines new)"
  have side: "mset (concat (map (\<lambda>l. replicate (count_list (split_lines a) l - count_list (split_lines b) l) l)
      (iter (split_lines a)))) = mset (split_lines a) - mset (split_lines b)" for a b
    by (rule multiset_eqI)
      (auto simp: count_concat_replicate [OF iter(1)] iter(2) count_list_mset not_in_iff [THEN iffD1])
  have "mset (dl_Removed delta) = ?o - ?n" "mset (dl_Added delta) = ?n - ?o"
    unfolding assms(3) [symmetric] ComputeDelta_def Let_def by (simp_all only: IncrementalDelta.simps side)
  moreover have "dl_Unchanged delta = int (size (?n \<inter># ?o))"
    unfolding assms(3) [symmetric] ComputeDelta_def Let_def
    using sum_min_size [OF iter(1), of "split_lines new" ?n ?o] iter(2) by (simp add: count_list_mset)
  moreover have "?o - (?o - ?n) + (?n - ?o) = ?n" by (auto simp: multiset_eq_iff)
  ultimately show ?thesis by simp
qed

theorem ComputeDelta_multiset_witness:
  "mset (dl_Added (ComputeDelta remdups ''a'' ''b'')) = {#''b''#}"
  using ComputeDelta_multiset [of remdups "''a''" "''b''"] by simp

text \<open>
  Reading a range of lines never panics, whatever the bounds, and returns the lines of the
  range clamped to the text: one-based and inclusive, an end of 0 or past the end meaning the
  last line, a start below 1 the first, and an empty range nothing. The whole range is the
  text itself.
\<close>

theorem readLines_total:
  "readLines content start stop =
     (let ls = split_lines content; a = max 1 start; b = (if stop > len ls \<or> stop = 0 then len ls else stop)
      in Some (join_lines (take (nat (b - a + 1)) (drop (nat (a - 1)) ls)))) \<and>
   readLines content 1 0 = Some content"
proof -
  let ?ls = "split_lines content"
  have "1 \<le> len ?ls" by (cases ?ls) auto
  then show ?thesis by (auto simp: readLines_def go_slice_def Let_def max_def algebra_simps)
qed

end
