(* ===== verification/Undo_Manager.thy ===== *)
theory Undo_Manager
  imports Go_Prelude
begin

text \<open>
  Undo and redo of command-line operations (\<^verbatim>\<open>internal/undo/manager.go\<close>). The stacks are
  lists with the top at the end. A rollback is the result of calling it: no function, success
  or an error message; its effect outside the manager is not modelled. The generated action
  identifier is built from the clock reading \<open>now\<close>; the zero time is 0.
\<close>

datatype rollback = NoRollback | RollsBack | RollbackFails string

record Action =
  ac_ID :: string
  ac_Command :: string
  ac_Args :: "string list"
  ac_Description :: string
  ac_Timestamp :: gotime
  ac_User :: string
  ac_Rollback :: rollback

record UndoManager =
  um_undoStack :: "Action list"
  um_redoStack :: "Action list"
  um_maxHistory :: int

datatype undoError = NothingToUndo | NothingToRedo | RollbackFailed string

definition NewUndoManager :: "int \<Rightarrow> UndoManager" where
  "NewUndoManager maxHistory =
     \<lparr>um_undoStack = [], um_redoStack = [], um_maxHistory = (if maxHistory \<le> 0 then 100 else maxHistory)\<rparr>"

definition Record :: "gotime \<Rightarrow> Action \<Rightarrow> UndoManager \<Rightarrow> UndoManager" where
  "Record now action um =
     (let action = (if ac_ID action = [] then action\<lparr>ac_ID := ''action-'' @ itoa now\<rparr> else action);
          action = (if ac_Timestamp action = 0 then action\<lparr>ac_Timestamp := now\<rparr> else action);
          stack = um_undoStack um @ [action];
          stack = (if len stack > um_maxHistory um then drop (nat (len stack - um_maxHistory um)) stack else stack)
      in um\<lparr>um_undoStack := stack, um_redoStack := []\<rparr>)"

definition Undo :: "UndoManager \<Rightarrow> (undoError + Action) \<times> UndoManager" where
  "Undo um =
     (if um_undoStack um = [] then (Inl NothingToUndo, um)
      else (let action = last (um_undoStack um);
                um = um\<lparr>um_undoStack := butlast (um_undoStack um)\<rparr>
            in case ac_Rollback action of
                 RollbackFails err \<Rightarrow> (Inl (RollbackFailed err), um)
               | _ \<Rightarrow> (Inr action, um\<lparr>um_redoStack := um_redoStack um @ [action]\<rparr>)))"

definition Redo :: "UndoManager \<Rightarrow> (undoError + Action) \<times> UndoManager" where
  "Redo um =
     (if um_redoStack um = [] then (Inl NothingToRedo, um)
      else (let action = last (um_redoStack um)
            in (Inr action, um\<lparr>um_redoStack := butlast (um_redoStack um),
                               um_undoStack := um_undoStack um @ [action]\<rparr>)))"

definition CanUndo :: "UndoManager \<Rightarrow> bool" where "CanUndo um \<longleftrightarrow> len (um_undoStack um) > 0"
definition CanRedo :: "UndoManager \<Rightarrow> bool" where "CanRedo um \<longleftrightarrow> len (um_redoStack um) > 0"

definition um_Clear :: "UndoManager \<Rightarrow> UndoManager" where
  "um_Clear um = um\<lparr>um_undoStack := [], um_redoStack := []\<rparr>"

record ActionSummary =
  sm_ID :: string
  sm_Command :: string
  sm_Description :: string
  sm_Timestamp :: gotime
  sm_User :: string

record UndoReport =
  ur_TotalActions :: int
  ur_OldestAction :: gotime
  ur_NewestAction :: gotime
  ur_Actions :: "ActionSummary list"

definition summary_of :: "Action \<Rightarrow> ActionSummary" where
  "summary_of a = \<lparr>sm_ID = ac_ID a, sm_Command = ac_Command a, sm_Description = ac_Description a,
     sm_Timestamp = ac_Timestamp a, sm_User = ac_User a\<rparr>"

fun report_loop :: "Action list \<Rightarrow> UndoReport \<Rightarrow> UndoReport" where
  "report_loop [] report = report"
| "report_loop (action # actions) report =
     (let t = ac_Timestamp action;
          report = (if ur_OldestAction report = 0 \<or> t < ur_OldestAction report
                    then report\<lparr>ur_OldestAction := t\<rparr> else report);
          report = (if t > ur_NewestAction report then report\<lparr>ur_NewestAction := t\<rparr> else report)
      in report_loop actions (report\<lparr>ur_Actions := ur_Actions report @ [summary_of action]\<rparr>))"

definition GenerateReport :: "UndoManager \<Rightarrow> UndoReport" where
  "GenerateReport um = report_loop (um_undoStack um)
     \<lparr>ur_TotalActions = len (um_undoStack um), ur_OldestAction = 0, ur_NewestAction = 0, ur_Actions = []\<rparr>"

section \<open>The states of a manager\<close>

inductive um_reachable :: "int \<Rightarrow> UndoManager \<Rightarrow> bool" for n where
  um_new: "um_reachable n (NewUndoManager n)"
| um_record: "um_reachable n um \<Longrightarrow> um_reachable n (Record now a um)"
| um_undo: "um_reachable n um \<Longrightarrow> um_reachable n (snd (Undo um))"
| um_redo: "um_reachable n um \<Longrightarrow> um_reachable n (snd (Redo um))"
| um_clear: "um_reachable n um \<Longrightarrow> um_reachable n (um_Clear um)"

definition um_inv :: "UndoManager \<Rightarrow> bool" where
  "um_inv um \<longleftrightarrow> 0 < um_maxHistory um \<and> len (um_undoStack um) + len (um_redoStack um) \<le> um_maxHistory um"

lemma um_inv_new [go_inv]: "um_inv (NewUndoManager n)"
  by (simp add: um_inv_def NewUndoManager_def)

lemma um_inv_record [go_inv]: "um_inv um \<Longrightarrow> um_inv (Record now a um)"
  by (auto simp: um_inv_def Record_def Let_def)

lemma um_inv_undo [go_inv]: "um_inv um \<Longrightarrow> um_inv (snd (Undo um))"
  by (cases "um_undoStack um" rule: rev_cases) (auto simp: um_inv_def Undo_def Let_def split: rollback.splits)

lemma um_inv_redo [go_inv]: "um_inv um \<Longrightarrow> um_inv (snd (Redo um))"
  by (cases "um_redoStack um" rule: rev_cases) (auto simp: um_inv_def Redo_def Let_def)

lemma um_inv_clear [go_inv]: "um_inv um \<Longrightarrow> um_inv (um_Clear um)"
  by (simp add: um_inv_def um_Clear_def)

lemma um_reachable_inv: "um_reachable n um \<Longrightarrow> um_inv um"
  by (induction rule: um_reachable.induct) (simp_all add: go_inv)

section \<open>Properties\<close>

text \<open>
  Undo and redo are inverse to each other and bounded. In every state a manager can reach
  the two stacks together hold at most the history limit; an undo that succeeds is exactly
  taken back by a redo, and a redo by an undo of the same action unless its rollback fails; an
  undo whose rollback fails loses the action: it is on neither stack afterwards.
\<close>

theorem undo_redo_inverse:
  assumes "um_reachable n um"
  shows "len (um_undoStack um) + len (um_redoStack um) \<le> um_maxHistory um \<and>
    (case Undo um of
       (Inr a, um') \<Rightarrow> Redo um' = (Inr a, um)
     | (Inl (RollbackFailed err), um') \<Rightarrow> \<exists>a. um_undoStack um = um_undoStack um' @ [a] \<and> um_redoStack um' = um_redoStack um
     | (Inl e, um') \<Rightarrow> um_undoStack um = [] \<and> um' = um) \<and>
    (case Redo um of
       (Inr a, um') \<Rightarrow> (if \<exists>err. ac_Rollback a = RollbackFails err then True else Undo um' = (Inr a, um))
     | (Inl e, um') \<Rightarrow> um_redoStack um = [] \<and> um' = um)"
proof -
  have "case Undo um of
       (Inr a, um') \<Rightarrow> Redo um' = (Inr a, um)
     | (Inl (RollbackFailed err), um') \<Rightarrow> \<exists>a. um_undoStack um = um_undoStack um' @ [a] \<and> um_redoStack um' = um_redoStack um
     | (Inl e, um') \<Rightarrow> um_undoStack um = [] \<and> um' = um"
    by (cases "um_undoStack um" rule: rev_cases) (auto simp: Undo_def Redo_def Let_def split: rollback.splits)
  moreover have "case Redo um of
       (Inr a, um') \<Rightarrow> (if \<exists>err. ac_Rollback a = RollbackFails err then True else Undo um' = (Inr a, um))
     | (Inl e, um') \<Rightarrow> um_redoStack um = [] \<and> um' = um"
    by (cases "um_redoStack um" rule: rev_cases) (auto simp: Undo_def Redo_def Let_def split: rollback.splits)
  ultimately show ?thesis using um_reachable_inv [OF assms] by (simp add: um_inv_def)
qed

theorem undo_redo_inverse_witness:
  "fst (Undo (NewUndoManager 5)) = Inl NothingToUndo \<and>
   len (um_undoStack (NewUndoManager 5)) + len (um_redoStack (NewUndoManager 5)) \<le> um_maxHistory (NewUndoManager 5)"
  using undo_redo_inverse [OF um_new, of 5] by (simp add: Undo_def NewUndoManager_def)

definition stamped :: "gotime \<times> Action \<Rightarrow> Action" where
  "stamped na = (let a = snd na; a = (if ac_ID a = [] then a\<lparr>ac_ID := ''action-'' @ itoa (fst na)\<rparr> else a)
     in if ac_Timestamp a = 0 then a\<lparr>ac_Timestamp := fst na\<rparr> else a)"

lemma Record_stack:
  "um_undoStack (Record now a um) =
     (let stack = um_undoStack um @ [stamped (now, a)] in drop (nat (len stack - um_maxHistory um)) stack)"
  "um_maxHistory (Record now a um) = um_maxHistory um"
  by (auto simp: Record_def stamped_def Let_def)

text \<open>
  Recording keeps the latest actions: after any sequence of records on a new manager the
  undo stack has the last of them, up to the limit, in order, with the identifier and the time
  filled in where they were empty.
\<close>

theorem Record_keeps_latest:
  "um_undoStack (foldl (\<lambda>um (now, a). Record now a um) (NewUndoManager n) actions) =
     (let limit = (if n \<le> 0 then 100 else nat n)
      in drop (length actions - limit) (map stamped actions))"
proof -
  let ?limit = "if n \<le> 0 then 100 else nat n"
  let ?run = "foldl (\<lambda>um (now, a). Record now a um) (NewUndoManager n)"
  have "um_undoStack (?run actions) = drop (length actions - ?limit) (map stamped actions) \<and>
    um_maxHistory (?run actions) = int ?limit"
  proof (induction actions rule: rev_induct)
    case Nil
    then show ?case by (simp add: NewUndoManager_def)
  next
    case (snoc na actions)
    obtain now a where na: "na = (now, a)" by force
    have limit: "0 < ?limit" by simp
    have "drop (nat (len (drop (length actions - ?limit) (map stamped actions) @ [stamped na]) - int ?limit))
        (drop (length actions - ?limit) (map stamped actions) @ [stamped na]) =
      drop (Suc (length actions) - ?limit) (map stamped actions @ [stamped na])"
    proof (cases "length actions < ?limit")
      case False
      then have "nat (len (drop (length actions - ?limit) (map stamped actions) @ [stamped na]) - int ?limit) = 1" by simp
      moreover have "Suc (length actions) - ?limit = Suc (length actions - ?limit)" using False by simp
      moreover have "drop (length actions - ?limit) (map stamped actions) \<noteq> []" using False limit by simp
      ultimately show ?thesis by (simp add: drop_Suc tl_drop)
    qed simp
    with snoc show ?case by (simp add: na Record_stack Let_def)
  qed
  then show ?thesis by (simp add: Let_def)
qed

end
