(* ===== verification/Access_Control.thy ===== *)
theory Access_Control
  imports Go_Prelude
begin

text \<open>
  Role-based access control (\<^verbatim>\<open>internal/rbac/rbac.go\<close>) and the permission rules
  (\<^verbatim>\<open>internal/permissions/engine.go\<close>). Roles, permissions and resources are Go string types.
\<close>

type_synonym Role = string
type_synonym Permission = string
type_synonym Resource = string

definition RoleAdmin :: Role where "RoleAdmin = ''admin''"
definition RoleManager :: Role where "RoleManager = ''manager''"
definition RoleDeveloper :: Role where "RoleDeveloper = ''developer''"
definition RoleViewer :: Role where "RoleViewer = ''viewer''"

definition PermRead :: Permission where "PermRead = ''read''"
definition PermWrite :: Permission where "PermWrite = ''write''"
definition PermDelete :: Permission where "PermDelete = ''delete''"
definition PermAdmin :: Permission where "PermAdmin = ''admin''"

definition ResourceBenchmarks :: Resource where "ResourceBenchmarks = ''benchmarks''"
definition ResourceStressTests :: Resource where "ResourceStressTests = ''stress_tests''"
definition ResourceCostData :: Resource where "ResourceCostData = ''cost_data''"
definition ResourceAlerts :: Resource where "ResourceAlerts = ''alerts''"
definition ResourceTeams :: Resource where "ResourceTeams = ''teams''"
definition ResourceConfig :: Resource where "ResourceConfig = ''config''"

lemmas rbac_names = RoleAdmin_def RoleManager_def RoleDeveloper_def RoleViewer_def
  PermRead_def PermWrite_def PermDelete_def PermAdmin_def
  ResourceBenchmarks_def ResourceStressTests_def ResourceCostData_def ResourceAlerts_def
  ResourceTeams_def ResourceConfig_def

record RBAC =
  rb_roles :: "Role \<rightharpoonup> (Resource \<rightharpoonup> Permission list)"
  rb_userRoles :: "string \<rightharpoonup> Role"

definition NewRBAC :: RBAC where
  "NewRBAC = (let full = [PermRead, PermWrite, PermDelete, PermAdmin]; rw = [PermRead, PermWrite]; r = [PermRead] in
     \<lparr>rb_roles =
        [RoleAdmin \<mapsto>
           [ResourceBenchmarks \<mapsto> full, ResourceStressTests \<mapsto> full, ResourceCostData \<mapsto> full,
            ResourceAlerts \<mapsto> full, ResourceTeams \<mapsto> full, ResourceConfig \<mapsto> full],
         RoleManager \<mapsto>
           [ResourceBenchmarks \<mapsto> rw, ResourceStressTests \<mapsto> rw, ResourceCostData \<mapsto> rw,
            ResourceAlerts \<mapsto> rw, ResourceTeams \<mapsto> rw, ResourceConfig \<mapsto> r],
         RoleDeveloper \<mapsto>
           [ResourceBenchmarks \<mapsto> rw, ResourceStressTests \<mapsto> rw, ResourceCostData \<mapsto> r,
            ResourceAlerts \<mapsto> r, ResourceTeams \<mapsto> r, ResourceConfig \<mapsto> r],
         RoleViewer \<mapsto>
           [ResourceBenchmarks \<mapsto> r, ResourceStressTests \<mapsto> r, ResourceCostData \<mapsto> r,
            ResourceAlerts \<mapsto> r, ResourceTeams \<mapsto> r, ResourceConfig \<mapsto> r]],
      rb_userRoles = Map.empty\<rparr>)"

datatype rbacError = UnknownRole Role

definition AssignRole :: "string \<Rightarrow> Role \<Rightarrow> RBAC \<Rightarrow> rbacError option \<times> RBAC" where
  "AssignRole userID role r =
     (if rb_roles r role = None then (Some (UnknownRole role), r)
      else (None, r\<lparr>rb_userRoles := (rb_userRoles r)(userID \<mapsto> role)\<rparr>))"

definition CheckPermission :: "string \<Rightarrow> Resource \<Rightarrow> Permission \<Rightarrow> RBAC \<Rightarrow> bool" where
  "CheckPermission userID resource permission r =
     (case rb_userRoles r userID of
        None \<Rightarrow> False
      | Some role \<Rightarrow>
          (case rb_roles r role of
             None \<Rightarrow> False
           | Some m \<Rightarrow> (case m resource of None \<Rightarrow> False | Some perms \<Rightarrow> permission \<in> set perms)))"

definition GetUserRole :: "string \<Rightarrow> RBAC \<Rightarrow> Role option" where
  "GetUserRole userID r = rb_userRoles r userID"

definition RemoveUser :: "string \<Rightarrow> RBAC \<Rightarrow> RBAC" where
  "RemoveUser userID r = r\<lparr>rb_userRoles := (rb_userRoles r)(userID := None)\<rparr>"

definition ListUsers :: "RBAC \<Rightarrow> (string \<rightharpoonup> Role)" where
  "ListUsers r = rb_userRoles r"

section \<open>Permission rules\<close>

record PermissionRule =
  pr_Resource :: string
  pr_Action :: string
  pr_Allowed :: bool

record PermissionEngine =
  pe_rules :: "string \<Rightarrow> PermissionRule list"

definition NewPermissionEngine :: PermissionEngine where
  "NewPermissionEngine = \<lparr>pe_rules = (\<lambda>_. [])\<rparr>"

definition Grant :: "string \<Rightarrow> string \<Rightarrow> string \<Rightarrow> PermissionEngine \<Rightarrow> PermissionEngine" where
  "Grant role resource action e =
     e\<lparr>pe_rules := (pe_rules e)(role := pe_rules e role @
         [\<lparr>pr_Resource = resource, pr_Action = action, pr_Allowed = True\<rparr>])\<rparr>"

fun check_rules :: "PermissionRule list \<Rightarrow> string \<Rightarrow> string \<Rightarrow> bool" where
  "check_rules [] resource action = False"
| "check_rules (rule # rules) resource action =
     (if pr_Resource rule = resource \<and> pr_Action rule = action then pr_Allowed rule
      else if pr_Resource rule = ''*'' \<and> pr_Action rule = ''admin'' then True
      else check_rules rules resource action)"

definition pe_Check :: "string \<Rightarrow> string \<Rightarrow> string \<Rightarrow> PermissionEngine \<Rightarrow> bool" where
  "pe_Check role resource action e = check_rules (pe_rules e role) resource action"

definition ListRules :: "string \<Rightarrow> PermissionEngine \<Rightarrow> PermissionRule list" where
  "ListRules role e = pe_rules e role"

definition NewEnvVarPrefix :: "string list \<Rightarrow> string list" where
  "NewEnvVarPrefix prefixes = (if prefixes = [] then [''TOKMAN_'', ''TK_'', ''TOKF_''] else prefixes)"

definition HasPrefix :: "string list \<Rightarrow> string \<Rightarrow> bool" where
  "HasPrefix prefixes key \<longleftrightarrow>
     list_ex (\<lambda>prefix. len key \<ge> len prefix \<and> take (length prefix) key = prefix) prefixes"

section \<open>States and lemmas\<close>

datatype rbac_op = Assign string Role | Remove string

fun rbac_exec :: "rbac_op \<Rightarrow> RBAC \<Rightarrow> RBAC" where
  "rbac_exec (Assign u role) r = snd (AssignRole u role r)"
| "rbac_exec (Remove u) r = RemoveUser u r"

definition rbac_inv :: "RBAC \<Rightarrow> bool" where
  "rbac_inv r \<longleftrightarrow> rb_roles r = rb_roles NewRBAC \<and> ran (rb_userRoles r) \<subseteq> dom (rb_roles NewRBAC)"

lemma rbac_exec_inv [go_inv]: "rbac_inv r \<Longrightarrow> rbac_inv (rbac_exec op r)"
proof (cases op)
  case (Assign u role)
  assume "rbac_inv r"
  then show ?thesis using Assign by (auto simp: rbac_inv_def AssignRole_def ran_def split: if_splits)
next
  case (Remove u)
  assume "rbac_inv r"
  then show ?thesis using Remove by (auto simp: rbac_inv_def RemoveUser_def ran_def split: if_splits)
qed

lemma rbac_run_inv: "rbac_inv (fold rbac_exec ops NewRBAC)"
proof -
  have "rbac_inv r \<Longrightarrow> rbac_inv (fold rbac_exec ops r)" for r
    by (induction ops arbitrary: r) (simp_all add: rbac_exec_inv)
  moreover have "rbac_inv NewRBAC" by (simp add: rbac_inv_def NewRBAC_def Let_def)
  ultimately show ?thesis by blast
qed

lemma check_granted:
  "\<forall>rule \<in> set rules. pr_Allowed rule \<Longrightarrow> check_rules rules resource action \<longleftrightarrow>
     (\<exists>rule \<in> set rules. pr_Resource rule = resource \<and> pr_Action rule = action \<or>
        pr_Resource rule = ''*'' \<and> pr_Action rule = ''admin'')"
  by (induction rules) auto

section \<open>Properties\<close>

text \<open>
  After any sequence of assignments and removals, whatever roles they name, only a user
  whose current role is the administrator's may delete or administer anything, a user with no
  role may do nothing, and who may write to a resource may read it.
\<close>

theorem rbac_least_privilege:
  fixes ops :: "rbac_op list"
  defines "r \<equiv> fold rbac_exec ops NewRBAC"
  shows "(CheckPermission u res PermDelete r \<or> CheckPermission u res PermAdmin r \<longrightarrow> GetUserRole u r = Some RoleAdmin) \<and>
    (GetUserRole u r = None \<longrightarrow> \<not> CheckPermission u res perm r) \<and>
    (CheckPermission u res PermWrite r \<longrightarrow> CheckPermission u res PermRead r)"
proof -
  have inv: "rb_roles r = rb_roles NewRBAC" using rbac_run_inv unfolding r_def rbac_inv_def by blast
  show ?thesis
    unfolding CheckPermission_def GetUserRole_def inv
    by (auto simp: NewRBAC_def Let_def rbac_names split: option.splits if_splits)
qed

theorem rbac_least_privilege_witness:
  "\<not> CheckPermission ''u'' ''teams'' PermDelete (fold rbac_exec [Assign ''u'' ''viewer''] NewRBAC)"
  using rbac_least_privilege [of "''u''" "''teams''" "[Assign ''u'' ''viewer'']" PermRead]
  by (auto simp: GetUserRole_def AssignRole_def NewRBAC_def Let_def rbac_names)

text \<open>
  Rules that were granted allow exactly what was granted: after any sequence of grants a
  role may perform an action on a resource when that pair was granted to it, or when it was
  granted administration of everything; a grant never takes anything away.
\<close>

theorem granted_iff:
  "pe_Check role resource action (fold (\<lambda>(ro, rs, ac). Grant ro rs ac) gs NewPermissionEngine) \<longleftrightarrow>
     (role, resource, action) \<in> set gs \<or> (role, ''*'', ''admin'') \<in> set gs"
proof -
  let ?e = "fold (\<lambda>(ro, rs, ac). Grant ro rs ac) gs NewPermissionEngine"
  have "pe_rules ?e role = map (\<lambda>(_, rs, ac). \<lparr>pr_Resource = rs, pr_Action = ac, pr_Allowed = True\<rparr>)
      (filter (\<lambda>(ro, _, _). ro = role) gs)"
    by (induction gs rule: rev_induct) (auto simp: NewPermissionEngine_def Grant_def split: prod.splits)
  then show ?thesis unfolding pe_Check_def by (subst check_granted) force+
qed

end
