(* ===== verification/Go_Strings.thy ===== *)
theory Go_Strings
  imports Go_Prelude "HOL-Library.Sublist"
begin

text \<open>
  More of Go's package \<^verbatim>\<open>strings\<close>: replacing, counting, character sets, and the lemmas
  that relate them to joined texts. A joined text is transformed word by word as long as the
  pattern has no separator in it, which is how the filters that rewrite words are reasoned about.
\<close>

section \<open>Replacing and counting\<close>

text \<open>\<^verbatim>\<open>strings.ReplaceAll(s, old, new)\<close> for a non-empty \<open>old\<close>: occurrences are found from
  the left and do not overlap.\<close>

function replaceAll :: "string \<Rightarrow> string \<Rightarrow> string \<Rightarrow> string" where
  "replaceAll old new [] = []"
| "replaceAll old new (c # s) =
     (if has_prefix (c # s) old then new @ replaceAll old new (drop (length old - 1) s)
      else c # replaceAll old new s)"
  by pat_completeness auto
termination
  by (relation "measure (\<lambda>(_, _, s). length s)") auto

text \<open>\<^verbatim>\<open>strings.Count(s, sub)\<close> for a non-empty \<open>sub\<close>: non-overlapping occurrences.\<close>

function str_count :: "string \<Rightarrow> string \<Rightarrow> int" where
  "str_count [] sub = 0"
| "str_count (c # s) sub =
     (if has_prefix (c # s) sub then 1 + str_count (drop (length sub - 1) s) sub else str_count s sub)"
  by pat_completeness auto
termination
  by (relation "measure (\<lambda>(s, _). length s)") auto

text \<open>\<^verbatim>\<open>strings.ContainsAny\<close> for a set of ASCII characters.\<close>

definition containsAnyChar :: "string \<Rightarrow> string \<Rightarrow> bool" where
  "containsAnyChar s chars \<longleftrightarrow> list_ex (\<lambda>c. c \<in> set chars) s"

definition is_digit :: "char \<Rightarrow> bool" where
  "is_digit c \<longleftrightarrow> c \<in> set ''0123456789''"

definition has_suffix :: "string \<Rightarrow> string \<Rightarrow> bool" where
  "has_suffix s p \<longleftrightarrow> length p \<le> length s \<and> drop (length s - length p) s = p"

definition trimPrefix :: "string \<Rightarrow> string \<Rightarrow> string" where
  "trimPrefix s p = (if has_prefix s p then drop (length p) s else s)"

definition trimSuffix :: "string \<Rightarrow> string \<Rightarrow> string" where
  "trimSuffix s p = rev (trimPrefix (rev s) (rev p))"

section \<open>Laws\<close>

lemma str_count_nonneg: "0 \<le> str_count s sub"
  by (induction s sub rule: str_count.induct) auto

lemma str_count_pos_iff: "sub \<noteq> [] \<Longrightarrow> 0 < str_count s sub \<longleftrightarrow> contains s sub"
proof (induction s sub rule: str_count.induct)
  case (2 c s sub)
  then show ?case using str_count_nonneg [of "drop (length sub - 1) s" sub] by auto
qed auto

lemma replaceAll_absent: "\<not> contains s old \<Longrightarrow> replaceAll old new s = s"
  by (induction old new s rule: replaceAll.induct) auto

lemma replaceAll_self:
  assumes "old \<noteq> []"
  shows "replaceAll old new (old @ s) = new @ replaceAll old new s"
proof -
  obtain c o' where "old = c # o'" using assms by (cases old) auto
  moreover have "has_prefix ((c # o') @ s) (c # o')" unfolding has_prefix_iff by blast
  ultimately show ?thesis by simp
qed

text \<open>A pattern without the separator never reaches over it.\<close>

lemma prefix_stops:
  assumes "has_prefix (t @ sep # r) p" "sep \<notin> set p"
  shows "has_prefix t p"
  using assms by (induction t p rule: has_prefix.induct) (auto split: if_splits elim: has_prefix.elims)

lemma replaceAll_word:
  assumes "\<not> contains t old" "sep \<notin> set old" "old \<noteq> []"
  shows "replaceAll old new (t @ sep # r) = t @ sep # replaceAll old new r"
  using assms(1)
proof (induction t)
  case Nil
  from assms(2,3) show ?case by (cases old) auto
next
  case (Cons c t)
  then have "\<not> has_prefix (c # t) old" "\<not> contains t old" by auto
  moreover from this(1) have "\<not> has_prefix ((c # t) @ sep # r) old"
    using prefix_stops assms(2) by blast
  ultimately show ?case using Cons.IH by simp
qed

lemma replaceAll_join:
  assumes "old \<noteq> []" "sep \<notin> set old" "q \<noteq> []"
    and "\<forall>t \<in> set ts. t = old \<or> \<not> contains t old"
  shows "replaceAll old (join [sep] q) (join [sep] ts) =
    join [sep] (concat (map (\<lambda>t. if t = old then q else [t]) ts))"
  using assms(4)
proof (induction ts)
  case (Cons t ts)
  let ?f = "\<lambda>t. if t = old then q else [t]" and ?new = "join [sep] q"
  show ?case
  proof (cases "ts = []")
    case True
    then show ?thesis
      using Cons.prems replaceAll_self [OF assms(1), of ?new "[]"] replaceAll_absent [of t old ?new] by auto
  next
    case False
    have ne: "concat (map ?f ts) \<noteq> []" using False assms(3) by (cases ts) auto
    have "replaceAll old ?new (t @ sep # join [sep] ts) = join [sep] (?f t) @ sep # replaceAll old ?new (join [sep] ts)"
    proof (cases "t = old")
      case True
      have "replaceAll old ?new (sep # join [sep] ts) = sep # replaceAll old ?new (join [sep] ts)"
        using replaceAll_word [of "[]" old sep ?new] assms(1,2) by (cases old) auto
      then show ?thesis using True replaceAll_self [OF assms(1)] by simp
    next
      case False
      then show ?thesis using Cons.prems replaceAll_word [of t old sep ?new] assms(1,2) by simp
    qed
    then show ?thesis using Cons False ne assms(3) by (simp add: join_Cons join_append)
  qed
qed simp

lemma split_part: "t \<in> set (split_on c s) \<Longrightarrow> \<exists>u v. s = u @ t @ v"
proof -
  have part: "t \<in> set ts \<Longrightarrow> \<exists>u v. join [c] ts = u @ t @ v" for ts
  proof (induction ts)
    case (Cons x ts)
    show ?case
    proof (cases "t = x")
      case True
      then have "join [c] (x # ts) = [] @ t @ (if ts = [] then [] else c # join [c] ts)" by (simp add: join_Cons)
      then show ?thesis by blast
    next
      case False
      then have ts: "t \<in> set ts" "ts \<noteq> []" using Cons.prems by auto
      from Cons.IH [OF ts(1)] obtain u v where "join [c] ts = u @ t @ v" by blast
      then have "join [c] (x # ts) = (x @ c # u) @ t @ v" using ts(2) by (simp add: join_Cons)
      then show ?thesis by blast
    qed
  qed simp
  show "t \<in> set (split_on c s) \<Longrightarrow> \<exists>u v. s = u @ t @ v" using part [of "split_on c s"] by simp
qed

lemma split_not_contains: "\<not> contains s p \<Longrightarrow> t \<in> set (split_on c s) \<Longrightarrow> \<not> contains t p"
  using split_part contains_mono by metis

lemma itoa_nat_digits: "c \<in> set (itoa_nat n) \<Longrightarrow> is_digit c"
proof (induction n rule: itoa_nat.induct)
  case (1 n)
  have dig: "is_digit (char_of (48 + k))" if "k < 10" for k :: nat
  proof -
    have "k \<in> set [0..<10]" using that by simp
    moreover have "list_all (\<lambda>k. is_digit (char_of (48 + k))) [0..<10]" by code_simp
    ultimately show ?thesis by (metis list_all_iff)
  qed
  show ?case
  proof (cases "n < 10")
    case True
    with 1 show ?thesis using dig [of n] by (subst (asm) (2) itoa_nat.simps) simp
  next
    case False
    with 1 show ?thesis using dig [of "n mod 10"] by (subst (asm) (2) itoa_nat.simps) auto
  qed
qed

lemma itoa_digits: "0 \<le> i \<Longrightarrow> c \<in> set (itoa i) \<Longrightarrow> is_digit c"
  by (simp add: itoa_def itoa_nat_digits)

end
