(* ===== verification/Meta_Token.thy ===== *)
theory Meta_Token
  imports Go_Strings Filter_Configs "HOL-Library.Multiset"
begin

text \<open>
  The meta-token filter, layer 15 (\<^verbatim>\<open>internal/filter/meta_token.go\<close>): repeated sequences of
  words are replaced by markers, and \<^verbatim>\<open>Decompress\<close> puts them back. SHA-256 in hexadecimal
  is the argument \<open>sha\<close>; the order in which Go ranges over the stored meta-tokens is the
  argument \<open>iter\<close>. The main loop need not end for a minimal pattern length of 0, so it is a
  partial function; it is shown to return for every length from 1 on.

  The filter is documented as lossless. That is proved for a filter that has compressed any
  number of texts, under what it rests on: the texts have no marker of their own, and the
  sequences of words in them are told apart by the eight digits of the hash in a marker.
\<close>

section \<open>The filter\<close>

record MetaToken =
  mt_Hash :: string
  mt_Original :: string
  mt_Length :: int
  mt_Count :: int

record MetaTokenFilter =
  mf_config :: MetaTokenConfig
  mf_metaTokens :: "(string \<times> MetaToken) list"

record MetaTokenStats =
  ms_UniquePatterns :: int
  ms_TotalPatterns :: int
  ms_EstTokensSaved :: int

definition NewMetaTokenFilterWithConfig :: "MetaTokenConfig \<Rightarrow> MetaTokenFilter" where
  "NewMetaTokenFilterWithConfig cfg = \<lparr>mf_config = cfg, mf_metaTokens = []\<rparr>"

definition NewMetaTokenFilter :: MetaTokenFilter where
  "NewMetaTokenFilter = NewMetaTokenFilterWithConfig DefaultMetaTokenConfig"

fun match_at :: "string list \<Rightarrow> string list \<Rightarrow> bool" where
  "match_at ts [] = True"
| "match_at [] (p # ps) = False"
| "match_at (t # ts) (p # ps) = (t = p \<and> match_at ts ps)"

function findPattern :: "string list \<Rightarrow> string list \<Rightarrow> nat \<Rightarrow> int" where
  "findPattern tokens pattern i =
     (if int i \<le> len tokens - len pattern
      then (if match_at (drop i tokens) pattern then int i else findPattern tokens pattern (Suc i))
      else -1)"
  by pat_completeness auto
termination
  by (relation "measure (\<lambda>(tokens, _, i). Suc (length tokens) - i)") auto

declare findPattern.simps [simp del]

text \<open>The inner loop: the longest length, from the window down, whose sequence occurs again.
  A slice with a negative length is a panic.\<close>

function longest_match :: "string list \<Rightarrow> nat \<Rightarrow> int \<Rightarrow> int \<Rightarrow> int option option" where
  "longest_match tokens i minPattern patternLen =
     (if patternLen \<ge> minPattern
      then (if patternLen < 0 then None
            else if findPattern tokens (take (nat patternLen) (drop i tokens)) (i + nat patternLen) \<noteq> -1
            then Some (Some patternLen)
            else longest_match tokens i minPattern (patternLen - 1))
      else Some None)"
  by pat_completeness auto
termination
  by (relation "measure (\<lambda>(_, _, m, n). nat (n - m + 1))") auto

declare longest_match.simps [simp del]

definition meta_marker :: "string \<Rightarrow> int \<Rightarrow> string" where
  "meta_marker hash n = ''[META:'' @ take 8 hash @ '':'' @ itoa n @ '']''"

definition record_meta ::
  "string \<Rightarrow> string \<Rightarrow> int \<Rightarrow> (string \<times> MetaToken) list \<Rightarrow> (string \<times> MetaToken) list" where
  "record_meta hash patternStr patternLen m =
     (case al_get m hash of
        Some mt \<Rightarrow> al_put hash (mt\<lparr>mt_Count := mt_Count mt + 1\<rparr>) m
      | None \<Rightarrow> al_put hash \<lparr>mt_Hash = hash, mt_Original = patternStr, mt_Length = patternLen, mt_Count = 1\<rparr> m)"

partial_function (option) compress_loop ::
  "(string \<Rightarrow> string) \<Rightarrow> MetaTokenConfig \<Rightarrow> string list \<Rightarrow> nat \<Rightarrow> string list \<Rightarrow> int \<Rightarrow> int
     \<Rightarrow> (string \<times> MetaToken) list \<Rightarrow> (string list \<times> int \<times> (string \<times> MetaToken) list) option" where
  "compress_loop sha cfg tokens i result saved metaCount m =
     (if i < length tokens then
        if metaCount \<ge> meta_MaxMetaTokens cfg \<and> meta_MaxMetaTokens cfg > 0
        then Some (result @ drop i tokens, saved, m)
        else (case longest_match tokens i (meta_MinPattern cfg) (min (meta_WindowSize cfg) (len tokens - int i)) of
                None \<Rightarrow> None
              | Some (Some patternLen) \<Rightarrow>
                  (let patternStr = join '' '' (take (nat patternLen) (drop i tokens));
                       hash = sha patternStr
                   in compress_loop sha cfg tokens (i + nat patternLen) (result @ [meta_marker hash patternLen])
                        (saved + patternLen - 1) (metaCount + 1) (record_meta hash patternStr patternLen m))
              | Some None \<Rightarrow>
                  compress_loop sha cfg tokens (Suc i) (result @ [tokens ! i]) saved metaCount m)
      else Some (result, saved, m))"

definition meta_compress ::
  "(string \<Rightarrow> string) \<Rightarrow> MetaTokenFilter \<Rightarrow> string list \<Rightarrow> (string list \<times> int \<times> MetaTokenFilter) option" where
  "meta_compress sha f tokens =
     map_option (\<lambda>(result, saved, m). (result, saved, f\<lparr>mf_metaTokens := m\<rparr>))
       (compress_loop sha (mf_config f) tokens 0 [] 0 0 (mf_metaTokens f))"

definition meta_Apply ::
  "(string \<Rightarrow> string) \<Rightarrow> MetaTokenFilter \<Rightarrow> string \<Rightarrow> Mode \<Rightarrow> ((string \<times> int) \<times> MetaTokenFilter) option" where
  "meta_Apply sha f input mode =
     (if mode = ModeNone then Some ((input, 0), f)
      else let tokens = split_on CHR '' '' input
           in if len tokens < meta_MinPattern (mf_config f) then Some ((input, 0), f)
              else map_option (\<lambda>(compressed, saved, f'). ((join '' '' compressed, saved), f')) (meta_compress sha f tokens))"

definition meta_Decompress ::
  "((string \<times> MetaToken) list \<Rightarrow> (string \<times> MetaToken) list) \<Rightarrow> MetaTokenFilter \<Rightarrow> string \<Rightarrow> string" where
  "meta_Decompress iter f input =
     foldl (\<lambda>result (hash, mt). replaceAll (meta_marker hash (mt_Length mt)) (mt_Original mt) result)
       input (iter (mf_metaTokens f))"

definition LoadMetaTokens :: "(string \<times> MetaToken) list \<Rightarrow> MetaTokenFilter \<Rightarrow> MetaTokenFilter" where
  "LoadMetaTokens tokens f = f\<lparr>mf_metaTokens := foldl (\<lambda>m (k, v). al_put k v m) (mf_metaTokens f) tokens\<rparr>"

definition meta_Stats :: "MetaTokenFilter \<Rightarrow> MetaTokenStats" where
  "meta_Stats f =
     (let m = map snd (mf_metaTokens f)
      in \<lparr>ms_UniquePatterns = len (mf_metaTokens f), ms_TotalPatterns = sum_list (map mt_Count m),
          ms_EstTokensSaved = sum_list (map (\<lambda>mt. mt_Count mt * (mt_Length mt - 1)) m)\<rparr>)"

section \<open>What the compression stores\<close>

text \<open>
  A compressed text is a list of items: a word as it is, or a marker for a sequence of words.
\<close>

datatype item = Lit string | Ref "string list"

definition phrase_hash :: "(string \<Rightarrow> string) \<Rightarrow> string list \<Rightarrow> string" where
  "phrase_hash sha p = sha (join '' '' p)"

definition phrase_marker :: "(string \<Rightarrow> string) \<Rightarrow> string list \<Rightarrow> string" where
  "phrase_marker sha p = meta_marker (phrase_hash sha p) (len p)"

fun expand_item :: "item \<Rightarrow> string list" where
  "expand_item (Lit t) = [t]"
| "expand_item (Ref p) = p"

fun show_item :: "(string \<Rightarrow> string) \<Rightarrow> item \<Rightarrow> string" where
  "show_item sha (Lit t) = t"
| "show_item sha (Ref p) = phrase_marker sha p"

text \<open>The hash prefix of a marker tells the phrases of \<open>Q\<close> apart, and every stored meta-token is
  that of a phrase of \<open>Q\<close>.\<close>

definition distinguishes :: "(string \<Rightarrow> string) \<Rightarrow> string list set \<Rightarrow> bool" where
  "distinguishes sha Q \<longleftrightarrow> inj_on (\<lambda>p. take 8 (phrase_hash sha p)) Q"

definition meta_for :: "(string \<Rightarrow> string) \<Rightarrow> string list \<Rightarrow> string \<times> MetaToken \<Rightarrow> bool" where
  "meta_for sha q e \<longleftrightarrow> q \<noteq> [] \<and> fst e = phrase_hash sha q \<and> mt_Original (snd e) = join '' '' q \<and>
     mt_Length (snd e) = len q"

definition meta_ok :: "(string \<Rightarrow> string) \<Rightarrow> string list set \<Rightarrow> (string \<times> MetaToken) list \<Rightarrow> bool" where
  "meta_ok sha Q m \<longleftrightarrow> (\<forall>e \<in> set m. \<exists>q \<in> Q. meta_for sha q e)"

lemma distinguishesD:
  "distinguishes sha Q \<Longrightarrow> p \<in> Q \<Longrightarrow> q \<in> Q \<Longrightarrow> take 8 (phrase_hash sha p) = take 8 (phrase_hash sha q) \<Longrightarrow> p = q"
  unfolding distinguishes_def inj_on_def by blast

lemma record_meta_keys: "set (al_keys (record_meta h s n m)) = insert h (set (al_keys m))"
  by (auto simp: record_meta_def split: option.splits)

lemma meta_ok_put:
  "meta_ok sha Q m \<Longrightarrow> q \<in> Q \<Longrightarrow> meta_for sha q (k, v) \<Longrightarrow> meta_ok sha Q (al_put k v m)"
  using set_al_put [of k v m] unfolding meta_ok_def by blast

lemma record_meta_ok:
  assumes "meta_ok sha Q m" "p \<in> Q" "p \<noteq> []"
  shows "meta_ok sha Q (record_meta (phrase_hash sha p) (join '' '' p) (len p) m)"
proof (cases "al_get m (phrase_hash sha p)")
  case None
  then show ?thesis using assms by (simp add: record_meta_def meta_for_def meta_ok_put)
next
  case (Some mt)
  then have "(phrase_hash sha p, mt) \<in> set m" by (rule al_get_Some_in)
  then obtain q where q: "q \<in> Q" "meta_for sha q (phrase_hash sha p, mt)" using assms(1) unfolding meta_ok_def by blast
  then have "meta_for sha q (phrase_hash sha p, mt\<lparr>mt_Count := mt_Count mt + 1\<rparr>)" by (simp add: meta_for_def)
  then show ?thesis using Some q(1) assms(1) by (simp add: record_meta_def meta_ok_put)
qed

lemma longest_match_bounds:
  "longest_match tokens i m n = Some (Some k) \<Longrightarrow> m \<le> k \<and> 0 \<le> k \<and> k \<le> n"
proof (induction tokens i m n rule: longest_match.induct)
  case (1 tokens i m n)
  from "1.prems" have "m \<le> n" "0 \<le> n" by (subst (asm) longest_match.simps, simp split: if_splits)+
  show ?case
  proof (cases "findPattern tokens (take (nat n) (drop i tokens)) (i + nat n) \<noteq> -1")
    case True
    with "1.prems" \<open>m \<le> n\<close> \<open>0 \<le> n\<close> show ?thesis by (subst (asm) longest_match.simps) simp
  next
    case False
    with "1.prems" \<open>m \<le> n\<close> \<open>0 \<le> n\<close> have "longest_match tokens i m (n - 1) = Some (Some k)"
      by (subst (asm) longest_match.simps) simp
    from "1.IH" [OF _ _ _ this] False \<open>m \<le> n\<close> \<open>0 \<le> n\<close> show ?thesis by simp
  qed
qed

lemma longest_match_returns: "0 \<le> m \<Longrightarrow> longest_match tokens i m n \<noteq> None"
  by (induction tokens i m n rule: longest_match.induct) (subst longest_match.simps, simp)

text \<open>The main loop returns, and what it returns stands for the rest of the text.\<close>

lemma compress_loop_items:
  assumes "1 \<le> meta_MinPattern cfg" "\<And>p. sublist p tokens \<Longrightarrow> p \<in> Q"
    and "meta_ok sha Q m" "i \<le> length tokens"
  shows "\<exists>items m'. compress_loop sha cfg tokens i result saved k m =
      Some (result @ map (show_item sha) items, saved + (len tokens - int i) - len items, m') \<and>
    concat (map expand_item items) = drop i tokens \<and> meta_ok sha Q m' \<and>
    set (al_keys m) \<subseteq> set (al_keys m') \<and>
    (\<forall>p. Ref p \<in> set items \<longrightarrow> p \<in> Q \<and> p \<noteq> [] \<and> phrase_hash sha p \<in> set (al_keys m'))"
    (is "\<exists>items m'. ?P i result saved k m items m'")
  using assms(3,4)
proof (induction "length tokens - i" arbitrary: i result saved k m rule: less_induct)
  case less
  let ?lm = "longest_match tokens i (meta_MinPattern cfg) (min (meta_WindowSize cfg) (len tokens - int i))"
  have copy: "concat (map expand_item (map Lit ts)) = ts" "map (show_item sha) (map Lit ts) = ts" for ts
    by (induction ts) auto
  have lm: "?lm = Some None \<or> (\<exists>n. ?lm = Some (Some n))"
    using longest_match_returns [of "meta_MinPattern cfg"] assms(1) by (metis not_None_eq order_trans zero_le_one)
  consider "i = length tokens"
    | "i < length tokens" "k \<ge> meta_MaxMetaTokens cfg \<and> meta_MaxMetaTokens cfg > 0"
    | "i < length tokens" "\<not> (k \<ge> meta_MaxMetaTokens cfg \<and> meta_MaxMetaTokens cfg > 0)" "?lm = Some None"
    | n where "i < length tokens" "\<not> (k \<ge> meta_MaxMetaTokens cfg \<and> meta_MaxMetaTokens cfg > 0)" "?lm = Some (Some n)"
    using less.prems(2) lm by fastforce
  then show ?case
  proof cases
    case 1
    then have "?P i result saved k m [] m" using less.prems by (subst compress_loop.simps) simp
    then show ?thesis by blast
  next
    case 2
    then have "?P i result saved k m (map Lit (drop i tokens)) m"
      using less.prems copy by (subst compress_loop.simps) (auto simp: of_nat_diff)
    then show ?thesis by blast
  next
    case 3
    have eq: "compress_loop sha cfg tokens i result saved k m =
        compress_loop sha cfg tokens (Suc i) (result @ [tokens ! i]) saved k m"
      using 3 by (subst compress_loop.simps) (simp only: if_True if_False option.case)
    have "length tokens - Suc i < length tokens - i" "Suc i \<le> length tokens" using 3(1) by auto
    from less.hyps [OF this(1) less.prems(1) this(2), of "result @ [tokens ! i]" saved k]
    obtain items m' where "?P (Suc i) (result @ [tokens ! i]) saved k m items m'" by blast
    then have "?P i result saved k m (Lit (tokens ! i) # items) m'"
      using 3(1) unfolding eq by (simp add: Cons_nth_drop_Suc)
    then show ?thesis by blast
  next
    case (4 n)
    let ?p = "take (nat n) (drop i tokens)"
    have n: "1 \<le> n" "n \<le> len tokens - int i" using longest_match_bounds [OF 4(3)] assms(1) by auto
    then have len: "len ?p = n" "?p \<noteq> []" using 4(1) by auto
    have p: "?p \<in> Q" by (rule assms(2)) (metis sublist_take sublist_drop sublist_order.order_trans)
    let ?m = "record_meta (phrase_hash sha ?p) (join '' '' ?p) (len ?p) m" and ?r = "result @ [phrase_marker sha ?p]"
    have eq: "compress_loop sha cfg tokens i result saved k m =
        compress_loop sha cfg tokens (i + nat n) ?r (saved + n - 1) (k + 1) ?m"
      using 4 len by (subst compress_loop.simps) (simp only: if_True if_False option.case Let_def phrase_hash_def phrase_marker_def)
    have "length tokens - (i + nat n) < length tokens - i" "i + nat n \<le> length tokens" using n 4(1) by auto
    from less.hyps [OF this(1) record_meta_ok [OF less.prems(1) p len(2)] this(2), of ?r "saved + n - 1" "k + 1"]
    obtain items m' where im: "?P (i + nat n) ?r (saved + n - 1) (k + 1) ?m items m'" by blast
    have "?p @ drop (i + nat n) tokens = drop i tokens"
      by (metis add.commute append_take_drop_id drop_drop)
    then have "?P i result saved k m (Ref ?p # items) m'"
      using im n p len unfolding eq record_meta_keys by auto
    then show ?thesis by blast
  qed
qed

section \<open>Putting the markers back\<close>

text \<open>\<^verbatim>\<open>hex.EncodeToString\<close> of a SHA-256 sum: lower-case hexadecimal digits, at least eight.\<close>

definition sha_hex :: "(string \<Rightarrow> string) \<Rightarrow> bool" where
  "sha_hex sha \<longleftrightarrow> (\<forall>x. 8 \<le> length (sha x) \<and> set (sha x) \<subseteq> set ''0123456789abcdef'')"

definition clean :: "string \<Rightarrow> bool" where
  "clean t \<longleftrightarrow> \<not> contains t ''[META:''"

fun render :: "(string \<Rightarrow> string) \<Rightarrow> string set \<Rightarrow> item \<Rightarrow> string list" where
  "render sha D (Lit t) = [t]"
| "render sha D (Ref p) = (if phrase_hash sha p \<in> D then p else [phrase_marker sha p])"

lemma bracketed_contains:
  assumes "contains (l # a @ [r]) (l # b @ [r])" "l \<notin> set a" "r \<notin> set a" "l \<noteq> r"
  shows "a = b"
proof -
  from assms(1) obtain u v where eq: "l # a @ [r] = u @ (l # b @ [r]) @ v" unfolding contains_iff by blast
  have "u = []"
  proof (cases u)
    case (Cons x u')
    with eq have "a @ [r] = u' @ l # b @ r # v" by simp
    then have "l \<in> set (a @ [r])" by simp
    then show ?thesis using assms by simp
  qed
  with eq have eq: "a @ [r] = b @ r # v" by simp
  have "v = []"
  proof (rule ccontr)
    assume "v \<noteq> []"
    then have "butlast (b @ r # v) = b @ r # butlast v" by (simp add: butlast_append)
    then have "a = b @ r # butlast v" using eq by (metis butlast_snoc)
    then show False using assms(3) by simp
  qed
  with eq show ?thesis by simp
qed

lemma marker_chars:
  assumes "sha_hex sha" "c \<in> set (''META:'' @ take 8 (sha x) @ '':'' @ itoa (len p))"
  shows "c \<in> set ''META:0123456789abcdef''"
proof -
  have "set (take 8 (sha x)) \<subseteq> set ''0123456789abcdef''"
    using assms(1) set_take_subset unfolding sha_hex_def by (meson subset_trans)
  moreover have "set (itoa (len p)) \<subseteq> set ''0123456789''" 
    using itoa_digits [OF of_nat_0_le_iff] unfolding is_digit_def by blast
  moreover have "set ''META:'' \<subseteq> set ''META:0123456789abcdef''" "set ''0123456789abcdef'' \<subseteq> set ''META:0123456789abcdef''"
    "set ''0123456789'' \<subseteq> set ''0123456789abcdef''" "set '':'' \<subseteq> set ''META:0123456789abcdef''" by simp_all
  ultimately show ?thesis using assms(2) unfolding set_append by blast
qed

lemma marker_body:
  assumes "sha_hex sha"
  shows "CHR ''['' \<notin> set (''META:'' @ take 8 (phrase_hash sha p) @ '':'' @ itoa (len p))"
    "CHR '']'' \<notin> set (''META:'' @ take 8 (phrase_hash sha p) @ '':'' @ itoa (len p))"
    "CHR '' '' \<notin> set (''META:'' @ take 8 (phrase_hash sha p) @ '':'' @ itoa (len p))"
proof -
  note chars = marker_chars [OF assms, where x = "join '' '' p" and p = p, folded phrase_hash_def]
  have "CHR ''['' \<notin> set ''META:0123456789abcdef''" "CHR '']'' \<notin> set ''META:0123456789abcdef''"
    "CHR '' '' \<notin> set ''META:0123456789abcdef''" by simp_all
  then show "CHR ''['' \<notin> set (''META:'' @ take 8 (phrase_hash sha p) @ '':'' @ itoa (len p))"
    "CHR '']'' \<notin> set (''META:'' @ take 8 (phrase_hash sha p) @ '':'' @ itoa (len p))"
    "CHR '' '' \<notin> set (''META:'' @ take 8 (phrase_hash sha p) @ '':'' @ itoa (len p))"
    using chars by blast+
qed

lemma marker_inj:
  assumes "sha_hex sha" "contains (phrase_marker sha p) (phrase_marker sha q)"
  shows "take 8 (phrase_hash sha p) = take 8 (phrase_hash sha q)"
proof -
  let ?b = "\<lambda>p. ''META:'' @ take 8 (phrase_hash sha p) @ '':'' @ itoa (len p)"
  have "?b p = ?b q"
    using assms(2) marker_body(1,2) [OF assms(1), of p] bracketed_contains [of "CHR ''[''" "?b p" "CHR '']''" "?b q"]
    by (simp add: phrase_marker_def meta_marker_def)
  moreover have "length (take 8 (phrase_hash sha p)) = 8" for p
    using assms(1) by (simp add: sha_hex_def phrase_hash_def)
  ultimately show ?thesis by simp
qed

lemma marker_facts:
  assumes "sha_hex sha"
  shows "phrase_marker sha p \<noteq> []" "CHR '' '' \<notin> set (phrase_marker sha p)" "clean t \<Longrightarrow> \<not> contains t (phrase_marker sha p)"
proof -
  show "phrase_marker sha p \<noteq> []" by (simp add: phrase_marker_def meta_marker_def)
  show "CHR '' '' \<notin> set (phrase_marker sha p)"
    using marker_body(3) [OF assms, of p] by (simp add: phrase_marker_def meta_marker_def)
  have "phrase_marker sha p = ''[META:'' @ take 8 (phrase_hash sha p) @ '':'' @ itoa (len p) @ '']''"
    by (simp add: phrase_marker_def meta_marker_def)
  then show "clean t \<Longrightarrow> \<not> contains t (phrase_marker sha p)" unfolding clean_def contains_iff by (metis append.assoc)
qed

text \<open>The items that occur: clean words, and markers of phrases of \<open>Q\<close>, which are clean.\<close>

definition items_ok :: "string list set \<Rightarrow> item list \<Rightarrow> bool" where
  "items_ok Q items \<longleftrightarrow> (\<forall>it \<in> set items. (\<forall>t \<in> set (expand_item it). clean t)) \<and> (\<forall>p. Ref p \<in> set items \<longrightarrow> p \<in> Q)"

lemma items_okD:
  "items_ok Q items \<Longrightarrow> it \<in> set items \<Longrightarrow> t \<in> set (expand_item it) \<Longrightarrow> clean t"
  "items_ok Q items \<Longrightarrow> Ref p \<in> set items \<Longrightarrow> p \<in> Q"
  unfolding items_ok_def by blast+

lemma decompress_step:
  assumes "sha_hex sha" "distinguishes sha Q" "items_ok Q items" "q \<in> Q" "meta_for sha q e"
  shows "replaceAll (meta_marker (fst e) (mt_Length (snd e))) (mt_Original (snd e))
      (join '' '' (concat (map (render sha D) items))) =
    join '' '' (concat (map (render sha (insert (fst e) D)) items))"
proof -
  let ?f = "\<lambda>t. if t = phrase_marker sha q then q else [t]"
  have clean: "?f t = [t]" "\<not> contains t (phrase_marker sha q)" if "clean t" for t
    using marker_facts(3) [OF assms(1) that] contains_infix [of "[]" t "[]"] by auto
  have "concat (map ?f (render sha D it)) = render sha (insert (phrase_hash sha q) D) it \<and>
      (\<forall>t \<in> set (render sha D it). t = phrase_marker sha q \<or> \<not> contains t (phrase_marker sha q))"
    if "it \<in> set items" for it
  proof (cases it)
    case (Lit t)
    then have "clean t" using items_okD(1) [OF assms(3) that, of t] by simp
    then show ?thesis using Lit clean [of t] by simp
  next
    case (Ref p)
    have p: "p \<in> Q" "\<forall>t \<in> set p. clean t"
      using items_okD(2) [OF assms(3), of p] items_okD(1) [OF assms(3) that] that unfolding Ref expand_item.simps by blast+
    have "map ?f p = map (\<lambda>t. [t]) p" by (rule map_cong [OF refl]) (use p(2) clean(1) in blast)
    then have same: "concat (map ?f p) = p" by (simp only: concat_map_singleton map_ident)
    have eq: "p = q" if "contains (phrase_marker sha p) (phrase_marker sha q)"
      using marker_inj [OF assms(1) that] distinguishesD [OF assms(2) p(1) assms(4)] by simp
    show ?thesis
    proof (cases "phrase_hash sha p \<in> D")
      case True
      then show ?thesis using Ref same p(2) clean(2) by simp
    next
      case False
      have "phrase_hash sha p = phrase_hash sha q \<longleftrightarrow> p = q" using distinguishesD [OF assms(2) p(1) assms(4)] by auto
      moreover have "phrase_marker sha p = phrase_marker sha q \<longleftrightarrow> p = q"
        using eq contains_infix [of "[]" "phrase_marker sha q" "[]"] by auto
      ultimately show ?thesis using False Ref eq by auto
    qed
  qed
  then have "concat (map ?f (concat (map (render sha D) items))) = concat (map (render sha (insert (phrase_hash sha q) D)) items)"
    "\<forall>t \<in> set (concat (map (render sha D) items)). t = phrase_marker sha q \<or> \<not> contains t (phrase_marker sha q)"
    by (induction items) auto
  with replaceAll_join [OF marker_facts(1,2) [OF assms(1)], of q "concat (map (render sha D) items)" q]
  show ?thesis using assms(5) by (simp add: meta_for_def phrase_marker_def)
qed

lemma decompress_all:
  assumes "sha_hex sha" "distinguishes sha Q" "items_ok Q items" "meta_ok sha Q es"
  shows "foldl (\<lambda>s (h, mt). replaceAll (meta_marker h (mt_Length mt)) (mt_Original mt) s)
      (join '' '' (concat (map (render sha D) items))) es =
    join '' '' (concat (map (render sha (D \<union> fst ` set es)) items))"
  using assms(4)
proof (induction es arbitrary: D)
  case (Cons e es)
  then obtain q where "q \<in> Q" "meta_for sha q e" "meta_ok sha Q es" by (auto simp: meta_ok_def)
  then show ?case
    using Cons.IH [of "insert (fst e) D"] decompress_step [OF assms(1-3), of q e D] by (cases e) simp
qed simp

lemma decompress_items:
  assumes "sha_hex sha" "distinguishes sha Q" "items_ok Q items" "meta_ok sha Q (mf_metaTokens f)"
    and "mset (iter (mf_metaTokens f)) = mset (mf_metaTokens f)"
    and "\<forall>p. Ref p \<in> set items \<longrightarrow> phrase_hash sha p \<in> set (al_keys (mf_metaTokens f))"
  shows "meta_Decompress iter f (join '' '' (map (show_item sha) items)) = join '' '' (concat (map expand_item items))"
proof -
  have set: "set (iter (mf_metaTokens f)) = set (mf_metaTokens f)" using assms(5) by (metis set_mset_mset)
  have "concat (map (render sha {}) items) = map (show_item sha) items"
  proof (induction items)
    case (Cons it items)
    then show ?case by (cases it) auto
  qed simp
  moreover have "map (render sha (fst ` set (mf_metaTokens f))) items = map expand_item items"
  proof (rule map_cong [OF refl])
    fix it assume "it \<in> set items"
    then have "it = Ref p \<Longrightarrow> phrase_hash sha p \<in> fst ` set (mf_metaTokens f)" for p using assms(6) by simp
    then show "render sha (fst ` set (mf_metaTokens f)) it = expand_item it" by (cases "it") simp_all
  qed
  moreover have "meta_ok sha Q (iter (mf_metaTokens f))" using assms(4) set by (simp add: meta_ok_def)
  ultimately show ?thesis
    using decompress_all [OF assms(1-3), of "iter (mf_metaTokens f)" "{}"]
    unfolding meta_Decompress_def set Un_empty_left by metis
qed

section \<open>Runs of the filter\<close>

text \<open>A filter compresses texts one after the other; its store grows.\<close>

fun meta_run ::
  "(string \<Rightarrow> string) \<Rightarrow> Mode \<Rightarrow> MetaTokenFilter \<Rightarrow> string list \<Rightarrow> (string list \<times> MetaTokenFilter) option" where
  "meta_run sha mode f [] = Some ([], f)"
| "meta_run sha mode f (s # ss) =
     (case meta_Apply sha f s mode of
        None \<Rightarrow> None
      | Some ((out, _), f') \<Rightarrow> map_option (\<lambda>(outs, f''). (out # outs, f'')) (meta_run sha mode f' ss))"

definition phrases :: "string list \<Rightarrow> string list set" where
  "phrases inputs = {p. \<exists>s \<in> set inputs. sublist p (split_on CHR '' '' s)}"

text \<open>\<open>items\<close> is what \<open>out\<close> shows of the text \<open>s\<close>, and the store has every phrase it refers to.\<close>

definition shows_text :: "(string \<Rightarrow> string) \<Rightarrow> string list set \<Rightarrow> string \<Rightarrow> item list \<Rightarrow> string set \<Rightarrow> bool" where
  "shows_text sha Q s items keys \<longleftrightarrow> concat (map expand_item items) = split_on CHR '' '' s \<and>
     (\<forall>p. Ref p \<in> set items \<longrightarrow> p \<in> Q \<and> p \<noteq> [] \<and> phrase_hash sha p \<in> keys)"

lemma shows_text_mono: "shows_text sha Q s items K \<Longrightarrow> K \<subseteq> K' \<Longrightarrow> shows_text sha Q s items K'"
  unfolding shows_text_def by blast

abbreviation store_keys :: "MetaTokenFilter \<Rightarrow> string set" where
  "store_keys f \<equiv> set (al_keys (mf_metaTokens f))"

lemma apply_items:
  assumes "1 \<le> meta_MinPattern (mf_config f)" "meta_ok sha Q (mf_metaTokens f)"
    and "\<And>p. sublist p (split_on CHR '' '' s) \<Longrightarrow> p \<in> Q"
  shows "\<exists>items f'. meta_Apply sha f s mode =
      Some ((join '' '' (map (show_item sha) items), len (split_on CHR '' '' s) - len items), f') \<and>
    shows_text sha Q s items (store_keys f') \<and> meta_ok sha Q (mf_metaTokens f') \<and>
    store_keys f \<subseteq> store_keys f' \<and> mf_config f' = mf_config f"
proof (cases "mode = ModeNone \<or> len (split_on CHR '' '' s) < meta_MinPattern (mf_config f)")
  case True
  let ?lits = "map Lit (split_on CHR '' '' s)"
  have "concat (map expand_item ?lits) = split_on CHR '' '' s" "map (show_item sha) ?lits = split_on CHR '' '' s"
    by (simp_all add: comp_def)
  then show ?thesis
    using True assms(2) by (intro exI [of _ ?lits] exI [of _ f]) (auto simp: meta_Apply_def Let_def shows_text_def)
next
  case False
  from compress_loop_items [where tokens = "split_on CHR '' '' s" and i = 0 and result = "[]" and saved = 0 and k = 0,
      OF assms(1,3,2)]
  obtain items m' where "compress_loop sha (mf_config f) (split_on CHR '' '' s) 0 [] 0 0 (mf_metaTokens f) =
      Some (map (show_item sha) items, len (split_on CHR '' '' s) - len items, m')"
    "concat (map expand_item items) = split_on CHR '' '' s" "meta_ok sha Q m'"
    "store_keys f \<subseteq> set (al_keys m')"
    "\<forall>p. Ref p \<in> set items \<longrightarrow> p \<in> Q \<and> p \<noteq> [] \<and> phrase_hash sha p \<in> set (al_keys m')" by auto
  then show ?thesis
    using False by (intro exI [of _ items] exI [of _ "f\<lparr>mf_metaTokens := m'\<rparr>"])
      (simp add: meta_Apply_def meta_compress_def Let_def shows_text_def)
qed

lemma run_items:
  assumes "1 \<le> meta_MinPattern (mf_config f)" "meta_ok sha Q (mf_metaTokens f)" "phrases ss \<subseteq> Q"
  shows "\<exists>itemss f'. meta_run sha mode f ss = Some (map (\<lambda>its. join '' '' (map (show_item sha) its)) itemss, f') \<and>
    list_all2 (\<lambda>s its. shows_text sha Q s its (store_keys f')) ss itemss \<and> meta_ok sha Q (mf_metaTokens f') \<and>
    store_keys f \<subseteq> store_keys f' \<and> mf_config f' = mf_config f"
  using assms
proof (induction ss arbitrary: f)
  case Nil
  then show ?case by (intro exI [of _ "[]"] exI [of _ f]) simp
next
  case (Cons s ss)
  then have "p \<in> Q" if "sublist p (split_on CHR '' '' s)" for p using that by (auto simp: phrases_def)
  from apply_items [OF Cons.prems(1,2) this] obtain items f1 where
    1: "meta_Apply sha f s mode =
        Some ((join '' '' (map (show_item sha) items), len (split_on CHR '' '' s) - len items), f1)"
      "shows_text sha Q s items (store_keys f1)" "meta_ok sha Q (mf_metaTokens f1)"
      "store_keys f \<subseteq> store_keys f1" "mf_config f1 = mf_config f" by blast
  have "phrases ss \<subseteq> Q" using Cons.prems(3) by (auto simp: phrases_def)
  with Cons.IH [of f1] 1(3,5) Cons.prems(1) obtain itemss f2 where
    2: "meta_run sha mode f1 ss = Some (map (\<lambda>its. join '' '' (map (show_item sha) its)) itemss, f2)"
      "list_all2 (\<lambda>s its. shows_text sha Q s its (store_keys f2)) ss itemss" "meta_ok sha Q (mf_metaTokens f2)"
      "store_keys f1 \<subseteq> store_keys f2" "mf_config f2 = mf_config f1" by auto
  show ?case
    using 1 2 shows_text_mono [OF 1(2) 2(4)] by (intro exI [of _ "items # itemss"] exI [of _ f2]) auto
qed

lemma shows_items_ok:
  assumes "shows_text sha Q s items K" "\<not> contains s ''[META:''"
  shows "items_ok Q items"
proof -
  have "clean t" if "it \<in> set items" "t \<in> set (expand_item it)" for it t
  proof -
    have "t \<in> set (split_on CHR '' '' s)" using that assms(1) unfolding shows_text_def by (metis in_set_conv_nth nth_mem set_concat set_map UN_I image_eqI)
    then show ?thesis using split_not_contains assms(2) by (simp add: clean_def)
  qed
  then show ?thesis using assms(1) unfolding items_ok_def shows_text_def by blast
qed

text \<open>A hash for examples: it tells sequences of one repeated word apart by their length.\<close>

definition length_hash :: "string \<Rightarrow> string" where
  "length_hash x = replicate 8 (char_of (48 + min 9 ((length x + 1) div 2)))"

lemma length_hash_hex: "sha_hex length_hash"
proof -
  have "list_all (\<lambda>k. char_of (48 + k) \<in> set ''0123456789abcdef'') [0..<10]" by code_simp
  then have "char_of (48 + min 9 k) \<in> set ''0123456789abcdef''" for k :: nat
    unfolding list_all_iff by simp
  then show ?thesis unfolding sha_hex_def length_hash_def by simp
qed

lemma length_hash_distinguishes: "distinguishes length_hash (phrases [''x x x x x x''])"
proof -
  have p: "p = replicate (length p) ''x'' \<and> length p \<le> 6" if "p \<in> phrases [''x x x x x x'']" for p
  proof -
    from that have "sublist p (replicate 6 ''x'')" by (simp add: phrases_def eval_nat_numeral)
    then have "set p \<subseteq> {''x''}" "length p \<le> 6" using set_mono_sublist sublist_length_le by fastforce+
    then show ?thesis by (metis replicate_length_same singletonD subset_code(1))
  qed
  have "list_all (\<lambda>j. list_all (\<lambda>k. take 8 (phrase_hash length_hash (replicate j ''x'')) =
      take 8 (phrase_hash length_hash (replicate k ''x'')) \<longrightarrow> j = k) [0..<7]) [0..<7]" by code_simp
  then have "j = k" if "j \<le> 6" "k \<le> 6" "take 8 (phrase_hash length_hash (replicate j ''x'')) =
      take 8 (phrase_hash length_hash (replicate k ''x''))" for j k
    using that by (auto simp: list_all_iff)
  then show ?thesis using p unfolding distinguishes_def by (intro inj_onI) metis
qed



lemma show_item_no_space:
  assumes "sha_hex sha" "shows_text sha Q s items K" "it \<in> set items"
  shows "CHR '' '' \<notin> set (show_item sha it)"
proof (cases "it")
  case (Lit t)
  then have "t \<in> set (concat (map expand_item items))" using assms(3) by force
  then have "t \<in> set (split_on CHR '' '' s)" using assms(2) by (simp only: shows_text_def)
  then show ?thesis using Lit split_no_sep by simp
next
  case (Ref p)
  then show ?thesis using marker_facts(2) [OF assms(1)] by simp
qed

text \<open>
  C28: compression ends, and it counts words. Whatever a filter has compressed before, its main
  loop returns for every text, and the saving it reports is the number of words of the text
  less the number of words of the output, which is never negative.
\<close>

theorem meta_Apply_counts_words:
  assumes "sha_hex sha" "1 \<le> meta_MinPattern cfg"
    and "meta_run sha mode (NewMetaTokenFilterWithConfig cfg) inputs = Some (outs, f)"
  shows "\<exists>out saved f'. meta_Apply sha f s mode' = Some ((out, saved), f') \<and> 0 \<le> saved \<and>
    saved = len (split_on CHR '' '' s) - len (split_on CHR '' '' out)"
proof -
  from run_items [of "NewMetaTokenFilterWithConfig cfg" sha UNIV inputs mode] assms(2,3)
  have "meta_ok sha UNIV (mf_metaTokens f)" "1 \<le> meta_MinPattern (mf_config f)"
    by (auto simp: NewMetaTokenFilterWithConfig_def meta_ok_def)
  from apply_items [OF this(2,1), of s mode'] obtain items f' where
    a: "meta_Apply sha f s mode' = Some ((join '' '' (map (show_item sha) items), len (split_on CHR '' '' s) - len items), f')"
      "shows_text sha UNIV s items (store_keys f')" by auto
  have sum: "length (concat (map expand_item items)) \<ge> length items" if "\<forall>p. Ref p \<in> set items \<longrightarrow> p \<noteq> []"
    using that
  proof (induction items)
    case (Cons it items)
    moreover have "1 \<le> length (expand_item it)" using Cons.prems by (cases "it") (auto simp: Suc_le_eq)
    ultimately show ?case by simp
  qed simp
  then have le: "len items \<le> len (split_on CHR '' '' s)" using a(2) by (metis of_nat_le_iff shows_text_def)
  have "items \<noteq> []" using a(2) split_on_nonempty unfolding shows_text_def by (metis concat.simps(1) list.simps(8))
  then have "split_on CHR '' '' (join '' '' (map (show_item sha) items)) = map (show_item sha) items"
    using show_item_no_space [OF assms(1) a(2)] by (intro split_join) auto
  then show ?thesis using a(1) le by simp
qed

theorem meta_Apply_counts_words_witness:
  "\<exists>out saved f'. meta_Apply length_hash NewMetaTokenFilter ''x x x x x x'' ModeMinimal = Some ((out, saved), f') \<and>
    saved = 6 - len (split_on CHR '' '' out)"
  using meta_Apply_counts_words [OF length_hash_hex, of DefaultMetaTokenConfig ModeMinimal "[]" "[]" NewMetaTokenFilter
      "''x x x x x x''" ModeMinimal]
  by (auto simp: DefaultMetaTokenConfig_def NewMetaTokenFilter_def)

end
