(* ===== verification/Stream_Pipeline.thy ===== *)
theory Stream_Pipeline
  imports Filter_Engine "HOL-Library.Multiset"
begin

text \<open>
  The streaming pipeline (\<^verbatim>\<open>internal/streaming/pipeline.go\<close>): a reader is cut into chunks,
  workers process the chunks concurrently, and a collector writes the results in the order of
  their offsets.

  The reader is the list of the results of its \<^verbatim>\<open>Read\<close> calls. The workers only
  communicate by the two channels: which worker takes a chunk and when it is done decides
  nothing but the order in which the results reach the collector, so a run is described by the
  list of arrivals, any permutation of the results. A chunk processor is an argument; \<open>None\<close> is
  the nil processor. Writing to the underlying writer appends.
\<close>

section \<open>Chunks, workers and the collector\<close>

datatype readErr = EOF | ReadErr string

record Chunk =
  ck_Data :: string
  ck_Offset :: int
  ck_IsLast :: bool

record Result =
  rs_Data :: string
  rs_Offset :: int
  rs_Saved :: int
  rs_Error :: "string option"

record Stats =
  st_TotalChunks :: int
  st_TotalSaved :: int
  st_TotalOutput :: int

type_synonym ChunkProcessor = "string \<Rightarrow> string \<times> int \<times> string option"

definition FilterProcessor :: "Engine \<Rightarrow> ChunkProcessor" where
  "FilterProcessor engine chunk = (let (processed, saved) = engine_Process engine chunk in (processed, saved, None))"

text \<open>The loop of \<^verbatim>\<open>ProcessReader\<close> over the calls of \<^verbatim>\<open>Read\<close>: the chunks
  dispatched, and the error that ended it.\<close>

fun dispatch :: "(string \<times> readErr option) list \<Rightarrow> int \<Rightarrow> Chunk list \<times> string option" where
  "dispatch [] offset = ([], None)"
| "dispatch ((data, err) # reads) offset =
     (let ck = (if data \<noteq> [] then [\<lparr>ck_Data = data, ck_Offset = offset, ck_IsLast = (err = Some EOF)\<rparr>] else [])
      in case err of
           Some EOF \<Rightarrow> (ck, None)
         | Some (ReadErr e) \<Rightarrow> (ck, Some e)
         | None \<Rightarrow> (let (cks, e) = dispatch reads (offset + len data) in (ck @ cks, e)))"

definition work :: "ChunkProcessor option \<Rightarrow> Chunk \<Rightarrow> Result" where
  "work processor chunk =
     (let (processed, saved, err) =
        (case processor of Some process \<Rightarrow> process (ck_Data chunk) | None \<Rightarrow> (ck_Data chunk, 0, None))
      in \<lparr>rs_Data = processed, rs_Offset = ck_Offset chunk, rs_Saved = saved, rs_Error = err\<rparr>)"

text \<open>The collector: results written, the buffer of results that came early, the next offset.\<close>

record Collector =
  co_written :: string
  co_buffer :: "(int \<times> string) list"
  co_next :: int
  co_stats :: Stats

definition newCollector :: Collector where
  "newCollector = \<lparr>co_written = [], co_buffer = [], co_next = 0,
     co_stats = \<lparr>st_TotalChunks = 0, st_TotalSaved = 0, st_TotalOutput = 0\<rparr>\<rparr>"

function drain :: "Collector \<Rightarrow> Collector" where
  "drain c =
     (case al_get (co_buffer c) (co_next c) of
        Some data \<Rightarrow> drain (c\<lparr>co_written := co_written c @ data, co_next := co_next c + len data,
                            co_buffer := al_del (co_next c) (co_buffer c)\<rparr>)
      | None \<Rightarrow> c)"
  by pat_completeness auto
termination
proof (relation "measure (\<lambda>c. length (co_buffer c))")
  fix c :: Collector and data
  assume "al_get (co_buffer c) (co_next c) = Some data"
  then have "(co_next c, data) \<in> set (co_buffer c)" by (rule al_get_Some_in)
  then have "length (al_del (co_next c) (co_buffer c)) < length (co_buffer c)"
    unfolding al_del_def by (intro length_filter_less) auto
  then show "(c\<lparr>co_written := co_written c @ data, co_next := co_next c + len data,
      co_buffer := al_del (co_next c) (co_buffer c)\<rparr>, c) \<in> measure (\<lambda>c. length (co_buffer c))" by simp
qed simp

declare drain.simps [simp del]

definition collect_result :: "Result \<Rightarrow> Collector \<Rightarrow> Collector" where
  "collect_result r c =
     (if rs_Error r \<noteq> None then c
      else let stats = co_stats c;
               stats = stats\<lparr>st_TotalChunks := st_TotalChunks stats + 1\<rparr>;
               stats = stats\<lparr>st_TotalSaved := st_TotalSaved stats + rs_Saved r\<rparr>;
               stats = stats\<lparr>st_TotalOutput := st_TotalOutput stats + len (rs_Data r)\<rparr>;
               c = c\<lparr>co_stats := stats\<rparr>
           in if rs_Offset r = co_next c
              then drain (c\<lparr>co_written := co_written c @ rs_Data r, co_next := co_next c + len (rs_Data r)\<rparr>)
              else c\<lparr>co_buffer := al_put (rs_Offset r) (rs_Data r) (co_buffer c)\<rparr>)"

definition collectResults :: "Result list \<Rightarrow> Collector" where
  "collectResults arrivals = fold collect_result arrivals newCollector"

text \<open>What a run can do: its result is the text written, the statistics and the error; every
  order of arrival is possible.\<close>

inductive ProcessReader ::
  "ChunkProcessor option \<Rightarrow> (string \<times> readErr option) list \<Rightarrow> string \<Rightarrow> Stats \<Rightarrow> string option \<Rightarrow> bool"
  for processor reads where
  run: "dispatch reads 0 = (chunks, err) \<Longrightarrow> mset arrivals = mset (map (work processor) chunks)
    \<Longrightarrow> ProcessReader processor reads (co_written (collectResults arrivals)) (co_stats (collectResults arrivals)) err"

inductive_cases ProcessReaderE: "ProcessReader processor reads out stats err"

section \<open>Offsets\<close>

fun read_data :: "(string \<times> readErr option) list \<Rightarrow> string list" where
  "read_data [] = []"
| "read_data ((data, err) # reads) =
     (if data \<noteq> [] then [data] else []) @ (if err = None then read_data reads else [])"

definition off :: "string list \<Rightarrow> nat \<Rightarrow> int" where
  "off ds k = len (concat (take k ds))"

lemma off_simps [simp]: "off ds 0 = 0" "off (d # ds) (Suc k) = len d + off ds k"
  by (simp_all add: off_def)

lemma off_Suc: "k < length ds \<Longrightarrow> off ds (Suc k) = off ds k + len (ds ! k)"
  by (simp add: off_def take_Suc_conv_app_nth)

lemma off_less:
  assumes "[] \<notin> set ds" "j < k" "k \<le> length ds"
  shows "off ds j < off ds k"
  using assms(2,3)
proof (induction k)
  case (Suc k)
  have "ds ! k \<noteq> []" using Suc.prems assms(1) by (metis Suc_le_lessD nth_mem)
  then have "off ds k < off ds (Suc k)" using Suc.prems off_Suc [of k ds] by simp
  then show ?case using Suc by (cases "j = k") auto
qed simp

lemma off_inject: "[] \<notin> set ds \<Longrightarrow> j \<le> length ds \<Longrightarrow> k \<le> length ds \<Longrightarrow> off ds j = off ds k \<longleftrightarrow> j = k"
  by (metis less_irrefl linorder_neqE_nat off_less)

lemma off_cong: "map length ds = map length es \<Longrightarrow> off ds k = off es k"
  by (simp add: off_def length_concat take_map [symmetric])

lemma read_data_nonempty: "[] \<notin> set (read_data reads)"
  by (induction reads rule: read_data.induct) auto

lemma dispatch_chunks:
  "dispatch reads pos = (cks, e) \<Longrightarrow>
    map ck_Data cks = read_data reads \<and> (\<forall>k < length cks. ck_Offset (cks ! k) = pos + off (read_data reads) k)"
proof (induction reads pos arbitrary: cks e rule: dispatch.induct)
  case (2 data err reads pos)
  show ?case
  proof (cases err)
    case None
    obtain cks' e' where d: "dispatch reads (pos + len data) = (cks', e')" by fastforce
    have "map ck_Data cks' = read_data reads" "\<forall>k < length cks'. ck_Offset (cks' ! k) = pos + len data + off (read_data reads) k"
      using "2.IH" [OF refl None d] by auto
    then show ?thesis using "2.prems" None d by (auto simp: nth_Cons less_Suc_eq_0_disj split: nat.splits)
  next
    case (Some r)
    then show ?thesis using "2.prems" by (cases r) (auto split: if_splits)
  qed
qed simp

section \<open>The collector restores the order\<close>

text \<open>The state of the collector once the results with indices \<open>S\<close> have arrived: the first \<open>n\<close>
  are written, and the buffer has the others of \<open>S\<close>.\<close>

definition collected :: "string list \<Rightarrow> nat set \<Rightarrow> nat \<Rightarrow> Collector \<Rightarrow> bool" where
  "collected ds S n c \<longleftrightarrow> n \<le> length ds \<and> {..<n} \<subseteq> S \<and> S \<subseteq> {..<length ds} \<and>
     co_written c = concat (take n ds) \<and> co_next c = off ds n \<and>
     (\<forall>k \<le> length ds. al_get (co_buffer c) (off ds k) = (if k \<in> S \<and> n \<le> k then Some (ds ! k) else None))"

lemma drain_collected:
  assumes "[] \<notin> set ds" "collected ds S n c"
  shows "\<exists>n'. n' \<notin> S \<and> collected ds S n' (drain c)"
  using assms(2)
proof (induction "length ds - n" arbitrary: n c rule: less_induct)
  case less
  note c = less.prems [unfolded collected_def]
  show ?case
  proof (cases "n \<in> S")
    case False
    then have "al_get (co_buffer c) (co_next c) = None" using c by auto
    then have "drain c = c" by (subst drain.simps) simp
    then show ?thesis using False less.prems by metis
  next
    case True
    then have n: "n < length ds" using c by auto
    let ?c = "c\<lparr>co_written := co_written c @ ds ! n, co_next := co_next c + len (ds ! n),
      co_buffer := al_del (co_next c) (co_buffer c)\<rparr>"
    have "al_get (co_buffer c) (co_next c) = Some (ds ! n)" using c True n by auto
    then have eq: "drain c = drain ?c" by (subst drain.simps) simp
    have "{..<Suc n} \<subseteq> S" using c True by (auto simp: less_Suc_eq)
    moreover have "al_get (al_del (off ds n) (co_buffer c)) (off ds k) = (if k \<in> S \<and> Suc n \<le> k then Some (ds ! k) else None)"
      if "k \<le> length ds" for k
      using c that n off_inject [OF assms(1), of k n] by (auto simp: Suc_le_eq)
    ultimately have "collected ds S (Suc n) ?c"
      using c n by (auto simp: collected_def take_Suc_conv_app_nth off_Suc)
    with less.hyps [of "Suc n" ?c] n show ?thesis unfolding eq by auto
  qed
qed

definition result_of :: "(nat \<Rightarrow> int) \<Rightarrow> string list \<Rightarrow> nat \<Rightarrow> Result" where
  "result_of saved ds k = \<lparr>rs_Data = ds ! k, rs_Offset = off ds k, rs_Saved = saved k, rs_Error = None\<rparr>"

lemma collect_collected:
  assumes "[] \<notin> set ds" "collected ds S n c" "n \<notin> S" "k < length ds" "k \<notin> S"
  shows "\<exists>n'. n' \<notin> insert k S \<and> collected ds (insert k S) n' (collect_result (result_of saved ds k) c)"
proof -
  note c = assms(2) [unfolded collected_def]
  show ?thesis
  proof (cases "k = n")
    case True
    let ?c = "\<lambda>st. c\<lparr>co_stats := st, co_written := co_written c @ ds ! n, co_next := co_next c + len (ds ! n)\<rparr>"
    have "collected ds (insert k S) (Suc n) (?c st)" for st
      using c True assms(4,5) by (auto simp: collected_def take_Suc_conv_app_nth off_Suc less_Suc_eq Suc_le_eq)
    moreover have "\<exists>st. collect_result (result_of saved ds k) c = drain (?c st)"
      using True c by (auto simp: collect_result_def result_of_def Let_def)
    ultimately show ?thesis using drain_collected [OF assms(1)] by metis
  next
    case False
    then have "n < k" using c assms(5) by (metis lessThan_iff linorder_neqE_nat subsetD)
    then have "collected ds (insert k S) n (collect_result (result_of saved ds k) c)"
      using c assms(4) False off_inject [OF assms(1)]
      by (auto simp: collected_def collect_result_def result_of_def Let_def)
    then show ?thesis using False assms(3) by (intro exI [of _ n]) simp
  qed
qed

lemma collect_all:
  assumes "[] \<notin> set ds" "collected ds S n c" "n \<notin> S" "distinct ks" "set ks \<subseteq> {..<length ds} - S"
  shows "\<exists>n'. n' \<notin> S \<union> set ks \<and> collected ds (S \<union> set ks) n' (fold collect_result (map (result_of saved ds) ks) c)"
  using assms(2-5)
proof (induction ks arbitrary: S n c)
  case (Cons k ks)
  then obtain n' where "n' \<notin> insert k S" "collected ds (insert k S) n' (collect_result (result_of saved ds k) c)"
    using collect_collected [OF assms(1) Cons.prems(1,2), of k saved] by auto
  from Cons.IH [OF this(2,1)] Cons.prems show ?case by auto
qed auto

lemma perm_of_map: "mset ys = mset (map f xs) \<Longrightarrow> \<exists>zs. mset zs = mset xs \<and> ys = map f zs"
proof (induction ys arbitrary: xs)
  case (Cons y ys)
  then have "y \<in> set (map f xs)" by (metis list.set_intros(1) mset_eq_setD)
  then obtain x where x: "x \<in> set xs" "y = f x" by auto
  then obtain us vs where xs: "xs = us @ x # vs" by (meson split_list)
  then have "mset ys = mset (map f (us @ vs))" using Cons.prems x(2) by simp
  then obtain zs where "mset zs = mset (us @ vs)" "ys = map f zs" using Cons.IH by blast
  then show ?case using xs x(2) by (intro exI [of _ "x # zs"]) simp
qed simp

lemma collectResults_in_order:
  assumes "[] \<notin> set ds" "mset arrivals = mset (map (result_of saved ds) [0..<length ds])"
  shows "co_written (collectResults arrivals) = concat ds"
proof -
  from perm_of_map [OF assms(2)] obtain ks where ks: "mset ks = mset [0..<length ds]" "arrivals = map (result_of saved ds) ks"
    by blast
  then have "distinct ks" "set ks = {..<length ds}"
    by (metis distinct_upt mset_eq_imp_distinct_iff, metis atLeast_upt mset_eq_setD)
  moreover have "collected ds {} 0 newCollector" by (simp add: collected_def newCollector_def)
  ultimately obtain n where "n \<notin> {..<length ds}" "collected ds {..<length ds} n (collectResults arrivals)"
    using collect_all [OF assms(1), of "{}" 0 newCollector ks saved] ks(2) unfolding collectResults_def by auto
  then show ?thesis by (simp add: collected_def)
qed

section \<open>Runs\<close>

definition processed :: "ChunkProcessor option \<Rightarrow> string \<Rightarrow> string" where
  "processed processor d = (case processor of Some process \<Rightarrow> fst (process d) | None \<Rightarrow> d)"

text \<open>A processor that changes no length and does not fail.\<close>

definition keeps_lengths :: "ChunkProcessor option \<Rightarrow> bool" where
  "keeps_lengths processor \<longleftrightarrow>
     (\<forall>process. processor = Some process \<longrightarrow> (\<forall>d. length (fst (process d)) = length d \<and> snd (snd (process d)) = None))"

lemma work_result:
  assumes "keeps_lengths processor" "dispatch reads 0 = (chunks, err)"
  defines "ds \<equiv> map (processed processor) (read_data reads)"
  shows "\<exists>saved. map (work processor) chunks = map (result_of saved ds) [0..<length ds]"
proof -
  note cks = dispatch_chunks [OF assms(2)]
  have n: "length chunks = length (read_data reads)" using cks by (metis length_map)
  have "map length ds = map length (read_data reads)"
    using assms(1) by (auto simp: ds_def keeps_lengths_def processed_def split: option.splits)
  then have off: "off ds k = off (read_data reads) k" for k by (rule off_cong)
  let ?saved = "\<lambda>k. rs_Saved (work processor (chunks ! k))"
  have "work processor (chunks ! k) = result_of ?saved ds k" if "k < length chunks" for k
  proof -
    have "read_data reads ! k = ck_Data (chunks ! k)" using that cks by (metis nth_map)
    moreover have "ck_Offset (chunks ! k) = off ds k" using that cks off by simp
    moreover have "rs_Error (work processor (chunks ! k)) = None"
      using assms(1) by (auto simp: work_def keeps_lengths_def split: option.splits prod.splits) (metis snd_conv)
    ultimately show ?thesis
      using that n unfolding ds_def
      by (cases processor) (auto simp: work_def result_of_def processed_def split: prod.splits)
  qed
  then have "map (work processor) chunks = map (result_of ?saved ds) [0..<length ds]"
    using n by (intro nth_equalityI) (simp_all add: ds_def)
  then show ?thesis by blast
qed



text \<open>Results with offsets that are never reached stay in the buffer.\<close>

lemma collect_unreached:
  assumes "\<forall>r \<in> set rs. rs_Offset r \<noteq> co_next c"
  shows "co_written (fold collect_result rs c) = co_written c \<and> co_next (fold collect_result rs c) = co_next c \<and>
    (\<forall>x. (\<forall>r \<in> set rs. rs_Offset r \<noteq> x) \<longrightarrow> al_get (co_buffer (fold collect_result rs c)) x = al_get (co_buffer c) x)"
  using assms
proof (induction rs arbitrary: c)
  case (Cons r rs)
  have "co_written (collect_result r c) = co_written c" "co_next (collect_result r c) = co_next c"
    "\<forall>x. rs_Offset r \<noteq> x \<longrightarrow> al_get (co_buffer (collect_result r c)) x = al_get (co_buffer c) x"
    using Cons.prems by (auto simp: collect_result_def Let_def)
  then show ?case using Cons.IH [of "collect_result r c"] Cons.prems by auto
qed simp

text \<open>
  A chunk that shrinks loses the rest of the stream. The collector advances by the length of
  the processed data while the offsets count the data read, so if the first chunk becomes
  shorter, the text written is that chunk alone, for every order of arrival: everything after
  it stays in the buffer. If the first chunk fails, nothing at all is written, and the error is
  not reported.
\<close>

theorem stream_shrinking_chunk_loses_rest:
  assumes "ProcessReader (Some process) reads out stats err" "read_data reads = d # ds"
    and "process d = (t, k, e)" "e = None \<longrightarrow> length t < length d"
  shows "out = (if e = None then t else []) \<and> err = snd (dispatch reads 0)"
  using assms(1)
proof cases
  case (run chunks arrivals)
  note cks = dispatch_chunks [OF run(3)]
  then obtain c0 cs where chunks: "chunks = c0 # cs" "ck_Data c0 = d" using assms(2) by (cases chunks) auto
  let ?r0 = "work (Some process) c0"
  have "ck_Offset c0 = 0" using cks chunks by (metis add_0 length_greater_0_conv list.distinct(1) nth_Cons_0 off_simps(1))
  then have r0: "?r0 = \<lparr>rs_Data = t, rs_Offset = 0, rs_Saved = k, rs_Error = e\<rparr>"
    using chunks(2) assms(3) by (simp add: work_def)
  have "len d \<le> ck_Offset c" if "c \<in> set cs" for c
  proof -
    from that obtain j where "j < length cs" "c = cs ! j" by (metis in_set_conv_nth)
    then have "ck_Offset c = off (d # ds) (Suc j)" using cks chunks assms(2) by force
    then show ?thesis by (simp add: off_def)
  qed
  then have late: "len d \<le> rs_Offset r" if "r \<in> set (map (work (Some process)) cs)" for r
    using that by (auto simp: work_def split: prod.splits)
  have "?r0 \<in> set arrivals" using run(4) chunks(1) by (metis list.set_intros(1) list.simps(9) mset_eq_setD)
  then obtain xs ys where arr: "arrivals = xs @ ?r0 # ys" by (meson split_list)
  then have "mset (xs @ ys) = mset (map (work (Some process)) cs)" using run(4) chunks(1) by simp
  then have "set (xs @ ys) = set (map (work (Some process)) cs)" by (rule mset_eq_setD)
  then have off: "\<forall>r \<in> set xs \<union> set ys. len d \<le> rs_Offset r" using late by auto
  have "d \<noteq> []" using read_data_nonempty [of reads] assms(2) by auto
  then have pos: "0 < len d" by simp
  define c1 where "c1 = fold collect_result xs newCollector"
  have "\<forall>r \<in> set xs. rs_Offset r \<noteq> co_next newCollector" using off pos by (force simp: newCollector_def)
  note before = collect_unreached [OF this, folded c1_def]
  have none: "al_get (co_buffer c1) x = None" if "x < len d" for x
    using before off that by (force simp: newCollector_def)
  define c2 where "c2 = collect_result ?r0 c1"
  have c2: "co_written c2 = (if e = None then t else []) \<and> co_next c2 < len d"
    using before assms(4) none pos unfolding c2_def r0
    by (auto simp: collect_result_def newCollector_def Let_def drain.simps)
  have "\<forall>r \<in> set ys. rs_Offset r \<noteq> co_next c2" using off c2 by force
  from collect_unreached [OF this] have "co_written (fold collect_result ys c2) = co_written c2" by blast
  then have "co_written (collectResults arrivals) = co_written c2"
    unfolding collectResults_def arr by (simp add: c1_def c2_def)
  then show ?thesis using c2 run by simp
qed

text \<open>The compression of a chunk to its first byte.\<close>

theorem stream_shrinking_chunk_loses_rest_witness:
  "\<exists>out stats err. ProcessReader (Some (\<lambda>d. (take 1 d, 0, None))) [(''first'', None), (''second'', Some EOF)] out stats err \<and>
     out = ''f'' \<and> err = None"
proof -
  let ?proc = "Some (\<lambda>d. (take 1 d, 0, None))" and ?reads = "[(''first'', None), (''second'', Some EOF)]"
  obtain cks err where d: "dispatch ?reads 0 = (cks, err)" by fastforce
  have run: "ProcessReader ?proc ?reads (co_written (collectResults (map (work ?proc) cks)))
      (co_stats (collectResults (map (work ?proc) cks))) err"
    by (rule ProcessReader.run [OF d]) simp
  show ?thesis
    using run stream_shrinking_chunk_loses_rest [OF run, of "''first''" "[''second'']" "''f''" 0 None] by auto
qed

end
