(* ===== verification/Stream_IO.thy ===== *)
theory Stream_IO
  imports Go_Strings
begin

text \<open>
  The readers, writers and controllers of \<^verbatim>\<open>internal/streaming\<close>: the buffered writer, the
  arena and the zero-copy reader of \<^verbatim>\<open>pipeline.go\<close>, and the line processor and the
  backpressure controller of \<^verbatim>\<open>processor.go\<close>.

  \<^verbatim>\<open>io.Writer\<close> is the locale \<open>io_writer\<close>: a write that reports no error has appended all
  its bytes. The buffered writer over any such writer is one again, with the bytes it holds back
  counted in.
\<close>

section \<open>Writers\<close>

type_synonym 's writer = "'s \<Rightarrow> string \<Rightarrow> 's \<times> int \<times> string option"

locale io_writer =
  fixes wr :: "'s writer" and content :: "'s \<Rightarrow> string"
  assumes write_ok: "wr s p = (s', n, None) \<Longrightarrow> content s' = content s @ p \<and> n = len p"

text \<open>\<^verbatim>\<open>strings.Builder\<close>.\<close>

definition builder_Write :: "string writer" where
  "builder_Write s p = (s @ p, len p, None)"

interpretation builder: io_writer builder_Write id
  by unfold_locales (auto simp: builder_Write_def)

text \<open>The buffer of the Go struct is an array with a fill level; here \<open>sw_buffer\<close> is its filled
  part, \<open>sw_size\<close> its length.\<close>

record 's StreamingWriter =
  sw_writer :: 's
  sw_buffer :: string
  sw_size :: int
  sw_flushed :: int
  sw_autoFlush :: bool

definition NewStreamingWriter :: "'s \<Rightarrow> int \<Rightarrow> 's StreamingWriter" where
  "NewStreamingWriter w bufferSize =
     \<lparr>sw_writer = w, sw_buffer = [], sw_size = bufferSize, sw_flushed = 0, sw_autoFlush = True\<rparr>"

definition sw_Flush :: "'s writer \<Rightarrow> 's StreamingWriter \<Rightarrow> 's StreamingWriter \<times> string option" where
  "sw_Flush wr s =
     (if sw_buffer s = [] then (s, None)
      else let (w, n, err) = wr (sw_writer s) (sw_buffer s); s = s\<lparr>sw_writer := w\<rparr>
           in if err \<noteq> None then (s, err)
              else (s\<lparr>sw_flushed := sw_flushed s + n, sw_buffer := []\<rparr>, None))"

definition sw_Write :: "'s writer \<Rightarrow> 's StreamingWriter writer" where
  "sw_Write wr s p =
     (if len p + len (sw_buffer s) \<le> sw_size s
      then let s = s\<lparr>sw_buffer := sw_buffer s @ p\<rparr>
           in if sw_autoFlush s \<and> len (sw_buffer s) \<ge> go_div (sw_size s) 2
              then (let (s, err) = sw_Flush wr s in (s, len p, err))
              else (s, len p, None)
      else let (s, err) = (if sw_buffer s \<noteq> [] then sw_Flush wr s else (s, None))
           in if err \<noteq> None then (s, 0, err)
              else if len p > sw_size s
              then (let (w, n, err) = wr (sw_writer s) p
                    in (s\<lparr>sw_writer := w, sw_flushed := sw_flushed s + n\<rparr>, n, err))
              else (s\<lparr>sw_buffer := p\<rparr>, len p, None))"

definition sw_Written :: "'s StreamingWriter \<Rightarrow> int" where
  "sw_Written s = sw_flushed s + len (sw_buffer s)"

definition sw_Close :: "'s writer \<Rightarrow> 's StreamingWriter \<Rightarrow> 's StreamingWriter \<times> string option" where
  "sw_Close wr s = sw_Flush wr s"

context io_writer
begin

lemma flush_ok:
  assumes "sw_Flush wr s = (s', None)"
  shows "content (sw_writer s') = content (sw_writer s) @ sw_buffer s" "sw_buffer s' = []"
    "sw_Written s' = sw_Written s" "sw_size s' = sw_size s"
  using assms write_ok
  by (auto simp: sw_Flush_def sw_Written_def Let_def split: if_splits prod.splits)

lemma buffered_ok:
  assumes "sw_Write wr s p = (s', n, None)"
  shows "content (sw_writer s') @ sw_buffer s' = content (sw_writer s) @ sw_buffer s @ p \<and> n = len p \<and>
    sw_Written s' = sw_Written s + len p"
proof (cases "len p + len (sw_buffer s) \<le> sw_size s")
  case True
  let ?s = "s\<lparr>sw_buffer := sw_buffer s @ p\<rparr>"
  show ?thesis
  proof (cases "sw_autoFlush s \<and> len (sw_buffer ?s) \<ge> go_div (sw_size s) 2")
    case flush: True
    then have "sw_Flush wr ?s = (s', None)" "n = len p"
      using True assms by (auto simp: sw_Write_def Let_def split: prod.splits)
    with flush_ok [OF this(1)] show ?thesis by (simp add: sw_Written_def)
  next
    case False
    then show ?thesis using True assms by (auto simp: sw_Write_def Let_def sw_Written_def)
  qed
next
  case False
  obtain s1 err where s1: "(if sw_buffer s \<noteq> [] then sw_Flush wr s else (s, None)) = (s1, err)" by fastforce
  have err: "err = None" using s1 False assms by (auto simp: sw_Write_def Let_def split: if_splits)
  have f: "content (sw_writer s1) = content (sw_writer s) @ sw_buffer s" "sw_buffer s1 = []"
    "sw_Written s1 = sw_Written s" "sw_size s1 = sw_size s"
    using s1 err flush_ok [of s s1] by (auto split: if_splits)
  show ?thesis
  proof (cases "len p > sw_size s")
    case large: True
    obtain w m e where w: "wr (sw_writer s1) p = (w, m, e)" by (metis prod_cases3)
    have "s' = s1\<lparr>sw_writer := w, sw_flushed := sw_flushed s1 + m\<rparr>" "n = m" "e = None"
      using False assms s1 err f(4) large w by (simp_all add: sw_Write_def split: if_splits)
    with write_ok [of "sw_writer s1" p w m] w f show ?thesis by (simp add: sw_Written_def)
  next
    case small: False
    then have "s' = s1\<lparr>sw_buffer := p\<rparr>" "n = len p"
      using False assms s1 err f(4) by (auto simp: sw_Write_def split: if_splits)
    with f show ?thesis by (simp add: sw_Written_def)
  qed
qed

end

text \<open>A sequence of writes and the final close, stopping at the first error.\<close>

fun sw_session :: "'s writer \<Rightarrow> string list \<Rightarrow> 's StreamingWriter \<Rightarrow> 's StreamingWriter \<times> string option" where
  "sw_session wr [] s = sw_Close wr s"
| "sw_session wr (p # ps) s =
     (case sw_Write wr s p of (s', n, None) \<Rightarrow> sw_session wr ps s' | (s', n, Some e) \<Rightarrow> (s', Some e))"

context io_writer
begin

lemma session_ok:
  "sw_session wr ps s = (s', None) \<Longrightarrow>
    content (sw_writer s') = content (sw_writer s) @ sw_buffer s @ concat ps \<and> sw_buffer s' = [] \<and>
    sw_Written s' = sw_Written s + len (concat ps)"
proof (induction ps arbitrary: s)
  case Nil
  then show ?case using flush_ok [of s s'] by (simp add: sw_Close_def)
next
  case (Cons p ps)
  obtain s1 n e where w: "sw_Write wr s p = (s1, n, e)" by (metis prod_cases3)
  with Cons.prems have "e = None" "sw_session wr ps s1 = (s', None)" by (auto split: option.splits)
  with Cons.IH [of s1] buffered_ok [of s p s1 n] w show ?case by auto
qed

end

interpretation buffered: io_writer "sw_Write builder_Write" "\<lambda>s. sw_writer s @ sw_buffer s"
  by unfold_locales (use builder.buffered_ok in simp)

section \<open>The arena\<close>

record ArenaAllocator =
  ar_offset :: int
  ar_size :: int

text \<open>The arena hands out slices of one buffer, given by their offset and length; a negative
  size is a panic, a nil slice the answer when there is no room.\<close>

definition NewArena :: "int \<Rightarrow> ArenaAllocator option" where
  "NewArena n = (if n < 0 then None else Some \<lparr>ar_offset = 0, ar_size = n\<rparr>)"

definition ar_Alloc :: "int \<Rightarrow> ArenaAllocator \<Rightarrow> ((int \<times> int) option \<times> ArenaAllocator) option" where
  "ar_Alloc n a =
     (if ar_offset a + n > ar_size a then Some (None, a)
      else if n < 0 then None
      else Some (Some (ar_offset a, n), a\<lparr>ar_offset := ar_offset a + n\<rparr>))"

definition ar_Reset :: "ArenaAllocator \<Rightarrow> ArenaAllocator" where
  "ar_Reset a = a\<lparr>ar_offset := 0\<rparr>"

definition ar_Used :: "ArenaAllocator \<Rightarrow> int" where
  "ar_Used a = ar_offset a"

fun ar_allocs :: "int list \<Rightarrow> ArenaAllocator \<Rightarrow> ((int \<times> int) list \<times> ArenaAllocator) option" where
  "ar_allocs [] a = Some ([], a)"
| "ar_allocs (n # ns) a =
     (case ar_Alloc n a of
        None \<Rightarrow> None
      | Some (r, a') \<Rightarrow>
          map_option (\<lambda>(rs, a''). ((case r of Some reg \<Rightarrow> reg # rs | None \<Rightarrow> rs), a'')) (ar_allocs ns a'))"

lemma ar_allocs_regions:
  assumes "\<forall>n \<in> set ns. 0 \<le> n" "ar_offset a \<le> ar_size a"
  shows "\<exists>rs a'. ar_allocs ns a = Some (rs, a') \<and> ar_size a' = ar_size a \<and>
    ar_offset a \<le> ar_offset a' \<and> ar_offset a' \<le> ar_size a \<and>
    ar_offset a' = ar_offset a + sum_list (map snd rs) \<and>
    (\<forall>(p, n) \<in> set rs. ar_offset a \<le> p \<and> 0 \<le> n \<and> p + n \<le> ar_offset a') \<and>
    sorted_wrt (\<lambda>(p, n) (q, m). p + n \<le> q) rs"
  using assms
proof (induction ns arbitrary: a)
  case (Cons n ns)
  show ?case
  proof (cases "ar_offset a + n > ar_size a")
    case True
    then have "ar_Alloc n a = Some (None, a)" by (simp add: ar_Alloc_def)
    then show ?thesis using Cons.IH [of a] Cons.prems by auto
  next
    case False
    let ?a = "a\<lparr>ar_offset := ar_offset a + n\<rparr>"
    have al: "ar_Alloc n a = Some (Some (ar_offset a, n), ?a)" using False Cons.prems by (simp add: ar_Alloc_def)
    from Cons.IH [of ?a] Cons.prems False obtain rs a' where r: "ar_allocs ns ?a = Some (rs, a')" "ar_size a' = ar_size a"
      "ar_offset a + n \<le> ar_offset a'" "ar_offset a' \<le> ar_size a"
      "ar_offset a' = ar_offset a + n + sum_list (map snd rs)"
      "\<forall>(p, m) \<in> set rs. ar_offset a + n \<le> p \<and> 0 \<le> m \<and> p + m \<le> ar_offset a'"
      "sorted_wrt (\<lambda>(p, n) (q, m). p + n \<le> q) rs" by auto
    then show ?thesis
      using al Cons.prems by (intro exI [of _ "(ar_offset a, n) # rs"] exI [of _ a']) fastforce
  qed
qed simp

section \<open>The zero-copy reader\<close>

record ZeroCopyReader =
  zr_data :: string
  zr_offset :: int

definition NewZeroCopyReader :: "string \<Rightarrow> ZeroCopyReader" where
  "NewZeroCopyReader data = \<lparr>zr_data = data, zr_offset = 0\<rparr>"

text \<open>\<open>n\<close> is the length of the caller's slice; \<open>None\<close> is \<^verbatim>\<open>io.EOF\<close>. The offset is never
  negative.\<close>

definition zr_Read :: "nat \<Rightarrow> ZeroCopyReader \<Rightarrow> string option \<times> ZeroCopyReader" where
  "zr_Read n z =
     (if zr_offset z \<ge> len (zr_data z) then (None, z)
      else let p = take n (drop (nat (zr_offset z)) (zr_data z)) in (Some p, z\<lparr>zr_offset := zr_offset z + len p\<rparr>))"

text \<open>Reading at a negative offset is a panic, the outer \<open>None\<close>.\<close>

definition zr_ReadAt :: "nat \<Rightarrow> int \<Rightarrow> ZeroCopyReader \<Rightarrow> string option option" where
  "zr_ReadAt n off z =
     (if off \<ge> len (zr_data z) then Some None
      else if off < 0 then None
      else Some (Some (take n (drop (nat off) (zr_data z)))))"

definition zr_Reset :: "ZeroCopyReader \<Rightarrow> ZeroCopyReader" where
  "zr_Reset z = z\<lparr>zr_offset := 0\<rparr>"

section \<open>The line processor\<close>

record StreamingProcessor =
  sp_chunkSize :: int
  sp_threshold :: int
  sp_adaptive :: bool

definition NewStreamingProcessor :: StreamingProcessor where
  "NewStreamingProcessor = \<lparr>sp_chunkSize = 4096, sp_threshold = 500000, sp_adaptive = True\<rparr>"

definition ShouldStream :: "StreamingProcessor \<Rightarrow> string \<Rightarrow> bool \<times> StreamingProcessor" where
  "ShouldStream sp input =
     (let tokens = go_div (len input) 4;
          sp = (if sp_adaptive sp then sp\<lparr>sp_threshold := go_div tokens 2\<rparr> else sp)
      in (tokens > sp_threshold sp, sp))"

text \<open>
  \<^verbatim>\<open>bufio.Scanner\<close> with \<^verbatim>\<open>ScanLines\<close> and a buffer that cannot grow: the lines without
  their end of line (a newline, with a carriage return before it), up to the first that does not
  fit into the buffer together with one byte more.
\<close>

definition dropCR :: "string \<Rightarrow> string" where
  "dropCR l = (if l \<noteq> [] \<and> last l = CHR 0x0D then butlast l else l)"

definition scanner_lines :: "int \<Rightarrow> string \<Rightarrow> string list" where
  "scanner_lines maxLen s =
     (let ls = split_lines s; ls = (if last ls = [] then butlast ls else ls)
      in map dropCR (takeWhile (\<lambda>l. len l < maxLen) ls))"

text \<open>A negative chunk size is a panic in \<^verbatim>\<open>make\<close>.\<close>

definition sp_Process ::
  "StreamingProcessor \<Rightarrow> string \<Rightarrow> (string \<Rightarrow> string) \<Rightarrow> (string \<times> StreamingProcessor) option" where
  "sp_Process sp input processor =
     (let (stream, sp) = ShouldStream sp input
      in if \<not> stream then Some (processor input, sp)
         else if sp_chunkSize sp < 0 then None
         else Some (concat (map (\<lambda>line. processor line @ [nl]) (scanner_lines (sp_chunkSize sp) input)), sp))"

record StreamingMetrics =
  sm_TotalChunks :: int
  sm_ProcessedBytes :: int

definition ProcessWithMetrics ::
  "StreamingProcessor \<Rightarrow> string \<Rightarrow> (string \<Rightarrow> string)
     \<Rightarrow> (string \<times> StreamingMetrics \<times> StreamingProcessor) option" where
  "ProcessWithMetrics sp input processor =
     (let (stream, sp) = ShouldStream sp input
      in if \<not> stream then Some (processor input, \<lparr>sm_TotalChunks = 1, sm_ProcessedBytes = len input\<rparr>, sp)
         else if sp_chunkSize sp < 0 then None
         else let ls = scanner_lines (sp_chunkSize sp) input
              in Some (concat (map (\<lambda>line. processor line @ [nl]) ls),
                   \<lparr>sm_TotalChunks = len ls, sm_ProcessedBytes = sum_list (map len ls)\<rparr>, sp))"

definition SetChunkSize :: "int \<Rightarrow> StreamingProcessor \<Rightarrow> StreamingProcessor" where
  "SetChunkSize n sp = sp\<lparr>sp_chunkSize := n\<rparr>"

definition SetThreshold :: "int \<Rightarrow> StreamingProcessor \<Rightarrow> StreamingProcessor" where
  "SetThreshold threshold sp = sp\<lparr>sp_threshold := threshold\<rparr>"

definition SetAdaptive :: "bool \<Rightarrow> StreamingProcessor \<Rightarrow> StreamingProcessor" where
  "SetAdaptive adaptive sp = sp\<lparr>sp_adaptive := adaptive\<rparr>"

record BackpressureController =
  bp_maxPending :: int
  bp_pending :: int

definition NewBackpressureController :: "int \<Rightarrow> BackpressureController" where
  "NewBackpressureController maxPending = \<lparr>bp_maxPending = maxPending, bp_pending = 0\<rparr>"

definition TryAcquire :: "BackpressureController \<Rightarrow> bool \<times> BackpressureController" where
  "TryAcquire b =
     (if bp_pending b \<ge> bp_maxPending b then (False, b) else (True, b\<lparr>bp_pending := bp_pending b + 1\<rparr>))"

definition Release :: "BackpressureController \<Rightarrow> BackpressureController" where
  "Release b = (if bp_pending b > 0 then b\<lparr>bp_pending := bp_pending b - 1\<rparr> else b)"

definition IsBlocked :: "BackpressureController \<Rightarrow> bool" where
  "IsBlocked b \<longleftrightarrow> bp_pending b \<ge> bp_maxPending b"

section \<open>Properties\<close>

text \<open>
  C30: the buffered writer loses nothing and reorders nothing. Over any writer that keeps the
  contract of \<^verbatim>\<open>io.Writer\<close>, for any buffer size, when a session of writes and the final
  close report no error, the underlying writer has received exactly the bytes written, in
  order, and \<^verbatim>\<open>Written\<close> is their number.
\<close>

theorem streaming_writer_lossless:
  assumes "\<And>s p s' n. wr s p = (s', n, None) \<Longrightarrow> content s' = content s @ p \<and> n = len p"
    and "sw_session wr ps (NewStreamingWriter w bufferSize) = (s, None)"
  shows "content (sw_writer s) = content w @ concat ps \<and> sw_buffer s = [] \<and> sw_Written s = len (concat ps)"
  using io_writer.session_ok [OF io_writer.intro [of wr content, OF assms(1)] assms(2)]
  by (auto simp: NewStreamingWriter_def sw_Written_def)

theorem streaming_writer_lossless_witness:
  "sw_writer (fst (sw_session builder_Write [''ab'', ''cdefg'', ''h''] (NewStreamingWriter [] 4))) = ''abcdefgh''"
proof -
  obtain s where s: "sw_session builder_Write [''ab'', ''cdefg'', ''h''] (NewStreamingWriter [] 4) = (s, None)"
    by (simp add: NewStreamingWriter_def sw_Write_def sw_Flush_def sw_Close_def builder_Write_def)
  with streaming_writer_lossless [of builder_Write id, OF _ s] show ?thesis by (simp add: builder_Write_def)
qed

text \<open>
  The arena hands out disjoint slices. For any sequence of requests, none negative, on a
  fresh arena, the allocator does not panic, the slices it returns lie within the buffer and no
  two of them overlap, and the memory used is the sum of their sizes.
\<close>

theorem arena_slices_disjoint:
  assumes "NewArena cap = Some a" "\<forall>n \<in> set ns. 0 \<le> n"
  shows "\<exists>rs a'. ar_allocs ns a = Some (rs, a') \<and> (\<forall>(p, n) \<in> set rs. 0 \<le> p \<and> p + n \<le> cap) \<and>
    sorted_wrt (\<lambda>(p, n) (q, m). p + n \<le> q) rs \<and> ar_Used a' = sum_list (map snd rs)"
proof -
  have a: "ar_offset a = 0" "ar_size a = cap" "0 \<le> cap" using assms(1) by (auto simp: NewArena_def split: if_splits)
  with ar_allocs_regions [of ns a] assms(2) obtain rs a' where r: "ar_allocs ns a = Some (rs, a')"
    "ar_offset a' \<le> cap" "ar_offset a' = sum_list (map snd rs)"
    "\<forall>(p, n) \<in> set rs. 0 \<le> p \<and> 0 \<le> n \<and> p + n \<le> ar_offset a'"
    "sorted_wrt (\<lambda>(p, n) (q, m). p + n \<le> q) rs" by auto
  then have "\<forall>(p, n) \<in> set rs. 0 \<le> p \<and> p + n \<le> cap" by fastforce
  with r show ?thesis by (auto simp: ar_Used_def)
qed

theorem arena_slices_disjoint_witness:
  "\<exists>rs a'. ar_allocs [3, 9, 4] \<lparr>ar_offset = 0, ar_size = 8\<rparr> = Some (rs, a') \<and> ar_Used a' = sum_list (map snd rs)"
  using arena_slices_disjoint [of 8 "\<lparr>ar_offset = 0, ar_size = 8\<rparr>" "[3, 9, 4]"] by (auto simp: NewArena_def)

text \<open>
  The default line processor streams every text of four bytes or more, since its adaptive
  threshold is half the size of the text itself; and a line of 4096 bytes or more ends the
  output: that line and all after it are dropped without an error.
\<close>

theorem line_processor_drops_long_lines:
  assumes "split_lines input = ls @ long # rest" "\<forall>l \<in> set ls. len l < 4096" "4096 \<le> len long"
  shows "\<exists>sp. sp_Process NewStreamingProcessor input f =
    Some (concat (map (\<lambda>l. f (dropCR l) @ [nl]) ls), sp)"
proof -
  have "len long \<le> len input"
  proof -
    from split_part [of long nl input] assms(1) obtain u v where "input = u @ long @ v" by auto
    then show ?thesis by simp
  qed
  then have "fst (ShouldStream NewStreamingProcessor input)" using assms(3)
    by (simp add: ShouldStream_def NewStreamingProcessor_def Let_def)
  moreover have "sp_chunkSize (snd (ShouldStream NewStreamingProcessor input)) = 4096"
    by (simp add: ShouldStream_def NewStreamingProcessor_def Let_def)
  moreover have "scanner_lines 4096 input = map dropCR ls"
  proof -
    have tw: "takeWhile (\<lambda>l. len l < 4096) (ls @ long # xs) = ls" for xs using assms(2,3) by (simp add: takeWhile_append)
    have "long \<noteq> []" using assms(3) by auto
    then obtain xs where "(if last (ls @ long # rest) = [] then butlast (ls @ long # rest) else ls @ long # rest) = ls @ long # xs"
      by (cases "rest = []"; cases "last rest = []") (auto simp: butlast_append)
    then show ?thesis unfolding scanner_lines_def assms(1) Let_def by (simp only: tw)
  qed
  ultimately show ?thesis
    by (cases "ShouldStream NewStreamingProcessor input") (simp add: sp_Process_def comp_def)
qed

theorem line_processor_drops_long_lines_witness:
  "\<exists>sp. sp_Process NewStreamingProcessor (''ok'' @ [nl] @ replicate 5000 CHR ''x'' @ [nl] @ ''lost'') id = Some (''ok'' @ [nl], sp)"
proof -
  define x where "x = replicate 5000 CHR ''x''"
  have x: "nl \<notin> set x" "length x = 5000" unfolding x_def set_replicate_conv_if by simp_all
  have "split_lines (''ok'' @ [nl] @ x @ [nl] @ ''lost'') = [''ok''] @ x # [''lost'']"
    using split_app_sep [OF x(1), of "''lost''"] by simp
  from line_processor_drops_long_lines [OF this, of id] x(2) show ?thesis unfolding x_def [symmetric] by (simp add: dropCR_def)
qed

text \<open>The backpressure controller: at most \<open>maxPending\<close> requests are pending, and a request is let
  through exactly when it is not blocked.\<close>

lemma backpressure_bounds [go_inv]:
  assumes "0 \<le> bp_pending b" "bp_pending b \<le> max 0 (bp_maxPending b)"
  shows "TryAcquire b = (ok, b') \<Longrightarrow> 0 \<le> bp_pending b' \<and> bp_pending b' \<le> max 0 (bp_maxPending b') \<and> ok = (\<not> IsBlocked b)"
    "0 \<le> bp_pending (Release b)" "bp_pending (Release b) \<le> max 0 (bp_maxPending (Release b))"
  using assms by (auto simp: TryAcquire_def Release_def IsBlocked_def split: if_splits)

end
