(* ===== verification/Pipeline_Manager.thy ===== *)
theory Pipeline_Manager
  imports Pipeline_Correct LRU_Cache Go_Strings
begin

text \<open>
  The pipeline manager (\<^verbatim>\<open>internal/filter/manager.go\<close>), which the audit command
  puts in front of the coordinator: limits and chunks the input, validates what the pipeline
  returns, keeps results in a cache and saves the input of a failed run.

  Arguments: \<open>est\<close> and \<open>lower\<close> as in the pipeline, \<open>L\<close> the constructors
  of the filters that a changed query rebuilds, \<open>sha\<close> the SHA-256 sum in hexadecimal,
  \<open>clk\<close> the clock (a reading per store) and \<open>stamp\<close> the formatted time in the
  name of a tee file. The tee file itself is written with errors ignored, so only its path is
  modelled. A filter is a function of text and mode for the whole request. Each method takes
  and returns the manager; its mutex makes the guarded parts atomic.
\<close>

section \<open>Data\<close>

record CommandContext =
  cc_Command :: string
  cc_Subcommand :: string
  cc_ExitCode :: int
  cc_Intent :: string
  cc_IsTest :: bool
  cc_IsBuild :: bool
  cc_IsError :: bool

record ManagerConfig =
  mc_MaxContextTokens :: int
  mc_ChunkSize :: int
  mc_StreamThreshold :: int
  mc_TeeOnFailure :: bool
  mc_FailSafeMode :: bool
  mc_ValidateOutput :: bool
  mc_ShortCircuitBudget :: bool
  mc_CacheEnabled :: bool
  mc_CacheMaxSize :: int
  mc_PipelineCfg :: PipelineConfig

record mgr_CachedResult =
  cr_Output :: string
  cr_Tokens :: int
  cr_CachedAt :: gotime

record CompressionCache =
  cmp_maxSize :: int
  cmp_entries :: "(string \<times> mgr_CachedResult) list"

record PipelineManager =
  pm_config :: ManagerConfig
  pm_coordinator :: PipelineCoordinator
  pm_cache :: "CompressionCache option"
  pm_lruCache :: "mgr_CachedResult LRUCache option"
  pm_teeDir :: string

record ProcessResult =
  res_Output :: string
  res_OriginalTokens :: int
  res_FinalTokens :: int
  res_SavedTokens :: int
  res_ReductionPercent :: rat
  res_LayerStats :: "string \<rightharpoonup> LayerStat"
  res_CacheHit :: bool
  res_Chunks :: int
  res_Validated :: bool
  res_TeeFile :: string
  res_Warning :: string

definition zeroProcessResult :: ProcessResult where
  "zeroProcessResult = \<lparr>res_Output = [], res_OriginalTokens = 0, res_FinalTokens = 0,
     res_SavedTokens = 0, res_ReductionPercent = 0, res_LayerStats = Map.empty,
     res_CacheHit = False, res_Chunks = 0, res_Validated = False, res_TeeFile = [],
     res_Warning = []\<rparr>"

datatype mgr_error = ExceedsMaxContext int int | ChunkFailed nat mgr_error

section \<open>The compression cache\<close>

definition NewCompressionCache :: "int \<Rightarrow> CompressionCache" where
  "NewCompressionCache maxSize = \<lparr>cmp_maxSize = maxSize, cmp_entries = []\<rparr>"

definition cmp_Get :: "string \<Rightarrow> CompressionCache \<Rightarrow> mgr_CachedResult option" where
  "cmp_Get key c = al_get (cmp_entries c) key"

text \<open>The scan for the oldest entry, over the map in iteration order.\<close>

fun cmp_oldest :: "(string \<times> mgr_CachedResult) list \<Rightarrow> string \<Rightarrow> gotime \<Rightarrow> string" where
  "cmp_oldest [] oldestKey oldestTime = oldestKey"
| "cmp_oldest ((k, v) # es) oldestKey oldestTime =
     (if oldestKey = [] \<or> cr_CachedAt v < oldestTime then cmp_oldest es k (cr_CachedAt v)
      else cmp_oldest es oldestKey oldestTime)"

definition cmp_evictOldest :: "CompressionCache \<Rightarrow> CompressionCache" where
  "cmp_evictOldest c = c\<lparr>cmp_entries := al_del (cmp_oldest (cmp_entries c) [] 0) (cmp_entries c)\<rparr>"

definition cmp_Set :: "string \<Rightarrow> mgr_CachedResult \<Rightarrow> CompressionCache \<Rightarrow> CompressionCache" where
  "cmp_Set key result c =
     (let c = (if cmp_maxSize c \<le> len (cmp_entries c) then cmp_evictOldest c else c)
      in c\<lparr>cmp_entries := al_put key result (cmp_entries c)\<rparr>)"

definition cmp_Size :: "CompressionCache \<Rightarrow> int" where
  "cmp_Size c = len (cmp_entries c)"

section \<open>Construction, keys and tee files\<close>

definition NewPipelineManager ::
  "(string \<Rightarrow> int) \<Rightarrow> FilterLib \<Rightarrow> string \<Rightarrow> ManagerConfig \<Rightarrow> PipelineManager" where
  "NewPipelineManager est L tempDir cfg =
     \<lparr>pm_config = cfg, pm_coordinator = NewPipelineCoordinator est L (mc_PipelineCfg cfg),
      pm_cache = (if mc_CacheEnabled cfg then Some (NewCompressionCache (mc_CacheMaxSize cfg)) else None),
      pm_lruCache = (if mc_CacheEnabled cfg
                     then Some (NewLRUCache (mc_CacheMaxSize cfg) (5 * Minute)) else None),
      pm_teeDir = (if mc_TeeOnFailure cfg then tempDir else [])\<rparr>"

definition mgr_cacheKey ::
  "(string \<Rightarrow> string) \<Rightarrow> PipelineManager \<Rightarrow> string \<Rightarrow> Mode \<Rightarrow> CommandContext \<Rightarrow> string" where
  "mgr_cacheKey sha m input mode ctx =
     take 16 (sha input) @ ''-'' @ mode @ ''-'' @ cc_Command ctx @ ''-'' @ cc_Intent ctx @ ''-'' @
     itoa (cfg_Budget (pc_config (pm_coordinator m)))"

text \<open>The replacer of \<^verbatim>\<open>saveTee\<close>: at each position the first of its four patterns.\<close>

fun safeCommand :: "string \<Rightarrow> string" where
  "safeCommand [] = []"
| "safeCommand (c # s) =
     (if c = CHR ''/'' then CHR ''_'' # safeCommand s
      else if c = CHR 0x5C then CHR ''_'' # safeCommand s
      else if c = CHR ''.'' \<and> s \<noteq> [] \<and> hd s = CHR ''.'' then CHR ''_'' # safeCommand (tl s)
      else if c = CHR '' '' then CHR ''_'' # safeCommand s
      else c # safeCommand s)"

definition tee_filename :: "string \<Rightarrow> CommandContext \<Rightarrow> string \<Rightarrow> string" where
  "tee_filename stamp ctx reason =
     ''tokman-tee-'' @ stamp @ ''-'' @ safeCommand (cc_Command ctx) @ ''-'' @ reason @ ''.txt''"

definition saveTee :: "(string \<Rightarrow> string \<Rightarrow> string) \<Rightarrow> string \<Rightarrow> PipelineManager \<Rightarrow> CommandContext \<Rightarrow> string \<Rightarrow> string" where
  "saveTee path_join stamp m ctx reason = path_join (pm_teeDir m) (tee_filename stamp ctx reason)"

section \<open>Chunks and validation\<close>

fun chunk_loop ::
  "(string \<Rightarrow> int) \<Rightarrow> int \<Rightarrow> string list \<Rightarrow> string list \<Rightarrow> string list \<Rightarrow> int \<Rightarrow> string list" where
  "chunk_loop est maxTokens [] chunks currentChunk currentTokens =
     (if currentChunk \<noteq> [] then chunks @ [join_lines currentChunk] else chunks)"
| "chunk_loop est maxTokens (line # lines) chunks currentChunk currentTokens =
     (let lineTokens = est line in
      if currentTokens + lineTokens > maxTokens \<and> currentChunk \<noteq> []
      then chunk_loop est maxTokens lines (chunks @ [join_lines currentChunk]) [line] (0 + lineTokens)
      else chunk_loop est maxTokens lines chunks (currentChunk @ [line]) (currentTokens + lineTokens))"

definition chunkInput :: "(string \<Rightarrow> int) \<Rightarrow> string \<Rightarrow> int \<Rightarrow> string list" where
  "chunkInput est input maxTokens =
     (if est input \<le> maxTokens then [input]
      else chunk_loop est maxTokens (split_lines input) [] [] 0)"

text \<open>The bracket counts. The loop runs over runes; a byte of a longer rune is never one of
  the six characters, so running over bytes is the same.\<close>

fun structure_loop :: "string \<Rightarrow> int \<Rightarrow> int \<Rightarrow> int \<Rightarrow> bool" where
  "structure_loop [] parens brackets braces =
     (\<not> (parens > 50 \<or> brackets > 50 \<or> braces > 50))"
| "structure_loop (c # s) parens brackets braces =
     (let parens = (if c = CHR ''('' then parens + 1 else if c = CHR '')'' then parens - 1 else parens);
          brackets = (if c = CHR ''['' then brackets + 1 else if c = CHR '']'' then brackets - 1 else brackets);
          braces = (if c = CHR ''{'' then braces + 1 else if c = CHR ''}'' then braces - 1 else braces)
      in if parens < -10 \<or> brackets < -10 \<or> braces < -10 then False
         else structure_loop s parens brackets braces)"

definition checkStructure :: "string \<Rightarrow> bool" where
  "checkStructure s = structure_loop s 0 0 0"

definition validateOutput ::
  "(string \<Rightarrow> string) \<Rightarrow> string \<Rightarrow> string \<Rightarrow> CommandContext \<Rightarrow> bool" where
  "validateOutput lower output original ctx =
     (if output = [] \<and> original \<noteq> [] then False
      else if len original = 0 then output = []
      else if fdiv (of_int64 (len output)) (of_int64 (len original)) < f64 (1 / 100) then False
      else if (cc_IsError ctx \<or> cc_ExitCode ctx \<noteq> 0) \<and>
              (contains original ''error'' \<and> \<not> contains (lower output) ''error'' \<or>
               contains original ''Error:'' \<and> \<not> contains output ''Error:'') then False
      else checkStructure output)"

section \<open>Requests\<close>

definition SetQuery_question :: "FilterLib \<Rightarrow> string \<Rightarrow> PipelineCoordinator \<Rightarrow> Filter option" where
  "SetQuery_question L query p =
     map_option (\<lambda>_. lib_QuestionAwareFilter L ((questionCfg (pc_config p))\<lparr>quest_Query := query\<rparr>))
       (pc_questionAwareFilter p)"

definition syncCoordinatorForRequest ::
  "FilterLib \<Rightarrow> Mode \<Rightarrow> string \<Rightarrow> PipelineCoordinator \<Rightarrow> PipelineCoordinator" where
  "syncCoordinatorForRequest L mode query p =
     (let p = p\<lparr>pc_config := (pc_config p)\<lparr>cfg_Mode := mode\<rparr>\<rparr>
      in if cfg_QueryIntent (pc_config p) = query then p
         else let p = p\<lparr>pc_config := (pc_config p)\<lparr>cfg_QueryIntent := query\<rparr>\<rparr>
         in if query = []
            then buildLayers (p\<lparr>pc_goalDrivenFilter := None, pc_contrastiveFilter := None,
                   pc_questionAwareFilter := SetQuery_question L [] p\<rparr>)
            else buildLayers (p\<lparr>pc_goalDrivenFilter := Some (lib_NewGoalDrivenFilter L query),
                   pc_contrastiveFilter := Some (lib_NewContrastiveFilter L query),
                   pc_questionAwareFilter := SetQuery_question L query p\<rparr>))"

text \<open>What the manager makes of the pipeline's output: the validation and the recovery from an
  empty output.\<close>

definition settleOutput ::
  "(string \<Rightarrow> string) \<Rightarrow> (string \<Rightarrow> string \<Rightarrow> string) \<Rightarrow> string \<Rightarrow> PipelineManager \<Rightarrow> string \<Rightarrow> string
     \<Rightarrow> CommandContext \<Rightarrow> ProcessResult \<Rightarrow> ProcessResult" where
  "settleOutput lower path_join stamp m input output ctx result =
     (let cfg = pm_config m;
          result =
            (if mc_ValidateOutput cfg
             then if \<not> validateOutput lower output input ctx
                  then if mc_FailSafeMode cfg
                       then result\<lparr>res_Output := input,
                              res_Warning := ''output validation failed, returning original''\<rparr>
                       else result\<lparr>res_Output := output, res_Warning := ''output may be corrupted''\<rparr>
                  else result\<lparr>res_Output := output, res_Validated := True\<rparr>
             else result\<lparr>res_Output := output\<rparr>)
      in if res_Output result = [] \<and> input \<noteq> []
         then let result =
                (if mc_TeeOnFailure cfg
                 then result\<lparr>res_TeeFile := saveTee path_join stamp m ctx ''empty_output'',
                        res_Warning := ''pipeline produced empty output, original saved to tee file''\<rparr>
                 else result)
              in if mc_FailSafeMode cfg then result\<lparr>res_Output := input\<rparr> else result
         else result)"

definition storeResult ::
  "(string \<Rightarrow> string) \<Rightarrow> gotime \<Rightarrow> string \<Rightarrow> Mode \<Rightarrow> CommandContext \<Rightarrow> ProcessResult
     \<Rightarrow> PipelineManager \<Rightarrow> PipelineManager option" where
  "storeResult sha now input mode ctx result m =
     (if res_CacheHit result then Some m
      else let key = mgr_cacheKey sha m input mode ctx;
               cached = \<lparr>cr_Output = res_Output result, cr_Tokens = res_FinalTokens result, cr_CachedAt = now\<rparr>
           in case pm_lruCache m of
                Some c \<Rightarrow> map_option (\<lambda>c'. m\<lparr>pm_lruCache := Some c'\<rparr>) (lru_Set now key (Some cached) c)
              | None \<Rightarrow>
                  (case pm_cache m of
                     Some c \<Rightarrow> Some (m\<lparr>pm_cache := Some (cmp_Set key cached c)\<rparr>)
                   | None \<Rightarrow> Some m))"

definition copyStats :: "PipelineStats \<Rightarrow> ProcessResult \<Rightarrow> ProcessResult" where
  "copyStats stats result = result\<lparr>res_FinalTokens := FinalTokens stats, res_SavedTokens := TotalSaved stats,
     res_ReductionPercent := ReductionPercent stats, res_LayerStats := LayerStats stats\<rparr>"

record mgr_env =
  env_est :: "string \<Rightarrow> int"
  env_lower :: "string \<Rightarrow> string"
  env_lib :: FilterLib
  env_sha :: "string \<Rightarrow> string"
  env_path_join :: "string \<Rightarrow> string \<Rightarrow> string"
  env_stamp :: string

definition processSingle ::
  "mgr_env \<Rightarrow> gotime \<Rightarrow> string \<Rightarrow> Mode \<Rightarrow> CommandContext \<Rightarrow> ProcessResult \<Rightarrow> PipelineManager
     \<Rightarrow> ((mgr_error + ProcessResult) \<times> PipelineManager) option" where
  "processSingle E now input mode ctx result m = do {
     let p = syncCoordinatorForRequest (env_lib E) mode (cc_Intent ctx) (pm_coordinator m);
     (output, stats, p') \<leftarrow> Process (env_est E) (env_lower E) p input;
     let m = m\<lparr>pm_coordinator := p'\<rparr>;
     let result = settleOutput (env_lower E) (env_path_join E) (env_stamp E) m input output ctx result;
     let result = copyStats stats result;
     m \<leftarrow> storeResult (env_sha E) now input mode ctx result m;
     Some (Inr result, m) }"

text \<open>The loop over the chunks: \<open>i\<close> is the index, \<open>done\<close> the processed chunks.\<close>

fun stream_loop ::
  "mgr_env \<Rightarrow> (nat \<Rightarrow> gotime) \<Rightarrow> Mode \<Rightarrow> CommandContext \<Rightarrow> bool \<Rightarrow> bool \<Rightarrow> int \<Rightarrow> nat \<Rightarrow> string list
     \<Rightarrow> string list \<Rightarrow> PipelineManager \<Rightarrow> ((mgr_error + string list) \<times> PipelineManager) option" where
  "stream_loop E clk mode ctx failSafeMode shortCircuit budget i [] processed m = Some (Inr processed, m)"
| "stream_loop E clk mode ctx failSafeMode shortCircuit budget i (chunk # chunks) processed m =
     (case processSingle E (clk i) chunk mode ctx zeroProcessResult m of
        None \<Rightarrow> None
      | Some (Inl err, m) \<Rightarrow>
          (if failSafeMode
           then stream_loop E clk mode ctx failSafeMode shortCircuit budget (Suc i) chunks (processed @ [chunk]) m
           else Some (Inl (ChunkFailed i err), m))
      | Some (Inr chunkResult, m) \<Rightarrow>
          (let processed = processed @ [res_Output chunkResult]
           in if shortCircuit \<and> budget > 0 \<and> env_est E (join_lines processed) \<le> budget
              then Some (Inr processed, m)
              else stream_loop E clk mode ctx failSafeMode shortCircuit budget (Suc i) chunks processed m))"

definition chunk_boundary :: string where
  "chunk_boundary = [nl, nl] @ ''--- Chunk Boundary ---'' @ [nl, nl]"

definition processStreaming ::
  "mgr_env \<Rightarrow> (nat \<Rightarrow> gotime) \<Rightarrow> string \<Rightarrow> Mode \<Rightarrow> CommandContext \<Rightarrow> ProcessResult \<Rightarrow> PipelineManager
     \<Rightarrow> ((mgr_error + ProcessResult) \<times> PipelineManager) option" where
  "processStreaming E clk input mode ctx result m =
     (let cfg = pm_config m;
          chunks = chunkInput (env_est E) input (mc_ChunkSize cfg);
          result = result\<lparr>res_Chunks := len chunks\<rparr>
      in case stream_loop E clk mode ctx (mc_FailSafeMode cfg) (mc_ShortCircuitBudget cfg)
                (cfg_Budget (pc_config (pm_coordinator m))) 0 chunks [] m of
           None \<Rightarrow> None
         | Some (Inl err, m) \<Rightarrow> Some (Inl err, m)
         | Some (Inr processed, m) \<Rightarrow>
             (let result = result\<lparr>res_Output := join chunk_boundary processed\<rparr>;
                  result = result\<lparr>res_FinalTokens := env_est E (res_Output result)\<rparr>;
                  result = result\<lparr>res_SavedTokens := res_OriginalTokens result - res_FinalTokens result\<rparr>;
                  result = (if res_OriginalTokens result > 0
                            then result\<lparr>res_ReductionPercent :=
                                   fmul (fdiv (of_int64 (res_SavedTokens result))
                                              (of_int64 (res_OriginalTokens result))) 100\<rparr>
                            else result)
              in Some (Inr result, m)))"

definition cachedResponse :: "mgr_env \<Rightarrow> mgr_CachedResult \<Rightarrow> ProcessResult \<Rightarrow> ProcessResult" where
  "cachedResponse E cached result =
     (let result = result\<lparr>res_Output := cr_Output cached\<rparr>;
          result = result\<lparr>res_FinalTokens := env_est E (res_Output result)\<rparr>
      in result\<lparr>res_SavedTokens := res_OriginalTokens result - res_FinalTokens result, res_CacheHit := True\<rparr>)"

text \<open>\<open>now\<close> is the clock at the lookup, \<open>clk i\<close> the clock when the result of
  chunk \<open>i\<close> (or the only result) is stored.\<close>

definition mgr_Process ::
  "mgr_env \<Rightarrow> gotime \<Rightarrow> (nat \<Rightarrow> gotime) \<Rightarrow> string \<Rightarrow> Mode \<Rightarrow> CommandContext \<Rightarrow> PipelineManager
     \<Rightarrow> ((mgr_error + ProcessResult) \<times> PipelineManager) option" where
  "mgr_Process E now clk input mode ctx m =
     (let tokens = env_est E input;
          result = zeroProcessResult\<lparr>res_OriginalTokens := tokens\<rparr>;
          maxCtx = mc_MaxContextTokens (pm_config m);
          streamThreshold = mc_StreamThreshold (pm_config m)
      in if tokens > maxCtx then Some (Inl (ExceedsMaxContext tokens maxCtx), m)
         else let key = mgr_cacheKey (env_sha E) m input mode ctx;
                  (val, m) = (case pm_lruCache m of
                     None \<Rightarrow> (None, m)
                   | Some c \<Rightarrow> (let (val, c') = lru_Get now key c in (val, m\<lparr>pm_lruCache := Some c'\<rparr>)))
         in case val of
              Some cached \<Rightarrow> Some (Inr (cachedResponse E cached result), m)
            | None \<Rightarrow>
                (case Option.bind (pm_cache m) (cmp_Get key) of
                   Some cached \<Rightarrow> Some (Inr (cachedResponse E cached result), m)
                 | None \<Rightarrow>
                     (if tokens > streamThreshold then processStreaming E clk input mode ctx result m
                      else processSingle E (clk 0) input mode ctx result m)))"

definition ProcessWithBudget ::
  "mgr_env \<Rightarrow> gotime \<Rightarrow> (nat \<Rightarrow> gotime) \<Rightarrow> string \<Rightarrow> Mode \<Rightarrow> int \<Rightarrow> CommandContext \<Rightarrow> PipelineManager
     \<Rightarrow> ((mgr_error + ProcessResult) \<times> PipelineManager) option" where
  "ProcessWithBudget E now clk input mode budget ctx m =
     (let p = pm_coordinator m;
          p = p\<lparr>pc_config := (pc_config p)\<lparr>cfg_Budget := budget\<rparr>,
                pc_budgetEnforcer := Some (budget_filter (env_est E) (NewBudgetEnforcer budget))\<rparr>
      in mgr_Process E now clk input mode ctx (m\<lparr>pm_coordinator := p\<rparr>))"

definition ProcessWithQuery ::
  "mgr_env \<Rightarrow> gotime \<Rightarrow> (nat \<Rightarrow> gotime) \<Rightarrow> string \<Rightarrow> Mode \<Rightarrow> string \<Rightarrow> CommandContext \<Rightarrow> PipelineManager
     \<Rightarrow> ((mgr_error + ProcessResult) \<times> PipelineManager) option" where
  "ProcessWithQuery E now clk input mode query ctx m =
     (let ctx = ctx\<lparr>cc_Intent := query\<rparr>;
          m = m\<lparr>pm_coordinator := syncCoordinatorForRequest (env_lib E) mode query (pm_coordinator m)\<rparr>
      in mgr_Process E now clk input mode ctx m)"

section \<open>The manager's invariant\<close>

lemma layers_built_config [simp, go_inv]: "layers_built (p\<lparr>pc_config := c\<rparr>) \<longleftrightarrow> layers_built p"
  by (simp add: layers_built_def buildLayers_def)

lemma layers_built_budget [simp, go_inv]: "layers_built (p\<lparr>pc_budgetEnforcer := f\<rparr>) \<longleftrightarrow> layers_built p"
  by (simp add: layers_built_def buildLayers_def)

lemma layers_built_build [simp, go_inv]: "layers_built (buildLayers p)"
  by (simp add: layers_built_def)

lemma layers_built_sync [go_inv]: "layers_built p \<Longrightarrow> layers_built (syncCoordinatorForRequest L mode query p)"
  by (simp add: syncCoordinatorForRequest_def Let_def)

lemma sync_config [simp]:
  "pc_config (syncCoordinatorForRequest L mode query p) =
     (pc_config p)\<lparr>cfg_Mode := mode, cfg_QueryIntent := query\<rparr>"
  by (auto simp: syncCoordinatorForRequest_def Let_def buildLayers_def)

lemma sync_idem [simp]:
  "syncCoordinatorForRequest L mode query (syncCoordinatorForRequest L mode query p) =
     syncCoordinatorForRequest L mode query p"
  by (simp add: syncCoordinatorForRequest_def [of L mode query "syncCoordinatorForRequest L mode query p"] Let_def)

lemma Process_keeps_built:
  "layers_built p \<Longrightarrow> Process est lower p input = Some (out, stats, p') \<Longrightarrow>
     layers_built p' \<and> pc_config p' = pc_config p"
  using Process_coordinator [of p est lower input out stats p'] by auto

text \<open>A manager has both caches or none; the older cache is never filled.\<close>

definition mgr_inv :: "PipelineManager \<Rightarrow> bool" where
  "mgr_inv m \<longleftrightarrow> layers_built (pm_coordinator m) \<and>
     (case pm_lruCache m of
        None \<Rightarrow> pm_cache m = None
      | Some c \<Rightarrow> lru_inv c \<and> lru_ttl c = 5 * Minute \<and> pm_cache m = Some (NewCompressionCache (mc_CacheMaxSize (pm_config m))))"

lemma mgr_inv_New [go_inv]: "mgr_inv (NewPipelineManager est L dir cfg)"
  by (simp add: mgr_inv_def NewPipelineManager_def lru_inv_New) (simp add: NewLRUCache_def)

lemma mgr_inv_coordinator [go_inv]:
  "mgr_inv m \<Longrightarrow> layers_built p \<Longrightarrow> mgr_inv (m\<lparr>pm_coordinator := p\<rparr>)"
  by (auto simp: mgr_inv_def split: option.splits)

lemma lru_ttl_evict [simp]: "lru_ttl (lru_evictOldest c) = lru_ttl c"
  by (simp add: lru_evictOldest_def lru_removeElement_def)

lemma lru_ttl_Set: "lru_inv c \<Longrightarrow> lru_Set now key v c = Some c' \<Longrightarrow> lru_ttl c' = lru_ttl c"
  by (auto simp: lru_Set_def lru_moveToFront_def lru_evict_loop_eq split: option.splits if_splits)

lemma lru_ttl_Get [simp]: "lru_ttl (snd (lru_Get now key c)) = lru_ttl c"
  by (simp add: lru_Get_def lru_removeElement_def lru_moveToFront_def split: option.split)

lemma storeResult_inv:
  assumes "mgr_inv m"
  shows "\<exists>m'. storeResult sha now input mode ctx result m = Some m' \<and> mgr_inv m' \<and>
    pm_config m' = pm_config m \<and> pm_coordinator m' = pm_coordinator m"
proof (cases "pm_lruCache m")
  case None
  then show ?thesis using assms by (auto simp: storeResult_def mgr_inv_def)
next
  case (Some c)
  then have "lru_inv c" using assms by (simp add: mgr_inv_def)
  note ttl = lru_ttl_Set [OF this]
  let ?e = "Some \<lparr>cr_Output = res_Output result, cr_Tokens = res_FinalTokens result, cr_CachedAt = now\<rparr>"
  from lru_Set_spec [OF \<open>lru_inv c\<close>, of now "mgr_cacheKey sha m input mode ctx" ?e]
  show ?thesis using Some assms ttl by (auto simp: storeResult_def Let_def mgr_inv_def)
qed

lemma processSingle_step:
  fixes E :: mgr_env and mode :: Mode and ctx :: CommandContext
  assumes "mgr_inv m"
  defines "p \<equiv> syncCoordinatorForRequest (env_lib E) mode (cc_Intent ctx) (pm_coordinator m)"
  shows "\<exists>output stats p' m'. Process (env_est E) (env_lower E) p input = Some (output, stats, p') \<and>
    storeResult (env_sha E) now input mode ctx
      (copyStats stats (settleOutput (env_lower E) (env_path_join E) (env_stamp E) m input output ctx result))
      (m\<lparr>pm_coordinator := p'\<rparr>) = Some m' \<and>
    processSingle E now input mode ctx result m =
      Some (Inr (copyStats stats (settleOutput (env_lower E) (env_path_join E) (env_stamp E) m input output ctx result)), m') \<and>
    mgr_inv m' \<and> pm_config m' = pm_config m \<and>
    cfg_Budget (pc_config (pm_coordinator m')) = cfg_Budget (pc_config (pm_coordinator m))"
proof -
  have b: "layers_built p" using assms(1) by (simp add: p_def mgr_inv_def layers_built_sync)
  obtain out stats p' where run: "Process (env_est E) (env_lower E) p input = Some (out, stats, p')"
    using Process_total [OF b] by (metis prod_cases3)
  note kept = Process_keeps_built [OF b run]
  then have inv: "mgr_inv (m\<lparr>pm_coordinator := p'\<rparr>)" using assms(1) mgr_inv_coordinator by blast
  have settle: "settleOutput lower join stamp (m\<lparr>pm_coordinator := p'\<rparr>) input out ctx result =
      settleOutput lower join stamp m input out ctx result" for lower join stamp
    by (simp add: settleOutput_def saveTee_def cong: if_cong)
  show ?thesis
    using storeResult_inv [OF inv, of "env_sha E" now input mode ctx
        "copyStats stats (settleOutput (env_lower E) (env_path_join E) (env_stamp E) m input out ctx result)"]
      run kept
    by (auto simp: processSingle_def Let_def settle p_def [symmetric]) (simp add: p_def)
qed

lemma stream_loop_inv:
  assumes "mgr_inv m"
  shows "\<exists>outs m'. stream_loop E clk mode ctx fs sc budget i chunks processed m = Some (Inr outs, m') \<and>
    mgr_inv m' \<and> pm_config m' = pm_config m"
  using assms
proof (induction chunks arbitrary: i processed m)
  case (Cons chunk chunks)
  from processSingle_step [OF Cons.prems, of E mode ctx chunk "clk i" zeroProcessResult]
  obtain r m1 where one: "processSingle E (clk i) chunk mode ctx zeroProcessResult m = Some (Inr r, m1)"
    "mgr_inv m1" "pm_config m1 = pm_config m" by blast
  then show ?case using Cons.IH [OF one(2), of "Suc i" "processed @ [res_Output r]"]
    by (auto simp: Let_def)
qed auto

lemma mgr_lookup_inv:
  assumes "mgr_inv m" "pm_lruCache m = Some c"
  shows "mgr_inv (m\<lparr>pm_lruCache := Some (snd (lru_Get now key c))\<rparr>)"
  using assms lru_inv_Get by (auto simp: mgr_inv_def)

text \<open>The managers a client can hold.\<close>

inductive mgr_reachable :: "PipelineManager \<Rightarrow> bool" where
  mgr_new: "mgr_reachable (NewPipelineManager est L dir cfg)"
| mgr_process: "mgr_reachable m \<Longrightarrow> mgr_Process E now clk input mode ctx m = Some (r, m') \<Longrightarrow> mgr_reachable m'"
| mgr_budget: "mgr_reachable m \<Longrightarrow> ProcessWithBudget E now clk input mode budget ctx m = Some (r, m')
    \<Longrightarrow> mgr_reachable m'"
| mgr_query: "mgr_reachable m \<Longrightarrow> ProcessWithQuery E now clk input mode query ctx m = Some (r, m')
    \<Longrightarrow> mgr_reachable m'"

lemma mgr_Process_miss:
  assumes "mgr_inv m" "env_est E input \<le> mc_MaxContextTokens (pm_config m)"
  obtains m0 where "mgr_inv m0" "pm_config m0 = pm_config m" "pm_coordinator m0 = pm_coordinator m"
    "pm_lruCache m0 = None \<longleftrightarrow> pm_lruCache m = None"
    "(\<exists>cached. mgr_Process E now clk input mode ctx m =
        Some (Inr (cachedResponse E cached (zeroProcessResult\<lparr>res_OriginalTokens := env_est E input\<rparr>)), m0)) \<or>
     mgr_Process E now clk input mode ctx m =
       (if env_est E input > mc_StreamThreshold (pm_config m)
        then processStreaming E clk input mode ctx (zeroProcessResult\<lparr>res_OriginalTokens := env_est E input\<rparr>) m0
        else processSingle E (clk 0) input mode ctx (zeroProcessResult\<lparr>res_OriginalTokens := env_est E input\<rparr>) m0)"
proof (cases "pm_lruCache m")
  case None
  then have "pm_cache m = None" using assms(1) by (simp add: mgr_inv_def)
  then have "mgr_Process E now clk input mode ctx m =
       (if env_est E input > mc_StreamThreshold (pm_config m)
        then processStreaming E clk input mode ctx (zeroProcessResult\<lparr>res_OriginalTokens := env_est E input\<rparr>) m
        else processSingle E (clk 0) input mode ctx (zeroProcessResult\<lparr>res_OriginalTokens := env_est E input\<rparr>) m)"
    using assms(2) None by (simp add: mgr_Process_def Let_def)
  then show ?thesis using that [of m] assms(1) None by simp
next
  case (Some c)
  obtain val c' where get: "lru_Get now (mgr_cacheKey (env_sha E) m input mode ctx) c = (val, c')"
    by fastforce
  define m0 where "m0 = m\<lparr>pm_lruCache := Some c'\<rparr>"
  have inv: "mgr_inv m0" using mgr_lookup_inv [OF assms(1) Some] get unfolding m0_def by (metis snd_conv)
  have "pm_cache m = Some (NewCompressionCache (mc_CacheMaxSize (pm_config m)))"
    using assms(1) Some by (simp add: mgr_inv_def)
  then have "mgr_Process E now clk input mode ctx m = (case val of
      Some cached \<Rightarrow> Some (Inr (cachedResponse E cached (zeroProcessResult\<lparr>res_OriginalTokens := env_est E input\<rparr>)), m0)
    | None \<Rightarrow> (if env_est E input > mc_StreamThreshold (pm_config m)
        then processStreaming E clk input mode ctx (zeroProcessResult\<lparr>res_OriginalTokens := env_est E input\<rparr>) m0
        else processSingle E (clk 0) input mode ctx (zeroProcessResult\<lparr>res_OriginalTokens := env_est E input\<rparr>) m0))"
    using assms(2) Some get
    by (simp add: mgr_Process_def Let_def m0_def cmp_Get_def NewCompressionCache_def split: option.split)
  then show ?thesis using that [of m0] inv Some
    by (cases val) (auto simp: m0_def)
qed

lemma processStreaming_inv:
  assumes "mgr_inv m"
  shows "\<exists>r m'. processStreaming E clk input mode ctx result m = Some (Inr r, m') \<and>
    mgr_inv m' \<and> pm_config m' = pm_config m \<and> res_OriginalTokens r = res_OriginalTokens result"
proof -
  let ?cfg = "pm_config m"
  from stream_loop_inv [OF assms, of E clk mode ctx "mc_FailSafeMode ?cfg" "mc_ShortCircuitBudget ?cfg"
      "cfg_Budget (pc_config (pm_coordinator m))" 0 "chunkInput (env_est E) input (mc_ChunkSize ?cfg)" "[]"]
  show ?thesis by (auto simp: processStreaming_def Let_def)
qed

lemma settleOutput_original [simp]:
  "res_OriginalTokens (settleOutput lower pj stamp m input out ctx result) = res_OriginalTokens result"
  "res_CacheHit (settleOutput lower pj stamp m input out ctx result) = res_CacheHit result"
  by (simp_all add: settleOutput_def Let_def)

lemma copyStats_sel [simp]:
  "res_Output (copyStats st r) = res_Output r" "res_OriginalTokens (copyStats st r) = res_OriginalTokens r"
  "res_CacheHit (copyStats st r) = res_CacheHit r" "res_Validated (copyStats st r) = res_Validated r"
  "res_SavedTokens (copyStats st r) = TotalSaved st" "res_FinalTokens (copyStats st r) = FinalTokens st"
  by (simp_all add: copyStats_def)

lemma mgr_Process_inv:
  assumes "mgr_inv m"
  shows "if env_est E input > mc_MaxContextTokens (pm_config m)
    then mgr_Process E now clk input mode ctx m =
      Some (Inl (ExceedsMaxContext (env_est E input) (mc_MaxContextTokens (pm_config m))), m)
    else \<exists>r m'. mgr_Process E now clk input mode ctx m = Some (Inr r, m') \<and> mgr_inv m' \<and>
      pm_config m' = pm_config m \<and> res_OriginalTokens r = env_est E input"
proof (cases "env_est E input > mc_MaxContextTokens (pm_config m)")
  case True
  then show ?thesis by (simp add: mgr_Process_def)
next
  case False
  then have le: "env_est E input \<le> mc_MaxContextTokens (pm_config m)" by simp
  let ?r = "zeroProcessResult\<lparr>res_OriginalTokens := env_est E input\<rparr>"
  obtain m0 where m0: "mgr_inv m0" "pm_config m0 = pm_config m"
    and run: "(\<exists>cached. mgr_Process E now clk input mode ctx m = Some (Inr (cachedResponse E cached ?r), m0)) \<or>
     mgr_Process E now clk input mode ctx m =
       (if env_est E input > mc_StreamThreshold (pm_config m) then processStreaming E clk input mode ctx ?r m0
        else processSingle E (clk 0) input mode ctx ?r m0)"
    by (rule mgr_Process_miss [OF assms le])
  have "\<exists>r m'. mgr_Process E now clk input mode ctx m = Some (Inr r, m') \<and> mgr_inv m' \<and>
      pm_config m' = pm_config m0 \<and> res_OriginalTokens r = env_est E input"
    using run processStreaming_inv [OF m0(1), of E clk input mode ctx ?r]
      processSingle_step [OF m0(1), of E mode ctx input "clk 0" ?r] m0(1)
    by (auto simp: cachedResponse_def Let_def split: if_splits)
  then show ?thesis using False m0(2) by auto
qed

lemma reachable_mgr_inv [go_inv]: "mgr_reachable m \<Longrightarrow> mgr_inv m"
proof (induction rule: mgr_reachable.induct)
  case (mgr_process m E now clk input mode ctx r m')
  then show ?case using mgr_Process_inv [of m E input now clk mode ctx] by (auto split: if_splits)
next
  case (mgr_budget m E now clk input mode budget ctx r m')
  let ?m = "m\<lparr>pm_coordinator := (pm_coordinator m)
     \<lparr>pc_config := (pc_config (pm_coordinator m))\<lparr>cfg_Budget := budget\<rparr>,
      pc_budgetEnforcer := Some (budget_filter (env_est E) (NewBudgetEnforcer budget))\<rparr>\<rparr>"
  have "mgr_inv ?m" using mgr_budget.IH by (intro mgr_inv_coordinator) (auto simp: mgr_inv_def)
  from mgr_Process_inv [OF this, of E input now clk mode ctx] mgr_budget.hyps(2) \<open>mgr_inv ?m\<close>
  show ?case by (auto simp: ProcessWithBudget_def Let_def split: if_splits)
next
  case (mgr_query m E now clk input mode query ctx r m')
  let ?m = "m\<lparr>pm_coordinator := syncCoordinatorForRequest (env_lib E) mode query (pm_coordinator m)\<rparr>"
  have "mgr_inv ?m" using mgr_query.IH
    by (intro mgr_inv_coordinator layers_built_sync) (auto simp: mgr_inv_def)
  from mgr_Process_inv [OF this, of E input now clk mode "ctx\<lparr>cc_Intent := query\<rparr>"] mgr_query.hyps(2) \<open>mgr_inv ?m\<close>
  show ?case by (auto simp: ProcessWithQuery_def Let_def split: if_splits)
qed (rule mgr_inv_New)

section \<open>Chunks\<close>

definition chunk_fits :: "(string \<Rightarrow> int) \<Rightarrow> int \<Rightarrow> string list \<Rightarrow> bool" where
  "chunk_fits est maxTokens ls \<longleftrightarrow> ls \<noteq> [] \<and> (sum_list (map est ls) \<le> maxTokens \<or> length ls = 1)"

text \<open>The loop groups the lines: what it returns is a partition of them into fitting groups.\<close>

lemma chunk_loop_groups:
  assumes "cur \<noteq> [] \<longrightarrow> chunk_fits est mx cur" "ct = sum_list (map est cur)"
  shows "\<exists>groups. chunk_loop est mx lines chunks cur ct = chunks @ map join_lines groups \<and>
    concat groups = cur @ lines \<and> (\<forall>g \<in> set groups. chunk_fits est mx g)"
  using assms
proof (induction lines arbitrary: chunks cur ct)
  case Nil
  then show ?case by (cases "cur = []") (auto intro: exI [of _ "[]"] exI [of _ "[cur]"])
next
  case (Cons line lines)
  show ?case
  proof (cases "ct + est line > mx \<and> cur \<noteq> []")
    case True
    have "chunk_fits est mx [line]" by (simp add: chunk_fits_def)
    with Cons.IH [of "[line]" "0 + est line" "chunks @ [join_lines cur]"] obtain groups where
      "chunk_loop est mx lines (chunks @ [join_lines cur]) [line] (0 + est line) =
         (chunks @ [join_lines cur]) @ map join_lines groups"
      "concat groups = [line] @ lines" "\<forall>g \<in> set groups. chunk_fits est mx g" by auto
    with True Cons.prems(1) show ?thesis by (intro exI [of _ "cur # groups"]) (auto simp: Let_def)
  next
    case False
    then have "chunk_fits est mx (cur @ [line])" using Cons.prems by (auto simp: chunk_fits_def)
    with Cons.IH [of "cur @ [line]" "ct + est line" chunks] Cons.prems(2) False show ?thesis
      by (auto simp: Let_def)
  qed
qed

lemma join_groups:
  assumes "\<forall>g \<in> set groups. g \<noteq> []"
  shows "join sep (map (join sep) groups) = join sep (concat groups)"
  using assms
proof (induction groups)
  case (Cons g gs)
  then have "concat gs = [] \<longleftrightarrow> gs = []" by (cases gs) auto
  with Cons show ?case by (auto simp: join_Cons join_append)
qed simp

text \<open>
  Cutting an input into chunks loses nothing and cuts between lines only: the lines of
  the input are partitioned, in order, into groups; each chunk is one group joined again, and the
  chunks joined by line breaks are the input. A group of more than one line stays within the
  chunk size, counted line by line. An input within the chunk size is one chunk.
\<close>

theorem chunkInput_partitions:
  "join_lines (chunkInput est input maxTokens) = input \<and>
   (if est input \<le> maxTokens then chunkInput est input maxTokens = [input]
    else \<exists>groups. concat groups = split_lines input \<and>
      chunkInput est input maxTokens = map join_lines groups \<and>
      list_all (\<lambda>g. g \<noteq> [] \<and> (sum_list (map est g) \<le> maxTokens \<or> length g = 1)) groups)"
proof (cases "est input \<le> maxTokens")
  case False
  from chunk_loop_groups [of "[]" est maxTokens 0 "split_lines input" "[]"] obtain groups where
    g: "chunk_loop est maxTokens (split_lines input) [] [] 0 = map join_lines groups"
    "concat groups = split_lines input" "\<forall>g \<in> set groups. chunk_fits est maxTokens g" by auto
  have "join_lines (map join_lines groups) = input"
    using join_groups [of groups "[nl]"] g(2,3) by (auto simp: chunk_fits_def)
  with g False show ?thesis
    by (auto simp: chunkInput_def chunk_fits_def list_all_iff)
qed (simp add: chunkInput_def)

section \<open>Requests\<close>


definition demo_env :: mgr_env where
  "demo_env = \<lparr>env_est = heuristicTokens, env_lower = id, env_lib = noop_lib, env_sha = id,
     env_path_join = (\<lambda>d f. d @ ''/'' @ f), env_stamp = ''20250101-000000''\<rparr>"

definition demo_ctx :: CommandContext where
  "demo_ctx = \<lparr>cc_Command = ''git'', cc_Subcommand = ''log'', cc_ExitCode = 0, cc_Intent = [],
     cc_IsTest = False, cc_IsBuild = False, cc_IsError = False\<rparr>"

definition demo_cfg :: "int \<Rightarrow> ManagerConfig" where
  "demo_cfg budget = \<lparr>mc_MaxContextTokens = 100, mc_ChunkSize = 2, mc_StreamThreshold = 3, mc_TeeOnFailure = True,
     mc_FailSafeMode = True, mc_ValidateOutput = True, mc_ShortCircuitBudget = True, mc_CacheEnabled = True,
     mc_CacheMaxSize = 4, mc_PipelineCfg = zeroPipelineConfig\<lparr>cfg_Budget := budget\<rparr>\<rparr>"


text \<open>The statistics of a run of a coordinator with its layers built.\<close>

lemma built_statistics:
  assumes "layers_built p" "Process est lower p input = Some (out, st, p')"
  shows "OriginalTokens st = est input" "FinalTokens st = est out" "TotalSaved st = est input - est out"
proof -
  obtain s0 st0 ex where t: "tomlStage p input (newStats (est input)) = (s0, st0, ex)" by (metis prod_cases3)
  note st0 = tomlStage_stats [OF t]
  have "OriginalTokens st = est input \<and> FinalTokens st = est out \<and> TotalSaved st = est input - est out"
    by (rule outcome_facts [OF Process_outcome [OF assms t] st0(3)]) (auto simp: st0(1))
  then show "OriginalTokens st = est input" "FinalTokens st = est out" "TotalSaved st = est input - est out"
    by auto
qed

lemma validate_empty:
  "validateOutput lower out input ctx \<Longrightarrow> out = [] \<longleftrightarrow> input = []"
  unfolding validateOutput_def by (cases "out = []"; cases "input = []") simp_all

lemma settleOutput_output:
  "res_Output (settleOutput lower pj stamp m input out ctx r) =
     (let valid = \<not> mc_ValidateOutput (pm_config m) \<or> validateOutput lower out input ctx;
          chosen = (if valid \<or> \<not> mc_FailSafeMode (pm_config m) then out else input)
      in if chosen = [] \<and> mc_FailSafeMode (pm_config m) then input else chosen)"
  by (auto simp: settleOutput_def Let_def)



text \<open>A request that was not answered from the cache leaves its output there.\<close>

lemma processSingle_stores:
  assumes "mgr_inv m" "pm_lruCache m \<noteq> None" "\<not> res_CacheHit result"
    and "processSingle E now input mode ctx result m = Some (Inr r, m')"
  shows "\<exists>c n. pm_lruCache m' = Some c \<and> lru_ttl c = 5 * Minute \<and>
    al_get (lru_entries c) (mgr_cacheKey (env_sha E) m' input mode ctx) =
      Some \<lparr>le_value = Some \<lparr>cr_Output = res_Output r, cr_Tokens = n, cr_CachedAt = now\<rparr>, le_createdAt = now\<rparr>"
proof -
  let ?p = "syncCoordinatorForRequest (env_lib E) mode (cc_Intent ctx) (pm_coordinator m)"
  obtain c where c: "pm_lruCache m = Some c" "lru_inv c" "lru_ttl c = 5 * Minute"
    using assms(1,2) by (auto simp: mgr_inv_def)
  from processSingle_step [OF assms(1), of E mode ctx input now result] assms(4) obtain out stats p' where
    r: "r = copyStats stats (settleOutput (env_lower E) (env_path_join E) (env_stamp E) m input out ctx result)"
    and st: "storeResult (env_sha E) now input mode ctx r (m\<lparr>pm_coordinator := p'\<rparr>) = Some m'" by auto
  define key where "key = mgr_cacheKey (env_sha E) (m\<lparr>pm_coordinator := p'\<rparr>) input mode ctx"
  define e where "e = \<lparr>cr_Output = res_Output r, cr_Tokens = res_FinalTokens r, cr_CachedAt = now\<rparr>"
  obtain c' where c': "lru_Set now key (Some e) c = Some c'"
    "al_get (lru_entries c') key = Some \<lparr>le_value = Some e, le_createdAt = now\<rparr>"
    using lru_Set_spec [OF c(2), of now key "Some e"] by blast
  have "\<not> res_CacheHit r" using assms(3) by (simp add: r)
  then have m': "m' = m\<lparr>pm_coordinator := p', pm_lruCache := Some c'\<rparr>"
    using st c(1) c'(1) by (simp add: storeResult_def Let_def key_def e_def)
  then have "mgr_cacheKey (env_sha E) m' input mode ctx = key" by (simp add: key_def mgr_cacheKey_def)
  then show ?thesis using c' lru_ttl_Set [OF c(2) c'(1)] c(3) by (simp add: m' e_def)
qed

text \<open>
  A result is cached under the input, the mode, the command, the intent and the budget
  only. A later request that agrees on these gets the same text within five minutes, whatever
  its exit code says: the output cached for a success is returned for a failure, and the check
  that an error message survived is not made. It reports no reduction and no layer.
\<close>

theorem cache_ignores_exit_code:
  assumes "mgr_reachable m" "pm_lruCache m \<noteq> None" "env_est E input \<le> mc_StreamThreshold (pm_config m)"
    and "mgr_Process E now clk input mode ctx m = Some (Inr r, m')" "\<not> res_CacheHit r"
    and "cc_Command ctx' = cc_Command ctx" "cc_Intent ctx' = cc_Intent ctx" "later - clk 0 \<le> 5 * Minute"
  shows "\<exists>r' m''. mgr_Process E later clk' input mode ctx' m' = Some (Inr r', m'') \<and>
    res_CacheHit r' \<and> res_Output r' = res_Output r \<and> res_SavedTokens r' = env_est E input - env_est E (res_Output r) \<and>
    res_ReductionPercent r' = 0 \<and> res_LayerStats r' = Map.empty"
proof -
  note inv = reachable_mgr_inv [OF assms(1)]
  have le: "env_est E input \<le> mc_MaxContextTokens (pm_config m)"
    using assms(4) by (auto simp: mgr_Process_def Let_def split: if_splits)
  have cfg: "pm_config m' = pm_config m"
    using mgr_Process_inv [OF inv, of E input now clk mode ctx] le assms(4) by auto
  obtain m0 where m0: "mgr_inv m0" "pm_lruCache m0 \<noteq> None"
    "processSingle E (clk 0) input mode ctx (zeroProcessResult\<lparr>res_OriginalTokens := env_est E input\<rparr>) m0 = Some (Inr r, m')"
    using assms(2-5) by (rule_tac mgr_Process_miss [OF inv le, where now = now and clk = clk and mode = mode and ctx = ctx])
      (auto simp: cachedResponse_def Let_def)
  obtain c n where c: "pm_lruCache m' = Some c" "lru_ttl c = 5 * Minute"
    "al_get (lru_entries c) (mgr_cacheKey (env_sha E) m' input mode ctx) =
      Some \<lparr>le_value = Some \<lparr>cr_Output = res_Output r, cr_Tokens = n, cr_CachedAt = clk 0\<rparr>, le_createdAt = clk 0\<rparr>"
    using processSingle_stores [OF m0(1,2) _ m0(3)] by (auto simp: zeroProcessResult_def)
  have "mgr_cacheKey (env_sha E) m' input mode ctx' = mgr_cacheKey (env_sha E) m' input mode ctx"
    using assms(6,7) by (simp add: mgr_cacheKey_def)
  with c assms(8) le cfg show ?thesis
    by (simp add: mgr_Process_def Let_def lru_Get_def cachedResponse_def zeroProcessResult_def)
qed

theorem cache_ignores_exit_code_witness:
  "\<exists>r m' r' m''. mgr_Process demo_env 0 (\<lambda>_. 0) ''Error: x'' ModeMinimal demo_ctx
      (NewPipelineManager heuristicTokens noop_lib ''/tmp'' (demo_cfg 0)) = Some (Inr r, m') \<and>
    mgr_Process demo_env 60 (\<lambda>_. 60) ''Error: x'' ModeMinimal (demo_ctx\<lparr>cc_ExitCode := 1\<rparr>) m' = Some (Inr r', m'') \<and>
    res_CacheHit r' \<and> res_Output r' = res_Output r"
proof -
  let ?m = "NewPipelineManager heuristicTokens noop_lib ''/tmp'' (demo_cfg 0)"
  have cfg: "pm_lruCache ?m \<noteq> None" "env_est demo_env ''Error: x'' \<le> mc_StreamThreshold (pm_config ?m)"
    "env_est demo_env ''Error: x'' \<le> mc_MaxContextTokens (pm_config ?m)"
    by (simp_all add: NewPipelineManager_def demo_cfg_def demo_env_def heuristicTokens_def)
  have new: "mgr_Process demo_env 0 (\<lambda>_. 0) ''Error: x'' ModeMinimal demo_ctx ?m =
      processSingle demo_env 0 ''Error: x'' ModeMinimal demo_ctx (zeroProcessResult\<lparr>res_OriginalTokens := env_est demo_env ''Error: x''\<rparr>)
        (?m\<lparr>pm_lruCache := Some ((NewLRUCache 4 (5 * Minute))\<lparr>lru_misses := 1\<rparr>)\<rparr>)"
    using cfg(2,3) by (simp add: mgr_Process_def Let_def NewPipelineManager_def lru_Get_def cmp_Get_def demo_cfg_def
        NewCompressionCache_def NewLRUCache_def)
  have inv: "mgr_inv (?m\<lparr>pm_lruCache := Some ((NewLRUCache 4 (5 * Minute))\<lparr>lru_misses := 1\<rparr>)\<rparr>)"
    using mgr_inv_New [of heuristicTokens noop_lib "''/tmp''" "demo_cfg 0"]
    by (auto simp: mgr_inv_def NewPipelineManager_def demo_cfg_def lru_inv_New lru_inv_counters)
  obtain r m' where run: "mgr_Process demo_env 0 (\<lambda>_. 0) ''Error: x'' ModeMinimal demo_ctx ?m = Some (Inr r, m')"
    "\<not> res_CacheHit r"
    using processSingle_step [OF inv, where E = demo_env and mode = ModeMinimal and ctx = demo_ctx and now = 0 and
        input = "''Error: x''" and result = "zeroProcessResult\<lparr>res_OriginalTokens := env_est demo_env ''Error: x''\<rparr>"]
    unfolding new by (auto simp: zeroProcessResult_def)
  from cache_ignores_exit_code [OF mgr_new cfg(1,2) run, of "demo_ctx\<lparr>cc_ExitCode := 1\<rparr>" 60 "\<lambda>_. 60"] run(1)
  show ?thesis by auto
qed

text \<open>
  With the short circuit on, a large input under a budget loses its end. As soon as the
  chunks processed so far fit the budget the loop stops, which for a first chunk that fits is
  at once: the answer is that chunk's output alone, the other chunks are neither processed nor
  returned, and all their tokens are reported as saved.
\<close>

theorem short_circuit_drops_rest:
  assumes "mgr_reachable m" "pm_lruCache m = None" "mc_ShortCircuitBudget (pm_config m)"
    and "env_est E input \<le> mc_MaxContextTokens (pm_config m)" "mc_StreamThreshold (pm_config m) < env_est E input"
    and "chunkInput (env_est E) input (mc_ChunkSize (pm_config m)) = chunk # rest"
    and "processSingle E (clk 0) chunk mode ctx zeroProcessResult m = Some (Inr r, m')"
    and "0 < cfg_Budget (pc_config (pm_coordinator m))" "env_est E (res_Output r) \<le> cfg_Budget (pc_config (pm_coordinator m))"
  shows "\<exists>r'. mgr_Process E now clk input mode ctx m = Some (Inr r', m') \<and> res_Output r' = res_Output r \<and>
    res_Chunks r' = 1 + len rest \<and> res_SavedTokens r' = env_est E input - env_est E (res_Output r)"
proof -
  have "pm_cache m = None" using reachable_mgr_inv [OF assms(1)] assms(2) by (simp add: mgr_inv_def)
  then have "mgr_Process E now clk input mode ctx m =
      processStreaming E clk input mode ctx (zeroProcessResult\<lparr>res_OriginalTokens := env_est E input\<rparr>) m"
    using assms(2,4,5) by (simp add: mgr_Process_def Let_def)
  then show ?thesis using assms(3,6-9) by (simp add: processStreaming_def Let_def)
qed

theorem short_circuit_drops_rest_witness:
  "\<exists>r' m'. mgr_Process demo_env 0 (\<lambda>_. 0) (join_lines [''first'', ''second'', ''third'']) ModeMinimal demo_ctx
      (NewPipelineManager heuristicTokens noop_lib ''/tmp'' ((demo_cfg 2)\<lparr>mc_CacheEnabled := False\<rparr>)) = Some (Inr r', m') \<and>
    res_Output r' = ''first'' \<and> res_Chunks r' = 3"
proof -
  let ?m = "NewPipelineManager heuristicTokens noop_lib ''/tmp'' ((demo_cfg 2)\<lparr>mc_CacheEnabled := False\<rparr>)"
  let ?p = "syncCoordinatorForRequest noop_lib ModeMinimal [] (pm_coordinator ?m)"
  let ?in = "join_lines [''first'', ''second'', ''third'']"
  have cfg: "pm_lruCache ?m = None" "mc_ShortCircuitBudget (pm_config ?m)" "mc_MaxContextTokens (pm_config ?m) = 100"
      "mc_StreamThreshold (pm_config ?m) = 3" "mc_ChunkSize (pm_config ?m) = 2"
      "mc_FailSafeMode (pm_config ?m)" "cfg_Budget (pc_config (pm_coordinator ?m)) = 2" "env_est demo_env = heuristicTokens"
      "env_lib demo_env = noop_lib" "cc_Intent demo_ctx = []"
    by (simp_all add: NewPipelineManager_def demo_cfg_def demo_env_def demo_ctx_def zeroPipelineConfig_def)
  have ch: "chunkInput heuristicTokens ?in 2 = ''first'' # [''second'', ''third'']" by code_simp
  have "pc_tfidfFilter ?p = None" "\<not> cfg_EnableTOMLFilter (pc_config ?p)" "cfg_Budget (pc_config ?p) = 2"
    by (simp_all add: NewPipelineManager_def demo_cfg_def syncCoordinatorForRequest_def buildLayers_def zeroPipelineConfig_def Let_def)
  moreover have est: "heuristicTokens ''first'' = 2" "heuristicTokens ?in = 5" by code_simp+
  ultimately obtain stats where run: "Process heuristicTokens (env_lower demo_env) ?p ''first'' = Some (''first'', stats, ?p)"
    using Process_within_budget [of ?p heuristicTokens "''first''" "env_lower demo_env"] by auto
  obtain r m' where one: "processSingle demo_env 0 ''first'' ModeMinimal demo_ctx zeroProcessResult ?m = Some (Inr r, m')"
      "res_Output r = ''first''"
    using processSingle_step [OF mgr_inv_New, where E = demo_env and mode = ModeMinimal and ctx = demo_ctx and now = 0 and
        input = "''first''" and result = zeroProcessResult] run cfg by (fastforce simp: settleOutput_output Let_def)
  show ?thesis
    using short_circuit_drops_rest [OF mgr_new cfg(1,2), where E = demo_env and input = ?in and chunk = "''first''" and
        rest = "[''second'', ''third'']" and clk = "\<lambda>_. 0" and now = 0 and mode = ModeMinimal and ctx = demo_ctx and r = r and m' = m']
      one cfg ch est by auto
qed

section \<open>Tee files\<close>

lemma contains_dots_app:
  assumes "c \<noteq> CHR ''.''"
  shows "contains (a @ c # b) ''..'' \<longleftrightarrow> contains a ''..'' \<or> contains b ''..''"
proof (induction a)
  case (Cons x a)
  then show ?case using assms by (cases a) auto
qed (use assms in auto)

lemma safeCommand_chars: "CHR ''/'' \<notin> set (safeCommand s) \<and> CHR 0x5C \<notin> set (safeCommand s) \<and> CHR '' '' \<notin> set (safeCommand s)"
  by (induction s rule: safeCommand.induct) auto

lemma safeCommand_dots: "\<not> contains (safeCommand s) ''..''"
proof (induction s rule: safeCommand.induct)
  case (2 c s)
  then show ?case by (cases s) (auto split: if_splits)
qed simp

text \<open>
  The name of a tee file cannot leave the tee directory, whatever the command line was:
  it has no path separator, of either kind, and no parent reference.
\<close>

theorem tee_filename_stays_inside:
  assumes "list_all (\<lambda>c. is_digit c \<or> c = CHR ''-'') stamp"
  shows "CHR ''/'' \<notin> set (tee_filename stamp ctx ''empty_output'') \<and>
    CHR 0x5C \<notin> set (tee_filename stamp ctx ''empty_output'') \<and>
    \<not> contains (tee_filename stamp ctx ''empty_output'') ''..''"
proof -
  have "\<not> (is_digit c \<or> c = CHR ''-'')" if "c \<in> {CHR ''.'', CHR ''/'', CHR 0x5C}" for c
    using that by (elim insertE emptyE) (simp_all add: is_digit_def)
  then have stamp: "CHR ''.'' \<notin> set stamp \<and> CHR ''/'' \<notin> set stamp \<and> CHR 0x5C \<notin> set stamp"
    using assms unfolding list_all_iff by blast
  have "\<not> contains stamp ''..''"
    using stamp by (auto simp: contains_iff)
  moreover have "\<not> contains ''tokman-tee'' ''..''" "\<not> contains ''empty_output.txt'' ''..''" by code_simp+
  moreover have "tee_filename stamp ctx ''empty_output'' =
      ''tokman-tee'' @ CHR ''-'' # stamp @ CHR ''-'' # safeCommand (cc_Command ctx) @ CHR ''-'' # ''empty_output.txt''"
    by (simp add: tee_filename_def)
  ultimately show ?thesis
    using stamp safeCommand_chars [of "cc_Command ctx"] safeCommand_dots [of "cc_Command ctx"]
    by (simp add: contains_dots_app del: contains.simps append.simps)
qed

theorem tee_filename_stays_inside_witness:
  "tee_filename ''20250101-000000'' (demo_ctx\<lparr>cc_Command := ''../../etc/passwd''\<rparr>) ''empty_output'' =
     ''tokman-tee-20250101-000000-____etc_passwd-empty_output.txt'' \<and>
   \<not> contains (tee_filename ''20250101-000000'' (demo_ctx\<lparr>cc_Command := ''../../etc/passwd''\<rparr>) ''empty_output'') ''..''"
proof -
  have "list_all (\<lambda>c. is_digit c \<or> c = CHR ''-'') ''20250101-000000''" by code_simp
  note safe = tee_filename_stays_inside [OF this, of "demo_ctx\<lparr>cc_Command := ''../../etc/passwd''\<rparr>"]
  have "tee_filename ''20250101-000000'' (demo_ctx\<lparr>cc_Command := ''../../etc/passwd''\<rparr>) ''empty_output'' =
     ''tokman-tee-20250101-000000-____etc_passwd-empty_output.txt''" by code_simp
  with safe show ?thesis by blast
qed

end
