(* ===== verification/Simd.thy ===== *)
theory Simd
  imports Go_Strings
begin

text \<open>
  The byte-scanning routines (\<^verbatim>\<open>internal/simd/simd.go\<close>, \<^verbatim>\<open>accelerator.go\<close>)
  and the ANSI filter on top of them (\<^verbatim>\<open>internal/filter/ansi.go\<close>). The code works with
  indices into byte slices; the properties relate it to the plain notions: a grammar of escape
  sequences, occurrences of a substring, words, and the lexicographic order.
\<close>

abbreviation byte :: "char \<Rightarrow> nat" where
  "byte c \<equiv> of_char c"

abbreviation ESC :: char where
  "ESC \<equiv> CHR 0x1B"

abbreviation BEL :: char where
  "BEL \<equiv> CHR 0x07"

abbreviation backslash :: char where
  "backslash \<equiv> CHR 0x5C"

section \<open>Escape sequences\<close>

definition is_param :: "char \<Rightarrow> bool" where
  "is_param c \<longleftrightarrow> 0x30 \<le> byte c \<and> byte c \<le> 0x3F"

definition is_intermediate :: "char \<Rightarrow> bool" where
  "is_intermediate c \<longleftrightarrow> 0x20 \<le> byte c \<and> byte c \<le> 0x2F"

definition is_final :: "char \<Rightarrow> bool" where
  "is_final c \<longleftrightarrow> 0x40 \<le> byte c \<and> byte c \<le> 0x7E"

function skip_while :: "(char \<Rightarrow> bool) \<Rightarrow> string \<Rightarrow> nat \<Rightarrow> nat" where
  "skip_while P data i = (if i < length data \<and> P (data ! i) then skip_while P data (i + 1) else i)"
  by pat_completeness auto
termination
  by (relation "measure (\<lambda>(_, data, i). length data - i)") auto

declare skip_while.simps [simp del]

definition skipCSI :: "string \<Rightarrow> nat \<Rightarrow> nat" where
  "skipCSI data pos =
     (if pos + 2 \<ge> length data then 0
      else let i = pos + 2;
               i = skip_while is_param data i;
               i = skip_while is_intermediate data i
           in if i < length data \<and> is_final (data ! i) then i - pos + 1 else 0)"

function osc_loop :: "string \<Rightarrow> nat \<Rightarrow> nat \<Rightarrow> nat" where
  "osc_loop data pos i =
     (if i < length data
      then if data ! i = BEL then i - pos + 1
           else if data ! i = ESC \<and> i + 1 < length data \<and> data ! (i + 1) = backslash then i - pos + 2
           else osc_loop data pos (i + 1)
      else 0)"
  by pat_completeness auto
termination
  by (relation "measure (\<lambda>(data, _, i). length data - i)") auto

declare osc_loop.simps [simp del]

definition skipOSC :: "string \<Rightarrow> nat \<Rightarrow> nat" where
  "skipOSC data pos = (if pos + 2 \<ge> length data then 0 else osc_loop data pos (pos + 2))"

definition skipANSISequence :: "string \<Rightarrow> nat \<Rightarrow> nat" where
  "skipANSISequence data pos =
     (if pos \<ge> length data \<or> data ! pos \<noteq> ESC then 0
      else if pos + 1 \<ge> length data then 0
      else let c = data ! (pos + 1)
           in if c = CHR ''['' then skipCSI data pos
              else if c = CHR '']'' then skipOSC data pos
              else if is_final c then 2
              else 0)"

function strip_loop :: "string \<Rightarrow> nat \<Rightarrow> string \<Rightarrow> string" where
  "strip_loop inputBytes i out =
     (if i < length inputBytes
      then let skip = (if inputBytes ! i = ESC then skipANSISequence inputBytes i else 0)
           in if skip > 0 then strip_loop inputBytes (i + skip) out
              else strip_loop inputBytes (i + 1) (out @ [inputBytes ! i])
      else out)"
  by pat_completeness auto
termination
  by (relation "measure (\<lambda>(data, i, _). length data - i)") auto

declare strip_loop.simps [simp del]

definition StripANSI :: "string \<Rightarrow> string" where
  "StripANSI input = (if length input = 0 then input else strip_loop input 0 [])"

section \<open>Bytes and substrings\<close>

fun index_where :: "(char \<Rightarrow> bool) \<Rightarrow> string \<Rightarrow> int \<Rightarrow> int" where
  "index_where P [] i = -1"
| "index_where P (c # s) i = (if P c then i else index_where P s (i + 1))"

fun count_where :: "(char \<Rightarrow> bool) \<Rightarrow> string \<Rightarrow> int \<Rightarrow> int" where
  "count_where P [] n = n"
| "count_where P (c # s) n = count_where P s (if P c then n + 1 else n)"

definition IndexByte :: "string \<Rightarrow> char \<Rightarrow> int" where
  "IndexByte s c = index_where (\<lambda>b. b = c) s 0"

definition HasANSI :: "string \<Rightarrow> bool" where
  "HasANSI input \<longleftrightarrow> IndexByte input ESC \<ge> 0"

text \<open>The lookup table of 256 booleans, as the function of its index.\<close>

definition lut :: "string \<Rightarrow> char \<Rightarrow> bool" where
  "lut bs = foldl (\<lambda>t c. t(c := True)) (\<lambda>_. False) bs"

definition IndexByteSet :: "string \<Rightarrow> string \<Rightarrow> int" where
  "IndexByteSet s bs = (if length bs = 0 \<or> length s = 0 then -1 else index_where (lut bs) s 0)"

definition CountByte :: "string \<Rightarrow> char \<Rightarrow> int" where
  "CountByte s c = count_where (\<lambda>b. b = c) s 0"

definition CountByteSet :: "string \<Rightarrow> string \<Rightarrow> int" where
  "CountByteSet s bs = (if length bs = 0 \<or> length s = 0 then 0 else count_where (lut bs) s 0)"

text \<open>The scan of \<^verbatim>\<open>indexSubstring\<close>, for the positions from \<open>i\<close> on.\<close>

function index_loop :: "string \<Rightarrow> string \<Rightarrow> nat \<Rightarrow> int" where
  "index_loop s substr i =
     (if i + length substr \<le> length s
      then if s ! i = substr ! 0 \<and> take (length substr) (drop i s) = substr then int i
           else index_loop s substr (i + 1)
      else -1)"
  by pat_completeness auto
termination
  by (relation "measure (\<lambda>(s, substr, i). Suc (length s) - i)") auto

declare index_loop.simps [simp del]

definition indexSubstring :: "string \<Rightarrow> string \<Rightarrow> int" where
  "indexSubstring s substr =
     (if length substr = 0 then 0 else if length substr > length s then -1 else index_loop s substr 0)"

fun any_substring :: "string \<Rightarrow> string list \<Rightarrow> bool" where
  "any_substring s [] = False"
| "any_substring s (sub # subs) =
     (if length sub = 0 then any_substring s subs
      else if indexSubstring s sub \<ge> 0 then True else any_substring s subs)"

definition ContainsAny :: "string \<Rightarrow> string list \<Rightarrow> bool" where
  "ContainsAny s substrs =
     (if length s = 0 \<or> length substrs = 0 then False else any_substring s substrs)"

section \<open>Words\<close>

definition IsWordChar :: "char \<Rightarrow> bool" where
  "IsWordChar c \<longleftrightarrow> byte CHR ''a'' \<le> byte c \<and> byte c \<le> byte CHR ''z'' \<or>
     byte CHR ''A'' \<le> byte c \<and> byte c \<le> byte CHR ''Z'' \<or>
     byte CHR ''0'' \<le> byte c \<and> byte c \<le> byte CHR ''9'' \<or> c = CHR ''_''"

definition IsWhitespace :: "char \<Rightarrow> bool" where
  "IsWhitespace c \<longleftrightarrow> c = CHR '' '' \<or> c = CHR 0x09 \<or> c = nl \<or> c = CHR 0x0D"

text \<open>\<open>start\<close> is -1 outside a word.\<close>

function words_loop :: "string \<Rightarrow> nat \<Rightarrow> int \<Rightarrow> string list \<Rightarrow> string list" where
  "words_loop s i start words =
     (if i < length s
      then if IsWhitespace (s ! i)
           then if start \<ge> 0
                then words_loop s (i + 1) (-1) (words @ [take (i - nat start) (drop (nat start) s)])
                else words_loop s (i + 1) start words
           else if start < 0 then words_loop s (i + 1) (int i) words
           else words_loop s (i + 1) start words
      else if start \<ge> 0 then words @ [drop (nat start) s] else words)"
  by pat_completeness auto
termination
  by (relation "measure (\<lambda>(s, i, _, _). length s - i)") auto

declare words_loop.simps [simp del]

definition SplitWords :: "string \<Rightarrow> string list" where
  "SplitWords s = (if length s = 0 then [] else words_loop s 0 (-1) [])"

function word_loop :: "string \<Rightarrow> string \<Rightarrow> nat \<Rightarrow> bool" where
  "word_loop s w i =
     (if i + length w \<le> length s
      then if s ! i = w ! 0 \<and> take (length w) (drop i s) = w \<and>
              (i = 0 \<or> \<not> IsWordChar (s ! (i - 1))) \<and>
              (i + length w = length s \<or> \<not> IsWordChar (s ! (i + length w)))
           then True else word_loop s w (i + 1)
      else False)"
  by pat_completeness auto
termination
  by (relation "measure (\<lambda>(s, w, i). Suc (length s) - i)") auto

declare word_loop.simps [simp del]

definition ContainsWord :: "string \<Rightarrow> string \<Rightarrow> bool" where
  "ContainsWord s w = (if length w = 0 \<or> length s < length w then False else word_loop s w 0)"

definition FindWordBoundary :: "string \<Rightarrow> nat \<Rightarrow> nat" where
  "FindWordBoundary s pos = skip_while IsWordChar s pos"

section \<open>Brackets and memory\<close>

record BracketPair =
  bp_Open :: char
  bp_Close :: char

definition DefaultBracketPairs :: "BracketPair list" where
  "DefaultBracketPairs =
     [\<lparr>bp_Open = CHR ''{'', bp_Close = CHR ''}''\<rparr>, \<lparr>bp_Open = CHR ''['', bp_Close = CHR '']''\<rparr>,
      \<lparr>bp_Open = CHR ''('', bp_Close = CHR '')''\<rparr>, \<lparr>bp_Open = CHR ''<'', bp_Close = CHR ''>''\<rparr>]"

definition CountBrackets :: "string \<Rightarrow> BracketPair list \<Rightarrow> int \<times> int" where
  "CountBrackets s pairs =
     (let pairs = (if length pairs = 0 then DefaultBracketPairs else pairs)
      in (CountByteSet s (map bp_Open pairs), CountByteSet s (map bp_Close pairs)))"

definition Memset :: "string \<Rightarrow> char \<Rightarrow> string" where
  "Memset buf c = map (\<lambda>_. c) buf"

function memcmp_loop :: "string \<Rightarrow> string \<Rightarrow> nat \<Rightarrow> nat \<Rightarrow> int" where
  "memcmp_loop a b n i =
     (if i < n
      then if byte (a ! i) < byte (b ! i) then -1
           else if byte (a ! i) > byte (b ! i) then 1
           else memcmp_loop a b n (i + 1)
      else if length a < length b then -1
      else if length a > length b then 1
      else 0)"
  by pat_completeness auto
termination
  by (relation "measure (\<lambda>(_, _, n, i). n - i)") auto

declare memcmp_loop.simps [simp del]

definition Memcmp :: "string \<Rightarrow> string \<Rightarrow> int" where
  "Memcmp a b = (let n = length a; n = (if length b < n then length b else n) in memcmp_loop a b n 0)"

section \<open>The accelerator\<close>

record SIMDAccelerator =
  sa_avx2 :: bool
  sa_avx512 :: bool
  sa_neon :: bool

definition NewSIMDAccelerator :: "string \<Rightarrow> SIMDAccelerator" where
  "NewSIMDAccelerator goarch =
     \<lparr>sa_avx2 = (goarch = ''amd64''), sa_avx512 = (goarch = ''amd64''), sa_neon = (goarch = ''arm64'')\<rparr>"

definition HasSIMD :: "SIMDAccelerator \<Rightarrow> bool" where
  "HasSIMD s \<longleftrightarrow> sa_avx2 s \<or> sa_avx512 s \<or> sa_neon s"

definition CountBytes :: "string \<Rightarrow> char \<Rightarrow> int" where
  "CountBytes data target = count_where (\<lambda>b. b = target) data 0"

definition FindByte :: "string \<Rightarrow> char \<Rightarrow> int" where
  "FindByte data target = index_where (\<lambda>b. b = target) data 0"

definition CompareBytes :: "string \<Rightarrow> string \<Rightarrow> bool" where
  "CompareBytes a b = (if length a \<noteq> length b then False else list_all (\<lambda>(x, y). x = y) (zip a b))"

section \<open>The ANSI filter\<close>

definition ansi_Apply :: "string \<Rightarrow> string \<times> int" where
  "ansi_Apply input =
     (let original = len input;
          out = StripANSI input;
          bytesSaved = original - len out
      in (out, go_div bytesSaved 4))"

section \<open>Scans as list functions\<close>

lemma skip_while_eq:
  "i \<le> length data \<Longrightarrow> skip_while P data i = i + length (takeWhile P (drop i data))"
proof (induction P data i rule: skip_while.induct)
  case (1 P data i)
  show ?case
  proof (cases "i < length data")
    case True
    then have "drop i data = data ! i # drop (Suc i) data" by (simp add: Cons_nth_drop_Suc)
    then show ?thesis using True 1 by (simp add: skip_while.simps [of P data i])
  next
    case False
    then show ?thesis using 1 by (subst skip_while.simps) simp
  qed
qed

lemma index_where_eq:
  "index_where P s i = (if \<exists>c \<in> set s. P c then i + int (length (takeWhile (\<lambda>c. \<not> P c) s)) else -1)"
  by (induction s arbitrary: i) auto

lemma count_where_eq: "count_where P s n = n + int (length (filter P s))"
  by (induction s arbitrary: n) auto

lemma lut_iff: "lut bs c \<longleftrightarrow> c \<in> set bs"
proof -
  have "foldl (\<lambda>t c. t(c := True)) t bs c \<longleftrightarrow> t c \<or> c \<in> set bs" for t
    by (induction bs arbitrary: t) auto
  then show ?thesis by (simp add: lut_def)
qed

lemma CountByteSet_eq: "CountByteSet s bs = int (length (filter (\<lambda>c. c \<in> set bs) s))"
  by (auto simp: CountByteSet_def count_where_eq lut_iff [abs_def] intro: arg_cong [where f = length] filter_cong)

lemma CountByte_count: "CountByte s c = int (count_list s c)"
  by (induction s) (simp_all add: CountByte_def count_where_eq)

lemma HasANSI_iff: "HasANSI s \<longleftrightarrow> ESC \<in> set s"
  by (auto simp: HasANSI_def IndexByte_def index_where_eq)

section \<open>The grammar of escape sequences\<close>

text \<open>A control sequence, an operating system command ended by a bell or by ESC backslash,
  and a two-character escape.\<close>

definition csi_sequence :: "string \<Rightarrow> bool" where
  "csi_sequence q \<longleftrightarrow> (\<exists>ps ms f. q = ESC # CHR ''['' # ps @ ms @ [f] \<and>
     list_all is_param ps \<and> list_all is_intermediate ms \<and> is_final f)"

definition osc_sequence :: "string \<Rightarrow> bool" where
  "osc_sequence q \<longleftrightarrow> (\<exists>body fin. q = ESC # CHR '']'' # body @ fin \<and> BEL \<notin> set body \<and>
     \<not> contains body [ESC, backslash] \<and> (fin = [BEL] \<or> fin = [ESC, backslash]))"

definition short_sequence :: "string \<Rightarrow> bool" where
  "short_sequence q \<longleftrightarrow> (\<exists>c. q = [ESC, c] \<and> is_final c \<and> c \<noteq> CHR ''['' \<and> c \<noteq> CHR '']'')"

definition ansi_sequence :: "string \<Rightarrow> bool" where
  "ansi_sequence q \<longleftrightarrow> csi_sequence q \<or> osc_sequence q \<or> short_sequence q"

text \<open>The length of the sequence a text begins with, 0 for none: the scans on lists.\<close>

definition csi_len :: "string \<Rightarrow> nat" where
  "csi_len s = (let r = dropWhile is_intermediate (dropWhile is_param s)
     in if r \<noteq> [] \<and> is_final (hd r) then 3 + (length s - length r) else 0)"

fun osc_len :: "string \<Rightarrow> nat \<Rightarrow> nat" where
  "osc_len [] n = 0"
| "osc_len (c # s) n =
     (if c = BEL then n + 1 else if c = ESC \<and> s \<noteq> [] \<and> hd s = backslash then n + 2 else osc_len s (n + 1))"

fun ansi_len :: "string \<Rightarrow> nat" where
  "ansi_len (e # c # s) =
     (if e \<noteq> ESC then 0 else if c = CHR ''['' then csi_len s else if c = CHR '']'' then osc_len s 2
      else if is_final c then 2 else 0)"
| "ansi_len _ = 0"

lemma skipCSI_len: "pos + 2 \<le> length data \<Longrightarrow> skipCSI data pos = csi_len (drop (pos + 2) data)"
proof -
  assume le: "pos + 2 \<le> length data"
  let ?s = "drop (pos + 2) data"
  define i where "i = pos + 2 + length (takeWhile is_param ?s)"
  define j where "j = i + length (takeWhile is_intermediate (drop i data))"
  have i: "skip_while is_param data (pos + 2) = i" using le by (simp add: skip_while_eq i_def)
  have d1: "drop i data = dropWhile is_param ?s"
    by (simp add: i_def dropWhile_eq_drop add.commute)
  have "length (takeWhile is_param ?s) \<le> length ?s" by (rule length_takeWhile_le)
  then have il: "i \<le> length data" using le by (simp add: i_def)
  have j: "skip_while is_intermediate data i = j" using il by (simp add: skip_while_eq j_def)
  have d2: "drop j data = dropWhile is_intermediate (dropWhile is_param ?s)"
    unfolding d1 [symmetric] by (simp add: j_def dropWhile_eq_drop add.commute)
  have "length (takeWhile is_intermediate (drop i data)) \<le> length (drop i data)" by (rule length_takeWhile_le)
  then have jl: "j \<le> length data" "pos + 2 \<le> j" using il by (simp_all add: j_def i_def)
  have "length data - (pos + 2) - (length data - j) = j - (pos + 2)" using jl by simp
  then show ?thesis
    using le jl unfolding skipCSI_def csi_len_def Let_def i j d2 [symmetric]
    by (auto simp: hd_drop_conv_nth)
qed

lemma osc_loop_len: "pos \<le> i \<Longrightarrow> osc_loop data pos i = osc_len (drop i data) (i - pos)"
proof (induction data pos i rule: osc_loop.induct)
  case (1 data pos i)
  show ?case
  proof (cases "i < length data")
    case True
    have d: "drop i data = data ! i # drop (Suc i) data" using True by (simp add: Cons_nth_drop_Suc)
    have h: "drop (Suc i) data \<noteq> [] \<and> hd (drop (Suc i) data) = backslash \<longleftrightarrow>
        i + 1 < length data \<and> data ! (i + 1) = backslash" by (auto simp: hd_drop_conv_nth)
    show ?thesis using True 1 h unfolding d by (subst osc_loop.simps) (auto simp: Suc_diff_le)
  next
    case False
    then show ?thesis by (subst osc_loop.simps) simp
  qed
qed

lemma skipANSISequence_len: "skipANSISequence data pos = ansi_len (drop pos data)"
proof (cases "pos + 1 < length data")
  case True
  have d: "drop pos data = data ! pos # data ! (pos + 1) # drop (pos + 2) data"
    using True by (simp add: Cons_nth_drop_Suc)
  have "skipOSC data pos = osc_len (drop (pos + 2) data) 2"
    using True osc_loop_len [of pos "pos + 2" data] by (simp add: skipOSC_def)
  then show ?thesis unfolding d using True skipCSI_len [of pos data] by (simp add: skipANSISequence_def Let_def)
next
  case False
  then have "length (drop pos data) \<le> 1" by simp
  then have "ansi_len (drop pos data) = 0" by (cases "drop pos data" rule: ansi_len.cases) auto
  then show ?thesis using False by (auto simp: skipANSISequence_def)
qed

text \<open>The scans accept exactly the grammar.\<close>

lemma classes_disjoint:
  "is_param c \<Longrightarrow> \<not> is_intermediate c" "is_param c \<Longrightarrow> \<not> is_final c" "is_intermediate c \<Longrightarrow> \<not> is_final c"
  by (simp_all add: is_param_def is_intermediate_def is_final_def)

lemma csi_len_app:
  assumes "list_all is_param ps" "list_all is_intermediate ms" "is_final f"
  shows "csi_len (ps @ ms @ f # t) = length ps + length ms + 3"
proof -
  have "\<not> is_param (hd (ms @ f # t))"
    using assms(2,3) classes_disjoint by (cases ms) auto
  then have "dropWhile is_param (ps @ ms @ f # t) = ms @ f # t"
    using assms(1) by (cases "ms @ f # t") (auto simp: dropWhile_append2 list_all_iff)
  moreover have "dropWhile is_intermediate (ms @ f # t) = f # t"
    using assms(2,3) classes_disjoint by (auto simp: dropWhile_append2 list_all_iff)
  ultimately show ?thesis using assms(3) by (simp add: csi_len_def)
qed

lemma csi_len_split:
  assumes "0 < csi_len s"
  obtains ps ms f t where "s = ps @ ms @ f # t" "list_all is_param ps" "list_all is_intermediate ms" "is_final f"
proof -
  let ?r = "dropWhile is_param s"
  obtain f t where f: "dropWhile is_intermediate ?r = f # t" "is_final f"
    using assms by (cases "dropWhile is_intermediate ?r") (auto simp: csi_len_def Let_def split: if_splits)
  have "s = takeWhile is_param s @ takeWhile is_intermediate ?r @ f # t"
    by (metis f(1) takeWhile_dropWhile_id)
  then show ?thesis using f(2) by (intro that) (auto simp: list_all_iff dest: set_takeWhileD)
qed

lemma osc_len_app:
  assumes "BEL \<notin> set body" "\<not> contains body [ESC, backslash]" "fin = [BEL] \<or> fin = [ESC, backslash]"
  shows "osc_len (body @ fin @ t) n = n + length body + length fin"
  using assms(1,2)
proof (induction body arbitrary: n)
  case (Cons c body)
  moreover have "\<not> (c = ESC \<and> hd (body @ fin @ t) = backslash)"
    using Cons.prems(2) assms(3) by (cases body) auto
  ultimately show ?case by auto
qed (use assms(3) in auto)

lemmas osc_len_bel = osc_len_app [where fin = "[BEL]", simplified]
lemmas osc_len_st = osc_len_app [where fin = "[ESC, backslash]", simplified]

lemma osc_len_split:
  assumes "0 < osc_len s n"
  obtains body fin t where "s = body @ fin @ t" "BEL \<notin> set body" "\<not> contains body [ESC, backslash]"
    "fin = [BEL] \<or> fin = [ESC, backslash]"
  using assms
proof (induction s arbitrary: n thesis)
  case (Cons c s)
  consider "c = BEL" | t where "c = ESC" "s = backslash # t" | "c \<noteq> BEL" "\<not> (c = ESC \<and> s \<noteq> [] \<and> hd s = backslash)"
    by (cases s) auto
  then show ?case
  proof cases
    case 1
    then show ?thesis using Cons.prems(1) [of "[]" "[BEL]" s] by simp
  next
    case 2
    then show ?thesis using Cons.prems(1) [of "[]" "[ESC, backslash]" t] by simp
  next
    case 3
    then have "0 < osc_len s (n + 1)" using Cons.prems(2) by auto
    from Cons.IH [OF _ this] obtain body fin t where
      b: "s = body @ fin @ t" "BEL \<notin> set body" "\<not> contains body [ESC, backslash]"
      "fin = [BEL] \<or> fin = [ESC, backslash]" by blast
    moreover have "\<not> has_prefix (c # body) [ESC, backslash]" using 3(2) b(1) by (cases body) auto
    ultimately show ?thesis using Cons.prems(1) [of "c # body" fin t] 3(1) by simp
  qed
qed simp

lemma ansi_len_sequence: "ansi_sequence q \<Longrightarrow> ansi_len (q @ t) = length q \<and> 0 < length q"
  unfolding ansi_sequence_def csi_sequence_def osc_sequence_def short_sequence_def
  by (elim disjE exE conjE) (simp_all add: csi_len_app osc_len_bel osc_len_st)

lemma ansi_len_split:
  assumes "0 < ansi_len s"
  obtains q t where "s = q @ t" "ansi_sequence q"
proof (cases s rule: ansi_len.cases)
  case (1 e c s')
  then have [simp]: "e = ESC" using assms by (auto split: if_splits)
  consider "c = CHR ''[''" "0 < csi_len s'" | "c = CHR '']''" "0 < osc_len s' 2"
    | "c \<noteq> CHR ''[''" "c \<noteq> CHR '']''" "is_final c" using assms 1 by (auto split: if_splits)
  then show ?thesis
  proof cases
    case a: 1
    then obtain ps ms f t where sp: "s' = ps @ ms @ f # t" "list_all is_param ps" "list_all is_intermediate ms" "is_final f"
      using csi_len_split by metis
    then have "csi_sequence (ESC # CHR ''['' # ps @ ms @ [f])" unfolding csi_sequence_def by blast
    then show ?thesis using that [of "ESC # CHR ''['' # ps @ ms @ [f]" t] 1 a sp by (simp add: ansi_sequence_def)
  next
    case b: 2
    then obtain body fin t where sp: "s' = body @ fin @ t" "BEL \<notin> set body" "\<not> contains body [ESC, backslash]"
      "fin = [BEL] \<or> fin = [ESC, backslash]" using osc_len_split by metis
    then have "osc_sequence (ESC # CHR '']'' # body @ fin)" unfolding osc_sequence_def by blast
    then show ?thesis using that [of "ESC # CHR '']'' # body @ fin" t] 1 b sp by (simp add: ansi_sequence_def)
  next
    case c: 3
    then have "short_sequence [ESC, c]" by (simp add: short_sequence_def)
    then show ?thesis using that [of "[ESC, c]" s'] 1 by (simp add: ansi_sequence_def)
  qed
qed (use assms in auto)

section \<open>Stripping\<close>

text \<open>What stripping means: from the left, a sequence of the grammar is removed and any other
  character is kept.\<close>

inductive strips :: "string \<Rightarrow> string \<Rightarrow> bool" where
  strips_nil: "strips [] []"
| strips_seq: "ansi_sequence q \<Longrightarrow> strips s t \<Longrightarrow> strips (q @ s) t"
| strips_char: "\<nexists>q s'. ansi_sequence q \<and> c # s = q @ s' \<Longrightarrow> strips s t \<Longrightarrow> strips (c # s) (c # t)"

lemma strip_loop_out: "i \<le> length data \<Longrightarrow> \<exists>t. strip_loop data i out = out @ t \<and> strips (drop i data) t"
proof (induction data i out rule: strip_loop.induct)
  case (1 data i out)
  show ?case
  proof (cases "i < length data")
    case True
    let ?n = "ansi_len (drop i data)"
    have d: "drop i data = data ! i # drop (i + 1) data" using True by (simp add: Cons_nth_drop_Suc)
    have skip: "(if data ! i = ESC then skipANSISequence data i else 0) = ?n"
      unfolding skipANSISequence_len d by (cases "drop (i + 1) data") auto
    show ?thesis
    proof (cases "0 < ?n")
      case seq: True
      then obtain q t where q: "drop i data = q @ t" "ansi_sequence q" by (rule ansi_len_split)
      then have n: "?n = length q" using ansi_len_sequence by simp
      then have t: "drop (i + length q) data = t" using q(1) by (metis add.commute append_eq_conv_conj drop_drop)
      have "i + length q \<le> length data"
        using arg_cong [OF q(1), of length] True by simp
      from 1(1) [OF True skip [symmetric] seq this [folded n]] obtain u where
        "strip_loop data (i + ?n) out = out @ u" "strips t u" using seq skip t n by auto
      then show ?thesis using True seq skip strips_seq [OF q(2)] q(1)
        by (intro exI [of _ u]) (subst strip_loop.simps, simp)
    next
      case no: False
      then have none: "\<nexists>q s'. ansi_sequence q \<and> data ! i # drop (i + 1) data = q @ s'"
        using ansi_len_sequence unfolding d by fastforce
      obtain u where "strip_loop data (i + 1) (out @ [data ! i]) = (out @ [data ! i]) @ u" "strips (drop (i + 1) data) u"
        using 1(2) [OF True skip [symmetric] no] True by auto
      then show ?thesis using True no skip strips_char [OF none] unfolding d
        by (intro exI [of _ "data ! i # u"]) (subst strip_loop.simps, simp)
    qed
  next
    case False
    then show ?thesis using 1(3) strips_nil by (subst strip_loop.simps) simp
  qed
qed

lemma strips_unique: "strips s t \<Longrightarrow> strips s u \<Longrightarrow> u = t"
proof (induction arbitrary: u rule: strips.induct)
  case strips_nil
  then show ?case by (cases rule: strips.cases) (auto dest: ansi_len_sequence)
next
  case (strips_seq q s t)
  from strips_seq.prems show ?case
  proof (cases rule: strips.cases)
    case strips_nil
    then show ?thesis using ansi_len_sequence [OF strips_seq.hyps(1)] by auto
  next
    case inner: (strips_seq q' s')
    have "length q = length q'"
      using ansi_len_sequence [OF strips_seq.hyps(1), of s] ansi_len_sequence [OF inner(2), of s'] inner(1) by simp
    then show ?thesis using inner strips_seq.IH by (simp add: append_eq_append_conv)
  next
    case (strips_char c s' t')
    then show ?thesis using strips_seq.hyps(1) by metis
  qed
next
  case (strips_char c s t)
  from strips_char.prems show ?case
  proof (cases rule: strips.cases)
    case (strips_seq q s')
    then show ?thesis using strips_char.hyps(1) by metis
  next
    case inner: (strips_char t')
    then show ?thesis using strips_char.IH by simp
  qed
qed

text \<open>
  C36: \<^verbatim>\<open>StripANSI\<close> removes exactly the escape sequences: its index scan returns the
  one text that results from reading the input from the left, removing every control sequence,
  operating system command and two-character escape of the grammar and keeping everything else.
  In particular the scan always ends, and never reads past the end.
\<close>

theorem StripANSI_removes_sequences: "strips s t \<longleftrightarrow> StripANSI s = t"
proof -
  have "strips s (StripANSI s)"
    using strip_loop_out [of 0 s "[]"] strips_nil by (auto simp: StripANSI_def)
  then show ?thesis using strips_unique by blast
qed

text \<open>
  One pass is not enough. Removing a sequence can put an escape character that stood
  alone in front of text that completes it, so a text can be written whose stripped form is
  itself an escape sequence; the terminal would execute it.
\<close>

theorem StripANSI_can_expose:
  "StripANSI (ESC # ESC # ''[0m[31mred'') = ESC # ''[31mred'' \<and> ansi_sequence (ESC # ''[31m'') \<and>
   StripANSI (StripANSI (ESC # ESC # ''[0m[31mred'')) = ''red''"
proof -
  have "list_all is_param ''31''" "is_final (CHR ''m'')" by code_simp+
  then have "csi_sequence (ESC # CHR ''['' # ''31'' @ [] @ [CHR ''m''])"
    unfolding csi_sequence_def by (intro exI conjI) (rule refl, simp_all)
  then have "ansi_sequence (ESC # ''[31m'')" by (simp add: ansi_sequence_def)
  moreover have "StripANSI (ESC # ESC # ''[0m[31mred'') = ESC # ''[31mred''" "StripANSI (ESC # ''[31mred'') = ''red''"
    by code_simp+
  ultimately show ?thesis by simp
qed

section \<open>Words and substrings\<close>

definition occurs_at :: "string \<Rightarrow> string \<Rightarrow> nat \<Rightarrow> bool" where
  "occurs_at s w i \<longleftrightarrow> i + length w \<le> length s \<and> take (length w) (drop i s) = w"

lemma occurs_at_first: "w \<noteq> [] \<Longrightarrow> occurs_at s w i \<Longrightarrow> s ! i = w ! 0"
  unfolding occurs_at_def by (metis add_lessD1 length_greater_0_conv less_le_trans nat_add_left_cancel_less nth_drop nth_take
      add.right_neutral less_imp_le_nat)

lemma occurs_at_split: "occurs_at s w i \<longleftrightarrow> (\<exists>u v. s = u @ w @ v \<and> length u = i)"
proof
  assume "occurs_at s w i"
  then have "s = take i s @ w @ drop (length w) (drop i s)" "length (take i s) = i"
    unfolding occurs_at_def by (metis append_take_drop_id, simp)
  then show "\<exists>u v. s = u @ w @ v \<and> length u = i" by blast
qed (auto simp: occurs_at_def)

lemma from_step: "(\<exists>j\<ge>i. P j) \<longleftrightarrow> P i \<or> (\<exists>j\<ge>i + 1. P j)" for i :: nat
  by (metis Suc_eq_plus1 Suc_leD le_eq_less_or_eq less_eq_Suc_le order_refl)

definition word_bounded :: "string \<Rightarrow> string \<Rightarrow> nat \<Rightarrow> bool" where
  "word_bounded s w j \<longleftrightarrow> (j = 0 \<or> \<not> IsWordChar (s ! (j - 1))) \<and>
     (j + length w = length s \<or> \<not> IsWordChar (s ! (j + length w)))"

lemma word_loop_iff:
  "w \<noteq> [] \<Longrightarrow> word_loop s w i \<longleftrightarrow> (\<exists>j\<ge>i. occurs_at s w j \<and> word_bounded s w j)"
proof (induction s w i rule: word_loop.induct)
  case (1 s w i)
  show ?case
  proof (cases "i + length w \<le> length s")
    case True
    have "(s ! i = w ! 0 \<and> take (length w) (drop i s) = w \<and> (i = 0 \<or> \<not> IsWordChar (s ! (i - 1))) \<and>
        (i + length w = length s \<or> \<not> IsWordChar (s ! (i + length w)))) \<longleftrightarrow> occurs_at s w i \<and> word_bounded s w i"
      using True occurs_at_first [OF 1(2), of s i] by (auto simp: occurs_at_def word_bounded_def)
    then show ?thesis using True 1 by (subst word_loop.simps, subst from_step) auto
  next
    case False
    then show ?thesis by (subst word_loop.simps) (auto simp: occurs_at_def)
  qed
qed

lemma index_loop_iff:
  "w \<noteq> [] \<Longrightarrow> (index_loop s w i = -1 \<longleftrightarrow> (\<forall>j\<ge>i. \<not> occurs_at s w j)) \<and>
     (index_loop s w i \<noteq> -1 \<longrightarrow> (\<exists>j\<ge>i. index_loop s w i = int j \<and> occurs_at s w j \<and> (\<forall>k. i \<le> k \<and> k < j \<longrightarrow> \<not> occurs_at s w k)))"
proof (induction s w i rule: index_loop.induct)
  case (1 s w i)
  show ?case
  proof (cases "i + length w \<le> length s")
    case True
    have cond: "(s ! i = w ! 0 \<and> take (length w) (drop i s) = w) \<longleftrightarrow> occurs_at s w i"
      using True occurs_at_first [OF 1(2), of s i] by (auto simp: occurs_at_def)
    show ?thesis
    proof (cases "occurs_at s w i")
      case here: True
      then have "index_loop s w i = int i" using True cond by (subst index_loop.simps) simp
      then show ?thesis using here by auto
    next
      case False
      then have eq: "index_loop s w i = index_loop s w (i + 1)" using True cond by (subst index_loop.simps) auto
      have later: "i + 1 \<le> k" if "i \<le> k" "occurs_at s w k" for k
        using that False by (cases "k = i") auto
      have all: "(\<forall>j\<ge>i. \<not> occurs_at s w j) \<longleftrightarrow> (\<forall>j\<ge>i + 1. \<not> occurs_at s w j)"
        using False by (metis Suc_eq_plus1 Suc_leD later)
      have IH: "(index_loop s w (i + 1) = -1 \<longleftrightarrow> (\<forall>j\<ge>i + 1. \<not> occurs_at s w j)) \<and>
          (index_loop s w (i + 1) \<noteq> -1 \<longrightarrow> (\<exists>j\<ge>i + 1. index_loop s w (i + 1) = int j \<and> occurs_at s w j \<and>
            (\<forall>k. i + 1 \<le> k \<and> k < j \<longrightarrow> \<not> occurs_at s w k)))"
        using 1(1) [OF True] 1(2) False cond by blast
      show ?thesis unfolding eq all
      proof (intro conjI impI)
        show "index_loop s w (i + 1) = -1 \<longleftrightarrow> (\<forall>j\<ge>i + 1. \<not> occurs_at s w j)" using IH by blast
        assume "index_loop s w (i + 1) \<noteq> -1"
        then obtain j where j: "i + 1 \<le> j" "index_loop s w (i + 1) = int j" "occurs_at s w j"
          "\<forall>k. i + 1 \<le> k \<and> k < j \<longrightarrow> \<not> occurs_at s w k" using IH by blast
        then show "\<exists>j\<ge>i. index_loop s w (i + 1) = int j \<and> occurs_at s w j \<and>
            (\<forall>k. i \<le> k \<and> k < j \<longrightarrow> \<not> occurs_at s w k)"
          using later by (intro exI [of _ j]) auto
      qed
    qed
  next
    case False
    then show ?thesis by (subst (1 2 3) index_loop.simps) (auto simp: occurs_at_def)
  qed
qed

lemma contains_occurs: "contains s w \<longleftrightarrow> (\<exists>j. occurs_at s w j)"
  by (auto simp: contains_iff occurs_at_split)

lemma indexSubstring_found: "w \<noteq> [] \<Longrightarrow> indexSubstring s w \<ge> 0 \<longleftrightarrow> contains s w"
proof -
  assume ne: "w \<noteq> []"
  have "index_loop s w 0 \<ge> 0 \<longleftrightarrow> contains s w"
    using index_loop_iff [OF ne, of s 0] by (auto simp: contains_occurs)
  moreover have "contains s w \<Longrightarrow> length w \<le> length s" by (auto simp: contains_iff)
  ultimately show ?thesis using ne by (auto simp: indexSubstring_def)
qed

lemma any_substring_iff: "any_substring s subs \<longleftrightarrow> (\<exists>w \<in> set subs. w \<noteq> [] \<and> contains s w)"
  by (induction subs) (auto simp: indexSubstring_found)

text \<open>
  The multi-pattern search finds a pattern exactly when one of the non-empty patterns occurs.
\<close>

theorem ContainsAny_iff: "ContainsAny s subs \<longleftrightarrow> (\<exists>w \<in> set subs. w \<noteq> [] \<and> contains s w)"
  by (auto simp: ContainsAny_def any_substring_iff)

text \<open>
  C1: \<^verbatim>\<open>ContainsWord\<close> finds a word exactly when the text has an occurrence of it with no
  word character before it and none after it; the empty word is never found.
\<close>

theorem ContainsWord_iff:
  "ContainsWord s w \<longleftrightarrow> w \<noteq> [] \<and> (\<exists>u v. s = u @ w @ v \<and>
     (u = [] \<or> \<not> IsWordChar (last u)) \<and> (v = [] \<or> \<not> IsWordChar (hd v)))"
proof (cases "w = []")
  case False
  have split: "word_bounded (u @ w @ v) w (length u) \<longleftrightarrow>
      (u = [] \<or> \<not> IsWordChar (last u)) \<and> (v = [] \<or> \<not> IsWordChar (hd v))" for u v
    by (auto simp: word_bounded_def nth_append last_conv_nth hd_conv_nth)
  have "ContainsWord s w \<longleftrightarrow> (\<exists>j. occurs_at s w j \<and> word_bounded s w j)"
    using False word_loop_iff [OF False, of s 0] by (auto simp: ContainsWord_def occurs_at_def)
  also have "\<dots> \<longleftrightarrow> (\<exists>u v. s = u @ w @ v \<and> word_bounded s w (length u))"
    by (auto simp: occurs_at_split)
  finally show ?thesis using False split by auto
qed (simp add: ContainsWord_def)

text \<open>Words as the parts between whitespace.\<close>

fun ws_split :: "string \<Rightarrow> string list" where
  "ws_split [] = [[]]"
| "ws_split (c # s) =
     (if IsWhitespace c then [] # ws_split s else (c # hd (ws_split s)) # tl (ws_split s))"

lemma ws_split_nonempty [simp]: "ws_split s \<noteq> []"
  by (cases s) auto

lemma take_extend: "j < length s \<Longrightarrow> k \<le> j \<Longrightarrow> take (j - k) (drop k s) @ [s ! j] = take (Suc j - k) (drop k s)"
  by (simp add: Suc_diff_le take_Suc_conv_app_nth)

lemma words_loop_eq:
  assumes "i \<le> length s" "start < int i" "-1 \<le> start"
  shows "words_loop s i start words = words @
    (if start < 0 then filter (\<lambda>w. w \<noteq> []) (ws_split (drop i s))
     else (take (i - nat start) (drop (nat start) s) @ hd (ws_split (drop i s))) #
       filter (\<lambda>w. w \<noteq> []) (tl (ws_split (drop i s))))"
  using assms
proof (induction s i start words rule: words_loop.induct)
  case (1 s i start words)
  show ?case
  proof (cases "i < length s")
    case False
    then show ?thesis using 1(5-7) by (subst words_loop.simps) auto
  next
    case True
    let ?t = "ws_split (drop (i + 1) s)"
    have d: "drop i s = s ! i # drop (i + 1) s" using True by (simp add: Cons_nth_drop_Suc)
    show ?thesis
    proof (cases "IsWhitespace (s ! i)")
      case ws: True
      then show ?thesis
      proof (cases "0 \<le> start")
        case w: True
        have "words_loop s i start words =
            words_loop s (i + 1) (-1) (words @ [take (i - nat start) (drop (nat start) s)])"
          using True ws w by (subst words_loop.simps) simp
        then show ?thesis using 1(1) [OF True ws w] True ws w unfolding d by simp
      next
        case w: False
        have "words_loop s i start words = words_loop s (i + 1) start words"
          using True ws w by (subst words_loop.simps) simp
        then show ?thesis using 1(2) [OF True ws w] 1(6,7) True ws w unfolding d by simp
      qed
    next
      case ws: False
      show ?thesis
      proof (cases "start < 0")
        case w: True
        have "words_loop s i start words = words_loop s (i + 1) (int i) words"
          using True ws w by (subst words_loop.simps) simp
        then show ?thesis using 1(3) [OF True ws w] True ws w unfolding d
          by (simp add: take_Suc_conv_app_nth)
      next
        case w: False
        have "words_loop s i start words = words_loop s (i + 1) start words"
          using True ws w by (subst words_loop.simps) simp
        moreover have "take (i - nat start) (drop (nat start) s) @ [s ! i] = take (i + 1 - nat start) (drop (nat start) s)"
          using take_extend [OF True, of "nat start"] 1(6) w by simp
        ultimately show ?thesis using 1(4) [OF True ws w] 1(6,7) True ws w unfolding d by simp
      qed
    qed
  qed
qed

text \<open>
  C1: \<^verbatim>\<open>SplitWords\<close> returns the non-empty parts between whitespace characters, in order.
\<close>

theorem SplitWords_eq: "SplitWords s = filter (\<lambda>w. w \<noteq> []) (ws_split s)"
  using words_loop_eq [of 0 s "-1" "[]"] by (auto simp: SplitWords_def)

section \<open>Comparison\<close>

fun cmp_list :: "string \<Rightarrow> string \<Rightarrow> int" where
  "cmp_list [] [] = 0"
| "cmp_list [] (_ # _) = -1"
| "cmp_list (_ # _) [] = 1"
| "cmp_list (x # a) (y # b) = (if byte x < byte y then -1 else if byte x > byte y then 1 else cmp_list a b)"

lemma memcmp_loop_eq:
  "i \<le> n \<Longrightarrow> n = min (length a) (length b) \<Longrightarrow> memcmp_loop a b n i = cmp_list (drop i a) (drop i b)"
proof (induction a b n i rule: memcmp_loop.induct)
  case (1 a b n i)
  show ?case
  proof (cases "i < n")
    case True
    then have "drop i a = a ! i # drop (i + 1) a" "drop i b = b ! i # drop (i + 1) b"
      using 1(3) by (simp_all add: Cons_nth_drop_Suc)
    then show ?thesis using True 1 by (subst memcmp_loop.simps) auto
  next
    case False
    then have "i = n" using 1(2) by simp
    then show ?thesis using 1(3)
      by (subst memcmp_loop.simps) (cases "drop i a"; cases "drop i b"; auto simp: min_def split: if_splits)
  qed
qed

text \<open>
  C1: \<^verbatim>\<open>Memcmp\<close> is the three-way comparison of the lexicographic order on bytes: it
  returns -1, 0 or 1, 0 exactly for equal texts, -1 exactly when the first comes before the
  second, and swapping the arguments changes the sign.
\<close>

theorem Memcmp_lexicographic:
  "Memcmp a b \<in> {-1, 0, 1} \<and> (Memcmp a b = 0 \<longleftrightarrow> a = b) \<and>
   (Memcmp a b = -1 \<longleftrightarrow> ord_class.lexordp (map byte a) (map byte b)) \<and> Memcmp b a = - Memcmp a b"
proof -
  have eq: "Memcmp a b = cmp_list a b" for a b
    using memcmp_loop_eq [of 0 "min (length a) (length b)" a b] by (auto simp: Memcmp_def Let_def min_def not_less)
  have "cmp_list a b \<in> {-1, 0, 1} \<and> (cmp_list a b = 0 \<longleftrightarrow> a = b) \<and>
      (cmp_list a b = -1 \<longleftrightarrow> ord_class.lexordp (map byte a) (map byte b)) \<and> cmp_list b a = - cmp_list a b"
    by (induction a b rule: cmp_list.induct) (auto simp: of_char_eq_iff not_less_iff_gr_or_eq)
  then show ?thesis unfolding eq .
qed

end
