(* ===== verification/Delta_Manager.thy ===== *)
theory Delta_Manager
  imports Read_Modes Go_Strings Go_Float "HOL-Library.Word"
begin

text \<open>
  The delta manager (\<^verbatim>\<open>internal/delta/manager.go\<close>), which keeps the last versions of a
  file. The map from paths to versions is an association list; a version is shared by pointer
  with the callers of \<^verbatim>\<open>Get\<close>, which fill in its content, so these return the manager with the
  filled version. Arguments: \<open>sha\<close> the SHA-256 sum in hexadecimal, \<open>iter\<close> the
  iteration order of the maps in \<^verbatim>\<open>ComputeDelta\<close>, \<open>now\<close> the clock. Of
  \<^verbatim>\<open>Save\<close> and \<^verbatim>\<open>Load\<close> the format of a version file is modelled, not the file
  system. The git integration is a placeholder that returns an error.
\<close>

record Version =
  ver_Hash :: string
  ver_Content :: string
  ver_Timestamp :: gotime
  ver_Size :: int
  ver_DiffFrom :: string

record Manager =
  dm_versions :: "(string \<times> Version list) list"
  dm_baseDir :: string

datatype delta_error = NoVersions string | VersionNotFound string

definition NewManager :: "string \<Rightarrow> Manager" where
  "NewManager baseDir = \<lparr>dm_versions = [], dm_baseDir = baseDir\<rparr>"

text \<open>Reading a missing key of the map gives the nil slice.\<close>

definition versions_at :: "Manager \<Rightarrow> string \<Rightarrow> Version list" where
  "versions_at m path = (case al_get (dm_versions m) path of None \<Rightarrow> [] | Some vs \<Rightarrow> vs)"

section \<open>Helpers\<close>

definition estimateDeltaSize :: "IncrementalDelta \<Rightarrow> int" where
  "estimateDeltaSize delta =
     foldl (\<lambda>n r. n + len r) (foldl (\<lambda>n a. n + len a) 0 (dl_Added delta)) (dl_Removed delta)"

definition applyDelta :: "string \<Rightarrow> IncrementalDelta \<Rightarrow> string" where
  "applyDelta base delta =
     join_lines (filter (\<lambda>line. line \<notin> set (dl_Removed delta)) (split_lines base) @ dl_Added delta)"

fun findVersion :: "string \<Rightarrow> Version list \<Rightarrow> Version option" where
  "findVersion hash [] = None"
| "findVersion hash (v # vs) =
     (if ver_Hash v = hash \<or> has_prefix (ver_Hash v) hash then Some v else findVersion hash vs)"

definition similarity :: "string \<Rightarrow> string \<Rightarrow> rat" where
  "similarity a b =
     (if a = [] \<and> b = [] then 1 else if a = [] \<or> b = [] then 0
      else let linesA = split_lines a; linesB = split_lines b;
               setA = set (map trimSpace linesA);
               common = foldl (\<lambda>n line. if trimSpace line \<in> setA then n + 1 else n) (0::int) linesB;
               maxLen = (if length linesB > length linesA then len linesB else len linesA)
           in if maxLen = 0 then 1 else fdiv (of_int64 common) (of_int64 maxLen))"

definition sanitizePath :: "string \<Rightarrow> string" where
  "sanitizePath path = replaceAll [CHR 0x5C] ''_'' (replaceAll ''/'' ''_'' path)"

text \<open>\<^verbatim>\<open>parseInt64\<close> adds digits modulo \<open>2 ^ 64\<close>.\<close>

fun parse_loop :: "string \<Rightarrow> 64 word \<Rightarrow> 64 word option" where
  "parse_loop [] n = Some n"
| "parse_loop (ch # s) n =
     (if (of_char ch :: nat) < 48 \<or> 57 < (of_char ch :: nat) then None
      else parse_loop s (n * 10 + word_of_int (of_char ch - 48)))"

definition parseInt64 :: "string \<Rightarrow> int option" where
  "parseInt64 s = map_option sint (parse_loop s 0)"

section \<open>Operations\<close>

definition Track ::
  "(string list \<Rightarrow> string list) \<Rightarrow> (string \<Rightarrow> string) \<Rightarrow> gotime \<Rightarrow> string \<Rightarrow> string \<Rightarrow> Manager \<Rightarrow> Version \<times> Manager" where
  "Track iter sha now path content m =
     (let hash = sha content;
          versions = versions_at m path
      in if versions \<noteq> [] \<and> ver_Hash (last versions) = hash then (last versions, m)
         else let version = \<lparr>ver_Hash = hash, ver_Content = content, ver_Timestamp = now,
                             ver_Size = len content, ver_DiffFrom = []\<rparr>;
                  version =
                    (if versions \<noteq> [] \<and>
                        estimateDeltaSize (ComputeDelta iter (ver_Content (last versions)) content) < go_div (len content) 2
                     then version\<lparr>ver_DiffFrom := ver_Hash (last versions), ver_Content := []\<rparr>
                     else version);
                  all = versions @ [version];
                  kept = (if length all > 10 then drop (length all - 10) all else all)
              in (version, m\<lparr>dm_versions := al_put path kept (dm_versions m)\<rparr>))"

definition reconstruct :: "(string list \<Rightarrow> string list) \<Rightarrow> Version list \<Rightarrow> Version \<Rightarrow> Version" where
  "reconstruct iter versions target =
     (if ver_Content target = [] \<and> ver_DiffFrom target \<noteq> []
      then case findVersion (ver_DiffFrom target) versions of
             None \<Rightarrow> target
           | Some parent \<Rightarrow>
               (let delta = ComputeDelta iter (ver_Content parent) []
                in target\<lparr>ver_Content := applyDelta (ver_Content parent) delta\<rparr>)
      else target)"

text \<open>The position of the first match, as the loop of \<^verbatim>\<open>Get\<close> finds it.\<close>

fun match_index :: "string \<Rightarrow> Version list \<Rightarrow> nat option" where
  "match_index hash [] = None"
| "match_index hash (v # vs) =
     (if has_prefix (ver_Hash v) hash \<or> ver_Hash v = hash then Some 0 else map_option Suc (match_index hash vs))"

definition dm_Get ::
  "(string list \<Rightarrow> string list) \<Rightarrow> string \<Rightarrow> string \<Rightarrow> Manager \<Rightarrow> (delta_error + Version) \<times> Manager" where
  "dm_Get iter path hash m =
     (case al_get (dm_versions m) path of
        None \<Rightarrow> (Inl (NoVersions path), m)
      | Some versions \<Rightarrow>
          (case match_index hash versions of
             None \<Rightarrow> (Inl (VersionNotFound hash), m)
           | Some i \<Rightarrow>
               (let target = reconstruct iter versions (versions ! i)
                in (Inr target, m\<lparr>dm_versions := al_put path (versions[i := target]) (dm_versions m)\<rparr>))))"

definition GetLatest ::
  "(string list \<Rightarrow> string list) \<Rightarrow> string \<Rightarrow> Manager \<Rightarrow> (delta_error + Version) \<times> Manager" where
  "GetLatest iter path m =
     (case al_get (dm_versions m) path of
        None \<Rightarrow> (Inl (NoVersions path), m)
      | Some versions \<Rightarrow>
          (if versions = [] then (Inl (NoVersions path), m)
           else let latest = reconstruct iter versions (last versions)
                in (Inr latest,
                    m\<lparr>dm_versions := al_put path (versions[length versions - 1 := latest]) (dm_versions m)\<rparr>)))"

definition ComputeDiff ::
  "(string list \<Rightarrow> string list) \<Rightarrow> string \<Rightarrow> string \<Rightarrow> string \<Rightarrow> Manager \<Rightarrow> (delta_error + IncrementalDelta) \<times> Manager" where
  "ComputeDiff iter path fromHash toHash m =
     (case dm_Get iter path fromHash m of
        (Inl err, m) \<Rightarrow> (Inl err, m)
      | (Inr frm, m) \<Rightarrow>
          (case dm_Get iter path toHash m of
             (Inl err, m) \<Rightarrow> (Inl err, m)
           | (Inr to, m) \<Rightarrow> (Inr (ComputeDelta iter (ver_Content frm) (ver_Content to)), m)))"

definition GetVersions :: "string \<Rightarrow> Manager \<Rightarrow> Version list" where
  "GetVersions path m = versions_at m path"

text \<open>The ratio of an empty content is a division by zero, NaN or infinity, and neither is
  below one half.\<close>

definition ShouldCompress ::
  "(string list \<Rightarrow> string list) \<Rightarrow> (string \<Rightarrow> string) \<Rightarrow> string \<Rightarrow> string \<Rightarrow> Manager \<Rightarrow> bool \<times> string" where
  "ShouldCompress iter sha path content m =
     (case al_get (dm_versions m) path of
        None \<Rightarrow> (False, [])
      | Some versions \<Rightarrow>
          (if versions = [] then (False, [])
           else if ver_Hash (last versions) = sha content then (False, ver_Hash (last versions))
           else let delta = ComputeDelta iter (ver_Content (last versions)) content
                in if content \<noteq> [] \<and>
                      fdiv (of_int64 (len (dl_Added delta) + len (dl_Removed delta))) (of_int64 (len content)) < 1 / 2
                   then (True, ver_Hash (last versions)) else (False, [])))"

text \<open>\<open>None\<close> is the panic of a slice bound out of range.\<close>

definition Cleanup :: "string \<Rightarrow> int \<Rightarrow> Manager \<Rightarrow> Manager option" where
  "Cleanup path keep m =
     (case al_get (dm_versions m) path of
        None \<Rightarrow> Some m
      | Some versions \<Rightarrow>
          (if len versions \<le> keep then Some m
           else if len versions - keep > len versions then None
           else Some (m\<lparr>dm_versions := al_put path (drop (nat (len versions - keep)) versions) (dm_versions m)\<rparr>)))"

record DeltaStats =
  ds_FilesTracked :: int
  ds_TotalVersions :: int
  ds_TotalSize :: int

definition dm_Stats :: "Manager \<Rightarrow> DeltaStats" where
  "dm_Stats m =
     \<lparr>ds_FilesTracked = len (dm_versions m),
      ds_TotalVersions = sum_list (map (len \<circ> snd) (dm_versions m)),
      ds_TotalSize = sum_list (map (\<lambda>(_, vs). sum_list (map ver_Size vs)) (dm_versions m))\<rparr>"

record CompressionDecision =
  cd_UseDelta :: bool
  cd_BaseHash :: string
  cd_FullContent :: bool
  cd_EstimatedSavings :: int

fun best_match :: "string \<Rightarrow> Version list \<Rightarrow> Version option \<Rightarrow> rat \<Rightarrow> Version option \<times> rat" where
  "best_match content [] best bestSimilarity = (best, bestSimilarity)"
| "best_match content (v # vs) best bestSimilarity =
     (let sim = similarity (ver_Content v) content
      in if sim > bestSimilarity then best_match content vs (Some v) sim
         else best_match content vs best bestSimilarity)"

definition DecideCompression ::
  "(string list \<Rightarrow> string list) \<Rightarrow> string \<Rightarrow> string \<Rightarrow> Manager \<Rightarrow> CompressionDecision" where
  "DecideCompression iter path content m =
     (let decision = \<lparr>cd_UseDelta = False, cd_BaseHash = [], cd_FullContent = True, cd_EstimatedSavings = 0\<rparr>
      in case al_get (dm_versions m) path of
           None \<Rightarrow> decision
         | Some versions \<Rightarrow>
             (case best_match content versions None 0 of
                (Some v, sim) \<Rightarrow>
                  (if sim > f64 (7 / 10)
                   then let deltaSize = estimateDeltaSize (ComputeDelta iter (ver_Content v) content);
                            fullSize = len content
                        in if deltaSize < go_div (fullSize * 2) 3
                           then \<lparr>cd_UseDelta = True, cd_BaseHash = ver_Hash v, cd_FullContent = False,
                                 cd_EstimatedSavings = fullSize - deltaSize\<rparr>
                           else decision
                   else decision)
              | (None, _) \<Rightarrow> decision))"

section \<open>The version file\<close>

definition unix_seconds :: "gotime \<Rightarrow> int" where
  "unix_seconds t = t div Second"

definition encode_version :: "Version \<Rightarrow> string" where
  "encode_version v = ver_Hash v @ ''|'' @ itoa (unix_seconds (ver_Timestamp v)) @ ''|'' @ ver_DiffFrom v @ ''|'' @
     ver_Content v @ [nl]"

definition encode_versions :: "Version list \<Rightarrow> string" where
  "encode_versions vs = concat (map encode_version vs)"

definition decode_line :: "string \<Rightarrow> Version option" where
  "decode_line line =
     (let parts = split_on CHR ''|'' line
      in if length parts < 4 then None
         else let ts = (case parseInt64 (parts ! 1) of None \<Rightarrow> 0 | Some n \<Rightarrow> n)
              in Some \<lparr>ver_Hash = parts ! 0, ver_Content = parts ! 3, ver_Timestamp = ts * Second, ver_Size = 0,
                       ver_DiffFrom = parts ! 2\<rparr>)"

definition decode_versions :: "string \<Rightarrow> Version list" where
  "decode_versions data = List.map_filter decode_line (split_lines data)"

section \<open>What a delta version keeps\<close>

lemma removed_by_empty:
  assumes "\<And>ls. set (iter ls) = set ls" "l \<in> set (split_lines c)" "l \<noteq> []"
  shows "l \<in> set (dl_Removed (ComputeDelta iter c []))"
  using assms by (auto simp: ComputeDelta_def Let_def count_list_0_iff)

lemma blank_removed:
  assumes "\<And>ls. set (iter ls) = set ls" "1 < count_list (split_lines c) []"
  shows "[] \<in> set (dl_Removed (ComputeDelta iter c []))"
proof -
  have "[] \<in> set (split_lines c)" using assms(2) count_list_0_iff [of "split_lines c" "[]"] by auto
  then show ?thesis using assms by (auto simp: ComputeDelta_def Let_def)
qed

lemma added_by_empty:
  assumes "\<And>ls. distinct (iter ls)" "\<And>ls. set (iter ls) = set ls"
  shows "dl_Added (ComputeDelta iter c []) = replicate (1 - count_list (split_lines c) []) []"
proof -
  have "iter [[]] = [[]]"
    using assms(1) [of "[[]]"] assms(2) [of "[[]]"] by (cases "iter [[]]"; cases "tl (iter [[]])") auto
  then show ?thesis by (simp add: ComputeDelta_def Let_def)
qed

lemma filter_count: "filter (\<lambda>x. x = a) xs = replicate (count_list xs a) a"
  by (induction xs) auto

text \<open>The delta that reconstruction computes is the one to the empty text, so it always ends there.\<close>

lemma applyDelta_empty:
  assumes "\<And>ls. distinct (iter ls)" "\<And>ls. set (iter ls) = set ls"
  shows "applyDelta c (ComputeDelta iter c []) = []"
proof -
  let ?d = "ComputeDelta iter c []" and ?n = "count_list (split_lines c) []"
  have "filter (\<lambda>l. l \<notin> set (dl_Removed ?d)) (split_lines c) =
      filter (\<lambda>l. l \<notin> set (dl_Removed ?d)) (filter (\<lambda>l. l = []) (split_lines c))"
    using removed_by_empty [OF assms(2)] by (auto intro: filter_cong)
  also have "\<dots> = (if [] \<in> set (dl_Removed ?d) then [] else replicate ?n [])"
    by (simp add: filter_count)
  finally have f: "filter (\<lambda>l. l \<notin> set (dl_Removed ?d)) (split_lines c) =
      (if [] \<in> set (dl_Removed ?d) then [] else replicate ?n [])" .
  consider "?n = 0" | "?n = 1" | "1 < ?n" by linarith
  then show ?thesis
    by cases (use f blank_removed [OF assms(2), of c] in \<open>auto simp: applyDelta_def added_by_empty [OF assms]\<close>)
qed

lemma reconstruct_empty:
  assumes "\<And>ls. distinct (iter ls)" "\<And>ls. set (iter ls) = set ls"
    and "ver_Content v = []" "ver_DiffFrom v \<noteq> []"
  shows "ver_Content (reconstruct iter vs v) = []"
  using assms(3,4) by (auto simp: reconstruct_def applyDelta_empty [OF assms(1,2)] Let_def split: option.split)

text \<open>
  An edit tracked as a delta is lost. When the difference to the latest version is
  small, \<^verbatim>\<open>Track\<close> drops the content and keeps only the hash of its parent, never the
  difference itself; \<^verbatim>\<open>GetLatest\<close> then rebuilds it from the difference to the empty text. The
  content it returns is empty, whatever was tracked, and the tracked content was not.
\<close>

theorem tracked_edit_is_lost:
  assumes iter: "\<And>ls. distinct (iter ls)" "\<And>ls. set (iter ls) = set ls"
    and "versions_at m path = vs @ [latest]" "ver_Hash latest \<noteq> sha content" "ver_Hash latest \<noteq> []"
    and "estimateDeltaSize (ComputeDelta iter (ver_Content latest) content) < go_div (len content) 2"
    and "Track iter sha now path content m = (v, m')"
  shows "content \<noteq> [] \<and> ver_Hash v = sha content \<and> ver_Size v = len content \<and>
    (\<exists>v' m''. GetLatest iter path m' = (Inr v', m'') \<and> ver_Hash v' = sha content \<and> ver_Content v' = [])"
proof -
  have "0 \<le> foldl (\<lambda>n r. n + len r) k xs" if "0 \<le> k" for k and xs :: "string list"
    using that by (induction xs arbitrary: k) auto
  then have "0 \<le> estimateDeltaSize d" for d by (simp add: estimateDeltaSize_def)
  then have ne: "content \<noteq> []"
    using assms(6) by (auto simp: not_less [symmetric])
  define all where "all = (vs @ [latest]) @ [v]"
  have v: "v = \<lparr>ver_Hash = sha content, ver_Content = [], ver_Timestamp = now, ver_Size = len content,
      ver_DiffFrom = ver_Hash latest\<rparr>"
    and m': "al_get (dm_versions m') path = Some (if length all > 10 then drop (length all - 10) all else all)"
    using assms(3,4,6,7) by (auto simp: Track_def Let_def all_def)
  have "last (if length all > 10 then drop (length all - 10) all else all) = v"
    "(if length all > 10 then drop (length all - 10) all else all) \<noteq> []" by (auto simp: all_def)
  moreover have "ver_Content (reconstruct iter ws v) = []" "ver_Hash (reconstruct iter ws v) = sha content" for ws
    using reconstruct_empty [OF iter, of v ws] assms(5) by (auto simp: v reconstruct_def Let_def split: option.split)
  ultimately show ?thesis using ne m' by (auto simp: v GetLatest_def Let_def)
qed

definition demo_old :: string where "demo_old = join_lines [''the same line'', []]"
definition demo_new :: string where "demo_new = join_lines [''the same line'', ''new'']"

theorem tracked_edit_is_lost_witness:
  "demo_new \<noteq> [] \<and> (\<exists>v' m''. GetLatest remdups ''f''
     (snd (Track remdups id 1 ''f'' demo_new (snd (Track remdups id 0 ''f'' demo_old (NewManager []))))) = (Inr v', m'') \<and>
     ver_Content v' = [])"
proof -
  let ?m = "snd (Track remdups id 0 ''f'' demo_old (NewManager []))"
  let ?v = "\<lparr>ver_Hash = demo_old, ver_Content = demo_old, ver_Timestamp = 0, ver_Size = len demo_old, ver_DiffFrom = []\<rparr>"
  obtain v m' where run: "Track remdups id 1 ''f'' demo_new ?m = (v, m')" by fastforce
  have at: "versions_at ?m ''f'' = [] @ [?v]"
    by (simp add: versions_at_def Track_def Let_def NewManager_def)
  have "demo_old \<noteq> demo_new" "demo_old \<noteq> []"
    "estimateDeltaSize (ComputeDelta remdups demo_old demo_new) < go_div (len demo_new) 2" by code_simp+
  with tracked_edit_is_lost [of remdups ?m "''f''" "[]" ?v id demo_new 1 v m', OF _ _ at _ _ _ run]
  show ?thesis by (auto simp: run)
qed

section \<open>Versions are bounded\<close>

inductive delta_reachable :: "Manager \<Rightarrow> bool" where
  dr_new: "delta_reachable (NewManager dir)"
| dr_track: "delta_reachable m \<Longrightarrow> delta_reachable (snd (Track iter sha now path content m))"
| dr_get: "delta_reachable m \<Longrightarrow> delta_reachable (snd (dm_Get iter path hash m))"
| dr_latest: "delta_reachable m \<Longrightarrow> delta_reachable (snd (GetLatest iter path m))"
| dr_clean: "delta_reachable m \<Longrightarrow> Cleanup path keep m = Some m' \<Longrightarrow> delta_reachable m'"

definition delta_inv :: "Manager \<Rightarrow> bool" where
  "delta_inv m \<longleftrightarrow> (\<forall>path vs. al_get (dm_versions m) path = Some vs \<longrightarrow>
     length vs \<le> 10 \<and> distinct_adj (map ver_Hash vs))"

lemma map_hash_update: "ver_Hash v = ver_Hash (vs ! i) \<Longrightarrow> map ver_Hash (vs[i := v]) = map ver_Hash vs"
  by (metis list_update_id map_update)

lemma reconstruct_hash [simp]: "ver_Hash (reconstruct iter vs v) = ver_Hash v"
  by (simp add: reconstruct_def Let_def split: option.split)

lemma distinct_adj_drop: "distinct_adj xs \<Longrightarrow> distinct_adj (drop n xs)"
  by (metis append_take_drop_id distinct_adj_appendD2)

lemma delta_inv_put [go_inv]:
  "delta_inv m \<Longrightarrow> length vs \<le> 10 \<Longrightarrow> distinct_adj (map ver_Hash vs) \<Longrightarrow>
     delta_inv (m\<lparr>dm_versions := al_put path vs (dm_versions m)\<rparr>)"
  by (auto simp: delta_inv_def)

lemma delta_inv_at: "delta_inv m \<Longrightarrow> length (versions_at m path) \<le> 10 \<and> distinct_adj (map ver_Hash (versions_at m path))"
  by (auto simp: delta_inv_def versions_at_def split: option.split)

lemma Track_cases:
  "snd (Track iter sha now path content m) = m \<or>
   (\<exists>v. ver_Hash v = sha content \<and> (versions_at m path = [] \<or> ver_Hash (last (versions_at m path)) \<noteq> sha content) \<and>
      snd (Track iter sha now path content m) = m\<lparr>dm_versions :=
        al_put path (drop (length (versions_at m path @ [v]) - 10) (versions_at m path @ [v])) (dm_versions m)\<rparr>)"
proof (cases "versions_at m path \<noteq> [] \<and> ver_Hash (last (versions_at m path)) = sha content")
  case False
  have keep: "(if length vs > 10 then drop (length vs - 10) vs else vs) = drop (length vs - 10) vs" for vs :: "Version list"
    by simp
  show ?thesis
    using False unfolding Track_def Let_def keep by (intro disjI2 exI [of _ "fst (Track iter sha now path content m)"])
      (auto simp: Track_def Let_def)
qed (simp add: Track_def Let_def)

lemma delta_inv_Track [go_inv]:
  assumes "delta_inv m"
  shows "delta_inv (snd (Track iter sha now path content m))"
proof (rule disjE [OF Track_cases [of iter sha now path content m]])
  assume "\<exists>v. ver_Hash v = sha content \<and> (versions_at m path = [] \<or> ver_Hash (last (versions_at m path)) \<noteq> sha content) \<and>
      snd (Track iter sha now path content m) = m\<lparr>dm_versions :=
        al_put path (drop (length (versions_at m path @ [v]) - 10) (versions_at m path @ [v])) (dm_versions m)\<rparr>"
  then obtain v where v: "ver_Hash v = sha content" "versions_at m path = [] \<or> ver_Hash (last (versions_at m path)) \<noteq> sha content"
    and eq: "snd (Track iter sha now path content m) = m\<lparr>dm_versions :=
        al_put path (drop (length (versions_at m path @ [v]) - 10) (versions_at m path @ [v])) (dm_versions m)\<rparr>" by blast
  have "distinct_adj (map ver_Hash (versions_at m path @ [v]))"
    using v delta_inv_at [OF assms, of path] by (auto simp: distinct_adj_append_iff last_map)
  then have "distinct_adj (map ver_Hash (drop (length (versions_at m path @ [v]) - 10) (versions_at m path @ [v])))"
    unfolding drop_map [symmetric] by (rule distinct_adj_drop)
  then show ?thesis unfolding eq by (intro delta_inv_put assms) simp_all
qed (simp add: assms)

text \<open>
  The manager keeps at most ten versions of a file, and never two equal ones in a row,
  whatever is tracked, read and cleaned up.
\<close>

theorem versions_bounded:
  assumes "delta_reachable m"
  shows "length (GetVersions path m) \<le> 10 \<and> distinct_adj (map ver_Hash (GetVersions path m))"
proof -
  from assms have "delta_inv m"
  proof (induction rule: delta_reachable.induct)
    case (dr_new dir)
    then show ?case by (simp add: delta_inv_def NewManager_def)
  next
    case (dr_get m iter path hash)
    then show ?case by (auto simp: dm_Get_def Let_def map_hash_update delta_inv_def split: option.splits)
  next
    case (dr_latest m iter path)
    then show ?case by (auto simp: GetLatest_def Let_def map_hash_update last_conv_nth delta_inv_def split: option.splits)
  next
    case (dr_clean m path keep m')
    then show ?case
      by (auto simp: le_trans [OF diff_le_self] Cleanup_def delta_inv_def drop_map [symmetric] intro!: distinct_adj_drop split: option.splits if_splits)
  qed (rule delta_inv_Track)
  then show ?thesis using delta_inv_at by (simp add: GetVersions_def)
qed

theorem versions_bounded_witness:
  "length (GetVersions ''f'' (snd (Track remdups id 0 ''f'' ''a'' (NewManager [])))) \<le> 10"
  using versions_bounded [OF dr_track [OF dr_new], of "''f''"] by blast

section \<open>The version file\<close>

lemma parse_loop_app: "parse_loop (a @ b) n = Option.bind (parse_loop a n) (parse_loop b)"
  by (induction a arbitrary: n) auto

lemma parse_digit: "d < 10 \<Longrightarrow> parse_loop [char_of (48 + d)] n = Some (n * 10 + word_of_nat d)" for d :: nat
proof -
  assume d: "d < 10"
  then have c: "(of_char (char_of (48 + d) :: char) :: nat) = 48 + d" by (simp add: take_bit_nat_eq_self)
  then have "(of_char (char_of (48 + d) :: char) :: int) = 48 + int d" by (metis of_nat_add of_nat_numeral of_nat_of_char)
  then show ?thesis using d c by simp
qed

lemma parse_itoa_nat: "parse_loop (itoa_nat k) 0 = Some (word_of_nat k)"
proof (induction k rule: itoa_nat.induct)
  case (1 n)
  have split: "word_of_nat (n div 10) * 10 + word_of_nat (n mod 10) = (word_of_nat n :: 64 word)"
    by (metis div_mult_mod_eq of_nat_add of_nat_mult of_nat_numeral)
  show ?case
  proof (cases "n < 10")
    case True
    then show ?thesis using parse_digit [of n 0] by (subst itoa_nat.simps) simp
  next
    case False
    then show ?thesis using 1 parse_digit [of "n mod 10" "word_of_nat (n div 10)"] split
      by (subst itoa_nat.simps) (simp add: parse_loop_app)
  qed
qed

lemma parseInt64_itoa: "0 \<le> i \<Longrightarrow> i < 2 ^ 63 \<Longrightarrow> parseInt64 (itoa i) = Some i"
proof -
  assume i: "0 \<le> i" "i < 2 ^ 63"
  then have "(word_of_nat (nat i) :: 64 word) = word_of_int i" by simp
  moreover have "sint (word_of_int i :: 64 word) = i"
    using i by (simp add: signed_of_int signed_take_bit_int_eq_self)
  ultimately show ?thesis using i by (simp add: parseInt64_def itoa_def parse_itoa_nat)
qed

lemma split_terminated:
  "list_all (\<lambda>l. nl \<notin> set l) ls \<Longrightarrow> split_lines (concat (map (\<lambda>l. l @ [nl]) ls)) = ls @ [[]]"
  by (induction ls) (simp_all add: split_app_sep)

definition plain_field :: "string \<Rightarrow> bool" where
  "plain_field s \<longleftrightarrow> nl \<notin> set s \<and> CHR ''|'' \<notin> set s"

definition savable :: "Version \<Rightarrow> bool" where
  "savable v \<longleftrightarrow> plain_field (ver_Hash v) \<and> plain_field (ver_DiffFrom v) \<and> plain_field (ver_Content v) \<and>
     0 \<le> ver_Timestamp v \<and> unix_seconds (ver_Timestamp v) < 2 ^ 63"

text \<open>What survives a save: the time is cut to seconds and the size is not written.\<close>

definition saved_form :: "Version \<Rightarrow> Version" where
  "saved_form v = v\<lparr>ver_Timestamp := unix_seconds (ver_Timestamp v) * Second, ver_Size := 0\<rparr>"

lemma itoa_plain: "0 \<le> i \<Longrightarrow> plain_field (itoa i)"
  using itoa_digits [of i nl] itoa_digits [of i "CHR ''|''"] by (auto simp: plain_field_def is_digit_def)

lemma savable_seconds: "savable v \<Longrightarrow> 0 \<le> unix_seconds (ver_Timestamp v)"
  by (auto simp: savable_def unix_seconds_def intro: pos_imp_zdiv_nonneg_iff [THEN iffD2])

lemma decode_line_encode:
  assumes "savable v"
  shows "decode_line (butlast (encode_version v)) = Some (saved_form v)"
proof -
  note t = savable_seconds [OF assms]
  note num = itoa_plain [OF t] and p = parseInt64_itoa [OF t]
  have "split_on CHR ''|'' (butlast (encode_version v)) =
      [ver_Hash v, itoa (unix_seconds (ver_Timestamp v)), ver_DiffFrom v, ver_Content v]"
    using assms num by (simp add: encode_version_def butlast_append savable_def plain_field_def split_app_sep split_plain)
  then show ?thesis using assms p by (cases v) (simp add: decode_line_def savable_def saved_form_def)
qed

text \<open>
  A version file can be read back: when no hash, parent or content has a line break or
  a bar in it, loading what was saved gives the versions in order, with the time cut to
  seconds and the size forgotten.
\<close>

theorem version_file_roundtrip:
  assumes "list_all savable vs"
  shows "decode_versions (encode_versions vs) = map saved_form vs"
proof -
  have line: "encode_version v = butlast (encode_version v) @ [nl]" for v
    by (simp add: encode_version_def butlast_append)
  have nonl: "list_all (\<lambda>l. nl \<notin> set l) (map (butlast \<circ> encode_version) vs)"
    unfolding list_all_iff
  proof
    fix l assume "l \<in> set (map (butlast \<circ> encode_version) vs)"
    then obtain v where v: "v \<in> set vs" "l = butlast (encode_version v)" by auto
    then have "savable v" using assms by (simp add: list_all_iff)
    moreover from this have "plain_field (itoa (unix_seconds (ver_Timestamp v)))"
      by (intro itoa_plain savable_seconds)
    ultimately show "nl \<notin> set l" by (simp add: v(2) encode_version_def butlast_append savable_def plain_field_def)
  qed
  have "encode_versions vs = concat (map (\<lambda>l. l @ [nl]) (map (butlast \<circ> encode_version) vs))"
    unfolding encode_versions_def using line by (simp add: comp_def)
  then have "split_lines (encode_versions vs) = map (butlast \<circ> encode_version) vs @ [[]]"
    using split_terminated [OF nonl] by simp
  moreover have "decode_line [] = None" by (simp add: decode_line_def)
  then have "List.map_filter decode_line (map (butlast \<circ> encode_version) vs @ [[]]) = map saved_form vs"
    using assms by (induction vs) (simp_all add: decode_line_encode List.map_filter_simps)
  ultimately show ?thesis by (simp add: decode_versions_def)
qed

definition demo_version :: Version where
  "demo_version = \<lparr>ver_Hash = ''ab'', ver_Content = ''one line'', ver_Timestamp = 5 * Second, ver_Size = 8, ver_DiffFrom = []\<rparr>"

theorem version_file_roundtrip_witness:
  "decode_versions (encode_versions [demo_version]) = [demo_version\<lparr>ver_Size := 0\<rparr>]"
proof -
  have "savable demo_version" by code_simp
  then have "decode_versions (encode_versions [demo_version]) = map saved_form [demo_version]"
    using version_file_roundtrip [of "[demo_version]"] by simp
  then show ?thesis by (simp add: saved_form_def demo_version_def unix_seconds_def)
qed

text \<open>
  The content of a real file does not survive. Whatever a version file holds, no
  content read from it has a line break, so a version with more than one line is never
  among the versions loaded after a save.
\<close>

theorem saved_lines_do_not_survive:
  assumes "nl \<in> set (ver_Content v)"
  shows "ver_Content v \<notin> ver_Content ` set (decode_versions (encode_versions vs))"
proof -
  have "nl \<notin> set (ver_Content w)" if "w \<in> set (decode_versions data)" for w data
  proof -
    from that obtain line where line: "line \<in> set (split_lines data)" "decode_line line = Some w"
      by (auto simp: decode_versions_def List.map_filter_def split: option.splits)
    then have "nl \<notin> set line" using split_no_sep by blast
    moreover have "ver_Content w \<in> set (split_on CHR ''|'' line)"
      using line(2) by (auto simp: decode_line_def Let_def split: if_splits)
    ultimately show ?thesis using split_part by (metis Un_iff set_append)
  qed
  then show ?thesis using assms by (metis image_iff)
qed

theorem saved_lines_do_not_survive_witness:
  "demo_new \<notin> ver_Content ` set (decode_versions (encode_versions [demo_version\<lparr>ver_Content := demo_new\<rparr>]))"
  using saved_lines_do_not_survive [of "demo_version\<lparr>ver_Content := demo_new\<rparr>" "[demo_version\<lparr>ver_Content := demo_new\<rparr>]"]
  by (simp add: demo_new_def)

end
