(* ===== verification/Regex_Match.thy ===== *)
theory Regex_Match
  imports Go_Strings
begin

text \<open>
  Regular expressions, as the filters use Go's package \<^verbatim>\<open>regexp\<close>: whether a pattern
  matches at the start of a text or somewhere in it. Which of several matches is chosen plays no
  role here. An expression is matched by derivatives, and the matcher is proved to decide
  membership in the language of the expression. Expressions work on bytes: a negated class
  matches every byte of a longer character, so for the patterns used, where what follows the class
  is an ASCII character, this is the same as matching characters.

  The second part holds the pattern tables of \<^verbatim>\<open>internal/filter/comment_patterns.go\<close>.
\<close>

section \<open>Expressions and their languages\<close>

datatype regex = Void | Eps | Cls "char \<Rightarrow> bool" | Seq regex regex | Alt regex regex | Rep regex

inductive_set iter_lang :: "string set \<Rightarrow> string set" for A where
  iter_none [intro, simp]: "[] \<in> iter_lang A"
| iter_more [intro]: "u \<in> A \<Longrightarrow> v \<in> iter_lang A \<Longrightarrow> u @ v \<in> iter_lang A"

primrec lang :: "regex \<Rightarrow> string set" where
  "lang Void = {}"
| "lang Eps = {[]}"
| "lang (Cls P) = {[c] | c. P c}"
| "lang (Seq r s) = {u @ v | u v. u \<in> lang r \<and> v \<in> lang s}"
| "lang (Alt r s) = lang r \<union> lang s"
| "lang (Rep r) = iter_lang (lang r)"

section \<open>The matcher\<close>

primrec nullable :: "regex \<Rightarrow> bool" where
  "nullable Void = False"
| "nullable Eps = True"
| "nullable (Cls P) = False"
| "nullable (Seq r s) = (nullable r \<and> nullable s)"
| "nullable (Alt r s) = (nullable r \<or> nullable s)"
| "nullable (Rep r) = True"

text \<open>Sequence and choice without the parts that cannot match.\<close>

fun mkSeq :: "regex \<Rightarrow> regex \<Rightarrow> regex" where
  "mkSeq Void s = Void"
| "mkSeq Eps s = s"
| "mkSeq r s = Seq r s"

fun mkAlt :: "regex \<Rightarrow> regex \<Rightarrow> regex" where
  "mkAlt Void s = s"
| "mkAlt r Void = r"
| "mkAlt r s = Alt r s"

primrec deriv :: "char \<Rightarrow> regex \<Rightarrow> regex" where
  "deriv c Void = Void"
| "deriv c Eps = Void"
| "deriv c (Cls P) = (if P c then Eps else Void)"
| "deriv c (Seq r s) = (if nullable r then mkAlt (mkSeq (deriv c r) s) (deriv c s) else mkSeq (deriv c r) s)"
| "deriv c (Alt r s) = mkAlt (deriv c r) (deriv c s)"
| "deriv c (Rep r) = mkSeq (deriv c r) (Rep r)"

text \<open>A match that starts at the beginning, and a match anywhere.\<close>

fun matchPrefix :: "regex \<Rightarrow> string \<Rightarrow> bool" where
  "matchPrefix r [] = nullable r"
| "matchPrefix r (c # s) = (nullable r \<or> matchPrefix (deriv c r) s)"

fun matchSearch :: "regex \<Rightarrow> string \<Rightarrow> bool" where
  "matchSearch r [] = nullable r"
| "matchSearch r (c # s) = (matchPrefix r (c # s) \<or> matchSearch r s)"

section \<open>Correctness\<close>

lemma lang_mkSeq [simp]: "lang (mkSeq r s) = lang (Seq r s)"
  by (cases r) auto

lemma lang_mkAlt [simp]: "lang (mkAlt r s) = lang r \<union> lang s"
  by (cases r; cases s) auto

lemma nullable_iff: "nullable r \<longleftrightarrow> [] \<in> lang r"
  by (induction r) auto

lemma iter_lang_step: "c # w \<in> iter_lang A \<longleftrightarrow> (\<exists>u v. w = u @ v \<and> c # u \<in> A \<and> v \<in> iter_lang A)"
proof
  assume "c # w \<in> iter_lang A"
  then show "\<exists>u v. w = u @ v \<and> c # u \<in> A \<and> v \<in> iter_lang A"
  proof (induction "c # w" arbitrary: w rule: iter_lang.induct)
    case (iter_more u v)
    then show ?case by (cases u) auto
  qed
next
  assume "\<exists>u v. w = u @ v \<and> c # u \<in> A \<and> v \<in> iter_lang A"
  then show "c # w \<in> iter_lang A" using iter_more by fastforce
qed

lemma lang_deriv: "w \<in> lang (deriv c r) \<longleftrightarrow> c # w \<in> lang r"
proof (induction r arbitrary: w)
  case (Seq r s)
  have "c # w \<in> lang (Seq r s) \<longleftrightarrow>
      (\<exists>u v. w = u @ v \<and> c # u \<in> lang r \<and> v \<in> lang s) \<or> nullable r \<and> c # w \<in> lang s"
    by (auto simp: nullable_iff Cons_eq_append_conv)
  then show ?case using Seq by auto
next
  case (Rep r)
  then show ?case by (auto simp: iter_lang_step)
qed auto

lemma matchPrefix_iff: "matchPrefix r s \<longleftrightarrow> (\<exists>u v. s = u @ v \<and> u \<in> lang r)"
proof (induction s arbitrary: r)
  case (Cons c s)
  have "(\<exists>u v. c # s = u @ v \<and> u \<in> lang r) \<longleftrightarrow> [] \<in> lang r \<or> (\<exists>u v. s = u @ v \<and> c # u \<in> lang r)"
    by (auto simp: Cons_eq_append_conv)
  then show ?case using Cons by (simp add: nullable_iff lang_deriv)
qed (simp add: nullable_iff)

text \<open>
  The matcher decides the language: a pattern is found in a text exactly when some part of
  the text belongs to the language of the pattern.
\<close>

theorem matchSearch_iff: "matchSearch r s \<longleftrightarrow> (\<exists>u v w. s = u @ v @ w \<and> v \<in> lang r)"
proof (induction s)
  case (Cons c s)
  have "(\<exists>u v w. c # s = u @ v @ w \<and> v \<in> lang r) \<longleftrightarrow>
      (\<exists>v w. c # s = v @ w \<and> v \<in> lang r) \<or> (\<exists>u v w. s = u @ v @ w \<and> v \<in> lang r)"
    by (auto simp: Cons_eq_append_conv) (metis append_Cons)+
  then show ?case using Cons by (auto simp: matchPrefix_iff)
qed (simp add: nullable_iff)

section \<open>Building blocks\<close>

primrec lit :: "string \<Rightarrow> regex" where
  "lit [] = Eps"
| "lit (c # s) = Seq (Cls (\<lambda>d. d = c)) (lit s)"

definition some_of :: "regex \<Rightarrow> regex" where "some_of r = Seq r (Rep r)"
definition opt :: "regex \<Rightarrow> regex" where "opt r = Alt r Eps"

definition word_char :: "char \<Rightarrow> bool" where
  "word_char c \<longleftrightarrow> (let n = (of_char c :: nat) in 48 \<le> n \<and> n \<le> 57 \<or> 65 \<le> n \<and> n \<le> 90 \<or> 97 \<le> n \<and> n \<le> 122 \<or> n = 95)"

definition space_char :: "char \<Rightarrow> bool" where
  "space_char c \<longleftrightarrow> c = CHR 0x09 \<or> c = nl \<or> c = CHR 0x0C \<or> c = CHR 0x0D \<or> c = CHR '' ''"

abbreviation sp :: regex where "sp \<equiv> some_of (Cls space_char)"
abbreviation sp0 :: regex where "sp0 \<equiv> Rep (Cls space_char)"
abbreviation word1 :: regex where "word1 \<equiv> some_of (Cls word_char)"
abbreviation word0 :: regex where "word0 \<equiv> Rep (Cls word_char)"
abbreviation digit1 :: regex where "digit1 \<equiv> some_of (Cls is_digit)"
abbreviation seqs :: "regex list \<Rightarrow> regex" where "seqs rs \<equiv> foldr Seq rs Eps"
abbreviation alts :: "regex list \<Rightarrow> regex" where "alts rs \<equiv> foldr Alt rs Void"

lemma lang_lit [simp]: "lang (lit s) = {s}"
  by (induction s) auto

lemma matchPrefix_lit: "matchPrefix (lit p) s \<longleftrightarrow> has_prefix s p"
  by (auto simp: matchPrefix_iff has_prefix_iff)

section \<open>Pattern tables\<close>

text \<open>Every pattern but two of these tables is anchored at the start.\<close>

definition SignaturePatterns :: "regex list" where
  "SignaturePatterns =
     [seqs [opt (Seq (lit ''pub'') sp), opt (Seq (lit ''async'') sp), lit ''fn'', sp, word1],
      seqs [opt (Seq (lit ''pub'') sp), lit ''struct'', sp, word1],
      seqs [opt (Seq (lit ''pub'') sp), lit ''enum'', sp, word1],
      seqs [opt (Seq (lit ''pub'') sp), lit ''trait'', sp, word1],
      seqs [opt (Seq (lit ''pub'') sp), lit ''type'', sp, word1],
      seqs [lit ''impl'', sp],
      seqs [lit ''func'', sp, opt (seqs [lit ''('', some_of (Cls (\<lambda>c. c \<noteq> CHR '')'')), lit '')'', sp]), word1],
      seqs [lit ''type'', sp, word1, sp, alts [lit ''struct'', lit ''interface'']],
      seqs [lit ''type'', sp, word1, sp, word1],
      seqs [lit ''def'', sp, word1],
      seqs [lit ''async'', sp, lit ''def'', sp, word1],
      seqs [lit ''class'', sp, word1],
      seqs [lit ''function'', sp, word1],
      seqs [opt (Seq (lit ''export'') sp), opt (Seq (lit ''async'') sp), lit ''function'', sp0, word0],
      seqs [opt (Seq (lit ''export'') sp), opt (Seq (lit ''default'') sp), lit ''class'', sp, word1],
      seqs [opt (Seq (lit ''export'') sp), lit ''const'', sp, word1, sp0, lit ''='', sp0,
        opt (Seq (lit ''async'') sp), lit ''('', Rep (Cls (\<lambda>c. c \<noteq> CHR '')'')), lit '')'', sp0, lit ''=>''],
      seqs [lit ''interface'', sp, word1],
      seqs [lit ''type'', sp, word1, sp0, lit ''=''],
      seqs [opt (alts [lit ''public'', lit ''private'', lit ''protected'']), sp0, opt (Seq (lit ''static'') sp),
        alts [lit ''class'', lit ''interface'', lit ''enum''], sp, word1],
      seqs [opt (alts [lit ''public'', lit ''private'', lit ''protected'']), sp0, opt (Seq (lit ''static'') sp),
        opt (Seq (lit ''async'') sp), word1, sp, word1, sp0, lit ''('']]"

text \<open>A pattern with its anchor: \<open>True\<close> for a leading \<^verbatim>\<open>^\<close>.\<close>

definition ImportPatterns :: "(bool \<times> regex) list" where
  "ImportPatterns =
     [(True, seqs [lit ''use'', sp]),
      (True, seqs [lit ''import'', sp]),
      (True, seqs [lit ''from'', sp, some_of (Cls (\<lambda>c. \<not> space_char c)), sp, lit ''import'']),
      (True, lit ''require(''),
      (True, seqs [lit ''import'', sp0, lit ''('']),
      (True, seqs [lit ''import'', sp, lit [CHR 0x22]]),
      (False, seqs [lit ''#include'', sp0, lit ''<'']),
      (False, seqs [lit ''#include'', sp0, lit [CHR 0x22]]),
      (True, seqs [lit ''package'', sp])]"

definition MatchString :: "bool \<times> regex \<Rightarrow> string \<Rightarrow> bool" where
  "MatchString p s = (if fst p then matchPrefix (snd p) s else matchSearch (snd p) s)"

end
