(* ===== verification/Code_Filters.thy ===== *)
theory Code_Filters
  imports Filter_Engine Regex_Match Simd
begin

text \<open>
  The code filters of the engine: the body filter (\<^verbatim>\<open>internal/filter/brace_depth.go\<close>) and
  the import filter (\<^verbatim>\<open>internal/filter/import.go\<close>), with the ANSI filter as a filter of the
  engine. Both dispatch on the detected language; \<open>iter\<close> is the map order of the detection.
\<close>

section \<open>Function bodies\<close>

definition isFunctionStart :: "string \<Rightarrow> bool" where
  "isFunctionStart line = list_ex (\<lambda>p. matchPrefix p line) SignaturePatterns"

definition braces :: "string \<Rightarrow> int" where
  "braces line = str_count line ''{'' - str_count line ''}''"

text \<open>The signature up to its first brace, with the placeholder for the body.\<close>

definition placeholder :: "string \<Rightarrow> string" where
  "placeholder line = takeWhile (\<lambda>c. c \<noteq> CHR ''{'') line @ ''{'' @ '' /* body stripped */ }''"

fun go_bodies :: "string list \<Rightarrow> int \<Rightarrow> bool \<Rightarrow> string list \<Rightarrow> string list" where
  "go_bodies [] depth inFunc result = result"
| "go_bodies (line # lines) depth inFunc result =
     (if isFunctionStart (trimSpace line) \<and> depth = 0
      then if contains line ''{''
           then let depth = depth + braces line
                in if depth = 0 then go_bodies lines depth False (result @ [line])
                   else go_bodies lines 0 False (result @ [placeholder line])
           else go_bodies lines depth True (result @ [line])
      else if inFunc
      then let depth = depth + braces line
           in if depth \<le> 0 then go_bodies lines depth False (result @ [''}''])
              else go_bodies lines depth True result
      else go_bodies lines depth False (result @ [line]))"

definition stripGoBodies :: "string \<Rightarrow> string" where
  "stripGoBodies input = join_lines (go_bodies (split_lines input) 0 False [])"

fun rust_bodies :: "string list \<Rightarrow> int \<Rightarrow> bool \<Rightarrow> string list \<Rightarrow> string list" where
  "rust_bodies [] depth inFunc result = result"
| "rust_bodies (line # lines) depth inFunc result =
     (if isFunctionStart (trimSpace line) \<and> depth = 0
      then if contains line ''{''
           then let depth = depth + braces line
                in if depth > 0 then rust_bodies lines 0 False (result @ [placeholder line])
                   else rust_bodies lines depth True (result @ [line])
           else rust_bodies lines depth True (result @ [line])
      else if inFunc
      then let opens = str_count line ''{''; closes = str_count line ''}''
           in if depth = 0 \<and> opens > 0
              then let depth = depth + (opens - closes)
                   in if depth > 0 then rust_bodies lines 0 False (result @ [''{ /* body stripped */ }''])
                      else rust_bodies lines 0 False (result @ [line])
              else let depth = depth + (opens - closes)
                   in if depth \<le> 0 then rust_bodies lines depth False (result @ [''}''])
                      else rust_bodies lines depth True result
      else rust_bodies lines depth False (result @ [line]))"

definition stripRustBodies :: "string \<Rightarrow> string" where
  "stripRustBodies input = join_lines (rust_bodies (split_lines input) 0 False [])"

definition indent :: "string \<Rightarrow> nat" where
  "indent line = length (takeWhile (\<lambda>c. c = CHR '' '' \<or> c = CHR 0x09) line)"

fun python_bodies :: "string list \<Rightarrow> bool \<Rightarrow> nat \<Rightarrow> string list \<Rightarrow> string list" where
  "python_bodies [] inFunc funcIndent result = result"
| "python_bodies (line # lines) inFunc funcIndent result =
     (let trimmed = trimSpace line in
      if isFunctionStart trimmed
      then python_bodies lines True (indent line)
             (result @ [line, replicate (indent line + 4) CHR '' '' @ ''pass  # body stripped''])
      else if inFunc
      then if line = [] then python_bodies lines inFunc funcIndent result
           else if indent line \<le> funcIndent \<and> trimmed \<noteq> []
           then python_bodies lines False funcIndent (result @ [line])
           else python_bodies lines inFunc funcIndent result
      else python_bodies lines inFunc funcIndent (result @ [line]))"

definition stripPythonBodies :: "string \<Rightarrow> string" where
  "stripPythonBodies input = join_lines (python_bodies (split_lines input) False 0 [])"

fun js_bodies :: "string list \<Rightarrow> int \<Rightarrow> bool \<Rightarrow> string list \<Rightarrow> string list" where
  "js_bodies [] depth inFunc result = result"
| "js_bodies (line # lines) depth inFunc result =
     (if isFunctionStart (trimSpace line) \<and> depth = 0
      then if contains line ''{''
           then let depth = depth + braces line
                in if depth > 0 then js_bodies lines 0 False (result @ [placeholder line])
                   else js_bodies lines depth True (result @ [line])
           else js_bodies lines depth True (result @ [line])
      else if inFunc
      then let depth = depth + braces line
           in if depth \<le> 0 then js_bodies lines depth False (result @ [''}''])
              else js_bodies lines depth True result
      else js_bodies lines depth False (result @ [line]))"

definition stripJSBodies :: "string \<Rightarrow> string" where
  "stripJSBodies input = join_lines (js_bodies (split_lines input) 0 False [])"

text \<open>The generic version has the same loop, with a test of the brace's index that is always true.\<close>

definition stripGenericBodies :: "string \<Rightarrow> string" where
  "stripGenericBodies input = join_lines (js_bodies (split_lines input) 0 False [])"

definition body_Apply :: "((string \<times> int) list \<Rightarrow> (string \<times> int) list) \<Rightarrow> string \<Rightarrow> Mode \<Rightarrow> string \<times> int" where
  "body_Apply iter input mode =
     (if mode \<noteq> ModeAggressive then (input, 0)
      else if \<not> IsCode input then (input, 0)
      else let lang = DetectLanguageFromInput iter input;
               out = (if lang = ''go'' then stripGoBodies input
                      else if lang = ''rust'' then stripRustBodies input
                      else if lang = ''python'' then stripPythonBodies input
                      else if lang = ''javascript'' \<or> lang = ''typescript'' then stripJSBodies input
                      else stripGenericBodies input);
               tokensSaved = go_div (len input - len out) 4
           in (out, if tokensSaved < 0 then 0 else tokensSaved))"

section \<open>Imports\<close>

fun go_imports :: "string list \<Rightarrow> bool \<Rightarrow> int \<Rightarrow> string list \<Rightarrow> int \<times> string list" where
  "go_imports [] inBlock importCount result = (importCount, result)"
| "go_imports (line # lines) inBlock importCount result =
     (let trimmed = trimSpace line in
      if trimmed = ''import ('' then go_imports lines True 0 result
      else if inBlock \<and> trimmed = '')''
      then go_imports lines False importCount (if importCount > 0 then result @ [''// imports condensed''] else result)
      else if inBlock then go_imports lines inBlock (importCount + 1) result
      else if has_prefix trimmed ''import '' \<and> \<not> contains trimmed ''(''
      then go_imports lines inBlock (importCount + 1) result
      else go_imports lines inBlock importCount (result @ [line]))"

definition condenseGoImports :: "string \<Rightarrow> string" where
  "condenseGoImports input =
     (let (importCount, result) = go_imports (split_lines input) False 0 []
      in join_lines (if importCount > 0 then [] # [] # result else result))"

fun rust_imports :: "string list \<Rightarrow> bool \<Rightarrow> int \<Rightarrow> string list \<Rightarrow> int \<times> string list" where
  "rust_imports [] inUse importCount result = (importCount, result)"
| "rust_imports (line # lines) inUse importCount result =
     (let trimmed = trimSpace line in
      if has_prefix trimmed ''use ''
      then rust_imports lines (if has_suffix trimmed ''{'' then True else inUse) (importCount + 1) result
      else if inUse
      then rust_imports lines (if has_suffix trimmed ''};'' then False else inUse) importCount result
      else rust_imports lines inUse importCount (result @ [line]))"

definition with_header :: "string \<Rightarrow> int \<times> string list \<Rightarrow> string" where
  "with_header header r =
     (let (importCount, result) = r
      in join_lines (if importCount > 0 then header # [] # result else result))"

definition condenseRustImports :: "string \<Rightarrow> string" where
  "condenseRustImports input = with_header ''// imports condensed'' (rust_imports (split_lines input) False 0 [])"

text \<open>The loop of the three other condensers, which differ in what an import line is.\<close>

fun drop_imports :: "(string \<Rightarrow> bool) \<Rightarrow> string list \<Rightarrow> int \<Rightarrow> string list \<Rightarrow> int \<times> string list" where
  "drop_imports isImport [] importCount result = (importCount, result)"
| "drop_imports isImport (line # lines) importCount result =
     (if isImport (trimSpace line) then drop_imports isImport lines (importCount + 1) result
      else drop_imports isImport lines importCount (result @ [line]))"

definition python_import :: "string \<Rightarrow> bool" where
  "python_import trimmed \<longleftrightarrow> has_prefix trimmed ''import '' \<or> has_prefix trimmed ''from ''"

definition condensePythonImports :: "string \<Rightarrow> string" where
  "condensePythonImports input = with_header ''# imports condensed'' (drop_imports python_import (split_lines input) 0 [])"

definition js_import :: "string \<Rightarrow> bool" where
  "js_import trimmed \<longleftrightarrow> has_prefix trimmed ''import '' \<or> has_prefix trimmed ''export '' \<or> has_prefix trimmed ''require(''"

definition condenseJSImports :: "string \<Rightarrow> string" where
  "condenseJSImports input = with_header ''// imports condensed'' (drop_imports js_import (split_lines input) 0 [])"

definition generic_import :: "string \<Rightarrow> bool" where
  "generic_import trimmed = list_ex (\<lambda>p. MatchString p trimmed) ImportPatterns"

definition condenseGenericImports :: "string \<Rightarrow> string" where
  "condenseGenericImports input = with_header ''// imports condensed'' (drop_imports generic_import (split_lines input) 0 [])"

definition import_Apply :: "((string \<times> int) list \<Rightarrow> (string \<times> int) list) \<Rightarrow> string \<Rightarrow> string \<times> int" where
  "import_Apply iter input =
     (if \<not> IsCode input then (input, 0)
      else let lang = DetectLanguageFromInput iter input;
               out = (if lang = ''go'' then condenseGoImports input
                      else if lang = ''rust'' then condenseRustImports input
                      else if lang = ''python'' then condensePythonImports input
                      else if lang = ''javascript'' \<or> lang = ''typescript'' then condenseJSImports input
                      else condenseGenericImports input)
           in (out, go_div (len input - len out) 4))"

section \<open>What the body filter strips\<close>

text \<open>What happens to a line when every signature has its brace: nothing, or the placeholder.\<close>

definition mark_signature :: "string \<Rightarrow> string" where
  "mark_signature line = (if isFunctionStart (trimSpace line) \<and> braces line \<noteq> 0 then placeholder line else line)"

lemma go_bodies_map:
  "list_all (\<lambda>l. isFunctionStart (trimSpace l) \<longrightarrow> contains l ''{'') lines \<Longrightarrow>
     go_bodies lines 0 False result = result @ map mark_signature lines"
  by (induction lines arbitrary: result) (auto simp: mark_signature_def Let_def)

text \<open>
  The body filter strips no body of Go code written in the usual style. When every
  signature has its opening brace on the same line, the output has all the lines of the
  input: a signature whose body is on the following lines gets the comment that its body was
  stripped, and the body follows it unchanged. The filter makes such code longer.
\<close>

theorem go_bodies_are_kept:
  assumes "list_all (\<lambda>l. isFunctionStart (trimSpace l) \<longrightarrow> contains l ''{'') (split_lines input)"
  shows "stripGoBodies input = join_lines (map mark_signature (split_lines input))"
  using go_bodies_map [OF assms, of "[]"] by (simp add: stripGoBodies_def)

theorem go_bodies_are_kept_witness:
  "stripGoBodies (join_lines [''func f() {'', ''  work()'', ''}'']) =
     join_lines [''func f() { /* body stripped */ }'', ''  work()'', ''}'']"
proof -
  let ?in = "join_lines [''func f() {'', ''  work()'', ''}'']"
  have "list_all (\<lambda>l. isFunctionStart (trimSpace l) \<longrightarrow> contains l ''{'') (split_lines ?in)" by code_simp
  from go_bodies_are_kept [OF this] have "stripGoBodies ?in = join_lines (map mark_signature (split_lines ?in))" .
  also have "\<dots> = join_lines [''func f() { /* body stripped */ }'', ''  work()'', ''}'']" by code_simp
  finally show ?thesis .
qed

text \<open>
  A one-line function in JavaScript costs the line after it. Its braces balance, so the
  loop still waits for the body and takes the next line for its end: that line is replaced by a
  closing brace, which also unbalances the text.
\<close>

theorem js_line_after_function_is_lost:
  assumes "split_lines input = f # l # rest"
    and "isFunctionStart (trimSpace f)" "contains f ''{''" "braces f = 0"
    and "\<not> isFunctionStart (trimSpace l)" "braces l \<le> 0"
  shows "stripJSBodies input = join_lines (js_bodies rest (braces l) False [f, ''}'']) \<and>
    stripGenericBodies input = stripJSBodies input"
  using assms by (simp add: stripJSBodies_def stripGenericBodies_def Let_def)

theorem js_line_after_function_is_lost_witness:
  "stripJSBodies (join_lines [''function one() { return 1 }'', ''let important = 2'']) =
     join_lines [''function one() { return 1 }'', ''}'']"
proof -
  let ?f = "''function one() { return 1 }''" and ?l = "''let important = 2''"
  have "split_lines (join_lines [?f, ?l]) = ?f # ?l # []" "isFunctionStart (trimSpace ?f)" "contains ?f ''{''" "braces ?f = 0"
    "\<not> isFunctionStart (trimSpace ?l)" "braces ?l \<le> 0" by code_simp+
  from js_line_after_function_is_lost [OF this] show ?thesis by simp
qed

section \<open>What the import filter drops\<close>

text \<open>The contract of a condenser: the import lines go, the others stay in order, and a header
  tells that there were some.\<close>

locale import_condenser =
  fixes condense :: "string \<Rightarrow> string" and isImport :: "string \<Rightarrow> bool" and header :: string
  assumes condense_eq: "condense input =
      join_lines ((if list_ex (isImport \<circ> trimSpace) (split_lines input) then [header, []] else []) @
        filter (\<lambda>l. \<not> isImport (trimSpace l)) (split_lines input))"
    and header_plain: "nl \<notin> set header" "\<not> isImport (trimSpace header)" "\<not> isImport (trimSpace [])"
begin

lemma condense_lines:
  assumes "\<exists>l \<in> set (split_lines input). \<not> isImport (trimSpace l)"
  shows "split_lines (condense input) =
    (if list_ex (isImport \<circ> trimSpace) (split_lines input) then [header, []] else []) @
      filter (\<lambda>l. \<not> isImport (trimSpace l)) (split_lines input)"
proof -
  let ?ls = "(if list_ex (isImport \<circ> trimSpace) (split_lines input) then [header, []] else []) @
      filter (\<lambda>l. \<not> isImport (trimSpace l)) (split_lines input)"
  have "?ls \<noteq> []" using assms by (auto simp: filter_empty_conv)
  moreover have "\<forall>l \<in> set ?ls. nl \<notin> set l" using header_plain(1) split_no_sep by auto
  ultimately show ?thesis unfolding condense_eq by (rule split_join)
qed

text \<open>No import is left, so condensing twice is condensing once.\<close>

lemma condense_no_import:
  "list_all (\<lambda>l. \<not> isImport (trimSpace l)) (split_lines (condense input))"
proof (cases "\<exists>l \<in> set (split_lines input). \<not> isImport (trimSpace l)")
  case True
  then show ?thesis using header_plain by (auto simp: condense_lines list_all_iff)
next
  case False
  then have "list_ex (isImport \<circ> trimSpace) (split_lines input)"
    by (cases "split_lines input") auto
  moreover have "filter (\<lambda>l. \<not> isImport (trimSpace l)) (split_lines input) = []" using False by (simp add: filter_empty_conv)
  ultimately have "condense input = join_lines [header, []]" unfolding condense_eq by simp
  moreover have "split_lines (join_lines [header, []]) = [header, []]"
    using header_plain(1) by (intro split_join) auto
  ultimately show ?thesis using header_plain by simp
qed

lemma condense_twice: "condense (condense input) = condense input"
proof -
  have "\<not> list_ex (isImport \<circ> trimSpace) (split_lines (condense input))"
    using condense_no_import [of input] by (auto simp: list_ex_iff list_all_iff)
  moreover have "filter (\<lambda>l. \<not> isImport (trimSpace l)) (split_lines (condense input)) = split_lines (condense input)"
    using condense_no_import [of input] by (auto simp: filter_id_conv list_all_iff)
  ultimately show ?thesis unfolding condense_eq [of "condense input"] by simp
qed

end

lemma drop_imports_eq:
  "drop_imports isImport ls n result =
     (n + int (length (filter (isImport \<circ> trimSpace) ls)), result @ filter (\<lambda>l. \<not> isImport (trimSpace l)) ls)"
  by (induction ls arbitrary: n result) auto

lemma condenser_eq:
  "with_header header (drop_imports isImport (split_lines input) 0 []) =
     join_lines ((if list_ex (isImport \<circ> trimSpace) (split_lines input) then [header, []] else []) @
        filter (\<lambda>l. \<not> isImport (trimSpace l)) (split_lines input))"
  by (auto simp: with_header_def drop_imports_eq list_ex_iff filter_empty_conv)

interpretation python: import_condenser condensePythonImports python_import "''# imports condensed''"
proof (unfold_locales, unfold condensePythonImports_def, rule condenser_eq)
qed code_simp+

interpretation js: import_condenser condenseJSImports js_import "''// imports condensed''"
proof (unfold_locales, unfold condenseJSImports_def, rule condenser_eq)
qed code_simp+

interpretation generic: import_condenser condenseGenericImports generic_import "''// imports condensed''"
proof (unfold_locales, unfold condenseGenericImports_def, rule condenser_eq)
qed code_simp+

text \<open>
  The import condensers drop exactly what they take for imports: their output has no
  import line, every other line is kept in order below the header, and condensing a second time
  changes nothing.
\<close>

theorem import_condensers:
  assumes "(condense, isImport, header) \<in>
    {(condensePythonImports, python_import, ''# imports condensed''), (condenseJSImports, js_import, ''// imports condensed''),
     (condenseGenericImports, generic_import, ''// imports condensed'')}"
  shows "list_all (\<lambda>l. \<not> isImport (trimSpace l)) (split_lines (condense input)) \<and>
    condense (condense input) = condense input \<and>
    condense input = join_lines ((if list_ex (isImport \<circ> trimSpace) (split_lines input) then [header, []] else []) @
      filter (\<lambda>l. \<not> isImport (trimSpace l)) (split_lines input))"
  using assms python.condense_no_import python.condense_twice python.condense_eq
    js.condense_no_import js.condense_twice js.condense_eq
    generic.condense_no_import generic.condense_twice generic.condense_eq by (auto simp only: insert_iff prod.inject empty_iff)

theorem import_condensers_witness:
  "condensePythonImports (join_lines [''import os'', ''print(1)'']) = join_lines [''# imports condensed'', [], ''print(1)'']"
proof -
  have "(condensePythonImports, python_import, ''# imports condensed'') \<in>
    {(condensePythonImports, python_import, ''# imports condensed''), (condenseJSImports, js_import, ''// imports condensed''),
     (condenseGenericImports, generic_import, ''// imports condensed'')}" by simp
  from import_condensers [OF this, of "join_lines [''import os'', ''print(1)'']"]
  have "condensePythonImports (join_lines [''import os'', ''print(1)'']) =
    join_lines ((if list_ex (python_import \<circ> trimSpace) (split_lines (join_lines [''import os'', ''print(1)'']))
        then [''# imports condensed'', []] else []) @
      filter (\<lambda>l. \<not> python_import (trimSpace l)) (split_lines (join_lines [''import os'', ''print(1)''])))" by blast
  also have "\<dots> = join_lines [''# imports condensed'', [], ''print(1)'']" by code_simp
  finally show ?thesis .
qed

text \<open>
  Exports are taken for imports. Whatever a JavaScript file exports on a line of its own,
  a function or a constant with its value, is gone from the output.
\<close>

theorem js_exports_are_dropped:
  "\<not> list_ex (\<lambda>l. has_prefix (trimSpace l) ''export '') (split_lines (condenseJSImports input)) \<and>
   condenseJSImports ''export const limit = 5'' = join_lines [''// imports condensed'', []]"
proof
  show "\<not> list_ex (\<lambda>l. has_prefix (trimSpace l) ''export '') (split_lines (condenseJSImports input))"
    using js.condense_no_import [of input] by (auto simp: js_import_def list_ex_iff list_all_iff)
  show "condenseJSImports ''export const limit = 5'' = join_lines [''// imports condensed'', []]" by code_simp
qed

end
