(* ===== verification/Gist_Filter.thy ===== *)
theory Gist_Filter
  imports Pipeline_Types Go_Strings
begin

text \<open>
  The gist filter, layer 8 of the pipeline (\<^verbatim>\<open>internal/filter/gist.go\<close>): blocks of lines
  (stack traces, imports, tests, build logs, diffs, JSON) are found and replaced by a marker. The
  fields of the filter struct are set by the constructor and read by no code, so the operations
  do not take them. A map from line numbers is the set of its keys with the last value stored.
\<close>

section \<open>Blocks\<close>

record gchunk =
  ch_start :: nat
  ch_end :: nat
  ch_blockType :: string

definition isStackTraceStart :: "string \<Rightarrow> bool" where
  "isStackTraceStart line \<longleftrightarrow> contains line ''Traceback (most recent call last)'' \<or>
     contains line ''stack traceback:'' \<or> contains line ''goroutine'' \<and> contains line ''[running]''"

definition isImportBlockStart :: "string \<Rightarrow> bool" where
  "isImportBlockStart line \<longleftrightarrow> has_prefix (trimSpace line) ''import ('' \<or>
     has_prefix (trimSpace line) (''import '' @ [CHR 0x22]) \<or> has_prefix (trimSpace line) ''from '' \<or>
     has_prefix (trimSpace line) ''require(''"

definition isTestOutputStart :: "string \<Rightarrow> bool" where
  "isTestOutputStart line \<longleftrightarrow> contains line ''=== RUN'' \<or> contains line ''test session starts'' \<or>
     contains line ''PASS'' \<and> contains line ''ok''"

definition isBuildLogStart :: "string \<Rightarrow> bool" where
  "isBuildLogStart line \<longleftrightarrow> contains line ''Building'' \<or> contains line ''Compiling'' \<or> contains line ''[BUILD]''"

definition isGitDiffStart :: "string \<Rightarrow> bool" where
  "isGitDiffStart line \<longleftrightarrow> has_prefix line ''diff --git'' \<or> has_prefix line ''index '' \<or> has_prefix line ''--- a/''"

definition isJSONBlockStart :: "string \<Rightarrow> bool" where
  "isJSONBlockStart line \<longleftrightarrow> has_prefix (trimSpace line) ''{'' \<or> has_prefix (trimSpace line) ''[''"

definition isBlockEnd :: "string \<Rightarrow> string \<Rightarrow> bool" where
  "isBlockEnd line blockType \<longleftrightarrow>
     (if blockType = ''stack_trace'' then trimSpace line = [] \<and> length line = 0
      else if blockType = ''import_block'' then contains line '')'' \<and> \<not> contains line ''(''
      else if blockType = ''json_block''
      then has_suffix (trimSpace line) ''}'' \<or> has_suffix (trimSpace line) '']''
      else trimSpace line = [])"

definition blockStart :: "string \<Rightarrow> string option" where
  "blockStart line =
     (if isStackTraceStart line then Some ''stack_trace''
      else if isImportBlockStart line then Some ''import_block''
      else if isTestOutputStart line then Some ''test_output''
      else if isBuildLogStart line then Some ''build_log''
      else if isGitDiffStart line then Some ''git_diff''
      else if isJSONBlockStart line then Some ''json_block''
      else None)"

text \<open>The scan over the lines; the open block is its start and type, and \<open>n\<close> the number of
  lines.\<close>

fun chunks_loop :: "nat \<Rightarrow> string list \<Rightarrow> nat \<Rightarrow> (nat \<times> string) option \<Rightarrow> gchunk list \<Rightarrow> gchunk list" where
  "chunks_loop n [] i current chunks =
     (case current of
        None \<Rightarrow> chunks
      | Some (start, blockType) \<Rightarrow> chunks @ [\<lparr>ch_start = start, ch_end = n - 1, ch_blockType = blockType\<rparr>])"
| "chunks_loop n (line # lines) i current chunks =
     (case current of
        None \<Rightarrow> chunks_loop n lines (i + 1) (map_option (Pair i) (blockStart line)) chunks
      | Some (start, blockType) \<Rightarrow>
          (if isBlockEnd line blockType
           then chunks_loop n lines (i + 1) None
                  (chunks @ [\<lparr>ch_start = start, ch_end = i, ch_blockType = blockType\<rparr>])
           else chunks_loop n lines (i + 1) current chunks))"

definition identifyChunks :: "string \<Rightarrow> gchunk list" where
  "identifyChunks input = (let lines = split_lines input in chunks_loop (length lines) lines 0 None [])"

section \<open>Gists\<close>

definition gistForType :: "string \<Rightarrow> string" where
  "gistForType blockType =
     (if blockType = ''stack_trace'' then ''[stack trace]''
      else if blockType = ''import_block'' then ''[imports]''
      else if blockType = ''test_output'' then ''[test results]''
      else if blockType = ''build_log'' then ''[build output]''
      else if blockType = ''git_diff'' then ''[diff]''
      else if blockType = ''json_block'' then ''[json]''
      else ''[...]'')"

fun countChunkLines :: "gchunk list \<Rightarrow> string \<Rightarrow> nat \<Rightarrow> int" where
  "countChunkLines [] blockType startLine = 0"
| "countChunkLines (c # cs) blockType startLine =
     (if ch_start c = startLine \<and> ch_blockType c = blockType then int (ch_end c) - int (ch_start c) + 1
      else countChunkLines cs blockType startLine)"

definition is_gisted :: "Mode \<Rightarrow> gchunk \<Rightarrow> bool" where
  "is_gisted mode c \<longleftrightarrow> mode = ModeAggressive \<or> int (ch_end c) - int (ch_start c) > 20"

text \<open>The maps \<^verbatim>\<open>inChunk\<close> and \<^verbatim>\<open>chunkTypes\<close>: the type of the last gisted chunk with
  the line in it.\<close>

definition chunkTypes :: "Mode \<Rightarrow> gchunk list \<Rightarrow> nat \<Rightarrow> string option" where
  "chunkTypes mode chunks i =
     foldl (\<lambda>t c. if is_gisted mode c \<and> ch_start c \<le> i \<and> i \<le> ch_end c then Some (ch_blockType c) else t) None chunks"

definition gist_line :: "string \<Rightarrow> int \<Rightarrow> string" where
  "gist_line blockType n = gistForType blockType @ '' ('' @ itoa n @ '' lines)''"

fun gist_loop :: "gchunk list \<Rightarrow> (nat \<Rightarrow> string option) \<Rightarrow> string list \<Rightarrow> nat \<Rightarrow> int \<Rightarrow> string list \<Rightarrow> string list" where
  "gist_loop chunks types [] i lastGisted result = result"
| "gist_loop chunks types (line # lines) i lastGisted result =
     (case types i of
        Some t \<Rightarrow>
          gist_loop chunks types lines (i + 1) (int i)
            (if lastGisted < int i - 1 then result @ [gist_line t (countChunkLines chunks t i)] else result)
      | None \<Rightarrow> gist_loop chunks types lines (i + 1) lastGisted (result @ [line]))"

definition createGist :: "string \<Rightarrow> gchunk list \<Rightarrow> Mode \<Rightarrow> string" where
  "createGist input chunks mode =
     join_lines (gist_loop chunks (chunkTypes mode chunks) (split_lines input) 0 (-1) [])"

definition gist_Apply :: "(string \<Rightarrow> int) \<Rightarrow> string \<Rightarrow> Mode \<Rightarrow> string \<times> int" where
  "gist_Apply est input mode =
     (if mode = ModeNone then (input, 0)
      else let chunks = identifyChunks input;
               out = createGist input chunks mode;
               saved = est input - est out
           in (out, if saved < 0 then 0 else saved))"

section \<open>Chunks are blocks of the text\<close>

definition chunks_ok :: "nat \<Rightarrow> gchunk list \<Rightarrow> bool" where
  "chunks_ok n cs \<longleftrightarrow> sorted_wrt (\<lambda>c d. ch_end c < ch_start d) cs \<and> (\<forall>c \<in> set cs. ch_start c \<le> ch_end c \<and> ch_end c < n)"

lemma chunks_loop_ok:
  assumes "chunks_ok n chunks" "i + length lines = n"
    and "\<forall>c \<in> set chunks. ch_end c < i"
    and "\<forall>start t. current = Some (start, t) \<longrightarrow> start < i \<and> (\<forall>c \<in> set chunks. ch_end c < start)"
  shows "chunks_ok n (chunks_loop n lines i current chunks)"
  using assms
proof (induction n lines i current chunks rule: chunks_loop.induct)
  case (1 n i current chunks)
  then show ?case by (auto simp: chunks_ok_def sorted_wrt_append split: option.splits)
next
  case (2 n line lines i current chunks)
  show ?case
  proof (cases current)
    case None
    then show ?thesis using 2 by (auto simp: less_Suc_eq)
  next
    case (Some st)
    then obtain start t where st: "current = Some (start, t)" by (cases st) auto
    show ?thesis
    proof (cases "isBlockEnd line t")
      case True
      have "chunks_ok n (chunks @ [\<lparr>ch_start = start, ch_end = i, ch_blockType = t\<rparr>])"
        using 2(4-7) st by (auto simp: chunks_ok_def sorted_wrt_append)
      then show ?thesis using 2(2) [OF st refl True] 2(5-7) st True by (auto simp: less_Suc_eq)
    next
      case False
      then show ?thesis using 2(3) [OF st refl False] 2(4-7) st by (auto simp: less_Suc_eq)
    qed
  qed
qed

lemma identifyChunks_ok: "chunks_ok (length (split_lines input)) (identifyChunks input)"
  unfolding identifyChunks_def Let_def by (rule chunks_loop_ok) (auto simp: chunks_ok_def)

lemma chunkTypes_some:
  "chunkTypes mode chunks i \<noteq> None \<longleftrightarrow> (\<exists>c \<in> set chunks. is_gisted mode c \<and> ch_start c \<le> i \<and> i \<le> ch_end c)"
proof -
  let ?f = "\<lambda>t c. if is_gisted mode c \<and> ch_start c \<le> i \<and> i \<le> ch_end c then Some (ch_blockType c) else t"
  have "foldl ?f t chunks \<noteq> None \<longleftrightarrow> t \<noteq> None \<or> (\<exists>c \<in> set chunks. is_gisted mode c \<and> ch_start c \<le> i \<and> i \<le> ch_end c)" for t
    by (induction chunks arbitrary: t) auto
  then show ?thesis by (simp add: chunkTypes_def)
qed

text \<open>What becomes of line \<open>i\<close>: a line outside the gisted blocks stays, the first line of
  a run of gisted lines becomes the marker, the others go. A run at the top has no marker.\<close>

definition gist_of_line :: "gchunk list \<Rightarrow> (nat \<Rightarrow> string option) \<Rightarrow> nat \<times> string \<Rightarrow> string list" where
  "gist_of_line chunks types p = (case p of (i, line) \<Rightarrow>
     (case types i of
        None \<Rightarrow> [line]
      | Some t \<Rightarrow> (if 0 < i \<and> types (i - 1) = None then [gist_line t (countChunkLines chunks t i)] else [])))"

lemma gist_loop_eq:
  assumes "lastGisted < int i" "lastGisted = int i - 1 \<longleftrightarrow> i = 0 \<or> types (i - 1) \<noteq> None"
  shows "gist_loop chunks types lines i lastGisted result =
    result @ concat (map (gist_of_line chunks types) (enumerate i lines))"
  using assms
proof (induction lines arbitrary: i lastGisted result)
  case (Cons line lines)
  have cut: "lastGisted < int i - 1 \<longleftrightarrow> 0 < i \<and> types (i - 1) = None" using Cons.prems by linarith
  show ?case
  proof (cases "types i")
    case None
    then show ?thesis using Cons.IH [of lastGisted "i + 1"] Cons.prems by (simp add: gist_of_line_def)
  next
    case (Some t)
    then show ?thesis using Cons.IH [of "int i" "i + 1"] cut by (simp add: gist_of_line_def)
  qed
qed simp

text \<open>
  The gist filter works line by line on what is in a gisted block: lines outside the
  blocks are kept as they are and in order, every run of gisted lines below the top of the text
  becomes one marker line with the kind of the block it starts with, and nothing else appears.
  The blocks are disjoint ranges of lines of the text. The reported saving is never negative.
\<close>

theorem gist_line_by_line:
  assumes "mode \<noteq> ModeNone" "chunks = identifyChunks input" "types = chunkTypes mode chunks"
  shows "gist_Apply est input mode =
      (let out = join_lines (concat (map (gist_of_line chunks types) (enumerate 0 (split_lines input))))
       in (out, max 0 (est input - est out))) \<and>
    sorted_wrt (\<lambda>c d. ch_end c < ch_start d) chunks \<and>
    (\<forall>i. types i \<noteq> None \<longleftrightarrow> (\<exists>c \<in> set chunks. is_gisted mode c \<and> ch_start c \<le> i \<and> i \<le> ch_end c))"
proof -
  have "createGist input chunks mode = join_lines (concat (map (gist_of_line chunks types) (enumerate 0 (split_lines input))))"
    using gist_loop_eq [of "-1" 0 types chunks "split_lines input" "[]"] by (simp add: createGist_def assms(3))
  then have "gist_Apply est input mode =
      (let out = join_lines (concat (map (gist_of_line chunks types) (enumerate 0 (split_lines input))))
       in (out, max 0 (est input - est out)))"
    using assms(1,2) by (simp add: gist_Apply_def Let_def)
  then show ?thesis
    using identifyChunks_ok [of input] chunkTypes_some by (simp add: assms chunks_ok_def)
qed

theorem gist_line_by_line_witness:
  "fst (gist_Apply heuristicTokens (join_lines [''head'', ''{'', ''}'', ''tail'']) ModeAggressive) =
     join_lines [''head'', ''[json] (2 lines)'', ''tail'']"
proof -
  let ?in = "join_lines [''head'', ''{'', ''}'', ''tail'']"
  have "ModeAggressive \<noteq> ModeNone" by code_simp
  note spec = gist_line_by_line [OF this refl refl, of heuristicTokens ?in, THEN conjunct1]
  have "fst (gist_Apply heuristicTokens ?in ModeAggressive) = join_lines (concat (map (gist_of_line (identifyChunks ?in)
      (chunkTypes ModeAggressive (identifyChunks ?in))) (enumerate 0 (split_lines ?in))))" by (simp only: spec Let_def fst_conv)
  also have "\<dots> = join_lines [''head'', ''[json] (2 lines)'', ''tail'']" by code_simp
  finally show ?thesis .
qed

lemma chunks_loop_one:
  assumes "list_all (\<lambda>l. \<not> isBlockEnd l t) (butlast lines)" "i + length lines = n" "lines \<noteq> []"
  shows "chunks_loop n lines i (Some (start, t)) [] = [\<lparr>ch_start = start, ch_end = n - 1, ch_blockType = t\<rparr>]"
  using assms
proof (induction lines arbitrary: i)
  case (Cons l ls)
  then show ?case by (cases ls) auto
qed simp

text \<open>
  A block at the top of the text vanishes. The marker is written when the line before
  is not gisted, and the code takes the line before the first for gisted: in aggressive mode a
  text that is one block, such as a JSON document, becomes the empty text, with no marker, and
  all its tokens are reported as saved.
\<close>

theorem gist_top_block_vanishes:
  assumes "split_lines input = l # ls" "blockStart l = Some t" "ls \<noteq> []"
    and "list_all (\<lambda>l. \<not> isBlockEnd l t) (butlast ls)"
  shows "gist_Apply est input ModeAggressive = ([], max 0 (est input - est []))"
proof -
  let ?c = "\<lparr>ch_start = 0, ch_end = length ls, ch_blockType = t\<rparr>"
  have chunks: "identifyChunks input = [?c]"
    using chunks_loop_one [OF assms(4) _ assms(3), of 1 "length (l # ls)" 0] assms(1,2) by (simp add: identifyChunks_def)
  have types: "chunkTypes ModeAggressive [?c] i \<noteq> None \<longleftrightarrow> i \<le> length ls" for i
    by (subst chunkTypes_some) (simp add: is_gisted_def)
  have "gist_of_line [?c] (chunkTypes ModeAggressive [?c]) p = []" if "p \<in> set (enumerate 0 (split_lines input))" for p
  proof -
    from that have "fst p \<le> length ls" using assms(1) by (auto simp: in_set_enumerate_eq)
    then show ?thesis using types [of "fst p"] types [of "fst p - 1"]
      by (cases p) (auto simp: gist_of_line_def split: option.split)
  qed
  then have none: "concat (map (gist_of_line [?c] (chunkTypes ModeAggressive [?c])) (enumerate 0 (split_lines input))) = []" by simp
  have "gist_loop [?c] (chunkTypes ModeAggressive [?c]) (split_lines input) 0 (-1) [] =
      [] @ concat (map (gist_of_line [?c] (chunkTypes ModeAggressive [?c])) (enumerate 0 (split_lines input)))"
    by (rule gist_loop_eq) simp_all
  then have "createGist input [?c] ModeAggressive = []" unfolding createGist_def none by simp
  then show ?thesis using chunks by (simp add: gist_Apply_def Let_def ModeAggressive_def ModeNone_def)
qed

theorem gist_top_block_vanishes_witness:
  "gist_Apply heuristicTokens (join_lines [''{'', ''  result: 42'', ''}'']) ModeAggressive = ([], 4)"
proof -
  let ?in = "join_lines [''{'', ''  result: 42'', ''}'']"
  have "split_lines ?in = ''{'' # [''  result: 42'', ''}'']" "blockStart ''{'' = Some ''json_block''"
    "list_all (\<lambda>l. \<not> isBlockEnd l ''json_block'') (butlast [''  result: 42'', ''}''])"
    "max 0 (heuristicTokens ?in - heuristicTokens []) = 4" by code_simp+
  with gist_top_block_vanishes [of ?in "''{''" "[''  result: 42'', ''}'']" "''json_block''" heuristicTokens]
  show ?thesis by simp
qed

text \<open>
  The filter does not satisfy the contract of the pipeline's layers: a marker can be longer than the
  block it replaces, and then the loss is reported as a saving of zero.
\<close>

theorem gist_not_honest: "\<not> honest_filter heuristicTokens (gist_Apply heuristicTokens)"
proof
  let ?in = "join_lines [''a'', ''{'', ''}'']"
  assume "honest_filter heuristicTokens (gist_Apply heuristicTokens)"
  then have "0 = heuristicTokens ?in - heuristicTokens (join_lines [''a'', ''[json] (2 lines)''])"
  proof (rule honest_filter.honest)
    show "gist_Apply heuristicTokens ?in ModeAggressive = (join_lines [''a'', ''[json] (2 lines)''], 0)" by code_simp
  qed
  moreover have "heuristicTokens ?in - heuristicTokens (join_lines [''a'', ''[json] (2 lines)'']) \<noteq> 0" by code_simp
  ultimately show False by simp
qed

end
