(* ===== verification/Scope_Filter.thy ===== *)
theory Scope_Filter
  imports Pipeline_Types Go_Strings
begin

text \<open>
  The SCOPE filter (\<^verbatim>\<open>internal/filter/scope_filter.go\<close>): a text is taken for initial context
  (code) or for a conversation, and compressed accordingly. A slice out of range panics, which is
  \<open>None\<close>. Arguments: \<open>est\<close> the token estimate, \<open>lower\<close> for
  \<^verbatim>\<open>strings.ToLower\<close>, \<open>num\<close> for \<^verbatim>\<open>isNumber\<close> of \<^verbatim>\<open>attribution.go\<close>,
  which asks the Unicode tables for digits.
\<close>

record ScopeConfig =
  scope_Enabled :: bool
  scope_PrefillBudgetRatio :: rat
  scope_DecodeBudgetRatio :: rat
  scope_ConversationTurns :: int
  scope_MinContentLength :: int

datatype ScopeMode = ScopePrefill | ScopeDecode

definition DefaultScopeConfig :: ScopeConfig where
  "DefaultScopeConfig = \<lparr>scope_Enabled = True, scope_PrefillBudgetRatio = f64 (3 / 2),
     scope_DecodeBudgetRatio = f64 (6 / 10), scope_ConversationTurns = 3, scope_MinContentLength = 200\<rparr>"

definition scopeMarkers :: "string list" where
  "scopeMarkers = [''User:'', ''Assistant:'', ''Human:'', ''AI:'', ''System:'', ''>>> '', ''## '', ''### '']"

definition scopeCode :: "string list" where
  "scopeCode = [''func '', ''function '', ''def '', ''class '', ''struct '', ''import '', ''package '', ''module '',
     [CHR 0x60, CHR 0x60, CHR 0x60], ''type '', ''interface '']"

definition detectMode :: "ScopeConfig \<Rightarrow> string \<Rightarrow> ScopeMode" where
  "detectMode cfg input =
     (let markerCount = foldl (\<lambda>n marker. n + str_count input marker) 0 scopeMarkers;
          codeCount = foldl (\<lambda>n indicator. if contains input indicator then n + 1 else n) (0::int) scopeCode
      in if codeCount > markerCount then ScopePrefill
         else if markerCount \<ge> scope_ConversationTurns cfg then ScopeDecode
         else ScopePrefill)"

definition isCommentLine :: "string \<Rightarrow> bool" where
  "isCommentLine line = list_ex (has_prefix line) [''//'', ''#'', ''/*'', ''*'', ''<!--'', ''-->'']"

definition compressPrefill :: "(string \<Rightarrow> int) \<Rightarrow> string \<Rightarrow> Mode \<Rightarrow> string \<times> int" where
  "compressPrefill est input mode =
     (let drop_line = (\<lambda>line. let trimmed = trimSpace line
                       in trimmed = [] \<and> mode = ModeAggressive \<or> mode = ModeAggressive \<and> isCommentLine trimmed);
          result = concat (map (\<lambda>line. line @ [nl]) (filter (\<lambda>l. \<not> drop_line l) (split_lines input)));
          out = trimSpace result
      in (out, est input - est out))"

definition important_line :: "(string \<Rightarrow> string) \<Rightarrow> (string \<Rightarrow> bool) \<Rightarrow> string \<Rightarrow> bool" where
  "important_line lower num trimmed \<longleftrightarrow> trimmed \<noteq> [] \<and>
     (contains (lower trimmed) ''error'' \<or> contains (lower trimmed) ''warn'' \<or> contains (lower trimmed) ''fail'' \<or>
      contains trimmed ''/'' \<or> contains trimmed '':'' \<or> num trimmed)"

definition compressOlderLines :: "(string \<Rightarrow> string) \<Rightarrow> (string \<Rightarrow> bool) \<Rightarrow> string list \<Rightarrow> string" where
  "compressOlderLines lower num lines =
     (if lines = [] then [] else join_lines (filter (important_line lower num) (map trimSpace lines)))"

definition keepRecent :: "nat \<Rightarrow> int" where
  "keepRecent n = (let k = go_trunc (fmul (of_int64 (int n)) (f64 (3 / 10))) in if k < 3 then 3 else k)"

definition compressDecode ::
  "(string \<Rightarrow> int) \<Rightarrow> (string \<Rightarrow> string) \<Rightarrow> (string \<Rightarrow> bool) \<Rightarrow> string \<Rightarrow> (string \<times> int) option" where
  "compressDecode est lower num input =
     (let lines = split_lines input;
          split = len lines - keepRecent (length lines)
      in if split < 0 then None
         else let compressed = compressOlderLines lower num (take (nat split) lines);
                  result = (if compressed \<noteq> []
                            then compressed @ [nl] @ ''[... earlier context compressed ...]'' @ [nl, nl] else []) @
                           concat (map (\<lambda>line. line @ [nl]) (drop (nat split) lines));
                  out = trimSpace result
              in Some (out, est input - est out))"

definition scope_Apply ::
  "(string \<Rightarrow> int) \<Rightarrow> (string \<Rightarrow> string) \<Rightarrow> (string \<Rightarrow> bool) \<Rightarrow> ScopeConfig \<Rightarrow> string \<Rightarrow> Mode \<Rightarrow> (string \<times> int) option" where
  "scope_Apply est lower num cfg input mode =
     (if \<not> scope_Enabled cfg \<or> mode = ModeNone then Some (input, 0)
      else if len input < scope_MinContentLength cfg then Some (input, 0)
      else case detectMode cfg input of
             ScopePrefill \<Rightarrow> Some (compressPrefill est input mode)
           | ScopeDecode \<Rightarrow> compressDecode est lower num input)"

section \<open>When it panics\<close>

text \<open>The number of recent lines is within the number of lines, from three lines on.\<close>

lemma keepRecent_le:
  assumes "3 \<le> n" "n < 2 ^ 53"
  shows "3 \<le> keepRecent n \<and> keepRecent n \<le> int n"
proof -
  have exact: "of_int64 (int n) = of_int (int n)"
    using assms(2) f64_of_int [of "int n"] by (simp add: of_int64_def)
  have "f64 (3 / 10) \<le> 1" using f64_mono [of "3 / 10" 1] by simp
  then have "of_int (int n) * f64 (3 / 10) \<le> (of_int (int n) :: rat)"
    by (simp add: mult_left_le)
  then have "fmul (of_int64 (int n)) (f64 (3 / 10)) \<le> of_int (int n)"
    using f64_mono [of "of_int (int n) * f64 (3 / 10)" "of_int (int n)"] f64_of_int [of "int n"] assms(2)
    by (simp add: fmul_def exact)
  moreover have "0 \<le> fmul (of_int64 (int n)) (f64 (3 / 10))"
    by (simp add: fmul_def exact)
  ultimately have "go_trunc (fmul (of_int64 (int n)) (f64 (3 / 10))) \<le> int n"
    by (simp add: go_trunc_def floor_le_iff)
  then show ?thesis using assms(1) by (simp add: keepRecent_def Let_def)
qed

text \<open>
  The filter panics on short conversations, and only there: it slices the lines at
  their number minus the recent ones, which are at least three, so a conversation of one or two
  lines, long enough to be compressed, crashes the program. In every other case it returns,
  and reports the difference of the token estimates.
\<close>

theorem scope_panics_on_short_conversations:
  assumes "length (split_lines input) < 2 ^ 53"
  shows "(scope_Apply est lower num cfg input mode = None \<longleftrightarrow>
      scope_Enabled cfg \<and> mode \<noteq> ModeNone \<and> scope_MinContentLength cfg \<le> len input \<and>
      detectMode cfg input = ScopeDecode \<and> length (split_lines input) < 3) \<and>
    (\<forall>out saved. scope_Apply est lower num cfg input mode = Some (out, saved) \<longrightarrow>
      out = input \<and> saved = 0 \<or> saved = est input - est out)"
proof -
  have short: "int n < keepRecent n" if "n < 3" for n using that by (simp add: keepRecent_def Let_def)
  have decode: "compressDecode est lower num input = None \<longleftrightarrow> length (split_lines input) < 3"
    using short keepRecent_le [OF _ assms] by (force simp: compressDecode_def Let_def)
  have "saved = est input - est out" if "compressDecode est lower num input = Some (out, saved)" for out saved
    using that by (auto simp: compressDecode_def Let_def split: if_splits)
  moreover have "saved = est input - est out" if "compressPrefill est input mode = (out, saved)" for out saved
    using that by (auto simp: compressPrefill_def Let_def)
  ultimately show ?thesis using decode
    by (cases "detectMode cfg input") (auto simp: scope_Apply_def)
qed

theorem scope_panics_on_short_conversations_witness:
  "scope_Apply heuristicTokens id (\<lambda>_. False) DefaultScopeConfig
     (''User: a Assistant: b User: '' @ replicate 200 CHR ''x'') ModeMinimal = None"
proof -
  let ?in = "''User: a Assistant: b User: '' @ replicate 200 CHR ''x''"
  have ls: "length (split_lines ?in) = 1" "detectMode DefaultScopeConfig ?in = ScopeDecode" "ModeMinimal \<noteq> ModeNone"
    by code_simp+
  moreover have "scope_Enabled DefaultScopeConfig" "scope_MinContentLength DefaultScopeConfig \<le> len ?in"
    by (simp_all add: DefaultScopeConfig_def)
  moreover have "length (split_lines ?in) < 2 ^ 53" using ls(1) by simp
  ultimately show ?thesis
    using scope_panics_on_short_conversations [of ?in heuristicTokens id "\<lambda>_. False" DefaultScopeConfig ModeMinimal] by simp
qed

end
