(* ===== verification/KV_Cache.thy ===== *)
theory KV_Cache
  imports Pipeline_Correct Dedup Go_Strings
begin

text \<open>
  The KV-cache aligner (\<^verbatim>\<open>internal/filter/kv_cache.go\<close>): the leading lines of a prompt that
  do not change between requests are kept byte for byte, so that a provider's prompt cache hits,
  and only the rest is compressed. \<open>lower\<close> is \<^verbatim>\<open>strings.ToLower\<close>.
\<close>

record KVCacheConfig =
  kvc_Enabled :: bool
  kvc_MinPrefixLength :: int
  kvc_MaxDynamicSuffix :: int
  kvc_SplitThreshold :: int

definition DefaultKVCacheConfig :: KVCacheConfig where
  "DefaultKVCacheConfig = \<lparr>kvc_Enabled = True, kvc_MinPrefixLength = 100, kvc_MaxDynamicSuffix = 500,
     kvc_SplitThreshold = 200\<rparr>"

definition dynamicPatterns :: "string list" where
  "dynamicPatterns = [''timestamp'', ''date:'', ''time:'', ''file:'', ''path:'', ''line:'', ''error:'', ''output:'',
     ''result:'', ''status:'', ''pid:'', ''port:'', ''ip:'', ''hash:'', ''token:'']"

definition isStableLine :: "(string \<Rightarrow> string) \<Rightarrow> string \<Rightarrow> bool" where
  "isStableLine lower line =
     (let line = trimSpace line
      in if length line = 0 then True
         else if int (length (filter is_digit line)) > go_div (len line) 3 then False
         else \<not> contains_any (lower line) dynamicPatterns)"

definition CacheabilityScore :: "(string \<Rightarrow> string) \<Rightarrow> string \<Rightarrow> int" where
  "CacheabilityScore lower content =
     (if length content = 0 then 100
      else let lines = split_lines content;
               stableLines = int (length (filter (isStableLine lower) lines));
               ratio = fdiv (of_int64 stableLines) (of_int64 (len lines));
               score = go_trunc (fmul ratio 100);
               score = (if contains content ''You are a'' \<or> contains content ''System:'' then min (score + 10) 100 else score);
               score = (if contains content ''timestamp'' \<or> contains content ''file_path'' then max (score - 20) 0 else score)
           in score)"

definition staticMarks :: "string list" where
  "staticMarks = [''You are a'', ''System:'', ''Instructions:'', ''Rules:'', ''Guidelines:'', ''Context:'', ''Role:'', ''Task:'']"

definition dynamicMarks :: "string list" where
  "dynamicMarks = [''timestamp:'', ''file_path:'', ''line:'', ''error:'', ''output:'', ''result:'', ''response:'', ''current'']"

definition ClassifyContent :: "(string \<Rightarrow> string) \<Rightarrow> string \<Rightarrow> bool \<times> rat" where
  "ClassifyContent lower content =
     (if length content = 0 then (True, 1)
      else let contentLower = lower content;
               staticScore = int (length (filter (\<lambda>p. contains contentLower (lower p)) staticMarks));
               dynamicScore = int (length (filter (\<lambda>p. contains contentLower (lower p)) dynamicMarks));
               total = staticScore + dynamicScore
           in if total = 0 then (True, 1 / 2)
              else (staticScore > dynamicScore, fdiv (of_int64 staticScore) (of_int64 total)))"

text \<open>The sum of \<^verbatim>\<open>hash/fnv\<close>, most significant byte first.\<close>

definition computeCacheKey :: "string \<Rightarrow> string" where
  "computeCacheKey content =
     map (\<lambda>i. char_of (unat (drop_bit (8 * (7 - i)) (fnv64a content)) mod 256)) [0..<8]"

text \<open>The first line that is not stable, or the number of lines.\<close>

definition first_dynamic :: "(string \<Rightarrow> string) \<Rightarrow> string list \<Rightarrow> int" where
  "first_dynamic lower lines = len (takeWhile (isStableLine lower) lines)"

definition splitIndex :: "(string \<Rightarrow> string) \<Rightarrow> KVCacheConfig \<Rightarrow> string list \<Rightarrow> int" where
  "splitIndex lower cfg lines =
     (let splitIdx = first_dynamic lower lines;
          splitIdx = (if splitIdx = len lines \<and> len lines > 10 then go_div (len lines) 2 else splitIdx);
          minLines = go_div (kvc_MinPrefixLength cfg) 20
      in if splitIdx < minLines \<and> len lines > minLines then minLines else splitIdx)"

definition AlignPrefix :: "(string \<Rightarrow> string) \<Rightarrow> KVCacheConfig \<Rightarrow> string \<Rightarrow> string \<times> string \<times> string" where
  "AlignPrefix lower cfg content =
     (if \<not> kvc_Enabled cfg \<or> len content < kvc_SplitThreshold cfg then (content, [], [])
      else let lines = split_lines content
           in if length lines < 5 then (content, [], [])
              else let splitIdx = splitIndex lower cfg lines;
                       prefix = join_lines (take (nat splitIdx) lines);
                       suffix = (if splitIdx < len lines then join_lines (drop (nat splitIdx) lines) else [])
                   in (prefix, suffix, computeCacheKey prefix))"

definition CacheAwareCompress ::
  "(string \<Rightarrow> int) \<Rightarrow> (string \<Rightarrow> string) \<Rightarrow> KVCacheConfig \<Rightarrow> string \<Rightarrow> PipelineCoordinator
     \<Rightarrow> (string \<times> int \<times> PipelineCoordinator) option" where
  "CacheAwareCompress est lower cfg content p =
     (let (prefix, suffix, _) = AlignPrefix lower cfg content
      in if suffix = [] then Some (content, 0, p)
         else case Process est lower p suffix of
                None \<Rightarrow> None
              | Some (compressedSuffix, stats, p') \<Rightarrow>
                  Some (if compressedSuffix \<noteq> [] then prefix @ [nl] @ compressedSuffix else prefix, TotalSaved stats, p'))"

definition EstimateCacheHitRate :: "(string \<Rightarrow> string) \<Rightarrow> string \<Rightarrow> rat" where
  "EstimateCacheHitRate lower content =
     fmul (fdiv (of_int64 (CacheabilityScore lower content)) 100) (f64 (9 / 10))"

section \<open>The split\<close>

lemma splitIndex_bounds:
  "lines \<noteq> [] \<Longrightarrow> 0 \<le> splitIndex lower cfg lines \<and> splitIndex lower cfg lines \<le> len lines"
  using length_takeWhile_le [of "isStableLine lower" lines] by (auto simp: splitIndex_def first_dynamic_def Let_def)

lemma AlignPrefix_split:
  assumes "AlignPrefix lower cfg content = (pre, suf, key)" "suf \<noteq> []"
  obtains k where "0 \<le> k" "k < length (split_lines content)"
    "pre = join_lines (take k (split_lines content))" "suf = join_lines (drop k (split_lines content))"
    "key = computeCacheKey pre"
proof -
  let ?k = "nat (splitIndex lower cfg (split_lines content))"
  have b: "0 \<le> splitIndex lower cfg (split_lines content)" using splitIndex_bounds [of "split_lines content"] by simp
  have "splitIndex lower cfg (split_lines content) < len (split_lines content)"
    and "pre = join_lines (take ?k (split_lines content))" "suf = join_lines (drop ?k (split_lines content))"
    "key = computeCacheKey pre"
    using assms by (auto simp: AlignPrefix_def Let_def split: if_splits)
  then show ?thesis using that [of ?k] b by simp
qed

text \<open>
  The aligner splits at a line break and loses nothing: when there is a dynamic part, the
  stable part and the dynamic part are consecutive lines of the content, which they give back
  joined by the line break between them.
\<close>

theorem AlignPrefix_reassembles:
  assumes "AlignPrefix lower cfg content = (pre, suf, key)" "suf \<noteq> []"
  shows "\<exists>k. pre = join_lines (take k (split_lines content)) \<and> suf = join_lines (drop k (split_lines content)) \<and>
    (0 < k \<longrightarrow> pre @ [nl] @ suf = content) \<and> (k = 0 \<longrightarrow> suf = content)"
proof (rule AlignPrefix_split [OF assms])
  fix k assume k: "k < length (split_lines content)" "pre = join_lines (take k (split_lines content))"
    "suf = join_lines (drop k (split_lines content))"
  have "join_lines (take k (split_lines content) @ drop k (split_lines content)) = pre @ [nl] @ suf" if "0 < k"
    using that k by (subst join_append) auto
  then have "pre @ [nl] @ suf = content" if "0 < k" using that by simp
  then show ?thesis using k by (intro exI [of _ k]) auto
qed

definition demo_prompt :: string where
  "demo_prompt = join_lines [''You are a helper'', ''a'', ''b'', ''c'', ''d'', ''time: 1'', ''x'']"

definition demo_pre :: string where "demo_pre = join_lines [''You are a helper'', ''a'', ''b'', ''c'', ''d'']"
definition demo_suf :: string where "demo_suf = join_lines [''time: 1'', ''x'']"
definition demo_kv :: KVCacheConfig where "demo_kv = DefaultKVCacheConfig\<lparr>kvc_SplitThreshold := 0\<rparr>"

lemma demo_align: "AlignPrefix id demo_kv demo_prompt = (demo_pre, demo_suf, computeCacheKey demo_pre)" "demo_suf \<noteq> []"
proof -
  have "splitIndex id demo_kv (split_lines demo_prompt) = 5" "length (split_lines demo_prompt) = 7"
    "join_lines (take 5 (split_lines demo_prompt)) = demo_pre" "join_lines (drop 5 (split_lines demo_prompt)) = demo_suf"
    by code_simp+
  moreover have "kvc_Enabled demo_kv" "kvc_SplitThreshold demo_kv = 0"
    by (simp_all add: demo_kv_def DefaultKVCacheConfig_def)
  ultimately show "AlignPrefix id demo_kv demo_prompt = (demo_pre, demo_suf, computeCacheKey demo_pre)"
    by (simp add: AlignPrefix_def Let_def)
  show "demo_suf \<noteq> []" by code_simp
qed

theorem AlignPrefix_reassembles_witness: "demo_pre @ [nl] @ demo_suf = demo_prompt"
proof -
  have "demo_pre \<noteq> []" by code_simp
  moreover obtain k where "demo_pre = join_lines (take k (split_lines demo_prompt))" "0 < k \<longrightarrow> demo_pre @ [nl] @ demo_suf = demo_prompt"
    using AlignPrefix_reassembles [OF demo_align] by blast
  ultimately show ?thesis by (cases k) simp_all
qed

section \<open>Compression behind the prefix\<close>

text \<open>
  Cache-aware compression keeps the stable prefix byte for byte and passes only the
  rest through the pipeline. It returns for every coordinator a client can hold; with no dynamic
  part the content is unchanged, and otherwise the result is the prefix, followed by what the
  pipeline made of the rest if it made anything of it, with the saving of that run.
\<close>

theorem CacheAwareCompress_keeps_prefix:
  assumes "coordinator_reachable est lower pcfg p" "AlignPrefix lower cfg content = (pre, suf, key)"
  shows "if suf = [] then CacheAwareCompress est lower cfg content p = Some (content, 0, p)
    else \<exists>out stats p'. Process est lower p suf = Some (out, stats, p') \<and>
      CacheAwareCompress est lower cfg content p =
        Some (pre @ (if out = [] then [] else nl # out), est suf - est out, p')"
proof (cases "suf = []")
  case True
  then show ?thesis using assms(2) by (simp add: CacheAwareCompress_def)
next
  case False
  obtain out stats p' where run: "Process est lower p suf = Some (out, stats, p')"
    using Process_total [OF reachable_built [OF assms(1)], of est lower suf] by auto
  have "TotalSaved stats = est suf - est out"
    by (rule run_facts [OF assms(1) run]) simp
  then show ?thesis using False assms(2) run by (simp add: CacheAwareCompress_def)
qed

theorem CacheAwareCompress_keeps_prefix_witness:
  "\<exists>out saved p'. CacheAwareCompress heuristicTokens id demo_kv demo_prompt
     (NewPipelineCoordinator heuristicTokens noop_lib zeroPipelineConfig) =
     Some (demo_pre @ (if out = [] then [] else nl # out), saved, p')"
  using CacheAwareCompress_keeps_prefix [OF reach_new demo_align(1), of heuristicTokens noop_lib zeroPipelineConfig]
  unfolding if_not_P [OF demo_align(2)] by blast

section \<open>Scores\<close>

lemma score_unit:
  assumes "0 \<le> a" "a \<le> b" "0 < b"
  shows "0 \<le> go_trunc (fmul (fdiv (of_int64 a) (of_int64 b)) 100) \<and> go_trunc (fmul (fdiv (of_int64 a) (of_int64 b)) 100) \<le> 100"
proof -
  have r: "0 \<le> fdiv (of_int64 a) (of_int64 b)" "fdiv (of_int64 a) (of_int64 b) \<le> 1"
    using ratio_unit [OF assms] by auto
  have "f64 100 = 100" using f64_of_int [of 100] by simp
  then have "fmul (fdiv (of_int64 a) (of_int64 b)) 100 \<le> 100"
    using f64_mono [of "fdiv (of_int64 a) (of_int64 b) * 100" 100] r by (simp add: fmul_def)
  moreover have "0 \<le> fmul (fdiv (of_int64 a) (of_int64 b)) 100" using r by (simp add: fmul_def)
  ultimately show ?thesis by (simp add: go_trunc_def floor_le_iff)
qed

text \<open>
  The cacheability score is a percentage, in floating point and through every bonus
  and penalty, and the estimated hit rate stays between 0 and 1.
\<close>

theorem CacheabilityScore_percent:
  "0 \<le> CacheabilityScore lower content \<and> CacheabilityScore lower content \<le> 100 \<and>
   0 \<le> EstimateCacheHitRate lower content \<and> EstimateCacheHitRate lower content \<le> 1"
proof -
  let ?ls = "split_lines content"
  have "0 < len ?ls" by simp
  moreover have "int (length (filter (isStableLine lower) ?ls)) \<le> len ?ls" by simp
  ultimately have "0 \<le> go_trunc (fmul (fdiv (of_int64 (int (length (filter (isStableLine lower) ?ls)))) (of_int64 (len ?ls))) 100) \<and>
      go_trunc (fmul (fdiv (of_int64 (int (length (filter (isStableLine lower) ?ls)))) (of_int64 (len ?ls))) 100) \<le> 100"
    by (intro score_unit) simp_all
  then have s: "0 \<le> CacheabilityScore lower content" "CacheabilityScore lower content \<le> 100"
    by (auto simp: CacheabilityScore_def Let_def)
  have "of_int64 100 = 100" using f64_of_int [of 100] by (simp add: of_int64_def)
  then have u: "0 \<le> fdiv (of_int64 (CacheabilityScore lower content)) 100" "fdiv (of_int64 (CacheabilityScore lower content)) 100 \<le> 1"
    using ratio_unit [OF s(1), of 100] s(2) by auto
  have "f64 (9 / 10) \<le> 1" "0 \<le> f64 (9 / 10)" using f64_unit [of "9 / 10"] by auto
  then have "fdiv (of_int64 (CacheabilityScore lower content)) 100 * f64 (9 / 10) \<le> 1"
    "0 \<le> fdiv (of_int64 (CacheabilityScore lower content)) 100 * f64 (9 / 10)"
    using u by (auto intro: mult_le_one)
  then show ?thesis using s f64_unit by (simp add: EstimateCacheHitRate_def fmul_def)
qed

end
