(* ===== verification/Question_Aware.thy ===== *)
theory Question_Aware
  imports Filter_Configs Pipeline_Types Go_Strings
begin

text \<open>
  The question-aware filter, the recovery layer of the pipeline
  (\<^verbatim>\<open>internal/filter/question_aware.go\<close>): lines relevant to the query are kept with their
  neighbours. Scores are doubles. \<open>lower\<close> is \<^verbatim>\<open>strings.ToLower\<close>, \<open>est\<close> the token
  estimate.
\<close>

section \<open>Relevance\<close>

definition queryStopWords :: "string list" where
  "queryStopWords =
     [''the'', ''a'', ''an'', ''is'', ''are'', ''was'', ''were'', ''be'', ''been'', ''being'',
      ''have'', ''has'', ''had'', ''do'', ''does'', ''did'', ''will'', ''would'', ''could'',
      ''should'', ''may'', ''might'', ''must'', ''shall'', ''can'', ''need'', ''dare'', ''ought'',
      ''used'', ''to'', ''of'', ''in'', ''for'', ''on'', ''with'', ''at'', ''by'', ''from'', ''as'',
      ''into'', ''through'', ''during'', ''before'', ''after'', ''above'', ''below'', ''between'',
      ''under'', ''again'', ''further'', ''then'', ''once'', ''and'', ''but'', ''or'', ''nor'',
      ''so'', ''yet'', ''both'', ''either'', ''neither'', ''not'', ''only'', ''own'', ''same'',
      ''than'', ''too'', ''very'', ''just'', ''also'', ''now'', ''how'', ''what'', ''when'',
      ''where'', ''which'', ''who'', ''whom'', ''whose'', ''why'', ''that'', ''this'', ''these'',
      ''those'', ''it'', ''its'']"

definition punctuation :: string where
  "punctuation = ''.,!?;:'' @ [CHR 0x22, CHR 0x27] @ ''()[]{}''"

definition extractTerms :: "(string \<Rightarrow> string) \<Rightarrow> string \<Rightarrow> string list" where
  "extractTerms lower query =
     filter (\<lambda>w. length w > 2 \<and> w \<notin> set queryStopWords) (map (trim_cutset punctuation) (str_fields (lower query)))"

definition partial_match :: "string \<Rightarrow> string \<Rightarrow> bool" where
  "partial_match segLower t =
     list_ex (\<lambda>word. let word = trim_cutset punctuation word
        in length word > 3 \<and> length t > 3 \<and> (has_prefix word t \<or> has_prefix t word)) (str_fields segLower)"

fun score_loop :: "QuestionAwareConfig \<Rightarrow> string \<Rightarrow> string list \<Rightarrow> rat \<Rightarrow> int \<Rightarrow> rat \<times> int" where
  "score_loop cfg segLower [] score matchCount = (score, matchCount)"
| "score_loop cfg segLower (t # ts) score matchCount =
     (if contains segLower t
      then score_loop cfg segLower ts (fadd score (quest_ExactMatchBoost cfg)) (matchCount + 1)
      else if partial_match segLower t
      then score_loop cfg segLower ts (fadd score (quest_PartialMatchBoost cfg)) matchCount
      else score_loop cfg segLower ts score matchCount)"

definition scoreRelevance :: "(string \<Rightarrow> string) \<Rightarrow> QuestionAwareConfig \<Rightarrow> string \<Rightarrow> string list \<Rightarrow> rat" where
  "scoreRelevance lower cfg segment queryTerms =
     (let (score, matchCount) = score_loop cfg (lower segment) queryTerms 0 0;
          score = (if queryTerms \<noteq> [] then fdiv score (of_int64 (len queryTerms)) else score)
      in if matchCount > 1 then fmul score (f64 (12 / 10)) else score)"

section \<open>The filter\<close>

text \<open>The indices kept: every relevant line with two lines around it, and the first and last line.\<close>

fun keep_loop :: "nat \<Rightarrow> (nat \<Rightarrow> bool) \<Rightarrow> nat list \<Rightarrow> nat set \<Rightarrow> nat set" where
  "keep_loop n relevant [] keep = keep"
| "keep_loop n relevant (i # is) keep =
     keep_loop n relevant is
       (if relevant i then insert i keep \<union> set (filter (\<lambda>j. j < n) [i - 2..<i + 3]) else keep)"

definition keep_set :: "nat \<Rightarrow> (nat \<Rightarrow> bool) \<Rightarrow> nat set" where
  "keep_set n relevant =
     (let keep = keep_loop n relevant [0..<n] {} in if n > 0 then insert (n - 1) (insert 0 keep) else keep)"

text \<open>The builder writes a line break before a segment unless nothing was written yet.\<close>

fun build_loop :: "nat set \<Rightarrow> (nat \<times> string) list \<Rightarrow> string \<Rightarrow> string" where
  "build_loop keep [] result = result"
| "build_loop keep ((i, seg) # segs) result =
     (if i \<in> keep then build_loop keep segs ((if length result > 0 then result @ [nl] else result) @ seg)
      else build_loop keep segs result)"

definition question_Apply ::
  "(string \<Rightarrow> int) \<Rightarrow> (string \<Rightarrow> string) \<Rightarrow> QuestionAwareConfig \<Rightarrow> string \<Rightarrow> Mode \<Rightarrow> string \<times> int" where
  "question_Apply est lower cfg input mode =
     (if \<not> quest_Enabled cfg \<or> quest_Query cfg = [] then (input, 0)
      else let queryTerms = extractTerms lower (quest_Query cfg)
           in if queryTerms = [] then (input, 0)
              else let segments = split_lines input;
                       scores = map (\<lambda>seg. scoreRelevance lower cfg seg queryTerms) segments;
                       keep = keep_set (length segments) (\<lambda>i. scores ! i \<ge> quest_RelevanceThreshold cfg);
                       out = build_loop keep (enumerate 0 segments) []
                   in (out, est input - est out))"

definition SetQuery :: "string \<Rightarrow> QuestionAwareConfig \<Rightarrow> QuestionAwareConfig" where
  "SetQuery query cfg = cfg\<lparr>quest_Query := query\<rparr>"

definition quest_SetEnabled :: "bool \<Rightarrow> QuestionAwareConfig \<Rightarrow> QuestionAwareConfig" where
  "quest_SetEnabled b cfg = cfg\<lparr>quest_Enabled := b\<rparr>"

section \<open>What is kept\<close>

lemma keep_loop_iff:
  "j \<in> keep_loop n relevant is K \<longleftrightarrow> j \<in> K \<or> (\<exists>i \<in> set is. relevant i \<and> (j = i \<or> j < n \<and> i \<le> j + 2 \<and> j \<le> i + 2))"
  by (induction n relevant "is" K rule: keep_loop.induct) auto

lemma keep_set_iff:
  "j < n \<Longrightarrow> j \<in> keep_set n relevant \<longleftrightarrow>
     j = 0 \<or> j = n - 1 \<or> (\<exists>i < n. relevant i \<and> i \<le> j + 2 \<and> j \<le> i + 2)"
  by (auto simp: keep_set_def Let_def keep_loop_iff)

lemma build_loop_some:
  "result \<noteq> [] \<Longrightarrow> build_loop keep segs result = result @ concat (map (\<lambda>(i, s). nl # s) (filter (\<lambda>(i, s). i \<in> keep) segs))"
  by (induction keep segs result rule: build_loop.induct) auto

lemma concat_nl_join: "s @ concat (map (\<lambda>t. nl # t) ts) = join_lines (s # ts)"
  by (induction ts arbitrary: s) (auto simp: join_Cons)

lemma build_loop_eq:
  "build_loop keep segs [] = join_lines (dropWhile (\<lambda>s. s = []) (map snd (filter (\<lambda>(i, s). i \<in> keep) segs)))"
proof (induction segs)
  case (Cons p segs)
  obtain i s where p: "p = (i, s)" by fastforce
  show ?case
  proof (cases "i \<in> keep \<and> s \<noteq> []")
    case True
    then have "build_loop keep (p # segs) [] = s @ concat (map (\<lambda>(i, s). nl # s) (filter (\<lambda>(i, s). i \<in> keep) segs))"
      by (simp add: p build_loop_some)
    also have "\<dots> = s @ concat (map (\<lambda>t. nl # t) (map snd (filter (\<lambda>(i, s). i \<in> keep) segs)))"
      by (simp add: case_prod_unfold comp_def)
    also have "\<dots> = join_lines (s # map snd (filter (\<lambda>(i, s). i \<in> keep) segs))" by (rule concat_nl_join)
    finally show ?thesis using True by (simp add: p)
  qed (use Cons in \<open>auto simp: p\<close>)
qed simp

definition relevant_line :: "(string \<Rightarrow> string) \<Rightarrow> QuestionAwareConfig \<Rightarrow> string list \<Rightarrow> nat \<Rightarrow> bool" where
  "relevant_line lower cfg lines i \<longleftrightarrow>
     quest_RelevanceThreshold cfg \<le> scoreRelevance lower cfg (lines ! i) (extractTerms lower (quest_Query cfg))"

definition kept_line :: "(string \<Rightarrow> string) \<Rightarrow> QuestionAwareConfig \<Rightarrow> string list \<Rightarrow> nat \<Rightarrow> bool" where
  "kept_line lower cfg lines i \<longleftrightarrow> i = 0 \<or> i = length lines - 1 \<or>
     list_ex (\<lambda>j. relevant_line lower cfg lines j \<and> j \<le> i + 2 \<and> i \<le> j + 2) [0..<length lines]"

lemma question_Apply_eq:
  assumes "quest_Enabled cfg" "quest_Query cfg \<noteq> []" "extractTerms lower (quest_Query cfg) \<noteq> []"
  shows "fst (question_Apply est lower cfg input mode) =
    join_lines (dropWhile (\<lambda>s. s = []) (map snd (filter (\<lambda>(i, s). kept_line lower cfg (split_lines input) i)
      (enumerate 0 (split_lines input)))))"
proof -
  let ?ls = "split_lines input"
  let ?scores = "map (\<lambda>seg. scoreRelevance lower cfg seg (extractTerms lower (quest_Query cfg))) ?ls"
  let ?K = "keep_set (length ?ls) (\<lambda>i. ?scores ! i \<ge> quest_RelevanceThreshold cfg)"
  have "filter (\<lambda>(i, s). i \<in> ?K) (enumerate 0 ?ls) = filter (\<lambda>(i, s). kept_line lower cfg ?ls i) (enumerate 0 ?ls)"
  proof (rule filter_cong [OF refl])
    fix p assume "p \<in> set (enumerate 0 ?ls)"
    then have "fst p < length ?ls" by (auto simp: in_set_enumerate_eq)
    then show "(case p of (i, s) \<Rightarrow> i \<in> ?K) = (case p of (i, s) \<Rightarrow> kept_line lower cfg ?ls i)"
      by (cases p) (auto simp: keep_set_iff kept_line_def relevant_line_def list_ex_iff)
  qed
  then show ?thesis using assms by (simp add: question_Apply_def Let_def build_loop_eq)
qed

text \<open>The filter reports exactly what it saves, so it satisfies the contract of the pipeline's layers.\<close>

interpretation question: honest_filter est "question_Apply est lower cfg" for est lower cfg
  by unfold_locales (auto simp: question_Apply_def Let_def split: if_splits)

text \<open>
  The filter keeps the lines it promises and nothing else: the first and the last line,
  every line whose score reaches the threshold and the two lines before and after it, in order. Only
  blank lines at the very start of what is kept are lost. The reported saving is the
  difference of the estimates.
\<close>

theorem question_keeps_context:
  assumes "quest_Enabled cfg" "quest_Query cfg \<noteq> []" "extractTerms lower (quest_Query cfg) \<noteq> []"
    and "question_Apply est lower cfg input mode = (out, saved)"
  shows "out = join_lines (dropWhile (\<lambda>s. s = []) (map snd (filter (\<lambda>(i, s). kept_line lower cfg (split_lines input) i)
      (enumerate 0 (split_lines input))))) \<and> saved = est input - est out"
proof -
  have "saved = est input - est out"
    using assms by (auto simp: question_Apply_def Let_def)
  then show ?thesis using question_Apply_eq [OF assms(1-3), of est input mode] assms(4) by simp
qed

definition demo_question :: QuestionAwareConfig where
  "demo_question = DefaultQuestionAwareConfig\<lparr>quest_Query := ''cache failure''\<rparr>"

definition demo_log :: string where
  "demo_log = join_lines [''start'', ''a'', ''b'', ''c'', ''cache failure at 3'', ''d'', ''e'', ''f'', ''stop'']"

lemma demo_question_facts:
  "quest_Enabled demo_question" "quest_Query demo_question \<noteq> []" "extractTerms id (quest_Query demo_question) \<noteq> []"
  by (simp_all add: demo_question_def DefaultQuestionAwareConfig_def) code_simp

theorem question_keeps_context_witness:
  "snd (question_Apply heuristicTokens id demo_question demo_log ModeMinimal) =
     heuristicTokens demo_log - heuristicTokens (fst (question_Apply heuristicTokens id demo_question demo_log ModeMinimal))"
  using question_keeps_context [OF demo_question_facts, of heuristicTokens demo_log ModeMinimal] by (metis prod.collapse)

section \<open>Lines that answer the question\<close>

lemma score_loop_all:
  assumes "list_all (contains segLower) ts" "quest_ExactMatchBoost cfg = 1" "0 \<le> k" "k + len ts \<le> 2 ^ 53"
  shows "score_loop cfg segLower ts (of_int k) n = (of_int (k + len ts), n + len ts)"
  using assms
proof (induction ts arbitrary: k n)
  case (Cons t ts)
  have "fadd (of_int k) 1 = of_int (k + 1)"
    using f64_of_int [of "k + 1"] Cons.prems by (simp add: fadd_def)
  then show ?case using Cons.IH [of "k + 1" "n + 1"] Cons.prems by (simp add: algebra_simps)
qed simp

lemma score_all_terms:
  assumes "list_all (contains (lower seg)) ts" "quest_ExactMatchBoost cfg = 1" "ts \<noteq> []" "len ts \<le> 2 ^ 53"
  shows "1 \<le> scoreRelevance lower cfg seg ts"
proof -
  have n: "of_int64 (len ts) = of_int (len ts)" using f64_of_int [of "len ts"] assms(4) by (simp add: of_int64_def)
  have "fdiv (of_int (len ts)) (of_int64 (len ts)) = 1" using assms(3) by (simp add: n fdiv_def)
  moreover have "(1::rat) \<le> fmul 1 (f64 (12 / 10))"
    using f64_mono [of 1 "f64 (12 / 10)"] f64_mono [of 1 "12 / 10"] by (simp add: fmul_def)
  ultimately show ?thesis
    using score_loop_all [OF assms(1,2), of 0 0] assms(3,4) by (simp add: scoreRelevance_def Let_def)
qed

text \<open>
  No line that answers the question is lost: with the default weights, a line in which
  every term of the query occurs is in the output, whatever the other lines are.
\<close>

theorem question_keeps_matching_lines:
  assumes "quest_Enabled cfg" "quest_Query cfg \<noteq> []" "extractTerms lower (quest_Query cfg) = ts" "ts \<noteq> []"
    and "quest_ExactMatchBoost cfg = 1" "quest_RelevanceThreshold cfg \<le> 1" "len ts \<le> 2 ^ 53"
    and "l \<in> set (split_lines input)" "list_all (contains (lower l)) ts" "l \<noteq> []"
  shows "l \<in> set (split_lines (fst (question_Apply est lower cfg input mode)))"
proof -
  let ?ls = "split_lines input"
  let ?kept = "map snd (filter (\<lambda>(i, s). kept_line lower cfg ?ls i) (enumerate 0 ?ls))"
  obtain i where i: "i < length ?ls" "?ls ! i = l" using assms(8) by (metis in_set_conv_nth)
  have "1 \<le> scoreRelevance lower cfg l ts" using score_all_terms [where lower = lower and seg = l, OF assms(9,5,4,7)] .
  then have "relevant_line lower cfg ?ls i" using i(2) assms(3,6) by (simp add: relevant_line_def)
  then have "kept_line lower cfg ?ls i"
    using i(1) unfolding kept_line_def list_ex_iff by (intro disjI2 bexI [of _ i]) simp_all
  moreover have "(i, l) \<in> set (enumerate 0 ?ls)" using i by (simp add: in_set_enumerate_eq)
  ultimately have k: "l \<in> set ?kept" by force
  have "l \<in> set (dropWhile (\<lambda>s. s = []) ?kept)"
    using k assms(10) set_takeWhileD [of l "\<lambda>s. s = []" ?kept] by (metis Un_iff set_append takeWhile_dropWhile_id)
  moreover have "\<forall>s \<in> set (dropWhile (\<lambda>s. s = []) ?kept). nl \<notin> set s"
  proof
    fix s assume "s \<in> set (dropWhile (\<lambda>s. s = []) ?kept)"
    then have "s \<in> set ?kept" by (rule set_dropWhileD)
    then have "s \<in> set ?ls" by (auto simp: in_set_enumerate_eq)
    then show "nl \<notin> set s" by (rule split_no_sep)
  qed
  ultimately have "split_lines (join_lines (dropWhile (\<lambda>s. s = []) ?kept)) = dropWhile (\<lambda>s. s = []) ?kept"
    by (intro split_join) (metis empty_iff list.set(1))
  then show ?thesis
    using question_Apply_eq [of cfg lower est input mode] assms(1-4) \<open>l \<in> set (dropWhile (\<lambda>s. s = []) ?kept)\<close> by simp
qed

theorem question_keeps_matching_lines_witness:
  "''cache failure at 3'' \<in> set (split_lines (fst (question_Apply heuristicTokens id demo_question demo_log ModeMinimal)))"
proof -
  have "extractTerms id (quest_Query demo_question) = [''cache'', ''failure'']" "''cache failure at 3'' \<in> set (split_lines demo_log)"
    "list_all (contains (id ''cache failure at 3'')) [''cache'', ''failure'']" by code_simp+
  moreover have "quest_ExactMatchBoost demo_question = 1" "quest_RelevanceThreshold demo_question \<le> 1"
    using f64_unit [of "3 / 10"] by (simp_all add: demo_question_def DefaultQuestionAwareConfig_def)
  ultimately show ?thesis
    using question_keeps_matching_lines [OF demo_question_facts(1,2), where ts = "[''cache'', ''failure'']" and l = "''cache failure at 3''"
        and input = demo_log and lower = id and est = heuristicTokens and mode = ModeMinimal] by simp
qed

end
