(* ===== verification/Toml_Rules.thy ===== *)
theory Toml_Rules
  imports Go_Strings "HOL-Library.Multiset"
begin

text \<open>
  Declarative filter rules: \<^verbatim>\<open>internal/toml/parser.go\<close>, from a decoded TOML document to the
  registry that a command is looked up in.

  The decoder of TOML documents and the regular expressions of the \<^verbatim>\<open>regexp\<close> package are
  parameters: \<open>unmarshal\<close> gives the top-level table of a document, \<open>compile\<close> a pattern's two
  operations, or nothing when the pattern is not well formed. A table is an association list; where
  the code ranges over a Go map, the order it meets the entries in is a parameter \<open>iter\<close>, of which
  only is assumed that it rearranges the entries.
\<close>

section \<open>Decoded documents\<close>

text \<open>
  What a value of type \<^verbatim>\<open>any\<close> may hold after decoding. Integers arrive as \<^verbatim>\<open>int64\<close>; the code
  also accepts \<^verbatim>\<open>int\<close>. An array of tables written with double brackets has the type
  \<^verbatim>\<open>[]map[string]any\<close>, which is not \<^verbatim>\<open>[]any\<close>. \<open>TOther\<close> stands for floats and times.
\<close>

datatype TomlValue = TStr string | TInt64 int | TInt int | TBool bool | TArr "TomlValue list"
  | TTable "(string \<times> TomlValue) list" | TTables "(string \<times> TomlValue) list list" | TOther

type_synonym toml_table = "(string \<times> TomlValue) list"

fun as_string :: "TomlValue option \<Rightarrow> string option" where
  "as_string (Some (TStr s)) = Some s"
| "as_string _ = None"

fun as_bool :: "TomlValue option \<Rightarrow> bool option" where
  "as_bool (Some (TBool b)) = Some b"
| "as_bool _ = None"

fun as_int :: "TomlValue option \<Rightarrow> int option" where
  "as_int (Some (TInt64 n)) = Some n"
| "as_int (Some (TInt n)) = Some n"
| "as_int _ = None"

fun as_array :: "TomlValue option \<Rightarrow> TomlValue list option" where
  "as_array (Some (TArr vs)) = Some vs"
| "as_array _ = None"

fun as_table :: "TomlValue option \<Rightarrow> toml_table option" where
  "as_table (Some (TTable m)) = Some m"
| "as_table _ = None"

definition or_else :: "'a option \<Rightarrow> 'a option \<Rightarrow> 'a option" where
  "or_else a b = (case a of None \<Rightarrow> b | Some x \<Rightarrow> Some x)"

definition the_or :: "'a \<Rightarrow> 'a option \<Rightarrow> 'a" where
  "the_or d a = (case a of None \<Rightarrow> d | Some x \<Rightarrow> x)"

definition strings_of :: "TomlValue list \<Rightarrow> string list" where
  "strings_of vs = List.map_filter (\<lambda>v. as_string (Some v)) vs"

section \<open>Rules\<close>

record ReplaceRule =
  rr_Pattern :: string
  rr_Replacement :: string

record MatchOutputRule =
  mo_Pattern :: string
  mo_Message :: string
  mo_Priority :: int
  mo_Unless :: string

record TOMLFilterRule =
  tr_MatchCommand :: string
  tr_StripANSI :: bool
  tr_Replace :: "ReplaceRule list"
  tr_MatchOutput :: "MatchOutputRule list"
  tr_StripLinesMatching :: "string list"
  tr_KeepLinesMatching :: "string list"
  tr_TruncateLinesAt :: int
  tr_Head :: int
  tr_Tail :: int
  tr_MaxLines :: int
  tr_OnEmpty :: string

record TOMLFilter =
  tf_SchemaVersion :: int
  tf_Filters :: "(string \<times> TOMLFilterRule) list"
  tf_RawContent :: toml_table

definition SchemaVersion :: int where
  "SchemaVersion = 1"

definition parseReplaceRule :: "toml_table \<Rightarrow> ReplaceRule" where
  "parseReplaceRule m =
     \<lparr>rr_Pattern = the_or [] (as_string (al_get m ''pattern'')),
      rr_Replacement = the_or [] (as_string (al_get m ''replacement''))\<rparr>"

definition parseMatchOutputRule :: "toml_table \<Rightarrow> MatchOutputRule" where
  "parseMatchOutputRule m =
     \<lparr>mo_Pattern = the_or [] (as_string (al_get m ''pattern'')),
      mo_Message = the_or [] (as_string (al_get m ''message'')),
      mo_Priority = the_or 0 (as_int (al_get m ''priority'')),
      mo_Unless = the_or [] (as_string (al_get m ''unless''))\<rparr>"

definition tables_of :: "TomlValue option \<Rightarrow> toml_table list" where
  "tables_of v = List.map_filter (\<lambda>item. as_table (Some item)) (the_or [] (as_array v))"

text \<open>The error of \<^verbatim>\<open>parseFilterRule\<close> is always nil.\<close>

definition parseFilterRule :: "toml_table \<Rightarrow> TOMLFilterRule" where
  "parseFilterRule m =
     \<lparr>tr_MatchCommand = the_or [] (as_string (al_get m ''match_command'')),
      tr_StripANSI = the_or False (as_bool (al_get m ''strip_ansi'')),
      tr_Replace = map parseReplaceRule (tables_of (al_get m ''replace'')),
      tr_MatchOutput = map parseMatchOutputRule (tables_of (al_get m ''match_output'')),
      tr_StripLinesMatching =
        (case as_array (al_get m ''strip_lines_matching'') of
           Some vs \<Rightarrow> strings_of vs
         | None \<Rightarrow>
             (case as_table (al_get m ''strip_lines_matching'') of
                Some t \<Rightarrow> strings_of (the_or [] (as_array (al_get t ''patterns'')))
              | None \<Rightarrow> [])),
      tr_KeepLinesMatching = strings_of (the_or [] (as_array (al_get m ''keep_lines_matching''))),
      tr_TruncateLinesAt = the_or 0 (as_int (al_get m ''truncate_lines_at'')),
      tr_Head = the_or 0 (or_else (as_int (al_get m ''head'')) (as_int (al_get m ''head_lines''))),
      tr_Tail = the_or 0 (or_else (as_int (al_get m ''tail'')) (as_int (al_get m ''tail_lines''))),
      tr_MaxLines =
        the_or 0 (or_else (as_int (al_get m ''max_lines''))
          (case as_table (al_get m ''max_lines'') of
             Some t \<Rightarrow> as_int (al_get t ''value'')
           | None \<Rightarrow> None)),
      tr_OnEmpty = the_or [] (as_string (al_get m ''on_empty''))\<rparr>"

section \<open>Documents\<close>

datatype toml_error =
    ReadError string | ParseError string
  | BadSchema int | MissingCommand string | BadCommand string | BadStrip string | BadKeep string
  | BadReplace string | BadMatchOutput string | BadUnless string

definition parse_nested :: "(string \<times> TOMLFilterRule) list \<Rightarrow> string \<times> TomlValue \<Rightarrow> (string \<times> TOMLFilterRule) list" where
  "parse_nested filters e =
     (case as_table (Some (snd e)) of
        Some m \<Rightarrow> al_put (fst e) (parseFilterRule m) filters
      | None \<Rightarrow> filters)"

definition parse_entry ::
  "(toml_table \<Rightarrow> toml_table) \<Rightarrow> (string \<times> TOMLFilterRule) list \<Rightarrow> string \<times> TomlValue \<Rightarrow> (string \<times> TOMLFilterRule) list" where
  "parse_entry iter filters e =
     (if fst e = ''schema_version'' \<or> fst e = ''tests'' then filters
      else case as_table (Some (snd e)) of
             Some m \<Rightarrow>
               (if fst e = ''filters'' then foldl parse_nested filters (iter m)
                else al_put (fst e) (parseFilterRule m) filters)
           | None \<Rightarrow> filters)"

definition ParseContent ::
  "(string \<Rightarrow> toml_table option) \<Rightarrow> (toml_table \<Rightarrow> toml_table) \<Rightarrow> string \<Rightarrow> string \<Rightarrow> toml_error + TOMLFilter" where
  "ParseContent unmarshal iter content source =
     (case unmarshal content of
        None \<Rightarrow> Inl (ParseError source)
      | Some raw \<Rightarrow>
          Inr \<lparr>tf_SchemaVersion = the_or SchemaVersion (as_int (al_get raw ''schema_version'')),
               tf_Filters = foldl (parse_entry iter) [] (iter raw),
               tf_RawContent = raw\<rparr>)"

definition ParseFile ::
  "(string \<Rightarrow> string option) \<Rightarrow> (string \<Rightarrow> toml_table option) \<Rightarrow> (toml_table \<Rightarrow> toml_table) \<Rightarrow> string
     \<Rightarrow> toml_error + TOMLFilter" where
  "ParseFile read unmarshal iter path =
     (case read path of
        None \<Rightarrow> Inl (ReadError path)
      | Some content \<Rightarrow> ParseContent unmarshal iter content path)"

section \<open>Patterns\<close>

record Regexp =
  re_MatchString :: "string \<Rightarrow> bool"
  re_ReplaceAllString :: "string \<Rightarrow> string \<Rightarrow> string"

type_synonym compiler = "string \<Rightarrow> Regexp option"

fun check_patterns :: "compiler \<Rightarrow> toml_error \<Rightarrow> string list \<Rightarrow> toml_error option" where
  "check_patterns compile e [] = None"
| "check_patterns compile e (p # ps) = (if compile p = None then Some e else check_patterns compile e ps)"

fun check_match_output :: "compiler \<Rightarrow> string \<Rightarrow> MatchOutputRule list \<Rightarrow> toml_error option" where
  "check_match_output compile name [] = None"
| "check_match_output compile name (r # rs) =
     (if compile (mo_Pattern r) = None then Some (BadMatchOutput name)
      else if mo_Unless r \<noteq> [] \<and> compile (mo_Unless r) = None then Some (BadUnless name)
      else check_match_output compile name rs)"

definition validate_rule :: "compiler \<Rightarrow> string \<times> TOMLFilterRule \<Rightarrow> toml_error option" where
  "validate_rule compile e =
     (let name = fst e; cfg = snd e
      in if tr_MatchCommand cfg = [] then Some (MissingCommand name)
         else if compile (tr_MatchCommand cfg) = None then Some (BadCommand name)
         else or_else (check_patterns compile (BadStrip name) (tr_StripLinesMatching cfg))
           (or_else (check_patterns compile (BadKeep name) (tr_KeepLinesMatching cfg))
             (or_else (check_patterns compile (BadReplace name) (map rr_Pattern (tr_Replace cfg)))
               (check_match_output compile name (tr_MatchOutput cfg)))))"

fun first_error :: "('a \<Rightarrow> 'e option) \<Rightarrow> 'a list \<Rightarrow> 'e option" where
  "first_error f [] = None"
| "first_error f (x # xs) = or_else (f x) (first_error f xs)"

type_synonym rule_order = "(string \<times> TOMLFilterRule) list \<Rightarrow> (string \<times> TOMLFilterRule) list"

definition Validate :: "compiler \<Rightarrow> rule_order \<Rightarrow> TOMLFilter \<Rightarrow> toml_error option" where
  "Validate compile iter f =
     (if tf_SchemaVersion f \<noteq> SchemaVersion then Some (BadSchema (tf_SchemaVersion f))
      else first_error (validate_rule compile) (iter (tf_Filters f)))"

text \<open>
  The first rule, in the order of the iteration, whose command pattern matches; a pattern that is
  not well formed ends the search with an error.
\<close>

fun matches_command :: "compiler \<Rightarrow> string \<Rightarrow> (string \<times> TOMLFilterRule) list \<Rightarrow> toml_error + (string \<times> TOMLFilterRule) option" where
  "matches_command compile command [] = Inr None"
| "matches_command compile command (e # es) =
     (case compile (tr_MatchCommand (snd e)) of
        None \<Rightarrow> Inl (BadCommand (fst e))
      | Some re \<Rightarrow> if re_MatchString re command then Inr (Some e) else matches_command compile command es)"

definition MatchesCommand :: "compiler \<Rightarrow> rule_order \<Rightarrow> TOMLFilter \<Rightarrow> string \<Rightarrow> toml_error + (string \<times> TOMLFilterRule) option" where
  "MatchesCommand compile iter f command = matches_command compile command (iter (tf_Filters f))"

section \<open>The registry\<close>

type_synonym FilterRegistry = "(string \<times> TOMLFilter) list"

definition NewFilterRegistry :: FilterRegistry where
  "NewFilterRegistry = []"

text \<open>\<^verbatim>\<open>filepath.Base\<close> on Unix.\<close>

definition path_base :: "string \<Rightarrow> string" where
  "path_base path =
     (if path = [] then ''.''
      else let p = rev (dropWhile (\<lambda>c. c = CHR ''/'') (rev path))
           in if p = [] then ''/'' else last (split_on CHR ''/'' p))"

text \<open>What the loaders depend on.\<close>

record toml_env =
  tv_read :: "string \<Rightarrow> string option"
  tv_unmarshal :: "string \<Rightarrow> toml_table option"
  tv_compile :: compiler
  tv_table_order :: "toml_table \<Rightarrow> toml_table"
  tv_rule_order :: rule_order

definition LoadFile :: "toml_env \<Rightarrow> string \<Rightarrow> FilterRegistry \<Rightarrow> toml_error option \<times> FilterRegistry" where
  "LoadFile E path r =
     (case ParseFile (tv_read E) (tv_unmarshal E) (tv_table_order E) path of
        Inl e \<Rightarrow> (Some e, r)
      | Inr f \<Rightarrow>
          (case Validate (tv_compile E) (tv_rule_order E) f of
             Some e \<Rightarrow> (Some e, r)
           | None \<Rightarrow> (None, al_put (path_base path) f r)))"

fun find_filter ::
  "compiler \<Rightarrow> rule_order \<Rightarrow> string \<Rightarrow> (string \<times> TOMLFilter) list \<Rightarrow> (string \<times> string \<times> TOMLFilterRule) option" where
  "find_filter compile iter command [] = None"
| "find_filter compile iter command (e # es) =
     (case MatchesCommand compile iter (snd e) command of
        Inr (Some (name, cfg)) \<Rightarrow> Some (fst e, name, cfg)
      | _ \<Rightarrow> find_filter compile iter command es)"

definition FindMatchingFilter ::
  "compiler \<Rightarrow> (FilterRegistry \<Rightarrow> FilterRegistry) \<Rightarrow> rule_order \<Rightarrow> string \<Rightarrow> FilterRegistry
     \<Rightarrow> (string \<times> string \<times> TOMLFilterRule) option" where
  "FindMatchingFilter compile order iter command r = find_filter compile iter command (order r)"

definition reg_Count :: "FilterRegistry \<Rightarrow> int" where
  "reg_Count r = len r"

section \<open>Validation\<close>

text \<open>Every pattern of a rule, as the engine compiles them.\<close>

definition rule_patterns :: "TOMLFilterRule \<Rightarrow> string list" where
  "rule_patterns cfg =
     tr_StripLinesMatching cfg @ tr_KeepLinesMatching cfg @ map rr_Pattern (tr_Replace cfg) @
     concat (map (\<lambda>r. mo_Pattern r # (if mo_Unless r \<noteq> [] then [mo_Unless r] else [])) (tr_MatchOutput cfg))"

definition rule_ok :: "compiler \<Rightarrow> TOMLFilterRule \<Rightarrow> bool" where
  "rule_ok compile cfg \<longleftrightarrow> tr_MatchCommand cfg \<noteq> [] \<and> compile (tr_MatchCommand cfg) \<noteq> None \<and>
     list_all (\<lambda>p. compile p \<noteq> None) (rule_patterns cfg)"

lemma or_else_None [simp]: "or_else a b = None \<longleftrightarrow> a = None \<and> b = None"
  by (cases a) (simp_all add: or_else_def)

lemma check_patterns_None: "check_patterns compile e ps = None \<longleftrightarrow> list_all (\<lambda>p. compile p \<noteq> None) ps"
  by (induction ps) auto

lemma check_match_output_None:
  "check_match_output compile name rs = None \<longleftrightarrow>
    list_all (\<lambda>p. compile p \<noteq> None) (concat (map (\<lambda>r. mo_Pattern r # (if mo_Unless r \<noteq> [] then [mo_Unless r] else [])) rs))"
  by (induction rs) auto

lemma validate_rule_None: "validate_rule compile e = None \<longleftrightarrow> rule_ok compile (snd e)"
  by (cases "tr_MatchCommand (snd e) = []"; cases "compile (tr_MatchCommand (snd e)) = None")
    (simp_all add: validate_rule_def Let_def rule_ok_def rule_patterns_def check_patterns_None check_match_output_None
      del: not_None_eq)

lemma first_error_None: "first_error f xs = None \<longleftrightarrow> (\<forall>x \<in> set xs. f x = None)"
  by (induction xs) auto

lemma mset_set: "mset xs = mset ys \<Longrightarrow> set xs = set ys"
  by (metis set_mset_mset)

definition filter_ok :: "compiler \<Rightarrow> TOMLFilter \<Rightarrow> bool" where
  "filter_ok compile f \<longleftrightarrow> tf_SchemaVersion f = SchemaVersion \<and> list_all (rule_ok compile \<circ> snd) (tf_Filters f)"

lemma Validate_None:
  assumes "\<And>m. mset (iter m) = mset m"
  shows "Validate compile iter f = None \<longleftrightarrow> filter_ok compile f"
  using mset_set [OF assms, of "tf_Filters f"]
  by (auto simp: Validate_def filter_ok_def first_error_None validate_rule_None list_all_iff)

section \<open>Lookup\<close>

lemma matches_command_ok:
  assumes "\<forall>e \<in> set es. compile (tr_MatchCommand (snd e)) \<noteq> None"
  shows "matches_command compile command es =
    Inr (List.find (\<lambda>e. re_MatchString (the (compile (tr_MatchCommand (snd e)))) command) es)"
  using assms by (induction es) auto

definition command_matches :: "compiler \<Rightarrow> string \<Rightarrow> TOMLFilterRule \<Rightarrow> bool" where
  "command_matches compile command cfg \<longleftrightarrow>
     (case compile (tr_MatchCommand cfg) of Some re \<Rightarrow> re_MatchString re command | None \<Rightarrow> False)"

definition registry_ok :: "compiler \<Rightarrow> FilterRegistry \<Rightarrow> bool" where
  "registry_ok compile r \<longleftrightarrow> distinct (al_keys r) \<and> list_all (filter_ok compile \<circ> snd) r"

lemma find_filter_cases:
  assumes "\<forall>e \<in> set es. filter_ok compile (snd e)" "\<And>m. mset (iter m) = mset m"
  shows "(case find_filter compile iter command es of
      Some (file, name, cfg) \<Rightarrow> \<exists>f. (file, f) \<in> set es \<and> (name, cfg) \<in> set (tf_Filters f) \<and>
        command_matches compile command cfg
    | None \<Rightarrow> \<forall>e \<in> set es. \<forall>x \<in> set (tf_Filters (snd e)). \<not> command_matches compile command (snd x))"
  using assms(1)
proof (induction es)
  case (Cons e es)
  let ?m = "\<lambda>e. re_MatchString (the (compile (tr_MatchCommand (snd e)))) command"
  let ?rs = "iter (tf_Filters (snd e))"
  have s: "set ?rs = set (tf_Filters (snd e))" by (rule mset_set [OF assms(2)])
  have ok: "\<forall>x \<in> set ?rs. compile (tr_MatchCommand (snd x)) \<noteq> None"
    using Cons.prems unfolding s by (auto simp: filter_ok_def rule_ok_def list_all_iff)
  have mc: "MatchesCommand compile iter (snd e) command = Inr (List.find ?m ?rs)"
    unfolding MatchesCommand_def by (rule matches_command_ok [OF ok])
  show ?case
  proof (cases "List.find ?m ?rs")
    case None
    then have no: "\<forall>x \<in> set ?rs. \<not> ?m x" by (auto simp: find_None_iff)
    have "\<forall>x \<in> set (tf_Filters (snd e)). \<not> command_matches compile command (snd x)"
      using no unfolding s by (auto simp: command_matches_def split: option.splits)
    then show ?thesis using Cons mc None by (auto split: option.splits)
  next
    case (Some x)
    then have x: "x \<in> set ?rs" "?m x" by (auto simp: find_Some_iff)
    then have "command_matches compile command (snd x)" using ok by (auto simp: command_matches_def)
    then show ?thesis using mc Some x(1) unfolding s
      by (cases x) (auto intro: exI [of _ "snd e"])
  qed
qed simp

lemma registry_ok_put:
  "registry_ok compile r \<Longrightarrow> filter_ok compile f \<Longrightarrow> registry_ok compile (al_put name f r)"
  using set_al_put [of name f r] by (auto simp: registry_ok_def list_all_iff)

text \<open>
  The registries the loaders build: files that are read, parsed and validated, and the documents
  built into the program, which are put in under their names after the same two steps.
\<close>

inductive registry_reachable :: "toml_env \<Rightarrow> FilterRegistry \<Rightarrow> bool" for E where
  new: "registry_reachable E NewFilterRegistry"
| load: "registry_reachable E r \<Longrightarrow> registry_reachable E (snd (LoadFile E path r))"
| builtin: "registry_reachable E r \<Longrightarrow>
    ParseContent (tv_unmarshal E) (tv_table_order E) content source = Inr f \<Longrightarrow>
    Validate (tv_compile E) (tv_rule_order E) f = None \<Longrightarrow> registry_reachable E (al_put name f r)"

lemma LoadFile_ok:
  assumes "registry_ok (tv_compile E) r" "\<And>m. mset (tv_rule_order E m) = mset m"
  shows "registry_ok (tv_compile E) (snd (LoadFile E path r))"
  using assms by (auto simp: LoadFile_def Validate_None intro: registry_ok_put split: sum.splits option.splits)

lemma registry_reachable_ok:
  assumes "registry_reachable E r" and iter: "\<And>m. mset (tv_rule_order E m) = mset m"
  shows "registry_ok (tv_compile E) r"
  using assms(1)
proof induction
  case new
  show ?case by (simp add: registry_ok_def NewFilterRegistry_def)
next
  case (load r path)
  show ?case by (rule LoadFile_ok [OF load.IH iter])
next
  case (builtin r content source f name)
  then show ?case by (auto simp: Validate_None [OF iter] intro: registry_ok_put)
qed

text \<open>
  Looking a command up cannot fail, and what it finds does not depend on luck alone. In a
  registry that the loaders built every document passed validation, so no pattern of a rule fails
  to compile; the lookup returns a rule of one of the documents whose command pattern matches, with
  all its patterns well formed, and nothing exactly when no rule of any document matches, in
  whatever orders the two maps are traversed. Which of several matching rules it is does depend on
  the orders.
\<close>

theorem registry_lookup:
  assumes "registry_reachable E r" "\<And>m. mset (tv_rule_order E m) = mset m" "mset (order r) = mset r"
  shows "case FindMatchingFilter (tv_compile E) order (tv_rule_order E) command r of
      Some (file, name, cfg) \<Rightarrow> (\<exists>f. al_get r file = Some f \<and> (name, cfg) \<in> set (tf_Filters f)) \<and>
        command_matches (tv_compile E) command cfg \<and> rule_ok (tv_compile E) cfg
    | None \<Rightarrow> \<forall>e \<in> set r. \<forall>x \<in> set (tf_Filters (snd e)). \<not> command_matches (tv_compile E) command (snd x)"
proof -
  have ok: "registry_ok (tv_compile E) r" by (rule registry_reachable_ok [OF assms(1,2)])
  have s: "set (order r) = set r" by (rule mset_set [OF assms(3)])
  have f: "\<forall>e \<in> set (order r). filter_ok (tv_compile E) (snd e)"
    using ok unfolding s by (simp add: registry_ok_def list_all_iff)
  have get: "al_get r fname = Some g \<and> rule_ok (tv_compile E) cfg"
    if "(fname, g) \<in> set r" "(name, cfg) \<in> set (tf_Filters g)" for fname g name cfg
  proof -
    have "filter_ok (tv_compile E) (snd (fname, g))" using ok that(1) unfolding registry_ok_def list_all_iff by fastforce
    then have "rule_ok (tv_compile E) (snd (name, cfg))" using that(2) unfolding filter_ok_def list_all_iff by fastforce
    then show ?thesis using ok that(1) by (simp add: registry_ok_def al_get_map_of)
  qed
  from find_filter_cases [OF f assms(2), of command] show ?thesis
    unfolding FindMatchingFilter_def s by (auto split: option.splits dest: get)
qed

text \<open>Patterns without operators are plain texts; a lone bracket is not well formed.\<close>

definition plain_compile :: compiler where
  "plain_compile p =
     (if p = ''['' then None
      else Some \<lparr>re_MatchString = (\<lambda>s. contains s p), re_ReplaceAllString = (\<lambda>s t. replaceAll p t s)\<rparr>)"

definition demo_toml :: toml_table where
  "demo_toml = [(''filters'', TTable [(''ls'', TTable [(''match_command'', TStr ''ls''), (''head'', TInt64 5)])]),
     (''tests'', TTables [])]"

definition demo_env :: toml_env where
  "demo_env = \<lparr>tv_read = (\<lambda>path. if path = ''/etc/ls.toml'' then Some ''ls'' else None),
     tv_unmarshal = (\<lambda>s. Some demo_toml), tv_compile = plain_compile, tv_table_order = id, tv_rule_order = rev\<rparr>"

definition demo_registry :: FilterRegistry where
  "demo_registry = snd (LoadFile demo_env ''/etc/ls.toml'' NewFilterRegistry)"

lemma demo_registry_reachable: "registry_reachable demo_env demo_registry"
  unfolding demo_registry_def by (intro registry_reachable.intros)

lemma demo_order: "mset (tv_rule_order demo_env m) = mset m"
  by (simp add: demo_env_def)

theorem registry_lookup_witness:
  "\<exists>cfg. FindMatchingFilter plain_compile rev rev ''ls -l'' demo_registry = Some (''ls.toml'', ''ls'', cfg) \<and>
     (\<exists>f. al_get demo_registry ''ls.toml'' = Some f \<and> (''ls'', cfg) \<in> set (tf_Filters f)) \<and>
     command_matches plain_compile ''ls -l'' cfg \<and> rule_ok plain_compile cfg"
proof -
  have "map_option (\<lambda>(f, n, c). (f, n)) (FindMatchingFilter plain_compile rev rev ''ls -l'' demo_registry) =
    Some (''ls.toml'', ''ls'')"
    by code_simp
  then show ?thesis
    using registry_lookup [OF demo_registry_reachable demo_order, of rev "''ls -l''"] by (auto simp: demo_env_def)
qed

end
