(* ===== verification/Toml_Trust.thy ===== *)
theory Toml_Trust
  imports Toml_Rules
begin

text \<open>
  Which project filters may run: the trust store with its content hashes
  (\<^verbatim>\<open>internal/toml/trust.go\<close>) and the loader with its list of trusted directories
  (\<^verbatim>\<open>loader.go\<close>).

  The file system, the environment, path resolution and SHA-256 are parameters; an operation that
  writes takes the error of the write, if any, as an argument.
\<close>

section \<open>The trust store\<close>

record TrustEntry =
  ty_SHA256 :: string
  ty_TrustedAt :: string

datatype TrustStatus = Trusted | Untrusted | ContentChanged | EnvOverride

record TrustManager =
  tm_version :: int
  tm_trusted :: "(string \<times> TrustEntry) list"
  tm_storePath :: string
  tm_configDir :: string

datatype trust_error = PathError string | HashError string | SaveError string

definition NewTrustManager :: "(string \<Rightarrow> string \<Rightarrow> string) \<Rightarrow> string \<Rightarrow> TrustManager" where
  "NewTrustManager path_join configDir =
     \<lparr>tm_version = 1, tm_trusted = [], tm_storePath = path_join configDir ''trusted_filters.json'', tm_configDir = configDir\<rparr>"

definition ciVars :: "string list" where
  "ciVars = [''CI'', ''GITHUB_ACTIONS'', ''GITLAB_CI'', ''JENKINS_URL'', ''BUILDKITE'', ''CIRCLECI'', ''TRAVIS'']"

definition isCIEnvironment :: "(string \<Rightarrow> string) \<Rightarrow> bool" where
  "isCIEnvironment getenv = list_ex (\<lambda>v. getenv v \<noteq> []) ciVars"

definition computeFileHash :: "(string \<Rightarrow> string option) \<Rightarrow> (string \<Rightarrow> string) \<Rightarrow> string \<Rightarrow> string option" where
  "computeFileHash read sha path = map_option sha (read path)"

definition CheckTrust ::
  "(string \<Rightarrow> string) \<Rightarrow> (string \<Rightarrow> string option) \<Rightarrow> (string \<Rightarrow> string option) \<Rightarrow> (string \<Rightarrow> string) \<Rightarrow> TrustManager \<Rightarrow> string
     \<Rightarrow> TrustStatus \<times> trust_error option" where
  "CheckTrust getenv resolve read sha tm filterPath =
     (if getenv ''TOKMAN_TRUST_PROJECT_FILTERS'' = ''1'' \<and> isCIEnvironment getenv then (EnvOverride, None)
      else case resolve filterPath of
             None \<Rightarrow> (Untrusted, Some (PathError filterPath))
           | Some absPath \<Rightarrow>
               (case al_get (tm_trusted tm) absPath of
                  None \<Rightarrow> (Untrusted, None)
                | Some entry \<Rightarrow>
                    (case computeFileHash read sha filterPath of
                       None \<Rightarrow> (Untrusted, Some (HashError filterPath))
                     | Some actualHash \<Rightarrow>
                         if actualHash = ty_SHA256 entry then (Trusted, None) else (ContentChanged, None))))"

definition TrustFile ::
  "(string \<Rightarrow> string option) \<Rightarrow> (string \<Rightarrow> string option) \<Rightarrow> (string \<Rightarrow> string) \<Rightarrow> string \<Rightarrow> trust_error option
     \<Rightarrow> TrustManager \<Rightarrow> string \<Rightarrow> trust_error option \<times> TrustManager" where
  "TrustFile resolve read sha stamp saved tm filterPath =
     (case resolve filterPath of
        None \<Rightarrow> (Some (PathError filterPath), tm)
      | Some absPath \<Rightarrow>
          (case computeFileHash read sha filterPath of
             None \<Rightarrow> (Some (HashError filterPath), tm)
           | Some hash \<Rightarrow>
               (saved, tm\<lparr>tm_trusted := al_put absPath \<lparr>ty_SHA256 = hash, ty_TrustedAt = stamp\<rparr> (tm_trusted tm)\<rparr>)))"

definition UntrustFile ::
  "(string \<Rightarrow> string option) \<Rightarrow> trust_error option \<Rightarrow> TrustManager \<Rightarrow> string
     \<Rightarrow> (bool \<times> trust_error option) \<times> TrustManager" where
  "UntrustFile resolve saved tm filterPath =
     (case resolve filterPath of
        None \<Rightarrow> ((False, Some (PathError filterPath)), tm)
      | Some absPath \<Rightarrow>
          (let ok = al_get (tm_trusted tm) absPath \<noteq> None;
               tm = (if ok then tm\<lparr>tm_trusted := al_del absPath (tm_trusted tm)\<rparr> else tm)
           in ((ok, saved), tm)))"

definition tm_ListTrusted :: "TrustManager \<Rightarrow> (string \<times> TrustEntry) list" where
  "tm_ListTrusted tm = foldl (\<lambda>result (k, v). al_put k v result) [] (tm_trusted tm)"

section \<open>The loader\<close>

text \<open>
  What the loader finds outside: whether a path exists (\<^verbatim>\<open>os.Stat\<close>), how paths are joined and
  resolved, and the documents built into the program, by name.
\<close>

record loader_env =
  le_toml :: toml_env
  le_exists :: "string \<Rightarrow> bool"
  le_join :: "string \<Rightarrow> string \<Rightarrow> string"
  le_clean :: "string \<Rightarrow> string"
  le_normalize :: "string \<Rightarrow> string option"
  le_home :: "string option"
  le_defaultConfigDir :: string
  le_builtin :: "(string \<times> string) list"

record Loader =
  lo_trustedPaths :: "string list"
  lo_trustedFile :: string
  lo_configDir :: string
  lo_useLegacyDir :: bool

definition NewLoader :: "loader_env \<Rightarrow> string \<Rightarrow> Loader" where
  "NewLoader L configDir =
     (let useLegacyDir = (configDir = []);
          configDir = le_clean L (if configDir = [] then le_defaultConfigDir L else configDir)
      in \<lparr>lo_trustedPaths = [], lo_trustedFile = le_join L configDir ''trusted.txt'', lo_configDir = configDir,
          lo_useLegacyDir = useLegacyDir\<rparr>)"

text \<open>The names built in are files and end in \<^verbatim>\<open>.toml\<close>, as the pattern of the embedding says.\<close>

fun loadBuiltin_loop :: "toml_env \<Rightarrow> (string \<times> string) list \<Rightarrow> FilterRegistry \<Rightarrow> toml_error + FilterRegistry" where
  "loadBuiltin_loop E [] r = Inr r"
| "loadBuiltin_loop E ((name, content) # es) r =
     (case ParseContent (tv_unmarshal E) (tv_table_order E) content (''builtin/'' @ name) of
        Inl e \<Rightarrow> Inl e
      | Inr f \<Rightarrow>
          (case Validate (tv_compile E) (tv_rule_order E) f of
             Some e \<Rightarrow> Inl e
           | None \<Rightarrow> loadBuiltin_loop E es (al_put name f r)))"

definition IsTrusted :: "loader_env \<Rightarrow> Loader \<Rightarrow> string \<Rightarrow> bool" where
  "IsTrusted L l projectPath =
     (case le_normalize L projectPath of None \<Rightarrow> False | Some p \<Rightarrow> p \<in> set (lo_trustedPaths l))"

definition userFilterPaths :: "loader_env \<Rightarrow> Loader \<Rightarrow> string list" where
  "userFilterPaths L l =
     (let first = le_join L (lo_configDir l) ''filters.toml''
      in first #
         (if lo_useLegacyDir l
          then (case le_home L of
                  None \<Rightarrow> []
                | Some homeDir \<Rightarrow>
                    (let legacyPath = le_join L (le_join L (le_join L homeDir ''.config'') ''tokman'') ''filters.toml''
                     in if legacyPath \<noteq> first then [legacyPath] else []))
          else []))"

definition load_if_present :: "loader_env \<Rightarrow> FilterRegistry \<Rightarrow> string \<Rightarrow> FilterRegistry" where
  "load_if_present L r path = (if le_exists L path then snd (LoadFile (le_toml L) path r) else r)"

definition projectFiltersPath :: "loader_env \<Rightarrow> string \<Rightarrow> string" where
  "projectFiltersPath L projectDir = le_join L (le_join L projectDir ''.tokman'') ''filters.toml''"

definition LoadAll :: "loader_env \<Rightarrow> Loader \<Rightarrow> string \<Rightarrow> toml_error + FilterRegistry" where
  "LoadAll L l projectDir =
     (case loadBuiltin_loop (le_toml L) (le_builtin L) NewFilterRegistry of
        Inl e \<Rightarrow> Inl e
      | Inr r \<Rightarrow>
          (let r = foldl (load_if_present L) r (userFilterPaths L l)
           in if projectDir \<noteq> []
              then if le_exists L (projectFiltersPath L projectDir)
                   then if IsTrusted L l projectDir
                        then Inr (snd (LoadFile (le_toml L) (projectFiltersPath L projectDir) r))
                        else Inr r
                   else Inr r
              else Inr r))"

definition lo_TrustProject :: "loader_env \<Rightarrow> trust_error option \<Rightarrow> Loader \<Rightarrow> string \<Rightarrow> trust_error option \<times> Loader" where
  "lo_TrustProject L saved l projectPath =
     (case le_normalize L projectPath of
        None \<Rightarrow> (Some (PathError projectPath), l)
      | Some absPath \<Rightarrow> (saved, l\<lparr>lo_trustedPaths := List.insert absPath (lo_trustedPaths l)\<rparr>))"

definition lo_UntrustProject :: "loader_env \<Rightarrow> trust_error option \<Rightarrow> Loader \<Rightarrow> string \<Rightarrow> trust_error option \<times> Loader" where
  "lo_UntrustProject L saved l projectPath =
     (case le_normalize L projectPath of
        None \<Rightarrow> (Some (PathError projectPath), l)
      | Some absPath \<Rightarrow> (saved, l\<lparr>lo_trustedPaths := removeAll absPath (lo_trustedPaths l)\<rparr>))"

text \<open>The file of trusted directories, as it is written and read; \<open>order\<close> is the order of the map.\<close>

definition saveTrusted :: "(string list \<Rightarrow> string list) \<Rightarrow> Loader \<Rightarrow> string" where
  "saveTrusted order l =
     join_lines ([''# TokMan Trusted Projects'', ''# Generated by '' @ [CHR 0x27] @ ''tokman trust'' @ [CHR 0x27] @ '' command'', []] @
       order (lo_trustedPaths l))"

definition trusted_line :: "loader_env \<Rightarrow> Loader \<Rightarrow> string \<Rightarrow> Loader" where
  "trusted_line L l line =
     (let line = trimSpace line
      in if line \<noteq> [] \<and> \<not> has_prefix line ''#''
         then (case le_normalize L line of
                 None \<Rightarrow> l
               | Some p \<Rightarrow> l\<lparr>lo_trustedPaths := List.insert p (lo_trustedPaths l)\<rparr>)
         else l)"

definition LoadTrusted :: "loader_env \<Rightarrow> string option \<Rightarrow> Loader \<Rightarrow> Loader" where
  "LoadTrusted L content l =
     (case content of None \<Rightarrow> l | Some data \<Rightarrow> foldl (trusted_line L) l (split_lines data))"

definition lo_ListTrusted :: "(string list \<Rightarrow> string list) \<Rightarrow> Loader \<Rightarrow> string list" where
  "lo_ListTrusted order l = order (lo_trustedPaths l)"

section \<open>Histories of the trust store\<close>

text \<open>
  An operation on the store, with the content of the file at its path at that time; a file that
  cannot be read is \<open>None\<close>.
\<close>

datatype trust_op = OpTrust string "string option" | OpUntrust string

fun trust_step ::
  "(string \<Rightarrow> string option) \<Rightarrow> (string \<Rightarrow> string) \<Rightarrow> string \<Rightarrow> trust_error option \<Rightarrow> TrustManager \<Rightarrow> trust_op \<Rightarrow> TrustManager" where
  "trust_step resolve sha stamp saved tm (OpTrust path content) = snd (TrustFile resolve (\<lambda>p. content) sha stamp saved tm path)"
| "trust_step resolve sha stamp saved tm (OpUntrust path) = snd (UntrustFile resolve saved tm path)"

text \<open>The content last trusted at a resolved path and not untrusted since.\<close>

fun pinned :: "(string \<Rightarrow> string option) \<Rightarrow> string \<Rightarrow> string option \<Rightarrow> trust_op \<Rightarrow> string option" where
  "pinned resolve p c (OpTrust path content) = (if resolve path = Some p \<and> content \<noteq> None then content else c)"
| "pinned resolve p c (OpUntrust path) = (if resolve path = Some p then None else c)"

lemma trust_step_pinned:
  assumes "map_option ty_SHA256 (al_get (tm_trusted tm) p) = map_option sha c"
  shows "map_option ty_SHA256 (al_get (tm_trusted (trust_step resolve sha stamp saved tm op)) p) =
    map_option sha (pinned resolve p c op)"
  using assms
  by (cases op) (auto simp: TrustFile_def UntrustFile_def computeFileHash_def Let_def split: option.splits)

lemma trust_history:
  "map_option ty_SHA256 (al_get (tm_trusted (foldl (trust_step resolve sha stamp saved) tm ops)) p) =
    map_option sha (foldl (pinned resolve p) c ops)"
  if "map_option ty_SHA256 (al_get (tm_trusted tm) p) = map_option sha c"
  using that by (induction ops arbitrary: tm c) (auto simp: trust_step_pinned)

text \<open>
  C19: The trust store pins contents. After any history of trusting and untrusting files, whose
  contents may change in between, and whether or not the writes of the store succeed, a readable
  file is trusted exactly when its content has the hash of the content last trusted at the same
  resolved path, is reported as changed when another content was trusted there, and is untrusted
  when nothing is. In a continuous-integration environment one variable overrides all of it.
\<close>

theorem trust_pins_content:
  assumes "resolve path = Some p" "read path = Some content"
  shows "CheckTrust getenv resolve read sha (foldl (trust_step resolve sha stamp saved) (NewTrustManager path_join dir) ops) path =
    (if getenv ''TOKMAN_TRUST_PROJECT_FILTERS'' = ''1'' \<and> (\<exists>v \<in> set ciVars. getenv v \<noteq> []) then EnvOverride
     else case foldl (pinned resolve p) None ops of
            None \<Rightarrow> Untrusted
          | Some c \<Rightarrow> if sha content = sha c then Trusted else ContentChanged, None)"
proof -
  have "map_option ty_SHA256 (al_get (tm_trusted (foldl (trust_step resolve sha stamp saved) (NewTrustManager path_join dir) ops)) p) =
    map_option sha (foldl (pinned resolve p) None ops)"
    by (rule trust_history) (simp add: NewTrustManager_def)
  then show ?thesis using assms
    by (auto simp: CheckTrust_def computeFileHash_def isCIEnvironment_def list_ex_iff split: option.splits)
qed

theorem trust_pins_content_witness:
  "CheckTrust (\<lambda>v. []) Some (\<lambda>p. Some ''head = 1'') rev
     (foldl (trust_step Some rev [] None) (NewTrustManager (@) []) [OpTrust ''f'' (Some ''head = 5'')]) ''f'' = (ContentChanged, None)"
  using trust_pins_content [of Some "''f''" "''f''" "\<lambda>p. Some ''head = 1''" "''head = 1''" "\<lambda>v. []" rev "[]" None "(@)" "[]"
      "[OpTrust ''f'' (Some ''head = 5'')]"]
  by simp

section \<open>What is loaded\<close>

lemma loadBuiltin_reachable:
  "registry_reachable E r \<Longrightarrow> loadBuiltin_loop E es r = Inr r' \<Longrightarrow> registry_reachable E r'"
proof (induction E es r rule: loadBuiltin_loop.induct)
  case (2 E name content es r)
  then show ?case by (auto split: sum.splits option.splits intro: registry_reachable.builtin)
qed simp

lemma load_if_present_reachable:
  "registry_reachable (le_toml L) r \<Longrightarrow> registry_reachable (le_toml L) (foldl (load_if_present L) r ps)"
  by (induction ps arbitrary: r) (auto simp: load_if_present_def intro: registry_reachable.load)

text \<open>Whatever the loader loads is a registry whose lookups are correct.\<close>

lemma LoadAll_reachable:
  assumes "LoadAll L l projectDir = Inr r"
  shows "registry_reachable (le_toml L) r"
proof -
  obtain b where b: "loadBuiltin_loop (le_toml L) (le_builtin L) NewFilterRegistry = Inr b"
    using assms by (auto simp: LoadAll_def split: sum.splits)
  have u: "registry_reachable (le_toml L) (foldl (load_if_present L) b (userFilterPaths L l))"
    by (rule load_if_present_reachable [OF loadBuiltin_reachable [OF registry_reachable.new b]])
  show ?thesis using assms b u registry_reachable.load [OF u] by (auto simp: LoadAll_def Let_def split: if_splits)
qed

definition demo_files :: "string \<Rightarrow> string option" where
  "demo_files p = (if p = ''p/.tokman/filters.toml'' then Some ''x'' else if p = ''c/filters.toml'' then Some ''y'' else None)"

definition demo_loader_env :: loader_env where
  "demo_loader_env =
     \<lparr>le_toml = demo_env\<lparr>tv_read := demo_files\<rparr>, le_exists = (\<lambda>p. demo_files p \<noteq> None), le_join = (\<lambda>a b. a @ ''/'' @ b),
      le_clean = id, le_normalize = Some, le_home = None, le_defaultConfigDir = ''c'', le_builtin = []\<rparr>"

definition demo_loader :: Loader where
  "demo_loader = (NewLoader demo_loader_env ''c'')\<lparr>lo_trustedPaths := [''p'']\<rparr>"

section \<open>The file of trusted directories\<close>

lemma LoadTrusted_lines:
  "set (lo_trustedPaths (foldl (trusted_line L) l ls)) = set (lo_trustedPaths l) \<union>
    {p. \<exists>x \<in> set ls. trimSpace x \<noteq> [] \<and> \<not> has_prefix (trimSpace x) ''#'' \<and> le_normalize L (trimSpace x) = Some p}"
proof (induction ls arbitrary: l)
  case (Cons x ls)
  have "set (lo_trustedPaths (trusted_line L l x)) = set (lo_trustedPaths l) \<union>
    {p. trimSpace x \<noteq> [] \<and> \<not> has_prefix (trimSpace x) ''#'' \<and> le_normalize L (trimSpace x) = Some p}"
    by (auto simp: trusted_line_def Let_def split: option.splits)
  then show ?case using Cons.IH by auto
qed simp

text \<open>
  The list of trusted directories survives a restart. If every trusted path is free of line
  breaks and of white space at its ends, does not begin with a hash sign and resolves to itself, a
  fresh loader that reads the file the old one wrote, in whatever order, trusts exactly the same
  projects.
\<close>

theorem trusted_file_roundtrip:
  assumes "\<And>ps. set (order ps) = set ps"
    and "\<forall>p \<in> set (lo_trustedPaths l). nl \<notin> set p \<and> p \<noteq> [] \<and> trimSpace p = p \<and> \<not> has_prefix p ''#'' \<and>
      le_normalize L p = Some p"
  shows "IsTrusted L (LoadTrusted L (Some (saveTrusted order l)) (NewLoader L dir)) project = IsTrusted L l project"
proof -
  let ?head = "[''# TokMan Trusted Projects'', ''# Generated by '' @ [CHR 0x27] @ ''tokman trust'' @ [CHR 0x27] @ '' command'', []]"
  have head: "\<forall>x \<in> set ?head. nl \<notin> set x \<and> (trimSpace x = [] \<or> has_prefix (trimSpace x) ''#'')" by code_simp
  have "split_lines (saveTrusted order l) = ?head @ order (lo_trustedPaths l)"
    unfolding saveTrusted_def by (rule split_join) (use head assms in auto)
  then have "set (lo_trustedPaths (LoadTrusted L (Some (saveTrusted order l)) (NewLoader L dir))) =
    {p. \<exists>x \<in> set ?head \<union> set (lo_trustedPaths l). trimSpace x \<noteq> [] \<and> \<not> has_prefix (trimSpace x) ''#'' \<and>
      le_normalize L (trimSpace x) = Some p}"
    by (simp only: LoadTrusted_def option.case LoadTrusted_lines set_append assms(1)) (simp add: NewLoader_def Let_def)
  also have "\<dots> = {p. \<exists>x \<in> set (lo_trustedPaths l). trimSpace x \<noteq> [] \<and> \<not> has_prefix (trimSpace x) ''#'' \<and>
      le_normalize L (trimSpace x) = Some p}"
    using head by blast
  also have "\<dots> = set (lo_trustedPaths l)" using assms(2) by (auto intro!: bexI)
  finally show ?thesis unfolding IsTrusted_def by (cases "le_normalize L project") simp_all
qed

theorem trusted_file_roundtrip_witness:
  "IsTrusted demo_loader_env (LoadTrusted demo_loader_env (Some (saveTrusted rev demo_loader))
     (NewLoader demo_loader_env [])) ''p''"
proof -
  have "\<forall>p \<in> set (lo_trustedPaths demo_loader). nl \<notin> set p \<and> p \<noteq> [] \<and> trimSpace p = p \<and> \<not> has_prefix p ''#'' \<and>
      le_normalize demo_loader_env p = Some p"
    by code_simp
  moreover have "IsTrusted demo_loader_env demo_loader ''p''" by code_simp
  ultimately show ?thesis
    using trusted_file_roundtrip [of rev demo_loader demo_loader_env "[]" "''p''"] by simp
qed

text \<open>
  The loader's trust is in directories, not in contents. Filters of a directory that is not
  trusted are never loaded: the result is that of a run without a project. Once the directory is
  trusted, whatever its filter file holds at that time is loaded if it is valid, and takes the
  place of the user's own filters, because both files have the same name. The store that pins
  contents is not asked: it may report the very file as changed.
\<close>

theorem project_filters_loaded_by_path:
  assumes "projectDir \<noteq> []" "le_exists L file" "file = projectFiltersPath L projectDir" "path_base file = ''filters.toml''"
    and "LoadAll L l [] = Inr r" "ParseFile (tv_read (le_toml L)) (tv_unmarshal (le_toml L)) (tv_table_order (le_toml L)) file = Inr f"
    and "Validate (tv_compile (le_toml L)) (tv_rule_order (le_toml L)) f = None"
  shows "LoadAll L l projectDir = Inr (if IsTrusted L l projectDir then al_put ''filters.toml'' f r else r)"
  using assms by (auto simp: LoadAll_def LoadFile_def Let_def split: sum.splits)

theorem project_filters_loaded_by_path_witness:
  "\<exists>f r. LoadAll demo_loader_env demo_loader ''p'' = Inr (al_put ''filters.toml'' f r) \<and> al_keys r = [''filters.toml''] \<and>
    LoadAll demo_loader_env demo_loader [] = Inr r \<and>
    fst (CheckTrust (\<lambda>v. []) Some demo_files rev
      (foldl (trust_step Some rev [] None) (NewTrustManager (@) []) [OpTrust ''p/.tokman/filters.toml'' (Some ''old'')])
      ''p/.tokman/filters.toml'') = ContentChanged"
proof -
  let ?E = "le_toml demo_loader_env"
  obtain r where r: "LoadAll demo_loader_env demo_loader [] = Inr r" "al_keys r = [''filters.toml'']"
  proof -
    have "(case LoadAll demo_loader_env demo_loader [] of Inr r \<Rightarrow> al_keys r = [''filters.toml''] | Inl e \<Rightarrow> False)"
      by code_simp
    then show thesis using that by (auto split: sum.splits)
  qed
  obtain f where f: "ParseFile (tv_read ?E) (tv_unmarshal ?E) (tv_table_order ?E) ''p/.tokman/filters.toml'' = Inr f"
    "Validate (tv_compile ?E) (tv_rule_order ?E) f = None"
  proof -
    have "(case ParseFile (tv_read ?E) (tv_unmarshal ?E) (tv_table_order ?E) ''p/.tokman/filters.toml'' of
      Inr f \<Rightarrow> Validate (tv_compile ?E) (tv_rule_order ?E) f = None | Inl e \<Rightarrow> False)"
      by code_simp
    then show thesis using that by (auto split: sum.splits)
  qed
  have "le_exists demo_loader_env ''p/.tokman/filters.toml''" "path_base ''p/.tokman/filters.toml'' = ''filters.toml''"
    "''p/.tokman/filters.toml'' = projectFiltersPath demo_loader_env ''p''" "IsTrusted demo_loader_env demo_loader ''p''"
    by code_simp+
  moreover have "fst (CheckTrust (\<lambda>v. []) Some demo_files rev
      (foldl (trust_step Some rev [] None) (NewTrustManager (@) []) [OpTrust ''p/.tokman/filters.toml'' (Some ''old'')])
      ''p/.tokman/filters.toml'') = ContentChanged"
    by code_simp
  ultimately show ?thesis
    using project_filters_loaded_by_path [of "''p''" demo_loader_env "''p/.tokman/filters.toml''" demo_loader r f] r f by auto
qed

end
