(* ===== verification/Go_Utf8.thy ===== *)
theory Go_Utf8
  imports Go_Strings
begin

text \<open>
  Ranging over the runes of a Go string: decoding UTF-8 as \<^verbatim>\<open>unicode/utf8\<close> does it, where
  every byte that starts no well-formed sequence is the replacement character U+FFFD of width 1.
\<close>

abbreviation byte :: "char \<Rightarrow> nat" where
  "byte c \<equiv> of_char c"

definition in_range :: "nat \<Rightarrow> nat \<Rightarrow> char \<Rightarrow> bool" where
  "in_range lo hi c \<longleftrightarrow> lo \<le> byte c \<and> byte c \<le> hi"

definition is_cont :: "char \<Rightarrow> bool" where
  "is_cont = in_range 0x80 0xBF"

definition low6 :: "char \<Rightarrow> nat" where
  "low6 c = byte c mod 64"

definition RuneError :: nat where
  "RuneError = 0xFFFD"

text \<open>The rune that a byte and its successors begin with, and how many successors it takes.\<close>

definition decode_rune :: "char \<Rightarrow> string \<Rightarrow> nat \<times> nat" where
  "decode_rune c s =
     (let b = byte c;
          lo = (if b = 0xE0 then 0xA0 else if b = 0xF0 then 0x90 else 0x80);
          hi = (if b = 0xED then 0x9F else if b = 0xF4 then 0x8F else 0xBF)
      in if b < 0x80 then (b, 0)
         else if 0xC2 \<le> b \<and> b \<le> 0xDF
         then (case s of x # _ \<Rightarrow> if is_cont x then ((b mod 32) * 64 + low6 x, 1) else (RuneError, 0)
               | _ \<Rightarrow> (RuneError, 0))
         else if 0xE0 \<le> b \<and> b \<le> 0xEF
         then (case s of x # y # _ \<Rightarrow>
                 if in_range lo hi x \<and> is_cont y then (((b mod 16) * 64 + low6 x) * 64 + low6 y, 2) else (RuneError, 0)
               | _ \<Rightarrow> (RuneError, 0))
         else if 0xF0 \<le> b \<and> b \<le> 0xF4
         then (case s of x # y # z # _ \<Rightarrow>
                 if in_range lo hi x \<and> is_cont y \<and> is_cont z
                 then ((((b mod 8) * 64 + low6 x) * 64 + low6 y) * 64 + low6 z, 3) else (RuneError, 0)
               | _ \<Rightarrow> (RuneError, 0))
         else (RuneError, 0))"

function runes :: "string \<Rightarrow> nat list" where
  "runes [] = []"
| "runes (c # s) = fst (decode_rune c s) # runes (drop (snd (decode_rune c s)) s)"
  by pat_completeness auto
termination by (relation "measure length") auto

text \<open>\<^verbatim>\<open>string(rune)\<close>.\<close>

definition valid_rune :: "nat \<Rightarrow> bool" where
  "valid_rune r \<longleftrightarrow> r < 0xD800 \<or> 0xE000 \<le> r \<and> r \<le> 0x10FFFF"

definition encode_rune :: "nat \<Rightarrow> string" where
  "encode_rune r =
     (if r < 0x80 then [char_of r]
      else if r < 0x800 then [char_of (0xC0 + r div 64), char_of (0x80 + r mod 64)]
      else if r < 0x10000
      then [char_of (0xE0 + r div 4096), char_of (0x80 + r div 64 mod 64), char_of (0x80 + r mod 64)]
      else [char_of (0xF0 + r div 262144), char_of (0x80 + r div 4096 mod 64), char_of (0x80 + r div 64 mod 64),
            char_of (0x80 + r mod 64)])"

section \<open>Encoding and decoding\<close>

lemma byte_char_of [simp]: "n < 256 \<Longrightarrow> byte (char_of n) = n"
  by (simp add: of_char_of)

lemma decode_one: "r < 0x80 \<Longrightarrow> decode_rune (char_of r) s = (r, 0)"
  by (simp add: decode_rune_def)

lemma byte_plus:
  "y < 64 \<Longrightarrow> byte (char_of (0x80 + y)) = 0x80 + y"
  "y < 32 \<Longrightarrow> byte (char_of (0xC0 + y)) = 0xC0 + y"
  "y < 16 \<Longrightarrow> byte (char_of (0xE0 + y)) = 0xE0 + y"
  "y < 8 \<Longrightarrow> byte (char_of (0xF0 + y)) = 0xF0 + y"
  by (rule byte_char_of; simp)+

lemma mod_plus:
  "y < 64 \<Longrightarrow> (0x80 + y) mod 64 = (y::nat)"
  "y < 32 \<Longrightarrow> (0xC0 + y) mod 32 = (y::nat)"
  "y < 16 \<Longrightarrow> (0xE0 + y) mod 16 = (y::nat)"
  "y < 8 \<Longrightarrow> (0xF0 + y) mod 8 = (y::nat)"
  using mod_mult_self3 [of 2 64 y] mod_mult_self3 [of 6 32 y] mod_mult_self3 [of 14 16 y] mod_mult_self3 [of 30 8 y]
  by simp_all

lemma cont_byte:
  assumes "y < 64"
  shows "is_cont (char_of (0x80 + y))" "low6 (char_of (0x80 + y)) = y"
  unfolding is_cont_def in_range_def low6_def byte_plus(1) [OF assms] mod_plus(1) [OF assms] using assms by simp_all

lemma decode_two:
  assumes "2 \<le> a" "a < 32" "y < 64"
  shows "decode_rune (char_of (0xC0 + a)) (char_of (0x80 + y) # s) = (a * 64 + y, 1)"
  unfolding decode_rune_def byte_plus(2) [OF assms(2)] Let_def
  using assms by (simp add: cont_byte mod_plus del: of_char_of)

lemma decode_three:
  assumes "a < 16" "x < 64" "y < 64" "a = 0 \<Longrightarrow> 32 \<le> x" "a = 13 \<Longrightarrow> x < 32"
  shows "decode_rune (char_of (0xE0 + a)) (char_of (0x80 + x) # char_of (0x80 + y) # s) = ((a * 64 + x) * 64 + y, 2)"
proof -
  have "in_range (if 0xE0 + a = 0xE0 then 0xA0 else if 0xE0 + a = 0xF0 then 0x90 else 0x80)
      (if 0xE0 + a = 0xED then 0x9F else if 0xE0 + a = 0xF4 then 0x8F else 0xBF) (char_of (0x80 + x))"
    unfolding in_range_def byte_plus(1) [OF assms(2)] using assms by auto
  then show ?thesis
    unfolding decode_rune_def byte_plus(3) [OF assms(1)] Let_def
    using assms(1-3) by (simp add: cont_byte mod_plus del: of_char_of)
qed

lemma decode_four:
  assumes "a < 5" "x < 64" "y < 64" "z < 64" "a = 0 \<Longrightarrow> 16 \<le> x" "a = 4 \<Longrightarrow> x < 16"
  shows "decode_rune (char_of (0xF0 + a)) (char_of (0x80 + x) # char_of (0x80 + y) # char_of (0x80 + z) # s) =
    (((a * 64 + x) * 64 + y) * 64 + z, 3)"
proof -
  have a: "a < 8" using assms(1) by simp
  have "in_range (if 0xF0 + a = 0xE0 then 0xA0 else if 0xF0 + a = 0xF0 then 0x90 else 0x80)
      (if 0xF0 + a = 0xED then 0x9F else if 0xF0 + a = 0xF4 then 0x8F else 0xBF) (char_of (0x80 + x))"
    unfolding in_range_def byte_plus(1) [OF assms(2)] using assms by auto
  then show ?thesis
    unfolding decode_rune_def byte_plus(4) [OF a] Let_def
    using assms(1-4) a by (simp add: cont_byte mod_plus del: of_char_of)
qed

lemma three_bounds:
  fixes a x y r :: nat
  assumes "(a * 64 + x) * 64 + y = r" "y < 64" "x < 64"
  shows "a = 0 \<Longrightarrow> 0x800 \<le> r \<Longrightarrow> 32 \<le> x"
    and "a = 13 \<Longrightarrow> r < 0xD800 \<or> 0xE000 \<le> r \<Longrightarrow> x < 32"
  using assms by auto

lemma four_bounds:
  fixes a x y z r :: nat
  assumes "((a * 64 + x) * 64 + y) * 64 + z = r" "y < 64" "x < 64" "z < 64"
  shows "a = 0 \<Longrightarrow> 0x10000 \<le> r \<Longrightarrow> 16 \<le> x"
    and "a = 4 \<Longrightarrow> r \<le> 0x10FFFF \<Longrightarrow> x < 16"
  using assms by auto

text \<open>Decoding an encoded rune takes exactly its bytes.\<close>

lemma decode_encode:
  assumes "valid_rune r"
  obtains c t where "encode_rune r = c # t" "\<And>s. decode_rune c (t @ s) = (r, length t)"
proof -
  have m: "r mod 64 < 64" "r div 64 mod 64 < 64" "r div 4096 mod 64 < 64" by simp_all
  consider "r < 0x80" | "0x80 \<le> r" "r < 0x800" | "0x800 \<le> r" "r < 0x10000" | "0x10000 \<le> r"
    by linarith
  then show thesis
  proof cases
    case 1
    then show thesis by (intro that [of "char_of r" "[]"]) (simp_all add: encode_rune_def decode_one)
  next
    case 2
    have "2 \<le> r div 64" "r div 64 < 32" using 2 by auto
    moreover have "r div 64 * 64 + r mod 64 = r" by simp
    ultimately show thesis using 2 m decode_two [of "r div 64" "r mod 64"]
      by (intro that [of "char_of (0xC0 + r div 64)" "[char_of (0x80 + r mod 64)]"]) (simp_all add: encode_rune_def)
  next
    case 3
    have d: "r div 4096 = r div 64 div 64" by (simp add: div_mult2_eq [symmetric])
    then have r: "(r div 4096 * 64 + r div 64 mod 64) * 64 + r mod 64 = r" by simp
    have "r div 4096 < 16" using 3 by auto
    moreover note three_bounds [OF r m(1,2)]
    moreover have "r < 0xD800 \<or> 0xE000 \<le> r" using assms by (auto simp: valid_rune_def)
    ultimately show thesis using 3 m r decode_three [of "r div 4096" "r div 64 mod 64" "r mod 64"]
      by (intro that [of "char_of (0xE0 + r div 4096)" "[char_of (0x80 + r div 64 mod 64), char_of (0x80 + r mod 64)]"])
        (simp_all add: encode_rune_def)
  next
    case 4
    have "r div 4096 = r div 64 div 64" "r div 262144 = r div 64 div 64 div 64" by (simp_all add: div_mult2_eq [symmetric])
    then have r: "((r div 262144 * 64 + r div 4096 mod 64) * 64 + r div 64 mod 64) * 64 + r mod 64 = r" by simp
    have "r div 262144 < 5" using assms 4 by (auto simp: valid_rune_def)
    moreover note four_bounds [OF r m(2,3,1)]
    moreover have "r \<le> 0x10FFFF" using assms by (auto simp: valid_rune_def)
    ultimately show thesis using 4 m r decode_four [of "r div 262144" "r div 4096 mod 64" "r div 64 mod 64" "r mod 64"]
      by (intro that [of "char_of (0xF0 + r div 262144)"
            "[char_of (0x80 + r div 4096 mod 64), char_of (0x80 + r div 64 mod 64), char_of (0x80 + r mod 64)]"])
        (simp_all add: encode_rune_def)
  qed
qed

text \<open>Ranging over a string that encodes runes meets exactly these runes.\<close>

lemma runes_encode:
  assumes "list_all valid_rune rs"
  shows "runes (concat (map encode_rune rs)) = rs"
  using assms
proof (induction rs)
  case (Cons r rs)
  then obtain c t where "encode_rune r = c # t" "\<And>s. decode_rune c (t @ s) = (r, length t)"
    using decode_encode [of r] by auto
  then show ?case using Cons by simp
qed simp

text \<open>Whatever the bytes, every rune met is valid.\<close>

lemma low6_range: "in_range lo hi c \<Longrightarrow> 0x80 \<le> lo \<Longrightarrow> hi \<le> 0xBF \<Longrightarrow> lo - 0x80 \<le> low6 c \<and> low6 c \<le> hi - 0x80"
proof -
  assume "in_range lo hi c" "0x80 \<le> lo" "hi \<le> 0xBF"
  then obtain k where "byte c = 0x80 + k" "lo - 0x80 \<le> k" "k \<le> hi - 0x80" "k < 64"
    by (auto simp: in_range_def intro!: that [of "byte c - 0x80"])
  then show ?thesis by (simp add: low6_def mod_plus)
qed

lemma cont_low6: "is_cont c \<Longrightarrow> low6 c \<le> 63"
  using low6_range [of 128 191 c] by (simp add: is_cont_def)

lemma valid_RuneError: "valid_rune RuneError"
  by (simp add: valid_rune_def RuneError_def)

lemma valid_low: "r < 0xD800 \<Longrightarrow> valid_rune r"
  by (simp add: valid_rune_def)

lemma valid_high: "0xE000 \<le> r \<Longrightarrow> r \<le> 0x10FFFF \<Longrightarrow> valid_rune r"
  by (simp add: valid_rune_def)

lemma lead_mod:
  fixes b :: nat
  shows "0xC2 \<le> b \<Longrightarrow> b \<le> 0xDF \<Longrightarrow> b mod 32 = b - 0xC0"
    and "0xE0 \<le> b \<Longrightarrow> b \<le> 0xEF \<Longrightarrow> b mod 16 = b - 0xE0"
    and "0xF0 \<le> b \<Longrightarrow> b \<le> 0xF4 \<Longrightarrow> b mod 8 = b - 0xF0"
proof -
  show "0xC2 \<le> b \<Longrightarrow> b \<le> 0xDF \<Longrightarrow> b mod 32 = b - 0xC0" using mod_plus(2) [of "b - 0xC0"] by simp
  show "0xE0 \<le> b \<Longrightarrow> b \<le> 0xEF \<Longrightarrow> b mod 16 = b - 0xE0" using mod_plus(3) [of "b - 0xE0"] by simp
  show "0xF0 \<le> b \<Longrightarrow> b \<le> 0xF4 \<Longrightarrow> b mod 8 = b - 0xF0" using mod_plus(4) [of "b - 0xF0"] by simp
qed

lemma valid_sums:
  fixes a x y z :: nat
  assumes "y \<le> 63" "z \<le> 63"
  shows "a \<le> 12 \<Longrightarrow> x \<le> 63 \<Longrightarrow> valid_rune ((a * 64 + x) * 64 + y)"
    and "a = 13 \<Longrightarrow> x \<le> 31 \<Longrightarrow> valid_rune ((a * 64 + x) * 64 + y)"
    and "14 \<le> a \<Longrightarrow> a \<le> 15 \<Longrightarrow> x \<le> 63 \<Longrightarrow> valid_rune ((a * 64 + x) * 64 + y)"
    and "a = 0 \<Longrightarrow> 16 \<le> x \<Longrightarrow> x \<le> 63 \<Longrightarrow> valid_rune (((a * 64 + x) * 64 + y) * 64 + z)"
    and "1 \<le> a \<Longrightarrow> a \<le> 3 \<Longrightarrow> x \<le> 63 \<Longrightarrow> valid_rune (((a * 64 + x) * 64 + y) * 64 + z)"
    and "a = 4 \<Longrightarrow> x \<le> 15 \<Longrightarrow> valid_rune (((a * 64 + x) * 64 + y) * 64 + z)"
  using assms by (auto intro: valid_low valid_high)

lemma valid_three:
  assumes "0xE0 \<le> b" "b \<le> 0xEF" "in_range lo hi x" "is_cont y" "0x80 \<le> lo"
    and "hi = (if b = 0xED then 0x9F else 0xBF)"
  shows "valid_rune (((b mod 16) * 64 + low6 x) * 64 + low6 y)"
proof -
  have h: "hi \<le> 0xBF" using assms(6) by simp
  have x: "low6 x \<le> hi - 0x80" "low6 y \<le> 63" using low6_range [OF assms(3,5) h] cont_low6 [OF assms(4)] by auto
  have m: "b mod 16 = b - 0xE0" by (rule lead_mod(2) [OF assms(1,2)])
  consider "b \<le> 0xEC" | "b = 0xED" | "0xEE \<le> b" by linarith
  then show ?thesis
  proof cases
    case 1
    then have "b - 0xE0 \<le> 12" "low6 x \<le> 63" using x assms(6) by auto
    then show ?thesis using valid_sums(1) [OF x(2,2)] unfolding m by blast
  next
    case 2
    then have "b - 0xE0 = 13" "low6 x \<le> 31" using x assms(6) by auto
    then show ?thesis using valid_sums(2) [OF x(2,2)] unfolding m by blast
  next
    case 3
    then have "14 \<le> b - 0xE0" "b - 0xE0 \<le> 15" "low6 x \<le> 63" using x assms by auto
    then show ?thesis using valid_sums(3) [OF x(2,2)] unfolding m by blast
  qed
qed

lemma valid_four:
  assumes "0xF0 \<le> b" "b \<le> 0xF4" "in_range lo hi x" "is_cont y" "is_cont z"
    and "lo = (if b = 0xF0 then 0x90 else 0x80)" "hi = (if b = 0xF4 then 0x8F else 0xBF)"
  shows "valid_rune ((((b mod 8) * 64 + low6 x) * 64 + low6 y) * 64 + low6 z)"
proof -
  have h: "0x80 \<le> lo" "hi \<le> 0xBF" using assms(6,7) by simp_all
  have x: "lo - 0x80 \<le> low6 x" "low6 x \<le> hi - 0x80" "low6 y \<le> 63" "low6 z \<le> 63"
    using low6_range [OF assms(3) h] cont_low6 assms(4,5) by auto
  have m: "b mod 8 = b - 0xF0" by (rule lead_mod(3) [OF assms(1,2)])
  consider "b = 0xF0" | "0xF1 \<le> b" "b \<le> 0xF3" | "b = 0xF4" using assms(1,2) by linarith
  then show ?thesis
  proof cases
    case 1
    then have "b - 0xF0 = 0" "16 \<le> low6 x" "low6 x \<le> 63" using x assms(6,7) by auto
    then show ?thesis using valid_sums(4) [OF x(3,4)] unfolding m by blast
  next
    case 2
    then have "1 \<le> b - 0xF0" "b - 0xF0 \<le> 3" "low6 x \<le> 63" using x assms(7) by auto
    then show ?thesis using valid_sums(5) [OF x(3,4)] unfolding m by blast
  next
    case 3
    then have "b - 0xF0 = 4" "low6 x \<le> 15" using x assms(7) by auto
    then show ?thesis using valid_sums(6) [OF x(3,4)] unfolding m by blast
  qed
qed

lemma decode_valid: "valid_rune (fst (decode_rune c s))"
proof -
  have two: "valid_rune ((b mod 32) * 64 + low6 x)" if "is_cont x" for b x
    using cont_low6 [OF that] mod_less_divisor [of 32 b] by - (rule valid_low, linarith)
  let ?lo = "if byte c = 0xE0 then 0xA0 else if byte c = 0xF0 then 0x90 else (0x80::nat)"
  let ?hi = "if byte c = 0xED then 0x9F else if byte c = 0xF4 then 0x8F else (0xBF::nat)"
  consider "byte c < 0x80" | "0xC2 \<le> byte c" "byte c \<le> 0xDF" | "0xE0 \<le> byte c" "byte c \<le> 0xEF"
    | "0xF0 \<le> byte c" "byte c \<le> 0xF4" | "0x80 \<le> byte c" "byte c < 0xC2" | "0xDF < byte c" "byte c < 0xE0" | "0xF4 < byte c"
    by linarith
  then show ?thesis
  proof cases
    case 1
    then show ?thesis by (simp add: decode_rune_def valid_rune_def)
  next
    case 2
    then show ?thesis using two [of _ "byte c"] by (auto simp: decode_rune_def valid_RuneError Let_def split: list.split)
  next
    case 3
    define P where "P = in_range ?lo ?hi"
    define F where "F = (\<lambda>x y. ((byte c mod 16) * 64 + low6 x) * 64 + low6 y)"
    have v: "valid_rune (F x y)" if "P x" "is_cont y" for x y
      unfolding F_def by (rule valid_three [OF 3 that(1) [unfolded P_def] that(2)]) (use 3 in auto)
    have "decode_rune c s = (case s of x # y # _ \<Rightarrow> if P x \<and> is_cont y then (F x y, 2) else (RuneError, 0)
      | _ \<Rightarrow> (RuneError, 0))"
      using 3 unfolding decode_rune_def Let_def P_def F_def by simp
    then show ?thesis by (simp add: v valid_RuneError split: list.split)
  next
    case 4
    define P where "P = in_range ?lo ?hi"
    define F where "F = (\<lambda>x y z. (((byte c mod 8) * 64 + low6 x) * 64 + low6 y) * 64 + low6 z)"
    have v: "valid_rune (F x y z)" if "P x" "is_cont y" "is_cont z" for x y z
      unfolding F_def by (rule valid_four [OF 4 that(1) [unfolded P_def] that(2,3)]) (use 4 in auto)
    have "decode_rune c s = (case s of
        x # y # z # _ \<Rightarrow> if P x \<and> is_cont y \<and> is_cont z then (F x y z, 3) else (RuneError, 0)
      | _ \<Rightarrow> (RuneError, 0))"
      using 4 unfolding decode_rune_def Let_def P_def F_def by simp
    then show ?thesis by (simp add: v valid_RuneError split: list.split)
  qed (simp_all add: decode_rune_def valid_RuneError Let_def)
qed

lemma valid_runes: "list_all valid_rune (runes s)"
  by (induction s rule: runes.induct) (simp_all add: decode_valid)

end
