(* ===== verification/Toml_Safety.thy ===== *)
theory Toml_Safety
  imports Go_Utf8
begin

text \<open>
  What guards declarative filters that come from others: the checks of
  \<^verbatim>\<open>internal/toml/safety.go\<close>, the registry of community filters of \<^verbatim>\<open>registry.go\<close> that
  runs them before it publishes, and the test suites of \<^verbatim>\<open>safety.go\<close> and \<^verbatim>\<open>test_suite.go\<close>.
\<close>

section \<open>Patterns\<close>

abbreviation dq :: string where
  "dq \<equiv> [CHR 0x22]"

abbreviation sq :: string where
  "sq \<equiv> [CHR 0x27]"

definition promptPatterns :: "string list" where
  "promptPatterns =
     [''ignore all'', ''ignore previous'', ''disregard'', ''you are now'', ''act as'', ''pretend to'',
      ''system prompt'', ''developer mode'']"

definition containsPromptInjection :: "string \<Rightarrow> bool" where
  "containsPromptInjection line = contains_any (toLower line) promptPatterns"

definition shellPatterns :: "string list" where
  "shellPatterns =
     [''$(rm -rf'', ''$(curl'', ''$(wget'', CHR 0x60 # ''rm -rf'', CHR 0x60 # ''curl'', CHR 0x60 # ''wget'',
      ''; rm -rf'', ''| rm -rf'', ''&& rm -rf'']"

definition containsShellInjection :: "string \<Rightarrow> bool" where
  "containsShellInjection line = contains_any line shellPatterns"

definition hidden_rune :: "nat \<Rightarrow> bool" where
  "hidden_rune r \<longleftrightarrow> 0x200B \<le> r \<and> r \<le> 0x200F \<or> 0x202A \<le> r \<and> r \<le> 0x202E \<or>
     0x2060 \<le> r \<and> r \<le> 0x2064 \<or> 0x2066 \<le> r \<and> r \<le> 0x2069 \<or> r = 0xAD \<or> r = 0xFEFF \<or>
     0xFFF0 \<le> r \<and> r \<le> 0xFFF8"

definition containsHiddenUnicode :: "string \<Rightarrow> bool" where
  "containsHiddenUnicode line = list_ex hidden_rune (runes line)"

definition containsCatchAllPattern :: "string \<Rightarrow> bool" where
  "containsCatchAllPattern line = contains_any line
     [''pattern = '' @ dq @ ''.'' @ dq, ''pattern = '' @ dq @ ''.*'' @ dq, ''pattern = '' @ sq @ ''.+'' @ sq,
      ''match = '' @ dq @ ''*'' @ dq, ''match = '' @ dq @ ''**'' @ dq]"

definition containsDangerousReplace :: "string \<Rightarrow> bool" where
  "containsDangerousReplace line = contains_any line
     [''replace = '' @ dq @ dq, ''replace = '' @ sq @ sq, ''strip = '' @ dq @ ''*'' @ dq,
      ''strip = '' @ dq @ ''**'' @ dq, ''remove = '' @ dq @ ''all'' @ dq]"

section \<open>The check\<close>

record SafetyIssue =
  si_Severity :: string
  si_Message :: string
  si_Line :: int

record SafetyCheck =
  sc_Passed :: bool
  sc_Issues :: "SafetyIssue list"

definition add_issue :: "string \<Rightarrow> string \<Rightarrow> int \<Rightarrow> SafetyCheck \<Rightarrow> SafetyCheck" where
  "add_issue severity message n r =
     r\<lparr>sc_Issues := sc_Issues r @ [\<lparr>si_Severity = severity, si_Message = message, si_Line = n\<rparr>]\<rparr>"

definition check_line :: "SafetyCheck \<Rightarrow> nat \<times> string \<Rightarrow> SafetyCheck" where
  "check_line result il =
     (let lineNum = int (fst il) + 1;
          trimmed = trimSpace (snd il);
          result = (if containsPromptInjection trimmed
            then (add_issue ''critical'' ''Potential prompt injection pattern detected'' lineNum result)\<lparr>sc_Passed := False\<rparr>
            else result);
          result = (if containsShellInjection trimmed
            then (add_issue ''critical'' ''Potential shell injection pattern detected'' lineNum result)\<lparr>sc_Passed := False\<rparr>
            else result);
          result = (if containsHiddenUnicode trimmed
            then add_issue ''warning'' ''Hidden Unicode characters detected'' lineNum result else result);
          result = (if containsCatchAllPattern trimmed
            then add_issue ''warning'' ''Overly broad pattern may match unintended content'' lineNum result else result);
          result = (if containsDangerousReplace trimmed
            then add_issue ''warning'' ''Replace pattern may remove critical content'' lineNum result else result)
      in result)"

definition CheckFilterSafety :: "string \<Rightarrow> SafetyCheck" where
  "CheckFilterSafety content =
     foldl check_line \<lparr>sc_Passed = True, sc_Issues = []\<rparr> (enumerate 0 (split_lines content))"

definition ValidateFilterConfig :: "string \<Rightarrow> string list" where
  "ValidateFilterConfig content =
     (let unescapedSingle = str_count content sq - str_count content (CHR 0x5C # sq);
          unescapedDouble = str_count content dq - str_count content (CHR 0x5C # dq)
      in (if \<not> contains content ''[filters.'' then [''No filter sections found''] else []) @
         (if \<not> contains content ''pattern'' \<and> \<not> contains content ''match'' then [''No pattern or match rules found''] else []) @
         (if str_count content ''['' \<noteq> str_count content '']'' then [''Unclosed brackets detected''] else []) @
         (if unescapedSingle mod 2 \<noteq> 0 then [''Unclosed single quote detected''] else []) @
         (if unescapedDouble mod 2 \<noteq> 0 then [''Unclosed double quote detected''] else []))"

text \<open>The white space of \<^verbatim>\<open>unicode.IsSpace\<close> outside ASCII.\<close>

definition space_rune :: "nat \<Rightarrow> bool" where
  "space_rune r \<longleftrightarrow> r = 0x85 \<or> r = 0xA0 \<or> r = 0x1680 \<or> 0x2000 \<le> r \<and> r \<le> 0x200A \<or> r = 0x2028 \<or> r = 0x2029 \<or>
     r = 0x202F \<or> r = 0x205F \<or> r = 0x3000"

definition IsPrintableASCII :: "string \<Rightarrow> bool" where
  "IsPrintableASCII s = (\<not> list_ex (\<lambda>r. r > 127 \<and> \<not> space_rune r) (runes s))"

record RiskSummary =
  rk_FilterCount :: int
  rk_HasReplace :: bool
  rk_HasMatchOutput :: bool
  rk_HasCatchAll :: bool

definition AnalyzeFilterRisk :: "string \<Rightarrow> RiskSummary" where
  "AnalyzeFilterRisk content =
     \<lparr>rk_FilterCount = str_count content ''[filters.'',
      rk_HasReplace = contains content ''replace'',
      rk_HasMatchOutput = contains content ''match_output'',
      rk_HasCatchAll = contains content (''pattern = '' @ dq @ ''.'' @ dq) \<or> contains content (''pattern = '' @ sq @ ''.'' @ sq)\<rparr>"

section \<open>Test suites\<close>

record TestCase =
  tc_Name :: string
  tc_Input :: string
  tc_Expected :: string
  tc_Filter :: string

text \<open>
  Both runners have the same loop; they differ in how they compare. \<open>quote\<close> is the \<^verbatim>\<open>%q\<close> of
  the failure message.
\<close>

definition run_case ::
  "(string \<Rightarrow> string \<Rightarrow> bool) \<Rightarrow> (string \<Rightarrow> string) \<Rightarrow> (string \<Rightarrow> string \<Rightarrow> string) \<Rightarrow> int \<times> int \<times> string list \<Rightarrow> TestCase
     \<Rightarrow> int \<times> int \<times> string list" where
  "run_case same quote filterFunc acc tc =
     (case acc of (passed, failed, failures) \<Rightarrow>
        (let result = filterFunc (tc_Input tc) (tc_Filter tc)
         in if same result (tc_Expected tc) then (passed + 1, failed, failures)
            else (passed, failed + 1,
              failures @ [tc_Name tc @ '': expected '' @ quote (tc_Expected tc) @ '', got '' @ quote result])))"

definition RunTestSuite ::
  "(string \<Rightarrow> string) \<Rightarrow> TestCase list \<Rightarrow> (string \<Rightarrow> string \<Rightarrow> string) \<Rightarrow> int \<times> int \<times> string list" where
  "RunTestSuite quote tests filterFunc = foldl (run_case (=) quote filterFunc) (0, 0, []) tests"

definition suite_Run ::
  "(string \<Rightarrow> string) \<Rightarrow> TestCase list \<Rightarrow> (string \<Rightarrow> string \<Rightarrow> string) \<Rightarrow> int \<times> int \<times> string list" where
  "suite_Run quote tests filterFunc =
     foldl (run_case (\<lambda>a b. trimSpace a = trimSpace b) quote filterFunc) (0, 0, []) tests"

definition test_line :: "TestCase \<Rightarrow> string \<Rightarrow> TestCase" where
  "test_line tc line =
     (let line = trimSpace line in
      if has_prefix line ''name = '' then tc\<lparr>tc_Name := trim_cutset dq (trimPrefix line ''name = '')\<rparr>
      else if has_prefix line ''input = '' then tc\<lparr>tc_Input := trim_cutset dq (trimPrefix line ''input = '')\<rparr>
      else if has_prefix line ''expected = '' then tc\<lparr>tc_Expected := trim_cutset dq (trimPrefix line ''expected = '')\<rparr>
      else if has_prefix line ''filter = '' then tc\<lparr>tc_Filter := trim_cutset dq (trimPrefix line ''filter = '')\<rparr>
      else tc)"

definition parseTestCase :: "string \<Rightarrow> TestCase" where
  "parseTestCase data =
     foldl test_line \<lparr>tc_Name = [], tc_Input = [], tc_Expected = [], tc_Filter = []\<rparr> (split_lines data)"

section \<open>The registry of community filters\<close>

record RegistryEntry =
  re_Name :: string
  re_Description :: string
  re_Author :: string
  re_Version :: string
  re_Category :: string
  re_Downloads :: int
  re_Tags :: "string list"
  re_CreatedAt :: gotime
  re_UpdatedAt :: gotime
  re_Content :: string
  re_SHA256 :: string

record CommunityFilterRegistry =
  cr_localPath :: string
  cr_remoteURL :: string
  cr_filters :: "RegistryEntry list"

datatype registry_error = Unsafe "SafetyIssue list" | NotFound string | IOError string

text \<open>
  \<open>decode\<close> reads the local file: nothing when it cannot be read, else the entries it holds, if it
  is well formed.
\<close>

definition NewCommunityFilterRegistry ::
  "(string \<Rightarrow> RegistryEntry list option option) \<Rightarrow> string \<Rightarrow> string \<Rightarrow> CommunityFilterRegistry" where
  "NewCommunityFilterRegistry decode localPath remoteURL =
     \<lparr>cr_localPath = localPath, cr_remoteURL = remoteURL,
      cr_filters =
        (if localPath = [] then []
         else case decode localPath of None \<Rightarrow> [] | Some None \<Rightarrow> [] | Some (Some fs) \<Rightarrow> fs)\<rparr>"

text \<open>\<open>write\<close> stores the entries and gives an error, if any.\<close>

definition saveLocal :: "(string \<Rightarrow> RegistryEntry list \<Rightarrow> registry_error option) \<Rightarrow> CommunityFilterRegistry \<Rightarrow> registry_error option" where
  "saveLocal write r = (if cr_localPath r = [] then None else write (cr_localPath r) (cr_filters r))"

definition Publish ::
  "(string \<Rightarrow> RegistryEntry list \<Rightarrow> registry_error option) \<Rightarrow> gotime \<Rightarrow> gotime \<Rightarrow> RegistryEntry \<Rightarrow> CommunityFilterRegistry
     \<Rightarrow> registry_error option \<times> CommunityFilterRegistry" where
  "Publish write now now' entry r =
     (let entry = entry\<lparr>re_CreatedAt := now\<rparr>;
          entry = entry\<lparr>re_UpdatedAt := now'\<rparr>;
          safety = CheckFilterSafety (re_Content entry)
      in if \<not> sc_Passed safety then (Some (Unsafe (sc_Issues safety)), r)
         else let r = r\<lparr>cr_filters := cr_filters r @ [entry]\<rparr> in (saveLocal write r, r))"

definition reg_List :: "(string \<Rightarrow> string \<Rightarrow> bool) \<Rightarrow> string \<Rightarrow> CommunityFilterRegistry \<Rightarrow> RegistryEntry list" where
  "reg_List equalFold category r =
     (if category = [] then cr_filters r else filter (\<lambda>f. equalFold (re_Category f) category) (cr_filters r))"

definition reg_Search :: "string \<Rightarrow> CommunityFilterRegistry \<Rightarrow> RegistryEntry list" where
  "reg_Search query r =
     (let query = toLower query
      in filter (\<lambda>f. contains (toLower (re_Name f)) query \<or> contains (toLower (re_Description f)) query \<or>
           list_ex (\<lambda>tag. contains (toLower tag) query) (re_Tags f)) (cr_filters r))"

text \<open>What \<^verbatim>\<open>Install\<close> and \<^verbatim>\<open>Eject\<close> write, and where; \<open>dir\<close> is \<^verbatim>\<open>filepath.Dir\<close>.\<close>

definition Install ::
  "(string \<Rightarrow> string) \<Rightarrow> (string \<Rightarrow> string \<Rightarrow> string) \<Rightarrow> string \<Rightarrow> CommunityFilterRegistry \<Rightarrow> registry_error + string \<times> string" where
  "Install dir path_join name r =
     (case List.find (\<lambda>f. re_Name f = name) (cr_filters r) of
        None \<Rightarrow> Inl (NotFound name)
      | Some entry \<Rightarrow> Inr (path_join (dir (cr_localPath r)) (name @ ''.toml''), re_Content entry))"

definition Eject ::
  "(string \<Rightarrow> string \<Rightarrow> string) \<Rightarrow> string \<Rightarrow> string \<Rightarrow> CommunityFilterRegistry \<Rightarrow> registry_error + string \<times> string" where
  "Eject path_join name destDir r =
     (let content = (case List.find (\<lambda>f. re_Name f = name) (cr_filters r) of None \<Rightarrow> [] | Some f \<Rightarrow> re_Content f)
      in if content = [] then Inl (NotFound name) else Inr (path_join destDir (name @ ''.toml''), content))"

definition count_category :: "(string \<times> int) list \<Rightarrow> RegistryEntry \<Rightarrow> (string \<times> int) list" where
  "count_category m f =
     al_put (re_Category f) ((case al_get m (re_Category f) of None \<Rightarrow> 0 | Some n \<Rightarrow> n) + 1) m"

definition reg_Stats :: "CommunityFilterRegistry \<Rightarrow> int \<times> (string \<times> int) list" where
  "reg_Stats r = (len (cr_filters r), foldl count_category [] (cr_filters r))"

section \<open>What the check decides\<close>

definition line_issues :: "nat \<times> string \<Rightarrow> SafetyIssue list" where
  "line_issues il = sc_Issues (check_line \<lparr>sc_Passed = True, sc_Issues = []\<rparr> il)"

definition injects :: "string \<Rightarrow> bool" where
  "injects line \<longleftrightarrow> containsPromptInjection (trimSpace line) \<or> containsShellInjection (trimSpace line)"

lemma check_line_eq:
  "check_line r il = \<lparr>sc_Passed = sc_Passed r \<and> \<not> injects (snd il), sc_Issues = sc_Issues r @ line_issues il\<rparr>"
  by (simp add: check_line_def line_issues_def injects_def add_issue_def Let_def)

lemma foldl_check_line:
  "foldl check_line r ils = \<lparr>sc_Passed = sc_Passed r \<and> \<not> list_ex (injects \<circ> snd) ils,
     sc_Issues = sc_Issues r @ concat (map line_issues ils)\<rparr>"
  by (induction ils arbitrary: r) (simp_all add: check_line_eq)

lemma critical_iff: "(\<exists>i \<in> set (line_issues il). si_Severity i = ''critical'') \<longleftrightarrow> injects (snd il)"
  by (simp add: line_issues_def check_line_def add_issue_def injects_def Let_def)

lemma list_ex_enumerate: "list_ex (P \<circ> snd) (enumerate n xs) = list_ex P xs"
  by (induction xs arbitrary: n) simp_all

lemma CheckFilterSafety_eq:
  "CheckFilterSafety content =
    \<lparr>sc_Passed = \<not> list_ex injects (split_lines content),
     sc_Issues = concat (map line_issues (enumerate 0 (split_lines content)))\<rparr>"
  by (simp add: CheckFilterSafety_def foldl_check_line list_ex_enumerate)

lemma suite_loop:
  assumes "foldl (run_case same quote g) (p, f, fs) tests = (passed, failed, failures)"
  shows "passed = p + len (filter (\<lambda>tc. same (g (tc_Input tc) (tc_Filter tc)) (tc_Expected tc)) tests) \<and>
    failed = f + len (filter (\<lambda>tc. \<not> same (g (tc_Input tc) (tc_Filter tc)) (tc_Expected tc)) tests) \<and>
    len failures - len fs = failed - f"
  using assms
proof (induction tests arbitrary: p f fs)
  case (Cons tc tests)
  show ?case
  proof (cases "same (g (tc_Input tc) (tc_Filter tc)) (tc_Expected tc)")
    case True
    then show ?thesis using Cons.IH [of "p + 1" f fs] Cons.prems by (simp add: run_case_def Let_def)
  next
    case False
    let ?msg = "tc_Name tc @ '': expected '' @ quote (tc_Expected tc) @ '', got '' @ quote (g (tc_Input tc) (tc_Filter tc))"
    show ?thesis using False Cons.prems Cons.IH [of p "f + 1" "fs @ [?msg]"] by (simp add: run_case_def Let_def)
  qed
qed simp

text \<open>The runners count every test once.\<close>

lemma RunTestSuite_counts:
  assumes "RunTestSuite quote tests g = (passed, failed, failures)"
  shows "passed + failed = len tests \<and> len failures = failed"
  using suite_loop [of "(=)" quote g 0 0 "[]" tests] assms
    sum_length_filter_compl [of "\<lambda>tc. g (tc_Input tc) (tc_Filter tc) = tc_Expected tc" tests]
  by (simp add: RunTestSuite_def)

section \<open>Hidden characters\<close>

lemma hidden_runes: "list_all valid_rune rs \<Longrightarrow> containsHiddenUnicode (concat (map encode_rune rs)) = list_ex hidden_rune rs"
  by (simp add: containsHiddenUnicode_def runes_encode)

text \<open>A text with a zero-width space after each of its characters.\<close>

definition zwsp :: string where
  "zwsp = [CHR 0xE2, CHR 0x80, CHR 0x8B]"

definition spaced :: "string \<Rightarrow> string" where
  "spaced s = concat (map (\<lambda>c. c # zwsp) s)"

definition ascii :: "char \<Rightarrow> bool" where
  "ascii c \<longleftrightarrow> byte c < 0x80"

fun no_ascii_pair :: "string \<Rightarrow> bool" where
  "no_ascii_pair (a # b # s) \<longleftrightarrow> \<not> (ascii a \<and> ascii b) \<and> no_ascii_pair (b # s)"
| "no_ascii_pair _ \<longleftrightarrow> True"

lemma no_ascii_pair_tail: "no_ascii_pair (a # s) \<Longrightarrow> no_ascii_pair s"
  by (cases s) simp_all

lemma no_ascii_pair_append: "no_ascii_pair (u @ v) \<Longrightarrow> no_ascii_pair u \<and> no_ascii_pair v"
  by (induction u rule: no_ascii_pair.induct) (auto dest: no_ascii_pair_tail)

lemma no_ascii_pair_absent:
  assumes "no_ascii_pair s" "ascii a" "ascii b"
  shows "\<not> contains s (a # b # p)"
proof
  assume "contains s (a # b # p)"
  then obtain u v where "s = u @ a # b # p @ v" by (auto simp: contains_iff)
  then have "no_ascii_pair (a # b # p @ v)" using no_ascii_pair_append [of u] assms(1) by blast
  then show False using assms by simp
qed

lemma no_ascii_pair_map:
  "(\<And>c. ascii (f c) \<longleftrightarrow> ascii c) \<Longrightarrow> no_ascii_pair (map f s) = no_ascii_pair s"
  by (induction s rule: no_ascii_pair.induct) simp_all

lemma ascii_lower: "ascii (lower_byte c) \<longleftrightarrow> ascii c"
  by (auto simp: ascii_def lower_byte_def Let_def of_char_of)

lemma toLower_map:
  "CHR 0x84 \<notin> set s \<Longrightarrow> CHR 0xC4 \<notin> set s \<Longrightarrow> toLower s = map lower_byte s"
proof (induction s)
  case (Cons c s)
  have "\<not> has_prefix (c # s) [CHR 0xE2, CHR 0x84, CHR 0xAA]" "\<not> has_prefix (c # s) [CHR 0xC4, CHR 0xB0]"
    using Cons.prems by (auto simp: has_prefix_iff)
  then have "toLower (c # s) = lower_byte c # toLower s" by (simp only: toLower.simps if_False)
  then show ?case using Cons by simp
qed simp

lemma no_ascii_pair_spaced: "no_ascii_pair (spaced s)"
proof (induction s)
  case (Cons c s)
  have "\<not> ascii (CHR 0xE2)" "\<not> ascii (CHR 0x80)" "\<not> ascii (CHR 0x8B)" by code_simp+
  moreover have "no_ascii_pair (CHR 0x8B # t)" if "no_ascii_pair t" for t
    using that calculation(3) by (cases t) simp_all
  ultimately show ?case using Cons by (simp add: spaced_def zwsp_def)
qed (simp add: spaced_def)

lemma trim_left_fuel_suffix: "\<exists>u. s = u @ trim_left_fuel ps n s"
proof (induction n arbitrary: s)
  case (Suc n)
  show ?case
  proof (cases "strip_seqs ps s")
    case (Some t)
    have "\<exists>u. s = u @ t" using Some
      by (induction ps s rule: strip_seqs.induct) (auto simp: has_prefix_iff split: if_splits)
    then show ?thesis using Some Suc [of t] by (auto, metis append_assoc)
  qed simp
qed simp

lemma trimSpace_infix: "\<exists>u v. s = u @ trimSpace s @ v"
proof -
  obtain u where u: "s = u @ trim_left space_seqs s" using trim_left_fuel_suffix unfolding trim_left_def by blast
  obtain v where "rev (trim_left space_seqs s) = v @ rev (trimSpace s)"
    using trim_left_fuel_suffix [of "rev (trim_left space_seqs s)"] unfolding trimSpace_def trim_left_def rev_rev_ident by blast
  then have "trim_left space_seqs s = trimSpace s @ rev v" by (metis rev_append rev_rev_ident)
  then show ?thesis using u by metis
qed

lemma patterns_start_ascii:
  "list_all (\<lambda>p. case p of a # b # _ \<Rightarrow> ascii a \<and> ascii b | _ \<Rightarrow> False) (promptPatterns @ shellPatterns)"
  by code_simp

lemma pattern_absent:
  assumes "p \<in> set promptPatterns \<union> set shellPatterns" "no_ascii_pair s"
  shows "\<not> contains s p"
proof -
  have "case p of a # b # _ \<Rightarrow> ascii a \<and> ascii b | _ \<Rightarrow> False"
    using patterns_start_ascii assms(1) unfolding list_all_iff set_append by blast
  then show ?thesis using no_ascii_pair_absent [OF assms(2)] by (auto split: list.splits)
qed

lemma spaced_not_injects:
  assumes "\<forall>c \<in> set s. ascii c" "l \<in> set (split_lines (spaced s))"
  shows "\<not> injects l"
proof -
  obtain u v where l: "spaced s = u @ l @ v" using split_part [OF assms(2)] by blast
  obtain u' v' where t: "l = u' @ trimSpace l @ v'" using trimSpace_infix by blast
  have n: "no_ascii_pair (trimSpace l)"
    using no_ascii_pair_spaced [of s] no_ascii_pair_append l t by metis
  have "set (trimSpace l) \<subseteq> set (spaced s)" using l t by (metis Un_iff set_append subsetI)
  moreover have "set (spaced s) \<subseteq> set s \<union> set zwsp" by (auto simp: spaced_def)
  moreover have "\<not> ascii (CHR 0x84)" "\<not> ascii (CHR 0xC4)" by code_simp+
  ultimately have "CHR 0x84 \<notin> set (trimSpace l)" "CHR 0xC4 \<notin> set (trimSpace l)"
    using assms(1) by (auto simp: zwsp_def)
  then have "no_ascii_pair (toLower (trimSpace l))"
    using n by (simp add: toLower_map no_ascii_pair_map [OF ascii_lower])
  then show ?thesis using n pattern_absent
    by (auto simp: injects_def containsPromptInjection_def containsShellInjection_def contains_any_def list_ex_iff)
qed

lemma runes_zwsp: "runes (zwsp @ s) = 0x200B # runes s"
proof -
  have "decode_rune (CHR 0xE2) ([CHR 0x80, CHR 0x8B] @ s) = (0x200B, 2)"
    by (simp add: decode_rune_def is_cont_def in_range_def low6_def Let_def)
  then show ?thesis by (simp add: zwsp_def)
qed

lemma runes_ascii: "ascii c \<Longrightarrow> runes (c # s) = byte c # runes s"
  by (simp add: decode_rune_def ascii_def)

lemma visible_spaced:
  "\<forall>c \<in> set s. ascii c \<Longrightarrow> filter (\<lambda>r. \<not> hidden_rune r) (runes (spaced s)) = runes s"
proof (induction s)
  case (Cons c s)
  have h: "hidden_rune 0x200B" by (simp add: hidden_rune_def)
  have "\<not> hidden_rune (byte c)" using Cons.prems by (simp add: hidden_rune_def ascii_def)
  moreover have "spaced (c # s) = c # (zwsp @ spaced s)" by (simp add: spaced_def)
  ultimately show ?case using Cons h by (simp add: runes_ascii runes_zwsp del: runes.simps)
qed (simp add: spaced_def)

text \<open>
  C21: The safety check rejects by line, and can always be evaded. A text passes exactly when no
  line, trimmed, has one of the injection patterns, and exactly when it has no critical issue. But
  hidden characters are only a warning, and any text of ASCII characters at all passes after a
  zero-width space is put behind each of its characters, which a reader does not see.
\<close>

theorem safety_check_evaded:
  assumes "\<forall>c \<in> set content. ascii c"
  shows "(sc_Passed (CheckFilterSafety any) \<longleftrightarrow> (\<forall>l \<in> set (split_lines any). \<not> injects l)) \<and>
    (sc_Passed (CheckFilterSafety any) \<longleftrightarrow>
      (\<forall>i \<in> set (sc_Issues (CheckFilterSafety any)). si_Severity i \<noteq> ''critical'')) \<and>
    sc_Passed (CheckFilterSafety (spaced content)) \<and>
    filter (\<lambda>r. \<not> hidden_rune r) (runes (spaced content)) = runes content"
proof -
  have "(\<forall>i \<in> set (sc_Issues (CheckFilterSafety any)). si_Severity i \<noteq> ''critical'') \<longleftrightarrow>
    (\<forall>il \<in> set (enumerate 0 (split_lines any)). \<not> injects (snd il))"
    unfolding CheckFilterSafety_eq critical_iff [symmetric] by auto
  also have "\<dots> \<longleftrightarrow> \<not> list_ex (injects \<circ> snd) (enumerate 0 (split_lines any))" by (simp add: list_ex_iff)
  finally have crit: "(\<forall>i \<in> set (sc_Issues (CheckFilterSafety any)). si_Severity i \<noteq> ''critical'') \<longleftrightarrow>
    sc_Passed (CheckFilterSafety any)"
    by (simp add: CheckFilterSafety_eq list_ex_enumerate)
  moreover have "sc_Passed (CheckFilterSafety any) \<longleftrightarrow> (\<forall>l \<in> set (split_lines any). \<not> injects l)"
    by (simp add: CheckFilterSafety_eq list_ex_iff)
  moreover have "sc_Passed (CheckFilterSafety (spaced content))"
    using spaced_not_injects [OF assms] by (auto simp: CheckFilterSafety_eq list_ex_iff)
  ultimately show ?thesis using visible_spaced [OF assms] by blast
qed

definition demo_attack :: string where
  "demo_attack = ''x = ignore all; rm -rf /''"

theorem safety_check_evaded_witness:
  "\<not> sc_Passed (CheckFilterSafety demo_attack) \<and> sc_Passed (CheckFilterSafety (spaced demo_attack)) \<and>
   filter (\<lambda>r. \<not> hidden_rune r) (runes (spaced demo_attack)) = runes demo_attack"
proof -
  have "\<forall>c \<in> set demo_attack. ascii c" by code_simp
  note evaded = safety_check_evaded [OF this, of demo_attack]
  have "split_lines demo_attack = [demo_attack]" "containsPromptInjection (trimSpace demo_attack)" by code_simp+
  then have "\<not> (\<forall>l \<in> set (split_lines demo_attack). \<not> injects l)" by (simp add: injects_def)
  then show ?thesis using evaded by blast
qed

section \<open>Publishing\<close>

inductive registry_published :: "CommunityFilterRegistry \<Rightarrow> bool" where
  new: "decode path = None \<Longrightarrow> registry_published (NewCommunityFilterRegistry decode path url)"
| publish: "registry_published r \<Longrightarrow> registry_published (snd (Publish write now now' entry r))"

text \<open>A registry that did not start from a file holds only entries that passed the check.\<close>

lemma published_passed:
  "registry_published r \<Longrightarrow> list_all (\<lambda>e. sc_Passed (CheckFilterSafety (re_Content e))) (cr_filters r)"
  by (induction rule: registry_published.induct)
    (auto simp: NewCommunityFilterRegistry_def Publish_def Let_def)

end
