(* ===== verification/Toml_Filter.thy ===== *)
theory Toml_Filter
  imports Toml_Rules Simd Stream_IO Pipeline_Types
begin

text \<open>
  The engine that runs a declarative rule: \<^verbatim>\<open>internal/toml/filter.go\<close>.

  The eight stages are definitions in the order of \<^verbatim>\<open>Apply\<close>; the compiled patterns are part of
  the engine's state, filled on the first run. Sizes are bytes, and the arithmetic on line counts
  is that of the code without its (64-bit) wrap-around.
\<close>

section \<open>Stages\<close>

text \<open>\<^verbatim>\<open>strings.TrimRight(s, "\n")\<close>.\<close>

definition trim_newlines :: "string \<Rightarrow> string" where
  "trim_newlines s = rev (dropWhile (\<lambda>c. c = nl) (rev s))"

text \<open>A scanner with its default buffer stops with an error at a line of 64 KB.\<close>

definition MaxScanTokenSize :: int where
  "MaxScanTokenSize = 65536"

definition scanner_fails :: "int \<Rightarrow> string \<Rightarrow> bool" where
  "scanner_fails maxLen s =
     (let ls = split_lines s; ls = (if last ls = [] then butlast ls else ls)
      in list_ex (\<lambda>l. maxLen \<le> len l) ls)"

definition keep_line :: "Regexp list \<Rightarrow> Regexp list \<Rightarrow> string \<Rightarrow> bool" where
  "keep_line strip keep line \<longleftrightarrow>
     \<not> list_ex (\<lambda>re. re_MatchString re line) strip \<and>
     (keep = [] \<or> list_ex (\<lambda>re. re_MatchString re line) keep)"

definition filterLines :: "Regexp list \<Rightarrow> Regexp list \<Rightarrow> string \<Rightarrow> string" where
  "filterLines strip keep input =
     (if strip = [] \<and> keep = [] then input
      else let result = concat (map (\<lambda>line. line @ [nl]) (filter (keep_line strip keep) (scanner_lines MaxScanTokenSize input)))
           in if scanner_fails MaxScanTokenSize input then input else trim_newlines result)"

definition truncate_line :: "int \<Rightarrow> string \<Rightarrow> string" where
  "truncate_line maxLen line = (if len line > maxLen then take (nat maxLen) line @ ''...'' else line)"

definition truncateLines :: "string \<Rightarrow> int \<Rightarrow> string" where
  "truncateLines input maxLen =
     (let result = concat (map (\<lambda>line. truncate_line maxLen line @ [nl]) (scanner_lines MaxScanTokenSize input))
      in if scanner_fails MaxScanTokenSize input then input else trim_newlines result)"

text \<open>The callers pass at least one positive number; a negative one counts as absent.\<close>

definition selectHeadTail :: "string \<Rightarrow> int \<Rightarrow> int \<Rightarrow> string" where
  "selectHeadTail input head tail =
     (if head = 0 \<and> tail = 0 then input
      else let ls = split_lines input; total = len ls
           in if head > 0 \<and> tail > 0
              then if head + tail \<ge> total then input
                   else join_lines (take (nat head) ls @
                          [''... ['' @ itoa (total - head - tail) @ '' lines truncated] ...''] @
                          drop (nat (total - tail)) ls)
              else if head > 0
              then if head \<ge> total then input
                   else join_lines (take (nat head) ls) @ nl # ''... ['' @ itoa (total - head) @ '' lines truncated]''
              else if tail > 0
              then if tail \<ge> total then input
                   else ''... ['' @ itoa (total - tail) @ '' lines truncated]'' @ nl # join_lines (drop (nat (total - tail)) ls)
              else input)"

definition omitted_marker :: "int \<Rightarrow> string" where
  "omitted_marker n = ''... ['' @ itoa n @ '' lines omitted] ...''"

definition capLines :: "string \<Rightarrow> int \<Rightarrow> string" where
  "capLines input maxLines =
     (let ls = split_lines input
      in if len ls \<le> maxLines then input
         else let half = go_div maxLines 2
              in join_lines (take (nat half) ls @ [omitted_marker (len ls - maxLines)] @ drop (nat (len ls - half)) ls))"

section \<open>The engine\<close>

record CompiledRules =
  cp_Re :: "Regexp option list"
  cp_MatchRe :: "Regexp option list"
  cp_UnlessRe :: "Regexp option list"
  cp_StripRe :: "Regexp list"
  cp_KeepRe :: "Regexp list"

record TOMLFilterEngine =
  te_config :: "TOMLFilterRule option"
  te_compiled :: "CompiledRules option"

definition NewTOMLFilterEngine :: "TOMLFilterRule option \<Rightarrow> TOMLFilterEngine" where
  "NewTOMLFilterEngine config = \<lparr>te_config = config, te_compiled = None\<rparr>"

text \<open>
  Patterns that do not compile leave a hole in the first three lists and are left out of the last
  two. The pattern of an \<^verbatim>\<open>unless\<close> is not compiled when the rule's own pattern fails.
\<close>

definition compileRules :: "compiler \<Rightarrow> TOMLFilterRule \<Rightarrow> CompiledRules" where
  "compileRules compile cfg =
     \<lparr>cp_Re = map (\<lambda>r. compile (rr_Pattern r)) (tr_Replace cfg),
      cp_MatchRe = map (\<lambda>r. compile (mo_Pattern r)) (tr_MatchOutput cfg),
      cp_UnlessRe = map (\<lambda>r. if compile (mo_Pattern r) \<noteq> None \<and> mo_Unless r \<noteq> [] then compile (mo_Unless r) else None)
        (tr_MatchOutput cfg),
      cp_StripRe = List.map_filter compile (tr_StripLinesMatching cfg),
      cp_KeepRe = List.map_filter compile (tr_KeepLinesMatching cfg)\<rparr>"

fun replace_loop :: "(ReplaceRule \<times> Regexp option) list \<Rightarrow> string \<Rightarrow> string" where
  "replace_loop [] output = output"
| "replace_loop ((rule, re) # rs) output =
     replace_loop rs (case re of None \<Rightarrow> output | Some re \<Rightarrow> re_ReplaceAllString re output (rr_Replacement rule))"

fun match_output_loop :: "(MatchOutputRule \<times> Regexp option \<times> Regexp option) list \<Rightarrow> string \<Rightarrow> string option" where
  "match_output_loop [] output = None"
| "match_output_loop ((rule, re, unless) # rs) output =
     (case re of
        None \<Rightarrow> match_output_loop rs output
      | Some re \<Rightarrow>
          if re_MatchString re output
          then (case unless of
                  Some u \<Rightarrow> if re_MatchString u output then match_output_loop rs output else Some (mo_Message rule)
                | None \<Rightarrow> Some (mo_Message rule))
          else match_output_loop rs output)"

text \<open>Stages 1 and 2, and stages 4 to 8.\<close>

definition toml_prepare :: "TOMLFilterRule \<Rightarrow> CompiledRules \<Rightarrow> string \<Rightarrow> string" where
  "toml_prepare cfg c input =
     replace_loop (zip (tr_Replace cfg) (cp_Re c)) (if tr_StripANSI cfg then StripANSI input else input)"

definition toml_select :: "TOMLFilterRule \<Rightarrow> CompiledRules \<Rightarrow> string \<Rightarrow> string" where
  "toml_select cfg c output =
     (let output = filterLines (cp_StripRe c) (cp_KeepRe c) output;
          output = (if tr_TruncateLinesAt cfg > 0 then truncateLines output (tr_TruncateLinesAt cfg) else output);
          output = (if tr_Head cfg > 0 \<or> tr_Tail cfg > 0 then selectHeadTail output (tr_Head cfg) (tr_Tail cfg) else output);
          output = (if tr_MaxLines cfg > 0 then capLines output (tr_MaxLines cfg) else output)
      in if trimSpace output = [] \<and> tr_OnEmpty cfg \<noteq> [] then tr_OnEmpty cfg else output)"

definition toml_Apply :: "compiler \<Rightarrow> TOMLFilterEngine \<Rightarrow> string \<Rightarrow> Mode \<Rightarrow> (string \<times> int) \<times> TOMLFilterEngine" where
  "toml_Apply compile e input mode =
     (case te_config e of
        None \<Rightarrow> ((input, 0), e)
      | Some cfg \<Rightarrow>
          (let c = (case te_compiled e of None \<Rightarrow> compileRules compile cfg | Some c \<Rightarrow> c);
               e = e\<lparr>te_compiled := Some c\<rparr>;
               output = toml_prepare cfg c input
           in case match_output_loop (zip (tr_MatchOutput cfg) (zip (cp_MatchRe c) (cp_UnlessRe c))) output of
                Some message \<Rightarrow> ((message, len input - len message), e)
              | None \<Rightarrow>
                  (let output = toml_select cfg c output;
                       tokensSaved = len input - len output;
                       tokensSaved = (if tokensSaved < 0 then 0 else tokensSaved)
                   in ((output, tokensSaved), e))))"

definition ApplyTOMLFilter :: "compiler \<Rightarrow> string \<Rightarrow> TOMLFilterRule option \<Rightarrow> string \<times> int" where
  "ApplyTOMLFilter compile input config = fst (toml_Apply compile (NewTOMLFilterEngine config) input ModeMinimal)"

definition MatchAndFilter ::
  "compiler \<Rightarrow> (FilterRegistry \<Rightarrow> FilterRegistry) \<Rightarrow> rule_order \<Rightarrow> string \<Rightarrow> string \<Rightarrow> FilterRegistry option
     \<Rightarrow> string \<times> int \<times> bool" where
  "MatchAndFilter compile order iter command output registry =
     (case registry of
        None \<Rightarrow> (output, 0, False)
      | Some r \<Rightarrow>
          (case FindMatchingFilter compile order iter command r of
             None \<Rightarrow> (output, 0, False)
           | Some (_, _, config) \<Rightarrow>
               (let (filtered, saved) = ApplyTOMLFilter compile output (Some config) in (filtered, saved, True))))"

record TOMLFilterWrapper =
  tw_config :: "TOMLFilterRule option"
  tw_name :: string
  tw_engine :: TOMLFilterEngine

definition NewTOMLFilterWrapper :: "string \<Rightarrow> TOMLFilterRule option \<Rightarrow> TOMLFilterWrapper" where
  "NewTOMLFilterWrapper name config = \<lparr>tw_config = config, tw_name = name, tw_engine = NewTOMLFilterEngine config\<rparr>"

definition tw_Apply :: "compiler \<Rightarrow> TOMLFilterWrapper \<Rightarrow> string \<Rightarrow> Mode \<Rightarrow> (string \<times> int) \<times> TOMLFilterWrapper" where
  "tw_Apply compile f input mode =
     (let (res, e) = toml_Apply compile (tw_engine f) input mode in (res, f\<lparr>tw_engine := e\<rparr>))"

section \<open>Line stages\<close>

text \<open>The lines of a text without the empty ones at its end.\<close>

fun drop_blank_end :: "string list \<Rightarrow> string list" where
  "drop_blank_end [] = []"
| "drop_blank_end (l # ls) = (let r = drop_blank_end ls in if r = [] \<and> l = [] then [] else l # r)"

abbreviation nl_lines :: "string list \<Rightarrow> string" where
  "nl_lines ls \<equiv> concat (map (\<lambda>line. line @ [nl]) ls)"

lemma drop_blank_end_snoc: "drop_blank_end (ls @ [l]) = (if l = [] then drop_blank_end ls else ls @ [l])"
  by (induction ls) (auto simp: Let_def)

lemma nl_lines_snoc: "nl_lines ls @ l = join_lines (ls @ [l])"
  by (induction ls) (auto simp: join_Cons)

lemma trim_newlines_snoc [simp]: "trim_newlines (s @ [nl]) = trim_newlines s"
  by (simp add: trim_newlines_def)

lemma trim_newlines_last: "s \<noteq> [] \<Longrightarrow> last s \<noteq> nl \<Longrightarrow> trim_newlines s = s"
  by (cases s rule: rev_cases) (simp_all add: trim_newlines_def)

lemma trim_nl_lines:
  assumes "\<forall>l \<in> set ls. nl \<notin> set l"
  shows "trim_newlines (nl_lines ls) = join_lines (drop_blank_end ls)"
  using assms
proof (induction ls rule: rev_induct)
  case (snoc l ls)
  have "trim_newlines (nl_lines (ls @ [l])) = trim_newlines (nl_lines ls @ l)"
    using trim_newlines_snoc [of "nl_lines ls @ l"] by simp
  moreover have "trim_newlines (nl_lines ls @ l) = nl_lines ls @ l" if "l \<noteq> []"
  proof -
    have "last l \<noteq> nl" using snoc.prems last_in_set [OF that] by force
    then show ?thesis using that by (intro trim_newlines_last) simp_all
  qed
  ultimately show ?case using snoc by (cases "l = []") (simp_all only: drop_blank_end_snoc nl_lines_snoc if_True if_False, auto)
qed (simp add: trim_newlines_def)

lemma dropCR_subset: "set (dropCR l) \<subseteq> set l"
  by (auto simp: dropCR_def dest: in_set_butlastD)

text \<open>The lines a scanner gives when none is too long.\<close>

definition scan_all :: "string \<Rightarrow> string list" where
  "scan_all s = (let ls = split_lines s in map dropCR (if last ls = [] then butlast ls else ls))"

lemma scanner_lines_all: "\<not> scanner_fails maxLen s \<Longrightarrow> scanner_lines maxLen s = scan_all s"
  unfolding scanner_fails_def scanner_lines_def scan_all_def Let_def
  by (subst takeWhile_eq_all_conv [THEN iffD2]) (auto simp: list_ex_iff not_le)

lemma scan_all_no_nl: "l \<in> set (scan_all s) \<Longrightarrow> nl \<notin> set l"
proof -
  assume "l \<in> set (scan_all s)"
  then obtain x where x: "x \<in> set (split_lines s)" "l = dropCR x"
    by (auto simp: scan_all_def Let_def split: if_splits dest: in_set_butlastD)
  then show ?thesis using dropCR_subset [of x] split_no_sep by blast
qed

lemma drop_blank_end_subset: "set (drop_blank_end ls) \<subseteq> set ls"
  by (induction ls) (auto simp: Let_def)

lemma lines_no_nl: "xs \<noteq> [] \<Longrightarrow> (\<And>l. l \<in> set xs \<Longrightarrow> nl \<notin> set l) \<Longrightarrow> split_lines (join_lines xs) = xs"
  by (rule split_join) (auto simp: list_all_iff)

lemma split_join_drop_blank:
  assumes "\<forall>l \<in> set ls. nl \<notin> set l" "drop_blank_end ls \<noteq> []"
  shows "split_lines (join_lines (drop_blank_end ls)) = drop_blank_end ls"
  by (rule lines_no_nl [OF assms(2)]) (use assms(1) drop_blank_end_subset [of ls] in auto)

lemma scanner_fails_short: "len s < maxLen \<Longrightarrow> \<not> scanner_fails maxLen s"
proof
  assume short: "len s < maxLen" and "scanner_fails maxLen s"
  then obtain l where l: "l \<in> set (split_lines s)" "maxLen \<le> len l"
    by (auto simp: scanner_fails_def Let_def list_ex_iff split: if_splits dest: in_set_butlastD)
  then obtain u v where "s = u @ l @ v" using split_part by blast
  then show False using l(2) short by simp
qed

lemma filterLines_eq:
  assumes "strip \<noteq> [] \<or> keep \<noteq> []"
  shows "filterLines strip keep input =
    (if scanner_fails MaxScanTokenSize input then input
     else join_lines (drop_blank_end (filter (keep_line strip keep) (scan_all input))))"
proof -
  have "\<forall>l \<in> set (filter (keep_line strip keep) (scan_all input)). nl \<notin> set l" using scan_all_no_nl by auto
  then show ?thesis using assms trim_nl_lines by (auto simp: filterLines_def scanner_lines_all)
qed

text \<open>
  The strip and keep patterns act line by line, or not at all. If every line is shorter than
  64 KB, the stage keeps exactly the lines that match no strip pattern and, when there are keep
  patterns, one of those, in order and without their carriage return, less the blank lines at the
  end. One line of 64 KB turns the whole stage off: the text is passed on with every line that
  should have been stripped.
\<close>

theorem toml_line_filter:
  assumes "strip \<noteq> [] \<or> keep \<noteq> []"
  shows "filterLines strip keep input =
    (if scanner_fails MaxScanTokenSize input then input
     else join_lines (drop_blank_end (filter (keep_line strip keep) (scan_all input)))) \<and>
    (\<not> scanner_fails MaxScanTokenSize input \<longrightarrow> filterLines strip keep input \<noteq> [] \<longrightarrow>
      (\<forall>l \<in> set (split_lines (filterLines strip keep input)). l \<in> set (scan_all input) \<and> keep_line strip keep l))"
proof -
  let ?ls = "filter (keep_line strip keep) (scan_all input)"
  have no: "\<forall>l \<in> set ?ls. nl \<notin> set l" using scan_all_no_nl by auto
  note eq = filterLines_eq [OF assms, of input]
  moreover have "l \<in> set (scan_all input) \<and> keep_line strip keep l"
    if "\<not> scanner_fails MaxScanTokenSize input" "filterLines strip keep input \<noteq> []"
      "l \<in> set (split_lines (filterLines strip keep input))" for l
  proof -
    have "drop_blank_end ?ls \<noteq> []" using that(1,2) eq by auto
    then have "split_lines (filterLines strip keep input) = drop_blank_end ?ls"
      using split_join_drop_blank [OF no] that(1) by (simp add: eq)
    then show ?thesis using that(3) drop_blank_end_subset [of ?ls] by auto
  qed
  ultimately show ?thesis by blast
qed

lemma truncate_line_no_nl: "nl \<notin> set l \<Longrightarrow> nl \<notin> set (truncate_line maxLen l)"
  by (auto simp: truncate_line_def dest: in_set_takeD)

lemma len_truncate_line: "0 \<le> maxLen \<Longrightarrow> len (truncate_line maxLen l) \<le> maxLen + 3"
  by (auto simp: truncate_line_def min_def)

text \<open>Truncation bounds every line, unless a line is so long that the stage is turned off.\<close>

lemma truncateLines_bound:
  assumes "0 < maxLen" "l \<in> set (split_lines (truncateLines input maxLen))"
  shows "if scanner_fails MaxScanTokenSize input then l \<in> set (split_lines input) else len l \<le> maxLen + 3"
proof (cases "scanner_fails MaxScanTokenSize input")
  case False
  let ?ls = "map (truncate_line maxLen) (scan_all input)"
  have no: "\<forall>l \<in> set ?ls. nl \<notin> set l" using scan_all_no_nl truncate_line_no_nl by auto
  have "truncateLines input maxLen = trim_newlines (nl_lines ?ls)"
    using False by (simp add: truncateLines_def scanner_lines_all comp_def)
  then have eq: "truncateLines input maxLen = join_lines (drop_blank_end ?ls)" by (simp only: trim_nl_lines [OF no])
  show ?thesis
  proof (cases "drop_blank_end ?ls = []")
    case True
    then show ?thesis using assms False by (simp add: eq)
  next
    case ne: False
    then have "l \<in> set ?ls"
      using assms(2) drop_blank_end_subset [of ?ls] unfolding eq split_join_drop_blank [OF no ne] by auto
    then show ?thesis using False assms(1) len_truncate_line by auto
  qed
qed (use assms in \<open>simp add: truncateLines_def\<close>)

section \<open>Selecting and capping\<close>

lemma itoa_no_nl: "0 \<le> n \<Longrightarrow> nl \<notin> set (itoa n)"
  using itoa_digits by (fastforce simp: is_digit_def)

lemma take_ends:
  "k + k \<le> length xs \<Longrightarrow> length (take k xs) = k \<and> length (drop (length xs - k) xs) = k \<and>
    length (take (length xs - k - k) (drop k xs)) = length xs - k - k"
  by simp

text \<open>
  The cap on the number of lines and its marker disagree. A text of more than \<open>m\<close> lines
  becomes its first and last \<open>m div 2\<close> lines around a marker, so for an even cap the result has one
  line more than the cap allows, and for an odd cap it fits but the marker names one line fewer
  than were left out.
\<close>

theorem capLines_off_by_one:
  assumes "0 < m" "m < len (split_lines input)"
  shows "\<exists>front rear gap. split_lines input = front @ gap @ rear \<and>
    split_lines (capLines input m) = front @ [omitted_marker (len (split_lines input) - m)] @ rear \<and>
    len (split_lines (capLines input m)) = (if even m then m + 1 else m) \<and>
    len (split_lines input) - m = (if even m then len gap else len gap - 1)"
proof -
  let ?ls = "split_lines input" and ?h = "nat (m div 2)"
  let ?n = "length ?ls"
  let ?front = "take ?h ?ls" and ?rear = "drop (?n - ?h) ?ls" and ?gap = "take (?n - ?h - ?h) (drop ?h ?ls)"
  let ?mark = "omitted_marker (len ?ls - m)"
  have h: "?h + ?h \<le> ?n" "int ?h = m div 2" using assms by linarith+
  have "drop ?h ?ls = ?gap @ drop (?n - ?h - ?h) (drop ?h ?ls)" by (rule append_take_drop_id [symmetric])
  also have "drop (?n - ?h - ?h) (drop ?h ?ls) = ?rear" using h(1) by (simp add: drop_drop)
  finally have split: "?ls = ?front @ ?gap @ ?rear" by (metis append_take_drop_id)
  have nat: "nat (int ?n - m div 2) = ?n - ?h" using h(1) assms(1) by (simp add: nat_diff_distrib)
  have out: "capLines input m = join_lines (?front @ [?mark] @ ?rear)"
    using assms nat by (simp add: capLines_def Let_def)
  have no: "split_lines (capLines input m) = ?front @ [?mark] @ ?rear"
    unfolding out
  proof (rule lines_no_nl)
    fix l assume "l \<in> set (?front @ [?mark] @ ?rear)"
    then consider "l \<in> set ?ls" | "l = ?mark" by (auto dest: in_set_takeD in_set_dropD)
    then show "nl \<notin> set l"
      by cases (use assms itoa_no_nl [of "len ?ls - m"] in \<open>auto simp: split_no_sep omitted_marker_def\<close>)
  qed simp
  have len: "length ?front = ?h" "length ?rear = ?h" "length ?gap = ?n - ?h - ?h"
    using take_ends [OF h(1)] by blast+
  have lc: "len (split_lines (capLines input m)) = (if even m then m + 1 else m)"
    unfolding no length_append len using h(2) by (auto elim!: evenE oddE)
  have lg: "len ?ls - m = (if even m then len ?gap else len ?gap - 1)"
    unfolding len using h by (auto elim!: evenE oddE simp: of_nat_diff)
  show ?thesis by (intro exI [of _ ?front] exI [of _ ?rear] exI [of _ ?gap] conjI split no lc lg)
qed

text \<open>With both ends selected, the marker counts exactly the lines left out.\<close>

lemma selectHeadTail_counts:
  assumes "0 < head" "0 < tail" "head + tail < len (split_lines input)"
  shows "selectHeadTail input head tail =
    join_lines (take (nat head) (split_lines input) @
      [''... ['' @ itoa (len (split_lines input) - head - tail) @ '' lines truncated] ...''] @
      drop (length (split_lines input) - nat tail) (split_lines input))"
  using assms by (simp add: selectHeadTail_def Let_def nat_diff_distrib)

section \<open>Rules that passed validation\<close>

definition pattern_of :: "compiler \<Rightarrow> string \<Rightarrow> Regexp" where
  "pattern_of compile p = the (compile p)"

text \<open>A rule that answers for the whole text: its pattern matches and its exception does not.\<close>

definition answers :: "compiler \<Rightarrow> string \<Rightarrow> MatchOutputRule \<Rightarrow> bool" where
  "answers compile s r \<longleftrightarrow> re_MatchString (pattern_of compile (mo_Pattern r)) s \<and>
     \<not> (mo_Unless r \<noteq> [] \<and> re_MatchString (pattern_of compile (mo_Unless r)) s)"

definition replaced :: "compiler \<Rightarrow> TOMLFilterRule \<Rightarrow> string \<Rightarrow> string" where
  "replaced compile cfg input =
     foldl (\<lambda>s r. re_ReplaceAllString (pattern_of compile (rr_Pattern r)) s (rr_Replacement r))
       (if tr_StripANSI cfg then StripANSI input else input) (tr_Replace cfg)"

lemma map_filter_compiled:
  "list_all (\<lambda>p. compile p \<noteq> None) ps \<Longrightarrow> List.map_filter compile ps = map (pattern_of compile) ps"
  by (induction ps) (auto simp: map_filter_simps pattern_of_def)

lemma replace_loop_compiled:
  "list_all (\<lambda>p. compile p \<noteq> None) (map rr_Pattern rs) \<Longrightarrow>
    replace_loop (zip rs (map (\<lambda>r. compile (rr_Pattern r)) rs)) s =
    foldl (\<lambda>s r. re_ReplaceAllString (pattern_of compile (rr_Pattern r)) s (rr_Replacement r)) s rs"
  by (induction rs arbitrary: s) (auto simp: pattern_of_def)

lemma match_output_compiled:
  "list_all (\<lambda>p. compile p \<noteq> None) (concat (map (\<lambda>r. mo_Pattern r # (if mo_Unless r \<noteq> [] then [mo_Unless r] else [])) rs)) \<Longrightarrow>
    match_output_loop (zip rs (zip (map (\<lambda>r. compile (mo_Pattern r)) rs)
      (map (\<lambda>r. if compile (mo_Pattern r) \<noteq> None \<and> mo_Unless r \<noteq> [] then compile (mo_Unless r) else None) rs))) s =
    map_option mo_Message (List.find (answers compile s) rs)"
  by (induction rs) (auto simp: answers_def pattern_of_def)

lemma compileRules_ok:
  assumes "rule_ok compile cfg"
  shows "toml_prepare cfg (compileRules compile cfg) input = replaced compile cfg input"
    and "match_output_loop (zip (tr_MatchOutput cfg)
        (zip (cp_MatchRe (compileRules compile cfg)) (cp_UnlessRe (compileRules compile cfg)))) s =
      map_option mo_Message (List.find (answers compile s) (tr_MatchOutput cfg))"
    and "cp_StripRe (compileRules compile cfg) = map (pattern_of compile) (tr_StripLinesMatching cfg)"
    and "cp_KeepRe (compileRules compile cfg) = map (pattern_of compile) (tr_KeepLinesMatching cfg)"
  using assms unfolding rule_ok_def rule_patterns_def list_all_append
  by (simp_all only: toml_prepare_def replaced_def compileRules_def CompiledRules.simps replace_loop_compiled
      match_output_compiled map_filter_compiled)

text \<open>The state an engine can have is a fresh one or one that holds its rule's compiled patterns.\<close>

definition engine_ok :: "compiler \<Rightarrow> TOMLFilterRule \<Rightarrow> TOMLFilterEngine \<Rightarrow> bool" where
  "engine_ok compile cfg e \<longleftrightarrow> te_config e = Some cfg \<and> (\<forall>c. te_compiled e = Some c \<longrightarrow> c = compileRules compile cfg)"

lemma engine_ok_Apply: "engine_ok compile cfg e \<Longrightarrow> engine_ok compile cfg (snd (toml_Apply compile e s mode))"
  by (auto simp: engine_ok_def toml_Apply_def Let_def split: option.splits)

definition engine_after :: "compiler \<Rightarrow> TOMLFilterRule \<Rightarrow> Mode \<Rightarrow> string list \<Rightarrow> TOMLFilterEngine" where
  "engine_after compile cfg mode inputs =
     foldl (\<lambda>e s. snd (toml_Apply compile e s mode)) (NewTOMLFilterEngine (Some cfg)) inputs"

lemma engine_after_ok: "engine_ok compile cfg (engine_after compile cfg mode inputs)"
proof (induction inputs rule: rev_induct)
  case Nil
  show ?case by (simp add: engine_after_def engine_ok_def NewTOMLFilterEngine_def)
next
  case (snoc s inputs)
  then show ?case by (simp add: engine_after_def engine_ok_Apply)
qed

lemma toml_Apply_engine_ok:
  assumes "engine_ok compile cfg e"
  shows "fst (toml_Apply compile e input mode) =
    (let c = compileRules compile cfg; output = toml_prepare cfg c input
     in case match_output_loop (zip (tr_MatchOutput cfg) (zip (cp_MatchRe c) (cp_UnlessRe c))) output of
          Some message \<Rightarrow> (message, len input - len message)
        | None \<Rightarrow> (toml_select cfg c output, max 0 (len input - len (toml_select cfg c output))))"
  using assms by (auto simp: engine_ok_def toml_Apply_def Let_def split: option.splits)


section \<open>Examples\<close>

definition demo_rule :: TOMLFilterRule where
  "demo_rule = \<lparr>tr_MatchCommand = ''make'', tr_StripANSI = True,
     tr_Replace = [\<lparr>rr_Pattern = ''gcc'', rr_Replacement = ''cc''\<rparr>],
     tr_MatchOutput = [\<lparr>mo_Pattern = ''up to date'', mo_Message = ''ok'', mo_Priority = 0, mo_Unless = ''error''\<rparr>],
     tr_StripLinesMatching = [''note''], tr_KeepLinesMatching = [], tr_TruncateLinesAt = 0,
     tr_Head = 0, tr_Tail = 0, tr_MaxLines = 2, tr_OnEmpty = []\<rparr>"

definition demo_strip :: "Regexp list" where
  "demo_strip = [pattern_of plain_compile ''note'']"

definition demo_input :: string where
  "demo_input = join_lines [''gcc a.c'', ''note x'', ''warning'', ''done'', []]"

lemma demo_rule_ok: "rule_ok plain_compile demo_rule"
  by code_simp


theorem toml_line_filter_witness:
  "filterLines demo_strip [] demo_input = join_lines [''gcc a.c'', ''warning'', ''done'']"
proof -
  have "demo_strip \<noteq> [] \<or> [] \<noteq> ([] :: Regexp list)" by (simp add: demo_strip_def)
  moreover have n: "\<not> scanner_fails MaxScanTokenSize demo_input" by (rule scanner_fails_short) code_simp
  moreover have "join_lines (drop_blank_end (filter (keep_line demo_strip []) (scan_all demo_input))) =
    join_lines [''gcc a.c'', ''warning'', ''done'']"
    by code_simp
  ultimately show ?thesis
    using conjunct1 [OF toml_line_filter [of demo_strip "[]" demo_input]] by (simp only: if_False)
qed

theorem capLines_off_by_one_witness:
  "len (split_lines (capLines demo_input 2)) = 3 \<and>
   capLines demo_input 2 = join_lines [''gcc a.c'', ''... [3 lines omitted] ...'', []]"
proof -
  have "2 < len (split_lines demo_input)" by code_simp
  from capLines_off_by_one [OF _ this] have "len (split_lines (capLines demo_input 2)) = 3" by auto
  moreover have "capLines demo_input 2 = join_lines [''gcc a.c'', ''... [3 lines omitted] ...'', []]" by code_simp
  ultimately show ?thesis by blast
qed

end
