(* ===== verification/Fallback.thy ===== *)
theory Fallback
  imports Toml_Filter Presets Go_Utf8 "HOL-Library.Char_ord" "HOL-Library.List_Lexorder"
begin

text \<open>
  Running a command through the declarative filters and the pipeline: the fallback handler of
  \<^verbatim>\<open>internal/commands/shared/fallback.go\<close>, the checks of arguments in \<^verbatim>\<open>utils.go\<close>
  beside it, and the command runner of \<^verbatim>\<open>internal/core/runner.go\<close>.

  The process a command starts, the remote compression service, the environment and the clock are
  parameters. The directory of saved outputs is part of the state, a map from names to contents;
  whether creating the directory and writing a file succeed is a parameter. The reversible store,
  which only writes a copy, and the messages on the error stream are not modelled.
\<close>

section \<open>Arguments\<close>

datatype arg_error = TooManyArgs int | ArgTooLong nat | NullByte nat

definition maxArgLength :: int where
  "maxArgLength = 4096"

definition maxArgsCount :: int where
  "maxArgsCount = 256"

fun check_args :: "(nat \<times> string) list \<Rightarrow> arg_error option" where
  "check_args [] = None"
| "check_args ((i, arg) # args) =
     (if len arg > maxArgLength then Some (ArgTooLong i)
      else if CHR 0x00 \<in> set arg then Some (NullByte i)
      else check_args args)"

definition SanitizeArgs :: "string list \<Rightarrow> arg_error option" where
  "SanitizeArgs args =
     (if len args > maxArgsCount then Some (TooManyArgs (len args)) else check_args (enumerate 0 args))"

section \<open>The command runner\<close>

datatype run_error = BadName string | NotInPath string | ExitStatus int | ProcessError string | InvalidArgs arg_error

text \<open>Control characters are removed from arguments, but for the newline.\<close>

definition keep_rune :: "nat \<Rightarrow> bool" where
  "keep_rune r = (\<not> (r < 0x20 \<and> r \<noteq> 10))"

definition core_sanitizeArgs :: "string \<Rightarrow> string" where
  "core_sanitizeArgs arg = concat (map encode_rune (filter keep_rune (runes arg)))"

definition shell_meta :: "char \<Rightarrow> bool" where
  "shell_meta c \<longleftrightarrow> c \<in> set '';&|'' \<or> c = CHR 0x60 \<or> in_range 1 0x1F c"

definition validateCommandName :: "string \<Rightarrow> run_error option" where
  "validateCommandName name = (if list_ex shell_meta name then Some (BadName name) else None)"

text \<open>
  What is run: the path that \<open>look_path\<close> finds and the arguments, or the result without running
  anything. \<open>bad_name\<close> is the text of the error for a bad name.
\<close>

definition prepare_run ::
  "(string \<Rightarrow> string option) \<Rightarrow> (string \<Rightarrow> string) \<Rightarrow> string list \<Rightarrow> (string \<times> int \<times> run_error option) + string \<times> string list" where
  "prepare_run look_path bad_name args =
     (case args of
        [] \<Rightarrow> Inl ([], 0, None)
      | name # rest \<Rightarrow>
          (case validateCommandName name of
             Some e \<Rightarrow> Inl (bad_name name, 126, Some e)
           | None \<Rightarrow>
               (case look_path name of
                  None \<Rightarrow> Inl (''command not found: '' @ name, 127, Some (NotInPath name))
                | Some path \<Rightarrow> Inr (path, map core_sanitizeArgs rest))))"

text \<open>\<open>exec\<close> gives the combined output and the error of the process, if any.\<close>

definition exit_code :: "run_error option \<Rightarrow> int" where
  "exit_code err = (case err of None \<Rightarrow> 0 | Some (ExitStatus n) \<Rightarrow> n | Some _ \<Rightarrow> 1)"

definition runner_Run ::
  "(string \<Rightarrow> string option) \<Rightarrow> (string \<Rightarrow> string) \<Rightarrow> (string \<Rightarrow> string list \<Rightarrow> string \<times> run_error option) \<Rightarrow> string list
     \<Rightarrow> string \<times> int \<times> run_error option" where
  "runner_Run look_path bad_name exec args =
     (case prepare_run look_path bad_name args of
        Inl res \<Rightarrow> res
      | Inr (path, argv) \<Rightarrow> (let (output, err) = exec path argv in (output, exit_code err, err)))"

section \<open>The handler\<close>

record CommandRecord =
  rec_Command :: string
  rec_OriginalTokens :: int
  rec_FilteredTokens :: int
  rec_SavedTokens :: int
  rec_ProjectPath :: string
  rec_ParseSuccess :: bool
  rec_AgentName :: string
  rec_ModelName :: string
  rec_Provider :: string
  rec_ModelFamily :: string

text \<open>The tracker as the log of what it was given: commands, and commands without a filter.\<close>

record Tracker =
  tk_commands :: "CommandRecord list"
  tk_failures :: "(string \<times> string \<times> bool) list"

record FallbackHandler =
  fh_registry :: FilterRegistry
  fh_tracker :: "Tracker option"
  fh_teeEnabled :: bool
  fh_teeDir :: string
  fh_teeFiles :: "(string \<times> string) list"

text \<open>The flags that the handler reads.\<close>

record fb_flags =
  ff_ultraCompact :: bool
  ff_queryIntent :: string
  ff_budget :: int
  ff_llmEnabled :: bool
  ff_preset :: string
  ff_profile :: string
  ff_remote :: bool

record fb_env =
  fe_est :: "string \<Rightarrow> int"
  fe_lower :: "string \<Rightarrow> string"
  fe_lib :: FilterLib
  fe_compile :: compiler
  fe_file_order :: "FilterRegistry \<Rightarrow> FilterRegistry"
  fe_rule_order :: rule_order
  fe_run :: "string list \<Rightarrow> string \<times> int \<times> run_error option"
  fe_remote :: "string \<Rightarrow> string \<Rightarrow> int \<Rightarrow> (string \<times> int) option"
  fe_getenv :: "string \<Rightarrow> string"
  fe_projectPath :: string
  fe_now :: int
  fe_join :: "string \<Rightarrow> string \<Rightarrow> string"
  fe_mkdir_ok :: bool
  fe_write_ok :: bool

definition GetModelFamily :: "string \<Rightarrow> string" where
  "GetModelFamily modelName =
     (if modelName = [] then []
      else let m = toLower modelName
           in if contains m ''claude'' then ''claude''
              else if contains m ''gpt'' \<or> contains m ''o1'' \<or> contains m ''o3'' then ''gpt''
              else if contains m ''gemini'' then ''gemini''
              else if contains m ''llama'' \<or> contains m ''meta'' then ''llama''
              else if contains m ''qwen'' then ''qwen''
              else if contains m ''deepseek'' then ''deepseek''
              else if contains m ''mistral'' \<or> contains m ''mixtral'' then ''mistral''
              else ''other'')"

definition recordCommand ::
  "fb_env \<Rightarrow> string \<Rightarrow> string \<Rightarrow> string \<Rightarrow> bool \<Rightarrow> FallbackHandler \<Rightarrow> FallbackHandler" where
  "recordCommand E command originalOutput filteredOutput parseSuccess h =
     (case fh_tracker h of
        None \<Rightarrow> h
      | Some tk \<Rightarrow>
          if command = [] then h
          else let originalTokens = fe_est E originalOutput;
                   filteredTokens = fe_est E filteredOutput;
                   saved = originalTokens - filteredTokens;
                   saved = (if saved < 0 then 0 else saved);
                   r = \<lparr>rec_Command = command, rec_OriginalTokens = originalTokens, rec_FilteredTokens = filteredTokens,
                        rec_SavedTokens = saved, rec_ProjectPath = fe_projectPath E, rec_ParseSuccess = parseSuccess,
                        rec_AgentName = fe_getenv E ''TOKMAN_AGENT'', rec_ModelName = fe_getenv E ''TOKMAN_MODEL'',
                        rec_Provider = fe_getenv E ''TOKMAN_PROVIDER'',
                        rec_ModelFamily = GetModelFamily (fe_getenv E ''TOKMAN_MODEL'')\<rparr>
               in h\<lparr>fh_tracker := Some (tk\<lparr>tk_commands := tk_commands tk @ [r]\<rparr>)\<rparr>)"

definition executeCommand :: "fb_env \<Rightarrow> string list \<Rightarrow> string \<times> int \<times> run_error option" where
  "executeCommand E args =
     (if args = [] then ([], 0, None)
      else case SanitizeArgs args of
             Some e \<Rightarrow> ([], 1, Some (InvalidArgs e))
           | None \<Rightarrow> fe_run E args)"

section \<open>Saved outputs\<close>

definition tee_slug :: "string list \<Rightarrow> string" where
  "tee_slug args =
     (let slug = replaceAll ''/'' ''_'' (join ''_'' args);
          slug = replaceAll [CHR 0x00] [] slug;
          slug = replaceAll [nl] ''_'' slug;
          slug = replaceAll [CHR 0x0D] ''_'' slug;
          slug = replaceAll [CHR 0x09] ''_'' slug
      in if len slug > 50 then take 50 slug else slug)"

definition tee_name :: "int \<Rightarrow> string list \<Rightarrow> string" where
  "tee_name now args = itoa now @ ''_'' @ tee_slug args @ ''.log''"

text \<open>\<^verbatim>\<open>os.ReadDir\<close> gives the entries in the order of their names.\<close>

definition rotateTeeFiles :: "(string \<times> string) list \<Rightarrow> (string \<times> string) list" where
  "rotateTeeFiles files =
     (let entries = sort (al_keys files)
      in if length entries > 20 then foldl (\<lambda>fs n. al_del n fs) files (take (length entries - 20) entries) else files)"

definition fb_saveTee :: "fb_env \<Rightarrow> string list \<Rightarrow> string \<Rightarrow> FallbackHandler \<Rightarrow> string \<times> FallbackHandler" where
  "fb_saveTee E args output h =
     (if fh_teeDir h = [] then ([], h)
      else if \<not> fe_mkdir_ok E then ([], h)
      else let filename = tee_name (fe_now E) args;
               path = fe_join E (fh_teeDir h) filename
           in if \<not> fe_write_ok E then ([], h)
              else (path, h\<lparr>fh_teeFiles := rotateTeeFiles (al_put filename output (fh_teeFiles h))\<rparr>))"

definition tee_hint :: "string \<Rightarrow> string" where
  "tee_hint path = nl # ''[full output saved: '' @ path @ '']''"

section \<open>Filtering\<close>

definition shouldApplyTOMLConfig :: "TOMLFilterRule option \<Rightarrow> bool" where
  "shouldApplyTOMLConfig rule =
     (case rule of
        None \<Rightarrow> False
      | Some r \<Rightarrow> tr_StripANSI r \<or> tr_Replace r \<noteq> [] \<or> tr_MatchOutput r \<noteq> [] \<or> tr_StripLinesMatching r \<noteq> [] \<or>
          tr_KeepLinesMatching r \<noteq> [] \<or> tr_TruncateLinesAt r > 0 \<or> tr_Head r > 0 \<or> tr_Tail r > 0 \<or>
          tr_MaxLines r > 0 \<or> tr_OnEmpty r \<noteq> [])"

definition fb_mode :: "fb_flags \<Rightarrow> Mode" where
  "fb_mode fl = (if ff_ultraCompact fl then ModeAggressive else ModeMinimal)"

definition fb_config :: "fb_flags \<Rightarrow> PipelineConfig" where
  "fb_config fl =
     (let mode = fb_mode fl in
      if ff_profile fl \<noteq> []
      then (TierConfig (ff_profile fl) mode)
        \<lparr>cfg_QueryIntent := ff_queryIntent fl, cfg_Budget := ff_budget fl, cfg_LLMEnabled := ff_llmEnabled fl\<rparr>
      else if ff_preset fl \<noteq> []
      then (PresetConfig (ff_preset fl) mode)
        \<lparr>cfg_QueryIntent := ff_queryIntent fl, cfg_Budget := ff_budget fl, cfg_LLMEnabled := ff_llmEnabled fl\<rparr>
      else zeroPipelineConfig
        \<lparr>cfg_Mode := mode, cfg_QueryIntent := ff_queryIntent fl, cfg_Budget := ff_budget fl,
         cfg_LLMEnabled := ff_llmEnabled fl, cfg_SessionTracking := True, cfg_NgramEnabled := True,
         cfg_MultiFileEnabled := True, cfg_EnableCompaction := True, cfg_EnableAttribution := True,
         cfg_EnableH2O := True, cfg_EnableAttentionSink := True, cfg_EnableTOMLFilter := True\<rparr>)"

definition applyPipeline :: "fb_env \<Rightarrow> fb_flags \<Rightarrow> string \<Rightarrow> TOMLFilterRule option \<Rightarrow> string option" where
  "applyPipeline E fl output tomlConfig =
     (case (if ff_remote fl then fe_remote E output (fb_mode fl) (ff_budget fl) else None) of
        Some (filtered, saved) \<Rightarrow> Some filtered
      | None \<Rightarrow>
          (let output = (if shouldApplyTOMLConfig tomlConfig then fst (ApplyTOMLFilter (fe_compile E) output tomlConfig) else output);
               pipeline = NewPipelineCoordinator (fe_est E) (fe_lib E) (fb_config fl)
           in map_option fst (Process (fe_est E) (fe_lower E) pipeline output)))"

text \<open>The hint after the output of a failed command, and the saved output.\<close>

definition tee_failure ::
  "fb_env \<Rightarrow> string list \<Rightarrow> int \<Rightarrow> string \<Rightarrow> string \<Rightarrow> FallbackHandler \<Rightarrow> string \<times> FallbackHandler" where
  "tee_failure E args exitCode output shown h =
     (if exitCode \<noteq> 0 \<and> fh_teeEnabled h \<and> len output > 500
      then (let (path, h) = fb_saveTee E args output h in (shown @ tee_hint path, h))
      else (shown, h))"

definition rawPassthrough ::
  "fb_env \<Rightarrow> fb_flags \<Rightarrow> string list \<Rightarrow> FallbackHandler \<Rightarrow> (string \<times> bool \<times> run_error option) \<times> FallbackHandler" where
  "rawPassthrough E fl args h =
     (let (output, exitCode, err) = executeCommand E args;
          rawOutput = output;
          output = (if ff_remote fl \<and> len output > 100
            then (case fe_remote E output (fb_mode fl) (ff_budget fl) of Some (filtered, saved) \<Rightarrow> filtered | None \<Rightarrow> output)
            else output);
          h = (case fh_tracker h of
                 Some tk \<Rightarrow>
                   if args \<noteq> []
                   then h\<lparr>fh_tracker := Some (tk\<lparr>tk_failures := tk_failures tk @ [(join '' '' args, ''no filter matched'', err = None)]\<rparr>)\<rparr>
                   else h
               | None \<Rightarrow> h);
          h = recordCommand E (join '' '' args) rawOutput output (exitCode = 0) h;
          (output, h) = tee_failure E args exitCode output output h
      in ((output, True, err), h))"

definition Handle ::
  "fb_env \<Rightarrow> fb_flags \<Rightarrow> string list \<Rightarrow> FallbackHandler \<Rightarrow> ((string \<times> bool \<times> run_error option) \<times> FallbackHandler) option" where
  "Handle E fl args h =
     (if args = [] then Some (([], False, None), h)
      else let command = join '' '' args
           in case FindMatchingFilter (fe_compile E) (fe_file_order E) (fe_rule_order E) command (fh_registry h) of
                None \<Rightarrow> Some (rawPassthrough E fl args h)
              | Some (_, _, config) \<Rightarrow>
                  (let (output, exitCode, err) = executeCommand E args
                   in case (if output \<noteq> [] then applyPipeline E fl output (Some config) else Some output) of
                        None \<Rightarrow> None
                      | Some filtered \<Rightarrow>
                          (let h = recordCommand E command output filtered (exitCode = 0) h;
                               (filtered, h) = tee_failure E args exitCode output filtered h
                           in Some ((filtered, True, err), h))))"

section \<open>What is executed\<close>

lemma runes_sanitized: "runes (core_sanitizeArgs arg) = filter keep_rune (runes arg)"
proof -
  have "list_all valid_rune (filter keep_rune (runes arg))"
    using valid_runes [of arg] by (auto simp: list_all_iff)
  then show ?thesis by (simp add: core_sanitizeArgs_def runes_encode)
qed

text \<open>
  What is executed is clean. A process is started only for a name without shell characters and
  control characters that resolves to a path, and with as many arguments as were given; an argument
  it gets has no control character but the newline, holds every other character of the argument
  that was given, and is that argument itself when there was nothing to remove from a text in
  well-formed UTF-8.
\<close>

theorem executed_arguments_clean:
  assumes "prepare_run look_path bad_name args = Inr (path, argv)"
  shows "\<exists>name rest. args = name # rest \<and> look_path name = Some path \<and> \<not> list_ex shell_meta name \<and>
    length argv = length rest \<and>
    (\<forall>i < length rest. runes (argv ! i) = filter keep_rune (runes (rest ! i)) \<and> list_all keep_rune (runes (argv ! i)) \<and>
      (\<forall>rs. rest ! i = concat (map encode_rune rs) \<longrightarrow> list_all valid_rune rs \<longrightarrow> list_all keep_rune rs \<longrightarrow>
        argv ! i = rest ! i))"
proof -
  obtain name rest where args: "args = name # rest" using assms by (cases args) (auto simp: prepare_run_def)
  then have run: "look_path name = Some path" "\<not> list_ex shell_meta name" "argv = map core_sanitizeArgs rest"
    using assms by (auto simp: prepare_run_def validateCommandName_def split: if_splits option.splits)
  moreover have "list_all keep_rune (filter keep_rune rs)" for rs by (simp add: list_all_iff)
  moreover have "core_sanitizeArgs (concat (map encode_rune rs)) = concat (map encode_rune rs)"
    if "list_all valid_rune rs" "list_all keep_rune rs" for rs
    using that by (simp add: core_sanitizeArgs_def runes_encode list_all_iff)
  ultimately show ?thesis using args by (auto simp: runes_sanitized)
qed

theorem executed_arguments_clean_witness:
  "\<exists>argv. prepare_run Some id [''ls'', [CHR 0x1B, CHR ''a'']] = Inr (''ls'', argv) \<and> runes (argv ! 0) = [97]"
proof -
  have "\<not> list_ex shell_meta ''ls''" by code_simp
  then have r: "prepare_run Some id [''ls'', [CHR 0x1B, CHR ''a'']] = Inr (''ls'', [core_sanitizeArgs [CHR 0x1B, CHR ''a'']])"
    by (simp add: prepare_run_def validateCommandName_def)
  have "filter keep_rune (runes [CHR 0x1B, CHR ''a'']) = [97]" by (simp add: decode_rune_def keep_rune_def)
  with executed_arguments_clean [OF r] have "runes (core_sanitizeArgs [CHR 0x1B, CHR ''a'']) = [97]" by auto
  then show ?thesis using r by auto
qed

section \<open>Answers\<close>

lemma applyPipeline_total: "\<exists>filtered. applyPipeline E fl output config = Some filtered"
proof (cases "if ff_remote fl then fe_remote E output (fb_mode fl) (ff_budget fl) else None")
  case None
  have "\<exists>out stats p'. Process (fe_est E) (fe_lower E) (NewPipelineCoordinator (fe_est E) (fe_lib E) (fb_config fl)) s =
    Some (out, stats, p')" for s
    by (rule Process_total [OF reachable_built [OF reach_new], THEN exE]) auto
  then show ?thesis using None by (fastforce simp: applyPipeline_def Let_def)
qed (auto simp: applyPipeline_def)

lemma tee_failure_empty [simp]: "tee_failure E args code [] shown h = (shown, h)"
  by (simp add: tee_failure_def)


section \<open>Filtered answers\<close>

lemma recordCommand_log:
  assumes "fh_tracker h = Some tk" "command \<noteq> []"
  obtains r where "recordCommand E command orig shown ok h = h\<lparr>fh_tracker := Some (tk\<lparr>tk_commands := tk_commands tk @ [r]\<rparr>)\<rparr>"
    "rec_Command r = command" "rec_OriginalTokens r = fe_est E orig" "rec_FilteredTokens r = fe_est E shown"
    "rec_SavedTokens r = max 0 (fe_est E orig - fe_est E shown)" "rec_ParseSuccess r = ok"
  by (rule that [of "the (case fh_tracker (recordCommand E command orig shown ok h) of Some t \<Rightarrow> Some (last (tk_commands t)) | None \<Rightarrow> None)"])
    (use assms in \<open>simp_all add: recordCommand_def Let_def\<close>)

lemma recordCommand_frame [simp]:
  "fh_teeEnabled (recordCommand E c o' s ok h) = fh_teeEnabled h" "fh_teeDir (recordCommand E c o' s ok h) = fh_teeDir h"
  "fh_teeFiles (recordCommand E c o' s ok h) = fh_teeFiles h" "fh_registry (recordCommand E c o' s ok h) = fh_registry h"
  by (simp_all add: recordCommand_def Let_def split: option.splits)

lemma tee_failure_frame [simp]:
  "fh_tracker (snd (tee_failure E args code out shown h)) = fh_tracker h"
  by (simp add: tee_failure_def fb_saveTee_def Let_def split: prod.splits)

lemma join_nonempty: "args \<noteq> [] \<Longrightarrow> args \<noteq> [[]] \<Longrightarrow> join '' '' args \<noteq> []"
  by (cases args) (auto simp: join_Cons)

text \<open>
  C11: A command with a matching rule shows its output filtered by the rule and then by the
  pipeline. Without the remote service, the text shown is the result of a run of a fresh pipeline,
  for the configuration that the flags give, on what the rule left of the output; a failed command
  with more than 500 bytes of output gets a hint after it, which is the only thing added; the error
  of the command is passed on. The tracker's log grows by one entry, with the estimates of the
  output and of the filtered text (the hint not counted) and their difference, never negative.
\<close>

theorem handler_filters_output:
  assumes "args \<noteq> []" "SanitizeArgs args = None" "fe_run E args = (raw, code, err)" "raw \<noteq> []" "\<not> ff_remote fl"
    and "FindMatchingFilter (fe_compile E) (fe_file_order E) (fe_rule_order E) (join '' '' args) (fh_registry h) = Some (file, name, rule)"
    and "fh_tracker h = Some tk" "join '' '' args \<noteq> []"
  shows "\<exists>filtered stats p' hint h' r.
    Process (fe_est E) (fe_lower E) (NewPipelineCoordinator (fe_est E) (fe_lib E) (fb_config fl))
      (if shouldApplyTOMLConfig (Some rule) then fst (ApplyTOMLFilter (fe_compile E) raw (Some rule)) else raw) =
      Some (filtered, stats, p') \<and>
    Handle E fl args h = Some ((filtered @ hint, True, err), h') \<and>
    (hint \<noteq> [] \<longleftrightarrow> code \<noteq> 0 \<and> fh_teeEnabled h \<and> 500 < len raw) \<and>
    fh_tracker h' = Some (tk\<lparr>tk_commands := tk_commands tk @ [r]\<rparr>) \<and>
    rec_OriginalTokens r = fe_est E raw \<and> rec_FilteredTokens r = fe_est E filtered \<and>
    rec_SavedTokens r = max 0 (fe_est E raw - fe_est E filtered) \<and> (rec_ParseSuccess r \<longleftrightarrow> code = 0)"
proof -
  let ?p = "NewPipelineCoordinator (fe_est E) (fe_lib E) (fb_config fl)"
  let ?s = "if shouldApplyTOMLConfig (Some rule) then fst (ApplyTOMLFilter (fe_compile E) raw (Some rule)) else raw"
  obtain filtered where ap: "applyPipeline E fl raw (Some rule) = Some filtered" using applyPipeline_total by blast
  then obtain stats p' where run: "Process (fe_est E) (fe_lower E) ?p ?s = Some (filtered, stats, p')"
    using assms(5) by (auto simp: applyPipeline_def Let_def)
  let ?h = "recordCommand E (join '' '' args) raw filtered (code = 0) h"
  obtain r where r: "?h = h\<lparr>fh_tracker := Some (tk\<lparr>tk_commands := tk_commands tk @ [r]\<rparr>)\<rparr>"
    "rec_OriginalTokens r = fe_est E raw" "rec_FilteredTokens r = fe_est E filtered"
    "rec_SavedTokens r = max 0 (fe_est E raw - fe_est E filtered)" "rec_ParseSuccess r \<longleftrightarrow> code = 0"
    using recordCommand_log [OF assms(7,8), of E raw filtered "code = 0"] by metis
  obtain shown h' where t: "tee_failure E args code raw filtered ?h = (shown, h')"
    by (cases "tee_failure E args code raw filtered ?h")
  have "Handle E fl args h = Some ((shown, True, err), h')"
    using assms(1-4,6) ap t by (simp add: Handle_def Let_def executeCommand_def)
  moreover obtain hint where "shown = filtered @ hint" "hint \<noteq> [] \<longleftrightarrow> code \<noteq> 0 \<and> fh_teeEnabled h \<and> 500 < len raw"
    using t by (auto simp: tee_failure_def tee_hint_def split: if_splits prod.splits)
  moreover have "fh_tracker h' = Some (tk\<lparr>tk_commands := tk_commands tk @ [r]\<rparr>)"
    using tee_failure_frame [of E args code raw filtered ?h] unfolding t by (simp add: r(1))
  ultimately show ?thesis using run r(2-5) by blast
qed

section \<open>Saved outputs\<close>

lemma al_get_del_list: "al_get (foldl (\<lambda>fs n. al_del n fs) files ns) k = (if k \<in> set ns then None else al_get files k)"
  by (induction ns arbitrary: files) auto

lemma rotate_get:
  assumes "distinct (al_keys files)" "al_get files n = Some v"
  shows "al_get (rotateTeeFiles files) n = (if length (filter (\<lambda>m. n < m) (al_keys files)) < 20 then Some v else None)"
proof -
  let ?es = "sort (al_keys files)"
  let ?d = "take (length ?es - 20) ?es"
  have sd: "sorted ?es" "distinct ?es" using assms(1) by simp_all
  have "n \<in> set ?es" using al_get_Some_key [OF assms(2)] by simp
  then obtain i where i: "i < length ?es" "?es ! i = n" by (metis in_set_conv_nth)
  have gt: "filter (\<lambda>m. n < m) ?es = drop (Suc i) ?es"
  proof -
    have "filter (\<lambda>m. n < m) (take (Suc i) ?es) = []"
    proof (simp only: filter_empty_conv, rule ballI)
      fix m assume "m \<in> set (take (Suc i) ?es)"
      then obtain j where "j < Suc i" "?es ! j = m" using i(1) by (auto simp: in_set_conv_nth)
      then show "\<not> n < m" using sorted_nth_mono [OF sd(1), of j i] i by auto
    qed
    moreover have "filter (\<lambda>m. n < m) (drop (Suc i) ?es) = drop (Suc i) ?es"
    proof (rule filter_True, rule ballI)
      fix m assume "m \<in> set (drop (Suc i) ?es)"
      then obtain k where k: "k < length ?es - Suc i" "?es ! (Suc i + k) = m" by (auto simp: in_set_conv_nth)
      then obtain j where j: "Suc i + j < length ?es" "?es ! (Suc i + j) = m" by (metis add.commute less_diff_conv)
      then have "n \<le> m" using sorted_nth_mono [OF sd(1), of i "Suc i + j"] i by auto
      moreover have "n \<noteq> m" using nth_eq_iff_index_eq [OF sd(2) i(1) j(1)] i(2) j(2) by auto
      ultimately show "n < m" by simp
    qed
    ultimately show ?thesis by (metis append_Nil append_take_drop_id filter_append)
  qed
  have "length (filter (\<lambda>m. n < m) (al_keys files)) = length (filter (\<lambda>m. n < m) ?es)"
    by (metis (no_types) mset_filter mset_sort size_mset)
  then have cnt: "length (filter (\<lambda>m. n < m) (al_keys files)) = length ?es - Suc i" by (simp add: gt)
  have "n \<in> set ?d \<longleftrightarrow> i < length ?es - 20"
  proof
    assume "n \<in> set ?d"
    then obtain j where "j < length ?es - 20" "?es ! j = n" by (auto simp: in_set_conv_nth)
    then show "i < length ?es - 20" using nth_eq_iff_index_eq [OF sd(2), of i j] i by auto
  next
    assume "i < length ?es - 20"
    then show "n \<in> set ?d" using i by (metis in_set_conv_nth length_take min_less_iff_conj nth_take)
  qed
  then show ?thesis using assms(2) cnt i(1)
    by (auto simp: rotateTeeFiles_def Let_def al_get_del_list)
qed

text \<open>
  C13: The full output of a failed command can be found again. When the directory and the file can
  be written, a failed command with more than 500 bytes of output leaves its complete raw output
  under the name that the hint points to, provided fewer than twenty files there have a name that
  sorts after it. When nothing can be written the hint is shown all the same, with an empty path.
  Without the remote service this holds with a matching rule and without.
\<close>

theorem failed_output_is_kept:
  assumes "args \<noteq> []" "SanitizeArgs args = None" "fe_run E args = (raw, code, err)" "\<not> ff_remote fl"
    and "code \<noteq> 0" "500 < len raw" "fh_teeEnabled h" "fh_teeDir h \<noteq> []" "distinct (al_keys (fh_teeFiles h))"
    and "length (filter (\<lambda>m. tee_name (fe_now E) args < m) (al_keys (fh_teeFiles h))) < 20"
  shows "\<exists>shown h'. Handle E fl args h =
      Some ((shown @ tee_hint (if fe_mkdir_ok E \<and> fe_write_ok E then fe_join E (fh_teeDir h) (tee_name (fe_now E) args) else []),
        True, err), h') \<and>
    (fe_mkdir_ok E \<and> fe_write_ok E \<longrightarrow> al_get (fh_teeFiles h') (tee_name (fe_now E) args) = Some raw)"
proof -
  let ?n = "tee_name (fe_now E) args"
  have tee: "\<exists>g'. tee_failure E args code raw shown g =
      (shown @ tee_hint (if fe_mkdir_ok E \<and> fe_write_ok E then fe_join E (fh_teeDir h) ?n else []), g') \<and>
      (fe_mkdir_ok E \<and> fe_write_ok E \<longrightarrow> al_get (fh_teeFiles g') ?n = Some raw)"
    if g: "fh_teeEnabled g = fh_teeEnabled h" "fh_teeDir g = fh_teeDir h" "fh_teeFiles g = fh_teeFiles h" for g shown
  proof -
    have d: "distinct (al_keys (al_put ?n raw (fh_teeFiles g)))" using assms(9) g(3) by simp
    have "filter (\<lambda>m. ?n < m) (al_keys (al_put ?n raw (fh_teeFiles g))) = filter (\<lambda>m. ?n < m) (al_keys (fh_teeFiles g))"
      by (simp add: al_keys_put)
    then have "al_get (rotateTeeFiles (al_put ?n raw (fh_teeFiles g))) ?n = Some raw"
      using rotate_get [OF d, of ?n raw] assms(10) g(3) by simp
    then show ?thesis using assms(5-8) g by (simp add: tee_failure_def fb_saveTee_def Let_def)
  qed
  show ?thesis
  proof (cases "FindMatchingFilter (fe_compile E) (fe_file_order E) (fe_rule_order E) (join '' '' args) (fh_registry h)")
    case None
    let ?g = "recordCommand E (join '' '' args) raw raw (code = 0)
      (case fh_tracker h of Some tk \<Rightarrow>
          if args \<noteq> [] then h\<lparr>fh_tracker := Some (tk\<lparr>tk_failures := tk_failures tk @ [(join '' '' args, ''no filter matched'', err = None)]\<rparr>)\<rparr> else h
        | None \<Rightarrow> h)"
    have "fh_teeEnabled ?g = fh_teeEnabled h" "fh_teeDir ?g = fh_teeDir h" "fh_teeFiles ?g = fh_teeFiles h"
      by (simp_all split: option.split)
    from tee [OF this] obtain g' where "tee_failure E args code raw raw ?g =
        (raw @ tee_hint (if fe_mkdir_ok E \<and> fe_write_ok E then fe_join E (fh_teeDir h) ?n else []), g')"
      "fe_mkdir_ok E \<and> fe_write_ok E \<longrightarrow> al_get (fh_teeFiles g') ?n = Some raw" by blast
    moreover from this(1) have "rawPassthrough E fl args h =
      ((raw @ tee_hint (if fe_mkdir_ok E \<and> fe_write_ok E then fe_join E (fh_teeDir h) ?n else []), True, err), g')"
      using assms(1-4) by (simp add: rawPassthrough_def executeCommand_def Let_def)
    ultimately show ?thesis using None assms(1) by (simp add: Handle_def Let_def)
  next
    case (Some m)
    obtain f n rule where m: "m = (f, n, rule)" by (cases m)
    have ne: "raw \<noteq> []" using assms(6) by auto
    obtain filtered where ap: "applyPipeline E fl raw (Some rule) = Some filtered" using applyPipeline_total by blast
    let ?g = "recordCommand E (join '' '' args) raw filtered (code = 0) h"
    from tee [of ?g filtered] obtain g' where "tee_failure E args code raw filtered ?g =
        (filtered @ tee_hint (if fe_mkdir_ok E \<and> fe_write_ok E then fe_join E (fh_teeDir h) ?n else []), g')"
      "fe_mkdir_ok E \<and> fe_write_ok E \<longrightarrow> al_get (fh_teeFiles g') ?n = Some raw" by auto
    then show ?thesis using Some m ne ap assms(1-4) by (simp add: Handle_def Let_def executeCommand_def)
  qed
qed

section \<open>Examples\<close>

definition demo_fb_env :: fb_env where
  "demo_fb_env =
     \<lparr>fe_est = heuristicTokens, fe_lower = id, fe_lib = noop_lib, fe_compile = plain_compile, fe_file_order = id,
      fe_rule_order = rev, fe_run = (\<lambda>args. (replicate 501 CHR ''x'', 2, Some (ExitStatus 2))),
      fe_remote = (\<lambda>_ _ _. None), fe_getenv = (\<lambda>_. []), fe_projectPath = [], fe_now = 7,
      fe_join = (\<lambda>a b. a @ ''/'' @ b), fe_mkdir_ok = True, fe_write_ok = True\<rparr>"

definition demo_flags :: fb_flags where
  "demo_flags = \<lparr>ff_ultraCompact = False, ff_queryIntent = [], ff_budget = 0, ff_llmEnabled = False,
     ff_preset = [], ff_profile = [], ff_remote = False\<rparr>"

definition demo_handler :: FallbackHandler where
  "demo_handler = \<lparr>fh_registry = [(''b.toml'', \<lparr>tf_SchemaVersion = 1, tf_Filters = [(''make'', demo_rule)], tf_RawContent = []\<rparr>)],
     fh_tracker = Some \<lparr>tk_commands = [], tk_failures = []\<rparr>, fh_teeEnabled = True, fh_teeDir = ''t'', fh_teeFiles = []\<rparr>"

lemma demo_fb_fields [simp]:
  "fe_run demo_fb_env args = (replicate 501 CHR ''x'', 2, Some (ExitStatus 2))"
  "fe_mkdir_ok demo_fb_env" "fe_write_ok demo_fb_env" "\<not> ff_remote demo_flags" "fh_teeEnabled demo_handler"
  "fh_teeDir demo_handler = ''t''" "fh_teeFiles demo_handler = []"
  "fh_tracker demo_handler = Some \<lparr>tk_commands = [], tk_failures = []\<rparr>" "fe_est demo_fb_env = heuristicTokens"
  by (simp_all add: demo_fb_env_def demo_flags_def demo_handler_def)

lemma demo_args_ok: "SanitizeArgs [''make''] = None"
  by code_simp

lemma demo_match:
  "FindMatchingFilter (fe_compile demo_fb_env) (fe_file_order demo_fb_env) (fe_rule_order demo_fb_env) (join '' '' [''make''])
    (fh_registry demo_handler) = Some (''b.toml'', ''make'', demo_rule)"
proof -
  have c: "tr_MatchCommand demo_rule = ''make''" by (simp add: demo_rule_def)
  have m: "plain_compile ''make'' = Some \<lparr>re_MatchString = (\<lambda>s. contains s ''make''), re_ReplaceAllString = (\<lambda>s t. replaceAll ''make'' t s)\<rparr>"
    by (simp add: plain_compile_def)
  show ?thesis by (simp add: FindMatchingFilter_def demo_fb_env_def demo_handler_def MatchesCommand_def c m)
qed


theorem handler_filters_output_witness:
  "\<exists>filtered stats p' hint h'.
    Process heuristicTokens (fe_lower demo_fb_env) (NewPipelineCoordinator heuristicTokens (fe_lib demo_fb_env) (fb_config demo_flags))
      (fst (ApplyTOMLFilter (fe_compile demo_fb_env) (replicate 501 CHR ''x'') (Some demo_rule))) = Some (filtered, stats, p') \<and>
    Handle demo_fb_env demo_flags [''make''] demo_handler = Some ((filtered @ hint, True, Some (ExitStatus 2)), h') \<and> hint \<noteq> []"
proof -
  have "shouldApplyTOMLConfig (Some demo_rule)" by (simp add: shouldApplyTOMLConfig_def demo_rule_def)
  then show ?thesis
    using handler_filters_output [OF _ demo_args_ok demo_fb_fields(1) _ demo_fb_fields(4) demo_match demo_fb_fields(8)] by auto
qed

theorem failed_output_is_kept_witness:
  "\<exists>shown h'. Handle demo_fb_env demo_flags [''make''] demo_handler =
      Some ((shown @ tee_hint (fe_join demo_fb_env ''t'' (tee_name (fe_now demo_fb_env) [''make''])), True, Some (ExitStatus 2)), h') \<and>
    al_get (fh_teeFiles h') (tee_name (fe_now demo_fb_env) [''make'']) = Some (replicate 501 CHR ''x'')"
  using failed_output_is_kept [OF _ demo_args_ok demo_fb_fields(1) demo_fb_fields(4), of demo_handler] by simp

end
