(* ===== verification/Hash_Cache.thy ===== *)
theory Hash_Cache
  imports Cache_Contract Go_Strings Go_Float
begin

text \<open>
  The content cache of the MCP server (\<^verbatim>\<open>internal/mcp/cache.go\<close>): least recently used eviction
  under two limits, a number of entries and a number of bytes.

  As for \<open>LRU_Cache\<close>, the map from hashes to list elements and the list are an association list of
  the elements' contents and a list of keys, most recent first. Entries are pointers in the code; the
  cache alone writes to them here, and the hash it fills in is part of what is stored. The two
  callbacks are logs of the entries they were given, absent when no callback is set.
\<close>

record CacheEntry =
  ce_Hash :: string
  ce_Content :: string
  ce_FilePath :: string
  ce_Timestamp :: gotime
  ce_Accessed :: gotime
  ce_HitCount :: int

record cacheItem =
  ci_key :: string
  ci_entry :: CacheEntry
  ci_size :: int

record HashCache =
  hc_entries :: "(string \<times> cacheItem) list"
  hc_lru :: "string list"
  hc_maxSize :: int
  hc_maxMemory :: int
  hc_currentMem :: int
  hc_hits :: int
  hc_misses :: int
  hc_evictions :: int
  hc_onEvict :: "CacheEntry list option"
  hc_onHit :: "CacheEntry list option"

definition DefaultMaxSize :: int where
  "DefaultMaxSize = 10000"

definition DefaultMaxMemory :: int where
  "DefaultMaxMemory = 100 * 1024 * 1024"

definition NewHashCache :: "int \<Rightarrow> int \<Rightarrow> HashCache" where
  "NewHashCache maxSize maxMemory =
     \<lparr>hc_entries = [], hc_lru = [],
      hc_maxSize = (if maxSize \<le> 0 then DefaultMaxSize else maxSize),
      hc_maxMemory = (if maxMemory \<le> 0 then DefaultMaxMemory else maxMemory),
      hc_currentMem = 0, hc_hits = 0, hc_misses = 0, hc_evictions = 0, hc_onEvict = None, hc_onHit = None\<rparr>"

definition SetEvictCallback :: "HashCache \<Rightarrow> HashCache" where
  "SetEvictCallback c = c\<lparr>hc_onEvict := Some []\<rparr>"

definition SetHitCallback :: "HashCache \<Rightarrow> HashCache" where
  "SetHitCallback c = c\<lparr>hc_onHit := Some []\<rparr>"

definition entry_size :: "CacheEntry \<Rightarrow> int" where
  "entry_size e = len (ce_Content e) + len (ce_FilePath e) + 256"

definition entry_expired :: "gotime \<Rightarrow> CacheEntry \<Rightarrow> bool" where
  "entry_expired now e \<longleftrightarrow> now - ce_Timestamp e > 24 * Hour"

definition hc_front :: "string \<Rightarrow> HashCache \<Rightarrow> HashCache" where
  "hc_front key c = c\<lparr>hc_lru := key # remove1 key (hc_lru c)\<rparr>"

text \<open>An access: to the front, with the time and the count of the entry.\<close>

definition hc_access :: "gotime \<Rightarrow> string \<Rightarrow> cacheItem \<Rightarrow> HashCache \<Rightarrow> CacheEntry \<times> HashCache" where
  "hc_access now hash item c =
     (let entry = (ci_entry item)\<lparr>ce_Accessed := now, ce_HitCount := ce_HitCount (ci_entry item) + 1\<rparr>
      in (entry, (hc_front hash c)\<lparr>hc_entries := al_put hash (item\<lparr>ci_entry := entry\<rparr>) (hc_entries c)\<rparr>))"

definition hc_Get :: "gotime \<Rightarrow> string \<Rightarrow> HashCache \<Rightarrow> CacheEntry option \<times> HashCache" where
  "hc_Get now hash c =
     (case al_get (hc_entries c) hash of
        None \<Rightarrow> (None, c\<lparr>hc_misses := hc_misses c + 1\<rparr>)
      | Some item \<Rightarrow>
          (let (entry, c) = hc_access now hash item c;
               c = c\<lparr>hc_hits := hc_hits c + 1\<rparr>;
               c = c\<lparr>hc_onHit := map_option (\<lambda>log. log @ [entry]) (hc_onHit c)\<rparr>
           in (Some entry, c)))"

definition GetByContent :: "(string \<Rightarrow> string) \<Rightarrow> gotime \<Rightarrow> string \<Rightarrow> HashCache \<Rightarrow> CacheEntry option \<times> HashCache" where
  "GetByContent sha now content c = hc_Get now (sha content) c"

definition hc_Touch :: "gotime \<Rightarrow> string \<Rightarrow> HashCache \<Rightarrow> bool \<times> HashCache" where
  "hc_Touch now hash c =
     (case al_get (hc_entries c) hash of
        None \<Rightarrow> (False, c)
      | Some item \<Rightarrow> (True, snd (hc_access now hash item c)))"

text \<open>Taking an element out of the map and the list, with the memory it held.\<close>

definition hc_remove :: "string \<Rightarrow> HashCache \<Rightarrow> HashCache" where
  "hc_remove key c =
     (case al_get (hc_entries c) key of
        None \<Rightarrow> c
      | Some item \<Rightarrow> c\<lparr>hc_entries := al_del key (hc_entries c), hc_lru := remove1 key (hc_lru c),
                        hc_currentMem := hc_currentMem c - ci_size item\<rparr>)"

definition evictLRU :: "HashCache \<Rightarrow> HashCache" where
  "evictLRU c =
     (if hc_lru c = [] then c
      else let key = last (hc_lru c)
           in case al_get (hc_entries c) key of
                None \<Rightarrow> c\<lparr>hc_lru := butlast (hc_lru c)\<rparr>
              | Some item \<Rightarrow>
                  (let c = c\<lparr>hc_entries := al_del key (hc_entries c), hc_lru := butlast (hc_lru c),
                             hc_currentMem := hc_currentMem c - ci_size item\<rparr>;
                       c = c\<lparr>hc_evictions := hc_evictions c + 1\<rparr>
                   in c\<lparr>hc_onEvict := map_option (\<lambda>log. log @ [ci_entry item]) (hc_onEvict c)\<rparr>))"

lemma length_evictLRU [simp]: "length (hc_lru (evictLRU c)) = length (hc_lru c) - 1"
  by (simp add: evictLRU_def Let_def split: option.splits)

text \<open>Evicting while a condition on the cache holds and something is left.\<close>

function evict_while :: "(HashCache \<Rightarrow> bool) \<Rightarrow> HashCache \<Rightarrow> HashCache" where
  "evict_while P c = (if P c \<and> 0 < length (hc_lru c) then evict_while P (evictLRU c) else c)"
  by pat_completeness auto
termination by (relation "measure (\<lambda>(P, c). length (hc_lru c))") auto

declare evict_while.simps [simp del]

definition hc_push :: "CacheEntry \<Rightarrow> HashCache \<Rightarrow> HashCache" where
  "hc_push entry c =
     (let item = \<lparr>ci_key = ce_Hash entry, ci_entry = entry, ci_size = entry_size entry\<rparr>
      in c\<lparr>hc_lru := ce_Hash entry # hc_lru c, hc_entries := al_put (ce_Hash entry) item (hc_entries c),
           hc_currentMem := hc_currentMem c + entry_size entry\<rparr>)"

definition hc_update :: "CacheEntry \<Rightarrow> cacheItem \<Rightarrow> HashCache \<Rightarrow> HashCache" where
  "hc_update entry item c =
     (let c = c\<lparr>hc_currentMem := hc_currentMem c - ci_size item + entry_size entry\<rparr>
      in (hc_front (ce_Hash entry) c)
           \<lparr>hc_entries := al_put (ce_Hash entry) (item\<lparr>ci_entry := entry, ci_size := entry_size entry\<rparr>) (hc_entries c)\<rparr>)"

definition with_hash :: "(string \<Rightarrow> string) \<Rightarrow> CacheEntry \<Rightarrow> CacheEntry" where
  "with_hash sha entry = (if ce_Hash entry = [] then entry\<lparr>ce_Hash := sha (ce_Content entry)\<rparr> else entry)"

definition over_limits :: "int \<Rightarrow> int \<Rightarrow> HashCache \<Rightarrow> bool" where
  "over_limits n sz c \<longleftrightarrow> len (hc_entries c) + n > hc_maxSize c \<or> hc_currentMem c + sz > hc_maxMemory c"

definition hc_Set :: "(string \<Rightarrow> string) \<Rightarrow> CacheEntry \<Rightarrow> HashCache \<Rightarrow> HashCache" where
  "hc_Set sha entry c =
     (let entry = with_hash sha entry;
          sz = entry_size entry
      in case al_get (hc_entries c) (ce_Hash entry) of
           Some item \<Rightarrow> hc_update entry item c
         | None \<Rightarrow> hc_push entry (evict_while (\<lambda>c. len (hc_entries c) \<ge> hc_maxSize c \<or> hc_currentMem c + sz > hc_maxMemory c) c))"

definition batch_add :: "HashCache \<Rightarrow> CacheEntry \<Rightarrow> HashCache" where
  "batch_add c entry =
     (case al_get (hc_entries c) (ce_Hash entry) of
        Some item \<Rightarrow> hc_update entry item c
      | None \<Rightarrow> hc_push entry c)"

definition BatchSet :: "(string \<Rightarrow> string) \<Rightarrow> CacheEntry list \<Rightarrow> HashCache \<Rightarrow> HashCache" where
  "BatchSet sha entries c =
     (let entries = map (with_hash sha) entries;
          totalSize = sum_list (map entry_size entries)
      in foldl batch_add (evict_while (over_limits (len entries) totalSize) c) entries)"

definition hc_Delete :: "string \<Rightarrow> HashCache \<Rightarrow> bool \<times> HashCache" where
  "hc_Delete hash c = (if al_get (hc_entries c) hash = None then (False, c) else (True, hc_remove hash c))"

definition matchGlob :: "string \<Rightarrow> string \<Rightarrow> bool" where
  "matchGlob pattern s \<longleftrightarrow> len pattern > 0 \<and> len s > 0 \<and>
     (pattern = ''*'' \<or> s = pattern \<or>
      len pattern > 1 \<and> hd pattern = CHR ''*'' \<and> len s \<ge> len pattern - 1 \<and>
        drop (length s + 1 - length pattern) s = tl pattern)"

definition InvalidateByPattern :: "string \<Rightarrow> HashCache \<Rightarrow> int \<times> HashCache" where
  "InvalidateByPattern pattern c =
     (let toDelete = map fst (filter (\<lambda>e. matchGlob pattern (ce_FilePath (ci_entry (snd e)))) (hc_entries c))
      in (len toDelete, foldl (\<lambda>c hash. hc_remove hash c) c toDelete))"

definition hc_Clear :: "HashCache \<Rightarrow> HashCache" where
  "hc_Clear c = c\<lparr>hc_entries := [], hc_lru := [], hc_currentMem := 0\<rparr>"

record HashStats =
  hs_TotalEntries :: int
  hs_TotalSize :: int
  hs_HitRate :: rat
  hs_HitCount :: int
  hs_MissCount :: int
  hs_OldestEntry :: "gotime option"
  hs_NewestEntry :: "gotime option"

definition stamp_at :: "HashCache \<Rightarrow> string \<Rightarrow> gotime option" where
  "stamp_at c key = map_option (\<lambda>i. ce_Timestamp (ci_entry i)) (al_get (hc_entries c) key)"

definition hc_Stats :: "HashCache \<Rightarrow> HashStats" where
  "hc_Stats c =
     (let oldest = (if hc_lru c = [] then None else stamp_at c (last (hc_lru c)));
          newest = (if hc_lru c = [] then None else stamp_at c (hd (hc_lru c)));
          total = hc_hits c + hc_misses c;
          hitRate = (if total > 0 then fdiv (of_int64 (hc_hits c)) (of_int64 total) else 0)
      in \<lparr>hs_TotalEntries = len (hc_entries c), hs_TotalSize = hc_currentMem c, hs_HitRate = hitRate,
          hs_HitCount = hc_hits c, hs_MissCount = hc_misses c, hs_OldestEntry = oldest, hs_NewestEntry = newest\<rparr>)"

definition BatchGet :: "string list \<Rightarrow> HashCache \<Rightarrow> (string \<times> CacheEntry) list" where
  "BatchGet hashes c =
     foldl (\<lambda>results hash. case al_get (hc_entries c) hash of
        Some item \<Rightarrow> al_put hash (ci_entry item) results | None \<Rightarrow> results) [] hashes"

text \<open>\<open>compute\<close> is what the callback returns.\<close>

definition GetOrCompute ::
  "(string \<Rightarrow> string) \<Rightarrow> gotime \<Rightarrow> string \<Rightarrow> string + CacheEntry \<Rightarrow> HashCache \<Rightarrow> (string + CacheEntry) \<times> HashCache" where
  "GetOrCompute sha now hash compute c =
     (case hc_Get now hash c of
        (Some entry, c) \<Rightarrow> (Inr entry, c)
      | (None, c) \<Rightarrow>
          (case compute of
             Inl err \<Rightarrow> (Inl err, c)
           | Inr entry \<Rightarrow> (Inr (with_hash sha entry), hc_Set sha entry c)))"

definition Entries :: "HashCache \<Rightarrow> CacheEntry list" where
  "Entries c = List.map_filter (\<lambda>k. map_option ci_entry (al_get (hc_entries c) k)) (hc_lru c)"

definition Persist :: "HashCache \<Rightarrow> CacheEntry list" where
  "Persist c = map (\<lambda>e. e\<lparr>ce_Content := []\<rparr>) (Entries c)"

definition Resize :: "int \<Rightarrow> int \<Rightarrow> HashCache \<Rightarrow> HashCache" where
  "Resize maxSize maxMemory c =
     evict_while (over_limits 0 0) (c\<lparr>hc_maxSize := maxSize, hc_maxMemory := maxMemory\<rparr>)"

definition hc_Len :: "HashCache \<Rightarrow> int" where
  "hc_Len c = len (hc_entries c)"

definition MemoryUsage :: "HashCache \<Rightarrow> int" where
  "MemoryUsage c = hc_currentMem c"

section \<open>Invariant\<close>

definition total_size :: "HashCache \<Rightarrow> int" where
  "total_size c = sum_list (map (\<lambda>e. ci_size (snd e)) (hc_entries c))"

definition hc_inv :: "HashCache \<Rightarrow> bool" where
  "hc_inv c \<longleftrightarrow> distinct (hc_lru c) \<and> distinct (al_keys (hc_entries c)) \<and>
     set (al_keys (hc_entries c)) = set (hc_lru c) \<and> hc_currentMem c = total_size c \<and>
     (\<forall>(k, i) \<in> set (hc_entries c). ci_key i = k \<and> ce_Hash (ci_entry i) = k \<and> ci_size i = entry_size (ci_entry i))"

lemma hc_inv_item:
  assumes "hc_inv c" "al_get (hc_entries c) k = Some i"
  shows "ci_key i = k" "ce_Hash (ci_entry i) = k" "ci_size i = entry_size (ci_entry i)" "k \<in> set (hc_lru c)"
  using assms al_get_Some_in [OF assms(2)] al_get_Some_key [OF assms(2)] unfolding hc_inv_def by fastforce+

lemma hc_inv_lookup: "hc_inv c \<Longrightarrow> (al_get (hc_entries c) k = None) = (k \<notin> set (hc_lru c))"
  by (auto simp: hc_inv_def al_get_None_iff)

lemma hc_inv_len: "hc_inv c \<Longrightarrow> len (hc_entries c) = len (hc_lru c)"
  unfolding hc_inv_def by (metis distinct_card length_map)

lemma sum_al_put:
  "distinct (al_keys m) \<Longrightarrow> sum_list (map (\<lambda>e. f (snd e)) (al_put k v m)) =
    sum_list (map (\<lambda>e. f (snd e)) m) + f v - (case al_get m k of None \<Rightarrow> 0 | Some w \<Rightarrow> (f w :: int))"
  by (induction k v m rule: al_put.induct) (auto simp: al_get_None_iff)

lemma al_del_absent: "k \<notin> set (al_keys m) \<Longrightarrow> al_del k m = m"
  by (induction m) (auto simp: al_del_def)

lemma sum_al_del:
  "distinct (al_keys m) \<Longrightarrow> sum_list (map (\<lambda>e. f (snd e)) (al_del k m)) =
    sum_list (map (\<lambda>e. f (snd e)) m) - (case al_get m k of None \<Rightarrow> 0 | Some w \<Rightarrow> (f w :: int))"
proof (induction m)
  case (Cons e m)
  then show ?case using al_del_absent [of "fst e" m] by (cases e) (auto simp: al_del_def)
qed (simp add: al_del_def)

text \<open>The two ways in which the operations change the elements.\<close>

lemma hc_inv_put:
  assumes "hc_inv c" "ci_key i = k" "ce_Hash (ci_entry i) = k" "ci_size i = entry_size (ci_entry i)"
    "hc_entries c' = al_put k i (hc_entries c)" "hc_lru c' = k # remove1 k (hc_lru c)"
    "hc_currentMem c' = hc_currentMem c + ci_size i - (case al_get (hc_entries c) k of None \<Rightarrow> 0 | Some j \<Rightarrow> ci_size j)"
  shows "hc_inv c'"
proof -
  have "hc_currentMem c' = total_size c'"
    using assms sum_al_put [of "hc_entries c" ci_size k i] by (simp add: hc_inv_def total_size_def)
  moreover have "\<forall>(k, i) \<in> set (hc_entries c'). ci_key i = k \<and> ce_Hash (ci_entry i) = k \<and> ci_size i = entry_size (ci_entry i)"
    using assms set_al_put [of k i "hc_entries c"] unfolding hc_inv_def by fastforce
  ultimately show ?thesis using assms unfolding hc_inv_def by (auto simp: set_remove1_eq)
qed

lemma hc_inv_del:
  assumes "hc_inv c" "al_get (hc_entries c) k = Some i"
    "hc_entries c' = al_del k (hc_entries c)" "hc_lru c' = remove1 k (hc_lru c)"
    "hc_currentMem c' = hc_currentMem c - ci_size i"
  shows "hc_inv c'"
proof -
  have "hc_currentMem c' = total_size c'"
    using assms sum_al_del [of "hc_entries c" ci_size k] by (simp add: hc_inv_def total_size_def)
  moreover have "set (hc_entries c') \<subseteq> set (hc_entries c)" using assms(3) by (auto simp: al_del_def)
  ultimately show ?thesis using assms unfolding hc_inv_def by (auto simp del: set_map simp: al_keys_del distinct_removeAll)
qed

lemma hc_inv_same:
  "hc_inv c \<Longrightarrow> hc_entries c' = hc_entries c \<Longrightarrow> hc_lru c' = hc_lru c \<Longrightarrow> hc_currentMem c' = hc_currentMem c \<Longrightarrow> hc_inv c'"
  by (simp add: hc_inv_def total_size_def)

lemma hc_inv_New [go_inv]: "hc_inv (NewHashCache m n)"
  by (simp add: hc_inv_def NewHashCache_def total_size_def)

lemma hc_inv_access [go_inv]:
  assumes "hc_inv c" "al_get (hc_entries c) k = Some i"
  shows "hc_inv (snd (hc_access now k i c))"
proof (rule hc_inv_put [OF assms(1)])
  show "hc_entries (snd (hc_access now k i c)) =
    al_put k (i\<lparr>ci_entry := (ci_entry i)\<lparr>ce_Accessed := now, ce_HitCount := ce_HitCount (ci_entry i) + 1\<rparr>\<rparr>) (hc_entries c)"
    by (simp add: hc_access_def Let_def hc_front_def)
qed (use hc_inv_item [OF assms] assms in \<open>auto simp: hc_access_def Let_def hc_front_def entry_size_def\<close>)

lemma hc_inv_Get [go_inv]: "hc_inv c \<Longrightarrow> hc_inv (snd (hc_Get now k c))"
proof (cases "al_get (hc_entries c) k")
  case (Some i)
  assume "hc_inv c"
  then have "hc_inv (snd (hc_access now k i c))" using Some by (rule hc_inv_access)
  then show ?thesis using Some
    by (cases "hc_access now k i c") (auto simp: hc_Get_def Let_def intro: hc_inv_same)
qed (auto simp: hc_Get_def intro: hc_inv_same)

lemma hc_inv_Touch [go_inv]: "hc_inv c \<Longrightarrow> hc_inv (snd (hc_Touch now k c))"
  by (auto simp: hc_Touch_def hc_inv_access split: option.splits)

lemma hc_inv_remove [go_inv]: "hc_inv c \<Longrightarrow> hc_inv (hc_remove k c)"
  by (auto simp: hc_remove_def split: option.splits elim!: hc_inv_del)

lemma last_al_get: "hc_inv c \<Longrightarrow> hc_lru c \<noteq> [] \<Longrightarrow> \<exists>i. al_get (hc_entries c) (last (hc_lru c)) = Some i"
  using hc_inv_lookup [of c "last (hc_lru c)"] by auto

lemma hc_inv_evictLRU [go_inv]: "hc_inv c \<Longrightarrow> hc_inv (evictLRU c)"
proof (cases "hc_lru c = []")
  case False
  assume inv: "hc_inv c"
  obtain i where i: "al_get (hc_entries c) (last (hc_lru c)) = Some i" using last_al_get [OF inv False] by blast
  show ?thesis
    by (rule hc_inv_del [OF inv i])
      (use False i inv remove1_last [of "hc_lru c"] in \<open>auto simp: evictLRU_def Let_def hc_inv_def\<close>)
qed (simp add: evictLRU_def)

lemma hc_inv_evict_while [go_inv]: "hc_inv c \<Longrightarrow> hc_inv (evict_while P c)"
  by (induction P c rule: evict_while.induct) (subst evict_while.simps, simp add: hc_inv_evictLRU)

lemma hc_inv_push:
  "hc_inv c \<Longrightarrow> al_get (hc_entries c) (ce_Hash e) = None \<Longrightarrow> hc_inv (hc_push e c)"
  using hc_inv_lookup [of c "ce_Hash e"]
  by - (rule hc_inv_put [of c "\<lparr>ci_key = ce_Hash e, ci_entry = e, ci_size = entry_size e\<rparr>" "ce_Hash e"];
    simp add: hc_push_def Let_def remove1_idem)

lemma hc_inv_update:
  assumes "hc_inv c" "al_get (hc_entries c) (ce_Hash e) = Some i"
  shows "hc_inv (hc_update e i c)"
  by (rule hc_inv_put [OF assms(1), of "i\<lparr>ci_entry := e, ci_size := entry_size e\<rparr>" "ce_Hash e"])
    (use hc_inv_item [OF assms] assms in \<open>auto simp: hc_update_def Let_def hc_front_def\<close>)

lemma hc_inv_Set [go_inv]: "hc_inv c \<Longrightarrow> hc_inv (hc_Set sha e c)"
proof -
  assume inv: "hc_inv c"
  have none: "al_get (hc_entries (evict_while P c)) k = None" if "al_get (hc_entries c) k = None" for P k
    using inv that
  proof (induction P c rule: evict_while.induct)
    case (1 P c)
    have "al_get (hc_entries (evictLRU c)) k = None"
      using 1(3) by (auto simp: evictLRU_def Let_def split: option.splits)
    then show ?case using 1 by (subst evict_while.simps) (simp add: hc_inv_evictLRU)
  qed
  show ?thesis
    by (auto simp: hc_Set_def Let_def inv hc_inv_update intro!: hc_inv_push hc_inv_evict_while none split: option.splits)
qed

lemma hc_inv_batch_add [go_inv]: "hc_inv c \<Longrightarrow> hc_inv (batch_add c e)"
  by (auto simp: batch_add_def hc_inv_push hc_inv_update split: option.splits)

lemma foldl_hc_inv: "(\<And>c x. hc_inv c \<Longrightarrow> hc_inv (f c x)) \<Longrightarrow> hc_inv c \<Longrightarrow> hc_inv (foldl f c xs)"
  by (induction xs arbitrary: c) auto

lemma hc_inv_BatchSet [go_inv]: "hc_inv c \<Longrightarrow> hc_inv (BatchSet sha es c)"
  by (simp add: BatchSet_def Let_def foldl_hc_inv hc_inv_batch_add hc_inv_evict_while)

lemma hc_inv_Delete [go_inv]: "hc_inv c \<Longrightarrow> hc_inv (snd (hc_Delete k c))"
  by (simp add: hc_Delete_def hc_inv_remove)

lemma hc_inv_Invalidate [go_inv]: "hc_inv c \<Longrightarrow> hc_inv (snd (InvalidateByPattern p c))"
  by (simp add: InvalidateByPattern_def Let_def foldl_hc_inv hc_inv_remove)

lemma hc_inv_Clear [go_inv]: "hc_inv (hc_Clear c)"
  by (simp add: hc_inv_def hc_Clear_def total_size_def)

lemma hc_inv_GetOrCompute [go_inv]: "hc_inv c \<Longrightarrow> hc_inv (snd (GetOrCompute sha now k r c))"
  using hc_inv_Get [of c now k]
  by (cases "hc_Get now k c") (auto simp: GetOrCompute_def hc_inv_Set split: option.splits sum.splits)

lemma hc_inv_Resize [go_inv]: "hc_inv c \<Longrightarrow> hc_inv (Resize m n c)"
  unfolding Resize_def by (rule hc_inv_evict_while) (auto elim!: hc_inv_same)

section \<open>Eviction\<close>

lemma evictLRU_limits [simp]:
  "hc_maxSize (evictLRU c) = hc_maxSize c" "hc_maxMemory (evictLRU c) = hc_maxMemory c"
  by (simp_all add: evictLRU_def Let_def split: option.splits)

lemma evict_while_limits [simp]:
  "hc_maxSize (evict_while P c) = hc_maxSize c" "hc_maxMemory (evict_while P c) = hc_maxMemory c"
  by (induction P c rule: evict_while.induct; subst evict_while.simps; simp)+

lemma evict_while_stops: "\<not> P (evict_while P c) \<or> hc_lru (evict_while P c) = []"
  by (induction P c rule: evict_while.induct) (subst (1 2) evict_while.simps, simp)

lemma evictLRU_lru: "hc_lru (evictLRU c) = butlast (hc_lru c)"
  by (simp add: evictLRU_def Let_def split: option.splits)

lemma evictLRU_keeps:
  assumes "hc_inv c" "k \<in> set (butlast (hc_lru c))"
  shows "al_get (hc_entries (evictLRU c)) k = al_get (hc_entries c) k"
proof -
  have "hc_lru c = butlast (hc_lru c) @ [last (hc_lru c)]" using assms(2) by (cases "hc_lru c" rule: rev_cases) auto
  then have "last (hc_lru c) \<noteq> k" using assms unfolding hc_inv_def
    by (metis distinct_append disjoint_insert(1) list.set(2))
  then show ?thesis by (auto simp: evictLRU_def Let_def split: option.splits)
qed

text \<open>
  A cache holds the first \<open>m\<close> elements of another one when its list is that prefix of the other's
  and it has the same items under those keys. What an eviction leaves is such a prefix, and every longer
  one met the condition of the loop.
\<close>

definition prefix_of :: "nat \<Rightarrow> HashCache \<Rightarrow> HashCache \<Rightarrow> bool" where
  "prefix_of m c d \<longleftrightarrow> hc_inv d \<and> m \<le> length (hc_lru c) \<and> hc_lru d = take m (hc_lru c) \<and>
     hc_maxSize d = hc_maxSize c \<and> hc_maxMemory d = hc_maxMemory c \<and>
     (\<forall>k \<in> set (take m (hc_lru c)). al_get (hc_entries d) k = al_get (hc_entries c) k)"

lemma prefix_of_self: "hc_inv c \<Longrightarrow> prefix_of (length (hc_lru c)) c c"
  by (simp add: prefix_of_def)

lemma prefix_of_evictLRU:
  assumes "hc_inv c" "hc_lru c \<noteq> []" "prefix_of m (evictLRU c) d"
  shows "prefix_of m c d" and "m < length (hc_lru c)"
proof -
  have m: "m \<le> length (hc_lru c) - 1" using assms(3) by (simp add: prefix_of_def)
  then have tk: "take m (butlast (hc_lru c)) = take m (hc_lru c)" by (simp add: butlast_conv_take min_def)
  show "m < length (hc_lru c)" using m assms(2) by (cases "hc_lru c") auto
  have "k \<in> set (take m (butlast (hc_lru c))) \<Longrightarrow> al_get (hc_entries (evictLRU c)) k = al_get (hc_entries c) k" for k
    by (rule evictLRU_keeps [OF assms(1)]) (rule in_set_takeD)
  then show "prefix_of m c d" using assms(3) m tk by (auto simp: prefix_of_def evictLRU_lru)
qed

lemma evict_while_prefix:
  "hc_inv c \<Longrightarrow> \<exists>n. prefix_of n c (evict_while P c) \<and>
     (\<forall>m. n < m \<longrightarrow> m \<le> length (hc_lru c) \<longrightarrow> (\<exists>d. prefix_of m c d \<and> P d))"
proof (induction P c rule: evict_while.induct)
  case (1 P c)
  show ?case
  proof (cases "P c \<and> 0 < length (hc_lru c)")
    case True
    then have ne: "hc_lru c \<noteq> []" by auto
    have ew: "evict_while P c = evict_while P (evictLRU c)" using True by (subst evict_while.simps) simp
    obtain n where n: "prefix_of n (evictLRU c) (evict_while P c)"
      "\<forall>m. n < m \<longrightarrow> m \<le> length (hc_lru (evictLRU c)) \<longrightarrow> (\<exists>d. prefix_of m (evictLRU c) d \<and> P d)"
      using 1(1) [OF True hc_inv_evictLRU [OF 1(2)]] by (auto simp: ew)
    have "\<exists>d. prefix_of m c d \<and> P d" if m: "n < m" "m \<le> length (hc_lru c)" for m
    proof (cases "m = length (hc_lru c)")
      case True
      then show ?thesis using prefix_of_self [OF 1(2)] \<open>P c \<and> _\<close> by blast
    next
      case False
      then have "m \<le> length (hc_lru (evictLRU c))" using m by simp
      with n(2) m(1) obtain d where "prefix_of m (evictLRU c) d" "P d" by blast
      then show ?thesis using prefix_of_evictLRU(1) [OF 1(2) ne] by blast
    qed
    then show ?thesis using prefix_of_evictLRU(1) [OF 1(2) ne n(1)] by blast
  next
    case False
    then have "evict_while P c = c" by (subst evict_while.simps) auto
    then show ?thesis using prefix_of_self [OF 1(2)] by (intro exI [of _ "length (hc_lru c)"]) simp
  qed
qed

lemma prefix_of_absent:
  assumes "hc_inv c" "prefix_of n c d" "al_get (hc_entries c) k = None"
  shows "al_get (hc_entries d) k = None"
proof -
  have "k \<notin> set (take n (hc_lru c))" using assms(1,3) by (auto simp: hc_inv_lookup dest: in_set_takeD)
  then show ?thesis using assms(2) hc_inv_lookup [of d k] by (simp add: prefix_of_def)
qed

text \<open>The memory of the elements of some keys.\<close>

definition mem_of :: "HashCache \<Rightarrow> string list \<Rightarrow> int" where
  "mem_of c ks = sum_list (map (\<lambda>k. case al_get (hc_entries c) k of None \<Rightarrow> 0 | Some i \<Rightarrow> entry_size (ci_entry i)) ks)"

lemma mem_of_lru: "hc_inv c \<Longrightarrow> hc_currentMem c = mem_of c (hc_lru c)"
proof -
  assume inv: "hc_inv c"
  let ?f = "\<lambda>k. case al_get (hc_entries c) k of None \<Rightarrow> 0 | Some i \<Rightarrow> entry_size (ci_entry i)"
  have d: "distinct (al_keys (hc_entries c))" "distinct (hc_lru c)" "set (al_keys (hc_entries c)) = set (hc_lru c)"
    using inv by (auto simp: hc_inv_def)
  have "mem_of c (hc_lru c) = sum ?f (set (hc_lru c))" by (simp add: mem_of_def sum_list_distinct_conv_sum_set d)
  also have "\<dots> = sum_list (map ?f (al_keys (hc_entries c)))" using d by (metis sum_list_distinct_conv_sum_set)
  also have "\<dots> = sum_list (map (\<lambda>e. ci_size (snd e)) (hc_entries c))"
  proof -
    have "?f (fst e) = ci_size (snd e)" if "e \<in> set (hc_entries c)" for e
    proof -
      have "al_get (hc_entries c) (fst e) = Some (snd e)"
        using that d(1) by (simp add: al_get_map_of)
      then show ?thesis using hc_inv_item(3) [OF inv] by simp
    qed
    then show ?thesis by (simp add: comp_def cong: map_cong)
  qed
  finally show ?thesis using inv by (simp add: hc_inv_def total_size_def)
qed

lemma prefix_of_mem: "prefix_of m c d \<Longrightarrow> hc_currentMem d = mem_of c (take m (hc_lru c)) \<and> len (hc_entries d) = int m"
proof -
  assume p: "prefix_of m c d"
  then have inv: "hc_inv d" by (simp add: prefix_of_def)
  have "mem_of d (take m (hc_lru c)) = mem_of c (take m (hc_lru c))"
    using p unfolding mem_of_def by (intro arg_cong [of _ _ sum_list] map_cong) (auto simp: prefix_of_def)
  then show ?thesis using mem_of_lru [OF inv] hc_inv_len [OF inv] p by (simp add: prefix_of_def)
qed

lemma evict_while_keeps_lookup:
  assumes "hc_inv c" "al_get (hc_entries (evict_while P c)) k = Some i"
  shows "al_get (hc_entries c) k = Some i"
proof -
  obtain n where n: "prefix_of n c (evict_while P c)" using evict_while_prefix [OF assms(1)] by blast
  have "k \<in> set (hc_lru (evict_while P c))" using hc_inv_item(4) [OF hc_inv_evict_while [OF assms(1)] assms(2)] .
  then show ?thesis using n assms(2) by (auto simp: prefix_of_def)
qed

text \<open>A new key evicts from the end of the list, and only what it has to.\<close>

definition fits :: "HashCache \<Rightarrow> CacheEntry \<Rightarrow> nat \<Rightarrow> bool" where
  "fits c e m \<longleftrightarrow> int m < hc_maxSize c \<and> mem_of c (take m (hc_lru c)) + entry_size e \<le> hc_maxMemory c"

lemma hc_Set_new:
  assumes inv: "hc_inv c" and new: "al_get (hc_entries c) (ce_Hash (with_hash sha e)) = None"
  obtains n d where "prefix_of n c d" "hc_Set sha e c = hc_push (with_hash sha e) d"
    "n = 0 \<or> fits c (with_hash sha e) n" "\<And>m. n < m \<Longrightarrow> m \<le> length (hc_lru c) \<Longrightarrow> \<not> fits c (with_hash sha e) m"
proof -
  define P where "P = (\<lambda>d :: HashCache. len (hc_entries d) \<ge> hc_maxSize d \<or> hc_currentMem d + entry_size (with_hash sha e) > hc_maxMemory d)"
  have P: "P d \<longleftrightarrow> \<not> fits c (with_hash sha e) m" if "prefix_of m c d" for m d
    using prefix_of_mem [OF that] that by (auto simp: P_def fits_def prefix_of_def)
  obtain n where n: "prefix_of n c (evict_while P c)"
    "\<forall>m. n < m \<longrightarrow> m \<le> length (hc_lru c) \<longrightarrow> (\<exists>d. prefix_of m c d \<and> P d)"
    using evict_while_prefix [OF inv] by blast
  show ?thesis
  proof (rule that [OF n(1)])
    show "hc_Set sha e c = hc_push (with_hash sha e) (evict_while P c)"
      using new by (simp add: hc_Set_def Let_def P_def)
    show "n = 0 \<or> fits c (with_hash sha e) n"
      using evict_while_stops [of P c] P [OF n(1)] n(1) by (auto simp: prefix_of_def)
  qed (use n(2) P in blast)
qed

lemma hc_push_lookup: "al_get (hc_entries (hc_push e d)) k =
    (if k = ce_Hash e then Some \<lparr>ci_key = ce_Hash e, ci_entry = e, ci_size = entry_size e\<rparr> else al_get (hc_entries d) k)"
  by (simp add: hc_push_def Let_def)

lemma hc_Set_lookup_same:
  "hc_inv c \<Longrightarrow> map_option ci_entry (al_get (hc_entries (hc_Set sha e c)) (ce_Hash (with_hash sha e))) = Some (with_hash sha e)"
  by (auto simp: hc_Set_def Let_def hc_push_lookup hc_update_def hc_front_def split: option.splits)

lemma hc_Set_lookup_other:
  assumes "hc_inv c" "k \<noteq> ce_Hash (with_hash sha e)" "al_get (hc_entries (hc_Set sha e c)) k = Some i"
  shows "al_get (hc_entries c) k = Some i"
proof (cases "al_get (hc_entries c) (ce_Hash (with_hash sha e))")
  case None
  then show ?thesis using assms by (auto simp: hc_Set_def Let_def hc_push_lookup dest: evict_while_keeps_lookup)
next
  case (Some j)
  then show ?thesis using assms by (auto simp: hc_Set_def Let_def hc_update_def hc_front_def)
qed

lemma entry_size_pos [simp]: "0 < entry_size e"
  by (simp add: entry_size_def)

lemma mem_of_nonneg: "0 \<le> mem_of c ks"
  unfolding mem_of_def
  by (rule sum_list_nonneg) (auto split: option.splits intro: less_imp_le [OF entry_size_pos])

text \<open>The number of entries stays within the limit when entries are stored one by one.\<close>

definition hc_bounded :: "HashCache \<Rightarrow> bool" where
  "hc_bounded c \<longleftrightarrow> hc_inv c \<and> len (hc_entries c) \<le> max 1 (hc_maxSize c)"

lemma hc_update_sizes [simp]:
  "al_get (hc_entries c) (ce_Hash e) = Some i \<Longrightarrow> length (hc_entries (hc_update e i c)) = length (hc_entries c)"
  "hc_maxSize (hc_update e i c) = hc_maxSize c" "hc_maxMemory (hc_update e i c) = hc_maxMemory c"
  by (auto simp: hc_update_def Let_def hc_front_def length_al_put dest: al_get_Some_key)

lemma hc_push_sizes [simp]:
  "al_get (hc_entries c) (ce_Hash e) = None \<Longrightarrow> length (hc_entries (hc_push e c)) = Suc (length (hc_entries c))"
  "hc_maxSize (hc_push e c) = hc_maxSize c" "hc_maxMemory (hc_push e c) = hc_maxMemory c"
  "hc_currentMem (hc_push e c) = hc_currentMem c + entry_size e"
  by (auto simp: hc_push_def Let_def length_al_put al_get_None_iff)

lemma hc_Set_limits [simp]: "hc_maxSize (hc_Set sha e c) = hc_maxSize c" "hc_maxMemory (hc_Set sha e c) = hc_maxMemory c"
  by (auto simp: hc_Set_def Let_def split: option.splits)

lemma hc_bounded_Set:
  assumes "hc_bounded c" shows "hc_bounded (hc_Set sha e c)"
proof (cases "al_get (hc_entries c) (ce_Hash (with_hash sha e))")
  case None
  have inv: "hc_inv c" using assms by (simp add: hc_bounded_def)
  obtain n d where nd: "prefix_of n c d" "hc_Set sha e c = hc_push (with_hash sha e) d" "n = 0 \<or> fits c (with_hash sha e) n"
    using hc_Set_new [OF inv None] .
  have "al_get (hc_entries d) (ce_Hash (with_hash sha e)) = None"
    by (rule prefix_of_absent [OF inv nd(1) None])
  then have "len (hc_entries (hc_Set sha e c)) = int n + 1" "n = 0 \<or> int n < hc_maxSize c"
    using nd prefix_of_mem [OF nd(1)] by (auto simp: fits_def)
  then show ?thesis using hc_inv_Set [OF inv, of sha e] unfolding hc_bounded_def by auto
next
  case (Some i)
  then show ?thesis using assms hc_inv_Set [of c sha e] by (auto simp: hc_bounded_def hc_Set_def Let_def)
qed

text \<open>The cache meets the contract of the caches, and so every law of a run of stores holds for it.\<close>

type_synonym payload = "string \<times> string \<times> gotime \<times> gotime \<times> int"

definition entry_with :: "string \<Rightarrow> payload \<Rightarrow> CacheEntry" where
  "entry_with k = (\<lambda>(content, path, stamp, accessed, n).
     \<lparr>ce_Hash = k, ce_Content = content, ce_FilePath = path, ce_Timestamp = stamp, ce_Accessed = accessed, ce_HitCount = n\<rparr>)"

definition payload_of :: "cacheItem \<Rightarrow> payload" where
  "payload_of i = (let e = ci_entry i in (ce_Content e, ce_FilePath e, ce_Timestamp e, ce_Accessed e, ce_HitCount e))"

lemma with_hash_entry [simp]: "k \<noteq> [] \<Longrightarrow> with_hash sha (entry_with k v) = entry_with k v" "ce_Hash (entry_with k v) = k"
  by (cases v; simp add: with_hash_def entry_with_def)+

lemma payload_of_entry: "ci_entry i = entry_with k v \<Longrightarrow> payload_of i = v"
  by (cases v) (simp add: payload_of_def entry_with_def)

interpretation hash: bounded_cache hc_bounded "\<lambda>k. k \<noteq> []"
  "\<lambda>c k. map_option payload_of (al_get (hc_entries c) k)"
  "\<lambda>k v c. Some (hc_Set sha (entry_with k v) c)"
  "\<lambda>c. len (hc_entries c)" "\<lambda>c. max 1 (hc_maxSize c)" for sha
proof unfold_locales
  fix c c' :: HashCache and k k' :: string and v w :: payload
  assume a: "hc_bounded c" "k \<noteq> []" "Some (hc_Set sha (entry_with k v) c) = Some c'"
  then have inv: "hc_inv c" and c': "c' = hc_Set sha (entry_with k v) c" by (auto simp: hc_bounded_def)
  show "map_option payload_of (al_get (hc_entries c') k) = Some v"
    using hc_Set_lookup_same [OF inv, of sha "entry_with k v"] a(2) c' by (auto dest: payload_of_entry)
  show "k' \<noteq> k \<Longrightarrow> map_option payload_of (al_get (hc_entries c') k') = Some w \<Longrightarrow>
      map_option payload_of (al_get (hc_entries c) k') = Some w"
    using hc_Set_lookup_other [OF inv, of k' sha "entry_with k v"] a(2) c' by auto
qed (auto simp: hc_bounded_Set, auto simp: hc_bounded_def)

section \<open>Runs of operations\<close>

datatype hc_op =
    OpGet gotime string
  | OpTouch gotime string
  | OpSet CacheEntry
  | OpBatchSet "CacheEntry list"
  | OpGetOrCompute gotime string "string + CacheEntry"
  | OpDelete string
  | OpInvalidate string
  | OpClear
  | OpResize int int

fun hc_step :: "(string \<Rightarrow> string) \<Rightarrow> HashCache \<Rightarrow> hc_op \<Rightarrow> HashCache" where
  "hc_step sha c (OpGet now k) = snd (hc_Get now k c)"
| "hc_step sha c (OpTouch now k) = snd (hc_Touch now k c)"
| "hc_step sha c (OpSet e) = hc_Set sha e c"
| "hc_step sha c (OpBatchSet es) = BatchSet sha es c"
| "hc_step sha c (OpGetOrCompute now k r) = snd (GetOrCompute sha now k r c)"
| "hc_step sha c (OpDelete k) = snd (hc_Delete k c)"
| "hc_step sha c (OpInvalidate p) = snd (InvalidateByPattern p c)"
| "hc_step sha c OpClear = hc_Clear c"
| "hc_step sha c (OpResize m n) = Resize m n c"

lemma hc_inv_step: "hc_inv c \<Longrightarrow> hc_inv (hc_step sha c op)"
  by (cases op) (simp_all add: go_inv)

lemma hc_inv_run: "hc_inv c \<Longrightarrow> hc_inv (foldl (hc_step sha) c ops)"
  by (induction ops arbitrary: c) (auto simp: hc_inv_step)

lemma map_filter_all: "(\<And>x. x \<in> set xs \<Longrightarrow> f x = Some (g x)) \<Longrightarrow> List.map_filter f xs = map g xs"
  by (induction xs) (auto simp: List.map_filter_def)

lemma Entries_map:
  "hc_inv c \<Longrightarrow> Entries c = map (\<lambda>k. ci_entry (the (al_get (hc_entries c) k))) (hc_lru c)"
  unfolding Entries_def by (rule map_filter_all) (metis hc_inv_lookup not_None_eq option.map_sel option.collapse option.distinct(1) option.simps(9) option.sel)

lemma Entries_keys: "hc_inv c \<Longrightarrow> map ce_Hash (Entries c) = hc_lru c"
proof -
  assume inv: "hc_inv c"
  have "ce_Hash (ci_entry (the (al_get (hc_entries c) k))) = k" if "k \<in> set (hc_lru c)" for k
    using that hc_inv_lookup [OF inv, of k] hc_inv_item(2) [OF inv, of k] by auto
  then show ?thesis by (simp add: Entries_map [OF inv] comp_def map_idI)
qed

lemma Entries_size: "hc_inv c \<Longrightarrow> (\<Sum>e\<leftarrow>Entries c. entry_size e) = hc_currentMem c"
proof -
  assume inv: "hc_inv c"
  have "(case al_get (hc_entries c) k of None \<Rightarrow> 0 | Some i \<Rightarrow> entry_size (ci_entry i)) =
      entry_size (ci_entry (the (al_get (hc_entries c) k)))" if "k \<in> set (hc_lru c)" for k
    using that hc_inv_lookup [OF inv, of k] by auto
  then show ?thesis
    unfolding mem_of_lru [OF inv] mem_of_def Entries_map [OF inv] by (simp add: comp_def cong: map_cong)
qed

lemma Entries_lookup:
  assumes inv: "hc_inv c"
  shows "map_option ci_entry (al_get (hc_entries c) k) = map_of (map (\<lambda>e. (ce_Hash e, e)) (Entries c)) k"
proof (cases "al_get (hc_entries c) k")
  case None
  then have "k \<notin> set (map ce_Hash (Entries c))" using hc_inv_lookup [OF inv] Entries_keys [OF inv] by simp
  then have "map_of (map (\<lambda>e. (ce_Hash e, e)) (Entries c)) k = None" by (auto simp: map_of_eq_None_iff)
  then show ?thesis using None by simp
next
  case (Some i)
  have "ci_entry i \<in> set (Entries c)" using hc_inv_item(4) [OF inv Some] Some by (force simp: Entries_map [OF inv])
  then have "(k, ci_entry i) \<in> set (map (\<lambda>e. (ce_Hash e, e)) (Entries c))" using hc_inv_item(2) [OF inv Some] by force
  moreover have "distinct (map fst (map (\<lambda>e. (ce_Hash e, e)) (Entries c)))"
    using Entries_keys [OF inv] inv by (simp add: comp_def hc_inv_def)
  ultimately show ?thesis using Some by (simp add: map_of_is_SomeI)
qed

lemma hc_push_Entries:
  assumes "hc_inv c" "prefix_of k c d" "al_get (hc_entries c) (ce_Hash e) = None"
  shows "Entries (hc_push e d) = e # take k (Entries c)"
proof -
  have d: "hc_inv d" "hc_lru d = take k (hc_lru c)"
    "\<And>x. x \<in> set (take k (hc_lru c)) \<Longrightarrow> al_get (hc_entries d) x = al_get (hc_entries c) x"
    using assms(2) by (auto simp: prefix_of_def)
  have dn: "al_get (hc_entries d) (ce_Hash e) = None" by (rule prefix_of_absent [OF assms])
  have lru: "hc_lru (hc_push e d) = ce_Hash e # take k (hc_lru c)" by (simp add: hc_push_def Let_def d(2))
  have ne: "ce_Hash e \<notin> set (take k (hc_lru c))" using dn hc_inv_lookup [OF d(1)] d(2) by simp
  have same: "ci_entry (the (al_get (hc_entries (hc_push e d)) x)) = ci_entry (the (al_get (hc_entries c) x))"
    if "x \<in> set (take k (hc_lru c))" for x
  proof -
    have "x \<noteq> ce_Hash e" using that ne by blast
    then show ?thesis by (simp add: hc_push_lookup d(3) [OF that])
  qed
  have "map (\<lambda>x. ci_entry (the (al_get (hc_entries (hc_push e d)) x))) (take k (hc_lru c)) =
      map (\<lambda>x. ci_entry (the (al_get (hc_entries c) x))) (take k (hc_lru c))"
    by (rule map_cong [OF refl same])
  then show ?thesis
    unfolding Entries_map [OF hc_inv_push [OF d(1) dn]] Entries_map [OF assms(1)] lru take_map list.map
    by (simp add: hc_push_lookup)
qed

text \<open>
  Whatever is done to a cache, the memory it reports is the sum of the sizes of the entries it
  lists, it lists as many entries as it counts and no hash twice, and a lookup finds exactly the entry
  listed under that hash.
\<close>

theorem hash_cache_accounting:
  "let c = foldl (hc_step sha) (NewHashCache m n) ops
   in MemoryUsage c = (\<Sum>e\<leftarrow>Entries c. entry_size e) \<and> hc_Len c = len (Entries c) \<and>
      distinct (map ce_Hash (Entries c)) \<and>
      (\<forall>k. map_option ci_entry (al_get (hc_entries c) k) = map_of (map (\<lambda>e. (ce_Hash e, e)) (Entries c)) k)"
proof -
  define c where "c = foldl (hc_step sha) (NewHashCache m n) ops"
  have inv: "hc_inv c" unfolding c_def by (rule hc_inv_run [OF hc_inv_New])
  have "length (Entries c) = length (hc_lru c)" using Entries_keys [OF inv] by (metis length_map)
  then show ?thesis
    unfolding c_def [symmetric] Let_def
    using Entries_size [OF inv] Entries_keys [OF inv] Entries_lookup [OF inv] hc_inv_len [OF inv] inv
    by (simp add: MemoryUsage_def hc_Len_def hc_inv_def)
qed

text \<open>
  C34: storing an entry under a new hash keeps the entries used most recently, unchanged and in order,
  and as many of them as fit beside the new entry: one more would exceed the number of entries or the
  memory. The new entry comes first. An entry larger than the whole memory empties the cache and is stored.
\<close>

theorem hash_cache_keeps_most_recent:
  assumes "al_get (hc_entries c) (ce_Hash e) = None" "ce_Hash e \<noteq> []"
    and "c = foldl (hc_step sha) (NewHashCache m n) ops"
  shows "\<exists>k \<le> length (Entries c). Entries (hc_Set sha e c) = e # take k (Entries c) \<and>
    (k = 0 \<or> int k < hc_maxSize c \<and> (\<Sum>x\<leftarrow>take k (Entries c). entry_size x) + entry_size e \<le> hc_maxMemory c) \<and>
    (\<forall>j. j \<le> length (Entries c) \<and> int j < hc_maxSize c \<and>
       (\<Sum>x\<leftarrow>take j (Entries c). entry_size x) + entry_size e \<le> hc_maxMemory c \<longrightarrow> j \<le> k)"
proof -
  have inv: "hc_inv c" unfolding assms(3) by (rule hc_inv_run [OF hc_inv_New])
  have we: "with_hash sha e = e" using assms(2) by (simp add: with_hash_def)
  have lens: "length (Entries c) = length (hc_lru c)" by (simp add: Entries_map [OF inv])
  have fits: "fits c e j \<longleftrightarrow> int j < hc_maxSize c \<and>
      (\<Sum>x\<leftarrow>take j (Entries c). entry_size x) + entry_size e \<le> hc_maxMemory c" for j
  proof -
    have "(\<Sum>x\<leftarrow>take j (Entries c). entry_size x) = mem_of c (take j (hc_lru c))"
      unfolding mem_of_def Entries_map [OF inv] take_map map_map comp_def
      by (rule arg_cong [of _ _ sum_list], rule map_cong)
        (auto simp: hc_inv_lookup [OF inv] dest!: in_set_takeD split: option.splits)
    then show ?thesis by (simp add: fits_def)
  qed
  obtain k d where kd: "prefix_of k c d" "hc_Set sha e c = hc_push e d" "k = 0 \<or> fits c e k"
    "\<And>j. k < j \<Longrightarrow> j \<le> length (hc_lru c) \<Longrightarrow> \<not> fits c e j"
    using hc_Set_new [OF inv, of sha e] assms(1) unfolding we by metis
  have "Entries (hc_push e d) = e # take k (Entries c)"
    by (rule hc_push_Entries [OF inv kd(1) assms(1)])
  then show ?thesis using kd fits lens by (intro exI [of _ k]) (auto simp: prefix_of_def not_less [symmetric])
qed

definition demo_entry :: "string \<Rightarrow> CacheEntry" where
  "demo_entry k = \<lparr>ce_Hash = k, ce_Content = k, ce_FilePath = [], ce_Timestamp = 0, ce_Accessed = 0, ce_HitCount = 0\<rparr>"

definition demo_hash_cache :: HashCache where
  "demo_hash_cache = foldl (hc_step (\<lambda>x. x)) (NewHashCache 2 1000)
     [OpSet (demo_entry ''a''), OpSet (demo_entry ''b''), OpGet 5 ''a'']"

lemma hash_cache_keeps_most_recent_witness:
  "map ce_Hash (Entries demo_hash_cache) = [''a'', ''b''] \<and>
   (\<exists>k \<le> length (Entries demo_hash_cache).
     Entries (hc_Set (\<lambda>x. x) (demo_entry ''c'') demo_hash_cache) = demo_entry ''c'' # take k (Entries demo_hash_cache))"
proof -
  have "al_get (hc_entries demo_hash_cache) (ce_Hash (demo_entry ''c'')) = None" by code_simp
  moreover have "ce_Hash (demo_entry ''c'') \<noteq> []" by code_simp
  ultimately have "\<exists>k \<le> length (Entries demo_hash_cache).
     Entries (hc_Set (\<lambda>x. x) (demo_entry ''c'') demo_hash_cache) = demo_entry ''c'' # take k (Entries demo_hash_cache)"
    using hash_cache_keeps_most_recent [OF _ _ demo_hash_cache_def, of "demo_entry ''c''"] by blast
  moreover have "map ce_Hash (Entries demo_hash_cache) = [''a'', ''b'']" by code_simp
  ultimately show ?thesis by blast
qed

section \<open>Where the limits do not hold\<close>

text \<open>Storing under a hash that is present evicts nothing, whatever the size of the new entry.\<close>

lemma hash_update_ignores_memory:
  assumes "hc_inv c" "al_get (hc_entries c) (ce_Hash e) = Some i" "ce_Hash e \<noteq> []"
  shows "MemoryUsage (hc_Set sha e c) = MemoryUsage c - ci_size i + entry_size e \<and>
    hc_Len (hc_Set sha e c) = hc_Len c"
proof -
  have "with_hash sha e = e" using assms(3) by (simp add: with_hash_def)
  then have s: "hc_Set sha e c = hc_update e i c" using assms(2) by (simp add: hc_Set_def Let_def)
  show ?thesis using hc_update_sizes(1) [OF assms(2)]
    by (simp add: s MemoryUsage_def hc_Len_def) (simp add: hc_update_def Let_def hc_front_def)
qed

text \<open>A batch larger than the cache is stored whole.\<close>

lemma batch_add_bounds:
  assumes "hc_inv c"
  shows "len (hc_entries (batch_add c e)) \<le> len (hc_entries c) + 1"
    and "hc_currentMem (batch_add c e) \<le> hc_currentMem c + entry_size e"
proof -
  have "0 \<le> ci_size i" if "al_get (hc_entries c) k = Some i" for k i
    using hc_inv_item(3) [OF assms that] less_imp_le [OF entry_size_pos] by simp
  then show "hc_currentMem (batch_add c e) \<le> hc_currentMem c + entry_size e"
    by (auto simp: batch_add_def hc_update_def Let_def hc_front_def split: option.splits)
qed (auto simp: batch_add_def split: option.splits)

lemma batch_bounds:
  "hc_inv c \<Longrightarrow> len (hc_entries (foldl batch_add c es)) \<le> len (hc_entries c) + len es \<and>
     hc_currentMem (foldl batch_add c es) \<le> hc_currentMem c + sum_list (map entry_size es)"
proof (induction es arbitrary: c)
  case (Cons e es)
  then show ?case using Cons.IH [OF hc_inv_batch_add [OF Cons.prems, of e]] batch_add_bounds [OF Cons.prems, of e] by auto
qed simp

lemma BatchSet_bounds:
  assumes "hc_inv c"
  shows "hc_Len (BatchSet sha es c) \<le> max (hc_maxSize c) (len es) \<and>
    MemoryUsage (BatchSet sha es c) \<le> max (hc_maxMemory c) (sum_list (map entry_size (map (with_hash sha) es)))"
proof -
  let ?es = "map (with_hash sha) es"
  define d where "d = evict_while (over_limits (len ?es) (sum_list (map entry_size ?es))) c"
  have inv: "hc_inv d" unfolding d_def by (rule hc_inv_evict_while [OF assms])
  have "\<not> over_limits (len ?es) (sum_list (map entry_size ?es)) d \<or> hc_lru d = []"
    unfolding d_def by (rule evict_while_stops)
  moreover have "hc_lru d = [] \<Longrightarrow> hc_currentMem d = 0 \<and> len (hc_entries d) = 0"
    using mem_of_lru [OF inv] hc_inv_len [OF inv] by (simp add: mem_of_def)
  moreover have "hc_maxSize d = hc_maxSize c" "hc_maxMemory d = hc_maxMemory c" by (simp_all add: d_def)
  moreover have "BatchSet sha es c = foldl batch_add d ?es" by (simp add: BatchSet_def Let_def d_def)
  ultimately show ?thesis using batch_bounds [OF inv, of ?es]
    by (auto simp: hc_Len_def MemoryUsage_def over_limits_def)
qed

lemma batch_exceeds_limit: "hc_Len (BatchSet (\<lambda>x. x) (map demo_entry [''a'', ''b'', ''c'']) (NewHashCache 2 1000)) = 3"
  by code_simp

text \<open>A computed entry is stored under its own hash, which need not be the one that was asked for.\<close>

lemma get_or_compute_stores_elsewhere:
  assumes "hc_inv c" "al_get (hc_entries c) k = None" "ce_Hash (with_hash sha e) \<noteq> k"
  shows "al_get (hc_entries (snd (GetOrCompute sha now k (Inr e) c))) k = None"
proof -
  have "hc_Get now k c = (None, c\<lparr>hc_misses := hc_misses c + 1\<rparr>)" using assms(2) by (simp add: hc_Get_def)
  then have s: "snd (GetOrCompute sha now k (Inr e) c) = hc_Set sha e (c\<lparr>hc_misses := hc_misses c + 1\<rparr>)"
    by (simp add: GetOrCompute_def)
  have "hc_inv (c\<lparr>hc_misses := hc_misses c + 1\<rparr>)" by (rule hc_inv_same [OF assms(1)]) simp_all
  then show ?thesis using hc_Set_lookup_other [of "c\<lparr>hc_misses := hc_misses c + 1\<rparr>" k sha e] assms(2,3)
    unfolding s by (cases "al_get (hc_entries (hc_Set sha e (c\<lparr>hc_misses := hc_misses c + 1\<rparr>))) k") auto
qed

end
