(* ===== verification/Regex_Find.thy ===== *)
theory Regex_Find
  imports Regex_Match
begin

text \<open>
  Regular expressions whose submatches are read: \<^verbatim>\<open>FindString\<close>, \<^verbatim>\<open>FindStringSubmatch\<close>
  and the removal of a match, for patterns anchored at the start of the text. Here it matters which of
  several matches is chosen, and Go chooses the one a backtracking search finds first: the first
  alternative before the second, one more iteration before none. \<open>runs\<close> lists the matches in that order,
  and \<open>runs_iff\<close> says that it lists exactly the matches there are. Expressions work on bytes, as in
  \<open>Regex_Match\<close>.
\<close>

datatype rx = XEps | XCls "char \<Rightarrow> bool" | XSeq rx rx | XAlt rx rx | XStar rx | XCap nat rx | XEnd

text \<open>The text matched, the text after it, and the groups in the order they were entered.\<close>

type_synonym run = "string \<times> string \<times> (nat \<times> string) list"

definition run_then :: "run \<Rightarrow> run list \<Rightarrow> run list" where
  "run_then = (\<lambda>(u, t, cs) rs. map (\<lambda>(v, w, ds). (u @ v, w, cs @ ds)) rs)"

text \<open>The fuel is the length of the text; an iteration that matches nothing is not taken.\<close>

primrec star_runs :: "(string \<Rightarrow> run list) \<Rightarrow> nat \<Rightarrow> string \<Rightarrow> run list" where
  "star_runs f 0 s = [([], s, [])]"
| "star_runs f (Suc n) s =
     concat (map (\<lambda>m. if fst m = [] then [] else run_then m (star_runs f n (fst (snd m)))) (f s)) @ [([], s, [])]"

primrec runs :: "rx \<Rightarrow> string \<Rightarrow> run list" where
  "runs XEps = (\<lambda>s. [([], s, [])])"
| "runs (XCls P) = (\<lambda>s. case s of [] \<Rightarrow> [] | c # t \<Rightarrow> if P c then [([c], t, [])] else [])"
| "runs (XSeq a b) = (\<lambda>s. concat (map (\<lambda>m. run_then m (runs b (fst (snd m)))) (runs a s)))"
| "runs (XAlt a b) = (\<lambda>s. runs a s @ runs b s)"
| "runs (XStar a) = (\<lambda>s. star_runs (runs a) (length s) s)"
| "runs (XCap n a) = (\<lambda>s. map (\<lambda>(u, t, cs). (u, t, (n, u) # cs)) (runs a s))"
| "runs XEnd = (\<lambda>s. if s = [] then [([], [], [])] else [])"

definition find_run :: "rx \<Rightarrow> string \<Rightarrow> run option" where
  "find_run r s = (case runs r s of [] \<Rightarrow> None | m # _ \<Rightarrow> Some m)"

definition rx_matches :: "rx \<Rightarrow> string \<Rightarrow> bool" where
  "rx_matches r s \<longleftrightarrow> runs r s \<noteq> []"

text \<open>A group that took no part is empty; of an iterated group the last iteration counts.\<close>

definition group_of :: "nat \<Rightarrow> (nat \<times> string) list \<Rightarrow> string" where
  "group_of n cs = (case map_of (rev cs) n of None \<Rightarrow> [] | Some u \<Rightarrow> u)"

section \<open>The matches there are\<close>

inductive rx_match :: "rx \<Rightarrow> string \<Rightarrow> string \<Rightarrow> bool" where
  m_eps: "rx_match XEps [] t"
| m_cls: "P c \<Longrightarrow> rx_match (XCls P) [c] t"
| m_seq: "rx_match a u (v @ t) \<Longrightarrow> rx_match b v t \<Longrightarrow> rx_match (XSeq a b) (u @ v) t"
| m_left: "rx_match a u t \<Longrightarrow> rx_match (XAlt a b) u t"
| m_right: "rx_match b u t \<Longrightarrow> rx_match (XAlt a b) u t"
| m_stop: "rx_match (XStar a) [] t"
| m_more: "rx_match a u (v @ t) \<Longrightarrow> rx_match (XStar a) v t \<Longrightarrow> rx_match (XStar a) (u @ v) t"
| m_cap: "rx_match a u t \<Longrightarrow> rx_match (XCap n a) u t"
| m_end: "rx_match XEnd [] []"

inductive_cases rx_match_elims:
  "rx_match XEps u t" "rx_match (XCls P) u t" "rx_match (XSeq a b) u t" "rx_match (XAlt a b) u t"
  "rx_match (XCap n a) u t" "rx_match XEnd u t"

text \<open>The spans of a list of runs.\<close>

definition spans :: "run list \<Rightarrow> (string \<times> string) set" where
  "spans rs = (\<lambda>m. (fst m, fst (snd m))) ` set rs"

lemma spans_simps [simp]:
  "spans [] = {}" "spans ((u, t, cs) # rs) = insert (u, t) (spans rs)" "spans (rs @ rs') = spans rs \<union> spans rs'"
  by (auto simp: spans_def image_Un)

lemma spans_then: "(x, w) \<in> spans (run_then (u, t, cs) rs) \<longleftrightarrow> (\<exists>v. x = u @ v \<and> (v, w) \<in> spans rs)"
  by (force simp: spans_def run_then_def image_iff)

lemma spans_bind:
  "(x, w) \<in> spans (concat (map (\<lambda>m. run_then m (f (fst (snd m)))) rs)) \<longleftrightarrow>
    (\<exists>u v t. (u, t) \<in> spans rs \<and> (v, w) \<in> spans (f t) \<and> x = u @ v)"
proof (induction rs)
  case (Cons m rs)
  then show ?case by (cases m) (auto simp: spans_then)
qed (simp add: spans_def)

lemma star_match_nonempty:
  "rx_match r x t \<Longrightarrow> r = XStar a \<Longrightarrow> x = [] \<or> (\<exists>u v. x = u @ v \<and> u \<noteq> [] \<and> rx_match a u (v @ t) \<and> rx_match (XStar a) v t)"
proof (induction rule: rx_match.induct)
  case (m_more b u v t)
  then show ?case by (cases "u = []") auto
qed auto

lemma spans_star:
  assumes a: "\<And>s u t. (u, t) \<in> spans (f s) \<longleftrightarrow> s = u @ t \<and> rx_match a u t"
  shows "length s \<le> n \<Longrightarrow> (u, t) \<in> spans (star_runs f n s) \<longleftrightarrow> s = u @ t \<and> rx_match (XStar a) u t"
proof (induction n arbitrary: s u t)
  case 0
  then show ?case using star_match_nonempty [of "XStar a" u t a] by (auto intro: m_stop)
next
  case (Suc n)
  have 1: "(u, t) \<in> spans (concat (map (\<lambda>m. if fst m = [] then [] else run_then m (star_runs f n (fst (snd m)))) rs)) \<longleftrightarrow>
      (\<exists>p v w. (p, w) \<in> spans rs \<and> p \<noteq> [] \<and> (v, t) \<in> spans (star_runs f n w) \<and> u = p @ v)" for rs
  proof (induction rs)
    case (Cons m rs)
    then show ?case by (cases m) (auto simp: spans_then)
  qed simp
  have "(\<exists>p v w. (p, w) \<in> spans (f s) \<and> p \<noteq> [] \<and> (v, t) \<in> spans (star_runs f n w) \<and> u = p @ v) \<longleftrightarrow>
      (\<exists>p v. s = p @ v @ t \<and> p \<noteq> [] \<and> rx_match a p (v @ t) \<and> rx_match (XStar a) v t \<and> u = p @ v)"
  proof -
    have "(v, t) \<in> spans (star_runs f n w) \<longleftrightarrow> w = v @ t \<and> rx_match (XStar a) v t"
      if "s = p @ w" "p \<noteq> []" for p v w
      by (rule Suc.IH) (use Suc.prems that in \<open>cases p; auto\<close>)
    then show ?thesis by (auto simp: a) blast+
  qed
  then show ?case using star_match_nonempty [of "XStar a" u t a]
    by (auto simp: 1 intro: m_stop m_more)
qed

theorem runs_iff: "(u, t) \<in> spans (runs r s) \<longleftrightarrow> s = u @ t \<and> rx_match r u t"
proof (induction r arbitrary: s u t)
  case (XSeq a b)
  then show ?case by (auto simp: spans_bind intro: m_seq elim!: rx_match_elims) blast
next
  case (XStar a)
  then show ?case using spans_star [of "runs a" a s "length s"] by simp
next
  case (XCap n a)
  have "spans (map (\<lambda>(u, t, cs). (u, t, (n, u) # cs)) rs) = spans rs" for rs
    by (force simp: spans_def image_iff)
  then show ?case using XCap by (auto elim: rx_match_elims intro: m_cap)
qed (auto split: list.splits elim: rx_match_elims intro: rx_match.intros)

lemma rx_matches_iff: "rx_matches r s \<longleftrightarrow> (\<exists>u t. s = u @ t \<and> rx_match r u t)"
proof -
  have "rx_matches r s \<longleftrightarrow> (\<exists>u t. (u, t) \<in> spans (runs r s))"
    by (cases "runs r s") (auto simp: rx_matches_def spans_def)
  then show ?thesis by (simp add: runs_iff)
qed

lemma find_run_text: "find_run r s = Some (u, t, cs) \<Longrightarrow> s = u @ t"
proof -
  assume "find_run r s = Some (u, t, cs)"
  then have "(u, t) \<in> spans (runs r s)" by (auto simp: find_run_def split: list.splits)
  then show ?thesis by (simp add: runs_iff)
qed

section \<open>Building blocks\<close>

primrec xlit :: "string \<Rightarrow> rx" where
  "xlit [] = XEps"
| "xlit (c # s) = XSeq (XCls (\<lambda>d. d = c)) (xlit s)"

definition xplus :: "rx \<Rightarrow> rx" where "xplus r = XSeq r (XStar r)"
definition xopt :: "rx \<Rightarrow> rx" where "xopt r = XAlt r XEps"
definition xsp :: rx where "xsp = xplus (XCls space_char)"
definition xsp_end :: rx where "xsp_end = XAlt (XCls space_char) XEnd"

primrec xseq :: "rx list \<Rightarrow> rx" where
  "xseq [] = XEps"
| "xseq (r # rs) = XSeq r (xseq rs)"

fun xany :: "rx list \<Rightarrow> rx" where
  "xany [r] = r"
| "xany (r # rs) = XAlt r (xany rs)"
| "xany [] = XEnd"

lemma runs_xlit [simp]: "runs (xlit p) s = (if has_prefix s p then [(p, drop (length p) s, [])] else [])"
  by (induction p arbitrary: s) (auto simp: run_then_def split: list.splits)

declare xlit.simps [simp del]

lemma runs_star_cls:
  "runs (XStar (XCls P)) s =
    map (\<lambda>k. (take k s, drop k s, [])) (rev [0..<Suc (length (takeWhile P s))])"
proof (induction s)
  case (Cons c s)
  then show ?case
    by (auto simp: run_then_def comp_def simp flip: rev_map simp del: upt_Suc simp: upt_rec [of 0] map_Suc_upt [symmetric])
qed simp

section \<open>The first match\<close>

lemma find_eps [simp]: "find_run XEps s = Some ([], s, [])"
  by (simp add: find_run_def)

lemma find_alt: "find_run (XAlt a b) s = (case find_run a s of None \<Rightarrow> find_run b s | Some m \<Rightarrow> Some m)"
  by (auto simp: find_run_def split: list.splits)

lemma find_None: "find_run r s = None \<longleftrightarrow> runs r s = []"
  by (simp add: find_run_def split: list.splits)

lemma run_then_Nil [simp]: "run_then m rs = [] \<longleftrightarrow> rs = []"
  by (cases m) (simp add: run_then_def)

lemma run_then_Cons: "run_then (u, t, cs) ((v, w, ds) # rs) = (u @ v, w, cs @ ds) # run_then (u, t, cs) rs"
  by (simp add: run_then_def)

text \<open>When the first match of the first part can be continued, it is the one that is chosen.\<close>

lemma find_seq:
  "find_run a s = Some (u, t, cs) \<Longrightarrow> find_run b t = Some (v, w, ds) \<Longrightarrow> find_run (XSeq a b) s = Some (u @ v, w, cs @ ds)"
  by (auto simp: find_run_def run_then_Cons split: list.splits)

lemma find_seq_None: "find_run a s = None \<Longrightarrow> find_run (XSeq a b) s = None"
  by (auto simp: find_run_def split: list.splits)

text \<open>A literal, and a run of characters that the next part cannot begin with: no choice.\<close>

lemma runs_xlit_seq:
  "runs (XSeq (xlit p) b) s = (if has_prefix s p then run_then (p, drop (length p) s, []) (runs b (drop (length p) s)) else [])"
  by simp

lemma concat_last_only: "(\<And>x. x \<in> set xs \<Longrightarrow> f x = []) \<Longrightarrow> concat (map f (y # xs)) = f y"
  by (induction xs) auto

lemma runs_star_commit:
  assumes "\<And>c t. P c \<Longrightarrow> runs b (c # t) = []"
  shows "runs (XSeq (XStar (XCls P)) b) s = run_then (takeWhile P s, dropWhile P s, []) (runs b (dropWhile P s))"
proof -
  let ?n = "length (takeWhile P s)"
  have "runs b (drop k s) = []" if "k < ?n" for k
  proof -
    have "drop k s = s ! k # drop (Suc k) s"
      using that length_takeWhile_le [of P s] by (intro Cons_nth_drop_Suc [symmetric]) simp
    moreover have "P (s ! k)" using that by (metis nth_mem set_takeWhileD takeWhile_nth)
    ultimately show ?thesis using assms by metis
  qed
  then have "runs (XSeq (XStar (XCls P)) b) s = run_then (take ?n s, drop ?n s, []) (runs b (drop ?n s))"
    unfolding runs.simps(3) runs_star_cls
    by (simp add: comp_def del: upt_Suc) (simp add: concat_last_only)
  then show ?thesis by (simp add: takeWhile_eq_take [symmetric] dropWhile_eq_drop [symmetric])
qed

lemma find_star_cls [simp]: "find_run (XStar (XCls P)) s = Some (takeWhile P s, dropWhile P s, [])"
  unfolding find_run_def runs_star_cls by (simp add: takeWhile_eq_take [symmetric] dropWhile_eq_drop [symmetric])

text \<open>One character of a class, then as many as there are.\<close>

lemma find_plus_cls:
  "find_run (xplus (XCls P)) s =
    (if takeWhile P s = [] then None else Some (takeWhile P s, dropWhile P s, []))"
proof (cases s)
  case (Cons c t)
  show ?thesis
  proof (cases "P c")
    case True
    then have "find_run (XCls P) s = Some ([c], t, [])" using Cons by (simp add: find_run_def)
    from find_seq [OF this find_star_cls] show ?thesis using True Cons by (simp add: xplus_def)
  next
    case False
    then have "find_run (XCls P) s = None" using Cons by (simp add: find_run_def)
    then show ?thesis using False Cons by (simp add: xplus_def find_seq_None)
  qed
qed (simp add: xplus_def find_run_def)

text \<open>More fuel than the text is long changes nothing.\<close>

lemma runs_shorter: "m \<in> set (runs r s) \<Longrightarrow> s = fst m @ fst (snd m)"
proof -
  assume "m \<in> set (runs r s)"
  then have "(fst m, fst (snd m)) \<in> spans (runs r s)" by (auto simp: spans_def)
  then show ?thesis by (simp add: runs_iff)
qed

lemma star_runs_Nil: "star_runs (runs a) n [] = [([], [], [])]"
proof (cases n)
  case (Suc k)
  have "fst r = []" if "r \<in> set (runs a [])" for r using runs_shorter [OF that] by simp
  then have "concat (map (\<lambda>r. if fst r = [] then [] else run_then r (f r)) (runs a [])) = []" for f
    by (auto simp: concat_eq_Nil_conv)
  then show ?thesis using Suc by simp
qed simp

lemma star_runs_fuel:
  "length s \<le> n \<Longrightarrow> length s \<le> m \<Longrightarrow> star_runs (runs a) n s = star_runs (runs a) m s"
proof (induction n arbitrary: m s)
  case 0
  then show ?case by (simp add: star_runs_Nil)
next
  case (Suc n)
  show ?case
  proof (cases m)
    case 0
    then show ?thesis using Suc.prems by (simp add: star_runs_Nil del: star_runs.simps)
  next
    case (Suc k)
    have "(if fst r = [] then [] else run_then r (star_runs (runs a) n (fst (snd r)))) =
        (if fst r = [] then [] else run_then r (star_runs (runs a) k (fst (snd r))))"
      if "r \<in> set (runs a s)" for r
    proof (cases "fst r = []")
      case False
      have "length s = length (fst r) + length (fst (snd r))" using runs_shorter [OF that] by (metis length_append)
      then have "length (fst (snd r)) < length s" using False by simp
      then show ?thesis using Suc.IH [of "fst (snd r)" k] Suc.prems \<open>m = Suc k\<close> by simp
    qed simp
    then show ?thesis using Suc by (simp cong: map_cong)
  qed
qed

text \<open>The first match of an iteration takes the first match of its body and goes on.\<close>

lemma find_star_None: "find_run a s = None \<Longrightarrow> find_run (XStar a) s = Some ([], s, [])"
  by (cases s) (auto simp: find_run_def split: list.splits)

lemma find_star_Some:
  assumes "find_run a s = Some (u, t, cs)" "u \<noteq> []" "find_run (XStar a) t = Some (v, w, ds)"
  shows "find_run (XStar a) s = Some (u @ v, w, cs @ ds)"
proof -
  obtain rs where rs: "runs a s = (u, t, cs) # rs" using assms(1) by (auto simp: find_run_def split: list.splits)
  then have "s = u @ t" using runs_shorter [of "(u, t, cs)" a s] by simp
  then obtain n where n: "length s = Suc n" "length t \<le> n" using assms(2) by (cases u) auto
  have "star_runs (runs a) n t = runs (XStar a) t" using star_runs_fuel [OF n(2) order_refl] by simp
  moreover obtain rs' where "runs (XStar a) t = (v, w, ds) # rs'"
    using assms(3) by (auto simp: find_run_def split: list.splits)
  ultimately show ?thesis using rs n(1) assms(2) by (simp add: find_run_def run_then_Cons)
qed

end
