(* ===== verification/Discover.thy ===== *)
theory Discover
  imports Regex_Find Toml_Rules
begin

text \<open>
  Command rewriting (\<^verbatim>\<open>internal/discover/registry.go\<close>): the hook that an agent calls before it runs a shell
  command asks whether the command has an equivalent under tokman and what it is.

  The tables of patterns and rules are those of the code, patterns as expressions of \<open>Regex_Find\<close>.
  \<open>RewriteCommand\<close> scans a command line for the shell operators outside quotes and rewrites the segments
  between them; \<open>rewriteSegment\<close> rewrites one. Positions are the code's indices into the bytes.
\<close>

datatype TokmanStatus = StatusExisting | StatusPassthrough | StatusNew

record TokmanRule =
  tr_TokManCmd :: string
  tr_RewritePrefixes :: "string list"
  tr_Category :: string
  tr_SavingsPct :: int
  tr_SubcmdSavings :: "(string \<times> int) list"
  tr_SubcmdStatus :: "(string \<times> TokmanStatus) list"

record Classification =
  cl_Supported :: bool
  cl_TokManCmd :: string
  cl_Category :: string
  cl_SavingsPct :: int
  cl_Status :: TokmanStatus
  cl_BaseCommand :: string

definition noClassification :: Classification where
  "noClassification = \<lparr>cl_Supported = False, cl_TokManCmd = [], cl_Category = [], cl_SavingsPct = 0,
     cl_Status = StatusExisting, cl_BaseCommand = []\<rparr>"

section \<open>The tables\<close>

text \<open>Percentages are whole numbers in the table.\<close>

definition patterns :: "rx list" where
  "patterns =
    [xseq [xlit ''git'', xsp, XCap 1 (xany [xlit ''status'', xlit ''log'', xlit ''diff'', xlit ''show'', xlit ''add'', xlit ''commit'', xlit ''push'', xlit ''pull'', xlit ''branch'', xlit ''fetch'', xlit ''stash'', xlit ''worktree''])],
     xseq [xlit ''gh'', xsp, XCap 1 (xany [xlit ''pr'', xlit ''issue'', xlit ''run'', xlit ''repo'', xlit ''api'', xlit ''release''])],
     xseq [xlit ''cargo'', xsp, XCap 1 (xany [xlit ''build'', xlit ''test'', xlit ''clippy'', xlit ''check'', xlit ''fmt'', xlit ''install''])],
     xseq [xlit ''pnpm'', xsp, XCap 1 (xany [xlit ''list'', xlit ''ls'', xlit ''outdated'', xlit ''install''])],
     xseq [xlit ''npm'', xsp, XCap 1 (xany [xlit ''run'', xlit ''exec''])],
     xseq [xlit ''npx'', xsp],
     xseq [XCap 1 (xany [xlit ''cat'', xlit ''head'', xlit ''tail'']), xsp],
     xseq [XCap 1 (xany [xlit ''rg'', xlit ''grep'']), xsp],
     xseq [xlit ''ls'', XCap 1 xsp_end],
     xseq [xlit ''find'', xsp],
     xseq [xopt (XCap 1 (xany [xseq [xlit ''npx'', xsp], xseq [xlit ''pnpm'', xsp]])), xlit ''tsc'', XCap 2 xsp_end],
     xseq [xopt (XCap 1 (xany [xseq [xlit ''npx'', xsp], xseq [xlit ''pnpm'', xsp]])), XCap 2 (xany [xlit ''eslint'', xlit ''biome'', xlit ''lint'']), XCap 3 xsp_end],
     xseq [xopt (XCap 1 (xany [xseq [xlit ''npx'', xsp], xseq [xlit ''pnpm'', xsp]])), xlit ''prettier''],
     xseq [xopt (XCap 1 (xany [xseq [xlit ''npx'', xsp], xseq [xlit ''pnpm'', xsp]])), xlit ''next'', xsp, xlit ''build''],
     xseq [xopt (XCap 1 (xany [xseq [xlit ''pnpm'', xsp], xseq [xlit ''npx'', xsp]])), XCap 2 (xany [xlit ''vitest'', xlit ''jest'', xlit ''test'']), XCap 3 xsp_end],
     xseq [xopt (XCap 1 (xany [xseq [xlit ''npx'', xsp], xseq [xlit ''pnpm'', xsp]])), xlit ''playwright''],
     xseq [xopt (XCap 1 (xany [xseq [xlit ''npx'', xsp], xseq [xlit ''pnpm'', xsp]])), xlit ''prisma''],
     xseq [xlit ''docker'', xsp, XCap 1 (xany [xlit ''ps'', xlit ''images'', xlit ''logs'', xlit ''run'', xlit ''exec'', xlit ''build'', xseq [xlit ''compose'', xsp, XCap 2 (xany [xlit ''ps'', xlit ''logs'', xlit ''build''])]])],
     xseq [xlit ''kubectl'', xsp, XCap 1 (xany [xlit ''get'', xlit ''logs'', xlit ''describe'', xlit ''apply''])],
     xseq [xlit ''tree'', XCap 1 xsp_end],
     xseq [xlit ''diff'', xsp],
     xseq [xlit ''curl'', xsp],
     xseq [xlit ''wget'', xsp],
     xseq [xopt (XCap 1 (xseq [xlit ''python'', xopt (xlit ''3''), xsp, xlit ''-m'', xsp])), xlit ''mypy'', XCap 2 xsp_end],
     xseq [xlit ''ruff'', xsp, XCap 1 (xany [xlit ''check'', xlit ''format''])],
     xseq [xopt (XCap 1 (xseq [xlit ''python'', xsp, xlit ''-m'', xsp])), xlit ''pytest'', XCap 2 xsp_end],
     xseq [XCap 1 (xany [xseq [xlit ''pip'', xopt (xlit ''3'')], xseq [xlit ''uv'', xsp, xlit ''pip'']]), xsp, XCap 2 (xany [xlit ''list'', xlit ''outdated'', xlit ''install''])],
     xseq [xlit ''go'', xsp, XCap 1 (xany [xlit ''test'', xlit ''build'', xlit ''vet''])],
     xseq [xlit ''golangci-lint'', XCap 1 xsp_end],
     xseq [xlit ''aws'', xsp],
     xseq [xlit ''psql'', XCap 1 xsp_end]]"

abbreviation (input) rule :: "string \<Rightarrow> string list \<Rightarrow> string \<Rightarrow> int \<Rightarrow> (string \<times> int) list \<Rightarrow>
    (string \<times> TokmanStatus) list \<Rightarrow> TokmanRule" where
  "rule cmd pres category savings subcmds statuses \<equiv>
     \<lparr>tr_TokManCmd = cmd, tr_RewritePrefixes = pres, tr_Category = category, tr_SavingsPct = savings,
      tr_SubcmdSavings = subcmds, tr_SubcmdStatus = statuses\<rparr>"

definition rules :: "TokmanRule list" where
  "rules =
    [rule ''tokman git'' [''git''] ''Git'' 70
       [(''diff'', 80), (''show'', 80), (''add'', 59), (''commit'', 59)] [],
     rule ''tokman gh'' [''gh''] ''GitHub'' 82
       [(''pr'', 87), (''run'', 82), (''issue'', 80)] [],
     rule ''tokman cargo'' [''cargo''] ''Cargo'' 80
       [(''test'', 90), (''check'', 80)] [(''fmt'', StatusPassthrough)],
     rule ''tokman pnpm'' [''pnpm''] ''PackageManager'' 80
       [] [],
     rule ''tokman npm'' [''npm''] ''PackageManager'' 70
       [] [],
     rule ''tokman npx'' [''npx''] ''PackageManager'' 70
       [] [],
     rule ''tokman read'' [''cat'', ''head'', ''tail''] ''Files'' 60
       [] [],
     rule ''tokman grep'' [''rg'', ''grep''] ''Files'' 75
       [] [],
     rule ''tokman ls'' [''ls''] ''Files'' 65
       [] [],
     rule ''tokman find'' [''find''] ''Files'' 70
       [] [],
     rule ''tokman tsc'' [''pnpm tsc'', ''npx tsc'', ''tsc''] ''Build'' 83
       [] [],
     rule ''tokman lint'' [''npx eslint'', ''pnpm lint'', ''npx biome'', ''eslint'', ''biome'', ''lint''] ''Build'' 84
       [] [],
     rule ''tokman prettier'' [''npx prettier'', ''pnpm prettier'', ''prettier''] ''Build'' 70
       [] [],
     rule ''tokman next'' [''npx next build'', ''pnpm next build'', ''next build''] ''Build'' 87
       [] [],
     rule ''tokman vitest'' [''pnpm vitest'', ''npx vitest'', ''vitest'', ''jest''] ''Tests'' 99
       [] [],
     rule ''tokman playwright'' [''npx playwright'', ''pnpm playwright'', ''playwright''] ''Tests'' 94
       [] [],
     rule ''tokman prisma'' [''npx prisma'', ''pnpm prisma'', ''prisma''] ''Build'' 88
       [] [],
     rule ''tokman docker'' [''docker''] ''Infra'' 85
       [] [],
     rule ''tokman kubectl'' [''kubectl''] ''Infra'' 85
       [] [],
     rule ''tokman tree'' [''tree''] ''Files'' 70
       [] [],
     rule ''tokman diff'' [''diff''] ''Files'' 60
       [] [],
     rule ''tokman curl'' [''curl''] ''Network'' 70
       [] [],
     rule ''tokman wget'' [''wget''] ''Network'' 65
       [] [],
     rule ''tokman mypy'' [''python3 -m mypy'', ''python -m mypy'', ''mypy''] ''Build'' 80
       [] [],
     rule ''tokman ruff'' [''ruff''] ''Python'' 80
       [(''check'', 80), (''format'', 75)] [],
     rule ''tokman pytest'' [''python -m pytest'', ''pytest''] ''Python'' 90
       [] [],
     rule ''tokman pip'' [''pip3'', ''pip'', ''uv pip''] ''Python'' 75
       [(''list'', 75), (''outdated'', 80)] [],
     rule ''tokman go'' [''go''] ''Go'' 85
       [(''test'', 90), (''build'', 80), (''vet'', 75)] [],
     rule ''tokman golangci-lint'' [''golangci-lint'', ''golangci''] ''Go'' 85
       [] [],
     rule ''tokman aws'' [''aws''] ''Infra'' 80
       [] [],
     rule ''tokman psql'' [''psql''] ''Infra'' 75
       [] []]"

definition ignoredPrefixes :: "string list" where
  "ignoredPrefixes =
    [''cd '', ''cd'' @ [CHR 0x09], ''echo '', ''printf '', ''export '', ''source '', ''mkdir '', ''rm '',
     ''mv '', ''cp '', ''chmod '', ''chown '', ''touch '', ''which '', ''type '', ''command '', ''test '',
     ''true'', ''false'', ''sleep '', ''wait'', ''kill '', ''set '', ''unset '', ''wc '', ''sort '',
     ''uniq '', ''tr '', ''cut '', ''awk '', ''sed '', ''python3 -c'', ''python -c'', ''node -e'',
     ''ruby -e'', ''tokman '', ''pwd'', ''bash '', ''sh '', ''then'' @ [nl], ''then '', ''else'' @ [nl],
     ''else '', ''do'' @ [nl], ''do '', ''for '', ''while '', ''if '', ''case '']"

definition ignoredExact :: "string list" where
  "ignoredExact = [''cd'', ''echo'', ''true'', ''false'', ''wait'', ''pwd'', ''bash'', ''sh'', ''fi'', ''done'']"

definition upper_char :: "char \<Rightarrow> bool" where
  "upper_char c \<longleftrightarrow> (let n = (of_char c :: nat) in 65 \<le> n \<and> n \<le> 90 \<or> n = 95)"

definition upper_digit :: "char \<Rightarrow> bool" where
  "upper_digit c \<longleftrightarrow> upper_char c \<or> is_digit c"

definition envAssignment :: rx where
  "envAssignment = xseq [XCls upper_char, XStar (XCls upper_digit), xlit ''='', XStar (XCls (\<lambda>c. \<not> space_char c)), xsp]"

definition envPrefixRegex :: rx where
  "envPrefixRegex = xplus (xany [XSeq (xlit ''sudo'') xsp, XSeq (xlit ''env'') xsp, envAssignment])"

definition digits :: rx where "digits = XCap 1 (xplus (XCls is_digit))"
definition rest_of_line :: rx where "rest_of_line = XSeq (XCap 2 (xplus (XCls (\<lambda>c. c \<noteq> nl)))) XEnd"

definition headNumericRe :: rx where
  "headNumericRe = xseq [xlit ''head'', xsp, xlit ''-'', digits, xsp, rest_of_line]"
definition headLinesRe :: rx where
  "headLinesRe = xseq [xlit ''head'', xsp, xlit ''--lines='', digits, xsp, rest_of_line]"
definition tailNumericRe :: rx where
  "tailNumericRe = xseq [xlit ''tail'', xsp, xlit ''-'', digits, xsp, rest_of_line]"
definition tailNRe :: rx where
  "tailNRe = xseq [xlit ''tail'', xsp, xlit ''-n'', xsp, digits, xsp, rest_of_line]"
definition tailLinesRe :: rx where
  "tailLinesRe = xseq [xlit ''tail'', xsp, xlit ''--lines='', digits, xsp, rest_of_line]"

definition path_char :: "char \<Rightarrow> bool" where
  "path_char c \<longleftrightarrow> word_char c \<or> c = CHR ''.'' \<or> c = CHR ''-''"

definition absolutePathRegex :: rx where
  "absolutePathRegex = xseq [xplus (XCap 1 (XSeq (xlit ''/'') (xplus (XCls path_char)))), xlit ''/'',
     XCap 2 (xplus (XCls path_char)), XCap 3 xsp_end]"

section \<open>Classification\<close>

definition envPrefix_of :: "string \<Rightarrow> string" where
  "envPrefix_of s = (case find_run envPrefixRegex s of None \<Rightarrow> [] | Some (u, _) \<Rightarrow> u)"

definition extractBaseCommand :: "string \<Rightarrow> string" where
  "extractBaseCommand cmd =
     (case str_fields cmd of
        [] \<Rightarrow> []
      | [p] \<Rightarrow> p
      | p # q # _ \<Rightarrow>
          (if \<not> has_prefix q ''-'' \<and> \<not> contains q ''/'' \<and> \<not> contains q ''.'' then p @ '' '' @ q else p))"

text \<open>The last pattern that matches.\<close>

definition last_match :: "string \<Rightarrow> nat option" where
  "last_match cmdClean =
     foldl (\<lambda>last i. if rx_matches (patterns ! i) cmdClean then Some i else last) None [0..<length patterns]"

primrec has_groups :: "rx \<Rightarrow> bool" where
  "has_groups XEps = False"
| "has_groups (XCls P) = False"
| "has_groups (XSeq a b) = (has_groups a \<or> has_groups b)"
| "has_groups (XAlt a b) = (has_groups a \<or> has_groups b)"
| "has_groups (XStar a) = has_groups a"
| "has_groups (XCap n a) = True"
| "has_groups XEnd = False"

definition classify_rule :: "nat \<Rightarrow> string \<Rightarrow> Classification" where
  "classify_rule i cmdClean =
     (let rl = rules ! i;
          subcmd = (case find_run (patterns ! i) cmdClean of Some (_, _, cs) \<Rightarrow> group_of 1 cs | None \<Rightarrow> []);
          savings = (if has_groups (patterns ! i) then case al_get (tr_SubcmdSavings rl) subcmd of Some s \<Rightarrow> s | None \<Rightarrow> tr_SavingsPct rl
                     else tr_SavingsPct rl);
          status = (if has_groups (patterns ! i) then case al_get (tr_SubcmdStatus rl) subcmd of Some st \<Rightarrow> st | None \<Rightarrow> StatusExisting
                    else StatusExisting)
      in \<lparr>cl_Supported = True, cl_TokManCmd = tr_TokManCmd rl, cl_Category = tr_Category rl, cl_SavingsPct = savings,
          cl_Status = status, cl_BaseCommand = []\<rparr>)"

definition ClassifyCommand :: "string \<Rightarrow> Classification" where
  "ClassifyCommand cmd =
     (let trimmed = trimSpace cmd
      in if trimmed = [] then noClassification
      else if trimmed \<in> set ignoredExact then noClassification
      else if list_ex (has_prefix trimmed) ignoredPrefixes then noClassification
      else let cmdClean = trimSpace (drop (length (envPrefix_of trimmed)) trimmed)
      in if cmdClean = [] then noClassification
      else if has_prefix cmdClean ''tokman '' \<or> cmdClean = ''tokman'' then noClassification
      else case last_match cmdClean of
             Some i \<Rightarrow> classify_rule i cmdClean
           | None \<Rightarrow> noClassification\<lparr>cl_BaseCommand := extractBaseCommand cmdClean\<rparr>)"

section \<open>One segment\<close>

definition numeric_match :: "rx \<Rightarrow> string \<Rightarrow> (string \<times> string) option" where
  "numeric_match r cmdClean = (case find_run r cmdClean of None \<Rightarrow> None | Some (_, _, cs) \<Rightarrow> Some (group_of 1 cs, group_of 2 cs))"

definition rewriteHeadNumeric :: "string \<Rightarrow> string \<Rightarrow> string option" where
  "rewriteHeadNumeric envPrefix cmdClean =
     (case numeric_match headNumericRe cmdClean of
        Some (n, file) \<Rightarrow> Some (envPrefix @ ''tokman read '' @ file @ '' --max-lines '' @ n)
      | None \<Rightarrow>
          (case numeric_match headLinesRe cmdClean of
             Some (n, file) \<Rightarrow> Some (envPrefix @ ''tokman read '' @ file @ '' --max-lines '' @ n)
           | None \<Rightarrow> if has_prefix cmdClean ''head -'' then None else None))"

definition rewriteTailNumeric :: "string \<Rightarrow> string \<Rightarrow> string option" where
  "rewriteTailNumeric envPrefix cmdClean =
     (case numeric_match tailNumericRe cmdClean of
        Some (n, file) \<Rightarrow> Some (envPrefix @ ''tokman read '' @ file @ '' --tail-lines '' @ n)
      | None \<Rightarrow>
          (case numeric_match tailNRe cmdClean of
             Some (n, file) \<Rightarrow> Some (envPrefix @ ''tokman read '' @ file @ '' --tail-lines '' @ n)
           | None \<Rightarrow>
               (case numeric_match tailLinesRe cmdClean of
                  Some (n, file) \<Rightarrow> Some (envPrefix @ ''tokman read '' @ file @ '' --tail-lines '' @ n)
                | None \<Rightarrow> if has_prefix cmdClean ''tail -'' then None else None)))"

definition gitGlobalOpts :: "string list" where
  "gitGlobalOpts = [''-C'', ''-c'', ''--git-dir'', ''--work-tree'', ''--no-pager'', ''--no-optional-locks'', ''--bare'',
     ''--literal-pathspecs'']"

fun drop_global_opts :: "string list \<Rightarrow> string list" where
  "drop_global_opts [] = []"
| "drop_global_opts (part # parts) =
     (if part \<in> set gitGlobalOpts
      then if (part = ''-C'' \<or> part = ''-c'') \<and> parts \<noteq> [] then drop_global_opts (tl parts) else drop_global_opts parts
      else part # drop_global_opts parts)"

definition stripGitGlobalOpts :: "string \<Rightarrow> string" where
  "stripGitGlobalOpts cmdClean =
     (if \<not> has_prefix cmdClean ''git '' then cmdClean
      else let parts = str_fields cmdClean
           in if length parts \<le> 2 then cmdClean else join '' '' (hd parts # drop_global_opts (tl parts)))"

definition stripAbsolutePath :: "string \<Rightarrow> string" where
  "stripAbsolutePath cmdClean =
     (case find_run absolutePathRegex cmdClean of
        None \<Rightarrow> cmdClean
      | Some (_, _, cs) \<Rightarrow>
          (let binary = group_of 2 cs;
               firstSpace = length (takeWhile (\<lambda>c. c \<noteq> CHR '' '') cmdClean)
           in if firstSpace < length cmdClean \<and> 0 < firstSpace then binary @ drop firstSpace cmdClean else binary))"

definition stripWordPrefix :: "string \<Rightarrow> string \<Rightarrow> string option" where
  "stripWordPrefix cmd p =
     (if cmd = p then Some []
      else if length cmd > length p \<and> has_prefix cmd p \<and> cmd ! length p = CHR '' ''
           then Some (trimSpace (drop (length p + 1) cmd)) else None)"

definition rule_named :: "string \<Rightarrow> TokmanRule option" where
  "rule_named cmd = find (\<lambda>r. tr_TokManCmd r = cmd) rules"

definition rewrite_prefix :: "string \<Rightarrow> TokmanRule \<Rightarrow> string \<Rightarrow> string option" where
  "rewrite_prefix envPrefix rl cmdClean =
     map_option (\<lambda>rst. envPrefix @ tr_TokManCmd rl @ (if rst \<noteq> [] then '' '' @ rst else []))
       (case List.map_filter (stripWordPrefix cmdClean) (tr_RewritePrefixes rl) of [] \<Rightarrow> None | rst # _ \<Rightarrow> Some rst)"

definition rewriteSegment :: "string \<Rightarrow> string list \<Rightarrow> string \<times> bool" where
  "rewriteSegment seg excluded =
     (let trimmed = trimSpace seg
      in if trimmed = [] then (seg, False)
      else if has_prefix trimmed ''tokman '' \<or> trimmed = ''tokman'' then (trimmed, False)
      else let envPrefix = envPrefix_of trimmed;
               cmdClean = trimSpace (trimPrefix trimmed envPrefix)
      in if contains envPrefix ''TOKMAN_DISABLED='' then (seg, False)
      else let cmdClean = stripAbsolutePath (stripGitGlobalOpts cmdClean)
      in case rewriteHeadNumeric envPrefix cmdClean of
           Some rewritten \<Rightarrow> (rewritten, True)
         | None \<Rightarrow>
      (case rewriteTailNumeric envPrefix cmdClean of
           Some rewritten \<Rightarrow> (rewritten, True)
         | None \<Rightarrow>
      (let cls = ClassifyCommand trimmed
       in if \<not> cl_Supported cls then (seg, False)
       else if (case str_fields cmdClean of [] \<Rightarrow> False | b # _ \<Rightarrow> b \<in> set excluded) then (seg, False)
       else case rule_named (cl_TokManCmd cls) of
              None \<Rightarrow> (seg, False)
            | Some rl \<Rightarrow>
                (if tr_TokManCmd rl = ''tokman gh'' \<and>
                    (let argsLower = toLower cmdClean
                     in contains argsLower ''--json'' \<or> contains argsLower ''--jq'' \<or> contains argsLower ''--template'')
                 then (seg, False)
                 else case rewrite_prefix envPrefix rl cmdClean of
                        Some rewritten \<Rightarrow> (rewritten, True)
                      | None \<Rightarrow> (seg, False)))))"

section \<open>A command line\<close>

definition pipedCommands :: "string list" where
  "pipedCommands = [''find'', ''fd'', ''locate'']"

definition slice :: "string \<Rightarrow> nat \<Rightarrow> nat \<Rightarrow> string" where
  "slice s i j = take (j - i) (drop i s)"

definition isInPipe :: "string \<Rightarrow> nat \<Rightarrow> nat \<Rightarrow> bool" where
  "isInPipe fullCmd segStart pipePos =
     (case str_fields (trimSpace (slice fullCmd segStart pipePos)) of [] \<Rightarrow> False | p # _ \<Rightarrow> p \<in> set pipedCommands)"

definition skip_spaces :: "string \<Rightarrow> nat \<Rightarrow> nat" where
  "skip_spaces cmd i = i + length (takeWhile (\<lambda>c. c = CHR '' '') (drop i cmd))"

text \<open>
  The scan: the index, where the segment starts, whether the index is inside single or double quotes, what was
  written and whether a segment changed. The index after an operator is where the next segment
  starts, and the loop then increments it once more.
\<close>

function compound_loop ::
  "string list \<Rightarrow> string \<Rightarrow> nat \<Rightarrow> nat \<Rightarrow> bool \<Rightarrow> bool \<Rightarrow> string \<Rightarrow> bool \<Rightarrow> string \<times> bool" where
  "compound_loop ex cmd i segStart inSingle inDouble b anyChanged =
     (if i \<ge> length cmd
      then let (rewritten, changed) = rewriteSegment (trimSpace (drop segStart cmd)) ex
           in (b @ rewritten, anyChanged \<or> changed)
      else
      let c = cmd ! i;
          after = (if i + 1 < length cmd then Some (cmd ! (i + 1)) else None);
          outside = (\<not> inSingle \<and> \<not> inDouble);
          seg = trimSpace (slice cmd segStart i);
          (rewritten, changed) = rewriteSegment seg ex
      in if c = CHR 0x27 \<and> \<not> inDouble then compound_loop ex cmd (i + 1) segStart (\<not> inSingle) inDouble b anyChanged
      else if c = CHR 0x22 \<and> \<not> inSingle then compound_loop ex cmd (i + 1) segStart inSingle (\<not> inDouble) b anyChanged
      else if c = CHR ''|'' \<and> outside
           then if after = Some (CHR ''|'')
                then let j = skip_spaces cmd (i + 2)
                     in compound_loop ex cmd (j + 1) j inSingle inDouble (b @ rewritten @ '' || '') (anyChanged \<or> changed)
                else if isInPipe cmd segStart i then (b @ seg @ '' '' @ trimSpace (drop i cmd), anyChanged)
                else (b @ rewritten @ '' '' @ trimSpace (drop i cmd), anyChanged \<or> changed)
      else if c = CHR ''&'' \<and> outside \<and> after = Some (CHR ''&'')
           then let j = skip_spaces cmd (i + 2)
                in compound_loop ex cmd (j + 1) j inSingle inDouble (b @ rewritten @ '' && '') (anyChanged \<or> changed)
      else if c = CHR ''&'' \<and> outside
           then if \<not> (0 < i \<and> cmd ! (i - 1) = CHR ''>'' \<or> after = Some (CHR ''>''))
                then let j = skip_spaces cmd (i + 1)
                     in compound_loop ex cmd (j + 1) j inSingle inDouble (b @ rewritten @ '' & '') (anyChanged \<or> changed)
                else compound_loop ex cmd (i + 1) segStart inSingle inDouble b anyChanged
      else if c = CHR '';'' \<and> outside
           then compound_loop ex cmd (i + 2) (i + 1) inSingle inDouble
                  (b @ rewritten @ '';'' @ (if after = Some (CHR '' '') then '' '' else [])) (anyChanged \<or> changed)
      else compound_loop ex cmd (i + 1) segStart inSingle inDouble b anyChanged)"
  by pat_completeness auto
termination
  by (relation "measure (\<lambda>(ex, cmd, i, _). length cmd - i)") (auto simp: skip_spaces_def)

declare compound_loop.simps [simp del]

definition rewriteCompound :: "string \<Rightarrow> string list \<Rightarrow> string \<times> bool" where
  "rewriteCompound cmd excluded = compound_loop excluded cmd 0 0 False False [] False"

definition RewriteCommand :: "string \<Rightarrow> string list \<Rightarrow> string \<times> bool" where
  "RewriteCommand cmd excluded =
     (let trimmed = trimSpace cmd
      in if trimmed = [] then ([], False)
      else if contains trimmed ''<<'' \<or> contains trimmed ''$(('' then ([], False)
      else let hasCompound = (contains trimmed ''&&'' \<or> contains trimmed ''||'' \<or> contains trimmed '';'' \<or>
                              contains trimmed ''|'' \<or> contains trimmed '' & '')
      in if \<not> hasCompound \<and> (has_prefix trimmed ''tokman '' \<or> trimmed = ''tokman'') then (trimmed, False)
      else rewriteCompound trimmed excluded)"

definition Rewrite :: "string \<Rightarrow> string" where
  "Rewrite command = (let rewritten = fst (RewriteCommand command []) in if rewritten = [] then command else rewritten)"

definition ShouldRewrite :: "string \<Rightarrow> bool" where
  "ShouldRewrite command = snd (RewriteCommand command [])"

record CommandMapping =
  cmap_Original :: string
  cmap_TokManCmd :: string
  cmap_Enabled :: bool
  cmap_PassArgs :: bool

definition GetMapping :: "string \<Rightarrow> CommandMapping option" where
  "GetMapping command =
     (let cls = ClassifyCommand command
      in if cl_Supported cls
         then Some \<lparr>cmap_Original = command, cmap_TokManCmd = cl_TokManCmd cls, cmap_Enabled = True, cmap_PassArgs = True\<rparr>
         else None)"

definition ListRewrites :: "CommandMapping list" where
  "ListRewrites = map (\<lambda>r. \<lparr>cmap_Original = hd (tr_RewritePrefixes r), cmap_TokManCmd = tr_TokManCmd r,
     cmap_Enabled = True, cmap_PassArgs = True\<rparr>) rules"

end
