(* ===== verification/Discover_Correct.thy ===== *)
theory Discover_Correct
  imports Discover
begin

text \<open>
  What command rewriting does: how a command line is taken apart, where a rewritten command gets its
  \<^verbatim>\<open>tokman\<close>, that a rewritten command is not rewritten again, which arguments survive, and
  where the code changes the meaning of a command.
\<close>

section \<open>Trimming around solid characters\<close>

text \<open>A character that is part of no white space sequence stops trimming from both sides.\<close>

definition solid :: "char \<Rightarrow> bool" where
  "solid c \<longleftrightarrow> (\<forall>p \<in> set space_seqs. c \<notin> set p)"

lemma solid_ascii [simp]:
  "solid (CHR ''t'')" "solid (CHR ''n'')" "solid (CHR ''o'')" "solid (CHR ''g'')" "solid (CHR ''h'')" "solid (CHR ''c'')"
  "solid (CHR ''s'')" "solid (CHR ''e'')" "solid (CHR ''p'')" "solid (CHR ''/'')" "solid (CHR ''r'')"
  by (simp_all add: solid_def space_seqs_def)

lemma solid_not_space: "solid c \<Longrightarrow> c \<noteq> CHR '' ''" "solid c \<Longrightarrow> \<not> space_char c"
  by (auto simp: solid_def space_seqs_def space_char_def)

lemma strip_seqs_stops:
  assumes "\<And>p. p \<in> set ps \<Longrightarrow> c \<notin> set p" "strip_seqs ps (y @ c # x) = Some t"
  shows "\<exists>u y'. y = u @ y' \<and> t = y' @ c # x"
  using assms
proof (induction ps)
  case (Cons p ps)
  show ?case
  proof (cases "has_prefix (y @ c # x) p")
    case True
    then obtain w where w: "y @ c # x = p @ w" by (auto simp: has_prefix_iff)
    have "c \<notin> set p" using Cons.prems(1) by simp
    with w obtain y' where "y = p @ y'" by (auto simp: append_eq_append_conv2 Cons_eq_append_conv append_eq_Cons_conv)
    then show ?thesis using True Cons.prems(2) by (intro exI [of _ p] exI [of _ y']) simp
  next
    case False
    then show ?thesis using Cons by simp
  qed
qed simp

lemma trim_left_stops:
  assumes "\<And>p. p \<in> set ps \<Longrightarrow> c \<notin> set p"
  shows "\<exists>u y'. y = u @ y' \<and> trim_left_fuel ps n (y @ c # x) = y' @ c # x"
proof (induction n arbitrary: y)
  case (Suc n)
  show ?case
  proof (cases "strip_seqs ps (y @ c # x)")
    case (Some t)
    from strip_seqs_stops [OF assms Some] obtain u y' where 1: "y = u @ y'" "t = y' @ c # x" by blast
    then show ?thesis using Suc.IH [of y'] Some by auto
  qed auto
qed auto

lemma solid_seqs: "solid c \<Longrightarrow> p \<in> set space_seqs \<Longrightarrow> c \<notin> set p" "solid c \<Longrightarrow> p \<in> set (map rev space_seqs) \<Longrightarrow> c \<notin> set p"
  by (auto simp: solid_def)

lemma space_seqs_nonempty: "p \<in> set space_seqs \<Longrightarrow> p \<noteq> []"
  by (auto simp: space_seqs_def)

lemma trim_left_solid [simp]: "solid c \<Longrightarrow> trim_left space_seqs (c # x) = c # x"
proof -
  assume c: "solid c"
  obtain u y' where "[] = u @ y'" "trim_left_fuel space_seqs (length (c # x)) ([] @ c # x) = y' @ c # x"
    using trim_left_stops [of space_seqs c "[]", OF solid_seqs(1) [OF c]] by blast
  then show ?thesis by (simp add: trim_left_def del: trim_left_fuel.simps)
qed

text \<open>Nothing up to a solid character is trimmed from a text that begins with one.\<close>

lemma trimSpace_keeps:
  assumes "solid c" "solid d" "s = c # x \<or> s = []"
  shows "\<exists>y' v. y = y' @ v \<and> trimSpace (s @ d # y) = s @ d # y'"
proof -
  have l: "trim_left space_seqs (s @ d # y) = s @ d # y" using assms by auto
  obtain u y' where "rev y = u @ y'" "trim_left_fuel (map rev space_seqs) (length (rev (s @ d # y))) (rev y @ d # rev s) = y' @ d # rev s"
    using trim_left_stops [of "map rev space_seqs" d "rev y" _ "rev s", OF solid_seqs(2) [OF assms(2)]] by blast
  then show ?thesis unfolding trimSpace_def l by (intro exI [of _ "rev y'"] exI [of _ "rev u"]) (auto simp: trim_left_def rev_swap)
qed

text \<open>What is trimmed at the end of a text depends on what follows its last solid character only.\<close>

lemma strip_seqs_local:
  assumes "\<And>p. p \<in> set ps \<Longrightarrow> c \<notin> set p"
  shows "strip_seqs ps (y @ c # x) = map_option (\<lambda>t. t @ x) (strip_seqs ps (y @ [c]))"
  using assms
proof (induction ps)
  case (Cons p ps)
  have "has_prefix (y @ c # x) p \<longleftrightarrow> has_prefix (y @ [c]) p" and "has_prefix (y @ [c]) p \<Longrightarrow> length p \<le> length y"
    using Cons.prems [of p]
    by (auto simp: has_prefix_iff append_eq_append_conv2 Cons_eq_append_conv append_eq_Cons_conv)
  then show ?case using Cons by auto
qed simp

lemma trim_left_fuel_local:
  assumes "\<And>p. p \<in> set ps \<Longrightarrow> c \<notin> set p"
  shows "trim_left_fuel ps n (y @ c # x) = trim_left_fuel ps n (y @ [c]) @ x"
proof (induction n arbitrary: y)
  case (Suc n)
  show ?case
  proof (cases "strip_seqs ps (y @ [c])")
    case None
    then show ?thesis using strip_seqs_local [OF assms, where y = y and x = x] by simp
  next
    case (Some t)
    from strip_seqs_stops [OF assms Some] obtain y' where "t = y' @ [c]" by blast
    then show ?thesis using Suc.IH [of y'] strip_seqs_local [OF assms, where y = y and x = x] Some by simp
  qed
qed simp

lemma strip_seqs_shorter: "strip_seqs ps s = Some t \<Longrightarrow> (\<And>p. p \<in> set ps \<Longrightarrow> p \<noteq> []) \<Longrightarrow> length t < length s"
proof (induction ps)
  case (Cons p ps)
  then show ?case by (cases "has_prefix s p") (auto simp: has_prefix_iff)
qed simp

lemma trim_left_fuel_enough:
  assumes "\<And>p. p \<in> set ps \<Longrightarrow> p \<noteq> []"
  shows "length s \<le> n \<Longrightarrow> length s \<le> m \<Longrightarrow> trim_left_fuel ps n s = trim_left_fuel ps m s"
proof (induction n arbitrary: m s)
  case 0
  have "strip_seqs ps [] = None" using strip_seqs_shorter [OF _ assms, of ps "[]"] by (cases "strip_seqs ps []") auto
  then show ?case using 0 by (cases m) auto
next
  case (Suc n)
  show ?case
  proof (cases "strip_seqs ps s")
    case None
    then show ?thesis by (cases m) auto
  next
    case (Some t)
    then have "length t < length s" by (rule strip_seqs_shorter) (rule assms)
    then show ?thesis using Suc Some by (cases m) auto
  qed
qed

lemma trimSpace_append:
  assumes "solid c" "trimSpace s = s" "s \<noteq> []" "solid (hd s)"
  shows "trimSpace (c # x @ s) = c # x @ s"
proof -
  obtain d y where s: "s = d # y" "solid d" using assms by (cases s) auto
  let ?ps = "map rev space_seqs"
  have ne: "p \<noteq> []" if "p \<in> set ?ps" for p using that space_seqs_nonempty by auto
  have "trim_left_fuel ?ps (length (rev y @ d # (rev x @ [c]))) (rev y @ d # (rev x @ [c])) =
      trim_left_fuel ?ps (length (rev y @ d # (rev x @ [c]))) (rev y @ [d]) @ rev x @ [c]"
    by (rule trim_left_fuel_local) (rule solid_seqs(2) [OF s(2)])
  also have "trim_left_fuel ?ps (length (rev y @ d # (rev x @ [c]))) (rev y @ [d]) = trim_left_fuel ?ps (length (rev y @ [d])) (rev y @ [d])"
    by (rule trim_left_fuel_enough) (use ne in auto)
  also have "\<dots> = trim_left ?ps (rev y @ [d])" by (simp only: trim_left_def)
  also have "\<dots> = rev s" using assms(2) s by (simp add: trimSpace_def rev_swap)
  finally have "trim_left ?ps (rev y @ d # (rev x @ [c])) = rev s @ rev x @ [c]" by (simp only: trim_left_def)
  then show ?thesis using assms(1) s by (simp add: trimSpace_def)
qed

lemma trim_left_space:
  "trim_left space_seqs (CHR '' '' # s) = trim_left space_seqs s"
  "trim_left (map rev space_seqs) (CHR '' '' # s) = trim_left (map rev space_seqs) s"
  by (simp_all add: trim_left_def space_seqs_def)

lemma trimSpace_spaces:
  assumes "trimSpace s = s" "s \<noteq> []" "solid (hd s)"
  shows "trimSpace (s @ '' '') = s" "trimSpace ('' '' @ s) = s" "trimSpace ('' '' @ s @ '' '') = s"
proof -
  obtain c x where s: "s = c # x" "solid c" using assms by (cases s) auto
  have r: "rev (trim_left (map rev space_seqs) (rev s)) = s" using assms(1) s by (simp add: trimSpace_def)
  show "trimSpace (s @ '' '') = s" using r s by (simp add: trimSpace_def trim_left_space)
  then show "trimSpace ('' '' @ s @ '' '') = s" by (simp add: trimSpace_def trim_left_space)
  show "trimSpace ('' '' @ s) = s" using assms(1) by (simp add: trimSpace_def trim_left_space)
qed

section \<open>The environment prefix\<close>

definition spaces :: "string \<Rightarrow> bool" where
  "spaces w \<longleftrightarrow> w \<noteq> [] \<and> list_all space_char w"

definition env_piece :: "string \<Rightarrow> bool" where
  "env_piece u \<longleftrightarrow> (\<exists>w. spaces w \<and>
     (u = ''sudo'' @ w \<or> u = ''env'' @ w \<or>
      (\<exists>c n v. upper_char c \<and> list_all upper_digit n \<and> list_all (\<lambda>c. \<not> space_char c) v \<and> u = c # n @ ''='' @ v @ w)))"

definition no_space_first :: "string \<Rightarrow> bool" where
  "no_space_first t \<longleftrightarrow> t = [] \<or> \<not> space_char (hd t)"

definition env_body :: rx where
  "env_body = xany [XSeq (xlit ''sudo'') xsp, XSeq (xlit ''env'') xsp, envAssignment]"

lemma find_sp: "find_run xsp s = (if takeWhile space_char s = [] then None else Some (takeWhile space_char s, dropWhile space_char s, []))"
  unfolding xsp_def by (rule find_plus_cls)

lemma takeWhile_spaces: "spaces w \<Longrightarrow> no_space_first t \<Longrightarrow> takeWhile space_char (w @ t) = w \<and> dropWhile space_char (w @ t) = t"
  by (cases t) (auto simp: spaces_def no_space_first_def list_all_iff)

lemma find_sp_spaces: "spaces w \<Longrightarrow> no_space_first t \<Longrightarrow> find_run xsp (w @ t) = Some (w, t, [])"
  using takeWhile_spaces [of w t] by (auto simp: find_sp spaces_def)

lemma find_sp_elim: "find_run xsp s = Some (u, t, cs) \<Longrightarrow> s = u @ t \<and> spaces u \<and> no_space_first t \<and> cs = []"
  using hd_dropWhile [of space_char s]
  by (auto simp: find_sp spaces_def no_space_first_def list_all_iff split: if_splits dest: set_takeWhileD)

lemma find_lit_seq: "find_run (XSeq (xlit p) b) s =
    (if has_prefix s p then map_option (\<lambda>(v, w, ds). (p @ v, w, ds)) (find_run b (drop (length p) s)) else None)"
  by (auto simp: find_run_def run_then_def split: list.splits)

lemma find_commit:
  assumes "\<And>c t. P c \<Longrightarrow> runs b (c # t) = []"
  shows "find_run (XSeq (XStar (XCls P)) b) s =
    map_option (\<lambda>(v, w, ds). (takeWhile P s @ v, w, ds)) (find_run b (dropWhile P s))"
proof -
  have "runs (XSeq (XStar (XCls P)) b) s = run_then (takeWhile P s, dropWhile P s, []) (runs b (dropWhile P s))"
    by (rule runs_star_commit) (rule assms)
  then show ?thesis by (cases "runs b (dropWhile P s)") (auto simp: find_run_def run_then_def simp del: runs.simps)
qed

lemma find_cls_seq: "find_run (XSeq (XCls P) b) s =
    (case s of [] \<Rightarrow> None | c # t \<Rightarrow> if P c then map_option (\<lambda>(v, w, ds). (c # v, w, ds)) (find_run b t) else None)"
  by (auto simp: find_run_def run_then_def split: list.splits)

lemma find_seq_eps [simp]: "find_run (XSeq a XEps) s = find_run a s"
proof -
  have "runs (XSeq a XEps) s = runs a s" by (simp add: run_then_def comp_def split_beta)
  then show ?thesis by (simp add: find_run_def)
qed

lemma runs_sp_None: "\<not> space_char c \<Longrightarrow> runs (xseq [xsp]) (c # t) = []"
  using find_sp [of "c # t"] find_seq_eps [of xsp "c # t"] by (simp add: find_run_def split: list.splits del: runs.simps)

lemma upper_digit_neq: "upper_digit c \<Longrightarrow> c \<noteq> CHR ''=''"
  by (auto simp: upper_digit_def upper_char_def is_digit_def Let_def)

lemma find_assignment: "find_run envAssignment s =
   (case s of [] \<Rightarrow> None
    | c # t \<Rightarrow> if upper_char c \<and> has_prefix (dropWhile upper_digit t) ''=''
        then let r = tl (dropWhile upper_digit t); v = takeWhile (\<lambda>c. \<not> space_char c) r
             in map_option (\<lambda>(w, t', ds). (c # takeWhile upper_digit t @ ''='' @ v @ w, t', ds))
                  (find_run xsp (dropWhile (\<lambda>c. \<not> space_char c) r))
        else None)"
proof -
  have 1: "runs (xseq [xlit ''='', XStar (XCls (\<lambda>c. \<not> space_char c)), xsp]) (c # t) = []" if "upper_digit c" for c t
    using upper_digit_neq [OF that] by simp
  have 2: "find_run (xseq [XStar (XCls upper_digit), xlit ''='', XStar (XCls (\<lambda>c. \<not> space_char c)), xsp]) t =
      map_option (\<lambda>(v, w, ds). (takeWhile upper_digit t @ v, w, ds))
       (find_run (xseq [xlit ''='', XStar (XCls (\<lambda>c. \<not> space_char c)), xsp]) (dropWhile upper_digit t))" for t
    using find_commit [of upper_digit, OF 1] by simp
  have 3: "find_run (xseq [XStar (XCls (\<lambda>c. \<not> space_char c)), xsp]) r =
      map_option (\<lambda>(v, w, ds). (takeWhile (\<lambda>c. \<not> space_char c) r @ v, w, ds)) (find_run xsp (dropWhile (\<lambda>c. \<not> space_char c) r))" for r
    using find_commit [of "\<lambda>c. \<not> space_char c", OF runs_sp_None] by simp
  have 4: "find_run (xseq [xlit ''='', XStar (XCls (\<lambda>c. \<not> space_char c)), xsp]) r =
     (if has_prefix r ''='' then map_option (\<lambda>(v, w, ds). (''='' @ v, w, ds))
        (find_run (xseq [XStar (XCls (\<lambda>c. \<not> space_char c)), xsp]) (tl r)) else None)" for r
    using find_lit_seq [of "''=''"] by (simp add: drop_Suc)
  show ?thesis
    unfolding envAssignment_def xseq.simps(2) [of "XCls upper_char"] find_cls_seq 2 4 3
    by (auto simp: Let_def map_option_case split: list.splits option.splits)
qed

lemma upper_not_lower: "upper_char c \<Longrightarrow> c \<noteq> CHR ''s'' \<and> c \<noteq> CHR ''e'' \<and> c \<noteq> CHR ''t'' \<and> \<not> space_char c"
  by (auto simp: upper_char_def Let_def space_char_def)

lemma find_env_body: "find_run env_body s =
    (if has_prefix s ''sudo'' then map_option (\<lambda>(v, w, ds). (''sudo'' @ v, w, ds)) (find_run xsp (drop 4 s))
     else if has_prefix s ''env'' then map_option (\<lambda>(v, w, ds). (''env'' @ v, w, ds)) (find_run xsp (drop 3 s))
     else find_run envAssignment s)"
proof -
  have a: "find_run envAssignment s = None" if "has_prefix s ''sudo'' \<or> has_prefix s ''env''"
    using that by (cases s) (auto simp: find_assignment upper_char_def)
  have "\<not> has_prefix s ''env''" if "has_prefix s ''sudo''" using that by (cases s) auto
  then show ?thesis using a
    by (auto simp: env_body_def find_alt find_lit_seq eval_nat_numeral split: option.splits)
qed

text \<open>A match of the body is a piece and depends on the piece and on the character after it only.\<close>

lemma env_body_intro:
  assumes "env_piece u" "no_space_first t" shows "find_run env_body (u @ t) = Some (u, t, [])"
proof -
  obtain w where w: "spaces w" and u: "u = ''sudo'' @ w \<or> u = ''env'' @ w \<or>
      (\<exists>c n v. upper_char c \<and> list_all upper_digit n \<and> list_all (\<lambda>c. \<not> space_char c) v \<and> u = c # n @ ''='' @ v @ w)"
    using assms(1) by (auto simp: env_piece_def)
  note sp = find_sp_spaces [OF w assms(2)]
  consider "u = ''sudo'' @ w" | "u = ''env'' @ w"
    | c n v where "upper_char c" "list_all upper_digit n" "list_all (\<lambda>c. \<not> space_char c) v" "u = c # n @ ''='' @ v @ w"
    using u by blast
  then show ?thesis
  proof cases
    case 3
    have tn: "takeWhile upper_digit (n @ ''='' @ x) = n" "dropWhile upper_digit (n @ ''='' @ x) = ''='' @ x" for x
      using 3(2) upper_digit_neq [of "CHR ''=''"] by (auto simp: list_all_iff)
    have ws: "w \<noteq> [] \<and> space_char (hd w)" using w by (cases w) (auto simp: spaces_def)
    have tv: "takeWhile (\<lambda>c. \<not> space_char c) (v @ w @ t) = v" "dropWhile (\<lambda>c. \<not> space_char c) (v @ w @ t) = w @ t"
      using 3(3) ws by (cases w; auto simp: list_all_iff)+
    show ?thesis using 3(1,4) upper_not_lower [OF 3(1)] tn tv sp
      by (simp add: find_env_body find_assignment Let_def)
  qed (use sp in \<open>simp_all add: find_env_body\<close>)
qed

lemma env_body_elim:
  assumes "find_run env_body s = Some (u, t, cs)" shows "s = u @ t \<and> env_piece u \<and> no_space_first t \<and> cs = []"
proof -
  have st: "s = u @ t" by (rule find_run_text [OF assms])
  have "env_piece u \<and> no_space_first t \<and> cs = []"
  proof (cases "has_prefix s ''sudo'' \<or> has_prefix s ''env''")
    case True
    then show ?thesis using assms unfolding find_env_body
      by (auto simp: env_piece_def split: if_splits dest!: find_sp_elim)
  next
    case False
    then obtain c r w where *: "s = c # r" "upper_char c" "find_run xsp (dropWhile (\<lambda>c. \<not> space_char c) (tl (dropWhile upper_digit r))) = Some (w, t, cs)"
      "u = c # takeWhile upper_digit r @ ''='' @ takeWhile (\<lambda>c. \<not> space_char c) (tl (dropWhile upper_digit r)) @ w"
      using assms unfolding find_env_body find_assignment by (auto simp: Let_def split: list.splits if_splits)
    have "list_all upper_digit (takeWhile upper_digit r)"
      "list_all (\<lambda>c. \<not> space_char c) (takeWhile (\<lambda>c. \<not> space_char c) (tl (dropWhile upper_digit r)))"
      by (auto simp: list_all_iff dest: set_takeWhileD)
    then show ?thesis using * find_sp_elim [OF *(3)] unfolding env_piece_def by blast
  qed
  with st show ?thesis by blast
qed

lemma env_piece_nonempty: "env_piece u \<Longrightarrow> u \<noteq> [] \<and> no_space_first (u @ t)"
  using upper_not_lower by (auto simp: env_piece_def no_space_first_def space_char_def)

lemma no_space_pieces:
  "list_all env_piece us \<Longrightarrow> no_space_first y \<Longrightarrow> no_space_first (concat us @ y)"
proof (induction us)
  case (Cons u us)
  then show ?case using env_piece_nonempty [of u "concat us @ y"] by simp
qed simp

lemma envPrefixRegex_alt: "envPrefixRegex = XSeq env_body (XStar env_body)"
  by (simp only: envPrefixRegex_def env_body_def xplus_def)

text \<open>The prefix is a sequence of pieces, and the rest begins with none.\<close>

lemma find_pieces:
  "list_all env_piece us \<Longrightarrow> find_run env_body y = None \<Longrightarrow> no_space_first y \<Longrightarrow>
    find_run (XStar env_body) (concat us @ y) = Some (concat us, y, [])"
proof (induction us)
  case (Cons u us)
  have "no_space_first (concat us @ y)"
    using Cons.prems by (intro no_space_pieces) auto
  then have "find_run env_body (u @ concat us @ y) = Some (u, concat us @ y, [])"
    using Cons.prems by (intro env_body_intro) auto
  from find_star_Some [OF this _ Cons.IH] show ?case using Cons.prems env_piece_nonempty by auto
qed (simp add: find_star_None)

lemma pieces_find:
  "\<exists>us y. find_run (XStar env_body) s = Some (concat us, y, []) \<and> s = concat us @ y \<and> list_all env_piece us \<and>
     find_run env_body y = None \<and> (us \<noteq> [] \<longrightarrow> no_space_first y)"
proof (induction "length s" arbitrary: s rule: less_induct)
  case less
  show ?case
  proof (cases "find_run env_body s")
    case None
    then show ?thesis by (intro exI [of _ "[]"] exI [of _ s]) (simp add: find_star_None)
  next
    case (Some m)
    obtain u t cs where m: "m = (u, t, cs)" by (cases m)
    have u: "s = u @ t" "env_piece u" "no_space_first t" "cs = []" using env_body_elim Some m by blast+
    then have ne: "u \<noteq> []" using env_piece_nonempty by blast
    then have "length t < length s" using u by simp
    from less [OF this] obtain us y where us: "find_run (XStar env_body) t = Some (concat us, y, [])" "t = concat us @ y"
      "list_all env_piece us" "find_run env_body y = None" "us \<noteq> [] \<longrightarrow> no_space_first y" by blast
    have "find_run (XStar env_body) s = Some (u @ concat us, y, [])"
      using find_star_Some [of env_body s u t "[]"] Some m u ne us by simp
    then show ?thesis using us u by (intro exI [of _ "u # us"] exI [of _ y]) (cases us; auto)
  qed
qed

lemma find_envPrefix: "find_run envPrefixRegex s =
    (case find_run env_body s of None \<Rightarrow> None | Some _ \<Rightarrow> find_run (XStar env_body) s)"
proof (cases "find_run env_body s")
  case None
  then show ?thesis by (simp add: envPrefixRegex_alt find_seq_None)
next
  case (Some m)
  obtain u t cs where m: "m = (u, t, cs)" by (cases m)
  obtain v w ds where vw: "find_run (XStar env_body) t = Some (v, w, ds)" using pieces_find [of t] by blast
  have ne: "u \<noteq> []" using env_body_elim Some m env_piece_nonempty by blast
  show ?thesis using find_seq [of env_body s u t cs "XStar env_body"] find_star_Some [of env_body s u t cs] Some m vw ne
    by (simp add: envPrefixRegex_alt)
qed

lemma envPrefix_pieces:
  obtains us y where "s = concat us @ y" "envPrefix_of s = concat us" "list_all env_piece us" "find_run env_body y = None"
    "us \<noteq> [] \<longrightarrow> no_space_first y"
proof -
  obtain us y where us: "find_run (XStar env_body) s = Some (concat us, y, [])" "s = concat us @ y" "list_all env_piece us"
    "find_run env_body y = None" "us \<noteq> [] \<longrightarrow> no_space_first y" using pieces_find by blast
  have "envPrefix_of s = concat us"
  proof (cases "find_run env_body s")
    case None
    have "us = []"
    proof (cases us)
      case (Cons u us')
      have "no_space_first (concat us' @ y)"
        using us Cons by (intro no_space_pieces) auto
      then have "find_run env_body s \<noteq> None" using us Cons env_body_intro [of u "concat us' @ y"] by auto
      with None show ?thesis by blast
    qed
    with None us show ?thesis by (simp add: envPrefix_of_def find_envPrefix)
  qed (simp add: envPrefix_of_def find_envPrefix us(1))
  then show ?thesis using that us by blast
qed

lemma envPrefix_of_self:
  assumes "list_all env_piece us" "find_run env_body y = None" "us \<noteq> [] \<longrightarrow> no_space_first y"
  shows "envPrefix_of (concat us @ y) = concat us"
proof (cases us)
  case Nil
  then show ?thesis using assms by (simp add: envPrefix_of_def find_envPrefix)
next
  case (Cons u us')
  have "no_space_first (concat us' @ y)"
    using assms Cons by (intro no_space_pieces) auto
  then have 1: "find_run env_body (concat us @ y) \<noteq> None" using assms Cons env_body_intro [of u "concat us' @ y"] by auto
  have "find_run (XStar env_body) (concat us @ y) = Some (concat us, y, [])"
    using assms Cons by (intro find_pieces) auto
  with 1 show ?thesis by (auto simp: envPrefix_of_def find_envPrefix)
qed

lemma envPrefix_of_tokman:
  assumes "envPrefix_of s = u" shows "envPrefix_of (u @ ''tokman '' @ x) = u"
proof -
  obtain us y where us: "s = concat us @ y" "envPrefix_of s = concat us" "list_all env_piece us"
    by (rule envPrefix_pieces)
  have "find_run env_body (''tokman '' @ x) = None"
    by (simp add: find_env_body find_assignment upper_char_def)
  moreover have "no_space_first (''tokman '' @ x)" by (simp add: no_space_first_def space_char_def)
  ultimately show ?thesis using envPrefix_of_self [of us "''tokman '' @ x"] us assms by simp
qed

lemma envPrefix_text: "\<exists>y. s = envPrefix_of s @ y"
  by (rule envPrefix_pieces [of s]) auto

section \<open>A rewritten segment\<close>

lemma solid_upper [simp]: "upper_char c \<Longrightarrow> solid c"
  by (auto simp: solid_def space_seqs_def upper_char_def Let_def)

lemma solid_pieces: "list_all env_piece us \<Longrightarrow> us \<noteq> [] \<Longrightarrow> solid (hd (concat us)) \<and> concat us \<noteq> []"
  by (cases us) (auto simp: env_piece_def)

lemma envPrefix_solid: "envPrefix_of s = [] \<or> (\<exists>c x. envPrefix_of s = c # x \<and> solid c)"
proof (rule envPrefix_pieces [of s])
  fix us y assume "envPrefix_of s = concat us" "list_all env_piece us"
  then show ?thesis using solid_pieces [of us] by (cases us; cases "concat us") auto
qed

lemma rules_tokman: "rl \<in> set rules \<Longrightarrow> \<exists>d y. tr_TokManCmd rl = ''tokman '' @ d # y \<and> solid d"
  by (auto simp: rules_def solid_def space_seqs_def)

lemma rule_named_in: "rule_named cmd = Some rl \<Longrightarrow> rl \<in> set rules \<and> tr_TokManCmd rl = cmd"
  by (auto simp: rule_named_def find_Some_iff)

text \<open>Every rewriting puts a tokman command right after the environment prefix.\<close>

lemma head_tail_form:
  "rewriteHeadNumeric env c = Some r \<or> rewriteTailNumeric env c = Some r \<Longrightarrow> \<exists>y. r = env @ ''tokman '' @ CHR ''r'' # y"
  by (auto simp: rewriteHeadNumeric_def rewriteTailNumeric_def split: option.splits)

lemma rewriteSegment_form:
  assumes "rewriteSegment seg ex = (r, True)"
  shows "\<exists>d y. r = envPrefix_of (trimSpace seg) @ ''tokman '' @ d # y \<and> solid d \<and>
    \<not> contains (envPrefix_of (trimSpace seg)) ''TOKMAN_DISABLED=''"
proof -
  have prefix_form: "\<exists>d y. r = env @ ''tokman '' @ d # y \<and> solid d"
    if "rewrite_prefix env rl c = Some r" "rule_named cmd = Some rl" for env rl c cmd
    using that rules_tokman [of rl] rule_named_in [of cmd rl] by (auto simp: rewrite_prefix_def)
  show ?thesis using assms unfolding rewriteSegment_def Let_def
    by (auto split: if_splits option.splits dest!: head_tail_form [OF disjI1] head_tail_form [OF disjI2] prefix_form)
qed

lemma trimSpace_tokman:
  assumes "env = [] \<or> (\<exists>c x. env = c # x \<and> solid c)" "solid d"
  shows "\<exists>y'. trimSpace (env @ ''tokman '' @ d # y) = env @ ''tokman '' @ d # y'"
proof -
  have "env @ ''tokman '' = (case env of [] \<Rightarrow> CHR ''t'' | c # _ \<Rightarrow> c) # tl (env @ ''tokman '')" by (cases env) auto
  moreover have "solid (case env of [] \<Rightarrow> CHR ''t'' | c # _ \<Rightarrow> c)" using assms(1) by (auto split: list.splits)
  ultimately show ?thesis using trimSpace_keeps [OF _ assms(2), where s = "env @ ''tokman ''" and y = y] by fastforce
qed

lemma not_absolute: "c \<noteq> CHR ''/'' \<Longrightarrow> stripAbsolutePath (c # s) = c # s"
  by (simp add: stripAbsolutePath_def absolutePathRegex_def xplus_def find_run_def)

lemma not_head_tail:
  "\<not> has_prefix s ''head'' \<Longrightarrow> rewriteHeadNumeric env s = None"
  "\<not> has_prefix s ''tail'' \<Longrightarrow> rewriteTailNumeric env s = None"
  by (auto simp: rewriteHeadNumeric_def rewriteTailNumeric_def numeric_match_def find_run_def headNumericRe_def
    headLinesRe_def tailNumericRe_def tailNRe_def tailLinesRe_def)

lemma trimPrefix_append [simp]: "trimPrefix (u @ y) u = y"
  by (auto simp: trimPrefix_def has_prefix_iff)

lemma classify_tokman:
  assumes "envPrefix_of s = env" "solid d" "t = env @ ''tokman '' @ d # y" "trimSpace t = t"
  shows "\<not> cl_Supported (ClassifyCommand t)"
proof -
  have e: "envPrefix_of t = env" using envPrefix_of_tokman [OF assms(1), of "d # y"] assms(3) by simp
  obtain y' where "trimSpace (''tokman '' @ d # y) = ''tokman '' @ d # y'"
    using trimSpace_tokman [of "[]" d y] assms(2) by auto
  then have "has_prefix (trimSpace (drop (length (envPrefix_of t)) t)) ''tokman ''" using e assms(3) by simp
  then show ?thesis using assms(4) by (simp add: ClassifyCommand_def Let_def noClassification_def)
qed

text \<open>
  C7: a command that was rewritten is not rewritten again: the hook can be run on its own output, and
  an environment prefix such as \<^verbatim>\<open>sudo\<close> or an assignment does not hide the tokman after it.
\<close>

theorem rewriteSegment_idempotent:
  assumes "rewriteSegment seg excluded = (r, True)"
  shows "\<not> snd (rewriteSegment r excluded')"
proof -
  let ?env = "envPrefix_of (trimSpace seg)"
  obtain d y where r: "r = ?env @ ''tokman '' @ d # y" "solid d" "\<not> contains ?env ''TOKMAN_DISABLED=''"
    using rewriteSegment_form [OF assms] by blast
  obtain y' where t: "trimSpace r = ?env @ ''tokman '' @ d # y'"
    using trimSpace_tokman [OF envPrefix_solid r(2)] r(1) by blast
  have e: "envPrefix_of (trimSpace r) = ?env" using envPrefix_of_tokman [OF refl, of _ "d # y'"] t by simp
  obtain y2 where c: "trimSpace (''tokman '' @ d # y') = ''tokman '' @ d # y2"
    using trimSpace_tokman [of "[]" d y'] r(2) by auto
  have cls: "\<not> cl_Supported (ClassifyCommand (trimSpace r))"
  proof -
    obtain y3 where t2: "trimSpace (trimSpace r) = ?env @ ''tokman '' @ d # y3"
      using trimSpace_tokman [OF envPrefix_solid r(2)] t by metis
    have e2: "envPrefix_of (trimSpace (trimSpace r)) = ?env" using envPrefix_of_tokman [OF refl, of _ "d # y3"] t2 by simp
    obtain y4 where "trimSpace (''tokman '' @ d # y3) = ''tokman '' @ d # y4"
      using trimSpace_tokman [of "[]" d y3] r(2) by auto
    then show ?thesis using e2 t2 by (simp add: ClassifyCommand_def Let_def noClassification_def)
  qed
  have s: "stripAbsolutePath (stripGitGlobalOpts (''tokman '' @ d # y2)) = ''tokman '' @ d # y2"
    by (simp add: stripGitGlobalOpts_def not_absolute)
  show ?thesis
    unfolding rewriteSegment_def Let_def e
    using cls r(3) s c by (simp add: t not_head_tail)
qed

lemma rewriteSegment_idempotent_witness:
  "rewriteSegment ''sudo git status'' [] = (''sudo tokman git status'', True) \<and>
   \<not> snd (rewriteSegment ''sudo tokman git status'' [])"
proof -
  have "rewriteSegment ''sudo git status'' [] = (''sudo tokman git status'', True)" by code_simp
  from this rewriteSegment_idempotent [OF this] show ?thesis by blast
qed

section \<open>Arguments\<close>

definition plain_command :: "string \<Rightarrow> bool" where
  "plain_command c \<longleftrightarrow> \<not> has_prefix c ''git '' \<and> \<not> has_prefix c ''/'' \<and> \<not> has_prefix c ''head'' \<and> \<not> has_prefix c ''tail''"

lemma stripWordPrefix_Some:
  assumes "stripWordPrefix c p = Some a"
  shows "c = p \<and> a = [] \<or> (\<exists>x. c = p @ '' '' @ x \<and> a = trimSpace x)"
proof (cases "c = p")
  case False
  then have *: "length p < length c" "has_prefix c p" "c ! length p = CHR '' ''" "a = trimSpace (drop (length p + 1) c)"
    using assms by (auto simp: stripWordPrefix_def split: if_splits)
  then obtain z where "c = p @ z" by (auto simp: has_prefix_iff)
  with * show ?thesis by (cases z) auto
qed (use assms in \<open>simp add: stripWordPrefix_def\<close>)

lemma map_filter_hd: "List.map_filter f xs = y # ys \<Longrightarrow> \<exists>x \<in> set xs. f x = Some y"
  by (induction xs) (auto simp: List.map_filter_def split: option.splits if_splits)

lemma rewrite_prefix_Some:
  assumes "rewrite_prefix env rl c = Some r"
  shows "\<exists>p \<in> set (tr_RewritePrefixes rl). \<exists>a. stripWordPrefix c p = Some a \<and>
    r = env @ tr_TokManCmd rl @ (if a \<noteq> [] then '' '' @ a else [])"
  using assms by (auto simp: rewrite_prefix_def split: list.splits dest!: map_filter_hd) blast+

lemma rewriteSegment_rule:
  assumes "rewriteSegment seg ex = (r, True)"
    and "env = envPrefix_of (trimSpace seg)"
    and "c = stripAbsolutePath (stripGitGlobalOpts (trimSpace (drop (length env) (trimSpace seg))))"
    and "rewriteHeadNumeric env c = None" "rewriteTailNumeric env c = None"
  shows "\<exists>rl \<in> set rules. tr_TokManCmd rl = cl_TokManCmd (ClassifyCommand (trimSpace seg)) \<and> rewrite_prefix env rl c = Some r \<and>
    (case str_fields c of [] \<Rightarrow> True | b # _ \<Rightarrow> b \<notin> set ex)"
proof -
  have "trimPrefix (trimSpace seg) env = drop (length env) (trimSpace seg)"
    using envPrefix_text [of "trimSpace seg"] assms(2) by (metis append_eq_conv_conj trimPrefix_append)
  then show ?thesis using assms unfolding rewriteSegment_def Let_def
    by (auto split: if_splits option.splits list.splits dest!: rule_named_in)
qed

text \<open>
  C8: a rewritten command keeps its arguments, byte for byte: what follows the command word (or words, as in
  \<^verbatim>\<open>npx tsc\<close>) is what followed it, up to white space at both ends, and so does the environment prefix. The
  commands this does not hold for are git, commands given by a path, and head and tail.
\<close>

theorem rewrite_keeps_arguments:
  assumes "rewriteSegment seg excluded = (r, True)"
    and "trimSpace seg = envPrefix_of (trimSpace seg) @ w @ c" "trimSpace (w @ c) = c" "plain_command c"
  shows "\<exists>rl \<in> set rules. \<exists>p \<in> set (tr_RewritePrefixes rl).
    c = p \<and> r = envPrefix_of (trimSpace seg) @ tr_TokManCmd rl \<or>
    (\<exists>args. c = p @ '' '' @ args \<and>
       r = envPrefix_of (trimSpace seg) @ tr_TokManCmd rl @ (if trimSpace args = [] then [] else '' '' @ trimSpace args))"
proof -
  have c: "trimSpace (drop (length (envPrefix_of (trimSpace seg))) (trimSpace seg)) = c"
    using assms(2,3) by (metis append_eq_conv_conj)
  have "stripAbsolutePath c = c"
    using assms(4) by (cases c) (auto simp: plain_command_def not_absolute stripAbsolutePath_def absolutePathRegex_def xplus_def find_run_def)
  moreover have "stripGitGlobalOpts c = c" using assms(4) by (simp add: plain_command_def stripGitGlobalOpts_def)
  ultimately have s: "stripAbsolutePath (stripGitGlobalOpts c) = c" by simp
  obtain rl where rl: "rl \<in> set rules" "rewrite_prefix (envPrefix_of (trimSpace seg)) rl c = Some r"
    using rewriteSegment_rule [OF assms(1) refl refl] assms(4) unfolding c s
    by (auto simp: plain_command_def not_head_tail)
  from rewrite_prefix_Some [OF rl(2)] obtain p a where p: "p \<in> set (tr_RewritePrefixes rl)" "stripWordPrefix c p = Some a"
    "r = envPrefix_of (trimSpace seg) @ tr_TokManCmd rl @ (if a \<noteq> [] then '' '' @ a else [])" by blast
  from stripWordPrefix_Some [OF p(2)] show ?thesis using rl(1) p(1,3) by (auto intro!: bexI [of _ rl] bexI [of _ p])
qed

lemma rewrite_keeps_arguments_witness:
  "\<exists>rl \<in> set rules. \<exists>p \<in> set (tr_RewritePrefixes rl).
    ''npx tsc --noEmit'' = p \<and> ''CI=1 tokman tsc --noEmit'' = ''CI=1 '' @ tr_TokManCmd rl \<or>
    (\<exists>args. ''npx tsc --noEmit'' = p @ '' '' @ args \<and>
       ''CI=1 tokman tsc --noEmit'' = ''CI=1 '' @ tr_TokManCmd rl @ (if trimSpace args = [] then [] else '' '' @ trimSpace args))"
proof -
  have e: "trimSpace ''CI=1 npx tsc --noEmit'' = ''CI=1 npx tsc --noEmit''"
    "envPrefix_of ''CI=1 npx tsc --noEmit'' = ''CI=1 ''" by code_simp+
  have r: "rewriteSegment ''CI=1 npx tsc --noEmit'' [] = (''CI=1 tokman tsc --noEmit'', True)" by code_simp
  have p: "trimSpace ([] @ ''npx tsc --noEmit'') = ''npx tsc --noEmit''" "plain_command ''npx tsc --noEmit''"
    by code_simp+
  have s: "trimSpace ''CI=1 npx tsc --noEmit'' = envPrefix_of (trimSpace ''CI=1 npx tsc --noEmit'') @ [] @ ''npx tsc --noEmit''"
    unfolding e by simp
  show ?thesis using rewrite_keeps_arguments [OF r s p] unfolding e .
qed

lemma last_match_mono:
  "foldl (\<lambda>last i. if P i then Some i else last) a [0..<n] = Some i \<Longrightarrow> a = Some i \<or> i < n \<and> P i"
  by (induction n arbitrary: i) (auto split: if_splits)

lemma last_match_Some: "last_match c = Some i \<Longrightarrow> i < length patterns \<and> rx_matches (patterns ! i) c"
  unfolding last_match_def by (drule last_match_mono) auto

lemmas match_simps = rx_matches_def xopt_def xsp_def xplus_def xsp_end_def space_char_def run_then_def

lemma git_pattern_only: "list_all (\<lambda>r. \<not> rx_matches r (''git '' @ x)) (tl patterns)"
  by (simp add: patterns_def match_simps)

lemma slash_no_pattern: "list_all (\<lambda>r. \<not> rx_matches r (CHR ''/'' # x)) patterns"
  by (simp add: patterns_def match_simps)

lemma classify_cases:
  "cl_Supported (ClassifyCommand cmd) \<Longrightarrow>
    \<exists>i. last_match (trimSpace (drop (length (envPrefix_of (trimSpace cmd))) (trimSpace cmd))) = Some i \<and>
      cl_TokManCmd (ClassifyCommand cmd) = tr_TokManCmd (rules ! i)"
  by (auto simp: ClassifyCommand_def noClassification_def classify_rule_def Let_def split: if_splits option.splits)

lemma envPrefix_none: "find_run env_body s = None \<Longrightarrow> envPrefix_of s = []"
  by (simp add: envPrefix_of_def find_envPrefix)

lemma classify_git:
  assumes "has_prefix s ''git ''" "trimSpace s = s" "cl_Supported (ClassifyCommand s)"
  shows "cl_TokManCmd (ClassifyCommand s) = ''tokman git''"
proof -
  obtain x where x: "s = ''git '' @ x" using assms(1) by (auto simp: has_prefix_iff)
  have "envPrefix_of s = []"
    by (rule envPrefix_none) (simp add: x find_env_body find_assignment upper_char_def)
  then obtain i where i: "last_match s = Some i" "cl_TokManCmd (ClassifyCommand s) = tr_TokManCmd (rules ! i)"
    using classify_cases [OF assms(3)] assms(2) by auto
  have "i = 0"
  proof (rule ccontr)
    assume "i \<noteq> 0"
    then have "i - 1 < length (tl patterns)" "tl patterns ! (i - 1) = patterns ! i"
      using last_match_Some [OF i(1)] by (auto simp: nth_tl)
    then have "patterns ! i \<in> set (tl patterns)" by (metis nth_mem)
    then show False using git_pattern_only [of x] last_match_Some [OF i(1)] x by (simp add: list_all_iff)
  qed
  then show ?thesis using i by (simp add: rules_def)
qed

text \<open>
  C9: of a git command of more than two words, the words that look like options before the subcommand
  are dropped wherever they stand, and with \<^verbatim>\<open>-C\<close> and \<^verbatim>\<open>-c\<close> the word after them; and the white space
  between words, inside quotes as well, becomes one space.
\<close>

theorem git_arguments_rewritten:
  assumes "rewriteSegment seg excluded = (r, True)" "trimSpace seg = ''git '' @ x"
    and "trimSpace (''git '' @ x) = ''git '' @ x" "str_fields (''git '' @ x) = ''git'' # v # w # ws"
    and "args = join '' '' (drop_global_opts (v # w # ws))" "drop_global_opts (v # w # ws) \<noteq> []"
  shows "r = ''tokman git'' @ (if trimSpace args = [] then [] else '' '' @ trimSpace args)"
proof -
  have e: "envPrefix_of (''git '' @ x) = []"
    by (rule envPrefix_none) (simp add: find_env_body find_assignment upper_char_def)
  have g: "stripGitGlobalOpts (''git '' @ x) = ''git '' @ args"
    using assms(4,6) unfolding stripGitGlobalOpts_def assms(5)
    by (simp add: has_prefix_iff join_Cons del: drop_global_opts.simps)
  have c: "stripAbsolutePath (stripGitGlobalOpts (trimSpace (drop (length (envPrefix_of (trimSpace seg))) (trimSpace seg)))) = ''git '' @ args"
    using assms(2,3) e g not_absolute [of "CHR ''g''"] by simp
  obtain rl where rl: "rl \<in> set rules" "tr_TokManCmd rl = cl_TokManCmd (ClassifyCommand (''git '' @ x))"
    "rewrite_prefix [] rl (''git '' @ args) = Some r"
    using rewriteSegment_rule [OF assms(1) refl c [symmetric]] e unfolding assms(2)
    by (auto simp: not_head_tail)
  have "cl_Supported (ClassifyCommand (''git '' @ x))"
  proof (rule ccontr)
    assume n: "\<not> cl_Supported (ClassifyCommand (''git '' @ x))"
    then have "cl_TokManCmd (ClassifyCommand (''git '' @ x)) = []"
      by (auto simp: ClassifyCommand_def noClassification_def classify_rule_def Let_def split: if_splits option.splits)
    then show False using rules_tokman [OF rl(1)] rl(2) by auto
  qed
  then have "tr_TokManCmd rl = ''tokman git''" using classify_git [OF _ assms(3)] rl(2) by simp
  then have "rl = rules ! 0" using rl(1) by (auto simp: rules_def)
  then show ?thesis using rl(3)
    by (auto simp: rewrite_prefix_def rules_def stripWordPrefix_def List.map_filter_def split: if_splits)
qed

lemma git_arguments_rewritten_witness:
  "rewriteSegment ''git commit -C HEAD~1 -m x'' [] = (''tokman git commit -m x'', True) \<and>
   ''tokman git commit -m x'' = ''tokman git'' @ (if trimSpace ''commit -m x'' = [] then [] else '' '' @ trimSpace ''commit -m x'')"
proof -
  have r: "rewriteSegment ''git commit -C HEAD~1 -m x'' [] = (''tokman git commit -m x'', True)" by code_simp
  have t: "trimSpace ''git commit -C HEAD~1 -m x'' = ''git '' @ ''commit -C HEAD~1 -m x''" by code_simp
  have t2: "trimSpace (''git '' @ ''commit -C HEAD~1 -m x'') = ''git '' @ ''commit -C HEAD~1 -m x''" by code_simp
  have f: "str_fields (''git '' @ ''commit -C HEAD~1 -m x'') = ''git'' # ''commit'' # ''-C'' # [''HEAD~1'', ''-m'', ''x'']" by code_simp
  have d: "''commit -m x'' = join '' '' (drop_global_opts (''commit'' # ''-C'' # [''HEAD~1'', ''-m'', ''x'']))" by code_simp
  have n: "drop_global_opts (''commit'' # ''-C'' # [''HEAD~1'', ''-m'', ''x'']) \<noteq> []" by code_simp
  show ?thesis using r git_arguments_rewritten [OF r t t2 f d n] by blast
qed

text \<open>White space inside a quoted argument of git is not kept.\<close>

lemma git_quotes_collapse:
  "rewriteSegment (''git commit -m '' @ [CHR 0x22] @ ''a  b'' @ [CHR 0x22]) [] =
     (''tokman git commit -m '' @ [CHR 0x22] @ ''a b'' @ [CHR 0x22], True)"
  by code_simp

text \<open>
  A command given by its absolute path is not rewritten, although its path is stripped before: it is
  classified as it was written. Only the head and tail rules see the stripped command.
\<close>

lemma absolute_path_not_rewritten:
  assumes "trimSpace seg = CHR ''/'' # x" "trimSpace (CHR ''/'' # x) = CHR ''/'' # x"
    and "rewriteHeadNumeric [] (stripAbsolutePath (CHR ''/'' # x)) = None"
    and "rewriteTailNumeric [] (stripAbsolutePath (CHR ''/'' # x)) = None"
  shows "\<not> snd (rewriteSegment seg excluded)"
proof -
  have e: "envPrefix_of (CHR ''/'' # x) = []"
    by (rule envPrefix_none) (simp add: find_env_body find_assignment upper_char_def)
  have "\<not> cl_Supported (ClassifyCommand (CHR ''/'' # x))"
  proof
    assume "cl_Supported (ClassifyCommand (CHR ''/'' # x))"
    from classify_cases [OF this] obtain i where "last_match (CHR ''/'' # x) = Some i" using assms(2) e by auto
    then show False using last_match_Some [of _ i] slash_no_pattern [of x] by (auto simp: list_all_length)
  qed
  then show ?thesis using assms e
    by (simp add: rewriteSegment_def Let_def trimPrefix_def stripGitGlobalOpts_def)
qed

section \<open>Head and tail\<close>

lemma find_cap: "find_run (XCap n a) s = map_option (\<lambda>(u, t, cs). (u, t, (n, u) # cs)) (find_run a s)"
  by (auto simp: find_run_def split: list.splits)

lemma find_rest_of_line: "s \<noteq> [] \<Longrightarrow> nl \<notin> set s \<Longrightarrow> find_run rest_of_line s = Some (s, [], [(2, s)])"
proof -
  assume s: "s \<noteq> []" "nl \<notin> set s"
  then have tw: "takeWhile (\<lambda>c. c \<noteq> nl) s = s" "dropWhile (\<lambda>c. c \<noteq> nl) s = []" by (auto simp: takeWhile_eq_all_conv)
  have "find_run (XCap 2 (xplus (XCls (\<lambda>c. c \<noteq> nl)))) s = Some (s, [], [(2, s)])"
    using s(1) by (simp add: find_cap find_plus_cls tw)
  from find_seq [OF this, of XEnd "[]" "[]" "[]"] show ?thesis by (simp add: rest_of_line_def find_run_def)
qed

lemma find_digits: "n \<noteq> [] \<Longrightarrow> list_all is_digit n \<Longrightarrow> t = [] \<or> \<not> is_digit (hd t) \<Longrightarrow>
    find_run digits (n @ t) = Some (n, t, [(1, n)])"
proof -
  assume a: "n \<noteq> []" "list_all is_digit n" "t = [] \<or> \<not> is_digit (hd t)"
  have "takeWhile is_digit t = []" "dropWhile is_digit t = t" using a(3) by (cases t; simp)+
  then have "takeWhile is_digit (n @ t) = n" "dropWhile is_digit (n @ t) = t"
    using a(2) by (auto simp: list_all_iff)
  then show ?thesis using a(1) by (simp add: digits_def find_cap find_plus_cls)
qed

lemma find_number_file:
  assumes "n \<noteq> []" "list_all is_digit n" "file \<noteq> []" "nl \<notin> set file" "\<not> space_char (hd file)"
  shows "find_run (xseq [digits, xsp, rest_of_line]) (n @ '' '' @ file) = Some (n @ '' '' @ file, [], [(1, n), (2, file)])"
proof -
  have "find_run (xseq [rest_of_line]) file = Some (file, [], [(2, file)])"
    using find_rest_of_line [OF assms(3,4)] by simp
  moreover have "find_run xsp ('' '' @ file) = Some ('' '', file, [])"
    using find_sp_spaces [of "'' ''" "file"] assms(5) by (simp add: spaces_def space_char_def no_space_first_def)
  ultimately have "find_run (xseq [xsp, rest_of_line]) ('' '' @ file) = Some ('' '' @ file, [], [(2, file)])"
    using find_seq by fastforce
  moreover have "find_run digits (n @ '' '' @ file) = Some (n, '' '' @ file, [(1, n)])"
    using find_digits [OF assms(1,2), of "'' '' @ file"] by (simp add: is_digit_def)
  ultimately show ?thesis using find_seq [of digits] by fastforce
qed

text \<open>
  C10: \<^verbatim>\<open>head -N file\<close> and \<^verbatim>\<open>tail -N file\<close> become a read of the file with that many lines, for every
  number and file name, and for every list of excluded commands: an exclusion of head or tail is not
  looked at before they are rewritten.
\<close>

theorem head_tail_rewritten:
  assumes "n \<noteq> []" "list_all is_digit n" "trimSpace file = file" "file \<noteq> []" "nl \<notin> set file" "solid (hd file)"
  shows "rewriteSegment (''head -'' @ n @ '' '' @ file) excluded = (''tokman read '' @ file @ '' --max-lines '' @ n, True) \<and>
    rewriteSegment (''tail -'' @ n @ '' '' @ file) excluded = (''tokman read '' @ file @ '' --tail-lines '' @ n, True)"
proof -
  have dash: "find_run xsp ('' -'' @ y) = Some ('' '', ''-'' @ y, [])" for y
    by (simp add: find_sp space_char_def)
  note nf = find_number_file [OF assms(1,2,4,5) solid_not_space(2) [OF assms(6)]]
  have num: "find_run (xseq [xsp, xlit ''-'', digits, xsp, rest_of_line]) ('' -'' @ n @ '' '' @ file) =
      Some ('' -'' @ n @ '' '' @ file, [], [(1, n), (2, file)])"
    using find_seq [OF dash, of "xseq [xlit ''-'', digits, xsp, rest_of_line]" "n @ '' '' @ file" "''-'' @ n @ '' '' @ file" "[]"]
      find_lit_seq [of "''-''" "xseq [digits, xsp, rest_of_line]" "''-'' @ n @ '' '' @ file"] nf by simp
  have m: "numeric_match headNumericRe (''head -'' @ n @ '' '' @ file) = Some (n, file)"
    "numeric_match tailNumericRe (''tail -'' @ n @ '' '' @ file) = Some (n, file)"
    using num find_lit_seq [of "''head''" "xseq [xsp, xlit ''-'', digits, xsp, rest_of_line]" "''head -'' @ n @ '' '' @ file"]
      find_lit_seq [of "''tail''" "xseq [xsp, xlit ''-'', digits, xsp, rest_of_line]" "''tail -'' @ n @ '' '' @ file"]
    by (simp_all add: numeric_match_def headNumericRe_def tailNumericRe_def group_of_def)
  have "rewriteHeadNumeric [] (''head -'' @ n @ '' '' @ file) = Some (''tokman read '' @ file @ '' --max-lines '' @ n)"
    "rewriteTailNumeric [] (''tail -'' @ n @ '' '' @ file) = Some (''tokman read '' @ file @ '' --tail-lines '' @ n)"
    by (simp_all only: rewriteHeadNumeric_def rewriteTailNumeric_def m) simp_all
  moreover have "trimSpace (''head -'' @ n @ '' '' @ file) = ''head -'' @ n @ '' '' @ file"
    "trimSpace (''tail -'' @ n @ '' '' @ file) = ''tail -'' @ n @ '' '' @ file"
    using trimSpace_append [OF _ assms(3,4,6), of "CHR ''h''" "''ead -'' @ n @ '' ''"]
      trimSpace_append [OF _ assms(3,4,6), of "CHR ''t''" "''ail -'' @ n @ '' ''"] by simp_all
  moreover have "envPrefix_of (''head -'' @ x) = []" "envPrefix_of (''tail -'' @ x) = []" for x
    by (rule envPrefix_none, simp add: find_env_body find_assignment upper_char_def)+
  ultimately show ?thesis
    by (simp add: rewriteSegment_def Let_def trimPrefix_def stripGitGlobalOpts_def not_absolute not_head_tail)
qed

lemma head_tail_rewritten_witness:
  "rewriteSegment (''head -'' @ ''20'' @ '' '' @ ''main.rs'') [''head'', ''tail''] =
     (''tokman read '' @ ''main.rs'' @ '' --max-lines '' @ ''20'', True)"
proof -
  have "''20'' \<noteq> []" "list_all is_digit ''20''" "trimSpace ''main.rs'' = ''main.rs''" "''main.rs'' \<noteq> []" "nl \<notin> set ''main.rs''"
    "solid (hd ''main.rs'')" by (code_simp | simp add: solid_def space_seqs_def)+
  from head_tail_rewritten [OF this] show ?thesis by blast
qed

text \<open>With another option head and tail are rewritten with their arguments as they are, which the code means to skip.\<close>

lemma head_option_rewritten: "rewriteSegment ''tail -f app.log'' [] = (''tokman read -f app.log'', True)"
  by code_simp

section \<open>A command line of several commands\<close>

datatype shell_op = AndAlso | OrElse | Semicolon

fun op_text :: "shell_op \<Rightarrow> string" where
  "op_text AndAlso = '' && ''"
| "op_text OrElse = '' || ''"
| "op_text Semicolon = ''; ''"

fun command_line :: "string \<Rightarrow> (shell_op \<times> string) list \<Rightarrow> string" where
  "command_line s [] = s"
| "command_line s ((op, t) # r) = s @ op_text op @ command_line t r"

text \<open>A command without quotes and operators and without white space around it.\<close>

definition special :: "char \<Rightarrow> bool" where
  "special c \<longleftrightarrow> c = CHR 0x27 \<or> c = CHR 0x22 \<or> c = CHR ''|'' \<or> c = CHR ''&'' \<or> c = CHR '';''"

definition simple_command :: "string \<Rightarrow> bool" where
  "simple_command s \<longleftrightarrow> s \<noteq> [] \<and> trimSpace s = s \<and> solid (hd s) \<and> list_all (\<lambda>c. \<not> special c) s"

lemma loop_plain:
  assumes "i < length cmd" "\<not> special (cmd ! i)"
  shows "compound_loop ex cmd i p q1 q2 b a = compound_loop ex cmd (i + 1) p q1 q2 b a"
  using assms by (subst compound_loop.simps) (auto simp: special_def Let_def split: prod.splits)

lemma loop_plains:
  "cmd = u @ w @ y \<Longrightarrow> list_all (\<lambda>c. \<not> special c) w \<Longrightarrow>
    compound_loop ex cmd (length u) p q1 q2 b a = compound_loop ex cmd (length u + length w) p q1 q2 b a"
proof (induction w arbitrary: u)
  case (Cons c w)
  have "compound_loop ex cmd (length u) p q1 q2 b a = compound_loop ex cmd (length u + 1) p q1 q2 b a"
    using Cons.prems by (intro loop_plain) (auto simp: nth_append)
  then show ?case using Cons.IH [of "u @ [c]"] Cons.prems by simp
qed simp

lemma loop_end: "compound_loop ex cmd (length cmd) p q1 q2 b a =
    (b @ fst (rewriteSegment (trimSpace (drop p cmd)) ex), a \<or> snd (rewriteSegment (trimSpace (drop p cmd)) ex))"
  by (subst compound_loop.simps) (simp add: split_beta)

lemma skip_one_space:
  assumes "cmd = u @ '' '' @ t" "t \<noteq> []" "hd t \<noteq> CHR '' ''" shows "skip_spaces cmd (length u) = length u + 1"
  using assms by (cases t) (simp_all add: skip_spaces_def)

text \<open>One operator: the segment before it is rewritten, and the scan goes on behind the first character of the next one.\<close>

lemma loop_op:
  assumes "cmd = u @ l @ s @ op_text op @ t @ y" "l = [] \<or> l = '' ''" "simple_command s" "simple_command t"
  shows "\<exists>p l' k. (l' = [] \<or> l' = '' '') \<and> (k = 0 \<or> k = 1) \<and> u @ l @ s @ op_text op = p @ l' \<and>
    compound_loop ex cmd (length (u @ l @ s)) (length u) False False b a =
    compound_loop ex cmd (length (p @ l') + k) (length p) False False
      (b @ fst (rewriteSegment s ex) @ op_text op) (a \<or> snd (rewriteSegment s ex))"
proof -
  have s: "s \<noteq> []" "trimSpace s = s" "solid (hd s)" using assms(3) by (auto simp: simple_command_def)
  have t: "t \<noteq> []" "hd (t @ y) \<noteq> CHR '' ''" using assms(4) solid_not_space(1) by (auto simp: simple_command_def)
  have trim: "trimSpace (l @ s) = s" "trimSpace (l @ s @ '' '') = s"
    using assms(2) trimSpace_spaces [OF s(2,1,3)] s(2) by auto
  show ?thesis
  proof (cases op)
    case Semicolon
    have "compound_loop ex cmd (length (u @ l @ s)) (length u) False False b a =
        compound_loop ex cmd (length (u @ l @ s) + 2) (length (u @ l @ s) + 1) False False
          (b @ fst (rewriteSegment s ex) @ ''; '') (a \<or> snd (rewriteSegment s ex))"
      using assms(1) trim Semicolon
      by (subst compound_loop.simps) (auto simp: Let_def split_beta slice_def nth_append)
    then show ?thesis using Semicolon 
      by (intro exI [of _ "u @ l @ s @ '';''"] exI [of _ "'' ''"] exI [of _ 0]) (simp add: eval_nat_numeral)
  next
    case AndAlso
    have j: "skip_spaces cmd (length (u @ l @ s) + 3) = length (u @ l @ s) + 4"
      using skip_one_space [of cmd "u @ l @ s @ '' &&''" "t @ y"] assms(1) AndAlso t by (simp add: eval_nat_numeral)
    have "compound_loop ex cmd (length (u @ l @ s)) (length u) False False b a =
        compound_loop ex cmd (length (u @ l @ s) + 1) (length u) False False b a"
      using assms(1) AndAlso by (intro loop_plain) (auto simp: nth_append special_def)
    also have "\<dots> = compound_loop ex cmd (length (u @ l @ s) + 5) (length (u @ l @ s) + 4) False False
          (b @ fst (rewriteSegment s ex) @ '' && '') (a \<or> snd (rewriteSegment s ex))"
      using assms(1) trim AndAlso j
      by (subst compound_loop.simps) (auto simp: Let_def split_beta slice_def nth_append eval_nat_numeral)
    finally show ?thesis using AndAlso
      by (intro exI [of _ "u @ l @ s @ '' && ''"] exI [of _ "[]"] exI [of _ 1]) (simp add: eval_nat_numeral)
  next
    case OrElse
    have j: "skip_spaces cmd (length (u @ l @ s) + 3) = length (u @ l @ s) + 4"
      using skip_one_space [of cmd "u @ l @ s @ '' ||''" "t @ y"] assms(1) OrElse t by (simp add: eval_nat_numeral)
    have "compound_loop ex cmd (length (u @ l @ s)) (length u) False False b a =
        compound_loop ex cmd (length (u @ l @ s) + 1) (length u) False False b a"
      using assms(1) OrElse by (intro loop_plain) (auto simp: nth_append special_def)
    also have "\<dots> = compound_loop ex cmd (length (u @ l @ s) + 5) (length (u @ l @ s) + 4) False False
          (b @ fst (rewriteSegment s ex) @ '' || '') (a \<or> snd (rewriteSegment s ex))"
      using assms(1) trim OrElse j
      by (subst compound_loop.simps) (auto simp: Let_def split_beta slice_def nth_append eval_nat_numeral)
    finally show ?thesis using OrElse
      by (intro exI [of _ "u @ l @ s @ '' || ''"] exI [of _ "[]"] exI [of _ 1]) (simp add: eval_nat_numeral)
  qed
qed

lemma loop_segment:
  assumes "cmd = u @ l @ s @ y" "simple_command s" "k = 0 \<or> k = 1"
  shows "compound_loop ex cmd (length (u @ l) + k) p q1 q2 b a = compound_loop ex cmd (length (u @ l @ s)) p q1 q2 b a"
proof (cases "k = 0")
  case True
  then show ?thesis using loop_plains [of cmd "u @ l" s y] assms by (simp add: simple_command_def add.assoc)
next
  case False
  obtain c s' where s: "s = c # s'" using assms(2) by (cases s) (auto simp: simple_command_def)
  then show ?thesis using loop_plains [of cmd "u @ l @ [c]" s' y] assms False by (simp add: simple_command_def add.assoc)
qed

lemma loop_command_line:
  "cmd = u @ l @ command_line s r \<Longrightarrow> l = [] \<or> l = '' '' \<Longrightarrow> k = 0 \<or> k = 1 \<Longrightarrow>
    simple_command s \<Longrightarrow> list_all (\<lambda>(op, t). simple_command t) r \<Longrightarrow>
    compound_loop ex cmd (length (u @ l) + k) (length u) False False b a =
      (b @ command_line (fst (rewriteSegment s ex)) (map (\<lambda>(op, t). (op, fst (rewriteSegment t ex))) r),
       a \<or> snd (rewriteSegment s ex) \<or> list_ex (\<lambda>(op, t). snd (rewriteSegment t ex)) r)"
proof (induction r arbitrary: s u l k b a)
  case Nil
  then have "trimSpace (l @ s) = s" using trimSpace_spaces [of s] by (auto simp: simple_command_def)
  then show ?case using Nil loop_segment [of cmd u l s "[]" k] loop_end [of ex cmd "length u" False False b a] by auto
next
  case (Cons x r)
  obtain op t where x: "x = (op, t)" by force
  have cmd: "cmd = u @ l @ s @ op_text op @ command_line t r" using Cons.prems x by simp
  obtain y where y: "command_line t r = t @ y" by (cases r) auto
  have t: "simple_command t" using Cons.prems x by simp
  obtain p l' k' where p: "l' = [] \<or> l' = '' ''" "k' = 0 \<or> k' = 1" "u @ l @ s @ op_text op = p @ l'"
    "compound_loop ex cmd (length (u @ l @ s)) (length u) False False b a =
      compound_loop ex cmd (length (p @ l') + k') (length p) False False
      (b @ fst (rewriteSegment s ex) @ op_text op) (a \<or> snd (rewriteSegment s ex))"
    using loop_op [of cmd u l s op t y ex b a] cmd y Cons.prems t by metis
  have "cmd = p @ l' @ command_line t r" using cmd p(3) by (metis append.assoc)
  from Cons.IH [OF this p(1,2) t, of "b @ fst (rewriteSegment s ex) @ op_text op" "a \<or> snd (rewriteSegment s ex)"]
  show ?case using Cons.prems x p(4) loop_segment [OF cmd Cons.prems(4,3), of ex "length u" False False b a] by auto
qed

lemma command_line_trimmed:
  "simple_command s \<Longrightarrow> list_all (\<lambda>(op, t). simple_command t) r \<Longrightarrow> trimSpace (command_line s r) = command_line s r \<and>
    command_line s r \<noteq> [] \<and> solid (hd (command_line s r))"
proof (induction s r rule: command_line.induct)
  case (2 s op t r)
  obtain c x where s: "s = c # x" "solid c" using "2.prems" by (cases s) (auto simp: simple_command_def)
  then show ?case using 2 trimSpace_append [of c "command_line t r" "x @ op_text op"] by auto
qed (simp add: simple_command_def)

lemma RewriteCommand_line:
  assumes "simple_command s" "list_all (\<lambda>(op, t). simple_command t) r" "r \<noteq> []"
    and "\<not> contains (command_line s r) ''<<''" "\<not> contains (command_line s r) ''$((''"
  shows "RewriteCommand (command_line s r) excluded =
    (command_line (fst (rewriteSegment s excluded)) (map (\<lambda>(op, t). (op, fst (rewriteSegment t excluded))) r),
     snd (rewriteSegment s excluded) \<or> list_ex (\<lambda>(op, t). snd (rewriteSegment t excluded)) r)"
proof -
  let ?c = "command_line s r"
  obtain op t r' where r: "r = (op, t) # r'" using assms(3) by (cases r) auto
  have "contains (s @ op_text op @ command_line t r') (trimSpace (op_text op))"
    by (cases op; simp add: trimSpace_def trim_left_def space_seqs_def; simp add: contains_iff; metis append_Cons append_Nil append.assoc)
  then have "contains ?c ''&&'' \<or> contains ?c ''||'' \<or> contains ?c '';''"
    using r by (cases op) (auto simp: trimSpace_def trim_left_def space_seqs_def)
  moreover have "trimSpace ?c = ?c" "?c \<noteq> []" using command_line_trimmed [OF assms(1,2)] by blast+
  ultimately have "RewriteCommand ?c excluded = rewriteCompound ?c excluded"
    using assms(4,5) by (auto simp: RewriteCommand_def Let_def)
  also have "\<dots> = (command_line (fst (rewriteSegment s excluded)) (map (\<lambda>(op, t). (op, fst (rewriteSegment t excluded))) r),
     snd (rewriteSegment s excluded) \<or> list_ex (\<lambda>(op, t). snd (rewriteSegment t excluded)) r)"
    using loop_command_line [of ?c "[]" "[]" s r 0 excluded "[]" False] assms(1,2) by (simp add: rewriteCompound_def)
  finally show ?thesis .
qed

text \<open>
  C6: a line of commands joined by \<^verbatim>\<open>&&\<close>, \<^verbatim>\<open>||\<close> and \<^verbatim>\<open>;\<close>, without quotes, here-documents and arithmetic, is
  rewritten command by command: every segment by itself, the operators and their order kept, and
  the line counts as changed when one of its segments is.
\<close>

theorem RewriteCommand_each_command:
  assumes "simple_command s" "list_all (\<lambda>(op, t). simple_command t) r" "r \<noteq> []"
    and "\<not> contains (command_line s r) ''<<''" "\<not> contains (command_line s r) ''$((''"
  shows "RewriteCommand (command_line s r) excluded =
    (command_line (fst (rewriteSegment s excluded)) (map (\<lambda>(op, t). (op, fst (rewriteSegment t excluded))) r),
     snd (rewriteSegment s excluded) \<or> list_ex (\<lambda>(op, t). snd (rewriteSegment t excluded)) r)"
  using assms by (rule RewriteCommand_line)

lemma RewriteCommand_each_command_witness:
  "RewriteCommand ''git status && cd src; cargo test'' [] =
    (command_line (fst (rewriteSegment ''git status'' []))
       (map (\<lambda>(op, t). (op, fst (rewriteSegment t []))) [(AndAlso, ''cd src''), (Semicolon, ''cargo test'')]), True)"
proof -
  let ?r = "[(AndAlso, ''cd src''), (Semicolon, ''cargo test'')]"
  have s: "solid (CHR ''g'')" "solid (CHR ''c'')" by simp_all
  have "trimSpace ''git status'' = ''git status''" "trimSpace ''cd src'' = ''cd src''" "trimSpace ''cargo test'' = ''cargo test''"
    by code_simp+
  then have a: "simple_command ''git status''" "list_all (\<lambda>(op, t). simple_command t) ?r"
    using s by (simp_all add: simple_command_def special_def)
  have c: "\<not> contains (command_line ''git status'' ?r) ''<<''" "\<not> contains (command_line ''git status'' ?r) ''$((''"
    by code_simp+
  have e: "snd (rewriteSegment ''git status'' []) \<or> list_ex (\<lambda>(op, t). snd (rewriteSegment t [])) ?r" by code_simp
  have l: "command_line ''git status'' ?r = ''git status && cd src; cargo test''" by simp
  have "?r \<noteq> []" by simp
  from RewriteCommand_each_command [OF a this c, of "[]"] show ?thesis using e l by simp
qed

section \<open>Quotes\<close>

text \<open>
  The byte after an operator is not looked at. When it opens a quotation, the scan takes what is inside
  for shell code and what is outside for text: here the argument of a program is rewritten.
\<close>

definition quoted_demo :: string where
  "quoted_demo = ''cd x && '' @ [CHR 0x22] @ ''my tool'' @ [CHR 0x22] @ '' '' @ [CHR 0x22] @ ''a; git log'' @ [CHR 0x22]"

lemma quote_after_operator_missed:
  "RewriteCommand quoted_demo [] =
    (''cd x && '' @ [CHR 0x22] @ ''my tool'' @ [CHR 0x22] @ '' '' @ [CHR 0x22] @ ''a; tokman git log'' @ [CHR 0x22], True)"
  by code_simp

text \<open>An entry of the savings table that cannot be found: the first group of this pattern is the program.\<close>

lemma pip_savings_unused: "cl_SavingsPct (ClassifyCommand ''pip outdated'') = 75"
  by code_simp

text \<open>A command that is classified as supported and has no prefix to replace.\<close>

lemma supported_but_not_rewritten:
  "cl_Supported (ClassifyCommand ''pnpm eslint .'') \<and> \<not> ShouldRewrite ''pnpm eslint .''"
  by code_simp

end
