(* ===== verification/Go_Path.thy ===== *)
theory Go_Path
  imports Toml_Rules
begin

text \<open>
  The functions of \<^verbatim>\<open>path/filepath\<close> the program uses, on Unix: \<^verbatim>\<open>Clean\<close>, \<^verbatim>\<open>Join\<close> and \<^verbatim>\<open>Dir\<close>.
  \<^verbatim>\<open>Base\<close> is \<open>Toml_Rules.path_base\<close>.
\<close>

text \<open>One element against the elements kept so far, innermost first.\<close>

fun clean_step :: "bool \<Rightarrow> string list \<Rightarrow> string \<Rightarrow> string list" where
  "clean_step rooted out c =
     (if c = [] \<or> c = ''.'' then out
      else if c = ''..'' then
        (case out of [] \<Rightarrow> if rooted then [] else [''..'']
         | d # ds \<Rightarrow> if d = ''..'' then ''..'' # out else ds)
      else c # out)"

declare clean_step.simps [simp del]

definition path_clean :: "string \<Rightarrow> string" where
  "path_clean p =
     (let rooted = has_prefix p ''/'';
          s = (if rooted then ''/'' else []) @ join ''/'' (rev (foldl (clean_step rooted) [] (split_on CHR ''/'' p)))
      in if s = [] then ''.'' else s)"

definition path_join :: "string list \<Rightarrow> string" where
  "path_join es = (case dropWhile (\<lambda>e. e = []) es of [] \<Rightarrow> [] | xs \<Rightarrow> path_clean (join ''/'' xs))"

definition path_dir :: "string \<Rightarrow> string" where
  "path_dir p = path_clean (rev (dropWhile (\<lambda>c. c \<noteq> CHR ''/'') (rev p)))"

lemma path_clean_nonempty [simp]: "path_clean p \<noteq> []"
  by (simp add: path_clean_def Let_def)

lemma path_dir_nonempty [simp]: "path_dir p \<noteq> []"
  by (simp add: path_dir_def)

text \<open>An ordinary last element stays the last element.\<close>

definition ordinary :: "string \<Rightarrow> bool" where
  "ordinary c \<longleftrightarrow> c \<noteq> [] \<and> c \<noteq> ''.'' \<and> c \<noteq> ''..'' \<and> CHR ''/'' \<notin> set c"

lemma split_on_append: "split_on c (p @ c # q) = split_on c p @ split_on c q"
  by (induction c p rule: split_on.induct) (auto split: list.splits)

lemma has_suffix_iff: "has_suffix s p \<longleftrightarrow> (\<exists>t. s = t @ p)"
proof
  assume "has_suffix s p"
  then have "s = take (length s - length p) s @ p" unfolding has_suffix_def by (metis append_take_drop_id)
  then show "\<exists>t. s = t @ p" by blast
qed (auto simp: has_suffix_def)

lemma path_clean_last:
  assumes "ordinary c" shows "has_suffix (path_clean (p @ ''/'' @ c)) c"
proof -
  have c: "c \<noteq> []" "split_on CHR ''/'' (p @ ''/'' @ c) = split_on CHR ''/'' p @ [c]"
    using assms by (simp_all add: ordinary_def split_on_append split_plain)
  have "foldl (clean_step r) [] (split_on CHR ''/'' (p @ ''/'' @ c)) = c # foldl (clean_step r) [] (split_on CHR ''/'' p)" for r
    using assms unfolding c(2) by (simp add: ordinary_def clean_step.simps)
  then show ?thesis using c(1)
    by (auto simp: path_clean_def Let_def has_suffix_iff join_append)
qed

lemma path_join_last: "ordinary c \<Longrightarrow> d \<noteq> [] \<Longrightarrow> has_suffix (path_join [d, c]) c"
  using path_clean_last [of c d] by (simp add: path_join_def join_Cons)

end
