(* ===== verification/Integrity.thy ===== *)
theory Integrity
  imports Go_Path
begin

text \<open>
  The integrity gate for the shell hook (\<^verbatim>\<open>internal/integrity/integrity.go\<close>, and the choice of the commands it
  guards in \<^verbatim>\<open>internal/commands/root.go\<close>): the hash of the hook is stored beside it when it is installed and
  compared before a command runs.

  The file system is a map from paths to a content and permission bits. An operation fails where the
  file is missing, where the permissions forbid a write, and where \<open>Faults\<close> says that the system
  refuses it. SHA-256 in hexadecimal is a parameter.
\<close>

record fnode =
  fn_content :: string
  fn_writable :: bool

type_synonym fsys = "string \<rightharpoonup> fnode"

text \<open>The system calls that fail for a path although the file is there.\<close>

record Faults =
  fl_stat :: "string \<Rightarrow> bool"
  fl_read :: "string \<Rightarrow> bool"
  fl_write :: "string \<Rightarrow> bool"
  fl_chmod :: "string \<Rightarrow> bool"
  fl_remove :: "string \<Rightarrow> bool"

datatype ierror =
    ReadFailed string
  | WriteFailed string
  | RemoveFailed string
  | EmptyHash string
  | InvalidFormat string
  | InvalidLength string int
  | InvalidHex string
  | NoHome
  | CheckFailed string string

datatype IntegrityStatus = StatusVerified | StatusTampered | StatusNoBaseline | StatusNotInstalled | StatusOrphanedHash

fun status_String :: "IntegrityStatus \<Rightarrow> string" where
  "status_String StatusVerified = ''VERIFIED''"
| "status_String StatusTampered = ''TAMPERED''"
| "status_String StatusNoBaseline = ''NO_BASELINE''"
| "status_String StatusNotInstalled = ''NOT_INSTALLED''"
| "status_String StatusOrphanedHash = ''ORPHANED_HASH''"

record VerificationResult =
  vr_Status :: IntegrityStatus
  vr_Expected :: string
  vr_Actual :: string
  vr_HookPath :: string
  vr_HashPath :: string

definition HashFilename :: string where "HashFilename = ''.tokman-hook.sha256''"
definition HookFilename :: string where "HookFilename = ''tokman-rewrite.sh''"

text \<open>The system calls: \<^verbatim>\<open>os.ReadFile\<close>, \<^verbatim>\<open>os.WriteFile\<close> with mode 0444, \<^verbatim>\<open>os.Chmod\<close> to 0644 and \<^verbatim>\<open>os.Remove\<close>.
  Writing an existing file keeps its permissions.\<close>

definition read_file :: "Faults \<Rightarrow> fsys \<Rightarrow> string \<Rightarrow> string option" where
  "read_file F fs path = (if fl_read F path then None else map_option fn_content (fs path))"

definition write_file :: "Faults \<Rightarrow> string \<Rightarrow> string \<Rightarrow> fsys \<Rightarrow> fsys option" where
  "write_file F path content fs =
     (if fl_write F path then None
      else case fs path of
             None \<Rightarrow> Some (fs(path \<mapsto> \<lparr>fn_content = content, fn_writable = False\<rparr>))
           | Some f \<Rightarrow> if fn_writable f then Some (fs(path \<mapsto> f\<lparr>fn_content := content\<rparr>)) else None)"

definition make_writable :: "Faults \<Rightarrow> string \<Rightarrow> fsys \<Rightarrow> fsys" where
  "make_writable F path fs =
     (if fl_chmod F path then fs else case fs path of None \<Rightarrow> fs | Some f \<Rightarrow> fs(path \<mapsto> f\<lparr>fn_writable := True\<rparr>))"

definition fileExists :: "Faults \<Rightarrow> fsys \<Rightarrow> string \<Rightarrow> bool" where
  "fileExists F fs path \<longleftrightarrow> fs path \<noteq> None \<or> fl_stat F path"

definition ComputeHash :: "Faults \<Rightarrow> (string \<Rightarrow> string) \<Rightarrow> fsys \<Rightarrow> string \<Rightarrow> ierror + string" where
  "ComputeHash F sha fs path = (case read_file F fs path of None \<Rightarrow> Inl (ReadFailed path) | Some content \<Rightarrow> Inr (sha content))"

definition HashPath :: "string \<Rightarrow> string" where
  "HashPath hookPath = path_join [path_dir hookPath, HashFilename]"

definition StoreHash :: "Faults \<Rightarrow> (string \<Rightarrow> string) \<Rightarrow> string \<Rightarrow> fsys \<Rightarrow> ierror + fsys" where
  "StoreHash F sha hookPath fs =
     (case ComputeHash F sha fs hookPath of
        Inl err \<Rightarrow> Inl err
      | Inr hash \<Rightarrow>
          (let hashFile = HashPath hookPath;
               filename = (if path_base hookPath = [] then HookFilename else path_base hookPath);
               content = hash @ ''  '' @ filename @ [nl];
               fs = (case fs hashFile of
                       Some f \<Rightarrow> if \<not> fl_stat F hashFile \<and> \<not> fn_writable f then make_writable F hashFile fs else fs
                     | None \<Rightarrow> fs)
           in case write_file F hashFile content fs of
                None \<Rightarrow> Inl (WriteFailed hashFile)
              | Some fs \<Rightarrow> Inr fs))"

definition RemoveHash :: "Faults \<Rightarrow> string \<Rightarrow> fsys \<Rightarrow> (ierror + bool) \<times> fsys" where
  "RemoveHash F hookPath fs =
     (let hashFile = HashPath hookPath
      in if \<not> fileExists F fs hashFile then (Inr False, fs)
      else let fs = make_writable F hashFile fs
      in if fl_remove F hashFile \<or> fs hashFile = None then (Inl (RemoveFailed hashFile), fs)
      else (Inr True, fs(hashFile := None)))"

text \<open>\<^verbatim>\<open>strings.SplitN(line, sep, 2)\<close> where it gives two parts.\<close>

fun split_two :: "string \<Rightarrow> string \<Rightarrow> (string \<times> string) option" where
  "split_two sep [] = (if sep = [] then Some ([], []) else None)"
| "split_two sep (c # s) =
     (if has_prefix (c # s) sep then Some ([], drop (length sep) (c # s))
      else map_option (\<lambda>(u, v). (c # u, v)) (split_two sep s))"

definition hex_digit :: "char \<Rightarrow> bool" where
  "hex_digit c \<longleftrightarrow> (let n = (of_char c :: nat) in 48 \<le> n \<and> n \<le> 57 \<or> 65 \<le> n \<and> n \<le> 70 \<or> 97 \<le> n \<and> n \<le> 102)"

definition readStoredHash :: "Faults \<Rightarrow> fsys \<Rightarrow> string \<Rightarrow> ierror + string" where
  "readStoredHash F fs path =
     (case read_file F fs path of
        None \<Rightarrow> Inl (ReadFailed path)
      | Some content \<Rightarrow>
          (let line = hd (split_on nl content)
           in if line = [] then Inl (EmptyHash path)
           else case split_two ''  '' line of
                  None \<Rightarrow> Inl (InvalidFormat path)
                | Some (hash, _) \<Rightarrow>
                    if len hash \<noteq> 64 then Inl (InvalidLength path (len hash))
                    else if \<not> list_all hex_digit hash then Inl (InvalidHex path)
                    else Inr hash))"

definition ResolveHookPath :: "string option \<Rightarrow> ierror + string" where
  "ResolveHookPath home =
     (case home of None \<Rightarrow> Inl NoHome | Some h \<Rightarrow> Inr (path_join [h, ''.claude'', ''hooks'', HookFilename]))"

definition VerifyHookAt :: "Faults \<Rightarrow> (string \<Rightarrow> string) \<Rightarrow> fsys \<Rightarrow> string \<Rightarrow> ierror + VerificationResult" where
  "VerifyHookAt F sha fs hookPath =
     (let hashFile = HashPath hookPath;
          hookExists = fileExists F fs hookPath;
          hashExists = fileExists F fs hashFile;
          result = (\<lambda>s. \<lparr>vr_Status = s, vr_Expected = [], vr_Actual = [], vr_HookPath = hookPath, vr_HashPath = hashFile\<rparr>)
      in if \<not> hookExists \<and> \<not> hashExists then Inr (result StatusNotInstalled)
      else if \<not> hookExists \<and> hashExists then Inr (result StatusOrphanedHash)
      else if hookExists \<and> \<not> hashExists then Inr (result StatusNoBaseline)
      else case readStoredHash F fs hashFile of
             Inl err \<Rightarrow> Inl err
           | Inr stored \<Rightarrow>
               (case ComputeHash F sha fs hookPath of
                  Inl err \<Rightarrow> Inl err
                | Inr actual \<Rightarrow>
                    if stored = actual then Inr (result StatusVerified)
                    else Inr ((result StatusTampered)\<lparr>vr_Expected := stored, vr_Actual := actual\<rparr>)))"

definition VerifyHook :: "Faults \<Rightarrow> (string \<Rightarrow> string) \<Rightarrow> fsys \<Rightarrow> string option \<Rightarrow> ierror + VerificationResult" where
  "VerifyHook F sha fs home =
     (case ResolveHookPath home of Inl err \<Rightarrow> Inl err | Inr hookPath \<Rightarrow> VerifyHookAt F sha fs hookPath)"

definition truncateHash :: "string \<Rightarrow> int \<Rightarrow> string" where
  "truncateHash hash maxLen = (if len hash \<le> maxLen then hash else take (nat maxLen) hash)"

text \<open>The error of the gate, or nothing; and whether it prints the warning.\<close>

definition RuntimeCheck :: "Faults \<Rightarrow> (string \<Rightarrow> string) \<Rightarrow> fsys \<Rightarrow> string option \<Rightarrow> ierror option \<times> bool" where
  "RuntimeCheck F sha fs home =
     (case VerifyHook F sha fs home of
        Inl err \<Rightarrow> (Some err, False)
      | Inr result \<Rightarrow>
          (case vr_Status result of
             StatusTampered \<Rightarrow> (Some (CheckFailed (truncateHash (vr_Expected result) 16) (truncateHash (vr_Actual result) 16)), False)
           | StatusOrphanedHash \<Rightarrow> (None, True)
           | _ \<Rightarrow> (None, False)))"

text \<open>
  Which commands are guarded: a command is given by the names and the annotations of itself and of its
  parents, innermost first.
\<close>

definition metaCommandNames :: "string list" where
  "metaCommandNames = [''init'', ''verify'', ''config'', ''economics'', ''status'', ''report'', ''summary'', ''ccusage'',
     ''help'', ''version'', ''rewrite'', ''deps'', ''gain'', ''hook-audit'', ''discover'', ''learn'', ''err'']"

definition isOperationalCommand :: "(string \<times> bool) list \<Rightarrow> bool" where
  "isOperationalCommand chain \<longleftrightarrow>
     \<not> list_ex snd chain \<and> \<not> list_ex (\<lambda>(name, _). name \<in> set metaCommandNames) chain"

definition PersistentPreRunE :: "Faults \<Rightarrow> (string \<Rightarrow> string) \<Rightarrow> fsys \<Rightarrow> string option \<Rightarrow> (string \<times> bool) list \<Rightarrow> ierror option" where
  "PersistentPreRunE F sha fs home chain = (if isOperationalCommand chain then fst (RuntimeCheck F sha fs home) else None)"

section \<open>The hash file\<close>

text \<open>What SHA-256 in hexadecimal guarantees of its result.\<close>

definition sha_hex :: "(string \<Rightarrow> string) \<Rightarrow> bool" where
  "sha_hex sha \<longleftrightarrow> (\<forall>x. len (sha x) = 64 \<and> list_all hex_digit (sha x))"

lemma hex_digit_neq: "hex_digit c \<Longrightarrow> c \<noteq> nl \<and> c \<noteq> CHR '' ''"
  by (auto simp: hex_digit_def Let_def)

lemma split_two_hex: "list_all hex_digit h \<Longrightarrow> split_two ''  '' (h @ ''  '' @ y) = Some (h, y)"
  by (induction h) (auto dest: hex_digit_neq)

lemma hd_split_on: "nl \<notin> set u \<Longrightarrow> \<exists>w. hd (split_on nl (u @ y)) = u @ w"
proof (induction u)
  case (Cons c u)
  then obtain w where w: "hd (split_on nl (u @ y)) = u @ w" by auto
  obtain a as where "split_on nl (u @ y) = a # as" by (cases "split_on nl (u @ y)") auto
  then show ?case using w Cons.prems by auto
qed auto

text \<open>A stored hash is read back, whatever the name of the hook.\<close>

lemma stored_hash_read:
  assumes "sha_hex sha" "read_file F fs path = Some (sha x @ ''  '' @ name @ [nl])"
  shows "readStoredHash F fs path = Inr (sha x)"
proof -
  have h: "len (sha x) = 64" "list_all hex_digit (sha x)" using assms(1) by (auto simp: sha_hex_def)
  then have "nl \<notin> set (sha x @ ''  '')" by (auto simp: list_all_iff dest: hex_digit_neq)
  then obtain w where "hd (split_on nl ((sha x @ ''  '') @ name @ [nl])) = (sha x @ ''  '') @ w"
    using hd_split_on by blast
  then have l: "hd (split_on nl (sha x @ ''  '' @ name @ [nl])) = sha x @ ''  '' @ w" by simp
  have "split_two ''  '' (sha x @ ''  '' @ w) = Some (sha x, w)" by (rule split_two_hex [OF h(2)])
  then show ?thesis using h assms(2) unfolding readStoredHash_def by (simp only: option.case l Let_def) simp
qed

lemma HashPath_other: "\<not> has_suffix hookPath HashFilename \<Longrightarrow> HashPath hookPath \<noteq> hookPath"
  using path_join_last [of HashFilename "path_dir hookPath"] by (auto simp: HashPath_def ordinary_def HashFilename_def)

lemma write_file_effect: "write_file F p c fs = Some fs' \<Longrightarrow> \<exists>f. fs' = fs(p \<mapsto> f) \<and> fn_content f = c"
proof -
  assume w: "write_file F p c fs = Some fs'"
  show ?thesis
  proof (cases "fs p")
    case None
    then show ?thesis using w by (auto simp: write_file_def split: if_splits intro!: exI [of _ "\<lparr>fn_content = c, fn_writable = False\<rparr>"])
  next
    case (Some g)
    then show ?thesis using w by (auto simp: write_file_def split: if_splits intro!: exI [of _ "g\<lparr>fn_content := c\<rparr>"])
  qed
qed

lemma make_writable_upd [simp]: "(make_writable F p fs)(p \<mapsto> f) = fs(p \<mapsto> f)"
  by (auto simp: make_writable_def split: option.splits)

text \<open>After storing, the hash file has the line for the content of the hook, and no other file has changed.\<close>

lemma StoreHash_effect:
  assumes "StoreHash F sha hookPath fs = Inr fs'"
  shows "\<exists>c name f. read_file F fs hookPath = Some c \<and> fs' = fs(HashPath hookPath \<mapsto> f) \<and>
    fn_content f = sha c @ ''  '' @ name @ [nl]"
proof -
  obtain c where c: "read_file F fs hookPath = Some c"
    using assms by (auto simp: StoreHash_def ComputeHash_def split: option.splits)
  obtain name fs1 where w: "write_file F (HashPath hookPath) (sha c @ ''  '' @ name @ [nl]) fs1 = Some fs'"
    and fs1: "fs1 = fs \<or> fs1 = make_writable F (HashPath hookPath) fs"
    using assms c unfolding StoreHash_def ComputeHash_def Let_def
    by (cases "path_base hookPath = []") (auto split: option.splits if_splits)
  from write_file_effect [OF w] obtain f where "fs' = fs1(HashPath hookPath \<mapsto> f)" "fn_content f = sha c @ ''  '' @ name @ [nl]"
    by blast
  then have "fs' = fs(HashPath hookPath \<mapsto> f)" "fn_content f = sha c @ ''  '' @ name @ [nl]" using fs1 by auto
  with c show ?thesis by blast
qed

text \<open>
  C17: once a hash was stored, the gate recognises the hook exactly as long as its content has the digest it
  had when it was stored: for any content the hook is given later it passes when the digests agree and
  reports both of them when they do not.
\<close>

theorem tampering_detected:
  assumes "sha_hex sha" "StoreHash F sha hookPath fs = Inr fs'" "read_file F fs hookPath = Some c"
    and "\<not> has_suffix hookPath HashFilename" "\<not> fl_read F (HashPath hookPath)"
    and "later = fs'(hookPath \<mapsto> \<lparr>fn_content = c', fn_writable = w\<rparr>)"
  shows "\<exists>result. VerifyHookAt F sha later hookPath = Inr result \<and>
    vr_Status result = (if sha c' = sha c then StatusVerified else StatusTampered) \<and>
    (sha c' \<noteq> sha c \<longrightarrow> vr_Expected result = sha c \<and> vr_Actual result = sha c')"
proof -
  obtain name f where f: "fs' = fs(HashPath hookPath \<mapsto> f)" "fn_content f = sha c @ ''  '' @ name @ [nl]"
    using StoreHash_effect [OF assms(2)] assms(3) by auto
  have ne: "HashPath hookPath \<noteq> hookPath" by (rule HashPath_other [OF assms(4)])
  have "read_file F later (HashPath hookPath) = Some (sha c @ ''  '' @ name @ [nl])"
    using f ne assms(5,6) by (simp add: read_file_def)
  then have stored: "readStoredHash F later (HashPath hookPath) = Inr (sha c)" by (rule stored_hash_read [OF assms(1)])
  have "\<not> fl_read F hookPath" using assms(3) by (auto simp: read_file_def split: if_splits)
  then have actual: "ComputeHash F sha later hookPath = Inr (sha c')" using assms(6) by (simp add: ComputeHash_def read_file_def)
  show ?thesis using stored actual f ne assms(6) by (auto simp: VerifyHookAt_def Let_def fileExists_def)
qed

definition demo_sha :: "string \<Rightarrow> string" where
  "demo_sha x = (if x = ''echo a'' then replicate 64 CHR ''a'' else replicate 64 CHR ''b'')"

definition demo_faults :: Faults where
  "demo_faults = \<lparr>fl_stat = (\<lambda>_. False), fl_read = (\<lambda>_. False), fl_write = (\<lambda>_. False), fl_chmod = (\<lambda>_. False), fl_remove = (\<lambda>_. False)\<rparr>"

definition demo_fs :: fsys where
  "demo_fs = [''h/tokman-rewrite.sh'' \<mapsto> \<lparr>fn_content = ''echo a'', fn_writable = True\<rparr>]"

lemma demo_sha_hex: "sha_hex demo_sha"
  by (simp add: sha_hex_def demo_sha_def hex_digit_def Let_def list_all_iff)

lemma tampering_detected_witness:
  "\<exists>fs' result. StoreHash demo_faults demo_sha ''h/tokman-rewrite.sh'' demo_fs = Inr fs' \<and>
    VerifyHookAt demo_faults demo_sha (fs'(''h/tokman-rewrite.sh'' \<mapsto> \<lparr>fn_content = ''rm'', fn_writable = True\<rparr>)) ''h/tokman-rewrite.sh'' = Inr result \<and>
    vr_Status result = StatusTampered"
proof -
  have "demo_fs (HashPath ''h/tokman-rewrite.sh'') = None" by code_simp
  then obtain fs' where s: "StoreHash demo_faults demo_sha ''h/tokman-rewrite.sh'' demo_fs = Inr fs'"
    by (simp add: StoreHash_def ComputeHash_def read_file_def write_file_def demo_faults_def demo_fs_def Let_def)
  have r: "read_file demo_faults demo_fs ''h/tokman-rewrite.sh'' = Some ''echo a''" by code_simp
  have n: "\<not> has_suffix ''h/tokman-rewrite.sh'' HashFilename" by code_simp
  have f: "\<not> fl_read demo_faults (HashPath ''h/tokman-rewrite.sh'')" by (simp add: demo_faults_def)
  have "demo_sha ''rm'' \<noteq> demo_sha ''echo a''" by code_simp
  then show ?thesis
    using tampering_detected [OF demo_sha_hex s r n f refl, of "''rm''" True] s by auto
qed

text \<open>
  What the gate lets through, exactly: it passes when there is no hook, when the hash file is missing, and
  when the stored hash can be read and is the digest of the hook. So deleting the hash file opens the gate
  for any hook, although changing the hook alone does not.
\<close>

theorem gate_passes_iff:
  "fst (RuntimeCheck F sha fs (Some home)) = None \<longleftrightarrow>
    (let hook = path_join [home, ''.claude'', ''hooks'', HookFilename]
     in \<not> fileExists F fs hook \<or> \<not> fileExists F fs (HashPath hook) \<or>
        (\<exists>h. readStoredHash F fs (HashPath hook) = Inr h \<and> ComputeHash F sha fs hook = Inr h))"
  by (auto simp: RuntimeCheck_def VerifyHook_def ResolveHookPath_def VerifyHookAt_def Let_def split: sum.splits)

lemma gate_passes_iff_witness:
  "fst (RuntimeCheck demo_faults demo_sha [''h/.claude/hooks/tokman-rewrite.sh'' \<mapsto> \<lparr>fn_content = ''rm'', fn_writable = True\<rparr>] (Some ''h'')) = None"
proof -
  have "path_join [''h'', ''.claude'', ''hooks'', HookFilename] = ''h/.claude/hooks/tokman-rewrite.sh''" by code_simp
  moreover have "HashPath ''h/.claude/hooks/tokman-rewrite.sh'' = ''h/.claude/hooks/.tokman-hook.sha256''" by code_simp
  ultimately show ?thesis by (simp add: gate_passes_iff fileExists_def demo_faults_def)
qed

text \<open>Removing the hash file after any tampering lets the hook through.\<close>

lemma removed_hash_opens_gate:
  assumes "hook = path_join [home, ''.claude'', ''hooks'', HookFilename]" "\<not> fl_stat F (HashPath hook)"
  shows "fst (RuntimeCheck F sha (fs(HashPath hook := None)) (Some home)) = None"
  using assms by (auto simp: RuntimeCheck_def VerifyHook_def ResolveHookPath_def VerifyHookAt_def Let_def fileExists_def)

text \<open>Storing again leaves the hash file writable: the mode of a write counts for a new file only.\<close>

lemma restored_hash_writable:
  assumes "StoreHash F sha hookPath fs = Inr fs'" "fs (HashPath hookPath) \<noteq> None"
  shows "map_option fn_writable (fs' (HashPath hookPath)) = Some True"
  using assms unfolding StoreHash_def ComputeHash_def write_file_def make_writable_def Let_def
  by (auto split: option.splits if_splits sum.splits)

text \<open>Installing and removing: the file system is the one before, with the hash file gone.\<close>

lemma store_remove:
  assumes "StoreHash F sha hookPath fs = Inr fs'" "\<not> fl_remove F (HashPath hookPath)"
  shows "fst (RemoveHash F hookPath fs') = Inr True \<and> snd (RemoveHash F hookPath fs') = fs(HashPath hookPath := None)"
proof -
  obtain f where "fs' = fs(HashPath hookPath \<mapsto> f)" using StoreHash_effect [OF assms(1)] by blast
  then show ?thesis using assms(2)
    by (auto simp: RemoveHash_def Let_def fileExists_def make_writable_def)
qed

end
