(* ===== verification/Abbreviation.thy ===== *)
theory Abbreviation
  imports Simd Go_Utf8 Go_Float "HOL-Library.Multiset"
begin

text \<open>
  Filters that shorten words by tables: the n-gram abbreviator of the pipeline
  (\<^verbatim>\<open>internal/filter/ngram.go\<close>), the token dense dialect (\<^verbatim>\<open>internal/filter/tdd.go\<close>) and the encoder of
  \<^verbatim>\<open>internal/tdd/encoder.go\<close>. Their tables are Go maps, which are iterated in an unspecified order, so the
  operations take the table in the order of the iteration; the properties hold for every order.
\<close>

section \<open>The n-gram abbreviator\<close>

type_synonym table = "(string \<times> string) list"

definition initAbbreviations :: table where
  "initAbbreviations =
    [(''function'', ''fn''), (''return'', ''ret''), (''const'', ''cst''), (''var'', ''vr''),
     (''let'', ''lt''), (''import'', ''imp''), (''export'', ''exp''), (''async'', ''asc''),
     (''await'', ''awt''), (''static'', ''stc''), (''public'', ''pub''), (''private'', ''prv''),
     (''protected'', ''ptd''), (''interface'', ''iface''), (''implements'', ''impl''),
     (''extends'', ''ext''), (''namespace'', ''ns''), (''package'', ''pkg''), (''module'', ''mod''),
     (''class'', ''cls''), (''struct'', ''stct''), (''enum'', ''en''), (''constructor'', ''ctor''),
     (''destructor'', ''dtor''), (''parameter'', ''param''), (''argument'', ''arg''),
     (''variable'', ''vrbl''), (''constant'', ''cnst''), (''initialize'', ''init''),
     (''configuration'', ''cfg''), (''environment'', ''env''), (''development'', ''dev''),
     (''production'', ''prod''), (''staging'', ''stag''), (''testing'', ''test''),
     (''information'', ''info''), (''message'', ''msg''), (''error'', ''err''), (''warning'', ''warn''),
     (''success'', ''ok''), (''failure'', ''fail''), (''exception'', ''exc''), (''response'', ''resp''),
     (''request'', ''req''), (''reference'', ''ref''), (''property'', ''prop''),
     (''attribute'', ''attr''), (''method'', ''mtd''), (''value'', ''val''), (''string'', ''str''),
     (''number'', ''num''), (''integer'', ''int''), (''boolean'', ''bool''), (''character'', ''char''),
     (''array'', ''arr''), (''object'', ''obj''), (''element'', ''el''), (''document'', ''doc''),
     (''directory'', ''dir''), (''file'', ''fl''), (''resource'', ''res''), (''process'', ''proc''),
     (''thread'', ''thrd''), (''connection'', ''conn''), (''transaction'', ''txn'')]"

definition initCodePatterns :: table where
  "initCodePatterns =
    [(''undefined'', ''undef''), (''null'', ''nil''), (''boolean'', ''bool''), (''integer'', ''int''),
     (''float'', ''flt''), (''double'', ''dbl''), (''string'', ''str''), (''character'', ''chr''),
     (''object'', ''obj''), (''array'', ''arr''), (''function'', ''fn''), (''promise'', ''pm''),
     (''async'', ''asc''), (''await'', ''awt''), (''toString'', ''toStr''), (''parseInt'', ''toInt''),
     (''parseFloat'', ''toFlt''), (''length'', ''len''), (''indexOf'', ''idxOf''),
     (''substring'', ''substr''), (''replace'', ''repl''), (''contains'', ''has''),
     (''startsWith'', ''startsW''), (''endsWith'', ''endsW''), (''toLowerCase'', ''toLower''),
     (''toUpperCase'', ''toUpper''), (''trim'', ''trm''), (''split'', ''splt''), (''join'', ''jn''),
     (''push'', ''psh''), (''pop'', ''pp''), (''shift'', ''shft''), (''unshift'', ''unshft''),
     (''slice'', ''slc''), (''splice'', ''splc''), (''forEach'', ''each''), (''map'', ''mp''),
     (''filter'', ''fltr''), (''reduce'', ''red''), (''find'', ''fnd''), (''some'', ''sm''),
     (''every'', ''evry''), (''includes'', ''incl''), (''sort'', ''srt''), (''reverse'', ''rev''),
     (''concat'', ''cat''), (''spread'', ''sprd''), (''console.log'', ''log''),
     (''console.error'', ''logErr''), (''console.warn'', ''logWarn''), (''console.info'', ''logInfo''),
     (''return null'', ''ret nil''), (''return true'', ''ret T''), (''return false'', ''ret F''),
     (''return undefined'', ''ret undef'')]"

definition initCLIPatterns :: table where
  "initCLIPatterns =
    [(''Successfully'', [CHR 0xE2, CHR 0x9C, CHR 0x93]),
     (''successfully'', [CHR 0xE2, CHR 0x9C, CHR 0x93]), (''Success'', [CHR 0xE2, CHR 0x9C, CHR 0x93]),
     (''success'', [CHR 0xE2, CHR 0x9C, CHR 0x93]), (''Failed'', [CHR 0xE2, CHR 0x9C, CHR 0x97]),
     (''failed'', [CHR 0xE2, CHR 0x9C, CHR 0x97]), (''Failure'', [CHR 0xE2, CHR 0x9C, CHR 0x97]),
     (''failure'', [CHR 0xE2, CHR 0x9C, CHR 0x97]), (''Error'', ''ERR''), (''error'', ''err''),
     (''Warning'', ''WARN''), (''warning'', ''warn''), (''Complete'', ''DONE''),
     (''complete'', ''done''), (''Finished'', ''DONE''), (''finished'', ''done''),
     (''Running'', ''RUN''), (''running'', ''run''), (''Starting'', ''START''),
     (''starting'', ''start''), (''Processing'', ''PROC''), (''processing'', ''proc''),
     (''Building'', ''BUILD''), (''building'', ''build''), (''Compiling'', ''COMP''),
     (''compiling'', ''comp''), (''Downloading'', ''DL''), (''downloading'', ''dl''),
     (''Uploading'', ''UL''), (''uploading'', ''ul''), (''Installing'', ''INST''),
     (''installing'', ''inst''), (''Uninstalling'', ''UNINST''), (''uninstalling'', ''uninst''),
     (''Updating'', ''UPD''), (''updating'', ''upd''), (''Creating'', ''CREAT''),
     (''creating'', ''creat''), (''Deleting'', ''DEL''), (''deleting'', ''del''),
     (''Modifying'', ''MOD''), (''modifying'', ''mod''), (''Skipping'', ''SKIP''),
     (''skipping'', ''skip''), (''Ignoring'', ''IGN''), (''ignoring'', ''ign''),
     (''Checking'', ''CHK''), (''checking'', ''chk''), (''Validating'', ''VAL''),
     (''validating'', ''val''), (''Verifying'', ''VER''), (''verifying'', ''ver''),
     (''Please wait'', ''...''), (''please wait'', ''...''), (''In progress'', ''...''),
     (''in progress'', ''...''), (''No changes'', ''(no changes)''), (''no changes'', ''(no changes)''),
     (''Not found'', ''(not found)''), (''not found'', ''(not found)''), (''None'', ''(none)''),
     (''none'', ''(none)''), (''Empty'', ''(empty)''), (''empty'', ''(empty)'')]"

record NgramAbbreviator =
  na_abbreviations :: table
  na_codePatterns :: table
  na_cliPatterns :: table

definition NewNgramAbbreviator :: NgramAbbreviator where
  "NewNgramAbbreviator = \<lparr>na_abbreviations = initAbbreviations, na_codePatterns = initCodePatterns, na_cliPatterns = initCLIPatterns\<rparr>"

text \<open>The three tables of an abbreviator in some order of iteration.\<close>

definition iterated :: "NgramAbbreviator \<Rightarrow> NgramAbbreviator \<Rightarrow> bool" where
  "iterated f g \<longleftrightarrow> mset (na_abbreviations g) = mset (na_abbreviations f) \<and>
     mset (na_codePatterns g) = mset (na_codePatterns f) \<and> mset (na_cliPatterns g) = mset (na_cliPatterns f)"

definition codeContextIndicators :: "string list" where
  "codeContextIndicators =
    [''func '', ''function '', ''def '', ''class '', ''struct '', ''import '', ''package '', ''use '',
     ''require('', ''pub fn'', ''pub struct'', ''pub async'', ''const '', ''let '', ''var '', ''=>'',
     ''{'', ''}'']"

definition detectCodeContext :: "string \<Rightarrow> bool" where
  "detectCodeContext input \<longleftrightarrow> list_ex (contains input) codeContextIndicators"

definition toLowerByte :: "char \<Rightarrow> char" where
  "toLowerByte b = (if byte CHR ''A'' \<le> byte b \<and> byte b \<le> byte CHR ''Z'' then char_of (byte b + 32) else b)"

text \<open>A match of the pattern at index \<open>i\<close> that is a whole word.\<close>

definition word_match :: "string \<Rightarrow> string \<Rightarrow> nat \<Rightarrow> bool" where
  "word_match input pattern i \<longleftrightarrow>
     i + length pattern \<le> length input \<and> map toLowerByte (take (length pattern) (drop i input)) = pattern \<and>
     (i = 0 \<or> \<not> IsWordChar (input ! (i - 1))) \<and>
     (i + length pattern < length input \<longrightarrow> \<not> IsWordChar (input ! (i + length pattern)))"

text \<open>The loop; a pattern of the tables is never empty, and the loop would not end on an empty one.\<close>

function replace_word_loop :: "string \<Rightarrow> string \<Rightarrow> string \<Rightarrow> nat \<Rightarrow> string" where
  "replace_word_loop input pattern replacement i =
     (if i \<ge> length input then []
      else if pattern \<noteq> [] \<and> word_match input pattern i
           then replacement @ replace_word_loop input pattern replacement (i + length pattern)
           else input ! i # replace_word_loop input pattern replacement (i + 1))"
  by pat_completeness auto
termination by (relation "measure (\<lambda>(input, _, _, i). length input - i)") (auto simp: neq_Nil_conv)

declare replace_word_loop.simps [simp del]

definition replaceWord :: "string \<Rightarrow> string \<Rightarrow> string \<Rightarrow> string" where
  "replaceWord input pattern replacement = replace_word_loop input pattern replacement 0"

definition applyCodeAbbreviations :: "NgramAbbreviator \<Rightarrow> string \<Rightarrow> string" where
  "applyCodeAbbreviations f input = foldl (\<lambda>output (p, a). replaceWord output p a) input (na_codePatterns f)"

definition applyAbbreviations :: "NgramAbbreviator \<Rightarrow> string \<Rightarrow> string" where
  "applyAbbreviations f input =
     (let isCode = detectCodeContext input;
          output = foldl (\<lambda>output (p, a). replaceAll p a output) input (na_cliPatterns f);
          output = (if isCode then applyCodeAbbreviations f output else output)
      in foldl (\<lambda>output (p, a). replaceWord output p a) output (na_abbreviations f))"

definition ngram_Apply :: "NgramAbbreviator \<Rightarrow> string \<Rightarrow> string \<times> int" where
  "ngram_Apply f input =
     (let original = len input
      in if original < 100 then (input, 0)
      else let output = applyAbbreviations f input in (output, go_div (original - len output) 4))"

section \<open>Whole words\<close>

text \<open>
  What a replacement of whole words may do: copy a byte, or replace a word that is the pattern up to case and has no
  word character before and after it. \<open>p\<close> is the byte before, absent at the start.
\<close>

inductive word_replaced :: "string \<Rightarrow> string \<Rightarrow> char option \<Rightarrow> string \<Rightarrow> string \<Rightarrow> bool" for pattern replacement where
  wr_end: "word_replaced pattern replacement p [] []"
| wr_copy: "word_replaced pattern replacement (Some c) s t \<Longrightarrow> word_replaced pattern replacement p (c # s) (c # t)"
| wr_word: "map toLowerByte w = pattern \<Longrightarrow> w \<noteq> [] \<Longrightarrow> (case p of None \<Rightarrow> True | Some c \<Rightarrow> \<not> IsWordChar c) \<Longrightarrow>
    (s = [] \<or> \<not> IsWordChar (hd s)) \<Longrightarrow> word_replaced pattern replacement (Some (last w)) s t \<Longrightarrow>
    word_replaced pattern replacement p (w @ s) (replacement @ t)"

lemma replace_loop_words:
  "i \<le> length input \<Longrightarrow> word_replaced pattern replacement (if i = 0 then None else Some (input ! (i - 1))) (drop i input)
     (replace_word_loop input pattern replacement i)"
proof (induction input pattern replacement i rule: replace_word_loop.induct)
  case (1 input pattern replacement i)
  show ?case
  proof (cases "i \<ge> length input")
    case True
    then show ?thesis by (subst replace_word_loop.simps) (simp add: wr_end)
  next
    case False
    show ?thesis
    proof (cases "pattern \<noteq> [] \<and> word_match input pattern i")
      case True
      let ?n = "length pattern"
      let ?w = "take ?n (drop i input)"
      have m: "i + ?n \<le> length input" "map toLowerByte ?w = pattern" "i = 0 \<or> \<not> IsWordChar (input ! (i - 1))"
        "i + ?n < length input \<longrightarrow> \<not> IsWordChar (input ! (i + ?n))" "0 < ?n"
        using True by (auto simp: word_match_def)
      have ne: "?w \<noteq> []" using m(1,5) False by auto
      have lw: "length ?w = ?n" using m(1) by simp
      have "last ?w = ?w ! (?n - 1)" using last_conv_nth [OF ne] unfolding lw .
      also have "\<dots> = input ! (i + (?n - 1))" using m(1,5) by (simp add: nth_drop)
      also have "i + (?n - 1) = i + ?n - 1" using m(5) by linarith
      finally have "last ?w = input ! (i + ?n - 1)" .
      moreover have "drop i input = ?w @ drop (i + ?n) input" by (metis append_take_drop_id drop_drop add.commute)
      moreover have "drop (i + ?n) input = [] \<or> \<not> IsWordChar (hd (drop (i + ?n) input))"
        using m(4) by (cases "i + ?n < length input") (auto simp: hd_drop_conv_nth)
      moreover have "word_replaced pattern replacement (Some (input ! (i + ?n - 1))) (drop (i + ?n) input)
          (replace_word_loop input pattern replacement (i + ?n))"
        using 1(1) False True m by simp
      ultimately have "word_replaced pattern replacement (if i = 0 then None else Some (input ! (i - 1))) (?w @ drop (i + ?n) input)
          (replacement @ replace_word_loop input pattern replacement (i + ?n))"
        using m(2,3) ne by (intro wr_word) auto
      then show ?thesis using True False \<open>drop i input = _\<close>
        by (subst replace_word_loop.simps) simp
    next
      case no: False
      have "drop i input = input ! i # drop (i + 1) input" using False by (simp add: Cons_nth_drop_Suc)
      moreover have "word_replaced pattern replacement (Some (input ! i)) (drop (i + 1) input)
          (replace_word_loop input pattern replacement (i + 1))"
        using 1(2) no False by simp
      ultimately show ?thesis using no False by (subst replace_word_loop.simps) (auto intro: wr_copy)
    qed
  qed
qed

lemma replaceWord_words: "word_replaced pattern replacement None input (replaceWord input pattern replacement)"
  using replace_loop_words [of 0 input pattern replacement] by (simp add: replaceWord_def)

text \<open>A pattern with a capital letter never matches: the text is lowered before the comparison, the pattern is not.\<close>

lemma toLowerByte_not_upper: "\<not> (byte CHR ''A'' \<le> byte (toLowerByte c) \<and> byte (toLowerByte c) \<le> byte CHR ''Z'')"
  by (auto simp: toLowerByte_def)

lemma word_replaced_same: "word_replaced pattern replacement p s t \<Longrightarrow> (\<nexists>w. map toLowerByte w = pattern) \<Longrightarrow> t = s"
  by (induction rule: word_replaced.induct) auto

lemma capital_pattern_dead:
  assumes "c \<in> set pattern" "byte CHR ''A'' \<le> byte c" "byte c \<le> byte CHR ''Z''"
  shows "replaceWord input pattern replacement = input"
proof -
  have "map toLowerByte w \<noteq> pattern" for w
  proof
    assume "map toLowerByte w = pattern"
    then obtain d where "c = toLowerByte d" using assms(1) by auto
    then show False using assms(2,3) toLowerByte_not_upper [of d] by blast
  qed
  then show ?thesis using word_replaced_same [OF replaceWord_words] by blast
qed

section \<open>The token dense dialect\<close>

definition u8 :: "nat \<Rightarrow> string" where "u8 r = encode_rune r"

record TDDConfig =
  td_Enabled :: bool
  td_MinSavings :: int
  td_MaxReplacements :: int

definition DefaultTDDConfig :: TDDConfig where
  "DefaultTDDConfig = \<lparr>td_Enabled = True, td_MinSavings = 2, td_MaxReplacements = 100\<rparr>"

definition buildSymbolMap :: table where
  "buildSymbolMap =
    [(''function'', ''fn''), (''const'', u8 0x3BA), (''let'', u8 0x3BB), (''var'', u8 0x3BD),
     (''return'', u8 0x21A9), (''import'', u8 0x2192), (''export'', u8 0x2190),
     (''default'', u8 0x2202), (''interface'', u8 0x2229), (''implements'', u8 0x22A8),
     (''extends'', u8 0x2283), (''typeof'', u8 0x3C4), (''instanceof'', u8 0x2208),
     (''undefined'', u8 0x2205), (''null'', u8 0x2205), (''true'', u8 0x22A4), (''false'', u8 0x22A5),
     (''async'', u8 0x26A1), (''await'', u8 0x23F3), (''promise'', u8 0x2119), (''string'', u8 0x3C3),
     (''number'', u8 0x3BD), (''boolean'', u8 0x3B2), (''object'', u8 0x3A9), (''array'', u8 0x391),
     (''error'', u8 0x3B5), (''throw'', u8 0x2191), (''catch'', u8 0x2282), (''finally'', u8 0x220E),
     (''try'', u8 0x22A2), (''if'', u8 0x3B9), (''else'', u8 0x3B5), (''for'', u8 0x3C6),
     (''while'', u8 0x3C9), (''switch'', u8 0x3C3), (''case'', u8 0x3BA), (''break'', u8 0x2298),
     (''continue'', u8 0x21BB), (''new'', u8 0x39D), (''this'', u8 0x3C4), (''self'', u8 0x3C3),
     (''super'', u8 0x3A3), (''class'', u8 0x2102), (''static'', u8 0x2299), (''public'', u8 0x2295),
     (''private'', u8 0x2296), (''protected'', u8 0x2297), (''abstract'', u8 0x3B1),
     (''virtual'', u8 0x3BD), (''override'', u8 0x2295), (''readonly'', u8 0x2298),
     (''optional'', u8 0x3BF), (''required'', u8 0x3C1), (''nullable'', u8 0x3B7),
     (''non-null'', u8 0x3BD), (''any'', u8 0x2200), (''unknown'', u8 0x2203), (''never'', u8 0x22A5),
     (''void'', u8 0x2205), (''tuple'', u8 0x3A4), (''enum'', u8 0x395), (''type'', u8 0x3C4),
     (''alias'', u8 0x3B1), (''generic'', u8 0x393), (''parameter'', u8 0x3C0),
     (''argument'', u8 0x3B1), (''variable'', u8 0x3BD), (''constant'', u8 0x3BA),
     (''literal'', u8 0x3BB), (''template'', u8 0x3A4), (''interpolate'', u8 0x2295),
     (''concat'', u8 0x2295), (''slice'', u8 0x2282), (''splice'', u8 0x2297), (''map'', u8 0x39C),
     (''filter'', u8 0x3A6), (''reduce'', u8 0x3A1), (''forEach'', u8 0x2200), (''some'', u8 0x2203),
     (''every'', u8 0x2200), (''find'', u8 0x220B), (''includes'', u8 0x2208), (''indexOf'', u8 0x3B9),
     (''length'', u8 0x2113), (''size'', u8 0x3C3), (''count'', u8 0x3BA), (''sum'', u8 0x3A3),
     (''average'', u8 0x3BC), (''min'', u8 0x22A5), (''max'', u8 0x22A4), (''sort'', u8 0x3C3),
     (''reverse'', u8 0x3C1), (''join'', u8 0x2295), (''split'', u8 0x2298), (''trim'', u8 0x3C4),
     (''replace'', u8 0x3C1), (''match'', u8 0x3BC), (''search'', u8 0x3C3), (''exec'', u8 0x3B5),
     (''compile'', u8 0x2102), (''parse'', u8 0x3C0), (''stringify'', u8 0x3C3),
     (''serialize'', u8 0x3C3), (''deserialize'', u8 0x3B4), (''encode'', u8 0x3B5),
     (''decode'', u8 0x3B4), (''compress'', u8 0x3BA), (''decompress'', u8 0x3B4),
     (''encrypt'', u8 0x3B5), (''decrypt'', u8 0x3B4), (''hash'', u8 0x210E), (''sign'', u8 0x3C3),
     (''validate'', u8 0x3BD), (''sanitize'', u8 0x3C3), (''escape'', u8 0x3B5),
     (''unescape'', u8 0x3C5), (''normalize'', u8 0x3BD), (''canonical'', u8 0x3BA),
     (''transform'', u8 0x3C4), (''convert'', u8 0x3BA), (''cast'', u8 0x3BA), (''coerce'', u8 0x3BA),
     (''infer'', u8 0x3B9), (''resolve'', u8 0x3C1), (''reject'', u8 0x3C1), (''handle'', u8 0x210E),
     (''process'', u8 0x3C0), (''execute'', u8 0x3B5), (''run'', u8 0x3C1), (''start'', u8 0x3C3),
     (''stop'', u8 0x3C3), (''pause'', u8 0x3C0), (''resume'', u8 0x3C1), (''cancel'', u8 0x3BA),
     (''abort'', u8 0x3B1), (''retry'', u8 0x3C1), (''repeat'', u8 0x3C1), (''loop'', u8 0x3BB),
     (''iterate'', u8 0x3B9), (''traverse'', u8 0x3C4), (''walk'', u8 0x3C9), (''visit'', u8 0x3BD),
     (''enter'', u8 0x3B5), (''exit'', u8 0x3B5), (''push'', u8 0x2295), (''pop'', u8 0x2296),
     (''shift'', u8 0x3C3), (''unshift'', u8 0x3C5), (''insert'', u8 0x3B9), (''delete'', u8 0x3B4),
     (''update'', u8 0x3C5), (''create'', u8 0x3BA), (''read'', u8 0x3C1), (''write'', u8 0x3C9),
     (''load'', u8 0x3BB), (''save'', u8 0x3C3), (''fetch'', u8 0x3C6), (''send'', u8 0x3C3),
     (''receive'', u8 0x3C1), (''emit'', u8 0x3B5), (''listen'', u8 0x3BB), (''on'', u8 0x2295),
     (''off'', u8 0x2296), (''once'', ''1''), (''bind'', u8 0x3B2), (''unbind'', u8 0x3C5),
     (''attach'', u8 0x3B1), (''detach'', u8 0x3B4), (''connect'', u8 0x3BA),
     (''disconnect'', u8 0x3B4), (''mount'', u8 0x3BC), (''unmount'', u8 0x3C5), (''render'', u8 0x3C1),
     (''paint'', u8 0x3C0), (''draw'', u8 0x3B4), (''layout'', u8 0x3BB), (''measure'', u8 0x3BC),
     (''compute'', u8 0x3BA), (''calculate'', u8 0x3BA), (''evaluate'', u8 0x3B5),
     (''assess'', u8 0x3B1), (''check'', u8 0x3BA), (''assert'', u8 0x3B1), (''expect'', u8 0x3B5),
     (''assertion'', u8 0x3B1), (''spec'', u8 0x3C3), (''suite'', u8 0x3C3), (''describe'', u8 0x3B4),
     (''it'', u8 0x3B9), (''before'', u8 0x3B2), (''after'', u8 0x3B1), (''setup'', u8 0x3C3),
     (''teardown'', u8 0x3C4), (''fixture'', u8 0x3C6), (''mock'', u8 0x3BC), (''stub'', u8 0x3C3),
     (''spy'', u8 0x3C3), (''fake'', u8 0x3C6), (''dummy'', u8 0x3B4), (''placeholder'', u8 0x3C0)]"

text \<open>The reverse map, filled in the order in which the symbol map is iterated: a symbol gets its last term.\<close>

definition buildReverseMap :: "table \<Rightarrow> table" where
  "buildReverseMap symbols = foldl (\<lambda>m (term, symbol). al_put symbol term m) [] symbols"

definition tdd_step :: "TDDConfig \<Rightarrow> string \<times> int \<Rightarrow> string \<times> string \<Rightarrow> string \<times> int" where
  "tdd_step cfg = (\<lambda>(result, count) (trm, symbol).
     if count \<ge> td_MaxReplacements cfg then (result, count)
     else if contains result trm
     then if len trm - len symbol \<ge> td_MinSavings cfg then (replaceAll trm symbol result, count + 1) else (result, count)
     else (result, count))"

definition tdd_Encode :: "TDDConfig \<Rightarrow> table \<Rightarrow> string \<Rightarrow> string \<times> int" where
  "tdd_Encode cfg symbols input = (if \<not> td_Enabled cfg then (input, 0) else foldl (tdd_step cfg) (input, 0) symbols)"

definition tdd_Decode :: "table \<Rightarrow> string \<Rightarrow> string" where
  "tdd_Decode rev_symbols input = foldl (\<lambda>result (symbol, trm). replaceAll symbol trm result) input rev_symbols"

section \<open>The encoder of the package tdd\<close>

definition encoderSymbols :: table where
  "encoderSymbols =
    [(''function'', ''fn''), (''variable'', ''var''), (''constant'', ''const''),
     (''parameter'', ''param''), (''argument'', ''arg''), (''return'', ''ret''), (''import'', ''imp''),
     (''package'', ''pkg''), (''interface'', ''iface''), (''struct'', ''st''), (''method'', ''meth''),
     (''context'', ''ctx''), (''request'', ''req''), (''response'', ''resp''), (''error'', ''err''),
     (''config'', ''cfg''), (''database'', ''db''), (''connection'', ''conn''), (''handler'', ''hdlr''),
     (''middleware'', ''mw'')]"

definition spaced :: "string \<Rightarrow> string" where "spaced w = '' '' @ w @ '' ''"

definition enc_Encode :: "table \<Rightarrow> string \<Rightarrow> string" where
  "enc_Encode symbols input = foldl (\<lambda>output (full, short). replaceAll (spaced full) (spaced short) output) input symbols"

text \<open>\<^verbatim>\<open>Decode\<close> first copies the map into another one, with the names of key and value exchanged and the
  key stored as the key.\<close>

definition enc_reversed :: "table \<Rightarrow> table" where
  "enc_reversed symbols = foldl (\<lambda>m (short, full). al_put short full m) [] symbols"

definition enc_Decode :: "table \<Rightarrow> string \<Rightarrow> string" where
  "enc_Decode rev_symbols input = foldl (\<lambda>output (short, full). replaceAll (spaced short) (spaced full) output) input rev_symbols"

definition enc_CompressionRatio :: "string \<Rightarrow> string \<Rightarrow> rat" where
  "enc_CompressionRatio original encoded =
     (if original = [] then 0 else f64 (f64 (of_int (len encoded) / of_int (len original)) * 100))"

text \<open>The map that decoding uses is the map that encoding uses.\<close>

lemma al_put_fresh: "k \<notin> set (al_keys m) \<Longrightarrow> al_put k v m = m @ [(k, v)]"
  by (induction k v m rule: al_put.induct) auto

lemma enc_reversed_same: "distinct (al_keys symbols) \<Longrightarrow> enc_reversed symbols = symbols"
proof -
  have "distinct (al_keys (m @ s)) \<Longrightarrow> foldl (\<lambda>m (short, full). al_put short full m) m s = m @ s" for m s :: table
  proof (induction s arbitrary: m)
    case (Cons x s)
    obtain k v where x: "x = (k, v)" by force
    then have "al_put k v m = m @ [x]" using Cons.prems by (auto intro!: al_put_fresh)
    then show ?case using Cons.IH [of "m @ [x]"] Cons.prems x by simp
  qed simp
  from this [of "[]" symbols] show "distinct (al_keys symbols) \<Longrightarrow> enc_reversed symbols = symbols" by (simp add: enc_reversed_def)
qed

text \<open>
  Decoding encodes. Whatever orders the maps are iterated in, the decoder does to a text what the encoder
  does in some order: it replaces the long words by the short ones, so it never restores a word.
\<close>

theorem tdd_decode_encodes:
  assumes "mset symbols = mset encoderSymbols" "mset rev_symbols = mset (enc_reversed symbols)"
  shows "mset rev_symbols = mset encoderSymbols \<and> enc_Decode rev_symbols input = enc_Encode rev_symbols input"
proof -
  have "mset (al_keys symbols) = mset (al_keys encoderSymbols)" using assms(1) by (metis mset_map)
  moreover have "distinct (al_keys encoderSymbols)" by (simp add: encoderSymbols_def)
  ultimately have "distinct (al_keys symbols)" by (metis mset_eq_imp_distinct_iff)
  from enc_reversed_same [OF this] show ?thesis using assms by (simp add: enc_Decode_def enc_Encode_def)
qed

lemma tdd_decode_encodes_witness:
  "enc_Encode encoderSymbols '' a function b '' = '' a fn b '' \<and>
   enc_Decode (enc_reversed encoderSymbols) '' a fn b, a function b '' = '' a fn b, a fn b ''"
proof -
  have e: "enc_Encode encoderSymbols '' a function b '' = '' a fn b ''"
    "enc_Encode (enc_reversed encoderSymbols) '' a fn b, a function b '' = '' a fn b, a fn b ''" by code_simp+
  then show ?thesis using tdd_decode_encodes [OF refl refl, of "'' a fn b, a function b ''"] by simp
qed

section \<open>Words that share a symbol\<close>

lemma tdd_step_absent: "\<not> contains result trm \<Longrightarrow> tdd_step cfg (result, n) (trm, symbol) = (result, n)"
  by (simp add: tdd_step_def)

lemma tdd_fold_absent:
  "\<forall>(trm, symbol) \<in> set symbols. \<not> contains result trm \<Longrightarrow> foldl (tdd_step cfg) (result, n) symbols = (result, n)"
  by (induction symbols) (auto simp: tdd_step_absent)

text \<open>A word that contains no other word of the table is replaced by its symbol in every order.\<close>

lemma tdd_Encode_word:
  assumes "mset symbols = mset table" "distinct (al_keys table)" "(w, s) \<in> set table"
    and "\<forall>(trm, symbol) \<in> set table. trm \<noteq> w \<longrightarrow> \<not> contains w trm" "\<forall>(trm, symbol) \<in> set table. \<not> contains s trm"
    and "replaceAll w s w = s" "len w - len s \<ge> 2"
  shows "fst (tdd_Encode DefaultTDDConfig symbols w) = s"
proof -
  have "mset (al_keys symbols) = mset (al_keys table)" using assms(1) by (metis mset_map)
  then have d: "distinct (al_keys symbols)" using assms(2) by (metis mset_eq_imp_distinct_iff)
  have st: "set symbols = set table" using assms(1) by (metis set_mset_mset)
  then obtain us vs where sp: "symbols = us @ (w, s) # vs" using assms(3) by (metis split_list)
  have "foldl (tdd_step DefaultTDDConfig) (w, 0) us = (w, 0)"
  proof (rule tdd_fold_absent, clarify)
    fix trm symbol assume "(trm, symbol) \<in> set us" "contains w trm"
    moreover from this have "trm \<noteq> w" using d sp by force
    ultimately show False using assms(4) st sp by auto
  qed
  moreover have "contains w w" by (simp add: contains_iff exI [of _ "[]"])
  then have "tdd_step DefaultTDDConfig (w, 0) (w, s) = (s, 1)"
    using assms(6,7) by (simp add: tdd_step_def DefaultTDDConfig_def)
  moreover have "foldl (tdd_step DefaultTDDConfig) (s, 1) vs = (s, 1)"
    using assms(5) st sp by (intro tdd_fold_absent) auto
  ultimately show ?thesis by (simp add: tdd_Encode_def DefaultTDDConfig_def sp)
qed

text \<open>
  The dialect is not reversible: \<^verbatim>\<open>this\<close> and \<^verbatim>\<open>type\<close> become the same symbol in every order of iteration, so
  no decoder, the one of the program included, can give both of them back.
\<close>

theorem dialect_not_reversible:
  assumes "mset symbols = mset buildSymbolMap" "mset symbols' = mset buildSymbolMap"
  shows "\<not> (\<exists>decode. decode (fst (tdd_Encode DefaultTDDConfig symbols ''this'')) = ''this'' \<and>
    decode (fst (tdd_Encode DefaultTDDConfig symbols' ''type'')) = ''type'')"
proof -
  have d: "distinct (al_keys buildSymbolMap)" by (simp add: buildSymbolMap_def)
  have tau: "u8 0x3C4 = [CHR 0xCF, CHR 0x84]" by code_simp
  have 1: "fst (tdd_Encode DefaultTDDConfig symbols ''this'') = u8 0x3C4"
    by (rule tdd_Encode_word [OF assms(1) d]) (simp_all add: buildSymbolMap_def tau)
  have 2: "fst (tdd_Encode DefaultTDDConfig symbols' ''type'') = u8 0x3C4"
    by (rule tdd_Encode_word [OF assms(2) d]) (simp_all add: buildSymbolMap_def tau)
  show ?thesis unfolding 1 2 by auto
qed

lemma dialect_not_reversible_witness:
  "\<not> (\<exists>decode. decode (fst (tdd_Encode DefaultTDDConfig buildSymbolMap ''this'')) = ''this'' \<and>
    decode (fst (tdd_Encode DefaultTDDConfig (rev buildSymbolMap) ''type'')) = ''type'')"
  by (rule dialect_not_reversible) simp_all

end
