(* ===== verification/Sketch_Store.thy ===== *)
theory Sketch_Store
  imports Filter_Configs Pipeline_Types Go_Strings
begin

text \<open>
  The sketch store, layer 17 of the pipeline (\<^verbatim>\<open>internal/filter/sketch_store.go\<close>): chunks of little importance
  are taken out of the text and a sketch of each is kept under a prefix of its hash.

  \<open>lower\<close> is \<^verbatim>\<open>strings.ToLower\<close>, \<open>est\<close> the token estimate, \<open>sha\<close> SHA-256 in hexadecimal. Scores are
  doubles. \<open>None\<close> is a panic: a negative sketch size is a slice bound.
\<close>

record Sketch =
  sk_CompressedInfo :: string
  sk_OriginalHash :: string
  sk_TokenCount :: int
  sk_Importance :: rat
  sk_ContentType :: string

record SketchStats =
  ss_TotalSketches :: int
  ss_TotalCompressed :: int
  ss_TotalRevived :: int
  ss_TokensSaved :: int

record SketchStoreFilter =
  ssf_config :: SketchStoreConfig
  ssf_sketches :: "(string \<times> Sketch) list"
  ssf_Budget :: rat
  ssf_Stats :: SketchStats

definition zeroSketchStats :: SketchStats where
  "zeroSketchStats = \<lparr>ss_TotalSketches = 0, ss_TotalCompressed = 0, ss_TotalRevived = 0, ss_TokensSaved = 0\<rparr>"

definition NewSketchStoreFilterWithConfig :: "SketchStoreConfig \<Rightarrow> SketchStoreFilter" where
  "NewSketchStoreFilterWithConfig cfg =
     \<lparr>ssf_config = cfg, ssf_sketches = [], ssf_Budget = sketch_BudgetRatio cfg, ssf_Stats = zeroSketchStats\<rparr>"

definition NewSketchStoreFilter :: SketchStoreFilter where
  "NewSketchStoreFilter = NewSketchStoreFilterWithConfig DefaultSketchStoreConfig"

section \<open>Chunks\<close>

text \<open>\<^verbatim>\<open>strings.Split\<close> at an empty line.\<close>

fun split_blank :: "string \<Rightarrow> string list" where
  "split_blank [] = [[]]"
| "split_blank [c] = [[c]]"
| "split_blank (c # d # s) =
     (if c = nl \<and> d = nl then [] # split_blank s
      else (case split_blank (d # s) of [] \<Rightarrow> [[c]] | l # ls \<Rightarrow> (c # l) # ls))"

fun chunk_lines :: "(string \<Rightarrow> int) \<Rightarrow> string list \<Rightarrow> string \<Rightarrow> int \<Rightarrow> string list" where
  "chunk_lines est [] current n = (if n > 0 then [trimSpace current] else [])"
| "chunk_lines est (line # lines) current n =
     (let k = est line
      in if n + k > 200 \<and> n > 0 then current # chunk_lines est lines (line @ [nl]) k
         else chunk_lines est lines (current @ line @ [nl]) (n + k))"

definition splitIntoChunks :: "(string \<Rightarrow> int) \<Rightarrow> string \<Rightarrow> string list" where
  "splitIntoChunks est input =
     concat (map (\<lambda>block. let block = trimSpace block
                          in if block \<noteq> [] then chunk_lines est (split_on nl block) [] 0 else [])
       (split_blank input))"

definition importantPatterns :: "string list" where
  "importantPatterns = [''func '', ''function '', ''class '', ''struct '', ''interface '', ''export '', ''public '', ''return '',
     ''error'', ''main'', ''api'', ''handler'', ''config'', ''init'']"

definition boilerplate :: "string list" where
  "boilerplate = [''generated by'', ''auto-generated'', ''copyright'', ''license'', ''see below'', ''as shown above'', ''note that'']"

definition add_for :: "string \<Rightarrow> rat \<Rightarrow> string list \<Rightarrow> rat \<Rightarrow> rat" where
  "add_for low d ps score = foldl (\<lambda>score p. if contains low p then fadd score d else score) score ps"

definition calculateImportance :: "(string \<Rightarrow> string) \<Rightarrow> string \<Rightarrow> rat" where
  "calculateImportance lower chunk =
     (let low = lower chunk;
          score = add_for low (f64 (1/10)) importantPatterns (1/2);
          score = foldl (\<lambda>score b. if contains low b then fsub score (f64 (1/5)) else score) score boilerplate;
          score = (if score < 0 then 0 else score)
      in if score > 1 then 1 else score)"

record scoredChunk =
  sc_content :: string
  sc_score :: rat
  sc_tokens :: int

definition scoreChunks :: "(string \<Rightarrow> int) \<Rightarrow> (string \<Rightarrow> string) \<Rightarrow> string list \<Rightarrow> scoredChunk list" where
  "scoreChunks est lower chunks =
     map (\<lambda>chunk. \<lparr>sc_content = chunk, sc_score = calculateImportance lower chunk, sc_tokens = est chunk\<rparr>) chunks"

section \<open>Sketches\<close>

definition structuralPrefixes :: "string list" where
  "structuralPrefixes = [''func '', ''type '', ''struct '', ''class '', ''def '', ''import '', ''package '']"

definition compress_line :: "string \<Rightarrow> string \<Rightarrow> string" where
  "compress_line compressed line =
     (let trimmed = trimSpace line;
          compressed = (if list_ex (has_prefix trimmed) structuralPrefixes then compressed @ trimmed @ [nl] else compressed)
      in if compressed = [] \<and> trimmed \<noteq> [] then compressed @ trimmed @ [nl] else compressed)"

definition compressContent :: "SketchStoreFilter \<Rightarrow> string \<Rightarrow> string option" where
  "compressContent f content =
     (let result = foldl compress_line [] (split_on nl content);
          m = sketch_MaxSketchSize (ssf_config f)
      in if len result > m then if m < 0 then None else Some (take (nat m) result) else Some result)"

definition sketchCodeIndicators :: "string list" where
  "sketchCodeIndicators = [''func '', ''function '', ''def '', ''class '', ''struct '', ''import '', ''package '', ''var '',
     ''const '', ''let '', ''{'', ''}'', ''()'', ''();'']"

definition sketch_isCode :: "string \<Rightarrow> bool" where
  "sketch_isCode content \<longleftrightarrow> length (filter (contains content) sketchCodeIndicators) \<ge> 3"

definition createSketch :: "(string \<Rightarrow> int) \<Rightarrow> (string \<Rightarrow> string) \<Rightarrow> SketchStoreFilter \<Rightarrow> string \<Rightarrow> rat \<Rightarrow> Sketch option" where
  "createSketch est sha f content importance =
     map_option (\<lambda>compressed. \<lparr>sk_CompressedInfo = compressed, sk_OriginalHash = sha content, sk_TokenCount = est content,
        sk_Importance = importance, sk_ContentType = (if sketch_isCode content then ''code'' else ''text'')\<rparr>)
       (compressContent f content)"

definition sketch_key :: "string \<Rightarrow> string" where
  "sketch_key hash = take 8 hash"

definition sketch_threshold :: "SketchStoreFilter \<Rightarrow> Mode \<Rightarrow> rat" where
  "sketch_threshold f mode =
     (let t = sketch_HeavyHitterRatio (ssf_config f) in if mode = ModeAggressive then fadd t (f64 (1/10)) else t)"

definition put_sketch :: "Sketch \<Rightarrow> SketchStoreFilter \<Rightarrow> SketchStoreFilter" where
  "put_sketch sketch f =
     f\<lparr>ssf_sketches := al_put (sketch_key (sk_OriginalHash sketch)) sketch (ssf_sketches f),
       ssf_Stats := (ssf_Stats f)\<lparr>ss_TotalSketches := ss_TotalSketches (ssf_Stats f) + 1\<rparr>\<rparr>"

fun sketch_loop ::
  "(string \<Rightarrow> int) \<Rightarrow> (string \<Rightarrow> string) \<Rightarrow> rat \<Rightarrow> scoredChunk list \<Rightarrow> string \<Rightarrow> int \<Rightarrow> SketchStoreFilter \<Rightarrow>
   ((string \<times> int) \<times> SketchStoreFilter) option" where
  "sketch_loop est sha threshold [] result saved f = Some ((result, saved), f)"
| "sketch_loop est sha threshold (sc # scs) result saved f =
     (if sc_score sc \<ge> threshold
      then sketch_loop est sha threshold scs (result @ sc_content sc @ [nl, nl]) saved f
      else case createSketch est sha f (sc_content sc) (sc_score sc) of
             None \<Rightarrow> None
           | Some sketch \<Rightarrow> sketch_loop est sha threshold scs result (saved + sc_tokens sc) (put_sketch sketch f))"

definition compressWithSketches ::
  "(string \<Rightarrow> int) \<Rightarrow> (string \<Rightarrow> string) \<Rightarrow> scoredChunk list \<Rightarrow> Mode \<Rightarrow> SketchStoreFilter \<Rightarrow>
   ((string \<times> int) \<times> SketchStoreFilter) option" where
  "compressWithSketches est sha chunks mode f =
     map_option (\<lambda>((result, saved), f). ((trimSpace result, saved), f))
       (sketch_loop est sha (sketch_threshold f mode) chunks [] 0 f)"

definition sketch_Apply ::
  "(string \<Rightarrow> int) \<Rightarrow> (string \<Rightarrow> string) \<Rightarrow> (string \<Rightarrow> string) \<Rightarrow> string \<Rightarrow> Mode \<Rightarrow> SketchStoreFilter \<Rightarrow>
   ((string \<times> int) \<times> SketchStoreFilter) option" where
  "sketch_Apply est sha lower input mode f =
     (if mode = ModeNone then Some ((input, 0), f)
      else compressWithSketches est sha (scoreChunks est lower (splitIntoChunks est input)) mode f)"

section \<open>The store\<close>

definition Revive :: "string \<Rightarrow> SketchStoreFilter \<Rightarrow> string option \<times> SketchStoreFilter" where
  "Revive sketchHash f =
     (case al_get (ssf_sketches f) sketchHash of
        None \<Rightarrow> (None, f)
      | Some sketch \<Rightarrow>
          (Some (sk_CompressedInfo sketch),
           f\<lparr>ssf_Stats := (ssf_Stats f)\<lparr>ss_TotalRevived := ss_TotalRevived (ssf_Stats f) + 1\<rparr>\<rparr>))"

definition GetSketch :: "string \<Rightarrow> SketchStoreFilter \<Rightarrow> Sketch option" where
  "GetSketch hash f = al_get (ssf_sketches f) hash"

definition GetAllSketches :: "SketchStoreFilter \<Rightarrow> (string \<times> Sketch) list" where
  "GetAllSketches f = ssf_sketches f"

definition sketch_GetStats :: "SketchStoreFilter \<Rightarrow> SketchStats" where
  "sketch_GetStats f = ssf_Stats f"

text \<open>\<open>fmt2\<close> is \<^verbatim>\<open>%.2f\<close>.\<close>

definition ExportSketches :: "(rat \<Rightarrow> string) \<Rightarrow> SketchStoreFilter \<Rightarrow> string" where
  "ExportSketches fmt2 f =
     concat (map (\<lambda>(hash, s). hash @ '':'' @ sk_ContentType s @ '':'' @ itoa (sk_TokenCount s) @ '':'' @ fmt2 (sk_Importance s) @ [nl])
       (ssf_sketches f))"

text \<open>The lines are split and thrown away.\<close>

definition ImportSketches :: "string \<Rightarrow> SketchStoreFilter \<Rightarrow> SketchStoreFilter" where
  "ImportSketches text f = f"

definition sketch_Clear :: "SketchStoreFilter \<Rightarrow> SketchStoreFilter" where
  "sketch_Clear f = f\<lparr>ssf_sketches := [], ssf_Stats := zeroSketchStats\<rparr>"

section \<open>What is kept and what is sketched\<close>

lemma put_sketch_config [simp]: "ssf_config (put_sketch s f) = ssf_config f"
  by (simp add: put_sketch_def)

lemma createSketch_config: "ssf_config f = ssf_config g \<Longrightarrow> createSketch est sha f c i = createSketch est sha g c i"
  by (simp add: createSketch_def compressContent_def)

lemma createSketch_Some: "0 \<le> sketch_MaxSketchSize (ssf_config f) \<Longrightarrow> \<exists>s. createSketch est sha f c i = Some s \<and> sk_OriginalHash s = sha c"
  by (simp add: createSketch_def compressContent_def Let_def)

text \<open>The sketches the loop leaves: of chunks with one key the last one.\<close>

definition sketched :: "rat \<Rightarrow> scoredChunk list \<Rightarrow> scoredChunk list" where
  "sketched threshold scs = filter (\<lambda>sc. \<not> sc_score sc \<ge> threshold) scs"

lemma sketch_loop_spec:
  assumes "0 \<le> sketch_MaxSketchSize (ssf_config f)"
  shows "\<exists>g. sketch_loop est sha th scs result saved f =
      Some ((result @ concat (map (\<lambda>sc. sc_content sc @ [nl, nl]) (filter (\<lambda>sc. sc_score sc \<ge> th) scs)),
             saved + sum_list (map sc_tokens (sketched th scs))), g) \<and>
    ssf_config g = ssf_config f \<and>
    (\<forall>k. al_get (ssf_sketches g) k =
      (case filter (\<lambda>sc. sketch_key (sha (sc_content sc)) = k) (rev (sketched th scs)) of
         [] \<Rightarrow> al_get (ssf_sketches f) k
       | sc # _ \<Rightarrow> createSketch est sha f (sc_content sc) (sc_score sc)))"
  using assms
proof (induction scs arbitrary: result saved f)
  case Nil
  then show ?case by (simp add: sketched_def)
next
  case (Cons sc scs)
  show ?case
  proof (cases "sc_score sc \<ge> th")
    case True
    then show ?thesis using Cons.IH [OF Cons.prems, of "result @ sc_content sc @ [nl, nl]" saved] by (simp add: sketched_def)
  next
    case False
    obtain s where s: "createSketch est sha f (sc_content sc) (sc_score sc) = Some s" "sk_OriginalHash s = sha (sc_content sc)"
      using createSketch_Some [OF Cons.prems] by blast
    have "0 \<le> sketch_MaxSketchSize (ssf_config (put_sketch s f))" using Cons.prems by simp
    from Cons.IH [OF this, of result "saved + sc_tokens sc"] obtain g where
      g: "sketch_loop est sha th scs result (saved + sc_tokens sc) (put_sketch s f) =
        Some ((result @ concat (map (\<lambda>sc. sc_content sc @ [nl, nl]) (filter (\<lambda>sc. sc_score sc \<ge> th) scs)),
             saved + sc_tokens sc + sum_list (map sc_tokens (sketched th scs))), g)"
      "ssf_config g = ssf_config f"
      "\<And>k. al_get (ssf_sketches g) k =
        (case filter (\<lambda>sc. sketch_key (sha (sc_content sc)) = k) (rev (sketched th scs)) of
         [] \<Rightarrow> al_get (ssf_sketches (put_sketch s f)) k
       | sc # _ \<Rightarrow> createSketch est sha (put_sketch s f) (sc_content sc) (sc_score sc))" by auto
    have "al_get (ssf_sketches g) k =
      (case filter (\<lambda>sc. sketch_key (sha (sc_content sc)) = k) (rev (sketched th (sc # scs))) of
         [] \<Rightarrow> al_get (ssf_sketches f) k
       | sc # _ \<Rightarrow> createSketch est sha f (sc_content sc) (sc_score sc))" for k
      using g(3) [of k] False s createSketch_config [of "put_sketch s f" f]
      by (auto simp: sketched_def put_sketch_def split: list.splits)
    then show ?thesis using g(1,2) False s(1) by (auto simp: sketched_def)
  qed
qed

text \<open>
  The filter partitions the text: the chunks that score at least the threshold are the output, in
  order, and every other chunk leaves a sketch of its own that is found under the first eight digits of its
  hash (when no two of them agree in those); the saving is the sum of the estimates of the chunks taken out.
\<close>

theorem sketch_partition:
  assumes "mode \<noteq> ModeNone" "0 \<le> sketch_MaxSketchSize (ssf_config f)"
    and "scs = scoreChunks est lower (splitIntoChunks est input)" "th = sketch_threshold f mode"
    and "inj_on (\<lambda>c. sketch_key (sha c)) (sc_content ` set (sketched th scs))"
  shows "\<exists>g. sketch_Apply est sha lower input mode f =
      Some ((trimSpace (concat (map (\<lambda>sc. sc_content sc @ [nl, nl]) (filter (\<lambda>sc. sc_score sc \<ge> th) scs))),
             sum_list (map sc_tokens (sketched th scs))), g) \<and>
    (\<forall>sc. sc \<in> set (sketched th scs) \<longrightarrow>
      GetSketch (sketch_key (sha (sc_content sc))) g = createSketch est sha f (sc_content sc) (sc_score sc))"
proof -
  obtain g where g: "sketch_loop est sha th scs [] 0 f =
      Some ((concat (map (\<lambda>sc. sc_content sc @ [nl, nl]) (filter (\<lambda>sc. sc_score sc \<ge> th) scs)),
             sum_list (map sc_tokens (sketched th scs))), g)"
    "\<And>k. al_get (ssf_sketches g) k =
      (case filter (\<lambda>sc. sketch_key (sha (sc_content sc)) = k) (rev (sketched th scs)) of
         [] \<Rightarrow> al_get (ssf_sketches f) k
       | sc # _ \<Rightarrow> createSketch est sha f (sc_content sc) (sc_score sc))"
    using sketch_loop_spec [OF assms(2), of est sha th scs "[]" 0] by auto
  have "GetSketch (sketch_key (sha (sc_content sc))) g = createSketch est sha f (sc_content sc) (sc_score sc)"
    if sc: "sc \<in> set (sketched th scs)" for sc
  proof -
    let ?fl = "filter (\<lambda>x. sketch_key (sha (sc_content x)) = sketch_key (sha (sc_content sc))) (rev (sketched th scs))"
    have "sc \<in> set ?fl" using sc by simp
    then obtain d ds where d: "?fl = d # ds" by (cases ?fl) auto
    then have "d \<in> set ?fl" by simp
    then have dd: "d \<in> set (sketched th scs)" "sketch_key (sha (sc_content d)) = sketch_key (sha (sc_content sc))" by auto
    then have "sc_content d = sc_content sc" using assms(5) sc unfolding inj_on_def by blast
    moreover have "sc_score d = sc_score sc"
      using dd(1) sc calculation by (auto simp: assms(3) scoreChunks_def sketched_def)
    ultimately show ?thesis using g(2) [of "sketch_key (sha (sc_content sc))"] d by (simp add: GetSketch_def)
  qed
  then show ?thesis using g(1) assms(1,3,4) by (auto simp: sketch_Apply_def compressWithSketches_def)
qed

definition demo_sketch_text :: string where
  "demo_sketch_text = ''copyright license'' @ [nl, nl] @ ''x = 1''"

lemma demo_scores: "scoreChunks len (\<lambda>s. s) (splitIntoChunks len demo_sketch_text) =
    [\<lparr>sc_content = ''copyright license'', sc_score = fsub (fsub (1/2) (f64 (1/5))) (f64 (1/5)), sc_tokens = 17\<rparr>,
     \<lparr>sc_content = ''x = 1'', sc_score = 1/2, sc_tokens = 5\<rparr>]"
proof -
  have c: "splitIntoChunks len demo_sketch_text = [''copyright license'', ''x = 1'']" by code_simp
  have r: "0 \<le> fsub (fsub (1/2) (f64 (1/5))) (f64 (1/5))" "fsub (fsub (1/2) (f64 (1/5))) (f64 (1/5)) \<le> 1" by code_simp+
  have n: "filter (contains ''copyright license'') importantPatterns = []" "filter (contains ''x = 1'') importantPatterns = []"
    "filter (contains ''x = 1'') boilerplate = []" "filter (contains ''copyright license'') boilerplate = [''copyright'', ''license'']"
    by code_simp+
  have f: "foldl (\<lambda>score p. if contains low p then g score else score) x ps = foldl (\<lambda>score p. g score) x (filter (contains low) ps)"
    for low g and x :: rat and ps by (induction ps arbitrary: x) auto
  have "calculateImportance (\<lambda>s. s) ''copyright license'' = fsub (fsub (1/2) (f64 (1/5))) (f64 (1/5))"
    unfolding calculateImportance_def add_for_def Let_def f n using r by auto
  moreover have "calculateImportance (\<lambda>s. s) ''x = 1'' = 1/2"
    unfolding calculateImportance_def add_for_def Let_def f n by auto
  ultimately show ?thesis by (simp add: c scoreChunks_def)
qed

lemma sketch_partition_witness:
  "\<exists>g. sketch_Apply len (\<lambda>s. s) (\<lambda>s. s) demo_sketch_text ModeMinimal NewSketchStoreFilter = Some ((''x = 1'', 17), g)"
proof -
  let ?f = NewSketchStoreFilter
  have th: "sketch_threshold ?f ModeMinimal = f64 (1/5)" by code_simp
  have low: "\<not> fsub (fsub (1/2) (f64 (1/5))) (f64 (1/5)) \<ge> f64 (1/5)" "(1/2 :: rat) \<ge> f64 (1/5)" by code_simp+
  have sk: "sketched (f64 (1/5)) (scoreChunks len (\<lambda>s. s) (splitIntoChunks len demo_sketch_text)) =
      [\<lparr>sc_content = ''copyright license'', sc_score = fsub (fsub (1/2) (f64 (1/5))) (f64 (1/5)), sc_tokens = 17\<rparr>]"
    unfolding demo_scores sketched_def using low by simp
  have m: "ModeMinimal \<noteq> ModeNone" "0 \<le> sketch_MaxSketchSize (ssf_config ?f)" by code_simp+
  have inj: "inj_on (\<lambda>c. sketch_key ((\<lambda>s. s) c)) (sc_content ` set (sketched (f64 (1/5)) (scoreChunks len (\<lambda>s. s) (splitIntoChunks len demo_sketch_text))))"
    unfolding sk by simp
  have t: "trimSpace (''x = 1'' @ [nl, nl]) = ''x = 1''" by code_simp
  show ?thesis
    using sketch_partition [OF m refl th [symmetric] inj] low t unfolding sk unfolding demo_scores by auto
qed

text \<open>A revived chunk has at most the size of a sketch, so a longer chunk is not given back.\<close>

lemma revived_is_short:
  assumes "createSketch est sha f c i = Some s" "0 \<le> sketch_MaxSketchSize (ssf_config f)"
  shows "len (sk_CompressedInfo s) \<le> sketch_MaxSketchSize (ssf_config f)"
  using assms by (auto simp: createSketch_def compressContent_def Let_def split: if_splits)

text \<open>What was exported cannot be imported.\<close>

lemma import_restores_nothing: "ssf_sketches (ImportSketches (ExportSketches fmt2 f) (sketch_Clear f)) = []"
  by (simp add: ImportSketches_def sketch_Clear_def)

section \<open>What counts as unimportant\<close>

lemma half_mono: "1/2 \<le> x \<Longrightarrow> 1/2 \<le> fadd x (f64 (1/10))"
proof -
  assume "1/2 \<le> x"
  then have "fadd (1/2) (f64 (1/10)) \<le> fadd x (f64 (1/10))" by (intro fadd_mono) simp_all
  moreover have "1/2 \<le> fadd (1/2) (f64 (1/10))" by code_simp
  ultimately show ?thesis by simp
qed

lemma add_for_half: "1/2 \<le> x \<Longrightarrow> 1/2 \<le> add_for low (f64 (1/10)) ps x"
proof (induction ps arbitrary: x)
  case (Cons p ps)
  have "1/2 \<le> (if contains low p then fadd x (f64 (1/10)) else x)" using half_mono [OF Cons.prems] Cons.prems by simp
  from Cons.IH [OF this] show ?case by (simp add: add_for_def)
qed (simp add: add_for_def)

lemma boilerplate_fold:
  "length (filter (contains low) bs) \<le> 1 \<Longrightarrow>
    foldl (\<lambda>score b. if contains low b then fsub score d else score) x bs =
      (if filter (contains low) bs = [] then x else fsub x d)"
proof (induction bs arbitrary: x)
  case (Cons b bs)
  then show ?case by (cases "contains low b") (auto simp: filter_empty_conv)
qed simp

lemma f64_le: "0 \<le> a \<Longrightarrow> a \<le> b \<Longrightarrow> f64 a \<le> f64 b"
  using fadd_mono [of a b 0 0] by (simp add: fadd_def)

text \<open>
  With the default threshold a chunk is taken out only when it has two of the seven phrases of the list of
  boilerplate: one of them is not enough, and the budget of the configuration plays no part.
\<close>

lemma sketched_needs_boilerplate:
  assumes "\<not> calculateImportance lower chunk \<ge> f64 (1/5)"
  shows "2 \<le> length (filter (contains (lower chunk)) boilerplate)"
proof (rule ccontr)
  assume "\<not> ?thesis"
  then have one: "length (filter (contains (lower chunk)) boilerplate) \<le> 1" by simp
  let ?x = "add_for (lower chunk) (f64 (1/10)) importantPatterns (1/2)"
  have x: "1/2 \<le> ?x" by (rule add_for_half) simp
  have "f64 (1/2 - f64 (1/5)) \<le> f64 (?x - f64 (1/5))"
    by (rule f64_le) (use x in \<open>auto\<close>, code_simp)
  moreover have "f64 (1/5) \<le> f64 (1/2 - f64 (1/5))" "f64 (1/5) \<le> 1/2" "f64 (1/5) \<le> 1" by code_simp+
  ultimately have "f64 (1/5) \<le> fsub ?x (f64 (1/5))" "f64 (1/5) \<le> ?x" using x by (simp_all add: fsub_def)
  then have "f64 (1/5) \<le> calculateImportance lower chunk"
    using boilerplate_fold [OF one, of "f64 (1/5)" ?x] \<open>f64 (1/5) \<le> 1\<close>
    by (auto simp: calculateImportance_def Let_def)
  with assms show False by simp
qed

end
