(* ===== verification/Agent_Hooks.thy ===== *)
theory Agent_Hooks
  imports Discover_Correct
begin

text \<open>
  The hook processors (\<^verbatim>\<open>internal/commands/hooks/hook.go\<close>) and the rewrite command
  (\<^verbatim>\<open>internal/commands/output/rewrite.go\<close>): what an agent that calls tokman before it runs a command is told.

  JSON texts are decoded by a parameter \<open>unmarshal\<close>, which gives the members of an object or fails; an answer is the
  value that is printed, before it is encoded. An input that cannot be read is \<open>None\<close>.
\<close>

datatype json = JNull | JBool bool | JNum int | JStr string | JArr "json list" | JObj "(string \<times> json) list"

type_synonym json_object = "(string \<times> json) list"

text \<open>The type assertions \<^verbatim>\<open>v[k].(string)\<close> and \<^verbatim>\<open>v[k].(map[string]any)\<close>.\<close>

definition get_string :: "json_object \<Rightarrow> string \<Rightarrow> string option" where
  "get_string v k = (case al_get v k of Some (JStr s) \<Rightarrow> Some s | _ \<Rightarrow> None)"

definition get_object :: "json_object \<Rightarrow> string \<Rightarrow> json_object option" where
  "get_object v k = (case al_get v k of Some (JObj m) \<Rightarrow> Some m | _ \<Rightarrow> None)"

section \<open>Gemini\<close>

definition printGeminiAllow :: json where
  "printGeminiAllow = JObj [(''decision'', JStr ''allow'')]"

definition printGeminiRewrite :: "string \<Rightarrow> json" where
  "printGeminiRewrite cmd =
     JObj [(''decision'', JStr ''allow''),
           (''hookSpecificOutput'', JObj [(''tool_input'', JObj [(''command'', JStr cmd)])])]"

definition runGeminiHook :: "(string \<Rightarrow> json_object option) \<Rightarrow> string option \<Rightarrow> json option" where
  "runGeminiHook unmarshal stdin =
     (case stdin of
        None \<Rightarrow> None
      | Some input \<Rightarrow> Some (
          let inputStr = trimSpace input
          in if inputStr = [] then printGeminiAllow
          else case unmarshal inputStr of
                 None \<Rightarrow> printGeminiAllow
               | Some v \<Rightarrow>
                   (if get_string v ''tool_name'' \<noteq> Some ''run_shell_command'' then printGeminiAllow
                    else case get_object v ''tool_input'' of
                           None \<Rightarrow> printGeminiAllow
                         | Some toolInput \<Rightarrow>
                             (case get_string toolInput ''command'' of
                                None \<Rightarrow> printGeminiAllow
                              | Some cmdStr \<Rightarrow>
                                  (if cmdStr = [] then printGeminiAllow
                                   else let (rewritten, changed) = RewriteCommand cmdStr []
                                        in if \<not> changed then printGeminiAllow else printGeminiRewrite rewritten)))))"

section \<open>Copilot\<close>

datatype copilotHookFormat = CopilotFormatVsCode | CopilotFormatCli | CopilotFormatPassThrough

definition detectCopilotFormat :: "(string \<Rightarrow> json_object option) \<Rightarrow> json_object \<Rightarrow> copilotHookFormat \<times> string" where
  "detectCopilotFormat unmarshal v =
     (case get_string v ''tool_name'' of
        Some toolName \<Rightarrow>
          (if toolName \<in> {''runTerminalCommand'', ''Bash'', ''bash''}
           then case get_object v ''tool_input'' of
                  None \<Rightarrow> (CopilotFormatPassThrough, [])
                | Some toolInput \<Rightarrow>
                    (case get_string toolInput ''command'' of
                       None \<Rightarrow> (CopilotFormatPassThrough, [])
                     | Some cmd \<Rightarrow> if cmd \<noteq> [] then (CopilotFormatVsCode, cmd) else (CopilotFormatPassThrough, []))
           else (CopilotFormatPassThrough, []))
      | None \<Rightarrow>
          (if get_string v ''toolName'' = Some ''bash''
           then case get_string v ''toolArgs'' of
                  None \<Rightarrow> (CopilotFormatPassThrough, [])
                | Some toolArgsStr \<Rightarrow>
                    (case unmarshal toolArgsStr of
                       None \<Rightarrow> (CopilotFormatPassThrough, [])
                     | Some toolArgs \<Rightarrow>
                         (case get_string toolArgs ''command'' of
                            None \<Rightarrow> (CopilotFormatPassThrough, [])
                          | Some cmd \<Rightarrow> if cmd \<noteq> [] then (CopilotFormatCli, cmd) else (CopilotFormatPassThrough, [])))
           else (CopilotFormatPassThrough, [])))"

definition handleCopilotVsCode :: "string \<Rightarrow> json option" where
  "handleCopilotVsCode cmd =
     (let (rewritten, changed) = RewriteCommand cmd []
      in if \<not> changed then None
      else Some (JObj [(''hookSpecificOutput'', JObj
             [(''hookEventName'', JStr ''PreToolUse''), (''permissionDecision'', JStr ''allow''),
              (''permissionDecisionReason'', JStr ''TokMan auto-rewrite''),
              (''updatedInput'', JObj [(''command'', JStr rewritten)])])]))"

definition handleCopilotCli :: "string \<Rightarrow> json option" where
  "handleCopilotCli cmd =
     (let (rewritten, changed) = RewriteCommand cmd []
      in if \<not> changed then Some (JObj [])
      else Some (JObj [(''permissionDecision'', JStr ''deny''),
             (''permissionDecisionReason'', JStr (''Token savings: use `'' @ rewritten @ ''` instead (tokman saves 60-90% tokens)''))]))"

definition runCopilotHook :: "(string \<Rightarrow> json_object option) \<Rightarrow> string option \<Rightarrow> json option" where
  "runCopilotHook unmarshal stdin =
     (case stdin of
        None \<Rightarrow> None
      | Some input \<Rightarrow>
          (let inputStr = trimSpace input
           in if inputStr = [] then None
           else case unmarshal inputStr of
                  None \<Rightarrow> None
                | Some v \<Rightarrow>
                    (case detectCopilotFormat unmarshal v of
                       (CopilotFormatVsCode, command) \<Rightarrow> handleCopilotVsCode command
                     | (CopilotFormatCli, command) \<Rightarrow> handleCopilotCli command
                     | (CopilotFormatPassThrough, _) \<Rightarrow> None)))"

section \<open>The rewrite command\<close>

definition rewriteCmd :: "string list \<Rightarrow> string + string" where
  "rewriteCmd args =
     (let fullCmd = foldl (\<lambda>full a. full @ '' '' @ a) (hd args) (tl args);
          (rewritten, changed) = RewriteCommand fullCmd []
      in if \<not> changed then Inl (''no rewrite available for: '' @ fullCmd) else Inr rewritten)"

section \<open>What the agent is told\<close>

definition decision :: "json \<Rightarrow> json option" where
  "decision j = (case j of JObj m \<Rightarrow> al_get m ''decision'' | _ \<Rightarrow> None)"

text \<open>The Gemini hook allows whatever it is asked, an input it cannot parse included.\<close>

lemma gemini_always_allows: "runGeminiHook unmarshal stdin = Some answer \<Longrightarrow> decision answer = Some (JStr ''allow'')"
  by (auto simp: runGeminiHook_def Let_def decision_def printGeminiAllow_def printGeminiRewrite_def
      split: option.splits if_splits prod.splits)

text \<open>An answer of the VS Code hook: the decision and the command to run.\<close>

definition approved_command :: "json option \<Rightarrow> string option" where
  "approved_command answer =
     (case answer of
        Some (JObj m) \<Rightarrow>
          (case get_object m ''hookSpecificOutput'' of
             Some h \<Rightarrow>
               (if get_string h ''permissionDecision'' = Some ''allow''
                then case get_object h ''updatedInput'' of Some u \<Rightarrow> get_string u ''command'' | None \<Rightarrow> None
                else None)
           | None \<Rightarrow> None)
      | _ \<Rightarrow> None)"

lemma approved_vscode: "approved_command (handleCopilotVsCode cmd) =
    (if snd (RewriteCommand cmd []) then Some (fst (RewriteCommand cmd [])) else None)"
  by (simp add: handleCopilotVsCode_def approved_command_def get_object_def get_string_def split_beta Let_def)

text \<open>What the hook is asked, and that it is the command it then handles.\<close>

definition vscode_request :: "json_object \<Rightarrow> string \<Rightarrow> bool" where
  "vscode_request v cmd \<longleftrightarrow> get_string v ''tool_name'' = Some ''Bash'' \<and> cmd \<noteq> [] \<and>
     (\<exists>toolInput. get_object v ''tool_input'' = Some toolInput \<and> get_string toolInput ''command'' = Some cmd)"

lemma run_vscode:
  assumes "unmarshal (trimSpace input) = Some v" "trimSpace input \<noteq> []" "vscode_request v cmd"
  shows "runCopilotHook unmarshal (Some input) = handleCopilotVsCode cmd"
  using assms by (auto simp: runCopilotHook_def detectCopilotFormat_def vscode_request_def Let_def)

text \<open>
  C10: the VS Code hook approves a whole line when one of its commands has a tokman form: the answer tells
  the agent to run the line without asking, with every other command of the line in it as it was
  written, whatever that command does.
\<close>

theorem hook_approves_whole_line:
  assumes "unmarshal (trimSpace input) = Some v" "trimSpace input \<noteq> []" "vscode_request v (command_line s r)"
    and "simple_command s" "list_all (\<lambda>(op, t). simple_command t) r" "r \<noteq> []"
    and "\<not> contains (command_line s r) ''<<''" "\<not> contains (command_line s r) ''$((''"
    and "snd (rewriteSegment s []) \<or> list_ex (\<lambda>(op, t). snd (rewriteSegment t [])) r"
  shows "approved_command (runCopilotHook unmarshal (Some input)) =
    Some (command_line (fst (rewriteSegment s [])) (map (\<lambda>(op, t). (op, fst (rewriteSegment t []))) r))"
  using assms(9)
  by (simp add: run_vscode [where unmarshal = unmarshal, OF assms(1,2,3)] approved_vscode RewriteCommand_line [OF assms(4-8)])

lemma hook_approves_whole_line_witness:
  "approved_command (runCopilotHook
      (\<lambda>_. Some [(''tool_name'', JStr ''Bash''), (''tool_input'', JObj [(''command'', JStr ''rm -rf src; git status'')])]) (Some ''x'')) =
    Some ''rm -rf src; tokman git status''"
proof -
  let ?u = "\<lambda>_ :: string. Some [(''tool_name'', JStr ''Bash''), (''tool_input'', JObj [(''command'', JStr ''rm -rf src; git status'')])]"
  let ?r = "[(Semicolon, ''git status'')]"
  have l: "command_line ''rm -rf src'' ?r = ''rm -rf src; git status''" by simp
  have u: "?u (trimSpace ''x'') = Some [(''tool_name'', JStr ''Bash''), (''tool_input'', JObj [(''command'', JStr ''rm -rf src; git status'')])]"
    by simp
  have x: "trimSpace ''x'' \<noteq> []" by code_simp
  have v: "vscode_request [(''tool_name'', JStr ''Bash''), (''tool_input'', JObj [(''command'', JStr ''rm -rf src; git status'')])]
      (command_line ''rm -rf src'' ?r)" by (simp add: l vscode_request_def get_string_def get_object_def)
  have "trimSpace ''rm -rf src'' = ''rm -rf src''" "trimSpace ''git status'' = ''git status''" by code_simp+
  then have s: "simple_command ''rm -rf src''" "list_all (\<lambda>(op, t). simple_command t) ?r" "?r \<noteq> []"
    by (simp_all add: simple_command_def special_def)
  have c: "\<not> contains (command_line ''rm -rf src'' ?r) ''<<''" "\<not> contains (command_line ''rm -rf src'' ?r) ''$((''"
    unfolding l by code_simp+
  have e: "fst (rewriteSegment ''rm -rf src'' []) = ''rm -rf src''" "rewriteSegment ''git status'' [] = (''tokman git status'', True)"
    by code_simp+
  then have "snd (rewriteSegment ''rm -rf src'' []) \<or> list_ex (\<lambda>(op, t). snd (rewriteSegment t [])) ?r" by simp
  from hook_approves_whole_line [where unmarshal = ?u, OF u x v s c this] show ?thesis by (simp add: e)
qed

end
