(* ===== verification/Context_Read.thy ===== *)
theory Context_Read
  imports LRU_Cache Read_Modes Fingerprint_Cache Filter_Engine Go_Path Toml_Filter
begin

text \<open>
  Smart reads of files (\<^verbatim>\<open>internal/contextread/read.go\<close>, \<^verbatim>\<open>store.go\<close>): the modes, the budgets on
  lines and tokens, the cache of renderings in memory and on disk, and the snapshots that deltas are
  computed against.

  The state file is JSON; what a string becomes when it is written and read again is the parameter
  \<open>cr_json\<close>. The project graph, path resolution, the file system and the entropy of a line are
  parameters too. \<open>None\<close> is a panic or a loop that does not end; an error is the left summand.
  An operation reads the clock once.
\<close>

section \<open>The store\<close>

definition maxSnapshots :: int where "maxSnapshots = 128"
definition maxRenderCache :: int where "maxRenderCache = 256"
definition maxContentBytes :: int where "maxContentBytes = 256 * 1024"

record Snapshot =
  sn_Path :: string
  sn_Fingerprint :: string
  sn_Content :: string
  sn_UpdatedAt :: gotime

record RenderEntry =
  re_Key :: string
  re_Output :: string
  re_OriginalTokens :: int
  re_FinalTokens :: int
  re_UpdatedAt :: gotime

record Store =
  st_Snapshots :: "(string \<times> Snapshot) list"
  st_RenderCache :: "(string \<times> RenderEntry) list"

definition emptyStore :: Store where
  "emptyStore = \<lparr>st_Snapshots = [], st_RenderCache = []\<rparr>"

text \<open>The state file: absent, not readable, not a store, or a store.\<close>

datatype state_file = Missing | Unreadable string | Malformed string | Stored Store

definition store_Load :: "state_file \<Rightarrow> string + Store" where
  "store_Load f =
     (case f of Missing \<Rightarrow> Inr emptyStore | Unreadable e \<Rightarrow> Inl e | Malformed e \<Rightarrow> Inl e | Stored s \<Rightarrow> Inr s)"

definition json_snapshot :: "(string \<Rightarrow> string) \<Rightarrow> Snapshot \<Rightarrow> Snapshot" where
  "json_snapshot json sn = sn\<lparr>sn_Path := json (sn_Path sn), sn_Fingerprint := json (sn_Fingerprint sn), sn_Content := json (sn_Content sn)\<rparr>"

definition json_render :: "(string \<Rightarrow> string) \<Rightarrow> RenderEntry \<Rightarrow> RenderEntry" where
  "json_render json re = re\<lparr>re_Key := json (re_Key re), re_Output := json (re_Output re)\<rparr>"

definition json_map :: "(string \<Rightarrow> string) \<Rightarrow> ('v \<Rightarrow> 'v) \<Rightarrow> (string \<times> 'v) list \<Rightarrow> (string \<times> 'v) list" where
  "json_map json f m = foldl (\<lambda>acc (k, v). al_put (json k) (f v) acc) [] m"

definition store_Save :: "(string \<Rightarrow> string) \<Rightarrow> string option \<Rightarrow> Store \<Rightarrow> state_file \<Rightarrow> string option \<times> state_file" where
  "store_Save json fails s f =
     (case fails of
        Some e \<Rightarrow> (Some e, f)
      | None \<Rightarrow> (None, Stored \<lparr>st_Snapshots = json_map json (json_snapshot json) (st_Snapshots s),
                              st_RenderCache = json_map json (json_render json) (st_RenderCache s)\<rparr>))"

definition trimContent :: "string \<Rightarrow> string" where
  "trimContent content = (if len content \<le> maxContentBytes then content else take (nat maxContentBytes) content)"

text \<open>
  Pruning sorts the entries by age, starting from the order of iteration \<open>iter\<close> of the map; ties are
  left in that order, which is any.
\<close>

definition prune :: "((string \<times> Snapshot) list \<Rightarrow> (string \<times> Snapshot) list) \<Rightarrow> Store \<Rightarrow> Store" where
  "prune iter s =
     (if len (st_Snapshots s) \<le> maxSnapshots then s
      else let snaps = sort_key sn_UpdatedAt (map snd (iter (st_Snapshots s)));
               toRemove = len (st_Snapshots s) - maxSnapshots
           in s\<lparr>st_Snapshots := foldl (\<lambda>m sn. al_del (sn_Path sn) m) (st_Snapshots s) (take (nat toRemove) snaps)\<rparr>)"

definition pruneRenderCache :: "((string \<times> RenderEntry) list \<Rightarrow> (string \<times> RenderEntry) list) \<Rightarrow> Store \<Rightarrow> Store" where
  "pruneRenderCache iter s =
     (if len (st_RenderCache s) \<le> maxRenderCache then s
      else let entries = sort_key re_UpdatedAt (map snd (iter (st_RenderCache s)));
               toRemove = len (st_RenderCache s) - maxRenderCache
           in s\<lparr>st_RenderCache := foldl (\<lambda>m e. al_del (re_Key e) m) (st_RenderCache s) (take (nat toRemove) entries)\<rparr>)"

text \<open>\<^verbatim>\<open>normalizePath\<close> asks the file system: for the absolute form of a path, and for it without links.\<close>

definition normalizePath :: "(string \<Rightarrow> string option) \<Rightarrow> (string \<Rightarrow> string option) \<Rightarrow> string \<Rightarrow> string" where
  "normalizePath abs_path eval_links path =
     (let path = (case abs_path path of Some a \<Rightarrow> a | None \<Rightarrow> path);
          path = (case eval_links path of Some e \<Rightarrow> e | None \<Rightarrow> path)
      in path_clean path)"

section \<open>Options and parameters\<close>

record Options =
  op_Level :: string
  op_Mode :: string
  op_MaxLines :: int
  op_MaxTokens :: int
  op_LineNumbers :: bool
  op_StartLine :: int
  op_EndLine :: int
  op_SaveSnapshot :: bool
  op_RelatedFiles :: int

record buildResult =
  br_Output :: string
  br_OriginalTokens :: int
  br_FinalTokens :: int

record Bundle =
  bu_TargetFile :: string
  bu_RelatedFiles :: "string list"
  bu_Content :: string
  bu_OriginalTokens :: int
  bu_FinalTokens :: int

record Metadata =
  me_Kind :: string
  me_RequestedMode :: string
  me_ResolvedMode :: string
  me_Target :: string
  me_RelatedFiles :: int
  me_Bundle :: bool

record read_env =
  cr_est :: "string \<Rightarrow> int"
  cr_sha :: "string \<Rightarrow> string"
  cr_lower :: "string \<Rightarrow> string"
  cr_json :: "string \<Rightarrow> string"
  cr_abs :: "string \<Rightarrow> string option"
  cr_links :: "string \<Rightarrow> string option"
  cr_rel :: "string \<Rightarrow> string \<Rightarrow> string option"
  cr_exists :: "string \<Rightarrow> bool"
  cr_file :: "string \<Rightarrow> string option"
  cr_graph :: "string \<Rightarrow> string + (string \<Rightarrow> int \<Rightarrow> string list)"
  cr_high_entropy :: "string \<Rightarrow> bool"
  cr_engine :: EngineLib
  cr_iter_lang :: "(string \<times> int) list \<Rightarrow> (string \<times> int) list"
  cr_iter_delta :: "string list \<Rightarrow> string list"
  cr_iter_snap :: "(string \<times> Snapshot) list \<Rightarrow> (string \<times> Snapshot) list"
  cr_iter_render :: "(string \<times> RenderEntry) list \<Rightarrow> (string \<times> RenderEntry) list"
  cr_write_fails :: "string option"

definition normalize :: "read_env \<Rightarrow> string \<Rightarrow> string" where
  "normalize E = normalizePath (cr_abs E) (cr_links E)"

definition store_Get :: "read_env \<Rightarrow> string \<Rightarrow> Store \<Rightarrow> Snapshot option" where
  "store_Get E path s = al_get (st_Snapshots s) (normalize E path)"

definition store_Put :: "read_env \<Rightarrow> gotime \<Rightarrow> string \<Rightarrow> string \<Rightarrow> Store \<Rightarrow> Store" where
  "store_Put E now path content s =
     (let key = normalize E path
      in prune (cr_iter_snap E) (s\<lparr>st_Snapshots := al_put key
           \<lparr>sn_Path = key, sn_Fingerprint = ComputeFingerprint (cr_sha E) content,
            sn_Content = trimContent content, sn_UpdatedAt = now\<rparr> (st_Snapshots s)\<rparr>))"

definition GetRender :: "string \<Rightarrow> Store \<Rightarrow> RenderEntry option" where
  "GetRender key s = al_get (st_RenderCache s) key"

definition PutRender :: "read_env \<Rightarrow> gotime \<Rightarrow> string \<Rightarrow> string \<Rightarrow> int \<Rightarrow> int \<Rightarrow> Store \<Rightarrow> Store" where
  "PutRender E now key output originalTokens finalTokens s =
     pruneRenderCache (cr_iter_render E) (s\<lparr>st_RenderCache := al_put key
       \<lparr>re_Key = key, re_Output = trimContent output, re_OriginalTokens = originalTokens,
        re_FinalTokens = finalTokens, re_UpdatedAt = now\<rparr> (st_RenderCache s)\<rparr>)"

section \<open>Modes\<close>

definition filepathExt :: "string \<Rightarrow> string" where
  "filepathExt path =
     (if CHR ''.'' \<in> set path then CHR ''.'' # rev (takeWhile (\<lambda>c. c \<noteq> CHR ''.'') (rev path)) else [])"

definition extensionLanguages :: "(string \<times> string) list" where
  "extensionLanguages =
     [(''.go'', ''go''), (''.rs'', ''rust''), (''.py'', ''python''), (''.pyw'', ''python''),
      (''.js'', ''javascript''), (''.mjs'', ''javascript''), (''.cjs'', ''javascript''),
      (''.ts'', ''typescript''), (''.tsx'', ''typescript''), (''.java'', ''java''),
      (''.c'', ''c''), (''.h'', ''c''), (''.cpp'', ''cpp''), (''.cc'', ''cpp''), (''.cxx'', ''cpp''),
      (''.hpp'', ''cpp''), (''.hh'', ''cpp''), (''.rb'', ''ruby''), (''.sh'', ''shell''),
      (''.bash'', ''shell''), (''.zsh'', ''shell''), (''.sql'', ''sql'')]"

definition detectLanguageFromExtension :: "string \<Rightarrow> string" where
  "detectLanguageFromExtension path =
     (case al_get extensionLanguages (toLower (filepathExt path)) of Some l \<Rightarrow> l | None \<Rightarrow> ''unknown'')"

definition cr_detectLanguage :: "read_env \<Rightarrow> string \<Rightarrow> string \<Rightarrow> string" where
  "cr_detectLanguage E path content =
     (let lang = detectLanguageFromExtension path
      in if lang \<noteq> ''unknown'' then lang else DetectLanguageFromInput (cr_iter_lang E) content)"

definition DetectAutoMode :: "read_env \<Rightarrow> string \<Rightarrow> string \<Rightarrow> int \<Rightarrow> int \<Rightarrow> ReadMode" where
  "DetectAutoMode E filePath content startLine endLine =
     (if startLine > 0 \<or> endLine > 0 then ReadLines
      else if has_suffix filePath ''.diff'' \<or> has_suffix filePath ''.patch'' then ReadDiff
      else let lang = cr_detectLanguage E filePath content; lines = str_count content [nl] + 1
           in if lines > 400 then ReadMap
              else if lines > 160 \<and> lang \<noteq> ''unknown'' then ReadSignatures
              else if lines > 80 then ReadAggressive
              else ReadFull)"

definition ResolveMode :: "read_env \<Rightarrow> string \<Rightarrow> string \<Rightarrow> string \<Rightarrow> int \<Rightarrow> int \<Rightarrow> string + ReadMode" where
  "ResolveMode E mode filePath content startLine endLine =
     (if mode = ''auto'' then Inr (DetectAutoMode E filePath content startLine endLine)
      else if mode = ''delta'' then Inr ReadDiff
      else if mode \<in> {ReadFull, ReadMap, ReadSignatures, ReadAggressive, ReadEntropy, ReadLines, ReadDiff} then Inr mode
      else Inl (''invalid read mode: '' @ mode @
             '' (use: auto, full, map, signatures, aggressive, entropy, lines, delta, graph)''))"

definition applyLegacyReadLevel :: "read_env \<Rightarrow> string \<Rightarrow> string \<Rightarrow> string + string" where
  "applyLegacyReadLevel E content level =
     (if level \<noteq> ModeMinimal \<and> level \<noteq> ModeAggressive \<and> level \<noteq> ''none''
      then Inl (''invalid filter level: '' @ level @ '' (use: none, minimal, aggressive)'')
      else if level = ''none'' then Inr content
      else Inr (fst (engine_Process (NewEngine (cr_engine E) level) content)))"

definition auto_options :: "ReadMode \<Rightarrow> ReadOptions" where
  "auto_options mode = \<lparr>ro_Mode = mode, ro_StartLine = 0, ro_EndLine = 0, ro_MaxTokens = 0, ro_Query = []\<rparr>"

definition read_options :: "ReadMode \<Rightarrow> Options \<Rightarrow> ReadOptions" where
  "read_options mode opts = \<lparr>ro_Mode = mode, ro_StartLine = op_StartLine opts, ro_EndLine = op_EndLine opts,
     ro_MaxTokens = op_MaxTokens opts, ro_Query = []\<rparr>"

definition noSnapshot :: string where
  "noSnapshot = ''No previous snapshot found. Returning current file in auto mode.'' @ [nl]"

definition applyDeltaRead ::
  "read_env \<Rightarrow> gotime \<Rightarrow> string \<Rightarrow> string \<Rightarrow> bool \<Rightarrow> state_file \<Rightarrow> ((string + string) \<times> state_file) option" where
  "applyDeltaRead E now filePath content saveSnapshot disk =
     (case store_Load disk of
        Inl e \<Rightarrow> Some (Inl (''failed to load read snapshots: '' @ e), disk)
      | Inr store \<Rightarrow>
          map_option (\<lambda>output.
            if saveSnapshot
            then (case store_Save (cr_json E) (cr_write_fails E) (store_Put E now filePath content store) disk of
                    (Some e, disk) \<Rightarrow> (Inl (''failed to save read snapshot: '' @ e), disk)
                  | (None, disk) \<Rightarrow> (Inr output, disk))
            else (Inr output, disk))
          (case store_Get E filePath store of
             Some snap \<Rightarrow> Some (FormatDelta (ComputeDelta (cr_iter_delta E) (sn_Content snap) content))
           | None \<Rightarrow> map_option (\<lambda>t. noSnapshot @ t)
                      (ReadContent (cr_high_entropy E) content (auto_options (DetectAutoMode E filePath content 0 0)))))"

section \<open>Bundles\<close>

definition rootMarkers :: "string list" where
  "rootMarkers = [''.git'', ''go.mod'', ''package.json'', ''pyproject.toml'', ''Cargo.toml'']"

lemma clean_step_size:
  "sum_list (map (\<lambda>c. Suc (length c)) (clean_step r out c)) \<le> sum_list (map (\<lambda>c. Suc (length c)) out) + (if c = [] then 0 else Suc (length c))"
  by (cases out) (auto simp: clean_step.simps)

lemma clean_fold_size:
  "sum_list (map (\<lambda>c. Suc (length c)) (foldl (clean_step r) out cs)) \<le>
     sum_list (map (\<lambda>c. Suc (length c)) out) + sum_list (map (\<lambda>c. if c = [] then 0 else Suc (length c)) cs)"
proof (induction cs arbitrary: out)
  case (Cons c cs)
  show ?case using Cons.IH [of "clean_step r out c"] clean_step_size [of r out c] by simp
qed simp

lemma split_size: "sum_list (map (\<lambda>c. Suc (length c)) (split_on x s)) = Suc (length s)"
  by (induction x s rule: split_on.induct) (auto split: list.splits)

lemma length_join_slash: "length (join [x] cs) = sum_list (map (\<lambda>c. Suc (length c)) cs) - 1"
  by (induction cs rule: induct_list012) auto

lemma nonempty_size:
  "sum_list (map (\<lambda>c. if c = [] then 0 else Suc (length c)) cs) + count_list cs [] = sum_list (map (\<lambda>c. Suc (length c)) cs)"
  by (induction cs) auto

text \<open>A cleaned path is shorter when something of it, a final slash or an empty element, is dropped.\<close>

lemma path_clean_shorter:
  assumes "q \<noteq> []" "q \<noteq> ''/''" "last q = CHR ''/''"
  shows "length (path_clean q) < length q \<or> path_clean q = ''.''"
proof -
  let ?cs = "split_on CHR ''/'' q" and ?r = "has_prefix q ''/''"
  let ?out = "foldl (clean_step ?r) [] ?cs"
  let ?n = "sum_list (map (\<lambda>c. Suc (length c)) ?out)"
  obtain q' where q: "q = q' @ ''/''" using assms(1,3) by (metis append_butlast_last_id)
  with assms(2) have q': "q' \<noteq> []" by auto
  have cs: "?cs = split_on CHR ''/'' q' @ [[]]" unfolding q using split_on_append [of "CHR ''/''" q' "[]"] by simp
  have two: "count_list ?cs [] \<ge> (if ?r then 2 else 1)"
  proof (cases ?r)
    case True
    then obtain q'' where "q' = CHR ''/'' # q''" using q q' by (cases q') auto
    then show ?thesis by (simp add: cs)
  qed (simp add: cs)
  have n: "?n + (if ?r then 2 else 1) \<le> Suc (length q)"
    using clean_fold_size [of ?r "[]" ?cs] nonempty_size [of ?cs] split_size [of "CHR ''/''" q] two by simp
  have len: "length (join ''/'' (rev ?out)) = ?n - 1" by (simp add: length_join_slash rev_map [symmetric])
  have "2 \<le> length q" using q q' by (cases q') auto
  then show ?thesis using n len q by (auto simp: path_clean_def Let_def split: if_splits)
qed

lemma path_dir_shorter:
  assumes "path_dir p \<noteq> p" "path_dir p \<noteq> ''.''"
  shows "length (path_dir p) < length p"
proof -
  let ?q = "rev (dropWhile (\<lambda>c. c \<noteq> CHR ''/'') (rev p))"
  have le: "length ?q \<le> length p" using length_dropWhile_le [of _ "rev p"] by simp
  have c0: "path_clean [] = ''.''" "path_clean ''/'' = ''/''" by code_simp+
  have ne: "?q \<noteq> []" using assms(2) by (metis c0(1) path_dir_def)
  then have l: "last ?q = CHR ''/''" using hd_dropWhile [of "\<lambda>c. c \<noteq> CHR ''/''" "rev p"] by (simp add: last_rev)
  show ?thesis
  proof (cases "?q = ''/''")
    case True
    then have "path_dir p = ''/''" by (simp add: path_dir_def c0)
    moreover have "CHR ''/'' \<in> set p" using True by (metis set_rev set_dropWhileD list.set_intros(1))
    ultimately show ?thesis using assms(1) by (cases p; cases "tl p") auto
  next
    case False
    show ?thesis using path_clean_shorter [OF ne False l] assms(2) le by (auto simp: path_dir_def)
  qed
qed

lemma path_dir_dot: "path_dir ''.'' = ''.''"
  by code_simp

text \<open>The search for the root of the project goes up until a directory is its own parent.\<close>

function detectProjectRoot_loop :: "(string \<Rightarrow> bool) \<Rightarrow> string \<Rightarrow> string" where
  "detectProjectRoot_loop stat dir =
     (if list_ex (\<lambda>marker. stat (path_join [dir, marker])) rootMarkers then dir
      else let parent = path_dir dir
           in if parent = dir then dir else detectProjectRoot_loop stat parent)"
  by pat_completeness auto

termination
proof (relation "measure (\<lambda>(stat, dir). if dir = ''.'' then 0 else Suc (length dir))")
  fix stat :: "string \<Rightarrow> bool" and dir parent
  assume "parent = path_dir dir" "parent \<noteq> dir"
  then show "((stat, parent), stat, dir) \<in> measure (\<lambda>(stat, dir). if dir = ''.'' then 0 else Suc (length dir))"
    using path_dir_shorter [of dir] path_dir_dot by auto
qed simp

declare detectProjectRoot_loop.simps [simp del]

definition detectProjectRoot :: "(string \<Rightarrow> bool) \<Rightarrow> string \<Rightarrow> string" where
  "detectProjectRoot stat filePath = detectProjectRoot_loop stat (path_dir filePath)"

text \<open>One related file: what it adds to the bundle.\<close>

definition related_part :: "read_env \<Rightarrow> string \<Rightarrow> string \<Rightarrow> string option" where
  "related_part E rootDir related =
     (let relatedPath = path_join [rootDir, related]
      in case cr_file E relatedPath of
           None \<Rightarrow> Some []
         | Some relatedContent \<Rightarrow>
             (let mode = DetectAutoMode E relatedPath relatedContent 0 0;
                  mode = (if mode = ReadFull then ReadMap else mode)
              in map_option (\<lambda>snippet. if trimSpace snippet = [] then []
                   else nl # ''## '' @ related @ [nl] @ snippet @ [nl])
                 (ReadContent (cr_high_entropy E) relatedContent (auto_options mode))))"

fun related_loop :: "read_env \<Rightarrow> string \<Rightarrow> string list \<Rightarrow> string \<Rightarrow> string option" where
  "related_loop E rootDir [] out = Some out"
| "related_loop E rootDir (r # rs) out =
     (case related_part E rootDir r of None \<Rightarrow> None | Some p \<Rightarrow> related_loop E rootDir rs (out @ p))"

definition trimRightNl :: "string \<Rightarrow> string" where
  "trimRightNl s = rev (dropWhile (\<lambda>c. c = nl) (rev s))"

definition buildGraphBundle ::
  "read_env \<Rightarrow> string \<Rightarrow> string \<Rightarrow> Options \<Rightarrow> (string + string \<times> string list \<times> string) option" where
  "buildGraphBundle E filePath content opts =
     (if filePath = ''stdin'' then Some (Inl ''graph mode requires a file path'')
      else let rootDir = detectProjectRoot (cr_exists E) filePath;
               relPath = (case cr_rel E rootDir filePath of Some r \<Rightarrow> r | None \<Rightarrow> path_base filePath)
           in case cr_graph E rootDir of
                Inl e \<Rightarrow> Some (Inl (''failed to analyze project graph: '' @ e))
              | Inr findRelatedFiles \<Rightarrow>
                  (let targetMode = DetectAutoMode E filePath content (op_StartLine opts) (op_EndLine opts)
                   in case ReadContent (cr_high_entropy E) content (read_options targetMode opts) of
                        None \<Rightarrow> None
                      | Some target \<Rightarrow>
                          (let out = ''# Target File'' @ [nl] @ relPath @ [nl, nl] @ target;
                               relatedLimit = (if op_RelatedFiles opts \<le> 0 then 3 else op_RelatedFiles opts);
                               relatedFiles = findRelatedFiles relPath relatedLimit
                           in if relatedFiles = [] then Some (Inr (relPath, [], out))
                              else map_option (\<lambda>out. Inr (relPath, relatedFiles, trimRightNl out))
                                (related_loop E rootDir relatedFiles (out @ [nl, nl] @ ''# Related Files'' @ [nl])))))"

definition BuildBundle :: "read_env \<Rightarrow> string \<Rightarrow> string \<Rightarrow> Options \<Rightarrow> (string + Bundle) option" where
  "BuildBundle E filePath content opts =
     map_option (\<lambda>r. case r of
         Inl e \<Rightarrow> Inl e
       | Inr (targetFile, relatedFiles, contentOut) \<Rightarrow>
           Inr \<lparr>bu_TargetFile = targetFile, bu_RelatedFiles = relatedFiles, bu_Content = contentOut,
                bu_OriginalTokens = cr_est E content, bu_FinalTokens = cr_est E contentOut\<rparr>)
       (buildGraphBundle E filePath content opts)"

section \<open>Rendering\<close>

definition ApplyMode ::
  "read_env \<Rightarrow> gotime \<Rightarrow> string \<Rightarrow> string \<Rightarrow> Options \<Rightarrow> state_file \<Rightarrow> ((string + string) \<times> state_file) option" where
  "ApplyMode E now filePath content opts disk =
     (if op_Mode opts = [] then Some (applyLegacyReadLevel E content (op_Level opts), disk)
      else if op_Mode opts = ''graph''
      then map_option (\<lambda>r. (map_sum (\<lambda>e. e) (\<lambda>(_, _, output). output) r, disk))
             (buildGraphBundle E filePath content opts)
      else case ResolveMode E (op_Mode opts) filePath content (op_StartLine opts) (op_EndLine opts) of
             Inl e \<Rightarrow> Some (Inl e, disk)
           | Inr mode \<Rightarrow>
               (if mode = ReadDiff
                then if filePath = ''stdin'' then Some (Inl ''delta mode requires a file path'', disk)
                     else applyDeltaRead E now filePath content (op_SaveSnapshot opts) disk
                else map_option (\<lambda>t. (Inr t, disk))
                       (ReadContent (cr_high_entropy E) content (read_options mode opts))))"

fun budget_loop :: "(string \<Rightarrow> int) \<Rightarrow> int \<Rightarrow> string list \<Rightarrow> string list \<Rightarrow> string list" where
  "budget_loop est maxTokens kept [] = kept"
| "budget_loop est maxTokens kept (line # ls) =
     (let candidate = kept @ [line]
      in if est (join_lines candidate) > maxTokens then kept else budget_loop est maxTokens candidate ls)"

definition truncateToTokenBudget :: "(string \<Rightarrow> int) \<Rightarrow> string \<Rightarrow> int \<Rightarrow> string" where
  "truncateToTokenBudget est content maxTokens =
     (let ls = split_lines content
      in if est content \<le> maxTokens then content
         else let kept = budget_loop est maxTokens [] ls
              in if kept = [] \<and> 0 < len ls then hd ls
                 else join_lines (if len kept < len ls
                   then kept @ [''... truncated to '' @ itoa maxTokens @ '' tokens ...''] else kept))"

definition cr_truncateLines :: "string \<Rightarrow> int \<Rightarrow> string option" where
  "cr_truncateLines content maxLines =
     (let ls = split_lines content
      in if len ls \<le> maxLines then Some content
         else let keepStart = go_div maxLines 2; keepEnd = go_div maxLines 4
              in case (go_slice ls 0 keepStart, go_slice ls (len ls - keepEnd) (len ls)) of
                   (Some a, Some b) \<Rightarrow>
                     Some (join_lines (a @ [''// ... '' @ itoa (len ls - keepStart - keepEnd) @ '' lines omitted ...''] @ b))
                 | _ \<Rightarrow> None)"

text \<open>\<^verbatim>\<open>%*d\<close> pads with spaces on the left.\<close>

definition numbered :: "nat \<Rightarrow> int \<Rightarrow> string \<Rightarrow> string" where
  "numbered width i line =
     replicate (width - length (itoa i)) CHR '' '' @ itoa i @ [CHR '' '', CHR 0xE2, CHR 0x94, CHR 0x82, CHR '' ''] @ line @ [nl]"

definition addLineNumbers :: "string \<Rightarrow> string" where
  "addLineNumbers content =
     (let ls = split_lines content; width = length (itoa (len ls))
      in concat (map (\<lambda>(i, line). numbered width (int i + 1) line) (List.enumerate 0 ls)))"

text \<open>The rendering of \<^verbatim>\<open>Build\<close> when nothing is cached.\<close>

definition render_read ::
  "read_env \<Rightarrow> gotime \<Rightarrow> string \<Rightarrow> string \<Rightarrow> Options \<Rightarrow> state_file \<Rightarrow> ((string + buildResult) \<times> state_file) option" where
  "render_read E now filePath content opts disk =
     (case ApplyMode E now filePath content opts disk of
        None \<Rightarrow> None
      | Some (Inl e, disk) \<Rightarrow> Some (Inl e, disk)
      | Some (Inr filtered, disk) \<Rightarrow>
          (let filtered = (if op_MaxTokens opts > 0 then truncateToTokenBudget (cr_est E) filtered (op_MaxTokens opts) else filtered)
           in map_option (\<lambda>filtered.
                let filtered = (if op_LineNumbers opts then addLineNumbers filtered else filtered)
                in (Inr \<lparr>br_Output = filtered, br_OriginalTokens = cr_est E content, br_FinalTokens = cr_est E filtered\<rparr>, disk))
              (if op_MaxLines opts > 0 then cr_truncateLines filtered (op_MaxLines opts) else Some filtered)))"

section \<open>The caches\<close>

definition cacheKey :: "read_env \<Rightarrow> string \<Rightarrow> string \<Rightarrow> Options \<Rightarrow> string option" where
  "cacheKey E filePath content opts =
     (if filePath = ''stdin'' then None
      else Some (normalize E filePath @ ''|'' @ ComputeFingerprint (cr_sha E) content @ ''|'' @
        cr_lower E (op_Level opts) @ ''|'' @ cr_lower E (op_Mode opts) @ ''|'' @
        itoa (op_MaxLines opts) @ ''|'' @ itoa (op_MaxTokens opts) @ ''|'' @
        itoa (op_StartLine opts) @ ''|'' @ itoa (op_EndLine opts) @ ''|'' @ itoa (op_RelatedFiles opts) @
        (if op_LineNumbers opts then ''|ln'' else []) @ (if op_SaveSnapshot opts then ''|snap'' else [])))"

definition loadPersistedRender :: "string \<Rightarrow> state_file \<Rightarrow> buildResult option" where
  "loadPersistedRender key disk =
     (case store_Load disk of
        Inl e \<Rightarrow> None
      | Inr store \<Rightarrow> map_option (\<lambda>entry. \<lparr>br_Output = re_Output entry, br_OriginalTokens = re_OriginalTokens entry,
          br_FinalTokens = re_FinalTokens entry\<rparr>) (GetRender key store))"

definition savePersistedRender :: "read_env \<Rightarrow> gotime \<Rightarrow> string \<Rightarrow> buildResult \<Rightarrow> state_file \<Rightarrow> state_file" where
  "savePersistedRender E now key result disk =
     (case store_Load disk of
        Inl e \<Rightarrow> disk
      | Inr store \<Rightarrow> snd (store_Save (cr_json E) (cr_write_fails E)
          (PutRender E now key (br_Output result) (br_OriginalTokens result) (br_FinalTokens result) store) disk))"

record read_state =
  rs_cache :: "buildResult LRUCache"
  rs_disk :: state_file

definition renderCache0 :: "buildResult LRUCache" where
  "renderCache0 = NewLRUCache 512 (10 * Minute)"

text \<open>The two lookups of \<^verbatim>\<open>Build\<close>: in memory, then on disk.\<close>

definition cached_render :: "gotime \<Rightarrow> string \<Rightarrow> read_state \<Rightarrow> (buildResult option \<times> read_state) option" where
  "cached_render now key st =
     (case lru_Get now key (rs_cache st) of
        (Some r, c) \<Rightarrow> Some (Some r, st\<lparr>rs_cache := c\<rparr>)
      | (None, c) \<Rightarrow>
          (case loadPersistedRender key (rs_disk st) of
             None \<Rightarrow> Some (None, st\<lparr>rs_cache := c\<rparr>)
           | Some r \<Rightarrow> map_option (\<lambda>c. (Some r, st\<lparr>rs_cache := c\<rparr>)) (lru_Set now key (Some r) c)))"

definition looked_up :: "gotime \<Rightarrow> string option \<Rightarrow> read_state \<Rightarrow> (buildResult option \<times> read_state) option" where
  "looked_up now k st = (case k of None \<Rightarrow> Some (None, st) | Some key \<Rightarrow> cached_render now key st)"

definition Build ::
  "read_env \<Rightarrow> gotime \<Rightarrow> string \<Rightarrow> string \<Rightarrow> Options \<Rightarrow> read_state \<Rightarrow> ((string + buildResult) \<times> read_state) option" where
  "Build E now filePath content opts st =
     (case looked_up now (cacheKey E filePath content opts) st of
        None \<Rightarrow> None
      | Some (Some r, st) \<Rightarrow> Some (Inr r, st)
      | Some (None, st) \<Rightarrow>
          (case render_read E now filePath content opts (rs_disk st) of
             None \<Rightarrow> None
           | Some (Inl e, disk) \<Rightarrow> Some (Inl e, st\<lparr>rs_disk := disk\<rparr>)
           | Some (Inr result, disk) \<Rightarrow>
               (case cacheKey E filePath content opts of
                  None \<Rightarrow> Some (Inr result, st\<lparr>rs_disk := disk\<rparr>)
                | Some key \<Rightarrow> map_option (\<lambda>c. (Inr result,
                      st\<lparr>rs_cache := c, rs_disk := savePersistedRender E now key result disk\<rparr>))
                    (lru_Set now key (Some result) (rs_cache st)))))"

section \<open>Metadata\<close>

definition Describe :: "read_env \<Rightarrow> string \<Rightarrow> string \<Rightarrow> string \<Rightarrow> Options \<Rightarrow> Metadata" where
  "Describe E kind filePath content opts =
     (let requestedMode = cr_lower E (trimSpace (op_Mode opts));
          requestedMode = (if requestedMode = [] then ''legacy'' else requestedMode);
          resolvedMode =
            (if requestedMode = ''legacy'' then
               (let r = cr_lower E (trimSpace (op_Level opts)) in if r = [] then ''minimal'' else r)
             else if requestedMode = ''graph'' then ''graph''
             else if requestedMode = ''delta'' then ''delta''
             else if requestedMode = ''auto'' then DetectAutoMode E filePath content (op_StartLine opts) (op_EndLine opts)
             else case ResolveMode E requestedMode filePath content (op_StartLine opts) (op_EndLine opts) of
                    Inr mode \<Rightarrow> mode | Inl e \<Rightarrow> requestedMode);
          bundle = (requestedMode = ''graph'' \<or> resolvedMode = ''graph'')
      in \<lparr>me_Kind = cr_lower E (trimSpace kind), me_RequestedMode = requestedMode, me_ResolvedMode = resolvedMode,
          me_Target = (if filePath \<noteq> [] \<and> filePath \<noteq> ''stdin'' then path_clean filePath else filePath),
          me_RelatedFiles = (if bundle then if op_RelatedFiles opts \<le> 0 then 3 else op_RelatedFiles opts else 0),
          me_Bundle = bundle\<rparr>)"

definition trackedCommandPatterns :: "string list" where
  "trackedCommandPatterns = [''tokman read *'', ''tokman ctx read *'', ''tokman ctx delta *'', ''tokman mcp read *'', ''tokman mcp bundle *'']"

definition TrackedCommandPatternsForKind :: "(string \<Rightarrow> string) \<Rightarrow> string \<Rightarrow> string list" where
  "TrackedCommandPatternsForKind lower kind =
     (case al_get [(''read'', [''tokman read *'', ''tokman ctx read *'']), (''delta'', [''tokman ctx delta *'']),
                   (''mcp'', [''tokman mcp read *'', ''tokman mcp bundle *''])] (lower kind) of
        Some patterns \<Rightarrow> patterns | None \<Rightarrow> [])"

section \<open>Every read answers\<close>

lemma ReadContent_total [simp]: "ReadContent he content opts \<noteq> None"
  using readLines_total [of content "ro_StartLine opts" "ro_EndLine opts"]
  by (auto simp: ReadContent_def Let_def)

lemma applyDeltaRead_total [simp]: "applyDeltaRead E now f c save disk \<noteq> None"
  by (auto simp: applyDeltaRead_def simp del: not_None_eq split: sum.splits option.splits)

lemma related_part_total [simp]: "related_part E rootDir r \<noteq> None"
  by (auto simp: related_part_def Let_def simp del: not_None_eq split: option.splits)

lemma related_loop_total [simp]: "related_loop E rootDir rs out \<noteq> None"
  by (induction rs arbitrary: out) (auto simp del: not_None_eq split: option.splits)

lemma buildGraphBundle_total [simp]: "buildGraphBundle E f c opts \<noteq> None"
  by (auto simp: buildGraphBundle_def Let_def simp del: not_None_eq split: option.splits sum.splits)

lemma ApplyMode_total [simp]: "ApplyMode E now f c opts disk \<noteq> None"
  by (auto simp: ApplyMode_def simp del: not_None_eq split: sum.splits)

lemma cr_truncateLines_total [simp]: "0 < n \<Longrightarrow> cr_truncateLines content n \<noteq> None"
  by (auto simp: cr_truncateLines_def go_slice_def Let_def)

lemma render_read_total [simp]: "render_read E now f c opts disk \<noteq> None"
  by (auto simp: render_read_def Let_def simp del: not_None_eq split: option.splits sum.splits prod.splits)

lemma lru_Set_total [simp]: "lru_inv c \<Longrightarrow> lru_Set now k v c \<noteq> None"
  using lru_Set_spec [of c now k v] by auto

lemma lru_Set_inv [go_inv]: "lru_inv c \<Longrightarrow> lru_Set now k v c = Some c' \<Longrightarrow> lru_inv c'"
  using lru_Set_spec [of c now k v] by auto

lemma cached_render_inv:
  assumes "lru_inv (rs_cache st)"
  shows "cached_render now key st \<noteq> None"
    and "cached_render now key st = Some (r, st') \<Longrightarrow> lru_inv (rs_cache st') \<and> rs_disk st' = rs_disk st"
proof -
  have inv: "lru_inv (snd (lru_Get now key (rs_cache st)))" using lru_inv_Get [OF assms] .
  show "cached_render now key st \<noteq> None" using inv lru_Set_total
    by (fastforce simp: cached_render_def split: option.splits prod.splits)
  show "cached_render now key st = Some (r, st') \<Longrightarrow> lru_inv (rs_cache st') \<and> rs_disk st' = rs_disk st" using inv
    by (auto simp: cached_render_def lru_Set_inv split: option.splits prod.splits)
qed

lemma looked_up_inv:
  assumes "lru_inv (rs_cache st)"
  obtains r st' where "looked_up now k st = Some (r, st')" "lru_inv (rs_cache st')" "rs_disk st' = rs_disk st"
  using cached_render_inv [OF assms] assms by (cases k) (fastforce simp: looked_up_def)+

text \<open>
  A smart read never panics and always returns, whatever the file, the options and the state
  file, and the cache of renderings keeps its invariant.
\<close>

theorem Build_answers:
  assumes "lru_inv (rs_cache st)"
  shows "\<exists>r st'. Build E now f c opts st = Some (r, st') \<and> lru_inv (rs_cache st')"
proof -
  obtain k where k: "cacheKey E f c opts = k" by blast
  obtain r st1 where l: "looked_up now k st = Some (r, st1)" and inv: "lru_inv (rs_cache st1)"
    by (rule looked_up_inv [OF assms])
  obtain a d where rd: "render_read E now f c opts (rs_disk st1) = Some (a, d)"
    using render_read_total [of E now f c opts "rs_disk st1"] by (metis option.exhaust surj_pair)
  obtain c' where "k = Some key \<Longrightarrow> lru_Set now (the k) (Some (projr a)) (rs_cache st1) = Some c' \<and> lru_inv c'" for key
    using lru_Set_spec [OF inv] by meson
  then show ?thesis using inv unfolding Build_def k l
    by (cases r; cases a; cases k) (simp_all add: rd)
qed

section \<open>The bounds of the store\<close>

text \<open>Both prunings are one operation on a map whose values know their key and their age.\<close>

definition prune_map :: "('v \<Rightarrow> string) \<Rightarrow> ('v \<Rightarrow> gotime) \<Rightarrow> ((string \<times> 'v) list \<Rightarrow> (string \<times> 'v) list) \<Rightarrow> int
    \<Rightarrow> (string \<times> 'v) list \<Rightarrow> (string \<times> 'v) list" where
  "prune_map key age iter bound m =
     (if len m \<le> bound then m
      else foldl (\<lambda>m e. al_del (key e) m) m (take (nat (len m - bound)) (sort_key age (map snd (iter m)))))"

lemma prune_eq: "prune iter s = s\<lparr>st_Snapshots := prune_map sn_Path sn_UpdatedAt iter maxSnapshots (st_Snapshots s)\<rparr>"
  by (simp add: prune_def prune_map_def Let_def)

lemma pruneRenderCache_eq:
  "pruneRenderCache iter s = s\<lparr>st_RenderCache := prune_map re_Key re_UpdatedAt iter maxRenderCache (st_RenderCache s)\<rparr>"
  by (simp add: pruneRenderCache_def prune_map_def Let_def)

definition keyed :: "('v \<Rightarrow> string) \<Rightarrow> (string \<times> 'v) list \<Rightarrow> bool" where
  "keyed key m \<longleftrightarrow> distinct (al_keys m) \<and> (\<forall>(k, v) \<in> set m. key v = k)"

lemma keyed_put: "keyed key m \<Longrightarrow> key v = k \<Longrightarrow> keyed key (al_put k v m)"
  using set_al_put [of k v m] by (fastforce simp: keyed_def)

lemma foldl_al_del: "foldl (\<lambda>m e. al_del (key e) m) m xs = filter (\<lambda>(k, v). k \<notin> key ` set xs) m"
  by (induction xs arbitrary: m) (auto simp: al_del_def intro!: filter_cong)

lemma keyed_values:
  assumes "keyed key m" shows "distinct (map key (map snd m))" "map key (map snd m) = al_keys m"
proof -
  show *: "map key (map snd m) = al_keys m" using assms by (auto simp: keyed_def)
  show "distinct (map key (map snd m))" unfolding * using assms by (simp add: keyed_def)
qed

lemma prune_map_spec:
  fixes age :: "'v \<Rightarrow> gotime"
  assumes "keyed key m" "mset (iter m) = mset m" "0 \<le> bound"
  defines "old \<equiv> take (nat (len m - bound)) (sort_key age (map snd (iter m)))"
  shows "prune_map key age iter bound m = filter (\<lambda>(k, v). k \<notin> key ` set old) m"
    and "length old = nat (len m - bound)" "set (map key old) \<subseteq> set (al_keys m)" "distinct (map key old)"
    and "len (prune_map key age iter bound m) = min (len m) bound" "keyed key (prune_map key age iter bound m)"
proof -
  let ?xs = "sort_key age (map snd (iter m))"
  have ms: "mset (map key ?xs) = mset (al_keys m)"
    by (metis assms(1,2) keyed_values(2) mset_map mset_sort)
  then have d: "distinct (map key ?xs)" and sk: "set (map key ?xs) = set (al_keys m)"
    using assms(1) unfolding keyed_def by (metis mset_eq_imp_distinct_iff, metis mset_eq_setD)
  have lx: "length ?xs = length m" using ms by (metis length_map size_mset)
  show eq: "prune_map key age iter bound m = filter (\<lambda>(k, v). k \<notin> key ` set old) m"
    by (auto simp: prune_map_def foldl_al_del old_def)
  show lo: "length old = nat (len m - bound)" using lx assms(3) by (simp add: old_def)
  show so: "set (map key old) \<subseteq> set (al_keys m)" using sk set_take_subset [of _ ?xs] by (fastforce simp: old_def)
  show dold: "distinct (map key old)" using d by (simp add: old_def take_map [symmetric])
  show kk: "keyed key (prune_map key age iter bound m)" unfolding eq using assms(1)
    by (auto simp: keyed_def distinct_map inj_on_def)
  have "map fst (filter (\<lambda>(k, v). k \<notin> key ` set old) m) = filter (\<lambda>k. k \<notin> set (map key old)) (al_keys m)"
    by (induction m) auto
  then have "length (prune_map key age iter bound m) = length (filter (\<lambda>k. k \<notin> set (map key old)) (al_keys m))"
    unfolding eq by (metis length_map)
  also have "\<dots> = card (set (filter (\<lambda>k. k \<notin> set (map key old)) (al_keys m)))"
    using assms(1) by (simp only: distinct_card distinct_filter keyed_def)
  also have "\<dots> = card (set (al_keys m) - set (map key old))"
    by (simp only: set_filter set_diff_eq)
  also have "\<dots> = card (set (al_keys m)) - card (set (map key old))"
    using so by (rule card_Diff_subset [OF finite_set])
  also have "\<dots> = length m - length old"
    using assms(1) by (simp only: distinct_card [OF dold] distinct_card keyed_def length_map)
  finally show "len (prune_map key age iter bound m) = min (len m) bound" using lo assms(3) by auto
qed

text \<open>An entry younger than all the others is not pruned.\<close>

lemma prune_map_keeps:
  assumes "keyed key m" "mset (iter m) = mset m" "0 < bound" "(k, v) \<in> set m"
    and "\<forall>(k', v') \<in> set m. k' \<noteq> k \<longrightarrow> age v' < age v"
  shows "al_get (prune_map key age iter bound m) k = Some v"
proof -
  let ?xs = "sort_key age (map snd (iter m))" and ?n = "nat (len m - bound)"
  note spec = prune_map_spec [where iter = iter and age = age and bound = bound, OF assms(1,2)]
  have sx: "set ?xs = snd ` set m" using assms(2) by (metis list.set_map mset_eq_setD set_sort)
  have k: "key v = k" using assms(1,4) by (auto simp: keyed_def)
  have "k \<notin> key ` set (take ?n ?xs)"
  proof
    assume "k \<in> key ` set (take ?n ?xs)"
    then obtain i where i: "i < ?n" "i < length ?xs" "key (?xs ! i) = k" by (auto simp: in_set_conv_nth)
    have d: "distinct (map key ?xs)"
      by (metis assms(1,2) keyed_values mset_eq_imp_distinct_iff mset_map mset_sort)
    have lx: "length ?xs = length m" using assms(2) by (metis length_map length_sort size_mset)
    then have j: "length m - 1 < length ?xs" "i < length m - 1" using i(1) assms(3) by auto
    have "?xs ! i \<in> snd ` set m" "?xs ! (length m - 1) \<in> snd ` set m" using i(2) j(1) sx nth_mem by blast+
    then have in_m: "(key (?xs ! i), ?xs ! i) \<in> set m" "(key (?xs ! (length m - 1)), ?xs ! (length m - 1)) \<in> set m"
      using assms(1) by (auto simp: keyed_def)
    have "v = ?xs ! i" using in_m(1) assms(1,4) i(3) by (metis eq_key_imp_eq_value keyed_def)
    moreover have "key (?xs ! (length m - 1)) \<noteq> k"
      using d i j by (metis (no_types, lifting) length_map nat_neq_iff nth_eq_iff_index_eq nth_map)
    ultimately have "age (?xs ! (length m - 1)) < age (?xs ! i)" using assms(5) in_m(2) by auto
    moreover have "age (?xs ! i) \<le> age (?xs ! (length m - 1))"
      using sorted_nth_mono [of "map age ?xs" i "length m - 1"] i(2) j by simp
    ultimately show False by simp
  qed
  then have "(k, v) \<in> set (prune_map key age iter bound m)" using spec(1) assms(3,4) by auto
  then show ?thesis using spec(6) assms(3) by (simp add: al_get_map_of keyed_def)
qed

text \<open>What every operation keeps of a store, and what a \<^verbatim>\<open>Put\<close> leaves in it.\<close>

definition store_inv :: "Store \<Rightarrow> bool" where
  "store_inv s \<longleftrightarrow> keyed sn_Path (st_Snapshots s) \<and> keyed re_Key (st_RenderCache s) \<and>
     len (st_Snapshots s) \<le> maxSnapshots \<and> len (st_RenderCache s) \<le> maxRenderCache \<and>
     (\<forall>sn \<in> snd ` set (st_Snapshots s). len (sn_Content sn) \<le> maxContentBytes) \<and>
     (\<forall>re \<in> snd ` set (st_RenderCache s). len (re_Output re) \<le> maxContentBytes)"

definition permutes_maps :: "read_env \<Rightarrow> bool" where
  "permutes_maps E \<longleftrightarrow> (\<forall>m. mset (cr_iter_snap E m) = mset m) \<and> (\<forall>m. mset (cr_iter_render E m) = mset m)"

definition older_than :: "gotime \<Rightarrow> Store \<Rightarrow> bool" where
  "older_than now s \<longleftrightarrow> (\<forall>sn \<in> snd ` set (st_Snapshots s). sn_UpdatedAt sn < now) \<and>
     (\<forall>re \<in> snd ` set (st_RenderCache s). re_UpdatedAt re < now)"

lemma store_inv_empty [go_inv]: "store_inv emptyStore"
  by (simp add: store_inv_def emptyStore_def keyed_def maxSnapshots_def maxRenderCache_def)

lemma maxContentBytes_nat [simp]: "0 \<le> maxContentBytes" "int (min n (nat maxContentBytes)) \<le> maxContentBytes"
  by (simp_all add: maxContentBytes_def)

lemma length_trimContent: "len (trimContent s) \<le> maxContentBytes"
  by (simp add: trimContent_def maxContentBytes_def)

lemma snd_al_put: "snd ` set (al_put k v m) \<subseteq> insert v (snd ` set m)"
  using set_al_put [of k v m] by force

lemma store_Put_snapshots:
  "st_Snapshots (store_Put E now path content s) = prune_map sn_Path sn_UpdatedAt (cr_iter_snap E) maxSnapshots
     (al_put (normalize E path) \<lparr>sn_Path = normalize E path, sn_Fingerprint = ComputeFingerprint (cr_sha E) content,
        sn_Content = trimContent content, sn_UpdatedAt = now\<rparr> (st_Snapshots s))"
  "st_RenderCache (store_Put E now path content s) = st_RenderCache s"
  by (simp_all add: store_Put_def Let_def prune_eq)

lemma PutRender_entries:
  "st_RenderCache (PutRender E now key output n n' s) = prune_map re_Key re_UpdatedAt (cr_iter_render E) maxRenderCache
     (al_put key \<lparr>re_Key = key, re_Output = trimContent output, re_OriginalTokens = n, re_FinalTokens = n', re_UpdatedAt = now\<rparr>
        (st_RenderCache s))"
  "st_Snapshots (PutRender E now key output n n' s) = st_Snapshots s"
  by (simp_all add: PutRender_def pruneRenderCache_eq)

lemma prune_put_inv:
  fixes age :: "'v \<Rightarrow> gotime"
  assumes "keyed key m" "key v = k" "\<And>m. mset (iter m) = mset m" "0 < bound"
    and "\<forall>x \<in> snd ` set m. P x" "P v"
  defines "m' \<equiv> prune_map key age iter bound (al_put k v m)"
  shows "keyed key m'" "len m' \<le> bound" "\<forall>x \<in> snd ` set m'. P x"
    and "(\<forall>x \<in> snd ` set m. age x < age v) \<longrightarrow> al_get m' k = Some v"
proof -
  have kp: "keyed key (al_put k v m)" using assms(1,2) by (rule keyed_put)
  note spec = prune_map_spec [where iter = iter and age = age and bound = bound, OF kp assms(3)]
  show "keyed key m'" "len m' \<le> bound" using spec(5,6) assms(4) by (simp_all add: m'_def)
  have "set m' \<subseteq> set (al_put k v m)" using spec(1) assms(4) by (auto simp: m'_def)
  then show "\<forall>x \<in> snd ` set m'. P x" using snd_al_put [of k v m] assms(5,6) by blast
  show "(\<forall>x \<in> snd ` set m. age x < age v) \<longrightarrow> al_get m' k = Some v"
  proof
    assume o: "\<forall>x \<in> snd ` set m. age x < age v"
    have "(k, v) \<in> set (al_put k v m)" by (rule al_get_Some_in) simp
    moreover have "\<forall>(k', v') \<in> set (al_put k v m). k' \<noteq> k \<longrightarrow> age v' < age v"
      using set_al_put [of k v m] o by force
    ultimately show "al_get m' k = Some v" unfolding m'_def
      by (intro prune_map_keeps [where iter = iter, OF kp assms(3,4)])
  qed
qed

lemma trimContent_take: "trimContent s = take (nat maxContentBytes) s"
  by (simp add: trimContent_def)

lemma store_Put_inv:
  assumes "store_inv s" "permutes_maps E"
  shows "store_inv (store_Put E now path content s)"
    and "older_than now s \<longrightarrow> store_Get E path (store_Put E now path content s) =
      Some \<lparr>sn_Path = normalize E path, sn_Fingerprint = ComputeFingerprint (cr_sha E) content,
            sn_Content = take (nat maxContentBytes) content, sn_UpdatedAt = now\<rparr>"
proof -
  let ?sn = "\<lparr>sn_Path = normalize E path, sn_Fingerprint = ComputeFingerprint (cr_sha E) content,
      sn_Content = take (nat maxContentBytes) content, sn_UpdatedAt = now\<rparr>"
  have *: "keyed sn_Path (st_Snapshots s)" "sn_Path ?sn = normalize E path" "mset (cr_iter_snap E m) = mset m" "0 < maxSnapshots"
     "\<forall>sn \<in> snd ` set (st_Snapshots s). len (sn_Content sn) \<le> maxContentBytes" "len (sn_Content ?sn) \<le> maxContentBytes" for m
    using assms by (simp_all add: store_inv_def permutes_maps_def maxSnapshots_def)
  note sn = prune_put_inv [where age = sn_UpdatedAt and P = "\<lambda>sn. len (sn_Content sn) \<le> maxContentBytes" and iter = "cr_iter_snap E", OF *]
  show "store_inv (store_Put E now path content s)"
    using sn(1-3) assms(1) unfolding store_inv_def store_Put_snapshots trimContent_take by blast
  show "older_than now s \<longrightarrow> store_Get E path (store_Put E now path content s) = Some ?sn"
    using sn(4) by (simp add: store_Get_def store_Put_snapshots trimContent_take older_than_def)
qed

lemma PutRender_inv:
  assumes "store_inv s" "permutes_maps E"
  shows "store_inv (PutRender E now key content n n' s)"
    and "older_than now s \<longrightarrow> GetRender key (PutRender E now key content n n' s) =
      Some \<lparr>re_Key = key, re_Output = take (nat maxContentBytes) content, re_OriginalTokens = n, re_FinalTokens = n', re_UpdatedAt = now\<rparr>"
proof -
  let ?re = "\<lparr>re_Key = key, re_Output = take (nat maxContentBytes) content, re_OriginalTokens = n, re_FinalTokens = n', re_UpdatedAt = now\<rparr>"
  have *: "keyed re_Key (st_RenderCache s)" "re_Key ?re = key" "mset (cr_iter_render E m) = mset m" "0 < maxRenderCache"
     "\<forall>re \<in> snd ` set (st_RenderCache s). len (re_Output re) \<le> maxContentBytes" "len (re_Output ?re) \<le> maxContentBytes" for m
    using assms by (simp_all add: store_inv_def permutes_maps_def maxRenderCache_def)
  note re = prune_put_inv [where age = re_UpdatedAt and P = "\<lambda>re. len (re_Output re) \<le> maxContentBytes" and iter = "cr_iter_render E", OF *]
  show "store_inv (PutRender E now key content n n' s)"
    using re(1-3) assms(1) unfolding store_inv_def PutRender_entries trimContent_take by blast
  show "older_than now s \<longrightarrow> GetRender key (PutRender E now key content n n' s) = Some ?re"
    using re(4) by (simp add: GetRender_def PutRender_entries trimContent_take older_than_def)
qed


section \<open>What the caches answer\<close>

lemma lru_Get_ttl [simp]: "lru_ttl (snd (lru_Get now key c)) = lru_ttl c"
  by (simp add: lru_Get_def lru_removeElement_def lru_moveToFront_def split: option.splits)

lemma lru_evictOldest_ttl [simp]: "lru_ttl (lru_evictOldest c) = lru_ttl c"
  by (simp add: lru_evictOldest_def lru_removeElement_def)

lemma lru_Set_ttl:
  assumes "lru_inv c" "lru_Set now key v c = Some c'" shows "lru_ttl c' = lru_ttl c"
  using assms lru_Set_new [OF assms(1), of key now v]
  by (cases "al_get (lru_entries c) key") (auto simp: lru_Set_def lru_moveToFront_def split: if_splits)

lemma lru_Get_hit:
  assumes "al_get (lru_entries c) key = Some \<lparr>le_value = v, le_createdAt = t\<rparr>" "now - t \<le> lru_ttl c"
  shows "fst (lru_Get now key c) = v"
  using assms by (simp add: lru_Get_def)

lemma looked_up_miss:
  assumes "lru_inv (rs_cache st)" "looked_up now k st = Some (None, st1)"
  shows "lru_inv (rs_cache st1)" "lru_ttl (rs_cache st1) = lru_ttl (rs_cache st)" "rs_disk st1 = rs_disk st"
proof -
  show "lru_inv (rs_cache st1)" "rs_disk st1 = rs_disk st"
    using looked_up_inv [OF assms(1), of now k] assms(2) by (metis option.inject prod.inject)+
  have "rs_cache st1 = rs_cache st \<or> (\<exists>key. rs_cache st1 = snd (lru_Get now key (rs_cache st)))"
    using assms(2) by (auto simp: looked_up_def cached_render_def split: option.splits prod.splits) (metis snd_conv)
  then show "lru_ttl (rs_cache st1) = lru_ttl (rs_cache st)" by auto
qed

text \<open>A rendering that was not cached is cached, in memory and on disk.\<close>

lemma Build_miss:
  assumes "lru_inv (rs_cache st)" "cacheKey E f c opts = Some key" "looked_up now (Some key) st = Some (None, st1)"
    and "Build E now f c opts st = Some (Inr r, st2)"
  obtains disk where "render_read E now f c opts (rs_disk st) = Some (Inr r, disk)"
    "rs_disk st2 = savePersistedRender E now key r disk"
    "al_get (lru_entries (rs_cache st2)) key = Some \<lparr>le_value = Some r, le_createdAt = now\<rparr>"
    "lru_ttl (rs_cache st2) = lru_ttl (rs_cache st)" "lru_inv (rs_cache st2)"
proof -
  note st1 = looked_up_miss [OF assms(1,3)]
  obtain a d where rd: "render_read E now f c opts (rs_disk st) = Some (a, d)"
    using render_read_total [of E now f c opts "rs_disk st"] by (metis option.exhaust surj_pair)
  obtain c' where c': "lru_Set now key (Some r) (rs_cache st1) = Some c'" "lru_inv c'"
      "al_get (lru_entries c') key = Some \<lparr>le_value = Some r, le_createdAt = now\<rparr>"
    using lru_Set_spec [OF st1(1)] by blast
  have "a = Inr r \<and> rs_cache st2 = c' \<and> rs_disk st2 = savePersistedRender E now key r d"
    using assms(4) c'(1) by (cases a) (auto simp: Build_def assms(2,3) rd st1(3))
  then show thesis using that c' rd st1(2) lru_Set_ttl [OF st1(1) c'(1)] by simp
qed

text \<open>
  C22: within the time to live, a second read of the same content with the same options gets the
  first answer, whatever has become of the state file in between, and leaves the state file
  alone. In delta mode that is a stale answer: the snapshot that the content should now be compared
  with is not looked at, and the snapshot of this content is not saved.
\<close>

theorem repeated_read_is_stale:
  assumes "lru_inv (rs_cache st)" "f \<noteq> ''stdin''"
    and "looked_up now (cacheKey E f c opts) st = Some (None, st1)"
    and "Build E now f c opts st = Some (Inr r, st2)" "now' - now \<le> lru_ttl (rs_cache st)"
  shows "\<exists>cache. Build E now' f c opts (st2\<lparr>rs_disk := disk\<rparr>) = Some (Inr r, st2\<lparr>rs_cache := cache, rs_disk := disk\<rparr>)"
proof -
  obtain key where key: "cacheKey E f c opts = Some key" using assms(2) by (simp add: cacheKey_def)
  have m: "looked_up now (Some key) st = Some (None, st1)" using assms(3) key by simp
  obtain d where d: "al_get (lru_entries (rs_cache st2)) key = Some \<lparr>le_value = Some r, le_createdAt = now\<rparr>"
      "lru_ttl (rs_cache st2) = lru_ttl (rs_cache st)"
    by (rule Build_miss [OF assms(1) key m assms(4)])
  have "fst (lru_Get now' key (rs_cache st2)) = Some r" using lru_Get_hit [OF d(1)] assms(5) d(2) by simp
  then obtain cache where "lru_Get now' key (rs_cache st2) = (Some r, cache)" by (metis prod.collapse)
  then have "looked_up now' (Some key) (st2\<lparr>rs_disk := disk\<rparr>) = Some (Some r, st2\<lparr>rs_cache := cache, rs_disk := disk\<rparr>)"
    by (simp add: looked_up_def cached_render_def)
  then show ?thesis by (auto simp: Build_def key)
qed

lemma json_map_id:
  assumes "\<And>s. json s = s" "\<And>v. g v = v" "distinct (al_keys m)"
  shows "al_get (json_map json g m) k = al_get m k"
proof -
  have "al_get (foldl (\<lambda>acc (k, v). al_put (json k) (g v) acc) a m) k =
      (case al_get m k of Some v \<Rightarrow> Some v | None \<Rightarrow> al_get a k)" for a
    using assms(3)
  proof (induction m arbitrary: a)
    case (Cons kv m)
    obtain k0 v0 where kv: "kv = (k0, v0)" by fastforce
    with Cons.prems have "al_get m k0 = None" by (auto simp: al_get_None_iff)
    with Cons.IH [of "al_put k0 v0 a"] Cons.prems show ?case
      by (cases "k = k0") (simp_all add: kv assms(1,2) split: option.split)
  qed simp
  from this [of "[]"] show ?thesis by (simp add: json_map_def split: option.splits)
qed

lemma store_Load_Stored [simp]: "store_Load (Stored s) = Inr s"
  by (simp add: store_Load_def)

lemma ApplyMode_disk:
  assumes "\<not> op_SaveSnapshot opts" "ApplyMode E now f c opts disk = Some (a, d)" shows "d = disk"
  using assms by (auto simp: ApplyMode_def applyDeltaRead_def split: if_splits sum.splits option.splits)

lemma render_read_disk:
  assumes "\<not> op_SaveSnapshot opts" "render_read E now f c opts disk = Some (a, d)" shows "d = disk"
  using assms ApplyMode_disk [OF assms(1)]
  by (auto simp: render_read_def Let_def split: option.splits sum.splits if_splits)

text \<open>
  A rendering of more than 256 KiB is not the same after a restart: the state file has its first 256
  KiB, and that is what is returned, with the token count of the whole.
\<close>

theorem restarted_read_is_cut:
  assumes "lru_inv (rs_cache st)" "f \<noteq> ''stdin''"
    and "looked_up now (cacheKey E f c opts) st = Some (None, st1)"
    and "Build E now f c opts st = Some (Inr r, st2)"
    and "\<not> op_SaveSnapshot opts" "store_Load (rs_disk st) = Inr s" "store_inv s" "older_than now s"
    and "permutes_maps E" "\<And>t. cr_json E t = t" "cr_write_fails E = None"
  shows "\<exists>st3. Build E now' f c opts (st2\<lparr>rs_cache := renderCache0\<rparr>) =
    Some (Inr (r\<lparr>br_Output := take (nat maxContentBytes) (br_Output r)\<rparr>), st3)"
proof -
  obtain key where key: "cacheKey E f c opts = Some key" using assms(2) by (simp add: cacheKey_def)
  have m: "looked_up now (Some key) st = Some (None, st1)" using assms(3) key by simp
  obtain d where d: "render_read E now f c opts (rs_disk st) = Some (Inr r, d)" "rs_disk st2 = savePersistedRender E now key r d"
    by (rule Build_miss [OF assms(1) key m assms(4)])
  have dd: "d = rs_disk st" using render_read_disk assms(5) d(1) by blast
  let ?s = "PutRender E now key (br_Output r) (br_OriginalTokens r) (br_FinalTokens r) s"
  have "distinct (al_keys (st_RenderCache ?s))"
    using PutRender_inv(1) [OF assms(7,9)] by (simp add: store_inv_def keyed_def)
  then have g: "al_get (json_map (cr_json E) (json_render (cr_json E)) (st_RenderCache ?s)) key = GetRender key ?s"
    using assms(10) by (simp add: GetRender_def json_map_id json_render_def)
  have "loadPersistedRender key (rs_disk st2) = Some (r\<lparr>br_Output := take (nat maxContentBytes) (br_Output r)\<rparr>)"
    using PutRender_inv(2) [OF assms(7,9), of now key "br_Output r" "br_OriginalTokens r" "br_FinalTokens r"] assms(8) g
    by (simp add: d(2) dd savePersistedRender_def loadPersistedRender_def assms(6,11) store_Save_def GetRender_def)
  moreover obtain cache where "lru_Set now' key (Some (r\<lparr>br_Output := take (nat maxContentBytes) (br_Output r)\<rparr>))
      (renderCache0\<lparr>lru_misses := 1\<rparr>) = Some cache"
    using lru_Set_spec [OF lru_inv_counters(2) [OF lru_inv_New]] unfolding renderCache0_def by (metis zero_le_one)
  moreover have "lru_Get now' key renderCache0 = (None, renderCache0\<lparr>lru_misses := 1\<rparr>)"
    by (simp add: lru_Get_def renderCache0_def NewLRUCache_def)
  ultimately show ?thesis by (simp add: Build_def key looked_up_def cached_render_def)
qed
text \<open>
  The modes of the key are in lower case, those of a request need not be. A mode that is refused
  is answered from the cache when the same mode in lower case was read before.
\<close>

lemma invalid_mode_answered:
  assumes "cr_lower E (op_Mode opts') = cr_lower E (op_Mode opts)" "opts' = opts\<lparr>op_Mode := mode'\<rparr>"
    and "looked_up now (cacheKey E f c opts) st = Some (Some r, st1)"
  shows "Build E now f c opts' st = Some (Inr r, st1)"
proof -
  have "cacheKey E f c opts' = cacheKey E f c opts" using assms(1) by (simp add: cacheKey_def assms(2))
  then show ?thesis by (simp add: Build_def assms(3))
qed

lemma upper_mode_refused: "ResolveMode E ''FULL'' f c n m = Inl
    ''invalid read mode: FULL (use: auto, full, map, signatures, aggressive, entropy, lines, delta, graph)''"
  by (simp add: ResolveMode_def ReadFull_def ReadMap_def ReadSignatures_def ReadAggressive_def ReadEntropy_def ReadLines_def ReadDiff_def)

section \<open>The limits on lines and tokens\<close>

lemma cr_truncateLines_bound:
  assumes "0 < n" "cr_truncateLines content n = Some t"
  shows "len (split_lines t) \<le> n"
proof (cases "len (split_lines content) \<le> n")
  case False
  let ?ls = "split_lines content" and ?m = "''// ... '' @ itoa (len (split_lines content) - n div 2 - n div 4) @ '' lines omitted ...''"
  have r: "0 \<le> n div 2" "n div 2 \<le> n" "0 \<le> n div 4" "n div 4 \<le> n" "n div 2 + n div 4 + 1 \<le> n" using assms(1) by auto
  let ?parts = "take (nat (n div 2)) ?ls @ [?m] @ drop (nat (len ?ls - n div 4)) ?ls"
  have "t = join_lines ?parts"
    using assms False r by (simp add: cr_truncateLines_def go_slice_def Let_def)
  moreover have "\<forall>l \<in> set ?parts. nl \<notin> set l"
    using split_no_sep [of _ nl content] itoa_no_nl [of "len ?ls - n div 2 - n div 4"] False r by (auto dest: in_set_takeD in_set_dropD)
  ultimately have st: "split_lines t = ?parts" by (simp add: split_join del: append_Cons append.simps)
  have "len ?parts \<le> n" using r False by simp
  then show ?thesis by (simp only: st)
qed (use assms in \<open>simp add: cr_truncateLines_def Let_def\<close>)

lemma budget_loop_spec:
  assumes "budget_loop est m kept ls = kept'" "est (join_lines kept) \<le> m \<or> kept = []"
  obtains k where "kept' = kept @ take k ls" "k \<le> length ls" "est (join_lines kept') \<le> m \<or> kept' = []"
    "k < length ls \<Longrightarrow> m < est (join_lines (kept @ take (Suc k) ls))"
  using assms
proof (induction ls arbitrary: kept thesis)
  case (Cons l ls)
  show ?case
  proof (cases "est (join_lines (kept @ [l])) > m")
    case True
    then show ?thesis using Cons.prems(1) [of 0] Cons.prems(2,3) by simp
  next
    case False
    then have b: "budget_loop est m (kept @ [l]) ls = kept'" using Cons.prems(2) by simp
    show ?thesis
    proof (rule Cons.IH [OF _ b])
      fix k assume "kept' = (kept @ [l]) @ take k ls" "k \<le> length ls" "est (join_lines kept') \<le> m \<or> kept' = []"
        "k < length ls \<Longrightarrow> m < est (join_lines ((kept @ [l]) @ take (Suc k) ls))"
      then show thesis using Cons.prems(1) [of "Suc k"] by simp
    qed (use False in simp)
  qed
qed simp

text \<open>
  C24: a text over the token budget is cut to the longest run of first lines that fits, as far as the
  first line that does not, and a note; when not even the first line fits it is
  returned all the same.
\<close>

theorem token_budget_prefix:
  assumes "est content > m"
  shows "\<exists>k \<le> length (split_lines content).
    (0 < k \<longrightarrow> est (join_lines (take k (split_lines content))) \<le> m) \<and>
    (k < length (split_lines content) \<longrightarrow> m < est (join_lines (take (Suc k) (split_lines content)))) \<and>
    truncateToTokenBudget est content m =
      (if k = 0 then hd (split_lines content)
       else join_lines (take k (split_lines content) @
         (if k < length (split_lines content) then [''... truncated to '' @ itoa m @ '' tokens ...''] else [])))"
proof -
  let ?ls = "split_lines content"
  obtain k where k: "budget_loop est m [] ?ls = take k ?ls" "k \<le> length ?ls"
      "est (join_lines (take k ?ls)) \<le> m \<or> take k ?ls = []" "k < length ?ls \<Longrightarrow> m < est (join_lines (take (Suc k) ?ls))"
    by (rule budget_loop_spec [of est m "[]" ?ls]) auto
  have "take k ?ls = [] \<longleftrightarrow> k = 0" using split_on_nonempty [of nl content] by simp
  then have "truncateToTokenBudget est content m =
      (if k = 0 then hd ?ls
       else join_lines (take k ?ls @ (if k < length ?ls then [''... truncated to '' @ itoa m @ '' tokens ...''] else [])))"
    using assms k(1,2) split_on_nonempty [of nl content] by (auto simp: truncateToTokenBudget_def Let_def)
  then show ?thesis using k(2-4) by (intro exI [of _ k]) auto
qed

text \<open>
  A file of more than 256 KiB differs from its own snapshot, since the snapshot has its first 256 KiB.
\<close>

lemma length_lines: "sum_mset (image_mset (\<lambda>l. Suc (length l)) (mset (split_lines s))) = Suc (length s)"
  unfolding mset_map [symmetric] sum_mset_sum_list by (rule split_size)

lemma large_file_never_unchanged:
  assumes "\<And>ls. distinct (iter ls)" "\<And>ls. set (iter ls) = set ls" "maxContentBytes < len content"
  defines "d \<equiv> ComputeDelta iter (take (nat maxContentBytes) content) content"
  shows "dl_Added d \<noteq> []"
proof
  assume "dl_Added d = []"
  let ?o = "mset (split_lines (take (nat maxContentBytes) content))" and ?n = "mset (split_lines content)"
  have "mset (dl_Added d) = ?n - ?o"
    using ComputeDelta_multiset [OF assms(1,2) refl] by (simp add: d_def)
  with \<open>dl_Added d = []\<close> have "?n - ?o = {#}" by simp
  then have "?n \<subseteq># ?o" by (simp add: Diff_eq_empty_iff_mset)
  then have "sum_mset (image_mset (\<lambda>l. Suc (length l)) ?n) \<le> sum_mset (image_mset (\<lambda>l. Suc (length l)) ?o)"
    by (metis image_mset_union le_add1 mset_subset_eq_exists_conv sum_mset.union)
  then have "len content \<le> maxContentBytes"
    unfolding length_lines length_take Suc_le_mono by (metis maxContentBytes_nat(2) min.absorb1 min.bounded_iff order.refl)
  then show False using assms(3) by simp
qed
section \<open>Witnesses\<close>

definition demo_read :: read_env where
  "demo_read = \<lparr>cr_est = (\<lambda>s. int (length s)), cr_sha = (\<lambda>s. s), cr_lower = toLower, cr_json = (\<lambda>s. s), cr_abs = Some, cr_links = Some,
     cr_rel = (\<lambda>_ _. None), cr_exists = (\<lambda>_. False), cr_file = (\<lambda>_. None), cr_graph = (\<lambda>_. Inl ''no graph''),
     cr_high_entropy = (\<lambda>_. True), cr_engine = noop_engine, cr_iter_lang = (\<lambda>m. m), cr_iter_delta = remdups,
     cr_iter_snap = (\<lambda>m. m), cr_iter_render = (\<lambda>m. m), cr_write_fails = None\<rparr>"

definition demo_read_opts :: "string \<Rightarrow> bool \<Rightarrow> Options" where
  "demo_read_opts mode save = \<lparr>op_Level = [], op_Mode = mode, op_MaxLines = 0, op_MaxTokens = 0, op_LineNumbers = False,
     op_StartLine = 0, op_EndLine = 0, op_SaveSnapshot = save, op_RelatedFiles = 0\<rparr>"

definition demo_read_state :: read_state where
  "demo_read_state = \<lparr>rs_cache = renderCache0, rs_disk = Missing\<rparr>"

definition answer_of :: "((string + buildResult) \<times> read_state) option \<Rightarrow> (string + buildResult) option" where
  "answer_of = map_option fst"

lemma demo_read_inv: "lru_inv (rs_cache demo_read_state)" "lru_ttl (rs_cache demo_read_state) = 10 * Minute"
  "permutes_maps demo_read"
  by (simp_all add: demo_read_state_def renderCache0_def lru_inv_New permutes_maps_def demo_read_def) (simp add: NewLRUCache_def)

lemma demo_read_miss: "\<exists>st1. looked_up 0 (Some key) demo_read_state = Some (None, st1)"
  by (simp add: looked_up_def cached_render_def demo_read_state_def renderCache0_def NewLRUCache_def lru_Get_def
    loadPersistedRender_def store_Load_def GetRender_def emptyStore_def)

lemma Build_answers_witness:
  "\<exists>r st'. Build demo_read 0 ''/a'' ''x'' (demo_read_opts ''graph'' True) demo_read_state = Some (r, st') \<and> lru_inv (rs_cache st')"
  by (rule Build_answers [OF demo_read_inv(1)])


definition demo_delta_answer :: buildResult where
  "demo_delta_answer = \<lparr>br_Output = noSnapshot @ ''x'', br_OriginalTokens = 1, br_FinalTokens = 66\<rparr>"

definition demo_newer_disk :: state_file where
  "demo_newer_disk = Stored \<lparr>st_Snapshots = [(''/a'', \<lparr>sn_Path = ''/a'', sn_Fingerprint = ''y'', sn_Content = ''y'', sn_UpdatedAt = 1\<rparr>)],
     st_RenderCache = []\<rparr>"

lemma repeated_read_is_stale_witness:
  "\<exists>st2 cache. Build demo_read 0 ''/a'' ''x'' (demo_read_opts ''delta'' True) demo_read_state = Some (Inr demo_delta_answer, st2) \<and>
    Build demo_read 2 ''/a'' ''x'' (demo_read_opts ''delta'' True) (st2\<lparr>rs_disk := demo_newer_disk\<rparr>) =
      Some (Inr demo_delta_answer, st2\<lparr>rs_cache := cache, rs_disk := demo_newer_disk\<rparr>)"
proof -
  have "answer_of (Build demo_read 0 ''/a'' ''x'' (demo_read_opts ''delta'' True) demo_read_state) = Some (Inr demo_delta_answer)"
    by (code_simp, simp add: lru_evict_loop.simps)
  then obtain st2 where b: "Build demo_read 0 ''/a'' ''x'' (demo_read_opts ''delta'' True) demo_read_state = Some (Inr demo_delta_answer, st2)"
    by (auto simp: answer_of_def)
  obtain st1 where m: "looked_up 0 (cacheKey demo_read ''/a'' ''x'' (demo_read_opts ''delta'' True)) demo_read_state = Some (None, st1)"
    using demo_read_miss by (auto simp: cacheKey_def)
  have "''/a'' \<noteq> ''stdin''" "(2::int) - 0 \<le> lru_ttl (rs_cache demo_read_state)" by (simp_all add: demo_read_inv)
  from repeated_read_is_stale [OF demo_read_inv(1) this(1) m b this(2)] show ?thesis using b by blast
qed

lemma restarted_read_is_cut_witness:
  "\<exists>r st2 st3. Build demo_read 0 ''/a'' ''x'' (demo_read_opts ''full'' False) demo_read_state = Some (Inr r, st2) \<and>
    Build demo_read 2 ''/a'' ''x'' (demo_read_opts ''full'' False) (st2\<lparr>rs_cache := renderCache0\<rparr>) =
      Some (Inr (r\<lparr>br_Output := take (nat maxContentBytes) (br_Output r)\<rparr>), st3)"
proof -
  have "answer_of (Build demo_read 0 ''/a'' ''x'' (demo_read_opts ''full'' False) demo_read_state) =
      Some (Inr \<lparr>br_Output = ''x'', br_OriginalTokens = 1, br_FinalTokens = 1\<rparr>)"
    by (code_simp, simp add: lru_evict_loop.simps)
  then obtain r st2 where b: "Build demo_read 0 ''/a'' ''x'' (demo_read_opts ''full'' False) demo_read_state = Some (Inr r, st2)"
    by (auto simp: answer_of_def)
  obtain st1 where m: "looked_up 0 (cacheKey demo_read ''/a'' ''x'' (demo_read_opts ''full'' False)) demo_read_state = Some (None, st1)"
    using demo_read_miss by (auto simp: cacheKey_def)
  have l: "store_Load (rs_disk demo_read_state) = Inr emptyStore" by (simp add: demo_read_state_def store_Load_def)
  have "''/a'' \<noteq> ''stdin''" "\<not> op_SaveSnapshot (demo_read_opts ''full'' False)" "older_than 0 emptyStore"
    "cr_json demo_read t = t" "cr_write_fails demo_read = None" for t
    by (simp_all add: demo_read_opts_def older_than_def emptyStore_def demo_read_def)
  from restarted_read_is_cut [OF demo_read_inv(1) this(1) m b this(2) l store_inv_empty this(3) demo_read_inv(3) this(4,5)]
  show ?thesis using b by blast
qed

lemma token_budget_prefix_witness:
  "\<exists>k \<le> length (split_lines (''ab'' @ nl # ''cd'')). truncateToTokenBudget len (''ab'' @ nl # ''cd'') 3 =
      (if k = 0 then hd (split_lines (''ab'' @ nl # ''cd''))
       else join_lines (take k (split_lines (''ab'' @ nl # ''cd'')) @
         (if k < length (split_lines (''ab'' @ nl # ''cd'')) then [''... truncated to '' @ itoa 3 @ '' tokens ...''] else [])))"
proof -
  have "len (''ab'' @ nl # ''cd'') > 3" by simp
  from token_budget_prefix [where est = len, OF this] show ?thesis by blast
qed

end
