(* ===== verification/Lock_Steps.thy ===== *)
theory Lock_Steps
  imports Main
begin

text \<open>
  Methods that share one \<^verbatim>\<open>sync.RWMutex\<close>: a method is a command whose atomic actions are on the
  shared state, and a pool of threads runs commands in any interleaving.

  A thread that waits for the mutex has no step; the mutex is not reentrant, so that holds for the thread that
  has it too. Go also lets a waiting writer hold back new readers; here they may go first, which
  only adds interleavings.
\<close>

datatype ('s, 'r) cmd =
    Return 'r
  | Acquire "('s, 'r) cmd"
  | Release "('s, 'r) cmd"
  | RAcquire "('s, 'r) cmd"
  | RRelease "('s, 'r) cmd"
  | Atomic "'s \<Rightarrow> 's" "('s, 'r) cmd"
  | Test "'s \<Rightarrow> bool" "('s, 'r) cmd" "('s, 'r) cmd"

record ('s, 'r) pool =
  po_state :: 's
  po_writer :: "nat option"
  po_readers :: "nat set"
  po_cmd :: "nat \<Rightarrow> ('s, 'r) cmd"

text \<open>One action of one thread.\<close>

inductive pool_step :: "nat \<Rightarrow> ('s, 'r) pool \<Rightarrow> ('s, 'r) pool \<Rightarrow> bool" where
  acquire: "po_cmd p t = Acquire c \<Longrightarrow> po_writer p = None \<Longrightarrow> po_readers p = {} \<Longrightarrow>
    pool_step t p (p\<lparr>po_writer := Some t, po_cmd := (po_cmd p)(t := c)\<rparr>)"
| release: "po_cmd p t = Release c \<Longrightarrow>
    pool_step t p (p\<lparr>po_writer := None, po_cmd := (po_cmd p)(t := c)\<rparr>)"
| racquire: "po_cmd p t = RAcquire c \<Longrightarrow> po_writer p = None \<Longrightarrow>
    pool_step t p (p\<lparr>po_readers := insert t (po_readers p), po_cmd := (po_cmd p)(t := c)\<rparr>)"
| rrelease: "po_cmd p t = RRelease c \<Longrightarrow>
    pool_step t p (p\<lparr>po_readers := po_readers p - {t}, po_cmd := (po_cmd p)(t := c)\<rparr>)"
| atomic: "po_cmd p t = Atomic f c \<Longrightarrow>
    pool_step t p (p\<lparr>po_state := f (po_state p), po_cmd := (po_cmd p)(t := c)\<rparr>)"
| test: "po_cmd p t = Test b c d \<Longrightarrow>
    pool_step t p (p\<lparr>po_cmd := (po_cmd p)(t := if b (po_state p) then c else d)\<rparr>)"

inductive_cases pool_step_cases: "pool_step t p q"

inductive pool_steps :: "('s, 'r) pool \<Rightarrow> ('s, 'r) pool \<Rightarrow> bool" where
  refl: "pool_steps p p"
| step: "pool_steps p q \<Longrightarrow> pool_step t q r \<Longrightarrow> pool_steps p r"

lemma pool_steps_trans: "pool_steps q r \<Longrightarrow> pool_steps p q \<Longrightarrow> pool_steps p r"
  by (induction rule: pool_steps.induct) (auto intro: pool_steps.intros)

section \<open>Mutual exclusion\<close>

datatype holding = Idle | Reading | Writing

text \<open>
  A command that gives back what it takes. What follows an attempt to take the mutex a second time while
  writing is never reached.
\<close>

fun balanced :: "holding \<Rightarrow> ('s, 'r) cmd \<Rightarrow> bool" where
  "balanced h (Return r) \<longleftrightarrow> h = Idle"
| "balanced h (Acquire c) \<longleftrightarrow> (h = Idle \<longrightarrow> balanced Writing c)"
| "balanced h (Release c) \<longleftrightarrow> h = Writing \<and> balanced Idle c"
| "balanced h (RAcquire c) \<longleftrightarrow> h \<noteq> Reading \<and> (h = Idle \<longrightarrow> balanced Reading c)"
| "balanced h (RRelease c) \<longleftrightarrow> h = Reading \<and> balanced Idle c"
| "balanced h (Atomic f c) \<longleftrightarrow> balanced h c"
| "balanced h (Test b c d) \<longleftrightarrow> balanced h c \<and> balanced h d"

definition holds :: "('s, 'r) pool \<Rightarrow> nat \<Rightarrow> holding" where
  "holds p t = (if po_writer p = Some t then Writing else if t \<in> po_readers p then Reading else Idle)"

definition pool_ok :: "('s, 'r) pool \<Rightarrow> bool" where
  "pool_ok p \<longleftrightarrow> (po_writer p \<noteq> None \<longrightarrow> po_readers p = {}) \<and> (\<forall>t. balanced (holds p t) (po_cmd p t))"

text \<open>The mutex of the start: nobody has it.\<close>

definition fresh_pool :: "'s \<Rightarrow> (nat \<Rightarrow> ('s, 'r) cmd) \<Rightarrow> ('s, 'r) pool" where
  "fresh_pool s cs = \<lparr>po_state = s, po_writer = None, po_readers = {}, po_cmd = cs\<rparr>"

lemma fresh_pool_ok: "(\<And>t. balanced Idle (cs t)) \<Longrightarrow> pool_ok (fresh_pool s cs)"
  by (simp add: pool_ok_def fresh_pool_def holds_def)

lemma pool_ok_step:
  assumes "pool_step t p q" "pool_ok p" shows "pool_ok q"
proof -
  have t: "balanced (holds p t) (po_cmd p t)" and w: "po_writer p \<noteq> None \<Longrightarrow> po_readers p = {}"
    and o: "\<And>u. balanced (holds p u) (po_cmd p u)"
    using assms(2) by (auto simp: pool_ok_def)
  have "balanced (holds q u) (po_cmd q u)" for u
    using assms(1)
  proof cases
    case (acquire c)
    then show ?thesis using t o [of u] by (auto simp: holds_def split: if_splits)
  next
    case (release c)
    then have "po_writer p = Some t" using t by (auto simp: holds_def split: if_splits)
    then show ?thesis using release t o [of u] w by (auto simp: holds_def split: if_splits)
  next
    case (racquire c)
    then show ?thesis using t o [of u] by (auto simp: holds_def split: if_splits)
  next
    case (rrelease c)
    then have "t \<in> po_readers p" "po_writer p \<noteq> Some t" using t by (auto simp: holds_def split: if_splits)
    then show ?thesis using rrelease t o [of u] w by (auto simp: holds_def split: if_splits)
  qed (use t o [of u] in \<open>auto simp: holds_def split: if_splits\<close>)
  moreover have "po_writer q \<noteq> None \<longrightarrow> po_readers q = {}"
    using assms(1) w t by cases (auto simp: holds_def split: if_splits)
  ultimately show ?thesis by (simp add: pool_ok_def)
qed

lemma pool_ok_steps: "pool_steps p q \<Longrightarrow> pool_ok p \<Longrightarrow> pool_ok q"
  by (induction rule: pool_steps.induct) (auto intro: pool_ok_step)

lemma pool_step_other: "pool_step t p q \<Longrightarrow> u \<noteq> t \<Longrightarrow> po_cmd q u = po_cmd p u"
  by (auto elim: pool_step_cases)

text \<open>Only the writer changes who the writer is.\<close>

lemma writer_keeps:
  assumes "pool_step t p q" "pool_ok p" "po_writer p = Some u" "t \<noteq> u"
  shows "po_writer q = Some u"
proof -
  have "balanced (holds p t) (po_cmd p t)" using assms(2) by (simp add: pool_ok_def)
  moreover have "holds p t = Idle" using assms(2-4) by (auto simp: pool_ok_def holds_def)
  ultimately have "balanced Idle (po_cmd p t)" by simp
  with assms(1,3) show ?thesis by cases auto
qed

section \<open>Deadlock\<close>

text \<open>A writer that asks for the mutex again waits for ever, and so does everyone who asks after it.\<close>

definition waits_for_itself :: "('s, 'r) pool \<Rightarrow> nat \<Rightarrow> bool" where
  "waits_for_itself p t \<longleftrightarrow> po_writer p = Some t \<and> (\<exists>c. po_cmd p t = RAcquire c \<or> po_cmd p t = Acquire c)"

lemma deadlock_step:
  assumes "pool_step u p q" "pool_ok p" "waits_for_itself p t"
  shows "waits_for_itself q t \<and> po_cmd q t = po_cmd p t \<and> u \<noteq> t"
proof -
  have "u \<noteq> t" using assms(1,3) by (auto simp: waits_for_itself_def elim: pool_step_cases)
  moreover have "po_cmd q t = po_cmd p t" using pool_step_other [OF assms(1)] \<open>u \<noteq> t\<close> by simp
  ultimately show ?thesis using writer_keeps [OF assms(1,2)] assms(3) by (auto simp: waits_for_itself_def)
qed

lemma deadlock_steps:
  assumes "pool_steps p q" "pool_ok p" "waits_for_itself p t"
  shows "waits_for_itself q t \<and> po_cmd q t = po_cmd p t"
  using assms
proof (induction rule: pool_steps.induct)
  case (step p q u r)
  then show ?case using deadlock_step [OF step.hyps(2) pool_ok_steps [OF step.hyps(1)]] by simp
qed simp

lemma deadlock_no_step: "waits_for_itself p t \<Longrightarrow> \<not> pool_step t p q"
  by (auto simp: waits_for_itself_def elim: pool_step_cases)

lemma deadlock_blocks:
  assumes "waits_for_itself p t" "po_cmd p u = Acquire c \<or> po_cmd p u = RAcquire c"
  shows "\<not> pool_step u p q"
  using assms by (auto simp: waits_for_itself_def elim!: pool_step_cases)

section \<open>One thread alone\<close>

text \<open>What a command returns when no other thread moves; \<open>None\<close> when it waits for itself.\<close>

fun alone :: "holding \<Rightarrow> ('s, 'r) cmd \<Rightarrow> 's \<Rightarrow> ('r \<times> 's) option" where
  "alone h (Return r) s = Some (r, s)"
| "alone h (Acquire c) s = (if h = Idle then alone Writing c s else None)"
| "alone h (Release c) s = alone Idle c s"
| "alone h (RAcquire c) s = (if h = Writing then None else alone Reading c s)"
| "alone h (RRelease c) s = alone Idle c s"
| "alone h (Atomic f c) s = alone h c (f s)"
| "alone h (Test b c d) s = (if b s then alone h c s else alone h d s)"

definition lone_pool :: "holding \<Rightarrow> nat \<Rightarrow> ('s, 'r) cmd \<Rightarrow> (nat \<Rightarrow> ('s, 'r) cmd) \<Rightarrow> 's \<Rightarrow> ('s, 'r) pool" where
  "lone_pool h t c cs s = \<lparr>po_state = s, po_writer = (if h = Writing then Some t else None),
     po_readers = (if h = Reading then {t} else {}), po_cmd = cs(t := c)\<rparr>"

lemma pool_steps_first: "pool_step t p q \<Longrightarrow> pool_steps q r \<Longrightarrow> pool_steps p r"
  by (rule pool_steps_trans) (auto intro: pool_steps.intros)

lemma lone_step:
  "pool_step t (lone_pool Idle t (Acquire c) cs s) (lone_pool Writing t c cs s)"
  "pool_step t (lone_pool Writing t (Release c) cs s) (lone_pool Idle t c cs s)"
  "pool_step t (lone_pool Idle t (RAcquire c) cs s) (lone_pool Reading t c cs s)"
  "pool_step t (lone_pool Reading t (RRelease c) cs s) (lone_pool Idle t c cs s)"
  "pool_step t (lone_pool h t (Atomic f c) cs s) (lone_pool h t c cs (f s))"
  "pool_step t (lone_pool h t (Test b c d) cs s) (lone_pool h t (if b s then c else d) cs s)"
proof -
  note d = lone_pool_def
  show "pool_step t (lone_pool Idle t (Acquire c) cs s) (lone_pool Writing t c cs s)"
    using pool_step.acquire [of "lone_pool Idle t (Acquire c) cs s" t c] by (simp add: d)
  show "pool_step t (lone_pool Writing t (Release c) cs s) (lone_pool Idle t c cs s)"
    using pool_step.release [of "lone_pool Writing t (Release c) cs s" t c] by (simp add: d)
  show "pool_step t (lone_pool Idle t (RAcquire c) cs s) (lone_pool Reading t c cs s)"
    using pool_step.racquire [of "lone_pool Idle t (RAcquire c) cs s" t c] by (simp add: d)
  show "pool_step t (lone_pool Reading t (RRelease c) cs s) (lone_pool Idle t c cs s)"
    using pool_step.rrelease [of "lone_pool Reading t (RRelease c) cs s" t c] by (simp add: d)
  show "pool_step t (lone_pool h t (Atomic f c) cs s) (lone_pool h t c cs (f s))"
    using pool_step.atomic [of "lone_pool h t (Atomic f c) cs s" t f c] by (simp add: d)
  show "pool_step t (lone_pool h t (Test b c d) cs s) (lone_pool h t (if b s then c else d) cs s)"
    using pool_step.test [of "lone_pool h t (Test b c d) cs s" t b c d] by (simp add: d)
qed

lemma alone_steps:
  "balanced h c \<Longrightarrow> alone h c s = Some (r, s') \<Longrightarrow>
     pool_steps (lone_pool h t c cs s) (lone_pool Idle t (Return r) cs s')"
proof (induction h c s rule: alone.induct)
  case (1 h r s)
  then show ?case by (auto intro: pool_steps.intros)
next
  case (2 h c s)
  then show ?case by (auto split: if_splits intro: pool_steps_first [OF lone_step(1)])
next
  case (3 h c s)
  then show ?case by (auto intro: pool_steps_first [OF lone_step(2)])
next
  case (4 h c s)
  then show ?case by (cases h) (auto intro: pool_steps_first [OF lone_step(3)])
next
  case (5 h c s)
  then show ?case by (auto intro: pool_steps_first [OF lone_step(4)])
next
  case (6 h f c s)
  then show ?case by (auto intro: pool_steps_first [OF lone_step(5)])
next
  case (7 h b c d s)
  have "pool_steps (lone_pool h t (if b s then c else d) cs s) (lone_pool Idle t (Return r) cs s')"
    using 7 by (auto split: if_splits)
  then show ?case by (rule pool_steps_first [OF lone_step(6)])
qed

end
