(* ===== verification/Canary.thy ===== *)
theory Canary
  imports Lock_Steps Go_Float
begin

text \<open>
  Canary deployments (\<^verbatim>\<open>internal/canary/deployer.go\<close>). The methods of a deployment are commands over its
  mutex (theory \<open>Lock_Steps\<close>); the goroutine that runs the phases takes the mutex only in its last action, so it
  is a function of what happens in each phase: whether the context ends, and the clock.

  An event is recorded with the handlers that it is sent to. Formatted numbers are the parameter \<open>fmt\<close>.
\<close>

datatype DeploymentStatus = StatusPending | StatusRunning | StatusPromoting | StatusPromoted
  | StatusRollingBack | StatusRolledBack | StatusFailed | StatusAborted

datatype Strategy = StrategyLinear | StrategyStepped | StrategyAnalysis | StrategyShadow | StrategyOther string

datatype PhaseStatus = PhaseStatusNone | PhaseStatusPending | PhaseStatusRunning | PhaseStatusWaiting
  | PhaseStatusCompleted | PhaseStatusFailed

datatype EventType = EventStarted | EventPhaseStarted | EventPhaseComplete | EventPromoted | EventRollback
  | EventFailed | EventAborted

record TrafficSplit =
  ts_Canary :: rat
  ts_Baseline :: rat
  ts_Stable :: rat

record MetricThreshold =
  mt_Min :: "rat option"
  mt_Max :: "rat option"
  mt_Target :: rat
  mt_Tolerance :: rat

record Metrics =
  cm_ErrorRateThreshold :: rat
  cm_LatencyP99Threshold :: duration
  cm_LatencyP95Threshold :: duration
  cm_LatencyP50Threshold :: duration
  cm_ThroughputMin :: rat
  cm_CustomMetrics :: "(string \<times> MetricThreshold) list"

record AnalysisConfig =
  ac_Enabled :: bool
  ac_Interval :: duration
  ac_SuccessfulRuns :: int
  ac_FailedRuns :: int
  ac_LookbackDuration :: duration
  ac_ConfidenceLevel :: rat

record RollbackConfig =
  rc_Enabled :: bool
  rc_AutoRollback :: bool
  rc_OnErrorRate :: rat
  rc_OnLatencyIncrease :: rat
  rc_OnMetricFailure :: "string list"
  rc_ManualApproval :: bool

record PhaseMetrics =
  pm_Requests :: int
  pm_Errors :: int
  pm_ErrorRate :: rat
  pm_LatencyP50 :: duration
  pm_LatencyP95 :: duration
  pm_LatencyP99 :: duration
  pm_Throughput :: rat

record Phase =
  ph_ID :: string
  ph_Name :: string
  ph_TrafficWeight :: rat
  ph_Duration :: duration
  ph_Pause :: duration
  ph_Metrics :: PhaseMetrics
  ph_Status :: PhaseStatus
  ph_StartTime :: gotime
  ph_EndTime :: gotime

record canary_event =
  ev_Type :: EventType
  ev_Phase :: string
  ev_Message :: string

record Deployment =
  dp_ID :: string
  dp_Name :: string
  dp_Service :: string
  dp_CurrentVersion :: string
  dp_TargetVersion :: string
  dp_Status :: DeploymentStatus
  dp_Strategy :: Strategy
  dp_TrafficSplit :: TrafficSplit
  dp_Metrics :: Metrics
  dp_Analysis :: AnalysisConfig
  dp_RollbackConfig :: RollbackConfig
  dp_Phases :: "Phase list"
  dp_CurrentPhase :: nat
  dp_eventHandlers :: "nat list"
  dp_sent :: "(nat list \<times> canary_event) list"
  dp_runs :: nat

record DeploymentConfig =
  dc_Name :: string
  dc_Service :: string
  dc_CurrentVersion :: string
  dc_TargetVersion :: string
  dc_Strategy :: Strategy
  dc_Metrics :: Metrics
  dc_Analysis :: AnalysisConfig
  dc_Rollback :: RollbackConfig
  dc_Steps :: int
  dc_StepWeight :: rat

section \<open>Creation\<close>

definition zeroPhaseMetrics :: PhaseMetrics where
  "zeroPhaseMetrics = \<lparr>pm_Requests = 0, pm_Errors = 0, pm_ErrorRate = 0, pm_LatencyP50 = 0, pm_LatencyP95 = 0,
     pm_LatencyP99 = 0, pm_Throughput = 0\<rparr>"

definition new_phase :: "int \<Rightarrow> string \<Rightarrow> rat \<Rightarrow> duration \<Rightarrow> duration \<Rightarrow> Phase" where
  "new_phase i name weight dur pause =
     \<lparr>ph_ID = ''phase-'' @ itoa i, ph_Name = name, ph_TrafficWeight = weight, ph_Duration = dur, ph_Pause = pause,
      ph_Metrics = zeroPhaseMetrics, ph_Status = PhaseStatusNone, ph_StartTime = 0, ph_EndTime = 0\<rparr>"

definition generatePhases :: "DeploymentConfig \<Rightarrow> Phase list" where
  "generatePhases config =
     (case dc_Strategy config of
        StrategyLinear \<Rightarrow>
          (let steps = (if dc_Steps config = 0 then 10 else dc_Steps config);
               weightIncrement = fdiv 100 (of_int64 steps)
           in map (\<lambda>i. new_phase i (''Linear Phase '' @ itoa (i + 1)) (min (fmul weightIncrement (of_int64 (i + 1))) 100)
                (5 * Minute) (2 * Minute)) (map int [0..<nat steps]))
      | StrategyStepped \<Rightarrow>
          map (\<lambda>(i, w). new_phase (int i) (''Step '' @ itoa w @ ''%'') (of_int w) (10 * Minute) (5 * Minute))
            (List.enumerate 0 [5, 10, 25, 50, 75, 100])
      | _ \<Rightarrow> [])"

definition generateDeploymentID :: "gotime \<Rightarrow> string" where
  "generateDeploymentID now = ''canary-'' @ itoa (now div Second)"

definition new_deployment :: "gotime \<Rightarrow> DeploymentConfig \<Rightarrow> Deployment" where
  "new_deployment now config =
     \<lparr>dp_ID = generateDeploymentID now, dp_Name = dc_Name config, dp_Service = dc_Service config,
      dp_CurrentVersion = dc_CurrentVersion config, dp_TargetVersion = dc_TargetVersion config,
      dp_Status = StatusPending, dp_Strategy = dc_Strategy config,
      dp_TrafficSplit = \<lparr>ts_Canary = 0, ts_Baseline = 0, ts_Stable = 100\<rparr>,
      dp_Metrics = dc_Metrics config, dp_Analysis = dc_Analysis config, dp_RollbackConfig = dc_Rollback config,
      dp_Phases = generatePhases config, dp_CurrentPhase = 0, dp_eventHandlers = [], dp_sent = [], dp_runs = 0\<rparr>"

type_synonym CanaryManager = "(string \<times> Deployment) list"

definition CreateDeployment :: "gotime \<Rightarrow> DeploymentConfig \<Rightarrow> CanaryManager \<Rightarrow> Deployment \<times> CanaryManager" where
  "CreateDeployment now config m = (let d = new_deployment now config in (d, al_put (dp_ID d) d m))"

definition GetDeployment :: "string \<Rightarrow> CanaryManager \<Rightarrow> string + Deployment" where
  "GetDeployment i m = (case al_get m i of None \<Rightarrow> Inl (''deployment '' @ i @ '' not found'') | Some d \<Rightarrow> Inr d)"

definition ListDeployments :: "CanaryManager \<Rightarrow> Deployment list" where
  "ListDeployments m = map snd m"

section \<open>The methods, as commands over the mutex\<close>

type_synonym call = "(Deployment, string option) cmd"

definition send_event :: "canary_event \<Rightarrow> Deployment \<Rightarrow> Deployment" where
  "send_event e d = d\<lparr>dp_sent := dp_sent d @ [(dp_eventHandlers d, e)]\<rparr>"

text \<open>
  \<^verbatim>\<open>emit\<close> copies the handlers under the mutex and starts a goroutine for each; the copy and the start are one
  action here.
\<close>

definition emit :: "canary_event \<Rightarrow> call \<Rightarrow> call" where
  "emit e rest = RAcquire (Atomic (send_event e) (RRelease rest))"

definition plain_event :: "EventType \<Rightarrow> string \<Rightarrow> canary_event" where
  "plain_event ty msg = \<lparr>ev_Type = ty, ev_Phase = [], ev_Message = msg\<rparr>"

definition canary_Start :: call where
  "canary_Start =
     Acquire (Test (\<lambda>d. dp_Status d \<noteq> StatusPending)
       (Release (Return (Some ''deployment already started'')))
       (Atomic (\<lambda>d. d\<lparr>dp_Status := StatusRunning\<rparr>)
         (emit (plain_event EventStarted ''Canary deployment started'')
           (Atomic (\<lambda>d. d\<lparr>dp_runs := Suc (dp_runs d)\<rparr>)
             (Release (Return None))))))"

definition rolled_back :: "Deployment \<Rightarrow> Deployment" where
  "rolled_back d = d\<lparr>dp_TrafficSplit := \<lparr>ts_Canary = 0, ts_Baseline = 0, ts_Stable = 100\<rparr>, dp_Status := StatusRolledBack\<rparr>"

definition canary_Rollback :: call where
  "canary_Rollback =
     Acquire (Test (\<lambda>d. dp_Status d = StatusRolledBack)
       (Release (Return (Some ''deployment already rolled back'')))
       (Atomic (\<lambda>d. d\<lparr>dp_Status := StatusRollingBack\<rparr>)
         (Atomic rolled_back
           (Release (emit (plain_event EventRollback ''Deployment rolled back to stable version'') (Return None))))))"

definition canary_Abort :: "string \<Rightarrow> call" where
  "canary_Abort reason =
     Acquire (Test (\<lambda>d. dp_Status d \<noteq> StatusRunning \<and> dp_Status d \<noteq> StatusPending)
       (Release (Return (Some ''cannot abort deployment'')))
       (Atomic (\<lambda>d. d\<lparr>dp_Status := StatusAborted\<rparr>)
         (Release (emit (plain_event EventAborted reason) (Return None)))))"

definition canary_OnEvent :: "nat \<Rightarrow> call" where
  "canary_OnEvent handler =
     Acquire (Atomic (\<lambda>d. d\<lparr>dp_eventHandlers := dp_eventHandlers d @ [handler]\<rparr>) (Release (Return None)))"

text \<open>The methods a client can call.\<close>

inductive is_method :: "call \<Rightarrow> bool" where
  "is_method canary_Start"
| "is_method canary_Rollback"
| "is_method (canary_Abort reason)"
| "is_method (canary_OnEvent handler)"
| "is_method (Return r)"

lemmas method_defs = canary_Start_def canary_Rollback_def canary_Abort_def canary_OnEvent_def emit_def

lemma is_method_balanced: "is_method c \<Longrightarrow> balanced Idle c"
  by (induction rule: is_method.induct) (simp_all add: method_defs)

section \<open>The run of the phases\<close>

text \<open>What happens in one phase: the context ends before the timer, and the clock at its start and end.\<close>

record phase_run =
  pr_cancelled :: "string option"
  pr_start :: gotime
  pr_end :: gotime

definition getMetricValue :: "string \<Rightarrow> rat" where
  "getMetricValue name = 0"

definition custom_ok :: "string \<times> MetricThreshold \<Rightarrow> bool" where
  "custom_ok = (\<lambda>(name, threshold). let v = getMetricValue name
     in \<not> (case mt_Max threshold of Some m \<Rightarrow> v > m | None \<Rightarrow> False) \<and>
        \<not> (case mt_Min threshold of Some m \<Rightarrow> v < m | None \<Rightarrow> False))"

definition analyzePhase :: "Deployment \<Rightarrow> Phase \<Rightarrow> bool" where
  "analyzePhase d phase =
     (if pm_ErrorRate (ph_Metrics phase) > cm_ErrorRateThreshold (dp_Metrics d) then False
      else if pm_LatencyP99 (ph_Metrics phase) > cm_LatencyP99Threshold (dp_Metrics d) then False
      else if pm_LatencyP95 (ph_Metrics phase) > cm_LatencyP95Threshold (dp_Metrics d) then False
      else list_all custom_ok (cm_CustomMetrics (dp_Metrics d)))"

text \<open>The phase in the list and the split of the deployment are updated; an error ends the run.\<close>

definition set_phase :: "nat \<Rightarrow> Phase \<Rightarrow> Deployment \<Rightarrow> Deployment" where
  "set_phase i phase d = d\<lparr>dp_Phases := (dp_Phases d)[i := phase]\<rparr>"

definition runPhase :: "phase_run \<Rightarrow> nat \<Rightarrow> Phase \<Rightarrow> Deployment \<Rightarrow> string option \<times> Deployment" where
  "runPhase r i phase d =
     (let phase = phase\<lparr>ph_Status := PhaseStatusRunning, ph_StartTime := pr_start r\<rparr>;
          split = (dp_TrafficSplit d)\<lparr>ts_Canary := ph_TrafficWeight phase, ts_Stable := fsub 100 (ph_TrafficWeight phase)\<rparr>;
          d = (set_phase i phase d)\<lparr>dp_TrafficSplit := split\<rparr>
      in case pr_cancelled r of
           Some e \<Rightarrow> (Some e, d)
         | None \<Rightarrow>
             (if ac_Enabled (dp_Analysis d) \<and> \<not> analyzePhase d phase
              then (Some (''phase '' @ ph_Name phase @ '' failed analysis''), d)
              else (None, set_phase i (phase\<lparr>ph_Status := PhaseStatusCompleted, ph_EndTime := pr_end r\<rparr>) d)))"

text \<open>
  The sequential effect of \<^verbatim>\<open>Rollback\<close>, for the one caller that has the deployment to itself: it is what the
  command does when no other thread moves (lemma \<open>rollback_alone\<close>).
\<close>

definition rollback_now :: "Deployment \<Rightarrow> string option \<times> Deployment" where
  "rollback_now d =
     (if dp_Status d = StatusRolledBack then (Some ''deployment already rolled back'', d)
      else (None, send_event (plain_event EventRollback ''Deployment rolled back to stable version'')
                    (rolled_back (d\<lparr>dp_Status := StatusRollingBack\<rparr>))))"

definition handlePhaseFailure :: "nat \<Rightarrow> string \<Rightarrow> Deployment \<Rightarrow> Deployment" where
  "handlePhaseFailure i err d =
     (let phase = (dp_Phases d ! i)\<lparr>ph_Status := PhaseStatusFailed\<rparr>;
          d = set_phase i phase d
      in if rc_AutoRollback (dp_RollbackConfig d)
         then (case rollback_now d of
                 (None, d) \<Rightarrow> d
               | (Some rbErr, d) \<Rightarrow>
                   send_event (plain_event EventRollback (''rollback failed after phase '' @ ph_Name phase @ '': '' @ rbErr))
                     (d\<lparr>dp_Status := StatusFailed\<rparr>))
         else send_event (plain_event EventFailed err) (d\<lparr>dp_Status := StatusFailed\<rparr>))"

definition promote :: "Deployment \<Rightarrow> Deployment" where
  "promote d = send_event (plain_event EventPromoted ''Canary deployment promoted to 100%'')
     (d\<lparr>dp_Status := StatusPromoted, dp_TrafficSplit := \<lparr>ts_Canary = 100, ts_Baseline = 0, ts_Stable = 0\<rparr>\<rparr>)"

definition phase_event :: "EventType \<Rightarrow> Phase \<Rightarrow> string \<Rightarrow> canary_event" where
  "phase_event ty phase msg = \<lparr>ev_Type = ty, ev_Phase = ph_ID phase, ev_Message = msg @ ph_Name phase\<rparr>"

lemma phases_kept [simp]:
  "dp_Phases (send_event e d) = dp_Phases d" "length (dp_Phases (set_phase i p d)) = length (dp_Phases d)"
  by (simp_all add: send_event_def set_phase_def)

lemma runPhase_length: "runPhase r i p d = (e, d') \<Longrightarrow> length (dp_Phases d') = length (dp_Phases d)"
  by (auto simp: runPhase_def Let_def split: option.splits if_splits)

text \<open>
  The loop of \<^verbatim>\<open>run\<close>. Other methods may change the deployment between two phases, which is the argument
  \<open>between\<close>; the number of phases does not change.
\<close>

function canary_run :: "(nat \<Rightarrow> phase_run) \<Rightarrow> (nat \<Rightarrow> Deployment \<Rightarrow> Deployment) \<Rightarrow> nat \<Rightarrow> Deployment \<Rightarrow> Deployment" where
  "canary_run runs between i d =
     (if i < length (dp_Phases d)
      then let d = send_event (phase_event EventPhaseStarted (dp_Phases d ! i) ''Starting phase: '') d
           in case runPhase (runs i) i (dp_Phases d ! i) d of
                (Some err, d) \<Rightarrow> handlePhaseFailure i err d
              | (None, d) \<Rightarrow>
                  (let d = send_event (phase_event EventPhaseComplete (dp_Phases d ! i) ''Completed phase: '') d;
                       d' = between i d
                   in canary_run runs between (Suc i)
                        (d'\<lparr>dp_Phases := dp_Phases d, dp_CurrentPhase := Suc i\<rparr>))
      else promote d)"
  by pat_completeness auto

termination
  by (relation "measure (\<lambda>(_, _, i, d). length (dp_Phases d) - i)") (auto dest!: runPhase_length [OF sym] runPhase_length)

declare canary_run.simps [simp del]

section \<open>Starting a deployment\<close>

text \<open>The stages of \<^verbatim>\<open>Start\<close> after the mutex is taken.\<close>

definition start_emit :: call where
  "start_emit = emit (plain_event EventStarted ''Canary deployment started'')
     (Atomic (\<lambda>d. d\<lparr>dp_runs := Suc (dp_runs d)\<rparr>) (Release (Return None)))"

definition start_set :: call where
  "start_set = Atomic (\<lambda>d. d\<lparr>dp_Status := StatusRunning\<rparr>) start_emit"

definition start_refused :: call where
  "start_refused = Release (Return (Some ''deployment already started''))"

definition start_body :: call where
  "start_body = Test (\<lambda>d. dp_Status d \<noteq> StatusPending) start_refused start_set"

lemma canary_Start_stages: "canary_Start = Acquire start_body"
  by (simp add: canary_Start_def start_body_def start_refused_def start_set_def start_emit_def)

lemmas start_stages = canary_Start_stages start_body_def start_refused_def start_set_def start_emit_def emit_def

definition starting :: "(Deployment, string option) pool \<Rightarrow> nat \<Rightarrow> bool" where
  "starting p t \<longleftrightarrow> po_cmd p t = canary_Start \<or>
     po_writer p = Some t \<and> po_cmd p t \<in> {start_body, start_refused, start_set, start_emit} \<or>
     po_cmd p t = Return (Some ''deployment already started'')"

lemma starting_step:
  assumes "pool_step u p q" "pool_ok p" "starting p t" shows "starting q t"
proof (cases "u = t")
  case True
  have "starting q t" if "pool_step t p q" "po_cmd p t = canary_Start"
    using that by cases (auto simp: starting_def start_stages)
  moreover have "starting q t" if "pool_step t p q" "po_writer p = Some t" "po_cmd p t = start_body"
    using that by cases (auto simp: starting_def start_stages)
  moreover have "starting q t" if "pool_step t p q" "po_cmd p t = start_refused"
    using that by cases (auto simp: starting_def start_stages)
  moreover have "starting q t" if "pool_step t p q" "po_writer p = Some t" "po_cmd p t = start_set"
    using that by cases (auto simp: starting_def start_stages)
  moreover have "starting q t" if "pool_step t p q" "po_writer p = Some t" "po_cmd p t = start_emit"
    using that by cases (auto simp: starting_def start_stages)
  moreover have False if "pool_step t p q" "po_cmd p t = Return r" for r
    using that by cases auto
  ultimately show ?thesis using assms(1,3) True unfolding starting_def by blast
next
  case False
  then have "po_cmd q t = po_cmd p t" using pool_step_other [OF assms(1)] by simp
  moreover have "po_writer p = Some t \<Longrightarrow> po_writer q = Some t" using writer_keeps [OF assms(1,2)] False by simp
  ultimately show ?thesis using assms(3) by (auto simp: starting_def)
qed

text \<open>Commands that start no run.\<close>

fun harmless :: "call \<Rightarrow> bool" where
  "harmless (Return r) \<longleftrightarrow> True"
| "harmless (Acquire c) \<longleftrightarrow> harmless c"
| "harmless (Release c) \<longleftrightarrow> harmless c"
| "harmless (RAcquire c) \<longleftrightarrow> harmless c"
| "harmless (RRelease c) \<longleftrightarrow> harmless c"
| "harmless (Atomic f c) \<longleftrightarrow> (\<forall>d. dp_runs (f d) = dp_runs d) \<and> harmless c"
| "harmless (Test b c d) \<longleftrightarrow> harmless c \<and> harmless d"

definition no_runs :: "(Deployment, string option) pool \<Rightarrow> bool" where
  "no_runs p \<longleftrightarrow> pool_ok p \<and> (\<forall>t. harmless (po_cmd p t) \<or> starting p t)"

lemma is_method_no_runs: "is_method c \<Longrightarrow> harmless c \<or> c = canary_Start"
  by (induction rule: is_method.induct) (auto simp: canary_Rollback_def canary_Abort_def canary_OnEvent_def emit_def
      rolled_back_def send_event_def)

lemma harmless_step:
  assumes "pool_step t p q" "harmless (po_cmd p t)"
  shows "harmless (po_cmd q t) \<and> dp_runs (po_state q) = dp_runs (po_state p)"
  using assms by cases auto

lemma starting_runs:
  assumes "pool_step t p q" "starting p t" shows "dp_runs (po_state q) = dp_runs (po_state p)"
proof -
  have "po_writer p = Some t \<Longrightarrow> po_cmd p t = start_emit \<Longrightarrow> False"
    using assms(1) by cases (auto simp: start_stages)
  then have "po_cmd p t \<in> {canary_Start, start_body, start_refused, start_set, Return (Some ''deployment already started'')}"
    using assms(2) by (auto simp: starting_def)
  with assms(1) show ?thesis by cases (auto simp: start_stages)
qed

lemma no_runs_step:
  assumes "pool_step u p q" "no_runs p" shows "no_runs q \<and> dp_runs (po_state q) = dp_runs (po_state p)"
proof -
  have ok: "pool_ok p" "pool_ok q" using assms pool_ok_step by (auto simp: no_runs_def)
  have "harmless (po_cmd q t) \<or> starting q t" for t
    using assms(2) starting_step [OF assms(1) ok(1), of t] harmless_step [OF assms(1)] pool_step_other [OF assms(1), of t]
    unfolding no_runs_def by metis
  moreover have "dp_runs (po_state q) = dp_runs (po_state p)"
    using assms(2) harmless_step [OF assms(1)] starting_runs [OF assms(1)] unfolding no_runs_def by blast
  ultimately show ?thesis using ok(2) by (simp add: no_runs_def)
qed

lemma no_runs_steps:
  "pool_steps p q \<Longrightarrow> no_runs p \<Longrightarrow> no_runs q \<and> dp_runs (po_state q) = dp_runs (po_state p)"
  by (induction rule: pool_steps.induct) (auto dest: no_runs_step)

lemma starting_steps: "pool_steps p q \<Longrightarrow> pool_ok p \<Longrightarrow> starting p t \<Longrightarrow> starting q t"
  by (induction rule: pool_steps.induct) (auto intro: starting_step pool_ok_steps)

lemma methods_no_runs:
  assumes "\<And>u. is_method (cs u)" shows "no_runs (fresh_pool d cs)"
  using assms is_method_no_runs [OF assms] fresh_pool_ok [OF is_method_balanced [OF assms]]
  by (auto simp: no_runs_def starting_def fresh_pool_def)

text \<open>
  C38: starting a canary deployment never succeeds. In any interleaving of calls of the methods of a
  deployment, a call of \<^verbatim>\<open>Start\<close> does not return nil and no run of the phases is started; and from when
  it sends its first event, still holding the mutex that sending takes again, it has no step in any later
  state, nor has any call that then needs the mutex.
\<close>

theorem Start_never_returns:
  assumes "\<And>u. is_method (cs u)" "cs t = canary_Start" "pool_steps (fresh_pool d cs) p"
  shows "po_cmd p t \<noteq> Return None \<and> dp_runs (po_state p) = dp_runs d \<and>
    (po_cmd p t = start_emit \<longrightarrow>
       (\<forall>q. pool_steps p q \<longrightarrow> po_cmd q t = start_emit \<and> (\<forall>u c r. po_cmd q u \<in> {Acquire c, RAcquire c} \<longrightarrow> \<not> pool_step u q r)))"
proof -
  have n: "no_runs (fresh_pool d cs)" using assms(1) by (rule methods_no_runs)
  then have ok: "pool_ok p" using pool_ok_steps [OF assms(3)] by (simp add: no_runs_def)
  have st: "starting p t" using starting_steps [OF assms(3)] n assms(2) by (simp add: no_runs_def starting_def fresh_pool_def)
  have r: "po_cmd p t \<noteq> Return None" using st by (auto simp: starting_def start_stages)
  have "dp_runs (po_state p) = dp_runs d" using no_runs_steps [OF assms(3) n] by (simp add: fresh_pool_def)
  moreover have "po_cmd q t = start_emit \<and> (\<forall>u c r. po_cmd q u \<in> {Acquire c, RAcquire c} \<longrightarrow> \<not> pool_step u q r)"
    if e: "po_cmd p t = start_emit" and q: "pool_steps p q" for q
  proof -
    have "waits_for_itself p t" using st e by (auto simp: starting_def waits_for_itself_def start_stages)
    from deadlock_steps [OF q ok this] have w: "waits_for_itself q t" "po_cmd q t = start_emit" using e by simp_all
    then show ?thesis using deadlock_blocks [OF w(1)] by blast
  qed
  ultimately show ?thesis using r by blast
qed

definition demo_deployment :: Deployment where
  "demo_deployment = new_deployment 0
     \<lparr>dc_Name = ''d'', dc_Service = ''s'', dc_CurrentVersion = ''1'', dc_TargetVersion = ''2'', dc_Strategy = StrategyStepped,
      dc_Metrics = \<lparr>cm_ErrorRateThreshold = 0, cm_LatencyP99Threshold = 0, cm_LatencyP95Threshold = 0, cm_LatencyP50Threshold = 0,
        cm_ThroughputMin = 0, cm_CustomMetrics = []\<rparr>,
      dc_Analysis = \<lparr>ac_Enabled = False, ac_Interval = 0, ac_SuccessfulRuns = 0, ac_FailedRuns = 0, ac_LookbackDuration = 0, ac_ConfidenceLevel = 0\<rparr>,
      dc_Rollback = \<lparr>rc_Enabled = False, rc_AutoRollback = False, rc_OnErrorRate = 0, rc_OnLatencyIncrease = 0, rc_OnMetricFailure = [], rc_ManualApproval = False\<rparr>,
      dc_Steps = 0, dc_StepWeight = 0\<rparr>"

definition demo_calls :: "nat \<Rightarrow> call" where
  "demo_calls = (\<lambda>u. if u = 0 then canary_Start else if u = 1 then canary_Abort ''stop'' else Return None)"

lemma demo_calls_methods: "is_method (demo_calls u)"
  by (auto simp: demo_calls_def intro: is_method.intros)

lemma demo_start:
  "pool_steps (fresh_pool demo_deployment demo_calls)
     \<lparr>po_state = demo_deployment\<lparr>dp_Status := StatusRunning\<rparr>, po_writer = Some 0, po_readers = {}, po_cmd = demo_calls(0 := start_emit)\<rparr>"
proof -
  let ?p = "\<lambda>c s. lone_pool Writing 0 c demo_calls s"
  have f: "fresh_pool demo_deployment demo_calls = lone_pool Idle 0 (Acquire start_body) demo_calls demo_deployment"
    by (auto simp: fresh_pool_def lone_pool_def demo_calls_def canary_Start_stages)
  have pending: "dp_Status demo_deployment = StatusPending" by (simp add: demo_deployment_def new_deployment_def)
  have "pool_step 0 (fresh_pool demo_deployment demo_calls) (?p start_body demo_deployment)" unfolding f by (rule lone_step)
  moreover have "pool_step 0 (?p start_body demo_deployment) (?p start_set demo_deployment)"
    using lone_step(6) [of 0 Writing "\<lambda>d. dp_Status d \<noteq> StatusPending" start_refused start_set demo_calls demo_deployment]
    by (simp add: start_body_def pending)
  moreover have "pool_step 0 (?p start_set demo_deployment) (?p start_emit (demo_deployment\<lparr>dp_Status := StatusRunning\<rparr>))"
    unfolding start_set_def by (rule lone_step(5))
  ultimately have "pool_steps (fresh_pool demo_deployment demo_calls) (?p start_emit (demo_deployment\<lparr>dp_Status := StatusRunning\<rparr>))"
    by (meson pool_steps.intros)
  then show ?thesis by (simp add: lone_pool_def)
qed

lemma Start_never_returns_witness:
  "\<forall>r. \<not> pool_step 1 \<lparr>po_state = demo_deployment\<lparr>dp_Status := StatusRunning\<rparr>, po_writer = Some 0, po_readers = {},
     po_cmd = demo_calls(0 := start_emit)\<rparr> r"
proof -
  let ?p = "\<lparr>po_state = demo_deployment\<lparr>dp_Status := StatusRunning\<rparr>, po_writer = Some 0, po_readers = {}, po_cmd = demo_calls(0 := start_emit)\<rparr>"
  have "demo_calls 0 = canary_Start" by (simp add: demo_calls_def)
  from Start_never_returns [OF demo_calls_methods this demo_start]
  have "\<forall>u c r. po_cmd ?p u \<in> {Acquire c, RAcquire c} \<longrightarrow> \<not> pool_step u ?p r"
    using pool_steps.refl [of ?p] by (metis fun_upd_same pool.select_convs(4))
  moreover have "\<exists>c. po_cmd ?p 1 = Acquire c" by (simp add: demo_calls_def canary_Abort_def)
  ultimately show ?thesis by blast
qed

section \<open>The other methods, called alone\<close>

lemma rollback_alone: "alone Idle canary_Rollback d = Some (rollback_now d)"
  by (simp add: canary_Rollback_def emit_def rollback_now_def)

lemma Rollback_returns:
  "pool_steps (lone_pool Idle t canary_Rollback cs d) (lone_pool Idle t (Return (fst (rollback_now d))) cs (snd (rollback_now d)))"
  by (rule alone_steps) (simp_all add: is_method_balanced is_method.intros rollback_alone)

lemma Start_alone: "dp_Status d = StatusPending \<Longrightarrow> alone Idle canary_Start d = None"
  by (simp add: canary_Start_def emit_def)

section \<open>The phases\<close>

lemma length_new_phases: "dc_Strategy config = StrategyLinear \<Longrightarrow>
    length (generatePhases config) = nat (if dc_Steps config = 0 then 10 else dc_Steps config)"
  by (simp add: generatePhases_def Let_def)

text \<open>Two of the four strategies have no phases: such a deployment is promoted at once.\<close>

lemma no_phases_promotes:
  "dc_Strategy config \<notin> {StrategyLinear, StrategyStepped} \<Longrightarrow>
     canary_run runs between 0 (new_deployment now config) = promote (new_deployment now config)"
  by (auto simp: canary_run.simps new_deployment_def generatePhases_def split: Strategy.splits)

text \<open>The share of the canary grows from phase to phase and stays within 100 percent.\<close>

lemma of_int64_mono': "a \<le> b \<Longrightarrow> of_int64 (int a) \<le> of_int64 (int b)"
  by (rule of_int64_mono) simp

lemma linear_weights:
  assumes "0 < n"
  shows "sorted (map ((\<lambda>i. min (fmul (fdiv 100 (of_int64 n)) (of_int64 (i + 1))) 100) \<circ> int) [0..<m])"
proof -
  have p: "0 \<le> fdiv 100 (of_int64 n)" using of_int64_pos [OF assms] by (simp add: fdiv_def)
  have "fmul (fdiv 100 (of_int64 n)) (of_int64 (int i + 1)) \<le> fmul (fdiv 100 (of_int64 n)) (of_int64 (int j + 1))" if "i \<le> j" for i j
    using fmul_right_mono [OF of_int64_mono [of "int i + 1" "int j + 1"] p] that by (simp add: fmul_def mult.commute)
  then show ?thesis by (auto simp: sorted_iff_nth_mono intro: min.coboundedI1)
qed

lemma generated_weights:
  "sorted (map ph_TrafficWeight (generatePhases config)) \<and> (\<forall>phase \<in> set (generatePhases config). ph_TrafficWeight phase \<le> 100)"
proof -
  let ?n = "if dc_Steps config = 0 then 10 else dc_Steps config"
  have w: "ph_TrafficWeight (new_phase i n x d p) = x" for i n x d p by (simp add: new_phase_def)
  have "map ph_TrafficWeight (generatePhases config) =
      map ((\<lambda>i. min (fmul (fdiv 100 (of_int64 ?n)) (of_int64 (i + 1))) 100) \<circ> int) [0..<nat ?n]" if "dc_Strategy config = StrategyLinear"
    using that by (simp add: generatePhases_def Let_def w comp_def)
  moreover have "sorted (map ((\<lambda>i. min (fmul (fdiv 100 (of_int64 ?n)) (of_int64 (i + 1))) 100) \<circ> int) [0..<nat ?n])"
    using linear_weights [of ?n "nat ?n"] by (cases "0 < ?n") simp_all
  ultimately have "sorted (map ph_TrafficWeight (generatePhases config))"
    by (cases "dc_Strategy config = StrategyLinear")
      (simp only:, auto simp: generatePhases_def w split: Strategy.splits)
  then show ?thesis by (auto simp: generatePhases_def Let_def w split: Strategy.splits)
qed

text \<open>
  The metrics of a phase are never set after its creation, so the analysis of a generated phase passes
  whatever the service does, as soon as the thresholds allow zeros.
\<close>

lemma analysis_cannot_fail:
  assumes "phase \<in> set (generatePhases config)" "0 \<le> cm_ErrorRateThreshold (dp_Metrics d)"
    and "0 \<le> cm_LatencyP99Threshold (dp_Metrics d)" "0 \<le> cm_LatencyP95Threshold (dp_Metrics d)"
    and "list_all custom_ok (cm_CustomMetrics (dp_Metrics d))"
  shows "analyzePhase d (phase\<lparr>ph_Status := s, ph_StartTime := n\<rparr>)"
proof -
  have "ph_Metrics phase = zeroPhaseMetrics" using assms(1)
    by (auto simp: generatePhases_def Let_def new_phase_def split: Strategy.splits)
  then show ?thesis using assms(2-5) by (simp add: analyzePhase_def zeroPhaseMetrics_def)
qed

text \<open>Deployments of the same second have the same identifier, and the second takes the place of the first.\<close>

lemma same_second_replaced:
  assumes "now div Second = now' div Second" "CreateDeployment now config m = (d, m')" "CreateDeployment now' config' m' = (d', m'')"
  shows "dp_ID d' = dp_ID d \<and> GetDeployment (dp_ID d) m'' = Inr d' \<and> length m'' = length m'"
proof -
  have "dp_ID d' = dp_ID d" "m'' = al_put (dp_ID d') d' m'" "m' = al_put (dp_ID d) d m"
    using assms by (auto simp: CreateDeployment_def Let_def new_deployment_def generateDeploymentID_def)
  then show ?thesis by (simp add: GetDeployment_def length_al_put)
qed

section \<open>A run is not stopped\<close>

lemma runPhase_passes:
  assumes "pr_cancelled r = None" "\<not> ac_Enabled (dp_Analysis d)"
  shows "\<exists>d'. runPhase r i phase d = (None, d') \<and> \<not> ac_Enabled (dp_Analysis d')"
  using assms by (auto simp: runPhase_def Let_def set_phase_def)

text \<open>
  Between two phases a run looks at nothing but the list of phases: whatever other methods do to the
  deployment, an abort and a rollback included, it goes on and promotes the target version to all of the
  traffic.
\<close>

lemma run_promotes:
  assumes "\<And>i. pr_cancelled (runs i) = None" "\<And>i d. dp_Analysis (between i d) = dp_Analysis d" "\<not> ac_Enabled (dp_Analysis d)"
  shows "dp_Status (canary_run runs between i d) = StatusPromoted \<and>
    dp_TrafficSplit (canary_run runs between i d) = \<lparr>ts_Canary = 100, ts_Baseline = 0, ts_Stable = 0\<rparr>"
  using assms(3)
proof (induction "length (dp_Phases d) - i" arbitrary: i d)
  case 0
  then show ?case by (simp add: canary_run.simps [of runs between i d] promote_def send_event_def)
next
  case (Suc n)
  let ?p = "dp_Phases d ! i"
  let ?d1 = "send_event (phase_event EventPhaseStarted ?p ''Starting phase: '') d"
  have i: "i < length (dp_Phases d)" using Suc.hyps(2) by simp
  have "\<not> ac_Enabled (dp_Analysis ?d1)" using Suc.prems by (simp add: send_event_def)
  then obtain d2 where d2: "runPhase (runs i) i ?p ?d1 = (None, d2)" "\<not> ac_Enabled (dp_Analysis d2)"
    using runPhase_passes [OF assms(1)] by blast
  let ?d3 = "send_event (phase_event EventPhaseComplete (dp_Phases d2 ! i) ''Completed phase: '') d2"
  let ?d4 = "(between i ?d3)\<lparr>dp_Phases := dp_Phases ?d3, dp_CurrentPhase := Suc i\<rparr>"
  have "canary_run runs between i d = canary_run runs between (Suc i) ?d4"
    using i d2(1) by (simp add: canary_run.simps [of runs between i d] Let_def)
  moreover have "n = length (dp_Phases ?d4) - Suc i" "\<not> ac_Enabled (dp_Analysis ?d4)"
    using Suc.hyps(2) runPhase_length [OF d2(1)] d2(2) assms(2) by (simp_all add: send_event_def)
  ultimately show ?case using Suc.hyps(1) by simp
qed

end
