(* ===== verification/Max_Heap.thy ===== *)
theory Max_Heap
  imports Main "HOL-Library.Multiset"
begin

text \<open>
  Package \<^verbatim>\<open>container/heap\<close> on a slice ordered by a key, greatest first, as the filters use it: \<^verbatim>\<open>Push\<close> and
  \<^verbatim>\<open>Pop\<close> with their sifts, and the contract of a priority queue that they keep.
\<close>

section \<open>The contract\<close>

locale max_queue =
  fixes key :: "'a \<Rightarrow> 'k::linorder"
    and inv :: "'q \<Rightarrow> bool"
    and elems :: "'q \<Rightarrow> 'a multiset"
    and emp :: 'q
    and push :: "'a \<Rightarrow> 'q \<Rightarrow> 'q"
    and pop :: "'q \<Rightarrow> ('a \<times> 'q) option"
  assumes inv_emp: "inv emp" and elems_emp: "elems emp = {#}"
    and inv_push: "inv q \<Longrightarrow> inv (push x q)" and elems_push: "inv q \<Longrightarrow> elems (push x q) = add_mset x (elems q)"
    and pop_None: "inv q \<Longrightarrow> pop q = None \<longleftrightarrow> elems q = {#}"
    and inv_pop: "inv q \<Longrightarrow> pop q = Some (x, q') \<Longrightarrow> inv q'"
    and elems_pop: "inv q \<Longrightarrow> pop q = Some (x, q') \<Longrightarrow> elems q = add_mset x (elems q')"
    and pop_max: "inv q \<Longrightarrow> pop q = Some (x, q') \<Longrightarrow> y \<in># elems q \<Longrightarrow> key y \<le> key x"
begin

lemma push_all: "inv q \<Longrightarrow> inv (fold push xs q) \<and> elems (fold push xs q) = mset xs + elems q"
  by (induction xs arbitrary: q) (auto simp: inv_push elems_push)

text \<open>A number of pops in a row.\<close>

primrec pops :: "nat \<Rightarrow> 'q \<Rightarrow> 'a list \<times> 'q" where
  "pops 0 q = ([], q)"
| "pops (Suc n) q = (case pop q of None \<Rightarrow> ([], q) | Some (x, q') \<Rightarrow> (let (xs, r) = pops n q' in (x # xs, r)))"

text \<open>They give the elements of the greatest keys, in order, and as many as there are.\<close>

lemma pops_top:
  assumes "inv q" "pops n q = (xs, r)"
  shows "inv r \<and> elems q = mset xs + elems r \<and> length xs = min n (size (elems q)) \<and>
    sorted_wrt (\<ge>) (map key xs) \<and> (\<forall>x \<in> set xs. \<forall>y \<in># elems r. key y \<le> key x)"
  using assms
proof (induction n arbitrary: q xs r)
  case (Suc n)
  show ?case
  proof (cases "pop q")
    case None
    with Suc.prems show ?thesis using pop_None by auto
  next
    case (Some p)
    obtain x q' where p: "pop q = Some (x, q')" using Some by (cases p) auto
    obtain ys where ys: "pops n q' = (ys, r)" "xs = x # ys" using Suc.prems(2) p by (auto split: prod.splits)
    have inv': "inv q'" using inv_pop Suc.prems(1) p by blast
    note IH = Suc.IH [OF inv' ys(1)]
    have e: "elems q = add_mset x (elems q')" using elems_pop Suc.prems(1) p by blast
    have m: "\<And>y. y \<in># elems q' \<Longrightarrow> key y \<le> key x" using pop_max [OF Suc.prems(1) p] e by auto
    have b: "elems q' = mset ys + elems r" "length ys = min n (size (elems q'))" using IH by blast+
    have "\<forall>y \<in> set ys. key y \<le> key x" "\<forall>y \<in># elems r. key y \<le> key x" using m b(1) by auto
    moreover have "length (x # ys) = min (Suc n) (size (elems q))" using b(2) by (simp add: e)
    moreover have "elems q = mset (x # ys) + elems r" by (simp add: e b(1))
    moreover have "sorted_wrt (\<ge>) (map key ys)" "inv r" "\<forall>z \<in> set ys. \<forall>y \<in># elems r. key y \<le> key z" using IH by blast+
    ultimately show ?thesis unfolding ys(2) e size_add_mset
      by (intro conjI) (assumption | simp)+
  qed
qed simp

end

section \<open>The heap\<close>

definition parent :: "nat \<Rightarrow> nat" where
  "parent i = (i - 1) div 2"

definition swap :: "nat \<Rightarrow> nat \<Rightarrow> 'a list \<Rightarrow> 'a list" where
  "swap i j xs = xs[i := xs ! j, j := xs ! i]"

function heap_up :: "('a \<Rightarrow> 'k::linorder) \<Rightarrow> nat \<Rightarrow> 'a list \<Rightarrow> 'a list" where
  "heap_up key j xs =
     (if parent j = j \<or> \<not> key (xs ! j) > key (xs ! parent j) then xs
      else heap_up key (parent j) (swap (parent j) j xs))"
  by pat_completeness auto
termination by (relation "measure (\<lambda>(key, j, xs). j)") (auto simp: parent_def)

declare heap_up.simps [simp del]

definition heap_push :: "('a \<Rightarrow> 'k::linorder) \<Rightarrow> 'a \<Rightarrow> 'a list \<Rightarrow> 'a list" where
  "heap_push key x xs = heap_up key (length xs) (xs @ [x])"

text \<open>The greater child of \<open>i\<close> among the first \<open>n\<close> elements, the right one only when it is strictly greater.\<close>

definition greater_child :: "('a \<Rightarrow> 'k::linorder) \<Rightarrow> nat \<Rightarrow> nat \<Rightarrow> 'a list \<Rightarrow> nat" where
  "greater_child key i n xs =
     (let j1 = 2 * i + 1 in if j1 + 1 < n \<and> key (xs ! (j1 + 1)) > key (xs ! j1) then j1 + 1 else j1)"

function heap_down :: "('a \<Rightarrow> 'k::linorder) \<Rightarrow> nat \<Rightarrow> nat \<Rightarrow> 'a list \<Rightarrow> 'a list" where
  "heap_down key i n xs =
     (if n \<le> 2 * i + 1 then xs
      else let j = greater_child key i n xs
           in if \<not> key (xs ! j) > key (xs ! i) then xs
              else heap_down key j n (swap i j xs))"
  by pat_completeness auto
termination
  by (relation "measure (\<lambda>(key, i, n, xs). n - i)") (auto simp: greater_child_def Let_def split: if_splits)

declare heap_down.simps [simp del]

definition heap_pop :: "('a \<Rightarrow> 'k::linorder) \<Rightarrow> 'a list \<Rightarrow> ('a \<times> 'a list) option" where
  "heap_pop key xs =
     (if xs = [] then None
      else let n = length xs - 1; ys = heap_down key 0 n (swap 0 n xs)
           in Some (last ys, butlast ys))"

section \<open>Its invariant\<close>

definition is_heap :: "('a \<Rightarrow> 'k::linorder) \<Rightarrow> 'a list \<Rightarrow> bool" where
  "is_heap key xs \<longleftrightarrow> (\<forall>i < length xs. key (xs ! i) \<le> key (xs ! parent i))"

lemma parent_less: "0 < i \<Longrightarrow> parent i < i"
  by (auto simp: parent_def)

lemma parent_eq_self: "parent i = i \<longleftrightarrow> i = 0"
  by (auto simp: parent_def)

lemma parent_iff: "0 < k \<Longrightarrow> parent k = i \<longleftrightarrow> k = 2 * i + 1 \<or> k = 2 * i + 2"
  by (auto simp: parent_def)

lemma length_swap [simp]: "length (swap i j xs) = length xs"
  by (simp add: swap_def)

lemma mset_swap_eq [simp]: "i < length xs \<Longrightarrow> j < length xs \<Longrightarrow> mset (swap i j xs) = mset xs"
  unfolding swap_def by (metis mset_swap list_update_swap)

lemma swap_nth:
  "i < length xs \<Longrightarrow> j < length xs \<Longrightarrow> swap i j xs ! k = (if k = i then xs ! j else if k = j then xs ! i else xs ! k)"
  by (cases "k < length xs") (auto simp: swap_def nth_list_update)

text \<open>All but the place \<open>j\<close> is in order with its parent, and the children of \<open>j\<close> are with its parent.\<close>

definition heap_but :: "('a \<Rightarrow> 'k::linorder) \<Rightarrow> nat \<Rightarrow> 'a list \<Rightarrow> bool" where
  "heap_but key j xs \<longleftrightarrow> (\<forall>i < length xs. i \<noteq> j \<longrightarrow> key (xs ! i) \<le> key (xs ! parent i)) \<and>
     (\<forall>i < length xs. 0 < i \<and> parent i = j \<longrightarrow> key (xs ! i) \<le> key (xs ! parent j))"

lemma heap_up_ok:
  assumes "j < length xs" "heap_but key j xs"
  shows "is_heap key (heap_up key j xs) \<and> mset (heap_up key j xs) = mset xs"
  using assms
proof (induction key j xs rule: heap_up.induct)
  case (1 key j xs)
  let ?p = "parent j"
  show ?case
  proof (cases "?p = j \<or> \<not> key (xs ! j) > key (xs ! ?p)")
    case True
    then have "is_heap key xs" using 1(3) by (auto simp: is_heap_def heap_but_def)
    then show ?thesis using True by (simp add: heap_up.simps [of key j xs])
  next
    case False
    then have j: "0 < j" "?p < j" "key (xs ! ?p) < key (xs ! j)" using parent_eq_self parent_less by auto
    let ?ys = "swap ?p j xs"
    have n: "?ys ! k = (if k = ?p then xs ! j else if k = j then xs ! ?p else xs ! k)" for k
      using swap_nth [of ?p xs j k] j 1(2) by simp
    have A: "\<And>i. i < length xs \<Longrightarrow> i \<noteq> j \<Longrightarrow> key (xs ! i) \<le> key (xs ! parent i)"
      and B: "\<And>i. i < length xs \<Longrightarrow> 0 < i \<Longrightarrow> parent i = j \<Longrightarrow> key (xs ! i) \<le> key (xs ! ?p)"
      using 1(3) by (auto simp: heap_but_def)
    have pp: "key (xs ! ?p) \<le> key (xs ! parent ?p)" using A [of ?p] j 1(2) by simp
    have pk: "parent k = j \<Longrightarrow> k \<noteq> ?p" for k using j parent_less [of k] parent_less [of j] by (cases "k = 0") (auto simp: parent_def)
    have "heap_but key ?p ?ys"
      unfolding heap_but_def
    proof (intro conjI allI impI)
      fix i assume i: "i < length ?ys" "i \<noteq> ?p"
      show "key (?ys ! i) \<le> key (?ys ! parent i)"
      proof (cases "i = j")
        case True
        then show ?thesis using j by (simp add: n)
      next
        case False
        consider "parent i = ?p" | "parent i = j" | "parent i \<noteq> ?p" "parent i \<noteq> j" by blast
        then show ?thesis
        proof cases
          case 1
          then show ?thesis using A [of i] i False j by (simp add: n)
        next
          case 2
          then have "0 < i" using False i(2) by (cases i) (auto simp: parent_def)
          then show ?thesis using B [of i] 2 i False j by (simp add: n)
        next
          case 3
          then show ?thesis using A [of i] i False by (simp add: n)
        qed
      qed
    next
      fix i assume i: "i < length ?ys" "0 < i \<and> parent i = ?p"
      have "parent ?p \<noteq> j" using j parent_less [of ?p] by (cases "?p = 0") (auto simp: parent_def)
      moreover have "?p \<noteq> i" using i parent_eq_self [of i] by auto
      moreover have "key (xs ! i) \<le> key (xs ! ?p)" if "i \<noteq> j" using A [of i] i that by simp
      ultimately show "key (?ys ! i) \<le> key (?ys ! parent ?p)"
        using pp i j by (auto simp: n intro: order_trans less_imp_le)
    qed
    then have "is_heap key (heap_up key ?p ?ys) \<and> mset (heap_up key ?p ?ys) = mset ?ys"
      using 1(1) [OF False] 1(2) j by simp
    then show ?thesis using False 1(2) j by (simp add: heap_up.simps [of key j xs])
  qed
qed

text \<open>All are in order with their parents but the children of \<open>i\<close>, which are with the parent of \<open>i\<close>.\<close>

definition heap_below :: "('a \<Rightarrow> 'k::linorder) \<Rightarrow> nat \<Rightarrow> nat \<Rightarrow> 'a list \<Rightarrow> bool" where
  "heap_below key i n xs \<longleftrightarrow> (\<forall>k < n. 0 < k \<and> parent k \<noteq> i \<longrightarrow> key (xs ! k) \<le> key (xs ! parent k)) \<and>
     (\<forall>k < n. 0 < k \<and> parent k = i \<and> 0 < i \<longrightarrow> key (xs ! k) \<le> key (xs ! parent i))"

definition heap_prefix :: "('a \<Rightarrow> 'k::linorder) \<Rightarrow> nat \<Rightarrow> 'a list \<Rightarrow> bool" where
  "heap_prefix key n xs \<longleftrightarrow> (\<forall>k < n. key (xs ! k) \<le> key (xs ! parent k))"

lemma greater_child_spec:
  assumes "2 * i + 1 < n"
  shows "greater_child key i n xs < n" "parent (greater_child key i n xs) = i" "i < greater_child key i n xs"
    and "k < n \<Longrightarrow> 0 < k \<Longrightarrow> parent k = i \<Longrightarrow> key (xs ! k) \<le> key (xs ! greater_child key i n xs)"
proof -
  show "greater_child key i n xs < n" "parent (greater_child key i n xs) = i" "i < greater_child key i n xs"
    using assms by (auto simp: greater_child_def Let_def parent_def)
  assume k: "k < n" "0 < k" "parent k = i"
  then have "k = 2 * i + 1 \<or> k = 2 * i + 2" using parent_iff by blast
  then show "key (xs ! k) \<le> key (xs ! greater_child key i n xs)" using k(1) by (auto simp: greater_child_def Let_def)
qed

lemma heap_down_ok:
  assumes "i < n" "n \<le> length xs" "heap_below key i n xs"
  shows "heap_prefix key n (heap_down key i n xs) \<and> mset (heap_down key i n xs) = mset xs \<and>
    (\<forall>k \<ge> n. heap_down key i n xs ! k = xs ! k)"
  using assms
proof (induction key i n xs rule: heap_down.induct)
  case (1 key i n xs)
  have A: "\<And>k. k < n \<Longrightarrow> 0 < k \<Longrightarrow> parent k \<noteq> i \<Longrightarrow> key (xs ! k) \<le> key (xs ! parent k)"
    and B: "\<And>k. k < n \<Longrightarrow> 0 < k \<Longrightarrow> parent k = i \<Longrightarrow> 0 < i \<Longrightarrow> key (xs ! k) \<le> key (xs ! parent i)"
    using 1(4) by (auto simp: heap_below_def)
  have z: "parent 0 = 0" by (simp add: parent_def)
  show ?case
  proof (cases "n \<le> 2 * i + 1")
    case True
    have "heap_prefix key n xs"
      unfolding heap_prefix_def
    proof (intro allI impI)
      fix k assume k: "k < n"
      have "k = 0 \<or> parent k \<noteq> i" using True k parent_iff [of k i] by (cases "k = 0") auto
      then show "key (xs ! k) \<le> key (xs ! parent k)" using A [OF k] z by (cases "k = 0") auto
    qed
    then show ?thesis using True by (simp add: heap_down.simps [of key i n xs])
  next
    case False
    let ?j = "greater_child key i n xs"
    have g: "?j < n" "parent ?j = i" "i < ?j" using greater_child_spec [of i n] False by simp_all
    have C: "\<And>k. k < n \<Longrightarrow> 0 < k \<Longrightarrow> parent k = i \<Longrightarrow> key (xs ! k) \<le> key (xs ! ?j)"
      using greater_child_spec(4) [of i n] False by simp
    show ?thesis
    proof (cases "key (xs ! ?j) > key (xs ! i)")
      case le: False
      have "heap_prefix key n xs"
        unfolding heap_prefix_def
      proof (intro allI impI)
        fix k assume k: "k < n"
        show "key (xs ! k) \<le> key (xs ! parent k)"
          using A [OF k] C [OF k] z le by (cases "k = 0"; cases "parent k = i") (auto intro: order_trans)
      qed
      then show ?thesis using False le by (simp add: heap_down.simps [of key i n xs] Let_def)
    next
      case True
      let ?ys = "swap i ?j xs"
      have n: "?ys ! k = (if k = i then xs ! ?j else if k = ?j then xs ! i else xs ! k)" for k
        using swap_nth [of i xs ?j k] g 1(3) by simp
      have "heap_below key ?j n ?ys"
        unfolding heap_below_def
      proof (intro conjI allI impI)
        fix k assume k: "k < n" "0 < k \<and> parent k \<noteq> ?j"
        have kp: "parent k < k" using k parent_less by simp
        show "key (?ys ! k) \<le> key (?ys ! parent k)"
        proof (cases "parent k = i")
          case True
          then show ?thesis using C [of k] k kp True \<open>key (xs ! ?j) > key (xs ! i)\<close> by (auto simp: n)
        next
          case F: False
          show ?thesis
          proof (cases "k = i")
            case True
            then show ?thesis using B [OF g(1)] g k kp F by (auto simp: n)
          next
            case False
            then show ?thesis using A [of k] k kp F g by (auto simp: n)
          qed
        qed
      next
        fix k assume k: "k < n" "0 < k \<and> parent k = ?j \<and> 0 < ?j"
        have "k \<noteq> i" "k \<noteq> ?j" using k parent_less [of k] g by auto
        then show "key (?ys ! k) \<le> key (?ys ! parent ?j)" using A [of k] k g by (auto simp: n)
      qed
      then have IH: "heap_prefix key n (heap_down key ?j n ?ys) \<and> mset (heap_down key ?j n ?ys) = mset ?ys \<and>
          (\<forall>k \<ge> n. heap_down key ?j n ?ys ! k = ?ys ! k)"
        using 1(1) [OF False refl] True g(1) 1(3) by simp
      have "\<forall>k \<ge> n. ?ys ! k = xs ! k" using g by (auto simp: n)
      then show ?thesis using IH False True g 1(3) by (simp add: heap_down.simps [of key i n xs] Let_def)
    qed
  qed
qed

section \<open>The heap keeps the contract\<close>

lemma is_heap_top: "is_heap key xs \<Longrightarrow> k < length xs \<Longrightarrow> key (xs ! k) \<le> key (xs ! 0)"
proof (induction k rule: less_induct)
  case (less k)
  show ?case
  proof (cases "k = 0")
    case False
    then have "parent k < k" by (simp add: parent_less)
    then have "key (xs ! parent k) \<le> key (xs ! 0)" using less by simp
    moreover have "key (xs ! k) \<le> key (xs ! parent k)" using less.prems by (simp add: is_heap_def)
    ultimately show ?thesis by simp
  qed simp
qed

lemma heap_push_ok:
  assumes "is_heap key xs"
  shows "is_heap key (heap_push key x xs)" "mset (heap_push key x xs) = add_mset x (mset xs)"
proof -
  have "heap_but key (length xs) (xs @ [x])"
    unfolding heap_but_def
  proof (intro conjI allI impI)
    fix i assume i: "i < length (xs @ [x])" "i \<noteq> length xs"
    then have "parent i < length xs" "i < length xs" using parent_less [of i] by (cases "i = 0"; auto simp: parent_def)+
    then show "key ((xs @ [x]) ! i) \<le> key ((xs @ [x]) ! parent i)" using assms by (simp add: nth_append is_heap_def)
  next
    fix i assume i: "i < length (xs @ [x])" "0 < i \<and> parent i = length xs"
    then show "key ((xs @ [x]) ! i) \<le> key ((xs @ [x]) ! parent (length xs))" using parent_less [of i] by simp
  qed
  then show "is_heap key (heap_push key x xs)" "mset (heap_push key x xs) = add_mset x (mset xs)"
    using heap_up_ok [of "length xs" "xs @ [x]" key] by (simp_all add: heap_push_def)
qed

lemma heap_pop_ok:
  assumes "is_heap key xs" "heap_pop key xs = Some (x, ys)"
  shows "is_heap key ys" "mset xs = add_mset x (mset ys)" "x = xs ! 0"
proof -
  let ?n = "length xs - 1"
  let ?zs = "heap_down key 0 ?n (swap 0 ?n xs)"
  have ne: "xs \<noteq> []" and x: "x = last ?zs" "ys = butlast ?zs" using assms(2) by (auto simp: heap_pop_def Let_def split: if_splits)
  have n: "swap 0 ?n xs ! k = (if k = 0 then xs ! ?n else if k = ?n then xs ! 0 else xs ! k)" for k
    using swap_nth [of 0 xs ?n k] ne by simp
  have zs: "heap_prefix key ?n ?zs \<and> mset ?zs = mset xs \<and> (\<forall>k \<ge> ?n. ?zs ! k = swap 0 ?n xs ! k)"
  proof (cases "?n = 0")
    case True
    then show ?thesis using ne by (simp add: heap_down.simps [of key 0 0] heap_prefix_def)
  next
    case False
    have "heap_below key 0 ?n (swap 0 ?n xs)"
      unfolding heap_below_def
    proof (intro conjI allI impI)
      fix k assume k: "k < ?n" "0 < k \<and> parent k \<noteq> 0"
      then have "k \<noteq> 0" "k \<noteq> ?n" "parent k \<noteq> ?n" using parent_less [of k] by simp_all
      then show "key (swap 0 ?n xs ! k) \<le> key (swap 0 ?n xs ! parent k)"
        unfolding n using k assms(1) by (simp add: is_heap_def)
    qed blast
    then show ?thesis using heap_down_ok [of 0 ?n "swap 0 ?n xs" key] False ne by simp
  qed
  then have lz: "length ?zs = length xs" by (metis size_mset)
  then have zne: "?zs \<noteq> []" using ne by auto
  show "mset xs = add_mset x (mset ys)"
    using zs zne x by (metis append_butlast_last_id mset_append union_mset_add_mset_right mset.simps add.right_neutral)
  have "last ?zs = ?zs ! ?n" using zne lz by (simp add: last_conv_nth)
  also have "\<dots> = swap 0 ?n xs ! ?n" using zs by blast
  also have "\<dots> = xs ! 0" unfolding n by simp
  finally show "x = xs ! 0" by (simp only: x(1))
  show "is_heap key ys"
    unfolding is_heap_def
  proof (intro allI impI)
    fix i assume i: "i < length ys"
    then have il: "i < ?n" using lz by (simp add: x(2))
    moreover have "parent i < ?n" using il parent_less [of i] by (cases "i = 0") (auto simp: parent_def)
    ultimately show "key (ys ! i) \<le> key (ys ! parent i)"
      using zs lz by (simp add: x(2) nth_butlast heap_prefix_def)
  qed
qed

interpretation heap: max_queue key "is_heap key" mset "[]" "heap_push key" "heap_pop key"
  for key :: "'a \<Rightarrow> 'k::linorder"
proof unfold_locales
  show "is_heap key []" by (simp add: is_heap_def)
  show "heap_pop key q = None \<longleftrightarrow> mset q = {#}" for q by (simp add: heap_pop_def Let_def)
  fix q q' x y assume q: "is_heap key q"
  show "is_heap key (heap_push key x q)" "mset (heap_push key x q) = add_mset x (mset q)" using heap_push_ok [OF q] .
  assume p: "heap_pop key q = Some (x, q')"
  show "is_heap key q'" "mset q = add_mset x (mset q')" using heap_pop_ok [OF q p] by simp_all
  assume "y \<in># mset q"
  then show "key y \<le> key x" using heap_pop_ok(3) [OF q p] is_heap_top [OF q] by (auto simp: in_set_conv_nth)
qed simp

text \<open>Popping a number of times, or until the heap is empty.\<close>

primrec heap_pops :: "('a \<Rightarrow> 'k::linorder) \<Rightarrow> nat \<Rightarrow> 'a list \<Rightarrow> 'a list \<times> 'a list" where
  "heap_pops key 0 q = ([], q)"
| "heap_pops key (Suc n) q =
     (case heap_pop key q of None \<Rightarrow> ([], q) | Some (x, q') \<Rightarrow> (let (xs, r) = heap_pops key n q' in (x # xs, r)))"

lemma heap_pops_eq: "max_queue.pops (heap_pop key) n q = heap_pops key n q"
  by (induction n arbitrary: q) (auto split: option.splits)

lemma heap_pushes: "is_heap key (fold (heap_push key) xs [])" "mset (fold (heap_push key) xs []) = mset xs"
  using heap.push_all [of key "[]" xs] heap.inv_emp by auto

text \<open>The elements of the greatest keys of a list, by pushing them all and popping some.\<close>

lemma heap_top:
  assumes "heap_pops key n (fold (heap_push key) xs []) = (ys, r)"
  shows "mset xs = mset ys + mset r \<and> length ys = min n (length xs) \<and> sorted_wrt (\<ge>) (map key ys) \<and>
    (\<forall>y \<in> set ys. \<forall>z \<in> set r. key z \<le> key y)"
proof -
  from heap.pops_top [OF heap_pushes(1) [of key xs], unfolded heap_pops_eq, OF assms]
  show ?thesis unfolding heap_pushes(2) size_mset set_mset_mset by (rule conjunct2)
qed

end
