(* ===== verification/H2O.thy ===== *)
theory H2O
  imports Max_Heap Filter_Configs Go_Utf8 Go_Float Simd Toml_Filter
begin

text \<open>
  The heavy-hitter filter (\<^verbatim>\<open>internal/filter/h2o.go\<close>, layer 13): a text is cut into tokens, the first and
  the last are kept, and of those between the ones of the highest scores, taken from a heap
  (theory \<open>Max_Heap\<close>). \<open>est\<close> is the token estimate, \<open>lower\<close> the case mapping and \<open>log_e\<close> the natural logarithm of
  \<^verbatim>\<open>math.Log\<close>. An index out of range is \<open>None\<close>.
\<close>

record h2oToken =
  ht_text :: string
  ht_start :: int
  ht_end :: int
  ht_index :: int

record scoredToken =
  st_index :: int
  st_score :: rat

section \<open>Words, symbols, paths\<close>

definition isWordRune :: "nat \<Rightarrow> bool" where
  "isWordRune r \<longleftrightarrow> r < 128 \<and> IsWordChar (char_of r)"

definition h2o_isWhitespace :: "string \<Rightarrow> bool" where
  "h2o_isWhitespace s \<longleftrightarrow> s \<noteq> [] \<and> list_all (\<lambda>c. c \<in> set [CHR '' '', CHR 0x09, nl, CHR 0x0D]) s"

definition endsWithSpace :: "string \<Rightarrow> bool" where
  "endsWithSpace s \<longleftrightarrow> s \<noteq> [] \<and> last s \<in> set [CHR '' '', CHR 0x09, nl, CHR 0x0D]"

definition isNumeric :: "string \<Rightarrow> bool" where
  "isNumeric word \<longleftrightarrow> word \<noteq> [] \<and> list_all (\<lambda>c. is_digit c \<or> c \<in> set ''.-+'') word"

definition codeSymbols :: "string list" where
  "codeSymbols = [''{'', ''}'', ''['', '']'', ''('', '')'', '';'', '','', ''.'', ''->'', ''=>'', ''::'',
     ''=='', ''!='', ''<'', ''>'', ''<='', ''>='', ''&&'', ''||'', ''++'', ''--'']"

definition isCodeSymbol :: "string \<Rightarrow> bool" where
  "isCodeSymbol text \<longleftrightarrow> text \<in> set codeSymbols"

definition filePathExtensions :: "string list" where
  "filePathExtensions = [''.go'', ''.py'', ''.js'', ''.ts'', ''.java'', ''.cpp'', ''.c'', ''.rs'',
     ''.rb'', ''.php'', ''.json'', ''.yaml'', ''.yml'', ''.toml'', ''.md'', ''.txt'']"

definition isFilePath :: "string \<Rightarrow> bool" where
  "isFilePath text \<longleftrightarrow> contains text ''/'' \<and> (contains text ''.'' \<or> contains text ''_'') \<or>
     contains text [CHR 0x5C] \<and> (contains text ''.'' \<or> contains text ''_'') \<or> list_ex (has_suffix text) filePathExtensions"

definition isURL :: "string \<Rightarrow> bool" where
  "isURL text \<longleftrightarrow> has_prefix text ''http://'' \<or> has_prefix text ''https://'' \<or> has_prefix text ''ftp://'' \<or> has_prefix text ''file://''"

section \<open>Tokens\<close>

text \<open>
  The loop over the runes: their offset, the word so far with its start, and the tokens. A rune that is not
  part of a word is a token of its own, with an end one past its first byte.
\<close>

definition word_token :: "string \<Rightarrow> int \<Rightarrow> int \<Rightarrow> h2oToken list \<Rightarrow> h2oToken list" where
  "word_token w start pos tokens =
     (if w = [] then tokens else tokens @ [\<lparr>ht_text = w, ht_start = start, ht_end = pos, ht_index = len tokens\<rparr>])"

function h2o_tokenize_loop :: "string \<Rightarrow> int \<Rightarrow> string \<Rightarrow> int \<Rightarrow> h2oToken list \<Rightarrow> h2oToken list" where
  "h2o_tokenize_loop [] i w start tokens = word_token w start i tokens"
| "h2o_tokenize_loop (c # s) i w start tokens =
     (let (r, n) = decode_rune c s
      in if isWordRune r
         then h2o_tokenize_loop (drop n s) (i + 1 + int n) (w @ [c]) (if w = [] then i else start) tokens
         else let tokens = word_token w start i tokens
              in h2o_tokenize_loop (drop n s) (i + 1 + int n) [] 0
                   (tokens @ [\<lparr>ht_text = encode_rune r, ht_start = i, ht_end = i + 1, ht_index = len tokens\<rparr>]))"
  by pat_completeness auto
termination by (relation "measure (\<lambda>(s, _). length s)") auto

definition h2o_tokenize :: "string \<Rightarrow> h2oToken list" where
  "h2o_tokenize content = h2o_tokenize_loop content 0 [] 0 []"

section \<open>Scores\<close>

definition add_if :: "bool \<Rightarrow> rat \<Rightarrow> rat \<Rightarrow> rat" where
  "add_if b x score = (if b then fadd score (f64 x) else score)"

definition sink_score :: "H2OConfig \<Rightarrow> int \<Rightarrow> rat \<Rightarrow> rat" where
  "sink_score cfg i score =
     (if i < h2o_SinkSize cfg
      then fadd score (fsub (f64 (3/2)) (fmul (fdiv (of_int64 i) (of_int64 (h2o_SinkSize cfg))) (f64 (1/2))))
      else score)"

definition recent_score :: "rat \<Rightarrow> rat \<Rightarrow> rat \<Rightarrow> rat" where
  "recent_score weight pos score =
     (if pos > f64 (8/10) then fadd score (fdiv (fmul (f64 weight) (fsub pos (f64 (8/10)))) (f64 (2/10))) else score)"

definition scoreTokenQuick :: "(string \<Rightarrow> string) \<Rightarrow> H2OConfig \<Rightarrow> h2oToken \<Rightarrow> int \<Rightarrow> int \<Rightarrow> rat" where
  "scoreTokenQuick lower cfg t index n =
     (let score = sink_score cfg index 0;
          score = recent_score (6/10) (fdiv (of_int64 index) (of_int64 n)) score;
          text = lower (ht_text t);
          score = add_if (isNumeric (ht_text t) \<or> isCodeSymbol (ht_text t) \<or> isFilePath (ht_text t)) (5/10) score
      in add_if (contains_any text [''error'', ''fail'', ''warn'', ''file'', ''path'']) (3/10) score)"

definition lineKeywords :: "string list" where
  "lineKeywords = [''error'', ''fail'', ''warning'', ''success'', ''done'', ''complete'',
     ''file:'', ''line:'', ''path:'', ''function:'', ''class:'', ''method:'',
     ''http://'', ''https://'', ''import'', ''export'', ''return'', ''---'', ''==='', ''***'', ''```'']"

definition h2o_scoreLine :: "(string \<Rightarrow> string) \<Rightarrow> H2OConfig \<Rightarrow> string \<Rightarrow> int \<Rightarrow> int \<Rightarrow> rat" where
  "h2o_scoreLine lower cfg line index totalLines =
     (let pos = fdiv (of_int64 index) (of_int64 totalLines);
          score = add_if (index < h2o_SinkSize cfg) 1 0;
          score = recent_score (5/10) pos score;
          score = add_if (contains_any (lower line) lineKeywords) (4/10) score;
          score = add_if (has_suffix line '':'' \<or> has_prefix line ''#'') (3/10) score;
          score = add_if (0 < len (trimSpace line)) (2/10) score
      in add_if (len line > 100) (2/10) score)"

text \<open>How often a word occurs; the words that are only white space are not counted.\<close>

definition word_freq :: "(string \<Rightarrow> string) \<Rightarrow> h2oToken list \<Rightarrow> (string \<times> int) list" where
  "word_freq lower tokens =
     foldl (\<lambda>freq t. let word = lower (trimSpace (ht_text t))
              in if word \<noteq> [] \<and> \<not> h2o_isWhitespace (ht_text t)
                 then al_put word ((case al_get freq word of Some n \<Rightarrow> n | None \<Rightarrow> 0) + 1) freq else freq)
       [] tokens"

definition tokenKeywords :: "string list" where
  "tokenKeywords = [''error'', ''fail'', ''warning'', ''success'', ''done'', ''complete'',
     ''file'', ''path'', ''line'', ''function'', ''class'', ''method'',
     ''import'', ''export'', ''return'', ''def'', ''var'', ''const'',
     ''http'', ''api'', ''url'', ''id'', ''key'', ''token'', ''auth'',
     ''config'', ''env'', ''debug'', ''info'', ''trace'']"

definition localDensity :: "h2oToken list \<Rightarrow> int \<Rightarrow> int" where
  "localDensity tokens i =
     (let start = max 0 (i - 5); stop = min (len tokens) (i + 5)
      in len (filter (\<lambda>j. j \<noteq> i \<and> \<not> h2o_isWhitespace (ht_text (tokens ! nat j))) [start..stop - 1]))"

definition importance :: "(string \<Rightarrow> string) \<Rightarrow> (rat \<Rightarrow> rat) \<Rightarrow> H2OConfig \<Rightarrow> h2oToken list \<Rightarrow> (string \<times> int) list \<Rightarrow> int \<Rightarrow> rat" where
  "importance lower log_e cfg tokens freq i =
     (let text = ht_text (tokens ! nat i); n = of_int64 (len tokens)
      in if h2o_isWhitespace text then f64 (1/10)
         else let word = lower text;
                  score = sink_score cfg i 0;
                  score = recent_score (6/10) (fdiv (of_int64 i) n) score;
                  score = (case al_get freq word of
                             None \<Rightarrow> score
                           | Some cnt \<Rightarrow>
                               fadd score (fmul (fmul (fdiv (of_int64 cnt) n)
                                 (log_e (fdiv (of_int64 (len freq)) (of_int64 cnt)))) (f64 (3/10))));
                  score = add_if (of_int64 (localDensity tokens i) > fmul 5 (f64 (7/10))) (2/10) score;
                  score = add_if (contains_any word tokenKeywords) (5/10) score;
                  score = add_if (isNumeric text) (6/10) score;
                  score = add_if (isFilePath text \<or> isURL text) (8/10) score;
                  score = add_if (contains text ''/'' \<or> contains text [CHR 0x5C]) (7/10) score;
                  score = add_if (list_ex (has_suffix text) [''.go'', ''.py'', ''.js'', ''.ts'', ''.json'', ''.yaml'', ''.yml'', ''.toml'', ''.md'']) (7/10) score;
                  score = add_if (isCodeSymbol text) (3/10) score;
                  cnt = (case al_get freq word of Some n \<Rightarrow> n | None \<Rightarrow> 0);
                  score = (if cnt = 1 \<and> len word > 3 then fadd score (f64 (35/100))
                           else if cnt > 5 then fsub score (f64 (15/100)) else score);
                  score = add_if (has_suffix text '':'' \<or> has_suffix text ''='') (35/100) score;
                  score = (if len text \<le> 2 \<and> \<not> isCodeSymbol text \<and> \<not> isNumeric text then fsub score (f64 (15/100)) else score)
              in if score < 0 then 0 else score)"

definition h2o_calculateImportance :: "(string \<Rightarrow> string) \<Rightarrow> (rat \<Rightarrow> rat) \<Rightarrow> H2OConfig \<Rightarrow> h2oToken list \<Rightarrow> rat list" where
  "h2o_calculateImportance lower log_e cfg tokens =
     (let freq = word_freq lower tokens in map (importance lower log_e cfg tokens freq) [0..len tokens - 1])"

text \<open>Sampled scores: every \<open>rate\<close>-th token is scored, and those up to the next get nine tenths of it.\<close>

definition sampledScores :: "(string \<Rightarrow> string) \<Rightarrow> H2OConfig \<Rightarrow> int \<Rightarrow> h2oToken list \<Rightarrow> rat list" where
  "sampledScores lower cfg rate tokens =
     map (\<lambda>j. let i = j - j mod rate; score = scoreTokenQuick lower cfg (tokens ! nat i) i (len tokens)
              in if j = i then score else fmul score (f64 (9/10)))
       [0..len tokens - 1]"

section \<open>What is kept\<close>

definition recentStart :: "H2OConfig \<Rightarrow> int \<Rightarrow> int" where
  "recentStart cfg n = (if n - h2o_RecentSize cfg < h2o_SinkSize cfg then h2o_SinkSize cfg else n - h2o_RecentSize cfg)"

lemma length_heap_down: "length (heap_down key i n xs) = length xs"
proof (induction key i n xs rule: heap_down.induct)
  case (1 key i n xs)
  then show ?case by (simp add: heap_down.simps [of key i n xs] Let_def)
qed

text \<open>Popping until enough is kept or the heap is empty.\<close>

function extract_loop :: "int \<Rightarrow> scoredToken list \<Rightarrow> int list \<Rightarrow> int list" where
  "extract_loop bound hh keep =
     (if len keep < bound
      then case heap_pop st_score hh of
             None \<Rightarrow> keep
           | Some (st, hh) \<Rightarrow> extract_loop bound hh (List.insert (st_index st) keep)
      else keep)"
  by pat_completeness auto
termination
  by (relation "measure (\<lambda>(_, hh, _). length hh)") (auto simp: heap_pop_def Let_def length_heap_down split: if_splits)

declare extract_loop.simps [simp del]

definition identifyHeavyHitters :: "H2OConfig \<Rightarrow> h2oToken list \<Rightarrow> rat list \<Rightarrow> int list option" where
  "identifyHeavyHitters cfg tokens scores =
     (let n = len tokens; recent = recentStart cfg n;
          keep = foldl (\<lambda>keep i. List.insert i keep) [] ([0..min (h2o_SinkSize cfg) n - 1] @ [recent..n - 1])
      in if h2o_SinkSize cfg < recent \<and> (h2o_SinkSize cfg < 0 \<or> n < recent) then None
         else let mid = filter (\<lambda>i. \<not> h2o_isWhitespace (ht_text (tokens ! nat i))) [h2o_SinkSize cfg..recent - 1];
                  hh = fold (heap_push st_score) (map (\<lambda>i. \<lparr>st_index = i, st_score = scores ! nat i\<rparr>) mid) []
              in Some (extract_loop (h2o_SinkSize cfg + h2o_RecentSize cfg + h2o_HeavyHitterSize cfg) hh keep))"

fun h2o_build_loop :: "int list \<Rightarrow> h2oToken list \<Rightarrow> (int \<times> h2oToken) list \<Rightarrow> int \<Rightarrow> string \<Rightarrow> string" where
  "h2o_build_loop keep tokens [] lastKept result = result"
| "h2o_build_loop keep tokens ((i, t) # ts) lastKept result =
     (if i \<in> set keep
      then let gap = (lastKept \<ge> 0 \<and> i > lastKept + 1 \<and> \<not> h2o_isWhitespace (ht_text t) \<and>
                      \<not> endsWithSpace (ht_text (tokens ! nat lastKept)))
           in h2o_build_loop keep tokens ts i (result @ (if gap then '' '' else []) @ ht_text t)
      else h2o_build_loop keep tokens ts lastKept result)"

definition h2o_buildOutput :: "h2oToken list \<Rightarrow> int list \<Rightarrow> string" where
  "h2o_buildOutput tokens keep = h2o_build_loop keep tokens (zip [0..len tokens - 1] tokens) (- 1) []"

section \<open>The filter\<close>

text \<open>A result that saves fewer than five tokens is given up.\<close>

definition worth_it :: "(string \<Rightarrow> int) \<Rightarrow> string \<Rightarrow> int \<Rightarrow> string \<Rightarrow> string \<times> int" where
  "worth_it est input originalTokens output =
     (let saved = originalTokens - est output in if saved < 5 then (input, 0) else (output, saved))"

definition h2o_least :: "H2OConfig \<Rightarrow> int" where
  "h2o_least cfg = h2o_SinkSize cfg + h2o_RecentSize cfg + h2o_HeavyHitterSize cfg"

definition applySampled :: "(string \<Rightarrow> int) \<Rightarrow> (string \<Rightarrow> string) \<Rightarrow> H2OConfig \<Rightarrow> string \<Rightarrow> int \<Rightarrow> (string \<times> int) option" where
  "applySampled est lower cfg input originalTokens =
     (let tokens = h2o_tokenize input
      in if len tokens < h2o_least cfg then Some (input, 0)
         else let rate = (if originalTokens > 20000 then 8 else 4)
              in map_option (\<lambda>keep. worth_it est input originalTokens (h2o_buildOutput tokens keep))
                   (identifyHeavyHitters cfg tokens (sampledScores lower cfg rate tokens)))"

definition line_keep :: "(string \<Rightarrow> string) \<Rightarrow> H2OConfig \<Rightarrow> string list \<Rightarrow> int list" where
  "line_keep lower cfg ls =
     (let n = len ls; recent = recentStart cfg n;
          mid = filter (\<lambda>i. 0 \<le> i \<and> i < n \<and> trimSpace (ls ! nat i) \<noteq> []) [h2o_SinkSize cfg..recent - 1];
          hh = fold (heap_push st_score) (map (\<lambda>i. \<lparr>st_index = i, st_score = h2o_scoreLine lower cfg (ls ! nat i) i n\<rparr>) mid) []
      in map st_index (fst (heap_pops st_score (nat (h2o_HeavyHitterSize cfg)) hh)))"

definition applyLineBased :: "(string \<Rightarrow> int) \<Rightarrow> (string \<Rightarrow> string) \<Rightarrow> H2OConfig \<Rightarrow> string \<Rightarrow> int \<Rightarrow> string \<times> int" where
  "applyLineBased est lower cfg input originalTokens =
     (if scanner_fails MaxScanTokenSize input then (input, 0)
      else let ls = scanner_lines MaxScanTokenSize input; n = len ls; recent = recentStart cfg n
           in if n < h2o_SinkSize cfg + h2o_RecentSize cfg + 10 then (input, 0)
              else let keep = line_keep lower cfg ls;
                       kept = map snd (filter (\<lambda>(i, line). i < h2o_SinkSize cfg \<or> recent \<le> i \<or> i \<in> set keep) (zip [0..n - 1] ls))
                   in worth_it est input originalTokens (join_lines kept))"

definition h2o_Apply ::
  "(string \<Rightarrow> int) \<Rightarrow> (string \<Rightarrow> string) \<Rightarrow> (rat \<Rightarrow> rat) \<Rightarrow> H2OConfig \<Rightarrow> string \<Rightarrow> (string \<times> int) option" where
  "h2o_Apply est lower log_e cfg input =
     (if \<not> h2o_Enabled cfg then Some (input, 0)
      else if len input < h2o_MinContentLength cfg then Some (input, 0)
      else if go_div (len input) 4 < h2o_least cfg then Some (input, 0)
      else let originalTokens = est input
           in if originalTokens > 50000 then Some (applyLineBased est lower cfg input originalTokens)
              else if originalTokens > 10000 then applySampled est lower cfg input originalTokens
              else let tokens = h2o_tokenize input
                   in if len tokens < h2o_least cfg then Some (input, 0)
                      else map_option (\<lambda>keep. worth_it est input originalTokens (h2o_buildOutput tokens keep))
                             (identifyHeavyHitters cfg tokens (h2o_calculateImportance lower log_e cfg tokens)))"

definition h2o_SetEnabled :: "bool \<Rightarrow> H2OConfig \<Rightarrow> H2OConfig" where
  "h2o_SetEnabled enabled cfg = cfg\<lparr>h2o_Enabled := enabled\<rparr>"

section \<open>The kept tokens\<close>

text \<open>The loop over the heap pops as many as are missing, when their indices are new.\<close>

lemma extract_loop_pops:
  assumes "heap_pops st_score n hh = (xs, r)" "n = nat (bound - len keep)"
    and "distinct (map st_index hh)" "is_heap st_score hh" "set (map st_index hh) \<inter> set keep = {}"
  shows "extract_loop bound hh keep = rev (map st_index xs) @ keep"
  using assms
proof (induction n arbitrary: hh keep xs)
  case 0
  then show ?case by (simp add: extract_loop.simps)
next
  case (Suc n)
  then have b: "len keep < bound" by simp
  show ?case
  proof (cases "heap_pop st_score hh")
    case None
    then show ?thesis using Suc.prems(1) b by (auto simp: extract_loop.simps [of bound r keep])
  next
    case (Some p)
    obtain x hh' where p: "heap_pop st_score hh = Some (x, hh')" using Some by (cases p) auto
    obtain ys where ys: "heap_pops st_score n hh' = (ys, r)" "xs = x # ys" using Suc.prems(1) p by (auto split: prod.splits)
    note ok = heap_pop_ok [OF Suc.prems(4) p]
    have m: "mset (map st_index hh) = add_mset (st_index x) (mset (map st_index hh'))"
      by (simp only: mset_map ok(2) image_mset_add_mset)
    then have d: "distinct (st_index x # map st_index hh')" using Suc.prems(3)
      by (metis mset.simps(2) mset_eq_imp_distinct_iff)
    have s: "set (map st_index hh) = insert (st_index x) (set (map st_index hh'))"
      using m by (metis list.simps(15) mset.simps(2) mset_eq_setD)
    have new: "st_index x \<notin> set keep" using Suc.prems(5) s by auto
    have "extract_loop bound hh' (st_index x # keep) = rev (map st_index ys) @ st_index x # keep"
      using Suc.prems(2,5) d s new by (intro Suc.IH [OF ys(1)] ok(1)) auto
    then show ?thesis using b p new by (simp add: extract_loop.simps [of bound hh keep] ys(2))
  qed
qed

lemma insert_fold: "distinct (foldl (\<lambda>keep i. List.insert i keep) keep xs) = distinct keep"
  "set (foldl (\<lambda>keep i. List.insert i keep) keep xs) = set keep \<union> set xs"
  by (induction xs arbitrary: keep) auto

definition h2o_sizes_ok :: "H2OConfig \<Rightarrow> bool" where
  "h2o_sizes_ok cfg \<longleftrightarrow> 0 \<le> h2o_SinkSize cfg \<and> 0 \<le> h2o_RecentSize cfg \<and> 0 \<le> h2o_HeavyHitterSize cfg"

lemma h2o_sizes_default: "h2o_sizes_ok DefaultH2OConfig"
  by (simp add: h2o_sizes_ok_def DefaultH2OConfig_def)

text \<open>The tokens between the first and the last that are not white space.\<close>

definition middle :: "H2OConfig \<Rightarrow> h2oToken list \<Rightarrow> int list" where
  "middle cfg tokens = filter (\<lambda>i. \<not> h2o_isWhitespace (ht_text (tokens ! nat i))) [h2o_SinkSize cfg..recentStart cfg (len tokens) - 1]"

text \<open>The indices that are popped are those of the highest scores.\<close>

lemma popped_indices:
  fixes scores :: "rat list"
  defines "items is \<equiv> map (\<lambda>i. \<lparr>st_index = i, st_score = scores ! nat i\<rparr>) is"
  assumes "heap_pops st_score k (fold (heap_push st_score) (items is) []) = (xs, q)" "distinct is"
  shows "distinct (map st_index xs)" "set (map st_index xs) \<subseteq> set is" "length xs = min k (length is)"
    "\<forall>i \<in> set (map st_index xs). \<forall>j \<in> set is - set (map st_index xs). scores ! nat j \<le> scores ! nat i"
proof -
  note top = heap_top [OF assms(2)]
  have parts: "mset is = mset (map st_index xs) + mset (map st_index q)"
    using top by (metis (no_types, lifting) items_def comp_apply image_mset_union list.map_comp map_idI mset_map scoredToken.select_convs(1))
  then have d: "distinct (map st_index xs @ map st_index q)" "set is = set (map st_index xs) \<union> set (map st_index q)"
    using assms(3) by (metis mset_append mset_eq_imp_distinct_iff, metis mset_append mset_eq_setD set_append)
  then show "distinct (map st_index xs)" "set (map st_index xs) \<subseteq> set is" by auto
  show "length xs = min k (length is)" using top by (simp add: items_def)
  have sc: "st_score z = scores ! nat (st_index z)" if "z \<in> set xs \<union> set q" for z
  proof -
    have "z \<in> set (items is)" using that top by (metis Un_iff mset_append mset_eq_setD set_append)
    then show ?thesis by (auto simp: items_def)
  qed
  show "\<forall>i \<in> set (map st_index xs). \<forall>j \<in> set is - set (map st_index xs). scores ! nat j \<le> scores ! nat i"
  proof (intro ballI)
    fix i j assume i: "i \<in> set (map st_index xs)" and j: "j \<in> set is - set (map st_index xs)"
    obtain y where y: "y \<in> set xs" "i = st_index y" using i by auto
    have "j \<in> set (map st_index q)" using j d(2) by blast
    then obtain z where z: "z \<in> set q" "j = st_index z" by auto
    have "st_score z \<le> st_score y" using top y(1) z(1) by blast
    then show "scores ! nat j \<le> scores ! nat i" using sc [of y] sc [of z] y z by simp
  qed
qed

lemma pushed_indices:
  "mset (map st_index (fold (heap_push st_score) (map (\<lambda>i. \<lparr>st_index = i, st_score = f i\<rparr>) is) [])) = mset is"
  using heap_pushes(2) [of st_score "map (\<lambda>i. \<lparr>st_index = i, st_score = f i\<rparr>) is"]
  by (metis (no_types, lifting) comp_apply list.map_comp map_idI mset_map scoredToken.select_convs(1))

text \<open>
  C15: Of a long enough text the heavy-hitter filter keeps the first and the last tokens and, of the tokens
  between, as many as configured, if there are as many that are not white space, and these have the
  highest scores: none that is left out has a higher score than one that is kept.
\<close>

theorem h2o_keeps_heavy_hitters:
  assumes "h2o_sizes_ok cfg" "h2o_least cfg \<le> len tokens"
  shows "\<exists>keep heavy. identifyHeavyHitters cfg tokens scores = Some keep \<and> distinct heavy \<and> set heavy \<subseteq> set (middle cfg tokens) \<and>
    set keep = {0..<h2o_SinkSize cfg} \<union> {len tokens - h2o_RecentSize cfg..<len tokens} \<union> set heavy \<and>
    len heavy = min (h2o_HeavyHitterSize cfg) (len (middle cfg tokens)) \<and>
    (\<forall>i \<in> set heavy. \<forall>j \<in> set (middle cfg tokens) - set heavy. scores ! nat j \<le> scores ! nat i)"
proof -
  let ?n = "len tokens" and ?S = "h2o_SinkSize cfg" and ?R = "h2o_RecentSize cfg" and ?H = "h2o_HeavyHitterSize cfg"
  have sz: "0 \<le> ?S" "0 \<le> ?R" "0 \<le> ?H" "?S + ?R + ?H \<le> ?n" using assms by (auto simp: h2o_sizes_ok_def h2o_least_def)
  then have r: "recentStart cfg ?n = ?n - ?R" by (simp add: recentStart_def)
  let ?base = "foldl (\<lambda>keep i. List.insert i keep) [] ([0..min ?S ?n - 1] @ [?n - ?R..?n - 1])"
  have base: "distinct ?base" "set ?base = {0..<?S} \<union> {?n - ?R..<?n}" using sz by (auto simp: insert_fold)
  have "card (set ?base) = nat ?S + nat ?R"
    unfolding base(2) using sz by (subst card_Un_disjoint) auto
  then have lb: "len ?base = ?S + ?R" using base(1) sz by (simp add: distinct_card)
  let ?hh = "fold (heap_push st_score) (map (\<lambda>i. \<lparr>st_index = i, st_score = scores ! nat i\<rparr>) (middle cfg tokens)) []"
  obtain xs q where xs: "heap_pops st_score (nat ?H) ?hh = (xs, q)" by (metis surj_pair)
  have mid: "distinct (middle cfg tokens)" "set (middle cfg tokens) \<subseteq> {?S..<?n - ?R}" by (auto simp: middle_def r)
  note popped = popped_indices [OF xs mid(1)]
  have e: "extract_loop (?S + ?R + ?H) ?hh ?base = rev (map st_index xs) @ ?base"
  proof (rule extract_loop_pops [OF xs])
    show "nat ?H = nat (?S + ?R + ?H - len ?base)" unfolding lb by simp
    show "distinct (map st_index ?hh)" using pushed_indices mid(1) by (metis mset_eq_imp_distinct_iff)
    show "is_heap st_score ?hh" by (rule heap_pushes(1))
    have "set (map st_index ?hh) = set (middle cfg tokens)" using pushed_indices by (rule mset_eq_setD)
    then show "set (map st_index ?hh) \<inter> set ?base = {}" using mid(2) base(2) by auto
  qed
  have "len (map st_index xs) = min ?H (len (middle cfg tokens))" using popped(3) sz by (auto simp: min_def)
  moreover have "identifyHeavyHitters cfg tokens scores = Some (rev (map st_index xs) @ ?base)"
    using e sz by (simp add: identifyHeavyHitters_def r middle_def Let_def)
  ultimately show ?thesis using popped(1,2,4) base(2)
    by (intro exI [of _ "rev (map st_index xs) @ ?base"] exI [of _ "map st_index xs"] conjI) auto
qed

section \<open>The filter reports what it saves\<close>

lemma identify_total: "h2o_sizes_ok cfg \<Longrightarrow> h2o_least cfg \<le> len tokens \<Longrightarrow> identifyHeavyHitters cfg tokens scores \<noteq> None"
  by (auto simp: identifyHeavyHitters_def Let_def recentStart_def h2o_sizes_ok_def h2o_least_def)

lemma h2o_Apply_total [simp]: "h2o_sizes_ok cfg \<Longrightarrow> h2o_Apply est lower log_e cfg input \<noteq> None"
  using identify_total [of cfg "h2o_tokenize input"]
  by (auto simp: h2o_Apply_def applySampled_def Let_def simp del: not_None_eq)

lemma worth_it_honest: "worth_it est input (est input) output = (t, n) \<Longrightarrow> n = est input - est t \<and> (t \<noteq> input \<longrightarrow> 5 \<le> n)"
  by (auto simp: worth_it_def Let_def split: if_splits)

lemma h2o_Apply_honest:
  assumes "h2o_Apply est lower log_e cfg input = Some (t, n)"
  shows "n = est input - est t \<and> (t \<noteq> input \<longrightarrow> 5 \<le> n)"
  using assms worth_it_honest [of est input _ t n]
  by (auto simp: h2o_Apply_def applySampled_def applyLineBased_def Let_def split: if_splits)

text \<open>As a filter of the pipeline.\<close>

definition h2o_filter :: "(string \<Rightarrow> int) \<Rightarrow> (string \<Rightarrow> string) \<Rightarrow> (rat \<Rightarrow> rat) \<Rightarrow> H2OConfig \<Rightarrow> string \<Rightarrow> Mode \<Rightarrow> string \<times> int" where
  "h2o_filter est lower log_e cfg input mode = (case h2o_Apply est lower log_e cfg input of Some r \<Rightarrow> r | None \<Rightarrow> (input, 0))"

interpretation h2o: honest_filter est "h2o_filter est lower log_e cfg"
proof unfold_locales
  fix s m t n assume "h2o_filter est lower log_e cfg s m = (t, n)"
  then show "n = est s - est t"
    using h2o_Apply_honest [of est lower log_e cfg s t n]
    by (cases "h2o_Apply est lower log_e cfg s") (auto simp: h2o_filter_def)
qed

section \<open>Witness\<close>

definition demo_h2o_tokens :: "h2oToken list" where
  "demo_h2o_tokens = map (\<lambda>w. \<lparr>ht_text = w, ht_start = 0, ht_end = 1, ht_index = 0\<rparr>) [''a'', ''b'', '' '', ''c'', ''d'']"

definition demo_h2o_config :: H2OConfig where
  "demo_h2o_config = DefaultH2OConfig\<lparr>h2o_SinkSize := 1, h2o_RecentSize := 1, h2o_HeavyHitterSize := 1\<rparr>"

lemma h2o_keeps_heavy_hitters_witness:
  "\<exists>keep heavy. identifyHeavyHitters demo_h2o_config demo_h2o_tokens [5, 1, 9, 2, 0] = Some keep \<and> distinct heavy \<and>
     set heavy \<subseteq> set (middle demo_h2o_config demo_h2o_tokens) \<and> len heavy = 1"
proof -
  have c: "h2o_sizes_ok demo_h2o_config" "h2o_least demo_h2o_config \<le> len demo_h2o_tokens" "h2o_HeavyHitterSize demo_h2o_config = 1"
    by (simp_all add: h2o_sizes_ok_def demo_h2o_config_def h2o_least_def demo_h2o_tokens_def)
  have m: "len (middle demo_h2o_config demo_h2o_tokens) = 2" by code_simp
  show ?thesis using h2o_keeps_heavy_hitters [OF c(1,2), of "[5, 1, 9, 2, 0]"] unfolding c(3) m by (simp only: min_def) auto
qed

lemma h2o_example: "identifyHeavyHitters demo_h2o_config demo_h2o_tokens [5, 1, 9, 2, 0] = Some [3, 4, 0]"
  by code_simp

end
