(* ===== verification/Position_Aware.thy ===== *)
theory Position_Aware
  imports Pipeline_Types Go_Float Go_Strings "HOL-Library.Multiset"
begin

text \<open>
  The position-aware filter (\<^verbatim>\<open>internal/filter/position_aware.go\<close>), which repeats the most important segments of
  a text at its beginning and its end. \<^verbatim>\<open>sort.Slice\<close> is not stable: \<open>srt\<close> is any function that sorts by
  score, greatest first. \<open>lower\<close> is the case mapping.
\<close>

text \<open>A permutation with descending keys.\<close>

definition sorts_desc :: "('a \<Rightarrow> 'k::linorder) \<Rightarrow> ('a list \<Rightarrow> 'a list) \<Rightarrow> bool" where
  "sorts_desc key srt \<longleftrightarrow> (\<forall>xs. mset (srt xs) = mset xs \<and> sorted_wrt (\<ge>) (map key (srt xs)))"

record scoredPositionSegment =
  sp_content :: string
  sp_score :: rat
  sp_originalIndex :: nat

definition boundaryPrefixes :: "string list" where
  "boundaryPrefixes = [''@@'', ''diff --git'', ''test result:'', ''PASS'', ''FAIL'', ''Compiling'', ''Building'', ''Finished'',
     ''Running'', ''error:'', ''Error:'', ''ERROR:'', ''stack backtrace'', ''Stack trace'', ''Traceback'']"

definition isStructuralBoundary :: "string \<Rightarrow> bool" where
  "isStructuralBoundary line \<longleftrightarrow> list_ex (has_prefix line) boundaryPrefixes"

fun segment_loop :: "string list \<Rightarrow> string list \<Rightarrow> string list \<Rightarrow> string list" where
  "segment_loop segments current [] = (if current \<noteq> [] then segments @ [join_lines current] else segments)"
| "segment_loop segments current (line # ls) =
     (let trimmed = trimSpace line
      in if trimmed = [] \<and> current \<noteq> [] then segment_loop (segments @ [join_lines current]) [] ls
         else if isStructuralBoundary trimmed \<and> current \<noteq> [] then segment_loop (segments @ [join_lines current]) [line] ls
         else segment_loop segments (current @ [line]) ls)"

definition segmentOutput :: "string \<Rightarrow> string list" where
  "segmentOutput input = segment_loop [] [] (split_lines input)"

definition hasFileReference :: "string \<Rightarrow> bool" where
  "hasFileReference segment = contains_any segment [''.go:'', ''.rs:'', ''.py:'', ''.js:'', ''.ts:'', ''.java:'', ''.c:'', ''.cpp:'']"

definition plus_if :: "bool \<Rightarrow> rat \<Rightarrow> rat \<Rightarrow> rat" where
  "plus_if b x score = (if b then fadd score (f64 x) else score)"

definition importanceScore :: "(string \<Rightarrow> string) \<Rightarrow> string \<Rightarrow> rat" where
  "importanceScore lower segment =
     (if trimSpace segment = [] then 0
      else let low = lower segment; has = contains low;
               score = plus_if (contains_any low [''error'', ''failed'', ''failure'', ''fatal'', ''panic'', ''exception'']) (5/10) 0;
               score = plus_if (contains_any low [''stack trace'', ''traceback'', ''assertion''] \<or> has ''test result:'' \<and> has ''fail'') (4/10) score;
               score = plus_if (hasFileReference segment) (2/10) score;
               score = plus_if (contains_any low [''warning'', ''warn'', ''deprecated'']) (1/10) score;
               score = plus_if (contains_any segment [''@@'', ''diff --git'', ''---'', ''+++'']) (2/10) score;
               score = (if has ''success'' \<or> has ''ok'' \<or> has ''passed'' \<and> \<not> has ''failed'' then fsub score (f64 (1/10)) else score);
               score = (if score < 0 then 0 else score)
           in if score > 1 then 1 else score)"

text \<open>The index of the first segment with a content.\<close>

fun index_of :: "string \<Rightarrow> nat \<Rightarrow> scoredPositionSegment list \<Rightarrow> nat option" where
  "index_of c i [] = None"
| "index_of c i (seg # segs) = (if sp_content seg = c then Some i else index_of c (Suc i) segs)"

definition topCount :: "nat \<Rightarrow> nat" where
  "topCount n = max 1 (n div 5)"

definition reorderByImportance ::
  "(scoredPositionSegment list \<Rightarrow> scoredPositionSegment list) \<Rightarrow> scoredPositionSegment list \<Rightarrow> string list" where
  "reorderByImportance srt segments =
     (if segments = [] then []
      else let sorted = srt segments; n = length sorted;
               tops = map sp_content (take (topCount n) sorted);
               topSet = List.map_filter (\<lambda>c. index_of c 0 segments) tops;
               middle = map (sp_content \<circ> snd) (filter (\<lambda>(i, _). i \<notin> set topSet) (List.enumerate 0 segments))
           in tops @ middle @ tops)"

definition pa_Apply ::
  "(string \<Rightarrow> string) \<Rightarrow> (scoredPositionSegment list \<Rightarrow> scoredPositionSegment list) \<Rightarrow> string \<Rightarrow> Mode \<Rightarrow> string \<times> int" where
  "pa_Apply lower srt input mode =
     (if len input < 200 then (input, 0)
      else let segments = segmentOutput input
           in if length segments < 4 then (input, 0)
              else let scored = map (\<lambda>(i, seg). \<lparr>sp_content = seg, sp_score = importanceScore lower seg, sp_originalIndex = i\<rparr>)
                                  (List.enumerate 0 segments)
                   in (join [nl, nl] (reorderByImportance srt scored), 0))"

section \<open>Segments\<close>

text \<open>The segments are the lines of the text in order, without the blank lines that end a segment.\<close>

lemma segment_loop_lines:
  "(\<forall>l \<in> set (current @ ls). nl \<notin> set l) \<Longrightarrow>
   filter (\<lambda>l. trimSpace l \<noteq> []) (concat (map split_lines (segment_loop segments current ls))) =
     filter (\<lambda>l. trimSpace l \<noteq> []) (concat (map split_lines segments) @ current @ ls)"
proof (induction segments current ls rule: segment_loop.induct)
  case (1 segments current)
  then show ?case by (auto simp: split_join)
next
  case (2 segments current line ls)
  have j: "split_lines (join_lines current) = current" if "current \<noteq> []" using 2(4) that by (simp add: split_join)
  consider "trimSpace line = []" "current \<noteq> []" | "isStructuralBoundary (trimSpace line)" "current \<noteq> []" "trimSpace line \<noteq> []"
    | "current = [] \<or> \<not> isStructuralBoundary (trimSpace line) \<and> trimSpace line \<noteq> []" by blast
  then show ?case
  proof cases
    case 1
    then show ?thesis using 2(1) [OF refl] 2(4) j by simp
  next
    case 2: 2
    then show ?thesis using "2.IH"(2) [OF refl] "2.prems" j by simp
  next
    case 3
    then show ?thesis using "2.IH"(3) [OF refl] "2.prems" by auto
  qed
qed

lemma segmentOutput_lines:
  "filter (\<lambda>l. trimSpace l \<noteq> []) (concat (map split_lines (segmentOutput input))) =
   filter (\<lambda>l. trimSpace l \<noteq> []) (split_lines input)"
  using segment_loop_lines [of "[]" "split_lines input" "[]"] split_no_sep [of _ nl input]
  by (simp add: segmentOutput_def)

section \<open>The order\<close>

lemma index_of_Some: "index_of c i segs = Some k \<Longrightarrow> i \<le> k \<and> k < i + length segs \<and> sp_content (segs ! (k - i)) = c"
  by (induction c i segs rule: index_of.induct) (auto split: if_splits simp: nth_Cons' Suc_diff_le)

lemma distinct_subset_mset:
  assumes "distinct xs" "set xs \<subseteq> set ys" shows "mset xs \<subseteq># mset ys"
proof -
  have "mset xs = mset_set (set xs)" using assms(1) by (simp add: mset_set_set)
  also have "\<dots> \<subseteq># mset_set (set ys)" using assms(2) by (rule subset_imp_msubset_mset_set) simp
  also have "\<dots> \<subseteq># mset ys" using mset_set_set_mset_msubset [of "mset ys"] by simp
  finally show ?thesis .
qed

text \<open>At most one index is taken for a content, so the top segments make up for what the middle lacks.\<close>

definition top_indices :: "string list \<Rightarrow> scoredPositionSegment list \<Rightarrow> nat set" where
  "top_indices tops segments = set (List.map_filter (\<lambda>c. index_of c 0 segments) tops)"

lemma top_indices_iff:
  "i \<in> top_indices tops segments \<longleftrightarrow> (\<exists>c \<in> set tops. index_of c 0 segments = Some i)"
  by (force simp: top_indices_def List.map_filter_def)

lemma taken_contents:
  defines "taken T segments \<equiv> map (\<lambda>i. sp_content (segments ! i)) (filter (\<lambda>i. i \<in> T) [0..<length segments])"
  shows "mset (taken (top_indices tops segments) segments) \<subseteq># mset tops"
proof (rule distinct_subset_mset)
  have one: "index_of (sp_content (segments ! i)) 0 segments = Some i \<and> sp_content (segments ! i) \<in> set tops"
    if "i \<in> top_indices tops segments" for i
    using that index_of_Some [of _ 0 segments i] by (auto simp: top_indices_iff)
  then show "set (taken (top_indices tops segments) segments) \<subseteq> set tops" by (auto simp: taken_def)
  show "distinct (taken (top_indices tops segments) segments)"
    unfolding taken_def by (auto simp: distinct_map inj_on_def) (metis one option.inject)
qed

lemma map_filter_enumerate:
  "map (f \<circ> snd) (filter (\<lambda>(i, _). P i) (List.enumerate 0 xs)) = map (\<lambda>i. f (xs ! i)) (filter P [0..<length xs])"
proof -
  have "List.enumerate 0 xs = map (\<lambda>i. (i, xs ! i)) [0..<length xs]"
    by (rule nth_equalityI) (simp_all add: nth_enumerate_eq)
  then show ?thesis by (simp add: filter_map comp_def)
qed

lemma partition_contents:
  "mset (map f xs) = mset (map (\<lambda>i. f (xs ! i)) (filter P [0..<length xs])) +
     mset (map (\<lambda>i. f (xs ! i)) (filter (\<lambda>i. \<not> P i) [0..<length xs]))"
proof -
  have "map f xs = map (\<lambda>i. f (xs ! i)) [0..<length xs]" by (rule nth_equalityI) simp_all
  moreover have "mset [0..<length xs] = mset (filter P [0..<length xs]) + mset (filter (\<lambda>i. \<not> P i) [0..<length xs])"
    by (simp only: mset_filter multiset_partition [symmetric])
  ultimately show ?thesis by (simp only: mset_map image_mset_union)
qed

text \<open>
  Reordering loses no segment, however the segments are sorted: each is in the result at least as often
  as in the text, and the top segments are there at the beginning and, once more, at the end.
\<close>

theorem reorder_loses_nothing:
  assumes "sorts_desc sp_score srt" "segments \<noteq> []"
  shows "\<exists>middle. reorderByImportance srt segments =
      map sp_content (take (topCount (length segments)) (srt segments)) @ middle @
      map sp_content (take (topCount (length segments)) (srt segments)) \<and>
    mset (map sp_content segments) \<subseteq># mset (map sp_content (take (topCount (length segments)) (srt segments)) @ middle) \<and>
    (\<forall>s \<in> set (take (topCount (length segments)) (srt segments)). \<forall>t \<in> set (drop (topCount (length segments)) (srt segments)).
       sp_score t \<le> sp_score s)"
proof -
  have ms: "mset (srt segments) = mset segments" "sorted_wrt (\<ge>) (map sp_score (srt segments))"
    using assms(1) by (auto simp: sorts_desc_def)
  then have l: "length (srt segments) = length segments" by (metis size_mset)
  let ?k = "topCount (length segments)"
  let ?top = "map sp_content (take ?k (srt segments))"
  let ?middle = "map (sp_content \<circ> snd) (filter (\<lambda>(i, _). i \<notin> top_indices ?top segments) (List.enumerate 0 segments))"
  have r: "reorderByImportance srt segments = ?top @ ?middle @ ?top"
    using assms(2) l by (simp add: reorderByImportance_def top_indices_def Let_def)
  have "mset (map sp_content segments) \<subseteq># mset ?top + mset ?middle"
    unfolding map_filter_enumerate partition_contents [of sp_content segments "\<lambda>i. i \<in> top_indices ?top segments"]
    by (rule subset_mset.add_mono [OF taken_contents]) simp
  moreover have "sorted_wrt (\<ge>) (map sp_score (take ?k (srt segments)) @ map sp_score (drop ?k (srt segments)))"
    using ms(2) by (simp flip: map_append)
  then have "\<forall>s \<in> set (take ?k (srt segments)). \<forall>t \<in> set (drop ?k (srt segments)). sp_score t \<le> sp_score s"
    unfolding sorted_wrt_append by simp
  ultimately show ?thesis using r by (intro exI [of _ ?middle]) simp
qed

text \<open>The top segments are there twice, so the output is longer than the segments, while the savings reported are 0.\<close>

lemma pa_reports_nothing: "snd (pa_Apply lower srt input mode) = 0"
  by (simp add: pa_Apply_def Let_def)

definition demo_sort :: "scoredPositionSegment list \<Rightarrow> scoredPositionSegment list" where
  "demo_sort = rev \<circ> sort_key sp_score"

lemma demo_sort_desc: "sorts_desc sp_score demo_sort"
  by (auto simp: sorts_desc_def demo_sort_def rev_map [symmetric] sorted_wrt_rev)

definition demo_segments :: "scoredPositionSegment list" where
  "demo_segments = map (\<lambda>(i, c, x). \<lparr>sp_content = c, sp_score = x, sp_originalIndex = i\<rparr>)
     [(0, ''a'', 0), (1, ''b'', 1), (2, ''b'', 1), (3, ''c'', 0)]"

lemma reorder_loses_nothing_witness:
  "\<exists>middle. reorderByImportance demo_sort demo_segments =
      map sp_content (take 1 (demo_sort demo_segments)) @ middle @ map sp_content (take 1 (demo_sort demo_segments)) \<and>
    mset (map sp_content demo_segments) \<subseteq># mset (map sp_content (take 1 (demo_sort demo_segments)) @ middle)"
proof -
  have "demo_segments \<noteq> []" "topCount (length demo_segments) = 1" by (simp_all add: demo_segments_def topCount_def)
  then show ?thesis using reorder_loses_nothing [OF demo_sort_desc, of demo_segments] by auto
qed

lemma reorder_repeats: "reorderByImportance demo_sort demo_segments = [''b'', ''a'', ''b'', ''c'', ''b'']"
  by code_simp

end
