(* ===== verification/Lazy_Pruner.thy ===== *)
theory Lazy_Pruner
  imports Position_Aware Filter_Configs
begin

text \<open>
  The lazy pruner (\<^verbatim>\<open>internal/filter/lazy_pruner.go\<close>): words scored by a few rules, the best ones within the
  budget of the first layer kept in their order, the rest stored and revived on request. \<open>pow\<close> is
  \<^verbatim>\<open>math.Pow\<close>, \<open>srt\<close> sorts by score, \<open>lower\<close> is the case mapping. An index out of range and a negative length
  are \<open>None\<close>.
\<close>

record Token =
  tk_Text :: string
  tk_Score :: rat
  tk_Position :: int
  tk_Layer :: int
  tk_Pruned :: bool
  tk_Revived :: bool

record LazyPrunerStats =
  lps_TotalPruned :: int
  lps_TotalRevived :: int
  lps_TokensSaved :: int
  lps_LayersApplied :: int

record LazyPrunerFilter =
  lpf_config :: LazyPrunerConfig
  lpf_layerBudgets :: "int list"
  lpf_prunedTokens :: "(int \<times> Token list) list"

definition computeLayerBudgets :: "(rat \<Rightarrow> rat \<Rightarrow> rat) \<Rightarrow> LazyPrunerConfig \<Rightarrow> int list" where
  "computeLayerBudgets pow cfg =
     map (\<lambda>i. go_trunc (fmul (of_int64 (lazy_BaseBudget cfg)) (pow (lazy_DecayRate cfg) (of_int64 (int i)))))
       [0..<nat (lazy_NumLayers cfg)]"

text \<open>A negative number of layers is a negative length of a slice.\<close>

definition NewLazyPrunerFilterWithConfig :: "(rat \<Rightarrow> rat \<Rightarrow> rat) \<Rightarrow> LazyPrunerConfig \<Rightarrow> LazyPrunerFilter option" where
  "NewLazyPrunerFilterWithConfig pow cfg =
     (if lazy_NumLayers cfg < 0 then None
      else Some \<lparr>lpf_config = cfg, lpf_layerBudgets = computeLayerBudgets pow cfg, lpf_prunedTokens = []\<rparr>)"

definition NewLazyPrunerFilter :: "(rat \<Rightarrow> rat \<Rightarrow> rat) \<Rightarrow> LazyPrunerFilter option" where
  "NewLazyPrunerFilter pow = NewLazyPrunerFilterWithConfig pow DefaultLazyPrunerConfig"

definition lp_tokenize :: "string \<Rightarrow> Token list" where
  "lp_tokenize input = map (\<lambda>(i, word). \<lparr>tk_Text = word, tk_Score = f64 (1/2), tk_Position = int i, tk_Layer = 0,
     tk_Pruned = False, tk_Revived = False\<rparr>) (List.enumerate 0 (str_fields input))"

definition calculateTokenScore :: "(string \<Rightarrow> string) \<Rightarrow> Token \<Rightarrow> rat" where
  "calculateTokenScore lower t =
     (let score = tk_Score t; low = lower (tk_Text t);
          score = plus_if (low \<in> set [''func'', ''function'', ''class'', ''struct'', ''return'', ''if'', ''else'', ''for'', ''while'']) (3/10) score;
          score = plus_if (contains_any low [''error'', ''main'', ''api'', ''handler'', ''config'', ''init'']) (2/10) score;
          position = tk_Position t;
          score = (if position < 50 then fadd score (f64 (1/10))
                   else if position > 1000 - 50 then fadd score (f64 (5/100)) else score)
      in if score > 1 then 1 else score)"

definition lp_scoreTokens :: "(string \<Rightarrow> string) \<Rightarrow> Token list \<Rightarrow> Token list" where
  "lp_scoreTokens lower tokens = map (\<lambda>t. t\<lparr>tk_Score := calculateTokenScore lower t\<rparr>) tokens"

text \<open>Positions are different, so the order of the kept tokens does not depend on the sorting.\<close>

definition applyLayerWisePruning ::
  "(Token list \<Rightarrow> Token list) \<Rightarrow> Token list \<Rightarrow> Mode \<Rightarrow> LazyPrunerFilter \<Rightarrow> ((string \<times> int) \<times> LazyPrunerFilter) option" where
  "applyLayerWisePruning srt tokens mode f =
     (if lpf_layerBudgets f = [] then None
      else let budget = hd (lpf_layerBudgets f);
               budget = (if mode = ModeAggressive then go_trunc (fmul (of_int64 budget) (f64 (7/10))) else budget);
               sorted = srt tokens;
               kept = take (nat budget) sorted;
               pruned = map (\<lambda>t. t\<lparr>tk_Pruned := True\<rparr>) (drop (nat budget) sorted);
               kept = sort_key tk_Position kept
           in Some ((trimSpace (concat (map (\<lambda>t. tk_Text t @ '' '') kept)), len pruned),
                    f\<lparr>lpf_prunedTokens := al_put 0 pruned (lpf_prunedTokens f)\<rparr>))"

definition lp_Apply ::
  "(string \<Rightarrow> string) \<Rightarrow> (Token list \<Rightarrow> Token list) \<Rightarrow> string \<Rightarrow> Mode \<Rightarrow> LazyPrunerFilter \<Rightarrow> ((string \<times> int) \<times> LazyPrunerFilter) option" where
  "lp_Apply lower srt input mode f =
     (if mode = ModeNone then Some ((input, 0), f)
      else let tokens = lp_tokenize input
           in if tokens = [] then Some ((input, 0), f)
              else applyLayerWisePruning srt (lp_scoreTokens lower tokens) mode f)"

text \<open>The slice of the caller is sorted in place, which is the second component.\<close>

definition SelectTokens :: "(Token list \<Rightarrow> Token list) \<Rightarrow> Token list \<Rightarrow> int \<Rightarrow> rat \<Rightarrow> LazyPrunerFilter \<Rightarrow> (Token list \<times> Token list) option" where
  "SelectTokens srt tokens layer threshold f =
     (if lpf_layerBudgets f = [] \<or> layer < 0 then None
      else let budget = (if layer < len (lpf_layerBudgets f) then lpf_layerBudgets f ! nat layer else hd (lpf_layerBudgets f));
               sorted = srt tokens
           in Some (filter (\<lambda>t. tk_Score t \<ge> threshold) (take (nat budget) sorted), sorted))"

definition StorePruned :: "Token list \<Rightarrow> int \<Rightarrow> LazyPrunerFilter \<Rightarrow> LazyPrunerFilter" where
  "StorePruned tokens layer f = f\<lparr>lpf_prunedTokens := al_put layer tokens (lpf_prunedTokens f)\<rparr>"

definition ReviveTokens ::
  "(Token list \<Rightarrow> Token list) \<Rightarrow> int \<Rightarrow> int \<Rightarrow> LazyPrunerFilter \<Rightarrow> (Token list \<times> LazyPrunerFilter) option" where
  "ReviveTokens srt layer n f =
     (case al_get (lpf_prunedTokens f) layer of
        None \<Rightarrow> Some ([], f)
      | Some pruned \<Rightarrow>
          (if pruned = [] then Some ([], f)
           else let pruned = srt pruned;
                    maxRevive = min (min n (lazy_RevivalBudget (lpf_config f))) (len pruned)
                in if maxRevive < 0 then None
                   else Some (map (\<lambda>t. t\<lparr>tk_Revived := True\<rparr>) (take (nat maxRevive) pruned),
                          f\<lparr>lpf_prunedTokens := al_put layer (drop (nat maxRevive) pruned) (lpf_prunedTokens f)\<rparr>)))"

definition GetLayerBudget :: "int \<Rightarrow> LazyPrunerFilter \<Rightarrow> int option" where
  "GetLayerBudget layer f =
     (if layer < 0 \<or> lpf_layerBudgets f = [] then None
      else if layer < len (lpf_layerBudgets f) then Some (lpf_layerBudgets f ! nat layer)
      else Some (last (lpf_layerBudgets f)))"

definition lp_GetStats :: "LazyPrunerFilter \<Rightarrow> LazyPrunerStats" where
  "lp_GetStats f =
     (let tokens = concat (map snd (lpf_prunedTokens f)); revived = len (filter tk_Revived tokens)
      in \<lparr>lps_TotalPruned = len tokens, lps_TotalRevived = revived, lps_TokensSaved = len tokens - revived,
          lps_LayersApplied = len (lpf_layerBudgets f)\<rparr>)"

definition GetLayerBudgets :: "LazyPrunerFilter \<Rightarrow> int list" where
  "GetLayerBudgets f = lpf_layerBudgets f"

definition lp_Clear :: "LazyPrunerFilter \<Rightarrow> LazyPrunerFilter" where
  "lp_Clear f = f\<lparr>lpf_prunedTokens := []\<rparr>"

section \<open>Properties\<close>

lemma sorts_length: "sorts_desc key srt \<Longrightarrow> length (srt xs) = length xs"
  by (metis size_mset sorts_desc_def)

lemma sorts_top:
  assumes "sorts_desc key srt" "s \<in> set (take n (srt xs))" "t \<in> set (drop n (srt xs))"
  shows "key t \<le> key s"
proof -
  have "sorted_wrt (\<ge>) (map key (take n (srt xs)) @ map key (drop n (srt xs)))"
    using assms(1) by (simp add: sorts_desc_def flip: map_append)
  then show ?thesis using assms(2,3) by (auto simp: sorted_wrt_append)
qed

lemma sort_key_eq:
  assumes "mset xs = mset ys" "sorted (map key ys)" "distinct (map key ys)"
  shows "sort_key key xs = ys"
proof (rule properties_for_sort_key)
  show "mset ys = mset xs" "sorted (map key ys)" using assms by simp_all
  fix k assume "k \<in> set ys"
  have d: "distinct (map key xs)" using assms(1,3) by (metis mset_eq_imp_distinct_iff mset_map)
  have one: "length (filter (\<lambda>x. key k = key x) zs) \<le> 1" if "distinct (map key zs)" for zs
    using that by (induction zs) (auto simp: filter_empty_conv image_iff)
  have "mset (filter (\<lambda>x. key k = key x) ys) = mset (filter (\<lambda>x. key k = key x) xs)" using assms(1) by simp
  moreover have "length (filter (\<lambda>x. key k = key x) ys) \<le> 1" "length (filter (\<lambda>x. key k = key x) xs) \<le> 1"
    using one [OF assms(3)] one [OF d] by auto
  ultimately show "filter (\<lambda>x. key k = key x) ys = filter (\<lambda>x. key k = key x) xs"
    by (cases "filter (\<lambda>x. key k = key x) ys"; cases "filter (\<lambda>x. key k = key x) xs") auto
qed

lemma tokens_positions:
  "map tk_Position (lp_scoreTokens lower (lp_tokenize input)) = map int [0..<length (str_fields input)]"
  by (rule nth_equalityI) (simp_all add: lp_scoreTokens_def lp_tokenize_def nth_enumerate_eq)

lemma kept_in_order:
  assumes "sorts_desc tk_Score srt" "sorted (map tk_Position toks)" "distinct (map tk_Position toks)"
  shows "sort_key tk_Position (take k (srt toks)) = filter (\<lambda>t. t \<in> set (take k (srt toks))) toks"
proof (rule sort_key_eq)
  have d: "distinct toks" "mset (srt toks) = mset toks" using assms(1,3) by (auto simp: sorts_desc_def distinct_map)
  then have "distinct (srt toks)" "set (srt toks) = set toks" by (metis mset_eq_imp_distinct_iff, metis mset_eq_setD)
  then show "mset (take k (srt toks)) = mset (filter (\<lambda>t. t \<in> set (take k (srt toks))) toks)"
    using d(1) set_take_subset [of k "srt toks"]
    by (subst set_eq_iff_mset_eq_distinct [symmetric]) auto
  show "sorted (map tk_Position (filter (\<lambda>t. t \<in> set (take k (srt toks))) toks))"
    using assms(2) by (simp add: sorted_filter)
  show "distinct (map tk_Position (filter (\<lambda>t. t \<in> set (take k (srt toks))) toks))"
    using assms(3) by (simp add: distinct_map_filter)
qed

lemma lp_Apply_layers:
  fixes lower srt input mode f b
  defines "toks \<equiv> lp_scoreTokens lower (lp_tokenize input)"
    and "k \<equiv> nat (if mode = ModeAggressive then go_trunc (fmul (of_int64 b) (f64 (7/10))) else b)"
  assumes "mode \<noteq> ModeNone" "lp_tokenize input \<noteq> []" "lpf_layerBudgets f = b # bs"
  shows "lp_Apply lower srt input mode f =
    Some ((trimSpace (concat (map (\<lambda>t. tk_Text t @ '' '') (sort_key tk_Position (take k (srt toks))))), len (drop k (srt toks))),
      StorePruned (map (\<lambda>t. t\<lparr>tk_Pruned := True\<rparr>) (drop k (srt toks))) 0 f)"
  unfolding lp_Apply_def applyLayerWisePruning_def StorePruned_def toks_def k_def
  by (simp only: assms(3-5) Let_def if_False list.sel length_map list.simps simp_thms)

text \<open>
  The lazy pruner keeps, in the order of the text, as many words as the budget of its first layer
  (seven tenths of it in aggressive mode), none of them with a lower score than a word it drops, and reports
  and stores the others.
\<close>

theorem lazy_keeps_best:
  fixes lower srt input f
  defines "toks \<equiv> lp_scoreTokens lower (lp_tokenize input)"
  assumes "sorts_desc tk_Score srt" "mode \<noteq> ModeNone" "str_fields input \<noteq> []" "lpf_layerBudgets f = b # bs"
  shows "\<exists>kept pruned. lp_Apply lower srt input mode f =
      Some ((trimSpace (concat (map (\<lambda>t. tk_Text t @ '' '') kept)), len pruned),
            StorePruned (map (\<lambda>t. t\<lparr>tk_Pruned := True\<rparr>) pruned) 0 f) \<and>
    kept = filter (\<lambda>t. t \<in> set kept) toks \<and> mset toks = mset kept + mset pruned \<and>
    length kept = min (nat (if mode = ModeAggressive then go_trunc (fmul (of_int64 b) (f64 (7/10))) else b)) (length toks) \<and>
    (\<forall>s \<in> set kept. \<forall>t \<in> set pruned. tk_Score t \<le> tk_Score s)"
proof -
  let ?k = "nat (if mode = ModeAggressive then go_trunc (fmul (of_int64 b) (f64 (7/10))) else b)"
  let ?kept = "sort_key tk_Position (take ?k (srt toks))" and ?pruned = "drop ?k (srt toks)"
  have p: "sorted (map tk_Position toks)" "distinct (map tk_Position toks)"
    unfolding toks_def tokens_positions by (auto simp: sorted_iff_nth_mono distinct_map)
  have ms: "mset (srt toks) = mset toks" using assms(2) unfolding sorts_desc_def by blast
  have ne: "lp_tokenize input \<noteq> []"
    using assms(4) by (auto simp: lp_tokenize_def enumerate_eq_zip)
  have k: "?kept = filter (\<lambda>t. t \<in> set ?kept) toks" unfolding set_sort by (rule kept_in_order [OF assms(2) p])
  have "mset toks = mset ?kept + mset ?pruned" by (simp flip: ms mset_append)
  moreover have "length ?kept = min ?k (length toks)" using sorts_length [OF assms(2)] by simp
  moreover have "\<forall>s \<in> set ?kept. \<forall>t \<in> set ?pruned. tk_Score t \<le> tk_Score s" using sorts_top [OF assms(2)] by simp
  moreover have "mode \<noteq> ModeNone \<Longrightarrow> lp_Apply lower srt input mode f =
      Some ((trimSpace (concat (map (\<lambda>t. tk_Text t @ '' '') ?kept)), len ?pruned),
      StorePruned (map (\<lambda>t. t\<lparr>tk_Pruned := True\<rparr>) ?pruned) 0 f)"
    unfolding toks_def by (rule lp_Apply_layers [OF _ ne assms(5)])
  ultimately show ?thesis using k assms(3)
    by (intro exI [of _ ?kept] exI [of _ ?pruned] conjI) assumption+
qed

text \<open>What was stored and is revived are its best words, as many as asked for, allowed and there.\<close>

lemma revive_best:
  assumes "sorts_desc tk_Score srt" "al_get (lpf_prunedTokens f) layer = Some pruned" "0 \<le> n" "0 \<le> lazy_RevivalBudget (lpf_config f)"
  shows "\<exists>rest revived. ReviveTokens srt layer n f = Some (map (\<lambda>t. t\<lparr>tk_Revived := True\<rparr>) revived, StorePruned rest layer f) \<and>
    mset pruned = mset revived + mset rest \<and>
    len revived = min (min n (lazy_RevivalBudget (lpf_config f))) (len pruned) \<and>
    (\<forall>s \<in> set revived. \<forall>t \<in> set rest. tk_Score t \<le> tk_Score s)
    \<or> pruned = []"
proof (cases "pruned = []")
  case False
  let ?m = "min (min n (lazy_RevivalBudget (lpf_config f))) (len pruned)"
  have "mset pruned = mset (take (nat ?m) (srt pruned)) + mset (drop (nat ?m) (srt pruned))"
    using assms(1) by (simp add: sorts_desc_def flip: mset_append)
  moreover have "len (take (nat ?m) (srt pruned)) = ?m" using sorts_length [OF assms(1)] assms(3,4) by simp
  moreover have "\<forall>s \<in> set (take (nat ?m) (srt pruned)). \<forall>t \<in> set (drop (nat ?m) (srt pruned)). tk_Score t \<le> tk_Score s"
    using sorts_top [OF assms(1)] by blast
  moreover have "len (srt pruned) = len pruned" using sorts_length [OF assms(1)] by simp
  ultimately show ?thesis using False assms(2-4)
    by (intro disjI1 exI [of _ "drop (nat ?m) (srt pruned)"] exI [of _ "take (nat ?m) (srt pruned)"])
      (auto simp: ReviveTokens_def StorePruned_def Let_def)
qed simp

text \<open>
  A revived word leaves the store, so the statistics, which count the revived words of the store, never see
  one.
\<close>

definition none_revived :: "LazyPrunerFilter \<Rightarrow> bool" where
  "none_revived f \<longleftrightarrow> (\<forall>t \<in> set (concat (map snd (lpf_prunedTokens f))). \<not> tk_Revived t)"

lemma none_revived_store:
  "none_revived f \<Longrightarrow> \<forall>t \<in> set tokens. \<not> tk_Revived t \<Longrightarrow> none_revived (StorePruned tokens layer f)"
  using set_al_put [of layer tokens "lpf_prunedTokens f"] by (fastforce simp: none_revived_def StorePruned_def)

lemma none_revived_revive:
  assumes "sorts_desc tk_Score srt" "none_revived f" "ReviveTokens srt layer n f = Some (ts, f')"
  shows "none_revived f'"
proof (cases "al_get (lpf_prunedTokens f) layer")
  case (Some pruned)
  have "\<forall>t \<in> set pruned. \<not> tk_Revived t"
    using assms(2) al_get_Some_in [OF Some] by (force simp: none_revived_def)
  moreover have "set (srt pruned) = set pruned" using assms(1) by (metis mset_eq_setD sorts_desc_def)
  ultimately have "\<forall>t \<in> set (drop k (srt pruned)). \<not> tk_Revived t" for k by (metis in_set_dropD)
  then show ?thesis using assms(2,3) Some none_revived_store [OF assms(2)]
    by (auto simp: ReviveTokens_def StorePruned_def Let_def split: if_splits)
qed (use assms in \<open>auto simp: ReviveTokens_def\<close>)

lemma revived_not_counted: "none_revived f \<Longrightarrow> lps_TotalRevived (lp_GetStats f) = 0"
  by (auto simp: none_revived_def lp_GetStats_def Let_def filter_empty_conv)

text \<open>Reviving a negative number of words panics.\<close>

lemma revive_negative_panics:
  "al_get (lpf_prunedTokens f) layer = Some (t # ts) \<Longrightarrow> n < 0 \<Longrightarrow> ReviveTokens srt layer n f = None"
  by (simp add: ReviveTokens_def Let_def)

text \<open>Nothing is pruned of a short text, but its white space is lost, and the savings reported are 0.\<close>

definition demo_desc :: "Token list \<Rightarrow> Token list" where
  "demo_desc = rev \<circ> sort_key tk_Score"

definition demo_lazy :: LazyPrunerFilter where
  "demo_lazy = \<lparr>lpf_config = DefaultLazyPrunerConfig, lpf_layerBudgets = [1], lpf_prunedTokens = []\<rparr>"

lemma kept_of_length:
  "\<exists>x y. P x y \<and> Q x y \<and> R x y \<and> length x = m \<and> S x y \<Longrightarrow> m = n \<Longrightarrow> \<exists>x y. P x y \<and> length x = n"
  by blast

lemma lazy_keeps_best_witness:
  "\<exists>(kept :: Token list) pruned. lp_Apply (\<lambda>s. s) demo_desc ''x main'' ModeMinimal demo_lazy =
      Some ((trimSpace (concat (map (\<lambda>t. tk_Text t @ '' '') kept)), len pruned),
            StorePruned (map (\<lambda>t. t\<lparr>tk_Pruned := True\<rparr>) pruned) 0 demo_lazy) \<and> length kept = 1"
proof -
  have "sorts_desc tk_Score demo_desc" by (auto simp: sorts_desc_def demo_desc_def rev_map [symmetric] sorted_wrt_rev)
  moreover have "ModeMinimal \<noteq> ModeNone" "lpf_layerBudgets demo_lazy = 1 # []" "ModeMinimal \<noteq> ModeAggressive"
    by (simp_all add: ModeMinimal_def ModeNone_def ModeAggressive_def demo_lazy_def)
  moreover have "str_fields ''x main'' = [''x'', ''main'']" by code_simp
  moreover from this have "length (lp_scoreTokens (\<lambda>s. s) (lp_tokenize ''x main'')) = 2" by (simp add: lp_scoreTokens_def lp_tokenize_def)
  ultimately have "\<exists>kept pruned. lp_Apply (\<lambda>s. s) demo_desc ''x main'' ModeMinimal demo_lazy =
      Some ((trimSpace (concat (map (\<lambda>t. tk_Text t @ '' '') kept)), len pruned),
            StorePruned (map (\<lambda>t. t\<lparr>tk_Pruned := True\<rparr>) pruned) 0 demo_lazy) \<and>
      kept = filter (\<lambda>t. t \<in> set kept) (lp_scoreTokens (\<lambda>s. s) (lp_tokenize ''x main'')) \<and>
      mset (lp_scoreTokens (\<lambda>s. s) (lp_tokenize ''x main'')) = mset kept + mset pruned \<and>
      length kept = min (nat (if ModeMinimal = ModeAggressive then go_trunc (fmul (of_int64 1) (f64 (7/10))) else 1))
        (length (lp_scoreTokens (\<lambda>s. s) (lp_tokenize ''x main''))) \<and>
      (\<forall>s \<in> set kept. \<forall>t \<in> set pruned. tk_Score t \<le> tk_Score s)"
    by (intro lazy_keeps_best) auto
  moreover have "min (nat (if ModeMinimal = ModeAggressive then go_trunc (fmul (of_int64 1) (f64 (7/10))) else 1))
      (length (lp_scoreTokens (\<lambda>s. s) (lp_tokenize ''x main''))) = 1"
    using \<open>length _ = 2\<close> by (simp add: ModeMinimal_def ModeAggressive_def)
  ultimately show ?thesis by (rule kept_of_length)
qed

lemma lazy_loses_lines: "map_option fst (lp_Apply (\<lambda>s. s) demo_desc ''x'' ModeMinimal demo_lazy) = Some (''x'', 0)"
  "map_option fst (lp_Apply (\<lambda>s. s) demo_desc (''x'' @ [nl]) ModeMinimal demo_lazy) = Some (''x'', 0)"
  by code_simp+

end
