(* ===== verification/Compaction.thy ===== *)
theory Compaction
  imports Read_Modes Regex_Find Pipeline_Init
begin

text \<open>
  The compaction layer (\<^verbatim>\<open>internal/filter/compaction.go\<close>), which replaces a conversation by a snapshot of its
  state. SHA-256, the estimate of tokens, the case mapping, the language model and the decoder of its JSON
  answer are the fields of a record, and so is the order in which a map is iterated. Times are arguments. A panic
  is \<open>None\<close>.
\<close>

record SessionHistory =
  sh_UserQueries :: "string list"
  sh_ActivityLog :: "string list"
  sh_FilesRead :: "string list"
  sh_FilesEdited :: "string list"
  sh_CommandsRun :: "string list"
  sh_Decisions :: "string list"

record CurrentState =
  cs_Focus :: string
  cs_NextAction :: string
  cs_ActiveFile :: string
  cs_Mode :: string

record CodeContext =
  cc_File :: string
  cc_Symbols :: "string list"
  cc_Lines :: string

record SnapshotContext =
  sc_Critical :: "string list"
  sc_Working :: "string list"
  sc_KeyValue :: "(string \<times> string) list"
  sc_CodeContext :: "CodeContext list"

record Milestone =
  mi_Description :: string
  mi_Priority :: int
  mi_Status :: string

record StateSnapshot =
  ss_SessionHistory :: SessionHistory
  ss_CurrentState :: CurrentState
  ss_Context :: SnapshotContext
  ss_PendingPlan :: "Milestone list"

record CompactionResult =
  cpr_Snapshot :: "StateSnapshot option"
  cpr_OriginalTokens :: int
  cpr_FinalTokens :: int
  cpr_SavedTokens :: int
  cpr_CompressionRatio :: rat
  cpr_Cached :: bool
  cpr_Timestamp :: gotime

record Turn =
  tn_Role :: string
  tn_Content :: string
  tn_Timestamp :: gotime
  tn_Hash :: string
  tn_Tokens :: int

record ConversationTracker =
  ct_turns :: "Turn list"
  ct_maxTurns :: int

record CompactionLayer =
  cl_config :: CompactionConfig
  cl_sessionTracker :: ConversationTracker
  cl_cache :: "(string \<times> CompactionResult) list"

text \<open>What the answer of the model is decoded to.\<close>

record llm_answer =
  la_UserQueries :: "string list"
  la_ActivityLog :: "string list"
  la_Focus :: string
  la_NextAction :: string
  la_Critical :: "string list"
  la_Working :: "string list"

record compaction_env =
  ce_sha :: "string \<Rightarrow> string"
  ce_est :: "string \<Rightarrow> int"
  ce_lower :: "string \<Rightarrow> string"
  ce_order :: "(string \<times> string) list \<Rightarrow> (string \<times> string) list"
  ce_summarize :: "(string \<Rightarrow> int \<Rightarrow> string option) option"
  ce_unmarshal :: "string \<Rightarrow> llm_answer option"

section \<open>Searching\<close>

text \<open>The leftmost match, and all matches from left to right. No pattern used here matches the empty text.\<close>

fun rx_search :: "rx \<Rightarrow> string \<Rightarrow> run option" where
  "rx_search r [] = find_run r []"
| "rx_search r (c # s) = (case find_run r (c # s) of Some m \<Rightarrow> Some m | None \<Rightarrow> rx_search r s)"

primrec rx_all :: "nat \<Rightarrow> rx \<Rightarrow> string \<Rightarrow> run list" where
  "rx_all 0 r s = []"
| "rx_all (Suc n) r s = (case rx_search r s of None \<Rightarrow> [] | Some m \<Rightarrow> m # rx_all n r (fst (snd m)))"

definition rx_find_all :: "rx \<Rightarrow> string \<Rightarrow> run list" where
  "rx_find_all r s = rx_all (Suc (length s)) r s"

definition rx_group :: "nat \<Rightarrow> run \<Rightarrow> string" where
  "rx_group n m = group_of n (snd (snd m))"

text \<open>
  Under \<^verbatim>\<open>(?i)\<close> a small letter also stands for its capital, \<^verbatim>\<open>s\<close> for the long s and \<^verbatim>\<open>k\<close> for the Kelvin sign, and
  \<^verbatim>\<open>\w\<close> has these two signs too.
\<close>

definition long_s :: string where "long_s = [CHR 0xC5, CHR 0xBF]"
definition kelvin :: string where "kelvin = [CHR 0xE2, CHR 0x84, CHR 0xAA]"

definition xfold_char :: "char \<Rightarrow> rx" where
  "xfold_char c =
     (let r = XCls (\<lambda>d. lower_byte d = c)
      in if c = CHR ''s'' then XAlt r (xlit long_s) else if c = CHR ''k'' then XAlt r (xlit kelvin) else r)"

definition xfold :: "string \<Rightarrow> rx" where
  "xfold s = xseq (map xfold_char s)"

definition xfold_any :: "string list \<Rightarrow> rx" where
  "xfold_any ws = xany (map xfold ws)"

definition xword_fold :: rx where
  "xword_fold = XAlt (XCls word_char) (XAlt (xlit long_s) (xlit kelvin))"

text \<open>A colon, of normal or of full width.\<close>

definition xcolon :: rx where
  "xcolon = XAlt (XCls (\<lambda>c. c = CHR '':'')) (xlit [CHR 0xEF, CHR 0xBC, CHR 0x9A])"

abbreviation xsp0 :: rx where "xsp0 \<equiv> XStar (XCls space_char)"
abbreviation xdot :: rx where "xdot \<equiv> XCls (\<lambda>c. c \<noteq> nl)"

definition critical_rx :: "string list \<Rightarrow> rx" where
  "critical_rx ws = xseq [XCap 1 (xfold_any ws), xcolon, xsp0, XCap 2 (xplus xdot)]"

definition reCriticalError :: rx where "reCriticalError = critical_rx [''error'', ''failed'', ''exception'']"
definition reCriticalFile :: rx where "reCriticalFile = critical_rx [''file'', ''path'']"
definition reCriticalTodo :: rx where "reCriticalTodo = critical_rx [''todo'', ''fixme'', ''important'', ''note'']"

definition reKVGeneral :: rx where
  "reKVGeneral = xseq [XCap 1 (xplus xword_fold), xsp0, XAlt xcolon (XCls (\<lambda>c. c = CHR ''='')), xsp0, XCap 2 (xplus xdot)]"

definition quoted_rx :: "char \<Rightarrow> rx" where
  "quoted_rx q = xseq [xlit [q], XCap 1 (xplus xword_fold), xlit [q, CHR '':''], xsp0, xlit [q],
     XCap 2 (xplus (XCls (\<lambda>c. c \<noteq> q))), xlit [q]]"

definition reKVDQuoted :: rx where "reKVDQuoted = quoted_rx (CHR 0x22)"
definition reKVSQuoted :: rx where "reKVSQuoted = quoted_rx (CHR 0x27)"

definition reNextColon :: rx where "reNextColon = xseq [xlit ''next'', xcolon, xsp0, XCap 1 (xplus xdot)]"
definition reThenAction :: rx where "reThenAction = xseq [xlit ''then'', xsp, XCap 1 (xplus xdot)]"
definition reProceedTo :: rx where "reProceedTo = xseq [xlit ''proceed'', xsp, xlit ''to'', xsp, XCap 1 (xplus xdot)]"

text \<open>\<^verbatim>\<open>strings.Index\<close> and \<^verbatim>\<open>strings.LastIndex\<close> of one byte.\<close>

fun str_index :: "string \<Rightarrow> string \<Rightarrow> int" where
  "str_index [] p = (if p = [] then 0 else - 1)"
| "str_index (c # s) p =
     (if has_prefix (c # s) p then 0 else let i = str_index s p in if i < 0 then - 1 else i + 1)"

definition last_index :: "string \<Rightarrow> char \<Rightarrow> int" where
  "last_index s c = (if c \<in> set s then len s - 1 - len (takeWhile (\<lambda>d. d \<noteq> c) (rev s)) else - 1)"

section \<open>Turns\<close>

definition turn_rx :: "rx \<Rightarrow> rx" where
  "turn_rx role = xseq [XCap 1 role, xlit '':'', xsp0, XCap 2 (XStar xdot), XEnd]"

definition parseTurnPatterns :: "(rx \<times> (string \<times> string) list) list" where
  "parseTurnPatterns =
     [(turn_rx (xfold_any [''user'', ''assistant'', ''system'']),
       [(''user'', ''user''), (''assistant'', ''assistant''), (''system'', ''system'')]),
      (turn_rx (xseq [xfold ''turn'', xsp0, xplus (XCls is_digit)]), [(''turn'', ''user'')]),
      (turn_rx (xfold_any [''q'', ''question'']), [(''q'', ''user''), (''question'', ''user'')])]"

text \<open>The role and the content that a line begins a turn with.\<close>

fun turn_marker :: "(string \<Rightarrow> string) \<Rightarrow> (rx \<times> (string \<times> string) list) list \<Rightarrow> string \<Rightarrow> (string \<times> string) option" where
  "turn_marker lower [] line = None"
| "turn_marker lower ((re, roleMap) # ps) line =
     (case find_run re line of
        Some m \<Rightarrow> Some (case al_get roleMap (lower (rx_group 1 m)) of Some role \<Rightarrow> role | None \<Rightarrow> rx_group 1 m, rx_group 2 m)
      | None \<Rightarrow> turn_marker lower ps line)"

definition new_turn :: "compaction_env \<Rightarrow> int \<Rightarrow> string \<Rightarrow> string \<Rightarrow> Turn" where
  "new_turn e now role content =
     \<lparr>tn_Role = role, tn_Content = content, tn_Timestamp = now, tn_Hash = ce_sha e content, tn_Tokens = ce_est e content\<rparr>"

definition add_line :: "compaction_env \<Rightarrow> string \<Rightarrow> Turn \<Rightarrow> Turn" where
  "add_line e line t =
     (let content = tn_Content t @ [nl] @ line in t\<lparr>tn_Content := content, tn_Tokens := ce_est e content\<rparr>)"

fun turn_loop :: "compaction_env \<Rightarrow> int \<Rightarrow> Turn list \<Rightarrow> Turn option \<Rightarrow> string list \<Rightarrow> Turn list" where
  "turn_loop e now turns current [] = turns @ (case current of None \<Rightarrow> [] | Some t \<Rightarrow> [t])"
| "turn_loop e now turns current (line # ls) =
     (case turn_marker (ce_lower e) parseTurnPatterns line of
        Some (role, content) \<Rightarrow>
          turn_loop e now (turns @ (case current of None \<Rightarrow> [] | Some t \<Rightarrow> [t])) (Some (new_turn e now role content)) ls
      | None \<Rightarrow> turn_loop e now turns (map_option (add_line e line) current) ls)"

definition parseTurns :: "compaction_env \<Rightarrow> int \<Rightarrow> string \<Rightarrow> Turn list" where
  "parseTurns e now content = turn_loop e now [] None (split_lines content)"

definition chatPatterns :: "string list" where
  "chatPatterns = [''turn '', ''turn:'', ''user:'', ''assistant:'', ''query:'', ''session'', ''conversation'', ''chat'',
     ''q:'', ''a:'', ''question:'', ''answer:'', ''>>>'', ''<<<'', ''```'']"

definition isCompactable :: "compaction_env \<Rightarrow> string \<Rightarrow> bool" where
  "isCompactable e content \<longleftrightarrow> length (filter (contains (ce_lower e content)) chatPatterns) \<ge> 2"

section \<open>What is taken of a turn\<close>

definition summarizeTurn :: "string \<Rightarrow> string" where
  "summarizeTurn content =
     (if len content > 100
      then let breakPoints = map (str_index content) [[nl], ''. '', ''? '', ''! ''];
               bestBreak = foldl (\<lambda>best bp. if bp > 0 \<and> bp < best \<and> bp > 20 then bp else best) 100 breakPoints
           in if bestBreak < 100 then take (nat (bestBreak + 1)) content else take 100 content @ ''...''
      else content)"

definition extractCritical :: "string \<Rightarrow> string list" where
  "extractCritical content =
     List.map_filter (\<lambda>(re, extract). map_option extract (rx_search re content))
       [(reCriticalError, \<lambda>m. rx_group 1 m @ '': '' @ rx_group 2 m),
        (reCriticalFile, \<lambda>m. ''file: '' @ rx_group 2 m),
        (reCriticalTodo, \<lambda>m. rx_group 1 m @ '': '' @ rx_group 2 m)]"

definition put_pair :: "(string \<Rightarrow> string) \<Rightarrow> (string \<times> string) list \<Rightarrow> run \<Rightarrow> (string \<times> string) list" where
  "put_pair lower kv m =
     (let key = lower (rx_group 1 m); v = trimSpace (rx_group 2 m)
      in if key \<noteq> ''the'' \<and> key \<noteq> ''a'' \<and> key \<noteq> ''an'' \<and> len v > 0 \<and> len v < 200 then al_put key v kv else kv)"

definition extractKeyValuePairs :: "compaction_env \<Rightarrow> CompactionConfig \<Rightarrow> string \<Rightarrow> (string \<times> string) list" where
  "extractKeyValuePairs e cfg content =
     (let kv = foldl (put_pair (ce_lower e)) [] (concat (map (\<lambda>re. rx_find_all re content) [reKVGeneral, reKVDQuoted, reKVSQuoted]))
      in if len kv > compact_MaxContextEntries cfg then take (nat (compact_MaxContextEntries cfg)) (ce_order e kv) else kv)"

definition focusVerbs :: "string list" where
  "focusVerbs = [''implement'', ''fix'', ''add'', ''remove'', ''update'', ''create'', ''delete'', ''modify'', ''refactor'']"

text \<open>The position is found in the lowered text and used in the text itself.\<close>

definition extractFocus :: "compaction_env \<Rightarrow> string \<Rightarrow> string option" where
  "extractFocus e content =
     (let low = ce_lower e content
      in case filter (contains low) focusVerbs of
           verb # _ \<Rightarrow>
             (let idx = str_index low verb;
                  start = (if idx > 30 then idx - 30 else idx);
                  stop = min (idx + len verb + 50) (len content)
              in map_option (\<lambda>focus. (if start > 0 then ''...'' else []) @ focus @ (if stop < len content then ''...'' else []))
                   (go_slice content start stop))
         | [] \<Rightarrow> Some (if len content > 100 then take 100 content @ ''...'' else content))"

definition inferNextAction :: "compaction_env \<Rightarrow> string \<Rightarrow> string" where
  "inferNextAction e content =
     (let low = ce_lower e content;
          found = (if contains low ''next'' \<or> contains low ''then''
                   then List.map_filter (\<lambda>re. rx_search re low) [reNextColon, reThenAction, reProceedTo] else [])
      in case found of
           m # _ \<Rightarrow> trimSpace (rx_group 1 m)
         | [] \<Rightarrow>
             (if contains low ''?'' then ''Awaiting user'' @ [CHR 0x27] @ ''s next query''
              else if contains_any low [''done'', ''complete'', ''finished''] then ''Task completed, awaiting next query''
              else ''Continue processing''))"

section \<open>The snapshot\<close>

definition recent_start :: "CompactionConfig \<Rightarrow> Turn list \<Rightarrow> int" where
  "recent_start cfg turns =
     (if len turns > compact_PreserveRecentTurns cfg then len turns - compact_PreserveRecentTurns cfg else 0)"

definition by_role :: "string \<Rightarrow> Turn list \<Rightarrow> string list" where
  "by_role role turns = map (summarizeTurn \<circ> tn_Content) (filter (\<lambda>t. tn_Role t = role) turns)"

definition merge_pairs :: "(string \<times> string) list \<Rightarrow> (string \<times> string) list \<Rightarrow> (string \<times> string) list" where
  "merge_pairs m kv = foldl (\<lambda>m (k, v). al_put k v m) m kv"

definition createSnapshot :: "compaction_env \<Rightarrow> CompactionConfig \<Rightarrow> Turn list \<Rightarrow> StateSnapshot option" where
  "createSnapshot e cfg turns =
     (let start = nat (recent_start cfg turns); older = take start turns; recent = drop start turns;
          critical = concat (map (extractCritical \<circ> tn_Content) recent);
          kv = foldl (\<lambda>m t. merge_pairs m (extractKeyValuePairs e cfg (tn_Content t))) [] recent
      in case (if len critical > compact_MaxContextEntries cfg then go_slice critical 0 (compact_MaxContextEntries cfg) else Some critical) of
           None \<Rightarrow> None
         | Some critical \<Rightarrow>
             (case (if turns = [] then Some ''Processing'' else extractFocus e (tn_Content (last turns))) of
                None \<Rightarrow> None
              | Some focus \<Rightarrow>
                  Some \<lparr>ss_SessionHistory =
                          \<lparr>sh_UserQueries = by_role ''user'' older, sh_ActivityLog = by_role ''assistant'' older,
                           sh_FilesRead = [], sh_FilesEdited = [], sh_CommandsRun = [], sh_Decisions = []\<rparr>,
                        ss_CurrentState =
                          \<lparr>cs_Focus = focus,
                           cs_NextAction = (if turns = [] then ''Continue'' else inferNextAction e (tn_Content (last turns))),
                           cs_ActiveFile = [], cs_Mode = []\<rparr>,
                        ss_Context = \<lparr>sc_Critical = critical, sc_Working = [], sc_KeyValue = kv, sc_CodeContext = []\<rparr>,
                        ss_PendingPlan = []\<rparr>))"

definition wln :: "string \<Rightarrow> string" where
  "wln s = s @ [nl]"

definition numbered_items :: "string list \<Rightarrow> string" where
  "numbered_items qs = concat (map (\<lambda>(i, q). if i < 10 then wln (''            '' @ itoa (int i + 1) @ ''. '' @ q) else []) (List.enumerate 0 qs))"

definition bulleted :: "nat \<Rightarrow> string list \<Rightarrow> string" where
  "bulleted n cs = concat (map (\<lambda>(i, c). if i < n then wln (''            - '' @ c) else []) (List.enumerate 0 cs))"

definition snapshotToString :: "compaction_env \<Rightarrow> CompactionConfig \<Rightarrow> StateSnapshot \<Rightarrow> string" where
  "snapshotToString e cfg s =
     (let h = ss_SessionHistory s; cur = ss_CurrentState s; ctx = ss_Context s
      in if \<not> compact_StateSnapshotFormat cfg
         then join_lines (sh_UserQueries h @ sh_ActivityLog h @ sc_Critical ctx @ sc_Working ctx)
         else wln ''[Conversation Summary]'' @ wln ''<state_snapshot>'' @
              wln ''    <session_history>'' @ wln ''        <user_queries>'' @ numbered_items (sh_UserQueries h) @
              wln ''        </user_queries>'' @ wln ''        <activity_log>'' @ numbered_items (sh_ActivityLog h) @
              wln ''        </activity_log>'' @ wln ''    </session_history>'' @
              wln ''    <current_state>'' @ wln (''        <focus>'' @ cs_Focus cur @ ''</focus>'') @
              wln (''        <next_action>'' @ cs_NextAction cur @ ''</next_action>'') @ wln ''    </current_state>'' @
              wln ''    <context>'' @ wln ''        <critical>'' @ bulleted 10 (sc_Critical ctx) @ wln ''        </critical>'' @
              (if sc_Working ctx = [] then []
               else wln ''        <working>'' @ bulleted 5 (sc_Working ctx) @ wln ''        </working>'') @
              (if sc_KeyValue ctx = [] then []
               else wln ''        <key_value>'' @
                    concat (map (\<lambda>(k, v). wln (''            - '' @ k @ '': '' @ v)) (ce_order e (sc_KeyValue ctx))) @
                    wln ''        </key_value>'') @
              wln ''    </context>'' @
              (if ss_PendingPlan s = [] then []
               else wln ''    <pending_plan>'' @
                    concat (map (\<lambda>m. wln (''        - '' @ mi_Description m @ '' (priority: '' @ itoa (mi_Priority m) @
                      '', status: '' @ mi_Status m @ '')'')) (ss_PendingPlan s)) @
                    wln ''    </pending_plan>'') @
              wln ''</state_snapshot>'')"

section \<open>The language model\<close>

text \<open>In the text below, a tilde stands for a double quote.\<close>

definition dquotes :: "string \<Rightarrow> string" where
  "dquotes s = map (\<lambda>c. if c = CHR ''~'' then CHR 0x22 else c) s"

definition promptHead :: string where
  "promptHead =
     wln ''You are a context compactor. Create a concise state snapshot from this conversation.'' @ [nl] @
     wln ''Extract:'' @ wln ''1. User queries (what the user asked)'' @ wln ''2. Key activities (what was done)'' @
     wln ''3. Critical facts (must preserve)'' @ wln ''4. Next action (what to do next)'' @ [nl] @
     wln ''Format as JSON:'' @ wln ''{'' @
     wln (dquotes ''  ~session_history~: {~user_queries~: [...], ~activity_log~: [...]},'') @
     wln (dquotes ''  ~current_state~: {~focus~: ~...~, ~next_action~: ~...~},'') @
     wln (dquotes ''  ~context~: {~critical~: [...], ~working~: [...]}'') @ wln ''}'' @ [nl]"

definition buildCompactionPrompt :: "Turn list \<Rightarrow> string" where
  "buildCompactionPrompt turns =
     promptHead @ wln ''Conversation turns:'' @
     concat (map (\<lambda>t. wln (''['' @ tn_Role t @ '']: '' @
         (if len (tn_Content t) > 200 then take 200 (tn_Content t) @ ''...'' else tn_Content t)))
       (drop (length turns - 20) turns))"

definition add_working :: "string \<Rightarrow> StateSnapshot \<Rightarrow> StateSnapshot" where
  "add_working response s = s\<lparr>ss_Context := (ss_Context s)\<lparr>sc_Working := sc_Working (ss_Context s) @ [response]\<rparr>\<rparr>"

definition parseLLMResponse :: "compaction_env \<Rightarrow> string \<Rightarrow> StateSnapshot \<Rightarrow> StateSnapshot" where
  "parseLLMResponse e response s =
     (let jsonStart = str_index response ''{''; jsonEnd = last_index response (CHR ''}'')
      in if jsonStart = - 1 \<or> jsonEnd = - 1 \<or> jsonEnd \<le> jsonStart then add_working response s
         else case ce_unmarshal e (take (nat (jsonEnd + 1 - jsonStart)) (drop (nat jsonStart) response)) of
                None \<Rightarrow> add_working response s
              | Some a \<Rightarrow>
                  s\<lparr>ss_SessionHistory := (ss_SessionHistory s)
                      \<lparr>sh_UserQueries := sh_UserQueries (ss_SessionHistory s) @ la_UserQueries a,
                       sh_ActivityLog := sh_ActivityLog (ss_SessionHistory s) @ la_ActivityLog a\<rparr>,
                    ss_CurrentState := (ss_CurrentState s)
                      \<lparr>cs_Focus := (if la_Focus a \<noteq> [] then la_Focus a else cs_Focus (ss_CurrentState s)),
                       cs_NextAction := (if la_NextAction a \<noteq> [] then la_NextAction a else cs_NextAction (ss_CurrentState s))\<rparr>,
                    ss_Context := (ss_Context s)
                      \<lparr>sc_Critical := sc_Critical (ss_Context s) @ la_Critical a,
                       sc_Working := sc_Working (ss_Context s) @ la_Working a\<rparr>\<rparr>)"

definition enrichWithLLM :: "compaction_env \<Rightarrow> CompactionConfig \<Rightarrow> (string \<Rightarrow> int \<Rightarrow> string option) \<Rightarrow> Turn list \<Rightarrow> StateSnapshot \<Rightarrow> StateSnapshot" where
  "enrichWithLLM e cfg summarize turns s =
     (case summarize (buildCompactionPrompt turns) (compact_MaxSummaryTokens cfg) of
        None \<Rightarrow> s
      | Some summary \<Rightarrow> parseLLMResponse e summary s)"

definition enriched :: "compaction_env \<Rightarrow> CompactionConfig \<Rightarrow> Turn list \<Rightarrow> StateSnapshot \<Rightarrow> StateSnapshot" where
  "enriched e cfg turns s = (case ce_summarize e of None \<Rightarrow> s | Some f \<Rightarrow> enrichWithLLM e cfg f turns s)"

section \<open>The layer\<close>

definition NewConversationTracker :: "int \<Rightarrow> ConversationTracker" where
  "NewConversationTracker maxTurns = \<lparr>ct_turns = [], ct_maxTurns = (if maxTurns \<le> 0 then 10 else maxTurns)\<rparr>"

definition AddTurn :: "compaction_env \<Rightarrow> int \<Rightarrow> string \<Rightarrow> string \<Rightarrow> ConversationTracker \<Rightarrow> ConversationTracker" where
  "AddTurn e now role content t =
     (let turns = ct_turns t @ [new_turn e now role content]
      in t\<lparr>ct_turns := (if len turns > ct_maxTurns t then tl turns else turns)\<rparr>)"

definition GetTurns :: "ConversationTracker \<Rightarrow> Turn list" where
  "GetTurns t = ct_turns t"

definition GetRecentTurns :: "int \<Rightarrow> ConversationTracker \<Rightarrow> Turn list option" where
  "GetRecentTurns n t =
     (if n \<ge> len (ct_turns t) then Some (ct_turns t)
      else go_slice (ct_turns t) (len (ct_turns t) - n) (len (ct_turns t)))"

definition NewCompactionLayer :: "CompactionConfig \<Rightarrow> CompactionLayer" where
  "NewCompactionLayer cfg =
     \<lparr>cl_config = cfg\<lparr>compact_ThresholdLines := zero_default (compact_ThresholdLines cfg) 100,
        compact_ThresholdTokens := zero_default (compact_ThresholdTokens cfg) 2000,
        compact_PreserveRecentTurns := zero_default (compact_PreserveRecentTurns cfg) 5,
        compact_MaxSummaryTokens := zero_default (compact_MaxSummaryTokens cfg) 500\<rparr>,
      cl_sessionTracker = NewConversationTracker (compact_PreserveRecentTurns cfg), cl_cache = []\<rparr>"

definition maxCompactionCacheSize :: int where "maxCompactionCacheSize = 100"

definition older_of :: "string \<times> gotime \<Rightarrow> string \<times> CompactionResult \<Rightarrow> string \<times> gotime" where
  "older_of = (\<lambda>(oldest, t) (k, v). if cpr_Timestamp v < t then (k, cpr_Timestamp v) else (oldest, t))"

definition oldest_entry :: "int \<Rightarrow> (string \<times> CompactionResult) list \<Rightarrow> string" where
  "oldest_entry now cache =
     fst (foldl older_of ([], now) cache)"

definition store_result :: "int \<Rightarrow> string \<Rightarrow> CompactionResult \<Rightarrow> (string \<times> CompactionResult) list \<Rightarrow> (string \<times> CompactionResult) list" where
  "store_result now key r cache =
     (let cache = (if len cache \<ge> maxCompactionCacheSize
                   then let oldest = oldest_entry now cache in if oldest \<noteq> [] then al_del oldest cache else cache
                   else cache)
      in al_put key r cache)"

text \<open>The times: of the turns, of the search for the oldest entry, of the new entry.\<close>

definition compact_new :: "compaction_env \<Rightarrow> int \<times> int \<times> int \<Rightarrow> string \<Rightarrow> CompactionLayer \<Rightarrow> ((string \<times> int) \<times> CompactionLayer) option" where
  "compact_new e = (\<lambda>(t0, t1, t2) input c.
     let cfg = cl_config c; originalTokens = ce_est e input
     in if compact_AutoDetect cfg \<and> \<not> isCompactable e input then Some ((input, 0), c)
        else if originalTokens < compact_ThresholdTokens cfg then Some ((input, 0), c)
        else let turns = parseTurns e t0 input
        in if turns = [] then Some ((input, 0), c)
           else case createSnapshot e cfg turns of
             None \<Rightarrow> None
           | Some snapshot \<Rightarrow>
               (let snapshot = enriched e cfg turns snapshot;
                    output = snapshotToString e cfg snapshot; finalTokens = ce_est e output; savedTokens = originalTokens - finalTokens
                in if output = [] \<or> finalTokens = 0 then Some ((input, 0), c)
                   else if savedTokens \<le> 0 then Some ((input, 0), c)
                   else if compact_CacheEnabled cfg
                   then Some ((output, savedTokens), c\<lparr>cl_cache := store_result t1 (ce_sha e input)
                          \<lparr>cpr_Snapshot = Some snapshot, cpr_OriginalTokens = originalTokens, cpr_FinalTokens = finalTokens,
                           cpr_SavedTokens = savedTokens,
                           cpr_CompressionRatio = fdiv (of_int64 originalTokens) (of_int64 finalTokens),
                           cpr_Cached = False, cpr_Timestamp = t2\<rparr> (cl_cache c)\<rparr>)
                   else Some ((output, savedTokens), c)))"

definition cp_Apply :: "compaction_env \<Rightarrow> int \<times> int \<times> int \<Rightarrow> string \<Rightarrow> Mode \<Rightarrow> CompactionLayer \<Rightarrow> ((string \<times> int) \<times> CompactionLayer) option" where
  "cp_Apply e ts input mode c =
     (if \<not> compact_Enabled (cl_config c) then Some ((input, 0), c)
      else case (if compact_CacheEnabled (cl_config c) then al_get (cl_cache c) (ce_sha e input) else None) of
             Some r \<Rightarrow>
               map_option (\<lambda>s. ((snapshotToString e (cl_config c) s, cpr_SavedTokens r), c)) (cpr_Snapshot r)
           | None \<Rightarrow> compact_new e ts input c)"

definition cp_SetEnabled :: "bool \<Rightarrow> CompactionLayer \<Rightarrow> CompactionLayer" where
  "cp_SetEnabled b c = c\<lparr>cl_config := (cl_config c)\<lparr>compact_Enabled := b\<rparr>\<rparr>"

definition cp_IsAvailable :: "compaction_env \<Rightarrow> bool" where
  "cp_IsAvailable e \<longleftrightarrow> ce_summarize e \<noteq> None"

text \<open>The function for a single use; its result has no snapshot.\<close>

definition Compact :: "compaction_env \<Rightarrow> int \<times> int \<times> int \<Rightarrow> int \<Rightarrow> string \<Rightarrow> CompactionConfig \<Rightarrow> (string \<times> CompactionResult) option" where
  "Compact e ts now input cfg =
     map_option (\<lambda>((output, saved), _).
         (output, \<lparr>cpr_Snapshot = None, cpr_OriginalTokens = ce_est e input, cpr_FinalTokens = ce_est e output,
            cpr_SavedTokens = saved, cpr_CompressionRatio = 0, cpr_Cached = False, cpr_Timestamp = now\<rparr>))
       (cp_Apply e ts input ModeMinimal (NewCompactionLayer cfg))"

end
