(* ===== verification/Compaction_Correct.thy ===== *)
theory Compaction_Correct
  imports Compaction
begin

text \<open>
  What the compaction layer does: every line after the first marker is in one turn, in order; savings are
  reported as they are and a cached answer is the one computed; with the configuration of the pipeline, the
  recent turns but the last leave no trace; and a text that grows when it is lowered makes it panic.
\<close>

section \<open>Parsing\<close>

text \<open>A group of a match is made of characters of the text.\<close>

lemma in_run_then:
  "(u, t, cs) \<in> set (run_then (u1, t1, c1) rs) \<longleftrightarrow> (\<exists>u2 c2. (u2, t, c2) \<in> set rs \<and> u = u1 @ u2 \<and> cs = c1 @ c2)"
  by (force simp: run_then_def)

lemma runs_text: "(u, t, cs) \<in> set (runs r s) \<Longrightarrow> s = u @ t"
  using runs_iff [of u t r s] by (force simp: spans_def)

lemma star_caps:
  assumes f: "\<And>s u t cs n v. (u, t, cs) \<in> set (f s) \<Longrightarrow> (n, v) \<in> set cs \<Longrightarrow> set v \<subseteq> set s"
    and g: "\<And>s u t cs. (u, t, cs) \<in> set (f s) \<Longrightarrow> s = u @ t"
  shows "(u, t, cs) \<in> set (star_runs f k s) \<Longrightarrow> (n, v) \<in> set cs \<Longrightarrow> set v \<subseteq> set s"
proof (induction k arbitrary: s u t cs)
  case (Suc k)
  show ?case
  proof (cases "(u, t, cs) = ([], s, [])")
    case False
    then obtain u1 t1 c1 where 1: "(u1, t1, c1) \<in> set (f s)" "(u, t, cs) \<in> set (run_then (u1, t1, c1) (star_runs f k t1))"
      using Suc.prems(1) by (auto split: if_splits)
    then obtain u2 c2 where "(u2, t, c2) \<in> set (star_runs f k t1)" "cs = c1 @ c2" by (auto simp: in_run_then)
    then show ?thesis using Suc.IH [of u2 t c2 t1] f [OF 1(1), of n v] g [OF 1(1)] Suc.prems(2) by auto
  qed (use Suc.prems in auto)
qed auto

lemma runs_caps: "(u, t, cs) \<in> set (runs r s) \<Longrightarrow> (n, v) \<in> set cs \<Longrightarrow> set v \<subseteq> set s"
proof (induction r arbitrary: s u t cs n v)
  case (XSeq a b)
  then obtain u1 t1 c1 where 1: "(u1, t1, c1) \<in> set (runs a s)" "(u, t, cs) \<in> set (run_then (u1, t1, c1) (runs b t1))"
    by auto
  then obtain u2 c2 where "(u2, t, c2) \<in> set (runs b t1)" "cs = c1 @ c2" by (auto simp: in_run_then)
  then show ?case using XSeq.IH(1) [OF 1(1), of n v] XSeq.IH(2) [of u2 t c2 t1 n v] XSeq.prems(2) runs_text [OF 1(1)] by auto
next
  case (XStar a)
  show ?case by (rule star_caps [of "runs a", OF XStar.IH runs_text]) (use XStar.prems in auto)
next
  case (XCap m a)
  then obtain c1 where "(u, t, c1) \<in> set (runs a s)" "cs = (m, u) # c1" by auto
  then show ?case using XCap.IH [of u t c1 s n v] XCap.prems(2) runs_text [of u t c1 a s] by auto
next
  case (XAlt a b)
  from XAlt.prems(1) consider "(u, t, cs) \<in> set (runs a s)" | "(u, t, cs) \<in> set (runs b s)" by auto
  then show ?case by cases (use XAlt.IH XAlt.prems(2) in blast)+
qed (auto split: list.splits if_splits)

lemma group_in_text:
  assumes "find_run r s = Some m" shows "set (rx_group n m) \<subseteq> set s"
proof -
  obtain u t cs where m: "m = (u, t, cs)" by (cases m)
  have i: "(u, t, cs) \<in> set (runs r s)" using assms m by (auto simp: find_run_def split: list.splits)
  show ?thesis
  proof (cases "map_of (rev cs) n")
    case (Some v)
    then have "(n, v) \<in> set cs" by (auto dest: map_of_SomeD)
    then show ?thesis using runs_caps [OF i] Some by (simp add: rx_group_def m group_of_def)
  qed (simp add: rx_group_def m group_of_def)
qed

lemma turn_marker_content: "turn_marker lower ps line = Some (role, content) \<Longrightarrow> set content \<subseteq> set line"
proof (induction lower ps line rule: turn_marker.induct)
  case (2 lower re roleMap ps line)
  then show ?case
  proof (cases "find_run re line")
    case (Some m)
    then show ?thesis using 2(2) group_in_text [OF Some, of 2] by (auto split: option.splits)
  qed simp
qed simp

lemma split_add_line: "nl \<notin> set line \<Longrightarrow> split_lines (s @ nl # line) = split_lines s @ [line]"
  by (induction s) (auto simp: split_plain split_no_sep split: list.splits)

text \<open>The text of a line in a turn: without the marker if it has one.\<close>

definition turn_text :: "compaction_env \<Rightarrow> string \<Rightarrow> string" where
  "turn_text e line = (case turn_marker (ce_lower e) parseTurnPatterns line of Some (_, content) \<Rightarrow> content | None \<Rightarrow> line)"

definition no_marker :: "compaction_env \<Rightarrow> string \<Rightarrow> bool" where
  "no_marker e line \<longleftrightarrow> turn_marker (ce_lower e) parseTurnPatterns line = None"

lemma no_marker_iff: "\<not> no_marker e l \<longleftrightarrow> (\<exists>role content. turn_marker (ce_lower e) parseTurnPatterns l = Some (role, content))"
  by (cases "turn_marker (ce_lower e) parseTurnPatterns l") (auto simp: no_marker_def)

definition turn_lines :: "Turn list \<Rightarrow> string list" where
  "turn_lines turns = concat (map (split_lines \<circ> tn_Content) turns)"

lemma turn_lines_simps [simp]:
  "turn_lines [] = []" "turn_lines (t # ts) = split_lines (tn_Content t) @ turn_lines ts"
  "turn_lines (ts @ us) = turn_lines ts @ turn_lines us"
  by (simp_all add: turn_lines_def)

lemma turn_loop_lines:
  "\<forall>l \<in> set ls. nl \<notin> set l \<Longrightarrow>
   turn_lines (turn_loop e now turns current ls) =
     turn_lines turns @ (case current of None \<Rightarrow> map (turn_text e) (dropWhile (no_marker e) ls)
                         | Some t \<Rightarrow> split_lines (tn_Content t) @ map (turn_text e) ls)"
proof (induction e now turns current ls rule: turn_loop.induct)
  case (2 e now turns current line ls)
  show ?case
  proof (cases "turn_marker (ce_lower e) parseTurnPatterns line")
    case None
    then show ?thesis using 2
      by (cases current) (simp_all add: no_marker_def turn_text_def add_line_def Let_def split_add_line)
  next
    case (Some m)
    obtain role content where m: "m = (role, content)" by (cases m)
    have "nl \<notin> set content" using turn_marker_content [of "ce_lower e" parseTurnPatterns line role content] Some m 2(3) by auto
    then show ?thesis using 2 Some m
      by (cases current) (simp_all add: no_marker_def turn_text_def new_turn_def split_plain)
  qed
qed (simp split: option.split)

text \<open>
  The turns of a conversation hold its lines, in order, from the first line that begins a turn: each line
  is in one turn, without its marker if it has one.
\<close>

theorem parseTurns_lines:
  "turn_lines (parseTurns e now content) = map (turn_text e) (dropWhile (no_marker e) (split_lines content))"
  by (simp add: parseTurns_def turn_loop_lines split_no_sep)

lemma turn_loop_roles:
  "map tn_Role (turn_loop e now turns current ls) =
     map tn_Role turns @ (case current of None \<Rightarrow> [] | Some t \<Rightarrow> [tn_Role t]) @
     List.map_filter (\<lambda>l. map_option fst (turn_marker (ce_lower e) parseTurnPatterns l)) ls"
proof (induction e now turns current ls rule: turn_loop.induct)
  case (2 e now turns current line ls)
  then show ?case
    by (cases "turn_marker (ce_lower e) parseTurnPatterns line"; cases current)
      (auto simp: map_filter_simps new_turn_def add_line_def Let_def)
qed (simp add: map_filter_simps split: option.split)

lemma parseTurns_roles:
  "map tn_Role (parseTurns e now content) =
     List.map_filter (\<lambda>l. map_option fst (turn_marker (ce_lower e) parseTurnPatterns l)) (split_lines content)"
  by (simp add: parseTurns_def turn_loop_roles)

text \<open>The hash of a turn is the hash of its first line only.\<close>

lemma hash_of_first_line: "tn_Hash (add_line e line t) = tn_Hash t" "tn_Content (add_line e line t) = tn_Content t @ [nl] @ line"
  by (simp_all add: add_line_def Let_def)

section \<open>The cache and the savings\<close>

text \<open>Every entry of the cache is the snapshot of a text with this hash, and its savings are positive and true.\<close>

definition cache_true :: "compaction_env \<Rightarrow> CompactionLayer \<Rightarrow> bool" where
  "cache_true e c \<longleftrightarrow> (\<forall>(k, r) \<in> set (cl_cache c). \<exists>input s. k = ce_sha e input \<and> cpr_Snapshot r = Some s \<and> 0 < cpr_SavedTokens r \<and>
     cpr_SavedTokens r = ce_est e input - ce_est e (snapshotToString e (cl_config c) s))"

lemma cache_true_new: "cache_true e (NewCompactionLayer cfg)"
  by (simp add: cache_true_def NewCompactionLayer_def)

lemma set_store_result: "set (store_result now key r cache) \<subseteq> insert (key, r) (set cache)"
  by (auto simp: store_result_def al_del_def Let_def dest!: subsetD [OF set_al_put] split: if_splits)

lemma compact_new_cases:
  assumes "compact_new e ts input c = Some ((out, n), c')"
  shows "out = input \<and> n = 0 \<and> c' = c \<or>
    (\<exists>s0 s. createSnapshot e (cl_config c) (parseTurns e (fst ts) input) = Some s0 \<and>
       s = enriched e (cl_config c) (parseTurns e (fst ts) input) s0 \<and> out = snapshotToString e (cl_config c) s \<and>
       n = ce_est e input - ce_est e out \<and> 0 < n \<and> (c' = c \<or>
         (\<exists>r. c' = c\<lparr>cl_cache := store_result (fst (snd ts)) (ce_sha e input) r (cl_cache c)\<rparr> \<and>
            cpr_Snapshot r = Some s \<and> cpr_SavedTokens r = n \<and> cpr_Timestamp r = snd (snd ts))))"
proof (cases "out = input \<and> n = 0 \<and> c' = c")
  case False
  obtain t0 t1 t2 where ts: "ts = (t0, t1, t2)" by (cases ts)
  show ?thesis using assms False
    by (intro disjI2) (simp add: ts compact_new_def Let_def split: if_split_asm option.split_asm; force)
qed simp


text \<open>
  The cache holds at most a hundred entries as long as the clock moves between two insertions; entries of the
  same instant are not evicted.
\<close>

lemma older_keeps: "fst (foldl older_of (k, t) cache) \<in> insert k (set (al_keys cache))"
proof (induction cache arbitrary: k t)
  case (Cons kv cache)
  show ?case using Cons.IH [of "fst kv" "cpr_Timestamp (snd kv)"] Cons.IH [of k t]
    by (cases kv) (auto simp: older_of_def)
qed simp

lemma oldest_entry_in:
  "\<exists>(k, v) \<in> set cache. cpr_Timestamp v < t \<Longrightarrow> fst (foldl older_of (k0, t) cache) \<in> set (al_keys cache)"
proof (induction cache)
  case (Cons kv cache)
  then show ?case using older_keeps [of "fst kv" "cpr_Timestamp (snd kv)" cache]
    by (cases kv) (auto simp: older_of_def)
qed simp

lemma store_result_bounded:
  assumes "len cache \<le> maxCompactionCacheSize" "\<forall>(k, v) \<in> set cache. k \<noteq> [] \<and> cpr_Timestamp v < now"
  shows "len (store_result now key r cache) \<le> maxCompactionCacheSize"
proof (cases "len cache < maxCompactionCacheSize")
  case True
  then show ?thesis by (simp add: store_result_def length_al_put)
next
  case False
  then have "cache \<noteq> []" by (auto simp: maxCompactionCacheSize_def)
  then have "\<exists>(k, v) \<in> set cache. cpr_Timestamp v < now" using assms(2) by (cases cache) auto
  then have i: "oldest_entry now cache \<in> set (al_keys cache)" using oldest_entry_in by (simp add: oldest_entry_def)
  then have "oldest_entry now cache \<noteq> []" using assms(2) by auto
  moreover have "len (al_del (oldest_entry now cache) cache) < len cache" using i by (auto simp: al_del_def intro: length_filter_less)
  ultimately show ?thesis using assms(1) False
    by (simp add: store_result_def length_al_put Let_def)
qed

lemma same_instant_not_evicted:
  assumes "\<forall>(k, v) \<in> set cache. now \<le> cpr_Timestamp v" shows "oldest_entry now cache = []"
proof -
  have "foldl older_of ([], now) cache = ([], now)"
    using assms by (induction cache) (auto simp: older_of_def)
  then show ?thesis by (simp add: oldest_entry_def)
qed

section \<open>What is lost\<close>

text \<open>If all turns are recent, no query and no activity is in the snapshot.\<close>

lemma recent_turns_not_kept:
  assumes "len turns \<le> compact_PreserveRecentTurns cfg" "createSnapshot e cfg turns = Some s"
  shows "sh_UserQueries (ss_SessionHistory s) = [] \<and> sh_ActivityLog (ss_SessionHistory s) = []"
  using assms by (auto simp: createSnapshot_def recent_start_def by_role_def Let_def split: option.splits)

lemma no_pairs: "compact_MaxContextEntries cfg = 0 \<Longrightarrow> extractKeyValuePairs e cfg content = []"
  by (simp add: extractKeyValuePairs_def Let_def)

lemma fold_no_pairs: "compact_MaxContextEntries cfg = 0 \<Longrightarrow>
    foldl (\<lambda>m t. merge_pairs m (extractKeyValuePairs e cfg (tn_Content t))) m turns = m"
  by (induction turns arbitrary: m) (simp_all add: no_pairs merge_pairs_def)

lemma no_critical: "go_slice xs 0 0 = Some []"
  by (simp add: go_slice_def)

text \<open>The snapshot with no room for context.\<close>

lemma snapshot_no_context:
  assumes "compact_MaxContextEntries cfg = 0" "turns \<noteq> []"
  shows "createSnapshot e cfg turns =
    map_option (\<lambda>focus.
      \<lparr>ss_SessionHistory =
         \<lparr>sh_UserQueries = by_role ''user'' (take (nat (recent_start cfg turns)) turns),
          sh_ActivityLog = by_role ''assistant'' (take (nat (recent_start cfg turns)) turns),
          sh_FilesRead = [], sh_FilesEdited = [], sh_CommandsRun = [], sh_Decisions = []\<rparr>,
       ss_CurrentState =
         \<lparr>cs_Focus = focus, cs_NextAction = inferNextAction e (tn_Content (last turns)), cs_ActiveFile = [], cs_Mode = []\<rparr>,
       ss_Context = \<lparr>sc_Critical = [], sc_Working = [], sc_KeyValue = [], sc_CodeContext = []\<rparr>, ss_PendingPlan = []\<rparr>)
     (extractFocus e (tn_Content (last turns)))"
  using assms(2) by (simp add: createSnapshot_def Let_def assms(1) fold_no_pairs no_critical split: option.split)

lemma recent_start_split:
  "len middle + 1 = compact_PreserveRecentTurns cfg \<Longrightarrow>
   take (nat (recent_start cfg (older @ middle @ [l]))) (older @ middle @ [l]) = older"
proof -
  assume "len middle + 1 = compact_PreserveRecentTurns cfg"
  then have "recent_start cfg (older @ middle @ [l]) = len older" by (cases older) (auto simp: recent_start_def)
  then show ?thesis by simp
qed

lemma middle_turns_not_seen:
  assumes "compact_MaxContextEntries cfg = 0" "len middle + 1 = compact_PreserveRecentTurns cfg" "length middle' = length middle"
  shows "createSnapshot e cfg (older @ middle @ [l]) = createSnapshot e cfg (older @ middle' @ [l])"
  using assms recent_start_split [of middle cfg older l] recent_start_split [of middle' cfg older l]
  by (simp add: snapshot_no_context)

text \<open>The configuration of the pipeline leaves no room for context.\<close>

definition pipeline_layer :: "PipelineConfig \<Rightarrow> CompactionLayer" where
  "pipeline_layer pcfg = NewCompactionLayer (compactionCfg pcfg)"

lemma pipeline_layer_simps [simp]:
  "compact_MaxContextEntries (cl_config (pipeline_layer pcfg)) = 0" "cl_cache (pipeline_layer pcfg) = []"
  "compact_Enabled (cl_config (pipeline_layer pcfg))"
  by (simp_all add: pipeline_layer_def NewCompactionLayer_def compactionCfg_def)

lemma compacted_text:
  assumes "cp_Apply e ts input mode c = Some ((out, n), c')" "0 < n" "al_get (cl_cache c) (ce_sha e input) = None" "ce_summarize e = None"
  shows "\<exists>s. createSnapshot e (cl_config c) (parseTurns e (fst ts) input) = Some s \<and> out = snapshotToString e (cl_config c) s"
  using compact_new_cases [of e ts input c out n c'] assms
  by (auto simp: cp_Apply_def enriched_def split: if_splits)

text \<open>
  C37: with the configuration the pipeline gives it and no language model, the compaction layer does not look
  at the recent turns but the last one: two conversations with the same older turns, as many recent turns and the same last turn are
  replaced by the same text, whatever the errors, files and tasks in the recent turns.
\<close>

theorem pipeline_compaction_loses_context:
  assumes "parseTurns e (fst ts) input = older @ middle @ [l]" "parseTurns e (fst ts') input' = older @ middle' @ [l]"
    and "len middle + 1 = compact_PreserveRecentTurns (cl_config (pipeline_layer pcfg))" "length middle' = length middle"
    and "ce_summarize e = None"
    and "cp_Apply e ts input mode (pipeline_layer pcfg) = Some ((out, n), c)" "0 < n"
    and "cp_Apply e ts' input' mode (pipeline_layer pcfg) = Some ((out', n'), c')" "0 < n'"
  shows "out = out'"
  using compacted_text [OF assms(6,7) _ assms(5)] compacted_text [OF assms(8,9) _ assms(5)]
    middle_turns_not_seen [OF _ assms(3,4), of e older l] assms(1,2) by auto


definition demo_compaction :: compaction_env where
  "demo_compaction = \<lparr>ce_sha = (\<lambda>s. s), ce_est = (\<lambda>s. if has_prefix s ''['' then 1 else 3000), ce_lower = toLower, ce_order = (\<lambda>kv. kv),
     ce_summarize = None, ce_unmarshal = (\<lambda>_. None)\<rparr>"

lemma demo_no_model: "ce_summarize demo_compaction = None"
  by (simp add: demo_compaction_def)

definition demo_pcfg :: PipelineConfig where
  "demo_pcfg = zeroPipelineConfig\<lparr>cfg_CompactionPreserveTurns := 2, cfg_CompactionStateSnapshot := True\<rparr>"

definition demo_talk :: "string \<Rightarrow> string" where
  "demo_talk m = ''user: a'' @ [nl] @ ''user: '' @ m @ [nl] @ ''user: b''"

lemma demo_turns: "parseTurns demo_compaction 0 (demo_talk ''error: x'') =
     map (new_turn demo_compaction 0 ''user'') [''a'', ''error: x'', ''b'']"
  "parseTurns demo_compaction 0 (demo_talk ''ok'') = map (new_turn demo_compaction 0 ''user'') [''a'', ''ok'', ''b'']"
  by code_simp+

lemma demo_compacted:
  "map_option (snd \<circ> fst) (cp_Apply demo_compaction (0, 0, 0) (demo_talk ''error: x'') ModeMinimal (pipeline_layer demo_pcfg)) = Some 2999"
  "map_option (snd \<circ> fst) (cp_Apply demo_compaction (0, 0, 0) (demo_talk ''ok'') ModeMinimal (pipeline_layer demo_pcfg)) = Some 2999"
  by code_simp+

lemma pipeline_compaction_loses_context_witness:
  "map_option (fst \<circ> fst) (cp_Apply demo_compaction (0, 0, 0) (demo_talk ''error: x'') ModeMinimal (pipeline_layer demo_pcfg)) =
   map_option (fst \<circ> fst) (cp_Apply demo_compaction (0, 0, 0) (demo_talk ''ok'') ModeMinimal (pipeline_layer demo_pcfg))"
proof -
  let ?t = "new_turn demo_compaction 0 ''user''"
  obtain out n c where 1: "cp_Apply demo_compaction (0, 0, 0) (demo_talk ''error: x'') ModeMinimal (pipeline_layer demo_pcfg) = Some ((out, n), c)" "0 < n"
    using demo_compacted(1) by (cases "cp_Apply demo_compaction (0, 0, 0) (demo_talk ''error: x'') ModeMinimal (pipeline_layer demo_pcfg)") auto
  obtain out' n' c' where 2: "cp_Apply demo_compaction (0, 0, 0) (demo_talk ''ok'') ModeMinimal (pipeline_layer demo_pcfg) = Some ((out', n'), c')" "0 < n'"
    using demo_compacted(2) by (cases "cp_Apply demo_compaction (0, 0, 0) (demo_talk ''ok'') ModeMinimal (pipeline_layer demo_pcfg)") auto
  have "len [?t ''error: x''] + 1 = compact_PreserveRecentTurns (cl_config (pipeline_layer demo_pcfg))"
    by (simp add: pipeline_layer_def NewCompactionLayer_def compactionCfg_def demo_pcfg_def zero_default_def)
  then have "out = out'"
    using pipeline_compaction_loses_context [of demo_compaction "(0, 0, 0)" "demo_talk ''error: x''" "[?t ''a'']"
        "[?t ''error: x'']" "?t ''b''" "(0, 0, 0)" "demo_talk ''ok''" "[?t ''ok'']" demo_pcfg ModeMinimal out n c out' n' c'] 1 2
    by (simp add: demo_turns demo_no_model)
  then show ?thesis using 1 2 by simp
qed



section \<open>The focus\<close>

lemma str_index_bounds:
  "contains s p \<Longrightarrow> 0 \<le> str_index s p \<and> str_index s p + len p \<le> len s"
proof (induction s)
  case (Cons c s)
  show ?case
  proof (cases "has_prefix (c # s) p")
    case True
    then have "len p \<le> len (c # s)" by (metis has_prefix_iff le_add1 length_append of_nat_le_iff)
    then show ?thesis using True by simp
  qed (use Cons in \<open>auto simp: Let_def\<close>)
qed simp

lemma extractFocus_verb:
  "filter (contains (ce_lower e content)) focusVerbs = verb # vs \<Longrightarrow> contains (ce_lower e content) verb"
  by (metis filter_eq_ConsD)

text \<open>If the case mapping keeps the length of a text, there is a focus.\<close>

lemma extractFocus_total:
  assumes "length (ce_lower e content) = length content" shows "extractFocus e content \<noteq> None"
proof (cases "filter (contains (ce_lower e content)) focusVerbs")
  case (Cons verb vs)
  have "0 \<le> str_index (ce_lower e content) verb" "str_index (ce_lower e content) verb + len verb \<le> len content"
    using str_index_bounds [OF extractFocus_verb [OF Cons]] assms by auto
  then show ?thesis by (simp add: extractFocus_def Cons Let_def go_slice_def)
qed (simp add: extractFocus_def Let_def)

text \<open>A text in which the verb is found more than 30 bytes after the end panics.\<close>

lemma extractFocus_panics:
  assumes "filter (contains (ce_lower e content)) focusVerbs = verb # vs" "len content + 30 < str_index (ce_lower e content) verb"
  shows "extractFocus e content = None"
  using assms by (simp add: extractFocus_def Let_def go_slice_def)

lemma createSnapshot_total:
  assumes "\<And>t. length (ce_lower e t) = length t" "0 \<le> compact_MaxContextEntries cfg"
  shows "createSnapshot e cfg turns \<noteq> None"
proof -
  have "extractFocus e (tn_Content (last turns)) \<noteq> None" by (rule extractFocus_total [OF assms(1)])
  then show ?thesis using assms(2) by (auto simp: createSnapshot_def Let_def go_slice_def split: option.split)
qed

text \<open>
  The compaction layer does not panic if the case mapping keeps the length of every text, the bound on the
  context is not negative and its cache was filled by it.
\<close>

theorem compaction_returns:
  assumes "\<And>t. length (ce_lower e t) = length t" "0 \<le> compact_MaxContextEntries (cl_config c)" "cache_true e c"
  shows "cp_Apply e ts input mode c \<noteq> None"
proof -
  have "compact_new e ts input c \<noteq> None"
    using createSnapshot_total [of e "cl_config c" "parseTurns e (fst ts) input", OF assms(1,2)]
    by (cases ts) (auto simp: compact_new_def Let_def split: option.split)
  moreover have "cpr_Snapshot r \<noteq> None" if "al_get (cl_cache c) k = Some r" for k r
    using assms(3) al_get_Some_in [OF that] by (fastforce simp: cache_true_def)
  ultimately show ?thesis by (auto simp: cp_Apply_def split: option.split)
qed

lemma compaction_returns_witness:
  "cp_Apply (demo_compaction\<lparr>ce_lower := \<lambda>s. s\<rparr>) (0, 0, 0) (demo_talk ''ok'') ModeMinimal (pipeline_layer demo_pcfg) \<noteq> None"
  by (rule compaction_returns) (simp_all add: cache_true_def)

text \<open>
  The condition on the case mapping is not met: U+023A takes two bytes and its small letter three. A turn with enough of
  them before a verb makes the layer panic.
\<close>

definition big_A :: string where "big_A = [CHR 0xC8, CHR 0xBA]"
definition small_A :: string where "small_A = [CHR 0xE2, CHR 0xB1, CHR 0xA5]"

definition panic_text :: string where
  "panic_text = concat (replicate 40 big_A) @ ''fix''"

definition lower_A :: compaction_env where
  "lower_A = demo_compaction\<lparr>ce_lower := replaceAll big_A small_A\<rparr>"

lemma createSnapshot_panics:
  "turns \<noteq> [] \<Longrightarrow> extractFocus e (tn_Content (last turns)) = None \<Longrightarrow> createSnapshot e cfg turns = None"
  by (simp add: createSnapshot_def Let_def split: option.split)

lemma compaction_panics:
  assumes "tn_Content (last turns) = panic_text" "turns \<noteq> []"
  shows "createSnapshot lower_A cfg turns = None"
proof -
  have "extractFocus lower_A panic_text = None" by code_simp
  then show ?thesis using assms createSnapshot_panics by metis
qed

section \<open>The tracker of a conversation\<close>

lemma AddTurn_last:
  assumes "0 < ct_maxTurns t" "ct_turns t = drop (length ts - nat (ct_maxTurns t)) ts"
  shows "ct_turns (AddTurn e now role content t) = drop (length ts + 1 - nat (ct_maxTurns t)) (ts @ [new_turn e now role content])"
proof (cases "len ts < ct_maxTurns t")
  case True
  then show ?thesis using assms by (simp add: AddTurn_def Let_def)
next
  case False
  then have l: "len (ct_turns t) = ct_maxTurns t" "length ts + 1 - nat (ct_maxTurns t) = Suc (length ts - nat (ct_maxTurns t))"
    using assms by auto
  then have "ct_turns t \<noteq> []" using assms(1) by auto
  then have "ct_turns (AddTurn e now role content t) = tl (ct_turns t) @ [new_turn e now role content]"
    using l(1) by (simp add: AddTurn_def Let_def)
  also have "tl (ct_turns t) = drop (Suc (length ts - nat (ct_maxTurns t))) ts" unfolding assms(2) by (simp add: drop_Suc tl_drop)
  finally show ?thesis using l assms(1) False by simp
qed

text \<open>However many turns are added, the tracker has the last ones.\<close>

lemma tracker_keeps_last:
  assumes "0 < m"
  shows "foldl (\<lambda>t (now, role, content). AddTurn e now role content t) (NewConversationTracker m) xs =
    \<lparr>ct_turns = drop (length xs - nat m) (map (\<lambda>(now, role, content). new_turn e now role content) xs), ct_maxTurns = m\<rparr>"
proof (induction xs rule: rev_induct)
  case (snoc x xs)
  obtain now role content where x: "x = (now, role, content)" by (cases x)
  let ?t = "\<lparr>ct_turns = drop (length xs - nat m) (map (\<lambda>(now, role, content). new_turn e now role content) xs), ct_maxTurns = m\<rparr>"
  have "ct_turns (AddTurn e now role content ?t) = drop (length xs + 1 - nat m) (map (\<lambda>(now, role, content). new_turn e now role content) (xs @ [x]))"
    using AddTurn_last [of ?t "map (\<lambda>(now, role, content). new_turn e now role content) xs" e now role content] assms by (simp add: x)
  moreover have "ct_maxTurns (AddTurn e now role content ?t) = m" by (simp add: AddTurn_def Let_def)
  ultimately show ?case using snoc by (simp add: x)
qed (use assms in \<open>simp add: NewConversationTracker_def\<close>)

lemma negative_turns_panic: "n < 0 \<Longrightarrow> GetRecentTurns n t = None"
  by (simp add: GetRecentTurns_def go_slice_def)

text \<open>The role of a numbered turn is the text of its marker, which is neither the user nor the assistant.\<close>

lemma numbered_turn_lost:
  "map tn_Role (parseTurns demo_compaction 0 ''Turn 1: fix it'') = [''Turn 1'']"
  by code_simp

end
