(* ===== verification/User_Config.thy ===== *)
theory User_Config
  imports Pipeline_Init Go_Path Go_Strings
begin

text \<open>
  The configuration file of the user (\<^verbatim>\<open>internal/config/config.go\<close>, \<^verbatim>\<open>defaults.go\<close>, \<^verbatim>\<open>pipeline_runtime.go\<close>) and the
  configuration the commands share (\<^verbatim>\<open>internal/commands/shared/config.go\<close>): its defaults, its validation, the
  aliases of the environment, loading, and the configuration of the pipeline that is made of it. The record \<open>UserPipelineConfig\<close> is
  the struct \<^verbatim>\<open>PipelineConfig\<close> of the package \<^verbatim>\<open>config\<close>, \<open>OutputFilterConfig\<close> is \<^verbatim>\<open>FilterConfig\<close> and \<open>TokmanConfig\<close> is \<^verbatim>\<open>Config\<close>.
  The library viper, which reads and decodes the file, is a record of functions.
\<close>

section \<open>The configuration and its defaults\<close>

record TrackingConfig =
  trk_Enabled :: bool
  trk_DatabasePath :: string
  trk_Telemetry :: bool

record OutputFilterConfig =
  flt_NoiseDirs :: "string list"
  flt_IgnoreFiles :: "string list"
  flt_Mode :: string
  flt_MaxWidth :: int

record UserPipelineConfig =
  up_MaxContextTokens :: int
  up_ChunkSize :: int
  up_EnableEntropy :: bool
  up_EnablePerplexity :: bool
  up_EnableGoalDriven :: bool
  up_EnableAST :: bool
  up_EnableContrastive :: bool
  up_EnableNgram :: bool
  up_EnableEvaluator :: bool
  up_EnableGist :: bool
  up_EnableHierarchical :: bool
  up_EnableBudget :: bool
  up_EntropyThreshold :: rat
  up_PerplexityThreshold :: rat
  up_GoalDrivenThreshold :: rat
  up_ASTPreserveThreshold :: rat
  up_ContrastiveThreshold :: rat
  up_NgramMinOccurrences :: int
  up_EvaluatorThreshold :: rat
  up_GistMinChunkSize :: int
  up_HierarchicalMaxLevels :: int
  up_HierarchicalRatio :: rat
  up_DefaultBudget :: int
  up_HardBudgetLimit :: bool
  up_BudgetOverflowFile :: string
  up_TeeOnFailure :: bool
  up_TeeDir :: string
  up_FailSafeMode :: bool
  up_ValidateOutput :: bool
  up_ShortCircuitBudget :: bool
  up_ParallelLayers :: bool
  up_CacheEnabled :: bool
  up_CacheMaxSize :: int
  up_StreamThreshold :: int
  up_EnableCompaction :: bool
  up_CompactionThreshold :: int
  up_CompactionPreserveTurns :: int
  up_CompactionMaxTokens :: int
  up_CompactionStateSnapshot :: bool
  up_CompactionAutoDetect :: bool
  up_LLMProvider :: string
  up_LLMModel :: string
  up_LLMBaseURL :: string
  up_EnableAttribution :: bool
  up_AttributionThreshold :: rat
  up_AttributionPositional :: bool
  up_AttributionFrequency :: bool
  up_AttributionSemantic :: bool
  up_EnableH2O :: bool
  up_H2OSinkSize :: int
  up_H2ORecentSize :: int
  up_H2OHeavyHitterSize :: int
  up_EnableAttentionSink :: bool
  up_AttentionSinkCount :: int
  up_AttentionRecentCount :: int
  up_EnableMetaToken :: bool
  up_MetaTokenWindow :: int
  up_MetaTokenMinMatch :: int
  up_EnableSemanticChunk :: bool
  up_SemanticThreshold :: rat
  up_ChunkMinSize :: int
  up_ChunkMaxSize :: int
  up_EnableSketchStore :: bool
  up_SketchMemoryRatio :: int
  up_SketchOnDemand :: bool
  up_EnableLazyPruner :: bool
  up_LazyBudgetRatio :: rat
  up_LazyLayerDecay :: rat
  up_EnableSemanticAnchor :: bool
  up_AnchorThreshold :: rat
  up_AnchorMinPreserve :: int
  up_EnableAgentMemory :: bool
  up_AgentMemoryMaxNodes :: int
  up_AgentMemoryMaxEdges :: int
  up_AgentMemoryExtractFn :: string
  up_PerplexityTargetRatio :: rat
  up_PerplexityIterationSteps :: int
  up_PerplexityPruneRatio :: rat
  up_PerplexityConvergenceThreshold :: rat
  up_PerplexityContextWindow :: int
  up_EntropySamplingLarge :: int
  up_EntropySamplingHuge :: int
  up_EntropySamplingRate :: int
  up_EntropyMinWordLength :: int

record HooksConfig =
  hks_ExcludedCommands :: "string list"
  hks_AuditDir :: string
  hks_TeeDir :: string

record DashboardConfig =
  dsh_Port :: int
  dsh_Bind :: string
  dsh_UpdateInterval :: int
  dsh_Theme :: string
  dsh_EnableExport :: bool

record AlertsConfig =
  alr_Enabled :: bool
  alr_DailyTokenLimit :: int
  alr_WeeklyTokenLimit :: int
  alr_UsageSpikeThreshold :: rat

record ExportConfig =
  xpt_DefaultFormat :: string
  xpt_IncludeTimestamp :: bool
  xpt_MaxRecords :: int

record TokmanConfig =
  conf_Tracking :: TrackingConfig
  conf_Filter :: OutputFilterConfig
  conf_Pipeline :: UserPipelineConfig
  conf_Hooks :: HooksConfig
  conf_Dashboard :: DashboardConfig
  conf_Alerts :: AlertsConfig
  conf_Export :: ExportConfig

definition defaultTracking :: TrackingConfig where
  "defaultTracking =
     \<lparr>trk_Enabled = True, trk_DatabasePath = [], trk_Telemetry = False\<rparr>"

definition defaultFilter :: OutputFilterConfig where
  "defaultFilter =
     \<lparr>flt_NoiseDirs = [''.git'', ''node_modules'', ''vendor'', ''target'', ''dist'', ''build'', ''.next'',
         ''.turbo'', ''.vercel'', ''.output'', ''__pycache__'', ''.venv'', ''venv'', ''.pytest_cache'',
         ''.mypy_cache'', ''.tox'', ''.eggs'', ''.idea'', ''.vscode'', ''.vs'', ''coverage'', ''.cache'',
         ''.nyc_output'', ''.svelte-kit'', ''.angular'', ''.parcel-cache'', ''.DS_Store'', ''Thumbs.db'',
         ''.data''],
      flt_IgnoreFiles = [''*.lock'', ''*.min.js'', ''*.min.css'', ''*.map'', ''package-lock.json'',
         ''yarn.lock'', ''pnpm-lock.yaml'', ''Cargo.lock'', ''poetry.lock''],
      flt_Mode = ''minimal'', flt_MaxWidth = 0\<rparr>"

definition defaultPipeline :: UserPipelineConfig where
  "defaultPipeline =
     \<lparr>up_MaxContextTokens = 2000000, up_ChunkSize = 100000, up_EnableEntropy = True,
      up_EnablePerplexity = True, up_EnableGoalDriven = True, up_EnableAST = True, up_EnableContrastive = True,
      up_EnableNgram = True, up_EnableEvaluator = True, up_EnableGist = True, up_EnableHierarchical = True,
      up_EnableBudget = True, up_EntropyThreshold = f64 (3/10), up_PerplexityThreshold = f64 (1/2),
      up_GoalDrivenThreshold = f64 (2/5), up_ASTPreserveThreshold = f64 (3/5), up_ContrastiveThreshold = f64 (1/2),
      up_NgramMinOccurrences = 3, up_EvaluatorThreshold = f64 (2/5), up_GistMinChunkSize = 100,
      up_HierarchicalMaxLevels = 3, up_HierarchicalRatio = f64 (3/10), up_DefaultBudget = 0,
      up_HardBudgetLimit = True, up_BudgetOverflowFile = [], up_TeeOnFailure = True, up_TeeDir = [],
      up_FailSafeMode = True, up_ValidateOutput = True, up_ShortCircuitBudget = True, up_ParallelLayers = False,
      up_CacheEnabled = True, up_CacheMaxSize = 1000, up_StreamThreshold = 500000, up_EnableCompaction = True,
      up_CompactionThreshold = 500, up_CompactionPreserveTurns = 10, up_CompactionMaxTokens = 5000,
      up_CompactionStateSnapshot = True, up_CompactionAutoDetect = True, up_LLMProvider = [], up_LLMModel = [],
      up_LLMBaseURL = [], up_EnableAttribution = True, up_AttributionThreshold = f64 (1/4),
      up_AttributionPositional = True, up_AttributionFrequency = True, up_AttributionSemantic = True,
      up_EnableH2O = True, up_H2OSinkSize = 4, up_H2ORecentSize = 20, up_H2OHeavyHitterSize = 40,
      up_EnableAttentionSink = True, up_AttentionSinkCount = 4, up_AttentionRecentCount = 8,
      up_EnableMetaToken = True, up_MetaTokenWindow = 512, up_MetaTokenMinMatch = 3, up_EnableSemanticChunk = True,
      up_SemanticThreshold = f64 (1/2), up_ChunkMinSize = 50, up_ChunkMaxSize = 500, up_EnableSketchStore = True,
      up_SketchMemoryRatio = 90, up_SketchOnDemand = True, up_EnableLazyPruner = True,
      up_LazyBudgetRatio = f64 (3/10), up_LazyLayerDecay = f64 (9/10), up_EnableSemanticAnchor = True,
      up_AnchorThreshold = f64 (2/5), up_AnchorMinPreserve = 5, up_EnableAgentMemory = True,
      up_AgentMemoryMaxNodes = 100, up_AgentMemoryMaxEdges = 200, up_AgentMemoryExtractFn = ''default'',
      up_PerplexityTargetRatio = f64 (3/10), up_PerplexityIterationSteps = 2, up_PerplexityPruneRatio = f64 (7/10),
      up_PerplexityConvergenceThreshold = f64 (1/20), up_PerplexityContextWindow = 10,
      up_EntropySamplingLarge = 100000, up_EntropySamplingHuge = 500000, up_EntropySamplingRate = 10,
      up_EntropyMinWordLength = 2\<rparr>"

definition defaultHooks :: HooksConfig where
  "defaultHooks =
     \<lparr>hks_ExcludedCommands = [], hks_AuditDir = [], hks_TeeDir = []\<rparr>"

definition defaultDashboard :: DashboardConfig where
  "defaultDashboard =
     \<lparr>dsh_Port = 8080, dsh_Bind = ''localhost'', dsh_UpdateInterval = 30000, dsh_Theme = ''dark'',
      dsh_EnableExport = True\<rparr>"

definition defaultAlerts :: AlertsConfig where
  "defaultAlerts =
     \<lparr>alr_Enabled = True, alr_DailyTokenLimit = 1000000, alr_WeeklyTokenLimit = 5000000,
      alr_UsageSpikeThreshold = 2\<rparr>"

definition defaultExport :: ExportConfig where
  "defaultExport =
     \<lparr>xpt_DefaultFormat = ''json'', xpt_IncludeTimestamp = True, xpt_MaxRecords = 0\<rparr>"

definition Defaults :: TokmanConfig where
  "Defaults = \<lparr>conf_Tracking = defaultTracking, conf_Filter = defaultFilter, conf_Pipeline = defaultPipeline, conf_Hooks = defaultHooks,
     conf_Dashboard = defaultDashboard, conf_Alerts = defaultAlerts, conf_Export = defaultExport\<rparr>"

definition thresholds :: "UserPipelineConfig \<Rightarrow> (string \<times> rat) list" where
  "thresholds p =
     [(''entropy_threshold'', up_EntropyThreshold p),
      (''perplexity_threshold'', up_PerplexityThreshold p),
      (''goal_driven_threshold'', up_GoalDrivenThreshold p),
      (''ast_preserve_threshold'', up_ASTPreserveThreshold p),
      (''contrastive_threshold'', up_ContrastiveThreshold p),
      (''evaluator_threshold'', up_EvaluatorThreshold p),
      (''hierarchical_ratio'', up_HierarchicalRatio p),
      (''attribution_threshold'', up_AttributionThreshold p),
      (''semantic_threshold'', up_SemanticThreshold p),
      (''lazy_budget_ratio'', up_LazyBudgetRatio p),
      (''lazy_layer_decay'', up_LazyLayerDecay p),
      (''anchor_threshold'', up_AnchorThreshold p),
      (''perplexity_target_ratio'', up_PerplexityTargetRatio p),
      (''perplexity_prune_ratio'', up_PerplexityPruneRatio p),
      (''perplexity_convergence_threshold'', up_PerplexityConvergenceThreshold p)]"

section \<open>Validation\<close>

text \<open>Sums of \<^verbatim>\<open>int\<close> wrap around at 64 bits.\<close>

definition wrap64 :: "int \<Rightarrow> int" where
  "wrap64 x = (x + 2 ^ 63) mod 2 ^ 64 - 2 ^ 63"

definition err_if :: "bool \<Rightarrow> string \<Rightarrow> string list" where
  "err_if b msg = (if b then [msg] else [])"

text \<open>\<open>fmt2\<close> is the format \<^verbatim>\<open>%.2f\<close>.\<close>

definition validateThreshold :: "(rat \<Rightarrow> string) \<Rightarrow> string \<times> rat \<Rightarrow> string list" where
  "validateThreshold fmt2 = (\<lambda>(field, val).
     err_if (val < 0 \<or> val > 1) (field @ '' must be between 0.0 and 1.0, got '' @ fmt2 val))"

definition conf_errors :: "(rat \<Rightarrow> string) \<Rightarrow> TokmanConfig \<Rightarrow> string list" where
  "conf_errors fmt2 c =
     (let p = conf_Pipeline c; m = flt_Mode (conf_Filter c); port = dsh_Port (conf_Dashboard c); a = conf_Alerts c
      in concat (map (validateThreshold fmt2) (thresholds p)) @
         err_if (up_MaxContextTokens p < 0) ''max_context_tokens must be non-negative'' @
         err_if (up_ChunkSize p < 0) ''chunk_size must be non-negative'' @
         err_if (up_CacheMaxSize p < 0) ''cache_max_size must be non-negative'' @
         err_if (up_NgramMinOccurrences p < 0) ''ngram_min_occurrences must be non-negative'' @
         err_if (up_HierarchicalMaxLevels p < 0) ''hierarchical_max_levels must be non-negative'' @
         err_if (up_DefaultBudget p < 0) ''default_budget must be non-negative'' @
         err_if (m \<noteq> [] \<and> m \<noteq> ''minimal'' \<and> m \<noteq> ''aggressive'')
           (''filter.mode must be '' @ [CHR 0x27] @ ''minimal'' @ [CHR 0x27] @ '' or '' @ [CHR 0x27] @ ''aggressive'' @ [CHR 0x27] @
            '', got '' @ [CHR 0x27] @ m @ [CHR 0x27]) @
         err_if (port < 0 \<or> port > 65535) (''dashboard.port must be between 0 and 65535, got '' @ itoa port) @
         err_if (alr_DailyTokenLimit a < 0) ''alerts.daily_token_limit must be non-negative'' @
         err_if (alr_WeeklyTokenLimit a < 0) ''alerts.weekly_token_limit must be non-negative'' @
         err_if (alr_UsageSpikeThreshold a < 0) ''alerts.usage_spike_threshold must be non-negative'' @
         (if up_EnableH2O p
          then err_if (up_H2OSinkSize p \<le> 0) ''h2o_sink_size must be positive when H2O is enabled'' @
               err_if (up_H2OHeavyHitterSize p \<le> 0) ''h2o_heavy_hitter_size must be positive when H2O is enabled''
          else []) @
         (if up_EnableCompaction p
          then err_if (up_CompactionThreshold p \<le> 0) ''compaction_threshold must be positive when compaction is enabled'' @
               err_if (up_CompactionMaxTokens p \<le> 0) ''compaction_max_tokens must be positive when compaction is enabled''
          else []) @
         err_if (up_EnableSketchStore p \<and> (up_SketchMemoryRatio p < 0 \<or> up_SketchMemoryRatio p > 99))
           ''sketch_memory_ratio must be between 0 and 99'' @
         err_if (up_EnableSemanticChunk p \<and> up_ChunkMinSize p > up_ChunkMaxSize p \<and> up_ChunkMaxSize p > 0)
           ''chunk_min_size must not exceed chunk_max_size'' @
         err_if (up_EnableH2O p \<and> up_EnableAttentionSink p \<and>
             wrap64 (up_H2OSinkSize p + up_H2OHeavyHitterSize p + up_AttentionSinkCount p) > 50)
           ''combined sink sizes (h2o_sink + h2o_heavy + attention_sink) should not exceed 50'')"

definition conf_Validate :: "(rat \<Rightarrow> string) \<Rightarrow> TokmanConfig \<Rightarrow> string option" where
  "conf_Validate fmt2 c =
     (let errs = conf_errors fmt2 c
      in if errs \<noteq> [] then Some (''config validation failed:'' @ [nl] @ ''  - '' @ join ([nl] @ ''  - '') errs) else None)"

section \<open>Paths\<close>

text \<open>The environment, the home directory if it can be found, and the directory for temporary files.\<close>

record host =
  host_env :: "string \<Rightarrow> string"
  host_windows :: bool
  host_home :: "string option"
  host_temp :: string

definition ConfigPath :: "host \<Rightarrow> string" where
  "ConfigPath h =
     (let xdg = host_env h ''XDG_CONFIG_HOME''; appData = host_env h ''APPDATA''
      in if xdg \<noteq> [] then path_join [xdg, ''tokman'', ''config.toml'']
         else if host_windows h \<and> appData \<noteq> [] then path_join [appData, ''tokman'', ''config.toml'']
         else case host_home h of
                Some home \<Rightarrow> path_join [home, ''.config'', ''tokman'', ''config.toml'']
              | None \<Rightarrow> path_join [host_temp h, ''tokman-config'', ''config.toml''])"

definition DataPath :: "host \<Rightarrow> string" where
  "DataPath h =
     (let xdg = host_env h ''XDG_DATA_HOME''; local = host_env h ''LOCALAPPDATA''; appData = host_env h ''APPDATA''
      in if xdg \<noteq> [] then path_join [xdg, ''tokman'']
         else if host_windows h \<and> local \<noteq> [] then path_join [local, ''tokman'']
         else if host_windows h \<and> appData \<noteq> [] then path_join [appData, ''tokman'', ''data'']
         else case host_home h of
                Some home \<Rightarrow> path_join [home, ''.local'', ''share'', ''tokman'']
              | None \<Rightarrow> path_join [host_temp h, ''tokman-data''])"

definition DatabasePath :: "host \<Rightarrow> string" where
  "DatabasePath h =
     (let custom = host_env h ''TOKMAN_DATABASE_PATH''
      in if custom \<noteq> [] then custom else path_join [DataPath h, ''tracking.db''])"

definition LogPath :: "host \<Rightarrow> string" where
  "LogPath h = path_join [DataPath h, ''tokman.log'']"

definition HooksPath :: "host \<Rightarrow> string" where
  "HooksPath h = path_join [DataPath h, ''hooks'']"

definition ConfigDir :: "host \<Rightarrow> string" where
  "ConfigDir h =
     (let xdg = host_env h ''XDG_CONFIG_HOME''; appData = host_env h ''APPDATA''
      in if xdg \<noteq> [] then path_join [xdg, ''tokman'']
         else if host_windows h \<and> appData \<noteq> [] then path_join [appData, ''tokman'']
         else case host_home h of
                None \<Rightarrow> path_join [''.config'', ''tokman'']
              | Some home \<Rightarrow> path_join [home, ''.config'', ''tokman''])"

definition FiltersDir :: "host \<Rightarrow> string" where
  "FiltersDir h = path_join [ConfigDir h, ''filters'']"

definition GetDatabasePath :: "host \<Rightarrow> TokmanConfig \<Rightarrow> string" where
  "GetDatabasePath h c =
     (if trk_DatabasePath (conf_Tracking c) \<noteq> [] then trk_DatabasePath (conf_Tracking c) else DatabasePath h)"

section \<open>Aliases of the environment\<close>

datatype viper_value = VString string | VBool bool | VInt int | VFloat rat

text \<open>\<^verbatim>\<open>strconv.ParseBool\<close> and \<^verbatim>\<open>strconv.Atoi\<close>; \<open>parse_float\<close> is \<^verbatim>\<open>strconv.ParseFloat\<close>.\<close>

definition ParseBool :: "string \<Rightarrow> bool option" where
  "ParseBool s =
     (if s \<in> set [''1'', ''t'', ''T'', ''TRUE'', ''true'', ''True''] then Some True
      else if s \<in> set [''0'', ''f'', ''F'', ''FALSE'', ''false'', ''False''] then Some False else None)"

definition go_Atoi :: "string \<Rightarrow> int option" where
  "go_Atoi s =
     (let neg = has_prefix s ''-''; ds = (if neg \<or> has_prefix s ''+'' then tl s else s);
          n = foldl (\<lambda>n d. 10 * n + (int (of_char d) - 48)) 0 ds; v = (if neg then - n else n)
      in if ds = [] \<or> \<not> list_all is_digit ds \<or> v < - (2 ^ 63) \<or> v \<ge> 2 ^ 63 then None else Some v)"

definition set_flag :: "string \<Rightarrow> string \<Rightarrow> (string \<times> viper_value) list" where
  "set_flag key v = [(key, VBool (v = ''true'' \<or> v = ''1''))]"

definition set_parsed :: "(string \<Rightarrow> 'a option) \<Rightarrow> ('a \<Rightarrow> viper_value) \<Rightarrow> string \<Rightarrow> string \<Rightarrow> (string \<times> viper_value) list" where
  "set_parsed parse mk key v = (case parse v of Some x \<Rightarrow> [(key, mk x)] | None \<Rightarrow> [])"

definition aliasMap :: "(string \<Rightarrow> rat option) \<Rightarrow> (string \<times> (string \<Rightarrow> (string \<times> viper_value) list)) list" where
  "aliasMap parse_float =
     [(''TOKMAN_DB_PATH'', \<lambda>v. [(''tracking.database_path'', VString v)]),
      (''TOKMAN_TELEMETRY_DISABLED'', set_parsed ParseBool (\<lambda>b. VBool (\<not> b)) ''tracking.telemetry''),
      (''TOKMAN_AUDIT_DIR'', \<lambda>v. [(''hooks.audit_dir'', VString v)]),
      (''TOKMAN_TEE_DIR'', \<lambda>v. [(''hooks.tee_dir'', VString v)]),
      (''TOKMAN_TEE'', set_flag ''hooks.tee_enabled''),
      (''TOKMAN_HOOK_AUDIT'', set_flag ''hooks.audit_enabled''),
      (''TOKMAN_BUDGET'', set_parsed go_Atoi VInt ''pipeline.default_budget''),
      (''TOKMAN_MODE'', \<lambda>v. [(''filter.mode'', VString v)]),
      (''TOKMAN_PRESET'', \<lambda>v. [(''pipeline.preset'', VString v)]),
      (''TOKMAN_MAX_CONTEXT'', set_parsed go_Atoi VInt ''pipeline.max_context_tokens''),
      (''TOKMAN_CACHE_SIZE'', set_parsed go_Atoi VInt ''pipeline.cache_max_size''),
      (''TOKMAN_ENTROPY_THRESHOLD'', set_parsed parse_float VFloat ''pipeline.entropy_threshold''),
      (''TOKMAN_COMPACTION'', set_flag ''pipeline.enable_compaction''),
      (''TOKMAN_H2O'', set_flag ''pipeline.enable_h2o''),
      (''TOKMAN_ATTENTION_SINK'', set_flag ''pipeline.enable_attention_sink'')]"

text \<open>What is set, in any order of the map: the keys are different.\<close>

definition bindEnvAliases :: "(string \<Rightarrow> rat option) \<Rightarrow> (string \<Rightarrow> string) \<Rightarrow> (string \<times> viper_value) list" where
  "bindEnvAliases parse_float env =
     concat (map (\<lambda>(name, setter). if env name \<noteq> [] then setter (env name) else []) (aliasMap parse_float))"

section \<open>Loading\<close>

datatype config_source = SourceFile string | SourceDirs "string list"

datatype 'd config_read = NoConfigFile | ReadFailed string | ReadDocument 'd

text \<open>
  What the code uses of viper, given the values set by the program: reading a source, which of its errors mean
  that there is no file, and decoding into a configuration. \<open>vl_expand\<close> is \<^verbatim>\<open>os.ExpandEnv\<close>.
\<close>

record 'd viper_lib =
  vl_expand :: "string \<Rightarrow> string"
  vl_read :: "config_source \<Rightarrow> 'd config_read"
  vl_unmarshal :: "(string \<times> viper_value) list \<Rightarrow> 'd \<Rightarrow> TokmanConfig \<Rightarrow> string + TokmanConfig"
  vl_fmt2 :: "rat \<Rightarrow> string"
  vl_parse_float :: "string \<Rightarrow> rat option"

definition conf_source :: "'d viper_lib \<Rightarrow> host \<Rightarrow> string \<Rightarrow> config_source" where
  "conf_source L h cfgFile =
     (if cfgFile \<noteq> [] then SourceFile (vl_expand L cfgFile)
      else let configDir = ConfigDir h
           in SourceDirs (configDir # (case host_home h of
                Some home \<Rightarrow> (let legacyDir = path_join [home, ''.config'', ''tokman''] in if legacyDir \<noteq> configDir then [legacyDir] else [])
              | None \<Rightarrow> [])))"

text \<open>Both results of \<^verbatim>\<open>Load\<close>: the configuration, nil in case of some errors, and the error.\<close>

definition conf_Load :: "'d viper_lib \<Rightarrow> host \<Rightarrow> string \<Rightarrow> TokmanConfig option \<times> string option" where
  "conf_Load L h cfgFile =
     (let overrides = bindEnvAliases (vl_parse_float L) (host_env h)
      in case vl_read L (conf_source L h cfgFile) of
           NoConfigFile \<Rightarrow> (Some Defaults, None)
         | ReadFailed err \<Rightarrow> (None, Some err)
         | ReadDocument d \<Rightarrow>
             (case vl_unmarshal L overrides d Defaults of
                Inl err \<Rightarrow> (None, Some err)
              | Inr cfg \<Rightarrow> (case conf_Validate (vl_fmt2 L) cfg of Some err \<Rightarrow> (Some cfg, Some err) | None \<Rightarrow> (Some cfg, None))))"

text \<open>\<open>decode\<close> is \<^verbatim>\<open>toml.DecodeFile\<close>, \<open>missing\<close> tells whether the error of \<^verbatim>\<open>os.Stat\<close> is that there is no file.\<close>

definition LoadFromFile ::
  "(string \<Rightarrow> bool) \<Rightarrow> (string \<Rightarrow> TokmanConfig \<Rightarrow> string + TokmanConfig) \<Rightarrow> (rat \<Rightarrow> string) \<Rightarrow> string \<Rightarrow> TokmanConfig option \<times> string option" where
  "LoadFromFile missing decode fmt2 path =
     (if missing path then (Some Defaults, None)
      else case decode path Defaults of
             Inl err \<Rightarrow> (None, Some err)
           | Inr cfg \<Rightarrow> (case conf_Validate fmt2 cfg of Some err \<Rightarrow> (Some cfg, Some err) | None \<Rightarrow> (Some cfg, None)))"

text \<open>The configuration the commands share, and the one the server starts with.\<close>

record shared_config =
  sc_cachedConfig :: "TokmanConfig option"
  sc_configOnce :: bool
  sc_cfgFile :: string

definition SetConfigFile :: "string \<Rightarrow> shared_config \<Rightarrow> shared_config" where
  "SetConfigFile path s = s\<lparr>sc_cfgFile := path\<rparr>"

definition GetCachedConfig :: "'d viper_lib \<Rightarrow> host \<Rightarrow> string \<Rightarrow> shared_config \<Rightarrow> (TokmanConfig \<times> string option) \<times> shared_config" where
  "GetCachedConfig L h CfgFile s =
     (let (s, loadErr) =
            (if sc_configOnce s then (s, None)
             else let file = (if sc_cfgFile s = [] then CfgFile else sc_cfgFile s); (cfg, err) = conf_Load L h file
                  in (s\<lparr>sc_cachedConfig := cfg, sc_configOnce := True\<rparr>, err))
      in case loadErr of
           Some err \<Rightarrow> ((Defaults, Some err), s)
         | None \<Rightarrow>
             (case sc_cachedConfig s of
                None \<Rightarrow> ((Defaults, None), s\<lparr>sc_cachedConfig := Some Defaults\<rparr>)
              | Some cfg \<Rightarrow> ((cfg, None), s)))"

definition loadConfig :: "'d viper_lib \<Rightarrow> host \<Rightarrow> string \<Rightarrow> TokmanConfig option \<times> string option" where
  "loadConfig L h path =
     (if path \<noteq> [] then conf_Load L h path
      else case conf_Load L h [] of (_, Some err) \<Rightarrow> (Some Defaults, None) | (cfg, None) \<Rightarrow> (cfg, None))"

section \<open>The configuration of the pipeline\<close>

record PipelineRuntimeOptions =
  rt_Mode :: Mode
  rt_QueryIntent :: string
  rt_Budget :: int
  rt_LLMEnabled :: bool

definition ToFilterPipelineConfig :: "UserPipelineConfig \<Rightarrow> PipelineRuntimeOptions \<Rightarrow> PipelineConfig" where
  "ToFilterPipelineConfig c opts =
     (let cfg = zeroPipelineConfig
        \<lparr>cfg_Mode := rt_Mode opts, cfg_QueryIntent := rt_QueryIntent opts, cfg_Budget := rt_Budget opts,
         cfg_LLMEnabled := rt_LLMEnabled opts, cfg_SessionTracking := True, cfg_NgramEnabled := up_EnableNgram c,
         cfg_EnableEntropy := up_EnableEntropy c, cfg_EnablePerplexity := up_EnablePerplexity c,
         cfg_EnableGoalDriven := up_EnableGoalDriven c, cfg_EnableAST := up_EnableAST c,
         cfg_EnableContrastive := up_EnableContrastive c, cfg_EnableEvaluator := up_EnableEvaluator c,
         cfg_EnableGist := up_EnableGist c, cfg_EnableHierarchical := up_EnableHierarchical c,
         cfg_EnableCompaction := up_EnableCompaction c, cfg_CompactionThreshold := up_CompactionThreshold c,
         cfg_CompactionPreserveTurns := up_CompactionPreserveTurns c,
         cfg_CompactionMaxTokens := up_CompactionMaxTokens c,
         cfg_CompactionStateSnapshot := up_CompactionStateSnapshot c,
         cfg_CompactionAutoDetect := up_CompactionAutoDetect c, cfg_EnableAttribution := up_EnableAttribution c,
         cfg_AttributionThreshold := up_AttributionThreshold c, cfg_EnableH2O := up_EnableH2O c,
         cfg_H2OSinkSize := up_H2OSinkSize c, cfg_H2ORecentSize := up_H2ORecentSize c,
         cfg_H2OHeavyHitterSize := up_H2OHeavyHitterSize c, cfg_EnableAttentionSink := up_EnableAttentionSink c,
         cfg_AttentionSinkCount := up_AttentionSinkCount c,
         cfg_AttentionRecentCount := up_AttentionRecentCount c, cfg_EnableMetaToken := up_EnableMetaToken c,
         cfg_MetaTokenWindow := up_MetaTokenWindow c, cfg_MetaTokenMinSize := up_MetaTokenMinMatch c,
         cfg_EnableSemanticChunk := up_EnableSemanticChunk c, cfg_SemanticChunkMinSize := up_ChunkMinSize c,
         cfg_SemanticChunkThreshold := up_SemanticThreshold c, cfg_EnableSketchStore := up_EnableSketchStore c,
         cfg_SketchBudgetRatio := fdiv (of_int64 (up_SketchMemoryRatio c)) 100,
         cfg_EnableLazyPruner := up_EnableLazyPruner c, cfg_LazyDecayRate := up_LazyLayerDecay c,
         cfg_EnableSemanticAnchor := up_EnableSemanticAnchor c, cfg_EnableAgentMemory := up_EnableAgentMemory c,
         cfg_AgentConsolidationMax := up_AgentMemoryMaxNodes c\<rparr>;
          cfg = (if up_DefaultBudget c > 0 \<and> up_LazyBudgetRatio c > 0
                 then cfg\<lparr>cfg_LazyBaseBudget := go_trunc (fmul (of_int64 (up_DefaultBudget c)) (up_LazyBudgetRatio c))\<rparr> else cfg)
      in if up_AnchorMinPreserve c > 0 then cfg\<lparr>cfg_SemanticAnchorSpacing := up_AnchorMinPreserve c\<rparr> else cfg)"

section \<open>Properties\<close>

lemma err_if_Nil [simp]: "err_if b msg = [] \<longleftrightarrow> \<not> b"
  by (simp add: err_if_def)

text \<open>What a valid configuration is.\<close>

definition pipeline_ok :: "UserPipelineConfig \<Rightarrow> bool" where
  "pipeline_ok p \<longleftrightarrow>
     (\<forall>(_, v) \<in> set (thresholds p). 0 \<le> v \<and> v \<le> 1) \<and>
     (\<forall>n \<in> {up_MaxContextTokens p, up_ChunkSize p, up_CacheMaxSize p, up_NgramMinOccurrences p, up_HierarchicalMaxLevels p,
        up_DefaultBudget p}. 0 \<le> n) \<and>
     (up_EnableH2O p \<longrightarrow> 0 < up_H2OSinkSize p \<and> 0 < up_H2OHeavyHitterSize p) \<and>
     (up_EnableCompaction p \<longrightarrow> 0 < up_CompactionThreshold p \<and> 0 < up_CompactionMaxTokens p) \<and>
     (up_EnableSketchStore p \<longrightarrow> 0 \<le> up_SketchMemoryRatio p \<and> up_SketchMemoryRatio p \<le> 99) \<and>
     (up_EnableSemanticChunk p \<longrightarrow> up_ChunkMinSize p \<le> up_ChunkMaxSize p \<or> up_ChunkMaxSize p \<le> 0) \<and>
     (up_EnableH2O p \<and> up_EnableAttentionSink p \<longrightarrow> wrap64 (up_H2OSinkSize p + up_H2OHeavyHitterSize p + up_AttentionSinkCount p) \<le> 50)"

definition config_ok :: "TokmanConfig \<Rightarrow> bool" where
  "config_ok c \<longleftrightarrow> pipeline_ok (conf_Pipeline c) \<and> flt_Mode (conf_Filter c) \<in> {[], ''minimal'', ''aggressive''} \<and>
     dsh_Port (conf_Dashboard c) \<in> {0..65535} \<and> 0 \<le> alr_DailyTokenLimit (conf_Alerts c) \<and> 0 \<le> alr_WeeklyTokenLimit (conf_Alerts c) \<and>
     0 \<le> alr_UsageSpikeThreshold (conf_Alerts c)"

lemma thresholds_ok:
  "concat (map (validateThreshold fmt2) ths) = [] \<longleftrightarrow> (\<forall>(_, v) \<in> set ths. 0 \<le> v \<and> v \<le> 1)"
  by (auto simp: validateThreshold_def not_less)

lemma Validate_iff: "conf_Validate fmt2 c = None \<longleftrightarrow> config_ok c"
proof -
  have "conf_errors fmt2 c = [] \<longleftrightarrow> config_ok c"
    unfolding conf_errors_def Let_def append_is_Nil_conv thresholds_ok err_if_Nil config_ok_def pipeline_ok_def if_split [of "\<lambda>x. x = []"]
    by (simp only: ball_simps not_less not_le simp_thms de_Morgan_conj de_Morgan_disj insert_iff empty_iff atLeastAtMost_iff) argo
  then show ?thesis by (simp add: conf_Validate_def Let_def)
qed

lemma Defaults_ok: "config_ok Defaults"
  by (simp add: config_ok_def pipeline_ok_def Defaults_def defaultPipeline_def defaultFilter_def defaultDashboard_def defaultAlerts_def
    thresholds_def f64_unit wrap64_def)

text \<open>
  A configuration that loading returns without an error is valid: its thresholds are between 0 and 1, its
  limits are not negative, its mode and its port exist, and the sizes of the filters that are enabled make sense.
\<close>

theorem loaded_config_ok:
  assumes "conf_Load L h file = (Some cfg, None)" shows "config_ok cfg"
  using assms by (auto simp: conf_Load_def Let_def Validate_iff Defaults_ok split: config_read.splits sum.splits option.splits)

text \<open>
  C14: a configuration that is refused is not used by the first caller, who gets the defaults and the error; but
  every later caller gets the refused configuration, without an error, whatever the file and the environment have become.
\<close>

theorem refused_config_returned_later:
  assumes "conf_Load L h (if sc_cfgFile s = [] then CfgFile else sc_cfgFile s) = (Some cfg, Some err)" "\<not> sc_configOnce s"
    and "GetCachedConfig L h CfgFile s = (r1, s1)" "GetCachedConfig L' h' CfgFile' s1 = (r2, s2)"
  shows "r1 = (Defaults, Some err) \<and> r2 = (cfg, None) \<and> \<not> config_ok cfg"
proof -
  have "\<not> config_ok cfg"
    using assms(1) by (auto simp: conf_Load_def Let_def Validate_iff [of "vl_fmt2 L", symmetric] split: config_read.splits sum.splits option.splits)
  then show ?thesis using assms by (auto simp: GetCachedConfig_def Let_def)
qed

text \<open>
  44 of the 84 settings of the pipeline have no effect on the pipeline that is run: whatever their values,
  the runtime configuration is the same.
\<close>

theorem settings_without_effect:
  "ToFilterPipelineConfig (p\<lparr>up_MaxContextTokens := up_MaxContextTokens q, up_ChunkSize := up_ChunkSize q,
        up_EnableBudget := up_EnableBudget q, up_EntropyThreshold := up_EntropyThreshold q,
        up_PerplexityThreshold := up_PerplexityThreshold q, up_GoalDrivenThreshold := up_GoalDrivenThreshold q,
        up_ASTPreserveThreshold := up_ASTPreserveThreshold q, up_ContrastiveThreshold := up_ContrastiveThreshold q,
        up_NgramMinOccurrences := up_NgramMinOccurrences q, up_EvaluatorThreshold := up_EvaluatorThreshold q,
        up_GistMinChunkSize := up_GistMinChunkSize q, up_HierarchicalMaxLevels := up_HierarchicalMaxLevels q,
        up_HierarchicalRatio := up_HierarchicalRatio q, up_HardBudgetLimit := up_HardBudgetLimit q,
        up_BudgetOverflowFile := up_BudgetOverflowFile q, up_TeeOnFailure := up_TeeOnFailure q,
        up_TeeDir := up_TeeDir q, up_FailSafeMode := up_FailSafeMode q, up_ValidateOutput := up_ValidateOutput q,
        up_ShortCircuitBudget := up_ShortCircuitBudget q, up_ParallelLayers := up_ParallelLayers q,
        up_CacheEnabled := up_CacheEnabled q, up_CacheMaxSize := up_CacheMaxSize q,
        up_StreamThreshold := up_StreamThreshold q, up_LLMProvider := up_LLMProvider q, up_LLMModel := up_LLMModel q,
        up_LLMBaseURL := up_LLMBaseURL q, up_AttributionPositional := up_AttributionPositional q,
        up_AttributionFrequency := up_AttributionFrequency q, up_AttributionSemantic := up_AttributionSemantic q,
        up_ChunkMaxSize := up_ChunkMaxSize q, up_SketchOnDemand := up_SketchOnDemand q,
        up_AnchorThreshold := up_AnchorThreshold q, up_AgentMemoryMaxEdges := up_AgentMemoryMaxEdges q,
        up_AgentMemoryExtractFn := up_AgentMemoryExtractFn q, up_PerplexityTargetRatio := up_PerplexityTargetRatio q,
        up_PerplexityIterationSteps := up_PerplexityIterationSteps q,
        up_PerplexityPruneRatio := up_PerplexityPruneRatio q,
        up_PerplexityConvergenceThreshold := up_PerplexityConvergenceThreshold q,
        up_PerplexityContextWindow := up_PerplexityContextWindow q,
        up_EntropySamplingLarge := up_EntropySamplingLarge q, up_EntropySamplingHuge := up_EntropySamplingHuge q,
        up_EntropySamplingRate := up_EntropySamplingRate q, up_EntropyMinWordLength := up_EntropyMinWordLength q\<rparr>) opts = ToFilterPipelineConfig p opts"
  by (simp add: ToFilterPipelineConfig_def Let_def cong: if_cong)

text \<open>Without a file the environment is not looked at, though its aliases are set.\<close>

lemma environment_ignored:
  assumes "vl_read L (conf_source L h file) = NoConfigFile" shows "conf_Load L h file = (Some Defaults, None)"
  using assms by (simp add: conf_Load_def Let_def)

text \<open>The memory that is to be saved becomes the share of it that is kept: nine tenths, where the filter's own default is one tenth.\<close>

lemma sketch_ratio_inverted:
  "cfg_SketchBudgetRatio (ToFilterPipelineConfig (conf_Pipeline Defaults) opts) = fdiv (of_int64 90) 100"
  "sketch_BudgetRatio DefaultSketchStoreConfig = f64 (1/10)"
  by (simp_all add: ToFilterPipelineConfig_def Defaults_def defaultPipeline_def DefaultSketchStoreConfig_def Let_def)

text \<open>The sum of the sizes of the sinks can overflow and pass.\<close>

lemma oversized_sinks_pass:
  "pipeline_ok (defaultPipeline\<lparr>up_H2OSinkSize := 2 ^ 62, up_H2OHeavyHitterSize := 2 ^ 62\<rparr>)"
  by (simp add: pipeline_ok_def defaultPipeline_def thresholds_def f64_unit wrap64_def)

text \<open>The server starts with the defaults if the configuration it finds is refused, and does not tell.\<close>

lemma server_hides_error: "conf_Load L h [] = (c, Some err) \<Longrightarrow> loadConfig L h [] = (Some Defaults, None)"
  by (simp add: loadConfig_def)

definition demo_host :: host where
  "demo_host = \<lparr>host_env = (\<lambda>_. []), host_windows = False, host_home = Some ''/home/u'', host_temp = ''/tmp''\<rparr>"

definition demo_viper :: "TokmanConfig config_read \<Rightarrow> TokmanConfig viper_lib" where
  "demo_viper r = \<lparr>vl_expand = (\<lambda>s. s), vl_read = (\<lambda>_. r), vl_unmarshal = (\<lambda>_ d _. Inr d), vl_fmt2 = (\<lambda>_. []), vl_parse_float = (\<lambda>_. None)\<rparr>"

definition bad_config :: TokmanConfig where
  "bad_config = Defaults\<lparr>conf_Filter := defaultFilter\<lparr>flt_Mode := ''fast''\<rparr>\<rparr>"

lemma demo_load:
  "conf_Load (demo_viper NoConfigFile) demo_host [] = (Some Defaults, None)"
  "\<exists>err. conf_Load (demo_viper (ReadDocument bad_config)) demo_host [] = (Some bad_config, Some err)"
proof -
  show "conf_Load (demo_viper NoConfigFile) demo_host [] = (Some Defaults, None)"
    by (simp add: conf_Load_def demo_viper_def Let_def)
  have "\<not> config_ok bad_config" by (simp add: config_ok_def bad_config_def)
  then obtain err where "conf_Validate (\<lambda>_. []) bad_config = Some err" using Validate_iff by blast
  then show "\<exists>err. conf_Load (demo_viper (ReadDocument bad_config)) demo_host [] = (Some bad_config, Some err)"
    by (simp add: conf_Load_def demo_viper_def Let_def)
qed

lemma loaded_config_ok_witness: "config_ok Defaults \<and> conf_Load (demo_viper NoConfigFile) demo_host [] = (Some Defaults, None)"
  using loaded_config_ok [OF demo_load(1)] demo_load(1) by blast

lemma refused_config_returned_later_witness:
  "\<exists>s1 r1. GetCachedConfig (demo_viper (ReadDocument bad_config)) demo_host [] \<lparr>sc_cachedConfig = None, sc_configOnce = False, sc_cfgFile = []\<rparr> = (r1, s1) \<and>
     fst r1 = Defaults \<and> fst (GetCachedConfig (demo_viper NoConfigFile) demo_host [] s1) = (bad_config, None)"
proof -
  let ?s = "\<lparr>sc_cachedConfig = None, sc_configOnce = False, sc_cfgFile = []\<rparr>"
  obtain err where e: "conf_Load (demo_viper (ReadDocument bad_config)) demo_host [] = (Some bad_config, Some err)" using demo_load(2) by blast
  obtain r1 s1 where 1: "GetCachedConfig (demo_viper (ReadDocument bad_config)) demo_host [] ?s = (r1, s1)" by fastforce
  obtain r2 s2 where 2: "GetCachedConfig (demo_viper NoConfigFile) demo_host [] s1 = (r2, s2)" by fastforce
  have "r1 = (Defaults, Some err) \<and> r2 = (bad_config, None) \<and> \<not> config_ok bad_config"
    by (rule refused_config_returned_later [OF _ _ 1 2]) (simp_all add: e)
  then show ?thesis using 1 2 by auto
qed

end
