(* ===== verification/Hierarchical.thy ===== *)
theory Hierarchical
  imports Simd Pipeline_Types Go_Float
begin

text \<open>
  The hierarchical filter (\<^verbatim>\<open>internal/filter/hierarchical.go\<close>): a long text is cut into sections, which are
  scored and then kept, summarised or dropped; very long texts are processed in chunks, and results are kept in
  a cache shared by all filters. The estimate of tokens and the case mapping are parameters; \<open>order\<close> is the
  order in which the cache is iterated.
\<close>

section \<open>The cache of frequent contents\<close>

record selectiveCache =
  sl_frequencies :: "(string \<times> int) list"
  sl_cache :: "(string \<times> (string \<times> int)) list"
  sl_maxEntries :: int
  sl_minHits :: int

definition globalSelectiveCache :: selectiveCache where
  "globalSelectiveCache = \<lparr>sl_frequencies = [], sl_cache = [], sl_maxEntries = 1000, sl_minHits = 2\<rparr>"

definition makeCacheKey :: "string \<Rightarrow> string" where
  "makeCacheKey content = itoa (len content) @ '':'' @ take 100 content"

definition frequency :: "selectiveCache \<Rightarrow> string \<Rightarrow> int" where
  "frequency sc key = (case al_get (sl_frequencies sc) key of Some n \<Rightarrow> n | None \<Rightarrow> 0)"

definition checkCache :: "string \<Rightarrow> selectiveCache \<Rightarrow> (string \<times> int) option \<times> selectiveCache" where
  "checkCache content sc =
     (let key = makeCacheKey content
      in case al_get (sl_cache sc) key of
           Some cached \<Rightarrow> (Some cached, sc)
         | None \<Rightarrow> (None, sc\<lparr>sl_frequencies := al_put key (frequency sc key + 1) (sl_frequencies sc)\<rparr>))"

definition shouldCache :: "string \<Rightarrow> selectiveCache \<Rightarrow> bool" where
  "shouldCache content sc \<longleftrightarrow> frequency sc (makeCacheKey content) \<ge> sl_minHits sc"

text \<open>At least one entry is deleted, then as many as half of the bound.\<close>

definition evict_half :: "(string list \<Rightarrow> string list) \<Rightarrow> int \<Rightarrow> (string \<times> 'v) list \<Rightarrow> (string \<times> 'v) list" where
  "evict_half order maxEntries cache =
     foldl (\<lambda>m k. al_del k m) cache (take (nat (max 1 (go_div maxEntries 2))) (order (al_keys cache)))"

definition storeCache :: "(string list \<Rightarrow> string list) \<Rightarrow> string \<Rightarrow> string \<times> int \<Rightarrow> selectiveCache \<Rightarrow> selectiveCache" where
  "storeCache order content r sc =
     (if \<not> shouldCache content sc then sc
      else let cache = (if len (sl_cache sc) \<ge> sl_maxEntries sc then evict_half order (sl_maxEntries sc) (sl_cache sc) else sl_cache sc)
           in sc\<lparr>sl_cache := al_put (makeCacheKey content) r cache\<rparr>)"

section \<open>Sections\<close>

record HierarchicalFilter =
  hf_lineThreshold :: int
  hf_maxDepth :: int
  hf_useSemanticScoring :: bool

definition NewHierarchicalFilter :: HierarchicalFilter where
  "NewHierarchicalFilter = \<lparr>hf_lineThreshold = 500, hf_maxDepth = 3, hf_useSemanticScoring = True\<rparr>"

record hsection =
  hs_content :: string
  hs_startLine :: nat
  hs_endLine :: nat
  hs_level :: int
  hs_score :: rat
  hs_summary :: string

definition new_section :: "string list \<Rightarrow> nat \<Rightarrow> nat \<Rightarrow> int \<Rightarrow> hsection" where
  "new_section ls start stop level =
     \<lparr>hs_content = join_lines ls, hs_startLine = start, hs_endLine = stop, hs_level = level, hs_score = 0, hs_summary = []\<rparr>"

definition isQuickBoundary :: "string \<Rightarrow> bool" where
  "isQuickBoundary line =
     (case trimSpace line of
        [] \<Rightarrow> False
      | first # rest \<Rightarrow>
          (let trimmed = first # rest
           in first \<in> set ''=-+#'' \<or> first = CHR ''d'' \<and> length trimmed > 10 \<and> has_prefix trimmed ''diff --git'' \<or>
              ContainsAny trimmed [''test result:'', ''running '', ''error['', ''error:'', ''Compiling '', ''Building '', ''Finished '']))"

definition detectSectionLevel :: "string \<Rightarrow> int" where
  "detectSectionLevel line =
     (let trimmed = trimSpace line
      in if has_prefix trimmed ''==='' \<or> has_prefix trimmed ''##'' then 0
         else if has_prefix trimmed ''---'' then 1 else 2)"

definition isSectionBoundary :: "string \<Rightarrow> nat \<Rightarrow> string list \<Rightarrow> bool" where
  "isSectionBoundary line idx ls =
     (case trimSpace line of
        [] \<Rightarrow> idx > 0 \<and> idx + 1 < length ls \<and> (length (ls ! (idx - 1)) > 50 \<or> length (ls ! (idx + 1)) > 50)
      | first # rest \<Rightarrow>
          (let trimmed = first # rest
           in first = CHR ''='' \<and> has_prefix trimmed ''==='' \<or> first = CHR ''-'' \<and> has_prefix trimmed ''---'' \<or>
              first = CHR ''+'' \<and> has_prefix trimmed ''+++'' \<or> first = CHR ''#'' \<or>
              first = CHR ''d'' \<and> has_prefix trimmed ''diff --git'' \<or>
              ContainsAny trimmed [''test result:'', ''running '', '' tests'', ''Compiling '', ''Building '', ''Finished '', ''error['', ''error: '']))"

text \<open>The loop over the lines, with the current section, its start and its level.\<close>

fun full_loop :: "string list \<Rightarrow> hsection list \<Rightarrow> string list \<Rightarrow> nat \<Rightarrow> int \<Rightarrow> nat \<Rightarrow> string list \<Rightarrow> hsection list" where
  "full_loop ls sections current start level i [] =
     (if current \<noteq> [] then sections @ [new_section current start (length ls - 1) level] else sections)"
| "full_loop ls sections current start level i (line # rest) =
     (if isSectionBoundary line i ls \<and> current \<noteq> []
      then full_loop ls (sections @ [new_section current start (i - 1) level]) [line] i (detectSectionLevel line) (i + 1) rest
      else full_loop ls sections (current @ [line]) start level (i + 1) rest)"

definition segmentFull :: "string list \<Rightarrow> hsection list" where
  "segmentFull ls = full_loop ls [] [] 0 0 0 ls"

definition samplingRate :: "nat \<Rightarrow> nat" where
  "samplingRate lineCount = (if lineCount > 10000 then 20 else 10)"

text \<open>The lines that are looked at are the multiples of the rate.\<close>

definition likelyBoundaries :: "string list \<Rightarrow> nat list" where
  "likelyBoundaries ls =
     (let n = length ls; rate = samplingRate n
      in 0 # filter (\<lambda>i. i > 0 \<and> isQuickBoundary (ls ! i)) (map (\<lambda>k. k * rate) [0..<(n + rate - 1) div rate]) @ [n - 1])"

definition refinedStart :: "string list \<Rightarrow> nat \<Rightarrow> nat \<Rightarrow> nat" where
  "refinedStart ls b start =
     (if b > 0
      then case filter (\<lambda>i. isQuickBoundary (ls ! i)) [start - 5..<min (length ls - 1) (start + 5) + 1] of i # _ \<Rightarrow> i | [] \<Rightarrow> start
      else start)"

definition sampled_section :: "string list \<Rightarrow> nat \<times> nat \<times> nat \<Rightarrow> hsection list" where
  "sampled_section ls = (\<lambda>(b, start, stop).
     let refined = refinedStart ls b start; sectionEnd = min stop (length ls - 1)
     in if sectionEnd > refined
        then [new_section (take (sectionEnd + 1 - refined) (drop refined ls)) refined sectionEnd 0] else [])"

definition segmentWithSampling :: "string list \<Rightarrow> hsection list" where
  "segmentWithSampling ls =
     (let bs = likelyBoundaries ls in concat (map (sampled_section ls) (List.enumerate 0 (zip bs (tl bs)))))"

definition segmentIntoSections :: "string list \<Rightarrow> hsection list" where
  "segmentIntoSections ls = (if length ls > 500 then segmentWithSampling ls else segmentFull ls)"

section \<open>Scores and summaries\<close>

definition highKeywords :: "string list" where
  "highKeywords = [''error'', ''failed'', ''failure'', ''fatal'', ''panic'', ''exception'', ''critical'', ''bug'', ''security'',
     ''diff --git'', ''deleted'', ''added'', ''modified'']"

definition mediumKeywords :: "string list" where
  "mediumKeywords = [''warning'', ''deprecated'', ''todo'', ''fixme'', ''test'', ''assert'', ''expect'', ''verify'',
     ''function'', ''class'', ''struct'', ''interface'']"

definition fileExtensions :: "string list" where
  "fileExtensions = [''.go:'', ''.rs:'', ''.py:'', ''.js:'', ''.ts:'', ''.java:'', ''.cpp:'', ''.c:'', ''.json:'', ''.yaml:'', ''.yml:'', ''.toml:'', ''.md:'', ''.txt:'']"

definition matches_of :: "string list \<Rightarrow> string \<Rightarrow> int" where
  "matches_of kws content = len (filter (ContainsWord content) kws)"

definition fastSectionScore :: "hsection \<Rightarrow> rat" where
  "fastSectionScore s =
     (let content = hs_content s; highMatches = matches_of highKeywords content
      in if highMatches = 0 then if ContainsAny content fileExtensions then f64 (4/10) else f64 (2/10)
         else let score = fadd 0 (fmul (of_int64 highMatches) (f64 (15/100)));
                  score = (if ContainsAny content fileExtensions then fadd score (f64 (3/10)) else score)
              in if score > 1 then 1 else score)"

definition calculateSectionScore :: "hsection \<Rightarrow> rat" where
  "calculateSectionScore s =
     (let content = hs_content s;
          score = fadd 0 (fmul (of_int64 (matches_of highKeywords content)) (f64 (2/10)));
          score = fadd score (fmul (of_int64 (matches_of mediumKeywords content)) (f64 (1/10)));
          score = (if ContainsAny content [''.go:'', ''.rs:'', ''.py:'', ''.js:'', ''.ts:''] then fadd score (f64 (3/10)) else score);
          score = (if ContainsAny content [''at '', ''Traceback'', ''stack trace''] then fadd score (f64 (4/10)) else score);
          score = (if int (hs_endLine s) - int (hs_startLine s) + 1 > 100 then fmul score (f64 (8/10)) else score)
      in if score > 1 then 1 else score)"

definition ascii_letter :: "char \<Rightarrow> bool" where
  "ascii_letter c \<longleftrightarrow> 97 \<le> byte c \<and> byte c \<le> 122 \<or> 65 \<le> byte c \<and> byte c \<le> 90"

definition scoreLineForSummary :: "(string \<Rightarrow> string) \<Rightarrow> string \<Rightarrow> rat" where
  "scoreLineForSummary lower line =
     (let low = lower line;
          score = (if contains low ''error'' \<or> contains low ''failed'' then fadd 0 (f64 (5/10)) else 0);
          score = (if contains low ''test'' \<or> contains low ''pass'' then fadd score (f64 (3/10)) else score);
          score = (if length line < 60 then fadd score (f64 (2/10)) else score)
      in if list_ex ascii_letter line then score else fsub score (f64 (5/10)))"

definition cut_summary :: "string \<Rightarrow> string" where
  "cut_summary line = (if length line > 80 then take 77 line @ ''...'' else line)"

text \<open>The line with the first highest score.\<close>

definition better_line :: "(string \<Rightarrow> string) \<Rightarrow> string \<times> rat \<Rightarrow> string \<Rightarrow> string \<times> rat" where
  "better_line lower = (\<lambda>(bestLine, bestScore) line.
     let trimmed = trimSpace line; score = scoreLineForSummary lower trimmed
     in if trimmed = [] then (bestLine, bestScore) else if score > bestScore then (trimmed, score) else (bestLine, bestScore))"

definition generateSectionSummary :: "(string \<Rightarrow> string) \<Rightarrow> hsection \<Rightarrow> string" where
  "generateSectionSummary lower s =
     (let content = hs_content s
      in if length content > 5000
         then let text = dropWhile (\<lambda>c. c = nl) content; line = trimSpace (takeWhile (\<lambda>c. c \<noteq> nl) text)
              in if text = [] then ''[section]'' else if length line > 80 then cut_summary line
                 else if line = [] then ''[section]'' else line
         else let bestLine = fst (foldl (better_line lower) ([], - 1) (take 20 (split_lines content)))
              in if bestLine = [] then ''[section]'' else cut_summary bestLine)"

definition score_section :: "(string \<Rightarrow> string) \<Rightarrow> nat \<Rightarrow> hsection \<Rightarrow> hsection" where
  "score_section lower numSections s =
     (let s = s\<lparr>hs_score := (if numSections > 100 then fastSectionScore s else calculateSectionScore s)\<rparr>
      in if hs_score s \<ge> f64 (4/10) then s\<lparr>hs_summary := generateSectionSummary lower s\<rparr> else s)"

definition scoreSections :: "(string \<Rightarrow> string) \<Rightarrow> HierarchicalFilter \<Rightarrow> hsection list \<Rightarrow> hsection list" where
  "scoreSections lower f sections =
     (if \<not> hf_useSemanticScoring f then map (\<lambda>s. s\<lparr>hs_score := f64 (5/10)\<rparr>) sections
      else map (score_section lower (length sections)) sections)"

section \<open>The output\<close>

definition arrow :: string where "arrow = [CHR 0xE2, CHR 0x86, CHR 0x92]"
definition branch_line :: string where "branch_line = [CHR 0xE2, CHR 0x94, CHR 0x9C, CHR 0xE2, CHR 0x94, CHR 0x80]"

definition formatHeader :: "int \<Rightarrow> int \<Rightarrow> string" where
  "formatHeader totalLines sectionCount =
     [nl] @ ''[Hierarchical Summary: '' @ itoa totalLines @ '' lines '' @ arrow @ '' '' @ itoa sectionCount @ '' sections]'' @ [nl]"

definition formatScore :: "rat \<Rightarrow> string" where
  "formatScore score =
     (let intPart = go_trunc (fmul score 100); cents = intPart - 100 * go_div intPart 100
      in itoa (go_div intPart 100) @ ''.'' @ (if 0 \<le> cents \<and> cents < 10 then ''0'' else []) @ itoa cents)"

definition formatSummarySection :: "hsection \<Rightarrow> string" where
  "formatSummarySection s =
     [nl] @ branch_line @ '' [L'' @ itoa (int (hs_startLine s) + 1) @ ''-'' @ itoa (int (hs_endLine s) + 1) @ ''] '' @ hs_summary s @
     '' ('' @ itoa (int (hs_endLine s) - int (hs_startLine s) + 1) @ '' lines, score: '' @ formatScore (hs_score s) @ '')'' @ [nl]"

definition getThresholds :: "Mode \<Rightarrow> rat \<times> rat" where
  "getThresholds mode =
     (if mode = ModeAggressive then (f64 (7/10), f64 (4/10))
      else if mode = ModeMinimal then (f64 (5/10), f64 (25/100)) else (f64 (6/10), f64 (3/10)))"

definition shown_section :: "Mode \<Rightarrow> hsection \<Rightarrow> string list" where
  "shown_section mode s =
     (let (high, mid) = getThresholds mode
      in if hs_score s \<ge> high then [hs_content s] else if hs_score s \<ge> mid then [formatSummarySection s] else [])"

definition buildHierarchicalOutput :: "hsection list \<Rightarrow> Mode \<Rightarrow> int \<Rightarrow> string" where
  "buildHierarchicalOutput sections mode totalLines =
     join_lines (formatHeader totalLines (len sections) # concat (map (shown_section mode) sections))"

text \<open>The sections of some lines, scored and shown, with the tokens saved.\<close>

definition summarize_lines ::
  "(string \<Rightarrow> int) \<Rightarrow> (string \<Rightarrow> string) \<Rightarrow> HierarchicalFilter \<Rightarrow> Mode \<Rightarrow> string \<Rightarrow> hsection list \<Rightarrow> string \<times> int" where
  "summarize_lines est lower f mode input sections =
     (let output = buildHierarchicalOutput (scoreSections lower f sections) mode (len (split_lines input));
          saved = est input - est output
      in (output, if saved < 0 then 0 else saved))"

definition processChunk ::
  "(string \<Rightarrow> int) \<Rightarrow> (string \<Rightarrow> string) \<Rightarrow> HierarchicalFilter \<Rightarrow> string \<Rightarrow> Mode \<Rightarrow> string \<times> int" where
  "processChunk est lower f chunk mode =
     (let ls = split_lines chunk; sections = segmentIntoSections ls
      in if len ls < go_div (hf_lineThreshold f) 2
         then if length chunk > 100 then (take 100 chunk @ ''...'', est chunk - 25) else (chunk, 0)
         else if sections = [] then (chunk, 0)
         else summarize_lines est lower f mode chunk sections)"

text \<open>The chunk that starts at \<open>i\<close> ends after the last line break in it, if there is one after \<open>i\<close>.\<close>

function newline_before :: "string \<Rightarrow> nat \<Rightarrow> nat \<Rightarrow> nat" where
  "newline_before input i stop = (if stop > i \<and> input ! stop \<noteq> nl then newline_before input i (stop - 1) else stop)"
  by pat_completeness auto
termination
  by (relation "measure (\<lambda>(_, _, stop). stop)") auto

declare newline_before.simps [simp del]

definition chunk_end :: "nat \<Rightarrow> string \<Rightarrow> nat \<Rightarrow> nat" where
  "chunk_end chunkSize input i =
     (let stop = min (i + chunkSize) (length input)
      in if stop < length input
         then let p = newline_before input i stop in if p = i then i + chunkSize else p + 1
         else stop)"

definition chunk_at :: "nat \<Rightarrow> string \<Rightarrow> nat \<Rightarrow> string" where
  "chunk_at chunkSize input i = take (chunk_end chunkSize input i - i) (drop i input)"

text \<open>The loop goes from chunk size to chunk size.\<close>

definition chunk_starts :: "nat \<Rightarrow> string \<Rightarrow> nat list" where
  "chunk_starts chunkSize input = map (\<lambda>k. k * chunkSize) [0..<(length input + chunkSize - 1) div chunkSize]"

definition stream_chunks :: "nat \<Rightarrow> string \<Rightarrow> string list" where
  "stream_chunks chunkSize input = map (chunk_at chunkSize input) (chunk_starts chunkSize input)"

definition applyStreaming ::
  "(string \<Rightarrow> int) \<Rightarrow> (string \<Rightarrow> string) \<Rightarrow> HierarchicalFilter \<Rightarrow> string \<Rightarrow> Mode \<Rightarrow> string \<times> int" where
  "applyStreaming est lower f input mode =
     (let results = map (\<lambda>chunk. processChunk est lower f chunk mode) (stream_chunks 50000 input)
      in (join_lines (map fst results), sum_list (map snd results)))"

text \<open>What is done with a text that is not in the cache; \<open>None\<close> is the text as it is.\<close>

definition hier_process ::
  "(string \<Rightarrow> int) \<Rightarrow> (string \<Rightarrow> string) \<Rightarrow> HierarchicalFilter \<Rightarrow> string \<Rightarrow> Mode \<Rightarrow> (string \<times> int) option" where
  "hier_process est lower f input mode =
     (if go_div (len input) 40 < hf_lineThreshold f then None
      else if len input > 100000 then Some (applyStreaming est lower f input mode)
      else let ls = split_lines input; sections = segmentIntoSections ls
           in if len ls < hf_lineThreshold f then None
              else if sections = [] then None
              else Some (summarize_lines est lower f mode input sections))"

definition hier_Apply ::
  "(string \<Rightarrow> int) \<Rightarrow> (string \<Rightarrow> string) \<Rightarrow> (string list \<Rightarrow> string list) \<Rightarrow> HierarchicalFilter \<Rightarrow> string \<Rightarrow> Mode \<Rightarrow> selectiveCache \<Rightarrow>
    (string \<times> int) \<times> selectiveCache" where
  "hier_Apply est lower order f input mode sc =
     (if len input < hf_lineThreshold f * 40 then ((input, 0), sc)
      else case checkCache input sc of
             (Some cached, sc) \<Rightarrow> (cached, sc)
           | (None, sc) \<Rightarrow>
               (case hier_process est lower f input mode of
                  None \<Rightarrow> ((input, 0), sc)
                | Some r \<Rightarrow> (r, storeCache order input r sc)))"

definition SetLineThreshold :: "int \<Rightarrow> HierarchicalFilter \<Rightarrow> HierarchicalFilter" where
  "SetLineThreshold threshold f = f\<lparr>hf_lineThreshold := threshold\<rparr>"

definition SetMaxDepth :: "int \<Rightarrow> HierarchicalFilter \<Rightarrow> HierarchicalFilter" where
  "SetMaxDepth depth f = f\<lparr>hf_maxDepth := depth\<rparr>"

section \<open>The cache answers for another text\<close>

lemma same_key: "length a = length b \<Longrightarrow> take 100 a = take 100 b \<Longrightarrow> makeCacheKey a = makeCacheKey b"
  by (simp add: makeCacheKey_def)

lemma frequency_put [simp]: "frequency (sc\<lparr>sl_frequencies := al_put k n (sl_frequencies sc)\<rparr>) k = n"
  by (simp add: frequency_def)

lemma frequency_cache [simp]: "frequency (sc\<lparr>sl_cache := c\<rparr>) k = frequency sc k"
  by (simp add: frequency_def)

lemma hier_Apply_hit:
  assumes "al_get (sl_cache sc) (makeCacheKey input) = Some r" "hf_lineThreshold f * 40 \<le> len input"
  shows "hier_Apply est lower order f input mode sc = (r, sc)"
  using assms by (simp add: hier_Apply_def checkCache_def Let_def)

lemma hier_Apply_miss:
  assumes "al_get (sl_cache sc) (makeCacheKey input) = None" "hf_lineThreshold f * 40 \<le> len input"
    and "hier_process est lower f input mode = Some r"
  shows "hier_Apply est lower order f input mode sc =
    (r, storeCache order input r (sc\<lparr>sl_frequencies := al_put (makeCacheKey input) (frequency sc (makeCacheKey input) + 1) (sl_frequencies sc)\<rparr>))"
  using assms by (simp add: hier_Apply_def checkCache_def Let_def)

lemma storeCache_stores:
  "sl_minHits sc \<le> frequency sc (makeCacheKey input) \<Longrightarrow> al_get (sl_cache (storeCache order input r sc)) (makeCacheKey input) = Some r"
  by (simp add: storeCache_def shouldCache_def Let_def)

text \<open>
  C35: once the hierarchical filter has shortened a text for the second time, it answers every text of the same
  length with the same first hundred bytes with the same result, whatever its other bytes, in every mode and for
  every filter: what is shown is another text.
\<close>

theorem hierarchical_cache_confuses:
  assumes "al_get (sl_cache sc) (makeCacheKey a) = None" "sl_minHits sc \<le> frequency sc (makeCacheKey a) + 1"
    and "hf_lineThreshold f * 40 \<le> len a" "hier_process est lower f a mode = Some r"
    and "length b = length a" "take 100 b = take 100 a" "hf_lineThreshold f' * 40 \<le> len b"
  shows "\<exists>sc'. hier_Apply est lower order f a mode sc = (r, sc') \<and> hier_Apply est' lower' order' f' b mode' sc' = (r, sc')"
proof -
  let ?k = "makeCacheKey a"
  let ?sc = "sc\<lparr>sl_frequencies := al_put ?k (frequency sc ?k + 1) (sl_frequencies sc)\<rparr>"
  have "al_get (sl_cache (storeCache order a r ?sc)) (makeCacheKey b) = Some r"
    using storeCache_stores [of ?sc a order r] assms(2) same_key [OF assms(5,6)] by simp
  then show ?thesis using hier_Apply_miss [OF assms(1,3,4)] hier_Apply_hit [OF _ assms(7)] by metis
qed

section \<open>The cache is bounded\<close>

lemma foldl_al_del_filter: "foldl (\<lambda>m k. al_del k m) m ks = filter (\<lambda>(k, _). k \<notin> set ks) m"
  by (induction ks arbitrary: m) (auto simp: al_del_def intro!: filter_cong)

lemma evict_half_shorter:
  assumes "set (order (al_keys cache)) = set (al_keys cache)" "cache \<noteq> []"
  shows "len (evict_half order n cache) < len cache"
proof -
  obtain k ks where o: "order (al_keys cache) = k # ks" using assms by (cases "order (al_keys cache)") auto
  obtain m where m: "nat (max 1 (go_div n 2)) = Suc m" by (cases "nat (max 1 (go_div n 2))") auto
  have "k \<in> fst ` set cache" using assms(1) o by (metis list.set_intros(1) list.set_map)
  then obtain v where "(k, v) \<in> set cache" by auto
  then show ?thesis
    unfolding evict_half_def foldl_al_del_filter o m by (auto intro!: length_filter_less)
qed

lemma storeCache_bounded:
  assumes "\<And>ks. set (order ks) = set ks" "1 \<le> sl_maxEntries sc" "len (sl_cache sc) \<le> sl_maxEntries sc"
  shows "len (sl_cache (storeCache order content r sc)) \<le> sl_maxEntries sc"
proof (cases "len (sl_cache sc) \<ge> sl_maxEntries sc")
  case True
  then have "sl_cache sc \<noteq> []" using assms(2) by auto
  then have "len (evict_half order (sl_maxEntries sc) (sl_cache sc)) < len (sl_cache sc)"
    by (rule evict_half_shorter [where order = order, OF assms(1)])
  then show ?thesis using assms(3) by (auto simp: storeCache_def Let_def length_al_put)
qed (use assms in \<open>auto simp: storeCache_def Let_def length_al_put\<close>)

section \<open>No line is lost by the sections\<close>

definition lines_of :: "string list \<Rightarrow> nat \<Rightarrow> nat \<Rightarrow> string list" where
  "lines_of ls start stop = take (stop + 1 - start) (drop start ls)"

lemma lines_of_middle: "current \<noteq> [] \<Longrightarrow> lines_of (pre @ current @ rest) (length pre) (length pre + length current - 1) = current"
  by (simp add: lines_of_def)

lemma full_loop_sections:
  assumes "ls = pre @ current @ rest" "start = length pre" "i = length pre + length current" "\<forall>l \<in> set ls. nl \<notin> set l"
    and "concat (map (split_lines \<circ> hs_content) sections) = pre"
    and "\<forall>s \<in> set sections. hs_content s = join_lines (lines_of ls (hs_startLine s) (hs_endLine s))"
  shows "concat (map (split_lines \<circ> hs_content) (full_loop ls sections current start level i rest)) = ls \<and>
    (\<forall>s \<in> set (full_loop ls sections current start level i rest). hs_content s = join_lines (lines_of ls (hs_startLine s) (hs_endLine s)))"
  using assms
proof (induction ls sections current start level i rest arbitrary: pre rule: full_loop.induct)
  case (1 ls sections current start level i)
  then show ?case using lines_of_middle [of current pre "[]"] by (auto simp: new_section_def split_join)
next
  case (2 ls sections current start level i line rest)
  show ?case
  proof (cases "isSectionBoundary line i ls \<and> current \<noteq> []")
    case True
    let ?s = "new_section current start (i - 1) level"
    have "split_lines (hs_content ?s) = current" using True 2(3,6) by (simp add: new_section_def split_join)
    then have 1: "concat (map (split_lines \<circ> hs_content) (sections @ [?s])) = pre @ current"
      unfolding map_append concat_append 2(7) by simp
    have "lines_of ls start (i - 1) = current" using True lines_of_middle [of current pre "line # rest"] 2(3,4,5) by simp
    then have 3: "\<forall>s \<in> set (sections @ [?s]). hs_content s = join_lines (lines_of ls (hs_startLine s) (hs_endLine s))"
      using 2(8) by (simp add: new_section_def)
    show ?thesis unfolding full_loop.simps if_P [OF True]
      by (rule 2(1) [OF True _ _ _ 2(6) 1 3]) (use 2(3-5) in simp_all)
  next
    case False
    show ?thesis unfolding full_loop.simps if_not_P [OF False]
      by (rule 2(2) [OF False _ 2(4) _ 2(6,7,8)]) (use 2(3,5) in simp_all)
  qed
qed

text \<open>The sections of a text hold its lines, in order, and each is the text between its first and its last line.\<close>

lemma segmentFull_lines:
  assumes "\<forall>l \<in> set ls. nl \<notin> set l"
  shows "concat (map (split_lines \<circ> hs_content) (segmentFull ls)) = ls"
    "\<forall>s \<in> set (segmentFull ls). hs_content s = join_lines (lines_of ls (hs_startLine s) (hs_endLine s))"
  using full_loop_sections [of ls "[]" "[]" ls 0 0 "[]" 0] assms by (simp_all add: segmentFull_def)


text \<open>
  Sampling loses no line either: a section starts at or before its boundary and ends at the next one, so every line is
  in a section; the boundaries themselves, and up to five lines before them, are in two.
\<close>

lemma first_filter_le: "x \<in> set (filter P xs) \<Longrightarrow> sorted xs \<Longrightarrow> \<exists>i js. filter P xs = i # js \<and> i \<le> (x :: nat)"
  by (induction xs) auto

lemma refinedStart_le:
  assumes "isQuickBoundary (ls ! start) \<or> b = 0" "start < length ls" shows "refinedStart ls b start \<le> start"
proof (cases "b = 0")
  case False
  have "start \<in> set (filter (\<lambda>i. isQuickBoundary (ls ! i)) [start - 5..<min (length ls - 1) (start + 5) + 1])"
    using assms False by (auto simp del: upt_Suc)
  from first_filter_le [OF this sorted_upt] show ?thesis using False by (auto simp: refinedStart_def)
qed (simp add: refinedStart_def)

lemma likely_form:
  assumes "1 < length ls"
  shows "\<exists>bs. likelyBoundaries ls = 0 # bs @ [length ls - 1] \<and> (\<forall>b \<in> set bs. 0 < b \<and> b < length ls \<and> isQuickBoundary (ls ! b)) \<and>
    sorted (likelyBoundaries ls)"
proof -
  let ?n = "length ls" and ?r = "samplingRate (length ls)"
  let ?m = "map (\<lambda>k. k * ?r) [0..<(?n + ?r - 1) div ?r]"
  let ?bs = "filter (\<lambda>i. i > 0 \<and> isQuickBoundary (ls ! i)) ?m"
  have r: "0 < ?r" by (simp add: samplingRate_def)
  have lt: "k * ?r < ?n" if "k < (?n + ?r - 1) div ?r" for k
  proof -
    have "Suc k * ?r \<le> ?n + ?r - 1" using that by (metis Suc_leI div_le_mono2 less_eq_div_iff_mult_less_eq r)
    then show ?thesis using r by simp
  qed
  have "sorted ?m" by (simp add: sorted_iff_nth_mono)
  then have "sorted ?bs" using sorted_filter [of "\<lambda>x. x" ?m] by simp
  moreover have "\<forall>b \<in> set ?bs. b < ?n" using lt by auto
  ultimately show ?thesis
    by (intro exI [of _ ?bs]) (auto simp: likelyBoundaries_def Let_def sorted_append)
qed

lemma between_boundaries:
  "sorted (x # bs) \<Longrightarrow> x \<le> i \<Longrightarrow> i \<le> last (x # bs) \<Longrightarrow> bs \<noteq> [] \<Longrightarrow>
   \<exists>k < length bs. (k = 0 \<or> (x # bs) ! k < i) \<and> (x # bs) ! k \<le> i \<and> i \<le> bs ! k"
proof (induction bs arbitrary: x)
  case (Cons y bs)
  show ?case
  proof (cases "i \<le> y")
    case False
    then have "bs \<noteq> []" using Cons.prems by auto
    then have "\<exists>k < length bs. (k = 0 \<or> (y # bs) ! k < i) \<and> (y # bs) ! k \<le> i \<and> i \<le> bs ! k"
      by (intro Cons.IH) (use Cons.prems False in auto)
    then obtain k where "k < length bs" "k = 0 \<or> (y # bs) ! k < i" "(y # bs) ! k \<le> i" "i \<le> bs ! k" by blast
    then show ?thesis using False by (intro exI [of _ "Suc k"]) auto
  qed (use Cons.prems in auto)
qed simp

lemma sampling_covers:
  assumes "1 < length ls" "i < length ls"
  shows "\<exists>s \<in> set (segmentWithSampling ls). hs_startLine s \<le> i \<and> i \<le> hs_endLine s \<and>
    hs_content s = join_lines (lines_of ls (hs_startLine s) (hs_endLine s))"
proof -
  obtain bs where bs: "likelyBoundaries ls = 0 # bs @ [length ls - 1]" "\<forall>b \<in> set bs. 0 < b \<and> b < length ls \<and> isQuickBoundary (ls ! b)"
    "sorted (likelyBoundaries ls)" using likely_form [OF assms(1)] by blast
  let ?B = "bs @ [length ls - 1]"
  obtain k where k: "k < length ?B" "k = 0 \<or> (0 # ?B) ! k < i" "i \<le> ?B ! k"
  proof -
    have "i \<le> last (0 # ?B)" using assms(2) by simp
    then show ?thesis using between_boundaries [of 0 ?B i] bs(1,3) that by auto
  qed
  let ?start = "(0 # ?B) ! k"
  have pos: "0 < ?B ! 0" using bs(2) assms(1) by (cases bs) auto
  have st: "?start < length ls \<and> (isQuickBoundary (ls ! ?start) \<or> k = 0)"
    using k(1) bs(2) assms by (cases k) (auto simp: nth_append)
  have r: "refinedStart ls k ?start \<le> ?start" using st by (intro refinedStart_le) auto
  have lt: "refinedStart ls k ?start < min (?B ! k) (length ls - 1) \<and> refinedStart ls k ?start \<le> i"
  proof (cases "k = 0")
    case True
    then have "refinedStart ls k ?start = 0" using r by simp
    then show ?thesis using True pos assms by simp
  next
    case False
    then have "refinedStart ls k ?start < i" using r k(2) by simp
    then show ?thesis using k(3) assms(2) by simp
  qed
  have "(k, ?start, ?B ! k) \<in> set (List.enumerate 0 (zip (0 # ?B) (tl (0 # ?B))))"
    using k(1) by (auto simp: in_set_enumerate_eq set_zip nth_append)
  then have m: "new_section (take (min (?B ! k) (length ls - 1) + 1 - refinedStart ls k ?start) (drop (refinedStart ls k ?start) ls))
      (refinedStart ls k ?start) (min (?B ! k) (length ls - 1)) 0 \<in> set (segmentWithSampling ls)"
    using lt unfolding segmentWithSampling_def bs(1) Let_def by (force simp: sampled_section_def Let_def)
  show ?thesis using lt k(3) assms(2) by (intro bexI [OF _ m]) (auto simp: new_section_def lines_of_def)
qed

section \<open>What streaming loses\<close>

lemma newline_before_found:
  "i < p \<Longrightarrow> p \<le> stop \<Longrightarrow> input ! p = nl \<Longrightarrow> \<forall>j. p < j \<and> j \<le> stop \<longrightarrow> input ! j \<noteq> nl \<Longrightarrow> newline_before input i stop = p"
proof (induction "stop - p" arbitrary: stop)
  case 0
  then show ?case by (simp add: newline_before.simps)
next
  case (Suc n)
  then have "newline_before input i (stop - 1) = p" by (intro Suc.hyps(1)) auto
  then show ?case using Suc by (subst newline_before.simps) auto
qed

lemma newline_before_le: "newline_before input i stop \<le> stop"
proof (induction input i stop rule: newline_before.induct)
  case (1 input i stop)
  then show ?case by (subst newline_before.simps) auto
qed

lemma chunk_end_le: "chunk_end n input i \<le> i + n + 1"
  using newline_before_le [of input i "min (i + n) (length input)"] by (auto simp: chunk_end_def Let_def)

lemma chunk_starts_multiple: "i \<in> set (chunk_starts n input) \<Longrightarrow> \<exists>k. i = k * n"
  by (auto simp: chunk_starts_def)

text \<open>
  C18: the streaming of very long texts loses text: a chunk ends after its last line break, but the next one starts a
  chunk size later, so that what is between is in no chunk, and not in the output.
\<close>

theorem streaming_loses_text:
  assumes "i \<in> set (chunk_starts n input)" "i + n < length input"
    and "i < p" "p \<le> i + n" "input ! p = nl" "\<forall>j. p < j \<and> j \<le> i + n \<longrightarrow> input ! j \<noteq> nl" "p < j" "j < i + n"
  shows "\<forall>i' \<in> set (chunk_starts n input). \<not> (i' \<le> j \<and> j < chunk_end n input i')"
proof (intro ballI notI, elim conjE)
  fix i' assume i': "i' \<in> set (chunk_starts n input)" "i' \<le> j" "j < chunk_end n input i'"
  obtain k k' where k: "i = k * n" "i' = k' * n" using chunk_starts_multiple assms(1) i'(1) by meson
  have "newline_before input i (i + n) = p" using assms(3-6) by (intro newline_before_found) auto
  then have e: "chunk_end n input i = p + 1" using assms(2,3) by (simp add: chunk_end_def Let_def)
  consider "k' < k" | "k' = k" | "k < k'" by linarith
  then show False
  proof cases
    case 1
    then have "i' + n \<le> i" using k by (metis Suc_leI add.commute mult_Suc mult_le_mono1)
    then show ?thesis using chunk_end_le [of n input i'] i'(3) assms(3,7) by linarith
  next
    case 2
    then show ?thesis using i'(3) k e assms(7) by simp
  next
    case 3
    then have "i + n \<le> i'" using k by (metis Suc_leI add.commute mult_Suc mult_le_mono1)
    then show ?thesis using i'(2) assms(8) by simp
  qed
qed

text \<open>A chunk of few lines is cut to its first hundred bytes, whatever is in the rest.\<close>

lemma long_lines_cut:
  assumes "len (split_lines chunk) < go_div (hf_lineThreshold f) 2" "100 < length chunk"
  shows "processChunk est lower f chunk mode = (take 100 chunk @ ''...'', est chunk - 25)"
  using assms by (simp add: processChunk_def Let_def)

text \<open>Keywords are found in small letters only.\<close>

lemma capitals_not_scored: "calculateSectionScore (new_section [''FATAL ERROR: Disk Failed''] 0 0 0) = 0"
  by code_simp

definition demo_text :: "char \<Rightarrow> string" where
  "demo_text c = replicate 110 (CHR ''x'') @ [c]"

lemma demo_processed: "hier_process est lower (SetLineThreshold 1 NewHierarchicalFilter) (demo_text c) mode \<noteq> None"
proof -
  have s: "segmentFull ls \<noteq> []" if "ls \<noteq> []" "\<forall>l \<in> set ls. nl \<notin> set l" for ls
    using segmentFull_lines(1) [OF that(2)] that(1) by auto
  have "length (split_lines (demo_text c)) \<le> 500" using length_split_on [of nl "demo_text c"] by (simp add: demo_text_def split: if_splits)
  then have "segmentIntoSections (split_lines (demo_text c)) \<noteq> []"
    using s [of "split_lines (demo_text c)"] by (auto simp: segmentIntoSections_def split_no_sep)
  moreover have "1 \<le> len (split_lines (demo_text c))" by (cases "split_lines (demo_text c)") auto
  ultimately show ?thesis by (simp add: hier_process_def SetLineThreshold_def demo_text_def Let_def)
qed

lemma hierarchical_cache_confuses_witness:
  "\<exists>r sc'. hier_Apply len (\<lambda>s. s) (\<lambda>ks. ks) (SetLineThreshold 1 NewHierarchicalFilter) (demo_text CHR ''a'') ModeMinimal
       (globalSelectiveCache\<lparr>sl_minHits := 1\<rparr>) = (r, sc') \<and>
     hier_Apply len (\<lambda>s. s) (\<lambda>ks. ks) (SetLineThreshold 1 NewHierarchicalFilter) (demo_text CHR ''b'') ModeAggressive sc' = (r, sc')"
proof -
  let ?f = "SetLineThreshold 1 NewHierarchicalFilter"
  obtain r where r: "hier_process len (\<lambda>s. s) ?f (demo_text CHR ''a'') ModeMinimal = Some r"
    using demo_processed by blast
  have "\<exists>sc'. hier_Apply len (\<lambda>s. s) (\<lambda>ks. ks) ?f (demo_text CHR ''a'') ModeMinimal (globalSelectiveCache\<lparr>sl_minHits := 1\<rparr>) = (r, sc') \<and>
      hier_Apply len (\<lambda>s. s) (\<lambda>ks. ks) ?f (demo_text CHR ''b'') ModeAggressive sc' = (r, sc')"
    by (rule hierarchical_cache_confuses [OF _ _ _ r])
      (simp_all add: globalSelectiveCache_def SetLineThreshold_def demo_text_def frequency_def)
  then show ?thesis by blast
qed

lemma streaming_loses_text_witness:
  "[i' \<leftarrow> chunk_starts 4 (''a'' @ [nl] @ ''bcdefgh''). i' \<le> 2 \<and> 2 < chunk_end 4 (''a'' @ [nl] @ ''bcdefgh'') i'] = [] \<and>
   (0::nat) \<in> set (chunk_starts 4 (''a'' @ [nl] @ ''bcdefgh''))"
proof
  have "\<forall>i' \<in> set (chunk_starts 4 (''a'' @ [nl] @ ''bcdefgh'')). \<not> (i' \<le> 2 \<and> 2 < chunk_end 4 (''a'' @ [nl] @ ''bcdefgh'') i')"
  proof (rule streaming_loses_text [of 0 _ _ 1])
    show "\<forall>j. 1 < j \<and> j \<le> 0 + 4 \<longrightarrow> (''a'' @ [nl] @ ''bcdefgh'') ! j \<noteq> nl"
      by (auto simp: less_Suc_eq_le le_Suc_eq numeral_eq_Suc)
  qed (simp_all add: chunk_starts_def)
  then show "[i' \<leftarrow> chunk_starts 4 (''a'' @ [nl] @ ''bcdefgh''). i' \<le> 2 \<and> 2 < chunk_end 4 (''a'' @ [nl] @ ''bcdefgh'') i'] = []"
    by (simp only: filter_empty_conv)
  show "(0::nat) \<in> set (chunk_starts 4 (''a'' @ [nl] @ ''bcdefgh''))"
    by (simp add: chunk_starts_def)
qed

lemma streaming_example: "stream_chunks 4 (''a'' @ [nl] @ ''bcdefgh'') = [''a'' @ [nl], ''defg'', ''h'']"
  by code_simp

end
