(* ===== verification/Spec2Isabelle.thy ===== *)
theory Spec2Isabelle
  imports Estimator Cache_Contract LRU_Cache Multi_Cache Circuit_Breaker Presets Fingerprint_Cache
    Dedup Filter_Engine Session Read_Modes Undo_Manager Access_Control Meta_Token Stream_Pipeline Stream_IO
    Pipeline_Manager Simd Delta_Manager Code_Filters Gist_Filter Scope_Filter KV_Cache Question_Aware
    Toml_Trust Toml_Safety Fallback Hash_Cache Discover_Correct Integrity Abbreviation Sketch_Store Agent_Hooks Context_Read Canary H2O Lazy_Pruner Compaction_Correct User_Config Hierarchical
begin

text \<open>
  TokMan runs a command, shortens what the command prints, and hands the shorter text to a
  language model. This library models the part of it that decides what is shown: the command
  runner and its fallback handler, the declarative filters written in TOML, the compression
  pipeline with its gates, layers, budget and feedback, the manager around the pipeline, the caches,
  the estimate of tokens, and a number of filters and stand-alone components. Paths below are
  under \<^verbatim>\<open>src/internal\<close>.

  \<^bold>\<open>How the parts interact.\<close> An agent's hook has its shell commands rewritten by \<open>Discover.RewriteCommand\<close>, so
  that tokman runs them; before it does, \<open>Integrity.RuntimeCheck\<close> checks that the hook was not changed.
  \<open>Fallback.Handle\<close> checks the arguments, looks the command up in the
  registry of declarative rules (\<open>Toml_Rules\<close>, loaded by \<open>Toml_Trust.LoadAll\<close>), runs it, filters its
  output with the rule (\<open>Toml_Filter.toml_Apply\<close>) and then with a fresh pipeline coordinator
  (\<open>Pipeline_Init.NewPipelineCoordinator\<close>, \<open>Pipeline.Process\<close>), records the savings with the estimate
  of \<open>Estimator\<close> and saves the full output of a failed command. \<open>Pipeline_Manager\<close> is the other way
  into the pipeline: it adds a result cache (\<open>LRU_Cache\<close>), chunking, validation and fail-safe mode.
  A pipeline run is a fixed sequence of stages; a stage is a gate (\<open>Pipeline_Gates\<close>) and a filter.

  \<^bold>\<open>Which theory models what.\<close>
  \<^item> \<open>Go_Prelude\<close>, \<open>Go_Strings\<close>, \<open>Go_Utf8\<close>, \<open>Go_Float\<close>: what the code uses of Go. Strings are byte
    lists; maps are association lists in iteration order; runes are decoded as \<^verbatim>\<open>unicode/utf8\<close>
    does; \<^verbatim>\<open>float64\<close> is arithmetic on rationals, each operation rounded to nearest even
    (\<open>f64\<close>). The named collections \<open>go_str\<close> and \<open>go_inv\<close> carry the shared facts.
  \<^item> \<open>Estimator\<close>: \<^verbatim>\<open>core/estimator.go\<close>. The cache of counts, the lazy tokenizer; refinement to
    a pure function of the text, and its invariant under interleaved critical sections.
  \<^item> \<open>Cache_Contract\<close> (the locales of the caches), \<open>LRU_Cache\<close>, \<open>Multi_Cache\<close>,
    \<open>Fingerprint_Cache\<close>: \<^verbatim>\<open>cache/*.go\<close>. Size bounds, eviction order, refinement of a map.
  \<^item> \<open>Circuit_Breaker\<close>: \<^verbatim>\<open>circuitbreaker/breaker.go\<close> as a state machine with its reachable
    states, and the half-open state that can get stuck.
  \<^item> \<open>Pipeline_Types\<close>, \<open>Filter_Configs\<close>, \<open>Pipeline_Init\<close>, \<open>Pipeline_Gates\<close>, \<open>Pipeline\<close>,
    \<open>Pipeline_Correct\<close>, \<open>Presets\<close>: \<^verbatim>\<open>filter/pipeline_*.go\<close> and \<^verbatim>\<open>presets.go\<close>. A run
    refines the abstract chain of the filters, never panics, keeps its books and its budget.
    The locale \<open>honest_filter\<close> is the contract of a filter that reports what it saves.
  \<^item> \<open>Budget\<close>, \<open>Attention_Sink\<close>, \<open>Feedback\<close>, \<open>SmallKV\<close>, \<open>Meta_Token\<close>, \<open>Question_Aware\<close>,
    \<open>Scope_Filter\<close>, \<open>KV_Cache\<close>, \<open>Gist_Filter\<close>, \<open>Code_Filters\<close> (with \<open>Regex_Match\<close>), \<open>Simd\<close>,
    \<open>Session\<close>, \<open>Dedup\<close>, \<open>Read_Modes\<close>, \<open>Filter_Engine\<close>: filters of \<^verbatim>\<open>filter/\<close> under the file
    names that the theories give, and \<^verbatim>\<open>simd/\<close>. What each keeps, drops and reports.
  \<^item> \<open>Pipeline_Manager\<close>: \<^verbatim>\<open>filter/manager.go\<close>.
  \<^item> \<open>Stream_Pipeline\<close>, \<open>Stream_IO\<close>: \<^verbatim>\<open>streaming/\<close>. Workers and collector, with the order of
    arrival as a permutation; writers over the locale \<open>io_writer\<close>, the arena, the line scanner.
  \<^item> \<open>Delta_Manager\<close>, \<open>Undo_Manager\<close>, \<open>Access_Control\<close>: \<^verbatim>\<open>delta/\<close>, \<^verbatim>\<open>undo/\<close>, \<^verbatim>\<open>rbac/\<close> and
    \<^verbatim>\<open>permissions/\<close>.
  \<^item> \<open>Toml_Rules\<close>, \<open>Toml_Filter\<close>, \<open>Toml_Safety\<close>, \<open>Toml_Trust\<close>: \<^verbatim>\<open>toml/*.go\<close>. Parsing of decoded
    documents, validation, lookup in any order of the maps, the eight stages of the engine, the
    safety check, the two mechanisms of trust.
  \<^item> \<open>Fallback\<close>: \<^verbatim>\<open>commands/shared/fallback.go\<close>, \<^verbatim>\<open>utils.go\<close>, \<^verbatim>\<open>core/runner.go\<close>.
  \<^item> \<open>Regex_Find\<close>, \<open>Discover\<close>, \<open>Discover_Correct\<close>: \<^verbatim>\<open>discover/registry.go\<close>, which the hook of an agent asks
    for the tokman form of a shell command. Matching with submatches, proved against the matches there
    are; a line is rewritten command by command, a rewritten command is not rewritten again, what
    happens to its arguments, and where quotes and git options go wrong.
  \<^item> \<open>Go_Path\<close>, \<open>Integrity\<close>: \<^verbatim>\<open>integrity/integrity.go\<close>, the gate that compares the hook with its stored
    hash before a command runs: what it detects and what it lets through.
  \<^item> \<open>Hash_Cache\<close>: \<^verbatim>\<open>mcp/cache.go\<close>, a cache with a limit on entries and one on memory: its books over any
    run of operations, which entries an eviction keeps, and the operations that exceed the limits.
  \<^item> \<open>Abbreviation\<close>, \<open>Sketch_Store\<close>: \<^verbatim>\<open>filter/ngram.go\<close>, \<^verbatim>\<open>filter/tdd.go\<close>, \<^verbatim>\<open>tdd/encoder.go\<close> and
    \<^verbatim>\<open>filter/sketch_store.go\<close>.
  \<^item> \<open>Agent_Hooks\<close>: \<^verbatim>\<open>commands/hooks/hook.go\<close>, what the hook of an agent answers: it allows more than it rewrites.
  \<^item> \<open>Context_Read\<close>: \<^verbatim>\<open>contextread/*.go\<close>, smart reads of files over the LRU cache, the read modes and the engine: they
    answer in every mode, the store keeps its bounds, and what the cache of renderings gets wrong: stale deltas
    and cut renderings.
  \<^item> \<open>Lock_Steps\<close>, \<open>Canary\<close>: threads that share a read-write mutex, with mutual exclusion and deadlock in general, and
    \<^verbatim>\<open>canary/deployer.go\<close> over it: \<^verbatim>\<open>Start\<close> waits for the mutex it holds, and what a run of the phases would do.
  \<^item> \<open>Max_Heap\<close>, \<open>H2O\<close>: the heap of \<^verbatim>\<open>container/heap\<close> with the locale \<open>max_queue\<close> of its contract, and \<^verbatim>\<open>filter/h2o.go\<close>, which
    takes the tokens of the highest scores from it.
  \<^item> \<open>Position_Aware\<close>, \<open>Lazy_Pruner\<close>: \<^verbatim>\<open>filter/position_aware.go\<close> and \<^verbatim>\<open>filter/lazy_pruner.go\<close>, for any sort by score: what is
    repeated, kept, stored and revived.
  \<^item> \<open>Compaction\<close>, \<open>Compaction_Correct\<close>: \<^verbatim>\<open>filter/compaction.go\<close>, the parsing of a conversation into turns, the snapshot, the cache.
    The turns hold the lines of the text; savings are true; with the configuration of the pipeline the recent turns
    but the last leave no trace; the layer does not panic if lowering a text keeps its length.
  \<^item> \<open>User_Config\<close>: \<^verbatim>\<open>config/*.go\<close> and \<^verbatim>\<open>commands/shared/config.go\<close>. What loads without an error is valid; what is refused is
    returned to later callers; which settings never reach the pipeline.
  \<^item> \<open>Hierarchical\<close>: \<^verbatim>\<open>filter/hierarchical.go\<close>, sections, scores, chunks and a cache shared by all filters. The sections hold
    all lines, sampled or not, and the cache is bounded; but it answers for other texts, and streaming loses text between
    its chunks.

  \<^bold>\<open>Parameters.\<close> Code that is not in the repository, or that the model leaves open, is an argument:
  \<open>est\<close> the token estimate as a function of the text (which \<open>Estimator\<close> justifies), \<open>lower\<close> the
  lower-casing of Unicode text, \<open>sha\<close> and \<open>sha_hex\<close> the hash, \<open>codec\<close> the BPE encoder, \<open>compile\<close> the
  regular expressions of declarative rules, \<open>unmarshal\<close> the TOML decoder, \<open>FilterLib\<close> and \<open>EngineLib\<close>
  records of the constructors of filters that are not modelled, \<open>iter\<close> and \<open>order\<close> the orders in which
  maps are traversed, the clock, the file system and the process that a command starts. A theorem
  that needs something of a parameter says so in a hypothesis, and its witness instantiates it.

  \<^bold>\<open>Panics, errors and loops.\<close> A panic is the value \<open>None\<close> of an option around the result, an error
  the left summand of a sum or an optional error beside the result. Loops are structural recursion,
  folds, or functions with a measure; where the code's loop need not end, as the eviction loop of
  the LRU cache and the compression loop of the meta-token filter, it is a partial function into
  an option, and that it returns is proved. Two helpers take a fuel, the removal of white space and
  the splitting into fields; it is the length of the text, and each step removes at least one byte.
  Integers are mathematical: they are lengths, counts and sizes far from 64 bits; hashes and bit
  sets are words.

  \<^bold>\<open>Concurrency.\<close> A method that holds one mutex throughout is one atomic step. Where critical
  sections of one operation are separate (the token cache) or results arrive in any order (the
  streaming pipeline), interleavings and permutations are explicit.

  \<^bold>\<open>Not modelled.\<close> The bodies of the filters that are heuristics over word statistics or large
  tables of patterns (they are arguments of the pipeline, whose theorems hold for any of them);
  parsing of command lines, terminal output, HTTP, gRPC and MCP transport, the SQLite store of the
  tracker and the reports over it, calls to model providers, and generated code: they are input and
  output around the logic modelled here. The theories name what they leave out of a file.
\<close>

end
